(* ===== verification/Prelude.thy ===== *)
theory Prelude
  imports Complex_Main "HOL-Library.AList" "HOL-Library.Char_ord"
begin

text \<open>
  What the component theories share: the operations of Qt's string and list classes that the
  program uses, association lists standing for its hash maps, and the interface
  \<open>invariant_machine\<close> (an initial state, a step function and a property every step keeps),
  which each stateful component interprets on its own operations.

  A \<open>QString\<close> is a \<^typ>\<open>string\<close>: one \<^typ>\<open>char\<close> per code unit, so text is
  modelled on the Latin-1 range (code units 0 to 255). The character classes below are those of
  \<open>QChar\<close> and of \<open>QRegularExpression\<close> on that range.
\<close>

named_theorems inv_intro \<open>operations keep the invariant of their component\<close>
named_theorems frame_simp \<open>fields an operation does not write\<close>

section \<open>Characters\<close>

definition code :: "char \<Rightarrow> int" where
  "code c = of_char c"

text \<open>\<open>QChar::isSpace\<close>: tab to carriage return, space, next line, no-break space.\<close>

definition isSpaceC :: "char \<Rightarrow> bool" where
  "isSpaceC c = (let n = code c in (9 \<le> n \<and> n \<le> 13) \<or> n = 32 \<or> n = 133 \<or> n = 160)"

definition isDigitC :: "char \<Rightarrow> bool" where
  "isDigitC c = (let n = code c in 48 \<le> n \<and> n \<le> 57)"

text \<open>\<open>QChar::isLetterOrNumber\<close>: letters and numbers of every category, so also the
  superscript digits and the vulgar fractions.\<close>

definition isLetterOrNumberC :: "char \<Rightarrow> bool" where
  "isLetterOrNumberC c = (let n = code c in
     (48 \<le> n \<and> n \<le> 57) \<or> (65 \<le> n \<and> n \<le> 90) \<or> (97 \<le> n \<and> n \<le> 122) \<or>
     n = 170 \<or> n = 178 \<or> n = 179 \<or> n = 181 \<or> n = 185 \<or> n = 186 \<or> (188 \<le> n \<and> n \<le> 190) \<or>
     (192 \<le> n \<and> n \<le> 255 \<and> n \<noteq> 215 \<and> n \<noteq> 247))"

text \<open>The classes \<open>\w\<close> and \<open>\s\<close> of a \<open>QRegularExpression\<close> without the Unicode
  option: ASCII only.\<close>

definition isWordC :: "char \<Rightarrow> bool" where
  "isWordC c = (let n = code c in
     (48 \<le> n \<and> n \<le> 57) \<or> (65 \<le> n \<and> n \<le> 90) \<or> (97 \<le> n \<and> n \<le> 122) \<or> n = 95)"

definition isReSpaceC :: "char \<Rightarrow> bool" where
  "isReSpaceC c = (let n = code c in (9 \<le> n \<and> n \<le> 13) \<or> n = 32)"

definition lowerC :: "char \<Rightarrow> char" where
  "lowerC c = (let n = code c in
     if (65 \<le> n \<and> n \<le> 90) \<or> (192 \<le> n \<and> n \<le> 222 \<and> n \<noteq> 215) then char_of (n + 32) else c)"

text \<open>The three Latin-1 letters whose upper case lies outside the range (micro sign, sharp s,
  y with diaeresis) stay as they are; upper case is only used to compare with ASCII names.\<close>

definition upperC :: "char \<Rightarrow> char" where
  "upperC c = (let n = code c in
     if (97 \<le> n \<and> n \<le> 122) \<or> (224 \<le> n \<and> n \<le> 254 \<and> n \<noteq> 247) then char_of (n - 32) else c)"

lemma code_nat: "code c = int (of_char c)"
  by (simp add: code_def of_char_def)

lemma code_nonneg [simp]: "0 \<le> code c" and code_lt [simp]: "code c < 256"
  using nat_of_char_less_256 [of c] by (simp_all add: code_nat)

lemma code_char_of [simp]: "0 \<le> n \<Longrightarrow> n < 256 \<Longrightarrow> code (char_of n) = n"
  by (simp add: code_def of_char_of)

lemma code_inject [simp]: "code a = code b \<longleftrightarrow> a = b"
  by (simp add: code_def of_char_eq_iff)

lemma lowerC_lowerC [simp]: "lowerC (lowerC c) = lowerC c"
  by (auto simp: lowerC_def Let_def)

lemma isSpaceC_lowerC [simp]: "isSpaceC (lowerC c) = isSpaceC c"
  by (auto simp: lowerC_def isSpaceC_def Let_def)

section \<open>Strings\<close>

definition toLower :: "string \<Rightarrow> string" where
  "toLower s = map lowerC s"

definition toUpper :: "string \<Rightarrow> string" where
  "toUpper s = map upperC s"

text \<open>\<open>QString::compare\<close> with \<open>Qt::CaseInsensitive\<close>, as the program uses it: only whether
  the result is 0.\<close>

definition eqCI :: "string \<Rightarrow> string \<Rightarrow> bool" where
  "eqCI a b \<longleftrightarrow> toLower a = toLower b"

definition trimmed :: "string \<Rightarrow> string" where
  "trimmed s = rev (dropWhile isSpaceC (rev (dropWhile isSpaceC s)))"

definition startsWith :: "string \<Rightarrow> string \<Rightarrow> bool" where
  "startsWith s p \<longleftrightarrow> take (length p) s = p"

definition startsWithCI :: "string \<Rightarrow> string \<Rightarrow> bool" where
  "startsWithCI s p \<longleftrightarrow> toLower (take (length p) s) = toLower p"

definition endsWithC :: "string \<Rightarrow> char \<Rightarrow> bool" where
  "endsWithC s c \<longleftrightarrow> s \<noteq> [] \<and> last s = c"

definition replaceC :: "char \<Rightarrow> char \<Rightarrow> string \<Rightarrow> string" where
  "replaceC a b s = map (\<lambda>c. if c = a then b else c) s"

text \<open>\<open>QString::mid\<close> with a start and a length, and \<open>QStringList::join\<close>.\<close>

definition mid :: "string \<Rightarrow> nat \<Rightarrow> nat \<Rightarrow> string" where
  "mid s i n = take n (drop i s)"

fun joinWith :: "string \<Rightarrow> string list \<Rightarrow> string" where
  "joinWith sep [] = []"
| "joinWith sep [x] = x"
| "joinWith sep (x # y # xs) = x @ sep @ joinWith sep (y # xs)"

text \<open>\<open>QString::indexOf\<close> of a character and of a string from a position; \<open>None\<close> is -1.\<close>

fun indexOfC_aux :: "char \<Rightarrow> string \<Rightarrow> nat \<Rightarrow> nat option" where
  "indexOfC_aux c [] i = None"
| "indexOfC_aux c (x # xs) i = (if x = c then Some i else indexOfC_aux c xs (Suc i))"

definition indexOfC :: "string \<Rightarrow> char \<Rightarrow> nat \<Rightarrow> nat option" where
  "indexOfC s c i = indexOfC_aux c (drop i s) i"

fun indexOfS_aux :: "string \<Rightarrow> string \<Rightarrow> nat \<Rightarrow> nat option" where
  "indexOfS_aux p s i =
     (if startsWith s p then Some i
      else case s of [] \<Rightarrow> None | _ # xs \<Rightarrow> indexOfS_aux p xs (Suc i))"

declare indexOfS_aux.simps [simp del]

definition indexOfS :: "string \<Rightarrow> string \<Rightarrow> nat \<Rightarrow> nat option" where
  "indexOfS s p i = (if length s < i then None else indexOfS_aux p (drop i s) i)"

text \<open>\<open>QString::split\<close> on one character, \<open>Qt::SkipEmptyParts\<close>.\<close>

fun splitSkip_aux :: "char \<Rightarrow> string \<Rightarrow> string \<Rightarrow> string list" where
  "splitSkip_aux c [] acc = (if acc = [] then [] else [rev acc])"
| "splitSkip_aux c (x # xs) acc =
     (if x = c then (if acc = [] then [] else [rev acc]) @ splitSkip_aux c xs []
      else splitSkip_aux c xs (x # acc))"

definition splitSkip :: "char \<Rightarrow> string \<Rightarrow> string list" where
  "splitSkip c s = splitSkip_aux c s []"

text \<open>\<open>QString::number\<close> of a number that is not negative.\<close>

fun decimal :: "nat \<Rightarrow> string" where
  "decimal n = (if n < 10 then [char_of (48 + n)] else decimal (n div 10) @ [char_of (48 + n mod 10)])"

declare decimal.simps [simp del]

lemma eqCI_refl [simp]: "eqCI a a"
  by (simp add: eqCI_def)

lemma eqCI_sym: "eqCI a b \<Longrightarrow> eqCI b a"
  by (simp add: eqCI_def)

lemma eqCI_trans [trans]: "eqCI a b \<Longrightarrow> eqCI b c \<Longrightarrow> eqCI a c"
  by (simp add: eqCI_def)

lemma toLower_idem [simp]: "toLower (toLower s) = toLower s"
  by (simp add: toLower_def)

lemma toLower_Nil_iff [simp]: "toLower s = [] \<longleftrightarrow> s = []"
  by (simp add: toLower_def)

lemma toLower_simps [simp]: "toLower [] = []" "toLower (c # s) = lowerC c # toLower s"
  by (simp_all add: toLower_def)

lemma trimmed_Nil [simp]: "trimmed [] = []"
  by (simp add: trimmed_def)

lemma trimmed_eq_Nil_iff: "trimmed s = [] \<longleftrightarrow> (\<forall>c \<in> set s. isSpaceC c)"
proof -
  have "(\<forall>c \<in> set (dropWhile isSpaceC s). isSpaceC c) \<longleftrightarrow> (\<forall>c \<in> set s. isSpaceC c)"
    by (induction s) simp_all
  then show ?thesis
    by (simp add: trimmed_def dropWhile_eq_Nil_conv)
qed

lemma trimmed_subset: "set (trimmed s) \<subseteq> set s"
  by (auto simp: trimmed_def dest!: set_dropWhileD)

lemma dropWhile_hd: "dropWhile P xs \<noteq> [] \<Longrightarrow> \<not> P (hd (dropWhile P xs))"
  by (rule hd_dropWhile)

lemma dropWhile_id: "xs = [] \<or> \<not> P (hd xs) \<Longrightarrow> dropWhile P xs = xs"
  by (cases xs) auto

lemma trimmed_id: "s = [] \<or> \<not> isSpaceC (hd s) \<and> \<not> isSpaceC (last s) \<Longrightarrow> trimmed s = s"
  by (auto simp: trimmed_def dropWhile_id hd_rev)

lemma trimmed_ends:
  assumes "trimmed s \<noteq> []"
  shows "\<not> isSpaceC (hd (trimmed s))" and "\<not> isSpaceC (last (trimmed s))"
proof -
  let ?u = "dropWhile isSpaceC s"
  let ?v = "dropWhile isSpaceC (rev ?u)"
  have v: "?v \<noteq> []" and t: "trimmed s = rev ?v" using assms by (auto simp: trimmed_def)
  then show "\<not> isSpaceC (last (trimmed s))" using dropWhile_hd [OF v] by (simp add: last_rev)
  obtain w where w: "rev ?u = w @ ?v" by (metis takeWhile_dropWhile_id)
  then have "?u = rev ?v @ rev w" by (metis rev_append rev_rev_ident)
  moreover have "?u \<noteq> []" using v by (metis dropWhile.simps(1) rev.simps(1))
  ultimately show "\<not> isSpaceC (hd (trimmed s))" using dropWhile_hd [of isSpaceC s] v t by (metis hd_append2 rev_is_Nil_conv)
qed

lemma trimmed_trimmed [simp]: "trimmed (trimmed s) = trimmed s"
  using trimmed_ends [of s] by (intro trimmed_id) blast

lemma indexOfC_aux_SomeD:
  "indexOfC_aux c s i = Some k \<Longrightarrow> i \<le> k \<and> k < i + length s \<and> s ! (k - i) = c"
proof (induction s arbitrary: i)
  case (Cons x xs)
  show ?case
  proof (cases "x = c")
    case False
    with Cons.prems have "indexOfC_aux c xs (Suc i) = Some k" by simp
    from Cons.IH [OF this] show ?thesis by (auto simp: nth_Cons' )
  qed (use Cons.prems in simp)
qed simp

lemma indexOfC_SomeD:
  assumes "indexOfC s c i = Some k"
  shows "i \<le> k \<and> k < length s \<and> s ! k = c"
proof -
  from assms have k: "i \<le> k" "k < i + length (drop i s)" "drop i s ! (k - i) = c"
    by (auto simp: indexOfC_def dest: indexOfC_aux_SomeD)
  then have "k < length s" by (cases "i \<le> length s") auto
  with k show ?thesis by simp
qed

section \<open>Searching a list\<close>

lemma find_SomeD: "find P xs = Some x \<Longrightarrow> x \<in> set xs \<and> P x"
  by (induction xs) (auto split: if_splits)

section \<open>Hash maps as association lists\<close>

definition valueOr :: "('k \<times> 'v) list \<Rightarrow> 'k \<Rightarrow> 'v \<Rightarrow> 'v" where
  "valueOr m k d = (case map_of m k of None \<Rightarrow> d | Some v \<Rightarrow> v)"

abbreviation keys :: "('k \<times> 'v) list \<Rightarrow> 'k list" where
  "keys m \<equiv> map fst m"

lemma valueOr_update [simp]:
  "valueOr (AList.update k v m) k' d = (if k' = k then v else valueOr m k' d)"
  by (simp add: valueOr_def update_conv')

lemma valueOr_delete [simp]:
  "valueOr (AList.delete k m) k' d = (if k' = k then d else valueOr m k' d)"
  by (simp add: valueOr_def delete_conv')

lemma valueOr_Nil [simp]: "valueOr [] k d = d"
  by (simp add: valueOr_def)

lemma distinct_keys_update [simp]: "distinct (keys m) \<Longrightarrow> distinct (keys (AList.update k v m))"
  by (rule distinct_update)

text \<open>The sum of a measure over a map, when one entry is replaced.\<close>

lemma sum_list_update:
  fixes f :: "'v \<Rightarrow> int"
  shows "distinct (keys m) \<Longrightarrow>
    (\<Sum>(k', v') \<leftarrow> AList.update k v m. f v') =
    (\<Sum>(k', v') \<leftarrow> m. f v') - (case map_of m k of None \<Rightarrow> 0 | Some w \<Rightarrow> f w) + f v"
proof (induction m)
  case (Cons p m)
  obtain a b where p: "p = (a, b)" by (cases p)
  show ?case
  proof (cases "a = k")
    case True
    with Cons.prems p show ?thesis by simp
  next
    case False
    with Cons p show ?thesis by (simp split: option.splits)
  qed
qed simp

lemma member_le_sum_list':
  fixes x :: int
  shows "x \<in> set xs \<Longrightarrow> \<forall>y \<in> set xs. 0 \<le> y \<Longrightarrow> x \<le> sum_list xs"
proof (induction xs)
  case (Cons y ys)
  moreover have "0 \<le> sum_list ys" using Cons.prems(2) by (auto intro: sum_list_nonneg)
  ultimately show ?case by fastforce
qed simp

lemma map_of_le_sum_list:
  fixes f :: "'v \<Rightarrow> int"
  assumes "map_of m k = Some v" and "\<forall>(k', v') \<in> set m. 0 \<le> f v'"
  shows "f v \<le> (\<Sum>(k', v') \<leftarrow> m. f v')"
proof -
  from assms(1) have "(k, v) \<in> set m" by (rule map_of_SomeD)
  then have "f v \<in> set (map (\<lambda>(k', v'). f v') m)" by force
  moreover have "\<forall>x \<in> set (map (\<lambda>(k', v'). f v') m). 0 \<le> x" using assms(2) by auto
  ultimately show ?thesis by (rule member_le_sum_list')
qed

section \<open>The interface of a stateful component\<close>

text \<open>
  A component is a predicate for its initial states, a step function over its operations and a
  guard that says when the caller may use an operation. The provider promises that an initial
  state satisfies the invariant and that every admitted operation keeps it; the client gets the
  invariant after any sequence of admitted operations.
\<close>

fun admitted :: "('s \<Rightarrow> 'e \<Rightarrow> bool) \<Rightarrow> ('s \<Rightarrow> 'e \<Rightarrow> 's) \<Rightarrow> 's \<Rightarrow> 'e list \<Rightarrow> bool" where
  "admitted ok step s [] = True"
| "admitted ok step s (e # es) = (ok s e \<and> admitted ok step (step s e) es)"

locale invariant_machine =
  fixes init :: "'s \<Rightarrow> bool"
    and ok :: "'s \<Rightarrow> 'e \<Rightarrow> bool"
    and step :: "'s \<Rightarrow> 'e \<Rightarrow> 's"
    and inv :: "'s \<Rightarrow> bool"
  assumes init_inv: "init s \<Longrightarrow> inv s"
    and step_inv: "inv s \<Longrightarrow> ok s e \<Longrightarrow> inv (step s e)"
begin

lemma run_inv: "inv s \<Longrightarrow> admitted ok step s es \<Longrightarrow> inv (foldl step s es)"
  by (induction es arbitrary: s) (auto intro: step_inv)

lemma reachable_inv: "init s \<Longrightarrow> admitted ok step s es \<Longrightarrow> inv (foldl step s es)"
  by (rule run_inv [OF init_inv])

end

lemma admitted_True [simp]: "admitted (\<lambda>_ _. True) step s es"
  by (induction es arbitrary: s) auto

end
