(* ===== verification/Provider_Scheduler.thy ===== *)
theory Provider_Scheduler
  imports Prelude
begin

text \<open>
  \<open>Chat::ProviderScheduler\<close> (backend/services/chat/provider-scheduler.cpp): per provider, at
  most \<open>limit\<close> requests in flight; the others wait in a FIFO queue. Every method runs on the
  main thread, so a method is one step. \<open>QTimer::singleShot(0, ...)\<close> appends the grant
  callback to the event queue, which is the field \<open>posted\<close>; \<open>runPosted\<close> is the event loop
  taking the next one. A callback is a value of the type variable, \<open>None\<close> an empty
  \<open>std::function\<close>. Debug logging and the main-thread assertion are left out.
\<close>

section \<open>State\<close>

record 'g waiter =
  waiterId :: string
  onGranted :: "'g option"

record 'g provider_state =
  inFlight :: int
  limit :: int
  peak :: int
  queue :: "'g waiter list"

record 'g scheduler =
  m_states :: "(string \<times> 'g provider_state) list"
  m_peakConcurrency :: int
  posted :: "'g option list"

definition idle_state :: "'g provider_state" where
  "idle_state = \<lparr>inFlight = 0, limit = 1, peak = 0, queue = []\<rparr>"

definition empty_scheduler :: "'g scheduler" where
  "empty_scheduler = \<lparr>m_states = [], m_peakConcurrency = 0, posted = []\<rparr>"

section \<open>Operations\<close>

definition emptyProviderSentinel :: string where
  "emptyProviderSentinel = ''__verzeta_unstamped_provider__''"

definition bucketKey :: "string \<Rightarrow> string" where
  "bucketKey providerId = (if providerId = [] then emptyProviderSentinel else providerId)"

text \<open>\<open>m_states[key]\<close>: the entry, created idle when it is missing.\<close>

definition getState :: "string \<Rightarrow> 'g scheduler \<Rightarrow> 'g provider_state" where
  "getState key s = valueOr (m_states s) key idle_state"

definition putState :: "string \<Rightarrow> 'g provider_state \<Rightarrow> 'g scheduler \<Rightarrow> 'g scheduler" where
  "putState key st s = s\<lparr>m_states := AList.update key st (m_states s)\<rparr>"

definition totalInFlight :: "'g scheduler \<Rightarrow> int" where
  "totalInFlight s = (\<Sum>(k, st) \<leftarrow> m_states s. inFlight st)"

definition recordPeak :: "string \<Rightarrow> 'g scheduler \<Rightarrow> 'g scheduler" where
  "recordPeak key s =
     (let st = getState key s;
          s1 = putState key (if inFlight st > peak st then st\<lparr>peak := inFlight st\<rparr> else st) s;
          total = totalInFlight s1
      in if total > m_peakConcurrency s1 then s1\<lparr>m_peakConcurrency := total\<rparr> else s1)"

definition acquire ::
  "string \<Rightarrow> string \<Rightarrow> 'g option \<Rightarrow> 'g scheduler \<Rightarrow> bool \<times> 'g scheduler" where
  "acquire providerId wid cb s =
     (let key = bucketKey providerId;
          st = getState key s
      in if inFlight st < limit st
         then (True, recordPeak key (putState key (st\<lparr>inFlight := inFlight st + 1\<rparr>) s))
         else if wid \<in> set (map waiterId (queue st)) then (False, putState key st s)
         else (False, putState key
                 (st\<lparr>queue := queue st @ [\<lparr>waiterId = wid, onGranted = cb\<rparr>]\<rparr>) s))"

text \<open>The hand-over of a slot to the head of the queue, shared by \<open>release\<close> and
  \<open>setProviderLimit\<close>.\<close>

definition grantHead :: "string \<Rightarrow> 'g scheduler \<Rightarrow> 'g scheduler" where
  "grantHead key s =
     (let st = getState key s
      in case queue st of
           [] \<Rightarrow> s
         | w # ws \<Rightarrow>
             (let s1 = recordPeak key
                         (putState key (st\<lparr>inFlight := inFlight st + 1, queue := ws\<rparr>) s)
              in s1\<lparr>posted := posted s1 @ [onGranted w]\<rparr>))"

definition release :: "string \<Rightarrow> 'g scheduler \<Rightarrow> 'g scheduler" where
  "release providerId s =
     (let key = bucketKey providerId
      in case map_of (m_states s) key of
           None \<Rightarrow> s
         | Some st \<Rightarrow>
             if inFlight st \<le> 0 then s
             else (let s1 = putState key (st\<lparr>inFlight := inFlight st - 1\<rparr>) s
                   in if queue st = [] then s1 else grantHead key s1))"

definition dropWaiter :: "string \<Rightarrow> 'g provider_state \<Rightarrow> 'g provider_state" where
  "dropWaiter wid st = st\<lparr>queue := filter (\<lambda>w. waiterId w \<noteq> wid) (queue st)\<rparr>"

definition cancel :: "string \<Rightarrow> 'g scheduler \<Rightarrow> bool \<times> 'g scheduler" where
  "cancel wid s =
     (\<exists>(k, st) \<in> set (m_states s). wid \<in> set (map waiterId (queue st)),
      s\<lparr>m_states := map (\<lambda>(k, st). (k, dropWaiter wid st)) (m_states s)\<rparr>)"

text \<open>The loop of \<open>setProviderLimit\<close>: as many grants as the new limit has room for.\<close>

lemma getState_putState [simp]:
  "getState k (putState k' st s) = (if k = k' then st else getState k s)"
  by (simp add: getState_def putState_def)

lemma recordPeak_queue [simp]: "queue (getState k (recordPeak k' s)) = queue (getState k s)"
  by (auto simp: recordPeak_def Let_def getState_def putState_def)

lemma grantHead_queue:
  "queue (getState k (grantHead k' s)) =
     (if k = k' then tl (queue (getState k s)) else queue (getState k s))"
  by (auto simp: grantHead_def Let_def recordPeak_def getState_def putState_def
      split: list.splits)

function drain :: "string \<Rightarrow> 'g scheduler \<Rightarrow> 'g scheduler" where
  "drain key s =
     (if inFlight (getState key s) < limit (getState key s) \<and> queue (getState key s) \<noteq> []
      then drain key (grantHead key s) else s)"
  by pat_completeness auto
termination
  by (relation "measure (\<lambda>(key, s). length (queue (getState key s)))")
    (auto simp: grantHead_queue)

declare drain.simps [simp del]

definition setProviderLimit :: "string \<Rightarrow> int \<Rightarrow> 'g scheduler \<Rightarrow> 'g scheduler" where
  "setProviderLimit providerId n s =
     (let key = bucketKey providerId
      in drain key (putState key ((getState key s)\<lparr>limit := max 1 n\<rparr>) s))"

definition inFlightCount :: "string \<Rightarrow> 'g scheduler \<Rightarrow> int" where
  "inFlightCount providerId s =
     (case map_of (m_states s) (bucketKey providerId) of None \<Rightarrow> 0 | Some st \<Rightarrow> inFlight st)"

definition queuedCount :: "string \<Rightarrow> 'g scheduler \<Rightarrow> nat" where
  "queuedCount providerId s =
     (case map_of (m_states s) (bucketKey providerId) of None \<Rightarrow> 0 | Some st \<Rightarrow> length (queue st))"

definition anyInFlight :: "'g scheduler \<Rightarrow> bool" where
  "anyInFlight s \<longleftrightarrow> list_ex (\<lambda>(k, st). inFlight st > 0) (m_states s)"

definition distinctProvidersInFlight :: "'g scheduler \<Rightarrow> nat" where
  "distinctProvidersInFlight s = length (filter (\<lambda>(k, st). inFlight st > 0) (m_states s))"

definition peakConcurrency :: "'g scheduler \<Rightarrow> int" where
  "peakConcurrency s = m_peakConcurrency s"

definition peakProviderConcurrency :: "string \<Rightarrow> 'g scheduler \<Rightarrow> int" where
  "peakProviderConcurrency providerId s =
     (case map_of (m_states s) (bucketKey providerId) of None \<Rightarrow> 0 | Some st \<Rightarrow> peak st)"

text \<open>The event loop runs the next posted grant.\<close>

definition runPosted :: "'g scheduler \<Rightarrow> 'g scheduler" where
  "runPosted s = s\<lparr>posted := tl (posted s)\<rparr>"

datatype 'g sched_op =
    Acquire string string "'g option"
  | Release string
  | Cancel string
  | SetLimit string int
  | RunPosted

fun sched_step :: "'g scheduler \<Rightarrow> 'g sched_op \<Rightarrow> 'g scheduler" where
  "sched_step s (Acquire p w cb) = snd (acquire p w cb s)"
| "sched_step s (Release p) = release p s"
| "sched_step s (Cancel w) = snd (cancel w s)"
| "sched_step s (SetLimit p n) = setProviderLimit p n s"
| "sched_step s RunPosted = runPosted s"

section \<open>The invariant\<close>

text \<open>
  \<open>slots_ok\<close>: the counters of one provider; \<open>st_inv\<close> adds that nobody waits while a slot is
  free. \<open>sched_inv_at\<close> is the state in the middle of an operation on one provider, where the
  last part need not hold for that provider.
\<close>

definition slots_ok :: "'g provider_state \<Rightarrow> bool" where
  "slots_ok st \<longleftrightarrow> 0 \<le> inFlight st \<and> 1 \<le> limit st \<and> inFlight st \<le> peak st \<and>
     distinct (map waiterId (queue st))"

definition st_inv :: "'g provider_state \<Rightarrow> bool" where
  "st_inv st \<longleftrightarrow> slots_ok st \<and> (queue st \<noteq> [] \<longrightarrow> limit st \<le> inFlight st)"

definition sched_inv_at :: "string \<Rightarrow> 'g scheduler \<Rightarrow> bool" where
  "sched_inv_at key s \<longleftrightarrow> distinct (keys (m_states s)) \<and>
     (\<forall>k. k \<noteq> key \<longrightarrow> st_inv (getState k s)) \<and> slots_ok (getState key s) \<and>
     totalInFlight s \<le> m_peakConcurrency s"

definition sched_inv :: "'g scheduler \<Rightarrow> bool" where
  "sched_inv s \<longleftrightarrow> distinct (keys (m_states s)) \<and> (\<forall>k. st_inv (getState k s)) \<and>
     totalInFlight s \<le> m_peakConcurrency s"

lemmas inv_defs = slots_ok_def st_inv_def sched_inv_at_def sched_inv_def

lemma idle_state_inv [simp]: "st_inv idle_state"
  by (simp add: inv_defs idle_state_def)

lemma empty_scheduler_inv: "sched_inv empty_scheduler"
  by (simp add: inv_defs empty_scheduler_def getState_def totalInFlight_def idle_state_def)

lemma sched_inv_at_iff:
  "sched_inv s \<longleftrightarrow> sched_inv_at key s \<and>
     (queue (getState key s) \<noteq> [] \<longrightarrow> limit (getState key s) \<le> inFlight (getState key s))"
  by (auto simp: inv_defs)

lemma sched_inv_atI: "sched_inv s \<Longrightarrow> sched_inv_at key s"
  by (simp add: sched_inv_at_iff [where key = key])

lemma getState_recordPeak:
  "getState k (recordPeak key s) =
     (if k = key \<and> inFlight (getState key s) > peak (getState key s)
      then (getState key s)\<lparr>peak := inFlight (getState key s)\<rparr> else getState k s)"
  by (simp add: recordPeak_def Let_def getState_def putState_def)

lemma distinct_putState [simp]:
  "distinct (keys (m_states s)) \<Longrightarrow> distinct (keys (m_states (putState key st s)))"
  by (simp add: putState_def distinct_update del: distinct_map)

lemma distinct_recordPeak [simp]:
  "distinct (keys (m_states s)) \<Longrightarrow> distinct (keys (m_states (recordPeak key s)))"
  by (auto simp: recordPeak_def Let_def putState_def simp del: distinct_map)

lemma totalInFlight_putState:
  "distinct (keys (m_states s)) \<Longrightarrow>
   totalInFlight (putState key st s) = totalInFlight s - inFlight (getState key s) + inFlight st"
  using sum_list_update [of "m_states s" inFlight key st]
  by (auto simp: totalInFlight_def putState_def getState_def valueOr_def idle_state_def
      split: option.splits)

lemma totalInFlight_recordPeak:
  "totalInFlight (recordPeak key s) \<le> m_peakConcurrency (recordPeak key s)"
  by (simp add: recordPeak_def Let_def totalInFlight_def)

lemma recordPeak_posted [simp]: "posted (recordPeak key s) = posted s"
  by (simp add: recordPeak_def Let_def putState_def)

lemma putState_fields [simp]:
  "posted (putState key st s) = posted s"
  "m_peakConcurrency (putState key st s) = m_peakConcurrency s"
  by (simp_all add: putState_def)

text \<open>Taking a slot and recording the peak keeps the counters in order.\<close>

lemma take_slot_inv:
  assumes "sched_inv_at key s" and "distinct (map waiterId (queue st))"
    and "inFlight st = inFlight (getState key s) + 1" and "limit st = limit (getState key s)"
    and "peak st = peak (getState key s)"
  shows "sched_inv_at key (recordPeak key (putState key st s))"
  using assms
  by (auto simp: inv_defs getState_recordPeak totalInFlight_recordPeak simp del: distinct_map)

lemma posted_update_inv [simp]:
  "sched_inv_at key (s\<lparr>posted := x\<rparr>) = sched_inv_at key s"
  "getState key (s\<lparr>posted := x\<rparr>) = getState key s"
  by (simp_all add: sched_inv_at_def getState_def totalInFlight_def)

lemma grantHead_inv: "sched_inv_at key s \<Longrightarrow> sched_inv_at key (grantHead key s)"
proof (cases "queue (getState key s)")
  case (Cons w ws)
  assume inv: "sched_inv_at key s"
  from inv Cons have "distinct (map waiterId ws)" by (simp add: inv_defs)
  with take_slot_inv [OF inv, of "(getState key s)\<lparr>inFlight := inFlight (getState key s) + 1,
      queue := ws\<rparr>"] Cons show ?thesis by (simp add: grantHead_def Let_def)
qed (simp add: grantHead_def)

lemma grantHead_state:
  "queue (getState key s) \<noteq> [] \<Longrightarrow>
     inFlight (getState key (grantHead key s)) = inFlight (getState key s) + 1 \<and>
     limit (getState key (grantHead key s)) = limit (getState key s) \<and>
     posted (grantHead key s) = posted s @ [onGranted (hd (queue (getState key s)))]"
  by (cases "queue (getState key s)") (simp_all add: grantHead_def Let_def getState_recordPeak)

lemma drain_inv: "sched_inv_at key s \<Longrightarrow> sched_inv (drain key s)"
proof (induction key s rule: drain.induct)
  case (1 key s)
  show ?case
  proof (cases "inFlight (getState key s) < limit (getState key s) \<and> queue (getState key s) \<noteq> []")
    case True
    with 1 show ?thesis by (subst drain.simps) (simp add: grantHead_inv)
  next
    case False
    with "1.prems" show ?thesis
      by (subst drain.simps) (auto simp: sched_inv_at_iff [where key = key])
  qed
qed

lemma release_inv [inv_intro]:
  assumes "sched_inv s"
  shows "sched_inv (release p s)"
proof (cases "map_of (m_states s) (bucketKey p)")
  case None
  with assms show ?thesis by (simp add: release_def)
next
  case (Some st)
  let ?k = "bucketKey p"
  let ?s1 = "putState ?k (st\<lparr>inFlight := inFlight st - 1\<rparr>) s"
  from Some have st: "getState ?k s = st" by (simp add: getState_def valueOr_def)
  with assms have "st_inv st" by (auto simp: sched_inv_def)
  with st assms have at: "inFlight st > 0 \<Longrightarrow> sched_inv_at ?k ?s1"
    by (auto simp: inv_defs totalInFlight_putState simp del: distinct_map)
  show ?thesis
  proof (cases "inFlight st \<le> 0")
    case True
    with Some assms show ?thesis by (simp add: release_def)
  next
    case pos: False
    show ?thesis
    proof (cases "queue st = []")
      case True
      with at pos Some show ?thesis
        by (simp add: release_def Let_def sched_inv_at_iff [where key = ?k])
    next
      case False
      with assms st have "limit st \<le> inFlight st" by (auto simp: inv_defs)
      with False at pos Some show ?thesis
        by (simp add: release_def Let_def sched_inv_at_iff [where key = ?k] grantHead_inv grantHead_state)
    qed
  qed
qed

lemma acquire_inv [inv_intro]:
  assumes inv: "sched_inv s"
  shows "sched_inv (snd (acquire p w cb s))"
proof -
  let ?k = "bucketKey p"
  let ?st = "getState ?k s"
  have at: "sched_inv_at ?k s" using inv by (rule sched_inv_atI)
  have st: "st_inv ?st" using inv by (simp add: sched_inv_def)
  have put: "sched_inv (putState ?k st s)"
    if "st_inv st" and "inFlight st = inFlight ?st" for st
    using that inv by (auto simp: sched_inv_def totalInFlight_putState simp del: distinct_map)
  show ?thesis
  proof (cases "inFlight ?st < limit ?st")
    case True
    with st have "queue ?st = []" by (auto simp: st_inv_def)
    with True take_slot_inv [OF at, of "?st\<lparr>inFlight := inFlight ?st + 1\<rparr>"] show ?thesis
      by (simp add: acquire_def Let_def sched_inv_at_iff [where key = ?k] getState_recordPeak)
  next
    case False
    with st put show ?thesis
      by (auto simp: acquire_def Let_def st_inv_def slots_ok_def)
  qed
qed

lemma getState_cancel: "getState k (snd (cancel w s)) = dropWaiter w (getState k s)"
  by (simp add: cancel_def getState_def valueOr_def map_of_map dropWaiter_def idle_state_def
      split: option.splits)

lemma totalInFlight_cancel: "totalInFlight (snd (cancel w s)) = totalInFlight s"
  by (simp add: cancel_def totalInFlight_def o_def case_prod_unfold dropWaiter_def)

lemma dropWaiter_inv: "st_inv st \<Longrightarrow> st_inv (dropWaiter w st)"
  by (cases "queue st = []") (auto simp: st_inv_def slots_ok_def dropWaiter_def distinct_map_filter)

lemma cancel_fields:
  "keys (m_states (snd (cancel w s))) = keys (m_states s)"
  "m_peakConcurrency (snd (cancel w s)) = m_peakConcurrency s"
  by (simp_all add: cancel_def o_def case_prod_unfold)

lemma cancel_inv [inv_intro]: "sched_inv s \<Longrightarrow> sched_inv (snd (cancel w s))"
  by (simp add: sched_inv_def getState_cancel dropWaiter_inv totalInFlight_cancel cancel_fields
      del: distinct_map)

lemma setProviderLimit_inv [inv_intro]: "sched_inv s \<Longrightarrow> sched_inv (setProviderLimit p n s)"
  unfolding setProviderLimit_def Let_def
  by (rule drain_inv) (auto simp: inv_defs totalInFlight_putState simp del: distinct_map)

lemma runPosted_inv [inv_intro]: "sched_inv s \<Longrightarrow> sched_inv (runPosted s)"
  by (simp add: runPosted_def sched_inv_def getState_def totalInFlight_def)

lemma sched_step_inv: "sched_inv s \<Longrightarrow> sched_inv (sched_step s e)"
  by (cases e) (simp_all add: inv_intro)

interpretation sched: invariant_machine "\<lambda>s. s = empty_scheduler" "\<lambda>_ _. True" sched_step sched_inv
  by unfold_locales (auto simp: empty_scheduler_inv sched_step_inv)

section \<open>What one operation does to one provider\<close>

lemma getState_acquire_other:
  "k \<noteq> bucketKey p \<Longrightarrow> getState k (snd (acquire p w cb s)) = getState k s"
  by (simp add: acquire_def Let_def getState_recordPeak)

lemma getState_grantHead_other: "k \<noteq> key \<Longrightarrow> getState k (grantHead key s) = getState k s"
  by (auto simp: grantHead_def Let_def getState_recordPeak split: list.splits)

lemma getState_release_other: "k \<noteq> bucketKey p \<Longrightarrow> getState k (release p s) = getState k s"
  by (auto simp: release_def Let_def getState_grantHead_other split: option.splits)

lemma getState_drain_other: "k \<noteq> key \<Longrightarrow> getState k (drain key s) = getState k s"
proof (induction key s rule: drain.induct)
  case (1 key s)
  then show ?case by (subst drain.simps) (auto simp: getState_grantHead_other)
qed

lemma getState_setLimit_other:
  "k \<noteq> bucketKey p \<Longrightarrow> getState k (setProviderLimit p n s) = getState k s"
  by (simp add: setProviderLimit_def Let_def getState_drain_other)

lemma getState_runPosted [simp]: "getState k (runPosted s) = getState k s"
  by (simp add: runPosted_def getState_def)

lemma release_unfold:
  "release p s =
     (let st = getState (bucketKey p) s;
          s1 = putState (bucketKey p) (st\<lparr>inFlight := inFlight st - 1\<rparr>) s
      in if inFlight st \<le> 0 then s
         else if queue st = [] then s1 else grantHead (bucketKey p) s1)"
  by (auto simp: release_def Let_def getState_def valueOr_def idle_state_def split: option.splits)

text \<open>A release while somebody waits: the slot goes to the head of the queue at once.\<close>

lemma release_waiting:
  assumes "inFlight (getState (bucketKey p) s) > 0"
    and "queue (getState (bucketKey p) s) = w # ws"
  shows "posted (release p s) = posted s @ [onGranted w]"
    and "inFlight (getState (bucketKey p) (release p s)) = inFlight (getState (bucketKey p) s)"
    and "limit (getState (bucketKey p) (release p s)) = limit (getState (bucketKey p) s)"
    and "queue (getState (bucketKey p) (release p s)) = ws"
proof -
  let ?k = "bucketKey p"
  define st where "st = getState ?k s"
  with assms have rel: "release p s = grantHead ?k (putState ?k (st\<lparr>inFlight := inFlight st - 1\<rparr>) s)"
    and q: "queue st = w # ws" and eq: "st = getState ?k s"
    by (simp_all add: release_unfold Let_def)
  from grantHead_state [of ?k "putState ?k (st\<lparr>inFlight := inFlight st - 1\<rparr>) s"] q
  show "posted (release p s) = posted s @ [onGranted w]"
    "inFlight (getState ?k (release p s)) = inFlight (getState ?k s)"
    "limit (getState ?k (release p s)) = limit (getState ?k s)"
    by (simp_all add: rel eq [symmetric])
  show "queue (getState ?k (release p s)) = ws"
    by (simp add: rel grantHead_queue q)
qed

lemma release_idle:
  assumes "queue (getState (bucketKey p) s) = []"
  shows "inFlight (getState (bucketKey p) (release p s)) \<le> inFlight (getState (bucketKey p) s)"
    and "limit (getState (bucketKey p) (release p s)) = limit (getState (bucketKey p) s)"
  using assms by (simp_all add: release_unfold Let_def)

definition sets_limit :: "string \<Rightarrow> 'g sched_op \<Rightarrow> bool" where
  "sets_limit key e = (case e of SetLimit p n \<Rightarrow> bucketKey p = key | _ \<Rightarrow> False)"

lemma step_within_limit:
  assumes inv: "sched_inv s" and lim: "limit (getState key s) = l"
    and le: "inFlight (getState key s) \<le> l" and e: "\<not> sets_limit key e"
  shows "limit (getState key (sched_step s e)) = l \<and> inFlight (getState key (sched_step s e)) \<le> l"
proof (cases e)
  case (Acquire p w cb)
  show ?thesis
  proof (cases "bucketKey p = key")
    case True
    with Acquire lim le show ?thesis by (auto simp: acquire_def Let_def getState_recordPeak)
  qed (use Acquire lim le in \<open>simp add: getState_acquire_other\<close>)
next
  case (Release p)
  from inv have st: "st_inv (getState key s)" by (simp add: sched_inv_def)
  show ?thesis
  proof (cases "bucketKey p = key")
    case True
    show ?thesis
    proof (cases "queue (getState key s)")
      case Nil
      with True Release lim le release_idle [of p s] show ?thesis by simp
    next
      case (Cons w ws)
      with st have "inFlight (getState key s) > 0" by (auto simp: inv_defs)
      with True Cons Release lim le release_waiting [of p s w ws] show ?thesis by simp
    qed
  qed (use Release lim le in \<open>simp add: getState_release_other\<close>)
next
  case (SetLimit p n)
  with e have "key \<noteq> bucketKey p" by (auto simp: sets_limit_def)
  with SetLimit lim le show ?thesis by (simp add: getState_setLimit_other)
qed (use lim le in \<open>auto simp: getState_cancel dropWaiter_def\<close>)

lemma run_within_limit:
  "sched_inv s \<Longrightarrow> limit (getState key s) = l \<Longrightarrow> inFlight (getState key s) \<le> l \<Longrightarrow>
   \<forall>e \<in> set es. \<not> sets_limit key e \<Longrightarrow>
   inFlight (getState key (foldl sched_step s es)) \<le> l"
proof (induction es arbitrary: s)
  case (Cons e es)
  from step_within_limit [OF Cons.prems(1-3), of e] Cons.prems(4)
  have "limit (getState key (sched_step s e)) = l" "inFlight (getState key (sched_step s e)) \<le> l"
    by auto
  with Cons show ?case by (simp add: sched_step_inv)
qed simp

lemma releases_grant:
  "n \<le> length (queue (getState (bucketKey p) s)) \<Longrightarrow> inFlight (getState (bucketKey p) s) > 0 \<Longrightarrow>
   posted ((release p ^^ n) s) =
     posted s @ map onGranted (take n (queue (getState (bucketKey p) s))) \<and>
   inFlight (getState (bucketKey p) ((release p ^^ n) s)) = inFlight (getState (bucketKey p) s) \<and>
   queue (getState (bucketKey p) ((release p ^^ n) s)) = drop n (queue (getState (bucketKey p) s))"
proof (induction n)
  case (Suc n)
  let ?s = "(release p ^^ n) s"
  let ?q = "queue (getState (bucketKey p) s)"
  from Suc have IH: "posted ?s = posted s @ map onGranted (take n ?q)"
    "inFlight (getState (bucketKey p) ?s) = inFlight (getState (bucketKey p) s)"
    "queue (getState (bucketKey p) ?s) = drop n ?q" by auto
  from Suc.prems(1) have "drop n ?q = ?q ! n # drop (Suc n) ?q"
    by (simp add: Cons_nth_drop_Suc)
  with IH Suc.prems release_waiting [of p ?s "?q ! n" "drop (Suc n) ?q"] show ?case
    by (simp add: take_Suc_conv_app_nth)
qed simp

lemma total_ge_one:
  assumes "sched_inv s"
  shows "inFlight (getState k s) \<le> totalInFlight s"
proof (cases "map_of (m_states s) k")
  case None
  have "0 \<le> totalInFlight s" unfolding totalInFlight_def
  proof (rule sum_list_nonneg)
    fix x assume "x \<in> set (map (\<lambda>(k, st). inFlight st) (m_states s))"
    then obtain k st where "(k, st) \<in> set (m_states s)" "x = inFlight st" by auto
    with assms have "getState k s = st" by (simp add: getState_def valueOr_def sched_inv_def)
    with assms \<open>x = inFlight st\<close> show "0 \<le> x" by (auto simp: inv_defs)
  qed
  with None show ?thesis by (simp add: getState_def valueOr_def idle_state_def)
next
  case (Some st)
  have "\<forall>(k', st') \<in> set (m_states s). 0 \<le> inFlight st'"
  proof safe
    fix k' st' assume "(k', st') \<in> set (m_states s)"
    with assms have "getState k' s = st'" by (simp add: getState_def valueOr_def sched_inv_def)
    with assms show "0 \<le> inFlight st'" by (auto simp: inv_defs)
  qed
  from map_of_le_sum_list [OF Some this] Some show ?thesis
    by (simp add: getState_def valueOr_def totalInFlight_def)
qed

section \<open>Properties\<close>

text \<open>
  C6. In every state that any sequence of acquire, release, cancel, set-limit and event-loop
  steps reaches from an empty scheduler, for every provider: the limit is at least 1, whatever was asked
  for, the in-flight counter is between 0 and its recorded peak and the peak of all providers together, no
  waiter is queued twice, and a waiter is only ever queued while all slots are taken (no lost wake-up).
\<close>

theorem scheduler_reachable_invariant:
  fixes ops :: "'g sched_op list"
  defines "s \<equiv> foldl sched_step empty_scheduler ops"
  shows "1 \<le> limit (getState key s) \<and>
    0 \<le> inFlight (getState key s) \<and> inFlight (getState key s) \<le> peak (getState key s) \<and>
    inFlight (getState key s) \<le> peakConcurrency s \<and>
    distinct (map waiterId (queue (getState key s))) \<and>
    (queue (getState key s) \<noteq> [] \<longrightarrow> limit (getState key s) \<le> inFlight (getState key s))"
proof -
  have "sched_inv s" unfolding s_def by (rule sched.reachable_inv) simp_all
  moreover from this have "inFlight (getState key s) \<le> totalInFlight s" by (rule total_ge_one)
  ultimately show ?thesis by (auto simp: inv_defs peakConcurrency_def)
qed

theorem scheduler_reachable_invariant_witness:
  "queue (getState ''p'' (foldl sched_step empty_scheduler
     [Acquire ''p'' ''a'' (Some 0), Acquire ''p'' ''b'' (Some (1::nat))])) \<noteq> [] \<and>
   limit (getState ''p'' (foldl sched_step empty_scheduler
     [Acquire ''p'' ''a'' (Some 0), Acquire ''p'' ''b'' (Some (1::nat))])) \<le>
   inFlight (getState ''p'' (foldl sched_step empty_scheduler
     [Acquire ''p'' ''a'' (Some 0), Acquire ''p'' ''b'' (Some (1::nat))]))"
proof -
  have "queue (getState ''p'' (foldl sched_step empty_scheduler
     [Acquire ''p'' ''a'' (Some 0), Acquire ''p'' ''b'' (Some (1::nat))])) \<noteq> []"
    by code_simp
  with scheduler_reachable_invariant [of "''p''" "[Acquire ''p'' ''a'' (Some 0), Acquire ''p'' ''b'' (Some (1::nat))]"]
  show ?thesis by blast
qed

text \<open>
  Per-provider serialization: as long as nobody changes the limit of a provider, at most one
  of its requests is in flight, whatever is acquired, released and cancelled in whatever order,
  on this and on all other providers.
\<close>

theorem provider_serialized:
  assumes "\<forall>e \<in> set ops. \<not> sets_limit (bucketKey p) e"
  shows "inFlightCount p (foldl sched_step empty_scheduler ops) \<le> 1"
proof -
  have "inFlight (getState (bucketKey p) (foldl sched_step empty_scheduler ops)) \<le> 1"
    by (rule run_within_limit [OF empty_scheduler_inv _ _ assms])
      (simp_all add: getState_def empty_scheduler_def idle_state_def)
  then show ?thesis
    by (auto simp: inFlightCount_def getState_def valueOr_def split: option.splits)
qed

theorem provider_serialized_witness:
  "inFlightCount ''p'' (foldl sched_step empty_scheduler
     [SetLimit ''q'' 4, Acquire ''p'' ''a'' (Some (0::nat)), Acquire ''p'' ''b'' None, Release ''p'']) \<le> 1"
  by (rule provider_serialized) (simp add: sets_limit_def bucketKey_def)

text \<open>
  FIFO hand-over: with \<open>n\<close> waiters parked on a busy provider, \<open>n\<close> releases post exactly
  their grants, in the order they queued, and the slot is never free in between.
\<close>

theorem release_grants_fifo:
  assumes "inFlight (getState (bucketKey p) s) > 0"
    and "n \<le> length (queue (getState (bucketKey p) s))"
  shows "posted ((release p ^^ n) s) =
      posted s @ map onGranted (take n (queue (getState (bucketKey p) s))) \<and>
    queue (getState (bucketKey p) ((release p ^^ n) s)) =
      drop n (queue (getState (bucketKey p) s)) \<and>
    inFlight (getState (bucketKey p) ((release p ^^ n) s)) = inFlight (getState (bucketKey p) s)"
  using releases_grant [OF assms(2,1)] by blast

theorem release_grants_fifo_witness:
  "posted ((release ''p'' ^^ 2) (foldl sched_step empty_scheduler
     [Acquire ''p'' ''a'' None, Acquire ''p'' ''b'' (Some 7), Acquire ''p'' ''c'' (Some (8::nat))])) =
   [Some 7, Some 8]"
proof -
  let ?s = "foldl sched_step empty_scheduler
     [Acquire ''p'' ''a'' None, Acquire ''p'' ''b'' (Some 7), Acquire ''p'' ''c'' (Some (8::nat))]"
  have "inFlight (getState (bucketKey ''p'') ?s) > 0"
    and "2 \<le> length (queue (getState (bucketKey ''p'') ?s))"
    and "posted ?s = []" "map onGranted (take 2 (queue (getState (bucketKey ''p'') ?s))) = [Some 7, Some 8]"
    by code_simp+
  with release_grants_fifo [of "''p''" ?s 2] show ?thesis by simp
qed

text \<open>
  A lowered limit is not enforced while anyone waits: whatever the limit is, a release on a
  provider with a waiter leaves the in-flight count where it was. The header promises that new
  grants stop until the count has dropped under the new limit.
\<close>

theorem lowered_limit_not_enforced:
  assumes "inFlight (getState (bucketKey p) s) > limit (getState (bucketKey p) s)"
    and "limit (getState (bucketKey p) s) \<ge> 1"
    and "queue (getState (bucketKey p) s) = w # ws"
  shows "posted (release p s) = posted s @ [onGranted w] \<and>
    inFlight (getState (bucketKey p) (release p s)) > limit (getState (bucketKey p) (release p s))"
proof -
  from assms have "inFlight (getState (bucketKey p) s) > 0" by simp
  note r = release_waiting [OF this assms(3)]
  from r(1) show ?thesis by (simp add: r(2) r(3) assms(1))
qed

theorem lowered_limit_not_enforced_witness:
  "let s = foldl sched_step empty_scheduler
     [SetLimit ''p'' 2, Acquire ''p'' ''a'' None, Acquire ''p'' ''b'' None,
      Acquire ''p'' ''c'' (Some (9::nat)), SetLimit ''p'' 1]
   in posted (release ''p'' s) = [Some 9] \<and>
      inFlight (getState ''p'' (release ''p'' s)) > limit (getState ''p'' (release ''p'' s))"
proof -
  let ?s = "foldl sched_step empty_scheduler
     [SetLimit ''p'' 2, Acquire ''p'' ''a'' None, Acquire ''p'' ''b'' None,
      Acquire ''p'' ''c'' (Some (9::nat)), SetLimit ''p'' 1]"
  have "inFlight (getState (bucketKey ''p'') ?s) > limit (getState (bucketKey ''p'') ?s)"
    "limit (getState (bucketKey ''p'') ?s) \<ge> 1"
    "queue (getState (bucketKey ''p'') ?s) = [\<lparr>waiterId = ''c'', onGranted = Some 9\<rparr>]"
    "posted ?s = []"
    by code_simp+
  with lowered_limit_not_enforced [of "''p''" ?s] show ?thesis
    by (simp add: bucketKey_def del: foldl_Cons)
qed

end
