(* ===== verification/Ragp_Types.thy ===== *)
theory Ragp_Types
  imports Prelude
begin

text \<open>
  The data of the reply classifier (backend/services/ragp/ragp-types.h and ragp-types.cpp): the
  intents with their names and routing policy, one classified mention, the result of a
  classification and its request. A C++ \<open>double\<close> that is only compared is a \<^typ>\<open>real\<close>.
\<close>

section \<open>Intents\<close>

datatype intent =
    UNKNOWN
  | DELEGATE_RESPONSE
  | DELEGATE_TASK
  | BROADCAST_REQUEST
  | CLARIFICATION_REQUEST
  | CORRECTION_REQUEST
  | STATUS_CHECK
  | HANDOFF_COMPLETE
  | PLURAL_ADDRESS
  | ESCALATION_TO_USER
  | REFERENCE
  | ACKNOWLEDGMENT
  | SUMMARY_LIST
  | QUESTION_ABOUT
  | QUOTING
  | GREETING_FAREWELL

text \<open>The enumeration in declaration order, so that the library's operations over finite types
  evaluate on it.\<close>

definition all_intents :: "intent list" where
  "all_intents = [UNKNOWN, DELEGATE_RESPONSE, DELEGATE_TASK, BROADCAST_REQUEST,
     CLARIFICATION_REQUEST, CORRECTION_REQUEST, STATUS_CHECK, HANDOFF_COMPLETE, PLURAL_ADDRESS,
     ESCALATION_TO_USER, REFERENCE, ACKNOWLEDGMENT, SUMMARY_LIST, QUESTION_ABOUT, QUOTING,
     GREETING_FAREWELL]"

lemma set_all_intents: "i \<in> set all_intents"
  by (cases i) (simp_all add: all_intents_def)

instantiation intent :: enum
begin
definition "Enum.enum = all_intents"
definition "Enum.enum_all P \<longleftrightarrow> list_all P all_intents"
definition "Enum.enum_ex P \<longleftrightarrow> list_ex P all_intents"
instance
proof
  show "(UNIV :: intent set) = set Enum.enum"
    using set_all_intents by (auto simp: enum_intent_def)
  show "distinct (Enum.enum :: intent list)"
    by (simp add: enum_intent_def all_intents_def)
  show "Enum.enum_all P \<longleftrightarrow> Ball (UNIV :: intent set) P" for P
    using set_all_intents by (auto simp: enum_all_intent_def list_all_iff)
  show "Enum.enum_ex P \<longleftrightarrow> Bex (UNIV :: intent set) P" for P
    using set_all_intents by (auto simp: enum_ex_intent_def list_ex_iff)
qed
end

fun intentToString :: "intent \<Rightarrow> string" where
  "intentToString UNKNOWN = ''UNKNOWN''"
| "intentToString DELEGATE_RESPONSE = ''DELEGATE_RESPONSE''"
| "intentToString DELEGATE_TASK = ''DELEGATE_TASK''"
| "intentToString BROADCAST_REQUEST = ''BROADCAST_REQUEST''"
| "intentToString CLARIFICATION_REQUEST = ''CLARIFICATION_REQUEST''"
| "intentToString CORRECTION_REQUEST = ''CORRECTION_REQUEST''"
| "intentToString STATUS_CHECK = ''STATUS_CHECK''"
| "intentToString HANDOFF_COMPLETE = ''HANDOFF_COMPLETE''"
| "intentToString PLURAL_ADDRESS = ''PLURAL_ADDRESS''"
| "intentToString ESCALATION_TO_USER = ''ESCALATION_TO_USER''"
| "intentToString REFERENCE = ''REFERENCE''"
| "intentToString ACKNOWLEDGMENT = ''ACKNOWLEDGMENT''"
| "intentToString SUMMARY_LIST = ''SUMMARY_LIST''"
| "intentToString QUESTION_ABOUT = ''QUESTION_ABOUT''"
| "intentToString QUOTING = ''QUOTING''"
| "intentToString GREETING_FAREWELL = ''GREETING_FAREWELL''"

text \<open>The lookup walks the table and takes the first name that matches without regard to case;
  the names are distinct, so the table's order does not matter.\<close>

definition intentFromString :: "string \<Rightarrow> intent" where
  "intentFromString s =
     (case find (\<lambda>i. eqCI (intentToString i) s) all_intents of Some i \<Rightarrow> i | None \<Rightarrow> UNKNOWN)"

fun shouldCascade :: "intent \<Rightarrow> bool" where
  "shouldCascade DELEGATE_RESPONSE = True"
| "shouldCascade DELEGATE_TASK = True"
| "shouldCascade BROADCAST_REQUEST = True"
| "shouldCascade CLARIFICATION_REQUEST = True"
| "shouldCascade CORRECTION_REQUEST = True"
| "shouldCascade STATUS_CHECK = True"
| "shouldCascade HANDOFF_COMPLETE = True"
| "shouldCascade PLURAL_ADDRESS = True"
| "shouldCascade ESCALATION_TO_USER = False"
| "shouldCascade REFERENCE = False"
| "shouldCascade ACKNOWLEDGMENT = False"
| "shouldCascade SUMMARY_LIST = False"
| "shouldCascade QUESTION_ABOUT = False"
| "shouldCascade QUOTING = False"
| "shouldCascade GREETING_FAREWELL = False"
| "shouldCascade UNKNOWN = False"

section \<open>Targets, classifications, requests\<close>

record target =
  tg_alias :: string
  tg_intent :: intent
  tg_context :: string

record classification =
  targets :: "target list"
  routeToUser :: bool
  confidence :: real
  latencyMs :: int
  fromCache :: bool
  source :: string
  selfPendingAction :: bool
  pendingActionHint :: string
  pendingDelegateAlias :: string

definition empty_classification :: classification where
  "empty_classification = \<lparr>targets = [], routeToUser = False, confidence = 0, latencyMs = 0,
     fromCache = False, source = [], selfPendingAction = False, pendingActionHint = [],
     pendingDelegateAlias = []\<rparr>"

record request =
  rq_content :: string
  rq_authorAlias :: string
  rq_rosterAliases :: "string list"
  rq_executedToolsSummary :: string
  rq_wantsPendingActionVerdict :: bool

text \<open>A classification that carries no pending-action verdict.\<close>

definition no_verdict :: "classification \<Rightarrow> bool" where
  "no_verdict c \<longleftrightarrow> \<not> selfPendingAction c \<and> pendingActionHint c = [] \<and> pendingDelegateAlias c = []"

definition clear_verdict :: "classification \<Rightarrow> classification" where
  "clear_verdict c = c\<lparr>selfPendingAction := False, pendingActionHint := [], pendingDelegateAlias := []\<rparr>"

lemma no_verdict_clear [simp]: "no_verdict (clear_verdict c)"
  by (simp add: no_verdict_def clear_verdict_def)

lemma clear_verdict_fields [simp]:
  "targets (clear_verdict c) = targets c"
  "routeToUser (clear_verdict c) = routeToUser c"
  "confidence (clear_verdict c) = confidence c"
  "source (clear_verdict c) = source c"
  by (simp_all add: clear_verdict_def)

lemma intent_names_lower:
  "map (\<lambda>i. toLower (intentToString i)) all_intents =
     [''unknown'', ''delegate_response'', ''delegate_task'', ''broadcast_request'',
      ''clarification_request'', ''correction_request'', ''status_check'', ''handoff_complete'',
      ''plural_address'', ''escalation_to_user'', ''reference'', ''acknowledgment'',
      ''summary_list'', ''question_about'', ''quoting'', ''greeting_farewell'']"
  by code_simp

lemma intent_names_distinct:
  "eqCI (intentToString i) (intentToString j) \<longleftrightarrow> i = j"
proof -
  have "distinct (map (\<lambda>i. toLower (intentToString i)) all_intents)"
    unfolding intent_names_lower by simp
  with set_all_intents show ?thesis
    unfolding eqCI_def distinct_map inj_on_def by blast
qed

lemma find_unique: "x \<in> set xs \<Longrightarrow> find (\<lambda>y. y = x) xs = Some x"
  by (induction xs) auto

lemma intentFromString_name:
  assumes "eqCI s (intentToString i)"
  shows "intentFromString s = i"
proof -
  have "eqCI (intentToString j) s \<longleftrightarrow> j = i" for j
    using assms intent_names_distinct by (metis eqCI_sym eqCI_trans)
  then show ?thesis
    by (simp add: intentFromString_def find_unique set_all_intents)
qed

text \<open>
  The intent names round-trip: a text is read as an intent exactly when it is the name of
  that intent, in whatever upper and lower case; a text that names no intent is read as
  \<open>UNKNOWN\<close>.
\<close>

theorem intent_name_roundtrip:
  "intentFromString s = i \<longleftrightarrow>
     eqCI s (intentToString i) \<or> (i = UNKNOWN \<and> (\<nexists>j. eqCI s (intentToString j)))"
proof (cases "\<exists>j. eqCI s (intentToString j)")
  case True
  then show ?thesis using intentFromString_name by blast
next
  case False
  then have "find (\<lambda>j. eqCI (intentToString j) s) all_intents = None"
    by (auto simp: find_None_iff dest: eqCI_sym)
  with False show ?thesis by (auto simp: intentFromString_def)
qed

end
