(* ===== verification/Ragp_Rules.thy ===== *)
theory Ragp_Rules
  imports Ragp_Types
begin

text \<open>
  Tier 1 of the reply classifier, \<open>Ragp::RuleClassifier\<close>
  (backend/services/ragp/ragp-rule-classifier.cpp): it finds the @-mentions of a reply and
  classifies them by structure alone. Positions are code-unit indices.
\<close>

section \<open>Operations\<close>

definition normalizeAlias :: "string \<Rightarrow> string" where
  "normalizeAlias alias = replaceC (CHR '' '') (CHR ''_'') (trimmed alias)"

definition isUserAlias :: "string \<Rightarrow> bool" where
  "isUserAlias token \<longleftrightarrow> toLower token \<in> {''owner'', ''user'', ''you'', ''leader''}"

definition isBroadcastAlias :: "string \<Rightarrow> bool" where
  "isBroadcastAlias token \<longleftrightarrow> toLower token \<in> {''all'', ''everyone'', ''team''}"

text \<open>The fence counter: \<open>pos\<close> is inside a fence when the number of triple backticks that start
  before it is odd.\<close>

function fenceLoop :: "string \<Rightarrow> nat \<Rightarrow> nat \<Rightarrow> nat \<Rightarrow> nat" where
  "fenceLoop text pos i n =
     (if i < pos \<and> i + 2 < length text
      then if text ! i = CHR ''`'' \<and> text ! (i + 1) = CHR ''`'' \<and> text ! (i + 2) = CHR ''`''
           then fenceLoop text pos (i + 3) (n + 1)
           else fenceLoop text pos (i + 1) n
      else n)"
  by pat_completeness auto
termination
  by (relation "measure (\<lambda>(text, pos, i, n). pos - i)") auto

declare fenceLoop.simps [simp del]

definition isInsideCodeFence :: "string \<Rightarrow> nat \<Rightarrow> bool" where
  "isInsideCodeFence text pos \<longleftrightarrow> fenceLoop text pos 0 0 mod 2 = 1"

fun lineStart :: "string \<Rightarrow> nat \<Rightarrow> nat" where
  "lineStart text 0 = 0"
| "lineStart text (Suc k) = (if text ! k \<noteq> CHR 0x0A then lineStart text k else Suc k)"

function skipBlank :: "string \<Rightarrow> nat \<Rightarrow> nat \<Rightarrow> nat" where
  "skipBlank text pos ls =
     (if ls < pos \<and> isSpaceC (text ! ls) \<and> text ! ls \<noteq> CHR 0x0A
      then skipBlank text pos (ls + 1) else ls)"
  by pat_completeness auto
termination
  by (relation "measure (\<lambda>(text, pos, ls). pos - ls)") auto

declare skipBlank.simps [simp del]

definition isInsideBlockQuote :: "string \<Rightarrow> nat \<Rightarrow> bool" where
  "isInsideBlockQuote text pos =
     (let ls = skipBlank text pos (lineStart text pos)
      in ls < length text \<and> text ! ls = CHR ''>'')"

definition rosterContains :: "string list \<Rightarrow> string \<Rightarrow> bool" where
  "rosterContains roster token \<longleftrightarrow>
     list_ex (\<lambda>alias. eqCI (normalizeAlias alias) (normalizeAlias token)) roster"

text \<open>The matches of \<open>@([A-Za-z0-9_]+)\<close> from left to right: start of the match and token.\<close>

function mentions :: "nat \<Rightarrow> string \<Rightarrow> (nat \<times> string) list" where
  "mentions i [] = []"
| "mentions i (c # cs) =
     (let tok = takeWhile isWordC cs
      in if c = CHR ''@'' \<and> tok \<noteq> []
         then (i, tok) # mentions (i + 1 + length tok) (dropWhile isWordC cs)
         else mentions (i + 1) cs)"
  by pat_completeness auto
termination
  by (relation "measure (\<lambda>(i, s). length s)") (auto simp: le_imp_less_Suc length_dropWhile_le)

text \<open>Adding one target unless its alias has been seen.\<close>

definition addTarget ::
  "string \<Rightarrow> intent \<Rightarrow> classification \<times> string set \<Rightarrow> classification \<times> string set" where
  "addTarget alias i acc =
     (if toLower alias \<in> snd acc then acc
      else ((fst acc)\<lparr>targets := targets (fst acc) @
               [\<lparr>tg_alias = alias, tg_intent = i, tg_context = []\<rparr>]\<rparr>,
            insert (toLower alias) (snd acc)))"

definition addBroadcast ::
  "request \<Rightarrow> classification \<times> string set \<Rightarrow> classification \<times> string set" where
  "addBroadcast req acc =
     foldl (\<lambda>acc alias.
         let normAlias = normalizeAlias alias
         in if eqCI normAlias (normalizeAlias (rq_authorAlias req)) then acc
            else addTarget normAlias BROADCAST_REQUEST acc)
       acc (rq_rosterAliases req)"

text \<open>One iteration of the loop over the mentions; the rules in the order of the code.\<close>

definition classifyMention ::
  "request \<Rightarrow> classification \<times> string set \<Rightarrow> nat \<times> string \<Rightarrow> classification \<times> string set" where
  "classifyMention req acc m =
     (let matchStart = fst m; token = snd m; normTok = normalizeAlias token
      in if eqCI normTok (normalizeAlias (rq_authorAlias req)) then acc
         else if isUserAlias token then ((fst acc)\<lparr>routeToUser := True\<rparr>, snd acc)
         else if isBroadcastAlias token then addBroadcast req acc
         else if isInsideCodeFence (rq_content req) matchStart then
           (if rosterContains (rq_rosterAliases req) token then addTarget normTok REFERENCE acc
            else acc)
         else if isInsideBlockQuote (rq_content req) matchStart then
           (if rosterContains (rq_rosterAliases req) token then addTarget normTok QUOTING acc
            else acc)
         else if \<not> rosterContains (rq_rosterAliases req) token then acc
         else if toLower normTok \<in> snd acc then acc
         else (let acc' = addTarget normTok UNKNOWN acc
               in ((fst acc')\<lparr>confidence := 0\<rparr>, snd acc')))"

definition rule_base :: classification where
  "rule_base = empty_classification\<lparr>source := ''rule'', confidence := 1\<rparr>"

definition rule_classify :: "request \<Rightarrow> classification" where
  "rule_classify req = fst (foldl (classifyMention req) (rule_base, {}) (mentions 0 (rq_content req)))"

section \<open>Alias normalisation\<close>

lemma set_takeWhile_tok: "c \<in> set (takeWhile isWordC cs) \<Longrightarrow> isWordC c"
  by (rule set_takeWhileD [THEN conjunct2])

lemma wordC_not_space: "isWordC c \<Longrightarrow> \<not> isSpaceC c"
  by (auto simp: isWordC_def isSpaceC_def Let_def)

lemma mentions_tokens: "(p, tok) \<in> set (mentions i s) \<Longrightarrow> tok \<noteq> [] \<and> (\<forall>c \<in> set tok. isWordC c)"
  by (induction i s rule: mentions.induct)
    (auto simp: Let_def dest: set_takeWhile_tok split: if_splits)

lemma trimmed_no_space: "\<forall>c \<in> set s. \<not> isSpaceC c \<Longrightarrow> trimmed s = s"
proof -
  assume s: "\<forall>c \<in> set s. \<not> isSpaceC c"
  then have "dropWhile isSpaceC s = s" by (cases s) auto
  moreover have "dropWhile isSpaceC (rev s) = rev s" using s by (cases "rev s") (auto simp: rev_eq_Cons_iff)
  ultimately show ?thesis by (simp add: trimmed_def)
qed

lemma normalizeAlias_token:
  assumes "(p, tok) \<in> set (mentions i s)"
  shows "normalizeAlias tok = tok"
proof -
  have "\<forall>c \<in> set tok. \<not> isSpaceC c" using mentions_tokens [OF assms] wordC_not_space by blast
  moreover from this have "CHR '' '' \<notin> set tok" by (auto simp: isSpaceC_def code_def)
  then have "replaceC (CHR '' '') (CHR ''_'') tok = tok"
    by (auto simp: replaceC_def intro: map_idI)
  ultimately show ?thesis by (simp add: normalizeAlias_def trimmed_no_space)
qed

section \<open>The invariant of the loop\<close>

definition in_roster :: "request \<Rightarrow> string \<Rightarrow> bool" where
  "in_roster req alias \<longleftrightarrow> (\<exists>a \<in> set (rq_rosterAliases req). eqCI (normalizeAlias a) alias)"

definition is_author :: "request \<Rightarrow> string \<Rightarrow> bool" where
  "is_author req alias \<longleftrightarrow> eqCI alias (normalizeAlias (rq_authorAlias req))"

definition rule_inv :: "request \<Rightarrow> classification \<times> string set \<Rightarrow> bool" where
  "rule_inv req acc \<longleftrightarrow>
     snd acc = set (map (toLower \<circ> tg_alias) (targets (fst acc))) \<and>
     distinct (map (toLower \<circ> tg_alias) (targets (fst acc))) \<and>
     (\<forall>t \<in> set (targets (fst acc)). \<not> is_author req (tg_alias t) \<and> in_roster req (tg_alias t)) \<and>
     confidence (fst acc) = (if \<exists>t \<in> set (targets (fst acc)). tg_intent t = UNKNOWN then 0 else 1) \<and>
     no_verdict (fst acc) \<and> source (fst acc) = ''rule''"

lemma rule_base_inv: "rule_inv req (rule_base, {})"
  by (simp add: rule_inv_def rule_base_def empty_classification_def no_verdict_def)

lemma addTarget_inv:
  assumes "rule_inv req acc" and "\<not> is_author req alias" and "in_roster req alias"
    and "i \<noteq> UNKNOWN"
  shows "rule_inv req (addTarget alias i acc)"
  using assms by (auto simp: rule_inv_def addTarget_def no_verdict_def)

lemma addTarget_unknown_inv:
  assumes "rule_inv req acc" and "\<not> is_author req alias" and "in_roster req alias"
    and "toLower alias \<notin> snd acc"
  shows "rule_inv req ((fst (addTarget alias UNKNOWN acc))\<lparr>confidence := 0\<rparr>,
                       snd (addTarget alias UNKNOWN acc))"
  using assms by (auto simp: rule_inv_def addTarget_def no_verdict_def)

lemma addBroadcast_inv:
  assumes "rule_inv req acc"
  shows "rule_inv req (addBroadcast req acc)"
proof -
  have "rule_inv req acc \<Longrightarrow> set xs \<subseteq> set (rq_rosterAliases req) \<Longrightarrow>
     rule_inv req (foldl (\<lambda>acc alias. let normAlias = normalizeAlias alias
         in if eqCI normAlias (normalizeAlias (rq_authorAlias req)) then acc
            else addTarget normAlias BROADCAST_REQUEST acc) acc xs)" for xs acc
  proof (induction xs arbitrary: acc)
    case (Cons x xs)
    have "x \<in> set (rq_rosterAliases req)" using Cons.prems(2) by simp
    then have "in_roster req (normalizeAlias x)"
      by (auto simp: in_roster_def intro: bexI [of _ x])
    with Cons.prems addTarget_inv [of req acc "normalizeAlias x" BROADCAST_REQUEST]
      Cons.IH [of acc] Cons.IH [of "addTarget (normalizeAlias x) BROADCAST_REQUEST acc"]
    show ?case by (simp add: Let_def is_author_def)
  qed simp
  from this [OF assms order.refl] show ?thesis by (simp add: addBroadcast_def)
qed

lemma rosterContains_in_roster:
  "rosterContains (rq_rosterAliases req) tok \<longleftrightarrow> in_roster req (normalizeAlias tok)"
  by (auto simp: rosterContains_def in_roster_def list_ex_iff)

lemma classifyMention_inv:
  "rule_inv req acc \<Longrightarrow> rule_inv req (classifyMention req acc m)"
  by (auto simp: classifyMention_def Let_def rosterContains_in_roster is_author_def
      intro!: addTarget_inv addTarget_unknown_inv addBroadcast_inv)
    (auto simp: rule_inv_def no_verdict_def)

lemma classify_loop_inv: "rule_inv req acc \<Longrightarrow> rule_inv req (foldl (classifyMention req) acc ms)"
  by (induction ms arbitrary: acc) (simp_all add: classifyMention_inv)

lemma rule_classify_inv: "\<exists>seen. rule_inv req (rule_classify req, seen)"
  using classify_loop_inv [OF rule_base_inv, of req "mentions 0 (rq_content req)"]
  by (metis rule_classify_def prod.collapse)

lemma rule_classify_no_verdict [simp]: "no_verdict (rule_classify req)"
  and rule_classify_source [simp]: "source (rule_classify req) = ''rule''"
  using rule_classify_inv [of req] by (auto simp: rule_inv_def)

text \<open>What is seen stays seen, and every mention of a teammate is seen.\<close>

lemma addTarget_seen: "insert (toLower alias) (snd acc) = snd (addTarget alias i acc)"
  by (auto simp: addTarget_def)

lemma addTarget_mono: "snd acc \<subseteq> snd (addTarget alias i acc)"
  by (auto simp: addTarget_def)

lemma foldl_mono:
  fixes f :: "'a \<times> 'b set \<Rightarrow> 'c \<Rightarrow> 'a \<times> 'b set"
  assumes "\<And>acc x. snd acc \<subseteq> snd (f acc x)"
  shows "snd acc \<subseteq> snd (foldl f acc xs)"
proof (induction xs arbitrary: acc)
  case (Cons x xs)
  from assms [of acc x] Cons.IH [of "f acc x"] show ?case by (simp add: order.trans)
qed simp

lemma addBroadcast_mono: "snd acc \<subseteq> snd (addBroadcast req acc)"
  unfolding addBroadcast_def by (rule foldl_mono) (simp add: Let_def addTarget_mono)

lemma classifyMention_mono: "snd acc \<subseteq> snd (classifyMention req acc m)"
  by (simp add: classifyMention_def Let_def addTarget_mono addBroadcast_mono)

lemma classify_loop_mono: "snd acc \<subseteq> snd (foldl (classifyMention req) acc ms)"
  by (rule foldl_mono) (rule classifyMention_mono)

definition teammate_mention :: "request \<Rightarrow> string \<Rightarrow> bool" where
  "teammate_mention req tok \<longleftrightarrow> in_roster req tok \<and> \<not> is_author req tok \<and>
     \<not> isUserAlias tok \<and> \<not> isBroadcastAlias tok"

lemma classifyMention_seen:
  assumes "teammate_mention req tok" and "normalizeAlias tok = tok"
  shows "toLower tok \<in> snd (classifyMention req acc (p, tok))"
  using assms addTarget_seen [of tok acc]
  by (auto simp: classifyMention_def Let_def teammate_mention_def is_author_def
      rosterContains_in_roster)

lemma classify_loop_seen:
  assumes "(p, tok) \<in> set ms" and "teammate_mention req tok" and "normalizeAlias tok = tok"
  shows "toLower tok \<in> snd (foldl (classifyMention req) acc ms)"
  using assms(1)
proof (induction ms arbitrary: acc)
  case (Cons m ms)
  show ?case
  proof (cases "m = (p, tok)")
    case True
    with classifyMention_seen [OF assms(2,3), of acc p]
      subsetD [OF classify_loop_mono, of "toLower tok" "classifyMention req acc m" req ms]
    show ?thesis by simp
  qed (use Cons in simp)
qed simp

text \<open>Only a user mention sets the escalation flag.\<close>

lemma addBroadcast_routeToUser [frame_simp]:
  "routeToUser (fst (addBroadcast req acc)) = routeToUser (fst acc)"
proof -
  have "routeToUser (fst (foldl (\<lambda>acc alias. let normAlias = normalizeAlias alias
         in if eqCI normAlias (normalizeAlias (rq_authorAlias req)) then acc
            else addTarget normAlias BROADCAST_REQUEST acc) acc xs)) = routeToUser (fst acc)" for xs
    by (induction xs arbitrary: acc) (simp_all add: Let_def addTarget_def)
  then show ?thesis by (simp add: addBroadcast_def)
qed

definition user_mention :: "request \<Rightarrow> string \<Rightarrow> bool" where
  "user_mention req tok \<longleftrightarrow> isUserAlias tok \<and> \<not> is_author req (normalizeAlias tok)"

lemma classifyMention_routeToUser:
  "routeToUser (fst (classifyMention req acc (p, tok))) \<longleftrightarrow>
     routeToUser (fst acc) \<or> user_mention req tok"
  by (simp add: classifyMention_def Let_def user_mention_def is_author_def addTarget_def frame_simp)

lemma classify_loop_routeToUser:
  "routeToUser (fst (foldl (classifyMention req) acc ms)) \<longleftrightarrow>
     routeToUser (fst acc) \<or> (\<exists>(p, tok) \<in> set ms. user_mention req tok)"
  by (induction ms arbitrary: acc) (auto simp: classifyMention_routeToUser)

section \<open>Properties\<close>

text \<open>
  The rule tier only names teammates: every target is a roster member other than the author,
  no member is named twice whatever the spelling of the mentions, and the confidence is 0 when a
  target is left unclassified and 1 otherwise.
\<close>

theorem rule_targets_sound:
  "(\<forall>t \<in> set (targets (rule_classify req)).
      in_roster req (tg_alias t) \<and> \<not> is_author req (tg_alias t)) \<and>
   distinct (map (toLower \<circ> tg_alias) (targets (rule_classify req))) \<and>
   confidence (rule_classify req) =
     (if \<exists>t \<in> set (targets (rule_classify req)). tg_intent t = UNKNOWN then 0 else 1)"
  using rule_classify_inv [of req] by (auto simp: rule_inv_def)

theorem rule_targets_sound_witness:
  "\<exists>t. t \<in> set (targets (rule_classify \<lparr>rq_content = ''@Bob and @bob'', rq_authorAlias = ''Al'',
     rq_rosterAliases = [''Al'', ''Bob''], rq_executedToolsSummary = [],
     rq_wantsPendingActionVerdict = False\<rparr>)) \<and> in_roster \<lparr>rq_content = ''@Bob and @bob'',
     rq_authorAlias = ''Al'', rq_rosterAliases = [''Al'', ''Bob''], rq_executedToolsSummary = [],
     rq_wantsPendingActionVerdict = False\<rparr> (tg_alias t)"
proof -
  let ?r = "\<lparr>rq_content = ''@Bob and @bob'', rq_authorAlias = ''Al'',
     rq_rosterAliases = [''Al'', ''Bob''], rq_executedToolsSummary = [],
     rq_wantsPendingActionVerdict = False\<rparr>"
  have "targets (rule_classify ?r) = [\<lparr>tg_alias = ''Bob'', tg_intent = UNKNOWN, tg_context = []\<rparr>]"
    by code_simp
  with rule_targets_sound [of ?r] show ?thesis by auto
qed

text \<open>
  The rule tier misses nobody: every mention of a teammate that is neither the author nor one
  of the reserved words gets a target with that alias, and the user is escalated to exactly when
  a user word is mentioned.
\<close>

theorem rule_complete:
  assumes "(p, tok) \<in> set (mentions 0 (rq_content req))" and "teammate_mention req tok"
  shows "(\<exists>t \<in> set (targets (rule_classify req)). eqCI (tg_alias t) tok) \<and>
    routeToUser (rule_classify req) =
      (\<exists>(p, tok) \<in> set (mentions 0 (rq_content req)). user_mention req tok)"
proof
  let ?acc = "foldl (classifyMention req) (rule_base, {}) (mentions 0 (rq_content req))"
  have "toLower tok \<in> snd ?acc"
    by (rule classify_loop_seen [OF assms normalizeAlias_token [OF assms(1)]])
  moreover have "rule_inv req ?acc" by (rule classify_loop_inv [OF rule_base_inv])
  ultimately show "\<exists>t \<in> set (targets (rule_classify req)). eqCI (tg_alias t) tok"
    by (auto simp: rule_inv_def rule_classify_def eqCI_def)
  show "routeToUser (rule_classify req) =
      (\<exists>(p, tok) \<in> set (mentions 0 (rq_content req)). user_mention req tok)"
    by (simp add: rule_classify_def classify_loop_routeToUser rule_base_def empty_classification_def)
qed

theorem rule_complete_witness:
  "\<exists>t \<in> set (targets (rule_classify \<lparr>rq_content = ''hi @Bob, ask @owner'', rq_authorAlias = ''Al'',
     rq_rosterAliases = [''Al'', ''Bob''], rq_executedToolsSummary = [],
     rq_wantsPendingActionVerdict = False\<rparr>)). eqCI (tg_alias t) ''Bob''"
proof -
  let ?r = "\<lparr>rq_content = ''hi @Bob, ask @owner'', rq_authorAlias = ''Al'',
     rq_rosterAliases = [''Al'', ''Bob''], rq_executedToolsSummary = [],
     rq_wantsPendingActionVerdict = False\<rparr>"
  have "mentions 0 (rq_content ?r) = [(3, ''Bob''), (13, ''owner'')]" by code_simp
  then have "(3, ''Bob'') \<in> set (mentions 0 (rq_content ?r))" by simp
  moreover have "rosterContains (rq_rosterAliases ?r) ''Bob'' \<and> normalizeAlias ''Bob'' = ''Bob'' \<and>
    \<not> eqCI ''Bob'' (normalizeAlias ''Al'') \<and> \<not> isUserAlias ''Bob'' \<and> \<not> isBroadcastAlias ''Bob''"
    by code_simp
  then have "teammate_mention ?r ''Bob''"
    using rosterContains_in_roster [of ?r "''Bob''"] by (simp add: teammate_mention_def is_author_def)
  ultimately show ?thesis using rule_complete [of 3 "''Bob''" ?r] by blast
qed

text \<open>
  A broadcast word is not protected by a code fence: with the mention inside a fence the whole
  roster is still asked for a turn, while a mention of one member there is only a reference. The
  header lists a mention inside a code fence as a reference.
\<close>

theorem broadcast_in_fence_routes:
  "map (\<lambda>t. (tg_alias t, tg_intent t)) (targets (rule_classify
     \<lparr>rq_content = ''```@all```'', rq_authorAlias = ''Al'', rq_rosterAliases = [''Al'', ''Bob'', ''Cy''],
      rq_executedToolsSummary = [], rq_wantsPendingActionVerdict = False\<rparr>)) =
     [(''Bob'', BROADCAST_REQUEST), (''Cy'', BROADCAST_REQUEST)] \<and>
   map (\<lambda>t. (tg_alias t, tg_intent t)) (targets (rule_classify
     \<lparr>rq_content = ''```@Bob```'', rq_authorAlias = ''Al'', rq_rosterAliases = [''Al'', ''Bob'', ''Cy''],
      rq_executedToolsSummary = [], rq_wantsPendingActionVerdict = False\<rparr>)) =
     [(''Bob'', REFERENCE)]"
  by code_simp

end
