(* ===== verification/Ragp_Cache.thy ===== *)
theory Ragp_Cache
  imports Ragp_Types "HOL-Library.List_Lexorder" "HOL-Library.Multiset"
begin

text \<open>
  Tier 2 of the reply classifier, \<open>Ragp::Cache\<close> (backend/services/ragp/ragp-cache.cpp): a
  bounded map from content and roster to a classification, with a time to live counted from the
  last access. The clock is the argument \<open>nowMs\<close>; the SHA-256 hasher of Qt is the argument
  \<open>sha\<close>, a function of the bytes added to it. The mutex makes every method one step.
\<close>

section \<open>The interface the classifier service relies on\<close>

text \<open>
  \<open>contents\<close> is what a cache holds. A lookup only returns what is held under that key (marked
  as a cache hit) and adds nothing; a store adds at most its own entry. Whatever holds of all
  stored values therefore holds of every answer.
\<close>

locale result_cache =
  fixes lookup :: "int \<Rightarrow> 'k \<Rightarrow> 'c \<Rightarrow> 'v option \<times> 'c"
    and store :: "int \<Rightarrow> 'k \<Rightarrow> 'v \<Rightarrow> 'c \<Rightarrow> 'c"
    and contents :: "'c \<Rightarrow> ('k \<times> 'v) set"
    and cinv :: "'c \<Rightarrow> bool"
    and hit :: "'v \<Rightarrow> 'v"
  assumes lookup_sound: "cinv c \<Longrightarrow> fst (lookup t k c) = Some v \<Longrightarrow> \<exists>w. (k, w) \<in> contents c \<and> v = hit w"
    and lookup_contents: "cinv c \<Longrightarrow> contents (snd (lookup t k c)) \<subseteq> contents c"
    and store_contents: "cinv c \<Longrightarrow> contents (store t k v c) \<subseteq> insert (k, v) (contents c)"
    and lookup_cinv: "cinv c \<Longrightarrow> cinv (snd (lookup t k c))"
    and store_cinv: "cinv c \<Longrightarrow> cinv (store t k v c)"
begin

lemma store_all:
  "cinv c \<Longrightarrow> \<forall>(k', w) \<in> contents c. P w \<Longrightarrow> P v \<Longrightarrow> \<forall>(k', w) \<in> contents (store t k v c). P w"
  using store_contents [of c t k v] by blast

lemma lookup_all:
  "cinv c \<Longrightarrow> \<forall>(k', w) \<in> contents c. P w \<Longrightarrow> \<forall>(k', w) \<in> contents (snd (lookup t k c)). P w"
  using lookup_contents [of c t k] by blast

lemma answer_all:
  "cinv c \<Longrightarrow> \<forall>(k', w) \<in> contents c. P w \<Longrightarrow> fst (lookup t k c) = Some v \<Longrightarrow> \<exists>w. P w \<and> v = hit w"
  using lookup_sound [of c t k v] by blast

end

section \<open>State and key\<close>

record cache_entry =
  ce_value :: classification
  ce_lastAccessMs :: int

record 'h cache =
  m_maxEntries :: int
  m_ttlMs :: int
  m_entries :: "('h \<times> cache_entry) list"

definition new_cache :: "int \<Rightarrow> int \<Rightarrow> 'h cache" where
  "new_cache maxEntries ttlMs =
     \<lparr>m_maxEntries = (if maxEntries > 0 then maxEntries else 256),
      m_ttlMs = (if ttlMs > 0 then ttlMs else 5 * 60 * 1000), m_entries = []\<rparr>"

definition utf8 :: "string \<Rightarrow> string" where
  "utf8 s = concat (map (\<lambda>c. if code c < 128 then [c]
     else [char_of (192 + code c div 64), char_of (128 + code c mod 64)]) s)"

text \<open>The order of a case-insensitive comparison: case-folded code units, where the micro sign
  folds to the Greek letter.\<close>

definition foldKey :: "string \<Rightarrow> int list" where
  "foldKey s = map (\<lambda>c. if code c = 181 then 956 else code (lowerC c)) s"

definition makeKey :: "(string \<Rightarrow> 'h) \<Rightarrow> string \<Rightarrow> string list \<Rightarrow> 'h" where
  "makeKey sha content rosterAliases =
     sha (utf8 content @ [CHR 0x1F] @
          concat (map (\<lambda>alias. utf8 (toLower alias) @ [CHR 0x1E]) (sort_key foldKey rosterAliases)))"

section \<open>Operations\<close>

definition evictExpired :: "int \<Rightarrow> 'h cache \<Rightarrow> 'h cache" where
  "evictExpired nowMs c =
     c\<lparr>m_entries := filter (\<lambda>(k, e). \<not> nowMs - ce_lastAccessMs e > m_ttlMs c) (m_entries c)\<rparr>"

definition oldest :: "('h \<times> cache_entry) \<Rightarrow> ('h \<times> cache_entry) list \<Rightarrow> 'h \<times> cache_entry" where
  "oldest e0 es =
     foldl (\<lambda>o' e. if ce_lastAccessMs (snd e) < ce_lastAccessMs (snd o') then e else o') e0 es"

definition evictOldest :: "'h cache \<Rightarrow> 'h cache" where
  "evictOldest c =
     (case m_entries c of
        [] \<Rightarrow> c
      | e # es \<Rightarrow> c\<lparr>m_entries := AList.delete (fst (oldest e (e # es))) (m_entries c)\<rparr>)"

definition lookup_key :: "int \<Rightarrow> 'h \<Rightarrow> 'h cache \<Rightarrow> classification option \<times> 'h cache" where
  "lookup_key nowMs key c =
     (case map_of (m_entries c) key of
        None \<Rightarrow> (None, c)
      | Some e \<Rightarrow>
          if nowMs - ce_lastAccessMs e > m_ttlMs c
          then (None, c\<lparr>m_entries := AList.delete key (m_entries c)\<rparr>)
          else (Some ((ce_value e)\<lparr>fromCache := True\<rparr>),
                c\<lparr>m_entries := AList.update key (e\<lparr>ce_lastAccessMs := nowMs\<rparr>) (m_entries c)\<rparr>))"

definition store_key :: "int \<Rightarrow> 'h \<Rightarrow> classification \<Rightarrow> 'h cache \<Rightarrow> 'h cache" where
  "store_key nowMs key result c =
     (let c1 = evictExpired nowMs c;
          c2 = (if key \<notin> set (keys (m_entries c1)) \<and> int (length (m_entries c1)) \<ge> m_maxEntries c1
                then evictOldest c1 else c1)
      in c2\<lparr>m_entries := AList.update key \<lparr>ce_value = result, ce_lastAccessMs = nowMs\<rparr>
                           (m_entries c2)\<rparr>)"

definition cache_lookup ::
  "(string \<Rightarrow> 'h) \<Rightarrow> int \<Rightarrow> string \<Rightarrow> string list \<Rightarrow> 'h cache \<Rightarrow> classification option \<times> 'h cache"
  where
  "cache_lookup sha nowMs content roster c = lookup_key nowMs (makeKey sha content roster) c"

definition cache_store ::
  "(string \<Rightarrow> 'h) \<Rightarrow> int \<Rightarrow> string \<Rightarrow> string list \<Rightarrow> classification \<Rightarrow> 'h cache \<Rightarrow> 'h cache"
  where
  "cache_store sha nowMs content roster result c =
     store_key nowMs (makeKey sha content roster) result c"

definition clear_cache :: "'h cache \<Rightarrow> 'h cache" where
  "clear_cache c = c\<lparr>m_entries := []\<rparr>"

definition cache_size :: "'h cache \<Rightarrow> nat" where
  "cache_size c = length (m_entries c)"

section \<open>Invariant and contents\<close>

definition cache_inv :: "'h cache \<Rightarrow> bool" where
  "cache_inv c \<longleftrightarrow> distinct (keys (m_entries c)) \<and> 0 < m_maxEntries c \<and> 0 < m_ttlMs c \<and>
     int (length (m_entries c)) \<le> m_maxEntries c"

definition cache_contents :: "'h cache \<Rightarrow> ('h \<times> classification) set" where
  "cache_contents c = (\<lambda>(k, e). (k, ce_value e)) ` set (m_entries c)"

lemma new_cache_inv: "cache_inv (new_cache n t)"
  by (simp add: cache_inv_def new_cache_def)

lemma oldest_in: "oldest e0 es \<in> insert e0 (set es)"
proof (induction es arbitrary: e0)
  case (Cons x es)
  from Cons.IH [of x] Cons.IH [of e0] show ?case by (auto simp: oldest_def)
qed (simp add: oldest_def)

lemma oldest_le:
  "ce_lastAccessMs (snd (oldest e0 es)) \<le> ce_lastAccessMs (snd e0) \<and>
   (\<forall>e \<in> set es. ce_lastAccessMs (snd (oldest e0 es)) \<le> ce_lastAccessMs (snd e))"
proof (induction es arbitrary: e0)
  case (Cons x es)
  show ?case
  proof (cases "ce_lastAccessMs (snd x) < ce_lastAccessMs (snd e0)")
    case True
    with Cons.IH [of x] show ?thesis by (auto simp: oldest_def)
  next
    case False
    with Cons.IH [of e0] show ?thesis by (auto simp: oldest_def)
  qed
qed (simp add: oldest_def)

lemma length_delete_key:
  "k \<in> set (keys m) \<Longrightarrow> distinct (keys m) \<Longrightarrow> Suc (length (AList.delete k m)) = length m"
proof (induction m)
  case (Cons p m)
  show ?case
  proof (cases "fst p = k")
    case True
    with Cons.prems(2) have "k \<notin> fst ` set m" by auto
    then have "AList.delete k m = m" by (rule delete_id)
    with True show ?thesis by (cases p) simp
  qed (use Cons in \<open>cases p; auto\<close>)
qed simp

lemma length_update_key:
  "length (AList.update k v m) = (if k \<in> set (keys m) then length m else Suc (length m))"
  by (induction m) auto

lemma delete_subset: "set (AList.delete k m) \<subseteq> set m"
  by (induction m) auto

lemma update_subset: "set (AList.update k v m) \<subseteq> insert (k, v) (set m)"
  by (induction m) auto

text \<open>Replacing the entries by fewer of them keeps the invariant.\<close>

lemma cache_inv_fewer:
  assumes "cache_inv c" and "distinct (keys m)" and "length m \<le> length (m_entries c)"
  shows "cache_inv (c\<lparr>m_entries := m\<rparr>)"
  using assms by (simp add: cache_inv_def del: distinct_map)

lemma evictExpired_inv: "cache_inv c \<Longrightarrow> cache_inv (evictExpired t c)"
  by (simp add: evictExpired_def, rule cache_inv_fewer)
    (simp_all add: cache_inv_def distinct_map_filter length_filter_le del: distinct_map)

lemma evictOldest_cases:
  obtains "evictOldest c = c" | k where "evictOldest c = c\<lparr>m_entries := AList.delete k (m_entries c)\<rparr>"
  by (cases "m_entries c") (auto simp only: evictOldest_def list.case)

lemma evictOldest_inv: "cache_inv c \<Longrightarrow> cache_inv (evictOldest c)"
proof -
  assume c: "cache_inv c"
  then have "cache_inv (c\<lparr>m_entries := AList.delete k (m_entries c)\<rparr>)" for k
    by (rule cache_inv_fewer) (use c in \<open>simp_all add: cache_inv_def distinct_delete
      length_delete_le del: distinct_map\<close>)
  with c show ?thesis by (cases rule: evictOldest_cases [of c]) simp_all
qed

lemma evictOldest_length:
  assumes "cache_inv c" and "m_entries c \<noteq> []"
  shows "Suc (length (m_entries (evictOldest c))) = length (m_entries c)"
proof (cases "m_entries c")
  case (Cons e es)
  have "oldest e (e # es) \<in> set (m_entries c)" using oldest_in [of e "e # es"] Cons by auto
  then have "fst (oldest e (e # es)) \<in> set (keys (m_entries c))" by auto
  from length_delete_key [OF this] assms(1) Cons show ?thesis
    by (simp add: evictOldest_def cache_inv_def)
qed (use assms in simp)

lemma evict_fields [simp]:
  "m_maxEntries (evictExpired t c) = m_maxEntries c" "m_ttlMs (evictExpired t c) = m_ttlMs c"
  "m_maxEntries (evictOldest c) = m_maxEntries c" "m_ttlMs (evictOldest c) = m_ttlMs c"
  by (simp_all add: evictExpired_def evictOldest_def split: list.splits)

lemma lookup_key_inv: "cache_inv c \<Longrightarrow> cache_inv (snd (lookup_key t k c))"
proof -
  assume c: "cache_inv c"
  show ?thesis
  proof (cases "map_of (m_entries c) k")
    case (Some e)
    then have "k \<in> set (keys (m_entries c))" by (force dest: map_of_SomeD)
    with c Some length_delete_le [of k "m_entries c"] show ?thesis
      by (auto simp: lookup_key_def cache_inv_def distinct_delete distinct_update length_update_key
          simp del: distinct_map)
  qed (use c in \<open>simp add: lookup_key_def\<close>)
qed

lemma store_key_inv: "cache_inv c \<Longrightarrow> cache_inv (store_key t k v c)"
proof -
  assume c: "cache_inv c"
  let ?c1 = "evictExpired t c"
  have c1: "cache_inv ?c1" by (rule evictExpired_inv [OF c])
  show ?thesis
  proof (cases "k \<notin> set (keys (m_entries ?c1)) \<and> int (length (m_entries ?c1)) \<ge> m_maxEntries ?c1")
    case True
    with c1 have ne: "m_entries ?c1 \<noteq> []" by (auto simp: cache_inv_def)
    have "int (length (m_entries (evictOldest ?c1))) + 1 \<le> m_maxEntries c"
      using evictOldest_length [OF c1 ne] c1 by (simp add: cache_inv_def)
    with True evictOldest_inv [OF c1] show ?thesis
      by (auto simp: store_key_def Let_def cache_inv_def distinct_update length_update_key
          simp del: distinct_map)
  next
    case False
    with c1 show ?thesis
      by (auto simp: store_key_def Let_def cache_inv_def distinct_update length_update_key
          simp del: distinct_map)
  qed
qed

lemma clear_cache_inv: "cache_inv c \<Longrightarrow> cache_inv (clear_cache c)"
  by (simp add: cache_inv_def clear_cache_def)

lemma evictExpired_contents: "cache_contents (evictExpired t c) \<subseteq> cache_contents c"
  by (auto simp: cache_contents_def evictExpired_def)

lemma evictOldest_contents: "cache_contents (evictOldest c) \<subseteq> cache_contents c"
proof -
  have "cache_contents (c\<lparr>m_entries := AList.delete k (m_entries c)\<rparr>) \<subseteq> cache_contents c" for k
    unfolding cache_contents_def using delete_subset [of k "m_entries c"] by (simp add: image_mono)
  then show ?thesis by (cases rule: evictOldest_cases [of c]) simp_all
qed

lemma lookup_key_contents: "cache_contents (snd (lookup_key t k c)) \<subseteq> cache_contents c"
proof (cases "map_of (m_entries c) k")
  case (Some e)
  then have "(k, e) \<in> set (m_entries c)" by (rule map_of_SomeD)
  then have kv: "(k, ce_value e) \<in> cache_contents c" by (force simp: cache_contents_def)
  have "cache_contents (c\<lparr>m_entries := AList.delete k (m_entries c)\<rparr>) \<subseteq> cache_contents c"
    unfolding cache_contents_def using delete_subset [of k "m_entries c"] by (simp add: image_mono)
  moreover have "cache_contents (c\<lparr>m_entries := AList.update k (e\<lparr>ce_lastAccessMs := t\<rparr>) (m_entries c)\<rparr>)
      \<subseteq> insert (k, ce_value e) (cache_contents c)"
    using image_mono [OF update_subset [of k "e\<lparr>ce_lastAccessMs := t\<rparr>" "m_entries c"],
        of "\<lambda>(k, e). (k, ce_value e)"] by (simp add: cache_contents_def)
  ultimately show ?thesis using Some kv by (auto simp: lookup_key_def)
qed (simp add: lookup_key_def)

lemma update_contents:
  "cache_contents (c\<lparr>m_entries := AList.update k \<lparr>ce_value = v, ce_lastAccessMs = t\<rparr> (m_entries c)\<rparr>) \<subseteq>
     insert (k, v) (cache_contents c)"
  using image_mono [OF update_subset [of k "\<lparr>ce_value = v, ce_lastAccessMs = t\<rparr>" "m_entries c"],
      of "\<lambda>(k, e). (k, ce_value e)"] by (simp add: cache_contents_def)

lemma store_key_contents: "cache_contents (store_key t k v c) \<subseteq> insert (k, v) (cache_contents c)"
proof -
  let ?c2 = "if k \<notin> set (keys (m_entries (evictExpired t c))) \<and>
      int (length (m_entries (evictExpired t c))) \<ge> m_maxEntries (evictExpired t c)
    then evictOldest (evictExpired t c) else evictExpired t c"
  have "cache_contents ?c2 \<subseteq> cache_contents c"
    using evictExpired_contents [of t c] evictOldest_contents [of "evictExpired t c"] by auto
  with update_contents [where c = ?c2 and k = k and v = v and t = t] show ?thesis
    unfolding store_key_def Let_def by blast
qed

lemma lookup_key_Some:
  "fst (lookup_key t k c) = Some v \<longleftrightarrow>
     (\<exists>e. map_of (m_entries c) k = Some e \<and> t - ce_lastAccessMs e \<le> m_ttlMs c \<and>
          v = (ce_value e)\<lparr>fromCache := True\<rparr>)"
  by (auto simp: lookup_key_def split: option.splits)

interpretation ragp_cache:
  result_cache lookup_key store_key cache_contents cache_inv "\<lambda>v. v\<lparr>fromCache := True\<rparr>"
proof
  fix c :: "'h cache" and t k v
  show "\<exists>w. (k, w) \<in> cache_contents c \<and> v = w\<lparr>fromCache := True\<rparr>"
    if "fst (lookup_key t k c) = Some v"
    using that by (force simp: lookup_key_Some cache_contents_def dest: map_of_SomeD)
qed (simp_all add: lookup_key_contents store_key_contents lookup_key_inv store_key_inv)

section \<open>Properties\<close>

datatype 'h cache_op =
    Lookup int 'h
  | Store int 'h classification
  | Clear

fun cache_step :: "'h cache \<Rightarrow> 'h cache_op \<Rightarrow> 'h cache" where
  "cache_step c (Lookup t k) = snd (lookup_key t k c)"
| "cache_step c (Store t k v) = store_key t k v c"
| "cache_step c Clear = clear_cache c"

interpretation ragp_cache_machine:
  invariant_machine "\<lambda>c. \<exists>n t. c = new_cache n t" "\<lambda>_ _. True" cache_step cache_inv
proof
  fix c :: "'a cache" and e
  show "cache_inv (cache_step c e)" if "cache_inv c"
    using that by (cases e) (simp_all add: lookup_key_inv store_key_inv clear_cache_inv)
qed (auto simp: new_cache_inv)

lemma cache_step_capacity [simp]: "m_maxEntries (cache_step c e) = m_maxEntries c"
  by (cases e) (auto simp: lookup_key_def store_key_def clear_cache_def Let_def split: option.splits)

lemma run_capacity [simp]: "m_maxEntries (foldl cache_step c es) = m_maxEntries c"
  by (induction es arbitrary: c) simp_all

text \<open>
  Whatever sequence of lookups, stores and clears a cache serves, it never holds more entries
  than the capacity it was built with (256 when the constructor is given none), and never two
  entries for one key.
\<close>

theorem cache_bounded:
  "let c = foldl cache_step (new_cache n t) es in
     int (cache_size c) \<le> (if n > 0 then n else 256) \<and> distinct (keys (m_entries c))"
proof -
  have "cache_inv (foldl cache_step (new_cache n t) es)"
    by (rule ragp_cache_machine.reachable_inv) auto
  then have "int (length (m_entries (foldl cache_step (new_cache n t) es))) \<le> (if n > 0 then n else 256)"
    and "distinct (keys (m_entries (foldl cache_step (new_cache n t) es)))"
    unfolding cache_inv_def run_capacity by (simp_all add: new_cache_def del: distinct_map)
  then show ?thesis unfolding Let_def cache_size_def by (rule conjI)
qed

lemma map_of_filter_Some:
  "distinct (keys m) \<Longrightarrow>
   map_of (filter P m) k = (case map_of m k of None \<Rightarrow> None | Some v \<Rightarrow> if P (k, v) then Some v else None)"
proof (induction m)
  case (Cons p m)
  then show ?case
    by (cases p) (auto split: option.splits simp: map_of_eq_None_iff image_iff)
qed simp

lemma store_key_self:
  "map_of (m_entries (store_key t k v c)) k = Some \<lparr>ce_value = v, ce_lastAccessMs = t\<rparr>"
  by (simp add: store_key_def Let_def update_conv')

lemma store_key_ttl [simp]: "m_ttlMs (store_key t k v c) = m_ttlMs c"
  by (simp add: store_key_def Let_def)

text \<open>
  A classification stored for a reply and a roster is returned, marked as a cache hit, by a
  lookup of the same reply and roster within the time to live, and by no lookup after it; the
  expired lookup also drops the entry.
\<close>

theorem store_then_lookup:
  "fst (cache_lookup sha t' content roster (cache_store sha t content roster v c)) =
     (if t' - t \<le> m_ttlMs c then Some (v\<lparr>fromCache := True\<rparr>) else None) \<and>
   (m_ttlMs c < t' - t \<longrightarrow>
     makeKey sha content roster \<notin>
       set (keys (m_entries (snd (cache_lookup sha t' content roster
         (cache_store sha t content roster v c))))))"
  by (simp add: cache_lookup_def cache_store_def lookup_key_def store_key_self delete_conv'
      flip: map_of_eq_None_iff)

theorem store_then_lookup_witness:
  "fst (cache_lookup (\<lambda>b. b) 400000 ''hi'' [''Al''] (cache_store (\<lambda>b. b) 0 ''hi'' [''Al'']
     empty_classification (new_cache 4 0))) = None \<and>
   makeKey (\<lambda>b. b) ''hi'' [''Al''] \<notin>
     set (keys (m_entries (snd (cache_lookup (\<lambda>b. b) 400000 ''hi'' [''Al'']
       (cache_store (\<lambda>b. b) 0 ''hi'' [''Al''] empty_classification (new_cache 4 0))))))"
  using store_then_lookup [of "\<lambda>b. b" 400000 "''hi''" "[''Al'']" 0 empty_classification "new_cache 4 0"]
  by (simp add: new_cache_def)

text \<open>The entry that gives way to a new one.\<close>

lemma evictOldest_min:
  assumes "m_entries c \<noteq> []"
  obtains k e where "(k, e) \<in> set (m_entries c)" and "m_entries (evictOldest c) = AList.delete k (m_entries c)"
    and "\<forall>(k', e') \<in> set (m_entries c). ce_lastAccessMs e \<le> ce_lastAccessMs e'"
proof (cases "m_entries c")
  case (Cons p es)
  let ?o = "oldest p (p # es)"
  have "?o \<in> set (m_entries c)" using oldest_in [of p "p # es"] Cons by auto
  moreover have "m_entries (evictOldest c) = AList.delete (fst ?o) (m_entries c)"
    by (simp only: evictOldest_def Cons list.case) simp
  moreover have "\<forall>(k', e') \<in> set (m_entries c). ce_lastAccessMs (snd ?o) \<le> ce_lastAccessMs e'"
    using oldest_le [of p "p # es"] Cons by auto
  ultimately show ?thesis using that [of "fst ?o" "snd ?o"] by simp
qed (use assms in simp)

lemma evictExpired_id:
  assumes "\<forall>(k', e) \<in> set (m_entries c). t - ce_lastAccessMs e \<le> m_ttlMs c"
  shows "evictExpired t c = c"
proof -
  have "filter (\<lambda>(k, e). \<not> t - ce_lastAccessMs e > m_ttlMs c) (m_entries c) = m_entries c"
    using assms by (auto simp: filter_id_conv)
  then show ?thesis by (simp add: evictExpired_def)
qed

text \<open>
  Storing under a new key in a full cache with nothing expired removes exactly one entry, and
  one that no other entry was accessed before; every other entry stays as it was.
\<close>

theorem full_cache_evicts_oldest:
  assumes inv: "cache_inv c" and new: "k \<notin> set (keys (m_entries c))"
    and full: "int (cache_size c) = m_maxEntries c"
    and fresh: "\<forall>(k', e) \<in> set (m_entries c). t - ce_lastAccessMs e \<le> m_ttlMs c"
  shows "\<exists>k0 e0. (k0, e0) \<in> set (m_entries c) \<and>
    (\<forall>(k', e') \<in> set (m_entries c). ce_lastAccessMs e0 \<le> ce_lastAccessMs e') \<and>
    map_of (m_entries (store_key t k v c)) =
      (map_of (m_entries c))(k0 := None, k \<mapsto> \<lparr>ce_value = v, ce_lastAccessMs = t\<rparr>)"
proof -
  have "m_entries c \<noteq> []" using inv full by (auto simp: cache_inv_def cache_size_def)
  then obtain k0 e0 where k0: "(k0, e0) \<in> set (m_entries c)"
      "m_entries (evictOldest c) = AList.delete k0 (m_entries c)"
      "\<forall>(k', e') \<in> set (m_entries c). ce_lastAccessMs e0 \<le> ce_lastAccessMs e'"
    by (rule evictOldest_min)
  have "m_entries (store_key t k v c) =
      AList.update k \<lparr>ce_value = v, ce_lastAccessMs = t\<rparr> (m_entries (evictOldest c))"
    using new full by (simp add: store_key_def Let_def evictExpired_id [OF fresh] cache_size_def)
  then have "map_of (m_entries (store_key t k v c)) =
      (map_of (m_entries c))(k0 := None, k \<mapsto> \<lparr>ce_value = v, ce_lastAccessMs = t\<rparr>)"
    by (simp add: k0(2) update_conv' delete_conv')
  with k0 show ?thesis by blast
qed

theorem full_cache_evicts_oldest_witness:
  "let c = \<lparr>m_maxEntries = 2, m_ttlMs = 100,
            m_entries = [(1 :: int, \<lparr>ce_value = empty_classification, ce_lastAccessMs = 20\<rparr>),
                         (2, \<lparr>ce_value = empty_classification, ce_lastAccessMs = 10\<rparr>)]\<rparr>
   in \<exists>k0 e0. (k0, e0) \<in> set (m_entries c) \<and>
        (\<forall>(k', e') \<in> set (m_entries c). ce_lastAccessMs e0 \<le> ce_lastAccessMs e') \<and>
        map_of (m_entries (store_key 30 3 empty_classification c)) =
          (map_of (m_entries c))(k0 := None, 3 \<mapsto> \<lparr>ce_value = empty_classification, ce_lastAccessMs = 30\<rparr>)"
  unfolding Let_def by (rule full_cache_evicts_oldest) (simp_all add: cache_inv_def cache_size_def)

subsection \<open>The key does not depend on the order or the case of the roster\<close>

definition unfoldKey :: "int list \<Rightarrow> string" where
  "unfoldKey ns = map (\<lambda>n. if n = 956 then char_of (181 :: int) else char_of n) ns"

lemma lowerC_181: "code c = 181 \<Longrightarrow> lowerC c = c"
  by (simp add: lowerC_def)

lemma char_of_code: "char_of (code c) = c"
  by (simp add: code_def)

lemma unfold_fold: "unfoldKey (foldKey s) = toLower s"
proof (induction s)
  case (Cons c s)
  have "code (lowerC c) < 256" by simp
  then have "code (lowerC c) \<noteq> 956" by linarith
  moreover have "code c = 181 \<Longrightarrow> char_of (181 :: int) = lowerC c"
    using char_of_code [of c] by (simp add: lowerC_181)
  ultimately show ?case
    using Cons by (simp add: unfoldKey_def foldKey_def char_of_code)
qed (simp add: unfoldKey_def foldKey_def)

lemma foldKey_toLower: "foldKey (toLower s) = foldKey s"
proof -
  have "code (lowerC c) = 181 \<longleftrightarrow> code c = 181" for c
    by (auto simp: lowerC_def Let_def)
  then show ?thesis by (simp add: foldKey_def toLower_def)
qed

lemma map_insort_key: "map f (insort_key f x xs) = insort (f x) (map f xs)"
  by (induction xs) auto

lemma map_sort_key: "map f (sort_key f xs) = sort (map f xs)"
  by (induction xs) (simp_all add: map_insort_key)

lemma sorted_roster:
  "map toLower (sort_key foldKey r) = map unfoldKey (sort (map (\<lambda>s. foldKey (toLower s)) r))"
  by (simp add: foldKey_toLower map_sort_key [symmetric] unfold_fold)

lemma makeKey_sorted:
  "makeKey sha content r =
     sha (utf8 content @ [CHR 0x1F] @
       concat (map (\<lambda>s. utf8 s @ [CHR 0x1E])
         (map unfoldKey (sort (map foldKey (map toLower r))))))"
proof -
  have "map unfoldKey (sort (map foldKey (map toLower r))) = map toLower (sort_key foldKey r)"
    by (simp only: sorted_roster map_map comp_def)
  then show ?thesis unfolding makeKey_def by (simp only:) (simp add: comp_def)
qed

text \<open>
  The cache key does not depend on the order in which the roster lists the aliases nor on
  their case: two rosters with the same lower-case aliases, each as often, give the same key.
\<close>

theorem makeKey_order_case_independent:
  assumes "mset (map toLower r1) = mset (map toLower r2)"
  shows "makeKey sha content r1 = makeKey sha content r2"
proof -
  have "mset (map foldKey (map toLower r1)) = mset (map foldKey (map toLower r2))"
    using assms by (metis mset_map)
  then have "sort (map foldKey (map toLower r1)) = sort (map foldKey (map toLower r2))"
    by (metis mset_sort properties_for_sort sorted_sort)
  then show ?thesis by (simp only: makeKey_sorted)
qed

theorem makeKey_order_case_independent_witness:
  "makeKey (\<lambda>b. b) ''hi'' [''Zoe'', ''amy''] = makeKey (\<lambda>b. b) ''hi'' [''AMY'', ''zoe'']"
  by (rule makeKey_order_case_independent) code_simp

end
