(* ===== verification/Ragp_Service.thy ===== *)
theory Ragp_Service
  imports Ragp_Rules Ragp_Cache
begin

text \<open>
  The classification pipeline \<open>Ragp::Service\<close> (backend/services/ragp/ragp-service.cpp): rules,
  then cache, then the language-model backend. The backend answers later, so \<open>classify\<close> either
  returns a ready result or leaves a \<open>pending\<close> record, the values the continuation captured;
  \<open>resolve\<close> is the continuation, run with whatever the backend delivered. Several requests can
  be pending at once and resolve in any order, also across a change of the backend.

  What the model answers is data from outside the program: every theorem holds for all answers.
\<close>

section \<open>State\<close>

record pending =
  pd_startMs :: int
  pd_content :: string
  pd_roster :: "string list"
  pd_author :: string
  pd_backendName :: string
  pd_rule :: classification
  pd_wantsVerdict :: bool

record 'h service =
  svc_backendName :: string
  svc_available :: bool
  svc_cache :: "'h cache"

datatype outcome = Ready classification | Pending pending

definition new_service :: "string \<Rightarrow> bool \<Rightarrow> 'h service" where
  "new_service name avail =
     \<lparr>svc_backendName = name, svc_available = avail, svc_cache = new_cache 256 (5 * 60 * 1000)\<rparr>"

section \<open>Sanitising what the backend answered\<close>

definition aliasMatches :: "string \<Rightarrow> string \<Rightarrow> bool" where
  "aliasMatches a b =
     eqCI (trimmed (replaceC CHR ''_'' CHR '' '' a)) (trimmed (replaceC CHR ''_'' CHR '' '' b))"

definition inRoster :: "string list \<Rightarrow> string \<Rightarrow> bool" where
  "inRoster roster a = list_ex (\<lambda>r. aliasMatches a r) roster"

text \<open>The loop over the answered targets: the kept ones, the number of fabricated aliases and
  the number of mentions of the author.\<close>

fun sanitizeTargets ::
  "string \<Rightarrow> string list \<Rightarrow> target list \<Rightarrow> target list \<times> nat \<times> nat" where
  "sanitizeTargets author roster [] = ([], 0, 0)"
| "sanitizeTargets author roster (t # ts) =
     (let (kept, fab, auth) = sanitizeTargets author roster ts in
      if aliasMatches (tg_alias t) author then (kept, fab, Suc auth)
      else if inRoster roster (tg_alias t) then (t # kept, fab, auth)
      else (kept, Suc fab, auth))"

definition sanitizeDelegate :: "string \<Rightarrow> string list \<Rightarrow> classification \<Rightarrow> classification" where
  "sanitizeDelegate author roster c =
     (if pendingDelegateAlias c \<noteq> [] then
        if aliasMatches (pendingDelegateAlias c) author
        then c\<lparr>selfPendingAction := True, pendingDelegateAlias := []\<rparr>
        else if \<not> inRoster roster (pendingDelegateAlias c) then c\<lparr>pendingDelegateAlias := []\<rparr>
        else c
      else c)"

definition carryVerdict :: "bool \<Rightarrow> classification \<Rightarrow> classification \<Rightarrow> classification" where
  "carryVerdict wants from' to' =
     (if wants then to'\<lparr>selfPendingAction := selfPendingAction from',
                       pendingActionHint := pendingActionHint from',
                       pendingDelegateAlias := pendingDelegateAlias from'\<rparr>
      else to')"

section \<open>The pipeline\<close>

definition classify ::
  "(string \<Rightarrow> 'h) \<Rightarrow> int \<Rightarrow> int \<Rightarrow> request \<Rightarrow> 'h service \<Rightarrow> outcome \<times> 'h service" where
  "classify sha nowMs endMs req svc =
     (let ruleResult = rule_classify req;
          stamp = (\<lambda>c. c\<lparr>latencyMs := endMs - nowMs\<rparr>);
          wants = rq_wantsPendingActionVerdict req
      in
      if confidence ruleResult \<ge> 1 \<and> \<not> wants then (Ready (stamp ruleResult), svc)
      else
        let (hit, svc1) =
              (if wants then (None, svc)
               else let (r, c) = cache_lookup sha nowMs (rq_content req) (rq_rosterAliases req)
                                   (svc_cache svc)
                    in (r, svc\<lparr>svc_cache := c\<rparr>))
        in case hit of
             Some cached \<Rightarrow> (Ready (stamp (clear_verdict cached)), svc1)
           | None \<Rightarrow>
               if \<not> svc_available svc1 then (Ready (stamp ruleResult), svc1)
               else (Pending \<lparr>pd_startMs = nowMs, pd_content = rq_content req,
                       pd_roster = rq_rosterAliases req, pd_author = rq_authorAlias req,
                       pd_backendName = svc_backendName svc1, pd_rule = ruleResult,
                       pd_wantsVerdict = wants\<rparr>, svc1))"

definition resolve ::
  "(string \<Rightarrow> 'h) \<Rightarrow> int \<Rightarrow> pending \<Rightarrow> classification \<Rightarrow> 'h service \<Rightarrow> classification \<times> 'h service" where
  "resolve sha nowMs p answer svc =
     (let (sanitized, droppedFabricated, droppedAuthor) =
            sanitizeTargets (pd_author p) (pd_roster p) (targets answer);
          backendResult = sanitizeDelegate (pd_author p) (pd_roster p) (answer\<lparr>targets := sanitized\<rparr>);
          ruleResult = pd_rule p;
          backendFailed = (targets backendResult = [] \<and> confidence backendResult < 1 / 10) \<or>
                          (droppedFabricated > 0 \<and> targets backendResult = []);
          backendUnsure = confidence backendResult < 1 / 2 \<and>
                          (targets ruleResult \<noteq> [] \<or> routeToUser ruleResult);
          (final, svc1) =
            (if backendFailed then
               (carryVerdict (pd_wantsVerdict p) backendResult
                  (ruleResult\<lparr>source := ''rule-fallback-after:'' @ pd_backendName p\<rparr>), svc)
             else if backendUnsure then
               (carryVerdict (pd_wantsVerdict p) backendResult
                  (ruleResult\<lparr>source := ''rule-preferred-after-unsure:'' @ pd_backendName p\<rparr>), svc)
             else
               (let f0 = backendResult;
                    f1 = (if source f0 = [] then f0\<lparr>source := ''backend:'' @ pd_backendName p\<rparr> else f0);
                    f2 = (if routeToUser ruleResult \<and> \<not> routeToUser f1
                          then f1\<lparr>routeToUser := True\<rparr> else f1);
                    f3 = (if \<not> pd_wantsVerdict p then clear_verdict f2 else f2)
                in (f3, svc\<lparr>svc_cache := cache_store sha nowMs (pd_content p) (pd_roster p)
                                           (clear_verdict backendResult) (svc_cache svc)\<rparr>)))
      in (final\<lparr>latencyMs := nowMs - pd_startMs p\<rparr>, svc1))"

definition clearCache :: "'h service \<Rightarrow> 'h service" where
  "clearCache svc = svc\<lparr>svc_cache := clear_cache (svc_cache svc)\<rparr>"

definition setBackend :: "string \<Rightarrow> bool \<Rightarrow> 'h service \<Rightarrow> 'h service" where
  "setBackend name avail svc =
     svc\<lparr>svc_backendName := name, svc_available := avail, svc_cache := clear_cache (svc_cache svc)\<rparr>"

text \<open>Which backend the controller installs (ragp-backend-selector.cpp); the file test of the
  operating system is the argument \<open>readableFile\<close>.\<close>

definition chooseRagpBackendSpec :: "(string \<Rightarrow> bool) \<Rightarrow> bool \<Rightarrow> string \<Rightarrow> string" where
  "chooseRagpBackendSpec readableFile localEnabled path =
     (if \<not> localEnabled then ''remote''
      else if path = [] then ''remote''
      else if \<not> readableFile path then ''remote''
      else ''local:'' @ path)"

section \<open>Sanitised targets\<close>

lemma sanitizeTargets_kept:
  "fst (sanitizeTargets author roster ts) =
     filter (\<lambda>t. \<not> aliasMatches (tg_alias t) author \<and> inRoster roster (tg_alias t)) ts"
  by (induction ts) (auto simp: split_beta Let_def)

lemma sanitizeTargets_fabricated:
  "fst (snd (sanitizeTargets author roster ts)) =
     length (filter (\<lambda>t. \<not> aliasMatches (tg_alias t) author \<and> \<not> inRoster roster (tg_alias t)) ts)"
  by (induction ts) (auto simp: split_beta Let_def)

lemma sanitizeDelegate_sound:
  "let d = pendingDelegateAlias (sanitizeDelegate author roster c)
   in d = [] \<or> (inRoster roster d \<and> \<not> aliasMatches d author)"
  by (auto simp: sanitizeDelegate_def Let_def)

lemma sanitizeDelegate_fields [simp]:
  "targets (sanitizeDelegate author roster c) = targets c"
  "routeToUser (sanitizeDelegate author roster c) = routeToUser c"
  "confidence (sanitizeDelegate author roster c) = confidence c"
  "source (sanitizeDelegate author roster c) = source c"
  by (simp_all add: sanitizeDelegate_def)

lemma carryVerdict_fields [simp]:
  "targets (carryVerdict w a b) = targets b"
  "routeToUser (carryVerdict w a b) = routeToUser b"
  "confidence (carryVerdict w a b) = confidence b"
  "source (carryVerdict w a b) = source b"
  by (simp_all add: carryVerdict_def)

text \<open>The answer after both sanitising steps, and which of the three branches it takes.\<close>

definition sanitized :: "pending \<Rightarrow> classification \<Rightarrow> classification" where
  "sanitized p answer = sanitizeDelegate (pd_author p) (pd_roster p)
     (answer\<lparr>targets := fst (sanitizeTargets (pd_author p) (pd_roster p) (targets answer))\<rparr>)"

definition backend_failed :: "pending \<Rightarrow> classification \<Rightarrow> bool" where
  "backend_failed p answer \<longleftrightarrow> targets (sanitized p answer) = [] \<and>
     (confidence answer < 1 / 10 \<or>
      (\<exists>t \<in> set (targets answer). \<not> aliasMatches (tg_alias t) (pd_author p) \<and>
         \<not> inRoster (pd_roster p) (tg_alias t)))"

definition backend_unsure :: "pending \<Rightarrow> classification \<Rightarrow> bool" where
  "backend_unsure p answer \<longleftrightarrow> confidence answer < 1 / 2 \<and>
     (targets (pd_rule p) \<noteq> [] \<or> routeToUser (pd_rule p))"

definition accepted :: "pending \<Rightarrow> classification \<Rightarrow> bool" where
  "accepted p answer \<longleftrightarrow> \<not> backend_failed p answer \<and> \<not> backend_unsure p answer"

lemma sanitized_fields [simp]:
  "confidence (sanitized p a) = confidence a"
  "routeToUser (sanitized p a) = routeToUser a"
  "source (sanitized p a) = source a"
  by (simp_all add: sanitized_def)

lemma resolve_cases:
  "resolve sha t p answer svc =
     (if backend_failed p answer then
        ((carryVerdict (pd_wantsVerdict p) (sanitized p answer)
           ((pd_rule p)\<lparr>source := ''rule-fallback-after:'' @ pd_backendName p\<rparr>))
           \<lparr>latencyMs := t - pd_startMs p\<rparr>, svc)
      else if backend_unsure p answer then
        ((carryVerdict (pd_wantsVerdict p) (sanitized p answer)
           ((pd_rule p)\<lparr>source := ''rule-preferred-after-unsure:'' @ pd_backendName p\<rparr>))
           \<lparr>latencyMs := t - pd_startMs p\<rparr>, svc)
      else
        (let f0 = sanitized p answer;
             f1 = (if source f0 = [] then f0\<lparr>source := ''backend:'' @ pd_backendName p\<rparr> else f0);
             f2 = (if routeToUser (pd_rule p) \<and> \<not> routeToUser f1 then f1\<lparr>routeToUser := True\<rparr> else f1);
             f3 = (if \<not> pd_wantsVerdict p then clear_verdict f2 else f2)
         in (f3\<lparr>latencyMs := t - pd_startMs p\<rparr>,
             svc\<lparr>svc_cache := cache_store sha t (pd_content p) (pd_roster p)
                                (clear_verdict f0) (svc_cache svc)\<rparr>)))"
proof -
  let ?s = "sanitizeTargets (pd_author p) (pd_roster p) (targets answer)"
  have fab: "0 < fst (snd ?s) \<longleftrightarrow>
      (\<exists>t \<in> set (targets answer). \<not> aliasMatches (tg_alias t) (pd_author p) \<and>
         \<not> inRoster (pd_roster p) (tg_alias t))"
    by (auto simp: sanitizeTargets_fabricated filter_empty_conv)
  obtain k f a where s: "?s = (k, f, a)" by (cases ?s) auto
  show ?thesis
    using fab unfolding resolve_def s Let_def case_prod_conv backend_failed_def backend_unsure_def
    by (simp add: s sanitized_def) blast
qed

lemma resolve_targets:
  "targets (fst (resolve sha t p answer svc)) =
     targets (if accepted p answer then sanitized p answer else pd_rule p)"
  unfolding resolve_cases accepted_def Let_def by simp

lemma resolve_routeToUser:
  "routeToUser (fst (resolve sha t p answer svc)) \<longleftrightarrow>
     routeToUser (pd_rule p) \<or> accepted p answer \<and> routeToUser answer"
  unfolding resolve_cases accepted_def Let_def by auto

lemma resolve_delegate:
  "pendingDelegateAlias (fst (resolve sha t p answer svc)) =
     (if pd_wantsVerdict p then pendingDelegateAlias (sanitized p answer)
      else if accepted p answer then [] else pendingDelegateAlias (pd_rule p))"
  unfolding resolve_cases accepted_def Let_def by (simp add: carryVerdict_def clear_verdict_def)

section \<open>The cache holds no verdicts\<close>

datatype service_op =
    Classify int int request
  | Resolve int pending classification
  | ClearCache
  | SetBackend string bool

fun service_step :: "(string \<Rightarrow> 'h) \<Rightarrow> 'h service \<Rightarrow> service_op \<Rightarrow> 'h service" where
  "service_step sha svc (Classify t te req) = snd (classify sha t te req svc)"
| "service_step sha svc (Resolve t p answer) = snd (resolve sha t p answer svc)"
| "service_step sha svc ClearCache = clearCache svc"
| "service_step sha svc (SetBackend name avail) = setBackend name avail svc"

definition service_inv :: "'h service \<Rightarrow> bool" where
  "service_inv svc \<longleftrightarrow> cache_inv (svc_cache svc) \<and> (\<forall>(k, w) \<in> cache_contents (svc_cache svc). no_verdict w)"

lemma clear_cache_contents [simp]: "cache_contents (clear_cache c) = {}"
  by (simp add: cache_contents_def clear_cache_def)

lemma new_service_inv: "service_inv (new_service name avail)"
  by (simp add: service_inv_def new_service_def new_cache_inv)
    (simp add: cache_contents_def new_cache_def)

lemma classify_service:
  "snd (classify sha t te req svc) = svc \<or>
   snd (classify sha t te req svc) =
     svc\<lparr>svc_cache := snd (cache_lookup sha t (rq_content req) (rq_rosterAliases req) (svc_cache svc))\<rparr>"
  by (auto simp: classify_def Let_def split: prod.splits option.splits)

lemma classify_service_inv: "service_inv svc \<Longrightarrow> service_inv (snd (classify sha t te req svc))"
  using classify_service [of sha t te req svc]
    ragp_cache.lookup_all [of "svc_cache svc" no_verdict t
      "makeKey sha (rq_content req) (rq_rosterAliases req)"]
  by (auto simp: service_inv_def cache_lookup_def ragp_cache.lookup_cinv)

lemma resolve_service_inv: "service_inv svc \<Longrightarrow> service_inv (snd (resolve sha t p answer svc))"
proof -
  assume inv: "service_inv svc"
  let ?c = "cache_store sha t (pd_content p) (pd_roster p) (clear_verdict (sanitized p answer)) (svc_cache svc)"
  have "cache_inv ?c \<and> (\<forall>(k, w) \<in> cache_contents ?c. no_verdict w)"
    unfolding cache_store_def
    using inv by (auto simp: service_inv_def ragp_cache.store_cinv
        dest: subsetD [OF ragp_cache.store_contents])
  with inv show ?thesis by (simp add: resolve_cases Let_def service_inv_def)
qed

lemma cleared_service_inv:
  "service_inv svc \<Longrightarrow> service_inv (clearCache svc)"
  "service_inv svc \<Longrightarrow> service_inv (setBackend name avail svc)"
  by (simp_all add: service_inv_def clearCache_def setBackend_def clear_cache_inv)

interpretation ragp_service:
  invariant_machine "\<lambda>svc. \<exists>name avail. svc = new_service name avail" "\<lambda>_ _. True"
    "service_step sha" service_inv for sha
proof
  fix svc :: "'a service" and e
  show "service_inv (service_step sha svc e)" if "service_inv svc"
    using that
    by (cases e) (simp_all add: classify_service_inv resolve_service_inv cleared_service_inv)
qed (auto simp: new_service_inv)

text \<open>
  Whatever requests a service has been sent, in whatever order the pending ones resolved and
  whatever the backend answered, also across changes of the backend: no entry of the cache
  carries a pending-action verdict, and the cache stays within 256 entries.
\<close>

theorem service_cache_never_holds_verdicts:
  "let svc = foldl (service_step sha) (new_service name avail) es in
     (\<forall>(k, e) \<in> set (m_entries (svc_cache svc)). no_verdict (ce_value e))"
proof -
  have "service_inv (foldl (service_step sha) (new_service name avail) es)"
    by (rule ragp_service.reachable_inv) auto
  then show ?thesis unfolding Let_def service_inv_def cache_contents_def by fastforce
qed

theorem service_cache_never_holds_verdicts_witness:
  "let svc = foldl (service_step (\<lambda>b. b)) (new_service ''stub'' True)
       [Resolve 5 \<lparr>pd_startMs = 0, pd_content = ''@Bob'', pd_roster = [''Bob''], pd_author = ''Al'',
          pd_backendName = ''stub'', pd_rule = rule_base, pd_wantsVerdict = True\<rparr>
          (empty_classification\<lparr>confidence := 1, selfPendingAction := True\<rparr>)] in
     length (m_entries (svc_cache svc)) = 1 \<and>
     (\<forall>(k, e) \<in> set (m_entries (svc_cache svc)). no_verdict (ce_value e))"
  using service_cache_never_holds_verdicts [of "\<lambda>b. b" "''stub''" True
       "[Resolve 5 \<lparr>pd_startMs = 0, pd_content = ''@Bob'', pd_roster = [''Bob''], pd_author = ''Al'',
          pd_backendName = ''stub'', pd_rule = rule_base, pd_wantsVerdict = True\<rparr>
          (empty_classification\<lparr>confidence := 1, selfPendingAction := True\<rparr>)]"]
  unfolding Let_def by (rule conjI [rotated]) code_simp

section \<open>What a classification may name\<close>

lemma carry_no [simp]: "carryVerdict False a b = b"
  by (simp add: carryVerdict_def)

lemma no_verdict_frame [simp]:
  "no_verdict (c\<lparr>latencyMs := l\<rparr>) = no_verdict c" "no_verdict (c\<lparr>source := s\<rparr>) = no_verdict c"
  "no_verdict (c\<lparr>fromCache := b\<rparr>) = no_verdict c"
  by (simp_all add: no_verdict_def)

text \<open>
  A pending-action verdict only reaches a caller that asked for it: a request without the
  flag gets a classification with none, from the rules, from the cache and from the backend
  whatever it volunteers.
\<close>

theorem verdict_only_on_request:
  assumes "\<not> rq_wantsPendingActionVerdict req"
    and "classify sha t te req svc = (out, svc1)"
  shows "case out of Ready c \<Rightarrow> no_verdict c | Pending p \<Rightarrow> no_verdict (fst (resolve sha t' p answer svc'))"
  using assms
  by (auto simp: classify_def Let_def resolve_cases split: prod.splits option.splits if_splits)

theorem verdict_only_on_request_witness:
  "no_verdict (fst (resolve (\<lambda>b. b) 9
     \<lparr>pd_startMs = 0, pd_content = ''@Bob go'', pd_roster = [''Al'', ''Bob''], pd_author = ''Al'',
      pd_backendName = ''stub'', pd_rule = rule_classify (\<lparr>rq_content = ''@Bob go'', rq_authorAlias = ''Al'',
      rq_rosterAliases = [''Al'', ''Bob''], rq_executedToolsSummary = [],
      rq_wantsPendingActionVerdict = False\<rparr>), pd_wantsVerdict = False\<rparr>
     (empty_classification\<lparr>confidence := 1, selfPendingAction := True\<rparr>) (new_service ''stub'' True)))"
proof -
  let ?req = "\<lparr>rq_content = ''@Bob go'', rq_authorAlias = ''Al'',
      rq_rosterAliases = [''Al'', ''Bob''], rq_executedToolsSummary = [],
      rq_wantsPendingActionVerdict = False\<rparr>"
  have "fst (classify (\<lambda>b. b) 0 1 ?req (new_service ''stub'' True)) = Pending
     \<lparr>pd_startMs = 0, pd_content = ''@Bob go'', pd_roster = [''Al'', ''Bob''], pd_author = ''Al'',
      pd_backendName = ''stub'', pd_rule = rule_classify ?req, pd_wantsVerdict = False\<rparr>"
    by code_simp
  then show ?thesis
    using verdict_only_on_request [of ?req "\<lambda>b. b" 0 1 "new_service ''stub'' True"
        "Pending \<lparr>pd_startMs = 0, pd_content = ''@Bob go'', pd_roster = [''Al'', ''Bob''], pd_author = ''Al'',
      pd_backendName = ''stub'', pd_rule = rule_classify ?req, pd_wantsVerdict = False\<rparr>"]
    by (simp add: prod_eq_iff)
qed

text \<open>
  C24. A model cannot route to anybody outside the conversation or back to the author: every
  target of a resolved request names a member of the roster other than the author (a target the
  fallback takes from the rules names one in the rules' own normal form), and the delegate of
  the verdict is empty or such a member.
\<close>

theorem resolved_targets_in_roster:
  assumes "classify sha t te req svc = (Pending p, svc1)"
    and "fst (resolve sha t' p answer svc') = c"
  shows "(\<forall>tg \<in> set (targets c).
            (inRoster (rq_rosterAliases req) (tg_alias tg) \<and>
             \<not> aliasMatches (tg_alias tg) (rq_authorAlias req)) \<or>
            (in_roster req (tg_alias tg) \<and> \<not> is_author req (tg_alias tg))) \<and>
         (pendingDelegateAlias c = [] \<or>
          (inRoster (rq_rosterAliases req) (pendingDelegateAlias c) \<and>
           \<not> aliasMatches (pendingDelegateAlias c) (rq_authorAlias req)))"
proof -
  from assms(1) have p: "pd_roster p = rq_rosterAliases req" "pd_author p = rq_authorAlias req"
      "pd_rule p = rule_classify req"
    by (auto simp: classify_def Let_def split: prod.splits option.splits if_splits)
  obtain seen where "rule_inv req (rule_classify req, seen)" using rule_classify_inv by blast
  then have rule: "\<forall>tg \<in> set (targets (rule_classify req)).
      in_roster req (tg_alias tg) \<and> \<not> is_author req (tg_alias tg)"
    and nv: "pendingDelegateAlias (rule_classify req) = []"
    by (auto simp: rule_inv_def no_verdict_def)
  have kept: "\<forall>tg \<in> set (targets (sanitized p answer)).
      inRoster (rq_rosterAliases req) (tg_alias tg) \<and> \<not> aliasMatches (tg_alias tg) (rq_authorAlias req)"
    by (simp add: sanitized_def sanitizeTargets_kept p)
  have del: "pendingDelegateAlias (sanitized p answer) = [] \<or>
      (inRoster (rq_rosterAliases req) (pendingDelegateAlias (sanitized p answer)) \<and>
       \<not> aliasMatches (pendingDelegateAlias (sanitized p answer)) (rq_authorAlias req))"
    using sanitizeDelegate_sound [of "pd_author p" "pd_roster p"]
    by (simp add: sanitized_def p Let_def)
  have "targets c = targets (if accepted p answer then sanitized p answer else rule_classify req)"
    using assms(2) by (auto simp: resolve_targets p)
  moreover have "pendingDelegateAlias c \<in> {[], pendingDelegateAlias (sanitized p answer)}"
    using assms(2) nv by (auto simp: resolve_delegate p)
  ultimately show ?thesis using rule kept del by (simp split: if_splits) auto
qed

theorem resolved_targets_in_roster_witness:
  "let req = \<lparr>rq_content = ''hi @Bob'', rq_authorAlias = ''Al'', rq_rosterAliases = [''Al'', ''Bob'', ''Cy''],
       rq_executedToolsSummary = [], rq_wantsPendingActionVerdict = False\<rparr>;
     c = fst (resolve (\<lambda>b. b) 9 \<lparr>pd_startMs = 0, pd_content = ''hi @Bob'',
       pd_roster = [''Al'', ''Bob'', ''Cy''], pd_author = ''Al'', pd_backendName = ''stub'',
       pd_rule = rule_classify req, pd_wantsVerdict = False\<rparr>
       (empty_classification\<lparr>confidence := 1,
          targets := [\<lparr>tg_alias = ''Cy'', tg_intent = DELEGATE_TASK, tg_context = []\<rparr>,
                      \<lparr>tg_alias = ''Example'', tg_intent = DELEGATE_TASK, tg_context = []\<rparr>]\<rparr>)
       (new_service ''stub'' True))
   in map tg_alias (targets c) = [''Cy''] \<and>
      (\<forall>tg \<in> set (targets c). inRoster (rq_rosterAliases req) (tg_alias tg) \<or> in_roster req (tg_alias tg))"
proof -
  let ?req = "\<lparr>rq_content = ''hi @Bob'', rq_authorAlias = ''Al'', rq_rosterAliases = [''Al'', ''Bob'', ''Cy''],
       rq_executedToolsSummary = [], rq_wantsPendingActionVerdict = False\<rparr>"
  let ?p = "\<lparr>pd_startMs = 0, pd_content = ''hi @Bob'',
       pd_roster = [''Al'', ''Bob'', ''Cy''], pd_author = ''Al'', pd_backendName = ''stub'',
       pd_rule = rule_classify ?req, pd_wantsVerdict = False\<rparr>"
  let ?a = "empty_classification\<lparr>confidence := 1,
          targets := [\<lparr>tg_alias = ''Cy'', tg_intent = DELEGATE_TASK, tg_context = []\<rparr>,
                      \<lparr>tg_alias = ''Example'', tg_intent = DELEGATE_TASK, tg_context = []\<rparr>]\<rparr>"
  have "fst (classify (\<lambda>b. b) 0 1 ?req (new_service ''stub'' True)) = Pending ?p" by code_simp
  then have "classify (\<lambda>b. b) 0 1 ?req (new_service ''stub'' True) =
      (Pending ?p, snd (classify (\<lambda>b. b) 0 1 ?req (new_service ''stub'' True)))"
    by (simp add: prod_eq_iff)
  from resolved_targets_in_roster
      [OF this refl, where t' = 9 and answer = ?a and svc' = "new_service ''stub'' True"]
  have "\<forall>tg \<in> set (targets (fst (resolve (\<lambda>b. b) 9 ?p ?a (new_service ''stub'' True)))).
      inRoster (rq_rosterAliases ?req) (tg_alias tg) \<or> in_roster ?req (tg_alias tg)"
    by blast
  moreover have "map tg_alias (targets (fst (resolve (\<lambda>b. b) 9 ?p ?a (new_service ''stub'' True)))) = [''Cy'']"
    by code_simp
  ultimately show ?thesis unfolding Let_def by blast
qed

section \<open>The user escalation and the fallback policy\<close>

text \<open>
  The fallback policy, branch by branch: a backend answer that names nobody with confidence
  below 0.1, or only aliases outside the roster, is replaced by the rule result; an unsure answer
  (confidence below 0.5) is replaced by the rule result when the rules found a target or the user;
  every other answer is taken, less its fabricated and self-directed targets. An escalation to
  the user found by the rules survives all three branches, and only a taken answer is cached.
\<close>

theorem resolve_policy:
  "let (c, svc') = resolve sha t p answer svc in
     targets c = (if backend_failed p answer \<or> backend_unsure p answer then targets (pd_rule p)
                  else filter (\<lambda>tg. \<not> aliasMatches (tg_alias tg) (pd_author p) \<and>
                                    inRoster (pd_roster p) (tg_alias tg)) (targets answer)) \<and>
     (routeToUser c \<longleftrightarrow> routeToUser (pd_rule p) \<or> accepted p answer \<and> routeToUser answer) \<and>
     svc' = (if accepted p answer
             then svc\<lparr>svc_cache := cache_store sha t (pd_content p) (pd_roster p)
                        (clear_verdict (sanitized p answer)) (svc_cache svc)\<rparr>
             else svc)"
proof -
  have "targets (sanitized p answer) = filter (\<lambda>tg. \<not> aliasMatches (tg_alias tg) (pd_author p) \<and>
      inRoster (pd_roster p) (tg_alias tg)) (targets answer)"
    by (simp add: sanitized_def sanitizeTargets_kept)
  moreover have "snd (resolve sha t p answer svc) = (if accepted p answer
             then svc\<lparr>svc_cache := cache_store sha t (pd_content p) (pd_roster p)
                        (clear_verdict (sanitized p answer)) (svc_cache svc)\<rparr>
             else svc)"
    unfolding resolve_cases accepted_def Let_def by simp
  ultimately show ?thesis
    unfolding Let_def case_prod_beta resolve_targets resolve_routeToUser by (simp add: accepted_def)
qed

text \<open>
  The user escalation does not survive a cache hit. The backend's answer is cached before the
  flag of the rules is merged into it, and a hit returns the entry without consulting the rules
  again: the first classification of a reply that mentions a teammate and the owner routes to the
  user, the second one of the same reply, a second later, does not.
\<close>

theorem cache_hit_loses_user_escalation:
  "let req = \<lparr>rq_content = ''@Bob go, @owner look'', rq_authorAlias = ''Al'',
               rq_rosterAliases = [''Al'', ''Bob''], rq_executedToolsSummary = [],
               rq_wantsPendingActionVerdict = False\<rparr>;
       answer = empty_classification\<lparr>confidence := 1,
                  targets := [\<lparr>tg_alias = ''Bob'', tg_intent = DELEGATE_TASK, tg_context = []\<rparr>]\<rparr>
   in case classify (\<lambda>b. b) 0 1 req (new_service ''remote:x'' True) of
        (Ready c, svc) \<Rightarrow> False
      | (Pending p, svc) \<Rightarrow>
          (case resolve (\<lambda>b. b) 10 p answer svc of
             (first, svc1) \<Rightarrow>
               routeToUser first \<and>
               (case classify (\<lambda>b. b) 1010 1011 req svc1 of
                  (Ready second, svc2) \<Rightarrow>
                    map tg_alias (targets second) = map tg_alias (targets first) \<and>
                    \<not> routeToUser second
                | (Pending p', svc2) \<Rightarrow> False))"
  by code_simp

end
