(* ===== verification/Membership.thy ===== *)
theory Membership
  imports Ragp_Rules
begin

text \<open>
  The members of a conversation (backend/models/member.h) and the lookups by alias that the
  message pipeline uses: \<open>MembershipService::findConversationMemberByAlias\<close> and
  \<open>defaultResponderForConversation\<close> (backend/services/membership-service.cpp) and the cascade's
  \<open>findMemberByAliasIn\<close>. The rows themselves are in the database; the list of a conversation's
  members is an argument.
\<close>

record member =
  mb_containerId :: string
  mb_agentId :: string
  mb_alias :: string
  mb_isCoordinator :: bool

definition no_member :: member where
  "no_member = \<lparr>mb_containerId = [], mb_agentId = [], mb_alias = [], mb_isCoordinator = False\<rparr>"

definition isValid :: "member \<Rightarrow> bool" where
  "isValid m \<longleftrightarrow> mb_containerId m \<noteq> [] \<and> mb_agentId m \<noteq> [] \<and> mb_alias m \<noteq> []"

definition normalizedAlias :: "string \<Rightarrow> string" where
  "normalizedAlias a = trimmed (dropWhile (\<lambda>c. c = CHR ''@'') (trimmed a))"

text \<open>The first member whose alias, or whose alias with underscores for spaces, is the wanted one
  without regard to case; an invalid member when there is none.\<close>

definition findConversationMemberByAlias :: "member list \<Rightarrow> string \<Rightarrow> member" where
  "findConversationMemberByAlias members a =
     (let wanted = normalizedAlias a in
      case find (\<lambda>m. eqCI (mb_alias m) wanted \<or> eqCI (normalizeAlias (mb_alias m)) wanted) members of
        Some m \<Rightarrow> m | None \<Rightarrow> no_member)"

definition findMemberByAliasIn :: "member list \<Rightarrow> string \<Rightarrow> member option" where
  "findMemberByAliasIn members target =
     find (\<lambda>m. eqCI (normalizeAlias (mb_alias m)) target \<or> eqCI (mb_alias m) target) members"

definition defaultResponderForConversation :: "member list \<Rightarrow> member" where
  "defaultResponderForConversation members =
     (case find mb_isCoordinator members of
        Some m \<Rightarrow> m
      | None \<Rightarrow> (case members of [] \<Rightarrow> no_member | m # _ \<Rightarrow> m))"

lemma no_member_invalid [simp]: "\<not> isValid no_member"
  by (simp add: isValid_def no_member_def)

lemma findConversationMember_valid:
  assumes "isValid (findConversationMemberByAlias members a)"
  shows "findConversationMemberByAlias members a \<in> set members"
  using assms by (auto simp: findConversationMemberByAlias_def Let_def split: option.splits dest: find_SomeD)

lemma findMemberByAliasIn_mem: "findMemberByAliasIn members t = Some m \<Longrightarrow> m \<in> set members"
  by (auto simp: findMemberByAliasIn_def dest: find_SomeD)

section \<open>The interface: a directory of members by alias\<close>

text \<open>What the message pipeline relies on: a lookup that succeeds names one of the conversation's
  members, and the alias of a member is found, as a member with an equal alias.\<close>

locale member_directory =
  fixes lookup :: "'m list \<Rightarrow> string \<Rightarrow> 'm option"
    and name :: "'m \<Rightarrow> string"
    and clean :: "'m \<Rightarrow> bool"
  assumes lookup_mem: "lookup ms a = Some m \<Longrightarrow> m \<in> set ms"
    and lookup_name: "m \<in> set ms \<Longrightarrow> clean m \<Longrightarrow> lookup ms (name m) \<noteq> None"
begin

lemma lookup_none: "lookup ms a = None \<Longrightarrow> a \<notin> name ` {m \<in> set ms. clean m}"
  using lookup_name by fastforce

lemma lookup_nil [simp]: "lookup [] a = None"
  using lookup_mem [of "[]" a] by (cases "lookup [] a") auto

end

interpretation roster: member_directory findMemberByAliasIn mb_alias "\<lambda>_. True"
  by unfold_locales
    (auto simp: findMemberByAliasIn_def find_None_iff dest: find_SomeD)

text \<open>The service's own lookup drops leading sigils and surrounding blanks of what it is asked
  for, so it finds every member whose alias has none.\<close>

definition lookupMember :: "member list \<Rightarrow> string \<Rightarrow> member option" where
  "lookupMember members a =
     (let m = findConversationMemberByAlias members a in if isValid m then Some m else None)"

interpretation service_roster: member_directory "\<lambda>ms. lookupMember (filter isValid ms)" mb_alias "\<lambda>m. normalizedAlias (mb_alias m) = mb_alias m \<and> isValid m"
proof
  fix ms a m
  show "m \<in> set ms" if "lookupMember (filter isValid ms) a = Some m"
    using that findConversationMember_valid [of "filter isValid ms" a]
    by (auto simp: lookupMember_def Let_def split: if_splits)
next
  fix m :: member and ms
  show "lookupMember (filter isValid ms) (mb_alias m) \<noteq> None"
    if m: "m \<in> set ms" and c: "normalizedAlias (mb_alias m) = mb_alias m \<and> isValid m"
  proof -
    let ?P = "\<lambda>n. eqCI (mb_alias n) (mb_alias m) \<or> eqCI (normalizeAlias (mb_alias n)) (mb_alias m)"
    have "find ?P (filter isValid ms) \<noteq> None" using m c by (auto simp: find_None_iff)
    then obtain n where "find ?P (filter isValid ms) = Some n" by blast
    moreover from this have "isValid n" by (auto dest: find_SomeD)
    ultimately show ?thesis using c by (simp add: lookupMember_def findConversationMemberByAlias_def)
  qed
qed

end
