(* ===== verification/Cascade.thy ===== *)
theory Cascade
  imports Membership Ragp_Service
begin

text \<open>
  The cascade of agent turns in a group chat, \<open>CascadeController\<close>
  (backend/services/chat/cascade-controller.cpp and .h): who speaks next, when a reply is retried,
  when a round ends and when the whole exchange is over.

  The controller's fields are one record; its signals are the list \<open>m_log\<close>, in the order of
  emission. What the controller asks of other services is the record \<open>env\<close>, passed to each
  operation, so that it may change between operations. A classification that is still with the
  backend is an entry of \<open>m_waiting\<close> with the values its continuation captured. Slots that react
  to a signal run after the operation here; desktop notifications, trace output and timers are
  not modelled (the deadline of a voice hold is a call of \<open>releaseVoiceHold\<close>).
\<close>

section \<open>Data\<close>

definition kMaxAgentCascade :: int where "kMaxAgentCascade = 10"
definition kMaxTurnsPerMember :: int where "kMaxTurnsPerMember = 3"
definition kCascadeFingerprintWindow :: nat where "kCascadeFingerprintWindow = 10"
definition kCascadeNoveltyThreshold :: real where "kCascadeNoveltyThreshold = 95 / 100"
definition kMaxEchoRetries :: int where "kMaxEchoRetries = 3"
definition kMaxAutoRounds :: int where "kMaxAutoRounds = 6"
definition kAutoRoundsHardCeiling :: int where "kAutoRoundsHardCeiling = 50"
definition kCrossCascadeFingerprintMaxEntries :: nat where
  "kCrossCascadeFingerprintMaxEntries = 2 * kCascadeFingerprintWindow"

lemmas cascade_limits = kMaxAgentCascade_def kMaxTurnsPerMember_def kCascadeFingerprintWindow_def
  kMaxEchoRetries_def kMaxAutoRounds_def kAutoRoundsHardCeiling_def
  kCrossCascadeFingerprintMaxEntries_def

record inputs =
  ri_convId :: string
  ri_content :: string
  ri_requestId :: nat
  ri_responderMsgId :: string
  ri_declaredTaskStatus :: string
  ri_finishReason :: string
  ri_totalTokens :: int
  ri_elapsedMs :: int
  ri_impersonatedAlias :: string
  ri_executedToolsSummary :: string
  ri_hasStructuralActionSignals :: bool
  ri_deferredBudgetExhausted :: bool

definition no_inputs :: inputs where
  "no_inputs = \<lparr>ri_convId = [], ri_content = [], ri_requestId = 0, ri_responderMsgId = [],
     ri_declaredTaskStatus = [], ri_finishReason = [], ri_totalTokens = 0, ri_elapsedMs = 0,
     ri_impersonatedAlias = [], ri_executedToolsSummary = [], ri_hasStructuralActionSignals = False,
     ri_deferredBudgetExhausted = False\<rparr>"

datatype event =
    MemberTurnStarted string string
  | CascadeComplete string string int int int bool
  | UserMentionedInGroup string string string
  | RoundContinued string int string
  | CascadePausedAtCap string string string
  | MentionRoutingSuppressed string string "string list" real string
  | EchoDetectedRequestRetry string string string string int string
  | EchoMaxRetriesExhausted string string bool
  | DeferredContinuationRequested string string string string

text \<open>The fields of a conversation the controller reads; \<open>cv_maxAutoRounds\<close> is parsed from its
  model configuration.\<close>

record conversation =
  cv_isGroup :: bool
  cv_maxAutoRounds :: int

record 'h env =
  getConversation :: "string \<Rightarrow> conversation option"
  hasMembership :: bool
  conversationMembers :: "string \<Rightarrow> member list"
  shouldHoldTurn :: "string \<Rightarrow> string \<Rightarrow> bool"
  firstOfSet :: "string list \<Rightarrow> string"
  sha256 :: "string \<Rightarrow> 'h"
  nowMs :: int
  endMs :: int

record waiting =
  wt_pending :: pending
  wt_members :: "member list"
  wt_isFirstResponder :: bool
  wt_inputs :: inputs

record 'h cascade =
  m_queue :: "string list"
  m_deferredQueue :: "string list"
  m_memberTurns :: "(string \<times> int) list"
  m_iterations :: int
  m_responderAlias :: string
  m_responderAgentId :: string
  m_recentContentFingerprints :: "string list list"
  m_priorCascadeFingerprints :: "string list list"
  m_memberRetryCount :: "(string \<times> int) list"
  m_capRefusedAlias :: string
  m_roundToolFires :: int
  m_roundRetries :: int
  m_roundNovelTurns :: int
  m_round :: int
  m_voiceGate :: bool
  m_voiceHeldInputs :: inputs
  m_voiceHoldActive :: bool
  m_voiceReleasedMsgIds :: "string list"
  m_ragpService :: "'h service"
  m_waiting :: "waiting list"
  m_log :: "event list"

definition new_cascade :: "'h cascade" where
  "new_cascade = \<lparr>m_queue = [], m_deferredQueue = [], m_memberTurns = [], m_iterations = 0,
     m_responderAlias = [], m_responderAgentId = [], m_recentContentFingerprints = [],
     m_priorCascadeFingerprints = [], m_memberRetryCount = [], m_capRefusedAlias = [],
     m_roundToolFires = 0, m_roundRetries = 0, m_roundNovelTurns = 0, m_round = 1,
     m_voiceGate = False, m_voiceHeldInputs = no_inputs, m_voiceHoldActive = False,
     m_voiceReleasedMsgIds = [], m_ragpService = new_service ''stub'' True, m_waiting = [],
     m_log = []\<rparr>"

definition emit :: "event \<Rightarrow> 'h cascade \<Rightarrow> 'h cascade" where
  "emit e st = st\<lparr>m_log := m_log st @ [e]\<rparr>"

definition isGroupChat :: "'h env \<Rightarrow> string \<Rightarrow> bool" where
  "isGroupChat env conv =
     (case getConversation env conv of None \<Rightarrow> False | Some c \<Rightarrow> cv_isGroup c \<and> hasMembership env)"

definition findMember :: "'h env \<Rightarrow> string \<Rightarrow> string \<Rightarrow> member" where
  "findMember env conv a = findConversationMemberByAlias (conversationMembers env conv) a"

section \<open>Responder, queues and counters\<close>

definition setCurrentResponder :: "string \<Rightarrow> string \<Rightarrow> 'h cascade \<Rightarrow> 'h cascade" where
  "setCurrentResponder a agent st = st\<lparr>m_responderAlias := a, m_responderAgentId := agent\<rparr>"

definition enqueueTarget :: "string \<Rightarrow> 'h cascade \<Rightarrow> bool \<times> 'h cascade" where
  "enqueueTarget a st =
     (if a = [] then (False, st)
      else if eqCI a (m_responderAlias st) then (False, st)
      else if a \<in> set (m_queue st) then (False, st)
      else if valueOr (m_memberTurns st) (toLower a) 0 \<ge> kMaxTurnsPerMember
      then (False, st\<lparr>m_capRefusedAlias := a\<rparr>)
      else (True, st\<lparr>m_queue := m_queue st @ [a]\<rparr>))"

definition enqueueDeferredTarget :: "string \<Rightarrow> 'h cascade \<Rightarrow> bool \<times> 'h cascade" where
  "enqueueDeferredTarget a st =
     (if a = [] then (False, st)
      else if eqCI a (m_responderAlias st) then (False, st)
      else if a \<in> set (m_queue st) then (False, st)
      else if a \<in> set (m_deferredQueue st) then (False, st)
      else if valueOr (m_memberTurns st) (toLower a) 0 \<ge> kMaxTurnsPerMember
      then (False, st\<lparr>m_capRefusedAlias := a\<rparr>)
      else (True, st\<lparr>m_deferredQueue := m_deferredQueue st @ [a]\<rparr>))"

definition queueSize :: "'h cascade \<Rightarrow> nat" where
  "queueSize st = length (m_queue st) + length (m_deferredQueue st)"

definition isQueueEmpty :: "'h cascade \<Rightarrow> bool" where
  "isQueueEmpty st \<longleftrightarrow> m_queue st = [] \<and> m_deferredQueue st = []"

definition memberTurnCount :: "string \<Rightarrow> 'h cascade \<Rightarrow> int" where
  "memberTurnCount a st = valueOr (m_memberTurns st) (toLower a) 0"

definition resetTurnState :: "'h cascade \<Rightarrow> 'h cascade" where
  "resetTurnState st =
     st\<lparr>m_queue := [], m_deferredQueue := [], m_memberTurns := [], m_iterations := 0,
        m_responderAlias := [], m_responderAgentId := [], m_recentContentFingerprints := [],
        m_memberRetryCount := [], m_capRefusedAlias := [], m_roundToolFires := 0,
        m_roundRetries := 0, m_roundNovelTurns := 0, m_round := 1\<rparr>"

definition clearCrossCascadeFingerprints :: "'h cascade \<Rightarrow> 'h cascade" where
  "clearCrossCascadeFingerprints st = st\<lparr>m_priorCascadeFingerprints := []\<rparr>"

definition noteToolFireThisRound :: "'h cascade \<Rightarrow> 'h cascade" where
  "noteToolFireThisRound st = st\<lparr>m_roundToolFires := m_roundToolFires st + 1\<rparr>"

definition noteCorrectiveContinuationThisRound :: "'h cascade \<Rightarrow> 'h cascade" where
  "noteCorrectiveContinuationThisRound st = st\<lparr>m_roundRetries := m_roundRetries st + 1\<rparr>"

section \<open>Echo detection\<close>

text \<open>Removing the matches of \<open>@\w+\<close>, and whether there is one.\<close>

function stripMentions :: "string \<Rightarrow> string" where
  "stripMentions [] = []"
| "stripMentions (c # cs) =
     (if c = CHR ''@'' \<and> takeWhile isWordC cs \<noteq> [] then stripMentions (dropWhile isWordC cs)
      else c # stripMentions cs)"
  by pat_completeness auto
termination
  by (relation "measure length") (auto simp: le_imp_less_Suc length_dropWhile_le)

fun hasAnyMention :: "string \<Rightarrow> bool" where
  "hasAnyMention [] = False"
| "hasAnyMention (c # cs) = ((c = CHR ''@'' \<and> takeWhile isWordC cs \<noteq> []) \<or> hasAnyMention cs)"

definition isFingerprintC :: "char \<Rightarrow> bool" where
  "isFingerprintC c = (let n = code c in (97 \<le> n \<and> n \<le> 122) \<or> (48 \<le> n \<and> n \<le> 57) \<or> n = 32)"

text \<open>The set of the long words, as a list without repetitions. Collapsing runs of blanks before
  a split that skips empty parts changes nothing, so that step is the identity here.\<close>

definition contentFingerprint :: "string \<Rightarrow> string list" where
  "contentFingerprint content =
     (let normalised = map (\<lambda>c. if isFingerprintC c then c else CHR '' '')
                         (stripMentions (toLower content));
          words = splitSkip (CHR '' '') normalised
      in remdups (filter (\<lambda>w. length w \<ge> 3) words))"

definition jaccardSimilarity :: "string list \<Rightarrow> string list \<Rightarrow> real" where
  "jaccardSimilarity a b =
     (if a = [] \<or> b = [] then 0
      else (let n = length (filter (\<lambda>w. w \<in> set b) a) in
            real n / real (length a + length b - n)))"

definition isCascadeSaturated :: "string list \<Rightarrow> 'h cascade \<Rightarrow> bool" where
  "isCascadeSaturated candidate st \<longleftrightarrow>
     list_ex (\<lambda>past. jaccardSimilarity candidate past \<ge> kCascadeNoveltyThreshold)
       (m_recentContentFingerprints st) \<or>
     list_ex (\<lambda>past. jaccardSimilarity candidate past \<ge> kCascadeNoveltyThreshold)
       (m_priorCascadeFingerprints st)"

definition lastN :: "nat \<Rightarrow> 'a list \<Rightarrow> 'a list" where
  "lastN n xs = drop (length xs - n) xs"

section \<open>Dispatching the next member\<close>

datatype queue_source = Immediate | Deferred

text \<open>The walk over the queues for the next alias that is still a member: the source queue, what
  is left of both queues and the candidate found so far.\<close>

function skipWalk ::
  "(string \<Rightarrow> member) \<Rightarrow> queue_source \<Rightarrow> string list \<Rightarrow> string list \<Rightarrow> member \<Rightarrow>
   member \<times> string list \<times> string list" where
  "skipWalk look src q d next =
     (let sourceQueue = (case src of Immediate \<Rightarrow> q | Deferred \<Rightarrow> d) in
      if sourceQueue \<noteq> [] \<and> \<not> isValid next then
        (let next' = look (hd sourceQueue);
             q' = (case src of Immediate \<Rightarrow> tl q | Deferred \<Rightarrow> q);
             d' = (case src of Immediate \<Rightarrow> d | Deferred \<Rightarrow> tl d);
             src' = (if tl sourceQueue = [] \<and> src = Immediate \<and> d' \<noteq> [] \<and> \<not> isValid next'
                     then Deferred else src)
         in skipWalk look src' q' d' next')
      else (next, q, d))"
  by pat_completeness auto
termination
  by (relation "measure (\<lambda>(look, src, q, d, next). length q + length d)")
    (auto split: queue_source.splits)

declare skipWalk.simps [simp del]

definition tryDispatchNext :: "'h env \<Rightarrow> string \<Rightarrow> 'h cascade \<Rightarrow> bool \<times> 'h cascade" where
  "tryDispatchNext env conv st =
     (if \<not> isGroupChat env conv \<or> m_iterations st \<ge> kMaxAgentCascade then (False, st)
      else if m_queue st = [] \<and> m_deferredQueue st = [] then (False, st)
      else
        let src = (if m_queue st = [] then Deferred else Immediate);
            (next, q, d) = skipWalk (findMember env conv) src (m_queue st) (m_deferredQueue st) no_member;
            st1 = st\<lparr>m_queue := q, m_deferredQueue := d\<rparr>
        in if \<not> isValid next then (False, st1)
           else (True, emit (MemberTurnStarted (mb_alias next) (mb_agentId next))
                   (st1\<lparr>m_iterations := m_iterations st1 + 1, m_responderAlias := mb_alias next,
                        m_responderAgentId := mb_agentId next\<rparr>)))"

definition yieldToQueuedAfterToolBatch :: "'h env \<Rightarrow> string \<Rightarrow> 'h cascade \<Rightarrow> bool \<times> 'h cascade" where
  "yieldToQueuedAfterToolBatch env conv st = tryDispatchNext env conv st"

section \<open>Rounds and completion\<close>

definition clearAndComplete :: "inputs \<Rightarrow> bool \<Rightarrow> 'h cascade \<Rightarrow> 'h cascade" where
  "clearAndComplete ri pauseNoted st =
     (let roundTurns = m_iterations st;
          st1 = st\<lparr>m_queue := [], m_deferredQueue := [], m_memberTurns := [], m_iterations := 0,
                   m_responderAlias := [], m_responderAgentId := []\<rparr>;
          st2 = st1\<lparr>m_priorCascadeFingerprints :=
                     lastN kCrossCascadeFingerprintMaxEntries
                       (m_priorCascadeFingerprints st1 @ m_recentContentFingerprints st1)\<rparr>;
          st3 = st2\<lparr>m_recentContentFingerprints := [], m_memberRetryCount := [],
                    m_capRefusedAlias := [], m_roundToolFires := 0, m_roundRetries := 0,
                    m_roundNovelTurns := 0, m_round := 1\<rparr>
      in emit (CascadeComplete (ri_declaredTaskStatus ri) (ri_finishReason ri) (ri_totalTokens ri)
                 (ri_elapsedMs ri) roundTurns pauseNoted) st3)"

definition effectiveMaxRounds :: "'h env \<Rightarrow> string \<Rightarrow> int" where
  "effectiveMaxRounds env conv =
     (let cfgRounds = (case getConversation env conv of Some c \<Rightarrow> cv_maxAutoRounds c | None \<Rightarrow> kMaxAutoRounds)
      in if cfgRounds \<le> 0 then kAutoRoundsHardCeiling else min cfgRounds kAutoRoundsHardCeiling)"

definition nextWaiting :: "'h cascade \<Rightarrow> string" where
  "nextWaiting st =
     (let a = m_capRefusedAlias st;
          b = (if a = [] \<and> m_queue st \<noteq> [] then hd (m_queue st) else a)
      in if b = [] \<and> m_deferredQueue st \<noteq> [] then hd (m_deferredQueue st) else b)"

definition freshRound :: "'h cascade \<Rightarrow> 'h cascade" where
  "freshRound st =
     st\<lparr>m_round := m_round st + 1, m_memberTurns := [], m_iterations := 0, m_capRefusedAlias := [],
        m_roundToolFires := 0, m_roundRetries := 0, m_roundNovelTurns := 0, m_queue := [],
        m_deferredQueue := []\<rparr>"

text \<open>Continuing as the next round: whether a member was dispatched, and the state after it.\<close>

definition continueRound :: "'h env \<Rightarrow> inputs \<Rightarrow> string \<Rightarrow> 'h cascade \<Rightarrow> bool \<times> 'h cascade" where
  "continueRound env ri nextAlias st =
     (let st1 = freshRound st;
          m = findMember env (ri_convId ri) nextAlias
      in if isValid m then
           (let (queued, st2) = enqueueTarget (mb_alias m) st1 in
            if queued then
              (let (dispatched, st3) = tryDispatchNext env (ri_convId ri) st2 in
               if dispatched
               then (True, emit (RoundContinued (ri_convId ri) (m_round st3) nextAlias) st3)
               else (False, st3))
            else (False, st2))
         else (False, st1))"

definition emitCascadeCompleteAndClear :: "'h env \<Rightarrow> inputs \<Rightarrow> 'h cascade \<Rightarrow> 'h cascade" where
  "emitCascadeCompleteAndClear env ri st =
     (let workWaiting = (m_capRefusedAlias st \<noteq> [] \<or> m_queue st \<noteq> [] \<or> m_deferredQueue st \<noteq> [])
      in if isGroupChat env (ri_convId ri) \<and> workWaiting \<and>
            ri_finishReason ri \<noteq> ''tool_iteration_cap'' \<and> ri_finishReason ri \<noteq> ''tool_chain_echo''
         then
           (let progress = (m_roundToolFires st > 0 \<or> m_roundRetries st > 0 \<or> m_roundNovelTurns st > 0);
                nextAlias = nextWaiting st;
                (continued, st1) =
                  (if progress \<and> m_round st < effectiveMaxRounds env (ri_convId ri)
                   then continueRound env ri nextAlias st else (False, st))
            in if continued then st1
               else clearAndComplete ri True
                      (emit (CascadePausedAtCap (ri_convId ri) nextAlias
                         (if progress then ''rounds_exhausted'' else ''no_progress'')) st1))
         else clearAndComplete ri False st)"

definition forceCascadeComplete :: "'h env \<Rightarrow> inputs \<Rightarrow> 'h cascade \<Rightarrow> 'h cascade" where
  "forceCascadeComplete env ri st = emitCascadeCompleteAndClear env ri st"

section \<open>Acting on a classification\<close>

definition shouldRequestDeferredContinuation :: "classification \<Rightarrow> inputs \<Rightarrow> 'h cascade \<Rightarrow> bool" where
  "shouldRequestDeferredContinuation result ri st \<longleftrightarrow>
     selfPendingAction result \<and> \<not> confidence result < 1 / 2 \<and>
     \<not> ri_deferredBudgetExhausted ri \<and> m_responderAlias st \<noteq> []"

definition llmFailedFallback :: "classification \<Rightarrow> bool" where
  "llmFailedFallback result \<longleftrightarrow>
     startsWith (source result) ''rule-fallback-after:'' \<or>
     startsWith (source result) ''rule-preferred-after-unsure:''"

definition applyTarget :: "bool \<Rightarrow> member list \<Rightarrow> 'h cascade \<Rightarrow> target \<Rightarrow> 'h cascade" where
  "applyTarget fallback members st t =
     (if \<not> (fallback \<or> shouldCascade (tg_intent t)) then st
      else case findMemberByAliasIn members (tg_alias t) of
        None \<Rightarrow> st
      | Some m \<Rightarrow>
          if tg_intent t = BROADCAST_REQUEST \<and> valueOr (m_memberTurns st) (toLower (mb_alias m)) 0 \<ge> 1
          then st
          else snd (enqueueTarget (mb_alias m) st))"

definition applyClassification ::
  "classification \<Rightarrow> member list \<Rightarrow> string \<Rightarrow> string \<Rightarrow> 'h cascade \<Rightarrow> 'h cascade" where
  "applyClassification result members capturedContent conv st =
     (let st1 =
            (if confidence result \<ge> 1 / 2 \<or> llmFailedFallback result
             then foldl (applyTarget (llmFailedFallback result) members) st (targets result)
             else if targets result \<noteq> []
             then emit (MentionRoutingSuppressed conv (m_responderAlias st)
                    (map tg_alias (targets result)) (confidence result) (source result)) st
             else st)
      in if routeToUser result
         then emit (UserMentionedInGroup conv (m_responderAlias st1) capturedContent) st1
         else st1)"

definition maybeDispatchDelegate ::
  "'h env \<Rightarrow> classification \<Rightarrow> member list \<Rightarrow> string \<Rightarrow> 'h cascade \<Rightarrow> bool \<times> 'h cascade" where
  "maybeDispatchDelegate env result members conv st =
     (if pendingDelegateAlias result = [] then (False, st)
      else if confidence result < 1 / 2 then (False, st)
      else case findMemberByAliasIn members (pendingDelegateAlias result) of
        None \<Rightarrow> (False, st)
      | Some m \<Rightarrow>
          (let (queued, st1) = enqueueTarget (mb_alias m) st in
           if \<not> queued then (False, st1) else tryDispatchNext env conv st1))"

definition noteUndispatchedTargets :: "classification \<Rightarrow> string \<Rightarrow> 'h cascade \<Rightarrow> 'h cascade" where
  "noteUndispatchedTargets result conv st =
     (if targets result = [] then st
      else if m_capRefusedAlias st \<noteq> [] then st
      else if m_queue st \<noteq> [] \<or> m_deferredQueue st \<noteq> [] then st
      else emit (MentionRoutingSuppressed conv (m_responderAlias st) (map tg_alias (targets result))
                   (confidence result) (source result)) st)"

text \<open>The body that the synchronous arm and the continuation share.\<close>

definition onClassified ::
  "'h env \<Rightarrow> classification \<Rightarrow> member list \<Rightarrow> inputs \<Rightarrow> 'h cascade \<Rightarrow> 'h cascade" where
  "onClassified env result members ri st =
     (let conv = ri_convId ri;
          speakerAlias = m_responderAlias st;
          st1 = applyClassification result members (ri_content ri) conv st;
          (dispatched, st2) = tryDispatchNext env conv st1
      in if dispatched then
           (if shouldRequestDeferredContinuation result ri st2
            then snd (enqueueTarget speakerAlias st2) else st2)
         else
           let (delegated, st3) = maybeDispatchDelegate env result members conv st2 in
           if delegated then st3
           else if shouldRequestDeferredContinuation result ri st3
           then emit (DeferredContinuationRequested conv (m_responderAlias st3)
                        (m_responderAgentId st3) (pendingActionHint result)) st3
           else emitCascadeCompleteAndClear env ri (noteUndispatchedTargets result conv st3))"

section \<open>The entry point: a finished reply\<close>

text \<open>Group chats count the responder's turn, whatever the reply holds.\<close>

definition recordTurn :: "'h env \<Rightarrow> inputs \<Rightarrow> 'h cascade \<Rightarrow> 'h cascade" where
  "recordTurn env ri st =
     (if isGroupChat env (ri_convId ri) \<and> m_responderAlias st \<noteq> [] then
        (let key = toLower (m_responderAlias st)
         in st\<lparr>m_memberTurns := AList.update key (valueOr (m_memberTurns st) key 0 + 1) (m_memberTurns st)\<rparr>)
      else st)"

definition isEmptyReply :: "inputs \<Rightarrow> bool" where
  "isEmptyReply ri \<longleftrightarrow> trimmed (ri_content ri) = []"

definition currentFp :: "'h env \<Rightarrow> inputs \<Rightarrow> string list" where
  "currentFp env ri =
     (if isGroupChat env (ri_convId ri) \<and> \<not> isEmptyReply ri then contentFingerprint (ri_content ri) else [])"

definition isSaturated :: "'h env \<Rightarrow> inputs \<Rightarrow> 'h cascade \<Rightarrow> bool" where
  "isSaturated env ri st \<longleftrightarrow>
     isGroupChat env (ri_convId ri) \<and> \<not> isEmptyReply ri \<and> isCascadeSaturated (currentFp env ri) st"

definition isImpersonation :: "'h env \<Rightarrow> inputs \<Rightarrow> bool" where
  "isImpersonation env ri \<longleftrightarrow> isGroupChat env (ri_convId ri) \<and> ri_impersonatedAlias ri \<noteq> []"

definition needsRetryOrExhaust :: "'h env \<Rightarrow> inputs \<Rightarrow> 'h cascade \<Rightarrow> bool" where
  "needsRetryOrExhaust env ri st \<longleftrightarrow> isSaturated env ri st \<or> isEmptyReply ri \<or> isImpersonation env ri"

definition retryKey :: "'h cascade \<Rightarrow> string" where
  "retryKey st = (if m_responderAlias st = [] then ''__direct__'' else toLower (m_responderAlias st))"

definition retryReason :: "'h env \<Rightarrow> inputs \<Rightarrow> 'h cascade \<Rightarrow> string" where
  "retryReason env ri st =
     (if isImpersonation env ri then ''impersonation''
      else if isSaturated env ri st then ''echo'' else ''empty'')"

definition handleBadReply :: "'h env \<Rightarrow> inputs \<Rightarrow> 'h cascade \<Rightarrow> 'h cascade" where
  "handleBadReply env ri st =
     (let key = retryKey st;
          retriesUsed = valueOr (m_memberRetryCount st) key 0
      in if retriesUsed < kMaxEchoRetries then
           (let st1 = st\<lparr>m_memberRetryCount := AList.update key (retriesUsed + 1) (m_memberRetryCount st),
                         m_roundRetries := m_roundRetries st + 1\<rparr>;
                st2 = (if m_responderAlias st1 \<noteq> [] \<and> valueOr (m_memberTurns st1) key 0 > 0
                       then st1\<lparr>m_memberTurns := AList.update key (valueOr (m_memberTurns st1) key 0 - 1)
                                                  (m_memberTurns st1)\<rparr>
                       else st1)
            in emit (EchoDetectedRequestRetry (ri_convId ri) (ri_responderMsgId ri)
                       (m_responderAlias st2) (m_responderAgentId st2) (retriesUsed + 1)
                       (retryReason env ri st)) st2)
         else
           (let st1 = emit (EchoMaxRetriesExhausted (ri_convId ri) (ri_responderMsgId ri) (isEmptyReply ri)) st;
                st2 = st1\<lparr>m_memberRetryCount := AList.delete key (m_memberRetryCount st1)\<rparr>;
                (dispatched, st3) = tryDispatchNext env (ri_convId ri) st2
            in if dispatched then st3 else emitCascadeCompleteAndClear env ri st3))"

definition acceptReply :: "'h env \<Rightarrow> inputs \<Rightarrow> 'h cascade \<Rightarrow> 'h cascade" where
  "acceptReply env ri st =
     (let st1 = (if currentFp env ri \<noteq> []
                 then st\<lparr>m_recentContentFingerprints :=
                           lastN kCascadeFingerprintWindow (m_recentContentFingerprints st @ [currentFp env ri]),
                         m_roundNovelTurns := m_roundNovelTurns st + 1\<rparr>
                 else st)
      in st1\<lparr>m_memberRetryCount := AList.delete (retryKey st1) (m_memberRetryCount st1)\<rparr>)"

definition ragpRequest :: "member list \<Rightarrow> inputs \<Rightarrow> 'h cascade \<Rightarrow> request" where
  "ragpRequest members ri st =
     \<lparr>rq_content = ri_content ri, rq_authorAlias = m_responderAlias st,
      rq_rosterAliases = map mb_alias members, rq_executedToolsSummary = ri_executedToolsSummary ri,
      rq_wantsPendingActionVerdict = ri_hasStructuralActionSignals ri\<rparr>"

definition classifyAndRoute :: "'h env \<Rightarrow> inputs \<Rightarrow> 'h cascade \<Rightarrow> 'h cascade" where
  "classifyAndRoute env ri st =
     (let isFirstResponder = (m_iterations st = 0);
          members = conversationMembers env (ri_convId ri);
          (outcome, svc) = classify (sha256 env) (nowMs env) (endMs env) (ragpRequest members ri st)
                             (m_ragpService st);
          st1 = st\<lparr>m_ragpService := svc\<rparr>
      in case outcome of
           Ready result \<Rightarrow> onClassified env result members ri st1
         | Pending p \<Rightarrow> st1\<lparr>m_waiting := m_waiting st1 @ [\<lparr>wt_pending = p, wt_members = members,
                                wt_isFirstResponder = isFirstResponder, wt_inputs = ri\<rparr>]\<rparr>)"

text \<open>The part of \<open>routeOrFinalize\<close> after the voice gate.\<close>

definition routeReply :: "'h env \<Rightarrow> inputs \<Rightarrow> 'h cascade \<Rightarrow> 'h cascade" where
  "routeReply env ri st0 =
     (let st = recordTurn env ri st0 in
      if needsRetryOrExhaust env ri st then handleBadReply env ri st
      else
        let st1 = acceptReply env ri st;
            shouldClassify = (isGroupChat env (ri_convId ri) \<and> \<not> isEmptyReply ri \<and>
              (hasAnyMention (ri_content ri) \<or> ri_hasStructuralActionSignals ri))
        in if shouldClassify then classifyAndRoute env ri st1
           else (let (dispatched, st2) = tryDispatchNext env (ri_convId ri) st1
                 in if dispatched then st2 else emitCascadeCompleteAndClear env ri st2))"

definition holdsForVoice :: "'h env \<Rightarrow> inputs \<Rightarrow> 'h cascade \<Rightarrow> bool" where
  "holdsForVoice env ri st \<longleftrightarrow>
     m_voiceGate st \<and> \<not> m_voiceHoldActive st \<and>
     ri_responderMsgId ri \<notin> set (m_voiceReleasedMsgIds st) \<and>
     shouldHoldTurn env (ri_convId ri) (ri_responderMsgId ri)"

definition routeOrFinalize :: "'h env \<Rightarrow> inputs \<Rightarrow> 'h cascade \<Rightarrow> 'h cascade" where
  "routeOrFinalize env ri st =
     (if holdsForVoice env ri st then st\<lparr>m_voiceHeldInputs := ri, m_voiceHoldActive := True\<rparr>
      else routeReply env ri st)"

text \<open>The set of released ids grows by at most one before it is cut back to 64, so its loop erases
  at most one element: the first in the set's own order, \<open>firstOfSet\<close>.\<close>

definition noteReleased :: "'h env \<Rightarrow> string \<Rightarrow> 'h cascade \<Rightarrow> 'h cascade" where
  "noteReleased env msgId st =
     (if msgId \<noteq> [] then
        (let ids = List.insert msgId (m_voiceReleasedMsgIds st)
         in st\<lparr>m_voiceReleasedMsgIds :=
                (if length ids > 64 then remove1 (firstOfSet env ids) ids else ids)\<rparr>)
      else st)"

definition releaseVoiceHold :: "'h env \<Rightarrow> string \<Rightarrow> 'h cascade \<Rightarrow> 'h cascade" where
  "releaseVoiceHold env msgId st =
     (if \<not> m_voiceHoldActive st then st
      else if msgId \<noteq> [] \<and> msgId \<noteq> ri_responderMsgId (m_voiceHeldInputs st) then st
      else
        let held = m_voiceHeldInputs st;
            st1 = st\<lparr>m_voiceHoldActive := False, m_voiceHeldInputs := no_inputs\<rparr>
        in routeOrFinalize env held (noteReleased env (ri_responderMsgId held) st1))"

definition setVoiceTurnGate :: "'h env \<Rightarrow> bool \<Rightarrow> 'h cascade \<Rightarrow> 'h cascade" where
  "setVoiceTurnGate env gate st =
     (let st1 = st\<lparr>m_voiceGate := gate\<rparr>
      in if \<not> gate \<and> m_voiceHoldActive st1
         then releaseVoiceHold env (ri_responderMsgId (m_voiceHeldInputs st1)) st1 else st1)"

text \<open>The continuation of a classification that went to the backend: \<open>i\<close> is the entry of
  \<open>m_waiting\<close> that resolves, \<open>answer\<close> what the backend delivered.\<close>

definition onClassificationFinished ::
  "'h env \<Rightarrow> nat \<Rightarrow> classification \<Rightarrow> 'h cascade \<Rightarrow> 'h cascade" where
  "onClassificationFinished env i answer st =
     (if i < length (m_waiting st) then
        (let w = m_waiting st ! i;
             (result, svc) = resolve (sha256 env) (nowMs env) (wt_pending w) answer (m_ragpService st)
         in onClassified env result (wt_members w) (wt_inputs w)
              (st\<lparr>m_ragpService := svc, m_waiting := take i (m_waiting st) @ drop (Suc i) (m_waiting st)\<rparr>))
      else st)"

end
