(* ===== verification/Cascade_Props.thy ===== *)
theory Cascade_Props
  imports Cascade "HOL-Library.Sublist"
begin

text \<open>
  The laws of the cascade controller: what one dispatch does, the invariant of its counters and
  windows, which signal hands the turn on, and how many turns can follow one user message.
\<close>

section \<open>Frames\<close>

lemma emit_fields [simp]:
  "m_queue (emit e st) = m_queue st" "m_deferredQueue (emit e st) = m_deferredQueue st"
  "m_memberTurns (emit e st) = m_memberTurns st" "m_iterations (emit e st) = m_iterations st"
  "m_responderAlias (emit e st) = m_responderAlias st"
  "m_responderAgentId (emit e st) = m_responderAgentId st"
  "m_recentContentFingerprints (emit e st) = m_recentContentFingerprints st"
  "m_priorCascadeFingerprints (emit e st) = m_priorCascadeFingerprints st"
  "m_memberRetryCount (emit e st) = m_memberRetryCount st"
  "m_capRefusedAlias (emit e st) = m_capRefusedAlias st"
  "m_roundToolFires (emit e st) = m_roundToolFires st"
  "m_roundRetries (emit e st) = m_roundRetries st"
  "m_roundNovelTurns (emit e st) = m_roundNovelTurns st" "m_round (emit e st) = m_round st"
  "m_voiceGate (emit e st) = m_voiceGate st" "m_voiceHoldActive (emit e st) = m_voiceHoldActive st"
  "m_voiceHeldInputs (emit e st) = m_voiceHeldInputs st"
  "m_voiceReleasedMsgIds (emit e st) = m_voiceReleasedMsgIds st"
  "m_ragpService (emit e st) = m_ragpService st" "m_waiting (emit e st) = m_waiting st"
  "m_log (emit e st) = m_log st @ [e]"
  by (simp_all add: emit_def)

lemma length_lastN [simp]: "length (lastN n xs) = min n (length xs)"
  by (simp add: lastN_def)

lemma enqueueTarget_cases:
  obtains "enqueueTarget a st = (False, st)"
  | "enqueueTarget a st = (False, st\<lparr>m_capRefusedAlias := a\<rparr>)"
  | "enqueueTarget a st = (True, st\<lparr>m_queue := m_queue st @ [a]\<rparr>)" and "a \<noteq> []" and "a \<notin> set (m_queue st)"
      and "valueOr (m_memberTurns st) (toLower a) 0 < kMaxTurnsPerMember"
      and "\<not> eqCI a (m_responderAlias st)"
proof -
  have "enqueueTarget a st = (False, st) \<or> enqueueTarget a st = (False, st\<lparr>m_capRefusedAlias := a\<rparr>) \<or>
    (enqueueTarget a st = (True, st\<lparr>m_queue := m_queue st @ [a]\<rparr>) \<and> a \<noteq> [] \<and> a \<notin> set (m_queue st)
      \<and> valueOr (m_memberTurns st) (toLower a) 0 < kMaxTurnsPerMember \<and> \<not> eqCI a (m_responderAlias st))"
    by (simp add: enqueueTarget_def)
  then show ?thesis using that by blast
qed

section \<open>One dispatch\<close>

lemma skipWalk_done: "isValid nx \<Longrightarrow> skipWalk look src q d nx = (nx, q, d)"
  by (subst skipWalk.simps) (simp add: Let_def)

lemma skipWalk_empty: "skipWalk look Deferred q [] nx = (nx, q, [])"
  by (subst skipWalk.simps) (simp add: Let_def)

lemma skipWalk_empty_imm: "skipWalk look Immediate [] d nx = (nx, [], d)"
  by (subst skipWalk.simps) (simp add: Let_def)

abbreviation bad :: "(string \<Rightarrow> member) \<Rightarrow> string \<Rightarrow> bool" where
  "bad look a \<equiv> \<not> isValid (look a)"

lemma skipWalk_deferred:
  "\<not> isValid nx \<Longrightarrow>
   (case dropWhile (bad look) d of
      [] \<Rightarrow> \<not> isValid (fst (skipWalk look Deferred q d nx)) \<and> snd (skipWalk look Deferred q d nx) = (q, [])
    | a # as \<Rightarrow> skipWalk look Deferred q d nx = (look a, q, as))"
proof (induction d arbitrary: nx)
  case Nil
  then show ?case by (simp add: skipWalk_empty)
next
  case (Cons a d)
  have step: "skipWalk look Deferred q (a # d) nx = skipWalk look Deferred q d (look a)"
    using Cons.prems by (subst skipWalk.simps) (simp add: Let_def)
  show ?case
  proof (cases "isValid (look a)")
    case True
    with step show ?thesis by (simp add: skipWalk_done)
  next
    case False
    with Cons.IH [OF False] show ?thesis unfolding step by simp
  qed
qed

lemma skipWalk_immediate:
  "\<not> isValid nx \<Longrightarrow> q \<noteq> [] \<Longrightarrow>
   (case dropWhile (bad look) (q @ d) of
      [] \<Rightarrow> \<not> isValid (fst (skipWalk look Immediate q d nx)) \<and> snd (skipWalk look Immediate q d nx) = ([], [])
    | a # as \<Rightarrow> fst (skipWalk look Immediate q d nx) = look a \<and>
        (\<exists>q' d'. snd (skipWalk look Immediate q d nx) = (q', d') \<and> q' @ d' = as \<and>
           (q' \<noteq> [] \<longrightarrow> d' = d) \<and> suffix q' q \<and> suffix d' d))"
proof (induction q arbitrary: nx)
  case (Cons a q)
  have step: "skipWalk look Immediate (a # q) d nx =
      skipWalk look (if q = [] \<and> d \<noteq> [] \<and> bad look a then Deferred else Immediate) q d (look a)"
    using Cons.prems by (subst skipWalk.simps) (simp add: Let_def)
  show ?case
  proof (cases "isValid (look a)")
    case True
    with step show ?thesis by (simp add: skipWalk_done suffix_Cons)
  next
    case inv: False
    show ?thesis
    proof (cases "q = []")
      case True
      show ?thesis
      proof (cases "d = []")
        case True
        with step inv \<open>q = []\<close> show ?thesis by (simp add: skipWalk_empty_imm)
      next
        case False
        with step inv \<open>q = []\<close> have s: "skipWalk look Immediate (a # q) d nx = skipWalk look Deferred [] d (look a)"
          by simp
        have dw: "dropWhile (bad look) ((a # q) @ d) = dropWhile (bad look) d"
          using inv \<open>q = []\<close> by simp
        show ?thesis
        proof (cases "dropWhile (bad look) d")
          case Nil
          from skipWalk_deferred [OF inv, where look = look and q = "[]" and d = d]
          show ?thesis unfolding s dw Nil by simp
        next
          case (Cons b bs)
          with skipWalk_deferred [OF inv, where look = look and q = "[]" and d = d]
            suffix_dropWhile [of "bad look" d]
          show ?thesis unfolding s dw by (auto dest: suffix_ConsD)
        qed
      qed
    next
      case False
      with step inv have s: "skipWalk look Immediate (a # q) d nx = skipWalk look Immediate q d (look a)"
        by simp
      have dw: "dropWhile (bad look) ((a # q) @ d) = dropWhile (bad look) (q @ d)"
        using inv by simp
      show ?thesis
      proof (cases "dropWhile (bad look) (q @ d)")
        case Nil
        from Cons.IH [OF inv False] show ?thesis unfolding s dw Nil by simp
      next
        case (Cons b bs)
        from \<open>q \<noteq> []\<close> Cons.IH [OF inv] show ?thesis
          unfolding s dw local.Cons by (auto simp: suffix_Cons)
      qed
    qed
  qed
qed simp

text \<open>One dispatch serves the first alias, over the immediate and then the deferred queue, that
  still names a member; the aliases before it are dropped.\<close>

lemma dispatch_cases:
  fixes env :: "'h env" and st :: "'h cascade" and conv :: string
  defines "waiting' \<equiv> dropWhile (bad (findMember env conv)) (m_queue st @ m_deferredQueue st)"
  obtains (no) q d where "tryDispatchNext env conv st = (False, st\<lparr>m_queue := q, m_deferredQueue := d\<rparr>)"
      and "suffix q (m_queue st)" and "suffix d (m_deferredQueue st)"
      and "isGroupChat env conv \<Longrightarrow> m_iterations st < kMaxAgentCascade \<Longrightarrow> waiting' = [] \<and> q = [] \<and> d = []"
      and "\<not> (isGroupChat env conv \<and> m_iterations st < kMaxAgentCascade) \<Longrightarrow> q = m_queue st \<and> d = m_deferredQueue st"
  | (yes) a q d where "isGroupChat env conv" and "m_iterations st < kMaxAgentCascade"
      and "waiting' = a # q @ d" and "isValid (findMember env conv a)"
      and "suffix q (m_queue st)" and "suffix d (m_deferredQueue st)" and "q \<noteq> [] \<Longrightarrow> d = m_deferredQueue st"
      and "tryDispatchNext env conv st =
        (True, emit (MemberTurnStarted (mb_alias (findMember env conv a)) (mb_agentId (findMember env conv a)))
           (st\<lparr>m_queue := q, m_deferredQueue := d, m_iterations := m_iterations st + 1,
               m_responderAlias := mb_alias (findMember env conv a),
               m_responderAgentId := mb_agentId (findMember env conv a)\<rparr>))"
proof (cases "isGroupChat env conv \<and> m_iterations st < kMaxAgentCascade")
  case False
  then show ?thesis
    by (intro no [where q = "m_queue st" and d = "m_deferredQueue st"]) (auto simp: tryDispatchNext_def)
next
  case cap: True
  let ?look = "findMember env conv"
  let ?src = "if m_queue st = [] then Deferred else Immediate"
  obtain n q d where w: "skipWalk ?look ?src (m_queue st) (m_deferredQueue st) no_member = (n, q, d)"
    by (metis prod_cases3)
  have disp: "tryDispatchNext env conv st =
      (if m_queue st = [] \<and> m_deferredQueue st = [] then (False, st)
       else if \<not> isValid n then (False, st\<lparr>m_queue := q, m_deferredQueue := d\<rparr>)
       else (True, emit (MemberTurnStarted (mb_alias n) (mb_agentId n))
              (st\<lparr>m_queue := q, m_deferredQueue := d, m_iterations := m_iterations st + 1,
                  m_responderAlias := mb_alias n, m_responderAgentId := mb_agentId n\<rparr>)))"
    using cap w by (simp add: tryDispatchNext_def not_le)
  have walk: "case waiting' of [] \<Rightarrow> \<not> isValid n \<and> q = [] \<and> d = []
      | a # as \<Rightarrow> n = ?look a \<and> q @ d = as \<and> (q \<noteq> [] \<longrightarrow> d = m_deferredQueue st) \<and>
          suffix q (m_queue st) \<and> suffix d (m_deferredQueue st)"
  proof (cases "m_queue st = []")
    case True
    then have w': "skipWalk ?look Deferred [] (m_deferredQueue st) no_member = (n, q, d)"
      and wt: "waiting' = dropWhile (bad ?look) (m_deferredQueue st)"
      using w by (simp_all add: waiting'_def)
    show ?thesis
    proof (cases waiting')
      case Nil
      with skipWalk_deferred [OF no_member_invalid, where look = ?look and d = "m_deferredQueue st" and q = "[]"]
      show ?thesis unfolding wt [symmetric] w' by simp
    next
      case (Cons a as)
      with skipWalk_deferred [OF no_member_invalid, where look = ?look and d = "m_deferredQueue st" and q = "[]"]
        suffix_dropWhile [of "bad ?look" "m_deferredQueue st"]
      show ?thesis unfolding wt [symmetric] w' by (auto dest: suffix_ConsD)
    qed
  next
    case False
    then have "skipWalk ?look Immediate (m_queue st) (m_deferredQueue st) no_member = (n, q, d)"
      using w by simp
    with skipWalk_immediate [OF no_member_invalid False, where look = ?look and d = "m_deferredQueue st"]
    show ?thesis unfolding waiting'_def [symmetric] by (cases waiting') auto
  qed
  show ?thesis
  proof (cases waiting')
    case Nil
    with walk disp cap show ?thesis
      by (intro no [where q = "[]" and d = "[]"]) (auto split: if_splits)
  next
    case (Cons a as)
    have "isValid (?look a)"
      using Cons hd_dropWhile [of "bad ?look" "m_queue st @ m_deferredQueue st"]
      unfolding waiting'_def by simp
    moreover have "\<not> (m_queue st = [] \<and> m_deferredQueue st = [])"
      using Cons unfolding waiting'_def by auto
    ultimately show ?thesis using walk disp cap Cons
      by (intro yes [where a = a and q = q and d = d]) (auto split: if_splits)
  qed
qed

section \<open>What an operation adds to the log\<close>

text \<open>The signals that hand the turn on: somebody speaks next, the exchange is complete, the same
  member tries again, or a follow-up turn of the same member is requested.\<close>

fun ownsTurn :: "event \<Rightarrow> bool" where
  "ownsTurn (MemberTurnStarted a b) = True"
| "ownsTurn (CascadeComplete a b c d e f) = True"
| "ownsTurn (EchoDetectedRequestRetry a b c d e f) = True"
| "ownsTurn (DeferredContinuationRequested a b c d) = True"
| "ownsTurn _ = False"

fun isComplete :: "event \<Rightarrow> bool" where
  "isComplete (CascadeComplete a b c d e f) = True"
| "isComplete _ = False"

fun isStart :: "event \<Rightarrow> bool" where
  "isStart (MemberTurnStarted a b) = True"
| "isStart _ = False"

definition count :: "('a \<Rightarrow> bool) \<Rightarrow> 'a list \<Rightarrow> nat" where
  "count P xs = length (filter P xs)"

lemma count_simps [simp]: "count P [] = 0" "count P (x # xs) = (if P x then 1 else 0) + count P xs"
  "count P (xs @ ys) = count P xs + count P ys"
  by (simp_all add: count_def)

text \<open>The turns a user message can have had so far, were every earlier round full.\<close>

definition turnsUsed :: "'h cascade \<Rightarrow> int" where
  "turnsUsed st = (m_round st - 1) * kMaxAgentCascade + m_iterations st"

text \<open>From \<open>st\<close> to \<open>st'\<close> the log grows by events of which \<open>n\<close> hand the turn on; unless one of
  them completes the exchange, the turns used grow by the turns started.\<close>

definition grows :: "'h cascade \<Rightarrow> 'h cascade \<Rightarrow> nat \<Rightarrow> bool" where
  "grows st st' n \<longleftrightarrow> (\<exists>es. m_log st' = m_log st @ es \<and> count ownsTurn es = n \<and>
     (list_ex isComplete es \<or> turnsUsed st + int (count isStart es) \<le> turnsUsed st'))"

lemma grows_quiet:
  "m_log st' = m_log st \<Longrightarrow> turnsUsed st \<le> turnsUsed st' \<Longrightarrow> grows st st' 0"
  by (auto simp: grows_def)

lemma grows_refl [simp]: "grows st st 0"
  by (rule grows_quiet) simp_all

lemma grows_trans:
  assumes "grows a b n" and "grows b c m"
  shows "grows a c (n + m)"
proof -
  from assms(1) obtain es where "m_log b = m_log a @ es" "count ownsTurn es = n"
      "list_ex isComplete es \<or> turnsUsed a + int (count isStart es) \<le> turnsUsed b"
    unfolding grows_def by blast
  moreover from assms(2) obtain fs where "m_log c = m_log b @ fs" "count ownsTurn fs = m"
      "list_ex isComplete fs \<or> turnsUsed b + int (count isStart fs) \<le> turnsUsed c"
    unfolding grows_def by blast
  ultimately show ?thesis
    unfolding grows_def by (intro exI [of _ "es @ fs"]) auto
qed

lemma grows_emit:
  assumes "\<not> isStart e"
  shows "grows st (emit e st) (if ownsTurn e then 1 else 0)"
  using assms unfolding grows_def by (intro exI [of _ "[e]"]) (simp add: turnsUsed_def)

lemma turnsUsed_same:
  "m_round st' = m_round st \<Longrightarrow> m_iterations st' = m_iterations st \<Longrightarrow> turnsUsed st' = turnsUsed st"
  by (simp add: turnsUsed_def)

lemma grows_enqueue: "grows st (snd (enqueueTarget a st)) 0"
  by (rule grows_quiet; cases rule: enqueueTarget_cases [of a st]) (simp_all add: turnsUsed_def)

lemma grows_enqueueDeferred: "grows st (snd (enqueueDeferredTarget a st)) 0"
  by (rule grows_quiet) (simp_all add: enqueueDeferredTarget_def turnsUsed_def)

lemma grows_dispatch:
  assumes "tryDispatchNext env conv st = (b, st')"
  shows "grows st st' (if b then 1 else 0)"
proof (cases rule: dispatch_cases [where env = env and conv = conv and st = st])
  case (no q d)
  with assms have "\<not> b" "st' = st\<lparr>m_queue := q, m_deferredQueue := d\<rparr>" by auto
  then show ?thesis by (auto intro: grows_quiet simp: turnsUsed_def)
next
  case (yes a q d)
  with assms have "b" by simp
  moreover have "m_log st' = m_log st @ [MemberTurnStarted (mb_alias (findMember env conv a)) (mb_agentId (findMember env conv a))]"
    using yes assms by auto
  moreover have "turnsUsed st' = turnsUsed st + 1" using yes assms by (auto simp: turnsUsed_def)
  ultimately show ?thesis unfolding grows_def by auto
qed

lemma clearAndComplete_log:
  "m_log (clearAndComplete ri p st) = m_log st @ [CascadeComplete (ri_declaredTaskStatus ri)
     (ri_finishReason ri) (ri_totalTokens ri) (ri_elapsedMs ri) (m_iterations st) p]"
  by (simp add: clearAndComplete_def)

lemma grows_complete: "grows st (clearAndComplete ri p st) 1"
  unfolding grows_def by (simp add: clearAndComplete_log)

lemma grows_foldl: "(\<And>st x. grows st (f st x) 0) \<Longrightarrow> grows st (foldl f st xs) 0"
proof (induction xs arbitrary: st)
  case (Cons x xs)
  from grows_trans [OF Cons.prems [of st x] Cons.IH [OF Cons.prems]] show ?case by simp
qed simp

lemma grows_applyTarget: "grows st (applyTarget fb ms st t) 0"
  by (simp add: applyTarget_def grows_enqueue split: option.split)

lemma grows_applyClassification: "grows st (applyClassification result ms content conv st) 0"
proof -
  let ?st1 = "if confidence result \<ge> 1 / 2 \<or> llmFailedFallback result
      then foldl (applyTarget (llmFailedFallback result) ms) st (targets result)
      else if targets result \<noteq> []
      then emit (MentionRoutingSuppressed conv (m_responderAlias st)
        (map tg_alias (targets result)) (confidence result) (source result)) st
      else st"
  have 1: "grows st ?st1 0"
    using grows_emit [of "MentionRoutingSuppressed conv (m_responderAlias st)
        (map tg_alias (targets result)) (confidence result) (source result)" st]
    by (simp add: grows_foldl grows_applyTarget)
  have 2: "grows ?st1 (emit (UserMentionedInGroup conv (m_responderAlias ?st1) content) ?st1) 0"
    using grows_emit [of "UserMentionedInGroup conv (m_responderAlias ?st1) content" ?st1] by simp
  show ?thesis
    unfolding applyClassification_def Let_def using 1 grows_trans [OF 1 2] by (simp only: add_0_right if_True if_False split: if_split) simp
qed

lemma grows_delegate:
  assumes "maybeDispatchDelegate env result ms conv st = (b, st')"
  shows "grows st st' (if b then 1 else 0)"
proof (cases "pendingDelegateAlias result = [] \<or> confidence result < 1 / 2 \<or>
    findMemberByAliasIn ms (pendingDelegateAlias result) = None")
  case True
  with assms show ?thesis by (auto simp: maybeDispatchDelegate_def split: if_splits)
next
  case False
  then obtain m where m: "findMemberByAliasIn ms (pendingDelegateAlias result) = Some m" by auto
  obtain q st1 where q: "enqueueTarget (mb_alias m) st = (q, st1)" by fastforce
  then have 1: "grows st st1 0" using grows_enqueue [of st "mb_alias m"] by simp
  show ?thesis
  proof (cases q)
    case True
    then have "tryDispatchNext env conv st1 = (b, st')"
      using assms m q False by (simp add: maybeDispatchDelegate_def)
    from grows_trans [OF 1 grows_dispatch [OF this]] show ?thesis by simp
  next
    case notq: False
    then show ?thesis using assms m q False 1 by (auto simp: maybeDispatchDelegate_def)
  qed
qed

lemma grows_note: "grows st (noteUndispatchedTargets result conv st) 0"
  using grows_emit [of "MentionRoutingSuppressed conv (m_responderAlias st)
        (map tg_alias (targets result)) (confidence result) (source result)" st]
  by (simp add: noteUndispatchedTargets_def)

section \<open>The invariant\<close>

definition cascade_inv :: "'h cascade \<Rightarrow> bool" where
  "cascade_inv st \<longleftrightarrow>
     0 \<le> m_iterations st \<and> m_iterations st \<le> kMaxAgentCascade \<and>
     1 \<le> m_round st \<and> m_round st \<le> kAutoRoundsHardCeiling \<and>
     (\<forall>k. 0 \<le> valueOr (m_memberRetryCount st) k 0 \<and> valueOr (m_memberRetryCount st) k 0 \<le> kMaxEchoRetries) \<and>
     (\<forall>k. 0 \<le> valueOr (m_memberTurns st) k 0) \<and>
     distinct (m_queue st) \<and> [] \<notin> set (m_queue st) \<and>
     distinct (m_deferredQueue st) \<and> [] \<notin> set (m_deferredQueue st) \<and>
     length (m_recentContentFingerprints st) \<le> kCascadeFingerprintWindow \<and>
     length (m_priorCascadeFingerprints st) \<le> kCrossCascadeFingerprintMaxEntries \<and>
     length (m_voiceReleasedMsgIds st) \<le> 64 \<and> service_inv (m_ragpService st)"

lemma new_cascade_inv: "cascade_inv new_cascade"
  by (simp add: cascade_inv_def new_cascade_def cascade_limits new_service_inv)

lemma emit_inv [simp]: "cascade_inv (emit e st) = cascade_inv st"
  by (simp add: cascade_inv_def)

lemma enqueueTarget_inv [inv_intro]: "cascade_inv st \<Longrightarrow> cascade_inv (snd (enqueueTarget a st))"
  by (cases rule: enqueueTarget_cases [of a st]) (simp_all add: cascade_inv_def)

lemma enqueueDeferredTarget_inv [inv_intro]:
  "cascade_inv st \<Longrightarrow> cascade_inv (snd (enqueueDeferredTarget a st))"
  by (simp add: enqueueDeferredTarget_def cascade_inv_def)

lemma suffix_distinct: "suffix xs ys \<Longrightarrow> distinct ys \<Longrightarrow> distinct xs"
  by (auto simp: suffix_def)

lemma suffix_notin: "suffix xs ys \<Longrightarrow> a \<notin> set ys \<Longrightarrow> a \<notin> set xs"
  by (auto simp: suffix_def)

lemma tryDispatchNext_inv [inv_intro]: "cascade_inv st \<Longrightarrow> cascade_inv (snd (tryDispatchNext env conv st))"
proof (cases rule: dispatch_cases [where env = env and conv = conv and st = st])
  case (no q d)
  assume "cascade_inv st"
  with no(1-3) show ?thesis
    by (auto simp: cascade_inv_def suffix_distinct dest: suffix_notin)
next
  case (yes a q d)
  assume "cascade_inv st"
  with yes(2,5,6,8) show ?thesis
    by (auto simp: cascade_inv_def suffix_distinct kMaxAgentCascade_def dest: suffix_notin)
qed

lemma clearAndComplete_inv [inv_intro]: "cascade_inv st \<Longrightarrow> cascade_inv (clearAndComplete ri p st)"
  by (simp add: clearAndComplete_def cascade_inv_def cascade_limits)

lemma freshRound_inv:
  "cascade_inv st \<Longrightarrow> m_round st < kAutoRoundsHardCeiling \<Longrightarrow> cascade_inv (freshRound st)"
  by (simp add: freshRound_def cascade_inv_def cascade_limits)

lemma effectiveMaxRounds_le: "effectiveMaxRounds env conv \<le> kAutoRoundsHardCeiling"
  by (auto simp: effectiveMaxRounds_def Let_def)

lemma continueRound_inv [inv_intro]:
  assumes "cascade_inv st" and "m_round st < kAutoRoundsHardCeiling"
  shows "cascade_inv (snd (continueRound env ri a st))"
proof -
  have "cascade_inv (freshRound st)" by (rule freshRound_inv [OF assms])
  moreover from this have "cascade_inv (snd (enqueueTarget b (freshRound st)))" for b by (rule inv_intro)
  moreover from this have "cascade_inv (snd (tryDispatchNext env c (snd (enqueueTarget b (freshRound st)))))" for b c
    by (rule inv_intro)
  ultimately show ?thesis
    by (simp add: continueRound_def Let_def case_prod_beta)
qed

lemma complete_inv [inv_intro]:
  assumes "cascade_inv st"
  shows "cascade_inv (emitCascadeCompleteAndClear env ri st)"
proof -
  have "m_round st < effectiveMaxRounds env c \<Longrightarrow> cascade_inv (snd (continueRound env ri a st))" for c a
    using assms effectiveMaxRounds_le [of env c] by (intro continueRound_inv) auto
  with assms show ?thesis
    by (auto simp: emitCascadeCompleteAndClear_def Let_def case_prod_beta intro!: clearAndComplete_inv)
qed

lemma foldl_inv: "(\<And>st x. cascade_inv st \<Longrightarrow> cascade_inv (f st x)) \<Longrightarrow> cascade_inv st \<Longrightarrow> cascade_inv (foldl f st xs)"
  by (induction xs arbitrary: st) auto

lemma applyTarget_inv [inv_intro]: "cascade_inv st \<Longrightarrow> cascade_inv (applyTarget fb ms st t)"
  by (auto simp: applyTarget_def intro: inv_intro split: option.split)

lemma applyClassification_inv [inv_intro]:
  "cascade_inv st \<Longrightarrow> cascade_inv (applyClassification result ms content conv st)"
  by (auto simp: applyClassification_def Let_def intro!: foldl_inv inv_intro)

lemma maybeDispatchDelegate_inv [inv_intro]:
  "cascade_inv st \<Longrightarrow> cascade_inv (snd (maybeDispatchDelegate env result ms conv st))"
  by (auto simp: maybeDispatchDelegate_def case_prod_beta Let_def intro!: inv_intro split: option.split)

lemma noteUndispatched_inv [inv_intro]:
  "cascade_inv st \<Longrightarrow> cascade_inv (noteUndispatchedTargets result conv st)"
  by (simp add: noteUndispatchedTargets_def)

lemma onClassified_inv [inv_intro]: "cascade_inv st \<Longrightarrow> cascade_inv (onClassified env result ms ri st)"
  by (simp add: onClassified_def Let_def case_prod_beta inv_intro)

lemma recordTurn_inv [inv_intro]: "cascade_inv st \<Longrightarrow> cascade_inv (recordTurn env ri st)"
  by (simp add: recordTurn_def cascade_inv_def Let_def)

lemma handleBadReply_inv [inv_intro]: "cascade_inv st \<Longrightarrow> cascade_inv (handleBadReply env ri st)"
proof -
  assume inv: "cascade_inv st"
  let ?e = "EchoMaxRetriesExhausted (ri_convId ri) (ri_responderMsgId ri) (isEmptyReply ri)"
  have "cascade_inv ((emit ?e st)\<lparr>m_memberRetryCount := AList.delete (retryKey st) (m_memberRetryCount st)\<rparr>)"
    using inv by (simp add: cascade_inv_def kMaxEchoRetries_def)
  then have "cascade_inv (snd (tryDispatchNext env (ri_convId ri)
      ((emit ?e st)\<lparr>m_memberRetryCount := AList.delete (retryKey st) (m_memberRetryCount st)\<rparr>)))"
    by (rule inv_intro)
  moreover from inv have "valueOr (m_memberRetryCount st) (retryKey st) 0 < kMaxEchoRetries \<Longrightarrow>
      cascade_inv (emit e (let st1 = st\<lparr>m_memberRetryCount := AList.update (retryKey st)
          (valueOr (m_memberRetryCount st) (retryKey st) 0 + 1) (m_memberRetryCount st), m_roundRetries := r\<rparr>
        in if m_responderAlias st1 \<noteq> [] \<and> valueOr (m_memberTurns st1) (retryKey st) 0 > 0
           then st1\<lparr>m_memberTurns := AList.update (retryKey st) (valueOr (m_memberTurns st1) (retryKey st) 0 - 1)
                      (m_memberTurns st1)\<rparr> else st1))" for e r
    by (simp add: cascade_inv_def Let_def)
  ultimately show ?thesis
    by (simp add: handleBadReply_def Let_def case_prod_beta inv_intro)
qed

lemma acceptReply_inv [inv_intro]: "cascade_inv st \<Longrightarrow> cascade_inv (acceptReply env ri st)"
  by (simp add: acceptReply_def cascade_inv_def Let_def retryKey_def cascade_limits)

lemma classifyAndRoute_inv [inv_intro]: "cascade_inv st \<Longrightarrow> cascade_inv (classifyAndRoute env ri st)"
proof -
  assume inv: "cascade_inv st"
  obtain out svc where c: "classify (sha256 env) (nowMs env) (endMs env)
      (ragpRequest (conversationMembers env (ri_convId ri)) ri st) (m_ragpService st) = (out, svc)" by fastforce
  then have "cascade_inv (st\<lparr>m_ragpService := svc\<rparr>)"
    using inv classify_service_inv [of "m_ragpService st" "sha256 env" "nowMs env" "endMs env"
        "ragpRequest (conversationMembers env (ri_convId ri)) ri st"] by (simp add: cascade_inv_def)
  then have "cascade_inv (onClassified env r ms ri (st\<lparr>m_ragpService := svc\<rparr>))"
    and "cascade_inv (st\<lparr>m_ragpService := svc, m_waiting := w\<rparr>)" for r ms w
    by (auto intro: inv_intro) (simp add: cascade_inv_def)
  then show ?thesis by (simp add: classifyAndRoute_def c Let_def split: outcome.split)
qed

lemma routeReply_inv [inv_intro]: "cascade_inv st \<Longrightarrow> cascade_inv (routeReply env ri st)"
  by (simp add: routeReply_def Let_def case_prod_beta inv_intro)

lemma routeOrFinalize_inv [inv_intro]: "cascade_inv st \<Longrightarrow> cascade_inv (routeOrFinalize env ri st)"
proof -
  assume inv: "cascade_inv st"
  then have "cascade_inv (st\<lparr>m_voiceHeldInputs := ri, m_voiceHoldActive := True\<rparr>)" by (simp add: cascade_inv_def)
  with inv show ?thesis by (simp add: routeOrFinalize_def inv_intro)
qed

text \<open>The first element of a non-empty set, in whatever order it is kept, is one of its elements.\<close>

definition env_ok :: "'h env \<Rightarrow> bool" where
  "env_ok env \<longleftrightarrow> (\<forall>xs. xs \<noteq> [] \<longrightarrow> firstOfSet env xs \<in> set xs)"

lemma noteReleased_inv [inv_intro]:
  assumes "env_ok env" and "cascade_inv st"
  shows "cascade_inv (noteReleased env m st)"
proof -
  let ?ids = "List.insert m (m_voiceReleasedMsgIds st)"
  have "length ?ids \<le> Suc (length (m_voiceReleasedMsgIds st))" by (simp add: List.insert_def)
  moreover have "?ids \<noteq> []" by (simp add: List.insert_def) auto
  then have "firstOfSet env ?ids \<in> set ?ids" using assms(1) unfolding env_ok_def by blast
  then have "length (remove1 (firstOfSet env ?ids) ?ids) = length ?ids - 1" by (simp only: length_remove1 if_True)
  ultimately have "length (if length ?ids > 64 then remove1 (firstOfSet env ?ids) ?ids else ?ids) \<le> 64"
    using assms(2) by (auto simp: cascade_inv_def)
  with assms(2) show ?thesis by (simp add: noteReleased_def cascade_inv_def Let_def)
qed

lemma releaseVoiceHold_inv [inv_intro]:
  "env_ok env \<Longrightarrow> cascade_inv st \<Longrightarrow> cascade_inv (releaseVoiceHold env m st)"
proof -
  assume "env_ok env" and inv: "cascade_inv st"
  then have "cascade_inv (st\<lparr>m_voiceHoldActive := False, m_voiceHeldInputs := no_inputs\<rparr>)"
    by (simp add: cascade_inv_def)
  with \<open>env_ok env\<close> inv show ?thesis by (simp add: releaseVoiceHold_def Let_def inv_intro)
qed

lemma setVoiceTurnGate_inv [inv_intro]:
  "env_ok env \<Longrightarrow> cascade_inv st \<Longrightarrow> cascade_inv (setVoiceTurnGate env g st)"
proof -
  assume "env_ok env" and "cascade_inv st"
  moreover from this have "cascade_inv (st\<lparr>m_voiceGate := False\<rparr>)" "cascade_inv (st\<lparr>m_voiceGate := g\<rparr>)"
    by (simp_all add: cascade_inv_def)
  ultimately show ?thesis by (simp add: setVoiceTurnGate_def Let_def inv_intro)
qed

lemma onClassificationFinished_inv [inv_intro]:
  "cascade_inv st \<Longrightarrow> cascade_inv (onClassificationFinished env i answer st)"
proof -
  assume inv: "cascade_inv st"
  let ?r = "resolve (sha256 env) (nowMs env) (wt_pending (m_waiting st ! i)) answer (m_ragpService st)"
  have "cascade_inv (st\<lparr>m_ragpService := snd ?r, m_waiting := w\<rparr>)" for w
    using inv by (simp add: cascade_inv_def resolve_service_inv)
  with inv show ?thesis by (simp add: onClassificationFinished_def Let_def case_prod_beta inv_intro)
qed

text \<open>The operations the conversation's run and the voice service call.\<close>

datatype cascade_op =
    SetCurrentResponder string string
  | EnqueueTarget string
  | EnqueueDeferredTarget string
  | YieldToQueued string
  | ForceComplete inputs
  | ResetTurnState
  | ClearCrossCascade
  | NoteToolFire
  | NoteCorrective
  | RouteOrFinalize inputs
  | ReleaseVoiceHold string
  | SetVoiceTurnGate bool
  | ClassificationFinished nat classification

fun cascade_step :: "'h cascade \<Rightarrow> 'h env \<times> cascade_op \<Rightarrow> 'h cascade" where
  "cascade_step st (env, SetCurrentResponder a b) = setCurrentResponder a b st"
| "cascade_step st (env, EnqueueTarget a) = snd (enqueueTarget a st)"
| "cascade_step st (env, EnqueueDeferredTarget a) = snd (enqueueDeferredTarget a st)"
| "cascade_step st (env, YieldToQueued conv) = snd (yieldToQueuedAfterToolBatch env conv st)"
| "cascade_step st (env, ForceComplete ri) = forceCascadeComplete env ri st"
| "cascade_step st (env, ResetTurnState) = resetTurnState st"
| "cascade_step st (env, ClearCrossCascade) = clearCrossCascadeFingerprints st"
| "cascade_step st (env, NoteToolFire) = noteToolFireThisRound st"
| "cascade_step st (env, NoteCorrective) = noteCorrectiveContinuationThisRound st"
| "cascade_step st (env, RouteOrFinalize ri) = routeOrFinalize env ri st"
| "cascade_step st (env, ReleaseVoiceHold m) = releaseVoiceHold env m st"
| "cascade_step st (env, SetVoiceTurnGate g) = setVoiceTurnGate env g st"
| "cascade_step st (env, ClassificationFinished i answer) = onClassificationFinished env i answer st"

interpretation cascade:
  invariant_machine "\<lambda>st. st = new_cascade" "\<lambda>_ (env, _). env_ok env" cascade_step cascade_inv
proof
  fix st :: "'a cascade" and e :: "'a env \<times> cascade_op"
  obtain env op where e: "e = (env, op)" by fastforce
  assume inv: "cascade_inv st" and "case e of (env, _) \<Rightarrow> env_ok env"
  with e have ok: "env_ok env" by simp
  have plain: "cascade_inv (setCurrentResponder a b st)" "cascade_inv (resetTurnState st)"
    "cascade_inv (clearCrossCascadeFingerprints st)" "cascade_inv (noteToolFireThisRound st)"
    "cascade_inv (noteCorrectiveContinuationThisRound st)" for a b
    using inv by (simp_all add: cascade_inv_def setCurrentResponder_def resetTurnState_def
        clearCrossCascadeFingerprints_def noteToolFireThisRound_def
        noteCorrectiveContinuationThisRound_def cascade_limits)
  show "cascade_inv (cascade_step st e)"
    unfolding e using inv ok plain
    by (cases op) (simp_all add: inv_intro yieldToQueuedAfterToolBatch_def forceCascadeComplete_def)
qed (simp_all add: new_cascade_inv)

section \<open>Handing the turn on\<close>

lemma grows_continueRound:
  assumes "cascade_inv st" and "continueRound env ri a st = (b, st')"
  shows "grows st st' (if b then 1 else 0)"
proof -
  have fresh: "grows st (freshRound st) 0"
    using assms(1) by (intro grows_quiet) (auto simp: freshRound_def turnsUsed_def cascade_inv_def cascade_limits)
  show ?thesis
  proof (cases "isValid (findMember env (ri_convId ri) a)")
    case True
    obtain q st2 where q: "enqueueTarget (mb_alias (findMember env (ri_convId ri) a)) (freshRound st) = (q, st2)"
      by fastforce
    have 2: "grows st st2 0"
      using grows_trans [OF fresh grows_enqueue [of "freshRound st" "mb_alias (findMember env (ri_convId ri) a)"]] q
      by simp
    obtain d st3 where d: "tryDispatchNext env (ri_convId ri) st2 = (d, st3)" by fastforce
    have 3: "grows st st3 (if d then 1 else 0)" using grows_trans [OF 2 grows_dispatch [OF d]] by simp
    have 4: "grows st (emit (RoundContinued (ri_convId ri) r x) st3) (if d then 1 else 0)" for r x
      using grows_trans [OF 3 grows_emit [of "RoundContinued (ri_convId ri) r x" st3]] by simp
    show ?thesis
      using assms(2) True q d 2 3 4 by (cases q; cases d) (auto simp: continueRound_def Let_def)
  next
    case False
    with assms(2) fresh show ?thesis by (simp add: continueRound_def Let_def)
  qed
qed

lemma grows_emitComplete:
  assumes "cascade_inv st"
  shows "grows st (emitCascadeCompleteAndClear env ri st) 1"
proof -
  have pause: "grows st' (clearAndComplete ri True (emit (CascadePausedAtCap c a r) st')) 1" for st' c a r
    using grows_trans [OF grows_emit [of "CascadePausedAtCap c a r" st'] grows_complete] by simp
  obtain b st1 where b: "continueRound env ri (nextWaiting st) st = (b, st1)" by fastforce
  note g = grows_continueRound [OF assms b]
  have "\<not> b \<Longrightarrow> grows st (clearAndComplete ri True (emit (CascadePausedAtCap c a r) st1)) 1" for c a r
    using grows_trans [OF g pause [of st1 c a r]] by simp
  moreover have "b \<Longrightarrow> grows st st1 1" using g by simp
  ultimately show ?thesis
    using pause [of st] grows_complete [of st]
    by (cases b) (auto simp: emitCascadeCompleteAndClear_def Let_def b)
qed

lemma grows_dispatch_or_complete:
  assumes "cascade_inv st" and "tryDispatchNext env conv st = (b, st')"
  shows "grows st (if b then st' else emitCascadeCompleteAndClear env ri st') 1"
proof -
  have "cascade_inv st'" using tryDispatchNext_inv [OF assms(1), of env conv] assms(2) by simp
  from grows_dispatch [OF assms(2)] grows_emitComplete [OF this, of env ri] grows_trans show ?thesis
    by (cases b) fastforce+
qed

end
