(* ===== verification/Cascade_Laws.thy ===== *)
theory Cascade_Laws
  imports Cascade_Props
begin

text \<open>
  The properties of the cascade controller, each a few steps over the laws of
  \<^theory_text>\<open>Cascade_Props\<close>.
\<close>

section \<open>Every reply hands the turn on exactly once\<close>

lemma grows_onClassified:
  assumes "cascade_inv st"
  shows "grows st (onClassified env result ms ri st) 1"
proof -
  define st1 where "st1 = applyClassification result ms (ri_content ri) (ri_convId ri) st"
  obtain b st2 where b: "tryDispatchNext env (ri_convId ri) st1 = (b, st2)" by fastforce
  obtain d st3 where d: "maybeDispatchDelegate env result ms (ri_convId ri) st2 = (d, st3)" by fastforce
  have inv1: "cascade_inv st1" unfolding st1_def by (rule applyClassification_inv [OF assms])
  have inv2: "cascade_inv st2" using tryDispatchNext_inv [OF inv1, of env "ri_convId ri"] b by simp
  have inv3: "cascade_inv st3"
    using maybeDispatchDelegate_inv [OF inv2, of env result ms "ri_convId ri"] d by simp
  have 1: "grows st st1 0" unfolding st1_def by (rule grows_applyClassification)
  have 2: "grows st st2 (if b then 1 else 0)" using grows_trans [OF 1 grows_dispatch [OF b]] by simp
  show ?thesis
  proof (cases b)
    case True
    with 2 grows_trans [OF 2 grows_enqueue [of st2 "m_responderAlias st"]] b show ?thesis
      by (simp add: onClassified_def Let_def st1_def)
  next
    case False
    have 3: "grows st st3 (if d then 1 else 0)"
      using grows_trans [OF 2 grows_delegate [OF d]] False by simp
    let ?e = "DeferredContinuationRequested (ri_convId ri) (m_responderAlias st3)
      (m_responderAgentId st3) (pendingActionHint result)"
    let ?n = "noteUndispatchedTargets result (ri_convId ri) st3"
    have later: "\<not> d \<Longrightarrow> grows st (emit ?e st3) 1"
      using grows_trans [OF 3 grows_emit [of ?e st3]] by simp
    have "\<not> d \<Longrightarrow> grows st ?n 0" using grows_trans [OF 3 grows_note] by simp
    from grows_trans [OF this grows_emitComplete [OF noteUndispatched_inv [OF inv3]]]
    have "\<not> d \<Longrightarrow> grows st (emitCascadeCompleteAndClear env ri ?n) 1" by simp
    with False later 3 b d show ?thesis
      by (cases d) (simp_all add: onClassified_def Let_def st1_def)
  qed
qed

lemma grows_recordTurn: "grows st (recordTurn env ri st) 0"
  by (rule grows_quiet) (simp_all add: recordTurn_def Let_def turnsUsed_def)

lemma grows_acceptReply: "grows st (acceptReply env ri st) 0"
  by (rule grows_quiet) (simp_all add: acceptReply_def Let_def turnsUsed_def)

lemma grows_handleBadReply:
  assumes "cascade_inv st"
  shows "grows st (handleBadReply env ri st) 1"
proof -
  let ?x = "EchoMaxRetriesExhausted (ri_convId ri) (ri_responderMsgId ri) (isEmptyReply ri)"
  let ?st2 = "(emit ?x st)\<lparr>m_memberRetryCount := AList.delete (retryKey st) (m_memberRetryCount st)\<rparr>"
  have 2: "grows st ?st2 0"
    using grows_trans [OF grows_emit [of ?x st] grows_quiet [of ?st2 "emit ?x st"]]
    by (simp add: turnsUsed_def)
  have inv2: "cascade_inv ?st2" using assms by (simp add: cascade_inv_def kMaxEchoRetries_def)
  obtain b st3 where b: "tryDispatchNext env (ri_convId ri) ?st2 = (b, st3)" by fastforce
  have "grows st (if b then st3 else emitCascadeCompleteAndClear env ri st3) 1"
    using grows_trans [OF 2 grows_dispatch_or_complete [OF inv2 b]] by simp
  moreover have "grows st (emit (EchoDetectedRequestRetry c1 c2 c3 c4 c5 c6) st') 1"
    if "m_log st' = m_log st" "turnsUsed st' = turnsUsed st" for st' c1 c2 c3 c4 c5 c6
    using grows_trans [OF grows_quiet [of st' st] grows_emit
        [of "EchoDetectedRequestRetry c1 c2 c3 c4 c5 c6" st']] that by simp
  ultimately show ?thesis
    by (cases b) (auto simp: handleBadReply_def Let_def b turnsUsed_def)
qed

text \<open>A reply is handed to the backend when \<open>m_waiting\<close> grows; nothing else happens then.\<close>

lemma grows_classifyAndRoute:
  assumes "cascade_inv st"
  shows "(grows st (classifyAndRoute env ri st) 1) \<or>
    (grows st (classifyAndRoute env ri st) 0 \<and>
     (\<exists>w. m_waiting (classifyAndRoute env ri st) = m_waiting st @ [w] \<and> wt_inputs w = ri))"
proof -
  obtain out svc where c: "classify (sha256 env) (nowMs env) (endMs env)
      (ragpRequest (conversationMembers env (ri_convId ri)) ri st) (m_ragpService st) = (out, svc)" by fastforce
  let ?st1 = "st\<lparr>m_ragpService := svc\<rparr>"
  have "cascade_inv ?st1"
    using assms classify_service_inv [of "m_ragpService st" "sha256 env" "nowMs env" "endMs env"
        "ragpRequest (conversationMembers env (ri_convId ri)) ri st"] c by (simp add: cascade_inv_def)
  from grows_trans [OF grows_quiet grows_onClassified [OF this]]
  have "grows st (onClassified env r ms ri ?st1) 1" for r ms by (simp add: turnsUsed_def)
  moreover have "grows st (?st1\<lparr>m_waiting := w\<rparr>) 0" for w by (rule grows_quiet) (simp_all add: turnsUsed_def)
  ultimately show ?thesis
    by (cases out) (simp_all add: classifyAndRoute_def c Let_def)
qed

lemma m_waiting_frames [simp]:
  "m_waiting (recordTurn env ri st) = m_waiting st" "m_waiting (acceptReply env ri st) = m_waiting st"
  by (simp_all add: recordTurn_def acceptReply_def Let_def)

lemma grows_routeReply:
  assumes "cascade_inv st"
  shows "(grows st (routeReply env ri st) 1) \<or>
    (grows st (routeReply env ri st) 0 \<and>
     (\<exists>w. m_waiting (routeReply env ri st) = m_waiting st @ [w] \<and> wt_inputs w = ri))"
proof -
  let ?r = "recordTurn env ri st"
  let ?a = "acceptReply env ri ?r"
  have inv: "cascade_inv ?r" "cascade_inv ?a" by (auto intro!: inv_intro assms)
  have a: "grows st ?a 0" using grows_trans [OF grows_recordTurn grows_acceptReply] by simp
  obtain b st2 where b: "tryDispatchNext env (ri_convId ri) ?a = (b, st2)" by fastforce
  have "grows st (if b then st2 else emitCascadeCompleteAndClear env ri st2) 1"
    using grows_trans [OF a grows_dispatch_or_complete [OF inv(2) b]] by simp
  moreover have "grows st (handleBadReply env ri ?r) 1"
    using grows_trans [OF grows_recordTurn grows_handleBadReply [OF inv(1)]] by simp
  moreover have "(grows st (classifyAndRoute env ri ?a) 1) \<or> (grows st (classifyAndRoute env ri ?a) 0 \<and>
      (\<exists>w. m_waiting (classifyAndRoute env ri ?a) = m_waiting st @ [w] \<and> wt_inputs w = ri))"
    using grows_classifyAndRoute [OF inv(2), of env ri] grows_trans [OF a] by fastforce
  ultimately show ?thesis
    unfolding routeReply_def Let_def b case_prod_conv by (simp split del: if_split) (simp split: if_split)
qed

lemma grows_routeOrFinalize:
  assumes "cascade_inv st"
  shows "(holdsForVoice env ri st \<and> grows st (routeOrFinalize env ri st) 0) \<or>
    grows st (routeOrFinalize env ri st) 1 \<or>
    (grows st (routeOrFinalize env ri st) 0 \<and>
     (\<exists>w. m_waiting (routeOrFinalize env ri st) = m_waiting st @ [w] \<and> wt_inputs w = ri))"
proof (cases "holdsForVoice env ri st")
  case True
  then have "grows st (routeOrFinalize env ri st) 0"
    by (intro grows_quiet) (simp_all add: routeOrFinalize_def turnsUsed_def)
  with True show ?thesis by blast
next
  case False
  with grows_routeReply [OF assms, of env ri] show ?thesis by (simp add: routeOrFinalize_def)
qed

lemma grows_onClassificationFinished:
  assumes "cascade_inv st"
  shows "grows st (onClassificationFinished env i answer st) (if i < length (m_waiting st) then 1 else 0)"
proof (cases "i < length (m_waiting st)")
  case True
  let ?r = "resolve (sha256 env) (nowMs env) (wt_pending (m_waiting st ! i)) answer (m_ragpService st)"
  let ?st = "st\<lparr>m_ragpService := snd ?r, m_waiting := take i (m_waiting st) @ drop (Suc i) (m_waiting st)\<rparr>"
  have "cascade_inv ?st" using assms by (simp add: cascade_inv_def resolve_service_inv)
  from grows_trans [OF grows_quiet grows_onClassified [OF this]]
  have "grows st (onClassified env (fst ?r) ms ri ?st) 1" for ms ri by (simp add: turnsUsed_def)
  with True show ?thesis by (simp add: onClassificationFinished_def Let_def case_prod_beta)
qed (simp add: onClassificationFinished_def)

abbreviation reachable_cascade :: "'h cascade \<Rightarrow> bool" where
  "reachable_cascade st \<equiv> (\<exists>ops. admitted (\<lambda>_ (env, _). env_ok env) cascade_step new_cascade ops \<and>
     st = foldl cascade_step new_cascade ops)"

lemma reachable_cascade_inv: "reachable_cascade st \<Longrightarrow> cascade_inv st"
  using cascade.reachable_inv [of new_cascade] by blast

text \<open>
  C1. No reply stalls the conversation and none forks it. In every reachable state a finished
  reply is either held for a voice call, or goes to the classifier's backend as one entry of the
  waiting list, or emits exactly one of the signals that hand the turn on: the next member
  starts, the same member retries, a follow-up turn is requested, or the cascade is complete; and
  when a waiting classification comes back, exactly one of these signals is emitted then.
\<close>

theorem reply_hands_turn_on_once:
  assumes "reachable_cascade st"
  shows "((holdsForVoice env ri st \<and> m_log (routeOrFinalize env ri st) = m_log st) \<or>
    (\<exists>es. m_log (routeOrFinalize env ri st) = m_log st @ es \<and> count ownsTurn es = 1) \<or>
    (\<exists>es w. m_log (routeOrFinalize env ri st) = m_log st @ es \<and> count ownsTurn es = 0 \<and>
       m_waiting (routeOrFinalize env ri st) = m_waiting st @ [w] \<and> wt_inputs w = ri)) \<and>
    (\<exists>es. m_log (onClassificationFinished env i answer st) = m_log st @ es \<and>
       count ownsTurn es = (if i < length (m_waiting st) then 1 else 0))"
proof (intro conjI)
  have inv: "cascade_inv st" by (rule reachable_cascade_inv [OF assms])
  have "holdsForVoice env ri st \<Longrightarrow> m_log (routeOrFinalize env ri st) = m_log st"
    by (simp add: routeOrFinalize_def)
  with grows_routeOrFinalize [OF inv, of env ri]
  show "(holdsForVoice env ri st \<and> m_log (routeOrFinalize env ri st) = m_log st) \<or>
    (\<exists>es. m_log (routeOrFinalize env ri st) = m_log st @ es \<and> count ownsTurn es = 1) \<or>
    (\<exists>es w. m_log (routeOrFinalize env ri st) = m_log st @ es \<and> count ownsTurn es = 0 \<and>
       m_waiting (routeOrFinalize env ri st) = m_waiting st @ [w] \<and> wt_inputs w = ri)"
    unfolding grows_def by blast
  from grows_onClassificationFinished [OF inv, of env i answer]
  show "\<exists>es. m_log (onClassificationFinished env i answer st) = m_log st @ es \<and>
       count ownsTurn es = (if i < length (m_waiting st) then 1 else 0)"
    unfolding grows_def by blast
qed

lemma reachable_new: "reachable_cascade new_cascade"
  by (rule exI [of _ "[]"]) simp

lemma reachable_step:
  assumes "reachable_cascade st" and "env_ok (fst e)"
  shows "reachable_cascade (cascade_step st e)"
proof -
  from assms(1) obtain ops where ops: "admitted (\<lambda>_ (env, _). env_ok env) cascade_step new_cascade ops"
      "st = foldl cascade_step new_cascade ops" by blast
  have "admitted ok step s (xs @ [x]) \<longleftrightarrow> admitted ok step s xs \<and> ok (foldl step s xs) x"
    for ok :: "'a cascade \<Rightarrow> 'a env \<times> cascade_op \<Rightarrow> bool" and step s xs x
    by (induction xs arbitrary: s) auto
  with ops assms(2) show ?thesis by (intro exI [of _ "ops @ [e]"]) (simp add: case_prod_beta)
qed

text \<open>A group of three in one conversation, for concrete runs.\<close>

definition demo_member :: "string \<Rightarrow> member" where
  "demo_member a = \<lparr>mb_containerId = ''c'', mb_agentId = ''agent-'' @ a, mb_alias = a, mb_isCoordinator = False\<rparr>"

definition demo_env :: "string env" where
  "demo_env = \<lparr>getConversation = (\<lambda>_. Some \<lparr>cv_isGroup = True, cv_maxAutoRounds = 6\<rparr>), hasMembership = True,
     conversationMembers = (\<lambda>_. map demo_member [''Ann'', ''Bob'', ''Cy'']), shouldHoldTurn = (\<lambda>_ m. m \<noteq> []),
     firstOfSet = last, sha256 = (\<lambda>b. b), nowMs = 0, endMs = 0\<rparr>"

definition demo_reply :: "string \<Rightarrow> inputs" where
  "demo_reply text = no_inputs\<lparr>ri_convId := ''c'', ri_content := text, ri_responderMsgId := ''m1''\<rparr>"

lemma demo_env_ok: "env_ok demo_env"
  by (simp add: env_ok_def demo_env_def)

theorem reply_hands_turn_on_once_witness:
  "m_log (routeOrFinalize demo_env (demo_reply ''all done now'') (new_cascade :: string cascade)) =
     [CascadeComplete [] [] 0 0 0 False] \<and>
   (\<exists>es. m_log (routeOrFinalize demo_env (demo_reply ''all done now'') (new_cascade :: string cascade)) =
     m_log (new_cascade :: string cascade) @ es \<and> count ownsTurn es = 1)"
proof -
  have log: "m_log (routeOrFinalize demo_env (demo_reply ''all done now'') (new_cascade :: string cascade)) =
     [CascadeComplete [] [] 0 0 0 False]" by code_simp
  with reply_hands_turn_on_once [OF reachable_new, of demo_env "demo_reply ''all done now''"]
  show ?thesis by (auto simp: new_cascade_def holdsForVoice_def)
qed

section \<open>Bounds\<close>

text \<open>
  C26. In every reachable state the counters and windows are within their limits: at most ten
  turns in a round, fifty rounds, three retries of one member, ten fingerprints of this cascade
  and twenty of earlier ones, 64 released voice messages; no count is negative, neither queue
  holds an alias twice or an empty alias, and no cached classification carries a verdict. The turns of one
  member are not among the bounded counters: see \<open>member_speaks_four_times\<close>.
\<close>

theorem cascade_reachable_bounds:
  assumes "admitted (\<lambda>_ (env, _). env_ok env) cascade_step new_cascade ops"
  shows "cascade_inv (foldl cascade_step new_cascade ops)"
  by (rule cascade.reachable_inv [OF refl assms])

theorem cascade_reachable_bounds_witness:
  "cascade_inv (foldl cascade_step new_cascade
     [(demo_env, EnqueueTarget ''Ann''), (demo_env, EnqueueTarget ''Ann''), (demo_env, YieldToQueued ''c'')]) \<and>
   m_iterations (foldl cascade_step (new_cascade :: string cascade)
     [(demo_env, EnqueueTarget ''Ann''), (demo_env, EnqueueTarget ''Ann''), (demo_env, YieldToQueued ''c'')]) = 1"
proof
  show "cascade_inv (foldl cascade_step new_cascade
     [(demo_env, EnqueueTarget ''Ann''), (demo_env, EnqueueTarget ''Ann''), (demo_env, YieldToQueued ''c'')])"
    by (rule cascade_reachable_bounds) (simp add: demo_env_ok)
  show "m_iterations (foldl cascade_step (new_cascade :: string cascade)
     [(demo_env, EnqueueTarget ''Ann''), (demo_env, EnqueueTarget ''Ann''), (demo_env, YieldToQueued ''c'')]) = 1"
    by code_simp
qed

lemma turnsUsed_bound:
  assumes "cascade_inv st"
  shows "0 \<le> turnsUsed st \<and> turnsUsed st \<le> kAutoRoundsHardCeiling * kMaxAgentCascade"
  using assms by (auto simp: turnsUsed_def cascade_inv_def cascade_limits)

lemma grows_releaseVoiceHold:
  assumes "env_ok env" and "cascade_inv st"
  shows "\<exists>n. grows st (releaseVoiceHold env m st) n"
proof -
  let ?st1 = "st\<lparr>m_voiceHoldActive := False, m_voiceHeldInputs := no_inputs\<rparr>"
  let ?st2 = "noteReleased env (ri_responderMsgId (m_voiceHeldInputs st)) ?st1"
  have "cascade_inv ?st1" using assms(2) by (simp add: cascade_inv_def)
  then have inv2: "cascade_inv ?st2" by (intro noteReleased_inv assms(1))
  have "grows st ?st2 0" by (rule grows_quiet) (simp_all add: noteReleased_def turnsUsed_def Let_def)
  with grows_routeOrFinalize [OF inv2, of env "m_voiceHeldInputs st"]
  have "\<exists>n. grows st (routeOrFinalize env (m_voiceHeldInputs st) ?st2) n" using grows_trans by blast
  moreover have "\<exists>n. grows st st n" using grows_refl by blast
  ultimately show ?thesis by (simp add: releaseVoiceHold_def Let_def)
qed

lemma step_grows:
  assumes "env_ok env" and "cascade_inv st" and "op \<noteq> ResetTurnState"
  shows "\<exists>n. grows st (cascade_step st (env, op)) n"
proof (cases op)
  case (YieldToQueued conv)
  have "grows st (snd (tryDispatchNext env conv st)) (if fst (tryDispatchNext env conv st) then 1 else 0)"
    by (rule grows_dispatch) simp
  with YieldToQueued show ?thesis by (auto simp: yieldToQueuedAfterToolBatch_def)
next
  case (RouteOrFinalize ri)
  with grows_routeOrFinalize [OF assms(2), of env ri] show ?thesis by auto
next
  case (ReleaseVoiceHold m)
  with grows_releaseVoiceHold [OF assms(1,2)] show ?thesis by simp
next
  case (SetVoiceTurnGate g)
  have "grows st (st\<lparr>m_voiceGate := g'\<rparr>) 0" for g' by (rule grows_quiet) (simp_all add: turnsUsed_def)
  moreover have "cascade_inv (st\<lparr>m_voiceGate := g'\<rparr>)" for g' using assms(2) by (simp add: cascade_inv_def)
  ultimately have "\<exists>n. grows st (releaseVoiceHold env m (st\<lparr>m_voiceGate := g'\<rparr>)) n" for m g'
    using grows_releaseVoiceHold [OF assms(1)] grows_trans by blast
  with SetVoiceTurnGate \<open>\<And>g'. grows st (st\<lparr>m_voiceGate := g'\<rparr>) 0\<close> show ?thesis
    by (auto simp: setVoiceTurnGate_def Let_def)
next
  case (ForceComplete ri)
  with grows_emitComplete [OF assms(2), of env ri] show ?thesis by (auto simp: forceCascadeComplete_def)
next
  case (ClassificationFinished i answer)
  with grows_onClassificationFinished [OF assms(2)] show ?thesis by auto
next
  case (EnqueueTarget a)
  with grows_enqueue [of st a] show ?thesis by auto
next
  case (EnqueueDeferredTarget a)
  with grows_enqueueDeferred [of st a] show ?thesis by auto
qed (use assms(3) in \<open>auto intro!: exI [of _ 0] grows_quiet simp: turnsUsed_def setCurrentResponder_def
    clearCrossCascadeFingerprints_def noteToolFireThisRound_def noteCorrectiveContinuationThisRound_def\<close>)

lemma run_grows:
  assumes "cascade_inv st" and "\<forall>(env, op) \<in> set ops. env_ok env \<and> op \<noteq> ResetTurnState"
  shows "cascade_inv (foldl cascade_step st ops) \<and> (\<exists>n. grows st (foldl cascade_step st ops) n)"
  using assms
proof (induction ops arbitrary: st)
  case Nil
  have "grows st (foldl cascade_step st []) 0" by simp
  with Nil.prems(1) show ?case by (intro conjI exI [of _ 0]) simp_all
next
  case (Cons e ops)
  obtain env op where e: "e = (env, op)" by fastforce
  with Cons.prems have ok: "env_ok env" "op \<noteq> ResetTurnState" by auto
  have inv: "cascade_inv (cascade_step st e)"
    by (rule cascade.step_inv) (use Cons.prems(1) ok e in auto)
  from step_grows [OF ok(1) Cons.prems(1) ok(2)] obtain n where n: "grows st (cascade_step st e) n"
    using e by auto
  from Cons.IH [OF inv] Cons.prems(2) obtain k where
    "cascade_inv (foldl cascade_step (cascade_step st e) ops)"
    "grows (cascade_step st e) (foldl cascade_step (cascade_step st e) ops) k" by auto
  with grows_trans [OF n] show ?case by auto
qed

text \<open>
  C4. A user message cannot run away. From any reachable state, whatever replies, mentions, tool
  calls and backend answers follow, as long as the turn state is not reset (the run resets it for each new
  user message) and the controller has not announced completion it starts at most 500 turns: ten per
  round, fifty rounds.
\<close>

theorem turns_between_completions_bounded:
  assumes "reachable_cascade st"
    and "\<forall>(env, op) \<in> set ops. env_ok env \<and> op \<noteq> ResetTurnState"
    and "m_log (foldl cascade_step st ops) = m_log st @ es"
    and "\<not> list_ex isComplete es"
  shows "count isStart es \<le> 500"
proof -
  have inv: "cascade_inv st" by (rule reachable_cascade_inv [OF assms(1)])
  from run_grows [OF inv assms(2)] obtain n where
    inv': "cascade_inv (foldl cascade_step st ops)" and g: "grows st (foldl cascade_step st ops) n" by blast
  from g assms(3,4) have "turnsUsed st + int (count isStart es) \<le> turnsUsed (foldl cascade_step st ops)"
    by (auto simp: grows_def)
  with turnsUsed_bound [OF inv] turnsUsed_bound [OF inv'] show ?thesis
    by (simp add: cascade_limits)
qed

theorem turns_between_completions_bounded_witness:
  "count isStart [MemberTurnStarted ''Ann'' ''agent-Ann''] \<le> 500 \<and>
   m_log (foldl cascade_step (new_cascade :: string cascade)
     [(demo_env, EnqueueTarget ''Ann''), (demo_env, YieldToQueued ''c'')]) =
     m_log (new_cascade :: string cascade) @ [MemberTurnStarted ''Ann'' ''agent-Ann'']"
proof -
  have log: "m_log (foldl cascade_step (new_cascade :: string cascade)
     [(demo_env, EnqueueTarget ''Ann''), (demo_env, YieldToQueued ''c'')]) =
     m_log (new_cascade :: string cascade) @ [MemberTurnStarted ''Ann'' ''agent-Ann'']" by code_simp
  with turns_between_completions_bounded [OF reachable_new _ log] show ?thesis
    by (simp add: demo_env_ok)
qed

end
