(* ===== verification/Cascade_Replies.thy ===== *)
theory Cascade_Replies
  imports Cascade_Laws
begin

text \<open>
  What happens to one reply: who is served next, how bad replies are retried, when a reply counts
  as an echo, who a classification may queue, how a round ends and how a voice hold is released.
\<close>

section \<open>Who is served next\<close>

text \<open>
  C18. The two queues act as one: a dispatch serves the first alias of the immediate queue followed
  by the deferred one that still names a member, drops the aliases before it and leaves the rest
  in order; with nobody left it empties both queues; outside a group chat and after ten turns of
  a round it does nothing.
\<close>

theorem dispatch_serves_first_valid:
  "let st' = snd (tryDispatchNext env conv st) in
   if isGroupChat env conv \<and> m_iterations st < kMaxAgentCascade then
     (case dropWhile (\<lambda>a. \<not> isValid (findMember env conv a)) (m_queue st @ m_deferredQueue st) of
        [] \<Rightarrow> \<not> fst (tryDispatchNext env conv st) \<and> isQueueEmpty st' \<and> m_log st' = m_log st
      | a # rest \<Rightarrow> fst (tryDispatchNext env conv st) \<and> m_queue st' @ m_deferredQueue st' = rest \<and>
          m_responderAlias st' = mb_alias (findMember env conv a) \<and>
          m_iterations st' = m_iterations st + 1 \<and>
          m_log st' = m_log st @ [MemberTurnStarted (mb_alias (findMember env conv a))
                                    (mb_agentId (findMember env conv a))])
   else tryDispatchNext env conv st = (False, st)"
proof (cases rule: dispatch_cases [where env = env and conv = conv and st = st])
  case (no q d)
  show ?thesis
  proof (cases "isGroupChat env conv \<and> m_iterations st < kMaxAgentCascade")
    case True
    with no(4) have e: "dropWhile (\<lambda>a. \<not> isValid (findMember env conv a)) (m_queue st @ m_deferredQueue st) = []"
      "q = []" "d = []" by auto
    show ?thesis unfolding Let_def e(1) no(1) using True e(2,3) by (simp add: isQueueEmpty_def)
  next
    case False
    with no(1,5) show ?thesis unfolding Let_def if_not_P [OF False] by simp
  qed
next
  case (yes a q d)
  then have "isGroupChat env conv \<and> m_iterations st < kMaxAgentCascade" by simp
  then show ?thesis unfolding Let_def yes(3) yes(8) by simp
qed

section \<open>Retries\<close>

lemma recordTurn_fields [simp]:
  "m_responderAlias (recordTurn env ri st) = m_responderAlias st"
  "m_responderAgentId (recordTurn env ri st) = m_responderAgentId st"
  "m_memberRetryCount (recordTurn env ri st) = m_memberRetryCount st"
  "m_log (recordTurn env ri st) = m_log st" "m_queue (recordTurn env ri st) = m_queue st"
  "m_deferredQueue (recordTurn env ri st) = m_deferredQueue st"
  "m_iterations (recordTurn env ri st) = m_iterations st"
  "m_recentContentFingerprints (recordTurn env ri st) = m_recentContentFingerprints st"
  "m_priorCascadeFingerprints (recordTurn env ri st) = m_priorCascadeFingerprints st"
  "m_round (recordTurn env ri st) = m_round st"
  by (simp_all add: recordTurn_def Let_def)

lemma recordTurn_reads [simp]:
  "isSaturated env ri (recordTurn env ri' st) = isSaturated env ri st"
  "needsRetryOrExhaust env ri (recordTurn env ri' st) = needsRetryOrExhaust env ri st"
  "retryKey (recordTurn env ri' st) = retryKey st"
  "retryReason env ri (recordTurn env ri' st) = retryReason env ri st"
  by (simp_all add: isSaturated_def isCascadeSaturated_def needsRetryOrExhaust_def retryKey_def retryReason_def)

lemma recordTurn_turns:
  assumes "isGroupChat env (ri_convId ri)" and "m_responderAlias st \<noteq> []"
  shows "memberTurnCount a (recordTurn env ri st) =
    memberTurnCount a st + (if eqCI a (m_responderAlias st) then 1 else 0)"
  using assms by (auto simp: recordTurn_def memberTurnCount_def Let_def eqCI_def)

text \<open>
  A bad reply (empty, an echo, or written in a teammate's voice) costs its author no turn:
  while fewer than three retries are used it only asks for a retry, numbered one higher, and every
  member's turn count, the queues, the round and its iteration stay as they were before the reply.
  After three retries the failure is announced first and the turn is handed on without another retry.
\<close>

theorem bad_reply_retried_or_passed_on:
  assumes inv: "cascade_inv st" and group: "isGroupChat env (ri_convId ri)"
    and resp: "m_responderAlias st \<noteq> []" and bad: "needsRetryOrExhaust env ri st"
    and voice: "\<not> holdsForVoice env ri st"
  defines "n \<equiv> valueOr (m_memberRetryCount st) (toLower (m_responderAlias st)) 0"
    and "st' \<equiv> routeOrFinalize env ri st"
  shows "if n < kMaxEchoRetries
    then m_log st' = m_log st @ [EchoDetectedRequestRetry (ri_convId ri) (ri_responderMsgId ri)
           (m_responderAlias st) (m_responderAgentId st) (n + 1) (retryReason env ri st)] \<and>
         (\<forall>a. memberTurnCount a st' = memberTurnCount a st) \<and>
         valueOr (m_memberRetryCount st') (toLower (m_responderAlias st)) 0 = n + 1 \<and>
         m_queue st' = m_queue st \<and> m_deferredQueue st' = m_deferredQueue st \<and>
         m_iterations st' = m_iterations st \<and> m_round st' = m_round st
    else \<exists>es. m_log st' = m_log st @ EchoMaxRetriesExhausted (ri_convId ri) (ri_responderMsgId ri)
           (isEmptyReply ri) # es \<and> count ownsTurn es = 1"
proof -
  let ?r = "recordTurn env ri st"
  have key: "retryKey st = toLower (m_responderAlias st)" using resp by (simp add: retryKey_def)
  have st': "st' = handleBadReply env ri ?r"
    using bad voice by (simp add: st'_def routeOrFinalize_def routeReply_def Let_def)
  have turn: "valueOr (m_memberTurns ?r) (toLower (m_responderAlias st)) 0 =
      valueOr (m_memberTurns st) (toLower (m_responderAlias st)) 0 + 1"
    using recordTurn_turns [OF group resp, of "m_responderAlias st"] by (simp add: memberTurnCount_def)
  have pos: "0 \<le> valueOr (m_memberTurns st) (toLower (m_responderAlias st)) 0"
    using inv by (simp add: cascade_inv_def)
  show ?thesis
  proof (cases "n < kMaxEchoRetries")
    case True
    have "memberTurnCount a st' = memberTurnCount a st" for a
      using True turn pos resp recordTurn_turns [OF group resp, of a]
      unfolding st' handleBadReply_def Let_def
      by (auto simp: n_def key memberTurnCount_def eqCI_def)
    with True turn pos resp show ?thesis
      unfolding st' handleBadReply_def Let_def by (auto simp: n_def key)
  next
    case False
    let ?x = "EchoMaxRetriesExhausted (ri_convId ri) (ri_responderMsgId ri) (isEmptyReply ri)"
    let ?st2 = "(emit ?x ?r)\<lparr>m_memberRetryCount := AList.delete (retryKey st) (m_memberRetryCount st)\<rparr>"
    have inv2: "cascade_inv ?st2" using recordTurn_inv [OF inv, of env ri] by (simp add: cascade_inv_def kMaxEchoRetries_def)
    obtain b st3 where b: "tryDispatchNext env (ri_convId ri) ?st2 = (b, st3)" by fastforce
    have "st' = (if b then st3 else emitCascadeCompleteAndClear env ri st3)"
      using False b unfolding st' handleBadReply_def Let_def
      by (simp add: n_def key [unfolded retryKey_def] retryKey_def resp)
    with grows_dispatch_or_complete [OF inv2 b, of ri]
    obtain es where "m_log st' = m_log ?st2 @ es" "count ownsTurn es = 1" unfolding grows_def by auto
    with False show ?thesis by auto
  qed
qed

theorem bad_reply_retried_or_passed_on_witness:
  "m_log (routeOrFinalize demo_env (demo_reply ''  '') (setCurrentResponder ''Bob'' ''agent-Bob'' (new_cascade :: string cascade))) =
     [EchoDetectedRequestRetry ''c'' ''m1'' ''Bob'' ''agent-Bob'' 1 ''empty'']"
proof -
  let ?st = "setCurrentResponder ''Bob'' ''agent-Bob'' (new_cascade :: string cascade)"
  have "cascade_inv ?st" using new_cascade_inv by (simp add: cascade_inv_def setCurrentResponder_def)
  moreover have "isGroupChat demo_env (ri_convId (demo_reply ''  ''))" by code_simp
  moreover have "needsRetryOrExhaust demo_env (demo_reply ''  '') ?st" by code_simp
  moreover have "\<not> holdsForVoice demo_env (demo_reply ''  '') ?st" by code_simp
  moreover have "retryReason demo_env (demo_reply ''  '') ?st = ''empty''" by code_simp
  ultimately show ?thesis
    using bad_reply_retried_or_passed_on [of ?st demo_env "demo_reply ''  ''"]
    by (simp add: setCurrentResponder_def new_cascade_def kMaxEchoRetries_def demo_reply_def)
qed

section \<open>Echoes\<close>

lemma distinct_fingerprint [simp]: "distinct (contentFingerprint c)"
  by (simp add: contentFingerprint_def Let_def)

text \<open>The list computation is the ratio of the sizes of the intersection and the union.\<close>

text \<open>
  The similarity of two replies is the Jaccard ratio of their sets of long words: zero when
  either is empty, otherwise the size of the intersection over the size of the union.
\<close>

theorem jaccard_is_set_ratio:
  "jaccardSimilarity (contentFingerprint a) (contentFingerprint b) =
     (let A = set (contentFingerprint a); B = set (contentFingerprint b) in
      if A = {} \<or> B = {} then 0 else real (card (A \<inter> B)) / real (card (A \<union> B)))"
proof -
  let ?a = "contentFingerprint a" and ?b = "contentFingerprint b"
  let ?n = "length (filter (\<lambda>w. w \<in> set ?b) ?a)"
  have n: "?n = card (set ?a \<inter> set ?b)"
    using distinct_card [of "filter (\<lambda>w. w \<in> set ?b) ?a"] by (simp add: Int_def)
  have "card (set ?a) + card (set ?b) = card (set ?a \<union> set ?b) + card (set ?a \<inter> set ?b)"
    by (rule card_Un_Int) simp_all
  then have "length ?a + length ?b = card (set ?a \<union> set ?b) + ?n"
    by (simp add: n distinct_card)
  then have "real (length ?a) + real (length ?b) - real ?n = real (card (set ?a \<union> set ?b))"
    by linarith
  then show ?thesis by (simp add: jaccardSimilarity_def Let_def n del: set_filter)
qed

lemma jaccard_same_words:
  assumes "set (contentFingerprint a) = set (contentFingerprint b)" and "contentFingerprint a \<noteq> []"
  shows "jaccardSimilarity (contentFingerprint a) (contentFingerprint b) = 1"
proof -
  have "card (set (contentFingerprint b)) \<noteq> 0" using assms by (metis card_0_eq List.finite_set set_empty)
  with assms show ?thesis unfolding jaccard_is_set_ratio Let_def assms(1) by simp
qed

text \<open>
  An echo is caught: in a group chat a reply with the same long words as a reply accepted in
  this cascade (among its last ten) or kept from earlier ones, in any order and with other
  mentions, blanks and punctuation, is not accepted; with retries left its author is asked again.
\<close>

theorem echo_is_retried:
  assumes group: "isGroupChat env (ri_convId ri)"
    and resp: "m_responderAlias st \<noteq> []" and voice: "\<not> holdsForVoice env ri st"
    and own: "ri_impersonatedAlias ri = []" and full: "\<not> isEmptyReply ri"
    and words: "contentFingerprint (ri_content ri) \<noteq> []"
    and seen: "contentFingerprint old \<in> set (m_recentContentFingerprints st) \<union> set (m_priorCascadeFingerprints st)"
    and same: "set (contentFingerprint (ri_content ri)) = set (contentFingerprint old)"
    and left': "valueOr (m_memberRetryCount st) (toLower (m_responderAlias st)) 0 = n" "n < kMaxEchoRetries"
  shows "m_log (routeOrFinalize env ri st) = m_log st @
    [EchoDetectedRequestRetry (ri_convId ri) (ri_responderMsgId ri) (m_responderAlias st)
       (m_responderAgentId st) (n + 1) ''echo'']"
proof -
  have "jaccardSimilarity (contentFingerprint (ri_content ri)) (contentFingerprint old) \<ge> kCascadeNoveltyThreshold"
    using jaccard_same_words [OF same words] by (simp add: kCascadeNoveltyThreshold_def)
  with seen have "isCascadeSaturated (contentFingerprint (ri_content ri)) st"
    unfolding isCascadeSaturated_def list_ex_iff by blast
  then have sat: "isSaturated env ri st" using group full by (simp add: isSaturated_def currentFp_def)
  then have bad: "needsRetryOrExhaust env ri st" by (simp add: needsRetryOrExhaust_def)
  have "retryReason env ri st = ''echo''"
    using sat own by (simp add: retryReason_def isImpersonation_def)
  have key: "retryKey st = toLower (m_responderAlias st)" using resp by (simp add: retryKey_def)
  have "routeOrFinalize env ri st = handleBadReply env ri (recordTurn env ri st)"
    using bad voice by (simp add: routeOrFinalize_def routeReply_def Let_def)
  then show ?thesis
    using \<open>retryReason env ri st = ''echo''\<close> left' key by (simp add: handleBadReply_def Let_def)
qed

theorem echo_is_retried_witness:
  "m_log (routeOrFinalize demo_env (demo_reply ''@Ann: Build passes, tests green!'')
     ((setCurrentResponder ''Bob'' ''agent-Bob'' (new_cascade :: string cascade))
        \<lparr>m_recentContentFingerprints := [contentFingerprint ''tests GREEN (build passes)'']\<rparr>)) =
     [EchoDetectedRequestRetry ''c'' ''m1'' ''Bob'' ''agent-Bob'' 1 ''echo'']"
proof -
  let ?st = "(setCurrentResponder ''Bob'' ''agent-Bob'' (new_cascade :: string cascade))
        \<lparr>m_recentContentFingerprints := [contentFingerprint ''tests GREEN (build passes)'']\<rparr>"
  let ?ri = "demo_reply ''@Ann: Build passes, tests green!''"
  have "isGroupChat demo_env (ri_convId ?ri)" by code_simp
  moreover have "\<not> holdsForVoice demo_env ?ri ?st" by code_simp
  moreover have "\<not> isEmptyReply ?ri" by code_simp
  moreover have "contentFingerprint (ri_content ?ri) \<noteq> []" by code_simp
  moreover have "set (contentFingerprint (ri_content ?ri)) = set (contentFingerprint ''tests GREEN (build passes)'')"
    by code_simp
  moreover have "valueOr (m_memberRetryCount ?st) (toLower (m_responderAlias ?st)) 0 = 0" by code_simp
  ultimately show ?thesis
    using echo_is_retried [of demo_env ?ri ?st "''tests GREEN (build passes)''" 0]
    by (simp add: setCurrentResponder_def new_cascade_def kMaxEchoRetries_def demo_reply_def no_inputs_def)
qed

section \<open>Who a classification may queue\<close>

definition routes :: "classification \<Rightarrow> member list \<Rightarrow> string \<Rightarrow> bool" where
  "routes result ms a \<longleftrightarrow> (\<exists>t \<in> set (targets result). \<exists>m.
     (llmFailedFallback result \<or> shouldCascade (tg_intent t)) \<and>
     findMemberByAliasIn ms (tg_alias t) = Some m \<and> mb_alias m = a)"

lemma applyTarget_queue:
  obtains "applyTarget fb ms st t = st"
  | a where "applyTarget fb ms st t = st\<lparr>m_capRefusedAlias := a\<rparr>"
  | m where "applyTarget fb ms st t = st\<lparr>m_queue := m_queue st @ [mb_alias m]\<rparr>"
      and "fb \<or> shouldCascade (tg_intent t)" and "findMemberByAliasIn ms (tg_alias t) = Some m"
      and "\<not> eqCI (mb_alias m) (m_responderAlias st)"
      and "memberTurnCount (mb_alias m) st < kMaxTurnsPerMember"
proof -
  have "applyTarget fb ms st t = st \<or> (\<exists>m. findMemberByAliasIn ms (tg_alias t) = Some m \<and>
      (fb \<or> shouldCascade (tg_intent t)) \<and> applyTarget fb ms st t = snd (enqueueTarget (mb_alias m) st))"
    by (simp add: applyTarget_def split: option.split)
  then consider "applyTarget fb ms st t = st"
    | m where "findMemberByAliasIn ms (tg_alias t) = Some m" and "fb \<or> shouldCascade (tg_intent t)"
        and "applyTarget fb ms st t = snd (enqueueTarget (mb_alias m) st)"
    by blast
  then show ?thesis
  proof cases
    case 1
    then show ?thesis by (rule that(1))
  next
    case (2 m)
    show ?thesis
      by (cases rule: enqueueTarget_cases [of "mb_alias m" st])
        (use 2 that in \<open>auto simp: memberTurnCount_def\<close>)
  qed
qed

lemma applyTargets_queue:
  assumes "set ts \<subseteq> set (targets result)"
  shows "\<exists>new. m_queue (foldl (applyTarget (llmFailedFallback result) ms) st ts) = m_queue st @ new \<and>
    m_deferredQueue (foldl (applyTarget (llmFailedFallback result) ms) st ts) = m_deferredQueue st \<and>
    (\<forall>a \<in> set new. routes result ms a \<and> \<not> eqCI a (m_responderAlias st) \<and>
       memberTurnCount a st < kMaxTurnsPerMember)"
  using assms
proof (induction ts arbitrary: st)
  case (Cons t ts)
  let ?st' = "applyTarget (llmFailedFallback result) ms st t"
  from Cons.IH [of ?st'] Cons.prems obtain new where new:
    "m_queue (foldl (applyTarget (llmFailedFallback result) ms) ?st' ts) = m_queue ?st' @ new"
    "m_deferredQueue (foldl (applyTarget (llmFailedFallback result) ms) ?st' ts) = m_deferredQueue ?st'"
    "\<forall>a \<in> set new. routes result ms a \<and> \<not> eqCI a (m_responderAlias ?st') \<and>
       memberTurnCount a ?st' < kMaxTurnsPerMember" by auto
  show ?case
  proof (cases rule: applyTarget_queue [of "llmFailedFallback result" ms st t])
    case 1
    with new show ?thesis by auto
  next
    case (2 a)
    with new show ?thesis by (auto simp: memberTurnCount_def)
  next
    case (3 m)
    have "t \<in> set (targets result)" using Cons.prems by simp
    with 3 have "routes result ms (mb_alias m)" unfolding routes_def by blast
    with 3 new show ?thesis by (intro exI [of _ "mb_alias m # new"]) (auto simp: memberTurnCount_def)
  qed
qed (auto intro: exI [of _ "[]"])

text \<open>
  C8. Routing policy: acting on a classification only ever appends to the immediate queue, and
  only aliases of members of the conversation that a target with a routing intent (or any target,
  when the model failed and the rules stand in) resolves to, other than the speaker, with fewer
  than three turns. Below confidence one half nothing is queued unless the rules stand in.
\<close>

theorem classification_routing_policy:
  "let st' = applyClassification result ms content conv st in
   (\<exists>new. m_queue st' = m_queue st @ new \<and> m_deferredQueue st' = m_deferredQueue st \<and>
     (\<forall>a \<in> set new. routes result ms a \<and> a \<in> mb_alias ` set ms \<and> \<not> eqCI a (m_responderAlias st) \<and>
        memberTurnCount a st < kMaxTurnsPerMember) \<and>
     (confidence result < 1 / 2 \<and> \<not> llmFailedFallback result \<longrightarrow> new = []))"
proof -
  have mem: "routes result ms a \<Longrightarrow> a \<in> mb_alias ` set ms" for a
    unfolding routes_def using findMemberByAliasIn_mem by blast
  show ?thesis
  proof (cases "confidence result \<ge> 1 / 2 \<or> llmFailedFallback result")
    case True
    then have "m_queue (applyClassification result ms content conv st) =
        m_queue (foldl (applyTarget (llmFailedFallback result) ms) st (targets result))"
      "m_deferredQueue (applyClassification result ms content conv st) =
        m_deferredQueue (foldl (applyTarget (llmFailedFallback result) ms) st (targets result))"
      by (simp_all add: applyClassification_def Let_def)
    with applyTargets_queue [OF subset_refl, of result ms st] mem True show ?thesis
      unfolding Let_def by fastforce
  next
    case False
    then show ?thesis by (simp add: applyClassification_def Let_def)
  qed
qed

theorem classification_routing_policy_witness:
  "let st = setCurrentResponder ''Ann'' ''agent-Ann'' (new_cascade :: string cascade);
       result = empty_classification\<lparr>confidence := 1, targets :=
         [\<lparr>tg_alias = ''bob'', tg_intent = DELEGATE_TASK, tg_context = []\<rparr>,
          \<lparr>tg_alias = ''Cy'', tg_intent = REFERENCE, tg_context = []\<rparr>]\<rparr>;
       st' = applyClassification result (map demo_member [''Ann'', ''Bob'', ''Cy'']) ''x'' ''c'' st
   in m_queue st' = [''Bob''] \<and>
      (\<forall>a \<in> set (m_queue st'). a \<in> mb_alias ` set (map demo_member [''Ann'', ''Bob'', ''Cy'']))"
proof -
  let ?st = "setCurrentResponder ''Ann'' ''agent-Ann'' (new_cascade :: string cascade)"
  let ?ms = "map demo_member [''Ann'', ''Bob'', ''Cy'']"
  let ?result = "empty_classification\<lparr>confidence := 1, targets :=
         [\<lparr>tg_alias = ''bob'', tg_intent = DELEGATE_TASK, tg_context = []\<rparr>,
          \<lparr>tg_alias = ''Cy'', tg_intent = REFERENCE, tg_context = []\<rparr>]\<rparr>"
  have q: "m_queue (applyClassification ?result ?ms ''x'' ''c'' ?st) = [''Bob'']" by code_simp
  obtain new where new: "m_queue (applyClassification ?result ?ms ''x'' ''c'' ?st) = m_queue ?st @ new"
      "\<forall>a \<in> set new. a \<in> mb_alias ` set ?ms"
    using classification_routing_policy [of ?result ?ms "''x''" "''c''" ?st] unfolding Let_def by blast
  have "m_queue ?st = []" by (simp add: setCurrentResponder_def new_cascade_def)
  with new have "\<forall>a \<in> set (m_queue (applyClassification ?result ?ms ''x'' ''c'' ?st)). a \<in> mb_alias ` set ?ms"
    by simp
  with q show ?thesis unfolding Let_def by blast
qed

section \<open>The end of a round\<close>

lemma continueRound_cases:
  obtains (stopped) st1 where "continueRound env ri a st = (False, st1)" and "m_log st1 = m_log st"
      and "m_recentContentFingerprints st1 = m_recentContentFingerprints st"
      and "m_priorCascadeFingerprints st1 = m_priorCascadeFingerprints st"
  | (continued) st1 m where "continueRound env ri a st = (True, st1)" and "isGroupChat env (ri_convId ri)"
      and "m_log st1 = m_log st @ [MemberTurnStarted (mb_alias m) (mb_agentId m), RoundContinued (ri_convId ri) (m_round st + 1) a]"
      and "isQueueEmpty st1" and "m_memberTurns st1 = []" and "m_iterations st1 = 1"
      and "m_round st1 = m_round st + 1" and "m_responderAlias st1 = mb_alias m" and "isValid m"
proof -
  let ?m = "findMember env (ri_convId ri) a"
  let ?f = "freshRound st"
  have stop: thesis if "continueRound env ri a st = (False, st1)" "m_log st1 = m_log st"
      "m_recentContentFingerprints st1 = m_recentContentFingerprints st"
      "m_priorCascadeFingerprints st1 = m_priorCascadeFingerprints st" for st1
    using that stopped by blast
  show thesis
  proof (cases "isValid ?m")
    case False
    then show thesis by (intro stop [of ?f]) (simp_all add: continueRound_def Let_def freshRound_def)
  next
    case True
    note valid = this
    show thesis
    proof (cases rule: enqueueTarget_cases [of "mb_alias ?m" ?f])
      case 1
      with valid show thesis by (intro stop [of ?f]) (simp_all add: continueRound_def Let_def freshRound_def)
    next
      case 2
      with valid show thesis
        by (intro stop [of "?f\<lparr>m_capRefusedAlias := mb_alias ?m\<rparr>"]) (simp_all add: continueRound_def Let_def freshRound_def)
    next
      case 3
      let ?st2 = "?f\<lparr>m_queue := m_queue ?f @ [mb_alias ?m]\<rparr>"
      have q2: "m_queue ?st2 = [mb_alias ?m]" "m_deferredQueue ?st2 = []" by (simp_all add: freshRound_def)
      show thesis
      proof (cases rule: dispatch_cases [where env = env and conv = "ri_convId ri" and st = ?st2])
        case (no q d)
        with valid 3 show thesis
          by (intro stop [of "?st2\<lparr>m_queue := q, m_deferredQueue := d\<rparr>"])
            (simp_all add: continueRound_def Let_def freshRound_def)
      next
        case (yes b q d)
        from yes(3) q2 have "q = [] \<and> d = []" by (auto split: if_splits)
        with valid 3 yes show thesis
          by (intro continued [of "emit (RoundContinued (ri_convId ri) (m_round st + 1) a)
                (emit (MemberTurnStarted (mb_alias (findMember env (ri_convId ri) b)) (mb_agentId (findMember env (ri_convId ri) b)))
                  (?st2\<lparr>m_queue := [], m_deferredQueue := [], m_iterations := m_iterations ?st2 + 1,
                        m_responderAlias := mb_alias (findMember env (ri_convId ri) b),
                        m_responderAgentId := mb_agentId (findMember env (ri_convId ri) b)\<rparr>))"
                "findMember env (ri_convId ri) b"])
            (simp_all add: continueRound_def Let_def freshRound_def isQueueEmpty_def)
      qed
    qed
  qed
qed

definition cleanSlate :: "'h cascade \<Rightarrow> bool" where
  "cleanSlate st \<longleftrightarrow> isQueueEmpty st \<and> m_memberTurns st = [] \<and> m_iterations st = 0 \<and>
     m_responderAlias st = [] \<and> m_responderAgentId st = [] \<and> m_recentContentFingerprints st = [] \<and>
     m_memberRetryCount st = [] \<and> m_capRefusedAlias st = [] \<and> m_roundToolFires st = 0 \<and>
     m_roundRetries st = 0 \<and> m_roundNovelTurns st = 0 \<and> m_round st = 1"

lemma clearAndComplete_clean:
  "cleanSlate (clearAndComplete ri p st) \<and>
   m_priorCascadeFingerprints (clearAndComplete ri p st) =
     lastN kCrossCascadeFingerprintMaxEntries (m_priorCascadeFingerprints st @ m_recentContentFingerprints st)"
  by (simp add: cleanSlate_def clearAndComplete_def isQueueEmpty_def)

text \<open>
  Ending the exchange either starts exactly one next round or leaves a clean slate. A next
  round needs a group chat, progress and a round below the conversation's ceiling; it starts one
  turn, counts it as the first of the new round and keeps nothing queued. Otherwise the last signal is
  the completion with the number of turns of the final round, every counter, queue and window of
  the cascade is reset, and its fingerprints join those of earlier cascades, the last twenty of which are kept.
\<close>

theorem completion_or_next_round:
  "let st' = emitCascadeCompleteAndClear env ri st in
   (isGroupChat env (ri_convId ri) \<and> m_round st < effectiveMaxRounds env (ri_convId ri) \<and>
    (m_roundToolFires st > 0 \<or> m_roundRetries st > 0 \<or> m_roundNovelTurns st > 0) \<and>
    (\<exists>m. isValid m \<and> m_responderAlias st' = mb_alias m \<and>
       m_log st' = m_log st @ [MemberTurnStarted (mb_alias m) (mb_agentId m),
         RoundContinued (ri_convId ri) (m_round st + 1) (nextWaiting st)]) \<and>
    m_round st' = m_round st + 1 \<and> m_iterations st' = 1 \<and> isQueueEmpty st' \<and> m_memberTurns st' = []) \<or>
   (cleanSlate st' \<and>
    m_priorCascadeFingerprints st' = lastN kCrossCascadeFingerprintMaxEntries
      (m_priorCascadeFingerprints st @ m_recentContentFingerprints st) \<and>
    (\<exists>es turns p. m_log st' = m_log st @ es @ [CascadeComplete (ri_declaredTaskStatus ri)
       (ri_finishReason ri) (ri_totalTokens ri) (ri_elapsedMs ri) turns p] \<and> count ownsTurn es = 0))"
proof -
  let ?group = "isGroupChat env (ri_convId ri)"
  let ?progress = "m_roundToolFires st > 0 \<or> m_roundRetries st > 0 \<or> m_roundNovelTurns st > 0"
  have paused: "cleanSlate (clearAndComplete ri True (emit (CascadePausedAtCap c a r) st1)) \<and>
      m_priorCascadeFingerprints (clearAndComplete ri True (emit (CascadePausedAtCap c a r) st1)) =
        lastN kCrossCascadeFingerprintMaxEntries (m_priorCascadeFingerprints st @ m_recentContentFingerprints st) \<and>
      (\<exists>es turns p. m_log (clearAndComplete ri True (emit (CascadePausedAtCap c a r) st1)) =
        m_log st @ es @ [CascadeComplete (ri_declaredTaskStatus ri)
       (ri_finishReason ri) (ri_totalTokens ri) (ri_elapsedMs ri) turns p] \<and> count ownsTurn es = 0)"
    if "m_log st1 = m_log st" "m_recentContentFingerprints st1 = m_recentContentFingerprints st"
      "m_priorCascadeFingerprints st1 = m_priorCascadeFingerprints st" for c a r st1
    using that clearAndComplete_clean [of ri True "emit (CascadePausedAtCap c a r) st1"]
    by (auto simp: clearAndComplete_log intro!: exI [of _ "[CascadePausedAtCap c a r]"])
  have plain: "cleanSlate (clearAndComplete ri False st) \<and>
      m_priorCascadeFingerprints (clearAndComplete ri False st) =
        lastN kCrossCascadeFingerprintMaxEntries (m_priorCascadeFingerprints st @ m_recentContentFingerprints st) \<and>
      (\<exists>es turns p. m_log (clearAndComplete ri False st) =
        m_log st @ es @ [CascadeComplete (ri_declaredTaskStatus ri)
       (ri_finishReason ri) (ri_totalTokens ri) (ri_elapsedMs ri) turns p] \<and> count ownsTurn es = 0)"
    using clearAndComplete_clean [of ri False st]
    by (auto simp: clearAndComplete_log intro!: exI [of _ "[]"])
  show ?thesis
  proof (cases "?group \<and> (m_capRefusedAlias st \<noteq> [] \<or> m_queue st \<noteq> [] \<or> m_deferredQueue st \<noteq> []) \<and>
      ri_finishReason ri \<noteq> ''tool_iteration_cap'' \<and> ri_finishReason ri \<noteq> ''tool_chain_echo''")
    case False
    then have "emitCascadeCompleteAndClear env ri st = clearAndComplete ri False st"
      unfolding emitCascadeCompleteAndClear_def Let_def by (simp only: if_False)
    with plain show ?thesis unfolding Let_def by simp
  next
    case work: True
    show ?thesis
    proof (cases "?progress \<and> m_round st < effectiveMaxRounds env (ri_convId ri)")
      case False
      with work have "emitCascadeCompleteAndClear env ri st = clearAndComplete ri True
          (emit (CascadePausedAtCap (ri_convId ri) (nextWaiting st)
            (if ?progress then ''rounds_exhausted'' else ''no_progress'')) st)"
        unfolding emitCascadeCompleteAndClear_def Let_def by (simp only: if_True if_False case_prod_conv simp_thms)
      with paused [of st] show ?thesis unfolding Let_def by simp
    next
      case True
      show ?thesis
      proof (cases rule: continueRound_cases [of env ri "nextWaiting st" st])
        case (stopped st1)
        with work True have "emitCascadeCompleteAndClear env ri st = clearAndComplete ri True
            (emit (CascadePausedAtCap (ri_convId ri) (nextWaiting st) ''rounds_exhausted'') st1)"
          unfolding emitCascadeCompleteAndClear_def Let_def by (simp only: if_True if_False case_prod_conv simp_thms)
        with paused [OF stopped(2-4)] show ?thesis unfolding Let_def by simp
      next
        case (continued st1 m)
        with work True have "emitCascadeCompleteAndClear env ri st = st1"
          unfolding emitCascadeCompleteAndClear_def Let_def by (simp only: if_True case_prod_conv simp_thms)
        with continued True show ?thesis unfolding Let_def by blast
      qed
    qed
  qed
qed

section \<open>Voice holds\<close>

definition voice :: "'h cascade \<Rightarrow> bool \<times> bool \<times> inputs \<times> string list" where
  "voice st = (m_voiceGate st, m_voiceHoldActive st, m_voiceHeldInputs st, m_voiceReleasedMsgIds st)"

lemma voice_emit [simp]: "voice (emit e st) = voice st"
  by (simp add: voice_def)

lemma voice_enqueue [frame_simp]: "voice (snd (enqueueTarget a st)) = voice st"
  by (cases rule: enqueueTarget_cases [of a st]) (simp_all add: voice_def)

lemma voice_dispatch [frame_simp]: "voice (snd (tryDispatchNext env conv st)) = voice st"
  by (cases rule: dispatch_cases [where env = env and conv = conv and st = st]) (simp_all add: voice_def)

lemma voice_clear [frame_simp]: "voice (clearAndComplete ri p st) = voice st"
  by (simp add: clearAndComplete_def voice_def)

lemma voice_fresh [frame_simp]: "voice (freshRound st) = voice st"
  by (simp add: freshRound_def voice_def)

lemma voice_continue [frame_simp]: "voice (snd (continueRound env ri a st)) = voice st"
  by (simp add: continueRound_def Let_def case_prod_beta frame_simp)

lemma voice_complete [frame_simp]: "voice (emitCascadeCompleteAndClear env ri st) = voice st"
  by (simp add: emitCascadeCompleteAndClear_def Let_def case_prod_beta frame_simp)

lemma voice_foldl: "(\<And>st x. voice (f st x) = voice st) \<Longrightarrow> voice (foldl f st xs) = voice st"
  by (induction xs arbitrary: st) simp_all

lemma voice_applyTarget [frame_simp]: "voice (applyTarget fb ms st t) = voice st"
  by (simp add: applyTarget_def frame_simp split: option.split)

lemma voice_apply [frame_simp]: "voice (applyClassification result ms content conv st) = voice st"
  by (simp add: applyClassification_def Let_def voice_foldl frame_simp)

lemma voice_delegate [frame_simp]: "voice (snd (maybeDispatchDelegate env result ms conv st)) = voice st"
  by (simp add: maybeDispatchDelegate_def Let_def case_prod_beta frame_simp split: option.split)

lemma voice_note [frame_simp]: "voice (noteUndispatchedTargets result conv st) = voice st"
  by (simp add: noteUndispatchedTargets_def)

lemma voice_onClassified [frame_simp]: "voice (onClassified env result ms ri st) = voice st"
  by (simp add: onClassified_def Let_def case_prod_beta frame_simp)

lemma voice_updates [simp]:
  "voice (st\<lparr>m_memberTurns := x\<rparr>) = voice st" "voice (st\<lparr>m_memberRetryCount := y\<rparr>) = voice st"
  "voice (st\<lparr>m_roundRetries := z\<rparr>) = voice st" "voice (st\<lparr>m_waiting := w\<rparr>) = voice st"
  "voice (st\<lparr>m_ragpService := v\<rparr>) = voice st" "voice (st\<lparr>m_roundNovelTurns := z\<rparr>) = voice st"
  "voice (st\<lparr>m_recentContentFingerprints := u\<rparr>) = voice st"
  by (simp_all add: voice_def)

lemma voice_record [frame_simp]: "voice (recordTurn env ri st) = voice st"
  by (simp add: recordTurn_def Let_def)

lemma voice_bad [frame_simp]: "voice (handleBadReply env ri st) = voice st"
  by (simp add: handleBadReply_def Let_def case_prod_beta frame_simp)

lemma voice_accept [frame_simp]: "voice (acceptReply env ri st) = voice st"
  by (simp add: acceptReply_def Let_def)

lemma voice_classify [frame_simp]: "voice (classifyAndRoute env ri st) = voice st"
  by (simp add: classifyAndRoute_def Let_def case_prod_beta frame_simp split: outcome.split)

lemma voice_route: "voice (routeReply env ri st) = voice st"
  by (simp add: routeReply_def Let_def case_prod_beta frame_simp)

text \<open>
  A voice hold ends with its release: releasing the held reply while fewer than 64 ids have been
  released replays it through the unchanged pipeline, whatever the gate says now, and leaves no
  hold; the same reply is then never held again as long as its id is remembered.
\<close>

theorem voice_release_replays:
  assumes held: "m_voiceHoldActive st" and msg: "ri_responderMsgId (m_voiceHeldInputs st) = m" "m \<noteq> []"
    and room: "length (m_voiceReleasedMsgIds st) < 64"
  shows "releaseVoiceHold env m st = routeReply env (m_voiceHeldInputs st)
      (st\<lparr>m_voiceHoldActive := False, m_voiceHeldInputs := no_inputs,
          m_voiceReleasedMsgIds := List.insert m (m_voiceReleasedMsgIds st)\<rparr>) \<and>
    \<not> m_voiceHoldActive (releaseVoiceHold env m st) \<and>
    m \<in> set (m_voiceReleasedMsgIds (releaseVoiceHold env m st)) \<and>
    \<not> holdsForVoice env (m_voiceHeldInputs st) (releaseVoiceHold env m st)"
proof -
  let ?st1 = "st\<lparr>m_voiceHoldActive := False, m_voiceHeldInputs := no_inputs,
          m_voiceReleasedMsgIds := List.insert m (m_voiceReleasedMsgIds st)\<rparr>"
  have "\<not> 64 < length (List.insert m (m_voiceReleasedMsgIds st))"
    using room by (simp add: List.insert_def)
  then have "noteReleased env m (st\<lparr>m_voiceHoldActive := False, m_voiceHeldInputs := no_inputs\<rparr>) = ?st1"
    using msg(2) by (simp add: noteReleased_def Let_def)
  moreover have "\<not> holdsForVoice env (m_voiceHeldInputs st) ?st1"
    using msg(1) by (simp add: holdsForVoice_def)
  ultimately have r: "releaseVoiceHold env m st = routeReply env (m_voiceHeldInputs st) ?st1"
    using held msg by (simp add: releaseVoiceHold_def Let_def routeOrFinalize_def)
  have "voice (releaseVoiceHold env m st) = voice ?st1" unfolding r by (rule voice_route)
  then have "m_voiceHoldActive (releaseVoiceHold env m st) = False"
    and "m_voiceReleasedMsgIds (releaseVoiceHold env m st) = List.insert m (m_voiceReleasedMsgIds st)"
    by (simp_all add: voice_def)
  with r msg(1) show ?thesis by (auto simp: holdsForVoice_def)
qed

theorem voice_release_replays_witness:
  "\<not> m_voiceHoldActive (releaseVoiceHold demo_env ''m1''
     (foldl cascade_step (new_cascade :: string cascade)
        [(demo_env, SetVoiceTurnGate True), (demo_env, RouteOrFinalize (demo_reply ''hello''))]))"
proof -
  let ?st = "foldl cascade_step (new_cascade :: string cascade)
        [(demo_env, SetVoiceTurnGate True), (demo_env, RouteOrFinalize (demo_reply ''hello''))]"
  have "m_voiceHoldActive ?st" "ri_responderMsgId (m_voiceHeldInputs ?st) = ''m1''"
    "length (m_voiceReleasedMsgIds ?st) < 64" by code_simp+
  note st = this
  have "''m1'' \<noteq> ([] :: string)" by simp
  from voice_release_replays [OF st(1,2) this st(3), of demo_env] show ?thesis by (elim conjE)
qed

text \<open>
  The 65th hold may never end. When 64 ids are remembered, the new id is not among them and it is
  the first element of the set's own order, the release forgets it again before the replay asks
  the gate: if the gate still wants to hold, the release leaves the controller exactly as it was,
  the reply held and the cascade where it stood, however often it is released.
\<close>

theorem voice_hold_can_be_stuck:
  assumes "m_voiceHoldActive st" and "m_voiceGate st" and "ri_responderMsgId (m_voiceHeldInputs st) = m"
    and "m \<noteq> []" and "m \<notin> set (m_voiceReleasedMsgIds st)" and "length (m_voiceReleasedMsgIds st) = 64"
    and "firstOfSet env (List.insert m (m_voiceReleasedMsgIds st)) = m"
    and "shouldHoldTurn env (ri_convId (m_voiceHeldInputs st)) m"
  shows "releaseVoiceHold env m st = st"
  using assms
  by (simp add: releaseVoiceHold_def noteReleased_def Let_def routeOrFinalize_def holdsForVoice_def List.insert_def)

theorem voice_hold_can_be_stuck_witness:
  "let env = demo_env\<lparr>firstOfSet := hd\<rparr>;
       st = (new_cascade :: string cascade)\<lparr>m_voiceGate := True, m_voiceHoldActive := True,
         m_voiceHeldInputs := demo_reply ''hello'',
         m_voiceReleasedMsgIds := map (\<lambda>n. replicate n CHR ''x'') [0..<64]\<rparr>
   in releaseVoiceHold env ''m1'' st = st"
  unfolding Let_def
proof (rule voice_hold_can_be_stuck)
  show "''m1'' \<notin> set (m_voiceReleasedMsgIds ((new_cascade :: string cascade)\<lparr>m_voiceGate := True, m_voiceHoldActive := True,
         m_voiceHeldInputs := demo_reply ''hello'',
         m_voiceReleasedMsgIds := map (\<lambda>n. replicate n CHR ''x'') [0..<64]\<rparr>))"
    by (auto simp: Cons_replicate_eq)
qed (simp_all add: demo_reply_def demo_env_def List.insert_def, auto simp: Cons_replicate_eq)

section \<open>Two runs\<close>

definition say :: "string \<Rightarrow> string env \<times> cascade_op" where
  "say text = (demo_env, RouteOrFinalize (demo_reply text))"

definition ask :: "string \<Rightarrow> string env \<times> cascade_op" where
  "ask a = (demo_env, EnqueueTarget a)"

text \<open>
  The limit of three turns per member is a limit at the time of queueing, not of speaking: an
  alias waiting in the deferred queue is not counted, so with Bob mentioned by the user and asked
  three times by Ann he speaks four times in one cascade.
\<close>

theorem member_speaks_four_times:
  "memberTurnCount ''Bob'' (foldl cascade_step (new_cascade :: string cascade)
     ([(demo_env, EnqueueDeferredTarget ''Bob''), (demo_env, EnqueueDeferredTarget ''Cy''),
       ask ''Bob'', ask ''Ann'', (demo_env, YieldToQueued ''c''),
       say ''ok'', ask ''Bob'', say ''ok'', ask ''Ann'', say ''ok'', ask ''Bob'', say ''ok'', say ''ok'',
       say ''ok''])) = 4"
  by code_simp

text \<open>
  A next round serves one member and forgets the others: with Bob and Cy still queued at the end of a
  round of ten turns, the cascade goes on with Bob and drops Cy without any signal that names him.
\<close>

theorem next_round_forgets_the_others:
  "let st = (new_cascade :: string cascade)\<lparr>m_iterations := 10, m_roundNovelTurns := 1, m_queue := [''Bob'', ''Cy'']\<rparr>;
       st' = emitCascadeCompleteAndClear demo_env (demo_reply ''ok'') st
   in m_responderAlias st' = ''Bob'' \<and> isQueueEmpty st' \<and>
      m_log st' = [MemberTurnStarted ''Bob'' ''agent-Bob'', RoundContinued ''c'' 2 ''Bob'']"
  by code_simp

end
