(* ===== verification/Shell_Inspector.thy ===== *)
theory Shell_Inspector
  imports Prelude
begin

text \<open>
  The inspector of shell command lines (backend/utils/shell-command-inspector.cpp): a quote-aware
  lexer that follows substitutions and heredocs, and a parser that finds the word in command
  position of every simple command. It refuses three forms of code that cannot be checked before it runs.

  The lexer's fields are the record \<open>lexer\<close>; its functions take the line \<open>s\<close> and what inspects
  nested text, \<open>sub\<close> (\<open>None\<close> beyond the nesting limit of 16), and are total: the loops end because
  each step moves the position on. \<open>inspectPosixCommandAt\<close> recurses on the levels that are left.
\<close>

section \<open>Data\<close>

abbreviation "NL \<equiv> CHR 0x0A"
abbreviation "TAB \<equiv> CHR 0x09"
abbreviation "BS \<equiv> CHR 0x5C"
abbreviation "SQ \<equiv> CHR 0x27"
abbreviation "DQ \<equiv> CHR 0x22"
abbreviation "BT \<equiv> CHR 0x60"

record inspection =
  programs :: "string list"
  refusal :: string
  complete :: bool

definition no_finding :: inspection where
  "no_finding = \<lparr>programs = [], refusal = [], complete = True\<rparr>"

datatype kind = Word | Op | Redirect

record token =
  tk_kind :: kind
  tk_text :: string
  tk_dynamic :: bool

record heredoc =
  hd_delim :: string
  hd_quoted :: bool
  hd_stripTabs :: bool

record lexer =
  lx_i :: nat
  lx_out :: inspection
  lx_heredocs :: "heredoc list"
  lx_stop :: bool

type_synonym sub = "string \<Rightarrow> inspection option"

definition kMaxDepth :: nat where "kMaxDepth = 16"

section \<open>The lexer\<close>

definition charAt :: "string \<Rightarrow> nat \<Rightarrow> char option" where
  "charAt s i = (if i < length s then Some (s ! i) else None)"

definition lex_fail :: "lexer \<Rightarrow> lexer" where
  "lex_fail lx = lx\<lparr>lx_out := (lx_out lx)\<lparr>complete := False\<rparr>, lx_stop := True\<rparr>"

definition mergeInspection :: "inspection \<Rightarrow> inspection \<Rightarrow> inspection" where
  "mergeInspection r out =
     \<lparr>programs = programs out @ programs r,
      refusal = (if refusal r \<noteq> [] \<and> refusal out = [] then refusal r else refusal out),
      complete = (if \<not> complete r then False else complete out)\<rparr>"

definition recurse :: "sub \<Rightarrow> string \<Rightarrow> lexer \<Rightarrow> lexer" where
  "recurse sub inner lx =
     (case sub inner of None \<Rightarrow> lex_fail lx | Some r \<Rightarrow> lx\<lparr>lx_out := mergeInspection r (lx_out lx)\<rparr>)"

function skipDq :: "string \<Rightarrow> nat \<Rightarrow> nat" where
  "skipDq s k =
     (if k < length s \<and> s ! k \<noteq> DQ then (if s ! k = BS then skipDq s (k + 2) else skipDq s (k + 1)) else k)"
  by pat_completeness auto
termination by (relation "measure (\<lambda>(s, k). length s - k)") auto

declare skipDq.simps [simp del]

lemma skipDq_ge: "k \<le> skipDq s k"
  by (induction s k rule: skipDq.induct) (subst skipDq.simps, auto)

lemma skipDq_lt: "k < length s \<Longrightarrow> length s - Suc (skipDq s (Suc k)) < length s - k"
  using skipDq_ge [of "Suc k" s] by linarith

function matchParenLoop :: "string \<Rightarrow> nat \<Rightarrow> int \<Rightarrow> nat option" where
  "matchParenLoop s k depth =
     (if k < length s then
        (let c = s ! k in
         if c = BS then matchParenLoop s (k + 2) depth
         else if c = SQ then
           (case indexOfC s SQ (k + 1) of None \<Rightarrow> None | Some e \<Rightarrow> matchParenLoop s (e + 1) depth)
         else if c = DQ then
           (let e = skipDq s (k + 1) in if e \<ge> length s then None else matchParenLoop s (e + 1) depth)
         else if c = CHR ''('' then matchParenLoop s (k + 1) (depth + 1)
         else if c = CHR '')'' then
           (if depth - 1 = 0 then Some k else matchParenLoop s (k + 1) (depth - 1))
         else matchParenLoop s (k + 1) depth)
      else None)"
  by pat_completeness auto
termination
  by (relation "measure (\<lambda>(s, k, d). length s - k)")
    (auto dest!: indexOfC_SomeD intro: diff_less_mono2 le_less_trans [OF skipDq_ge] simp: skipDq_lt not_le)

declare matchParenLoop.simps [simp del]

definition matchParen :: "string \<Rightarrow> nat \<Rightarrow> nat option" where
  "matchParen s openIdx = matchParenLoop s openIdx 0"

lemma matchParenLoop_step:
  assumes "matchParenLoop s k d = Some e"
  shows "k < length s \<and> (e = k \<or> (\<exists>k' d'. k < k' \<and> matchParenLoop s k' d' = Some e))"
proof -
  have dq: "k < Suc (skipDq s (Suc k))" using skipDq_ge [of "Suc k" s] by linarith
  show ?thesis
    using assms dq
    by (subst (asm) matchParenLoop.simps)
      (auto 0 3 simp: Let_def split: if_splits option.splits dest: indexOfC_SomeD)
qed

lemma matchParenLoop_ge: "matchParenLoop s k d = Some e \<Longrightarrow> k \<le> e \<and> e < length s"
proof (induction "length s - k" arbitrary: k d rule: less_induct)
  case less
  from matchParenLoop_step [OF less.prems] show ?case
  proof (elim conjE disjE exE)
    fix k' d' assume k: "k < length s" "k < k'" and m: "matchParenLoop s k' d' = Some e"
    from k have "length s - k' < length s - k" by linarith
    from less.hyps [OF this m] k show ?thesis by linarith
  qed simp
qed

lemma matchParen_ge: "matchParen s k = Some e \<Longrightarrow> k \<le> e \<and> e < length s"
  by (simp add: matchParen_def matchParenLoop_ge)

lemma indexOfS_aux_ge: "indexOfS_aux p s i = Some k \<Longrightarrow> i \<le> k"
proof (induction s arbitrary: i)
  case (Cons c s)
  then show ?case by (subst (asm) (2) indexOfS_aux.simps) (fastforce split: if_splits)
qed (subst (asm) indexOfS_aux.simps, simp split: if_splits)

lemma indexOfS_ge: "indexOfS s p i = Some k \<Longrightarrow> i \<le> k"
  by (auto simp: indexOfS_def split: if_splits dest: indexOfS_aux_ge)

text \<open>\<open>$(...)\<close> and backtick substitutions in text that is otherwise data.\<close>

function scanExpansions :: "sub \<Rightarrow> string \<Rightarrow> nat \<Rightarrow> lexer \<Rightarrow> lexer" where
  "scanExpansions sub text k lx =
     (if k < length text \<and> \<not> lx_stop lx then
        (let c = text ! k in
         if c = BS then scanExpansions sub text (k + 2) lx
         else if c = CHR ''$'' \<and> charAt text (k + 1) = Some (CHR ''('') then
           (if charAt text (k + 2) = Some (CHR ''('') then
              (case indexOfS text ''))'' (k + 3) of
                 None \<Rightarrow> lex_fail lx
               | Some e \<Rightarrow> scanExpansions sub text (e + 2) lx)
            else
              (case matchParen text (k + 1) of
                 None \<Rightarrow> lex_fail lx
               | Some e \<Rightarrow> scanExpansions sub text (e + 1) (recurse sub (mid text (k + 2) (e - k - 2)) lx)))
         else if c = BT then
           (case indexOfC text BT (k + 1) of
              None \<Rightarrow> lex_fail lx
            | Some e \<Rightarrow> scanExpansions sub text (e + 1) (recurse sub (mid text (k + 1) (e - k - 1)) lx))
         else scanExpansions sub text (k + 1) lx)
      else lx)"
  by pat_completeness auto
termination
  by (relation "measure (\<lambda>(sub, text, k, lx). length text - k)")
    (auto dest!: indexOfC_SomeD indexOfS_ge matchParen_ge simp: charAt_def split: if_splits)

declare scanExpansions.simps [simp del]

text \<open>The name after a dollar sign: letters, digits and underscores, or one special parameter.\<close>

function varLoop :: "string \<Rightarrow> nat \<Rightarrow> string \<Rightarrow> nat \<times> string" where
  "varLoop s i value =
     (if i < length s \<and> (isLetterOrNumberC (s ! i) \<or> s ! i = CHR ''_'' \<or> s ! i \<in> set ''@*#?$!-'') then
        (if \<not> isLetterOrNumberC (s ! i) \<and> s ! i \<noteq> CHR ''_'' then (i + 1, value @ [s ! i])
         else varLoop s (i + 1) (value @ [s ! i]))
      else (i, value))"
  by pat_completeness auto
termination by (relation "measure (\<lambda>(s, i, v). length s - i)") auto

declare varLoop.simps [simp del]

text \<open>Reading one expansion at the position of its dollar sign: the value so far, whether the
  expansion is dynamic, and the lexer.\<close>

definition readDollar :: "sub \<Rightarrow> string \<Rightarrow> string \<Rightarrow> lexer \<Rightarrow> string \<times> bool \<times> lexer" where
  "readDollar sub s value lx =
     (let i = lx_i lx in
      if charAt s (i + 1) = Some (CHR ''('') then
        (if charAt s (i + 2) = Some (CHR ''('') then
           (case indexOfS s ''))'' (i + 3) of
              None \<Rightarrow> (value, True, (lex_fail lx)\<lparr>lx_i := length s\<rparr>)
            | Some e \<Rightarrow> (value @ mid s i (e + 2 - i), True, lx\<lparr>lx_i := e + 2\<rparr>))
         else
           (case matchParen s (i + 1) of
              None \<Rightarrow> (value, True, (lex_fail lx)\<lparr>lx_i := length s\<rparr>)
            | Some e \<Rightarrow> (value @ mid s i (e + 1 - i), True,
                         (recurse sub (mid s (i + 2) (e - i - 2)) lx)\<lparr>lx_i := e + 1\<rparr>)))
      else if charAt s (i + 1) = Some (CHR ''{'') then
        (case indexOfC s (CHR ''}'') (i + 2) of
           None \<Rightarrow> (value, True, (lex_fail lx)\<lparr>lx_i := length s\<rparr>)
         | Some e \<Rightarrow> (value @ mid s i (e + 1 - i), True, lx\<lparr>lx_i := e + 1\<rparr>))
      else if charAt s (i + 1) = Some SQ then
        (case indexOfC s SQ (i + 2) of
           None \<Rightarrow> (value, False, (lex_fail lx)\<lparr>lx_i := length s\<rparr>)
         | Some e \<Rightarrow> (value @ mid s (i + 2) (e - i - 2), False, lx\<lparr>lx_i := e + 1\<rparr>))
      else
        (let (j, v) = varLoop s (i + 1) (value @ [CHR ''$'']) in (v, True, lx\<lparr>lx_i := j\<rparr>)))"

definition readBacktick :: "sub \<Rightarrow> string \<Rightarrow> string \<Rightarrow> lexer \<Rightarrow> string \<times> lexer" where
  "readBacktick sub s value lx =
     (let i = lx_i lx in
      case indexOfC s BT (i + 1) of
        None \<Rightarrow> (value, (lex_fail lx)\<lparr>lx_i := length s\<rparr>)
      | Some e \<Rightarrow> (value @ mid s i (e + 1 - i),
                   (recurse sub (mid s (i + 1) (e - i - 1)) lx)\<lparr>lx_i := e + 1\<rparr>))"

lemma recurse_fields [simp]: "lx_i (recurse sub x lx) = lx_i lx"
  "lx_heredocs (recurse sub x lx) = lx_heredocs lx"
  by (simp_all add: recurse_def lex_fail_def split: option.split)

lemma lex_fail_fields [simp]: "lx_i (lex_fail lx) = lx_i lx" "lx_stop (lex_fail lx)"
  "lx_heredocs (lex_fail lx) = lx_heredocs lx"
  by (simp_all add: lex_fail_def)

lemma varLoop_ge: "i \<le> fst (varLoop s i v)"
proof (induction s i v rule: varLoop.induct)
  case (1 s i v)
  then show ?case by (subst varLoop.simps) (auto simp: Suc_le_eq intro: order.trans [OF _ Suc_leD])
qed

lemma readDollar_moves:
  "lx_i lx < length s \<Longrightarrow> lx_i lx < lx_i (snd (snd (readDollar sub s v lx)))"
  using varLoop_ge [of "Suc (lx_i lx)" s "v @ [CHR ''$'']"]
  by (auto simp: readDollar_def Let_def case_prod_beta split: option.splits
      dest!: indexOfS_ge matchParen_ge indexOfC_SomeD)

lemma readBacktick_moves: "lx_i lx < length s \<Longrightarrow> lx_i lx < lx_i (snd (readBacktick sub s v lx))"
  by (auto simp: readBacktick_def Let_def split: option.splits dest!: indexOfC_SomeD)

text \<open>The inside of a double-quoted string: the value, whether it is dynamic, whether the closing
  quote was found, and the lexer.\<close>

function dqLoop :: "sub \<Rightarrow> string \<Rightarrow> string \<Rightarrow> bool \<Rightarrow> lexer \<Rightarrow> string \<times> bool \<times> bool \<times> lexer" where
  "dqLoop sub s value dyn lx =
     (let i = lx_i lx in
      if i < length s \<and> \<not> lx_stop lx then
        (let d = s ! i in
         if d = DQ then (value, dyn, True, lx\<lparr>lx_i := i + 1\<rparr>)
         else if d = BS \<and> i + 1 < length s then
           dqLoop sub s (value @ [s ! (i + 1)]) dyn (lx\<lparr>lx_i := i + 2\<rparr>)
         else if d = CHR ''$'' then
           (let r = readDollar sub s value lx in dqLoop sub s (fst r) (dyn \<or> fst (snd r)) (snd (snd r)))
         else if d = BT then
           (let r = readBacktick sub s value lx in dqLoop sub s (fst r) True (snd r))
         else dqLoop sub s (value @ [d]) dyn (lx\<lparr>lx_i := i + 1\<rparr>))
      else (value, dyn, False, lx))"
  by pat_completeness auto
termination
  by (relation "measure (\<lambda>(sub, s, v, d, lx). length s - lx_i lx)")
    (auto intro!: diff_less_mono2 readDollar_moves readBacktick_moves)

declare dqLoop.simps [simp del]

lemma dqLoop_ge: "lx_i lx \<le> lx_i (snd (snd (snd (dqLoop sub s v d lx))))"
proof (induction sub s v d lx rule: dqLoop.induct)
  case (1 sub s v d lx)
  show ?case
  proof (cases "lx_i lx < length s \<and> \<not> lx_stop lx")
    case True
    obtain a b c where rd: "readDollar sub s v lx = (a, b, c)" by (metis prod_cases3)
    obtain e f where rb: "readBacktick sub s v lx = (e, f)" by fastforce
    from True have moves: "lx_i lx < lx_i c" "lx_i lx < lx_i f"
      using readDollar_moves [of lx s sub v] readBacktick_moves [of lx s sub v] rd rb by auto
    with True "1.IH" [OF refl _ refl] show ?thesis
      by (subst dqLoop.simps) (auto simp: Let_def rd rb)
  next
    case False
    then show ?thesis by (subst dqLoop.simps) (auto simp: Let_def)
  qed
qed

definition kBreak :: string where
  "kBreak = [CHR '' '', TAB, NL, CHR '';'', CHR ''&'', CHR ''|'', CHR ''('', CHR '')'', CHR ''<'', CHR ''>'']"

text \<open>The loop of \<open>readWord\<close>: value and dynamic flag of the token so far.\<close>

function wordLoop :: "sub \<Rightarrow> string \<Rightarrow> string \<Rightarrow> bool \<Rightarrow> lexer \<Rightarrow> string \<times> bool \<times> lexer" where
  "wordLoop sub s value dyn lx =
     (let i = lx_i lx in
      if i < length s \<and> \<not> lx_stop lx then
        (let c = s ! i in
         if c \<in> set kBreak then
           (if (c = CHR ''<'' \<or> c = CHR ''>'') \<and> value = [] \<and> charAt s (i + 1) = Some (CHR ''('') then
              (case matchParen s (i + 1) of
                 None \<Rightarrow> (value, dyn, lex_fail lx)
               | Some e \<Rightarrow> wordLoop sub s value True
                   ((recurse sub (mid s (i + 2) (e - i - 2)) lx)\<lparr>lx_i := e + 1\<rparr>))
            else (value, dyn, lx))
         else if c = BS then
           wordLoop sub s (if i + 1 < length s then value @ [s ! (i + 1)] else value) dyn (lx\<lparr>lx_i := i + 2\<rparr>)
         else if c = SQ then
           (case indexOfC s SQ (i + 1) of
              None \<Rightarrow> (value, dyn, (lex_fail lx)\<lparr>lx_i := length s\<rparr>)
            | Some e \<Rightarrow> wordLoop sub s (value @ mid s (i + 1) (e - i - 1)) dyn (lx\<lparr>lx_i := e + 1\<rparr>))
         else if c = DQ then
           (let r = dqLoop sub s value dyn (lx\<lparr>lx_i := i + 1\<rparr>) in
            if \<not> fst (snd (snd r)) then (fst r, fst (snd r), lex_fail (snd (snd (snd r))))
            else wordLoop sub s (fst r) (fst (snd r)) (snd (snd (snd r))))
         else if c = CHR ''$'' then
           (let r = readDollar sub s value lx in wordLoop sub s (fst r) (dyn \<or> fst (snd r)) (snd (snd r)))
         else if c = BT then
           (let r = readBacktick sub s value lx in wordLoop sub s (fst r) True (snd r))
         else wordLoop sub s (value @ [c]) dyn (lx\<lparr>lx_i := i + 1\<rparr>))
      else (value, dyn, lx))"
  by pat_completeness auto
termination
proof (relation "measure (\<lambda>(sub, s, v, d, lx). length s - lx_i lx)", goal_cases)
  case (5 sub s v d lx x xa xb)
  then show ?case using dqLoop_ge [of "lx\<lparr>lx_i := Suc (lx_i lx)\<rparr>" sub s v d] by auto
qed (auto intro!: diff_less_mono2 readDollar_moves readBacktick_moves dest!: matchParen_ge indexOfC_SomeD)

declare wordLoop.simps [simp del]

definition readWord :: "sub \<Rightarrow> string \<Rightarrow> lexer \<Rightarrow> token \<times> lexer" where
  "readWord sub s lx =
     (let (v, d, lx') = wordLoop sub s [] False lx
      in (\<lparr>tk_kind = Word, tk_text = v, tk_dynamic = d\<rparr>, lx'))"

lemma wordLoop_ge: "lx_i lx \<le> lx_i (snd (snd (wordLoop sub s v d lx)))"
proof (induction "length s - lx_i lx" arbitrary: v d lx rule: less_induct)
  case less
  have go: "lx_i lx \<le> lx_i (snd (snd (wordLoop sub s v' d' lx')))"
    if "lx_i lx < length s" "lx_i lx < lx_i lx'" for v' d' lx'
    using less.hyps [of lx' v' d'] that by fastforce
  obtain a b c where rd: "readDollar sub s v lx = (a, b, c)" by (metis prod_cases3)
  obtain e f where rb: "readBacktick sub s v lx = (e, f)" by fastforce
  obtain g h i j where dq: "dqLoop sub s v d (lx\<lparr>lx_i := Suc (lx_i lx)\<rparr>) = (g, h, i, j)" by (metis prod_cases4)
  have j: "lx_i lx < lx_i j" using dqLoop_ge [of "lx\<lparr>lx_i := Suc (lx_i lx)\<rparr>" sub s v d] dq by simp
  have moves: "lx_i lx < length s \<Longrightarrow> lx_i lx < lx_i c" "lx_i lx < length s \<Longrightarrow> lx_i lx < lx_i f"
    using readDollar_moves [of lx s sub v] readBacktick_moves [of lx s sub v] rd rb by auto
  show ?case
    using j moves
    by (subst wordLoop.simps) (auto simp: Let_def rd rb dq split: option.split
        intro!: go dest!: matchParen_ge indexOfC_SomeD)
qed

text \<open>At a character that does not break words the reader moves on.\<close>

lemma readWord_moves:
  assumes "lx_i lx < length s" and "\<not> lx_stop lx" and "s ! lx_i lx \<notin> set kBreak"
  shows "lx_i lx < lx_i (snd (readWord sub s lx))"
proof -
  have go: "lx_i lx < lx_i (snd (snd (wordLoop sub s v' d' lx')))" if "lx_i lx < lx_i lx'" for v' d' lx'
    using that wordLoop_ge [of lx' sub s v' d'] by linarith
  obtain a b c where rd: "readDollar sub s [] lx = (a, b, c)" by (metis prod_cases3)
  obtain e f where rb: "readBacktick sub s [] lx = (e, f)" by fastforce
  obtain g h i j where dq: "dqLoop sub s [] False (lx\<lparr>lx_i := Suc (lx_i lx)\<rparr>) = (g, h, i, j)" by (metis prod_cases4)
  have j: "lx_i lx < lx_i j" using dqLoop_ge [of "lx\<lparr>lx_i := Suc (lx_i lx)\<rparr>" sub s "[]" False] dq by simp
  have moves: "lx_i lx < lx_i c" "lx_i lx < lx_i f"
    using assms readDollar_moves [of lx s sub "[]"] readBacktick_moves [of lx s sub "[]"] rd rb by auto
  have "lx_i lx < lx_i (snd (snd (wordLoop sub s [] False lx)))"
    using assms j moves
    by (subst wordLoop.simps) (auto simp: Let_def rd rb dq split: option.split
        intro!: go dest!: matchParen_ge indexOfC_SomeD)
  then show ?thesis by (simp add: readWord_def case_prod_beta)
qed

section \<open>Operators, heredocs and the token loop\<close>

definition redirs :: "string list" where
  "redirs = [''<<<'', ''<<-'', ''&>>'', ''<<'', ''>>'', ''>&'', ''<&'', ''&>'', ''>|'', ''<>'', ''>'', ''<'']"

definition ops :: "string list" where
  "ops = [''&&'', ''||'', '';;'', ''|&'', '';'', ''|'', ''&'', ''('', '')'']"

definition readHeredocDelimiter :: "sub \<Rightarrow> string \<Rightarrow> bool \<Rightarrow> lexer \<Rightarrow> lexer" where
  "readHeredocDelimiter sub s stripTabs lx =
     (let start = lx_i lx + length (takeWhile (\<lambda>c. c = CHR '' '' \<or> c = TAB) (drop (lx_i lx) s));
          (w, lx1) = readWord sub s (lx\<lparr>lx_i := start\<rparr>);
          raw = mid s start (lx_i lx1 - start);
          quoted = (SQ \<in> set raw \<or> DQ \<in> set raw \<or> BS \<in> set raw)
      in if tk_text w = [] then lex_fail lx1
         else lx1\<lparr>lx_heredocs := lx_heredocs lx1 @
                  [\<lparr>hd_delim = tk_text w, hd_quoted = quoted, hd_stripTabs = stripTabs\<rparr>]\<rparr>)"

text \<open>The first redirection that stands at \<open>j\<close>, unless it starts with an ampersand after digits:
  then the search ends.\<close>

definition findRedirect :: "string \<Rightarrow> nat \<Rightarrow> nat \<Rightarrow> string option" where
  "findRedirect s i j =
     (case find (\<lambda>r. mid s j (length r) = r) redirs of
        None \<Rightarrow> None
      | Some r \<Rightarrow> if hd r = CHR ''&'' \<and> j \<noteq> i then None else Some r)"

definition readOperator :: "sub \<Rightarrow> string \<Rightarrow> lexer \<Rightarrow> (token \<times> lexer) option" where
  "readOperator sub s lx =
     (let i = lx_i lx;
          j = i + length (takeWhile isDigitC (drop i s))
      in case findRedirect s i j of
           Some r \<Rightarrow>
             (let lx1 = lx\<lparr>lx_i := j + length r\<rparr>;
                  lx2 = (if r = ''<<'' \<or> r = ''<<-'' then readHeredocDelimiter sub s (r = ''<<-'') lx1 else lx1)
              in Some (\<lparr>tk_kind = Redirect, tk_text = r, tk_dynamic = False\<rparr>, lx2))
         | None \<Rightarrow>
             if j \<noteq> i then None
             else case find (\<lambda>r. mid s i (length r) = r) ops of
                    None \<Rightarrow> None
                  | Some r \<Rightarrow> Some (\<lparr>tk_kind = Op, tk_text = r, tk_dynamic = False\<rparr>, lx\<lparr>lx_i := i + length r\<rparr>))"

text \<open>Reading the lines of one heredoc: the body and whether its end was found.\<close>

function heredocLines :: "string \<Rightarrow> heredoc \<Rightarrow> nat \<Rightarrow> string \<Rightarrow> nat \<times> string \<times> bool" where
  "heredocLines s h i body =
     (if i < length s then
        (let eol = (case indexOfC s NL i of None \<Rightarrow> length s | Some e \<Rightarrow> e);
             line = mid s i (eol - i);
             i' = min (eol + 1) (length s);
             cmp = (if hd_stripTabs h then dropWhile (\<lambda>c. c = TAB) line else line)
         in if cmp = hd_delim h then (i', body, True)
            else heredocLines s h i' (body @ line @ [NL]))
      else (i, body, False))"
  by pat_completeness auto
termination
  by (relation "measure (\<lambda>(s, h, i, b). length s - i)")
    (auto dest!: indexOfC_SomeD split: option.splits)

declare heredocLines.simps [simp del]

fun consumeHeredocList :: "sub \<Rightarrow> string \<Rightarrow> heredoc list \<Rightarrow> lexer \<Rightarrow> lexer" where
  "consumeHeredocList sub s [] lx = lx\<lparr>lx_heredocs := []\<rparr>"
| "consumeHeredocList sub s (h # hs) lx =
     (let (i, body, closed) = heredocLines s h (lx_i lx) [];
          lx1 = lx\<lparr>lx_i := i\<rparr>
      in if \<not> closed then lex_fail lx1
         else consumeHeredocList sub s hs (if \<not> hd_quoted h then scanExpansions sub body 0 lx1 else lx1))"

definition consumeHeredocs :: "sub \<Rightarrow> string \<Rightarrow> lexer \<Rightarrow> lexer" where
  "consumeHeredocs sub s lx = consumeHeredocList sub s (lx_heredocs lx) lx"

lemma heredocLines_ge: "i \<le> fst (heredocLines s h i b)"
proof (induction "length s - i" arbitrary: i b rule: less_induct)
  case less
  show ?case
  proof (cases "i < length s")
    case True
    define eol where "eol = (case indexOfC s NL i of None \<Rightarrow> length s | Some e \<Rightarrow> e)"
    have "i \<le> eol" unfolding eol_def using True by (auto split: option.split dest: indexOfC_SomeD)
    with True have i': "i < min (eol + 1) (length s) \<or> min (eol + 1) (length s) = length s" "i < min (eol + 1) (length s)"
      by auto
    have "i \<le> fst (heredocLines s h (min (eol + 1) (length s)) b')" for b'
    proof -
      have "length s - min (eol + 1) (length s) < length s - i" using i'(2) True by linarith
      from less.hyps [OF this, of b'] i'(2) show ?thesis by linarith
    qed
    then show ?thesis
      using i'(2) by (subst heredocLines.simps) (auto simp: Let_def eol_def [symmetric])
  qed (subst heredocLines.simps, simp)
qed

lemma scanExpansions_i [simp]:
  "lx_i (scanExpansions sub t k lx) = lx_i lx"
proof (induction "length t - k" arbitrary: k lx rule: less_induct)
  case less
  show ?case
    by (subst scanExpansions.simps)
      (auto simp: Let_def less charAt_def split: option.split if_splits
        dest!: matchParen_ge indexOfC_SomeD indexOfS_ge)
qed

lemma consumeHeredocs_ge: "lx_i lx \<le> lx_i (consumeHeredocList sub s hs lx)"
proof (induction hs arbitrary: lx)
  case (Cons h hs)
  obtain i b c where r: "heredocLines s h (lx_i lx) [] = (i, b, c)" by (metis prod_cases3)
  then have "lx_i lx \<le> i" using heredocLines_ge [of "lx_i lx" s h "[]"] by simp
  then show ?case
    using Cons.IH [of "lx\<lparr>lx_i := i\<rparr>"] Cons.IH [of "scanExpansions sub b 0 (lx\<lparr>lx_i := i\<rparr>)"]
    by (auto simp: r Let_def)
qed simp

lemma readHeredocDelimiter_ge: "lx_i lx \<le> lx_i (readHeredocDelimiter sub s b lx)"
  using wordLoop_ge [of "lx\<lparr>lx_i := lx_i lx + length (takeWhile (\<lambda>c. c = CHR '' '' \<or> c = TAB) (drop (lx_i lx) s))\<rparr>" sub s "[]" False]
  by (auto simp: readHeredocDelimiter_def readWord_def Let_def case_prod_beta)

lemma find_props: "find P xs = Some x \<Longrightarrow> x \<in> set xs \<and> P x"
  by (induction xs) (auto split: if_splits)

lemma redirs_nonempty: "r \<in> set redirs \<Longrightarrow> r \<noteq> []" and ops_nonempty: "r \<in> set ops \<Longrightarrow> r \<noteq> []"
  by (auto simp: redirs_def ops_def)

lemma findRedirect_nonempty: "findRedirect s i j = Some r \<Longrightarrow> r \<noteq> []"
  by (auto simp: findRedirect_def split: option.splits if_splits dest!: find_props redirs_nonempty)

lemma readOperator_moves:
  assumes "readOperator sub s lx = Some (t, lx')"
  shows "lx_i lx < lx_i lx'"
proof -
  let ?j = "lx_i lx + length (takeWhile isDigitC (drop (lx_i lx) s))"
  show ?thesis
  proof (cases "findRedirect s (lx_i lx) ?j")
    case None
    with assms show ?thesis
      by (auto simp: readOperator_def Let_def split: option.splits if_splits dest!: find_props ops_nonempty)
  next
    case (Some r)
    then have "r \<noteq> []" by (rule findRedirect_nonempty)
    then have "0 < length r" by simp
    with assms Some readHeredocDelimiter_ge [of "lx\<lparr>lx_i := ?j + length r\<rparr>" sub s "r = ''<<-''"]
    show ?thesis by (auto simp: readOperator_def Let_def split: if_splits)
  qed
qed

text \<open>Where no operator stands, and no blank, a word can be read.\<close>

lemma mid_one: "i < length s \<Longrightarrow> mid s i 1 = [s ! i]"
  by (simp add: mid_def take_Suc_conv_app_nth flip: Cons_nth_drop_Suc)

lemma find_Some_mem: "x \<in> set xs \<Longrightarrow> P x \<Longrightarrow> find P xs \<noteq> None"
  by (induction xs) auto

lemma no_operator_no_break:
  assumes "readOperator sub s lx = None" and i: "lx_i lx < length s"
    and "s ! lx_i lx \<notin> {CHR '' '', TAB, NL}"
  shows "s ! lx_i lx \<notin> set kBreak"
proof
  let ?i = "lx_i lx"
  assume b: "s ! ?i \<in> set kBreak"
  then have nd: "\<not> isDigitC (s ! ?i)" by (auto simp: kBreak_def isDigitC_def code_def)
  have j: "takeWhile isDigitC (drop ?i s) = []"
    using nd i by (simp flip: Cons_nth_drop_Suc)
  have "find (\<lambda>r. mid s ?i (length r) = r) redirs = None"
    using assms(1) j by (auto simp: readOperator_def Let_def findRedirect_def split: option.splits)
  moreover have "find (\<lambda>r. mid s ?i (length r) = r) ops = None"
    using assms(1) j by (auto simp: readOperator_def Let_def findRedirect_def split: option.splits)
  moreover have "mid s ?i (length [s ! ?i]) = [s ! ?i]" using mid_one [OF i] by simp
  ultimately have "[s ! ?i] \<notin> set redirs" "[s ! ?i] \<notin> set ops"
    using find_Some_mem [where P = "\<lambda>r. mid s ?i (length r) = r"] by metis+
  with b assms(3) show False by (auto simp: kBreak_def redirs_def ops_def)
qed

function runLoop :: "sub \<Rightarrow> string \<Rightarrow> token list \<Rightarrow> lexer \<Rightarrow> token list \<times> lexer" where
  "runLoop sub s toks lx =
     (let i = lx_i lx in
      if i < length s \<and> \<not> lx_stop lx then
        (let c = s ! i in
         if c = CHR '' '' \<or> c = TAB then runLoop sub s toks (lx\<lparr>lx_i := i + 1\<rparr>)
         else if c = BS \<and> charAt s (i + 1) = Some NL then runLoop sub s toks (lx\<lparr>lx_i := i + 2\<rparr>)
         else if c = CHR ''#'' then
           runLoop sub s toks (lx\<lparr>lx_i := i + length (takeWhile (\<lambda>c. c \<noteq> NL) (drop i s))\<rparr>)
         else if c = NL then
           runLoop sub s (toks @ [\<lparr>tk_kind = Op, tk_text = [NL], tk_dynamic = False\<rparr>])
             (consumeHeredocs sub s (lx\<lparr>lx_i := i + 1\<rparr>))
         else case readOperator sub s lx of
                Some r \<Rightarrow> runLoop sub s (toks @ [fst r]) (snd r)
              | None \<Rightarrow> (let r = readWord sub s lx in runLoop sub s (toks @ [fst r]) (snd r)))
      else (toks, lx))"
  by pat_completeness auto
termination
proof (relation "measure (\<lambda>(sub, s, toks, lx). length s - lx_i lx)", goal_cases)
  case (4 sub s toks lx x xa)
  have "s ! lx_i lx \<noteq> NL" using 4 by (cases "s ! lx_i lx = NL") auto
  then have "0 < length (takeWhile (\<lambda>c. c \<noteq> NL) (drop (lx_i lx) s))"
    using 4 by (simp flip: Cons_nth_drop_Suc)
  with 4 show ?case by (auto intro!: diff_less_mono2)
next
  case (5 sub s toks lx x xa)
  have "Suc (lx_i lx) \<le> lx_i (consumeHeredocs sub s (lx\<lparr>lx_i := Suc (lx_i lx)\<rparr>))"
    using consumeHeredocs_ge [of "lx\<lparr>lx_i := Suc (lx_i lx)\<rparr>"] unfolding consumeHeredocs_def by simp
  with 5 show ?case by auto
next
  case (6 sub s toks lx x xa r)
  then have "s ! lx_i lx \<notin> set kBreak" by (intro no_operator_no_break) auto
  then have "lx_i lx < lx_i (snd r)" using 6 readWord_moves [of lx s sub] by auto
  with 6 show ?case by auto
next
  case (7 sub s toks lx x xa y)
  then have "lx_i lx < lx_i (snd y)" using readOperator_moves [of sub s lx "fst y" "snd y"] by simp
  with 7 show ?case by auto
qed auto

declare runLoop.simps [simp del]

definition lex :: "sub \<Rightarrow> string \<Rightarrow> token list \<times> lexer" where
  "lex sub s =
     (let (toks, lx) = runLoop sub s [] \<lparr>lx_i = 0, lx_out = no_finding, lx_heredocs = [], lx_stop = False\<rparr>
      in (toks, if \<not> lx_stop lx \<and> lx_heredocs lx \<noteq> [] then consumeHeredocs sub s lx else lx))"

section \<open>The parser\<close>

definition shellKeywords :: "string list" where
  "shellKeywords = [''if'', ''then'', ''else'', ''elif'', ''fi'', ''do'', ''done'', ''while'', ''until'',
     ''{'', ''}'', ''!'', ''time'', ''coproc'']"

definition wrappers :: "string list" where
  "wrappers = [''env'', ''nice'', ''nohup'', ''timeout'', ''xargs'', ''exec'', ''command'', ''builtin'',
     ''stdbuf'', ''ionice'', ''setsid'']"

definition wrapperOptionTakesValue :: "string \<Rightarrow> string \<Rightarrow> bool" where
  "wrapperOptionTakesValue wrapper opt =
     (opt \<in> set (valueOr [(''env'', [''-u'', ''-C'', ''-S'']), (''nice'', [''-n'']),
        (''timeout'', [''-s'', ''-k'', ''--signal'', ''--kill-after'']),
        (''xargs'', [''-n'', ''-I'', ''-L'', ''-P'', ''-d'', ''-s'', ''-a'', ''-E'']),
        (''exec'', [''-a'']), (''ionice'', [''-c'', ''-n'', ''-p''])] wrapper []))"

definition isShellInterpreter :: "string \<Rightarrow> bool" where
  "isShellInterpreter p \<longleftrightarrow> p = ''bash'' \<or> p = ''sh'' \<or> p = ''zsh'' \<or> p = ''dash'' \<or> p = ''ksh''"

definition isHarmlessShellBuiltin :: "string \<Rightarrow> bool" where
  "isHarmlessShellBuiltin name \<longleftrightarrow> name \<in> set [''cd'', ''pushd'', ''popd'', ''dirs'', ''export'', ''unset'',
     ''set'', ''shopt'', ''echo'', ''printf'', ''test'', ''['', ''true'', ''false'', '':'', ''pwd'', ''read'',
     ''exit'', ''return'', ''local'', ''declare'', ''typeset'', ''readonly'', ''shift'', ''wait'', ''type'',
     ''hash'', ''source'', ''.'', ''alias'', ''unalias'', ''umask'', ''trap'', ''let'', ''break'',
     ''continue'', ''jobs'', ''getopts'']"

definition basename :: "string \<Rightarrow> string" where
  "basename w = rev (takeWhile (\<lambda>c. c \<noteq> CHR ''/'') (rev w))"

text \<open>A match of \<open>^[A-Za-z_][A-Za-z0-9_]*(\[[^]]*\])?\+?=\<close>: no choice in it can backtrack to
  another match.\<close>

definition isAssignment :: "string \<Rightarrow> bool" where
  "isAssignment w =
     (case w of
        [] \<Rightarrow> False
      | c # cs \<Rightarrow>
          isWordC c \<and> \<not> isDigitC c \<and>
          (let r = dropWhile isWordC cs;
               r1 = (if startsWith r ''['' \<and> CHR '']'' \<in> set r
                     then drop 1 (dropWhile (\<lambda>c. c \<noteq> CHR '']'') r) else r);
               r2 = (if startsWith r1 ''+'' then drop 1 r1 else r1)
           in startsWith r2 ''=''))"

record parser =
  ps_atStart :: bool
  ps_skipUntilDo :: bool
  ps_caseHeader :: bool
  ps_caseDepth :: nat
  ps_inDoubleBracket :: bool
  ps_wrapper :: string
  ps_wrapperNeedsValue :: bool
  ps_timeoutNeedsDuration :: bool
  ps_afterPipe :: bool
  ps_out :: inspection

definition recurseText :: "sub \<Rightarrow> string \<Rightarrow> inspection \<Rightarrow> inspection" where
  "recurseText sub text out =
     (case sub text of None \<Rightarrow> out\<lparr>complete := False\<rparr> | Some r \<Rightarrow> mergeInspection r out)"

definition evalRefusal :: string where
  "evalRefusal = ''Refused: eval runs text built from variables or command output, which cannot be checked before it runs. Run the commands directly.''"

definition scriptRefusal :: "string \<Rightarrow> string" where
  "scriptRefusal prog = ''Refused: the script passed to '' @ prog @ '' -c is built from variables or command output, which cannot be checked before it runs.''"

definition pipeRefusal :: "string \<Rightarrow> string" where
  "pipeRefusal prog = ''Refused: piping text into '' @ prog @ '' runs code that cannot be checked before it runs. Save it to a file and run the file, or run the commands directly.''"

definition isWordTok :: "token \<Rightarrow> bool" where
  "isWordTok t \<longleftrightarrow> tk_kind t = Word"

text \<open>The words of \<open>eval\<close>: refused at the first dynamic one, otherwise inspected as one text. The
  number is how many tokens the loop passes over.\<close>

definition parseEval :: "sub \<Rightarrow> token list \<Rightarrow> inspection \<Rightarrow> inspection \<times> nat" where
  "parseEval sub rest out =
     (let args = takeWhile isWordTok rest;
          plain = takeWhile (\<lambda>t. \<not> tk_dynamic t) args
      in if length plain < length args then (out\<lparr>refusal := evalRefusal\<rparr>, length plain)
         else (if refusal out = []
               then (recurseText sub (joinWith '' '' (map tk_text args)) out, length args)
               else (out, length args)))"

text \<open>The arguments of a shell: whether it has a script, and what its \<open>-c\<close> script gives.\<close>

fun parseShellArgs :: "sub \<Rightarrow> string \<Rightarrow> token list \<Rightarrow> inspection \<Rightarrow> bool \<times> inspection" where
  "parseShellArgs sub prog [] out = (False, out)"
| "parseShellArgs sub prog (t # rest) out =
     (if \<not> isWordTok t then (False, out)
      else
        let a = tk_text t in
        if \<not> startsWith a ''-'' \<or> a = ''-'' then (a \<noteq> ''-'', out)
        else if startsWith a ''--'' then parseShellArgs sub prog rest out
        else if CHR ''c'' \<in> set a then
          (case rest of
             [] \<Rightarrow> (True, out)
           | u # _ \<Rightarrow>
               if \<not> isWordTok u then (True, out)
               else if tk_dynamic u then (True, out\<lparr>refusal := scriptRefusal prog\<rparr>)
               else (True, recurseText sub (tk_text u) out))
        else parseShellArgs sub prog rest out)"

text \<open>The word in command position, once keywords, assignments, patterns and wrappers are passed.\<close>

definition parseProgram :: "sub \<Rightarrow> string \<Rightarrow> token list \<Rightarrow> parser \<Rightarrow> parser \<times> nat" where
  "parseProgram sub w rest ps0 =
     (let prog = basename w; ps = ps0\<lparr>ps_atStart := False\<rparr> in
      if prog \<in> set wrappers then
        (ps\<lparr>ps_wrapper := prog, ps_atStart := True, ps_timeoutNeedsDuration := (prog = ''timeout'')\<rparr>, 0)
      else if prog = ''eval'' then
        (let (out, n) = parseEval sub rest (ps_out ps) in (ps\<lparr>ps_out := out\<rparr>, n))
      else
        let out1 = (if \<not> isHarmlessShellBuiltin prog
                    then (ps_out ps)\<lparr>programs := programs (ps_out ps) @ [prog]\<rparr> else ps_out ps);
            out3 = (if isShellInterpreter prog then
                      (let (hasScript, out2) = parseShellArgs sub prog rest out1
                       in if \<not> hasScript \<and> ps_afterPipe ps \<and> refusal out2 = []
                          then out2\<lparr>refusal := pipeRefusal prog\<rparr> else out2)
                    else out1)
        in (ps\<lparr>ps_out := out3\<rparr>, 0))"

definition isOpTok :: "token \<Rightarrow> string \<Rightarrow> bool" where
  "isOpTok t s \<longleftrightarrow> tk_kind t = Op \<and> tk_text t = s"

definition parseCommandWord :: "sub \<Rightarrow> token \<Rightarrow> token list \<Rightarrow> parser \<Rightarrow> parser \<times> nat" where
  "parseCommandWord sub t rest ps =
     (let w = tk_text t in
      if ps_caseDepth ps > 0 \<and> endsWithC w (CHR '')'') then (ps, 0)
      else if w = ''esac'' then
        (if ps_caseDepth ps > 0 then ps\<lparr>ps_caseDepth := ps_caseDepth ps - 1\<rparr> else ps, 0)
      else if w = ''case'' then (ps\<lparr>ps_caseHeader := True, ps_caseDepth := ps_caseDepth ps + 1\<rparr>, 0)
      else if w = ''for'' \<or> w = ''select'' then (ps\<lparr>ps_skipUntilDo := True\<rparr>, 0)
      else if w = ''[['' then (ps\<lparr>ps_inDoubleBracket := True, ps_atStart := False\<rparr>, 0)
      else if w = ''function'' then (ps, 1)
      else if w \<in> set shellKeywords then (ps, 0)
      else if \<not> tk_dynamic t \<and> isAssignment w then (ps, 0)
      else if length rest \<ge> 2 \<and> isOpTok (rest ! 0) ''('' \<and> isOpTok (rest ! 1) '')'' then (ps, 2)
      else if tk_dynamic t then (ps\<lparr>ps_atStart := False\<rparr>, 0)
      else parseProgram sub w rest ps)"

text \<open>One token: the new state and how many further tokens it consumes.\<close>

definition parseToken :: "sub \<Rightarrow> token \<Rightarrow> token list \<Rightarrow> parser \<Rightarrow> parser \<times> nat" where
  "parseToken sub t rest ps =
     (let w = tk_text t in
      if tk_kind t = Op then
        (if w = '';;'' then (ps\<lparr>ps_atStart := True, ps_afterPipe := False\<rparr>, 0)
         else (ps\<lparr>ps_afterPipe := (w = ''|'' \<or> w = ''|&''), ps_atStart := True, ps_wrapper := [],
                  ps_wrapperNeedsValue := False, ps_timeoutNeedsDuration := False\<rparr>, 0))
      else if tk_kind t = Redirect then (ps, 1)
      else if ps_inDoubleBracket ps then
        (if w = '']]'' then ps\<lparr>ps_inDoubleBracket := False\<rparr> else ps, 0)
      else if ps_skipUntilDo ps then
        (if w = ''do'' then ps\<lparr>ps_skipUntilDo := False, ps_atStart := True\<rparr> else ps, 0)
      else if ps_caseHeader ps then
        (if w = ''in'' then ps\<lparr>ps_caseHeader := False, ps_atStart := True\<rparr> else ps, 0)
      else if \<not> ps_atStart ps then (ps, 0)
      else if ps_wrapper ps \<noteq> [] then
        (if ps_wrapperNeedsValue ps then (ps\<lparr>ps_wrapperNeedsValue := False\<rparr>, 0)
         else if startsWith w ''-'' then
           (if ps_wrapper ps = ''command'' \<and> (w = ''-v'' \<or> w = ''-V'')
            then (ps\<lparr>ps_atStart := False, ps_wrapper := []\<rparr>, 0)
            else (ps\<lparr>ps_wrapperNeedsValue := wrapperOptionTakesValue (ps_wrapper ps) w\<rparr>, 0))
         else if ps_wrapper ps = ''env'' \<and> isAssignment w then (ps, 0)
         else if ps_timeoutNeedsDuration ps then (ps\<lparr>ps_timeoutNeedsDuration := False\<rparr>, 0)
         else parseCommandWord sub t rest (ps\<lparr>ps_wrapper := []\<rparr>))
      else parseCommandWord sub t rest ps)"

function parseLoop :: "sub \<Rightarrow> token list \<Rightarrow> parser \<Rightarrow> parser" where
  "parseLoop sub [] ps = ps"
| "parseLoop sub (t # rest) ps =
     (if refusal (ps_out ps) \<noteq> [] then ps
      else let r = parseToken sub t rest ps in parseLoop sub (drop (snd r) rest) (fst r))"
  by pat_completeness auto
termination by (relation "measure (\<lambda>(sub, toks, ps). length toks)") auto

definition new_parser :: "inspection \<Rightarrow> parser" where
  "new_parser out = \<lparr>ps_atStart = True, ps_skipUntilDo = False, ps_caseHeader = False, ps_caseDepth = 0,
     ps_inDoubleBracket = False, ps_wrapper = [], ps_wrapperNeedsValue = False,
     ps_timeoutNeedsDuration = False, ps_afterPipe = False, ps_out = out\<rparr>"

definition inspectLine :: "sub \<Rightarrow> string \<Rightarrow> inspection" where
  "inspectLine sub command =
     (let (toks, lx) = lex sub command in ps_out (parseLoop sub toks (new_parser (lx_out lx))))"

text \<open>The levels of nesting that are left: \<open>kMaxDepth - depth\<close>.\<close>

fun inspectPosixCommandAt :: "nat \<Rightarrow> string \<Rightarrow> inspection" where
  "inspectPosixCommandAt 0 command = inspectLine (\<lambda>_. None) command"
| "inspectPosixCommandAt (Suc n) command = inspectLine (\<lambda>t. Some (inspectPosixCommandAt n t)) command"

definition inspectPosixCommand :: "string \<Rightarrow> inspection" where
  "inspectPosixCommand command = inspectPosixCommandAt kMaxDepth command"

end
