(* ===== verification/Shell_Laws.thy ===== *)
theory Shell_Laws
  imports Shell_Inspector
begin

text \<open>
  The properties of the shell inspector: the refused forms are refused whatever follows them,
  quoted text is data, a refusal inside a substitution reaches the top, and where it looks away.
\<close>

section \<open>Evaluating the lexer on symbolic lines\<close>

text \<open>A character that stands for itself in a word.\<close>

definition plainC :: "char \<Rightarrow> bool" where
  "plainC c \<longleftrightarrow> c \<notin> set kBreak \<and> c \<notin> {BS, SQ, DQ, CHR ''$'', BT, CHR ''#''}"

lemma lx_here: "lx_i lx = n \<Longrightarrow> lx\<lparr>lx_i := n\<rparr> = lx"
  by (cases lx) simp

lemma wordLoop_plain:
  "list_all plainC w \<Longrightarrow> \<not> lx_stop lx \<Longrightarrow> lx_i lx = length pre \<Longrightarrow>
   wordLoop sub (pre @ w @ post) v d lx =
     wordLoop sub (pre @ w @ post) (v @ w) d (lx\<lparr>lx_i := length pre + length w\<rparr>)"
proof (induction w arbitrary: pre v lx)
  case (Cons c w)
  have "wordLoop sub (pre @ (c # w) @ post) v d lx =
      wordLoop sub ((pre @ [c]) @ w @ post) (v @ [c]) d (lx\<lparr>lx_i := length (pre @ [c])\<rparr>)"
    using Cons.prems by (subst wordLoop.simps) (auto simp: Let_def plainC_def nth_append)
  also have "\<dots> = wordLoop sub ((pre @ [c]) @ w @ post) ((v @ [c]) @ w) d
      ((lx\<lparr>lx_i := length (pre @ [c])\<rparr>)\<lparr>lx_i := length (pre @ [c]) + length w\<rparr>)"
    by (rule Cons.IH) (use Cons.prems in simp_all)
  finally show ?case by simp
qed (simp add: lx_here)

definition endsWord :: "string \<Rightarrow> bool" where
  "endsWord post \<longleftrightarrow> post = [] \<or> hd post \<in> {CHR '' '', TAB, NL, CHR '';'', CHR ''|'', CHR '')''}"

lemma wordLoop_break:
  assumes "lx_i lx = length pre" and "endsWord post"
  shows "wordLoop sub (pre @ post) v d lx = (v, d, lx)"
proof (cases post)
  case Nil
  with assms show ?thesis by (subst wordLoop.simps) simp
next
  case (Cons c cs)
  with assms(2) have "c \<in> set kBreak" "c \<noteq> CHR ''<''" "c \<noteq> CHR ''>''"
    by (auto simp: endsWord_def kBreak_def)
  with assms(1) Cons show ?thesis by (subst wordLoop.simps) (simp add: Let_def)
qed

lemma readWord_plain:
  assumes "list_all plainC w" and "\<not> lx_stop lx" and "lx_i lx = length pre"
    and "endsWord post"
  shows "readWord sub (pre @ w @ post) lx =
    (\<lparr>tk_kind = Word, tk_text = w, tk_dynamic = False\<rparr>, lx\<lparr>lx_i := length pre + length w\<rparr>)"
  using wordLoop_plain [OF assms(1-3), of sub post "[]" False]
    wordLoop_break [of "lx\<lparr>lx_i := length pre + length w\<rparr>" "pre @ w" post sub w False] assms(4)
  by (simp add: readWord_def)

lemma find_None_all: "find P xs = None \<longleftrightarrow> list_all (\<lambda>x. \<not> P x) xs"
  by (induction xs) auto

lemma mid_append [simp]: "mid (pre @ s) (length pre) n = take n s"
  by (simp add: mid_def)

lemma take_eq_Cons: "take (length r) s = r \<Longrightarrow> r \<noteq> [] \<Longrightarrow> s \<noteq> [] \<and> hd s = hd r"
  by (cases s; cases r) auto

text \<open>No redirection and no operator starts at a character that does not break words.\<close>

lemma find_redirs_None:
  assumes "s = [] \<or> hd s \<notin> {CHR ''<'', CHR ''>'', CHR ''&''}"
  shows "find (\<lambda>r. take (length r) s = r) redirs = None"
  using assms by (cases s) (auto simp: redirs_def)

lemma find_ops_None:
  assumes "s = [] \<or> hd s \<notin> {CHR '';'', CHR ''|'', CHR ''&'', CHR ''('', CHR '')''}"
  shows "find (\<lambda>r. take (length r) s = r) ops = None"
  using assms by (cases s) (auto simp: ops_def)

lemma plainC_facts: "plainC c \<Longrightarrow> c \<notin> {CHR ''<'', CHR ''>'', CHR ''&'', CHR '';'', CHR ''|'', CHR ''('', CHR '')'', CHR '' '', TAB, NL, BS, CHR ''#''}"
  by (auto simp: plainC_def kBreak_def)

lemma readOperator_none:
  assumes "list_all plainC w" and "lx_i lx = length pre"
    and "post = [] \<or> hd post \<notin> {CHR ''<'', CHR ''>'', CHR ''&''} \<and> \<not> isDigitC (hd post)"
    and "w = [] \<Longrightarrow> post = [] \<or> hd post \<notin> {CHR '';'', CHR ''|'', CHR ''('', CHR '')''}"
  shows "readOperator sub (pre @ w @ post) lx = None"
proof -
  let ?k = "length (takeWhile isDigitC (w @ post))"
  have "drop ?k (w @ post) = [] \<or> hd (drop ?k (w @ post)) \<notin> {CHR ''<'', CHR ''>'', CHR ''&''}"
  proof -
    have "drop ?k (w @ post) = dropWhile isDigitC (w @ post)" by (simp add: dropWhile_eq_drop)
    also have "\<dots> = [] \<or> hd \<dots> \<in> set w \<or> \<dots> = post"
    proof (cases "\<forall>c \<in> set w. isDigitC c")
      case True
      then have "dropWhile isDigitC (w @ post) = dropWhile isDigitC post" by simp
      moreover have "dropWhile isDigitC post = post" using assms(3) by (cases post) auto
      ultimately show ?thesis by simp
    next
      case False
      then have "dropWhile isDigitC (w @ post) = dropWhile isDigitC w @ post" unfolding dropWhile_append by auto
      moreover from False have "dropWhile isDigitC w \<noteq> []" by simp
      moreover from this have "hd (dropWhile isDigitC w) \<in> set w" by (metis hd_in_set set_dropWhileD)
      ultimately show ?thesis by simp
    qed
    finally have three: "drop ?k (w @ post) = [] \<or> hd (drop ?k (w @ post)) \<in> set w \<or> drop ?k (w @ post) = post" .
    have "c \<notin> {CHR ''<'', CHR ''>'', CHR ''&''}" if "c \<in> set w" for c
      using that assms(1) plainC_facts [of c] by (auto simp: list_all_iff)
    then show ?thesis using three assms(3) by metis
  qed
  then have "findRedirect (pre @ w @ post) (length pre) (length pre + ?k) = None"
    using find_redirs_None [of "drop ?k (w @ post)"] by (simp add: findRedirect_def mid_def)
  moreover have "find (\<lambda>r. take (length r) (w @ post) = r) ops = None"
    using assms(1,3,4) plainC_facts by (intro find_ops_None) (cases w; auto)
  ultimately show ?thesis using assms(2) by (simp add: readOperator_def Let_def)
qed

lemma readOperator_plain:
  assumes "list_all plainC w" and "w \<noteq> []" and "lx_i lx = length pre" and "endsWord post"
  shows "readOperator sub (pre @ w @ post) lx = None"
  using assms by (intro readOperator_none) (auto simp: endsWord_def isDigitC_def code_def)

lemma runLoop_word:
  assumes "list_all plainC w" and "w \<noteq> []" and "\<not> lx_stop lx" and "lx_i lx = length pre"
    and "endsWord post"
  shows "runLoop sub (pre @ w @ post) toks lx =
    runLoop sub (pre @ w @ post) (toks @ [\<lparr>tk_kind = Word, tk_text = w, tk_dynamic = False\<rparr>])
      (lx\<lparr>lx_i := length pre + length w\<rparr>)"
proof -
  obtain c cs where w: "w = c # cs" using assms(2) by (cases w) auto
  have "plainC c" using assms(1) w by simp
  then show ?thesis
    using assms readOperator_plain [OF assms(1,2,4,5)] readWord_plain [OF assms(1,3,4,5)] plainC_facts [of c]
    by (subst runLoop.simps) (auto simp: Let_def w nth_append)
qed

lemma runLoop_blank:
  "\<not> lx_stop lx \<Longrightarrow> lx_i lx = length pre \<Longrightarrow>
   runLoop sub (pre @ CHR '' '' # post) toks lx = runLoop sub (pre @ CHR '' '' # post) toks (lx\<lparr>lx_i := length pre + 1\<rparr>)"
  by (subst runLoop.simps) (simp add: Let_def nth_append)

lemma runLoop_end: "lx_i lx \<ge> length s \<Longrightarrow> runLoop sub s toks lx = (toks, lx)"
  by (subst runLoop.simps) (simp add: Let_def)

lemma runLoop_step:
  assumes "lx_i lx < length s" and "\<not> lx_stop lx"
  shows "\<exists>us lx'. lx_i lx < lx_i lx' \<and> runLoop sub s toks lx = runLoop sub s (toks @ us) lx'"
proof -
  let ?c = "s ! lx_i lx"
  note def = runLoop.simps [of sub s toks lx]
  consider "?c = CHR '' '' \<or> ?c = TAB" | "?c = BS \<and> charAt s (lx_i lx + 1) = Some NL"
    | "?c = CHR ''#''" | "?c = NL"
    | t lx' where "?c \<notin> {CHR '' '', TAB, NL, CHR ''#''}" "\<not> (?c = BS \<and> charAt s (lx_i lx + 1) = Some NL)"
        "readOperator sub s lx = Some (t, lx')"
    | "?c \<notin> {CHR '' '', TAB, NL, CHR ''#''}" "\<not> (?c = BS \<and> charAt s (lx_i lx + 1) = Some NL)"
        "readOperator sub s lx = None"
    by (cases "readOperator sub s lx") auto
  then show ?thesis
  proof cases
    case 1
    then show ?thesis using assms
      by (intro exI [of _ "[]"] exI [of _ "lx\<lparr>lx_i := lx_i lx + 1\<rparr>"]) (simp add: def Let_def)
  next
    case 2
    then show ?thesis using assms
      by (intro exI [of _ "[]"] exI [of _ "lx\<lparr>lx_i := lx_i lx + 2\<rparr>"]) (simp add: def Let_def)
  next
    case 3
    then have "0 < length (takeWhile (\<lambda>c. c \<noteq> NL) (drop (lx_i lx) s))"
      using assms by (simp flip: Cons_nth_drop_Suc)
    then show ?thesis using 3 assms
      by (intro exI [of _ "[]"] exI [of _ "lx\<lparr>lx_i := lx_i lx + length (takeWhile (\<lambda>c. c \<noteq> NL) (drop (lx_i lx) s))\<rparr>"])
        (simp add: def Let_def)
  next
    case 4
    let ?l = "consumeHeredocs sub s (lx\<lparr>lx_i := lx_i lx + 1\<rparr>)"
    have "lx_i lx < lx_i ?l"
      using consumeHeredocs_ge [of "lx\<lparr>lx_i := Suc (lx_i lx)\<rparr>"] unfolding consumeHeredocs_def
      by (simp add: Suc_le_eq)
    then show ?thesis using 4 assms
      by (intro exI [of _ "[\<lparr>tk_kind = Op, tk_text = [NL], tk_dynamic = False\<rparr>]"] exI [of _ ?l])
        (simp add: def Let_def)
  next
    case (5 t lx')
    then show ?thesis using assms readOperator_moves [OF 5(3)]
      by (intro exI [of _ "[t]"] exI [of _ lx']) (auto simp: def Let_def)
  next
    case 6
    then have "?c \<notin> set kBreak" using assms(1) by (intro no_operator_no_break) auto
    from readWord_moves [OF assms this, of sub] 6 assms show ?thesis
      by (intro exI [of _ "[fst (readWord sub s lx)]"] exI [of _ "snd (readWord sub s lx)"])
        (auto simp: def Let_def)
  qed
qed

lemma runLoop_toks: "\<exists>ts. fst (runLoop sub s toks lx) = toks @ ts"
proof (induction "length s - lx_i lx" arbitrary: toks lx rule: less_induct)
  case less
  show ?case
  proof (cases "lx_i lx < length s \<and> \<not> lx_stop lx")
    case False
    then show ?thesis by (subst runLoop.simps) auto
  next
    case True
    then obtain us lx' where u: "lx_i lx < lx_i lx'" "runLoop sub s toks lx = runLoop sub s (toks @ us) lx'"
      using runLoop_step by blast
    from u(1) True have "length s - lx_i lx' < length s - lx_i lx" by linarith
    from less.hyps [OF this, of "toks @ us"] u(2) show ?thesis by auto
  qed
qed

section \<open>Text in quotes is data\<close>

lemma indexOfC_aux_first: "c \<notin> set t \<Longrightarrow> indexOfC_aux c (t @ c # post) i = Some (i + length t)"
  by (induction t arbitrary: i) auto

lemma indexOfC_first [simp]: "c \<notin> set t \<Longrightarrow> indexOfC (pre @ t @ c # post) c (length pre) = Some (length pre + length t)"
  by (simp add: indexOfC_def indexOfC_aux_first)

lemma wordLoop_quoted:
  assumes "SQ \<notin> set t" and "\<not> lx_stop lx" and "lx_i lx = length pre"
  shows "wordLoop sub (pre @ SQ # t @ SQ # post) v d lx =
    wordLoop sub (pre @ SQ # t @ SQ # post) (v @ t) d (lx\<lparr>lx_i := length pre + length t + 2\<rparr>)"
proof -
  have "indexOfC ((pre @ [SQ]) @ t @ SQ # post) SQ (length (pre @ [SQ])) = Some (length (pre @ [SQ]) + length t)"
    using assms(1) by (rule indexOfC_first)
  then have "indexOfC (pre @ SQ # t @ SQ # post) SQ (Suc (length pre)) = Some (Suc (length pre) + length t)"
    by simp
  moreover have "mid (pre @ SQ # t @ SQ # post) (Suc (length pre)) (length t) = t" by (simp add: mid_def)
  moreover have "SQ \<notin> set kBreak" by (simp add: kBreak_def)
  ultimately show ?thesis using assms(2,3)
    by (subst wordLoop.simps) (simp add: Let_def nth_append)
qed

lemma readOperator_quote:
  "lx_i lx = length pre \<Longrightarrow> c \<in> {SQ, CHR ''$''} \<Longrightarrow> readOperator sub (pre @ c # post) lx = None"
  using readOperator_none [of "[]" lx pre "c # post" sub] by (auto simp: isDigitC_def code_def)

lemma lex_start: "runLoop sub s [] \<lparr>lx_i = 0, lx_out = no_finding, lx_heredocs = [], lx_stop = False\<rparr> =
    (toks, lx) \<Longrightarrow> lx_heredocs lx = [] \<Longrightarrow> lex sub s = (toks, lx)"
  by (simp add: lex_def)

lemma lex_echo_quoted:
  assumes "SQ \<notin> set t"
  shows "lex sub (''echo '' @ SQ # t @ [SQ]) =
    ([\<lparr>tk_kind = Word, tk_text = ''echo'', tk_dynamic = False\<rparr>, \<lparr>tk_kind = Word, tk_text = t, tk_dynamic = False\<rparr>],
     \<lparr>lx_i = length t + 7, lx_out = no_finding, lx_heredocs = [], lx_stop = False\<rparr>)"
proof (rule lex_start)
  let ?s = "''echo '' @ SQ # t @ [SQ]"
  let ?lx = "\<lambda>i. \<lparr>lx_i = i, lx_out = no_finding, lx_heredocs = [], lx_stop = False\<rparr>"
  let ?w1 = "\<lparr>tk_kind = Word, tk_text = ''echo'', tk_dynamic = False\<rparr>"
  let ?w2 = "\<lparr>tk_kind = Word, tk_text = t, tk_dynamic = False\<rparr>"
  have "runLoop sub ?s [] (?lx 0) = runLoop sub ?s [?w1] (?lx 4)"
    using runLoop_word [of "''echo''" "?lx 0" "[]" "CHR '' '' # SQ # t @ [SQ]" sub "[]"]
    by (simp add: plainC_def kBreak_def endsWord_def numeral_eq_Suc)
  also have "\<dots> = runLoop sub ?s [?w1] (?lx 5)"
    using runLoop_blank [of "?lx 4" "''echo''" sub "SQ # t @ [SQ]" "[?w1]"] by (simp add: numeral_eq_Suc)
  also have "\<dots> = runLoop sub ?s [?w1, ?w2] (?lx (length t + 7))"
  proof -
    have q: "wordLoop sub ?s [] False (?lx 5) = wordLoop sub ?s t False (?lx (length t + 7))"
      using wordLoop_quoted [OF assms, of "?lx 5" "''echo ''" sub "[]" "[]" False] by (simp add: numeral_eq_Suc)
    have "wordLoop sub ?s t False (?lx (length t + 7)) = (t, False, ?lx (length t + 7))"
      using wordLoop_break [of "?lx (length t + 7)" ?s "[]"] by (simp add: endsWord_def numeral_eq_Suc)
    with q have "readWord sub ?s (?lx 5) = (?w2, ?lx (length t + 7))" by (simp add: readWord_def)
    moreover have "readOperator sub ?s (?lx 5) = None"
      using readOperator_quote [of "?lx 5" "''echo ''" SQ sub "t @ [SQ]"] by (simp add: numeral_eq_Suc)
    ultimately show ?thesis by (subst runLoop.simps) (simp add: Let_def numeral_eq_Suc)
  qed
  also have "\<dots> = ([?w1, ?w2], ?lx (length t + 7))"
    by (rule runLoop_end) simp
  finally show "runLoop sub ?s [] (?lx 0) = ([?w1, ?w2], ?lx (length t + 7))" .
qed simp

lemma inspectPosix_line: "\<exists>sub. inspectPosixCommandAt n s = inspectLine sub s"
  by (cases n) auto

text \<open>
  Quoted text is data: whatever stands between single quotes as the argument of \<open>echo\<close>, command
  substitutions, pipes into shells and \<open>eval\<close> included, no program is found in it, nothing is
  refused and the line is understood completely.
\<close>

theorem single_quoted_text_is_data:
  assumes "SQ \<notin> set t"
  shows "inspectPosixCommand (''echo '' @ [SQ] @ t @ [SQ]) = no_finding"
proof -
  obtain sub where "inspectPosixCommand (''echo '' @ [SQ] @ t @ [SQ]) = inspectLine sub (''echo '' @ SQ # t @ [SQ])"
    using inspectPosix_line [of kMaxDepth] unfolding inspectPosixCommand_def by auto
  then show ?thesis
    using lex_echo_quoted [OF assms, of sub]
    by (simp add: inspectLine_def new_parser_def no_finding_def parseToken_def parseCommandWord_def
        parseProgram_def shellKeywords_def wrappers_def isAssignment_def isWordC_def isDigitC_def code_def
        isHarmlessShellBuiltin_def isShellInterpreter_def basename_def startsWith_def Let_def)
qed

theorem single_quoted_text_is_data_witness:
  "inspectPosixCommand (''echo '' @ [SQ] @ ''eval $X | bash; $(rm -rf /)'' @ [SQ]) = no_finding"
  by (rule single_quoted_text_is_data) simp

section \<open>The refused forms\<close>

definition wordTok :: "string \<Rightarrow> token" where
  "wordTok w = \<lparr>tk_kind = Word, tk_text = w, tk_dynamic = False\<rparr>"

definition plainWord :: "string \<Rightarrow> bool" where
  "plainWord w \<longleftrightarrow> w \<noteq> [] \<and> list_all plainC w"

definition spaced :: "string list \<Rightarrow> string" where
  "spaced ws = concat (map (\<lambda>w. w @ '' '') ws)"

lemma spaced_simps [simp]: "spaced [] = []" "spaced (w # ws) = w @ '' '' @ spaced ws"
  by (simp_all add: spaced_def)

lemma runLoop_words:
  "list_all plainWord ws \<Longrightarrow> \<not> lx_stop lx \<Longrightarrow> lx_i lx = length pre \<Longrightarrow>
   runLoop sub (pre @ spaced ws @ post) toks lx =
     runLoop sub (pre @ spaced ws @ post) (toks @ map wordTok ws) (lx\<lparr>lx_i := length pre + length (spaced ws)\<rparr>)"
proof (induction ws arbitrary: pre toks lx)
  case (Cons w ws)
  have w: "list_all plainC w" "w \<noteq> []" using Cons.prems(1) by (simp_all add: plainWord_def)
  have "runLoop sub (pre @ w @ '' '' @ spaced ws @ post) toks lx =
      runLoop sub (pre @ w @ '' '' @ spaced ws @ post) (toks @ [wordTok w]) (lx\<lparr>lx_i := length pre + length w\<rparr>)"
    using runLoop_word [OF w Cons.prems(2,3), of "'' '' @ spaced ws @ post" sub toks]
    by (simp add: endsWord_def wordTok_def)
  also have "\<dots> = runLoop sub ((pre @ w) @ CHR '' '' # spaced ws @ post) (toks @ [wordTok w]) (lx\<lparr>lx_i := length (pre @ w) + 1\<rparr>)"
    using runLoop_blank [of "lx\<lparr>lx_i := length pre + length w\<rparr>" "pre @ w" sub "spaced ws @ post" "toks @ [wordTok w]"]
      Cons.prems(2) by simp
  also have "\<dots> = runLoop sub ((pre @ w @ '' '') @ spaced ws @ post) ((toks @ [wordTok w]) @ map wordTok ws)
      ((lx\<lparr>lx_i := length (pre @ w) + 1\<rparr>)\<lparr>lx_i := length (pre @ w @ '' '') + length (spaced ws)\<rparr>)"
    using Cons.IH [of "lx\<lparr>lx_i := length (pre @ w) + 1\<rparr>" "pre @ w @ '' ''" "toks @ [wordTok w]"] Cons.prems by simp
  finally show ?case by (simp add: add.assoc)
qed (simp add: lx_here)

lemma dqLoop_dynamic: "d \<Longrightarrow> fst (snd (dqLoop sub s v d lx))"
proof (induction sub s v d lx rule: dqLoop.induct)
  case (1 sub s v d lx)
  show ?case
  proof (cases "lx_i lx < length s \<and> \<not> lx_stop lx")
    case True
    obtain a b c where rd: "readDollar sub s v lx = (a, b, c)" by (metis prod_cases3)
    obtain e f where rb: "readBacktick sub s v lx = (e, f)" by fastforce
    from True "1.IH" [OF refl _ refl] "1.prems" show ?thesis
      by (subst dqLoop.simps) (auto simp: Let_def rd rb)
  next
    case False
    then show ?thesis using "1.prems" by (subst dqLoop.simps) (auto simp: Let_def)
  qed
qed

lemma wordLoop_dynamic: "fst (snd (wordLoop sub s v True lx))"
proof (induction "length s - lx_i lx" arbitrary: v lx rule: less_induct)
  case less
  have go: "lx_i lx < length s \<Longrightarrow> lx_i lx < lx_i lx' \<Longrightarrow> fst (snd (wordLoop sub s v' True lx'))" for v' lx'
    using less.hyps [of lx' v'] by fastforce
  obtain a b c where rd: "readDollar sub s v lx = (a, b, c)" by (metis prod_cases3)
  obtain e f where rb: "readBacktick sub s v lx = (e, f)" by fastforce
  obtain g h i j where dq0: "dqLoop sub s v True (lx\<lparr>lx_i := Suc (lx_i lx)\<rparr>) = (g, h, i, j)" by (metis prod_cases4)
  have j: "lx_i lx < lx_i j" using dqLoop_ge [of "lx\<lparr>lx_i := Suc (lx_i lx)\<rparr>" sub s v True] dq0 by simp
  have "h" using dqLoop_dynamic [of True sub s v "lx\<lparr>lx_i := Suc (lx_i lx)\<rparr>"] dq0 by simp
  with dq0 have dq: "dqLoop sub s v True (lx\<lparr>lx_i := Suc (lx_i lx)\<rparr>) = (g, True, i, j)" by simp
  have moves: "lx_i lx < length s \<Longrightarrow> lx_i lx < lx_i c" "lx_i lx < length s \<Longrightarrow> lx_i lx < lx_i f"
    using readDollar_moves [of lx s sub v] readBacktick_moves [of lx s sub v] rd rb by auto
  show ?case
  proof (cases "lx_i lx < length s \<and> \<not> lx_stop lx")
    case False
    then show ?thesis by (subst wordLoop.simps) (auto simp: Let_def)
  next
    case True
    with j moves show ?thesis
      by (subst wordLoop.simps) (simp add: Let_def rd rb dq go split: option.split,
        auto dest!: matchParen_ge indexOfC_SomeD intro: go)
  qed
qed

text \<open>
  A word is dynamic when a dollar sign follows its plain beginning, also inside double quotes, whatever comes
  after the sign except the quote of \<open>$'...'\<close>.
\<close>

definition opensQuote :: "string \<Rightarrow> bool" where
  "opensQuote q \<longleftrightarrow> q = [] \<or> hd q = DQ \<and> list_all (\<lambda>c. c \<notin> {DQ, BS, CHR ''$'', BT}) (tl q)"

lemma readDollar_dynamic:
  "lx_i lx = length pre \<Longrightarrow> c \<noteq> SQ \<Longrightarrow> fst (snd (readDollar sub (pre @ CHR ''$'' # c # rest) v lx))"
  by (auto simp: readDollar_def Let_def charAt_def nth_append case_prod_beta split: option.split)

lemma dqLoop_plain:
  "list_all (\<lambda>c. c \<notin> {DQ, BS, CHR ''$'', BT}) q \<Longrightarrow> \<not> lx_stop lx \<Longrightarrow> lx_i lx = length pre \<Longrightarrow>
   dqLoop sub (pre @ q @ post) v d lx = dqLoop sub (pre @ q @ post) (v @ q) d (lx\<lparr>lx_i := length pre + length q\<rparr>)"
proof (induction q arbitrary: pre v lx)
  case (Cons c q)
  have "dqLoop sub (pre @ (c # q) @ post) v d lx = dqLoop sub ((pre @ [c]) @ q @ post) (v @ [c]) d (lx\<lparr>lx_i := length (pre @ [c])\<rparr>)"
    using Cons.prems by (subst dqLoop.simps) (auto simp: Let_def nth_append)
  also have "\<dots> = dqLoop sub ((pre @ [c]) @ q @ post) ((v @ [c]) @ q) d
      ((lx\<lparr>lx_i := length (pre @ [c])\<rparr>)\<lparr>lx_i := length (pre @ [c]) + length q\<rparr>)"
    by (rule Cons.IH) (use Cons.prems in simp_all)
  finally show ?case by simp
qed (simp add: lx_here)

lemma wordLoop_dollar:
  assumes "\<not> lx_stop lx" "lx_i lx = length pre" "opensQuote q" "c \<noteq> SQ"
  shows "fst (snd (wordLoop sub (pre @ q @ CHR ''$'' # c # rest) v False lx))"
proof (cases q)
  case Nil
  let ?s = "pre @ CHR ''$'' # c # rest"
  obtain w lx1 where "readDollar sub ?s v lx = (w, True, lx1)"
    using readDollar_dynamic [OF assms(2,4), of sub rest v] by (metis prod.collapse)
  then have "wordLoop sub ?s v False lx = wordLoop sub ?s w True lx1"
    using assms by (subst wordLoop.simps) (simp add: Let_def kBreak_def)
  then show ?thesis using wordLoop_dynamic Nil by simp
next
  case (Cons x r)
  then have x: "x = DQ" "list_all (\<lambda>c. c \<notin> {DQ, BS, CHR ''$'', BT}) r" using assms(3) by (simp_all add: opensQuote_def)
  let ?s = "pre @ q @ CHR ''$'' # c # rest" and ?pre = "(pre @ [DQ]) @ r"
  have s: "?s = (pre @ [DQ]) @ r @ CHR ''$'' # c # rest" "?s = ?pre @ CHR ''$'' # c # rest" using Cons x by simp_all
  let ?lx1 = "lx\<lparr>lx_i := Suc (length pre)\<rparr>" and ?lx2 = "lx\<lparr>lx_i := length ?pre\<rparr>"
  have "dqLoop sub ?s v False ?lx1 = dqLoop sub ?s (v @ r) False ?lx2"
    using dqLoop_plain [OF x(2), of ?lx1 "pre @ [DQ]" sub "CHR ''$'' # c # rest" v False] assms(1) by (simp add: s(1))
  moreover
  have "fst (snd (readDollar sub ?s (v @ r) ?lx2))" unfolding s(2) by (rule readDollar_dynamic) (use assms(4) in simp_all)
  then obtain w lx3 where "readDollar sub ?s (v @ r) ?lx2 = (w, True, lx3)" by (cases "readDollar sub ?s (v @ r) ?lx2") auto
  then have "dqLoop sub ?s (v @ r) False ?lx2 = dqLoop sub ?s w True lx3"
    using assms(1) by (subst dqLoop.simps) (simp add: Let_def s(2) nth_append)
  ultimately have dyn: "fst (snd (dqLoop sub ?s v False ?lx1))" using dqLoop_dynamic [of True sub ?s w lx3] by simp
  have "wordLoop sub ?s v False lx = (let r = dqLoop sub ?s v False ?lx1 in
      if \<not> fst (snd (snd r)) then (fst r, fst (snd r), lex_fail (snd (snd (snd r))))
      else wordLoop sub ?s (fst r) (fst (snd r)) (snd (snd (snd r))))"
  proof -
    have "?s ! length pre = DQ" "length pre < length ?s" using Cons x(1) by (simp_all add: nth_append)
    then show ?thesis using assms(1,2) wordLoop.simps [of sub ?s v False lx] by (simp add: kBreak_def Let_def)
  qed
  with dyn show ?thesis
    using wordLoop_dynamic [of sub ?s "fst (dqLoop sub ?s v False ?lx1)" "snd (snd (snd (dqLoop sub ?s v False ?lx1)))"]
    by (simp add: Let_def)
qed

lemma runLoop_variable:
  assumes "\<not> lx_stop lx" and "lx_i lx = length pre" and "list_all plainC w" and "opensQuote q" and "c \<noteq> SQ"
  shows "\<exists>t ts lx'. tk_kind t = Word \<and> tk_dynamic t \<and>
    runLoop sub (pre @ w @ q @ CHR ''$'' # c # rest) toks lx = (toks @ t # ts, lx')"
proof -
  let ?s = "pre @ w @ q @ CHR ''$'' # c # rest"
  have "wordLoop sub ?s [] False lx = wordLoop sub ((pre @ w) @ q @ CHR ''$'' # c # rest) w False (lx\<lparr>lx_i := length (pre @ w)\<rparr>)"
    using wordLoop_plain [OF assms(3,1,2), of sub "q @ CHR ''$'' # c # rest" "[]" False] by simp
  then have "fst (snd (wordLoop sub ?s [] False lx))"
    using wordLoop_dollar [of "lx\<lparr>lx_i := length (pre @ w)\<rparr>" "pre @ w" q c sub rest w] assms by simp
  then have dyn: "tk_dynamic (fst (readWord sub ?s lx))" "tk_kind (fst (readWord sub ?s lx)) = Word"
    by (simp_all add: readWord_def case_prod_beta)
  obtain x xs where x: "w @ q @ CHR ''$'' # c # rest = x # xs" by (cases "w @ q @ CHR ''$'' # c # rest") auto
  then have starts: "x \<notin> set kBreak" "x \<noteq> CHR ''#''" "x \<noteq> BS"
    using assms(3,4) by (cases w; cases q; auto simp: plainC_def opensQuote_def kBreak_def)+
  have "readOperator sub ?s lx = None"
    using assms(4) by (intro readOperator_none [OF assms(3,2)]) (cases q; auto simp: opensQuote_def isDigitC_def code_def)+
  then have "runLoop sub ?s toks lx = runLoop sub ?s (toks @ [fst (readWord sub ?s lx)]) (snd (readWord sub ?s lx))"
    using assms(1,2) starts by (subst runLoop.simps) (simp add: Let_def x kBreak_def)
  with runLoop_toks [of sub ?s "toks @ [fst (readWord sub ?s lx)]" "snd (readWord sub ?s lx)"] dyn
  show ?thesis by (intro exI [of _ "fst (readWord sub ?s lx)"]) (auto simp: prod_eq_iff)
qed

lemma lex_words_variable:
  assumes "list_all plainWord ws" and "list_all plainC w" and "opensQuote q" and "c \<noteq> SQ"
  shows "\<exists>t ts lx. tk_kind t = Word \<and> tk_dynamic t \<and>
    lex sub (spaced ws @ w @ q @ CHR ''$'' # c # rest) = (map wordTok ws @ t # ts, lx)"
proof -
  let ?s = "spaced ws @ w @ q @ CHR ''$'' # c # rest"
  let ?lx0 = "\<lparr>lx_i = 0, lx_out = no_finding, lx_heredocs = [], lx_stop = False\<rparr>"
  have "runLoop sub ?s [] ?lx0 = runLoop sub ?s (map wordTok ws) (?lx0\<lparr>lx_i := length (spaced ws)\<rparr>)"
    using runLoop_words [OF assms(1), of ?lx0 "[]" sub "w @ q @ CHR ''$'' # c # rest" "[]"] by simp
  moreover obtain t ts lx' where "tk_kind t = Word" "tk_dynamic t"
    "runLoop sub ?s (map wordTok ws) (?lx0\<lparr>lx_i := length (spaced ws)\<rparr>) = (map wordTok ws @ t # ts, lx')"
    using runLoop_variable [of "?lx0\<lparr>lx_i := length (spaced ws)\<rparr>" "spaced ws" w q c sub rest "map wordTok ws"] assms(2-)
    by auto
  ultimately show ?thesis by (auto simp: lex_def Let_def)
qed

lemma parseLoop_refused: "refusal (ps_out ps) \<noteq> [] \<Longrightarrow> parseLoop sub toks ps = ps"
  by (cases toks) simp_all

lemma takeWhile_words [simp]: "takeWhile isWordTok (map wordTok ws @ ts) = map wordTok ws @ takeWhile isWordTok ts"
  by (induction ws) (simp_all add: isWordTok_def wordTok_def)

lemma takeWhile_static [simp]:
  "takeWhile (\<lambda>t. \<not> tk_dynamic t) (map wordTok ws @ ts) = map wordTok ws @ takeWhile (\<lambda>t. \<not> tk_dynamic t) ts"
  by (induction ws) (simp_all add: wordTok_def)

lemma parseEval_dynamic:
  "isWordTok t \<Longrightarrow> tk_dynamic t \<Longrightarrow> refusal (fst (parseEval sub (map wordTok ws @ t # ts) out)) = evalRefusal"
  by (simp add: parseEval_def Let_def)

lemma eval_refuses_dynamic:
  assumes "list_all plainWord args" and "list_all plainC w" and "opensQuote q" and "c \<noteq> SQ"
  shows "refusal (inspectPosixCommand (''eval '' @ spaced args @ w @ q @ ''$'' @ c # rest)) \<noteq> []"
proof -
  let ?s = "spaced (''eval'' # args) @ w @ q @ CHR ''$'' # c # rest"
  obtain sub where sub: "inspectPosixCommand ?s = inspectLine sub ?s"
    using inspectPosix_line unfolding inspectPosixCommand_def by blast
  have "list_all plainWord (''eval'' # args)" using assms(1) by (simp add: plainWord_def plainC_def kBreak_def)
  from lex_words_variable [OF this assms(2-), of sub rest]
  obtain t ts lx where t: "tk_kind t = Word" "tk_dynamic t"
      "lex sub ?s = (map wordTok (''eval'' # args) @ t # ts, lx)" by blast
  let ?ps = "new_parser (lx_out lx)"
  have tok: "parseToken sub (wordTok ''eval'') (map wordTok args @ t # ts) ?ps =
      (let (out, n) = parseEval sub (map wordTok args @ t # ts) (lx_out lx) in (?ps\<lparr>ps_atStart := False, ps_out := out\<rparr>, n))"
  proof -
    have "\<not> (2 \<le> length (map wordTok args @ t # ts) \<and> isOpTok ((map wordTok args @ t # ts) ! 0) ''('' \<and> r)" for r
      using t(1) by (cases args) (auto simp: isOpTok_def wordTok_def)
    then show ?thesis
      by (simp add: parseToken_def wordTok_def new_parser_def parseCommandWord_def shellKeywords_def isAssignment_def
          isWordC_def isDigitC_def code_def startsWith_def parseProgram_def wrappers_def basename_def Let_def
          case_prod_beta)
  qed
  have "refusal (ps_out (parseLoop sub (map wordTok (''eval'' # args) @ t # ts) ?ps)) \<noteq> []"
  proof (cases "refusal (lx_out lx) = []")
    case True
    have "refusal (fst (parseEval sub (map wordTok args @ t # ts) (lx_out lx))) \<noteq> []"
      using parseEval_dynamic [of t sub args ts "lx_out lx"] t by (simp add: isWordTok_def evalRefusal_def)
    then show ?thesis
      using True tok by (simp add: case_prod_beta parseLoop_refused new_parser_def)
  next
    case False
    then show ?thesis by (simp add: parseLoop_refused new_parser_def)
  qed
  then show ?thesis using sub t(3) by (simp add: inspectLine_def)
qed

text \<open>
  C16. Text built from a variable or a command is never run by \<open>eval\<close> unseen: a line that starts with
  \<open>eval\<close>, any plain words and a word in which a dollar sign follows plain characters, or plain
  characters and the opening of a double quote, is refused, whatever the sign starts (a name, \<open>${...}\<close>,
  \<open>$(...)\<close>, \<open>$((...))\<close>) and whatever follows on the line. Only \<open>$'...'\<close> is literal text.
\<close>

theorem eval_of_variable_refused:
  assumes "list_all plainWord args" and "list_all plainC w" and "opensQuote q" and "c \<noteq> SQ"
  shows "refusal (inspectPosixCommand (''eval '' @ spaced args @ w @ q @ ''$'' @ c # rest)) \<noteq> []"
  using assms by (rule eval_refuses_dynamic)

theorem eval_of_variable_refused_witness:
  "refusal (inspectPosixCommand (''eval set -- a'' @ [DQ] @ ''b${X}'' @ [DQ] @ '' > out; ls'')) \<noteq> []"
  using eval_of_variable_refused [of "[''set'', ''--'']" "''a''" "DQ # ''b''" "CHR ''{''" "''X}'' @ [DQ] @ '' > out; ls''"]
  by (simp add: plainWord_def plainC_def kBreak_def opensQuote_def)

text \<open>
  A script built from variables is never passed to a shell unseen: a line with a shell, one option
  group holding \<open>c\<close> and a word starting with a variable is refused, whatever follows.
\<close>

theorem shell_script_of_variable_refused:
  assumes "isShellInterpreter sh" and "plainWord opt" and "startsWith opt ''-''" and "\<not> startsWith opt ''--''"
    and "CHR ''c'' \<in> set opt" and "c \<notin> {CHR ''('', CHR ''{'', SQ}"
  shows "refusal (inspectPosixCommand (sh @ '' '' @ opt @ '' $'' @ c # rest)) \<noteq> []"
proof -
  let ?s = "spaced [sh, opt] @ CHR ''$'' # c # rest"
  obtain sub where sub: "inspectPosixCommand ?s = inspectLine sub ?s"
    using inspectPosix_line unfolding inspectPosixCommand_def by blast
  have shp: "plainWord sh" using assms(1) by (auto simp: isShellInterpreter_def plainWord_def plainC_def kBreak_def)
  then have "list_all plainWord [sh, opt]" using assms(2) by simp
  from lex_words_variable [OF this, of "[]" "[]" c sub rest] assms(6)
  obtain t ts lx where t: "tk_kind t = Word" "tk_dynamic t"
      "lex sub ?s = (wordTok sh # wordTok opt # t # ts, lx)" by (auto simp: opensQuote_def)
  let ?ps = "new_parser (lx_out lx)"
  have notdash: "opt \<noteq> ''-''" using assms(5) by auto
  have args: "refusal (snd (parseShellArgs sub sh (wordTok opt # t # ts) out)) \<noteq> []" for out
    using assms(3-5) t(1,2) notdash by (simp add: isWordTok_def wordTok_def scriptRefusal_def)
  have prog: "refusal (ps_out (fst (parseProgram sub sh (wordTok opt # t # ts) (new_parser out)))) \<noteq> []" for out
  proof -
    have "basename sh = sh" "sh \<notin> set wrappers" "sh \<noteq> ''eval''"
      using assms(1) by (auto simp: isShellInterpreter_def basename_def wrappers_def)
    with args assms(1) show ?thesis
      by (auto simp: parseProgram_def Let_def case_prod_beta new_parser_def)
  qed
  have "parseToken sub (wordTok sh) (wordTok opt # t # ts) ?ps = parseProgram sub sh (wordTok opt # t # ts) ?ps"
  proof -
    have "sh \<notin> {''esac'', ''case'', ''for'', ''select'', ''[['', ''function''}" "sh \<notin> set shellKeywords" "\<not> isAssignment sh"
      using assms(1) by (auto simp: isShellInterpreter_def shellKeywords_def isAssignment_def isWordC_def code_def
          startsWith_def Let_def isDigitC_def)
    then show ?thesis
      by (simp add: parseToken_def parseCommandWord_def wordTok_def new_parser_def isOpTok_def)
  qed
  with prog have "refusal (ps_out (parseLoop sub (wordTok sh # wordTok opt # t # ts) ?ps)) \<noteq> []"
    by (cases "refusal (lx_out lx) = []") (simp_all add: parseLoop_refused new_parser_def)
  then show ?thesis using sub t(3) by (simp add: inspectLine_def)
qed

theorem shell_script_of_variable_refused_witness:
  "refusal (inspectPosixCommand ''bash -lc $CMD && echo ok'') \<noteq> []"
  using shell_script_of_variable_refused [of "''bash''" "''-lc''" "CHR ''C''" "''MD && echo ok''"]
  by (simp add: isShellInterpreter_def plainWord_def plainC_def kBreak_def startsWith_def)

subsection \<open>Text piped into a shell\<close>

text \<open>A word that names a program to the parser.\<close>

definition ordinary :: "string \<Rightarrow> bool" where
  "ordinary w \<longleftrightarrow> plainWord w \<and> w \<notin> {''esac'', ''case'', ''for'', ''select'', ''[['', ''function''} \<and>
     w \<notin> set shellKeywords \<and> \<not> isAssignment w \<and> basename w \<notin> set wrappers \<and> basename w \<noteq> ''eval'' \<and>
     \<not> isShellInterpreter (basename w)"

lemma runLoop_pipe:
  assumes "\<not> lx_stop lx" and "lx_i lx = length pre"
  shows "runLoop sub (pre @ ''| '' @ post) toks lx =
    runLoop sub (pre @ ''| '' @ post) (toks @ [\<lparr>tk_kind = Op, tk_text = ''|'', tk_dynamic = False\<rparr>])
      (lx\<lparr>lx_i := length pre + 2\<rparr>)"
proof -
  let ?s = "pre @ ''| '' @ post" and ?t = "\<lparr>tk_kind = Op, tk_text = ''|'', tk_dynamic = False\<rparr>"
  have "takeWhile isDigitC (''| '' @ post) = []" by (simp add: isDigitC_def code_def)
  moreover have "find (\<lambda>r. take (length r) (''| '' @ post) = r) redirs = None" by (intro find_redirs_None) simp
  moreover have "find (\<lambda>r. take (length r) (''| '' @ post) = r) ops = Some ''|''" by (simp add: ops_def)
  ultimately have "readOperator sub ?s lx = Some (?t, lx\<lparr>lx_i := length pre + 1\<rparr>)"
    using assms(2) by (simp add: readOperator_def Let_def findRedirect_def)
  then have "runLoop sub ?s toks lx = runLoop sub ?s (toks @ [?t]) (lx\<lparr>lx_i := length pre + 1\<rparr>)"
    using assms by (subst runLoop.simps) (simp add: Let_def nth_append)
  also have "\<dots> = runLoop sub ?s (toks @ [?t]) (lx\<lparr>lx_i := length pre + 2\<rparr>)"
    using runLoop_blank [of "lx\<lparr>lx_i := length pre + 1\<rparr>" "pre @ ''|''" sub post "toks @ [?t]"] assms(1) by simp
  finally show ?thesis .
qed

lemma lex_pipe:
  assumes "list_all plainWord ws" and "plainWord sh"
  shows "\<exists>lx. lex sub (spaced ws @ ''| '' @ sh) =
    (map wordTok ws @ [\<lparr>tk_kind = Op, tk_text = ''|'', tk_dynamic = False\<rparr>, wordTok sh], lx) \<and> lx_out lx = no_finding"
proof -
  let ?s = "spaced ws @ ''| '' @ sh"
  let ?lx = "\<lambda>i. \<lparr>lx_i = i, lx_out = no_finding, lx_heredocs = [], lx_stop = False\<rparr>"
  let ?p = "\<lparr>tk_kind = Op, tk_text = ''|'', tk_dynamic = False\<rparr>"
  have "runLoop sub ?s [] (?lx 0) = runLoop sub ?s (map wordTok ws) (?lx (length (spaced ws)))"
    using runLoop_words [OF assms(1), of "?lx 0" "[]" sub "''| '' @ sh" "[]"] by simp
  also have "\<dots> = runLoop sub ?s (map wordTok ws @ [?p]) (?lx (length (spaced ws) + 2))"
    using runLoop_pipe [of "?lx (length (spaced ws))" "spaced ws" sub sh] by simp
  also have "\<dots> = runLoop sub ?s (map wordTok ws @ [?p, wordTok sh]) (?lx (length ?s))"
    using runLoop_word [of sh "?lx (length (spaced ws) + 2)" "spaced ws @ ''| ''" "[]" sub "map wordTok ws @ [?p]"] assms(2)
    by (simp add: plainWord_def endsWord_def wordTok_def)
  also have "\<dots> = (map wordTok ws @ [?p, wordTok sh], ?lx (length ?s))" by (rule runLoop_end) simp
  finally have "lex sub ?s = (map wordTok ws @ [?p, wordTok sh], ?lx (length ?s))" by (rule lex_start) simp
  then show ?thesis by auto
qed

lemma parseLoop_arguments:
  "\<not> ps_atStart ps \<Longrightarrow> refusal (ps_out ps) = [] \<Longrightarrow> \<not> ps_inDoubleBracket ps \<Longrightarrow> \<not> ps_skipUntilDo ps \<Longrightarrow>
   \<not> ps_caseHeader ps \<Longrightarrow> parseLoop sub (map wordTok ws @ ts) ps = parseLoop sub ts ps"
  by (induction ws) (simp_all add: parseToken_def wordTok_def)

lemma parseLoop_step:
  "parseToken sub t rest ps = (ps', 0) \<Longrightarrow> refusal (ps_out ps) = [] \<Longrightarrow>
   parseLoop sub (t # rest) ps = parseLoop sub rest ps'"
  by simp

text \<open>
  Text is never piped into a shell unseen: any ordinary program with any plain arguments, piped into
  a shell without arguments, is refused.
\<close>

theorem pipe_into_shell_refused:
  assumes "ordinary w" and "list_all plainWord args" and "isShellInterpreter sh"
  shows "refusal (inspectPosixCommand (spaced (w # args) @ ''| '' @ sh)) = pipeRefusal sh"
proof -
  let ?s = "spaced (w # args) @ ''| '' @ sh" and ?p = "\<lparr>tk_kind = Op, tk_text = ''|'', tk_dynamic = False\<rparr>"
  obtain sub where sub: "inspectPosixCommand ?s = inspectLine sub ?s"
    using inspectPosix_line unfolding inspectPosixCommand_def by blast
  have shp: "plainWord sh" using assms(3) by (auto simp: isShellInterpreter_def plainWord_def plainC_def kBreak_def)
  have "list_all plainWord (w # args)" using assms(1,2) by (simp add: ordinary_def)
  from lex_pipe [OF this shp, of sub] obtain lx where lx:
    "lex sub ?s = (wordTok w # map wordTok args @ [?p, wordTok sh], lx)" "lx_out lx = no_finding" by auto
  let ?rest = "map wordTok args @ [?p, wordTok sh]"
  define out where "out = (if \<not> isHarmlessShellBuiltin (basename w) then no_finding\<lparr>programs := [basename w]\<rparr> else no_finding)"
  have out: "refusal out = []" by (simp add: out_def no_finding_def)
  have nofun: "\<not> (2 \<le> length ?rest \<and> isOpTok (?rest ! 0) ''('' \<and> r)" for r
    by (cases args) (auto simp: isOpTok_def wordTok_def)
  have 1: "parseToken sub (wordTok w) ?rest (new_parser no_finding) =
      ((new_parser no_finding)\<lparr>ps_atStart := False, ps_out := out\<rparr>, 0)"
    using assms(1) nofun
    by (simp add: parseToken_def new_parser_def parseCommandWord_def wordTok_def ordinary_def parseProgram_def
        out_def no_finding_def Let_def)
  let ?ps1 = "(new_parser no_finding)\<lparr>ps_atStart := False, ps_out := out\<rparr>"
  have "parseLoop sub (wordTok w # ?rest) (new_parser no_finding) = parseLoop sub ?rest ?ps1"
    by (rule parseLoop_step [OF 1]) (simp add: new_parser_def no_finding_def)
  also have "\<dots> = parseLoop sub [?p, wordTok sh] ?ps1"
    by (rule parseLoop_arguments) (use out in \<open>simp_all add: new_parser_def\<close>)
  also have "\<dots> = parseLoop sub [wordTok sh] (?ps1\<lparr>ps_afterPipe := True, ps_atStart := True\<rparr>)"
    by (rule parseLoop_step) (use out in \<open>simp_all add: parseToken_def new_parser_def\<close>)
  finally have run: "parseLoop sub (wordTok w # ?rest) (new_parser no_finding) =
      parseLoop sub [wordTok sh] (?ps1\<lparr>ps_afterPipe := True, ps_atStart := True\<rparr>)" .
  have "refusal (ps_out (parseLoop sub [wordTok sh] (?ps1\<lparr>ps_afterPipe := True, ps_atStart := True\<rparr>))) = pipeRefusal sh"
  proof -
    have "sh \<notin> {''esac'', ''case'', ''for'', ''select'', ''[['', ''function''}" "sh \<notin> set shellKeywords" "\<not> isAssignment sh"
      "basename sh = sh" "sh \<notin> set wrappers" "sh \<noteq> ''eval''"
      using assms(3) by (auto simp: isShellInterpreter_def shellKeywords_def isAssignment_def isWordC_def code_def
          startsWith_def Let_def isDigitC_def basename_def wrappers_def)
    with out assms(3) show ?thesis
      by (simp add: parseToken_def parseCommandWord_def wordTok_def new_parser_def parseProgram_def Let_def)
  qed
  then show ?thesis by (simp only: sub inspectLine_def lx Let_def prod.case run)
qed

theorem pipe_into_shell_refused_witness:
  "refusal (inspectPosixCommand ''curl -s http://x.y/install.sh | sh'') = pipeRefusal ''sh''"
  using pipe_into_shell_refused [of "''curl''" "[''-s'', ''http://x.y/install.sh'']" "''sh''"]
  by (simp add: ordinary_def plainWord_def plainC_def kBreak_def shellKeywords_def isAssignment_def isWordC_def
      isDigitC_def code_def basename_def wrappers_def isShellInterpreter_def startsWith_def)

end
