(* ===== verification/Shell_Nesting.thy ===== *)
theory Shell_Nesting
  imports Shell_Laws
begin

text \<open>
  Command substitutions: what is inside \<open>$(...)\<close> is inspected like a line of its own, down to
  a limit of sixteen levels, and the places where the inspector looks away.
\<close>

section \<open>Balanced text\<close>

text \<open>Text whose parentheses close each other and which holds no quotes and no backslashes.\<close>

inductive balanced :: "string \<Rightarrow> bool" where
  balanced_Nil: "balanced []"
| balanced_char: "c \<notin> {BS, SQ, DQ, CHR ''('', CHR '')''} \<Longrightarrow> balanced t \<Longrightarrow> balanced (c # t)"
| balanced_paren: "balanced t \<Longrightarrow> balanced u \<Longrightarrow> balanced (CHR ''('' # t @ CHR '')'' # u)"

lemma balanced_append: "balanced t \<Longrightarrow> balanced u \<Longrightarrow> balanced (t @ u)"
  by (induction rule: balanced.induct) (auto intro: balanced.intros)

lemma balanced_plain: "list_all (\<lambda>c. c \<notin> {BS, SQ, DQ, CHR ''('', CHR '')''}) t \<Longrightarrow> balanced t"
  by (induction t) (auto intro: balanced.intros)

text \<open>The search for the closing parenthesis passes over balanced text without a change of its depth.\<close>

lemma matchParenLoop_balanced:
  "balanced t \<Longrightarrow> 0 < d \<Longrightarrow>
   matchParenLoop (pre @ t @ post) (length pre) d = matchParenLoop (pre @ t @ post) (length pre + length t) d"
proof (induction arbitrary: pre post d rule: balanced.induct)
  case (balanced_char c t)
  have "matchParenLoop (pre @ (c # t) @ post) (length pre) d =
      matchParenLoop ((pre @ [c]) @ t @ post) (length (pre @ [c])) d"
    using balanced_char.hyps by (subst matchParenLoop.simps) (simp add: Let_def nth_append)
  also have "\<dots> = matchParenLoop ((pre @ [c]) @ t @ post) (length (pre @ [c]) + length t) d"
    by (rule balanced_char.IH [OF balanced_char.prems])
  finally show ?case by simp
next
  case (balanced_paren t u)
  let ?s = "pre @ (CHR ''('' # t @ CHR '')'' # u) @ post" and ?p = "pre @ [CHR ''('']"
  let ?q = "?p @ t @ [CHR '')'']"
  have "matchParenLoop ?s (length pre) d = matchParenLoop (?p @ t @ CHR '')'' # u @ post) (length ?p) (d + 1)"
    by (subst matchParenLoop.simps) (simp add: Let_def nth_append)
  also have "\<dots> = matchParenLoop (?p @ t @ CHR '')'' # u @ post) (length ?p + length t) (d + 1)"
    by (rule balanced_paren.IH(1)) (use balanced_paren.prems in simp)
  also have "\<dots> = matchParenLoop (?q @ u @ post) (length ?q) d"
    using balanced_paren.prems by (subst matchParenLoop.simps) (simp add: Let_def nth_append)
  also have "\<dots> = matchParenLoop (?q @ u @ post) (length ?q + length u) d"
    by (rule balanced_paren.IH(2) [OF balanced_paren.prems])
  finally show ?case by (simp add: algebra_simps)
qed simp

lemma matchParen_balanced:
  assumes "balanced t"
  shows "matchParen (pre @ CHR ''('' # t @ CHR '')'' # post) (length pre) = Some (length pre + length t + 1)"
proof -
  let ?p = "pre @ [CHR ''('']"
  have "matchParen (pre @ CHR ''('' # t @ CHR '')'' # post) (length pre) =
      matchParenLoop (?p @ t @ CHR '')'' # post) (length ?p) 1"
    unfolding matchParen_def by (subst matchParenLoop.simps) (simp add: Let_def nth_append)
  also have "\<dots> = matchParenLoop (?p @ t @ CHR '')'' # post) (length ?p + length t) 1"
    using assms by (rule matchParenLoop_balanced) simp
  also have "\<dots> = Some (length pre + length t + 1)"
    by (subst matchParenLoop.simps) (simp add: Let_def nth_append)
  finally show ?thesis .
qed

section \<open>Substitutions are inspected\<close>

definition substituted :: "string \<Rightarrow> string" where
  "substituted t = ''echo $('' @ t @ '')''"

definition substitutable :: "string \<Rightarrow> bool" where
  "substitutable t \<longleftrightarrow> balanced t \<and> (t = [] \<or> hd t \<noteq> CHR ''('')"

lemma balanced_substituted: "balanced t \<Longrightarrow> substitutable (substituted t)"
  by (auto simp: substitutable_def substituted_def intro!: balanced.intros)

lemma substitutableD: "substitutable t \<Longrightarrow> balanced t"
  by (simp add: substitutable_def)

lemma lex_substituted:
  assumes "substitutable t"
  shows "\<exists>w i. lex sub (substituted t) =
    (let lx = recurse sub t \<lparr>lx_i = 5, lx_out = no_finding, lx_heredocs = [], lx_stop = False\<rparr>
     in ([wordTok ''echo'', \<lparr>tk_kind = Word, tk_text = w, tk_dynamic = True\<rparr>], lx\<lparr>lx_i := i\<rparr>))"
proof -
  let ?s = "substituted t" and ?n = "length t + 8"
  let ?lx = "\<lambda>i. \<lparr>lx_i = i, lx_out = no_finding, lx_heredocs = [], lx_stop = False\<rparr>"
  let ?rec = "(recurse sub t (?lx 5))\<lparr>lx_i := ?n\<rparr>" and ?w = "''$('' @ t @ '')''"
  have s: "?s = ''echo $'' @ CHR ''('' # t @ [CHR '')'']" by (simp add: substituted_def)
  have len: "length ?s = ?n" by (simp add: s)
  have chars: "charAt ?s 6 = Some (CHR ''('')" "charAt ?s 7 \<noteq> Some (CHR ''('')" "?s ! 5 = CHR ''$''"
    using assms by (auto simp: s charAt_def substitutable_def nth_append numeral_eq_Suc hd_conv_nth
        nth_Cons' split: if_splits)
  have m: "matchParen ?s 6 = Some (length t + 7)"
    using matchParen_balanced [of t "''echo $''" "[]"] assms by (simp add: s substitutable_def numeral_eq_Suc)
  have mids: "mid ?s 7 (length t) = t" "mid ?s 5 (length t + 3) = ?w"
    by (simp_all add: mid_def s numeral_eq_Suc)
  have rd: "readDollar sub ?s [] (?lx 5) = (?w, True, ?rec)"
    using chars m mids by (simp add: readDollar_def Let_def numeral_eq_Suc recurse_def lex_fail_def split: option.split)
  have "wordLoop sub ?s [] False (?lx 5) = wordLoop sub ?s ?w True ?rec"
    using chars rd len by (subst wordLoop.simps) (simp add: Let_def kBreak_def)
  also have "\<dots> = (?w, True, ?rec)" using len by (subst wordLoop.simps) simp
  finally have word: "readWord sub ?s (?lx 5) = (\<lparr>tk_kind = Word, tk_text = ?w, tk_dynamic = True\<rparr>, ?rec)"
    by (simp add: readWord_def)
  have "runLoop sub ?s [] (?lx 0) = runLoop sub ?s [wordTok ''echo''] (?lx 4)"
    using runLoop_word [of "''echo''" "?lx 0" "[]" "CHR '' '' # ''$('' @ t @ '')''" sub "[]"]
    by (simp add: plainC_def kBreak_def endsWord_def numeral_eq_Suc wordTok_def s)
  also have "\<dots> = runLoop sub ?s [wordTok ''echo''] (?lx 5)"
    using runLoop_blank [of "?lx 4" "''echo''" sub "''$('' @ t @ '')''"] by (simp add: numeral_eq_Suc s)
  also have "\<dots> = runLoop sub ?s [wordTok ''echo'', \<lparr>tk_kind = Word, tk_text = ?w, tk_dynamic = True\<rparr>] ?rec"
    using readOperator_quote [of "?lx 5" "''echo ''" "CHR ''$''" sub "''('' @ t @ '')''"] chars len word
    by (subst runLoop.simps) (simp add: Let_def numeral_eq_Suc s)
  also have "\<dots> = ([wordTok ''echo'', \<lparr>tk_kind = Word, tk_text = ?w, tk_dynamic = True\<rparr>], ?rec)"
    by (rule runLoop_end) (simp add: len)
  finally have "lex sub ?s = ([wordTok ''echo'', \<lparr>tk_kind = Word, tk_text = ?w, tk_dynamic = True\<rparr>], ?rec)"
    by (rule lex_start) (simp add: recurse_def lex_fail_def split: option.split)
  then show ?thesis by (auto simp: Let_def)
qed

lemma inspectLine_substituted:
  assumes "substitutable t"
  shows "inspectLine sub (substituted t) =
    lx_out (recurse sub t \<lparr>lx_i = 5, lx_out = no_finding, lx_heredocs = [], lx_stop = False\<rparr>)"
proof -
  from lex_substituted [OF assms, of sub] obtain w i where
    "lex sub (substituted t) = (let lx = recurse sub t \<lparr>lx_i = 5, lx_out = no_finding, lx_heredocs = [], lx_stop = False\<rparr>
     in ([wordTok ''echo'', \<lparr>tk_kind = Word, tk_text = w, tk_dynamic = True\<rparr>], lx\<lparr>lx_i := i\<rparr>))" by blast
  then show ?thesis
    by (simp add: inspectLine_def new_parser_def parseToken_def parseCommandWord_def wordTok_def
        parseProgram_def shellKeywords_def wrappers_def isAssignment_def isWordC_def isDigitC_def code_def
        isHarmlessShellBuiltin_def isShellInterpreter_def basename_def startsWith_def Let_def)
qed

lemma merge_no_finding [simp]: "mergeInspection r no_finding = r"
  by (simp add: mergeInspection_def no_finding_def)

text \<open>
  C19. What a command substitution runs is inspected like a line of its own: for any text with balanced
  parentheses that has no quotes or backslashes and does not start with a parenthesis, \<open>echo $(...)\<close> has exactly the programs, the refusal and the completeness of that
  text one level deeper.
\<close>

theorem substitution_inspected:
  assumes "substitutable t"
  shows "inspectPosixCommandAt (Suc n) (substituted t) = inspectPosixCommandAt n t"
  by (simp add: inspectLine_substituted [OF assms] recurse_def)

theorem substitution_inspected_witness:
  "inspectPosixCommandAt 16 (''echo $(eval $X)'') = inspectPosixCommandAt 15 ''eval $X''"
  using substitution_inspected [of "''eval $X''" 15]
  by (simp add: substitutable_def balanced_plain substituted_def)

lemma substitutable_iterated: "substitutable t \<Longrightarrow> substitutable ((substituted ^^ k) t)"
  by (induction k) (auto intro: balanced_substituted dest: substitutableD)

lemma substitutions_inspected:
  "substitutable t \<Longrightarrow> inspectPosixCommandAt (k + n) ((substituted ^^ k) t) = inspectPosixCommandAt n t"
  by (induction k) (simp_all add: inspectLine_substituted substitutable_iterated recurse_def)

text \<open>
  Nesting beyond sixteen levels is not refused: the text inside is never looked at, whatever it is,
  and the result has no refusal and no program; only the flag \<open>complete\<close> is cleared.
\<close>

theorem deep_nesting_not_refused:
  assumes "substitutable t"
  shows "inspectPosixCommand ((substituted ^^ 17) t) = \<lparr>programs = [], refusal = [], complete = False\<rparr>"
proof -
  have "inspectPosixCommand ((substituted ^^ 16) (substituted t)) = inspectPosixCommandAt 0 (substituted t)"
    using substitutions_inspected [of "substituted t" 16 0] assms
      balanced_substituted [of t] by (simp add: inspectPosixCommand_def kMaxDepth_def substitutable_def)
  moreover have "(substituted ^^ 17) t = (substituted ^^ 16) (substituted t)"
    using funpow_swap1 [of substituted 16 t] by (simp add: numeral_eq_Suc)
  ultimately show ?thesis
    by (simp add: inspectLine_substituted [OF assms] recurse_def lex_fail_def no_finding_def)
qed

theorem deep_nesting_not_refused_witness:
  "refusal (inspectPosixCommand ((substituted ^^ 17) ''eval $X'')) = [] \<and>
   refusal (inspectPosixCommand ''eval $X'') \<noteq> []"
proof
  show "refusal (inspectPosixCommand ((substituted ^^ 17) ''eval $X'')) = []"
    using deep_nesting_not_refused [of "''eval $X''"] by (simp add: substitutable_def balanced_plain)
  show "refusal (inspectPosixCommand ''eval $X'') \<noteq> []"
    using eval_refuses_dynamic [of "[]" "[]" "[]" "CHR ''X''" "[]"] by (simp add: opensQuote_def)
qed

section \<open>Where the inspector looks away\<close>

abbreviation opTok :: "string \<Rightarrow> token" where
  "opTok r \<equiv> \<lparr>tk_kind = Op, tk_text = r, tk_dynamic = False\<rparr>"

lemma runLoop_op:
  assumes "\<not> lx_stop lx" and "lx_i lx = length pre" and "r = CHR '';'' \<or> r = CHR ''('' \<or> r = CHR '')''"
    and "r = CHR '';'' \<longrightarrow> post \<noteq> [] \<and> hd post \<noteq> CHR '';''"
  shows "runLoop sub (pre @ r # post) toks lx =
    runLoop sub (pre @ r # post) (toks @ [opTok [r]]) (lx\<lparr>lx_i := length pre + 1\<rparr>)"
proof -
  have "takeWhile isDigitC (r # post) = []" using assms(3) by (auto simp: isDigitC_def code_def)
  moreover have "find (\<lambda>x. take (length x) (r # post) = x) redirs = None"
    using assms(3) by (intro find_redirs_None) auto
  moreover have "find (\<lambda>x. take (length x) (r # post) = x) ops = Some [r]"
    using assms(3,4) by (cases post) (auto simp: ops_def)
  ultimately have "readOperator sub (pre @ r # post) lx = Some (opTok [r], lx\<lparr>lx_i := length pre + 1\<rparr>)"
    using assms(2) by (simp add: readOperator_def Let_def findRedirect_def)
  then show ?thesis using assms(1,2,3) by (subst runLoop.simps) (auto simp: Let_def nth_append)
qed

lemma runLoop_redirect:
  assumes "\<not> lx_stop lx" and "lx_i lx = length pre"
  shows "runLoop sub (pre @ ''<('' @ post) toks lx =
    runLoop sub (pre @ ''<('' @ post) (toks @ [\<lparr>tk_kind = Redirect, tk_text = ''<'', tk_dynamic = False\<rparr>])
      (lx\<lparr>lx_i := length pre + 1\<rparr>)"
proof -
  have "takeWhile isDigitC (''<('' @ post) = []" by (simp add: isDigitC_def code_def)
  moreover have "find (\<lambda>x. take (length x) (''<('' @ post) = x) redirs = Some ''<''" by (simp add: redirs_def)
  ultimately have "readOperator sub (pre @ ''<('' @ post) lx =
      Some (\<lparr>tk_kind = Redirect, tk_text = ''<'', tk_dynamic = False\<rparr>, lx\<lparr>lx_i := length pre + 1\<rparr>)"
    using assms(2) by (simp add: readOperator_def Let_def findRedirect_def)
  then show ?thesis using assms by (subst runLoop.simps) (auto simp: Let_def nth_append)
qed

abbreviation lexing_at :: "nat \<Rightarrow> lexer" where
  "lexing_at i \<equiv> \<lparr>lx_i = i, lx_out = no_finding, lx_heredocs = [], lx_stop = False\<rparr>"

text \<open>
  A process substitution is not inspected: it is read as a redirection followed by the arguments of the
  command before it, so the programs it runs are neither listed nor refused, and the line counts as
  understood completely.
\<close>

theorem process_substitution_not_inspected:
  assumes "list_all plainWord ws"
  shows "inspectPosixCommand (''cat <('' @ spaced ws @ '')'') = \<lparr>programs = [''cat''], refusal = [], complete = True\<rparr>"
proof -
  let ?s = "''cat <('' @ spaced ws @ '')''" and ?r = "\<lparr>tk_kind = Redirect, tk_text = ''<'', tk_dynamic = False\<rparr>"
  let ?n = "length (spaced ws) + 6"
  obtain sub where sub: "inspectPosixCommand ?s = inspectLine sub ?s"
    using inspectPosix_line unfolding inspectPosixCommand_def by blast
  have "runLoop sub ?s [] (lexing_at 0) = runLoop sub ?s [wordTok ''cat''] (lexing_at 4)"
    using runLoop_words [of "[''cat'']" "lexing_at 0" "[]" sub "''<('' @ spaced ws @ '')''" "[]"]
    by (simp add: plainWord_def plainC_def kBreak_def numeral_eq_Suc)
  also have "\<dots> = runLoop sub ?s [wordTok ''cat'', ?r] (lexing_at 5)"
    using runLoop_redirect [of "lexing_at 4" "''cat ''" sub] by (simp add: numeral_eq_Suc)
  also have "\<dots> = runLoop sub ?s [wordTok ''cat'', ?r, opTok ''(''] (lexing_at 6)"
    using runLoop_op [of "lexing_at 5" "''cat <''" "CHR ''(''" _ sub] by (simp add: numeral_eq_Suc)
  also have "\<dots> = runLoop sub ?s ([wordTok ''cat'', ?r, opTok ''(''] @ map wordTok ws) (lexing_at ?n)"
    using runLoop_words [OF assms, of "lexing_at 6" "''cat <(''" sub] by (simp add: numeral_eq_Suc)
  also have "\<dots> = runLoop sub ?s ([wordTok ''cat'', ?r, opTok ''(''] @ map wordTok ws @ [opTok '')'']) (lexing_at (?n + 1))"
    using runLoop_op [of "lexing_at ?n" "''cat <('' @ spaced ws" "CHR '')''" "[]" sub] by (simp add: numeral_eq_Suc)
  also have "\<dots> = ([wordTok ''cat'', ?r, opTok ''(''] @ map wordTok ws @ [opTok '')''], lexing_at (?n + 1))"
    by (rule runLoop_end) simp
  finally have "lex sub ?s = ([wordTok ''cat'', ?r, opTok ''(''] @ map wordTok ws @ [opTok '')''], lexing_at (?n + 1))"
    by (rule lex_start) simp
  then show ?thesis unfolding sub
    by (simp add: inspectLine_def new_parser_def no_finding_def parseToken_def parseCommandWord_def
        parseProgram_def shellKeywords_def wrappers_def isAssignment_def isWordC_def isDigitC_def code_def
        isHarmlessShellBuiltin_def isShellInterpreter_def basename_def startsWith_def Let_def wordTok_def isOpTok_def
        parseLoop_arguments)
qed

theorem process_substitution_not_inspected_witness:
  "programs (inspectPosixCommand ''cat <(rm -rf / )'') = [''cat'']"
  using process_substitution_not_inspected [of "[''rm'', ''-rf'', ''/'']"]
  by (simp add: plainWord_def plainC_def kBreak_def)

lemma parseLoop_skipping:
  "ps_skipUntilDo ps \<Longrightarrow> \<not> ps_inDoubleBracket ps \<Longrightarrow>
   list_all (\<lambda>t. tk_kind t \<noteq> Redirect \<and> (tk_kind t = Op \<or> tk_text t \<noteq> ''do'')) ts \<Longrightarrow>
   ps_out (parseLoop sub ts ps) = ps_out ps"
  by (induction ts arbitrary: ps) (auto simp: parseToken_def Let_def)

text \<open>
  The words between \<open>for\<close> and \<open>do\<close> are skipped, and so is everything when there is no \<open>do\<close>: a loop whose
  body stands in braces hides any simple command from the inspector.
\<close>

theorem brace_loop_not_inspected:
  assumes "list_all plainWord ws" and "''do'' \<notin> set ws"
  shows "inspectPosixCommand (''for i in 1; { '' @ spaced ws @ ''; }'') = no_finding"
proof -
  let ?ws = "[''for'', ''i'', ''in'', ''1'']"
  let ?s = "''for i in 1; { '' @ spaced ws @ ''; }''"
  let ?n = "length (spaced ws) + 14"
  let ?t1 = "map wordTok ?ws @ [opTok '';'', wordTok ''{'']" and ?t2 = "map wordTok ws @ [opTok '';'']"
  obtain sub where sub: "inspectPosixCommand ?s = inspectLine sub ?s"
    using inspectPosix_line unfolding inspectPosixCommand_def by blast
  have "runLoop sub ?s [] (lexing_at 0) = runLoop sub ?s (map wordTok [''for'', ''i'', ''in'']) (lexing_at 9)"
    using runLoop_words [of "[''for'', ''i'', ''in'']" "lexing_at 0" "[]" sub "''1; { '' @ spaced ws @ ''; }''" "[]"]
    by (simp add: plainWord_def plainC_def kBreak_def numeral_eq_Suc)
  also have "\<dots> = runLoop sub ?s (map wordTok ?ws) (lexing_at 10)"
    using runLoop_word [of "''1''" "lexing_at 9" "''for i in ''" "''; { '' @ spaced ws @ ''; }''" sub]
    by (simp add: plainC_def kBreak_def numeral_eq_Suc endsWord_def wordTok_def)
  also have "\<dots> = runLoop sub ?s (map wordTok ?ws @ [opTok '';'']) (lexing_at 11)"
    using runLoop_op [of "lexing_at 10" "''for i in 1''" "CHR '';''" _ sub] by (simp add: numeral_eq_Suc)
  also have "\<dots> = runLoop sub ?s (map wordTok ?ws @ [opTok '';'']) (lexing_at 12)"
    using runLoop_blank [of "lexing_at 11" "''for i in 1;''" sub] by (simp add: numeral_eq_Suc)
  also have "\<dots> = runLoop sub ?s (?t1 @ map wordTok ws) (lexing_at ?n)"
    using runLoop_words [of "''{'' # ws" "lexing_at 12" "''for i in 1; ''" sub "''; }''"] assms(1)
    by (simp add: plainWord_def plainC_def kBreak_def numeral_eq_Suc)
  also have "\<dots> = runLoop sub ?s (?t1 @ ?t2) (lexing_at (?n + 1))"
    using runLoop_op [of "lexing_at ?n" "''for i in 1; { '' @ spaced ws" "CHR '';''" "'' }''" sub]
    by (simp add: numeral_eq_Suc)
  also have "\<dots> = runLoop sub ?s (?t1 @ ?t2) (lexing_at (?n + 2))"
    using runLoop_blank [of "lexing_at (?n + 1)" "''for i in 1; { '' @ spaced ws @ '';''" sub "''}''"]
    by (simp add: numeral_eq_Suc)
  also have "\<dots> = runLoop sub ?s (?t1 @ ?t2 @ [wordTok ''}'']) (lexing_at (?n + 3))"
    using runLoop_word [of "''}''" "lexing_at (?n + 2)" "''for i in 1; { '' @ spaced ws @ ''; ''" "[]" sub]
    by (simp add: plainC_def kBreak_def numeral_eq_Suc endsWord_def wordTok_def)
  also have "\<dots> = (?t1 @ ?t2 @ [wordTok ''}''], lexing_at (?n + 3))" by (rule runLoop_end) simp
  finally have lx: "lex sub ?s = (?t1 @ ?t2 @ [wordTok ''}''], lexing_at (?n + 3))" by (rule lex_start) simp
  obtain p where p: "parseToken sub (wordTok ''for'') (tl (?t1 @ ?t2 @ [wordTok ''}''])) (new_parser no_finding) = (p, 0)"
      "ps_skipUntilDo p" "\<not> ps_inDoubleBracket p" "ps_out p = no_finding"
    by (simp add: parseToken_def new_parser_def parseCommandWord_def wordTok_def)
  have "ps_out (parseLoop sub (?t1 @ ?t2 @ [wordTok ''}'']) (new_parser no_finding)) =
      ps_out (parseLoop sub (tl (?t1 @ ?t2 @ [wordTok ''}''])) p)"
    using p(1) by (simp add: new_parser_def no_finding_def)
  also have "\<dots> = no_finding"
    using assms(2) p(4) by (subst parseLoop_skipping [OF p(2,3)]) (auto simp: wordTok_def list_all_iff)
  finally show ?thesis by (simp only: sub inspectLine_def lx Let_def prod.case lexer.select_convs)
qed

theorem brace_loop_not_inspected_witness:
  "inspectPosixCommand ''for i in 1; { rm -rf / ; }'' = no_finding"
  using brace_loop_not_inspected [of "[''rm'', ''-rf'', ''/'']"]
  by (simp add: plainWord_def plainC_def kBreak_def)

end
