(* ===== verification/Json.thy ===== *)
theory Json
  imports Prelude
begin

text \<open>
  The JSON values of Qt (QJsonValue, QJsonObject) as far as the sources use them. Numbers are integers:
  every number the modelled code writes is one, and of at most 53 bits. An object keeps its keys in an
  association list; reading a key that is not there is \<open>None\<close>, Qt's undefined value.
\<close>

datatype json = JNull | JBool bool | JNum int | JStr string | JArr "json list" | JObj "(string \<times> json) list"

type_synonym json_object = "(string \<times> json) list"

definition member_of :: "json_object \<Rightarrow> string \<Rightarrow> json option" where
  "member_of ob k = map_of ob k"

definition put :: "string \<Rightarrow> json \<Rightarrow> json_object \<Rightarrow> json_object" where
  "put k v ob = AList.update k v ob"

text \<open>The conversions give a default for a value of another type.\<close>

definition toString :: "json option \<Rightarrow> string" where
  "toString v = (case v of Some (JStr s) \<Rightarrow> s | _ \<Rightarrow> [])"

definition toInt :: "json option \<Rightarrow> int" where
  "toInt v = (case v of Some (JNum n) \<Rightarrow> n | _ \<Rightarrow> 0)"

definition toObject :: "json option \<Rightarrow> json_object" where
  "toObject v = (case v of Some (JObj ob) \<Rightarrow> ob | _ \<Rightarrow> [])"

definition isNull :: "json option \<Rightarrow> bool" where
  "isNull v \<longleftrightarrow> v = Some JNull"

lemma toString_simps [simp]: "toString (Some (JStr s)) = s" "toString None = []" "toString (Some JNull) = []"
  by (simp_all add: toString_def)

lemma toInt_simps [simp]: "toInt (Some (JNum n)) = n" "toInt None = 0" "toInt (Some JNull) = 0"
  by (simp_all add: toInt_def)

lemma toObject_simps [simp]: "toObject (Some (JObj ob)) = ob" "toObject None = []"
  by (simp_all add: toObject_def)

lemma isNull_simps [simp]: "isNull (Some JNull)" "\<not> isNull None" "\<not> isNull (Some (JNum n))"
  by (simp_all add: isNull_def)

lemma member_of_put: "member_of (put k v ob) l = (if l = k then Some v else member_of ob l)"
  by (auto simp: member_of_def put_def update_conv')

end
