(* ===== verification/Chat_Records.thy ===== *)
theory Chat_Records
  imports Json
begin

text \<open>
  The rows of a chat (backend/models/message.cpp, tool-call.cpp): their fields, their JSON form and
  which of them are valid. A time is milliseconds since 1970, \<open>None\<close> for an invalid QDateTime, whose
  milliseconds Qt gives as 0. A row of the database is the record itself with a valid creation time; the
  text columns that hold JSON objects are kept as the objects.
\<close>

section \<open>Messages\<close>

record message =
  msg_id :: string
  msg_conversationId :: string
  msg_role :: string
  msg_content :: string
  msg_contentHtml :: string
  msg_createdAt :: "int option"
  msg_tokenCount :: int
  msg_modelUsed :: string
  msg_finishReason :: string
  msg_metadata :: json_object
  msg_agentId :: string
  msg_memberAlias :: string
  msg_turnId :: string
  msg_thinkingContent :: string

definition new_message :: message where
  "new_message = \<lparr>msg_id = [], msg_conversationId = [], msg_role = [], msg_content = [], msg_contentHtml = [],
     msg_createdAt = None, msg_tokenCount = 0, msg_modelUsed = [], msg_finishReason = [], msg_metadata = [],
     msg_agentId = [], msg_memberAlias = [], msg_turnId = [], msg_thinkingContent = []\<rparr>"

definition toMSecs :: "int option \<Rightarrow> int" where
  "toMSecs t = (case t of Some ms \<Rightarrow> ms | None \<Rightarrow> 0)"

definition validRoles :: "string list" where
  "validRoles = [''user'', ''assistant'', ''system'', ''tool'']"

definition validMessage :: "message \<Rightarrow> bool" where
  "validMessage m \<longleftrightarrow> msg_id m \<noteq> [] \<and> msg_role m \<in> set validRoles"

definition messageToJson :: "message \<Rightarrow> json_object" where
  "messageToJson m =
     put ''thinking_content'' (JStr (msg_thinkingContent m)) (
     put ''turn_id'' (JStr (msg_turnId m)) (
     put ''member_alias'' (JStr (msg_memberAlias m)) (
     put ''agent_id'' (JStr (msg_agentId m)) (
     put ''metadata'' (JObj (msg_metadata m)) (
     put ''finish_reason'' (JStr (msg_finishReason m)) (
     put ''model_used'' (JStr (msg_modelUsed m)) (
     put ''token_count'' (JNum (msg_tokenCount m)) (
     put ''created_at'' (JNum (toMSecs (msg_createdAt m))) (
     put ''content_html'' (JStr (msg_contentHtml m)) (
     put ''content'' (JStr (msg_content m)) (
     put ''role'' (JStr (msg_role m)) (
     put ''conversation_id'' (JStr (msg_conversationId m)) (
     put ''id'' (JStr (msg_id m)) [])))))))))))))"

definition messageFromJson :: "json_object \<Rightarrow> message" where
  "messageFromJson j =
     \<lparr>msg_id = toString (member_of j ''id''), msg_conversationId = toString (member_of j ''conversation_id''),
      msg_role = toString (member_of j ''role''), msg_content = toString (member_of j ''content''),
      msg_contentHtml = toString (member_of j ''content_html''), msg_createdAt = Some (toInt (member_of j ''created_at'')),
      msg_tokenCount = toInt (member_of j ''token_count''), msg_modelUsed = toString (member_of j ''model_used''),
      msg_finishReason = toString (member_of j ''finish_reason''), msg_metadata = toObject (member_of j ''metadata''),
      msg_agentId = toString (member_of j ''agent_id''), msg_memberAlias = toString (member_of j ''member_alias''),
      msg_turnId = toString (member_of j ''turn_id''), msg_thinkingContent = toString (member_of j ''thinking_content'')\<rparr>"

section \<open>Tool calls\<close>

record tool_call =
  tc_id :: string
  tc_messageId :: string
  tc_toolName :: string
  tc_arguments :: json_object
  tc_result :: json
  tc_status :: string
  tc_startedAt :: "int option"
  tc_completedAt :: "int option"
  tc_planStepId :: string

definition validStatuses :: "string list" where
  "validStatuses = [''pending'', ''running'', ''success'', ''error'']"

definition validToolCall :: "tool_call \<Rightarrow> bool" where
  "validToolCall c \<longleftrightarrow> tc_id c \<noteq> [] \<and> tc_status c \<in> set validStatuses"

definition timeToJson :: "int option \<Rightarrow> json" where
  "timeToJson t = (case t of Some ms \<Rightarrow> JNum ms | None \<Rightarrow> JNull)"

definition timeFromJson :: "json option \<Rightarrow> int option" where
  "timeFromJson v = (if isNull v then None else Some (toInt v))"

definition toolCallToJson :: "tool_call \<Rightarrow> json_object" where
  "toolCallToJson c =
     put ''completed_at'' (timeToJson (tc_completedAt c)) (
     put ''started_at'' (timeToJson (tc_startedAt c)) (
     put ''status'' (JStr (tc_status c)) (
     put ''result'' (tc_result c) (
     put ''arguments'' (JObj (tc_arguments c)) (
     put ''tool_name'' (JStr (tc_toolName c)) (
     put ''message_id'' (JStr (tc_messageId c)) (
     put ''id'' (JStr (tc_id c)) [])))))))"

definition toolCallFromJson :: "json_object \<Rightarrow> tool_call" where
  "toolCallFromJson j =
     \<lparr>tc_id = toString (member_of j ''id''), tc_messageId = toString (member_of j ''message_id''),
      tc_toolName = toString (member_of j ''tool_name''), tc_arguments = toObject (member_of j ''arguments''),
      tc_result = (case member_of j ''result'' of Some r \<Rightarrow> r | None \<Rightarrow> JNull), tc_status = toString (member_of j ''status''),
      tc_startedAt = timeFromJson (member_of j ''started_at''), tc_completedAt = timeFromJson (member_of j ''completed_at''),
      tc_planStepId = []\<rparr>"

section \<open>Attachments\<close>

record attachment =
  at_id :: string
  at_messageId :: string
  at_type :: string
  at_filename :: string
  at_mimeType :: string
  at_dataPath :: string
  at_dataInline :: string
  at_createdAt :: "int option"

definition validTypes :: "string list" where
  "validTypes = [''image'', ''audio'', ''file'', ''code'']"

definition validAttachment :: "attachment \<Rightarrow> bool" where
  "validAttachment a \<longleftrightarrow> at_id a \<noteq> [] \<and> at_type a \<in> set validTypes"

section \<open>Round trips\<close>

lemma timeFromJson_timeToJson [simp]: "timeFromJson (Some (timeToJson t)) = t"
  by (cases t) (simp_all add: timeToJson_def timeFromJson_def)

text \<open>
  C40. Every message survives its JSON form in all fields but one: an invalid creation time, such as that of a
  message just constructed, comes back as the start of 1970. A message valid for the database stays valid.
\<close>

theorem message_json_roundtrip:
  "messageFromJson (messageToJson m) = m\<lparr>msg_createdAt := Some (toMSecs (msg_createdAt m))\<rparr> \<and>
   (validMessage (messageFromJson (messageToJson m)) \<longleftrightarrow> validMessage m)"
  by (simp add: messageFromJson_def messageToJson_def member_of_put validMessage_def)

text \<open>
  A tool call survives its JSON form in every field but one: the id of the plan step it was made
  for is not written, so every tool call comes back with none.
\<close>

theorem tool_call_json_loses_plan_step:
  "toolCallFromJson (toolCallToJson c) = c\<lparr>tc_planStepId := []\<rparr>"
  by (simp add: toolCallFromJson_def toolCallToJson_def member_of_put)

end
