(* ===== verification/Message_Service.thy ===== *)
theory Message_Service
  imports Chat_Records
begin

text \<open>
  The message service (backend/services/message-service.cpp) on the tables it works on
  (backend/models/db-manager.cpp). A table is the list of its rows in the order of insertion. A
  statement fails when the database is down, or when a primary key, a foreign key or a CHECK constraint of
  the schema is violated; \<open>PRAGMA foreign_keys\<close> is on, so deleting a message deletes its tool calls
  and attachments. Rows with equal sort keys come in the order of insertion. The clock and fresh ids are
  arguments; the signals the service emits are appended to \<open>ms_out\<close> in the order of emission.
\<close>

section \<open>State\<close>

record conv_row =
  cv_id :: string
  cv_token_total :: int
  cv_updated_at :: int

text \<open>A row of \<open>tool_calls\<close> is the call without its result, and the text of the result column.\<close>

type_synonym call_row = "tool_call \<times> string"

record store =
  st_up :: bool
  st_convs :: "conv_row list"
  st_agents :: "string list"
  st_messages :: "message list"
  st_calls :: "call_row list"
  st_attachments :: "attachment list"
  st_fts :: "(string \<times> string \<times> string) list"

record slot =
  sl_convId :: string
  sl_role :: string
  sl_agentId :: string
  sl_memberAlias :: string
  sl_content :: string
  sl_startedAt :: "int option"

datatype signal =
    MessageAdded string string
  | MessageUpdated string string
  | MessageDeleted string string
  | StreamingStarted string string string string string
  | ContentStreamed string string string
  | ContentRewritten string string string
  | StreamingAborted string string
  | EphemeralPosted string string
  | EphemeralCleared string
  | ToolCallAdded string string
  | ToolCallUpdated string string

record msg_service =
  ms_store :: store
  ms_slots :: "(string \<times> slot) list"
  ms_pending :: "(string \<times> string) list"
  ms_timer :: bool
  ms_ephemeral :: "(string \<times> message list) list"
  ms_out :: "signal list"

definition signal_out :: "signal \<Rightarrow> msg_service \<Rightarrow> msg_service" where
  "signal_out e s = s\<lparr>ms_out := ms_out s @ [e]\<rparr>"

section \<open>Messages in the database\<close>

definition conversationExists :: "store \<Rightarrow> string \<Rightarrow> bool" where
  "conversationExists st c \<longleftrightarrow> c \<noteq> [] \<and> st_up st \<and> c \<in> cv_id ` set (st_convs st)"

text \<open>The INSERT of a message: \<open>None\<close> when the statement fails.\<close>

definition insertMessage :: "int \<Rightarrow> message \<Rightarrow> store \<Rightarrow> store option" where
  "insertMessage now m st =
     (if st_up st \<and> msg_id m \<notin> msg_id ` set (st_messages st) \<and>
         msg_conversationId m \<in> cv_id ` set (st_convs st) \<and> msg_role m \<in> set validRoles \<and>
         (msg_agentId m = [] \<or> msg_agentId m \<in> set (st_agents st))
      then Some (st\<lparr>st_messages := st_messages st @
        [m\<lparr>msg_createdAt := Some (case msg_createdAt m of Some t \<Rightarrow> t | None \<Rightarrow> now)\<rparr>]\<rparr>)
      else None)"

definition updateTokenTotal :: "int \<Rightarrow> string \<Rightarrow> int \<Rightarrow> store \<Rightarrow> store" where
  "updateTokenTotal now c n st =
     st\<lparr>st_convs := map (\<lambda>cv. if cv_id cv = c
       then cv\<lparr>cv_token_total := cv_token_total cv + n, cv_updated_at := now\<rparr> else cv) (st_convs st)\<rparr>"

definition ftsInsert :: "message \<Rightarrow> store \<Rightarrow> store" where
  "ftsInsert m st = st\<lparr>st_fts := st_fts st @ [(msg_content m, msg_id m, msg_conversationId m)]\<rparr>"

definition addMessage :: "int \<Rightarrow> message \<Rightarrow> msg_service \<Rightarrow> string \<times> msg_service" where
  "addMessage now m s =
     (if \<not> validMessage m then ([], s)
      else if \<not> conversationExists (ms_store s) (msg_conversationId m) then ([], s)
      else
        case insertMessage now m (ms_store s) of
          None \<Rightarrow> ([], s)
        | Some st \<Rightarrow>
            (let st1 = (if msg_tokenCount m > 0
                        then updateTokenTotal now (msg_conversationId m) (msg_tokenCount m) st else st);
                 st2 = (if (msg_role m = ''user'' \<or> msg_role m = ''assistant'') \<and> msg_content m \<noteq> []
                        then ftsInsert m st1 else st1)
             in (msg_id m, signal_out (MessageAdded (msg_conversationId m) (msg_id m)) (s\<lparr>ms_store := st2\<rparr>))))"

definition addInterveningSystemMessage ::
    "int \<Rightarrow> string \<Rightarrow> string \<Rightarrow> string \<Rightarrow> json_object \<Rightarrow> msg_service \<Rightarrow> string \<times> msg_service" where
  "addInterveningSystemMessage now uuid convId content metadata s =
     (if convId = [] then ([], s)
      else addMessage now (new_message\<lparr>msg_id := uuid, msg_conversationId := convId, msg_role := ''system'',
        msg_content := content, msg_createdAt := Some now, msg_finishReason := ''stop'',
        msg_metadata := metadata\<rparr>) s)"

definition messagesOf :: "store \<Rightarrow> string \<Rightarrow> message list" where
  "messagesOf st c =
     sort_key (\<lambda>m. toMSecs (msg_createdAt m)) (filter (\<lambda>m. msg_conversationId m = c) (st_messages st))"

text \<open>LIMIT: no limit when negative.\<close>

definition limited :: "int \<Rightarrow> 'a list \<Rightarrow> 'a list" where
  "limited n xs = (if n < 0 then xs else take (nat n) xs)"

definition getMessages :: "store \<Rightarrow> string \<Rightarrow> message list" where
  "getMessages st c = (if st_up st then messagesOf st c else [])"

definition getMessage :: "store \<Rightarrow> string \<Rightarrow> message" where
  "getMessage st i =
     (if i = [] \<or> \<not> st_up st then new_message
      else case find (\<lambda>m. msg_id m = i) (st_messages st) of Some m \<Rightarrow> m | None \<Rightarrow> new_message)"

definition getMessagePage :: "store \<Rightarrow> string \<Rightarrow> int \<Rightarrow> int \<Rightarrow> message list" where
  "getMessagePage st c n off =
     (if st_up st then limited n (drop (nat off) (messagesOf st c)) else [])"

definition getRecentMessages :: "store \<Rightarrow> string \<Rightarrow> int \<Rightarrow> message list" where
  "getRecentMessages st c maxRows =
     (if st_up st then rev (limited maxRows (rev (messagesOf st c))) else [])"

text \<open>DELETE of messages, with the rows that reference them.\<close>

definition removeMessages :: "(message \<Rightarrow> bool) \<Rightarrow> store \<Rightarrow> store" where
  "removeMessages P st =
     (let gone = msg_id ` set (filter P (st_messages st)) in
      st\<lparr>st_messages := filter (\<lambda>m. \<not> P m) (st_messages st),
         st_calls := filter (\<lambda>(c, r). tc_messageId c \<notin> gone) (st_calls st),
         st_attachments := filter (\<lambda>a. at_messageId a \<notin> gone) (st_attachments st)\<rparr>)"

definition conversationOf :: "store \<Rightarrow> string \<Rightarrow> string" where
  "conversationOf st i =
     (if st_up st then (case find (\<lambda>m. msg_id m = i) (st_messages st) of
        Some m \<Rightarrow> msg_conversationId m | None \<Rightarrow> []) else [])"

definition deleteMessage :: "string \<Rightarrow> msg_service \<Rightarrow> bool \<times> msg_service" where
  "deleteMessage i s =
     (let convId = conversationOf (ms_store s) i in
      if \<not> st_up (ms_store s) then (False, s)
      else if i \<notin> msg_id ` set (st_messages (ms_store s)) then (False, s)
      else
        let s1 = s\<lparr>ms_store := removeMessages (\<lambda>m. msg_id m = i) (ms_store s)\<rparr>
        in (True, if convId \<noteq> [] then signal_out (MessageDeleted convId i) s1 else s1))"

definition kSentinel :: string where
  "kSentinel = ''[ECHO-FAILED - agent could not produce an original reply after multiple retries]'' @
     [CHR 0x0A, CHR 0x0A]"

definition updateMessage :: "string \<Rightarrow> (message \<Rightarrow> message) \<Rightarrow> store \<Rightarrow> store" where
  "updateMessage i f st = st\<lparr>st_messages := map (\<lambda>m. if msg_id m = i then f m else m) (st_messages st)\<rparr>"

definition markMessageAsEchoFailed :: "string \<Rightarrow> msg_service \<Rightarrow> bool \<times> msg_service" where
  "markMessageAsEchoFailed i s =
     (if \<not> st_up (ms_store s) then (False, s)
      else
        case find (\<lambda>m. msg_id m = i) (st_messages (ms_store s)) of
          None \<Rightarrow> (False, s)
        | Some m \<Rightarrow>
            if startsWith (msg_content m) kSentinel then (True, s)
            else
              let s1 = s\<lparr>ms_store := updateMessage i (\<lambda>r. r\<lparr>msg_content := kSentinel @ msg_content m,
                         msg_metadata := put ''echo_failed'' (JBool True) (msg_metadata m)\<rparr>) (ms_store s)\<rparr>
              in (True, if msg_conversationId m \<noteq> []
                        then signal_out (MessageUpdated (msg_conversationId m) i) s1 else s1))"

definition updateContentHtml :: "string \<Rightarrow> string \<Rightarrow> msg_service \<Rightarrow> bool \<times> msg_service" where
  "updateContentHtml i html s =
     (let convId = conversationOf (ms_store s) i in
      if \<not> st_up (ms_store s) then (False, s)
      else
        let s1 = s\<lparr>ms_store := updateMessage i (\<lambda>r. r\<lparr>msg_contentHtml := html\<rparr>) (ms_store s)\<rparr>
        in (True, if convId \<noteq> [] then signal_out (MessageUpdated convId i) s1 else s1))"

definition getTokenTotal :: "store \<Rightarrow> string \<Rightarrow> int" where
  "getTokenTotal st c =
     (if st_up st then (case find (\<lambda>cv. cv_id cv = c) (st_convs st) of
        Some cv \<Rightarrow> cv_token_total cv | None \<Rightarrow> 0) else 0)"

section \<open>Messages that are still streamed\<close>

definition hasStreamingMessage :: "msg_service \<Rightarrow> string \<Rightarrow> bool" where
  "hasStreamingMessage s i \<longleftrightarrow> map_of (ms_slots s) i \<noteq> None"

definition streamingContent :: "msg_service \<Rightarrow> string \<Rightarrow> string" where
  "streamingContent s i = (case map_of (ms_slots s) i of Some sl \<Rightarrow> sl_content sl | None \<Rightarrow> [])"

definition streamingConversationId :: "msg_service \<Rightarrow> string \<Rightarrow> string" where
  "streamingConversationId s i = (case map_of (ms_slots s) i of Some sl \<Rightarrow> sl_convId sl | None \<Rightarrow> [])"

definition slotMessage :: "string \<Rightarrow> slot \<Rightarrow> message" where
  "slotMessage i sl = new_message\<lparr>msg_id := i, msg_conversationId := sl_convId sl, msg_role := sl_role sl,
     msg_content := sl_content sl, msg_createdAt := sl_startedAt sl, msg_agentId := sl_agentId sl,
     msg_memberAlias := sl_memberAlias sl\<rparr>"

definition streamingMessagesForConversation :: "msg_service \<Rightarrow> string \<Rightarrow> message list" where
  "streamingMessagesForConversation s c =
     map (\<lambda>(i, sl). slotMessage i sl) (filter (\<lambda>(i, sl). sl_convId sl = c) (ms_slots s))"

definition beginStreamingMessage ::
    "int \<Rightarrow> string \<Rightarrow> string \<Rightarrow> string \<Rightarrow> string \<Rightarrow> string \<Rightarrow> msg_service \<Rightarrow> msg_service" where
  "beginStreamingMessage now convId i role agentId memberAlias s =
     (if convId = [] \<or> i = [] then s
      else if hasStreamingMessage s i then s
      else if \<not> conversationExists (ms_store s) convId then s
      else signal_out (StreamingStarted convId i role agentId memberAlias)
        (s\<lparr>ms_slots := AList.update i \<lparr>sl_convId = convId, sl_role = role, sl_agentId = agentId,
             sl_memberAlias = memberAlias, sl_content = [], sl_startedAt = Some now\<rparr> (ms_slots s)\<rparr>))"

definition appendStreamingChunk :: "string \<Rightarrow> string \<Rightarrow> msg_service \<Rightarrow> msg_service" where
  "appendStreamingChunk i delta s =
     (case map_of (ms_slots s) i of
        None \<Rightarrow> s
      | Some sl \<Rightarrow>
          if delta = [] then s
          else s\<lparr>ms_slots := AList.update i (sl\<lparr>sl_content := sl_content sl @ delta\<rparr>) (ms_slots s),
                 ms_pending := AList.update i (valueOr (ms_pending s) i [] @ delta) (ms_pending s),
                 ms_timer := True\<rparr>)"

text \<open>The text that waits for a message goes out at once, when the message is still streamed.\<close>

definition flushOne :: "string \<Rightarrow> string \<Rightarrow> msg_service \<Rightarrow> msg_service" where
  "flushOne i delta s =
     (if delta = [] then s
      else case map_of (ms_slots s) i of
        None \<Rightarrow> s | Some sl \<Rightarrow> signal_out (ContentStreamed (sl_convId sl) i delta) s)"

text \<open>The timer of 33 ms: it fires once and has to be started again.\<close>

definition flushPendingDeltas :: "msg_service \<Rightarrow> msg_service" where
  "flushPendingDeltas s =
     (if ms_pending s = [] then s\<lparr>ms_timer := False\<rparr>
      else fold (\<lambda>(i, d). flushOne i d) (ms_pending s) (s\<lparr>ms_pending := [], ms_timer := False\<rparr>))"

definition takePending :: "string \<Rightarrow> msg_service \<Rightarrow> msg_service" where
  "takePending i s =
     (case map_of (ms_pending s) i of
        None \<Rightarrow> s
      | Some d \<Rightarrow> (flushOne i d s)\<lparr>ms_pending := AList.delete i (ms_pending s)\<rparr>)"

definition rewriteStreamingContent :: "string \<Rightarrow> string \<Rightarrow> msg_service \<Rightarrow> msg_service" where
  "rewriteStreamingContent i newContent s0 =
     (let s = takePending i s0 in
      case map_of (ms_slots s) i of
        None \<Rightarrow> s
      | Some sl \<Rightarrow>
          if sl_content sl = newContent then s
          else signal_out (ContentRewritten (sl_convId sl) i newContent)
            (s\<lparr>ms_slots := AList.update i (sl\<lparr>sl_content := newContent\<rparr>) (ms_slots s)\<rparr>))"

definition finalizeStreamingMessage ::
    "int \<Rightarrow> string \<Rightarrow> int \<Rightarrow> string \<Rightarrow> string \<Rightarrow> string \<Rightarrow> json_object \<Rightarrow> string \<Rightarrow> msg_service \<Rightarrow> bool \<times> msg_service" where
  "finalizeStreamingMessage now i tokenCount finishReason contentHtml modelUsed metadata thinkingContent s0 =
     (let s = takePending i s0 in
      case map_of (ms_slots s) i of
        None \<Rightarrow> (False, s)
      | Some sl \<Rightarrow>
          let m = (slotMessage i sl)\<lparr>msg_contentHtml := contentHtml,
                msg_createdAt := Some (case sl_startedAt sl of Some t \<Rightarrow> t | None \<Rightarrow> now),
                msg_tokenCount := tokenCount, msg_modelUsed := modelUsed, msg_finishReason := finishReason,
                msg_metadata := metadata, msg_thinkingContent := thinkingContent\<rparr>;
              (added, s1) = addMessage now m (s\<lparr>ms_slots := AList.delete i (ms_slots s)\<rparr>)
          in if added \<noteq> [] then (True, s1)
             else (False, signal_out (StreamingAborted (sl_convId sl) i) s1))"

definition abortStreamingMessage :: "string \<Rightarrow> msg_service \<Rightarrow> msg_service" where
  "abortStreamingMessage i s0 =
     (let s = s0\<lparr>ms_pending := AList.delete i (ms_pending s0)\<rparr> in
      case map_of (ms_slots s) i of
        None \<Rightarrow> s
      | Some sl \<Rightarrow> signal_out (StreamingAborted (sl_convId sl) i)
          (s\<lparr>ms_slots := AList.delete i (ms_slots s)\<rparr>))"

definition abortStreamingMessagesForConversation :: "string \<Rightarrow> msg_service \<Rightarrow> nat \<times> msg_service" where
  "abortStreamingMessagesForConversation c s =
     (if c = [] then (0, s)
      else
        let targets = map fst (filter (\<lambda>(i, sl). sl_convId sl = c) (ms_slots s))
        in (length targets, fold abortStreamingMessage targets s))"

text \<open>The destructor.\<close>

definition shutdown :: "msg_service \<Rightarrow> msg_service" where
  "shutdown s = fold abortStreamingMessage (map fst (ms_slots s)) s"

section \<open>Messages that are only shown\<close>

definition postEphemeralMessage :: "message \<Rightarrow> msg_service \<Rightarrow> msg_service" where
  "postEphemeralMessage m s =
     (if msg_conversationId m = [] \<or> msg_id m = [] then s
      else signal_out (EphemeralPosted (msg_conversationId m) (msg_id m))
        (s\<lparr>ms_ephemeral := AList.update (msg_conversationId m)
             (valueOr (ms_ephemeral s) (msg_conversationId m) [] @ [m]) (ms_ephemeral s)\<rparr>))"

definition clearEphemeralForConversation :: "string \<Rightarrow> msg_service \<Rightarrow> msg_service" where
  "clearEphemeralForConversation c s =
     (if c = [] \<or> valueOr (ms_ephemeral s) c [] = [] then s
      else signal_out (EphemeralCleared c) (s\<lparr>ms_ephemeral := AList.update c [] (ms_ephemeral s)\<rparr>))"

definition ephemeralMessagesForConversation :: "msg_service \<Rightarrow> string \<Rightarrow> message list" where
  "ephemeralMessagesForConversation s c = valueOr (ms_ephemeral s) c []"

definition deleteAllForConversation :: "string \<Rightarrow> msg_service \<Rightarrow> int \<times> msg_service" where
  "deleteAllForConversation c s =
     (if c = [] \<or> \<not> st_up (ms_store s) then (-1, s)
      else (int (length (filter (\<lambda>m. msg_conversationId m = c) (st_messages (ms_store s)))),
        clearEphemeralForConversation c
          (s\<lparr>ms_store := removeMessages (\<lambda>m. msg_conversationId m = c) (ms_store s)\<rparr>)))"

definition onConversationDeleted :: "string \<Rightarrow> msg_service \<Rightarrow> msg_service" where
  "onConversationDeleted c s =
     (let s1 = snd (abortStreamingMessagesForConversation c s)
      in s1\<lparr>ms_ephemeral := AList.delete c (ms_ephemeral s1)\<rparr>)"

section \<open>Attachments and tool calls\<close>

definition addAttachment :: "int \<Rightarrow> attachment \<Rightarrow> msg_service \<Rightarrow> string \<times> msg_service" where
  "addAttachment now a s =
     (let st = ms_store s in
      if \<not> validAttachment a then ([], s)
      else if st_up st \<and> at_id a \<notin> at_id ` set (st_attachments st) \<and>
          at_messageId a \<in> msg_id ` set (st_messages st)
      then (at_id a, s\<lparr>ms_store := st\<lparr>st_attachments := st_attachments st @
             [a\<lparr>at_createdAt := Some (case at_createdAt a of Some t \<Rightarrow> t | None \<Rightarrow> now)\<rparr>]\<rparr>\<rparr>)
      else ([], s))"

definition getAttachments :: "store \<Rightarrow> string \<Rightarrow> attachment list" where
  "getAttachments st i =
     (if st_up st then sort_key (\<lambda>a. toMSecs (at_createdAt a)) (filter (\<lambda>a. at_messageId a = i) (st_attachments st))
      else [])"

definition deleteAttachment :: "string \<Rightarrow> msg_service \<Rightarrow> bool \<times> msg_service" where
  "deleteAttachment i s =
     (let st = ms_store s in
      if st_up st \<and> i \<in> at_id ` set (st_attachments st)
      then (True, s\<lparr>ms_store := st\<lparr>st_attachments := filter (\<lambda>a. at_id a \<noteq> i) (st_attachments st)\<rparr>\<rparr>)
      else (False, s))"

definition addToolCall :: "tool_call \<Rightarrow> msg_service \<Rightarrow> string \<times> msg_service" where
  "addToolCall c s =
     (let st = ms_store s in
      if \<not> validToolCall c then ([], s)
      else if st_up st \<and> tc_id c \<notin> (tc_id \<circ> fst) ` set (st_calls st) \<and>
          tc_messageId c \<in> msg_id ` set (st_messages st)
      then (tc_id c, signal_out (ToolCallAdded (conversationOf st (tc_messageId c)) (tc_id c))
             (s\<lparr>ms_store := st\<lparr>st_calls := st_calls st @ [(c\<lparr>tc_result := JNull, tc_completedAt := None\<rparr>, [])]\<rparr>\<rparr>))
      else ([], s))"

text \<open>The text written for a result: the document of an object or an array, a string as it is, and
  nothing for any other value. \<open>print\<close> prints a document.\<close>

definition resultText :: "(json \<Rightarrow> string) \<Rightarrow> json \<Rightarrow> string" where
  "resultText print r =
     (case r of JObj ob \<Rightarrow> print (JObj ob) | JArr xs \<Rightarrow> print (JArr xs) | JStr t \<Rightarrow> t | _ \<Rightarrow> [])"

definition updateToolCallResult ::
    "(json \<Rightarrow> string) \<Rightarrow> int \<Rightarrow> string \<Rightarrow> json \<Rightarrow> string \<Rightarrow> msg_service \<Rightarrow> bool \<times> msg_service" where
  "updateToolCallResult print now i result status s =
     (let st = ms_store s in
      if \<not> st_up st \<or> (i \<in> (tc_id \<circ> fst) ` set (st_calls st) \<and> status \<notin> set validStatuses) then (False, s)
      else
        let st1 = st\<lparr>st_calls := map (\<lambda>(c, r). if tc_id c = i
              then (c\<lparr>tc_status := status, tc_completedAt := Some now\<rparr>, resultText print result) else (c, r)) (st_calls st)\<rparr>;
            convId = (case find (\<lambda>(c, r). tc_id c = i) (st_calls st1) of
                        Some (c, r) \<Rightarrow> conversationOf st1 (tc_messageId c) | None \<Rightarrow> [])
        in (True, signal_out (ToolCallUpdated convId i) (s\<lparr>ms_store := st1\<rparr>)))"

text \<open>A row read back: \<open>parse\<close> reads a document.\<close>

definition callFromRow :: "(string \<Rightarrow> json option) \<Rightarrow> call_row \<Rightarrow> tool_call" where
  "callFromRow parse row =
     (let (c, t) = row in
      c\<lparr>tc_result := (if t = [] then JNull
          else case parse t of Some (JObj ob) \<Rightarrow> JObj ob | Some (JArr xs) \<Rightarrow> JArr xs | _ \<Rightarrow> JStr t)\<rparr>)"

definition no_tool_call :: tool_call where
  "no_tool_call = \<lparr>tc_id = [], tc_messageId = [], tc_toolName = [], tc_arguments = [], tc_result = JNull,
     tc_status = [], tc_startedAt = None, tc_completedAt = None, tc_planStepId = []\<rparr>"

definition getToolCall :: "(string \<Rightarrow> json option) \<Rightarrow> store \<Rightarrow> string \<Rightarrow> tool_call" where
  "getToolCall parse st i =
     (if st_up st then (case find (\<lambda>(c, r). tc_id c = i) (st_calls st) of
        Some row \<Rightarrow> callFromRow parse row | None \<Rightarrow> no_tool_call) else no_tool_call)"

text \<open>ORDER BY \<open>started_at\<close>: rows without a start come first.\<close>

definition byStart :: "call_row list \<Rightarrow> call_row list" where
  "byStart rows = filter (\<lambda>(c, r). tc_startedAt c = None) rows @
     sort_key (\<lambda>(c, r). toMSecs (tc_startedAt c)) (filter (\<lambda>(c, r). tc_startedAt c \<noteq> None) rows)"

definition getToolCalls :: "(string \<Rightarrow> json option) \<Rightarrow> store \<Rightarrow> string \<Rightarrow> tool_call list" where
  "getToolCalls parse st i =
     (if st_up st then map (callFromRow parse) (byStart (filter (\<lambda>(c, r). tc_messageId c = i) (st_calls st))) else [])"

text \<open>The calls of all messages of a turn, of one agent when it is given.\<close>

definition toolCallsForTurn :: "(string \<Rightarrow> json option) \<Rightarrow> store \<Rightarrow> string \<Rightarrow> string \<Rightarrow> tool_call list" where
  "toolCallsForTurn parse st i agentId =
     (if i = [] \<or> \<not> st_up st then []
      else case find (\<lambda>m. msg_id m = i) (st_messages st) of
        None \<Rightarrow> []
      | Some m \<Rightarrow>
          if msg_turnId m = [] then []
          else
            let inTurn = (\<lambda>x. msg_turnId x = msg_turnId m \<and> (agentId = [] \<or> msg_agentId x = agentId))
            in map (callFromRow parse)
              (byStart (filter (\<lambda>(c, r). \<exists>x \<in> set (st_messages st). msg_id x = tc_messageId c \<and> inTurn x) (st_calls st))))"

definition toolCallsForConversation :: "(string \<Rightarrow> json option) \<Rightarrow> store \<Rightarrow> string \<Rightarrow> tool_call list" where
  "toolCallsForConversation parse st c =
     (if c = [] \<or> \<not> st_up st then []
      else map (callFromRow parse)
        (byStart (filter (\<lambda>(k, r). \<exists>x \<in> set (st_messages st). msg_id x = tc_messageId k \<and> msg_conversationId x = c)
          (st_calls st))))"

end
