(* ===== verification/Message_List.thy ===== *)
theory Message_List
  imports Message_Service
begin

text \<open>
  The list model of the chat view (backend/models/message-list-model.cpp): a copy of the rows of the active
  conversation that is kept up to date by the signals of the message service. The signals are delivered
  directly; every handler that reads the service runs at the end of the operation that emitted the signal.
\<close>

section \<open>State and handlers\<close>

record list_model =
  lm_messages :: "message list"
  lm_streamingIds :: "string list"
  lm_activeConvId :: string

definition new_list_model :: list_model where
  "new_list_model = \<lparr>lm_messages = [], lm_streamingIds = [], lm_activeConvId = []\<rparr>"

text \<open>Assistant rows that only call tools.\<close>

definition isToolOnlyGhost :: "message \<Rightarrow> bool" where
  "isToolOnlyGhost m \<longleftrightarrow>
     msg_role m = ''assistant'' \<and> trimmed (msg_content m) = [] \<and> msg_finishReason m = ''tool_calls''"

definition hiddenRow :: "message \<Rightarrow> bool" where
  "hiddenRow m \<longleftrightarrow> msg_role m = ''tool'' \<or> isToolOnlyGhost m"

definition findById :: "list_model \<Rightarrow> string \<Rightarrow> message option" where
  "findById lm i = find (\<lambda>m. msg_id m = i) (lm_messages lm)"

text \<open>The first row with an id is changed or removed.\<close>

fun changeRow :: "string \<Rightarrow> (message \<Rightarrow> message) \<Rightarrow> message list \<Rightarrow> message list" where
  "changeRow i f [] = []"
| "changeRow i f (m # ms) = (if msg_id m = i then f m # ms else m # changeRow i f ms)"

fun removeRow :: "string \<Rightarrow> message list \<Rightarrow> message list" where
  "removeRow i [] = []"
| "removeRow i (m # ms) = (if msg_id m = i then ms else m # removeRow i ms)"

definition reloadActiveConversation :: "msg_service \<Rightarrow> list_model \<Rightarrow> list_model" where
  "reloadActiveConversation s lm =
     (let c = lm_activeConvId lm in
      if c = [] then lm\<lparr>lm_messages := [], lm_streamingIds := []\<rparr>
      else
        let streaming = streamingMessagesForConversation s c
        in lm\<lparr>lm_messages := filter (\<lambda>m. \<not> hiddenRow m) (getMessages (ms_store s) c) @ streaming @
                ephemeralMessagesForConversation s c,
              lm_streamingIds := map msg_id streaming\<rparr>)"

definition setActiveConversation :: "msg_service \<Rightarrow> string \<Rightarrow> list_model \<Rightarrow> list_model" where
  "setActiveConversation s c lm =
     (if c = lm_activeConvId lm then lm else reloadActiveConversation s (lm\<lparr>lm_activeConvId := c\<rparr>))"

definition hasStreamingRow :: "list_model \<Rightarrow> bool" where
  "hasStreamingRow lm \<longleftrightarrow> lm_streamingIds lm \<noteq> []"

definition dropRow :: "string \<Rightarrow> list_model \<Rightarrow> list_model" where
  "dropRow i lm = lm\<lparr>lm_messages := removeRow i (lm_messages lm), lm_streamingIds := removeAll i (lm_streamingIds lm)\<rparr>"

definition onMessageAdded :: "msg_service \<Rightarrow> string \<Rightarrow> string \<Rightarrow> list_model \<Rightarrow> list_model" where
  "onMessageAdded s c i lm =
     (let fetched = find (\<lambda>m. msg_id m = i) (getMessages (ms_store s) c) in
      if c \<noteq> lm_activeConvId lm then lm
      else if findById lm i \<noteq> None then
        (let canonical = (case fetched of Some m \<Rightarrow> m | None \<Rightarrow> new_message) in
         if isToolOnlyGhost canonical then dropRow i lm
         else lm\<lparr>lm_messages := changeRow i (\<lambda>_. canonical) (lm_messages lm),
                 lm_streamingIds := removeAll i (lm_streamingIds lm)\<rparr>)
      else
        case fetched of
          None \<Rightarrow> lm
        | Some m \<Rightarrow> if hiddenRow m then lm else lm\<lparr>lm_messages := lm_messages lm @ [m]\<rparr>)"

definition onMessageUpdated :: "msg_service \<Rightarrow> string \<Rightarrow> string \<Rightarrow> list_model \<Rightarrow> list_model" where
  "onMessageUpdated s c i lm =
     (if c \<noteq> lm_activeConvId lm then lm
      else case find (\<lambda>m. msg_id m = i) (getMessages (ms_store s) c) of
        None \<Rightarrow> lm
      | Some m \<Rightarrow> lm\<lparr>lm_messages := changeRow i (\<lambda>_. m) (lm_messages lm)\<rparr>)"

definition onMessageDeleted :: "string \<Rightarrow> string \<Rightarrow> list_model \<Rightarrow> list_model" where
  "onMessageDeleted c i lm =
     (if c \<noteq> lm_activeConvId lm \<or> findById lm i = None then lm else dropRow i lm)"

definition onStreamingStarted :: "int \<Rightarrow> string \<Rightarrow> string \<Rightarrow> string \<Rightarrow> string \<Rightarrow> string \<Rightarrow> list_model \<Rightarrow> list_model" where
  "onStreamingStarted now c i role agentId memberAlias lm =
     (if c \<noteq> lm_activeConvId lm \<or> findById lm i \<noteq> None then lm
      else lm\<lparr>lm_messages := lm_messages lm @
                [new_message\<lparr>msg_id := i, msg_conversationId := c, msg_role := role, msg_createdAt := Some now,
                   msg_agentId := agentId, msg_memberAlias := memberAlias\<rparr>],
              lm_streamingIds := List.insert i (lm_streamingIds lm)\<rparr>)"

definition onContentStreamed :: "string \<Rightarrow> string \<Rightarrow> string \<Rightarrow> list_model \<Rightarrow> list_model" where
  "onContentStreamed c i delta lm =
     (if c \<noteq> lm_activeConvId lm then lm
      else lm\<lparr>lm_messages := changeRow i (\<lambda>m. m\<lparr>msg_content := msg_content m @ delta\<rparr>) (lm_messages lm)\<rparr>)"

definition onContentRewritten :: "string \<Rightarrow> string \<Rightarrow> string \<Rightarrow> list_model \<Rightarrow> list_model" where
  "onContentRewritten c i newContent lm =
     (if c \<noteq> lm_activeConvId lm then lm
      else lm\<lparr>lm_messages := changeRow i (\<lambda>m. m\<lparr>msg_content := newContent\<rparr>) (lm_messages lm)\<rparr>)"

definition onStreamingAborted :: "string \<Rightarrow> string \<Rightarrow> list_model \<Rightarrow> list_model" where
  "onStreamingAborted c i lm = (if c \<noteq> lm_activeConvId lm then lm else dropRow i lm)"

definition onEphemeralPosted :: "msg_service \<Rightarrow> string \<Rightarrow> string \<Rightarrow> list_model \<Rightarrow> list_model" where
  "onEphemeralPosted s c i lm =
     (if c \<noteq> lm_activeConvId lm \<or> findById lm i \<noteq> None then lm
      else case find (\<lambda>m. msg_id m = i) (ephemeralMessagesForConversation s c) of
        None \<Rightarrow> lm | Some m \<Rightarrow> lm\<lparr>lm_messages := lm_messages lm @ [m]\<rparr>)"

definition onEphemeralCleared :: "msg_service \<Rightarrow> string \<Rightarrow> list_model \<Rightarrow> list_model" where
  "onEphemeralCleared s c lm = (if c = lm_activeConvId lm then reloadActiveConversation s lm else lm)"

text \<open>The connections of the constructor.\<close>

fun receive :: "int \<Rightarrow> msg_service \<Rightarrow> signal \<Rightarrow> list_model \<Rightarrow> list_model" where
  "receive now s (MessageAdded c i) lm = onMessageAdded s c i lm"
| "receive now s (MessageUpdated c i) lm = onMessageUpdated s c i lm"
| "receive now s (MessageDeleted c i) lm = onMessageDeleted c i lm"
| "receive now s (StreamingStarted c i r a m) lm = onStreamingStarted now c i r a m lm"
| "receive now s (ContentStreamed c i d) lm = onContentStreamed c i d lm"
| "receive now s (ContentRewritten c i t) lm = onContentRewritten c i t lm"
| "receive now s (StreamingAborted c i) lm = onStreamingAborted c i lm"
| "receive now s (EphemeralPosted c i) lm = onEphemeralPosted s c i lm"
| "receive now s (EphemeralCleared c) lm = onEphemeralCleared s c lm"
| "receive now s (ToolCallAdded c i) lm = lm"
| "receive now s (ToolCallUpdated c i) lm = lm"

section \<open>The service and its view\<close>

record chat =
  ch_service :: msg_service
  ch_view :: list_model

text \<open>An operation of the service, its signals handled by the view.\<close>

definition with_view :: "int \<Rightarrow> (msg_service \<Rightarrow> msg_service) \<Rightarrow> chat \<Rightarrow> chat" where
  "with_view now f ch =
     (let s = f ((ch_service ch)\<lparr>ms_out := []\<rparr>)
      in \<lparr>ch_service = s, ch_view = fold (receive now s) (ms_out s) (ch_view ch)\<rparr>)"

datatype chat_op =
    Begin int string string string string string
  | Append string string
  | FlushTimer
  | Rewrite string string
  | Finalize int string int string string string json_object string
  | Abort string
  | Add int message
  | Delete string
  | MarkEchoFailed string
  | SetHtml string string
  | Post message
  | ClearEphemeral string
  | DeleteAll string
  | ConversationDeleted string
  | Activate string

fun chat_step :: "chat \<Rightarrow> chat_op \<Rightarrow> chat" where
  "chat_step ch (Begin now c i r a m) = with_view now (beginStreamingMessage now c i r a m) ch"
| "chat_step ch (Append i d) = with_view 0 (appendStreamingChunk i d) ch"
| "chat_step ch FlushTimer = with_view 0 flushPendingDeltas ch"
| "chat_step ch (Rewrite i t) = with_view 0 (rewriteStreamingContent i t) ch"
| "chat_step ch (Finalize now i n fr html model meta th) =
     with_view now (\<lambda>s. snd (finalizeStreamingMessage now i n fr html model meta th s)) ch"
| "chat_step ch (Abort i) = with_view 0 (abortStreamingMessage i) ch"
| "chat_step ch (Add now m) = with_view now (\<lambda>s. snd (addMessage now m s)) ch"
| "chat_step ch (Delete i) = with_view 0 (\<lambda>s. snd (deleteMessage i s)) ch"
| "chat_step ch (MarkEchoFailed i) = with_view 0 (\<lambda>s. snd (markMessageAsEchoFailed i s)) ch"
| "chat_step ch (SetHtml i html) = with_view 0 (\<lambda>s. snd (updateContentHtml i html s)) ch"
| "chat_step ch (Post m) = with_view 0 (postEphemeralMessage m) ch"
| "chat_step ch (ClearEphemeral c) = with_view 0 (clearEphemeralForConversation c) ch"
| "chat_step ch (DeleteAll c) = with_view 0 (\<lambda>s. snd (deleteAllForConversation c s)) ch"
| "chat_step ch (ConversationDeleted c) = with_view 0 (onConversationDeleted c) ch"
| "chat_step ch (Activate c) = ch\<lparr>ch_view := setActiveConversation (ch_service ch) c (ch_view ch)\<rparr>"

end
