(* ===== verification/Chat_View.thy ===== *)
theory Chat_View
  imports Message_List
begin

text \<open>
  The chat view follows the message service: whatever is streamed, rewritten, finished, aborted, deleted or
  posted, the row of a streamed message shows the text received so far up to the deltas that wait
  for the timer. The one exception is a reload while deltas wait.
\<close>

section \<open>Rows\<close>

lemma find_changeRow:
  assumes "\<And>m. msg_id m = i \<Longrightarrow> msg_id (f m) = i"
  shows "find (\<lambda>m. msg_id m = j) (changeRow i f ms) =
    (if j = i then map_option f (find (\<lambda>m. msg_id m = j) ms) else find (\<lambda>m. msg_id m = j) ms)"
  using assms by (induction ms) auto

lemma find_changeRow_other:
  "j \<noteq> i \<Longrightarrow> (\<And>m. msg_id (f m) \<noteq> j \<or> msg_id (f m) = msg_id m) \<Longrightarrow>
   find (\<lambda>m. msg_id m = j) (changeRow i f ms) = find (\<lambda>m. msg_id m = j) ms"
  by (induction ms) auto

lemma find_removeRow: "j \<noteq> i \<Longrightarrow> find (\<lambda>m. msg_id m = j) (removeRow i ms) = find (\<lambda>m. msg_id m = j) ms"
  by (induction ms) auto

lemma find_append: "find P (xs @ ys) = (case find P xs of None \<Rightarrow> find P ys | Some x \<Rightarrow> Some x)"
  by (induction xs) auto

lemma find_None_iff': "find P xs = None \<longleftrightarrow> (\<forall>x \<in> set xs. \<not> P x)"
  by (induction xs) auto

lemma find_id_SomeD: "find (\<lambda>m. msg_id m = i) ms = Some m \<Longrightarrow> msg_id m = i \<and> m \<in> set ms"
  by (induction ms) (auto split: if_splits)

text \<open>What a handler leaves alone: the active conversation and every row but one.\<close>

definition elsewhere :: "string \<Rightarrow> list_model \<Rightarrow> list_model \<Rightarrow> bool" where
  "elsewhere i lm lm' \<longleftrightarrow> lm_activeConvId lm' = lm_activeConvId lm \<and>
     (\<forall>j. j \<noteq> i \<longrightarrow> j \<noteq> [] \<longrightarrow> findById lm' j = findById lm j)"

lemma elsewhere_refl [simp]: "elsewhere i lm lm"
  by (simp add: elsewhere_def)

lemma elsewhere_trans: "elsewhere i a b \<Longrightarrow> elsewhere i b c \<Longrightarrow> elsewhere i a c"
  by (simp add: elsewhere_def)

lemma elsewhere_active: "elsewhere i a b \<Longrightarrow> lm_activeConvId b = lm_activeConvId a"
  by (simp add: elsewhere_def)

lemma elsewhere_dropRow: "elsewhere i lm (dropRow i lm)"
  by (simp add: elsewhere_def dropRow_def findById_def find_removeRow)

lemma elsewhere_streamed: "elsewhere i lm (onContentStreamed c i d lm)"
  by (auto simp: elsewhere_def onContentStreamed_def findById_def intro!: find_changeRow_other)

lemma elsewhere_rewritten: "elsewhere i lm (onContentRewritten c i d lm)"
  by (auto simp: elsewhere_def onContentRewritten_def findById_def intro!: find_changeRow_other)

lemma elsewhere_aborted: "elsewhere i lm (onStreamingAborted c i lm)"
  by (simp add: onStreamingAborted_def elsewhere_dropRow)

lemma elsewhere_deleted: "elsewhere i lm (onMessageDeleted c i lm)"
  by (simp add: onMessageDeleted_def elsewhere_dropRow)

lemma elsewhere_added: "elsewhere i lm (onMessageAdded s c i lm)"
proof -
  let ?f = "find (\<lambda>m. msg_id m = i) (getMessages (ms_store s) c)"
  have canonical: "msg_id (case ?f of Some m \<Rightarrow> m | None \<Rightarrow> new_message) \<in> {i, []}"
    by (auto simp: new_message_def split: option.split dest: find_id_SomeD)
  show ?thesis
  proof (cases "c = lm_activeConvId lm \<and> findById lm i \<noteq> None")
    case True
    then show ?thesis using canonical elsewhere_dropRow
      by (auto simp: onMessageAdded_def Let_def elsewhere_def findById_def intro!: find_changeRow_other)
  next
    case False
    then show ?thesis
      by (auto simp: onMessageAdded_def Let_def elsewhere_def findById_def find_append
          split: option.splits dest: find_id_SomeD)
  qed
qed

lemma elsewhere_updated: "elsewhere i lm (onMessageUpdated s c i lm)"
  by (auto simp: onMessageUpdated_def elsewhere_def findById_def split: option.splits dest: find_id_SomeD
      intro!: find_changeRow_other)

lemma elsewhere_started: "elsewhere i lm (onStreamingStarted now c i r a m lm)"
  by (auto simp: onStreamingStarted_def elsewhere_def findById_def find_append new_message_def split: option.splits)

lemma elsewhere_posted: "elsewhere i lm (onEphemeralPosted s c i lm)"
  by (auto simp: onEphemeralPosted_def elsewhere_def findById_def find_append
      split: option.splits dest: find_id_SomeD)

section \<open>The invariant\<close>

definition ephemeralIds :: "msg_service \<Rightarrow> string set" where
  "ephemeralIds s = {msg_id m |m c. m \<in> set (ephemeralMessagesForConversation s c)}"

definition storedIds :: "msg_service \<Rightarrow> string set" where
  "storedIds s = msg_id ` set (st_messages (ms_store s))"

definition slots_inv :: "msg_service \<Rightarrow> bool" where
  "slots_inv s \<longleftrightarrow> distinct (keys (ms_slots s)) \<and> distinct (keys (ms_pending s)) \<and>
     set (keys (ms_pending s)) \<subseteq> set (keys (ms_slots s)) \<and>
     (\<forall>i sl. map_of (ms_slots s) i = Some sl \<longrightarrow>
        i \<noteq> [] \<and> sl_convId sl \<noteq> [] \<and> i \<notin> storedIds s \<and> i \<notin> ephemeralIds s)"

text \<open>A streamed message of the active conversation has a row, which lacks the waiting text.\<close>

definition shown :: "msg_service \<Rightarrow> list_model \<Rightarrow> bool" where
  "shown s lm \<longleftrightarrow> (\<forall>i sl. map_of (ms_slots s) i = Some sl \<longrightarrow> sl_convId sl = lm_activeConvId lm \<longrightarrow>
     (\<exists>r. findById lm i = Some r \<and> msg_content r @ valueOr (ms_pending s) i [] = sl_content sl))"

definition flagged :: "msg_service \<Rightarrow> list_model \<Rightarrow> bool" where
  "flagged s lm \<longleftrightarrow>
     set (lm_streamingIds lm) = {i. \<exists>sl. map_of (ms_slots s) i = Some sl \<and> sl_convId sl = lm_activeConvId lm}"

definition chat_inv :: "chat \<Rightarrow> bool" where
  "chat_inv ch \<longleftrightarrow> slots_inv (ch_service ch) \<and> shown (ch_service ch) (ch_view ch) \<and>
     flagged (ch_service ch) (ch_view ch)"

text \<open>No delta of a conversation waits.\<close>

definition settled :: "msg_service \<Rightarrow> string \<Rightarrow> bool" where
  "settled s c \<longleftrightarrow> (\<forall>(i, sl) \<in> set (ms_slots s). sl_convId sl = c \<longrightarrow> valueOr (ms_pending s) i [] = [])"

text \<open>Ids are fresh, and the view is reloaded only when no delta waits.\<close>

fun chat_ok :: "chat \<Rightarrow> chat_op \<Rightarrow> bool" where
  "chat_ok ch (Begin now c i r a m) = (i \<notin> storedIds (ch_service ch) \<and> i \<notin> ephemeralIds (ch_service ch) \<and> findById (ch_view ch) i = None)"
| "chat_ok ch (Add now m) = (msg_id m \<notin> set (keys (ms_slots (ch_service ch))))"
| "chat_ok ch (Post m) = (msg_id m \<notin> set (keys (ms_slots (ch_service ch))))"
| "chat_ok ch (ClearEphemeral c) = settled (ch_service ch) c"
| "chat_ok ch (DeleteAll c) = settled (ch_service ch) c"
| "chat_ok ch (Activate c) = settled (ch_service ch) c"
| "chat_ok ch e = True"

definition chat_start :: "chat \<Rightarrow> bool" where
  "chat_start ch \<longleftrightarrow> ms_slots (ch_service ch) = [] \<and> ms_pending (ch_service ch) = [] \<and>
     ch_view ch = new_list_model"

lemma pending_none: "slots_inv s \<Longrightarrow> map_of (ms_slots s) i = None \<Longrightarrow> map_of (ms_pending s) i = None"
  by (auto simp: slots_inv_def map_of_eq_None_iff)

lemma slots_invI:
  assumes "distinct (keys (ms_slots s))" and "distinct (keys (ms_pending s))"
    and "set (keys (ms_pending s)) \<subseteq> set (keys (ms_slots s))"
    and "\<And>i sl. map_of (ms_slots s) i = Some sl \<Longrightarrow>
      i \<noteq> [] \<and> sl_convId sl \<noteq> [] \<and> i \<notin> storedIds s \<and> i \<notin> ephemeralIds s"
  shows "slots_inv s"
  using assms unfolding slots_inv_def by blast

lemma slots_invD:
  assumes "slots_inv s"
  shows "distinct (keys (ms_slots s))" and "distinct (keys (ms_pending s))"
    and "set (keys (ms_pending s)) \<subseteq> set (keys (ms_slots s))"
    and "map_of (ms_slots s) i = Some sl \<Longrightarrow>
      i \<noteq> [] \<and> sl_convId sl \<noteq> [] \<and> i \<notin> storedIds s \<and> i \<notin> ephemeralIds s"
  using assms unfolding slots_inv_def by blast+

lemma keys_delete: "set (keys (AList.delete i m)) = set (keys m) - {i}"
  by (simp add: delete_keys set_removeAll)

lemma keys_update: "set (keys (AList.update i v m)) = insert i (set (keys m))"
  using dom_update [of i v m] by (simp add: dom_map_of_conv_image_fst)

text \<open>A message that is not streamed may come and go.\<close>

lemma view_elsewhere:
  assumes "chat_inv \<lparr>ch_service = s, ch_view = lm\<rparr>" and "elsewhere i lm lm'" and "map_of (ms_slots s) i = None"
    and "ms_slots s' = ms_slots s" and "ms_pending s' = ms_pending s"
    and "storedIds s' \<subseteq> storedIds s \<union> {i}" and "ephemeralIds s' \<subseteq> ephemeralIds s \<union> {i}"
    and "set (lm_streamingIds lm') - {i} = set (lm_streamingIds lm) - {i}" and "i \<notin> set (lm_streamingIds lm')"
  shows "chat_inv \<lparr>ch_service = s', ch_view = lm'\<rparr>"
proof -
  have s: "slots_inv s" using assms(1) by (simp add: chat_inv_def)
  have "slots_inv s'"
  proof (rule slots_invI)
    fix j sl assume "map_of (ms_slots s') j = Some sl"
    with assms(3,4) have "j \<noteq> i" "map_of (ms_slots s) j = Some sl" by auto
    with slots_invD(4) [OF s] assms(6,7)
    show "j \<noteq> [] \<and> sl_convId sl \<noteq> [] \<and> j \<notin> storedIds s' \<and> j \<notin> ephemeralIds s'" by blast
  qed (use slots_invD(1-3) [OF s] assms(4,5) in simp_all)
  moreover have "shown s' lm'"
    unfolding shown_def
  proof (intro allI impI)
    fix j sl assume j: "map_of (ms_slots s') j = Some sl" "sl_convId sl = lm_activeConvId lm'"
    with assms(1,3,4) have "j \<noteq> i" "j \<noteq> []" by (auto simp: chat_inv_def slots_inv_def)
    with assms(2) have "findById lm' j = findById lm j" "lm_activeConvId lm' = lm_activeConvId lm"
      by (simp_all add: elsewhere_def)
    with assms(1,4,5) j show "\<exists>r. findById lm' j = Some r \<and> msg_content r @ valueOr (ms_pending s') j [] = sl_content sl"
      by (simp add: chat_inv_def shown_def)
  qed
  moreover have "flagged s' lm'"
    using assms(1,3,4,8,9) elsewhere_active [OF assms(2)] by (auto simp: chat_inv_def flagged_def)
  ultimately show ?thesis by (simp add: chat_inv_def)
qed

text \<open>A streamed message ends.\<close>

lemma close_slot:
  assumes "chat_inv \<lparr>ch_service = s, ch_view = lm\<rparr>" and "elsewhere i lm lm'"
    and "ms_slots s' = AList.delete i (ms_slots s)" and "ms_pending s' = AList.delete i (ms_pending s)"
    and "storedIds s' \<subseteq> storedIds s \<union> {i}" and "ephemeralIds s' \<subseteq> ephemeralIds s"
    and "set (lm_streamingIds lm') = set (lm_streamingIds lm) - {i}"
  shows "chat_inv \<lparr>ch_service = s', ch_view = lm'\<rparr>"
proof -
  have s: "slots_inv s" using assms(1) by (simp add: chat_inv_def)
  have "slots_inv s'"
  proof (rule slots_invI)
    fix j sl assume "map_of (ms_slots s') j = Some sl"
    with assms(3) have "j \<noteq> i" "map_of (ms_slots s) j = Some sl" by (auto simp: delete_conv' split: if_splits)
    with slots_invD(4) [OF s] assms(5,6)
    show "j \<noteq> [] \<and> sl_convId sl \<noteq> [] \<and> j \<notin> storedIds s' \<and> j \<notin> ephemeralIds s'" by blast
  qed (use slots_invD(1-3) [OF s] assms(3,4) in \<open>auto simp: keys_delete distinct_delete simp del: set_map\<close>)
  moreover have "shown s' lm'"
    unfolding shown_def
  proof (intro allI impI)
    fix j sl assume j: "map_of (ms_slots s') j = Some sl" "sl_convId sl = lm_activeConvId lm'"
    with assms(3) have "j \<noteq> i" "map_of (ms_slots s) j = Some sl" by (auto simp: delete_conv' split: if_splits)
    moreover from this assms(1) have "j \<noteq> []" by (auto simp: chat_inv_def slots_inv_def)
    moreover from calculation assms(2) have "findById lm' j = findById lm j" "lm_activeConvId lm' = lm_activeConvId lm"
      by (simp_all add: elsewhere_def)
    ultimately show "\<exists>r. findById lm' j = Some r \<and> msg_content r @ valueOr (ms_pending s') j [] = sl_content sl"
      using assms(1,4) j by (simp add: chat_inv_def shown_def)
  qed
  moreover have "flagged s' lm'"
    using assms(1,3,7) elsewhere_active [OF assms(2)] by (auto simp: chat_inv_def flagged_def delete_conv' split: if_splits)
  ultimately show ?thesis by (simp add: chat_inv_def)
qed

text \<open>The text of a streamed message changes together with its row.\<close>

lemma change_slot:
  assumes "chat_inv \<lparr>ch_service = s, ch_view = lm\<rparr>" and "elsewhere i lm lm'"
    and "map_of (ms_slots s) i = Some sl" and "ms_slots s' = AList.update i (sl\<lparr>sl_content := t\<rparr>) (ms_slots s)"
    and "set (keys (ms_pending s')) \<subseteq> set (keys (ms_pending s)) \<union> {i}" and "distinct (keys (ms_pending s'))"
    and "\<And>j. j \<noteq> i \<Longrightarrow> valueOr (ms_pending s') j [] = valueOr (ms_pending s) j []"
    and "storedIds s' = storedIds s" and "ephemeralIds s' = ephemeralIds s"
    and "set (lm_streamingIds lm') = set (lm_streamingIds lm)"
    and "sl_convId sl = lm_activeConvId lm \<Longrightarrow>
      \<exists>r. findById lm' i = Some r \<and> msg_content r @ valueOr (ms_pending s') i [] = t"
  shows "chat_inv \<lparr>ch_service = s', ch_view = lm'\<rparr>"
proof -
  have s: "slots_inv s" using assms(1) by (simp add: chat_inv_def)
  have "slots_inv s'"
  proof (rule slots_invI)
    fix j sl' assume "map_of (ms_slots s') j = Some sl'"
    with assms(3,4) have "\<exists>sl''. map_of (ms_slots s) j = Some sl'' \<and> sl_convId sl'' = sl_convId sl'"
      by (auto simp: update_conv' split: if_splits)
    with slots_invD(4) [OF s] assms(8,9)
    show "j \<noteq> [] \<and> sl_convId sl' \<noteq> [] \<and> j \<notin> storedIds s' \<and> j \<notin> ephemeralIds s'" by auto
  qed (use slots_invD(1-3) [OF s] assms(4-6) in \<open>auto simp: keys_update distinct_update simp del: set_map\<close>)
  moreover have "shown s' lm'"
    unfolding shown_def
  proof (intro allI impI)
    fix j sl' assume j: "map_of (ms_slots s') j = Some sl'" "sl_convId sl' = lm_activeConvId lm'"
    show "\<exists>r. findById lm' j = Some r \<and> msg_content r @ valueOr (ms_pending s') j [] = sl_content sl'"
    proof (cases "j = i")
      case True
      with j assms(4,11) elsewhere_active [OF assms(2)] show ?thesis by (auto simp: update_conv')
    next
      case False
      with assms(4) j have j': "map_of (ms_slots s) j = Some sl'" by (simp add: update_conv')
      with assms(1) have "j \<noteq> []" by (auto simp: chat_inv_def slots_inv_def)
      with False assms(2) have "findById lm' j = findById lm j" "lm_activeConvId lm' = lm_activeConvId lm"
        by (simp_all add: elsewhere_def)
      with assms(1,7) j j' False show ?thesis by (simp add: chat_inv_def shown_def)
    qed
  qed
  moreover have "flagged s' lm'"
    using assms(1,3,4,10) elsewhere_active [OF assms(2)] by (auto simp: chat_inv_def flagged_def update_conv' split: if_splits)
  ultimately show ?thesis by (simp add: chat_inv_def)
qed

section \<open>The operations\<close>

lemma chat_inv_out [simp]: "chat_inv \<lparr>ch_service = s\<lparr>ms_out := x\<rparr>, ch_view = lm\<rparr> = chat_inv \<lparr>ch_service = s, ch_view = lm\<rparr>"
  by (simp add: chat_inv_def slots_inv_def shown_def flagged_def storedIds_def ephemeralIds_def
      ephemeralMessagesForConversation_def)

lemma chat_inv_timer [simp]: "chat_inv \<lparr>ch_service = s\<lparr>ms_timer := x\<rparr>, ch_view = lm\<rparr> = chat_inv \<lparr>ch_service = s, ch_view = lm\<rparr>"
  by (simp add: chat_inv_def slots_inv_def shown_def flagged_def storedIds_def ephemeralIds_def
      ephemeralMessagesForConversation_def)

text \<open>An operation keeps the invariant when it does so from a service whose signals are all delivered.\<close>

lemma with_view_inv:
  assumes "chat_inv ch"
    and "\<And>s lm. s = (ch_service ch)\<lparr>ms_out := []\<rparr> \<Longrightarrow> lm = ch_view ch \<Longrightarrow> ms_out s = [] \<Longrightarrow>
      chat_inv \<lparr>ch_service = s, ch_view = lm\<rparr> \<Longrightarrow>
      chat_inv \<lparr>ch_service = f s, ch_view = fold (receive now (f s)) (ms_out (f s)) lm\<rparr>"
  shows "chat_inv (with_view now f ch)"
proof -
  have "chat_inv \<lparr>ch_service = (ch_service ch)\<lparr>ms_out := []\<rparr>, ch_view = ch_view ch\<rparr>"
    using assms(1) by (cases ch) simp
  from assms(2) [OF refl refl _ this] show ?thesis by (simp add: with_view_def Let_def)
qed

lemma update_same: "map_of m k = Some v \<Longrightarrow> AList.update k v m = m"
  by (induction m) auto

lemma delete_none: "map_of m k = None \<Longrightarrow> AList.delete k m = m"
  by (induction m) (auto split: if_splits)

lemma ids_frame [simp]:
  "storedIds (s\<lparr>ms_slots := a\<rparr>) = storedIds s" "storedIds (s\<lparr>ms_pending := b\<rparr>) = storedIds s"
  "storedIds (s\<lparr>ms_out := x\<rparr>) = storedIds s" "storedIds (s\<lparr>ms_timer := y\<rparr>) = storedIds s"
  "storedIds (s\<lparr>ms_ephemeral := e\<rparr>) = storedIds s" "storedIds (signal_out g s) = storedIds s"
  "ephemeralIds (s\<lparr>ms_slots := a\<rparr>) = ephemeralIds s" "ephemeralIds (s\<lparr>ms_pending := b\<rparr>) = ephemeralIds s"
  "ephemeralIds (s\<lparr>ms_out := x\<rparr>) = ephemeralIds s" "ephemeralIds (s\<lparr>ms_timer := y\<rparr>) = ephemeralIds s"
  "ephemeralIds (s\<lparr>ms_store := z\<rparr>) = ephemeralIds s" "ephemeralIds (signal_out g s) = ephemeralIds s"
  by (simp_all add: storedIds_def ephemeralIds_def ephemeralMessagesForConversation_def signal_out_def)

lemma signal_out_frame [simp]:
  "ms_slots (signal_out g s) = ms_slots s" "ms_pending (signal_out g s) = ms_pending s"
  "ms_store (signal_out g s) = ms_store s" "ms_ephemeral (signal_out g s) = ms_ephemeral s"
  "ms_out (signal_out g s) = ms_out s @ [g]"
  by (simp_all add: signal_out_def)

lemma shownD:
  "chat_inv \<lparr>ch_service = s, ch_view = lm\<rparr> \<Longrightarrow> map_of (ms_slots s) i = Some sl \<Longrightarrow> sl_convId sl = lm_activeConvId lm \<Longrightarrow>
   \<exists>r. findById lm i = Some r \<and> msg_content r @ valueOr (ms_pending s) i [] = sl_content sl"
  by (simp add: chat_inv_def shown_def)

lemma flaggedD:
  "chat_inv \<lparr>ch_service = s, ch_view = lm\<rparr> \<Longrightarrow>
   i \<in> set (lm_streamingIds lm) \<longleftrightarrow> (\<exists>sl. map_of (ms_slots s) i = Some sl \<and> sl_convId sl = lm_activeConvId lm)"
  by (simp add: chat_inv_def flagged_def)

lemma inv_slots: "chat_inv \<lparr>ch_service = s, ch_view = lm\<rparr> \<Longrightarrow> slots_inv s"
  by (simp add: chat_inv_def)

lemma begin_inv [inv_intro]:
  assumes "chat_inv ch" and "chat_ok ch (Begin now c i r a m)"
  shows "chat_inv (with_view now (beginStreamingMessage now c i r a m) ch)"
proof (rule with_view_inv [OF assms(1)])
  fix s lm assume eq: "s = (ch_service ch)\<lparr>ms_out := []\<rparr>" "lm = ch_view ch"
    and out: "ms_out s = []" and inv: "chat_inv \<lparr>ch_service = s, ch_view = lm\<rparr>"
  let ?s = "beginStreamingMessage now c i r a m s"
  let ?sl = "\<lparr>sl_convId = c, sl_role = r, sl_agentId = a, sl_memberAlias = m, sl_content = [], sl_startedAt = Some now\<rparr>"
  show "chat_inv \<lparr>ch_service = ?s, ch_view = fold (receive now ?s) (ms_out ?s) lm\<rparr>"
  proof (cases "c = [] \<or> i = [] \<or> hasStreamingMessage s i \<or> \<not> conversationExists (ms_store s) c")
    case True
    then show ?thesis using inv out by (auto simp: beginStreamingMessage_def)
  next
    case False
    then have s': "?s = signal_out (StreamingStarted c i r a m) (s\<lparr>ms_slots := AList.update i ?sl (ms_slots s)\<rparr>)"
      by (simp add: beginStreamingMessage_def)
    have fresh: "i \<notin> storedIds s" "i \<notin> ephemeralIds s" "findById lm i = None" using assms(2) eq by simp_all
    have none: "map_of (ms_slots s) i = None" using False by (simp add: hasStreamingMessage_def)
    note S = inv_slots [OF inv]
    have pend: "valueOr (ms_pending s) i [] = []" using pending_none [OF S none] by (simp add: valueOr_def)
    let ?lm = "onStreamingStarted now c i r a m lm"
    have "slots_inv ?s"
      unfolding s'
    proof (rule slots_invI, goal_cases)
      case (4 j sl)
      then show ?case using fresh False slots_invD(4) [OF S, of j sl] by (auto simp: update_conv' split: if_splits)
    qed (use slots_invD(1-3) [OF S] in \<open>auto simp: keys_update distinct_update simp del: set_map\<close>)
    moreover have "shown ?s ?lm"
      unfolding shown_def s'
    proof (intro allI impI)
      fix j sl assume "map_of (ms_slots (signal_out (StreamingStarted c i r a m) (s\<lparr>ms_slots := AList.update i ?sl (ms_slots s)\<rparr>))) j = Some sl"
        and conv: "sl_convId sl = lm_activeConvId ?lm"
      then have j: "(if j = i then sl = ?sl else map_of (ms_slots s) j = Some sl)" by (auto simp: update_conv' split: if_splits)
      show "\<exists>x. findById ?lm j = Some x \<and> msg_content x @ valueOr (ms_pending (signal_out (StreamingStarted c i r a m)
          (s\<lparr>ms_slots := AList.update i ?sl (ms_slots s)\<rparr>))) j [] = sl_content sl"
      proof (cases "j = i")
        case True
        with j conv fresh(3) pend elsewhere_active [OF elsewhere_started, of now c i r a m lm] show ?thesis
          by (auto simp: onStreamingStarted_def findById_def find_append new_message_def)
      next
        case False
        with j have "map_of (ms_slots s) j = Some sl" by simp
        moreover from this have "j \<noteq> []" using slots_invD(4) [OF S] by blast
        moreover have "elsewhere i lm ?lm" by (rule elsewhere_started)
        ultimately show ?thesis using False conv shownD [OF inv, of j sl] by (simp add: elsewhere_def)
      qed
    qed
    moreover have "flagged ?s ?lm"
      using flaggedD [OF inv] none fresh(3) unfolding flagged_def s'
      by (auto simp: onStreamingStarted_def update_conv')
    ultimately show ?thesis using out by (simp add: chat_inv_def s')
  qed
qed

lemma append_inv [inv_intro]:
  assumes "chat_inv ch"
  shows "chat_inv (with_view now (appendStreamingChunk i d) ch)"
proof (rule with_view_inv [OF assms])
  fix s lm assume out: "ms_out s = []" and inv: "chat_inv \<lparr>ch_service = s, ch_view = lm\<rparr>"
  let ?s = "appendStreamingChunk i d s"
  show "chat_inv \<lparr>ch_service = ?s, ch_view = fold (receive now ?s) (ms_out ?s) lm\<rparr>"
  proof (cases "map_of (ms_slots s) i = None \<or> d = []")
    case True
    then show ?thesis using inv out by (auto simp: appendStreamingChunk_def split: option.splits)
  next
    case False
    then obtain sl where sl: "map_of (ms_slots s) i = Some sl" by auto
    have "chat_inv \<lparr>ch_service = ?s, ch_view = lm\<rparr>"
    proof (rule change_slot [OF inv elsewhere_refl sl, where t = "sl_content sl @ d"])
      show "\<exists>r. findById lm i = Some r \<and> msg_content r @ valueOr (ms_pending ?s) i [] = sl_content sl @ d"
        if "sl_convId sl = lm_activeConvId lm"
        using shownD [OF inv sl that] sl False by (auto simp: appendStreamingChunk_def)
    qed (use sl False slots_invD(2) [OF inv_slots [OF inv]] in
        \<open>auto simp: appendStreamingChunk_def keys_update distinct_update simp del: set_map\<close>)
    then show ?thesis using out sl False by (simp add: appendStreamingChunk_def)
  qed
qed

text \<open>The waiting text of one message goes out.\<close>

lemma takePending_view:
  assumes "chat_inv \<lparr>ch_service = s, ch_view = lm\<rparr>" and "ms_out s = []" and "map_of (ms_slots s) i = Some sl"
  obtains lm' where "\<And>t. fold (receive now t) (ms_out (takePending i s)) lm = lm'" and "elsewhere i lm lm'"
    and "lm_streamingIds lm' = lm_streamingIds lm"
    and "sl_convId sl = lm_activeConvId lm \<Longrightarrow> \<exists>r. findById lm' i = Some r \<and> msg_content r = sl_content sl"
proof (cases "valueOr (ms_pending s) i [] = []")
  case True
  then have "ms_out (takePending i s) = []"
    using assms(2) by (auto simp: takePending_def flushOne_def valueOr_def split: option.splits)
  then show ?thesis using that [of lm] True shownD [OF assms(1,3)] by simp
next
  case False
  let ?d = "valueOr (ms_pending s) i []" and ?lm = "onContentStreamed (sl_convId sl) i (valueOr (ms_pending s) i []) lm"
  have "ms_out (takePending i s) = [ContentStreamed (sl_convId sl) i ?d]"
    using assms(2,3) False by (auto simp: takePending_def flushOne_def valueOr_def split: option.splits)
  moreover have "\<exists>r. findById ?lm i = Some r \<and> msg_content r = sl_content sl" if "sl_convId sl = lm_activeConvId lm"
    using shownD [OF assms(1,3) that] that by (auto simp: onContentStreamed_def findById_def find_changeRow)
  ultimately show ?thesis
    using that [of ?lm] elsewhere_streamed [of i lm "sl_convId sl" ?d] by (simp add: onContentStreamed_def)
qed

lemma takePending_frame [simp]:
  "ms_slots (takePending i s) = ms_slots s" "ms_store (takePending i s) = ms_store s"
  "ms_ephemeral (takePending i s) = ms_ephemeral s"
  "ms_pending (takePending i s) = AList.delete i (ms_pending s)"
  by (auto simp: takePending_def flushOne_def delete_none split: option.split)

lemma ids_takePending [simp]: "storedIds (takePending i s) = storedIds s" "ephemeralIds (takePending i s) = ephemeralIds s"
  by (simp_all add: storedIds_def ephemeralIds_def ephemeralMessagesForConversation_def)

lemma takePending_out: "\<exists>es. ms_out (takePending i s) = ms_out s @ es"
  by (auto simp: takePending_def flushOne_def split: option.split)

lemma takePending_none:
  "slots_inv s \<Longrightarrow> map_of (ms_slots s) i = None \<Longrightarrow> takePending i s = s"
  by (simp add: takePending_def pending_none)

lemma rewrite_inv [inv_intro]:
  assumes "chat_inv ch"
  shows "chat_inv (with_view now (rewriteStreamingContent i t) ch)"
proof (rule with_view_inv [OF assms])
  fix s lm assume out: "ms_out s = []" and inv: "chat_inv \<lparr>ch_service = s, ch_view = lm\<rparr>"
  let ?s = "rewriteStreamingContent i t s"
  note S = inv_slots [OF inv]
  show "chat_inv \<lparr>ch_service = ?s, ch_view = fold (receive now ?s) (ms_out ?s) lm\<rparr>"
  proof (cases "map_of (ms_slots s) i")
    case None
    then show ?thesis using inv out by (simp add: rewriteStreamingContent_def takePending_none [OF S])
  next
    case (Some sl)
    from takePending_view [OF inv out Some, of now] obtain lm' where
      lm': "\<And>t. fold (receive now t) (ms_out (takePending i s)) lm = lm'" "elsewhere i lm lm'"
        "lm_streamingIds lm' = lm_streamingIds lm"
        "sl_convId sl = lm_activeConvId lm \<Longrightarrow> \<exists>r. findById lm' i = Some r \<and> msg_content r = sl_content sl" by metis
    show ?thesis
    proof (rule change_slot [OF inv _ Some, where t = t])
      show "elsewhere i lm (fold (receive now ?s) (ms_out ?s) lm)"
        using Some lm'(1,2) elsewhere_trans [OF lm'(2) elsewhere_rewritten [of i lm' "sl_convId sl" t]]
        by (simp add: rewriteStreamingContent_def Let_def)
      show "ms_slots ?s = AList.update i (sl\<lparr>sl_content := t\<rparr>) (ms_slots s)"
        using Some update_same [of "ms_slots s" i "sl\<lparr>sl_content := t\<rparr>"]
        by (auto simp: rewriteStreamingContent_def Let_def)
      show "\<exists>r. findById (fold (receive now ?s) (ms_out ?s) lm) i = Some r \<and>
          msg_content r @ valueOr (ms_pending ?s) i [] = t" if c: "sl_convId sl = lm_activeConvId lm"
        using Some lm'(1) lm'(4) [OF c] c elsewhere_active [OF lm'(2)]
        by (auto simp: rewriteStreamingContent_def Let_def onContentRewritten_def findById_def find_changeRow)
    qed (use Some lm'(1,3) slots_invD(2) [OF S] in
        \<open>auto simp: rewriteStreamingContent_def Let_def keys_delete distinct_delete onContentRewritten_def simp del: set_map\<close>)
  qed
qed

end
