(* ===== verification/Chat_Laws.thy ===== *)
theory Chat_Laws
  imports Chat_View
begin

text \<open>
  The remaining operations keep the view in step with the service, and what follows: what the user sees
  of every stream, that a finished stream is stored, and the reload that shows text twice.
\<close>

section \<open>Streams that end\<close>

lemma streamingIds_aborted:
  "c = lm_activeConvId lm \<Longrightarrow> set (lm_streamingIds (onStreamingAborted c i lm)) = set (lm_streamingIds lm) - {i}"
  "c \<noteq> lm_activeConvId lm \<Longrightarrow> onStreamingAborted c i lm = lm"
  by (simp_all add: onStreamingAborted_def dropRow_def)

lemma streamingIds_added:
  assumes "c = lm_activeConvId lm" and "findById lm i \<noteq> None"
  shows "set (lm_streamingIds (onMessageAdded s c i lm)) = set (lm_streamingIds lm) - {i}"
  using assms by (auto simp: onMessageAdded_def Let_def dropRow_def)

text \<open>A signal that ends a stream takes its row out of the streaming ones.\<close>

lemma ended_streamingIds:
  assumes "chat_inv \<lparr>ch_service = s, ch_view = lm\<rparr>" and "map_of (ms_slots s) i = Some sl"
    and "elsewhere i lm lm1" and "lm_streamingIds lm1 = lm_streamingIds lm"
    and "sl_convId sl = lm_activeConvId lm \<Longrightarrow> findById lm1 i \<noteq> None"
    and "lm2 = onStreamingAborted (sl_convId sl) i lm1 \<or> lm2 = onMessageAdded t (sl_convId sl) i lm1"
  shows "set (lm_streamingIds lm2) = set (lm_streamingIds lm) - {i}"
proof (cases "sl_convId sl = lm_activeConvId lm")
  case True
  then show ?thesis using assms(4-6) elsewhere_active [OF assms(3)] streamingIds_aborted(1) [of "sl_convId sl" lm1 i]
      streamingIds_added [of "sl_convId sl" lm1 i t] by auto
next
  case False
  then have "lm2 = lm1"
    using assms(6) elsewhere_active [OF assms(3)] by (auto simp: onMessageAdded_def onStreamingAborted_def)
  moreover have "i \<notin> set (lm_streamingIds lm)" using flaggedD [OF assms(1)] assms(2) False by auto
  ultimately show ?thesis using assms(4) by simp
qed

lemma addMessage_cases:
  obtains "addMessage now m s = ([], s)"
  | st where "addMessage now m s = (msg_id m, signal_out (MessageAdded (msg_conversationId m) (msg_id m)) (s\<lparr>ms_store := st\<rparr>))"
      "msg_id m \<noteq> []" "insert (msg_id m) (msg_id ` set (st_messages (ms_store s))) = msg_id ` set (st_messages st)"
proof (cases "validMessage m \<and> conversationExists (ms_store s) (msg_conversationId m)")
  case True
  show ?thesis
  proof (cases "insertMessage now m (ms_store s)")
    case None
    with that(1) show ?thesis by (simp add: addMessage_def)
  next
    case (Some st0)
    define st where "st = ms_store (snd (addMessage now m s))"
    have "addMessage now m s = (msg_id m, signal_out (MessageAdded (msg_conversationId m) (msg_id m)) (s\<lparr>ms_store := st\<rparr>))"
      using True Some by (simp add: addMessage_def Let_def st_def)
    moreover have "st_messages st = st_messages st0"
      using True Some by (simp add: st_def addMessage_def Let_def updateTokenTotal_def ftsInsert_def)
    moreover have "insert (msg_id m) (msg_id ` set (st_messages (ms_store s))) = msg_id ` set (st_messages st0)"
      using Some by (auto simp: insertMessage_def split: if_splits)
    ultimately show ?thesis using that(2) [of st] True by (simp add: validMessage_def)
  qed
qed (use that(1) in \<open>auto simp: addMessage_def\<close>)

lemma finalize_inv [inv_intro]:
  assumes "chat_inv ch"
  shows "chat_inv (with_view now (\<lambda>s. snd (finalizeStreamingMessage now i n fr html model meta th s)) ch)"
proof (rule with_view_inv [OF assms])
  fix s lm assume out: "ms_out s = []" and inv: "chat_inv \<lparr>ch_service = s, ch_view = lm\<rparr>"
  let ?s = "snd (finalizeStreamingMessage now i n fr html model meta th s)"
  show "chat_inv \<lparr>ch_service = ?s, ch_view = fold (receive now ?s) (ms_out ?s) lm\<rparr>"
  proof (cases "map_of (ms_slots s) i")
    case None
    then show ?thesis using inv out by (simp add: finalizeStreamingMessage_def takePending_none [OF inv_slots [OF inv]])
  next
    case (Some sl)
    from takePending_view [OF inv out Some, of now] obtain lm' where
      lm': "\<And>t. fold (receive now t) (ms_out (takePending i s)) lm = lm'" "elsewhere i lm lm'"
        "lm_streamingIds lm' = lm_streamingIds lm"
        "sl_convId sl = lm_activeConvId lm \<Longrightarrow> \<exists>r. findById lm' i = Some r \<and> msg_content r = sl_content sl" by metis
    define m where "m = (slotMessage i sl)\<lparr>msg_contentHtml := html,
        msg_createdAt := Some (case sl_startedAt sl of Some t \<Rightarrow> t | None \<Rightarrow> now), msg_tokenCount := n,
        msg_modelUsed := model, msg_finishReason := fr, msg_metadata := meta, msg_thinkingContent := th\<rparr>"
    let ?s1 = "(takePending i s)\<lparr>ms_slots := AList.delete i (ms_slots s)\<rparr>"
    have m: "msg_id m = i" "msg_conversationId m = sl_convId sl" by (simp_all add: m_def slotMessage_def)
    have F: "?s = (let (added, s2) = addMessage now m ?s1 in
        if added \<noteq> [] then s2 else signal_out (StreamingAborted (sl_convId sl) i) s2)"
      using Some by (simp add: finalizeStreamingMessage_def Let_def m_def case_prod_beta)
    show ?thesis
    proof (cases rule: addMessage_cases [of now m ?s1])
      case 1
      then have s': "?s = signal_out (StreamingAborted (sl_convId sl) i) ?s1" by (simp add: F)
      let ?lm = "onStreamingAborted (sl_convId sl) i lm'"
      have "set (lm_streamingIds ?lm) = set (lm_streamingIds lm) - {i}"
        by (rule ended_streamingIds [OF inv Some lm'(2,3)]) (use lm'(4) in auto)
      then have "chat_inv \<lparr>ch_service = ?s, ch_view = ?lm\<rparr>"
        by (intro close_slot [OF inv elsewhere_trans [OF lm'(2) elsewhere_aborted]]) (auto simp: s')
      then show ?thesis by (simp add: s' lm'(1))
    next
      case (2 st)
      then have s': "?s = signal_out (MessageAdded (sl_convId sl) i) (?s1\<lparr>ms_store := st\<rparr>)" by (simp add: F m)
      let ?lm = "onMessageAdded ?s (sl_convId sl) i lm'"
      have "set (lm_streamingIds ?lm) = set (lm_streamingIds lm) - {i}"
        by (rule ended_streamingIds [OF inv Some lm'(2,3)]) (use lm'(4) in auto)
      moreover have "storedIds ?s \<subseteq> storedIds s \<union> {i}" using 2(3) by (auto simp: s' storedIds_def m)
      ultimately have "chat_inv \<lparr>ch_service = ?s, ch_view = ?lm\<rparr>"
        by (intro close_slot [OF inv elsewhere_trans [OF lm'(2) elsewhere_added]]) (simp_all add: s')
      then show ?thesis by (simp add: s' lm'(1))
    qed
  qed
qed

text \<open>An abort, and its signal, from any state of the signals before.\<close>

lemma abort_view:
  assumes "chat_inv \<lparr>ch_service = s, ch_view = lm\<rparr>"
  obtains lm' es where "ms_out (abortStreamingMessage i s) = ms_out s @ es"
    and "\<And>t. fold (receive now t) es lm = lm'"
    and "chat_inv \<lparr>ch_service = abortStreamingMessage i s, ch_view = lm'\<rparr>"
proof (cases "map_of (ms_slots s) i")
  case None
  then have "abortStreamingMessage i s = s"
    using pending_none [OF inv_slots [OF assms]] by (simp add: abortStreamingMessage_def delete_none)
  then show ?thesis using that [of "[]" lm] assms by simp
next
  case (Some sl)
  let ?s = "abortStreamingMessage i s" and ?lm = "onStreamingAborted (sl_convId sl) i lm"
  have s': "?s = signal_out (StreamingAborted (sl_convId sl) i)
      (s\<lparr>ms_pending := AList.delete i (ms_pending s), ms_slots := AList.delete i (ms_slots s)\<rparr>)"
    using Some by (simp add: abortStreamingMessage_def Let_def)
  have "set (lm_streamingIds ?lm) = set (lm_streamingIds lm) - {i}"
    by (rule ended_streamingIds [OF assms Some elsewhere_refl refl]) (use shownD [OF assms Some] in auto)
  then have "chat_inv \<lparr>ch_service = ?s, ch_view = ?lm\<rparr>"
    by (intro close_slot [OF assms elsewhere_aborted]) (auto simp: s')
  then show ?thesis using that [of "[StreamingAborted (sl_convId sl) i]" ?lm] by (simp add: s')
qed

lemma aborts_view:
  "chat_inv \<lparr>ch_service = s, ch_view = lm\<rparr> \<Longrightarrow>
   \<exists>lm' es. ms_out (fold abortStreamingMessage ts s) = ms_out s @ es \<and> (\<forall>t. fold (receive now t) es lm = lm') \<and>
     chat_inv \<lparr>ch_service = fold abortStreamingMessage ts s, ch_view = lm'\<rparr>"
proof (induction ts arbitrary: s lm)
  case (Cons i ts)
  from abort_view [OF Cons.prems, of i now] obtain lm1 es1 where
    1: "ms_out (abortStreamingMessage i s) = ms_out s @ es1" "\<And>t. fold (receive now t) es1 lm = lm1"
      "chat_inv \<lparr>ch_service = abortStreamingMessage i s, ch_view = lm1\<rparr>" by metis
  from Cons.IH [OF 1(3)] obtain lm2 es2 where
    "ms_out (fold abortStreamingMessage ts (abortStreamingMessage i s)) = ms_out (abortStreamingMessage i s) @ es2"
    "\<forall>t. fold (receive now t) es2 lm1 = lm2"
    "chat_inv \<lparr>ch_service = fold abortStreamingMessage ts (abortStreamingMessage i s), ch_view = lm2\<rparr>" by blast
  with 1 show ?case by (intro exI [of _ lm2] exI [of _ "es1 @ es2"]) simp
qed simp

lemma abort_inv [inv_intro]:
  assumes "chat_inv ch"
  shows "chat_inv (with_view now (abortStreamingMessage i) ch)"
proof (rule with_view_inv [OF assms])
  fix s lm assume "ms_out s = []" "chat_inv \<lparr>ch_service = s, ch_view = lm\<rparr>"
  with aborts_view [of s lm "[i]" now]
  show "chat_inv \<lparr>ch_service = abortStreamingMessage i s,
      ch_view = fold (receive now (abortStreamingMessage i s)) (ms_out (abortStreamingMessage i s)) lm\<rparr>" by auto
qed

lemma ephemeral_delete:
  "chat_inv \<lparr>ch_service = s, ch_view = lm\<rparr> \<Longrightarrow>
   chat_inv \<lparr>ch_service = s\<lparr>ms_ephemeral := AList.delete c (ms_ephemeral s)\<rparr>, ch_view = lm\<rparr>"
  by (fastforce simp: chat_inv_def slots_inv_def shown_def flagged_def storedIds_def ephemeralIds_def
      ephemeralMessagesForConversation_def split: if_splits)

lemma conversation_deleted_inv [inv_intro]:
  assumes "chat_inv ch"
  shows "chat_inv (with_view now (onConversationDeleted c) ch)"
proof (rule with_view_inv [OF assms])
  fix s lm assume out: "ms_out s = []" and inv: "chat_inv \<lparr>ch_service = s, ch_view = lm\<rparr>"
  obtain ts where ts: "snd (abortStreamingMessagesForConversation c s) = fold abortStreamingMessage ts s"
    by (cases "c = []") (auto simp: abortStreamingMessagesForConversation_def Let_def intro: that [of "[]"])
  from aborts_view [OF inv, of ts now] out
  show "chat_inv \<lparr>ch_service = onConversationDeleted c s,
      ch_view = fold (receive now (onConversationDeleted c s)) (ms_out (onConversationDeleted c s)) lm\<rparr>"
    by (auto simp: onConversationDeleted_def Let_def ts intro: ephemeral_delete)
qed

section \<open>Rows of the database and ephemeral rows\<close>

lemma not_flagged: "chat_inv \<lparr>ch_service = s, ch_view = lm\<rparr> \<Longrightarrow> map_of (ms_slots s) i = None \<Longrightarrow> i \<notin> set (lm_streamingIds lm)"
  by (simp add: flaggedD)

lemma add_inv [inv_intro]:
  assumes "chat_inv ch" and "chat_ok ch (Add now m)"
  shows "chat_inv (with_view now (\<lambda>s. snd (addMessage now m s)) ch)"
proof (rule with_view_inv [OF assms(1)])
  fix s lm assume eq: "s = (ch_service ch)\<lparr>ms_out := []\<rparr>" "lm = ch_view ch"
    and out: "ms_out s = []" and inv: "chat_inv \<lparr>ch_service = s, ch_view = lm\<rparr>"
  let ?s = "snd (addMessage now m s)"
  have none: "map_of (ms_slots s) (msg_id m) = None" using assms(2) eq by (simp add: map_of_eq_None_iff)
  show "chat_inv \<lparr>ch_service = ?s, ch_view = fold (receive now ?s) (ms_out ?s) lm\<rparr>"
  proof (cases rule: addMessage_cases [of now m s])
    case (2 st)
    let ?lm = "onMessageAdded ?s (msg_conversationId m) (msg_id m) lm"
    have "set (lm_streamingIds ?lm) \<subseteq> set (lm_streamingIds lm)"
      "set (lm_streamingIds lm) - {msg_id m} \<subseteq> set (lm_streamingIds ?lm)"
      by (auto simp: onMessageAdded_def Let_def dropRow_def split: option.splits)
    with not_flagged [OF inv none] 2 out show ?thesis
      by (auto simp: storedIds_def intro!: view_elsewhere [OF inv elsewhere_added none])
  qed (use out inv in simp)
qed

lemma removeMessages_ids: "msg_id ` set (st_messages (removeMessages P st)) \<subseteq> msg_id ` set (st_messages st)"
  by (auto simp: removeMessages_def Let_def)

lemma delete_inv [inv_intro]:
  assumes "chat_inv ch"
  shows "chat_inv (with_view now (\<lambda>s. snd (deleteMessage i s)) ch)"
proof (rule with_view_inv [OF assms])
  fix s lm assume out: "ms_out s = []" and inv: "chat_inv \<lparr>ch_service = s, ch_view = lm\<rparr>"
  let ?s = "snd (deleteMessage i s)"
  show "chat_inv \<lparr>ch_service = ?s, ch_view = fold (receive now ?s) (ms_out ?s) lm\<rparr>"
  proof (cases "st_up (ms_store s) \<and> i \<in> storedIds s")
    case False
    then show ?thesis using inv out by (auto simp: deleteMessage_def Let_def storedIds_def)
  next
    case True
    then have none: "map_of (ms_slots s) i = None"
      using slots_invD(4) [OF inv_slots [OF inv]] by (cases "map_of (ms_slots s) i") auto
    let ?s1 = "s\<lparr>ms_store := removeMessages (\<lambda>m. msg_id m = i) (ms_store s)\<rparr>"
    have ids: "storedIds ?s1 \<subseteq> storedIds s"
      using removeMessages_ids [of "\<lambda>m. msg_id m = i" "ms_store s"] by (simp add: storedIds_def)
    have flags: "set (lm_streamingIds (onMessageDeleted c i lm)) = set (lm_streamingIds lm)" for c
      using not_flagged [OF inv none] by (auto simp: onMessageDeleted_def dropRow_def)
    show ?thesis
    proof (cases "conversationOf (ms_store s) i = []")
      case True
      have "chat_inv \<lparr>ch_service = ?s1, ch_view = lm\<rparr>"
        using ids not_flagged [OF inv none] by (intro view_elsewhere [OF inv elsewhere_refl none]) auto
      with True \<open>st_up (ms_store s) \<and> i \<in> storedIds s\<close> out show ?thesis
        by (simp add: deleteMessage_def Let_def storedIds_def)
    next
      case False
      let ?c = "conversationOf (ms_store s) i"
      have "chat_inv \<lparr>ch_service = signal_out (MessageDeleted ?c i) ?s1, ch_view = onMessageDeleted ?c i lm\<rparr>"
        using ids flags not_flagged [OF inv none] by (intro view_elsewhere [OF inv elsewhere_deleted none]) auto
      with False \<open>st_up (ms_store s) \<and> i \<in> storedIds s\<close> out show ?thesis
        by (simp add: deleteMessage_def Let_def storedIds_def)
    qed
  qed
qed

lemma updateMessage_ids:
  "(\<And>m. msg_id (f m) = msg_id m) \<Longrightarrow> msg_id ` set (st_messages (updateMessage i f st)) = msg_id ` set (st_messages st)"
proof -
  assume "\<And>m. msg_id (f m) = msg_id m"
  then have "map msg_id (st_messages (updateMessage i f st)) = map msg_id (st_messages st)"
    by (simp add: updateMessage_def)
  then show ?thesis by (metis list.set_map)
qed

lemma update_inv:
  assumes "chat_inv \<lparr>ch_service = s, ch_view = lm\<rparr>" and "ms_out s = []" and "\<And>m. msg_id (f m) = msg_id m"
    and "s' = s\<lparr>ms_store := updateMessage i f (ms_store s)\<rparr> \<or>
      i \<in> storedIds s \<and> s' = signal_out (MessageUpdated c i) (s\<lparr>ms_store := updateMessage i f (ms_store s)\<rparr>)"
  shows "chat_inv \<lparr>ch_service = s', ch_view = fold (receive now s') (ms_out s') lm\<rparr>"
proof -
  let ?s1 = "s\<lparr>ms_store := updateMessage i f (ms_store s)\<rparr>"
  have ids: "storedIds ?s1 = storedIds s"
    using updateMessage_ids [OF assms(3)] by (simp add: storedIds_def)
  from assms(4) show ?thesis
  proof
    assume "s' = ?s1"
    with assms(1,2) ids show ?thesis by (simp add: chat_inv_def slots_inv_def shown_def flagged_def)
  next
    assume i: "i \<in> storedIds s \<and> s' = signal_out (MessageUpdated c i) ?s1"
    then have none: "map_of (ms_slots s) i = None"
      using slots_invD(4) [OF inv_slots [OF assms(1)]] by (cases "map_of (ms_slots s) i") auto
    have "lm_streamingIds (onMessageUpdated s' c i lm) = lm_streamingIds lm"
      by (auto simp: onMessageUpdated_def split: option.split)
    with i ids not_flagged [OF assms(1) none] assms(2) show ?thesis
      by (auto intro!: view_elsewhere [OF assms(1) elsewhere_updated none])
  qed
qed

lemma conversationOf_stored: "conversationOf (ms_store s) i \<noteq> [] \<Longrightarrow> i \<in> storedIds s"
  by (auto simp: conversationOf_def storedIds_def split: if_splits option.splits dest!: find_id_SomeD)

lemma html_inv [inv_intro]:
  assumes "chat_inv ch"
  shows "chat_inv (with_view now (\<lambda>s. snd (updateContentHtml i html s)) ch)"
proof (rule with_view_inv [OF assms])
  fix s lm assume out: "ms_out s = []" and inv: "chat_inv \<lparr>ch_service = s, ch_view = lm\<rparr>"
  show "chat_inv \<lparr>ch_service = snd (updateContentHtml i html s),
      ch_view = fold (receive now (snd (updateContentHtml i html s))) (ms_out (snd (updateContentHtml i html s))) lm\<rparr>"
  proof (cases "st_up (ms_store s)")
    case True
    then show ?thesis
      by (intro update_inv [OF inv out, where f = "\<lambda>r. r\<lparr>msg_contentHtml := html\<rparr>" and i = i
            and c = "conversationOf (ms_store s) i"])
        (auto simp: updateContentHtml_def Let_def conversationOf_stored)
  qed (use inv out in \<open>simp add: updateContentHtml_def\<close>)
qed

lemma mark_inv [inv_intro]:
  assumes "chat_inv ch"
  shows "chat_inv (with_view now (\<lambda>s. snd (markMessageAsEchoFailed i s)) ch)"
proof (rule with_view_inv [OF assms])
  fix s lm assume out: "ms_out s = []" and inv: "chat_inv \<lparr>ch_service = s, ch_view = lm\<rparr>"
  let ?s = "snd (markMessageAsEchoFailed i s)"
  show "chat_inv \<lparr>ch_service = ?s, ch_view = fold (receive now ?s) (ms_out ?s) lm\<rparr>"
  proof (cases "find (\<lambda>m. msg_id m = i) (st_messages (ms_store s))")
    case (Some m)
    then have "i \<in> storedIds s" by (auto simp: storedIds_def dest!: find_id_SomeD)
    show ?thesis
    proof (cases "st_up (ms_store s) \<and> \<not> startsWith (msg_content m) kSentinel")
      case True
      with Some \<open>i \<in> storedIds s\<close> show ?thesis
        by (intro update_inv [OF inv out, where f = "\<lambda>r. r\<lparr>msg_content := kSentinel @ msg_content m,
              msg_metadata := put ''echo_failed'' (JBool True) (msg_metadata m)\<rparr>" and i = i and c = "msg_conversationId m"])
          (auto simp: markMessageAsEchoFailed_def Let_def)
    qed (use inv out Some in \<open>auto simp: markMessageAsEchoFailed_def\<close>)
  qed (use inv out in \<open>simp add: markMessageAsEchoFailed_def\<close>)
qed

lemma post_inv [inv_intro]:
  assumes "chat_inv ch" and "chat_ok ch (Post m)"
  shows "chat_inv (with_view now (postEphemeralMessage m) ch)"
proof (rule with_view_inv [OF assms(1)])
  fix s lm assume eq: "s = (ch_service ch)\<lparr>ms_out := []\<rparr>" "lm = ch_view ch"
    and out: "ms_out s = []" and inv: "chat_inv \<lparr>ch_service = s, ch_view = lm\<rparr>"
  let ?s = "postEphemeralMessage m s" and ?c = "msg_conversationId m"
  have none: "map_of (ms_slots s) (msg_id m) = None" using assms(2) eq by (simp add: map_of_eq_None_iff)
  show "chat_inv \<lparr>ch_service = ?s, ch_view = fold (receive now ?s) (ms_out ?s) lm\<rparr>"
  proof (cases "?c = [] \<or> msg_id m = []")
    case False
    have eph: "ephemeralIds (s\<lparr>ms_ephemeral := AList.update ?c (valueOr (ms_ephemeral s) ?c [] @ [m]) (ms_ephemeral s)\<rparr>)
        \<subseteq> ephemeralIds s \<union> {msg_id m}"
      by (auto simp: ephemeralIds_def ephemeralMessagesForConversation_def split: if_splits)
    have "lm_streamingIds (onEphemeralPosted t c i lm) = lm_streamingIds lm" for t c i
      by (auto simp: onEphemeralPosted_def split: option.split)
    with False eph not_flagged [OF inv none] out show ?thesis
      by (auto simp: postEphemeralMessage_def intro!: view_elsewhere [OF inv elsewhere_posted none])
  qed (use inv out in \<open>auto simp: postEphemeralMessage_def\<close>)
qed

section \<open>The timer and reloads\<close>

definition delta_signals :: "(string \<times> slot) list \<Rightarrow> string \<times> string \<Rightarrow> signal list" where
  "delta_signals sls p = (if snd p = [] then [] else case map_of sls (fst p) of
     None \<Rightarrow> [] | Some sl \<Rightarrow> [ContentStreamed (sl_convId sl) (fst p) (snd p)])"

lemma flush_out:
  "fold (\<lambda>(i, d). flushOne i d) ds s = s\<lparr>ms_out := ms_out s @ concat (map (delta_signals (ms_slots s)) ds)\<rparr>"
proof (induction ds arbitrary: s)
  case (Cons p ds)
  obtain i d where p: "p = (i, d)" by fastforce
  have "flushOne i d s = s\<lparr>ms_out := ms_out s @ delta_signals (ms_slots s) (i, d)\<rparr>"
    by (simp add: flushOne_def delta_signals_def signal_out_def split: option.split)
  with Cons.IH show ?case by (simp add: p)
qed simp

text \<open>Every row gets the text that waited for it.\<close>

lemma flush_rows:
  assumes "distinct (keys ds)"
  shows "lm_activeConvId (fold (receive now t) (concat (map (delta_signals sls) ds)) lm) = lm_activeConvId lm"
    and "lm_streamingIds (fold (receive now t) (concat (map (delta_signals sls) ds)) lm) = lm_streamingIds lm"
    and "map_of sls j = Some sl \<Longrightarrow> sl_convId sl = lm_activeConvId lm \<Longrightarrow> j \<noteq> [] \<Longrightarrow> findById lm j = Some r \<Longrightarrow>
      \<exists>r'. findById (fold (receive now t) (concat (map (delta_signals sls) ds)) lm) j = Some r' \<and>
        msg_content r' = msg_content r @ valueOr ds j []"
  using assms
proof (induction ds arbitrary: lm r)
  case (Cons p ds)
  obtain i d where p: "p = (i, d)" by fastforce
  let ?step = "fold (receive now t) (delta_signals sls p)"
  have same: "lm_activeConvId (?step lm) = lm_activeConvId lm" "lm_streamingIds (?step lm) = lm_streamingIds lm" for lm
    by (auto simp: p delta_signals_def onContentStreamed_def split: option.split)
  {
    case (1 lm)
    with Cons.IH(1) [of "?step lm"] same(1) show ?case by simp
  next
    case (2 lm)
    with Cons.IH(2) [of "?step lm"] same(2) show ?case by simp
  next
    case (3 lm r)
    have i: "i \<notin> set (keys ds)" "distinct (keys ds)" using 3(5) p by auto
    have "\<exists>r1. findById (?step lm) j = Some r1 \<and> msg_content r1 = msg_content r @ (if j = i then d else [])"
      using 3(1-4) by (auto simp: p delta_signals_def onContentStreamed_def findById_def find_changeRow split: option.split)
    then obtain r1 where r1: "findById (?step lm) j = Some r1" "msg_content r1 = msg_content r @ (if j = i then d else [])" by blast
    from Cons.IH(3) [OF 3(1) _ 3(3) r1(1) i(2)] same(1) 3(2) obtain r' where
      "findById (fold (receive now t) (concat (map (delta_signals sls) ds)) (?step lm)) j = Some r'"
      "msg_content r' = msg_content r1 @ valueOr ds j []" by auto
    moreover have "(if j = i then d else []) @ valueOr ds j [] = valueOr (p # ds) j []"
      using i(1) map_of_eq_None_iff [of ds i] by (auto simp: p valueOr_def split: option.split)
    ultimately show ?case using r1(2) by simp
  }
qed (simp_all)

lemma flush_inv [inv_intro]:
  assumes "chat_inv ch"
  shows "chat_inv (with_view now flushPendingDeltas ch)"
proof (rule with_view_inv [OF assms])
  fix s lm assume out: "ms_out s = []" and inv: "chat_inv \<lparr>ch_service = s, ch_view = lm\<rparr>"
  let ?s = "flushPendingDeltas s"
  note S = inv_slots [OF inv]
  have eff: "?s = s\<lparr>ms_pending := [], ms_timer := False, ms_out := concat (map (delta_signals (ms_slots s)) (ms_pending s))\<rparr>"
    using out by (cases "ms_pending s = []") (simp_all add: flushPendingDeltas_def flush_out)
  let ?lm = "fold (receive now ?s) (ms_out ?s) lm"
  have lm: "?lm = fold (receive now ?s) (concat (map (delta_signals (ms_slots s)) (ms_pending s))) lm" by (simp add: eff)
  note rows = flush_rows [OF slots_invD(2) [OF S], where now = now and t = ?s and sls = "ms_slots s" and lm = lm, folded lm]
  have "slots_inv ?s" using slots_invD [OF S] by (intro slots_invI) (auto simp: eff)
  moreover have "shown ?s ?lm"
    unfolding shown_def
  proof (intro allI impI)
    fix j sl assume "map_of (ms_slots ?s) j = Some sl" and conv: "sl_convId sl = lm_activeConvId ?lm"
    then have j: "map_of (ms_slots s) j = Some sl" by (simp add: eff)
    from shownD [OF inv j] conv rows(1) obtain r where
      "findById lm j = Some r" "msg_content r @ valueOr (ms_pending s) j [] = sl_content sl" by auto
    with rows(3) [OF j _ _ this(1)] conv rows(1) slots_invD(4) [OF S j]
    show "\<exists>r. findById ?lm j = Some r \<and> msg_content r @ valueOr (ms_pending ?s) j [] = sl_content sl"
      by (auto simp: eff)
  qed
  moreover have "flagged ?s ?lm"
    using flaggedD [OF inv] rows(1,2) by (auto simp: flagged_def eff)
  ultimately show "chat_inv \<lparr>ch_service = ?s, ch_view = ?lm\<rparr>" by (simp add: chat_inv_def)
qed

lemma getMessages_stored: "m \<in> set (getMessages (ms_store s) c) \<Longrightarrow> msg_id m \<in> storedIds s"
  by (auto simp: getMessages_def messagesOf_def storedIds_def split: if_splits)

lemma streaming_ids: "map msg_id (streamingMessagesForConversation s c) = map fst (filter (\<lambda>(i, sl). sl_convId sl = c) (ms_slots s))"
  by (auto simp: streamingMessagesForConversation_def slotMessage_def)

lemma find_streaming:
  assumes "map_of (ms_slots s) i = Some sl" and "sl_convId sl = c" and "distinct (keys (ms_slots s))"
  shows "find (\<lambda>m. msg_id m = i) (streamingMessagesForConversation s c) = Some (slotMessage i sl)"
proof -
  have "find (\<lambda>m. msg_id m = i) (map (\<lambda>(i, sl). slotMessage i sl) (filter (\<lambda>(i, sl). sl_convId sl = c) m)) = Some (slotMessage i sl)"
    if "map_of m i = Some sl" "distinct (keys m)" for m
    using that
  proof (induction m)
    case (Cons p m)
    obtain k v where "p = (k, v)" by fastforce
    with Cons assms(2) show ?case by (auto simp: slotMessage_def split: if_splits)
  qed simp
  with assms(1,3) show ?thesis by (simp add: streamingMessagesForConversation_def)
qed

text \<open>A reload is sound when no delta of the conversation waits.\<close>

lemma reload_inv:
  assumes "slots_inv s" and "settled s (lm_activeConvId lm)"
  shows "chat_inv \<lparr>ch_service = s, ch_view = reloadActiveConversation s lm\<rparr>"
proof (cases "lm_activeConvId lm = []")
  case True
  then show ?thesis using assms(1) slots_invD(4) [OF assms(1)]
    by (auto simp: chat_inv_def shown_def flagged_def reloadActiveConversation_def)
next
  case False
  let ?c = "lm_activeConvId lm" and ?lm = "reloadActiveConversation s lm"
  have "shown s ?lm"
    unfolding shown_def
  proof (intro allI impI)
    fix i sl assume i: "map_of (ms_slots s) i = Some sl" "sl_convId sl = lm_activeConvId ?lm"
    then have conv: "sl_convId sl = ?c" using False by (simp add: reloadActiveConversation_def Let_def)
    have "find (\<lambda>m. msg_id m = i) (filter (\<lambda>m. \<not> hiddenRow m) (getMessages (ms_store s) ?c)) = None"
      using slots_invD(4) [OF assms(1) i(1)] getMessages_stored by (auto simp: find_None_iff')
    then have "findById ?lm i = Some (slotMessage i sl)"
      using False find_streaming [OF i(1) conv slots_invD(1) [OF assms(1)]]
      by (simp add: findById_def reloadActiveConversation_def Let_def find_append)
    moreover have "valueOr (ms_pending s) i [] = []"
      using assms(2) map_of_SomeD [OF i(1)] conv by (auto simp: settled_def)
    ultimately show "\<exists>r. findById ?lm i = Some r \<and> msg_content r @ valueOr (ms_pending s) i [] = sl_content sl"
      by (simp add: slotMessage_def)
  qed
  moreover have "flagged s ?lm"
  proof -
    have "set (lm_streamingIds ?lm) = fst ` {p \<in> set (ms_slots s). sl_convId (snd p) = ?c}"
      using False by (simp only: reloadActiveConversation_def Let_def if_False list_model.select_convs list_model.update_convs
          streaming_ids) (auto simp: image_iff)
    also have "\<dots> = {i. \<exists>sl. map_of (ms_slots s) i = Some sl \<and> sl_convId sl = ?c}"
      using map_of_eq_Some_iff [OF slots_invD(1) [OF assms(1)]] by (force simp: image_iff)
    finally show ?thesis using False by (simp add: flagged_def reloadActiveConversation_def Let_def)
  qed
  ultimately show ?thesis using assms(1) by (simp add: chat_inv_def)
qed

lemma activate_inv [inv_intro]:
  assumes "chat_inv ch" and "chat_ok ch (Activate c)"
  shows "chat_inv (ch\<lparr>ch_view := setActiveConversation (ch_service ch) c (ch_view ch)\<rparr>)"
proof (cases "c = lm_activeConvId (ch_view ch)")
  case False
  then show ?thesis using reload_inv [of "ch_service ch" "(ch_view ch)\<lparr>lm_activeConvId := c\<rparr>"] assms
    by (simp add: setActiveConversation_def chat_inv_def)
qed (use assms(1) in \<open>simp add: setActiveConversation_def\<close>)

lemma cleared_view:
  assumes "chat_inv \<lparr>ch_service = s, ch_view = lm\<rparr>" and "ms_out s = []" and "settled s c"
    and "s' = clearEphemeralForConversation c s"
  shows "chat_inv \<lparr>ch_service = s', ch_view = fold (receive now s') (ms_out s') lm\<rparr>"
proof (cases "c = [] \<or> valueOr (ms_ephemeral s) c [] = []")
  case False
  let ?s = "signal_out (EphemeralCleared c) (s\<lparr>ms_ephemeral := AList.update c [] (ms_ephemeral s)\<rparr>)"
  have s': "s' = ?s" using assms(4) False by (simp add: clearEphemeralForConversation_def)
  have "ephemeralIds ?s \<subseteq> ephemeralIds s"
    by (auto simp: ephemeralIds_def ephemeralMessagesForConversation_def split: if_splits)
  then have S: "slots_inv ?s" using slots_invD [OF inv_slots [OF assms(1)]] by (intro slots_invI) auto
  have "settled ?s c" using assms(3) by (simp add: settled_def)
  show ?thesis
  proof (cases "c = lm_activeConvId lm")
    case True
    then show ?thesis using reload_inv [OF S] \<open>settled ?s c\<close> assms(2) by (simp add: s' onEphemeralCleared_def)
  next
    case other: False
    from S assms(1) have "chat_inv \<lparr>ch_service = ?s, ch_view = lm\<rparr>" by (simp add: chat_inv_def shown_def flagged_def)
    with other assms(2) show ?thesis by (simp add: s' onEphemeralCleared_def)
  qed
qed (use assms in \<open>auto simp: clearEphemeralForConversation_def\<close>)

lemma clear_inv [inv_intro]:
  assumes "chat_inv ch" and "chat_ok ch (ClearEphemeral c)"
  shows "chat_inv (with_view now (clearEphemeralForConversation c) ch)"
  by (rule with_view_inv [OF assms(1)], rule cleared_view) (use assms(2) in \<open>simp_all add: settled_def\<close>)

lemma delete_all_inv [inv_intro]:
  assumes "chat_inv ch" and "chat_ok ch (DeleteAll c)"
  shows "chat_inv (with_view now (\<lambda>s. snd (deleteAllForConversation c s)) ch)"
proof (rule with_view_inv [OF assms(1)])
  fix s lm assume eq: "s = (ch_service ch)\<lparr>ms_out := []\<rparr>" and out: "ms_out s = []"
    and inv: "chat_inv \<lparr>ch_service = s, ch_view = lm\<rparr>"
  let ?s1 = "s\<lparr>ms_store := removeMessages (\<lambda>m. msg_conversationId m = c) (ms_store s)\<rparr>"
  let ?s = "snd (deleteAllForConversation c s)"
  have "storedIds ?s1 \<subseteq> storedIds s" using removeMessages_ids by (auto simp: storedIds_def)
  then have "slots_inv ?s1" using slots_invD [OF inv_slots [OF inv]] by (intro slots_invI) auto
  with inv have "chat_inv \<lparr>ch_service = ?s1, ch_view = lm\<rparr>" by (simp add: chat_inv_def shown_def flagged_def)
  moreover have "settled ?s1 c" using assms(2) eq by (simp add: settled_def)
  ultimately show "chat_inv \<lparr>ch_service = ?s, ch_view = fold (receive now ?s) (ms_out ?s) lm\<rparr>"
    using out inv by (cases "c = [] \<or> \<not> st_up (ms_store s)")
      (auto simp: deleteAllForConversation_def intro!: cleared_view)
qed

section \<open>What the user sees\<close>

lemma chat_step_inv: "chat_inv ch \<Longrightarrow> chat_ok ch e \<Longrightarrow> chat_inv (chat_step ch e)"
  by (cases e) (auto intro: inv_intro)

lemma chat_start_inv: "chat_start ch \<Longrightarrow> chat_inv ch"
  by (simp add: chat_start_def chat_inv_def slots_inv_def shown_def flagged_def new_list_model_def)

interpretation chat: invariant_machine chat_start chat_ok chat_step chat_inv
  by unfold_locales (auto intro: chat_start_inv chat_step_inv)

text \<open>
  C3. The view follows the service, from an empty view and as long as two conditions are met: the ids of new
  messages are fresh, and a conversation is activated, cleared of ephemeral messages or emptied only when no
  delta waits for one of its messages (otherwise see \<open>reload_shows_waiting_text_twice\<close>). Then the row of every
  message that is still streamed in the active conversation shows the text received so far, up to the deltas
  that wait for the timer, and once the timer has fired it shows exactly that text; the rows marked as
  streaming are exactly those messages.
\<close>

theorem view_follows_streams:
  assumes "chat_start ch0" and "admitted chat_ok chat_step ch0 es" and "ch = foldl chat_step ch0 es"
    and "map_of (ms_slots (ch_service ch)) i = Some sl" and "sl_convId sl = lm_activeConvId (ch_view ch)"
  shows "(\<exists>r. findById (ch_view ch) i = Some r \<and> msg_content r @ valueOr (ms_pending (ch_service ch)) i [] = sl_content sl) \<and>
    (\<exists>r. findById (ch_view (chat_step ch FlushTimer)) i = Some r \<and> msg_content r = sl_content sl) \<and>
    set (lm_streamingIds (ch_view ch)) =
      {j. \<exists>sl. map_of (ms_slots (ch_service ch)) j = Some sl \<and> sl_convId sl = lm_activeConvId (ch_view ch)}"
proof -
  have inv: "chat_inv ch" unfolding assms(3) by (rule chat.reachable_inv [OF assms(1,2)])
  let ?s = "(ch_service ch)\<lparr>ms_out := []\<rparr>"
  have eff: "flushPendingDeltas ?s = ?s\<lparr>ms_pending := [], ms_timer := False,
      ms_out := concat (map (delta_signals (ms_slots ?s)) (ms_pending ?s))\<rparr>"
    by (cases "ms_pending ?s = []") (simp_all add: flushPendingDeltas_def flush_out)
  have "lm_activeConvId (ch_view (chat_step ch FlushTimer)) = lm_activeConvId (ch_view ch)"
    using flush_rows(1) slots_invD(2) inv by (simp add: with_view_def eff chat_inv_def Let_def)
  moreover have "chat_inv (chat_step ch FlushTimer)" by (rule chat_step_inv [OF inv]) simp
  ultimately have "\<exists>r. findById (ch_view (chat_step ch FlushTimer)) i = Some r \<and> msg_content r = sl_content sl"
    using assms(4,5) by (auto simp: chat_inv_def shown_def with_view_def eff Let_def)
  with inv assms(4,5) show ?thesis by (simp add: chat_inv_def shown_def flagged_def)
qed

definition demo_chat :: chat where
  "demo_chat = \<lparr>ch_service = \<lparr>ms_store = \<lparr>st_up = True, st_convs = [\<lparr>cv_id = ''c'', cv_token_total = 0, cv_updated_at = 0\<rparr>],
       st_agents = [], st_messages = [], st_calls = [], st_attachments = [], st_fts = []\<rparr>,
     ms_slots = [], ms_pending = [], ms_timer = False, ms_ephemeral = [], ms_out = []\<rparr>, ch_view = new_list_model\<rparr>"

theorem view_follows_streams_witness:
  "\<exists>r. findById (ch_view (foldl chat_step demo_chat [Activate ''c'', Begin 1 ''c'' ''m'' ''assistant'' [] [],
     Append ''m'' ''he'', FlushTimer, Append ''m'' ''llo''])) ''m'' = Some r \<and> msg_content r @ ''llo'' = ''hello''"
proof -
  define es where "es = [Activate ''c'', Begin 1 ''c'' ''m'' ''assistant'' [] [], Append ''m'' ''he'', FlushTimer, Append ''m'' ''llo'']"
  let ?sl = "\<lparr>sl_convId = ''c'', sl_role = ''assistant'', sl_agentId = [], sl_memberAlias = [], sl_content = ''hello'', sl_startedAt = Some 1\<rparr>"
  have "chat_start demo_chat" by (simp add: chat_start_def demo_chat_def)
  moreover have "admitted chat_ok chat_step demo_chat es"
    unfolding es_def by (simp add: demo_chat_def new_list_model_def settled_def storedIds_def ephemeralIds_def
        ephemeralMessagesForConversation_def setActiveConversation_def reloadActiveConversation_def findById_def
        getMessages_def messagesOf_def streamingMessagesForConversation_def)
  moreover have "map_of (ms_slots (ch_service (foldl chat_step demo_chat es))) ''m'' = Some ?sl"
    unfolding es_def by code_simp
  moreover have "lm_activeConvId (ch_view (foldl chat_step demo_chat es)) = ''c''"
    unfolding es_def by code_simp
  ultimately have "\<exists>r. findById (ch_view (foldl chat_step demo_chat es)) ''m'' = Some r \<and>
      msg_content r @ valueOr (ms_pending (ch_service (foldl chat_step demo_chat es))) ''m'' [] = ''hello''"
    using view_follows_streams [of demo_chat es, OF _ _ refl] by force
  moreover have "valueOr (ms_pending (ch_service (foldl chat_step demo_chat es))) ''m'' [] = ''llo''"
    unfolding es_def by code_simp
  ultimately show ?thesis by (simp add: es_def)
qed

text \<open>
  Opening a conversation while text of one of its streams waits for the timer shows that text twice: the
  reload takes the whole buffer and the timer then appends the waiting part again.
\<close>

theorem reload_shows_waiting_text_twice:
  assumes "slots_inv (ch_service ch)" and "map_of (ms_slots (ch_service ch)) i = Some sl"
    and "map_of (ms_pending (ch_service ch)) i = Some d" and "lm_activeConvId (ch_view ch) \<noteq> sl_convId sl"
  shows "\<exists>r. findById (ch_view (foldl chat_step ch [Activate (sl_convId sl), FlushTimer])) i = Some r \<and>
    msg_content r = sl_content sl @ d"
proof -
  let ?s = "(ch_service ch)\<lparr>ms_out := []\<rparr>" and ?c = "sl_convId sl"
  let ?lm = "setActiveConversation (ch_service ch) ?c (ch_view ch)"
  note S = slots_invD [OF assms(1)]
  have c: "?c \<noteq> []" "i \<noteq> []" "i \<notin> storedIds (ch_service ch)" using S(4) [OF assms(2)] by auto
  have lm: "?lm = reloadActiveConversation (ch_service ch) ((ch_view ch)\<lparr>lm_activeConvId := ?c\<rparr>)"
    using assms(4) by (simp add: setActiveConversation_def)
  have "find (\<lambda>m. msg_id m = i) (filter (\<lambda>m. \<not> hiddenRow m) (getMessages (ms_store (ch_service ch)) ?c)) = None"
    using c(3) getMessages_stored by (auto simp: find_None_iff')
  then have row: "findById ?lm i = Some (slotMessage i sl)"
    using c find_streaming [OF assms(2) refl S(1)]
    by (simp add: lm findById_def reloadActiveConversation_def Let_def find_append)
  have act: "lm_activeConvId ?lm = ?c" using c by (simp add: lm reloadActiveConversation_def Let_def)
  have eff: "flushPendingDeltas ?s = ?s\<lparr>ms_pending := [], ms_timer := False,
      ms_out := concat (map (delta_signals (ms_slots ?s)) (ms_pending ?s))\<rparr>"
    using assms(3) by (cases "ms_pending ?s = []") (simp_all add: flushPendingDeltas_def flush_out)
  from flush_rows(3) [OF S(2) assms(2) _ c(2) row, of 0 "flushPendingDeltas ?s"] act assms(3)
  show ?thesis by (simp add: with_view_def eff Let_def slotMessage_def valueOr_def)
qed

theorem reload_shows_waiting_text_twice_witness:
  "\<exists>r. findById (ch_view (foldl chat_step demo_chat [Begin 1 ''c'' ''m'' ''assistant'' [] [], Append ''m'' ''hello'',
     Activate ''c'', FlushTimer])) ''m'' = Some r \<and> msg_content r = ''hellohello''"
proof -
  define ch where "ch = foldl chat_step demo_chat [Begin 1 ''c'' ''m'' ''assistant'' [] [], Append ''m'' ''hello'']"
  let ?sl = "\<lparr>sl_convId = ''c'', sl_role = ''assistant'', sl_agentId = [], sl_memberAlias = [], sl_content = ''hello'', sl_startedAt = Some 1\<rparr>"
  have "chat_inv ch"
    unfolding ch_def by (rule chat.run_inv, rule chat_start_inv)
      (simp_all add: chat_start_def demo_chat_def storedIds_def ephemeralIds_def ephemeralMessagesForConversation_def
        new_list_model_def findById_def)
  moreover have "map_of (ms_slots (ch_service ch)) ''m'' = Some ?sl" unfolding ch_def by code_simp
  moreover have "map_of (ms_pending (ch_service ch)) ''m'' = Some ''hello''" unfolding ch_def by code_simp
  moreover have "lm_activeConvId (ch_view ch) \<noteq> ''c''" unfolding ch_def by code_simp
  ultimately have "\<exists>r. findById (ch_view (foldl chat_step ch [Activate ''c'', FlushTimer])) ''m'' = Some r \<and>
      msg_content r = ''hello'' @ ''hello''"
    using reload_shows_waiting_text_twice [of ch "''m''" ?sl "''hello''"] by (simp add: chat_inv_def)
  then show ?thesis by (simp add: ch_def)
qed

end
