(* ===== verification/Streaming_Manager.thy ===== *)
theory Streaming_Manager
  imports Message_Service
begin

text \<open>
  The streaming manager of a conversation run (backend/services/chat/streaming-manager.cpp): one open
  placeholder at a time, whose text it accumulates beside the message service. What it relies on of the
  service is the interface \<open>stream_sink\<close>.
\<close>

section \<open>State and operations\<close>

datatype stream_signal = StreamBegan string | StreamFinalized string string bool | StreamAborted string string

record manager =
  sm_msgId :: string
  sm_content :: string
  sm_thinking :: string
  sm_persisted :: bool
  sm_service :: msg_service
  sm_out :: "stream_signal list"

definition isStreaming :: "manager \<Rightarrow> bool" where
  "isStreaming m \<longleftrightarrow> sm_msgId m \<noteq> []"

definition hasInMessageService :: "manager \<Rightarrow> bool" where
  "hasInMessageService m \<longleftrightarrow> sm_msgId m \<noteq> [] \<and> hasStreamingMessage (sm_service m) (sm_msgId m)"

definition clearThinking :: "manager \<Rightarrow> manager" where
  "clearThinking m = m\<lparr>sm_thinking := []\<rparr>"

definition beginStream :: "int \<Rightarrow> string \<Rightarrow> string \<Rightarrow> string \<Rightarrow> string \<Rightarrow> string \<Rightarrow> manager \<Rightarrow> manager" where
  "beginStream now uuid convId role agentId memberAlias m =
     m\<lparr>sm_msgId := uuid, sm_content := [], sm_thinking := [], sm_persisted := False,
       sm_service := beginStreamingMessage now convId uuid role agentId memberAlias (sm_service m),
       sm_out := sm_out m @ [StreamBegan uuid]\<rparr>"

definition appendChunk :: "string \<Rightarrow> manager \<Rightarrow> manager" where
  "appendChunk d m =
     (if sm_msgId m = [] then m
      else m\<lparr>sm_content := sm_content m @ d, sm_service := appendStreamingChunk (sm_msgId m) d (sm_service m)\<rparr>)"

definition appendThinkingChunk :: "string \<Rightarrow> manager \<Rightarrow> manager" where
  "appendThinkingChunk d m = (if d = [] \<or> sm_msgId m = [] then m else m\<lparr>sm_thinking := sm_thinking m @ d\<rparr>)"

definition rewriteStream :: "string \<Rightarrow> manager \<Rightarrow> manager" where
  "rewriteStream t m =
     (if sm_msgId m = [] then m
      else m\<lparr>sm_content := t, sm_service := rewriteStreamingContent (sm_msgId m) t (sm_service m)\<rparr>)"

text \<open>Reasoning that is only white space is not kept.\<close>

definition thinkingForRow :: "string \<Rightarrow> string" where
  "thinkingForRow t = (if trimmed t = [] then [] else t)"

definition finalizeStream :: "int \<Rightarrow> int \<Rightarrow> string \<Rightarrow> string \<Rightarrow> string \<Rightarrow> json_object \<Rightarrow> manager \<Rightarrow> bool \<times> manager" where
  "finalizeStream now tokens finishReason contentHtml modelUsed metadata m =
     (if sm_msgId m = [] then (False, m)
      else
        let (ok, s) = finalizeStreamingMessage now (sm_msgId m) tokens finishReason contentHtml modelUsed metadata
              (thinkingForRow (sm_thinking m)) (sm_service m)
        in (ok, m\<lparr>sm_persisted := ok, sm_msgId := [], sm_content := [], sm_thinking := [], sm_service := s,
                  sm_out := sm_out m @ [StreamFinalized (sm_msgId m) finishReason ok]\<rparr>))"

definition abortStream :: "string \<Rightarrow> manager \<Rightarrow> manager" where
  "abortStream reason m =
     (if sm_msgId m = [] then m
      else m\<lparr>sm_service := (if hasStreamingMessage (sm_service m) (sm_msgId m)
                            then abortStreamingMessage (sm_msgId m) (sm_service m) else sm_service m),
             sm_msgId := [], sm_content := [], sm_thinking := [], sm_persisted := False,
             sm_out := sm_out m @ [StreamAborted (sm_msgId m) reason]\<rparr>)"

definition resetWithoutAbort :: "manager \<Rightarrow> manager" where
  "resetWithoutAbort m = m\<lparr>sm_msgId := [], sm_content := [], sm_thinking := [], sm_persisted := False\<rparr>"

section \<open>The interface to the service\<close>

text \<open>What happens to an open placeholder between its beginning and its end.\<close>

datatype edit = Chunk string | Thinking string | Replace string

fun run_edit :: "edit \<Rightarrow> manager \<Rightarrow> manager" where
  "run_edit (Chunk d) m = appendChunk d m"
| "run_edit (Thinking d) m = appendThinkingChunk d m"
| "run_edit (Replace t) m = rewriteStream t m"

fun edit_text :: "edit \<Rightarrow> string \<Rightarrow> string" where
  "edit_text (Chunk d) t = t @ d"
| "edit_text (Thinking d) t = t"
| "edit_text (Replace r) t = r"

fun edit_thinking :: "edit \<Rightarrow> string \<Rightarrow> string" where
  "edit_thinking (Thinking d) t = t @ d"
| "edit_thinking e t = t"

fun edit_sink :: "('i \<Rightarrow> string \<Rightarrow> 's \<Rightarrow> 's) \<Rightarrow> ('i \<Rightarrow> string \<Rightarrow> 's \<Rightarrow> 's) \<Rightarrow> 'i \<Rightarrow> edit \<Rightarrow> 's \<Rightarrow> 's" where
  "edit_sink app rew i (Chunk d) s = app i d s"
| "edit_sink app rew i (Thinking d) s = s"
| "edit_sink app rew i (Replace t) s = rew i t s"

text \<open>A sink keeps the text of every open message: an append extends it, a rewrite replaces it, and both
  leave everything else about the message (\<open>frame\<close>) alone.\<close>

locale stream_sink =
  fixes text_of :: "'s \<Rightarrow> 'i \<Rightarrow> string option"
    and frame :: "'s \<Rightarrow> 'i \<Rightarrow> 'f"
    and app :: "'i \<Rightarrow> string \<Rightarrow> 's \<Rightarrow> 's"
    and rew :: "'i \<Rightarrow> string \<Rightarrow> 's \<Rightarrow> 's"
  assumes text_app: "text_of s i = Some c \<Longrightarrow> text_of (app i d s) i = Some (c @ d)"
    and text_rew: "text_of s i = Some c \<Longrightarrow> text_of (rew i t s) i = Some t"
    and frame_app: "frame (app i d s) i = frame s i"
    and frame_rew: "frame (rew i t s) i = frame s i"
begin

lemma text_edits:
  "text_of s i = Some c \<Longrightarrow> text_of (fold (edit_sink app rew i) es s) i = Some (fold edit_text es c)"
proof (induction es arbitrary: s c)
  case (Cons e es)
  have "text_of (edit_sink app rew i e s) i = Some (edit_text e c)"
    using Cons.prems by (cases e) (simp_all add: text_app text_rew)
  from Cons.IH [OF this] show ?case by simp
qed simp

lemma frame_edits: "frame (fold (edit_sink app rew i) es s) i = frame s i"
proof (induction es arbitrary: s)
  case (Cons e es)
  have "frame (edit_sink app rew i e s) i = frame s i" by (cases e) (simp_all add: frame_app frame_rew)
  with Cons.IH show ?case by simp
qed simp

end

definition slot_text :: "msg_service \<Rightarrow> string \<Rightarrow> string option" where
  "slot_text s i = map_option sl_content (map_of (ms_slots s) i)"

definition slot_frame :: "msg_service \<Rightarrow> string \<Rightarrow> store \<times> slot option" where
  "slot_frame s i = (ms_store s, map_option (\<lambda>sl. sl\<lparr>sl_content := []\<rparr>) (map_of (ms_slots s) i))"

lemma takePending_slots [simp]: "ms_slots (takePending i s) = ms_slots s" "ms_store (takePending i s) = ms_store s"
  by (auto simp: takePending_def flushOne_def signal_out_def split: option.split)

interpretation service: stream_sink slot_text slot_frame appendStreamingChunk rewriteStreamingContent
  by unfold_locales
    (auto simp: slot_text_def slot_frame_def appendStreamingChunk_def rewriteStreamingContent_def Let_def
      update_conv' signal_out_def split: option.splits if_splits)

text \<open>The manager's edits of an open placeholder are the service's, and its own text is the same.\<close>

lemma run_edits:
  assumes "sm_msgId m = i" and "i \<noteq> []"
  shows "fold run_edit es m = m\<lparr>sm_content := fold edit_text es (sm_content m),
    sm_thinking := fold edit_thinking es (sm_thinking m),
    sm_service := fold (edit_sink appendStreamingChunk rewriteStreamingContent i) es (sm_service m)\<rparr>"
  using assms
proof (induction es arbitrary: m)
  case (Cons e es)
  have "run_edit e m = m\<lparr>sm_content := edit_text e (sm_content m), sm_thinking := edit_thinking e (sm_thinking m),
      sm_service := edit_sink appendStreamingChunk rewriteStreamingContent i e (sm_service m)\<rparr>"
    using Cons.prems by (cases e) (auto simp: appendChunk_def appendThinkingChunk_def rewriteStream_def)
  with Cons.IH [of "run_edit e m"] Cons.prems show ?case by simp
qed simp

text \<open>The row a stream leaves.\<close>

definition stream_row :: "int \<Rightarrow> string \<Rightarrow> string \<Rightarrow> string \<Rightarrow> string \<Rightarrow> string \<Rightarrow> edit list \<Rightarrow> int \<Rightarrow> string \<Rightarrow> string \<Rightarrow> string \<Rightarrow> json_object \<Rightarrow> message" where
  "stream_row now i c role a al es tokens fr html model meta =
     new_message\<lparr>msg_id := i, msg_conversationId := c, msg_role := role, msg_content := fold edit_text es [],
       msg_contentHtml := html, msg_createdAt := Some now, msg_tokenCount := tokens, msg_modelUsed := model,
       msg_finishReason := fr, msg_metadata := meta, msg_agentId := a, msg_memberAlias := al,
       msg_thinkingContent := thinkingForRow (fold edit_thinking es [])\<rparr>"

text \<open>
  C17. A turn is stored as it was streamed: after a placeholder was begun in an existing conversation,
  any chunks, reasoning and rewrites, and its finalization, exactly one row is stored, with the text the
  edits leave, the reasoning unless it is blank, and the attributes given at the beginning and the end; the
  placeholder is gone from the service and the manager is idle.
\<close>

theorem turn_stored_as_streamed:
  assumes "conversationExists (ms_store (sm_service m)) c" and "i \<noteq> []"
    and "\<not> hasStreamingMessage (sm_service m) i" and "i \<notin> msg_id ` set (st_messages (ms_store (sm_service m)))"
    and "role \<in> set validRoles" and "a = [] \<or> a \<in> set (st_agents (ms_store (sm_service m)))"
    and "m1 = fold run_edit es (beginStream t0 i c role a al m)"
    and "(ok, m2) = finalizeStream t1 tokens fr html model meta m1"
  shows "ok \<and> sm_persisted m2 \<and> \<not> isStreaming m2 \<and> \<not> hasStreamingMessage (sm_service m2) i \<and>
    st_messages (ms_store (sm_service m2)) =
      st_messages (ms_store (sm_service m)) @ [stream_row t0 i c role a al es tokens fr html model meta]"
proof -
  let ?s0 = "beginStreamingMessage t0 c i role a al (sm_service m)"
  let ?sl = "\<lparr>sl_convId = c, sl_role = role, sl_agentId = a, sl_memberAlias = al, sl_content = [], sl_startedAt = Some t0\<rparr>"
  let ?s1 = "fold (edit_sink appendStreamingChunk rewriteStreamingContent i) es ?s0"
  have "c \<noteq> []" using assms(1) by (simp add: conversationExists_def)
  then have s0: "map_of (ms_slots ?s0) i = Some ?sl" "ms_store ?s0 = ms_store (sm_service m)"
    using assms(1-3) by (simp_all add: beginStreamingMessage_def update_conv' signal_out_def)
  have "slot_text ?s1 i = Some (fold edit_text es [])" and "slot_frame ?s1 i = slot_frame ?s0 i"
    using service.text_edits service.frame_edits s0(1) by (simp_all add: slot_text_def)
  then obtain sl where sl: "map_of (ms_slots ?s1) i = Some sl" "sl_content sl = fold edit_text es []"
    "sl\<lparr>sl_content := []\<rparr> = ?sl" and st: "ms_store ?s1 = ms_store (sm_service m)"
    using s0 by (auto simp: slot_text_def slot_frame_def)
  have hdr: "sl_convId sl = c" "sl_role sl = role" "sl_agentId sl = a" "sl_memberAlias sl = al" "sl_startedAt sl = Some t0"
    using sl(3) by (cases sl; simp)+
  let ?row = "stream_row t0 i c role a al es tokens fr html model meta"
  have m1: "sm_msgId m1 = i" "sm_thinking m1 = fold edit_thinking es []" "sm_service m1 = ?s1"
    using run_edits [of "beginStream t0 i c role a al m" i es] assms(2,7) by (simp_all add: beginStream_def)
  let ?s2 = "(takePending i ?s1)\<lparr>ms_slots := AList.delete i (ms_slots ?s1)\<rparr>"
  have fin: "finalizeStreamingMessage t1 i tokens fr html model meta (thinkingForRow (fold edit_thinking es [])) ?s1 =
      (let (added, s) = addMessage t1 ?row ?s2 in
       if added \<noteq> [] then (True, s) else (False, signal_out (StreamingAborted c i) s))"
    using sl hdr by (simp add: finalizeStreamingMessage_def Let_def slotMessage_def stream_row_def new_message_def case_prod_beta)
  have row: "validMessage ?row" "msg_conversationId ?row = c" "msg_id ?row = i" "msg_createdAt ?row = Some t0"
    "msg_role ?row = role" "msg_agentId ?row = a"
    using assms(2,5) by (simp_all add: validMessage_def stream_row_def)
  obtain store where store: "insertMessage t1 ?row (ms_store ?s2) = Some store"
    "st_messages store = st_messages (ms_store (sm_service m)) @ [?row]"
    using assms(1,4-6) row st by (simp add: insertMessage_def conversationExists_def stream_row_def)
  have "conversationExists (ms_store ?s2) c" using assms(1) st by simp
  then have "fst (addMessage t1 ?row ?s2) = i" "ms_slots (snd (addMessage t1 ?row ?s2)) = ms_slots ?s2"
    "st_messages (ms_store (snd (addMessage t1 ?row ?s2))) = st_messages store"
    using row store(1) by (simp_all add: addMessage_def Let_def signal_out_def updateTokenTotal_def ftsInsert_def)
  with fin m1 assms(2,8) store(2) show ?thesis
    by (auto simp: finalizeStream_def Let_def isStreaming_def hasStreamingMessage_def delete_conv' case_prod_beta)
qed

definition demo_service :: msg_service where
  "demo_service = \<lparr>ms_store = \<lparr>st_up = True, st_convs = [\<lparr>cv_id = ''c'', cv_token_total = 0, cv_updated_at = 0\<rparr>],
     st_agents = [], st_messages = [], st_calls = [], st_attachments = [], st_fts = []\<rparr>,
     ms_slots = [], ms_pending = [], ms_timer = False, ms_ephemeral = [], ms_out = []\<rparr>"

definition idle :: "msg_service \<Rightarrow> manager" where
  "idle s = \<lparr>sm_msgId = [], sm_content = [], sm_thinking = [], sm_persisted = False, sm_service = s, sm_out = []\<rparr>"

theorem turn_stored_as_streamed_witness:
  "map msg_content (st_messages (ms_store (sm_service (snd (finalizeStream 2 7 ''stop'' [] ''model'' []
     (fold run_edit [Chunk ''Hel'', Thinking '' '', Chunk ''p'', Replace ''Hello'', Chunk ''!'']
       (beginStream 1 ''m'' ''c'' ''assistant'' [] [] (idle demo_service)))))))) = [''Hello!'']"
  using turn_stored_as_streamed [of "idle demo_service" "''c''" "''m''" "''assistant''" "[]" _
      "[Chunk ''Hel'', Thinking '' '', Chunk ''p'', Replace ''Hello'', Chunk ''!'']" 1 "[]" _ _ 2 7 "''stop''" "[]" "''model''" "[]",
      OF _ _ _ _ _ _ refl surjective_pairing [symmetric]]
  by (simp add: idle_def demo_service_def conversationExists_def hasStreamingMessage_def validRoles_def stream_row_def)

text \<open>
  A turn in a conversation that no longer exists is lost without a trace in the database: the
  manager takes the placeholder for open and accumulates the text, but the finalization fails, nothing is
  stored and no signal of the service announces it.
\<close>

theorem turn_without_conversation_lost:
  assumes "\<not> conversationExists (ms_store (sm_service m)) c" and "i \<noteq> []"
    and "\<not> hasStreamingMessage (sm_service m) i" and "map_of (ms_pending (sm_service m)) i = None"
    and "m1 = fold run_edit es (beginStream t0 i c role a al m)"
    and "(ok, m2) = finalizeStream t1 tokens fr html model meta m1"
  shows "isStreaming m1 \<and> sm_content m1 = fold edit_text es [] \<and> \<not> hasInMessageService m1 \<and>
    \<not> ok \<and> \<not> sm_persisted m2 \<and> sm_service m2 = sm_service m"
proof -
  let ?s = "sm_service m"
  have s0: "beginStreamingMessage t0 c i role a al ?s = ?s"
    using assms(1) by (simp add: beginStreamingMessage_def)
  have none: "map_of (ms_slots ?s) i = None" using assms(3) by (simp add: hasStreamingMessage_def)
  have "edit_sink appendStreamingChunk rewriteStreamingContent i e ?s = ?s" for e
    using none assms(4)
    by (cases e) (simp_all add: appendStreamingChunk_def rewriteStreamingContent_def takePending_def)
  then have edits: "fold (edit_sink appendStreamingChunk rewriteStreamingContent i) es ?s = ?s"
    by (induction es) simp_all
  have m1: "m1 = (beginStream t0 i c role a al m)\<lparr>sm_content := fold edit_text es [],
      sm_thinking := fold edit_thinking es [], sm_service := ?s\<rparr>"
    using run_edits [of "beginStream t0 i c role a al m" i es] assms(2,5) s0 edits by (simp add: beginStream_def)
  then show ?thesis
    using assms(2,4,6) none
    by (simp add: isStreaming_def hasInMessageService_def hasStreamingMessage_def beginStream_def finalizeStream_def
        finalizeStreamingMessage_def takePending_def)
qed

theorem turn_without_conversation_lost_witness:
  "fst (finalizeStream 2 7 ''stop'' [] ''model'' [] (fold run_edit [Chunk ''Hello'']
     (beginStream 1 ''m'' ''gone'' ''assistant'' [] [] (idle demo_service)))) = False"
  using turn_without_conversation_lost [of "idle demo_service" "''gone''" "''m''" _ "[Chunk ''Hello'']" 1 "''assistant''" "[]" "[]"
      _ _ 2 7 "''stop''" "[]" "''model''" "[]", OF _ _ _ _ refl surjective_pairing [symmetric]]
  by (simp add: idle_def demo_service_def conversationExists_def hasStreamingMessage_def)

end
