(* ===== verification/Store_Laws.thy ===== *)
theory Store_Laws
  imports Message_Service
begin

text \<open>
  The tables of the message service: every operation keeps them well formed, the queries agree with each
  other, and what deletions and updates leave behind.
\<close>

section \<open>Integrity\<close>

text \<open>The constraints of the schema, on all rows at once.\<close>

definition store_inv :: "store \<Rightarrow> bool" where
  "store_inv st \<longleftrightarrow>
     distinct (map msg_id (st_messages st)) \<and>
     (\<forall>m \<in> set (st_messages st). msg_id m \<noteq> [] \<and> msg_conversationId m \<in> cv_id ` set (st_convs st) \<and>
        msg_role m \<in> set validRoles \<and> msg_createdAt m \<noteq> None \<and>
        (msg_agentId m = [] \<or> msg_agentId m \<in> set (st_agents st))) \<and>
     distinct (map (tc_id \<circ> fst) (st_calls st)) \<and>
     (\<forall>r \<in> set (st_calls st). validToolCall (fst r) \<and> tc_messageId (fst r) \<in> msg_id ` set (st_messages st)) \<and>
     distinct (map at_id (st_attachments st)) \<and>
     (\<forall>a \<in> set (st_attachments st). validAttachment a \<and> at_messageId a \<in> msg_id ` set (st_messages st))"

lemma store_invI:
  assumes "distinct (map msg_id (st_messages st))"
    and "\<And>m. m \<in> set (st_messages st) \<Longrightarrow> msg_id m \<noteq> [] \<and> msg_conversationId m \<in> cv_id ` set (st_convs st) \<and>
      msg_role m \<in> set validRoles \<and> msg_createdAt m \<noteq> None \<and> (msg_agentId m = [] \<or> msg_agentId m \<in> set (st_agents st))"
    and "distinct (map (tc_id \<circ> fst) (st_calls st))"
    and "\<And>r. r \<in> set (st_calls st) \<Longrightarrow> validToolCall (fst r) \<and> tc_messageId (fst r) \<in> msg_id ` set (st_messages st)"
    and "distinct (map at_id (st_attachments st))"
    and "\<And>a. a \<in> set (st_attachments st) \<Longrightarrow> validAttachment a \<and> at_messageId a \<in> msg_id ` set (st_messages st)"
  shows "store_inv st"
  using assms unfolding store_inv_def by blast

lemma store_invD:
  assumes "store_inv st"
  shows "distinct (map msg_id (st_messages st))"
    and "m \<in> set (st_messages st) \<Longrightarrow> msg_id m \<noteq> [] \<and> msg_conversationId m \<in> cv_id ` set (st_convs st) \<and>
      msg_role m \<in> set validRoles \<and> msg_createdAt m \<noteq> None \<and> (msg_agentId m = [] \<or> msg_agentId m \<in> set (st_agents st))"
    and "distinct (map (tc_id \<circ> fst) (st_calls st))"
    and "r \<in> set (st_calls st) \<Longrightarrow> validToolCall (fst r) \<and> tc_messageId (fst r) \<in> msg_id ` set (st_messages st)"
    and "distinct (map at_id (st_attachments st))"
    and "a \<in> set (st_attachments st) \<Longrightarrow> validAttachment a \<and> at_messageId a \<in> msg_id ` set (st_messages st)"
  using assms unfolding store_inv_def by blast+

lemma insertMessage_inv:
  assumes "store_inv st" and "insertMessage now m st = Some st'" and "msg_id m \<noteq> []"
  shows "store_inv st'"
proof -
  have st': "st' = st\<lparr>st_messages := st_messages st @
      [m\<lparr>msg_createdAt := Some (case msg_createdAt m of Some t \<Rightarrow> t | None \<Rightarrow> now)\<rparr>]\<rparr>"
    and ok: "msg_id m \<notin> msg_id ` set (st_messages st)" "msg_conversationId m \<in> cv_id ` set (st_convs st)"
      "msg_role m \<in> set validRoles" "msg_agentId m = [] \<or> msg_agentId m \<in> set (st_agents st)"
    using assms(2) by (auto simp: insertMessage_def split: if_splits)
  note I = store_invD [OF assms(1)]
  show ?thesis
  proof (rule store_invI, goal_cases)
    case (2 x)
    then consider "x \<in> set (st_messages st)"
      | "x = m\<lparr>msg_createdAt := Some (case msg_createdAt m of Some t \<Rightarrow> t | None \<Rightarrow> now)\<rparr>"
      by (auto simp: st')
    then show ?case using I(2) [of x] ok assms(3) by cases (simp_all add: st')
  next
    case (4 r)
    then show ?case using I(4) [of r] by (auto simp: st')
  next
    case (6 a)
    then show ?case using I(6) [of a] by (auto simp: st')
  qed (use I ok in \<open>auto simp: st'\<close>)
qed

lemma conv_ids_tokens: "cv_id ` set (st_convs (updateTokenTotal now c n st)) = cv_id ` set (st_convs st)"
proof -
  have "map cv_id (st_convs (updateTokenTotal now c n st)) = map cv_id (st_convs st)"
    by (simp add: updateTokenTotal_def)
  then show ?thesis by (metis list.set_map)
qed

lemma updateTokenTotal_inv: "store_inv st \<Longrightarrow> store_inv (updateTokenTotal now c n st)"
  unfolding store_inv_def conv_ids_tokens by (simp add: updateTokenTotal_def)

lemma ftsInsert_inv: "store_inv st \<Longrightarrow> store_inv (ftsInsert m st)"
  by (simp add: store_inv_def ftsInsert_def)

lemma addMessage_store_inv [inv_intro]:
  "store_inv (ms_store s) \<Longrightarrow> store_inv (ms_store (snd (addMessage now m s)))"
  by (auto simp: addMessage_def Let_def validMessage_def signal_out_def split: option.split
      intro: insertMessage_inv updateTokenTotal_inv ftsInsert_inv)

lemma removeMessages_store_inv [inv_intro]:
  assumes "store_inv st"
  shows "store_inv (removeMessages P st)"
proof -
  note I = store_invD [OF assms]
  have once: "m = m'" if "m \<in> set (st_messages st)" "m' \<in> set (st_messages st)" "msg_id m = msg_id m'" for m m'
    using I(1) that by (simp add: distinct_map inj_on_def)
  have keep: "x \<in> msg_id ` set (filter (\<lambda>m. \<not> P m) (st_messages st))"
    if "x \<in> msg_id ` set (st_messages st)" "x \<notin> msg_id ` set (filter P (st_messages st))" for x
    using that by auto
  show ?thesis
  proof (rule store_invI, goal_cases)
    case (4 r)
    then have "r \<in> set (st_calls st)" "tc_messageId (fst r) \<notin> msg_id ` set (filter P (st_messages st))"
      by (auto simp: removeMessages_def Let_def)
    with I(4) keep show ?case by (simp add: removeMessages_def Let_def)
  next
    case (6 a)
    then have "a \<in> set (st_attachments st)" "at_messageId a \<notin> msg_id ` set (filter P (st_messages st))"
      by (auto simp: removeMessages_def Let_def)
    with I(6) keep show ?case by (simp add: removeMessages_def Let_def)
  qed (use I in \<open>auto simp: removeMessages_def Let_def distinct_map_filter\<close>)
qed

lemma updateMessage_store_inv:
  assumes "store_inv st" and "\<And>m. msg_id (f m) = msg_id m \<and> msg_conversationId (f m) = msg_conversationId m \<and>
    msg_role (f m) = msg_role m \<and> msg_createdAt (f m) = msg_createdAt m \<and> msg_agentId (f m) = msg_agentId m"
  shows "store_inv (updateMessage i f st)"
proof -
  note I = store_invD [OF assms(1)]
  have ids: "map msg_id (st_messages (updateMessage i f st)) = map msg_id (st_messages st)"
    using assms(2) by (simp add: updateMessage_def)
  then have idset: "msg_id ` set (st_messages (updateMessage i f st)) = msg_id ` set (st_messages st)"
    by (metis list.set_map)
  have frame: "st_convs (updateMessage i f st) = st_convs st" "st_agents (updateMessage i f st) = st_agents st"
    "st_calls (updateMessage i f st) = st_calls st" "st_attachments (updateMessage i f st) = st_attachments st"
    by (simp_all add: updateMessage_def)
  show ?thesis
  proof (rule store_invI, goal_cases)
    case (2 m)
    then obtain m0 where "m0 \<in> set (st_messages st)" "m = m0 \<or> m = f m0" by (auto simp: updateMessage_def)
    with I(2) [of m0] assms(2) [of m0] show ?case by (auto simp: frame)
  qed (use I in \<open>simp_all add: ids idset frame\<close>)
qed

lemma finalize_store_inv [inv_intro]:
  assumes "store_inv (ms_store s)"
  shows "store_inv (ms_store (snd (finalizeStreamingMessage now i n fr html model meta th s)))"
proof -
  have "ms_store (takePending i s) = ms_store s"
    by (auto simp: takePending_def flushOne_def signal_out_def split: option.split)
  with assms addMessage_store_inv show ?thesis
    by (fastforce simp: finalizeStreamingMessage_def Let_def case_prod_beta signal_out_def split: option.split)
qed

lemma toolCall_rows_inv:
  assumes "store_inv st" and "\<And>c. tc_id (g c) = tc_id c \<and> tc_messageId (g c) = tc_messageId c"
    and "i \<in> (tc_id \<circ> fst) ` set (st_calls st) \<longrightarrow> (\<forall>c. tc_status (g c) \<in> set validStatuses)"
  shows "store_inv (st\<lparr>st_calls := map (\<lambda>(c, r). if tc_id c = i then (g c, t) else (c, r)) (st_calls st)\<rparr>)"
proof -
  note I = store_invD [OF assms(1)]
  have "map (tc_id \<circ> fst) (map (\<lambda>(c, r). if tc_id c = i then (g c, t) else (c, r)) (st_calls st)) = map (tc_id \<circ> fst) (st_calls st)"
    using assms(2) by auto
  moreover have "validToolCall (fst r) \<and> tc_messageId (fst r) \<in> msg_id ` set (st_messages st)"
    if "r \<in> set (map (\<lambda>(c, r). if tc_id c = i then (g c, t) else (c, r)) (st_calls st))" for r
  proof -
    from that obtain c u where c: "(c, u) \<in> set (st_calls st)" "r = (if tc_id c = i then (g c, t) else (c, u))" by auto
    from c(1) have "tc_id c \<in> (tc_id \<circ> fst) ` set (st_calls st)" by force
    with I(4) [OF c(1)] assms(2) [of c] assms(3) c(2) show ?thesis
      by (cases "tc_id c = i") (simp_all add: validToolCall_def)
  qed
  ultimately show ?thesis using I by (intro store_invI) (simp_all del: map_map)
qed

lemma addCall_rows_inv:
  assumes "store_inv st" and "validToolCall c" and "tc_id c \<notin> (tc_id \<circ> fst) ` set (st_calls st)"
    and "tc_messageId c \<in> msg_id ` set (st_messages st)"
  shows "store_inv (st\<lparr>st_calls := st_calls st @ [(c\<lparr>tc_result := JNull, tc_completedAt := None\<rparr>, t)]\<rparr>)"
proof -
  note I = store_invD [OF assms(1)]
  show ?thesis
  proof (rule store_invI, goal_cases)
    case (4 r)
    then show ?case using I(4) [of r] assms(2,4) by (auto simp: validToolCall_def)
  qed (use I assms(3) in \<open>simp_all\<close>)
qed

lemma addAttachment_rows_inv:
  assumes "store_inv st" and "validAttachment a" and "at_id a \<notin> at_id ` set (st_attachments st)"
    and "at_messageId a \<in> msg_id ` set (st_messages st)"
  shows "store_inv (st\<lparr>st_attachments := st_attachments st @ [a\<lparr>at_createdAt := t\<rparr>]\<rparr>)"
proof -
  note I = store_invD [OF assms(1)]
  show ?thesis
  proof (rule store_invI, goal_cases)
    case (6 x)
    then show ?case using I(6) [of x] assms(2,4) by (auto simp: validAttachment_def)
  qed (use I assms(3) in \<open>simp_all\<close>)
qed

lemma operations_store_inv:
  assumes "store_inv (ms_store s)"
  shows "store_inv (ms_store (snd (addMessage now m s)))"
    and "store_inv (ms_store (snd (deleteMessage i s)))"
    and "store_inv (ms_store (snd (deleteAllForConversation c s)))"
    and "store_inv (ms_store (snd (markMessageAsEchoFailed i s)))"
    and "store_inv (ms_store (snd (updateContentHtml i html s)))"
    and "store_inv (ms_store (snd (finalizeStreamingMessage now i n fr html model meta th s)))"
    and "store_inv (ms_store (snd (addAttachment now a s)))"
    and "store_inv (ms_store (snd (deleteAttachment i s)))"
    and "store_inv (ms_store (snd (addToolCall tc s)))"
    and "store_inv (ms_store (snd (updateToolCallResult print now i r status s)))"
proof -
  note I = store_invD [OF assms]
  show "store_inv (ms_store (snd (addMessage now m s)))" by (rule addMessage_store_inv [OF assms])
  show "store_inv (ms_store (snd (deleteMessage i s)))"
    using assms removeMessages_store_inv by (simp add: deleteMessage_def Let_def signal_out_def)
  show "store_inv (ms_store (snd (deleteAllForConversation c s)))"
    using assms removeMessages_store_inv
    by (simp add: deleteAllForConversation_def clearEphemeralForConversation_def signal_out_def)
  show "store_inv (ms_store (snd (markMessageAsEchoFailed i s)))"
    using assms by (auto simp: markMessageAsEchoFailed_def Let_def signal_out_def split: option.split
        intro!: updateMessage_store_inv)
  show "store_inv (ms_store (snd (updateContentHtml i html s)))"
    using assms by (auto simp: updateContentHtml_def Let_def signal_out_def intro!: updateMessage_store_inv)
  show "store_inv (ms_store (snd (finalizeStreamingMessage now i n fr html model meta th s)))"
    by (rule finalize_store_inv [OF assms])
  show "store_inv (ms_store (snd (addAttachment now a s)))"
    using assms addAttachment_rows_inv by (simp add: addAttachment_def Let_def)
  show "store_inv (ms_store (snd (deleteAttachment i s)))"
    using assms by (auto simp: deleteAttachment_def Let_def store_inv_def distinct_map_filter)
  show "store_inv (ms_store (snd (addToolCall tc s)))"
    using assms addCall_rows_inv by (simp add: addToolCall_def Let_def signal_out_def)
  show "store_inv (ms_store (snd (updateToolCallResult print now i r status s)))"
    using assms toolCall_rows_inv [OF assms, of "\<lambda>c. c\<lparr>tc_status := status, tc_completedAt := Some now\<rparr>" i "resultText print r"]
    by (simp add: updateToolCallResult_def Let_def signal_out_def)
qed

text \<open>
  C11. The tables stay well formed: whatever the service does to messages, attachments and tool calls, ids
  stay unique, every message belongs to an existing conversation, every tool call and attachment to an existing
  message, and roles, types and states stay among the allowed ones.
\<close>

theorem service_keeps_tables_well_formed:
  assumes "store_inv (ms_store s)"
  shows "store_inv (ms_store (snd (addMessage now m s))) \<and>
    store_inv (ms_store (snd (deleteMessage i s))) \<and>
    store_inv (ms_store (snd (deleteAllForConversation c s))) \<and>
    store_inv (ms_store (snd (markMessageAsEchoFailed i s))) \<and>
    store_inv (ms_store (snd (updateContentHtml i html s))) \<and>
    store_inv (ms_store (snd (finalizeStreamingMessage now i n fr html model meta th s))) \<and>
    store_inv (ms_store (snd (addAttachment now a s))) \<and>
    store_inv (ms_store (snd (deleteAttachment i s))) \<and>
    store_inv (ms_store (snd (addToolCall tc s))) \<and>
    store_inv (ms_store (snd (updateToolCallResult print now i r status s)))"
  by (intro conjI operations_store_inv [OF assms])

definition demo_store :: msg_service where
  "demo_store = \<lparr>ms_store = \<lparr>st_up = True, st_convs = [\<lparr>cv_id = ''c'', cv_token_total = 0, cv_updated_at = 0\<rparr>],
     st_agents = [], st_messages = [new_message\<lparr>msg_id := ''m'', msg_conversationId := ''c'', msg_role := ''user'',
       msg_content := ''secret'', msg_createdAt := Some 1\<rparr>],
     st_calls = [(\<lparr>tc_id = ''t'', tc_messageId = ''m'', tc_toolName = ''ls'', tc_arguments = [], tc_result = JNull,
       tc_status = ''pending'', tc_startedAt = Some 1, tc_completedAt = None, tc_planStepId = []\<rparr>, [])],
     st_attachments = [], st_fts = [(''secret'', ''m'', ''c'')]\<rparr>,
     ms_slots = [], ms_pending = [], ms_timer = False, ms_ephemeral = [], ms_out = []\<rparr>"

lemma demo_store_inv: "store_inv (ms_store demo_store)"
  by (simp add: demo_store_def store_inv_def new_message_def validToolCall_def validRoles_def validStatuses_def)

theorem service_keeps_tables_well_formed_witness:
  "store_inv (ms_store (snd (deleteMessage ''m'' demo_store))) \<and>
   st_calls (ms_store (snd (deleteMessage ''m'' demo_store))) = []"
  using service_keeps_tables_well_formed [OF demo_store_inv, of _ _ "''m''"]
  by (simp add: deleteMessage_def demo_store_def Let_def conversationOf_def new_message_def signal_out_def
      removeMessages_def)

section \<open>Queries\<close>

text \<open>
  The queries agree: the recent messages are the end of the whole list, and consecutive pages make up the
  whole list.
\<close>

theorem recent_and_pages:
  "getRecentMessages st c (int n) = drop (length (getMessages st c) - n) (getMessages st c) \<and>
   getMessagePage st c (int k) 0 @ getMessagePage st c (int n) (int k) = take (k + n) (getMessages st c)"
  by (simp add: getRecentMessages_def getMessagePage_def getMessages_def limited_def rev_take take_add)

text \<open>
  Wiping a conversation removes exactly its messages and whatever hangs on them, and reports how
  many; but the full text of every wiped message stays in the search index.
\<close>

theorem wipe_keeps_search_text:
  assumes "c \<noteq> []" and "st_up (ms_store s)"
  shows "fst (deleteAllForConversation c s) = int (length (getMessages (ms_store s) c)) \<and>
    getMessages (ms_store (snd (deleteAllForConversation c s))) c = [] \<and>
    (d \<noteq> c \<longrightarrow> getMessages (ms_store (snd (deleteAllForConversation c s))) d = getMessages (ms_store s) d) \<and>
    st_fts (ms_store (snd (deleteAllForConversation c s))) = st_fts (ms_store s)"
proof -
  let ?st = "removeMessages (\<lambda>m. msg_conversationId m = c) (ms_store s)"
  have st: "ms_store (snd (deleteAllForConversation c s)) = ?st"
    using assms by (simp add: deleteAllForConversation_def clearEphemeralForConversation_def signal_out_def)
  have "filter (\<lambda>m. msg_conversationId m = c) (st_messages ?st) = []"
    "st_fts ?st = st_fts (ms_store s)" "st_up ?st = st_up (ms_store s)"
    by (simp_all add: removeMessages_def Let_def)
  moreover have "filter (\<lambda>m. msg_conversationId m = d) (st_messages ?st) =
      filter (\<lambda>m. msg_conversationId m = d) (st_messages (ms_store s))" if "d \<noteq> c"
    using that by (auto simp: removeMessages_def Let_def intro: filter_cong)
  moreover have "fst (deleteAllForConversation c s) = int (length (getMessages (ms_store s) c))"
    using assms by (simp add: deleteAllForConversation_def getMessages_def messagesOf_def)
  ultimately show ?thesis
    using assms(2) by (simp add: st getMessages_def messagesOf_def)
qed

theorem wipe_keeps_search_text_witness:
  "getMessages (ms_store (snd (deleteAllForConversation ''c'' demo_store))) ''c'' = [] \<and>
   st_fts (ms_store (snd (deleteAllForConversation ''c'' demo_store))) = [(''secret'', ''m'', ''c'')]"
  using wipe_keeps_search_text [of "''c''" demo_store] by (simp add: demo_store_def)

definition is_document :: "json \<Rightarrow> bool" where
  "is_document r \<longleftrightarrow> (case r of JObj _ \<Rightarrow> True | JArr _ \<Rightarrow> True | _ \<Rightarrow> False)"

text \<open>
  The result of a tool call is read back as it was written when it is an object, an array or a string that
  is not the text of a document; a number or a truth value is lost. \<open>print\<close> and \<open>parse\<close> are Qt's printing and
  reading of JSON documents.
\<close>

theorem tool_result_read_back:
  assumes "store_inv (ms_store s)" and "st_up (ms_store s)" and "i \<in> (tc_id \<circ> fst) ` set (st_calls (ms_store s))"
    and "status \<in> set validStatuses"
    and "is_document r \<Longrightarrow> parse (print r) = Some r" and "parse [] = None"
  shows "let got = tc_result (getToolCall parse (ms_store (snd (updateToolCallResult print now i r status s))) i)
    in case r of JObj ob \<Rightarrow> got = r | JArr xs \<Rightarrow> got = r | JStr t \<Rightarrow> parse t = None \<and> t \<noteq> [] \<longrightarrow> got = r
       | _ \<Rightarrow> got = JNull"
proof -
  let ?st = "ms_store s"
  let ?f = "\<lambda>(c, u). if tc_id c = i then (c\<lparr>tc_status := status, tc_completedAt := Some now\<rparr>, resultText print r) else (c, u)"
  have st: "ms_store (snd (updateToolCallResult print now i r status s)) = ?st\<lparr>st_calls := map ?f (st_calls ?st)\<rparr>"
    using assms(2,4) by (simp add: updateToolCallResult_def Let_def signal_out_def)
  have "\<exists>c. find (\<lambda>(c, u). tc_id c = i) (map ?f xs) = Some (c, resultText print r)"
    if "i \<in> (tc_id \<circ> fst) ` set xs" for xs
    using that by (induction xs) (auto split: if_splits)
  from this [OF assms(3)] obtain c where "find (\<lambda>(c, u). tc_id c = i) (map ?f (st_calls ?st)) = Some (c, resultText print r)" by blast
  then have got: "tc_result (getToolCall parse (ms_store (snd (updateToolCallResult print now i r status s))) i) =
      tc_result (callFromRow parse (c, resultText print r))"
    using assms(2) by (simp add: getToolCall_def st)
  have "print r \<noteq> []" if "is_document r" using assms(5) [OF that] assms(6) by auto
  with got assms(5) show ?thesis
    by (auto simp: callFromRow_def resultText_def Let_def is_document_def split: json.split)
qed

theorem tool_result_read_back_witness:
  "tc_result (getToolCall (\<lambda>t. if t = [] then None else Some (JObj [])) (ms_store (snd (updateToolCallResult
     (\<lambda>_. ''{}'') 5 ''t'' (JObj []) ''success'' demo_store))) ''t'') = JObj []"
  using tool_result_read_back [OF demo_store_inv, of "''t''" "''success''" "JObj []"
      "\<lambda>t. if t = [] then None else Some (JObj [])" "\<lambda>_. ''{}''" 5]
  by (simp add: demo_store_def validStatuses_def Let_def)

end
