(* ===== verification/Plan_Records.thy ===== *)
theory Plan_Records
  imports Chat_Records
begin

text \<open>
  Plans, steps and artifacts (backend/models/agent-plan.h and agent-plan.cpp): the enumerations with
  their stored names, the rows, and their JSON form. A time is \<open>None\<close> when it is not valid, else
  milliseconds.
\<close>

section \<open>Status names\<close>

datatype plan_status = PlanPlanning | PlanExecuting | PlanCritiquing | PlanBlocked | PlanCompleted | PlanFailed

fun planStatusToString :: "plan_status \<Rightarrow> string" where
  "planStatusToString PlanPlanning = ''planning''"
| "planStatusToString PlanExecuting = ''executing''"
| "planStatusToString PlanCritiquing = ''critiquing''"
| "planStatusToString PlanBlocked = ''blocked''"
| "planStatusToString PlanCompleted = ''completed''"
| "planStatusToString PlanFailed = ''failed''"

definition planStatusFromString :: "string \<Rightarrow> plan_status" where
  "planStatusFromString s =
     (if s = ''planning'' then PlanPlanning
      else if s = ''executing'' then PlanExecuting
      else if s = ''critiquing'' then PlanCritiquing
      else if s = ''blocked'' then PlanBlocked
      else if s = ''completed'' then PlanCompleted
      else if s = ''failed'' then PlanFailed
      else PlanPlanning)"

datatype step_status = StepPending | StepInProgress | StepSubmitted | StepDone | StepNeedsRework | StepBlocked

fun stepStatusToString :: "step_status \<Rightarrow> string" where
  "stepStatusToString StepPending = ''pending''"
| "stepStatusToString StepInProgress = ''in_progress''"
| "stepStatusToString StepSubmitted = ''submitted''"
| "stepStatusToString StepDone = ''done''"
| "stepStatusToString StepNeedsRework = ''needs_rework''"
| "stepStatusToString StepBlocked = ''blocked''"

definition stepStatusFromString :: "string \<Rightarrow> step_status" where
  "stepStatusFromString s =
     (if s = ''pending'' then StepPending
      else if s = ''in_progress'' then StepInProgress
      else if s = ''submitted'' then StepSubmitted
      else if s = ''done'' then StepDone
      else if s = ''needs_rework'' then StepNeedsRework
      else if s = ''blocked'' then StepBlocked
      else StepPending)"

datatype artifact_type = FileArtifact | AnalysisArtifact | DecisionArtifact | DraftArtifact | CodeArtifact | ToolLogArtifact

fun artifactTypeToString :: "artifact_type \<Rightarrow> string" where
  "artifactTypeToString FileArtifact = ''file''"
| "artifactTypeToString AnalysisArtifact = ''analysis''"
| "artifactTypeToString DecisionArtifact = ''decision''"
| "artifactTypeToString DraftArtifact = ''draft''"
| "artifactTypeToString CodeArtifact = ''code''"
| "artifactTypeToString ToolLogArtifact = ''tool_log''"

definition artifactTypeFromString :: "string \<Rightarrow> artifact_type" where
  "artifactTypeFromString s =
     (if s = ''file'' then FileArtifact
      else if s = ''analysis'' then AnalysisArtifact
      else if s = ''decision'' then DecisionArtifact
      else if s = ''draft'' then DraftArtifact
      else if s = ''code'' then CodeArtifact
      else if s = ''tool_log'' then ToolLogArtifact
      else DraftArtifact)"

text \<open>A status or a type survives its column: rows can therefore hold the enumeration itself.\<close>

lemma status_column_roundtrip [simp]:
  shows plan_status_column: "planStatusFromString (planStatusToString p) = p"
    and step_status_column: "stepStatusFromString (stepStatusToString s) = s"
    and artifact_type_column: "artifactTypeFromString (artifactTypeToString t) = t"
proof -
  show "planStatusFromString (planStatusToString p) = p" by (cases p) (simp_all add: planStatusFromString_def)
  show "stepStatusFromString (stepStatusToString s) = s" by (cases s) (simp_all add: stepStatusFromString_def)
  show "artifactTypeFromString (artifactTypeToString t) = t" by (cases t) (simp_all add: artifactTypeFromString_def)
qed

section \<open>Rows\<close>

record plan =
  pn_id :: string
  pn_conversationId :: string
  pn_projectFolderId :: string
  pn_organizationFolderId :: string
  pn_goal :: string
  pn_status :: plan_status
  pn_startedBy :: string
  pn_createdAt :: "int option"
  pn_updatedAt :: "int option"
  pn_turnsUsed :: int
  pn_heartbeatsUsed :: int

record step =
  sp_id :: string
  sp_planId :: string
  sp_ordering :: int
  sp_title :: string
  sp_description :: string
  sp_ownerAlias :: string
  sp_acceptanceCriteria :: string
  sp_status :: step_status
  sp_rejectionCount :: int
  sp_toolRetryCount :: int
  sp_executorTurnsUsed :: int
  sp_lastRejectionReason :: string
  sp_createdAt :: "int option"
  sp_updatedAt :: "int option"

record artifact =
  ar_id :: string
  ar_stepId :: string
  ar_type :: artifact_type
  ar_filePath :: string
  ar_content :: string
  ar_summary :: string
  ar_submittedByAlias :: string
  ar_createdAt :: "int option"
  ar_approved :: int
  ar_criticReasons :: "string list"

definition new_plan :: plan where
  "new_plan = \<lparr>pn_id = [], pn_conversationId = [], pn_projectFolderId = [], pn_organizationFolderId = [],
     pn_goal = [], pn_status = PlanPlanning, pn_startedBy = [], pn_createdAt = None, pn_updatedAt = None,
     pn_turnsUsed = 0, pn_heartbeatsUsed = 0\<rparr>"

definition new_step :: step where
  "new_step = \<lparr>sp_id = [], sp_planId = [], sp_ordering = 0, sp_title = [], sp_description = [],
     sp_ownerAlias = [], sp_acceptanceCriteria = [], sp_status = StepPending, sp_rejectionCount = 0,
     sp_toolRetryCount = 0, sp_executorTurnsUsed = 0, sp_lastRejectionReason = [], sp_createdAt = None,
     sp_updatedAt = None\<rparr>"

definition new_artifact :: artifact where
  "new_artifact = \<lparr>ar_id = [], ar_stepId = [], ar_type = DraftArtifact, ar_filePath = [], ar_content = [],
     ar_summary = [], ar_submittedByAlias = [], ar_createdAt = None, ar_approved = 0, ar_criticReasons = []\<rparr>"

definition validPlan :: "plan \<Rightarrow> bool" where
  "validPlan p \<longleftrightarrow> pn_id p \<noteq> [] \<and> pn_conversationId p \<noteq> [] \<and> pn_goal p \<noteq> []"

definition validStep :: "step \<Rightarrow> bool" where
  "validStep s \<longleftrightarrow> sp_id s \<noteq> [] \<and> sp_planId s \<noteq> [] \<and> sp_title s \<noteq> [] \<and> sp_ownerAlias s \<noteq> [] \<and>
     sp_acceptanceCriteria s \<noteq> []"

definition validArtifact :: "artifact \<Rightarrow> bool" where
  "validArtifact a \<longleftrightarrow> ar_id a \<noteq> [] \<and> ar_stepId a \<noteq> [] \<and> ar_summary a \<noteq> []"

text \<open>\<open>isodate\<close> prints a time in ISO form, and an invalid time as the empty text.\<close>

definition planToJson :: "(int option \<Rightarrow> string) \<Rightarrow> plan \<Rightarrow> json_object" where
  "planToJson isodate p =
     [(''id'', JStr (pn_id p)), (''conversationId'', JStr (pn_conversationId p)),
      (''projectFolderId'', JStr (pn_projectFolderId p)),
      (''organizationFolderId'', JStr (pn_organizationFolderId p)), (''goal'', JStr (pn_goal p)),
      (''status'', JStr (planStatusToString (pn_status p))), (''startedBy'', JStr (pn_startedBy p)),
      (''createdAt'', JStr (isodate (pn_createdAt p))), (''updatedAt'', JStr (isodate (pn_updatedAt p))),
      (''turnsUsed'', JNum (pn_turnsUsed p)), (''heartbeatsUsed'', JNum (pn_heartbeatsUsed p))]"

definition stepToJson :: "(int option \<Rightarrow> string) \<Rightarrow> step \<Rightarrow> json_object" where
  "stepToJson isodate s =
     [(''id'', JStr (sp_id s)), (''planId'', JStr (sp_planId s)), (''ordering'', JNum (sp_ordering s)),
      (''title'', JStr (sp_title s)), (''description'', JStr (sp_description s)),
      (''ownerAlias'', JStr (sp_ownerAlias s)), (''acceptanceCriteria'', JStr (sp_acceptanceCriteria s)),
      (''status'', JStr (stepStatusToString (sp_status s))), (''rejectionCount'', JNum (sp_rejectionCount s)),
      (''toolRetryCount'', JNum (sp_toolRetryCount s)), (''executorTurnsUsed'', JNum (sp_executorTurnsUsed s)),
      (''lastRejectionReason'', JStr (sp_lastRejectionReason s)), (''createdAt'', JStr (isodate (sp_createdAt s))),
      (''updatedAt'', JStr (isodate (sp_updatedAt s)))]"

definition artifactToJson :: "(int option \<Rightarrow> string) \<Rightarrow> artifact \<Rightarrow> json_object" where
  "artifactToJson isodate a =
     [(''id'', JStr (ar_id a)), (''stepId'', JStr (ar_stepId a)), (''type'', JStr (artifactTypeToString (ar_type a))),
      (''filePath'', JStr (ar_filePath a)), (''content'', JStr (ar_content a)), (''summary'', JStr (ar_summary a)),
      (''submittedByAlias'', JStr (ar_submittedByAlias a)), (''createdAt'', JStr (isodate (ar_createdAt a))),
      (''approved'', JNum (ar_approved a)), (''criticReasons'', JArr (map JStr (ar_criticReasons a)))]"

definition plansExcludingConversation :: "plan list \<Rightarrow> string \<Rightarrow> plan list" where
  "plansExcludingConversation ps c = (if c = [] then ps else filter (\<lambda>p. pn_conversationId p \<noteq> c) ps)"

end
