(* ===== verification/Plan_Service.thy ===== *)
theory Plan_Service
  imports Plan_Records
begin

text \<open>
  The plan service (backend/services/plan-service.cpp) on its tables (backend/models/db-manager.cpp,
  migration of \<open>agent_plans\<close>). A table is the list of its rows in the order of insertion, and rows
  with equal sort keys come in that order. A statement fails when the database is down or when it
  violates a key, a reference or NOT NULL; the empty text stands for the null QString, which is bound as
  NULL. Deleting a plan deletes its steps and their artifacts. The clock and the source of fresh ids are
  arguments; signals are appended to \<open>pd_out\<close> in the order of emission.
\<close>

section \<open>State\<close>

text \<open>What the queries read of a conversation: its id, its primary agent and whether it is a group.\<close>

record conv_ref =
  cr_id :: string
  cr_primaryAgentId :: string
  cr_isGroup :: bool

record member_ref =
  mr_place :: string
  mr_agentId :: string
  mr_alias :: string

datatype plan_signal =
    PlanCreated string
  | PlanStatusChanged string plan_status
  | PlanUpdated string
  | PlanDeleted string
  | StepStatusChanged string step_status
  | StepUpdated string
  | ArtifactAdded string
  | ArtifactApprovalChanged string int

record plan_db =
  pd_up :: bool
  pd_convs :: "conv_ref list"
  pd_members :: "member_ref list"
  pd_projectMembers :: "member_ref list"
  pd_plans :: "plan list"
  pd_steps :: "step list"
  pd_artifacts :: "artifact list"
  pd_out :: "plan_signal list"

definition tell :: "plan_signal list \<Rightarrow> plan_db \<Rightarrow> plan_db" where
  "tell es d = d\<lparr>pd_out := pd_out d @ es\<rparr>"

definition newest :: "plan list \<Rightarrow> plan list" where
  "newest = sort_key (\<lambda>p. - toMSecs (pn_updatedAt p))"

definition activeNames :: "string list" where
  "activeNames = [''planning'', ''executing'', ''critiquing'', ''blocked'']"

section \<open>Plans\<close>

definition insertPlan :: "plan \<Rightarrow> plan_db \<Rightarrow> plan_db option" where
  "insertPlan p d =
     (if pd_up d \<and> pn_id p \<notin> pn_id ` set (pd_plans d) \<and> pn_conversationId p \<in> cr_id ` set (pd_convs d) \<and>
         pn_goal p \<noteq> [] \<and> pn_startedBy p \<noteq> []
      then Some (d\<lparr>pd_plans := pd_plans d @ [p]\<rparr>) else None)"

definition insertStep :: "step \<Rightarrow> plan_db \<Rightarrow> plan_db option" where
  "insertStep s d =
     (if pd_up d \<and> sp_id s \<notin> sp_id ` set (pd_steps d) \<and> sp_planId s \<in> pn_id ` set (pd_plans d) \<and>
         sp_title s \<noteq> [] \<and> sp_ownerAlias s \<noteq> [] \<and> sp_acceptanceCriteria s \<noteq> []
      then Some (d\<lparr>pd_steps := pd_steps d @ [s]\<rparr>) else None)"

definition placedStep :: "int \<Rightarrow> (nat \<Rightarrow> string) \<Rightarrow> string \<Rightarrow> nat \<Rightarrow> step \<Rightarrow> step" where
  "placedStep now uuid planId i s =
     s\<lparr>sp_id := (if sp_id s = [] then uuid (Suc i) else sp_id s), sp_planId := planId, sp_ordering := int i,
       sp_createdAt := Some now, sp_updatedAt := Some now\<rparr>"

fun insertSteps :: "int \<Rightarrow> (nat \<Rightarrow> string) \<Rightarrow> string \<Rightarrow> nat \<Rightarrow> step list \<Rightarrow> plan_db \<Rightarrow> plan_db option" where
  "insertSteps now uuid planId i [] d = Some d"
| "insertSteps now uuid planId i (s # ss) d =
     (case insertStep (placedStep now uuid planId i s) d of
        None \<Rightarrow> None
      | Some d1 \<Rightarrow> insertSteps now uuid planId (Suc i) ss d1)"

text \<open>\<open>uuid 0\<close> is the plan's fresh id and \<open>uuid (i + 1)\<close> that of its step \<open>i\<close>; \<open>commits\<close> says
  whether the COMMIT succeeds. A transaction that does not end in a COMMIT leaves the tables as they were.\<close>

definition createPlan ::
    "int \<Rightarrow> (nat \<Rightarrow> string) \<Rightarrow> bool \<Rightarrow> plan \<Rightarrow> step list \<Rightarrow> plan_db \<Rightarrow> string \<times> plan_db" where
  "createPlan now uuid commits p steps d =
     (if pn_conversationId p = [] \<or> pn_goal p = [] then ([], d)
      else if steps = [] then ([], d)
      else if \<not> pd_up d then ([], d)
      else
        let p1 = p\<lparr>pn_id := (if pn_id p = [] then uuid 0 else pn_id p),
              pn_createdAt := Some (case pn_createdAt p of Some t \<Rightarrow> t | None \<Rightarrow> now), pn_updatedAt := Some now\<rparr>
        in case insertPlan p1 d of
             None \<Rightarrow> ([], d)
           | Some d1 \<Rightarrow>
             (case insertSteps now uuid (pn_id p1) 0 steps d1 of
                None \<Rightarrow> ([], d)
              | Some d2 \<Rightarrow> if commits then (pn_id p1, tell [PlanCreated (pn_id p1)] d2) else ([], d)))"

definition getPlan :: "plan_db \<Rightarrow> string \<Rightarrow> plan option" where
  "getPlan d i = (if pd_up d then find (\<lambda>p. pn_id p = i) (pd_plans d) else None)"

definition plansForConversation :: "plan_db \<Rightarrow> string \<Rightarrow> plan list" where
  "plansForConversation d c =
     (if pd_up d then newest (filter (\<lambda>p. pn_conversationId p = c) (pd_plans d)) else [])"

definition activePlansForConversation :: "plan_db \<Rightarrow> string \<Rightarrow> plan list" where
  "activePlansForConversation d c =
     (if pd_up d then newest (filter (\<lambda>p. pn_conversationId p = c \<and>
        planStatusToString (pn_status p) \<in> set activeNames) (pd_plans d)) else [])"

definition inScope :: "string \<Rightarrow> string \<Rightarrow> plan \<Rightarrow> bool" where
  "inScope projectFolderId organizationFolderId p \<longleftrightarrow>
     (projectFolderId = [] \<or> pn_projectFolderId p = projectFolderId) \<and>
     (organizationFolderId = [] \<or> pn_organizationFolderId p = organizationFolderId)"

definition activePlansForOwnerInScope :: "plan_db \<Rightarrow> string \<Rightarrow> string \<Rightarrow> string \<Rightarrow> plan list" where
  "activePlansForOwnerInScope d ownerAlias projectFolderId organizationFolderId =
     (if ownerAlias = [] \<or> \<not> pd_up d then []
      else newest (filter (\<lambda>p. planStatusToString (pn_status p) \<in> set activeNames \<and>
             inScope projectFolderId organizationFolderId p \<and>
             (\<exists>s \<in> set (pd_steps d). sp_planId s = pn_id p \<and> sp_ownerAlias s = ownerAlias \<and>
                stepStatusToString (sp_status s) \<in> set [''pending'', ''in_progress'', ''needs_rework'', ''blocked'']))
             (pd_plans d)))"

definition recentlyCompletedPlansForOwnerInScope ::
    "int \<Rightarrow> plan_db \<Rightarrow> string \<Rightarrow> string \<Rightarrow> string \<Rightarrow> int \<Rightarrow> plan list" where
  "recentlyCompletedPlansForOwnerInScope now d ownerAlias projectFolderId organizationFolderId limitDays =
     (if ownerAlias = [] \<or> \<not> pd_up d then []
      else let cutoffMs = now - limitDays * 24 * 3600 * 1000
           in take 10 (newest (filter (\<lambda>p. planStatusToString (pn_status p) = ''completed'' \<and>
                toMSecs (pn_updatedAt p) \<ge> cutoffMs \<and> inScope projectFolderId organizationFolderId p \<and>
                (\<exists>s \<in> set (pd_steps d). sp_planId s = pn_id p \<and> sp_ownerAlias s = ownerAlias)) (pd_plans d))))"

text \<open>The plan's conversation has the agent as its primary agent, or as the member that owns the step;
  or the conversation is not a group and the agent is on the roster of the plan's project.\<close>

definition agentWorksOn :: "plan_db \<Rightarrow> string \<Rightarrow> plan \<Rightarrow> step \<Rightarrow> bool" where
  "agentWorksOn d agentId p s \<longleftrightarrow>
     (\<exists>c \<in> set (pd_convs d). cr_id c = pn_conversationId p \<and> cr_primaryAgentId c = agentId) \<or>
     (\<exists>m \<in> set (pd_members d). mr_place m = pn_conversationId p \<and> mr_agentId m = agentId \<and>
        mr_alias m = sp_ownerAlias s) \<or>
     (pn_projectFolderId p \<noteq> [] \<and>
      (\<exists>c \<in> set (pd_convs d). cr_id c = pn_conversationId p \<and> \<not> cr_isGroup c) \<and>
      (\<exists>m \<in> set (pd_projectMembers d). mr_place m = pn_projectFolderId p \<and> mr_agentId m = agentId))"

definition plansByAgentIdAcrossChats :: "int \<Rightarrow> plan_db \<Rightarrow> string \<Rightarrow> string list \<Rightarrow> int \<Rightarrow> plan list" where
  "plansByAgentIdAcrossChats now d agentId statuses limitDays =
     (if agentId = [] \<or> statuses = [] \<or> \<not> pd_up d then []
      else take 20 (newest (filter (\<lambda>p. planStatusToString (pn_status p) \<in> set statuses \<and>
             (limitDays > 0 \<longrightarrow> toMSecs (pn_updatedAt p) \<ge> now - limitDays * 86400000) \<and>
             (\<exists>s \<in> set (pd_steps d). sp_planId s = pn_id p \<and> agentWorksOn d agentId p s)) (pd_plans d))))"

definition updatePlanRow :: "string \<Rightarrow> (plan \<Rightarrow> plan) \<Rightarrow> plan_db \<Rightarrow> plan_db" where
  "updatePlanRow i f d = d\<lparr>pd_plans := map (\<lambda>p. if pn_id p = i then f p else p) (pd_plans d)\<rparr>"

definition updatePlanStatus :: "int \<Rightarrow> string \<Rightarrow> plan_status \<Rightarrow> plan_db \<Rightarrow> bool \<times> plan_db" where
  "updatePlanStatus now i st d =
     (if \<not> pd_up d then (False, d)
      else if i \<notin> pn_id ` set (pd_plans d) then (False, d)
      else (True, tell [PlanStatusChanged i st, PlanUpdated i]
             (updatePlanRow i (\<lambda>p. p\<lparr>pn_status := st, pn_updatedAt := Some now\<rparr>) d)))"

text \<open>DELETE of plans, with the rows that reference them.\<close>

definition removePlans :: "(plan \<Rightarrow> bool) \<Rightarrow> plan_db \<Rightarrow> plan_db" where
  "removePlans P d =
     (let gone = pn_id ` set (filter P (pd_plans d));
          goneSteps = sp_id ` set (filter (\<lambda>s. sp_planId s \<in> gone) (pd_steps d)) in
      d\<lparr>pd_plans := filter (\<lambda>p. \<not> P p) (pd_plans d),
        pd_steps := filter (\<lambda>s. sp_planId s \<notin> gone) (pd_steps d),
        pd_artifacts := filter (\<lambda>a. ar_stepId a \<notin> goneSteps) (pd_artifacts d)\<rparr>)"

definition deletePlansForConversation :: "string \<Rightarrow> plan_db \<Rightarrow> nat \<times> plan_db" where
  "deletePlansForConversation c d =
     (if \<not> pd_up d then (0, d)
      else
        let ids = map pn_id (filter (\<lambda>p. pn_conversationId p = c) (pd_plans d)) in
        if ids = [] then (0, d)
        else (length ids, tell (map PlanDeleted ids) (removePlans (\<lambda>p. pn_conversationId p = c) d)))"

definition deletePlan :: "string \<Rightarrow> plan_db \<Rightarrow> bool \<times> plan_db" where
  "deletePlan i d =
     (if \<not> pd_up d then (False, d)
      else if i \<notin> pn_id ` set (pd_plans d) then (False, d)
      else (True, tell [PlanDeleted i] (removePlans (\<lambda>p. pn_id p = i) d)))"

section \<open>Steps\<close>

definition getStep :: "plan_db \<Rightarrow> string \<Rightarrow> step option" where
  "getStep d i = (if pd_up d then find (\<lambda>s. sp_id s = i) (pd_steps d) else None)"

definition stepsForPlan :: "plan_db \<Rightarrow> string \<Rightarrow> step list" where
  "stepsForPlan d i = (if pd_up d then sort_key sp_ordering (filter (\<lambda>s. sp_planId s = i) (pd_steps d)) else [])"

text \<open>\<open>COALESCE(MAX(ordering), -1) + 1\<close>.\<close>

definition nextOrdering :: "plan_db \<Rightarrow> string \<Rightarrow> int" where
  "nextOrdering d i =
     (let os = map sp_ordering (filter (\<lambda>s. sp_planId s = i) (pd_steps d)) in
      (if os = [] then -1 else Max (set os)) + 1)"

definition appendStepToPlan :: "int \<Rightarrow> string \<Rightarrow> string \<Rightarrow> step \<Rightarrow> plan_db \<Rightarrow> string \<times> plan_db" where
  "appendStepToPlan now uuid i s d =
     (if \<not> pd_up d then ([], d)
      else
        let s1 = s\<lparr>sp_id := (if sp_id s = [] then uuid else sp_id s), sp_planId := i,
                   sp_ordering := nextOrdering d i, sp_createdAt := Some now, sp_updatedAt := Some now\<rparr>
        in case insertStep s1 d of
             None \<Rightarrow> ([], d)
           | Some d1 \<Rightarrow> (sp_id s1, tell [PlanUpdated i, StepUpdated (sp_id s1)] d1))"

text \<open>An UPDATE of one step: \<open>f\<close> sets the columns, and the row is stamped.\<close>

definition updateStep :: "int \<Rightarrow> string \<Rightarrow> (step \<Rightarrow> step) \<Rightarrow> plan_signal list \<Rightarrow> plan_db \<Rightarrow> bool \<times> plan_db" where
  "updateStep now i f es d =
     (if \<not> pd_up d \<or> i \<notin> sp_id ` set (pd_steps d) then (False, d)
      else (True, tell es (d\<lparr>pd_steps :=
             map (\<lambda>s. if sp_id s = i then (f s)\<lparr>sp_updatedAt := Some now\<rparr> else s) (pd_steps d)\<rparr>)))"

definition updateStepStatus :: "int \<Rightarrow> string \<Rightarrow> step_status \<Rightarrow> string \<Rightarrow> plan_db \<Rightarrow> bool \<times> plan_db" where
  "updateStepStatus now i st reason =
     updateStep now i
       (\<lambda>s. if reason = [] then s\<lparr>sp_status := st\<rparr> else s\<lparr>sp_status := st, sp_lastRejectionReason := reason\<rparr>)
       [StepStatusChanged i st, StepUpdated i]"

text \<open>NOT NULL refuses the empty owner.\<close>

definition updateStepOwner :: "int \<Rightarrow> string \<Rightarrow> string \<Rightarrow> plan_db \<Rightarrow> bool \<times> plan_db" where
  "updateStepOwner now i owner d =
     (if owner = [] then (False, d)
      else updateStep now i (\<lambda>s. s\<lparr>sp_ownerAlias := owner\<rparr>) [StepUpdated i] d)"

definition incrementStepRejectionCount :: "int \<Rightarrow> string \<Rightarrow> plan_db \<Rightarrow> bool \<times> plan_db" where
  "incrementStepRejectionCount now i =
     updateStep now i (\<lambda>s. s\<lparr>sp_rejectionCount := sp_rejectionCount s + 1\<rparr>) [StepUpdated i]"

definition incrementStepToolRetryCount :: "int \<Rightarrow> string \<Rightarrow> plan_db \<Rightarrow> bool \<times> plan_db" where
  "incrementStepToolRetryCount now i =
     updateStep now i (\<lambda>s. s\<lparr>sp_toolRetryCount := sp_toolRetryCount s + 1\<rparr>) [StepUpdated i]"

definition incrementStepExecutorTurns :: "int \<Rightarrow> string \<Rightarrow> plan_db \<Rightarrow> bool \<times> plan_db" where
  "incrementStepExecutorTurns now i =
     updateStep now i (\<lambda>s. s\<lparr>sp_executorTurnsUsed := sp_executorTurnsUsed s + 1\<rparr>) [StepUpdated i]"

definition resetStepForRetry :: "int \<Rightarrow> string \<Rightarrow> string \<Rightarrow> plan_db \<Rightarrow> bool \<times> plan_db" where
  "resetStepForRetry now i userNote =
     updateStep now i
       (\<lambda>s. s\<lparr>sp_status := StepPending, sp_rejectionCount := 0, sp_toolRetryCount := 0,
              sp_executorTurnsUsed := 0, sp_lastRejectionReason := userNote\<rparr>)
       [StepStatusChanged i StepPending, StepUpdated i]"

definition activeStepForOwnerInConversation :: "plan_db \<Rightarrow> string \<Rightarrow> string \<Rightarrow> step option" where
  "activeStepForOwnerInConversation d c ownerAlias =
     (if \<not> pd_up d then None
      else
        case sort_key (\<lambda>s. toMSecs (sp_updatedAt s))
          (filter (\<lambda>s. sp_ownerAlias s = ownerAlias \<and>
             stepStatusToString (sp_status s) \<in> set [''pending'', ''in_progress'', ''needs_rework''] \<and>
             (\<exists>p \<in> set (pd_plans d). pn_id p = sp_planId s \<and> pn_conversationId p = c \<and>
                planStatusToString (pn_status p) \<in> set [''planning'', ''executing'', ''critiquing''])) (pd_steps d)) of
          [] \<Rightarrow> None | s # _ \<Rightarrow> Some s)"

section \<open>Artifacts\<close>

definition addArtifact :: "int \<Rightarrow> string \<Rightarrow> artifact \<Rightarrow> plan_db \<Rightarrow> string \<times> plan_db" where
  "addArtifact now uuid a d =
     (if ar_stepId a = [] \<or> ar_summary a = [] then ([], d)
      else
        let a1 = a\<lparr>ar_id := (if ar_id a = [] then uuid else ar_id a),
              ar_createdAt := Some (case ar_createdAt a of Some t \<Rightarrow> t | None \<Rightarrow> now)\<rparr>
        in if pd_up d \<and> ar_id a1 \<notin> ar_id ` set (pd_artifacts d) \<and> ar_stepId a1 \<in> sp_id ` set (pd_steps d) \<and>
              ar_submittedByAlias a1 \<noteq> []
           then (ar_id a1, tell [ArtifactAdded (ar_id a1)] (d\<lparr>pd_artifacts := pd_artifacts d @ [a1]\<rparr>))
           else ([], d))"

definition artifactsForStep :: "plan_db \<Rightarrow> string \<Rightarrow> artifact list" where
  "artifactsForStep d i =
     (if pd_up d then sort_key (\<lambda>a. - toMSecs (ar_createdAt a)) (filter (\<lambda>a. ar_stepId a = i) (pd_artifacts d)) else [])"

definition setArtifactApproval :: "string \<Rightarrow> int \<Rightarrow> string list \<Rightarrow> plan_db \<Rightarrow> bool \<times> plan_db" where
  "setArtifactApproval i approved reasons d =
     (if \<not> pd_up d \<or> i \<notin> ar_id ` set (pd_artifacts d) then (False, d)
      else (True, tell [ArtifactApprovalChanged i approved] (d\<lparr>pd_artifacts :=
             map (\<lambda>a. if ar_id a = i then a\<lparr>ar_approved := approved, ar_criticReasons := reasons\<rparr> else a)
               (pd_artifacts d)\<rparr>)))"

end
