(* ===== verification/Plan_Laws.thy ===== *)
theory Plan_Laws
  imports Plan_Service
begin

text \<open>
  Laws of the plan tables: they stay well formed under every operation of the plan service, creating a
  plan is all or nothing, and how each update shows in the queries.
\<close>

section \<open>Well-formed tables\<close>

definition plan_ok :: "string set \<Rightarrow> plan \<Rightarrow> bool" where
  "plan_ok C p \<longleftrightarrow> pn_conversationId p \<in> C \<and> pn_goal p \<noteq> [] \<and> pn_startedBy p \<noteq> []"

definition step_ok :: "string set \<Rightarrow> step \<Rightarrow> bool" where
  "step_ok P s \<longleftrightarrow> sp_planId s \<in> P \<and> sp_title s \<noteq> [] \<and> sp_ownerAlias s \<noteq> [] \<and>
     sp_acceptanceCriteria s \<noteq> [] \<and> 0 \<le> sp_ordering s"

definition artifact_ok :: "string set \<Rightarrow> artifact \<Rightarrow> bool" where
  "artifact_ok S a \<longleftrightarrow> ar_stepId a \<in> S \<and> ar_summary a \<noteq> [] \<and> ar_submittedByAlias a \<noteq> []"

definition places :: "step list \<Rightarrow> string \<Rightarrow> int list" where
  "places ss i = map sp_ordering (filter (\<lambda>s. sp_planId s = i) ss)"

definition plan_inv :: "plan_db \<Rightarrow> bool" where
  "plan_inv d \<longleftrightarrow>
     distinct (map pn_id (pd_plans d)) \<and> distinct (map sp_id (pd_steps d)) \<and> distinct (map ar_id (pd_artifacts d)) \<and>
     (\<forall>p \<in> set (pd_plans d). plan_ok (set (map cr_id (pd_convs d))) p) \<and>
     (\<forall>s \<in> set (pd_steps d). step_ok (set (map pn_id (pd_plans d))) s) \<and>
     (\<forall>a \<in> set (pd_artifacts d). artifact_ok (set (map sp_id (pd_steps d))) a) \<and>
     (\<forall>i. distinct (places (pd_steps d) i))"

lemma plan_invI:
  "\<lbrakk>distinct (map pn_id (pd_plans d)); distinct (map sp_id (pd_steps d)); distinct (map ar_id (pd_artifacts d));
    \<And>p. p \<in> set (pd_plans d) \<Longrightarrow> plan_ok (set (map cr_id (pd_convs d))) p;
    \<And>s. s \<in> set (pd_steps d) \<Longrightarrow> step_ok (set (map pn_id (pd_plans d))) s;
    \<And>a. a \<in> set (pd_artifacts d) \<Longrightarrow> artifact_ok (set (map sp_id (pd_steps d))) a;
    \<And>i. distinct (places (pd_steps d) i)\<rbrakk> \<Longrightarrow> plan_inv d"
  by (simp add: plan_inv_def)

lemma plan_invD:
  assumes "plan_inv d"
  shows "distinct (map pn_id (pd_plans d))" "distinct (map sp_id (pd_steps d))" "distinct (map ar_id (pd_artifacts d))"
    "p \<in> set (pd_plans d) \<Longrightarrow> plan_ok (set (map cr_id (pd_convs d))) p"
    "s \<in> set (pd_steps d) \<Longrightarrow> step_ok (set (map pn_id (pd_plans d))) s"
    "a \<in> set (pd_artifacts d) \<Longrightarrow> artifact_ok (set (map sp_id (pd_steps d))) a"
    "distinct (places (pd_steps d) i)"
  using assms by (simp_all add: plan_inv_def)

lemma tell_fields [simp]:
  "pd_up (tell es d) = pd_up d" "pd_convs (tell es d) = pd_convs d" "pd_plans (tell es d) = pd_plans d"
  "pd_steps (tell es d) = pd_steps d" "pd_artifacts (tell es d) = pd_artifacts d"
  by (simp_all add: tell_def)

lemma plan_inv_tell [simp]: "plan_inv (tell es d) = plan_inv d"
  by (simp add: plan_inv_def)

text \<open>An update that keeps a column.\<close>

lemma map_update_column: "(\<And>x. k (f x) = k x) \<Longrightarrow> map k (map (\<lambda>x. if c x then f x else x) xs) = map k xs"
  by (induction xs) auto

lemma plan_inv_plans:
  assumes "plan_inv d" "map pn_id ps = map pn_id (pd_plans d)"
    and "\<And>p. p \<in> set ps \<Longrightarrow> plan_ok (set (map cr_id (pd_convs d))) p"
  shows "plan_inv (d\<lparr>pd_plans := ps\<rparr>)"
  using assms unfolding plan_inv_def by (simp del: set_map add: assms(2))

lemma plan_inv_steps:
  assumes "plan_inv d" "map sp_id ss = map sp_id (pd_steps d)" "\<And>i. places ss i = places (pd_steps d) i"
    and "\<And>s. s \<in> set ss \<Longrightarrow> step_ok (set (map pn_id (pd_plans d))) s"
  shows "plan_inv (d\<lparr>pd_steps := ss\<rparr>)"
  using assms unfolding plan_inv_def by (simp del: set_map)

lemma plan_inv_artifacts:
  assumes "plan_inv d" "distinct (map ar_id xs)"
    and "\<And>a. a \<in> set xs \<Longrightarrow> artifact_ok (set (map sp_id (pd_steps d))) a"
  shows "plan_inv (d\<lparr>pd_artifacts := xs\<rparr>)"
  using assms unfolding plan_inv_def by (simp del: set_map)

lemma updatePlanStatus_inv [inv_intro]:
  assumes "plan_inv d"
  shows "plan_inv (snd (updatePlanStatus now i st d))"
proof -
  have "plan_inv (updatePlanRow i (\<lambda>p. p\<lparr>pn_status := st, pn_updatedAt := Some now\<rparr>) d)"
    unfolding updatePlanRow_def
    by (rule plan_inv_plans [OF assms map_update_column])
      (use plan_invD(4) [OF assms] in \<open>auto simp: plan_ok_def\<close>)
  then show ?thesis using assms by (simp add: updatePlanStatus_def)
qed

lemma updateStep_inv:
  assumes d: "plan_inv d"
    and f: "\<And>s. sp_id (f s) = sp_id s \<and> sp_planId (f s) = sp_planId s \<and> sp_ordering (f s) = sp_ordering s"
    and ok: "\<And>P s. step_ok P s \<Longrightarrow> step_ok P (f s)"
  shows "plan_inv (snd (updateStep now i f es d))"
proof -
  let ?g = "\<lambda>s. if sp_id s = i then (f s)\<lparr>sp_updatedAt := Some now\<rparr> else s"
  have "plan_inv (d\<lparr>pd_steps := map ?g (pd_steps d)\<rparr>)"
  proof (rule plan_inv_steps [OF d])
    show "map sp_id (map ?g (pd_steps d)) = map sp_id (pd_steps d)" by (simp add: f)
    show "places (map ?g (pd_steps d)) k = places (pd_steps d) k" for k
      unfolding places_def by (induction "pd_steps d" arbitrary: d) (use f in \<open>auto simp: filter_map comp_def\<close>)
    show "step_ok (set (map pn_id (pd_plans d))) s" if "s \<in> set (map ?g (pd_steps d))" for s
    proof -
      from that obtain s0 where "s0 \<in> set (pd_steps d)" "s = ?g s0" by auto
      with plan_invD(5) [OF d] ok [of _ s0] show ?thesis by (auto simp: step_ok_def)
    qed
  qed
  then show ?thesis using d by (simp add: updateStep_def)
qed

lemma step_updates_inv [inv_intro]:
  assumes "plan_inv d"
  shows updateStepStatus_inv: "plan_inv (snd (updateStepStatus now i st reason d))"
    and updateStepOwner_inv: "plan_inv (snd (updateStepOwner now i owner d))"
    and incrementRejection_inv: "plan_inv (snd (incrementStepRejectionCount now i d))"
    and incrementRetry_inv: "plan_inv (snd (incrementStepToolRetryCount now i d))"
    and incrementTurns_inv: "plan_inv (snd (incrementStepExecutorTurns now i d))"
    and resetStepForRetry_inv: "plan_inv (snd (resetStepForRetry now i note d))"
  unfolding updateStepStatus_def updateStepOwner_def incrementStepRejectionCount_def
    incrementStepToolRetryCount_def incrementStepExecutorTurns_def resetStepForRetry_def
  using assms by (auto intro!: updateStep_inv simp: step_ok_def)

lemma insertPlan_inv: "insertPlan p d = Some d' \<Longrightarrow> plan_inv d \<Longrightarrow> plan_inv d'"
  unfolding insertPlan_def plan_inv_def plan_ok_def step_ok_def
  by (auto split: if_splits)

lemma insertStep_inv:
  assumes ins: "insertStep s d = Some d'" and d: "plan_inv d"
    and new: "sp_ordering s \<notin> set (places (pd_steps d) (sp_planId s))" "0 \<le> sp_ordering s"
  shows "plan_inv d'"
proof -
  from ins have d': "d' = d\<lparr>pd_steps := pd_steps d @ [s]\<rparr>"
    and ok: "sp_id s \<notin> sp_id ` set (pd_steps d)" "step_ok (set (map pn_id (pd_plans d))) s"
    using new(2) by (auto simp: insertStep_def step_ok_def split: if_splits)
  have "distinct (places (pd_steps d @ [s]) i)" for i
    using plan_invD(7) [OF d, of i] new by (auto simp: places_def)
  moreover have "artifact_ok (set (map sp_id (pd_steps d @ [s]))) a" if "a \<in> set (pd_artifacts d)" for a
    using plan_invD(6) [OF d that] by (auto simp: artifact_ok_def)
  ultimately show ?thesis using d ok unfolding d' plan_inv_def by auto
qed

lemma insertSteps_frame:
  "insertSteps now uuid pid i ss d = Some d' \<Longrightarrow>
   pd_plans d' = pd_plans d \<and> pd_convs d' = pd_convs d \<and> pd_artifacts d' = pd_artifacts d \<and> pd_up d' = pd_up d \<and>
   pd_out d' = pd_out d \<and> pd_steps d' = pd_steps d @ map2 (placedStep now uuid pid) [i..<i + length ss] ss"
proof (induction ss arbitrary: i d)
  case (Cons s ss)
  from Cons.prems obtain d1 where d1: "insertStep (placedStep now uuid pid i s) d = Some d1"
    and d': "insertSteps now uuid pid (Suc i) ss d1 = Some d'"
    by (auto split: option.splits)
  from d1 have "d1 = d\<lparr>pd_steps := pd_steps d @ [placedStep now uuid pid i s]\<rparr>"
    by (auto simp: insertStep_def split: if_splits)
  with Cons.IH [OF d'] show ?case by (simp add: upt_conv_Cons del: upt_Suc)
qed simp

lemma insertSteps_inv:
  "insertSteps now uuid pid i ss d = Some d' \<Longrightarrow> plan_inv d \<Longrightarrow>
   \<forall>k \<in> set (places (pd_steps d) pid). k < int i \<Longrightarrow> plan_inv d'"
proof (induction ss arbitrary: i d)
  case (Cons s ss)
  from Cons.prems(1) obtain d1 where d1: "insertStep (placedStep now uuid pid i s) d = Some d1"
    and d': "insertSteps now uuid pid (Suc i) ss d1 = Some d'"
    by (auto split: option.splits)
  have "plan_inv d1"
    by (rule insertStep_inv [OF d1 Cons.prems(2)]) (use Cons.prems(3) in \<open>auto simp: placedStep_def\<close>)
  moreover from d1 have "pd_steps d1 = pd_steps d @ [placedStep now uuid pid i s]"
    by (auto simp: insertStep_def split: if_splits)
  then have "\<forall>k \<in> set (places (pd_steps d1) pid). k < int (Suc i)"
    using Cons.prems(3) by (fastforce simp: places_def placedStep_def)
  ultimately show ?case using Cons.IH [OF d'] by blast
qed simp

section \<open>Creating a plan\<close>

text \<open>Nothing happened and no id is given back, or the plan and all its steps are stored in order.\<close>

definition stored_plan :: "int \<Rightarrow> (nat \<Rightarrow> string) \<Rightarrow> plan \<Rightarrow> plan" where
  "stored_plan now uuid p = p\<lparr>pn_id := (if pn_id p = [] then uuid 0 else pn_id p),
     pn_createdAt := Some (case pn_createdAt p of Some t \<Rightarrow> t | None \<Rightarrow> now), pn_updatedAt := Some now\<rparr>"

lemma createPlan_eq:
  "createPlan now uuid commits p ss d =
     (if pn_conversationId p = [] \<or> pn_goal p = [] \<or> ss = [] \<or> \<not> pd_up d then ([], d)
      else case insertPlan (stored_plan now uuid p) d of
        None \<Rightarrow> ([], d)
      | Some d1 \<Rightarrow>
          (case insertSteps now uuid (pn_id (stored_plan now uuid p)) 0 ss d1 of
             None \<Rightarrow> ([], d)
           | Some d2 \<Rightarrow> if commits then (pn_id (stored_plan now uuid p),
               tell [PlanCreated (pn_id (stored_plan now uuid p))] d2) else ([], d)))"
  by (simp add: createPlan_def stored_plan_def [symmetric] Let_def)

lemma createPlan_cases:
  obtains (refused) "createPlan now uuid commits p ss d = ([], d)"
  | (created) d1 d2 where "createPlan now uuid commits p ss d =
       (pn_id (stored_plan now uuid p), tell [PlanCreated (pn_id (stored_plan now uuid p))] d2)"
      "insertPlan (stored_plan now uuid p) d = Some d1"
      "insertSteps now uuid (pn_id (stored_plan now uuid p)) 0 ss d1 = Some d2"
      "pd_up d" "ss \<noteq> []" "commits"
proof (cases "createPlan now uuid commits p ss d = ([], d)")
  case False
  then show thesis
    using created unfolding createPlan_eq by (auto split: if_splits option.splits)
qed (rule refused)

lemma createPlan_inv [inv_intro]:
  assumes "plan_inv d"
  shows "plan_inv (snd (createPlan now uuid commits p ss d))"
proof (cases rule: createPlan_cases [of now uuid commits p ss d])
  case (created d1 d2)
  let ?i = "pn_id (stored_plan now uuid p)"
  from created(2) have d1: "d1 = d\<lparr>pd_plans := pd_plans d @ [stored_plan now uuid p]\<rparr>"
    and fresh: "?i \<notin> pn_id ` set (pd_plans d)"
    by (auto simp: insertPlan_def split: if_splits)
  have "sp_planId s \<noteq> ?i" if "s \<in> set (pd_steps d)" for s
  proof -
    have "sp_planId s \<in> pn_id ` set (pd_plans d)" using plan_invD(5) [OF assms that] by (simp add: step_ok_def)
    with fresh show ?thesis by metis
  qed
  then have "\<forall>s \<in> set (pd_steps d1). sp_planId s \<noteq> ?i" by (simp add: d1)
  then have "places (pd_steps d1) ?i = []" by (simp add: places_def filter_empty_conv)
  then have "plan_inv d2"
    using insertSteps_inv [OF created(3)] insertPlan_inv [OF created(2) assms] by simp
  with created(1) show ?thesis by simp
qed (use assms in simp)

lemma appendStepToPlan_inv [inv_intro]:
  assumes "plan_inv d"
  shows "plan_inv (snd (appendStepToPlan now uuid i s d))"
proof -
  have next_eq: "nextOrdering d i = (if places (pd_steps d) i = [] then -1 else Max (set (places (pd_steps d) i))) + 1"
    by (simp add: nextOrdering_def places_def Let_def)
  have bound: "k < nextOrdering d i" if "k \<in> set (places (pd_steps d) i)" for k
    unfolding next_eq using that Max_ge [of "set (places (pd_steps d) i)" k] by (cases "places (pd_steps d) i") auto
  have "0 \<le> nextOrdering d i"
  proof (cases "places (pd_steps d) i")
    case (Cons k ks)
    then have "k \<in> set (places (pd_steps d) i)" by simp
    then have "0 \<le> k" using plan_invD(5) [OF assms] by (auto simp: places_def step_ok_def)
    with bound [of k] Cons show ?thesis by simp
  qed (simp add: next_eq)
  moreover have "nextOrdering d i \<notin> set (places (pd_steps d) i)" using bound by blast
  ultimately show ?thesis
    using assms by (auto simp: appendStepToPlan_def Let_def split: option.splits elim!: insertStep_inv)
qed

lemma removePlans_inv [inv_intro]:
  assumes d: "plan_inv d"
  shows "plan_inv (removePlans P d)"
proof (rule plan_invI)
  let ?d = "removePlans P d"
  have sub: "set (pd_plans ?d) \<subseteq> set (pd_plans d)" "set (pd_steps ?d) \<subseteq> set (pd_steps d)"
    "set (pd_artifacts ?d) \<subseteq> set (pd_artifacts d)"
    by (auto simp: removePlans_def Let_def)
  show "distinct (map pn_id (pd_plans ?d))" "distinct (map sp_id (pd_steps ?d))" "distinct (map ar_id (pd_artifacts ?d))"
    using plan_invD(1-3) [OF d] by (simp_all add: removePlans_def Let_def distinct_map_filter)
  show "plan_ok (set (map cr_id (pd_convs ?d))) p" if "p \<in> set (pd_plans ?d)" for p
    using plan_invD(4) [OF d] that sub(1) by (auto simp: removePlans_def Let_def)
  show "step_ok (set (map pn_id (pd_plans ?d))) s" if "s \<in> set (pd_steps ?d)" for s
    using plan_invD(5) [OF d, of s] that by (auto simp: removePlans_def Let_def step_ok_def)
  show "artifact_ok (set (map sp_id (pd_steps ?d))) a" if "a \<in> set (pd_artifacts ?d)" for a
    using plan_invD(6) [OF d, of a] that by (auto simp: removePlans_def Let_def artifact_ok_def)
  show "distinct (places (pd_steps ?d) i)" for i
  proof -
    have "places (pd_steps ?d) i = (if i \<in> pn_id ` set (filter P (pd_plans d)) then [] else places (pd_steps d) i)"
      by (auto simp: removePlans_def Let_def places_def filter_empty_conv intro!: arg_cong [where f = "map sp_ordering"]
          filter_cong)
    then show ?thesis using plan_invD(7) [OF d, of i] by simp
  qed
qed

lemma deletions_inv [inv_intro]:
  assumes "plan_inv d"
  shows deletePlansForConversation_inv: "plan_inv (snd (deletePlansForConversation c d))"
    and deletePlan_inv: "plan_inv (snd (deletePlan i d))"
  using assms by (simp_all add: deletePlansForConversation_def deletePlan_def Let_def removePlans_inv)

lemma artifact_updates_inv [inv_intro]:
  assumes "plan_inv d"
  shows addArtifact_inv: "plan_inv (snd (addArtifact now uuid a d))"
    and setArtifactApproval_inv: "plan_inv (snd (setArtifactApproval i approved reasons d))"
proof -
  show "plan_inv (snd (addArtifact now uuid a d))"
    using assms plan_invD(3) [OF assms] plan_invD(6) [OF assms]
    by (auto simp: addArtifact_def Let_def artifact_ok_def intro!: plan_inv_artifacts)
  have "plan_inv (d\<lparr>pd_artifacts := map (\<lambda>a. if ar_id a = i then a\<lparr>ar_approved := approved, ar_criticReasons := reasons\<rparr>
      else a) (pd_artifacts d)\<rparr>)" (is "plan_inv (d\<lparr>pd_artifacts := map ?g _\<rparr>)")
  proof (rule plan_inv_artifacts [OF assms])
    have "map ar_id (map ?g (pd_artifacts d)) = map ar_id (pd_artifacts d)"
      by (rule map_update_column) simp
    then show "distinct (map ar_id (map ?g (pd_artifacts d)))" using plan_invD(3) [OF assms] by metis
    show "artifact_ok (set (map sp_id (pd_steps d))) a" if "a \<in> set (map ?g (pd_artifacts d))" for a
      using that plan_invD(6) [OF assms] by (auto simp: artifact_ok_def)
  qed
  then show "plan_inv (snd (setArtifactApproval i approved reasons d))"
    using assms by (simp add: setArtifactApproval_def)
qed

section \<open>Creating a plan is all or nothing\<close>

text \<open>What a caller has to bring: rows that pass the constraints, and ids nobody uses.\<close>

definition creatable :: "(nat \<Rightarrow> string) \<Rightarrow> plan \<Rightarrow> step list \<Rightarrow> plan_db \<Rightarrow> bool" where
  "creatable uuid p ss d \<longleftrightarrow>
     pd_up d \<and> ss \<noteq> [] \<and> pn_conversationId p \<noteq> [] \<and> plan_ok (cr_id ` set (pd_convs d)) p \<and>
     (\<forall>s \<in> set ss. sp_title s \<noteq> [] \<and> sp_ownerAlias s \<noteq> [] \<and> sp_acceptanceCriteria s \<noteq> [] \<and> sp_id s = []) \<and>
     pn_id p = [] \<and> uuid 0 \<notin> pn_id ` set (pd_plans d) \<and>
     inj uuid \<and> (\<forall>i. uuid i \<notin> sp_id ` set (pd_steps d))"

lemma insertSteps_succeeds:
  "pd_up d \<Longrightarrow> pid \<in> pn_id ` set (pd_plans d) \<Longrightarrow> inj uuid \<Longrightarrow>
   \<forall>s \<in> set ss. sp_title s \<noteq> [] \<and> sp_ownerAlias s \<noteq> [] \<and> sp_acceptanceCriteria s \<noteq> [] \<and> sp_id s = [] \<Longrightarrow>
   \<forall>k \<ge> i. uuid (Suc k) \<notin> sp_id ` set (pd_steps d) \<Longrightarrow> insertSteps now uuid pid i ss d \<noteq> None"
proof (induction ss arbitrary: i d)
  case (Cons s ss)
  let ?d1 = "d\<lparr>pd_steps := pd_steps d @ [placedStep now uuid pid i s]\<rparr>"
  have "insertStep (placedStep now uuid pid i s) d = Some ?d1"
    using Cons.prems by (auto simp: insertStep_def placedStep_def)
  moreover have "insertSteps now uuid pid (Suc i) ss ?d1 \<noteq> None"
    using Cons.prems by (intro Cons.IH) (auto simp: placedStep_def inj_eq)
  ultimately show ?case by simp
qed simp

lemma createPlan_succeeds:
  assumes "creatable uuid p ss d" "commits"
  shows "fst (createPlan now uuid commits p ss d) = uuid 0"
proof -
  let ?p = "stored_plan now uuid p"
  let ?d1 = "d\<lparr>pd_plans := pd_plans d @ [?p]\<rparr>"
  have i: "pn_id ?p = uuid 0" using assms by (simp add: stored_plan_def creatable_def)
  have "insertPlan ?p d = Some ?d1"
    using assms by (simp add: insertPlan_def creatable_def plan_ok_def stored_plan_def)
  moreover have "insertSteps now uuid (uuid 0) 0 ss ?d1 \<noteq> None"
    by (rule insertSteps_succeeds) (use assms i in \<open>auto simp: creatable_def\<close>)
  ultimately show ?thesis using assms by (auto simp: createPlan_eq i creatable_def plan_ok_def)
qed

lemma find_append_None: "find P xs = None \<Longrightarrow> find P (xs @ ys) = find P ys"
  by (induction xs) (auto split: if_splits)

lemma find_append_Some: "find P xs = Some x \<Longrightarrow> find P (xs @ ys) = Some x"
  by (induction xs) (auto split: if_splits)

lemma sort_key_ascending: "sorted (map k xs) \<Longrightarrow> sort_key k xs = xs"
  by (rule sort_key_id_if_sorted)

lemma placed_columns:
  "map sp_ordering (map2 (placedStep now uuid pid) [i..<i + length ss] ss) = map int [i..<i + length ss] \<and>
   (\<forall>s \<in> set (map2 (placedStep now uuid pid) [i..<i + length ss] ss). sp_planId s = pid)"
proof (induction ss arbitrary: i)
  case (Cons s ss)
  from Cons.IH [of "Suc i"] show ?case by (simp add: upt_conv_Cons placedStep_def del: upt_Suc)
qed simp

lemma created_whole:
  assumes d: "plan_inv d" and uuid: "uuid 0 \<noteq> []"
  shows "(case createPlan now uuid commits p ss d of (i, d') \<Rightarrow>
      if i = [] then d' = d
      else getPlan d' i = Some (stored_plan now uuid p) \<and>
           stepsForPlan d' i = map2 (placedStep now uuid i) [0..<length ss] ss \<and>
           (\<forall>j. j \<noteq> i \<longrightarrow> getPlan d' j = getPlan d j \<and> stepsForPlan d' j = stepsForPlan d j)) \<and>
    (creatable uuid p ss d \<and> commits \<longrightarrow> fst (createPlan now uuid commits p ss d) = uuid 0)"
proof (cases rule: createPlan_cases [of now uuid commits p ss d])
  case (created d1 d2)
  let ?p = "stored_plan now uuid p" and ?i = "pn_id (stored_plan now uuid p)"
  let ?new = "map2 (placedStep now uuid ?i) [0..<length ss] ss"
  from created(2) have d1: "d1 = d\<lparr>pd_plans := pd_plans d @ [?p]\<rparr>" and fresh: "?i \<notin> pn_id ` set (pd_plans d)"
    by (auto simp: insertPlan_def split: if_splits)
  from insertSteps_frame [OF created(3)] d1
  have d2: "pd_plans d2 = pd_plans d @ [?p]" "pd_steps d2 = pd_steps d @ ?new" "pd_up d2 = pd_up d" by simp_all
  have new: "map sp_ordering ?new = map int [0..<length ss]" "\<forall>s \<in> set ?new. sp_planId s = ?i"
    using placed_columns [of now uuid ?i 0 ss] by simp_all
  have old: "sp_planId s \<noteq> ?i" if "s \<in> set (pd_steps d)" for s
  proof -
    have "sp_planId s \<in> pn_id ` set (pd_plans d)" using plan_invD(5) [OF d that] by (simp add: step_ok_def)
    with fresh show ?thesis by metis
  qed
  have "find (\<lambda>q. pn_id q = ?i) (pd_plans d) = None" unfolding find_None_iff using fresh by (metis image_eqI)
  then have plan: "getPlan d2 ?i = Some ?p" using d2 created(4) by (simp add: getPlan_def find_append_None)
  have steps: "stepsForPlan d2 ?i = ?new"
  proof -
    have "filter (\<lambda>s. sp_planId s = ?i) (pd_steps d) = []" "filter (\<lambda>s. sp_planId s = ?i) ?new = ?new"
      using old new(2) by (auto simp: filter_empty_conv filter_id_conv)
    moreover have "sorted (map sp_ordering ?new)" unfolding new(1) by (simp add: sorted_iff_nth_mono)
    ultimately show ?thesis using d2 created(4) by (simp add: stepsForPlan_def sort_key_ascending)
  qed
  have other: "getPlan d2 j = getPlan d j \<and> stepsForPlan d2 j = stepsForPlan d j" if "j \<noteq> ?i" for j
  proof -
    have "filter (\<lambda>s. sp_planId s = j) ?new = []" using new(2) that by (auto simp: filter_empty_conv)
    moreover have "find (\<lambda>q. pn_id q = j) (pd_plans d2) = find (\<lambda>q. pn_id q = j) (pd_plans d)"
      using that d2 by (cases "find (\<lambda>q. pn_id q = j) (pd_plans d)")
        (simp_all add: find_append_None find_append_Some)
    ultimately show ?thesis using d2 by (simp add: getPlan_def stepsForPlan_def)
  qed
  have i: "?i \<noteq> []" using uuid by (simp add: stored_plan_def)
  have "getPlan (tell es x) = getPlan x" "stepsForPlan (tell es x) = stepsForPlan x" for es x
    by (simp_all add: fun_eq_iff getPlan_def stepsForPlan_def)
  with created(1) i plan steps other show ?thesis using createPlan_succeeds [of uuid p ss d] by auto
next
  case refused
  then show ?thesis using createPlan_succeeds [of uuid p ss d commits now] uuid by auto
qed

text \<open>
  C20. Creating a plan either gives back no id and changes nothing, not even the signals, or it stores the plan
  with all its steps, numbered from 0 in the order given, and leaves every other plan alone. It succeeds
  whenever the rows satisfy the constraints, the ids are unused and the database works.
\<close>

theorem plan_created_whole_or_not_at_all:
  assumes d: "plan_inv d" and uuid: "uuid 0 \<noteq> []"
  shows "(case createPlan now uuid commits p ss d of (i, d') \<Rightarrow>
      if i = [] then d' = d
      else getPlan d' i = Some (stored_plan now uuid p) \<and>
           stepsForPlan d' i = map2 (placedStep now uuid i) [0..<length ss] ss \<and>
           (\<forall>j. j \<noteq> i \<longrightarrow> getPlan d' j = getPlan d j \<and> stepsForPlan d' j = stepsForPlan d j)) \<and>
    (creatable uuid p ss d \<and> commits \<longrightarrow> fst (createPlan now uuid commits p ss d) = uuid 0)"
  using assms by (rule created_whole)

definition demo_db :: plan_db where
  "demo_db = \<lparr>pd_up = True, pd_convs = [\<lparr>cr_id = ''c'', cr_primaryAgentId = ''ag'', cr_isGroup = False\<rparr>],
     pd_members = [], pd_projectMembers = [], pd_plans = [], pd_steps = [], pd_artifacts = [], pd_out = []\<rparr>"

definition demo_plan :: plan where
  "demo_plan = new_plan\<lparr>pn_conversationId := ''c'', pn_goal := ''write it'', pn_startedBy := ''ann'',
     pn_status := PlanExecuting\<rparr>"

definition demo_step :: "string \<Rightarrow> step" where
  "demo_step owner = new_step\<lparr>sp_title := ''draft'', sp_ownerAlias := owner, sp_acceptanceCriteria := ''a text''\<rparr>"

definition demo_uuid :: "nat \<Rightarrow> string" where
  "demo_uuid i = replicate (Suc i) CHR ''u''"

lemma demo_db_inv: "plan_inv demo_db"
  by (simp add: demo_db_def plan_inv_def places_def)

theorem plan_created_whole_or_not_at_all_witness:
  "plan_inv demo_db \<and> demo_uuid 0 \<noteq> [] \<and> creatable demo_uuid demo_plan [demo_step ''ann'', demo_step ''bob''] demo_db \<and>
   getPlan (snd (createPlan 7 demo_uuid True demo_plan [demo_step ''ann'', demo_step ''bob''] demo_db)) (demo_uuid 0) =
     Some (stored_plan 7 demo_uuid demo_plan)"
proof -
  let ?r = "createPlan 7 demo_uuid True demo_plan [demo_step ''ann'', demo_step ''bob''] demo_db"
  have c: "creatable demo_uuid demo_plan [demo_step ''ann'', demo_step ''bob''] demo_db"
    by (auto simp: creatable_def demo_db_def demo_plan_def demo_step_def demo_uuid_def new_plan_def new_step_def
        plan_ok_def inj_def replicate_eq_replicate)
  have u: "demo_uuid 0 \<noteq> []" by (simp add: demo_uuid_def)
  from plan_created_whole_or_not_at_all [where uuid = demo_uuid, OF demo_db_inv u,
      where now = 7 and commits = True and p = demo_plan and ss = "[demo_step ''ann'', demo_step ''bob'']"] c
  show ?thesis using demo_db_inv u by (auto split: prod.splits)
qed

end
