(* ===== verification/Task_Runner.thy ===== *)
theory Task_Runner
  imports Plan_Service
begin

text \<open>
  The task runner (backend/services/task-runner.cpp) and the task gate with its active-plan anchor
  (task-gate-service.cpp), over the plan service. The gate listens to the plan service's status signal,
  which is delivered during the call that emits it: \<open>setPlanStatus\<close> is the service's update followed
  by the gate's slot. What is posted into the chat is recorded in \<open>tk_events\<close> in order, what is
  handed to the enqueue callback in \<open>tk_queue\<close>. The services are attached (AppController does so at
  startup). One reading of the clock serves a whole operation. The pictograph that starts the text of an
  event is left out. The map of heartbeat times is only ever erased from and is left out.
\<close>

section \<open>State\<close>

record dispatch =
  ds_convId :: string
  ds_ownerAlias :: string
  ds_planId :: string
  ds_stepId :: string
  ds_reason :: string

datatype task_event =
    RunnerEvent string string string
  | GateEvent string string string
  | Receipt string string

record tasks =
  tk_db :: plan_db
  tk_anchor :: string
  tk_progress :: "(string \<times> int) list"
  tk_enqueue :: bool
  tk_queue :: "dispatch list"
  tk_events :: "task_event list"

definition kMaxPlanWallClockMs :: int where
  "kMaxPlanWallClockMs = 30 * 60 * 1000"

definition kMaxStepsPerPlan :: nat where
  "kMaxStepsPerPlan = 15"

section \<open>The anchor and the status signal\<close>

definition onPlanStatusChanged :: "string \<Rightarrow> plan_status \<Rightarrow> tasks \<Rightarrow> tasks" where
  "onPlanStatusChanged planId st t =
     (if planId \<noteq> tk_anchor t then t
      else if st = PlanCompleted \<or> st = PlanFailed then t\<lparr>tk_anchor := []\<rparr> else t)"

definition setPlanStatus :: "int \<Rightarrow> string \<Rightarrow> plan_status \<Rightarrow> tasks \<Rightarrow> bool \<times> tasks" where
  "setPlanStatus now planId st t =
     (let (ok, d) = updatePlanStatus now planId st (tk_db t); t1 = t\<lparr>tk_db := d\<rparr>
      in (ok, if ok then onPlanStatusChanged planId st t1 else t1))"

definition setStepStatus :: "int \<Rightarrow> string \<Rightarrow> step_status \<Rightarrow> string \<Rightarrow> tasks \<Rightarrow> tasks" where
  "setStepStatus now stepId st reason t = t\<lparr>tk_db := snd (updateStepStatus now stepId st reason (tk_db t))\<rparr>"

definition setActivePlanId :: "string \<Rightarrow> tasks \<Rightarrow> tasks" where
  "setActivePlanId planId t = t\<lparr>tk_anchor := planId\<rparr>"

definition clearActivePlan :: "tasks \<Rightarrow> tasks" where
  "clearActivePlan t = t\<lparr>tk_anchor := []\<rparr>"

definition hasActivePlan :: "tasks \<Rightarrow> bool" where
  "hasActivePlan t \<longleftrightarrow> tk_anchor t \<noteq> []"

definition postRunnerEvent :: "string \<Rightarrow> string \<Rightarrow> string \<Rightarrow> tasks \<Rightarrow> tasks" where
  "postRunnerEvent convId eventType txt t = t\<lparr>tk_events := tk_events t @ [RunnerEvent convId txt eventType]\<rparr>"

definition postGateEvent :: "string \<Rightarrow> string \<Rightarrow> string \<Rightarrow> tasks \<Rightarrow> tasks" where
  "postGateEvent convId eventType txt t = t\<lparr>tk_events := tk_events t @ [GateEvent convId txt eventType]\<rparr>"

definition recordProgress :: "int \<Rightarrow> string \<Rightarrow> tasks \<Rightarrow> tasks" where
  "recordProgress now planId t =
     (if planId = [] then t else t\<lparr>tk_progress := AList.update planId now (tk_progress t)\<rparr>)"

section \<open>The loop that advances a plan\<close>

definition actionable :: "step \<Rightarrow> bool" where
  "actionable s \<longleftrightarrow> sp_status s = StepPending \<or> sp_status s = StepInProgress \<or> sp_status s = StepNeedsRework"

definition ownedByUser :: "step \<Rightarrow> bool" where
  "ownedByUser s \<longleftrightarrow> eqCI (sp_ownerAlias s) ''user'' \<or> eqCI (sp_ownerAlias s) ''owner''"

definition needsUserText :: string where
  "needsUserText = ''The agent assigned this step to you. When you have finished it, use Mark Done in the Plans overlay, or use Skip to drop it.''"

definition blockForUser :: "int \<Rightarrow> string \<Rightarrow> step \<Rightarrow> tasks \<Rightarrow> tasks" where
  "blockForUser now convId s t =
     postRunnerEvent convId ''step_blocked''
       (''Step \"'' @ sp_title s @ ''\" requires you. Open the Plans overlay to Mark Done or Skip.'')
       (setStepStatus now (sp_id s) StepBlocked needsUserText t)"

definition enqueue :: "string \<Rightarrow> string \<Rightarrow> string \<Rightarrow> step \<Rightarrow> tasks \<Rightarrow> tasks" where
  "enqueue planId convId reason s t =
     t\<lparr>tk_queue := tk_queue t @ [\<lparr>ds_convId = convId, ds_ownerAlias = sp_ownerAlias s, ds_planId = planId,
         ds_stepId = sp_id s, ds_reason = reason\<rparr>]\<rparr>"

fun dispatchLoop :: "int \<Rightarrow> string \<Rightarrow> string \<Rightarrow> string \<Rightarrow> step list \<Rightarrow> tasks \<Rightarrow> bool \<times> tasks" where
  "dispatchLoop now planId convId reason [] t = (False, t)"
| "dispatchLoop now planId convId reason (s # ss) t =
     (if \<not> actionable s then dispatchLoop now planId convId reason ss t
      else if ownedByUser s then dispatchLoop now planId convId reason ss (blockForUser now convId s t)
      else if tk_enqueue t then (True, enqueue planId convId reason s t)
      else dispatchLoop now planId convId reason ss t)"

definition dispatchNextPendingStep :: "int \<Rightarrow> string \<Rightarrow> string \<Rightarrow> string \<Rightarrow> tasks \<Rightarrow> bool \<times> tasks" where
  "dispatchNextPendingStep now planId convId reason t =
     dispatchLoop now planId convId reason (stepsForPlan (tk_db t) planId) t"

definition advancePlan :: "int \<Rightarrow> string \<Rightarrow> string \<Rightarrow> tasks \<Rightarrow> tasks" where
  "advancePlan now planId convId t =
     (case getPlan (tk_db t) planId of
        None \<Rightarrow> t
      | Some p \<Rightarrow>
          if now - toMSecs (pn_createdAt p) > kMaxPlanWallClockMs then
            postRunnerEvent convId ''plan_failed'' ''Task failed: it ran past its time limit.''
              (snd (setPlanStatus now planId PlanFailed t))
          else
            let (dispatched, t1) = dispatchNextPendingStep now planId convId ''initial'' t in
            if dispatched then t1
            else
              let steps = stepsForPlan (tk_db t1) planId;
                  anyBlocked = (\<exists>s \<in> set steps. sp_status s = StepBlocked);
                  allDone = (\<forall>s \<in> set steps. sp_status s = StepDone)
              in if allDone then
                   postRunnerEvent convId ''plan_completed'' (''Task completed: '' @ pn_goal p)
                     (snd (setPlanStatus now planId PlanCompleted t1))
                 else if anyBlocked then
                   postRunnerEvent convId ''plan_blocked''
                     ''Task blocked on one or more steps. @owner, your input is needed.''
                     (snd (setPlanStatus now planId PlanBlocked t1))
                 else t1)"

section \<open>Entry points of the runner\<close>

definition defaultStep :: "string \<Rightarrow> string \<Rightarrow> step" where
  "defaultStep callerAlias goal = new_step\<lparr>sp_title := take 80 goal, sp_description := goal,
     sp_ownerAlias := (if callerAlias = [] then ''user'' else callerAlias),
     sp_acceptanceCriteria := ''Produce a concrete artifact that addresses: '' @ take 200 goal\<rparr>"

definition taskSteps :: "string \<Rightarrow> string \<Rightarrow> step list \<Rightarrow> step list" where
  "taskSteps callerAlias goal stepsIn =
     take kMaxStepsPerPlan (if stepsIn = [] then [defaultStep callerAlias goal] else stepsIn)"

definition taskPlan :: "string \<Rightarrow> string \<Rightarrow> string \<Rightarrow> string \<Rightarrow> string \<Rightarrow> plan" where
  "taskPlan convId callerAlias goal projectFolderId orgFolderId =
     new_plan\<lparr>pn_conversationId := convId, pn_projectFolderId := projectFolderId,
       pn_organizationFolderId := orgFolderId, pn_goal := trimmed goal,
       pn_startedBy := (if callerAlias = [] then ''user'' else callerAlias), pn_status := PlanExecuting\<rparr>"

definition startTaskFromToolCall ::
    "int \<Rightarrow> (nat \<Rightarrow> string) \<Rightarrow> bool \<Rightarrow> string \<Rightarrow> string \<Rightarrow> string \<Rightarrow> step list \<Rightarrow> string \<Rightarrow> string \<Rightarrow> tasks \<Rightarrow> string \<times> tasks" where
  "startTaskFromToolCall now uuid commits convId callerAlias goal stepsIn projectFolderId orgFolderId t =
     (if convId = [] \<or> length (trimmed goal) < 5 then ([], t)
      else
        let p = taskPlan convId callerAlias goal projectFolderId orgFolderId;
            (planId, d) = createPlan now uuid commits p (taskSteps callerAlias goal stepsIn) (tk_db t);
            t1 = t\<lparr>tk_db := d\<rparr>
        in if planId = [] then ([], t1)
           else (planId, postRunnerEvent convId ''started'' (''Task started: '' @ pn_goal p)
                  (recordProgress now planId t1)))"

text \<open>The step and its plan, when both exist: what most entry points start with.\<close>

definition stepAndPlan :: "tasks \<Rightarrow> string \<Rightarrow> (step \<times> plan) option" where
  "stepAndPlan t stepId =
     (case getStep (tk_db t) stepId of
        None \<Rightarrow> None
      | Some s \<Rightarrow> (case getPlan (tk_db t) (sp_planId s) of None \<Rightarrow> None | Some p \<Rightarrow> Some (s, p)))"

definition submittedArtifact :: "string \<Rightarrow> artifact_type \<Rightarrow> string \<Rightarrow> string \<Rightarrow> string \<Rightarrow> artifact" where
  "submittedArtifact stepId type content summary alias =
     new_artifact\<lparr>ar_stepId := stepId, ar_type := type,
       ar_filePath := (if type = FileArtifact then content else []),
       ar_content := (if type = FileArtifact then [] else content),
       ar_summary := summary, ar_submittedByAlias := alias\<rparr>"

definition handleSubmitResult ::
    "int \<Rightarrow> string \<Rightarrow> string \<Rightarrow> artifact_type \<Rightarrow> string \<Rightarrow> string \<Rightarrow> string \<Rightarrow> tasks \<Rightarrow> bool \<times> tasks" where
  "handleSubmitResult now uuid stepId type content summary alias t =
     (case stepAndPlan t stepId of
        None \<Rightarrow> (False, t)
      | Some (s, p) \<Rightarrow>
          let t1 = recordProgress now (pn_id p) t;
              (artifactId, d) = addArtifact now uuid (submittedArtifact stepId type content summary alias) (tk_db t1);
              t2 = t1\<lparr>tk_db := d\<rparr>
          in if artifactId = [] then (False, t2)
             else
               let t3 = setStepStatus now stepId StepSubmitted [] t2;
                   t4 = t3\<lparr>tk_db := snd (setArtifactApproval artifactId 1 [] (tk_db t3))\<rparr>;
                   t5 = setStepStatus now stepId StepDone [] t4;
                   t6 = snd (setPlanStatus now (pn_id p) PlanCompleted t5);
                   t7 = postRunnerEvent (pn_conversationId p) ''step_done''
                          (''@'' @ alias @ '' completed step \"'' @ sp_title s @ ''\": '' @ summary) t6
               in (True, postRunnerEvent (pn_conversationId p) ''plan_completed'' (''Task completed: '' @ pn_goal p) t7))"

definition handleReportBlocked :: "int \<Rightarrow> string \<Rightarrow> string \<Rightarrow> tasks \<Rightarrow> bool \<times> tasks" where
  "handleReportBlocked now stepId reason t =
     (case stepAndPlan t stepId of
        None \<Rightarrow> (False, t)
      | Some (s, p) \<Rightarrow>
          (True, postRunnerEvent (pn_conversationId p) ''step_blocked''
             (''@'' @ sp_ownerAlias s @ '' is blocked on \"'' @ sp_title s @ ''\": '' @ reason @
              ''. This step needs your input.'')
             (snd (setPlanStatus now (pn_id p) PlanBlocked (setStepStatus now stepId StepBlocked reason t)))))"

definition handleStopTask :: "int \<Rightarrow> string \<Rightarrow> string \<Rightarrow> tasks \<Rightarrow> bool \<times> tasks" where
  "handleStopTask now planId reason t =
     (case getPlan (tk_db t) planId of
        None \<Rightarrow> (False, t)
      | Some p \<Rightarrow>
          (True, postRunnerEvent (pn_conversationId p) ''plan_failed''
             (''Task stopped: '' @ pn_goal p @ '' (reason: '' @ reason @ '')'')
             (snd (setPlanStatus now planId PlanFailed t))))"

definition handleUpdatePlanStep :: "int \<Rightarrow> string \<Rightarrow> string \<Rightarrow> tasks \<Rightarrow> bool \<times> tasks" where
  "handleUpdatePlanStep now stepId notes t =
     (case stepAndPlan t stepId of
        None \<Rightarrow> (False, t)
      | Some (s, p) \<Rightarrow>
          (True, postRunnerEvent (pn_conversationId p) ''step_progress''
             (''@'' @ sp_ownerAlias s @ '' working on \"'' @ sp_title s @ ''\": '' @ notes)
             (setStepStatus now stepId (sp_status s) notes t)))"

definition userRetryStep :: "int \<Rightarrow> string \<Rightarrow> string \<Rightarrow> tasks \<Rightarrow> bool \<times> tasks" where
  "userRetryStep now stepId userNote t =
     (case stepAndPlan t stepId of
        None \<Rightarrow> (False, t)
      | Some (s, p) \<Rightarrow>
          let note = (if trimmed userNote = [] then ''User asked to retry this step'' else trimmed userNote);
              (ok, d) = resetStepForRetry now stepId note (tk_db t);
              t1 = t\<lparr>tk_db := d\<rparr>
          in if \<not> ok then (False, t1)
             else
               let t2 = (if pn_status p = PlanBlocked \<or> pn_status p = PlanFailed
                         then snd (setPlanStatus now (pn_id p) PlanExecuting t1) else t1);
                   t3 = postRunnerEvent (pn_conversationId p) ''step_retry''
                          (''User asked @'' @ sp_ownerAlias s @ '' to retry step \"'' @ sp_title s @ ''\". Note: '' @ note)
                          (recordProgress now (pn_id p) t2)
               in (True, if tk_enqueue t3 then enqueue (pn_id p) (pn_conversationId p) ''user_retry'' s t3 else t3))"

definition userOverrideStepAsDone :: "int \<Rightarrow> string \<Rightarrow> tasks \<Rightarrow> bool \<times> tasks" where
  "userOverrideStepAsDone now stepId t =
     (case stepAndPlan t stepId of
        None \<Rightarrow> (False, t)
      | Some (s, p) \<Rightarrow>
          (True, advancePlan now (pn_id p) (pn_conversationId p)
             (postRunnerEvent (pn_conversationId p) ''step_override''
               (''User marked step \"'' @ sp_title s @ ''\" as done (override)'')
               (setStepStatus now stepId StepDone ''Manually marked done by user'' t))))"

definition userSkipStep :: "int \<Rightarrow> string \<Rightarrow> string \<Rightarrow> tasks \<Rightarrow> bool \<times> tasks" where
  "userSkipStep now stepId reason t =
     (case stepAndPlan t stepId of
        None \<Rightarrow> (False, t)
      | Some (s, p) \<Rightarrow>
          let skipReason = (if trimmed reason = [] then ''Skipped by user''
                            else ''Skipped by user: '' @ trimmed reason);
              t1 = setStepStatus now stepId StepDone skipReason t;
              t2 = (if pn_status p = PlanBlocked then snd (setPlanStatus now (pn_id p) PlanExecuting t1) else t1);
              t3 = postRunnerEvent (pn_conversationId p) ''step_skipped''
                     (skipReason @ '' (step \"'' @ sp_title s @ ''\")'') t2
          in (True, advancePlan now (pn_id p) (pn_conversationId p) t3))"

definition onIntermediateToolExecuted :: "int \<Rightarrow> string \<Rightarrow> tasks \<Rightarrow> tasks" where
  "onIntermediateToolExecuted now planId t = (if planId \<noteq> [] then recordProgress now planId t else t)"

definition onConversationDeletedTasks :: "string \<Rightarrow> tasks \<Rightarrow> tasks" where
  "onConversationDeletedTasks convId t =
     (let plans = plansForConversation (tk_db t) convId in
      t\<lparr>tk_progress := fold (\<lambda>p. AList.delete (pn_id p)) plans (tk_progress t),
        tk_db := snd (deletePlansForConversation convId (tk_db t))\<rparr>)"

section \<open>Entry points of the gate\<close>

text \<open>The first step of the plan, as every turn-end handler takes it.\<close>

definition markFirstStep :: "int \<Rightarrow> string \<Rightarrow> step_status \<Rightarrow> string \<Rightarrow> tasks \<Rightarrow> tasks" where
  "markFirstStep now planId st reason t =
     (case stepsForPlan (tk_db t) planId of
        [] \<Rightarrow> t
      | s # _ \<Rightarrow> setStepStatus now (sp_id s) st reason t)"

definition applyDeclaredStatus :: "int \<Rightarrow> string \<Rightarrow> string \<Rightarrow> tasks \<Rightarrow> tasks" where
  "applyDeclaredStatus now declared convId t =
     (if tk_anchor t = [] \<or> declared = [] then t
      else
        let planId = tk_anchor t in
        case getPlan (tk_db t) planId of
          None \<Rightarrow> t
        | Some p \<Rightarrow>
            if declared = ''completed'' then
              clearActivePlan (postGateEvent convId ''plan_completed'' (''Task completed: '' @ pn_goal p)
                (snd (setPlanStatus now planId PlanCompleted
                  (markFirstStep now planId StepDone ''The model marked this step as completed.'' t))))
            else if declared = ''blocked'' then
              clearActivePlan (postGateEvent convId ''plan_blocked'' (''Task blocked: '' @ pn_goal p)
                (snd (setPlanStatus now planId PlanBlocked
                  (markFirstStep now planId StepBlocked ''The model marked this step as blocked.'' t))))
            else t)"

definition applyImplicitCompletion :: "int \<Rightarrow> string \<Rightarrow> string \<Rightarrow> int \<Rightarrow> string \<Rightarrow> tasks \<Rightarrow> tasks" where
  "applyImplicitCompletion now declared finishReason toolIterationCount convId t =
     (if tk_anchor t = [] \<or> declared \<noteq> [] \<or> finishReason \<noteq> ''stop'' \<or> toolIterationCount \<le> 0 then t
      else
        let planId = tk_anchor t in
        case getPlan (tk_db t) planId of
          None \<Rightarrow> t
        | Some p \<Rightarrow>
            if pn_status p = PlanCompleted \<or> pn_status p = PlanFailed then t
            else
              clearActivePlan (postGateEvent convId ''plan_completed'' (''Task completed: '' @ pn_goal p)
                (snd (setPlanStatus now planId PlanCompleted
                  (markFirstStep now planId StepDone
                    ''Marked done automatically: the tool calls ran and no further reply followed'' t)))))"

definition handleUserCancel :: "int \<Rightarrow> tasks \<Rightarrow> tasks" where
  "handleUserCancel now t =
     (if tk_anchor t = [] then t
      else clearActivePlan (snd (handleStopTask now (tk_anchor t) ''Cancelled by user'' t)))"

definition resumable :: "plan \<Rightarrow> bool" where
  "resumable p \<longleftrightarrow> pn_status p = PlanExecuting \<or> pn_status p = PlanPlanning"

definition onConversationSwitched :: "string \<Rightarrow> tasks \<Rightarrow> tasks" where
  "onConversationSwitched newConvId t =
     (let t1 = clearActivePlan t in
      if newConvId = [] then t1
      else case find resumable (activePlansForConversation (tk_db t1) newConvId) of
        None \<Rightarrow> t1
      | Some p \<Rightarrow> setActivePlanId (pn_id p) t1)"

end
