(* ===== verification/Task_Tools.thy ===== *)
theory Task_Tools
  imports Task_Runner Membership Message_Service
begin

text \<open>
  The task tools and the user's task commands (backend/services/task-controller.cpp). What the handlers
  read from the other services is an argument: the conversation, its chain of folders, its members and
  those of its project, the agents by id, the responder of the current turn and the active conversation.
  The membership service and the agent registry are attached. A reply is the JSON object the handler
  returns.
\<close>

section \<open>What the handlers read\<close>

record conv_info =
  ci_isGroup :: bool
  ci_primaryAgentId :: string
  ci_folderId :: string

record task_env =
  te_conversation :: "string \<Rightarrow> conv_info option"
  te_folderChain :: "string \<Rightarrow> (string \<times> string) list"
  te_members :: "string \<Rightarrow> member list"
  te_projectMembers :: "string \<Rightarrow> member list"
  te_agentName :: "string \<Rightarrow> string option"
  te_responder :: string
  te_activeConv :: string

definition toArray :: "json option \<Rightarrow> json list" where
  "toArray v = (case v of Some (JArr xs) \<Rightarrow> xs | _ \<Rightarrow> [])"

definition text_arg :: "json_object \<Rightarrow> string \<Rightarrow> string" where
  "text_arg args k = toString (member_of args k)"

definition failure :: "string \<Rightarrow> json_object" where
  "failure txt = [(''error'', JStr txt)]"

text \<open>The first project and the first organization on the chain: pairs of an id and a folder type.\<close>

definition scopeOf :: "(string \<times> string) list \<Rightarrow> string \<times> string" where
  "scopeOf chain = fold (\<lambda>(i, ty) (proj, org).
     if ty = ''project'' \<and> proj = [] then (i, org)
     else if ty = ''organization'' \<and> org = [] then (proj, i) else (proj, org)) chain ([], [])"

text \<open>The alias of the agent on the roster of the project, else the agent's name.\<close>

definition projectAlias :: "task_env \<Rightarrow> conv_info \<Rightarrow> string" where
  "projectAlias env ci =
     (if ci_folderId ci = [] then []
      else case find (\<lambda>m. mb_agentId m = ci_primaryAgentId ci) (te_projectMembers env (ci_folderId ci)) of
        Some m \<Rightarrow> mb_alias m | None \<Rightarrow> [])"

definition agentAlias :: "task_env \<Rightarrow> conv_info \<Rightarrow> string" where
  "agentAlias env ci =
     (let a = projectAlias env ci in
      if a = [] \<and> ci_primaryAgentId ci \<noteq> []
      then (case te_agentName env (ci_primaryAgentId ci) of Some n \<Rightarrow> n | None \<Rightarrow> []) else a)"

section \<open>start_task\<close>

definition registerAlias :: "string \<Rightarrow> (string \<times> string) list \<Rightarrow> (string \<times> string) list" where
  "registerAlias canonical h =
     (if canonical = [] then h
      else AList.update (toLower canonical) canonical
        (AList.update (toLower (replaceC CHR '' '' CHR ''_'' (trimmed canonical))) canonical h))"

definition ownerOf :: "task_env \<Rightarrow> string \<Rightarrow> conv_info \<Rightarrow> string" where
  "ownerOf env c ci =
     (if ci_isGroup ci then
        if te_responder env \<noteq> [] \<and>
           (\<exists>m \<in> set (te_members env c). mb_alias m \<noteq> [] \<and> eqCI (mb_alias m) (te_responder env))
        then te_responder env
        else let def = defaultResponderForConversation (te_members env c) in if isValid def then mb_alias def else []
      else
        let a = agentAlias env ci in
        if a \<noteq> [] then a else if te_responder env = [] then ''assistant'' else te_responder env)"

definition aliasTable :: "task_env \<Rightarrow> string \<Rightarrow> conv_info \<Rightarrow> (string \<times> string) list" where
  "aliasTable env c ci =
     (if ci_isGroup ci then fold (\<lambda>m. registerAlias (mb_alias m)) (te_members env c) []
      else registerAlias (ownerOf env c ci) [])"

definition dropSigil :: "string \<Rightarrow> string" where
  "dropSigil s = (if startsWith s ''@'' then tl s else s)"

definition canonicalAlias :: "(string \<times> string) list \<Rightarrow> string \<Rightarrow> string" where
  "canonicalAlias h raw =
     (if raw = [] then []
      else
        let stripped = dropSigil (trimmed raw) in
        case map_of h (toLower stripped) of
          Some a \<Rightarrow> a
        | None \<Rightarrow> valueOr h (toLower (replaceC CHR '' '' CHR ''_'' stripped)) [])"

text \<open>\<open>None\<close> when a step has no title or no acceptance criteria.\<close>

fun parseSteps :: "(string \<times> string) list \<Rightarrow> string \<Rightarrow> json list \<Rightarrow> step list option" where
  "parseSteps h owner [] = Some []"
| "parseSteps h owner (v # vs) =
     (let ob = toObject (Some v);
          title = trimmed (text_arg ob ''title'');
          criteria = trimmed (text_arg ob ''acceptance_criteria'');
          canonical = canonicalAlias h (dropSigil (trimmed (text_arg ob ''owner_alias'')))
      in if title = [] \<or> criteria = [] then None
         else map_option ((#) (new_step\<lparr>sp_title := title, sp_description := text_arg ob ''description'',
                sp_acceptanceCriteria := criteria,
                sp_ownerAlias := (if canonical = [] then owner else canonical)\<rparr>)) (parseSteps h owner vs))"

definition already_active :: "string \<Rightarrow> string \<Rightarrow> json_object" where
  "already_active planId goal =
     [(''plan_id'', JStr planId), (''status'', JStr ''already_active''), (''goal'', JStr goal),
      (''instruction'', JStr (''A task is already active for this conversation. The plan row is created '' @
         ''- your job now is to actually DO the work described by the goal. Use whatever tools you need '' @
         ''(write_file, search_web, read_file, etc.), and when you\\'re ready, produce your answer as your '' @
         ''normal chat reply. The goal to complete is: \"'' @ goal @
         ''\". Proceed now - do NOT call start_task again.''))]"

text \<open>The plan the anchor names, while it is neither completed nor failed.\<close>

definition anchoredOpenPlan :: "tasks \<Rightarrow> plan option" where
  "anchoredOpenPlan t =
     (if tk_anchor t = [] then None
      else case getPlan (tk_db t) (tk_anchor t) of
        None \<Rightarrow> None
      | Some p \<Rightarrow> if pn_status p \<noteq> PlanCompleted \<and> pn_status p \<noteq> PlanFailed then Some p else None)"

definition startTaskTool ::
    "int \<Rightarrow> (nat \<Rightarrow> string) \<Rightarrow> bool \<Rightarrow> task_env \<Rightarrow> json_object \<Rightarrow> tasks \<Rightarrow> json_object \<times> tasks" where
  "startTaskTool now uuid commits env args t =
     (let goal = trimmed (text_arg args ''goal'') in
      if length goal < 5 then (failure ''goal is required (min 5 chars)'', t)
      else
        case anchoredOpenPlan t of
          Some p \<Rightarrow> (already_active (tk_anchor t) (pn_goal p), t)
        | None \<Rightarrow>
            let t1 = clearActivePlan t; c = te_activeConv env in
            case te_conversation env c of
              None \<Rightarrow> (failure ''no active conversation'', t1)
            | Some ci \<Rightarrow>
                let owner = ownerOf env c ci in
                case parseSteps (aliasTable env c ci) owner (toArray (member_of args ''steps'')) of
                  None \<Rightarrow> (failure ''each step needs title and acceptance_criteria'', t1)
                | Some steps \<Rightarrow>
                    let (projectId, orgId) = scopeOf (te_folderChain env c);
                        caller = (if te_responder env = [] then owner else te_responder env);
                        (planId, t2) = startTaskFromToolCall now uuid commits c caller goal steps projectId orgId t1
                    in if planId = [] then (failure ''Failed to create plan'', t2)
                       else ([(''plan_id'', JStr planId), (''status'', JStr ''created''),
                              (''steps'', JNum (int (length steps))),
                              (''note'', JStr (''Plan created and tagged to this conversation. Now do the work '' @
                                 ''- use tools as needed. Do NOT call start_task again for this task.''))],
                             setActivePlanId planId t2))"

section \<open>get_task_status, stop_task, complete_task\<close>

definition stepSummary :: "step \<Rightarrow> json" where
  "stepSummary s = JObj [(''id'', JStr (sp_id s)), (''title'', JStr (sp_title s)),
     (''owner_alias'', JStr (sp_ownerAlias s)), (''status'', JStr (stepStatusToString (sp_status s)))]"

definition getTaskStatusTool :: "task_env \<Rightarrow> json_object \<Rightarrow> tasks \<Rightarrow> json_object" where
  "getTaskStatusTool env args t =
     (let planId = (if text_arg args ''task_id'' = [] then text_arg args ''plan_id'' else text_arg args ''task_id'') in
      if planId \<noteq> [] then
        case getPlan (tk_db t) planId of
          None \<Rightarrow> failure ''plan not found''
        | Some p \<Rightarrow> [(''plans'', JArr [JObj [(''id'', JStr (pn_id p)), (''goal'', JStr (pn_goal p)),
              (''status'', JStr (planStatusToString (pn_status p))),
              (''steps'', JArr (map stepSummary (stepsForPlan (tk_db t) planId)))]])]
      else
        let (projectId, orgId) =
              (if te_activeConv env = [] then ([], []) else scopeOf (te_folderChain env (te_activeConv env)))
        in [(''plans'', JArr (map (\<lambda>p. JObj [(''id'', JStr (pn_id p)), (''goal'', JStr (pn_goal p)),
               (''status'', JStr (planStatusToString (pn_status p))),
               (''home_conversation_id'', JStr (pn_conversationId p))])
             (activePlansForOwnerInScope (tk_db t) (te_responder env) projectId orgId)))])"

definition stopTaskTool :: "int \<Rightarrow> json_object \<Rightarrow> tasks \<Rightarrow> json_object \<times> tasks" where
  "stopTaskTool now args t =
     (let asked = text_arg args ''plan_id'';
          planId = (if tk_anchor t \<noteq> [] then tk_anchor t else asked)
      in if tk_anchor t = [] \<and> asked \<noteq> [] \<and> getPlan (tk_db t) asked = None
         then (failure (''stop_task: plan_id '' @ asked @ '' not found''), t)
         else
           let (ok, t1) = handleStopTask now planId (text_arg args ''reason'') t in
           if \<not> ok then (failure ''plan not found'', t1)
           else ([(''plan_id'', JStr planId), (''status'', JStr ''stopped'')],
                 if tk_anchor t1 = planId then clearActivePlan t1 else t1))"

definition closeOutline :: "int \<Rightarrow> string \<Rightarrow> tasks \<Rightarrow> tasks" where
  "closeOutline now planId t =
     fold (\<lambda>s t. if sp_status s \<noteq> StepDone
                 then setStepStatus now (sp_id s) StepDone ''Closed when the task was completed.'' t else t)
       (stepsForPlan (tk_db t) planId) t"

text \<open>The task to close: the anchored one, else the newest open one of the conversation, else the one
  asked for.\<close>

definition taskToClose :: "task_env \<Rightarrow> json_object \<Rightarrow> tasks \<Rightarrow> string" where
  "taskToClose env args t =
     (if tk_anchor t \<noteq> [] then tk_anchor t
      else
        let asked = trimmed (text_arg args ''__caller_conv_id'');
            c = (if asked = [] then te_activeConv env else asked)
        in case (if c = [] then None else find resumable (activePlansForConversation (tk_db t) c)) of
             Some p \<Rightarrow> pn_id p
           | None \<Rightarrow> trimmed (text_arg args ''plan_id''))"

definition completeTaskTool :: "int \<Rightarrow> task_env \<Rightarrow> json_object \<Rightarrow> tasks \<Rightarrow> json_object \<times> tasks" where
  "completeTaskTool now env args t =
     (let planId = taskToClose env args t in
      if planId = [] \<or> getPlan (tk_db t) planId = None
      then (failure ''complete_task: no active task to complete'', t)
      else
        let closer = (if te_responder env = [] then ''assistant'' else te_responder env);
            (ok, t1) = setPlanStatus now planId PlanCompleted t
        in if \<not> ok then (failure ''complete_task: failed to mark completed'', t1)
           else
             let t2 = closeOutline now planId t1;
                 goal = (case getPlan (tk_db t2) planId of Some p \<Rightarrow> pn_goal p | None \<Rightarrow> []);
                 t3 = (if tk_anchor t2 = planId then clearActivePlan t2 else t2);
                 reason = trimmed (text_arg args ''reason'');
                 txt = ''Task completed by @'' @ closer @ (if goal \<noteq> [] then '': '' @ goal else []) @
                       (if reason \<noteq> [] then '' ('' @ reason @ '')'' else []);
                 t4 = (if te_activeConv env \<noteq> []
                       then t3\<lparr>tk_events := tk_events t3 @ [Receipt (te_activeConv env) txt]\<rparr> else t3)
             in ([(''plan_id'', JStr planId), (''status'', JStr ''completed''), (''completed_by'', JStr closer)], t4))"

section \<open>Commands of the user\<close>

definition isMentionC :: "char \<Rightarrow> bool" where
  "isMentionC c = isWordC c"

text \<open>The first match of \<open>@([A-Za-z0-9_]+)\<close>.\<close>

fun firstMention :: "string \<Rightarrow> string option" where
  "firstMention [] = None"
| "firstMention (c # cs) =
     (if c = CHR ''@'' \<and> takeWhile isMentionC cs \<noteq> [] then Some (takeWhile isMentionC cs) else firstMention cs)"

definition reservedMentions :: "string list" where
  "reservedMentions = [''user'', ''owner'', ''you'', ''leader'', ''all'', ''everyone'']"

definition mentionedMember :: "task_env \<Rightarrow> string \<Rightarrow> string \<Rightarrow> member" where
  "mentionedMember env c goalText =
     (case firstMention goalText of
        None \<Rightarrow> no_member
      | Some token \<Rightarrow>
          if \<exists>r \<in> set reservedMentions. eqCI token r then no_member
          else findConversationMemberByAlias (te_members env c) token)"

definition taskOwner :: "task_env \<Rightarrow> string \<Rightarrow> conv_info \<Rightarrow> string \<Rightarrow> string \<times> string" where
  "taskOwner env c ci goalText =
     (let (al, agent) =
        (if ci_isGroup ci then
           let m = mentionedMember env c goalText; def = defaultResponderForConversation (te_members env c) in
           if isValid m then (mb_alias m, mb_agentId m)
           else if isValid def then (mb_alias def, mb_agentId def) else ([], [])
         else if ci_primaryAgentId ci \<noteq> [] then
           let a = agentAlias env ci in (if a = [] then ''assistant'' else a, ci_primaryAgentId ci)
         else ([], ci_primaryAgentId ci))
      in (if al = [] then ''assistant'' else al, agent))"

text \<open>The signals of the controller: a failure shown to the user, or a started task that the run of the
  conversation takes up.\<close>

datatype command_signal =
    ErrorOccurred string
  | TaskStarted string string string string

definition goalMessage :: "int \<Rightarrow> string \<Rightarrow> string \<Rightarrow> string \<Rightarrow> message" where
  "goalMessage now msgId c goalText = new_message\<lparr>msg_id := msgId, msg_conversationId := c, msg_role := ''user'',
     msg_content := ''Start a task: '' @ trimmed goalText, msg_createdAt := Some now\<rparr>"

definition userInitiatedStartTask ::
    "int \<Rightarrow> (nat \<Rightarrow> string) \<Rightarrow> bool \<Rightarrow> string \<Rightarrow> task_env \<Rightarrow> string \<Rightarrow> string \<Rightarrow> msg_service \<times> tasks \<Rightarrow>
     command_signal list \<times> msg_service \<times> tasks" where
  "userInitiatedStartTask now uuid commits msgId env c goalText st =
     (let (ms, t) = st; goal = trimmed goalText in
      if c = [] \<or> goal = [] then ([], ms, t)
      else
        let (added, ms1) = addMessage now (goalMessage now msgId c goalText) ms in
        if added = [] then ([ErrorOccurred ''Failed to persist task goal''], ms1, t)
        else
          case te_conversation env c of
            None \<Rightarrow> ([], ms1, t)
          | Some ci \<Rightarrow>
              let (owner, agent) = taskOwner env c ci goalText;
                  (projectId, orgId) = scopeOf (te_folderChain env c);
                  s = new_step\<lparr>sp_title := take 80 goal, sp_description := goal, sp_ownerAlias := owner,
                        sp_acceptanceCriteria := ''Produce a concrete artifact (a complete draft, analysis, '' @
                          ''decision, or file) that fully addresses: '' @ take 200 goal\<rparr>;
                  (planId, t1) = startTaskFromToolCall now uuid commits c owner goal [s] projectId orgId t
              in if planId = [] then ([ErrorOccurred ''Failed to start task''], ms1, t1)
                 else ([TaskStarted planId c owner agent], ms1, t1))"

definition stopPlan :: "int \<Rightarrow> string \<Rightarrow> string \<Rightarrow> tasks \<Rightarrow> bool \<times> tasks" where
  "stopPlan now planId reason t = handleStopTask now planId (if reason = [] then ''stopped by user'' else reason) t"

text \<open>The number of plans stopped; the signal is emitted when it is positive.\<close>

fun stopAll :: "int \<Rightarrow> plan list \<Rightarrow> tasks \<Rightarrow> nat \<times> tasks" where
  "stopAll now [] t = (0, t)"
| "stopAll now (p # ps) t =
     (let (ok, t1) = handleStopTask now (pn_id p) ''stopped by user from the chat input bar'' t;
          (n, t2) = stopAll now ps t1
      in (if ok then Suc n else n, t2))"

definition stopAllActivePlansInConversation :: "int \<Rightarrow> string \<Rightarrow> tasks \<Rightarrow> nat \<times> tasks" where
  "stopAllActivePlansInConversation now c t =
     (if c = [] then (0, t) else stopAll now (activePlansForConversation (tk_db t) c) t)"

section \<open>What is posted into the chat\<close>

text \<open>The two writers of a task event: the controller's, for what the runner asks for, and the gate's
  own. A receipt is an intervening system message.\<close>

definition postTaskEventMessage :: "int \<Rightarrow> string \<Rightarrow> string \<Rightarrow> string \<Rightarrow> string \<Rightarrow> string \<Rightarrow> msg_service \<Rightarrow> msg_service" where
  "postTaskEventMessage now uuid c role content eventType s =
     (if c = [] \<or> content = [] then s
      else snd (addMessage now (new_message\<lparr>msg_id := uuid, msg_conversationId := c,
        msg_role := (if role = [] then ''system'' else role), msg_content := content, msg_createdAt := Some now,
        msg_metadata := [(''event_type'', JStr eventType), (''task_event'', JBool True)]\<rparr>) s))"

definition gatePostEvent :: "int \<Rightarrow> string \<Rightarrow> string \<Rightarrow> string \<Rightarrow> string \<Rightarrow> string \<Rightarrow> msg_service \<Rightarrow> msg_service" where
  "gatePostEvent now uuid c role content eventType s =
     (if c = [] \<or> content = [] then s
      else snd (addMessage now (new_message\<lparr>msg_id := uuid, msg_conversationId := c,
        msg_role := (if role = [] then ''system'' else role), msg_content := content, msg_createdAt := Some now,
        msg_finishReason := ''task_event'',
        msg_metadata := [(''task_event'', JBool True), (''task_event_type'', JStr eventType)]\<rparr>) s))"

fun showEvent :: "int \<Rightarrow> string \<Rightarrow> task_event \<Rightarrow> msg_service \<Rightarrow> msg_service" where
  "showEvent now uuid (RunnerEvent c txt ty) s = postTaskEventMessage now uuid c ''system'' txt ty s"
| "showEvent now uuid (GateEvent c txt ty) s = gatePostEvent now uuid c ''system'' txt ty s"
| "showEvent now uuid (Receipt c txt) s = snd (addInterveningSystemMessage now uuid c txt [] s)"

end
