(* ===== verification/Task_Observer.thy ===== *)
theory Task_Observer
  imports Task_Runner
begin

text \<open>
  The task observer (backend/services/task-observer.cpp), which records what a turn does as artifacts of
  the plan's first step, the gate's hook that feeds it, and the queue of task dispatches of a
  conversation's run (services/chat/conversation-run.cpp).
\<close>

section \<open>Texts\<close>

definition truncateTo :: "string \<Rightarrow> nat \<Rightarrow> string" where
  "truncateTo s cap = (if length s \<le> cap then s else take (cap - 3) s @ ''...'')"

text \<open>\<open>section(c, -1)\<close>: what follows the last \<open>c\<close>.\<close>

definition lastSection :: "char \<Rightarrow> string \<Rightarrow> string" where
  "lastSection c s = rev (takeWhile (\<lambda>x. x \<noteq> c) (rev s))"

definition kMaxDraftLength :: nat where "kMaxDraftLength = 4000"
definition kMaxArgsPreview :: nat where "kMaxArgsPreview = 500"
definition kMaxResultPreview :: nat where "kMaxResultPreview = 500"

section \<open>Recording\<close>

definition resolveActiveStepId :: "plan_db \<Rightarrow> string \<Rightarrow> string" where
  "resolveActiveStepId d planId =
     (if planId = [] then [] else case stepsForPlan d planId of [] \<Rightarrow> [] | s # _ \<Rightarrow> sp_id s)"

definition orSystem :: "string \<Rightarrow> string" where
  "orSystem a = (if a = [] then ''system'' else a)"

definition recordToolCall ::
    "int \<Rightarrow> string \<Rightarrow> string \<Rightarrow> string \<Rightarrow> string \<Rightarrow> string \<Rightarrow> string \<Rightarrow> string \<Rightarrow> plan_db \<Rightarrow> string \<times> plan_db" where
  "recordToolCall now uuid planId toolName argsPreview resultSummary filePath invokedByAlias d =
     (let stepId = resolveActiveStepId d planId in
      if stepId = [] then ([], d)
      else addArtifact now uuid (new_artifact\<lparr>ar_stepId := stepId, ar_type := ToolLogArtifact,
             ar_filePath := filePath, ar_content := truncateTo argsPreview kMaxArgsPreview,
             ar_summary := toolName @ '': '' @ truncateTo resultSummary kMaxResultPreview,
             ar_submittedByAlias := orSystem invokedByAlias, ar_approved := 1\<rparr>) d)"

definition recordFile ::
    "int \<Rightarrow> string \<Rightarrow> string \<Rightarrow> string \<Rightarrow> string \<Rightarrow> string \<Rightarrow> plan_db \<Rightarrow> string \<times> plan_db" where
  "recordFile now uuid planId filePath producedByAlias toolName d =
     (let stepId = resolveActiveStepId d planId in
      if stepId = [] \<or> filePath = [] then ([], d)
      else addArtifact now uuid (new_artifact\<lparr>ar_stepId := stepId, ar_type := FileArtifact, ar_filePath := filePath,
             ar_summary := ''wrote '' @ lastSection CHR ''/'' filePath @ '' via '' @ toolName,
             ar_submittedByAlias := orSystem producedByAlias, ar_approved := 1\<rparr>) d)"

definition recordTextArtifact ::
    "int \<Rightarrow> string \<Rightarrow> string \<Rightarrow> string \<Rightarrow> string \<Rightarrow> string \<Rightarrow> plan_db \<Rightarrow> string \<times> plan_db" where
  "recordTextArtifact now uuid planId submittedByAlias content summary d =
     (let stepId = resolveActiveStepId d planId in
      if stepId = [] \<or> trimmed content = [] then ([], d)
      else addArtifact now uuid (new_artifact\<lparr>ar_stepId := stepId, ar_type := DraftArtifact,
             ar_content := truncateTo (trimmed content) kMaxDraftLength,
             ar_summary := (if summary = [] then ''text reply ('' @ decimal (length (trimmed content)) @ '' chars)''
                            else summary),
             ar_submittedByAlias := orSystem submittedByAlias, ar_approved := 1\<rparr>) d)"

definition activityLine :: "artifact \<Rightarrow> string" where
  "activityLine a =
     (case ar_type a of
        ToolLogArtifact \<Rightarrow> ''tool: '' @ ar_summary a
      | FileArtifact \<Rightarrow> ''file: '' @ lastSection CHR ''/'' (ar_filePath a)
      | DraftArtifact \<Rightarrow> ''draft: '' @ truncateTo (ar_summary a) 80
      | AnalysisArtifact \<Rightarrow> ''analysis: '' @ truncateTo (ar_summary a) 80
      | DecisionArtifact \<Rightarrow> ''decision: '' @ truncateTo (ar_summary a) 80
      | CodeArtifact \<Rightarrow> ''code: '' @ truncateTo (ar_summary a) 80)"

definition recentActivity :: "plan_db \<Rightarrow> string \<Rightarrow> int \<Rightarrow> string list" where
  "recentActivity d planId n =
     (if planId = [] \<or> n \<le> 0 then []
      else let stepId = resolveActiveStepId d planId in
        if stepId = [] then [] else map activityLine (take (nat n) (artifactsForStep d stepId)))"

text \<open>The gate's hook: a reply of at least 30 characters that ended a turn becomes a draft, with its
  first line as the summary.\<close>

definition recordTextArtifactIfApplicable :: "int \<Rightarrow> string \<Rightarrow> string \<Rightarrow> string \<Rightarrow> string \<Rightarrow> tasks \<Rightarrow> tasks" where
  "recordTextArtifactIfApplicable now uuid finishReason captured submitterAlias t =
     (if tk_anchor t = [] \<or> finishReason \<noteq> ''stop'' then t
      else
        let body = trimmed captured in
        if length body < 30 then t
        else
          let al = (if submitterAlias = [] then ''assistant'' else submitterAlias);
              firstLine = take 120 (trimmed (takeWhile (\<lambda>c. c \<noteq> CHR 0x0A) body))
          in t\<lparr>tk_db := snd (recordTextArtifact now uuid (tk_anchor t) al captured firstLine (tk_db t))\<rparr>)"

section \<open>The run's queue of task dispatches\<close>

text \<open>\<open>agentOf\<close> looks the member up; the queue is emptied at once unless a reply is being
  generated; what came in meanwhile waits for the next drain.\<close>

record run_queue =
  rq_generating :: bool
  rq_waiting :: "(dispatch \<times> string) list"

definition drainTaskDispatchQueue :: "run_queue \<Rightarrow> run_queue" where
  "drainTaskDispatchQueue q = q\<lparr>rq_waiting := []\<rparr>"

definition enqueueTaskDispatch :: "(string \<Rightarrow> string \<Rightarrow> string) \<Rightarrow> dispatch \<Rightarrow> run_queue \<Rightarrow> run_queue" where
  "enqueueTaskDispatch agentOf r q =
     (let q1 = q\<lparr>rq_waiting := rq_waiting q @
             [(r, if ds_convId r \<noteq> [] \<and> ds_ownerAlias r \<noteq> [] then agentOf (ds_convId r) (ds_ownerAlias r) else [])]\<rparr>
      in if \<not> rq_generating q then drainTaskDispatchQueue q1 else q1)"

end
