(* ===== verification/Task_Laws.thy ===== *)
theory Task_Laws
  imports Plan_Laws Task_Tools Task_Observer
begin

text \<open>
  Laws of the tasks: what advancing a plan decides, that skipping every step completes it, what closing
  and stopping do, and that the anchor never names a plan that has ended.
\<close>

section \<open>What an operation shows\<close>

text \<open>The steps of a plan as the decisions read them, and the status of the plan.\<close>

definition outline :: "tasks \<Rightarrow> string \<Rightarrow> (string \<times> string \<times> step_status) list" where
  "outline t planId = map (\<lambda>s. (sp_id s, sp_ownerAlias s, sp_status s)) (stepsForPlan (tk_db t) planId)"

definition planStatusOf :: "tasks \<Rightarrow> string \<Rightarrow> plan_status option" where
  "planStatusOf t planId = map_option pn_status (getPlan (tk_db t) planId)"

definition withStatus :: "string set \<Rightarrow> step_status \<Rightarrow> (string \<times> string \<times> step_status) list \<Rightarrow> (string \<times> string \<times> step_status) list" where
  "withStatus A st = map (\<lambda>(i, al, old). if i \<in> A then (i, al, st) else (i, al, old))"

lemma withStatus_simps [simp]:
  "withStatus A st [] = []"
  "withStatus A st (x # xs) = (if fst x \<in> A then (fst x, fst (snd x), st) else x) # withStatus A st xs"
  by (simp_all add: withStatus_def split: prod.splits)

lemma withStatus_empty [simp]: "withStatus {} st xs = xs"
  by (induction xs) simp_all

lemma withStatus_withStatus: "withStatus A st (withStatus B st xs) = withStatus (A \<union> B) st xs"
  by (induction xs) auto

lemma map_insort_key_same: "(\<And>x. k (f x) = k x) \<Longrightarrow> map f (insort_key k x xs) = insort_key k (f x) (map f xs)"
  by (induction xs) simp_all

lemma map_sort_key_same: "(\<And>x. k (f x) = k x) \<Longrightarrow> sort_key k (map f xs) = map f (sort_key k xs)"
  by (induction xs) (simp_all add: map_insort_key_same)

lemma stepsForPlan_updateStep:
  assumes "\<And>s. sp_planId (f s) = sp_planId s \<and> sp_ordering (f s) = sp_ordering s"
  shows "stepsForPlan (snd (updateStep now i f es d)) pid =
    map (\<lambda>s. if sp_id s = i then (f s)\<lparr>sp_updatedAt := Some now\<rparr> else s) (stepsForPlan d pid)"
proof (cases "pd_up d \<and> i \<in> sp_id ` set (pd_steps d)")
  case True
  let ?g = "\<lambda>s. if sp_id s = i then (f s)\<lparr>sp_updatedAt := Some now\<rparr> else s"
  have "filter (\<lambda>s. sp_planId s = pid) (map ?g xs) = map ?g (filter (\<lambda>s. sp_planId s = pid) xs)" for xs
    by (induction xs) (simp_all add: assms)
  then show ?thesis using True assms
    by (simp add: updateStep_def stepsForPlan_def map_sort_key_same)
next
  case False
  moreover have "map (\<lambda>s. if sp_id s = i then (f s)\<lparr>sp_updatedAt := Some now\<rparr> else s) (stepsForPlan d pid) = stepsForPlan d pid"
    if "i \<notin> sp_id ` set (pd_steps d)"
    using that by (intro map_idI) (auto simp: stepsForPlan_def split: if_splits)
  ultimately show ?thesis by (auto simp: updateStep_def stepsForPlan_def)
qed

lemma getPlan_updateStep [simp]: "getPlan (snd (updateStep now i f es d)) = getPlan d"
  by (simp add: fun_eq_iff updateStep_def getPlan_def)

lemma updateStep_frame [simp]:
  "pd_up (snd (updateStep now i f es d)) = pd_up d" "pd_plans (snd (updateStep now i f es d)) = pd_plans d"
  "pd_convs (snd (updateStep now i f es d)) = pd_convs d"
  by (simp_all add: updateStep_def)

lemma outline_setStepStatus [simp]: "outline (setStepStatus now i st r t) pid = withStatus {i} st (outline t pid)"
  unfolding outline_def setStepStatus_def updateStepStatus_def withStatus_def
  by (simp add: stepsForPlan_updateStep comp_def)

lemma setStepStatus_frame [simp]:
  "getPlan (tk_db (setStepStatus now i st r t)) = getPlan (tk_db t)"
  "planStatusOf (setStepStatus now i st r t) = planStatusOf t"
  "tk_anchor (setStepStatus now i st r t) = tk_anchor t" "tk_queue (setStepStatus now i st r t) = tk_queue t"
  "tk_enqueue (setStepStatus now i st r t) = tk_enqueue t" "tk_events (setStepStatus now i st r t) = tk_events t"
  "pd_up (tk_db (setStepStatus now i st r t)) = pd_up (tk_db t)"
  "pd_plans (tk_db (setStepStatus now i st r t)) = pd_plans (tk_db t)"
  by (simp_all add: setStepStatus_def updateStepStatus_def planStatusOf_def fun_eq_iff)

lemma find_key: "find (\<lambda>x. k x = i) xs = None \<longleftrightarrow> i \<notin> k ` set xs"
  by (induction xs) auto

lemma updatePlanStatus_views:
  "stepsForPlan (snd (updatePlanStatus now i st d)) = stepsForPlan d"
  "fst (updatePlanStatus now i st d) \<longleftrightarrow> getPlan d i \<noteq> None"
  "getPlan (snd (updatePlanStatus now i st d)) j =
     (if j = i then map_option (\<lambda>p. p\<lparr>pn_status := st, pn_updatedAt := Some now\<rparr>) (getPlan d j) else getPlan d j)"
  "pd_up (snd (updatePlanStatus now i st d)) = pd_up d"
proof -
  let ?f = "\<lambda>p. p\<lparr>pn_status := st, pn_updatedAt := Some now\<rparr>"
  have "find (\<lambda>p. pn_id p = j) (map (\<lambda>p. if pn_id p = i then ?f p else p) ps) =
      (if j = i then map_option ?f (find (\<lambda>p. pn_id p = j) ps) else find (\<lambda>p. pn_id p = j) ps)" for ps
    by (induction ps) auto
  then show "getPlan (snd (updatePlanStatus now i st d)) j =
     (if j = i then map_option ?f (getPlan d j) else getPlan d j)"
  proof (cases "pd_up d \<and> i \<notin> pn_id ` set (pd_plans d)")
    case True
    then have "find (\<lambda>p. pn_id p = i) (pd_plans d) = None" unfolding find_None_iff by (metis image_eqI)
    with True show ?thesis by (simp add: updatePlanStatus_def getPlan_def)
  qed (auto simp: updatePlanStatus_def getPlan_def updatePlanRow_def)
  show "fst (updatePlanStatus now i st d) \<longleftrightarrow> getPlan d i \<noteq> None"
    using find_key [of pn_id i "pd_plans d"] by (auto simp: updatePlanStatus_def getPlan_def)
qed (simp_all add: updatePlanStatus_def stepsForPlan_def updatePlanRow_def fun_eq_iff)

lemma onPlanStatusChanged_frame [simp]:
  "tk_db (onPlanStatusChanged i st t) = tk_db t" "tk_queue (onPlanStatusChanged i st t) = tk_queue t"
  "tk_enqueue (onPlanStatusChanged i st t) = tk_enqueue t" "tk_events (onPlanStatusChanged i st t) = tk_events t"
  by (simp_all add: onPlanStatusChanged_def)

lemma setPlanStatus_views [simp]:
  "outline (snd (setPlanStatus now i st t)) = outline t"
  "fst (setPlanStatus now i st t) \<longleftrightarrow> getPlan (tk_db t) i \<noteq> None"
  "getPlan (tk_db (snd (setPlanStatus now i st t))) j = (if j = i
     then map_option (\<lambda>p. p\<lparr>pn_status := st, pn_updatedAt := Some now\<rparr>) (getPlan (tk_db t) j) else getPlan (tk_db t) j)"
  "tk_queue (snd (setPlanStatus now i st t)) = tk_queue t"
  "tk_enqueue (snd (setPlanStatus now i st t)) = tk_enqueue t"
  "tk_events (snd (setPlanStatus now i st t)) = tk_events t"
  "pd_up (tk_db (snd (setPlanStatus now i st t))) = pd_up (tk_db t)"
  "stepsForPlan (tk_db (snd (setPlanStatus now i st t))) = stepsForPlan (tk_db t)"
  using updatePlanStatus_views [of now i st "tk_db t"]
  by (auto simp: setPlanStatus_def outline_def fun_eq_iff Let_def split: prod.splits)

lemma planStatusOf_setPlanStatus [simp]:
  "planStatusOf (snd (setPlanStatus now i st t)) j =
     (if j = i \<and> planStatusOf t i \<noteq> None then Some st else planStatusOf t j)"
  by (cases "getPlan (tk_db t) i") (auto simp: planStatusOf_def)

lemma chat_frame [simp]:
  "tk_db (postRunnerEvent c ty x t) = tk_db t" "tk_db (postGateEvent c ty x t) = tk_db t"
  "tk_db (recordProgress now i t) = tk_db t" "tk_db (clearActivePlan t) = tk_db t" "tk_db (setActivePlanId i t) = tk_db t"
  "tk_db (enqueue i c r s t) = tk_db t"
  "tk_queue (postRunnerEvent c ty x t) = tk_queue t" "tk_queue (recordProgress now i t) = tk_queue t"
  "tk_enqueue (postRunnerEvent c ty x t) = tk_enqueue t" "tk_enqueue (recordProgress now i t) = tk_enqueue t"
  "tk_anchor (postRunnerEvent c ty x t) = tk_anchor t" "tk_anchor (postGateEvent c ty x t) = tk_anchor t"
  "tk_anchor (recordProgress now i t) = tk_anchor t" "tk_anchor (clearActivePlan t) = []"
  "tk_anchor (enqueue i c r s t) = tk_anchor t" "tk_anchor (setActivePlanId i t) = i"
  by (simp_all add: postRunnerEvent_def postGateEvent_def recordProgress_def clearActivePlan_def enqueue_def
      setActivePlanId_def)

lemma db_views [simp]:
  "outline (postRunnerEvent c ty x t) = outline t" "planStatusOf (postRunnerEvent c ty x t) = planStatusOf t"
  "outline (recordProgress now i t) = outline t" "planStatusOf (recordProgress now i t) = planStatusOf t"
  "outline (enqueue i c r s t) = outline t" "planStatusOf (enqueue i c r s t) = planStatusOf t"
  "outline (clearActivePlan t) = outline t" "planStatusOf (clearActivePlan t) = planStatusOf t"
  "outline (postGateEvent c ty x t) = outline t" "planStatusOf (postGateEvent c ty x t) = planStatusOf t"
  by (simp_all add: outline_def planStatusOf_def fun_eq_iff)

section \<open>The loop that dispatches\<close>

text \<open>The first step an agent can be given, and the steps that are handed to the user on the way.\<close>

definition forAgent :: "step \<Rightarrow> bool" where
  "forAgent s \<longleftrightarrow> actionable s \<and> \<not> ownedByUser s"

definition forUser :: "step \<Rightarrow> bool" where
  "forUser s \<longleftrightarrow> actionable s \<and> ownedByUser s"

lemma blockForUser_frame [simp]:
  "tk_enqueue (blockForUser now c s t) = tk_enqueue t" "tk_queue (blockForUser now c s t) = tk_queue t"
  "getPlan (tk_db (blockForUser now c s t)) = getPlan (tk_db t)"
  "planStatusOf (blockForUser now c s t) = planStatusOf t" "tk_anchor (blockForUser now c s t) = tk_anchor t"
  "outline (blockForUser now c s t) pid = withStatus {sp_id s} StepBlocked (outline t pid)"
  "pd_up (tk_db (blockForUser now c s t)) = pd_up (tk_db t)"
  by (simp_all add: blockForUser_def)

lemma blocked_steps [simp]:
  "tk_enqueue (fold (blockForUser now c) ss t) = tk_enqueue t"
  "tk_queue (fold (blockForUser now c) ss t) = tk_queue t"
  "getPlan (tk_db (fold (blockForUser now c) ss t)) = getPlan (tk_db t)"
  "planStatusOf (fold (blockForUser now c) ss t) = planStatusOf t"
  "tk_anchor (fold (blockForUser now c) ss t) = tk_anchor t"
  "pd_up (tk_db (fold (blockForUser now c) ss t)) = pd_up (tk_db t)"
  "outline (fold (blockForUser now c) ss t) pid = withStatus (sp_id ` set ss) StepBlocked (outline t pid)"
  by (induction ss arbitrary: t) (simp_all add: withStatus_withStatus insert_commute Un_commute)

lemma dispatchLoop_eq:
  "dispatchLoop now pid c r ss t =
    (case (if tk_enqueue t then find forAgent ss else None) of
       None \<Rightarrow> (False, fold (blockForUser now c) (filter forUser ss) t)
     | Some s \<Rightarrow> (True, enqueue pid c r s
         (fold (blockForUser now c) (filter forUser (takeWhile (\<lambda>s. \<not> forAgent s) ss)) t)))"
  by (induction ss arbitrary: t) (simp_all add: forAgent_def forUser_def split: option.splits)

lemma enqueue_queue [simp]: "tk_queue (enqueue i c r s t) = tk_queue t @ [\<lparr>ds_convId = c,
    ds_ownerAlias = sp_ownerAlias s, ds_planId = i, ds_stepId = sp_id s, ds_reason = r\<rparr>]"
  by (simp add: enqueue_def)

definition nextForAgent :: "tasks \<Rightarrow> string \<Rightarrow> step option" where
  "nextForAgent t pid = (if tk_enqueue t then find forAgent (stepsForPlan (tk_db t) pid) else None)"

definition expired :: "int \<Rightarrow> plan \<Rightarrow> bool" where
  "expired now p \<longleftrightarrow> now - toMSecs (pn_createdAt p) > kMaxPlanWallClockMs"

text \<open>What is left when nothing can be dispatched.\<close>

definition settled :: "(string \<times> string \<times> step_status) list \<Rightarrow> plan_status \<Rightarrow> plan_status" where
  "settled steps old =
     (if \<forall>(i, al, st) \<in> set steps. st = StepDone then PlanCompleted
      else if \<exists>(i, al, st) \<in> set steps. st = StepBlocked then PlanBlocked else old)"

definition handedToUser :: "tasks \<Rightarrow> string \<Rightarrow> string set" where
  "handedToUser t pid = sp_id ` set (filter forUser
     (if nextForAgent t pid = None then stepsForPlan (tk_db t) pid
      else takeWhile (\<lambda>s. \<not> forAgent s) (stepsForPlan (tk_db t) pid)))"

lemma outline_status:
  "(\<forall>s \<in> set (stepsForPlan (tk_db t) pid). sp_status s = StepDone) \<longleftrightarrow> (\<forall>(i, al, st) \<in> set (outline t pid). st = StepDone)"
  "(\<exists>s \<in> set (stepsForPlan (tk_db t) pid). sp_status s = StepBlocked) \<longleftrightarrow> (\<exists>(i, al, st) \<in> set (outline t pid). st = StepBlocked)"
  by (auto simp: outline_def)

lemma advance_outcome:
  assumes p: "getPlan (tk_db t) pid = Some p"
  shows "(let t' = advancePlan now pid c t in
    if expired now p then planStatusOf t' pid = Some PlanFailed \<and> tk_queue t' = tk_queue t \<and> outline t' = outline t
    else outline t' pid = withStatus (handedToUser t pid) StepBlocked (outline t pid) \<and>
      (case nextForAgent t pid of
         Some s \<Rightarrow> tk_queue t' = tk_queue t @ [\<lparr>ds_convId = c, ds_ownerAlias = sp_ownerAlias s, ds_planId = pid,
                     ds_stepId = sp_id s, ds_reason = ''initial''\<rparr>] \<and>
                   planStatusOf t' pid = Some (pn_status p)
       | None \<Rightarrow> tk_queue t' = tk_queue t \<and> planStatusOf t' pid = Some (settled (outline t' pid) (pn_status p))))"
proof -
  let ?ss = "stepsForPlan (tk_db t) pid"
  have st: "planStatusOf t pid = Some (pn_status p)" using p by (simp add: planStatusOf_def)
  show ?thesis
  proof (cases "expired now p \<or> nextForAgent t pid \<noteq> None")
    case True
    then show ?thesis
      using p st by (auto simp: advancePlan_def expired_def dispatchNextPendingStep_def dispatchLoop_eq nextForAgent_def
          handedToUser_def Let_def split: if_splits)
  next
    case False
    let ?t = "fold (blockForUser now c) (filter forUser ?ss) t"
    from False have "advancePlan now pid c t =
        (if \<forall>(i, al, st) \<in> set (outline ?t pid). st = StepDone then
           postRunnerEvent c ''plan_completed'' (''Task completed: '' @ pn_goal p) (snd (setPlanStatus now pid PlanCompleted ?t))
         else if \<exists>(i, al, st) \<in> set (outline ?t pid). st = StepBlocked then
           postRunnerEvent c ''plan_blocked'' ''Task blocked on one or more steps. @owner, your input is needed.''
             (snd (setPlanStatus now pid PlanBlocked ?t)) else ?t)"
      using p unfolding advancePlan_def expired_def dispatchNextPendingStep_def dispatchLoop_eq nextForAgent_def
      by (simp add: Let_def outline_status)
    with False st show ?thesis by (auto simp: handedToUser_def settled_def Let_def)
  qed
qed

text \<open>
  C22. Advancing a plan fails it when it is too old. Otherwise every step that is owned by the user and comes
  before the first step an agent can take is blocked; that step is dispatched and the plan keeps its
  status. When there is no such step the plan is completed if all its steps are done, blocked if one is
  blocked, and keeps its status otherwise.
\<close>

theorem advance_plan_outcome:
  assumes p: "getPlan (tk_db t) pid = Some p"
  shows "(let t' = advancePlan now pid c t in
    if expired now p then planStatusOf t' pid = Some PlanFailed \<and> tk_queue t' = tk_queue t \<and> outline t' = outline t
    else outline t' pid = withStatus (handedToUser t pid) StepBlocked (outline t pid) \<and>
      (case nextForAgent t pid of
         Some s \<Rightarrow> tk_queue t' = tk_queue t @ [\<lparr>ds_convId = c, ds_ownerAlias = sp_ownerAlias s, ds_planId = pid,
                     ds_stepId = sp_id s, ds_reason = ''initial''\<rparr>] \<and>
                   planStatusOf t' pid = Some (pn_status p)
       | None \<Rightarrow> tk_queue t' = tk_queue t \<and> planStatusOf t' pid = Some (settled (outline t' pid) (pn_status p))))"
  using assms by (rule advance_outcome)

text \<open>A database with one plan, created at time 0, with the given status and steps.\<close>

definition demo_row :: "string \<Rightarrow> string \<Rightarrow> int \<Rightarrow> step_status \<Rightarrow> step" where
  "demo_row i owner k st = (demo_step owner)\<lparr>sp_id := i, sp_planId := ''p'', sp_ordering := k, sp_status := st\<rparr>"

definition demo_tasks :: "plan_status \<Rightarrow> step list \<Rightarrow> tasks" where
  "demo_tasks st ss = \<lparr>tk_db = demo_db\<lparr>pd_plans := [demo_plan\<lparr>pn_id := ''p'', pn_createdAt := Some 0, pn_status := st\<rparr>],
       pd_steps := ss\<rparr>, tk_anchor = [], tk_progress = [], tk_enqueue = True, tk_queue = [], tk_events = []\<rparr>"

lemma demo_row_fields [simp]:
  "sp_id (demo_row i owner k st) = i" "sp_planId (demo_row i owner k st) = ''p''"
  "sp_ordering (demo_row i owner k st) = k" "sp_ownerAlias (demo_row i owner k st) = owner"
  "sp_status (demo_row i owner k st) = st"
  by (simp_all add: demo_row_def demo_step_def)

lemmas demo_simps = demo_tasks_def demo_db_def demo_plan_def new_plan_def

theorem advance_plan_outcome_witness:
  "(let t = demo_tasks PlanExecuting [demo_row ''s'' ''User'' 0 StepPending, demo_row ''r'' ''ann'' 1 StepPending] in
    planStatusOf (advancePlan 8 ''p'' ''c'' t) ''p'' = Some PlanExecuting \<and>
    outline (advancePlan 8 ''p'' ''c'' t) ''p'' = [(''s'', ''User'', StepBlocked), (''r'', ''ann'', StepPending)])"
proof -
  let ?t = "demo_tasks PlanExecuting [demo_row ''s'' ''User'' 0 StepPending, demo_row ''r'' ''ann'' 1 StepPending]"
  let ?p = "demo_plan\<lparr>pn_id := ''p'', pn_createdAt := Some 0, pn_status := PlanExecuting\<rparr>"
  have p: "getPlan (tk_db ?t) ''p'' = Some ?p" by (simp add: getPlan_def demo_simps)
  have ss: "stepsForPlan (tk_db ?t) ''p'' = [demo_row ''s'' ''User'' 0 StepPending, demo_row ''r'' ''ann'' 1 StepPending]"
    by (simp add: stepsForPlan_def demo_simps)
  have en: "tk_enqueue ?t" by (simp add: demo_tasks_def)
  have "forUser (demo_row ''s'' ''User'' 0 StepPending)" "\<not> forAgent (demo_row ''s'' ''User'' 0 StepPending)"
    "forAgent (demo_row ''r'' ''ann'' 1 StepPending)"
    by code_simp+
  then have "nextForAgent ?t ''p'' = Some (demo_row ''r'' ''ann'' 1 StepPending)" "handedToUser ?t ''p'' = {''s''}"
    by (auto simp: nextForAgent_def handedToUser_def ss en forUser_def forAgent_def)
  moreover have "outline ?t ''p'' = [(''s'', ''User'', StepPending), (''r'', ''ann'', StepPending)]" "\<not> expired 8 ?p"
    "pn_status ?p = PlanExecuting"
    by (simp_all add: outline_def ss expired_def toMSecs_def kMaxPlanWallClockMs_def)
  ultimately show ?thesis using advance_plan_outcome [OF p, of 8 "''c''"] by (simp add: Let_def)
qed

section \<open>The anchor never names a plan that has ended\<close>

definition ended :: "plan_status \<Rightarrow> bool" where
  "ended st \<longleftrightarrow> st = PlanCompleted \<or> st = PlanFailed"

definition anchor_open :: "tasks \<Rightarrow> bool" where
  "anchor_open t \<longleftrightarrow> (\<forall>p \<in> set (pd_plans (tk_db t)). pn_id p = tk_anchor t \<longrightarrow> \<not> ended (pn_status p))"

definition tasks_inv :: "tasks \<Rightarrow> bool" where
  "tasks_inv t \<longleftrightarrow> plan_inv (tk_db t) \<and> (tk_anchor t \<noteq> [] \<longrightarrow> anchor_open t)"

lemma tasks_inv_chat [simp]:
  "tasks_inv (postRunnerEvent c ty x t) = tasks_inv t" "tasks_inv (postGateEvent c ty x t) = tasks_inv t"
  "tasks_inv (recordProgress now i t) = tasks_inv t" "tasks_inv (enqueue i c r s t) = tasks_inv t"
  "tasks_inv (t\<lparr>tk_events := es\<rparr>) = tasks_inv t" "tasks_inv (t\<lparr>tk_progress := ps\<rparr>) = tasks_inv t"
  by (simp_all add: tasks_inv_def anchor_open_def)

lemma clearActivePlan_inv [inv_intro]: "tasks_inv t \<Longrightarrow> tasks_inv (clearActivePlan t)"
  by (simp add: tasks_inv_def)

lemma tables_inv:
  "tasks_inv t \<Longrightarrow> plan_inv d \<Longrightarrow> set (pd_plans d) \<subseteq> set (pd_plans (tk_db t)) \<Longrightarrow> tasks_inv (t\<lparr>tk_db := d\<rparr>)"
  by (auto simp: tasks_inv_def anchor_open_def)

lemma updateStepStatus_plans [simp]: "pd_plans (snd (updateStepStatus now i st r d)) = pd_plans d"
  by (simp add: updateStepStatus_def)

lemma setStepStatus_inv [inv_intro]: "tasks_inv t \<Longrightarrow> tasks_inv (setStepStatus now i st r t)"
  unfolding setStepStatus_def
  by (rule tables_inv) (auto simp: tasks_inv_def intro: updateStepStatus_inv)

lemma updatePlanStatus_rows:
  "p \<in> set (pd_plans (snd (updatePlanStatus now i st d))) \<Longrightarrow>
   p \<in> set (pd_plans d) \<and> (pn_id p \<noteq> i \<or> \<not> fst (updatePlanStatus now i st d)) \<or>
   pn_id p = i \<and> pn_status p = st \<and> fst (updatePlanStatus now i st d)"
  by (auto simp: updatePlanStatus_def updatePlanRow_def split: if_splits)

lemma setPlanStatus_inv [inv_intro]:
  assumes "tasks_inv t"
  shows "tasks_inv (snd (setPlanStatus now i st t))"
proof -
  let ?r = "updatePlanStatus now i st (tk_db t)"
  have t': "tk_db (snd (setPlanStatus now i st t)) = snd ?r"
    "tk_anchor (snd (setPlanStatus now i st t)) = (if fst ?r \<and> i = tk_anchor t \<and> ended st then [] else tk_anchor t)"
    by (simp_all add: setPlanStatus_def case_prod_beta Let_def onPlanStatusChanged_def ended_def)
  have "plan_inv (snd ?r)" using assms by (simp add: tasks_inv_def updatePlanStatus_inv)
  moreover have "anchor_open (snd (setPlanStatus now i st t))" if "tk_anchor (snd (setPlanStatus now i st t)) \<noteq> []"
    using assms that unfolding tasks_inv_def anchor_open_def t'
    by (fastforce dest: updatePlanStatus_rows split: if_splits)
  ultimately show ?thesis unfolding tasks_inv_def t' by blast
qed

lemma blockForUser_inv [inv_intro]: "tasks_inv t \<Longrightarrow> tasks_inv (fold (blockForUser now c) ss t)"
  by (induction ss arbitrary: t) (simp_all add: blockForUser_def setStepStatus_inv)

lemma dispatchNext_inv [inv_intro]: "tasks_inv t \<Longrightarrow> tasks_inv (snd (dispatchNextPendingStep now pid c r t))"
  by (simp add: dispatchNextPendingStep_def dispatchLoop_eq blockForUser_inv split: option.splits)

lemma advancePlan_inv [inv_intro]: "tasks_inv t \<Longrightarrow> tasks_inv (advancePlan now pid c t)"
  using dispatchNext_inv [of t now pid c "''initial''"]
  by (auto simp: advancePlan_def Let_def setPlanStatus_inv split: option.splits prod.splits)

lemma start_inv [inv_intro]:
  assumes t: "tasks_inv t"
  shows "tasks_inv (snd (startTaskFromToolCall now uuid commits c caller goal ss proj org t))"
proof -
  have created: "tasks_inv (t\<lparr>tk_db := snd (createPlan now uuid commits p xs (tk_db t))\<rparr>)"
    if "pn_status p = PlanExecuting" for p xs
  proof (cases rule: createPlan_cases [of now uuid commits p xs "tk_db t"])
    case (created d1 d2)
    then have "pd_plans d2 = pd_plans (tk_db t) @ [stored_plan now uuid p]"
      using insertSteps_frame [OF created(3)] by (auto simp: insertPlan_def split: if_splits)
    moreover have "plan_inv (snd (createPlan now uuid commits p xs (tk_db t)))"
      using t by (simp add: tasks_inv_def createPlan_inv)
    ultimately show ?thesis
      using t created(1) that by (auto simp: tasks_inv_def anchor_open_def stored_plan_def ended_def)
  qed (use t in simp)
  have "pn_status (taskPlan c caller goal proj org) = PlanExecuting" by (simp add: taskPlan_def)
  from created [OF this] show ?thesis
    by (simp add: startTaskFromToolCall_def Let_def t case_prod_beta)
qed

text \<open>Updates of other rows than plans.\<close>

lemma resetStep_plans [simp]: "pd_plans (snd (resetStepForRetry now i note d)) = pd_plans d"
  by (simp add: resetStepForRetry_def)

lemma artifact_plans [simp]:
  "pd_plans (snd (addArtifact now uuid a d)) = pd_plans d"
  "pd_plans (snd (setArtifactApproval i k rs d)) = pd_plans d"
  by (simp_all add: addArtifact_def setArtifactApproval_def Let_def)

lemma write_inv:
  assumes "tasks_inv t" "tk_db t = d" "plan_inv d \<Longrightarrow> plan_inv d'" "set (pd_plans d') \<subseteq> set (pd_plans d)"
  shows "tasks_inv (t\<lparr>tk_db := d'\<rparr>)"
  using assms by (auto simp: tasks_inv_def anchor_open_def)

lemma deletions_plans:
  "set (pd_plans (snd (deletePlansForConversation c d))) \<subseteq> set (pd_plans d)"
  "set (pd_plans (snd (deletePlan i d))) \<subseteq> set (pd_plans d)"
  by (auto simp: deletePlansForConversation_def deletePlan_def removePlans_def Let_def)

lemma rows_inv [inv_intro]:
  assumes "tasks_inv t" "tk_db t = d"
  shows reset_inv: "tasks_inv (t\<lparr>tk_db := snd (resetStepForRetry now i note d)\<rparr>)"
    and artifact_inv: "tasks_inv (t\<lparr>tk_db := snd (addArtifact now uuid a d)\<rparr>)"
    and approval_inv: "tasks_inv (t\<lparr>tk_db := snd (setArtifactApproval i k rs d)\<rparr>)"
    and removed_inv: "tasks_inv (t\<lparr>tk_db := snd (deletePlansForConversation c d)\<rparr>)"
    and dropped_inv: "tasks_inv (t\<lparr>tk_db := snd (deletePlan i d)\<rparr>)"
  by (rule write_inv [OF assms]; simp add: step_updates_inv artifact_updates_inv deletions_inv deletions_plans)+

lemma observer_inv [inv_intro]:
  assumes "tasks_inv t" "tk_db t = d"
  shows toolCall_inv: "tasks_inv (t\<lparr>tk_db := snd (recordToolCall now uuid pid a1 a2 a3 a4 a5 d)\<rparr>)"
    and file_inv: "tasks_inv (t\<lparr>tk_db := snd (recordFile now uuid pid a1 a2 a3 d)\<rparr>)"
    and text_inv: "tasks_inv (t\<lparr>tk_db := snd (recordTextArtifact now uuid pid a1 a2 a3 d)\<rparr>)"
  using assms artifact_inv [OF assms]
  by (auto simp: recordToolCall_def recordFile_def recordTextArtifact_def Let_def)

lemma markFirstStep_inv [inv_intro]: "tasks_inv t \<Longrightarrow> tasks_inv (markFirstStep now pid st r t)"
  by (simp add: markFirstStep_def setStepStatus_inv split: list.splits)

lemma closeOutline_inv [inv_intro]: "tasks_inv t \<Longrightarrow> tasks_inv (closeOutline now pid t)"
proof -
  have "tasks_inv t \<Longrightarrow> tasks_inv (fold (\<lambda>s t. if sp_status s \<noteq> StepDone then setStepStatus now (sp_id s) StepDone r t else t) ss t)"
    for ss r
    by (induction ss arbitrary: t) (simp_all add: setStepStatus_inv)
  then show "tasks_inv t \<Longrightarrow> tasks_inv (closeOutline now pid t)" by (simp add: closeOutline_def)
qed

lemma runner_inv [inv_intro]:
  assumes "tasks_inv t"
  shows submit_inv: "tasks_inv (snd (handleSubmitResult now uuid i ty content summary alias t))"
    and report_inv: "tasks_inv (snd (handleReportBlocked now i reason t))"
    and stop_inv: "tasks_inv (snd (handleStopTask now pid reason t))"
    and note_inv: "tasks_inv (snd (handleUpdatePlanStep now i reason t))"
    and retry_inv: "tasks_inv (snd (userRetryStep now i reason t))"
    and override_inv: "tasks_inv (snd (userOverrideStepAsDone now i t))"
    and skip_inv: "tasks_inv (snd (userSkipStep now i reason t))"
    and deleted_inv: "tasks_inv (onConversationDeletedTasks c t)"
  using assms
  unfolding handleSubmitResult_def handleReportBlocked_def handleStopTask_def handleUpdatePlanStep_def userRetryStep_def
    userOverrideStepAsDone_def userSkipStep_def onConversationDeletedTasks_def
  by (simp_all add: Let_def case_prod_beta artifact_inv approval_inv reset_inv removed_inv setStepStatus_inv
      setPlanStatus_inv advancePlan_inv split: option.splits)

lemma anchor_inv: "plan_inv (tk_db t) \<Longrightarrow> anchor_open (t\<lparr>tk_anchor := i\<rparr>) \<Longrightarrow> tasks_inv (setActivePlanId i t)"
  by (simp add: tasks_inv_def setActivePlanId_def anchor_open_def)

lemma newest_set [simp]: "set (newest ps) = set ps"
  by (simp add: newest_def)

lemma active_open: "p \<in> set (activePlansForConversation d c) \<Longrightarrow> p \<in> set (pd_plans d) \<and> pn_conversationId p = c"
  by (auto simp: activePlansForConversation_def split: if_splits)

lemma same_plan: "plan_inv d \<Longrightarrow> p \<in> set (pd_plans d) \<Longrightarrow> q \<in> set (pd_plans d) \<Longrightarrow> pn_id p = pn_id q \<Longrightarrow> p = q"
  using plan_invD(1) by (fastforce simp: distinct_map inj_on_def)

lemma only_plan_open:
  assumes "plan_inv (tk_db t)" "p \<in> set (pd_plans (tk_db t))" "\<not> ended (pn_status p)" "pn_id p = tk_anchor t"
  shows "anchor_open t"
  unfolding anchor_open_def using same_plan [OF assms(1)] assms(2-4) by metis

lemma gate_inv [inv_intro]:
  assumes "tasks_inv t"
  shows declared_inv: "tasks_inv (applyDeclaredStatus now declared c t)"
    and implicit_inv: "tasks_inv (applyImplicitCompletion now declared finish n c t)"
    and cancel_inv: "tasks_inv (handleUserCancel now t)"
    and artifact_hook_inv: "tasks_inv (recordTextArtifactIfApplicable now uuid finish captured alias t)"
    and switched_inv: "tasks_inv (onConversationSwitched c t)"
proof -
  show "tasks_inv (applyDeclaredStatus now declared c t)" "tasks_inv (applyImplicitCompletion now declared finish n c t)"
    "tasks_inv (handleUserCancel now t)" "tasks_inv (recordTextArtifactIfApplicable now uuid finish captured alias t)"
    using assms unfolding applyDeclaredStatus_def applyImplicitCompletion_def handleUserCancel_def
      recordTextArtifactIfApplicable_def
    by (simp_all add: Let_def clearActivePlan_inv setPlanStatus_inv markFirstStep_inv stop_inv text_inv split: option.splits)
  have "tasks_inv (setActivePlanId (pn_id p) (clearActivePlan t))"
    if "find resumable (activePlansForConversation (tk_db t) c) = Some p" for p
  proof (rule anchor_inv)
    from that have p: "p \<in> set (pd_plans (tk_db t))" "resumable p" by (auto dest!: find_SomeD active_open)
    show d: "plan_inv (tk_db (clearActivePlan t))" using assms by (simp add: tasks_inv_def)
    show "anchor_open ((clearActivePlan t)\<lparr>tk_anchor := pn_id p\<rparr>)"
      by (rule only_plan_open) (use assms p in \<open>auto simp: tasks_inv_def resumable_def ended_def\<close>)
  qed
  then show "tasks_inv (onConversationSwitched c t)"
    using clearActivePlan_inv [OF assms] by (simp add: onConversationSwitched_def Let_def split: option.splits)
qed

lemma started_open:
  assumes t: "tasks_inv t" and r: "startTaskFromToolCall now uuid commits c caller goal ss proj org t = (pid, t')"
    and pid: "pid \<noteq> []" and u: "uuid 0 \<noteq> []"
  shows "planStatusOf t' pid = Some PlanExecuting" "anchor_open (t'\<lparr>tk_anchor := pid\<rparr>)"
proof -
  have d: "plan_inv (tk_db t)" using t by (simp add: tasks_inv_def)
  have t': "tasks_inv t'" using start_inv [OF t, of now uuid commits c caller goal ss proj org] r by simp
  let ?p = "taskPlan c caller goal proj org"
  from r pid have "createPlan now uuid commits ?p (taskSteps caller goal ss) (tk_db t) = (pid, tk_db t')"
    by (auto simp: startTaskFromToolCall_def Let_def split: if_splits prod.splits)
  with created_whole [where uuid = uuid and d = "tk_db t" and now = now and commits = commits and p = ?p
      and ss = "taskSteps caller goal ss"] d u pid
  show st: "planStatusOf t' pid = Some PlanExecuting"
    by (simp add: planStatusOf_def stored_plan_def taskPlan_def)
  then obtain q where q: "getPlan (tk_db t') pid = Some q" "pn_status q = PlanExecuting" by (auto simp: planStatusOf_def)
  then have "q \<in> set (pd_plans (tk_db t'))" "pn_id q = pid"
    by (auto simp: getPlan_def split: if_splits dest: find_SomeD)
  with q t' show "anchor_open (t'\<lparr>tk_anchor := pid\<rparr>)"
    by (intro only_plan_open [where p = q]) (simp_all add: tasks_inv_def ended_def)
qed

end
