(* ===== verification/Task_Machine.thy ===== *)
theory Task_Machine
  imports Task_Laws
begin

text \<open>
  The tasks as a state machine: every entry point of the runner, the gate, the tools, the user's commands
  and the observer is an operation, and the tables stay well formed and the anchor names no plan that has
  ended, whatever the order of operations.
\<close>

section \<open>The tools keep the invariant\<close>

lemma startTaskTool_inv [inv_intro]:
  assumes "tasks_inv t" "uuid 0 \<noteq> []"
  shows "tasks_inv (snd (startTaskTool now uuid commits env args t))"
proof -
  have t: "tasks_inv (clearActivePlan t)" using assms(1) by (rule clearActivePlan_inv)
  have "tasks_inv (setActivePlanId (fst r) (snd r))"
    if "r = startTaskFromToolCall now uuid commits c caller goal ss proj org (clearActivePlan t)" "fst r \<noteq> []"
    for r c caller goal ss proj org
  proof (rule anchor_inv)
    have r: "startTaskFromToolCall now uuid commits c caller goal ss proj org (clearActivePlan t) = (fst r, snd r)"
      using that(1) by simp
    show "anchor_open ((snd r)\<lparr>tk_anchor := fst r\<rparr>)" by (rule started_open(2) [OF t r that(2) assms(2)])
    show "plan_inv (tk_db (snd r))"
      using start_inv [OF t, of now uuid commits c caller goal ss proj org] r by (simp add: tasks_inv_def)
  qed
  then show ?thesis
    using t assms(1)
    by (auto simp: startTaskTool_def Let_def case_prod_beta start_inv split: option.splits)
qed

lemma stopTaskTool_inv [inv_intro]: "tasks_inv t \<Longrightarrow> tasks_inv (snd (stopTaskTool now args t))"
  using stop_inv [of t] by (auto simp: stopTaskTool_def Let_def case_prod_beta clearActivePlan_inv)

lemma completeTaskTool_inv [inv_intro]:
  assumes "tasks_inv t"
  shows "tasks_inv (snd (completeTaskTool now env args t))"
proof -
  have "tasks_inv (closeOutline now p (snd (setPlanStatus now p PlanCompleted t)))" for p
    by (intro closeOutline_inv setPlanStatus_inv assms)
  then show ?thesis
    using assms clearActivePlan_inv by (auto simp: completeTaskTool_def Let_def case_prod_beta setPlanStatus_inv)
qed

lemma stopAll_inv: "tasks_inv t \<Longrightarrow> tasks_inv (snd (stopAll now ps t))"
  by (induction ps arbitrary: t) (simp_all add: case_prod_beta Let_def stop_inv)

lemma stopAllActive_inv [inv_intro]: "tasks_inv t \<Longrightarrow> tasks_inv (snd (stopAllActivePlansInConversation now c t))"
  by (simp add: stopAllActivePlansInConversation_def stopAll_inv)

lemma userInitiatedStartTask_inv [inv_intro]:
  "tasks_inv t \<Longrightarrow> tasks_inv (snd (snd (userInitiatedStartTask now uuid commits msgId env c goal (ms, t))))"
  by (simp add: userInitiatedStartTask_def Let_def case_prod_beta start_inv split: option.splits)

section \<open>The machine\<close>

datatype task_op =
    StartTool "nat \<Rightarrow> string" bool task_env json_object
  | StopTool json_object
  | CompleteTool task_env json_object
  | UserStart "nat \<Rightarrow> string" bool string task_env string string msg_service
  | StopAll string
  | Anchor string
  | Submit string string artifact_type string string string
  | ReportBlocked string string
  | StopTask string string
  | ProgressNote string string
  | Retry string string
  | Override string
  | Skip string string
  | Declared string string
  | Implicit string string int string
  | Cancel
  | Switch string
  | TextReply string string string string
  | ToolCall string string string string string string string
  | WroteFile string string string string string
  | ToolDone string
  | Deleted string
  | DropPlan string

text \<open>The external operations come with the time at which they happen.\<close>

fun task_step :: "tasks \<Rightarrow> int \<times> task_op \<Rightarrow> tasks" where
  "task_step t (now, StartTool uuid commits env args) = snd (startTaskTool now uuid commits env args t)"
| "task_step t (now, StopTool args) = snd (stopTaskTool now args t)"
| "task_step t (now, CompleteTool env args) = snd (completeTaskTool now env args t)"
| "task_step t (now, UserStart uuid commits msgId env c goal ms) =
     snd (snd (userInitiatedStartTask now uuid commits msgId env c goal (ms, t)))"
| "task_step t (now, StopAll c) = snd (stopAllActivePlansInConversation now c t)"
| "task_step t (now, Anchor pid) = setActivePlanId pid t"
| "task_step t (now, Submit uuid i ty content summary al) = snd (handleSubmitResult now uuid i ty content summary al t)"
| "task_step t (now, ReportBlocked i r) = snd (handleReportBlocked now i r t)"
| "task_step t (now, StopTask pid r) = snd (stopPlan now pid r t)"
| "task_step t (now, ProgressNote i r) = snd (handleUpdatePlanStep now i r t)"
| "task_step t (now, Retry i r) = snd (userRetryStep now i r t)"
| "task_step t (now, Override i) = snd (userOverrideStepAsDone now i t)"
| "task_step t (now, Skip i r) = snd (userSkipStep now i r t)"
| "task_step t (now, Declared st c) = applyDeclaredStatus now st c t"
| "task_step t (now, Implicit st fin n c) = applyImplicitCompletion now st fin n c t"
| "task_step t (now, Cancel) = handleUserCancel now t"
| "task_step t (now, Switch c) = onConversationSwitched c t"
| "task_step t (now, TextReply uuid fin captured al) = recordTextArtifactIfApplicable now uuid fin captured al t"
| "task_step t (now, ToolCall uuid pid a b c d e) = t\<lparr>tk_db := snd (recordToolCall now uuid pid a b c d e (tk_db t))\<rparr>"
| "task_step t (now, WroteFile uuid pid a b c) = t\<lparr>tk_db := snd (recordFile now uuid pid a b c (tk_db t))\<rparr>"
| "task_step t (now, ToolDone pid) = onIntermediateToolExecuted now pid t"
| "task_step t (now, Deleted c) = onConversationDeletedTasks c t"
| "task_step t (now, DropPlan pid) = t\<lparr>tk_db := snd (deletePlan pid (tk_db t))\<rparr>"

text \<open>A fresh id is never empty, and a run only takes up a plan that has not ended.\<close>

fun task_ok :: "tasks \<Rightarrow> int \<times> task_op \<Rightarrow> bool" where
  "task_ok t (now, StartTool uuid commits env args) = (uuid 0 \<noteq> [])"
| "task_ok t (now, Anchor pid) = (\<forall>p \<in> set (pd_plans (tk_db t)). pn_id p = pid \<longrightarrow> \<not> ended (pn_status p))"
| "task_ok t e = True"

lemma task_step_inv: "tasks_inv t \<Longrightarrow> task_ok t e \<Longrightarrow> tasks_inv (task_step t e)"
proof (cases "(t, e)" rule: task_step.cases)
  case (6 t' now pid)
  assume "tasks_inv t" "task_ok t e"
  with 6 show ?thesis by (auto intro!: anchor_inv simp: tasks_inv_def anchor_open_def)
qed (auto simp: stopPlan_def onIntermediateToolExecuted_def dropped_inv toolCall_inv file_inv inv_intro)

definition no_tasks :: "tasks \<Rightarrow> bool" where
  "no_tasks t \<longleftrightarrow> tk_anchor t = [] \<and> pd_plans (tk_db t) = [] \<and> pd_steps (tk_db t) = [] \<and> pd_artifacts (tk_db t) = []"

interpretation tasks: invariant_machine no_tasks task_ok task_step tasks_inv
proof
  show "no_tasks s \<Longrightarrow> tasks_inv s" for s
    by (simp add: no_tasks_def tasks_inv_def plan_inv_def places_def)
qed (rule task_step_inv)

end
