(* ===== verification/Task_Outcomes.thy ===== *)
theory Task_Outcomes
  imports Task_Machine
begin

text \<open>
  What the tasks promise: skipping, completing, stopping and starting, and where the code and its
  documentation part ways.
\<close>

section \<open>Reachable states\<close>

text \<open>
  C12. In every reachable state the anchor names no completed and no failed plan (it may name a plan that has
  been deleted).
\<close>

theorem anchor_names_no_ended_plan:
  assumes "no_tasks t" "admitted task_ok task_step t es" "tk_anchor (foldl task_step t es) \<noteq> []"
    and "getPlan (tk_db (foldl task_step t es)) (tk_anchor (foldl task_step t es)) = Some p"
  shows "pn_status p \<noteq> PlanCompleted \<and> pn_status p \<noteq> PlanFailed"
proof -
  let ?t = "foldl task_step t es"
  have "tasks_inv ?t" using assms(1,2) by (rule tasks.reachable_inv)
  moreover from assms(4) have "p \<in> set (pd_plans (tk_db ?t))" "pn_id p = tk_anchor ?t"
    by (auto simp: getPlan_def split: if_splits dest: find_SomeD)
  ultimately show ?thesis using assms(3) by (auto simp: tasks_inv_def anchor_open_def ended_def)
qed

text \<open>A conversation in which a task is started by its tool.\<close>

definition demo_env :: task_env where
  "demo_env = \<lparr>te_conversation = (\<lambda>c. if c = ''c'' then Some \<lparr>ci_isGroup = False, ci_primaryAgentId = [], ci_folderId = []\<rparr> else None),
     te_folderChain = (\<lambda>_. []), te_members = (\<lambda>_. []), te_projectMembers = (\<lambda>_. []), te_agentName = (\<lambda>_. None),
     te_responder = ''ann'', te_activeConv = ''c''\<rparr>"

definition idle_tasks :: tasks where
  "idle_tasks = \<lparr>tk_db = demo_db, tk_anchor = [], tk_progress = [], tk_enqueue = True, tk_queue = [], tk_events = []\<rparr>"

definition demo_args :: json_object where
  "demo_args = [(''goal'', JStr ''write it'')]"

lemma demo_started:
  "tk_anchor (foldl task_step idle_tasks [(7, StartTool demo_uuid True demo_env demo_args)]) = demo_uuid 0"
  "map_option pn_status (getPlan (tk_db (foldl task_step idle_tasks [(7, StartTool demo_uuid True demo_env demo_args)]))
     (demo_uuid 0)) = Some PlanExecuting"
  by code_simp+

theorem anchor_names_no_ended_plan_witness:
  "(let t = foldl task_step idle_tasks [(7, StartTool demo_uuid True demo_env demo_args)] in
    tk_anchor t \<noteq> [] \<and> (\<exists>p. getPlan (tk_db t) (tk_anchor t) = Some p \<and> pn_status p \<noteq> PlanCompleted \<and> pn_status p \<noteq> PlanFailed))"
proof -
  let ?es = "[(7, StartTool demo_uuid True demo_env demo_args)]"
  have "no_tasks idle_tasks" by (simp add: no_tasks_def idle_tasks_def demo_db_def)
  moreover have "admitted task_ok task_step idle_tasks ?es" by (simp add: demo_uuid_def)
  moreover have "tk_anchor (foldl task_step idle_tasks ?es) \<noteq> []" by (simp only: demo_started demo_uuid_def) simp
  moreover obtain p where "getPlan (tk_db (foldl task_step idle_tasks ?es)) (tk_anchor (foldl task_step idle_tasks ?es)) = Some p"
    using demo_started(2) unfolding demo_started(1) by blast
  ultimately show ?thesis using anchor_names_no_ended_plan [of idle_tasks ?es] unfolding Let_def by blast
qed

section \<open>Skipping\<close>

lemma outline_ids: "tasks_inv t \<Longrightarrow> distinct (map fst (outline t pid))"
  using plan_invD(2) [of "tk_db t"]
  by (auto simp: outline_def tasks_inv_def stepsForPlan_def comp_def distinct_map inj_on_def)

lemma outline_step:
  assumes t: "tasks_inv t" and x: "(i, al, st) \<in> set (outline t pid)" and p: "getPlan (tk_db t) pid = Some p"
  shows "\<exists>s. stepAndPlan t i = Some (s, p) \<and> sp_ownerAlias s = al \<and> sp_status s = st \<and> sp_planId s = pid"
proof -
  from x obtain s where s: "s \<in> set (pd_steps (tk_db t))" "sp_id s = i" "sp_planId s = pid" "sp_ownerAlias s = al"
    "sp_status s = st" and up: "pd_up (tk_db t)"
    by (auto simp: outline_def stepsForPlan_def split: if_splits)
  then have "find (\<lambda>s. sp_id s = i) (pd_steps (tk_db t)) \<noteq> None" by (auto simp: find_key)
  then obtain s' where s': "find (\<lambda>s. sp_id s = i) (pd_steps (tk_db t)) = Some s'" by blast
  moreover from find_SomeD [OF s'] s t have "s' = s"
    using plan_invD(2) [of "tk_db t"] by (auto simp: tasks_inv_def distinct_map inj_on_def)
  ultimately show ?thesis using s p up by (simp add: stepAndPlan_def getStep_def)
qed

lemma handed_not_done:
  assumes "tasks_inv t" "(i, al, StepDone) \<in> set (outline t pid)"
  shows "i \<notin> handedToUser t pid"
proof
  assume "i \<in> handedToUser t pid"
  then obtain s where s: "s \<in> set (stepsForPlan (tk_db t) pid)" "forUser s" "sp_id s = i"
    by (auto simp: handedToUser_def dest: set_takeWhileD split: if_splits)
  then have "(i, sp_ownerAlias s, sp_status s) \<in> set (outline t pid)" by (auto simp: outline_def)
  with assms outline_ids [of t pid] have "sp_status s = StepDone" by (fastforce simp: distinct_map inj_on_def)
  with s(2) show False by (simp add: forUser_def actionable_def)
qed

definition doneIds :: "tasks \<Rightarrow> string \<Rightarrow> string set" where
  "doneIds t pid = {i. \<exists>al. (i, al, StepDone) \<in> set (outline t pid)}"

definition allIds :: "tasks \<Rightarrow> string \<Rightarrow> string set" where
  "allIds t pid = fst ` set (outline t pid)"

lemma withStatus_ids [simp]: "fst ` set (withStatus A st xs) = fst ` set xs"
  by (induction xs) auto

lemma withStatus_mem: "(i, al, st') \<in> set (withStatus A st xs) \<longleftrightarrow>
    (if i \<in> A then st' = st \<and> (\<exists>old. (i, al, old) \<in> set xs) else (i, al, st') \<in> set xs)"
  by (induction xs) auto

lemma skip_effect:
  assumes t: "tasks_inv t" and i: "i \<in> allIds t pid" and p: "getPlan (tk_db t) pid = Some p" and young: "\<not> expired now p"
  shows "(let t' = snd (userSkipStep now i r t) in
    allIds t' pid = allIds t pid \<and> insert i (doneIds t pid) \<subseteq> doneIds t' pid \<and>
    (\<exists>p'. getPlan (tk_db t') pid = Some p' \<and> \<not> expired now p') \<and>
    (allIds t pid \<subseteq> insert i (doneIds t pid) \<longrightarrow> planStatusOf t' pid = Some PlanCompleted))"
proof -
  from i obtain al st where x: "(i, al, st) \<in> set (outline t pid)" by (auto simp: allIds_def)
  from outline_step [OF t x p] obtain s where s: "stepAndPlan t i = Some (s, p)" by blast
  have pid: "pn_id p = pid" using p by (auto simp: getPlan_def split: if_splits dest: find_SomeD)
  define t1 where "t1 = (let t1 = setStepStatus now i StepDone (if trimmed r = [] then ''Skipped by user''
      else ''Skipped by user: '' @ trimmed r) t;
      t2 = (if pn_status p = PlanBlocked then snd (setPlanStatus now pid PlanExecuting t1) else t1)
    in postRunnerEvent (pn_conversationId p) ''step_skipped'' ((if trimmed r = [] then ''Skipped by user''
      else ''Skipped by user: '' @ trimmed r) @ '' (step \"'' @ sp_title s @ ''\")'') t2)"
  have t': "snd (userSkipStep now i r t) = advancePlan now pid (pn_conversationId p) t1"
    using s pid by (simp add: userSkipStep_def t1_def Let_def)
  have inv: "tasks_inv t1" unfolding t1_def Let_def using t by (simp add: setStepStatus_inv setPlanStatus_inv)
  have out: "outline t1 pid = withStatus {i} StepDone (outline t pid)" by (simp add: t1_def Let_def)
  obtain p1 where p1: "getPlan (tk_db t1) pid = Some p1" "\<not> expired now p1"
    using p young by (cases "pn_status p = PlanBlocked") (simp_all add: t1_def Let_def expired_def)
  have keep: "insert i (doneIds t pid) \<subseteq> doneIds t1 pid"
    using x by (auto simp: doneIds_def out withStatus_mem)
  let ?t' = "advancePlan now pid (pn_conversationId p) t1"
  note adv = advance_outcome [OF p1(1), of now "pn_conversationId p"]
  from adv p1(2) have out': "outline ?t' pid = withStatus (handedToUser t1 pid) StepBlocked (outline t1 pid)"
    by (simp add: Let_def)
  have kept: "doneIds t1 pid \<subseteq> doneIds ?t' pid"
    using handed_not_done [OF inv] by (auto simp: doneIds_def out' withStatus_mem)
  have ids: "allIds ?t' pid = allIds t pid" by (simp add: allIds_def out' out)
  have "planStatusOf ?t' pid = Some PlanCompleted" if all: "allIds t pid \<subseteq> insert i (doneIds t pid)"
  proof -
    have every: "st' = StepDone" if "(j, al', st') \<in> set (outline t1 pid)" for j al' st'
    proof -
      from that have "j \<in> fst ` set (outline t1 pid)" by force
      then have "j \<in> allIds t pid" by (simp add: allIds_def out)
      with all keep have "j \<in> doneIds t1 pid" by blast
      with that outline_ids [OF inv, of pid] show ?thesis by (fastforce simp: doneIds_def distinct_map inj_on_def)
    qed
    have "s' \<in> set (stepsForPlan (tk_db t1) pid) \<Longrightarrow> sp_status s' = StepDone" for s'
      using every by (auto simp: outline_def)
    then have none: "\<not> forAgent s'" "\<not> forUser s'" if "s' \<in> set (stepsForPlan (tk_db t1) pid)" for s'
      using that by (auto simp: forAgent_def forUser_def actionable_def)
    then have "find forAgent (stepsForPlan (tk_db t1) pid) = None" by (simp add: find_None_iff)
    then have n: "nextForAgent t1 pid = None" "handedToUser t1 pid = {}"
      using none(2) by (simp_all add: nextForAgent_def handedToUser_def)
    from adv p1(2) n have "planStatusOf ?t' pid = Some (settled (outline t1 pid) (pn_status p1))" by (simp add: Let_def out')
    with every show ?thesis by (fastforce simp: settled_def)
  qed
  moreover have "\<exists>p'. getPlan (tk_db ?t') pid = Some p' \<and> \<not> expired now p'"
    using p1 by (auto simp: advancePlan_def dispatchNextPendingStep_def dispatchLoop_eq Let_def expired_def
        split: option.splits)
  ultimately show ?thesis using keep kept ids by (auto simp: t' Let_def)
qed

text \<open>
  C9. A plan that is within its time limit is completed once every one of its steps has been skipped, in any
  order and whatever their state, steps of the user and blocked steps included.
\<close>

theorem skipping_every_step_completes:
  assumes "tasks_inv t" "getPlan (tk_db t) pid = Some p" "\<not> expired now p"
    and "set ids = allIds t pid" "ids \<noteq> []"
  shows "planStatusOf (fold (\<lambda>i t. snd (userSkipStep now i (reason i) t)) ids t) pid = Some PlanCompleted"
proof -
  have "planStatusOf (fold (\<lambda>i t. snd (userSkipStep now i (reason i) t)) ids t) pid = Some PlanCompleted"
    if "tasks_inv t" "getPlan (tk_db t) pid = Some p" "\<not> expired now p" "set ids \<subseteq> allIds t pid"
      "allIds t pid \<subseteq> doneIds t pid \<union> set ids" "ids \<noteq> []" for t p ids
    using that
  proof (induction ids arbitrary: t p)
    case (Cons i ids)
    let ?t = "snd (userSkipStep now i (reason i) t)"
    have eff: "allIds ?t pid = allIds t pid" "insert i (doneIds t pid) \<subseteq> doneIds ?t pid"
      "\<exists>p'. getPlan (tk_db ?t) pid = Some p' \<and> \<not> expired now p'"
      "allIds t pid \<subseteq> insert i (doneIds t pid) \<Longrightarrow> planStatusOf ?t pid = Some PlanCompleted"
      using skip_effect [OF Cons.prems(1) _ Cons.prems(2,3), of i "reason i"] Cons.prems(4) by (simp_all add: Let_def)
    show ?case
    proof (cases "ids = []")
      case True
      then show ?thesis using eff(4) Cons.prems(5) by simp
    next
      case False
      from eff(3) obtain p' where p': "getPlan (tk_db ?t) pid = Some p'" "\<not> expired now p'" by blast
      have sub: "set ids \<subseteq> allIds ?t pid" "allIds ?t pid \<subseteq> doneIds ?t pid \<union> set ids"
        using Cons.prems(4,5) eff(1,2) by auto
      show ?thesis using Cons.IH [OF skip_inv [OF Cons.prems(1)] p' sub False] by simp
    qed
  qed simp
  with assms show ?thesis by blast
qed

lemma demo_tasks_inv:
  assumes "distinct (map sp_id ss)" "distinct (map sp_ordering ss)" "\<forall>s \<in> set ss. step_ok {''p''} s"
  shows "tasks_inv (demo_tasks st ss)"
proof -
  have "distinct (places ss i)" for i
    using assms(2) by (auto simp: places_def distinct_map inj_on_def)
  with assms show ?thesis by (simp add: tasks_inv_def plan_inv_def demo_simps plan_ok_def)
qed

theorem skipping_every_step_completes_witness:
  "planStatusOf (fold (\<lambda>i t. snd (userSkipStep 8 i [] t)) [''r'', ''s'']
     (demo_tasks PlanBlocked [demo_row ''s'' ''user'' 0 StepBlocked, demo_row ''r'' ''ann'' 1 StepSubmitted])) ''p'' =
   Some PlanCompleted"
proof -
  let ?t = "demo_tasks PlanBlocked [demo_row ''s'' ''user'' 0 StepBlocked, demo_row ''r'' ''ann'' 1 StepSubmitted]"
  let ?p = "demo_plan\<lparr>pn_id := ''p'', pn_createdAt := Some 0, pn_status := PlanBlocked\<rparr>"
  have "tasks_inv ?t" by (rule demo_tasks_inv) (simp_all add: step_ok_def demo_row_def demo_step_def)
  moreover have "getPlan (tk_db ?t) ''p'' = Some ?p" by (simp add: getPlan_def demo_simps)
  moreover have "\<not> expired 8 ?p" by (simp add: expired_def toMSecs_def kMaxPlanWallClockMs_def)
  moreover have "set [''r'', ''s''] = allIds ?t ''p''"
    by (auto simp: allIds_def outline_def stepsForPlan_def demo_tasks_def demo_db_def)
  ultimately show ?thesis using skipping_every_step_completes [of ?t "''p''" ?p 8 "[''r'', ''s'']" "\<lambda>_. []"] by simp
qed

section \<open>Completing, stopping, starting\<close>

lemma closed_steps:
  "outline (fold (\<lambda>s t. if sp_status s \<noteq> StepDone then setStepStatus now (sp_id s) StepDone r t else t) ss t) pid =
   withStatus (sp_id ` {s \<in> set ss. sp_status s \<noteq> StepDone}) StepDone (outline t pid)"
  "planStatusOf (fold (\<lambda>s t. if sp_status s \<noteq> StepDone then setStepStatus now (sp_id s) StepDone r t else t) ss t) = planStatusOf t"
  "tk_anchor (fold (\<lambda>s t. if sp_status s \<noteq> StepDone then setStepStatus now (sp_id s) StepDone r t else t) ss t) = tk_anchor t"
proof (induction ss arbitrary: t)
  case (Cons s ss)
  { case 1
    have "{x \<in> set (s # ss). sp_status x \<noteq> StepDone} =
        (if sp_status s \<noteq> StepDone then {s} else {}) \<union> {x \<in> set ss. sp_status x \<noteq> StepDone}" by auto
    then show ?case using Cons.IH(1) by (simp add: withStatus_withStatus image_Un Un_commute) }
qed (use Cons in simp_all)

text \<open>
  When \<open>complete_task\<close> finds a plan to close, that plan is completed with every step done, the anchor no
  longer names it, and no other plan changes its status.
\<close>

theorem complete_task_closes_outline:
  assumes "taskToClose env args t = pid" "pid \<noteq> []" "getPlan (tk_db t) pid \<noteq> None"
  shows "(let (reply, t') = completeTaskTool now env args t in
    toString (member_of reply ''status'') = ''completed'' \<and> planStatusOf t' pid = Some PlanCompleted \<and>
    (\<forall>(i, al, st) \<in> set (outline t' pid). st = StepDone) \<and> allIds t' pid = allIds t pid \<and>
    tk_anchor t' \<noteq> pid \<and> (\<forall>q. q \<noteq> pid \<longrightarrow> planStatusOf t' q = planStatusOf t q))"
proof -
  let ?t1 = "snd (setPlanStatus now pid PlanCompleted t)" and ?t2 = "closeOutline now pid (snd (setPlanStatus now pid PlanCompleted t))"
  have t2: "outline ?t2 pid = withStatus (sp_id ` {s \<in> set (stepsForPlan (tk_db t) pid). sp_status s \<noteq> StepDone}) StepDone (outline t pid)"
    "planStatusOf ?t2 = planStatusOf ?t1"
    by (simp_all add: closeOutline_def closed_steps)
  have "\<forall>(i, al, st) \<in> set (outline ?t2 pid). st = StepDone"
    by (auto simp only: t2 withStatus_mem split: if_splits) (auto simp: outline_def)
  moreover have "planStatusOf t pid \<noteq> None" using assms(3) by (auto simp: planStatusOf_def)
  moreover have frame: "outline (u\<lparr>tk_events := es\<rparr>) = outline u" "planStatusOf (u\<lparr>tk_events := es\<rparr>) = planStatusOf u" for u es
    by (simp_all add: outline_def planStatusOf_def fun_eq_iff)
  ultimately show ?thesis
    using assms by (auto simp: completeTaskTool_def Let_def case_prod_beta t2 allIds_def member_of_def)
qed

theorem complete_task_closes_outline_witness:
  "(let t = setActivePlanId ''p'' (demo_tasks PlanBlocked [demo_row ''s'' ''user'' 0 StepBlocked]);
        (reply, t') = completeTaskTool 8 demo_env [] t in
    planStatusOf t' ''p'' = Some PlanCompleted \<and> (\<forall>(i, al, st) \<in> set (outline t' ''p''). st = StepDone))"
proof -
  let ?t = "setActivePlanId ''p'' (demo_tasks PlanBlocked [demo_row ''s'' ''user'' 0 StepBlocked])"
  have a: "taskToClose demo_env [] ?t = ''p''" by (simp add: taskToClose_def setActivePlanId_def)
  have p: "getPlan (tk_db ?t) ''p'' \<noteq> None" by (simp add: getPlan_def demo_simps)
  from complete_task_closes_outline [OF a _ p, of 8] show ?thesis by (auto simp: Let_def split: prod.splits)
qed

text \<open>The plans after a conversation's plans have been stopped.\<close>

lemma stopTask_views:
  "getPlan (tk_db (snd (handleStopTask now i r t))) j = map_option (\<lambda>p. if j = i then p\<lparr>pn_status := PlanFailed,
      pn_updatedAt := Some now\<rparr> else p) (getPlan (tk_db t) j)"
  "fst (handleStopTask now i r t) \<longleftrightarrow> getPlan (tk_db t) i \<noteq> None"
  "pd_up (tk_db (snd (handleStopTask now i r t))) = pd_up (tk_db t)"
  by (auto simp: handleStopTask_def option.map_ident split: option.splits)

lemma stopAll_views:
  "getPlan (tk_db (snd (stopAll now ps t))) j = map_option (\<lambda>p. if j \<in> pn_id ` set ps then p\<lparr>pn_status := PlanFailed,
      pn_updatedAt := Some now\<rparr> else p) (getPlan (tk_db t) j)"
  "\<forall>p \<in> set ps. getPlan (tk_db t) (pn_id p) \<noteq> None \<Longrightarrow> fst (stopAll now ps t) = length ps"
  "pd_up (tk_db (snd (stopAll now ps t))) = pd_up (tk_db t)"
proof (induction ps arbitrary: t)
  case (Cons q ps)
  { case 1
    show ?case by (auto simp: case_prod_beta Let_def Cons.IH(1) stopTask_views option.map_comp comp_def
        intro!: option.map_cong0)
  next
    case 2
    then show ?case by (simp add: case_prod_beta Let_def Cons.IH(2) stopTask_views)
  next
    case 3
    then show ?case by (simp add: case_prod_beta Let_def Cons.IH(3) stopTask_views)
  }
qed (auto simp: option.map_ident)

lemma getPlan_row: "plan_inv d \<Longrightarrow> pd_up d \<Longrightarrow> p \<in> set (pd_plans d) \<Longrightarrow> getPlan d (pn_id p) = Some p"
  using find_key [of pn_id "pn_id p" "pd_plans d"] same_plan [of d _ p]
  by (cases "find (\<lambda>q. pn_id q = pn_id p) (pd_plans d)") (auto simp: getPlan_def dest: find_SomeD)

text \<open>
  Stopping the tasks of a conversation fails each of its active plans, leaves none active, reports how
  many there were and changes no other plan.
\<close>

theorem stop_all_leaves_none_active:
  assumes t: "tasks_inv t" and c: "c \<noteq> []"
  shows "(let (n, t') = stopAllActivePlansInConversation now c t; active = activePlansForConversation (tk_db t) c in
    n = length active \<and> activePlansForConversation (tk_db t') c = [] \<and>
    (\<forall>p \<in> set active. planStatusOf t' (pn_id p) = Some PlanFailed) \<and>
    (\<forall>q. q \<notin> pn_id ` set active \<longrightarrow> getPlan (tk_db t') q = getPlan (tk_db t) q))"
proof (cases "pd_up (tk_db t)")
  case up: True
  let ?as = "activePlansForConversation (tk_db t) c"
  let ?t = "snd (stopAll now ?as t)"
  have d: "plan_inv (tk_db t)" using t by (simp add: tasks_inv_def)
  have row: "getPlan (tk_db t) (pn_id p) = Some p" if "p \<in> set ?as" for p
    using active_open [OF that] getPlan_row [OF d up] by blast
  have none: "activePlansForConversation (tk_db ?t) c = []"
  proof (rule ccontr)
    assume "activePlansForConversation (tk_db ?t) c \<noteq> []"
    then obtain p where "p \<in> set (activePlansForConversation (tk_db ?t) c)" by (meson list.set_sel(1))
    then have p: "p \<in> set (pd_plans (tk_db ?t))" "pn_conversationId p = c" "planStatusToString (pn_status p) \<in> set activeNames"
      by (auto simp: activePlansForConversation_def split: if_splits)
    have "plan_inv (tk_db ?t)" using stopAll_inv [OF t] by (simp add: tasks_inv_def)
    from getPlan_row [OF this _ p(1)] up have "getPlan (tk_db ?t) (pn_id p) = Some p" by (simp add: stopAll_views)
    then obtain q where q: "getPlan (tk_db t) (pn_id p) = Some q"
      "p = (if pn_id p \<in> pn_id ` set ?as then q\<lparr>pn_status := PlanFailed, pn_updatedAt := Some now\<rparr> else q)"
      by (auto simp: stopAll_views)
    have "pn_id p \<notin> pn_id ` set ?as" using q(2) p(3) by (auto simp: activeNames_def)
    moreover from this q(2) have "p = q" by simp
    moreover from q(1) have "q \<in> set (pd_plans (tk_db t))" by (auto simp: getPlan_def split: if_splits dest: find_SomeD)
    ultimately show False using p up by (auto simp: activePlansForConversation_def)
  qed
  have "map_option (\<lambda>p. if q \<in> pn_id ` set ?as then p\<lparr>pn_status := PlanFailed, pn_updatedAt := Some now\<rparr> else p)
      (getPlan (tk_db t) q) = getPlan (tk_db t) q" if "q \<notin> pn_id ` set ?as" for q
    using that by (cases "getPlan (tk_db t) q") simp_all
  with c row none show ?thesis
    by (simp add: stopAllActivePlansInConversation_def case_prod_beta Let_def stopAll_views planStatusOf_def)
next
  case False
  then show ?thesis using c by (simp add: stopAllActivePlansInConversation_def activePlansForConversation_def)
qed

theorem stop_all_leaves_none_active_witness:
  "(let t = demo_tasks PlanBlocked []; t' = snd (stopAllActivePlansInConversation 8 ''c'' t) in
    activePlansForConversation (tk_db t) ''c'' \<noteq> [] \<and> activePlansForConversation (tk_db t') ''c'' = [])"
proof -
  have "tasks_inv (demo_tasks PlanBlocked [])" by (rule demo_tasks_inv) simp_all
  from stop_all_leaves_none_active [OF this, of "''c''" 8]
  show ?thesis by (simp add: Let_def case_prod_beta)
    (simp add: activePlansForConversation_def demo_simps activeNames_def newest_def)
qed

text \<open>
  Once \<open>start_task\<close> has created a plan, the plan is open and anchored with at most fifteen steps, and
  calling the tool again, with whatever arguments and in whatever conversation, changes nothing.
\<close>

theorem start_task_once:
  assumes t: "tasks_inv t" and u: "uuid 0 \<noteq> []"
    and r: "startTaskTool now uuid commits env args t = (reply, t')"
    and ok: "toString (member_of reply ''status'') = ''created''"
  shows "planStatusOf t' (tk_anchor t') = Some PlanExecuting \<and>
    1 \<le> length (outline t' (tk_anchor t')) \<and> length (outline t' (tk_anchor t')) \<le> 15 \<and>
    snd (startTaskTool now2 uuid2 commits2 env2 args2 t') = t'"
proof -
  let ?t = "clearActivePlan t"
  have ct: "tasks_inv ?t" using t by (rule clearActivePlan_inv)
  from r ok obtain c caller goal ss proj org where s: "t' = setActivePlanId (fst (startTaskFromToolCall now uuid commits c caller
      goal ss proj org ?t)) (snd (startTaskFromToolCall now uuid commits c caller goal ss proj org ?t))"
    and new: "fst (startTaskFromToolCall now uuid commits c caller goal ss proj org ?t) \<noteq> []"
    by (auto simp: startTaskTool_def failure_def already_active_def member_of_def Let_def case_prod_beta
        split: if_splits option.splits)
  let ?r = "startTaskFromToolCall now uuid commits c caller goal ss proj org ?t"
  have st: "planStatusOf (snd ?r) (fst ?r) = Some PlanExecuting"
    by (rule started_open(1) [OF ct prod.collapse [symmetric] new u])
  from new have "createPlan now uuid commits (taskPlan c caller goal proj org) (taskSteps caller goal ss) (tk_db ?t) =
      (fst ?r, tk_db (snd ?r))"
    by (auto simp: startTaskFromToolCall_def Let_def case_prod_beta split: if_splits)
  with created_whole [where uuid = uuid and d = "tk_db ?t" and now = now and commits = commits and
      p = "taskPlan c caller goal proj org" and ss = "taskSteps caller goal ss"] ct u new
  have "stepsForPlan (tk_db (snd ?r)) (fst ?r) = map2 (placedStep now uuid (fst ?r)) [0..<length (taskSteps caller goal ss)]
      (taskSteps caller goal ss)"
    by (simp add: tasks_inv_def)
  then have len: "length (outline (snd ?r) (fst ?r)) = length (taskSteps caller goal ss)" by (simp add: outline_def)
  have "1 \<le> length (taskSteps caller goal ss)" "length (taskSteps caller goal ss) \<le> 15"
    by (simp_all add: taskSteps_def kMaxStepsPerPlan_def Suc_le_eq)
  moreover have "outline t' = outline (snd ?r)" "planStatusOf t' = planStatusOf (snd ?r)" "tk_anchor t' = fst ?r"
    by (simp_all add: s outline_def planStatusOf_def fun_eq_iff)
  moreover have "anchoredOpenPlan t' \<noteq> None"
    using st new by (auto simp: s anchoredOpenPlan_def planStatusOf_def split: option.splits)
  then have "snd (startTaskTool now2 uuid2 commits2 env2 args2 t') = t'"
    by (auto simp: startTaskTool_def Let_def)
  ultimately show ?thesis using st len by simp
qed

theorem start_task_once_witness:
  "(let (reply, t') = startTaskTool 7 demo_uuid True demo_env demo_args idle_tasks in
    planStatusOf t' (tk_anchor t') = Some PlanExecuting \<and> snd (startTaskTool 9 demo_uuid True demo_env demo_args t') = t')"
proof -
  obtain reply t' where r: "startTaskTool 7 demo_uuid True demo_env demo_args idle_tasks = (reply, t')" by fastforce
  have "toString (member_of (fst (startTaskTool 7 demo_uuid True demo_env demo_args idle_tasks)) ''status'') = ''created''"
    by code_simp
  with r have ok: "toString (member_of reply ''status'') = ''created''" by simp
  have t: "tasks_inv idle_tasks" by (simp add: tasks_inv_def idle_tasks_def demo_db_inv)
  have "demo_uuid 0 \<noteq> []" by (simp add: demo_uuid_def)
  from start_task_once [OF t this r ok] show ?thesis by (simp add: r)
qed

section \<open>Where code and documentation part ways\<close>

lemma artifact_views [simp]:
  "stepsForPlan (snd (addArtifact now uuid a d)) = stepsForPlan d"
  "stepsForPlan (snd (setArtifactApproval i k rs d)) = stepsForPlan d"
  "getPlan (snd (addArtifact now uuid a d)) = getPlan d"
  "getPlan (snd (setArtifactApproval i k rs d)) = getPlan d"
  by (auto simp: addArtifact_def setArtifactApproval_def Let_def stepsForPlan_def getPlan_def fun_eq_iff)

lemma write_views [simp]:
  assumes "tk_db t = d"
  shows "outline (t\<lparr>tk_db := snd (addArtifact now uuid a d)\<rparr>) = outline t"
    and "outline (t\<lparr>tk_db := snd (setArtifactApproval i k rs d)\<rparr>) = outline t"
    and "planStatusOf (t\<lparr>tk_db := snd (addArtifact now uuid a d)\<rparr>) = planStatusOf t"
    and "planStatusOf (t\<lparr>tk_db := snd (setArtifactApproval i k rs d)\<rparr>) = planStatusOf t"
  using assms by (auto simp: outline_def planStatusOf_def fun_eq_iff)

lemma setPlanStatus_anchor:
  "tk_anchor (snd (setPlanStatus now i st t)) =
     (if planStatusOf t i \<noteq> None \<and> i = tk_anchor t \<and> ended st then [] else tk_anchor t)"
  using updatePlanStatus_views(2) [of now i st "tk_db t"]
  by (auto simp: setPlanStatus_def case_prod_beta Let_def onPlanStatusChanged_def ended_def planStatusOf_def)

lemma addArtifact_id:
  assumes "ar_id a = []" "ar_stepId a \<in> sp_id ` set (pd_steps d)" "ar_stepId a \<noteq> []" "ar_summary a \<noteq> []"
    "ar_submittedByAlias a \<noteq> []" "uuid \<notin> ar_id ` set (pd_artifacts d)" "pd_up d"
  shows "fst (addArtifact now uuid a d) = uuid"
  using assms by (simp add: addArtifact_def Let_def)

text \<open>
  A submitted result completes the whole plan: the step is done, every other step keeps the status it had,
  pending ones included, and an anchor on the plan is cleared.
\<close>

theorem submit_completes_plan_with_open_steps:
  assumes t: "tasks_inv t" and x: "(i, al, st) \<in> set (outline t pid)" and p: "getPlan (tk_db t) pid = Some p"
    and a: "i \<noteq> []" "summary \<noteq> []" "alias \<noteq> []" "uuid \<noteq> []" "uuid \<notin> ar_id ` set (pd_artifacts (tk_db t))"
  shows "(let (ok, t') = handleSubmitResult now uuid i ty content summary alias t in
    ok \<and> planStatusOf t' pid = Some PlanCompleted \<and> outline t' pid = withStatus {i} StepDone (outline t pid) \<and>
    (tk_anchor t = pid \<longrightarrow> tk_anchor t' = []))"
proof -
  from outline_step [OF t x p] obtain s where s: "stepAndPlan t i = Some (s, p)" by blast
  have pid: "pn_id p = pid" and up: "pd_up (tk_db t)"
    using p by (auto simp: getPlan_def split: if_splits dest: find_SomeD)
  from s up have i: "i \<in> sp_id ` set (pd_steps (tk_db t))"
    by (auto simp: stepAndPlan_def getStep_def split: option.splits dest: find_SomeD)
  let ?a = "addArtifact now uuid (submittedArtifact i ty content summary alias) (tk_db t)"
  define t4 where "t4 = (let t3 = setStepStatus now i StepSubmitted [] ((recordProgress now pid t)\<lparr>tk_db := snd ?a\<rparr>)
    in t3\<lparr>tk_db := snd (setArtifactApproval uuid 1 [] (tk_db t3))\<rparr>)"
  have "fst ?a = uuid"
    by (rule addArtifact_id) (use a i up in \<open>simp_all add: submittedArtifact_def new_artifact_def\<close>)
  then have r: "handleSubmitResult now uuid i ty content summary alias t =
      (True, postRunnerEvent (pn_conversationId p) ''plan_completed'' (''Task completed: '' @ pn_goal p)
        (postRunnerEvent (pn_conversationId p) ''step_done'' (''@'' @ alias @ '' completed step \"'' @ sp_title s @ ''\": '' @ summary)
          (snd (setPlanStatus now pid PlanCompleted (setStepStatus now i StepDone [] t4)))))"
    using a(4) pid s by (simp add: handleSubmitResult_def Let_def case_prod_beta t4_def)
  have t4: "planStatusOf t4 = planStatusOf t" "outline t4 pid = withStatus {i} StepSubmitted (outline t pid)" "tk_anchor t4 = tk_anchor t"
    by (simp_all add: t4_def Let_def)
  have "withStatus {i} StepDone (withStatus {i} StepSubmitted xs) = withStatus {i} StepDone xs" for xs
    by (induction xs) auto
  moreover have "planStatusOf t pid \<noteq> None" using p by (simp add: planStatusOf_def)
  ultimately show ?thesis by (simp add: r t4 setPlanStatus_anchor ended_def)
qed

theorem submit_completes_plan_with_open_steps_witness:
  "(let t = demo_tasks PlanExecuting [demo_row ''s'' ''ann'' 0 StepPending, demo_row ''r'' ''bob'' 1 StepPending];
        (ok, t') = handleSubmitResult 8 ''art'' ''s'' DraftArtifact ''text'' ''sum'' ''ann'' t in
    planStatusOf t' ''p'' = Some PlanCompleted \<and>
    outline t' ''p'' = [(''s'', ''ann'', StepDone), (''r'', ''bob'', StepPending)])"
proof -
  let ?t = "demo_tasks PlanExecuting [demo_row ''s'' ''ann'' 0 StepPending, demo_row ''r'' ''bob'' 1 StepPending]"
  let ?p = "demo_plan\<lparr>pn_id := ''p'', pn_createdAt := Some 0, pn_status := PlanExecuting\<rparr>"
  have t: "tasks_inv ?t" by (rule demo_tasks_inv) (simp_all add: step_ok_def demo_row_def demo_step_def)
  have o: "outline ?t ''p'' = [(''s'', ''ann'', StepPending), (''r'', ''bob'', StepPending)]"
    by (simp add: outline_def stepsForPlan_def demo_simps)
  have p: "getPlan (tk_db ?t) ''p'' = Some ?p" by (simp add: getPlan_def demo_simps)
  have x: "(''s'', ''ann'', StepPending) \<in> set (outline ?t ''p'')" by (simp add: o)
  have "''art'' \<notin> ar_id ` set (pd_artifacts (tk_db ?t))" by (simp add: demo_simps)
  from submit_completes_plan_with_open_steps [OF t x p _ _ _ _ this, of "''sum''" "''ann''" 8 DraftArtifact "''text''"]
  show ?thesis by (simp add: o Let_def case_prod_beta)
qed

lemma find_SomeI: "x \<in> set xs \<Longrightarrow> P x \<Longrightarrow> find P xs \<noteq> None"
  by (auto simp: find_None_iff)

definition dispatchable :: "string \<Rightarrow> step_status \<Rightarrow> bool" where
  "dispatchable al st \<longleftrightarrow> \<not> eqCI al ''user'' \<and> \<not> eqCI al ''owner'' \<and>
     (st = StepPending \<or> st = StepInProgress \<or> st = StepNeedsRework)"

lemma next_exists:
  assumes "(j, al, st) \<in> set (outline t pid)" "dispatchable al st" "tk_enqueue t"
  shows "nextForAgent t pid \<noteq> None"
proof -
  from assms(1) obtain s where "s \<in> set (stepsForPlan (tk_db t) pid)" "sp_ownerAlias s = al" "sp_status s = st"
    by (auto simp: outline_def)
  moreover from this assms(2) have "forAgent s" by (auto simp: forAgent_def actionable_def ownedByUser_def dispatchable_def)
  ultimately show ?thesis using assms(3) find_SomeI [of s _ forAgent] by (simp add: nextForAgent_def)
qed

lemma advance_dispatches:
  assumes p: "getPlan (tk_db t) pid = Some p" "\<not> expired now p" and n: "nextForAgent t pid \<noteq> None"
  shows "planStatusOf (advancePlan now pid c t) pid = Some (pn_status p)"
    "length (tk_queue (advancePlan now pid c t)) = Suc (length (tk_queue t))"
  using advance_outcome [OF p(1), of now c] p(2) n by (auto simp: Let_def)

lemma first_sorted: "(case sort_key k ys of [] \<Rightarrow> None | y # _ \<Rightarrow> Some y) = Some x \<Longrightarrow> x \<in> set ys"
  by (metis (no_types, lifting) list.case_eq_if list.set_sel(1) option.distinct(1) option.inject set_sort)

lemma active_step_plan:
  assumes "activeStepForOwnerInConversation d c owner = Some s"
  shows "pd_up d \<and> (\<exists>q \<in> set (pd_plans d). pn_id q = sp_planId s \<and>
    planStatusToString (pn_status q) \<in> set [''planning'', ''executing'', ''critiquing''])"
proof (cases "pd_up d")
  case True
  from first_sorted [OF assms [unfolded activeStepForOwnerInConversation_def, simplified True not_True_eq_False if_False]]
  show ?thesis using True by auto
qed (use assms in \<open>simp add: activeStepForOwnerInConversation_def\<close>)

text \<open>
  Marking a step of a blocked plan as done hands the next step to its agent but leaves the plan blocked, so
  the lookup that attributes the agent's work finds no step of the plan; skipping the step instead makes the
  plan executing again.
\<close>

theorem override_leaves_plan_blocked:
  assumes t: "tasks_inv t" "tk_enqueue t" and p: "getPlan (tk_db t) pid = Some p" "pn_status p = PlanBlocked" "\<not> expired now p"
    and x: "(i, al, st) \<in> set (outline t pid)" and y: "(j, bl, st2) \<in> set (outline t pid)" "j \<noteq> i" "dispatchable bl st2"
  shows "(let t' = snd (userOverrideStepAsDone now i t) in
    length (tk_queue t') = Suc (length (tk_queue t)) \<and> planStatusOf t' pid = Some PlanBlocked \<and>
    (\<forall>c owner s. activeStepForOwnerInConversation (tk_db t') c owner = Some s \<longrightarrow> sp_planId s \<noteq> pid) \<and>
    planStatusOf (snd (userSkipStep now i reason t)) pid = Some PlanExecuting)"
proof -
  from outline_step [OF t(1) x p(1)] obtain s where s: "stepAndPlan t i = Some (s, p)" by blast
  have pid: "pn_id p = pid" using p(1) by (auto simp: getPlan_def split: if_splits dest: find_SomeD)
  let ?t' = "snd (userOverrideStepAsDone now i t)"
  have y': "(j, bl, st2) \<in> set (withStatus {i} StepDone (outline t pid))" using y by (simp add: withStatus_mem)
  have over: "planStatusOf ?t' pid = Some PlanBlocked \<and> length (tk_queue ?t') = Suc (length (tk_queue t))"
  proof -
    define t1 where "t1 = postRunnerEvent (pn_conversationId p) ''step_override''
      (''User marked step \"'' @ sp_title s @ ''\" as done (override)'') (setStepStatus now i StepDone ''Manually marked done by user'' t)"
    have "nextForAgent t1 pid \<noteq> None" by (rule next_exists [of j bl st2]) (use y' y(3) t(2) in \<open>simp_all add: t1_def\<close>)
    from advance_dispatches [OF _ p(3) this, of "pn_conversationId p"] p s pid show ?thesis
      by (simp add: userOverrideStepAsDone_def t1_def)
  qed
  moreover have "sp_planId s' \<noteq> pid" if "activeStepForOwnerInConversation (tk_db ?t') c owner = Some s'" for c owner s'
  proof
    assume s': "sp_planId s' = pid"
    from active_step_plan [OF that] s' obtain q where up: "pd_up (tk_db ?t')" and q: "q \<in> set (pd_plans (tk_db ?t'))"
      "pn_id q = pid" "planStatusToString (pn_status q) \<in> set [''planning'', ''executing'', ''critiquing'']"
      by blast
    have "plan_inv (tk_db ?t')" using override_inv [OF t(1)] by (simp add: tasks_inv_def)
    from getPlan_row [OF this up q(1)] q over have "pn_status q = PlanBlocked" by (simp add: planStatusOf_def)
    with q(3) show False by simp
  qed
  moreover have "planStatusOf (snd (userSkipStep now i reason t)) pid = Some PlanExecuting"
  proof -
    define why where "why = (if trimmed reason = [] then ''Skipped by user'' else ''Skipped by user: '' @ trimmed reason)"
    define t1 where "t1 = postRunnerEvent (pn_conversationId p) ''step_skipped'' (why @ '' (step \"'' @ sp_title s @ ''\")'')
      (snd (setPlanStatus now pid PlanExecuting (setStepStatus now i StepDone why t)))"
    have n: "nextForAgent t1 pid \<noteq> None" by (rule next_exists [of j bl st2]) (use y' y(3) t(2) in \<open>simp_all add: t1_def\<close>)
    have "getPlan (tk_db t1) pid = Some (p\<lparr>pn_status := PlanExecuting, pn_updatedAt := Some now\<rparr>)"
      using p(1) by (simp add: t1_def)
    from advance_dispatches [OF this _ n, of now "pn_conversationId p"] p(2,3) s pid show ?thesis
      by (simp add: userSkipStep_def Let_def t1_def why_def expired_def)
  qed
  ultimately show ?thesis by (simp add: Let_def)
qed

theorem override_leaves_plan_blocked_witness:
  "(let t = demo_tasks PlanBlocked [demo_row ''s'' ''user'' 0 StepBlocked, demo_row ''r'' ''ann'' 1 StepPending] in
    planStatusOf (snd (userOverrideStepAsDone 8 ''s'' t)) ''p'' = Some PlanBlocked \<and>
    planStatusOf (snd (userSkipStep 8 ''s'' [] t)) ''p'' = Some PlanExecuting)"
proof -
  let ?t = "demo_tasks PlanBlocked [demo_row ''s'' ''user'' 0 StepBlocked, demo_row ''r'' ''ann'' 1 StepPending]"
  let ?p = "demo_plan\<lparr>pn_id := ''p'', pn_createdAt := Some 0, pn_status := PlanBlocked\<rparr>"
  have t: "tasks_inv ?t" by (rule demo_tasks_inv) (simp_all add: step_ok_def demo_row_def demo_step_def)
  have o: "outline ?t ''p'' = [(''s'', ''user'', StepBlocked), (''r'', ''ann'', StepPending)]"
    by (simp add: outline_def stepsForPlan_def demo_simps)
  have p: "getPlan (tk_db ?t) ''p'' = Some ?p" "pn_status ?p = PlanBlocked" "\<not> expired 8 ?p"
    by (simp_all add: getPlan_def demo_tasks_def demo_db_def expired_def toMSecs_def kMaxPlanWallClockMs_def)
  have d: "dispatchable ''ann'' StepPending" by code_simp
  have e: "tk_enqueue ?t" by (simp add: demo_tasks_def)
  have x: "(''s'', ''user'', StepBlocked) \<in> set (outline ?t ''p'')" "(''r'', ''ann'', StepPending) \<in> set (outline ?t ''p'')"
    by (simp_all add: o)
  from override_leaves_plan_blocked [OF t e p x _ d, of "[]"] show ?thesis by (simp add: Let_def)
qed

text \<open>
  \<open>get_task_status\<close> without a task id lists, in a conversation that belongs to no project and no
  organization, every active plan in which the responder owns a live step, whatever its conversation,
  project or organization.
\<close>

theorem loose_chat_lists_all_plans:
  assumes env: "scopeOf (te_folderChain env (te_activeConv env)) = ([], [])" "te_responder env \<noteq> []"
    and args: "text_arg args ''task_id'' = []" "text_arg args ''plan_id'' = []"
    and p: "pd_up (tk_db t)" "p \<in> set (pd_plans (tk_db t))" "\<not> ended (pn_status p)"
    and s: "s \<in> set (pd_steps (tk_db t))" "sp_planId s = pn_id p" "sp_ownerAlias s = te_responder env"
      "actionable s \<or> sp_status s = StepBlocked"
  shows "\<exists>row \<in> set (toArray (member_of (getTaskStatusTool env args t) ''plans'')).
    text_arg (toObject (Some row)) ''id'' = pn_id p \<and>
    text_arg (toObject (Some row)) ''goal'' = pn_goal p \<and>
    text_arg (toObject (Some row)) ''home_conversation_id'' = pn_conversationId p"
proof -
  have "planStatusToString (pn_status p) \<in> set activeNames"
    using p(3) by (cases "pn_status p") (simp_all add: activeNames_def ended_def)
  moreover have "stepStatusToString (sp_status s) \<in> set [''pending'', ''in_progress'', ''needs_rework'', ''blocked'']"
    using s(4) by (auto simp: actionable_def)
  ultimately have "p \<in> set (activePlansForOwnerInScope (tk_db t) (te_responder env) [] [])"
    using env(2) p(1,2) s(1-3) by (auto simp: activePlansForOwnerInScope_def inScope_def)
  moreover have "(if te_activeConv env = [] then ([], []) else scopeOf (te_folderChain env (te_activeConv env))) = ([], [])"
    using env(1) by simp
  ultimately show ?thesis
    using args by (auto simp: getTaskStatusTool_def toArray_def member_of_def text_arg_def Let_def)
qed

theorem loose_chat_lists_all_plans_witness:
  "(let t = demo_tasks PlanBlocked [demo_row ''s'' ''ann'' 0 StepBlocked] in
    \<exists>row \<in> set (toArray (member_of (getTaskStatusTool (demo_env\<lparr>te_activeConv := ''other''\<rparr>) [] t) ''plans'')).
      text_arg (toObject (Some row)) ''home_conversation_id'' = ''c'')"
proof -
  let ?t = "demo_tasks PlanBlocked [demo_row ''s'' ''ann'' 0 StepBlocked]" and ?e = "demo_env\<lparr>te_activeConv := ''other''\<rparr>"
  let ?p = "demo_plan\<lparr>pn_id := ''p'', pn_createdAt := Some 0, pn_status := PlanBlocked\<rparr>"
  have "scopeOf (te_folderChain ?e (te_activeConv ?e)) = ([], [])" "te_responder ?e \<noteq> []"
    "text_arg [] ''task_id'' = []" "text_arg [] ''plan_id'' = []"
    by (simp_all add: demo_env_def scopeOf_def text_arg_def member_of_def)
  moreover have "pd_up (tk_db ?t)" "?p \<in> set (pd_plans (tk_db ?t))" "\<not> ended (pn_status ?p)"
    "demo_row ''s'' ''ann'' 0 StepBlocked \<in> set (pd_steps (tk_db ?t))"
    by (simp_all add: demo_tasks_def demo_db_def ended_def)
  ultimately show ?thesis
    using loose_chat_lists_all_plans [of ?e "[]" ?t ?p "demo_row ''s'' ''ann'' 0 StepBlocked"]
    by (auto simp: Let_def demo_env_def demo_plan_def)
qed

text \<open>A step handed to the run is never served: the queue is dropped as soon as the run is idle.\<close>

lemma retried_step_is_dropped:
  "\<not> rq_generating q \<Longrightarrow> rq_waiting (enqueueTaskDispatch agentOf r q) = []"
  by (simp add: enqueueTaskDispatch_def drainTaskDispatchQueue_def Let_def)

end
