(* ===== verification/Membership_Service.thy ===== *)
theory Membership_Service
  imports Membership Json
begin

text \<open>
  The membership service (backend/services/membership-service.cpp) on the tables project_members and
  conversation_members (backend/models/db-manager.cpp, schema version 4 with the columns of versions 12
  and 14). A table is the list of its rows in the order of their row ids. The two tables are alike, and
  the code for one is the code for the other with the names changed: the operations are written once over
  \<open>roster\<close> and named for each table. A statement fails when the database is down or when it violates a
  key, a reference or NOT NULL. The one text that may be null here is the id of the agent that added a
  member: \<open>None\<close> is the null QString, which is bound as NULL. Rows with equal sort keys come in the
  order in which the database visits them, \<open>md_visit\<close>, about which nothing is known but that it visits each
  row once. Signals and audit entries are appended to \<open>md_out\<close>.
\<close>

section \<open>State\<close>

record seat = member +
  mb_joinedAt :: "int option"
  mb_addedByKind :: string
  mb_addedByAgentId :: "string option"
  mb_modelProvider :: string
  mb_modelName :: string
  mb_allowedTools :: "string list"
  mb_agentName :: string
  mb_agentDescription :: string
  mb_agentIconName :: string

definition no_seat :: seat where
  "no_seat = member.extend no_member
     \<lparr>mb_joinedAt = None, mb_addedByKind = ''user'', mb_addedByAgentId = None, mb_modelProvider = [],
      mb_modelName = [], mb_allowedTools = [], mb_agentName = [], mb_agentDescription = [], mb_agentIconName = []\<rparr>"

record seat_row =
  rw_container :: string
  rw_agentId :: string
  rw_alias :: string
  rw_isCoordinator :: bool
  rw_joinedAt :: int
  rw_addedByKind :: string
  rw_addedByAgentId :: string
  rw_modelProvider :: string
  rw_modelName :: string
  rw_allowedTools :: "json option"

text \<open>The primary key.\<close>

definition key :: "seat_row \<Rightarrow> string \<times> string" where
  "key r = (rw_container r, rw_alias r)"

record agent =
  ag_id :: string
  ag_name :: string
  ag_description :: string
  ag_iconName :: string
  ag_defaultPattern :: string
  ag_isCoordinator :: bool

record folder =
  fo_id :: string
  fo_name :: string
  fo_folderType :: string

record chat =
  ch_id :: string
  ch_folderId :: string
  ch_isGroup :: bool

datatype roster = ProjectMembers | ConversationMembers

text \<open>The last two are the audit service's events; an empty first or second argument is the place the
  event is not about.\<close>

datatype member_event =
    ProjectMembersChanged string
  | ConversationMembersChanged string
  | MemberAdded string string string string string "string option"
  | MemberRemoved string string string

record member_db =
  md_up :: bool
  md_agents :: "agent list"
  md_folders :: "folder list"
  md_chats :: "chat list"
  md_project :: "seat_row list"
  md_conversation :: "seat_row list"
  md_visit :: "seat_row list \<Rightarrow> seat_row list"
  md_audited :: bool
  md_out :: "member_event list"

fun rows :: "roster \<Rightarrow> member_db \<Rightarrow> seat_row list" where
  "rows ProjectMembers d = md_project d"
| "rows ConversationMembers d = md_conversation d"

fun withRows :: "roster \<Rightarrow> seat_row list \<Rightarrow> member_db \<Rightarrow> member_db" where
  "withRows ProjectMembers rs d = d\<lparr>md_project := rs\<rparr>"
| "withRows ConversationMembers rs d = d\<lparr>md_conversation := rs\<rparr>"

fun containers :: "roster \<Rightarrow> member_db \<Rightarrow> string set" where
  "containers ProjectMembers d = fo_id ` set (md_folders d)"
| "containers ConversationMembers d = ch_id ` set (md_chats d)"

fun changed :: "roster \<Rightarrow> string \<Rightarrow> member_event" where
  "changed ProjectMembers c = ProjectMembersChanged c"
| "changed ConversationMembers c = ConversationMembersChanged c"

definition report :: "member_event list \<Rightarrow> member_db \<Rightarrow> member_db" where
  "report es d = d\<lparr>md_out := md_out d @ es\<rparr>"

definition audit :: "member_event \<Rightarrow> member_db \<Rightarrow> member_db" where
  "audit e d = (if md_audited d then report [e] d else d)"

section \<open>Columns\<close>

text \<open>The tools are a compact JSON array, kept as the value it parses to; \<open>None\<close> is the empty text.\<close>

definition memberToolsToJson :: "string list \<Rightarrow> json option" where
  "memberToolsToJson tools = (if tools = [] then None else Some (JArr (map JStr tools)))"

definition memberToolsFromJson :: "json option \<Rightarrow> string list" where
  "memberToolsFromJson v = (case v of Some (JArr xs) \<Rightarrow> map (\<lambda>x. toString (Some x)) xs | _ \<Rightarrow> [])"

text \<open>SQLite's NOCASE folds the letters A to Z only.\<close>

definition nocaseC :: "char \<Rightarrow> char" where
  "nocaseC c = (let n = code c in if 65 \<le> n \<and> n \<le> 90 then char_of (n + 32) else c)"

definition eqNocase :: "string \<Rightarrow> string \<Rightarrow> bool" where
  "eqNocase a b \<longleftrightarrow> map nocaseC a = map nocaseC b"

section \<open>Rows\<close>

definition rowFor :: "seat \<Rightarrow> int \<Rightarrow> string \<Rightarrow> seat_row option" where
  "rowFor m joinedAtMs cleanAlias =
     (let safeKind = if mb_addedByKind m = ''agent'' then ''agent'' else ''user'';
          safeAgentId = if safeKind = ''agent'' then mb_addedByAgentId m else Some []
      in map_option (\<lambda>by. \<lparr>rw_container = mb_containerId m, rw_agentId = mb_agentId m, rw_alias = cleanAlias,
           rw_isCoordinator = mb_isCoordinator m, rw_joinedAt = joinedAtMs, rw_addedByKind = safeKind,
           rw_addedByAgentId = by, rw_modelProvider = mb_modelProvider m, rw_modelName = mb_modelName m,
           rw_allowedTools = memberToolsToJson (mb_allowedTools m)\<rparr>) safeAgentId)"

definition insertMemberRow :: "roster \<Rightarrow> seat \<Rightarrow> int \<Rightarrow> member_db \<Rightarrow> member_db option" where
  "insertMemberRow t m joinedAtMs d =
     (let cleanAlias = normalizedAlias (mb_alias m) in
      if cleanAlias = [] then None
      else case rowFor m joinedAtMs cleanAlias of
        None \<Rightarrow> None
      | Some r \<Rightarrow>
          if md_up d \<and> rw_container r \<in> containers t d \<and> rw_agentId r \<in> ag_id ` set (md_agents d) \<and>
             key r \<notin> key ` set (rows t d)
          then Some (withRows t (rows t d @ [r]) d) else None)"

definition seatOf :: "agent list \<Rightarrow> seat_row \<Rightarrow> seat" where
  "seatOf agents r =
     (let a = find (\<lambda>a. ag_id a = rw_agentId r) agents in
      \<lparr>mb_containerId = rw_container r, mb_agentId = rw_agentId r, mb_alias = rw_alias r,
       mb_isCoordinator = rw_isCoordinator r, mb_joinedAt = Some (rw_joinedAt r),
       mb_addedByKind = (if rw_addedByKind r = [] then ''user'' else rw_addedByKind r),
       mb_addedByAgentId = Some (rw_addedByAgentId r), mb_modelProvider = rw_modelProvider r,
       mb_modelName = rw_modelName r, mb_allowedTools = memberToolsFromJson (rw_allowedTools r),
       mb_agentName = (case a of None \<Rightarrow> [] | Some x \<Rightarrow> ag_name x),
       mb_agentDescription = (case a of None \<Rightarrow> [] | Some x \<Rightarrow> ag_description x),
       mb_agentIconName = (case a of None \<Rightarrow> [] | Some x \<Rightarrow> ag_iconName x)\<rparr>)"

definition loadMembers :: "roster \<Rightarrow> member_db \<Rightarrow> string \<Rightarrow> seat list" where
  "loadMembers t d c =
     (if c = [] \<or> \<not> md_up d then []
      else map (seatOf (md_agents d)) (sort_key rw_joinedAt (md_visit d (filter (\<lambda>r. rw_container r = c) (rows t d)))))"

definition deleteAllMembers :: "roster \<Rightarrow> string \<Rightarrow> member_db \<Rightarrow> member_db option" where
  "deleteAllMembers t c d =
     (if md_up d then Some (withRows t (filter (\<lambda>r. rw_container r \<noteq> c) (rows t d)) d) else None)"

section \<open>The operations on a roster\<close>

definition newSeat ::
    "string \<Rightarrow> string \<Rightarrow> string \<Rightarrow> bool \<Rightarrow> string \<Rightarrow> string option \<Rightarrow> string \<Rightarrow> string \<Rightarrow> string list \<Rightarrow> seat" where
  "newSeat c agentId a isCoordinator addedByKind addedByAgentId modelProvider modelName allowedTools =
     no_seat\<lparr>mb_containerId := c, mb_agentId := agentId, mb_alias := a, mb_isCoordinator := isCoordinator,
       mb_addedByKind := addedByKind, mb_addedByAgentId := addedByAgentId, mb_modelProvider := modelProvider,
       mb_modelName := modelName, mb_allowedTools := allowedTools\<rparr>"

fun addedTo :: "roster \<Rightarrow> string \<Rightarrow> string \<Rightarrow> string \<Rightarrow> string \<Rightarrow> string option \<Rightarrow> member_event" where
  "addedTo ProjectMembers c a agentId kind by = MemberAdded c [] a agentId kind by"
| "addedTo ConversationMembers c a agentId kind by = MemberAdded [] c a agentId kind by"

fun removedFrom :: "roster \<Rightarrow> string \<Rightarrow> string \<Rightarrow> member_event" where
  "removedFrom ProjectMembers c a = MemberRemoved c [] a"
| "removedFrom ConversationMembers c a = MemberRemoved [] c a"

definition addMember :: "roster \<Rightarrow> int \<Rightarrow> seat \<Rightarrow> member_db \<Rightarrow> bool \<times> member_db" where
  "addMember t now m d =
     (if mb_containerId m = [] \<or> mb_agentId m = [] \<or> mb_alias m = [] then (False, d)
      else case insertMemberRow t m now d of
        None \<Rightarrow> (False, d)
      | Some d1 \<Rightarrow>
          (True, audit (addedTo t (mb_containerId m) (mb_alias m) (mb_agentId m) (mb_addedByKind m)
             (mb_addedByAgentId m)) (report [changed t (mb_containerId m)] d1)))"

definition removeMember :: "roster \<Rightarrow> string \<Rightarrow> string \<Rightarrow> member_db \<Rightarrow> bool \<times> member_db" where
  "removeMember t c alias d =
     (let a = normalizedAlias alias; kept = filter (\<lambda>r. \<not> (rw_container r = c \<and> rw_alias r = a)) (rows t d) in
      if \<not> md_up d then (False, d)
      else if kept \<noteq> rows t d
      then (True, audit (removedFrom t c alias) (report [changed t c] (withRows t kept d)))
      else (False, d))"

fun insertAll :: "roster \<Rightarrow> int \<Rightarrow> string \<Rightarrow> seat list \<Rightarrow> member_db \<Rightarrow> member_db option" where
  "insertAll t now c [] d = Some d"
| "insertAll t now c (m # ms) d =
     (case insertMemberRow t (m\<lparr>mb_containerId := c\<rparr>)
             (case mb_joinedAt m of Some j \<Rightarrow> j | None \<Rightarrow> now) d of
        None \<Rightarrow> None
      | Some d1 \<Rightarrow> insertAll t now c ms d1)"

text \<open>\<open>commits\<close> says whether the COMMIT succeeds; a transaction that does not end in one is rolled back.\<close>

definition setMembers :: "roster \<Rightarrow> int \<Rightarrow> bool \<Rightarrow> string \<Rightarrow> seat list \<Rightarrow> member_db \<Rightarrow> bool \<times> member_db" where
  "setMembers t now commits c members d =
     (if c = [] then (False, d)
      else if \<not> md_up d then (False, d)
      else case deleteAllMembers t c d of
        None \<Rightarrow> (False, d)
      | Some d1 \<Rightarrow>
          (case insertAll t now c members d1 of
             None \<Rightarrow> (False, d)
           | Some d2 \<Rightarrow> if commits then (True, report [changed t c] d2) else (False, d)))"

definition updateModelOverride ::
    "roster \<Rightarrow> string \<Rightarrow> string \<Rightarrow> string \<Rightarrow> string \<Rightarrow> string list \<Rightarrow> member_db \<Rightarrow> bool \<times> member_db" where
  "updateModelOverride t c alias modelProvider modelName allowedTools d =
     (let a = normalizedAlias alias in
      if c = [] \<or> alias = [] then (False, d)
      else if \<not> md_up d then (False, d)
      else if \<not> (\<exists>r \<in> set (rows t d). rw_container r = c \<and> rw_alias r = a) then (False, d)
      else (True, report [changed t c] (withRows t (map (\<lambda>r.
             if rw_container r = c \<and> rw_alias r = a
             then r\<lparr>rw_modelProvider := modelProvider, rw_modelName := modelName,
                    rw_allowedTools := memberToolsToJson allowedTools\<rparr> else r) (rows t d)) d)))"

section \<open>The service\<close>

definition projectMembers :: "member_db \<Rightarrow> string \<Rightarrow> seat list" where
  "projectMembers d folderId = loadMembers ProjectMembers d folderId"

definition conversationMembers :: "member_db \<Rightarrow> string \<Rightarrow> seat list" where
  "conversationMembers d conversationId = loadMembers ConversationMembers d conversationId"

definition addProjectMember where
  "addProjectMember now folderId agentId a isCoordinator addedByKind addedByAgentId modelProvider modelName allowedTools =
     addMember ProjectMembers now
       (newSeat folderId agentId a isCoordinator addedByKind addedByAgentId modelProvider modelName allowedTools)"

definition addConversationMember where
  "addConversationMember now conversationId agentId a isCoordinator addedByKind addedByAgentId modelProvider modelName
     allowedTools = addMember ConversationMembers now
       (newSeat conversationId agentId a isCoordinator addedByKind addedByAgentId modelProvider modelName allowedTools)"

definition removeProjectMember where "removeProjectMember = removeMember ProjectMembers"
definition removeConversationMember where "removeConversationMember = removeMember ConversationMembers"
definition setProjectMembers where "setProjectMembers = setMembers ProjectMembers"
definition setConversationMembers where "setConversationMembers = setMembers ConversationMembers"

definition updateProjectMemberModelOverride where
  "updateProjectMemberModelOverride = updateModelOverride ProjectMembers"

definition updateConversationMemberModelOverride where
  "updateConversationMemberModelOverride = updateModelOverride ConversationMembers"

lemmas roster_operations = projectMembers_def conversationMembers_def addProjectMember_def addConversationMember_def
  removeProjectMember_def removeConversationMember_def setProjectMembers_def setConversationMembers_def
  updateProjectMemberModelOverride_def updateConversationMemberModelOverride_def

definition findByAlias :: "member_db \<Rightarrow> string \<Rightarrow> string \<Rightarrow> seat option" where
  "findByAlias d conversationId a =
     (let wanted = normalizedAlias a in
      find (\<lambda>m. eqCI (mb_alias m) wanted \<or> eqCI (normalizeAlias (mb_alias m)) wanted)
        (conversationMembers d conversationId))"

definition setConversationCoordinator :: "bool \<Rightarrow> string \<Rightarrow> string \<Rightarrow> member_db \<Rightarrow> bool \<times> member_db" where
  "setConversationCoordinator commits c alias d =
     (if \<not> md_up d then (False, d)
      else
        let a = normalizedAlias alias;
            cleared = map (\<lambda>r. if rw_container r = c then r\<lparr>rw_isCoordinator := False\<rparr> else r) (md_conversation d);
            marked = map (\<lambda>r. if rw_container r = c \<and> rw_alias r = a then r\<lparr>rw_isCoordinator := True\<rparr> else r) cleared
        in if commits then (True, report [ConversationMembersChanged c] (d\<lparr>md_conversation := marked\<rparr>)) else (False, d))"

text \<open>The repair of aliases that begin with a sigil walks a table once; an alias that would be empty or
  clash with another of its container stays as it is.\<close>

fun sweep :: "seat_row list \<Rightarrow> seat_row list \<Rightarrow> seat_row list" where
  "sweep done [] = done"
| "sweep done (r # rs) =
     (let clean = normalizedAlias (rw_alias r);
          clash = \<exists>x \<in> set (done @ r # rs). rw_container x = rw_container r \<and> eqNocase (rw_alias x) clean
      in sweep (done @ [if startsWith (rw_alias r) ''@'' \<and> clean \<noteq> [] \<and> \<not> clash then r\<lparr>rw_alias := clean\<rparr> else r]) rs)"

definition normalizeLegacyAliases :: "member_db \<Rightarrow> member_db" where
  "normalizeLegacyAliases d =
     (if md_up d then d\<lparr>md_project := sweep [] (md_project d), md_conversation := sweep [] (md_conversation d)\<rparr> else d)"

section \<open>The interface for QML and the wire\<close>

text \<open>The map of a member as the editor passes it: \<open>None\<close> is a key that is not there; the values are of
  the type their key has. Reading a text that is not there gives the null QString.\<close>

record member_map =
  mm_containerId :: "string option"
  mm_agentId :: "string option"
  mm_alias :: "string option"
  mm_isCoordinator :: "bool option"
  mm_addedByKind :: "string option"
  mm_addedByAgentId :: "string option"
  mm_modelProvider :: "string option"
  mm_modelName :: "string option"
  mm_allowedTools :: "string list option"

abbreviation orEmpty :: "string option \<Rightarrow> string" where
  "orEmpty x \<equiv> case x of Some s \<Rightarrow> s | None \<Rightarrow> []"

definition seatFromMap :: "string \<Rightarrow> member_map \<Rightarrow> seat" where
  "seatFromMap c m = newSeat c (orEmpty (mm_agentId m)) (orEmpty (mm_alias m)) (mm_isCoordinator m = Some True)
     (case mm_addedByKind m of Some k \<Rightarrow> k | None \<Rightarrow> ''user'') (mm_addedByAgentId m) (orEmpty (mm_modelProvider m))
     (orEmpty (mm_modelName m)) (case mm_allowedTools m of Some ts \<Rightarrow> ts | None \<Rightarrow> [])"

definition memberToMap :: "seat \<Rightarrow> member_map" where
  "memberToMap m = \<lparr>mm_containerId = Some (mb_containerId m), mm_agentId = Some (mb_agentId m),
     mm_alias = Some (mb_alias m), mm_isCoordinator = Some (mb_isCoordinator m),
     mm_addedByKind = Some (mb_addedByKind m), mm_addedByAgentId = mb_addedByAgentId m,
     mm_modelProvider = Some (mb_modelProvider m), mm_modelName = Some (mb_modelName m),
     mm_allowedTools = Some (mb_allowedTools m)\<rparr>"

definition membersList :: "roster \<Rightarrow> member_db \<Rightarrow> string \<Rightarrow> member_map list" where
  "membersList t d c = map memberToMap (loadMembers t d c)"

text \<open>The container's id is under the key folderId or conversationId.\<close>

definition addMemberMap :: "roster \<Rightarrow> int \<Rightarrow> member_map \<Rightarrow> member_db \<Rightarrow> bool \<times> member_db" where
  "addMemberMap t now m = addMember t now (seatFromMap (orEmpty (mm_containerId m)) m)"

definition setMembersFromList :: "roster \<Rightarrow> int \<Rightarrow> bool \<Rightarrow> string \<Rightarrow> member_map list \<Rightarrow> member_db \<Rightarrow> bool \<times> member_db" where
  "setMembersFromList t now commits c maps =
     setMembers t now commits c
       (filter (\<lambda>m. mb_agentId m \<noteq> [] \<and> mb_alias m \<noteq> []) (map (seatFromMap c) maps))"

end
