(* ===== verification/Membership_Tools.thy ===== *)
theory Membership_Tools
  imports Membership_Service
begin

text \<open>
  The four tools by which agents manage the team of their project
  (backend/tools/membership/membership-tools.cpp). They read the conversations and folders of the same
  database, the templates of the agent registry, and, when the arguments do not carry the caller's
  identity, the responder of the current turn and the active conversation. A refusal is the error object
  the tool returns, without its wording.
\<close>

section \<open>What the tools read\<close>

record tool_env =
  tv_valid :: bool
  tv_responderId :: string
  tv_responderAlias :: string
  tv_activeConv :: string

datatype refusal =
    Unavailable | NoResponder | NoConversation | ConversationGone | NotInFolder | FolderGone | NotAProject
  | NotAMember | NotCoordinator | AliasRequired | TemplateRequired | TemplateAmbiguous
  | NoTemplateWithId string | NoTemplateNamed string | AliasTaken string string | WriteRejected
  | SelfRemoval | NoSuchMember string | AddedByUser string | LastCoordinator

definition arg :: "json_object \<Rightarrow> string \<Rightarrow> string" where
  "arg args k = toString (member_of args k)"

definition boolArg :: "json_object \<Rightarrow> string \<Rightarrow> bool" where
  "boolArg args k \<longleftrightarrow> member_of args k = Some (JBool True)"

text \<open>A number outside the range of int gives the default.\<close>

definition intArg :: "json_object \<Rightarrow> string \<Rightarrow> int \<Rightarrow> int" where
  "intArg args k n = (case member_of args k of Some (JNum i) \<Rightarrow> if - (2 ^ 31) \<le> i \<and> i < 2 ^ 31 then i else n | _ \<Rightarrow> n)"

definition getChat :: "member_db \<Rightarrow> string \<Rightarrow> chat option" where
  "getChat d i = (if md_up d then find (\<lambda>c. ch_id c = i) (md_chats d) else None)"

definition getFolder :: "member_db \<Rightarrow> string \<Rightarrow> folder option" where
  "getFolder d i = (if i = [] \<or> \<not> md_up d then None else find (\<lambda>f. fo_id f = i) (md_folders d))"

definition folder_isValid :: "folder \<Rightarrow> bool" where
  "folder_isValid f \<longleftrightarrow> fo_id f \<noteq> [] \<and> fo_name f \<noteq> []"

definition isProject :: "folder \<Rightarrow> bool" where
  "isProject f \<longleftrightarrow> fo_folderType f = ''project'' \<or> fo_folderType f = ''organization''"

definition agent_isValid :: "agent \<Rightarrow> bool" where
  "agent_isValid a \<longleftrightarrow> ag_id a \<noteq> [] \<and> ag_name a \<noteq> []"

definition getAgent :: "member_db \<Rightarrow> string \<Rightarrow> agent option" where
  "getAgent d i = (if i = [] \<or> \<not> md_up d then None else find (\<lambda>a. ag_id a = i) (md_agents d))"

definition getAgentByName :: "member_db \<Rightarrow> string \<Rightarrow> agent option" where
  "getAgentByName d n = (if n = [] \<or> \<not> md_up d then None else find (\<lambda>a. ag_name a = n) (md_agents d))"

section \<open>The caller\<close>

definition callerConversationId :: "tool_env \<Rightarrow> json_object \<Rightarrow> string" where
  "callerConversationId env args =
     (let c = arg args ''__caller_conv_id'' in if c = [] then tv_activeConv env else c)"

definition callerId :: "tool_env \<Rightarrow> json_object \<Rightarrow> string" where
  "callerId env args = (let a = arg args ''__caller_agent_id'' in if a = [] then tv_responderId env else a)"

definition callerAlias :: "tool_env \<Rightarrow> json_object \<Rightarrow> string" where
  "callerAlias env args = (let a = arg args ''__caller_agent_alias'' in if a = [] then tv_responderAlias env else a)"

text \<open>The id of the project the caller's conversation is in.\<close>

definition resolveProjectContext :: "tool_env \<Rightarrow> member_db \<Rightarrow> json_object \<Rightarrow> refusal + string" where
  "resolveProjectContext env d args =
     (if \<not> tv_valid env then Inl Unavailable
      else if callerId env args = [] then Inl NoResponder
      else
        let convId = callerConversationId env args in
        if convId = [] then Inl NoConversation
        else case getChat d convId of
          None \<Rightarrow> Inl ConversationGone
        | Some c \<Rightarrow>
            if ch_folderId c = [] then Inl NotInFolder
            else case getFolder d (ch_folderId c) of
              None \<Rightarrow> Inl FolderGone
            | Some f \<Rightarrow>
                if \<not> folder_isValid f then Inl FolderGone
                else if \<not> isProject f then Inl NotAProject
                else Inr (fo_id f))"

definition ownSeat :: "string \<Rightarrow> string \<Rightarrow> seat list \<Rightarrow> seat option" where
  "ownSeat agentId a roster =
     (case find (\<lambda>m. mb_agentId m = agentId \<and> mb_alias m = a) roster of
        Some m \<Rightarrow> Some m
      | None \<Rightarrow> find (\<lambda>m. mb_agentId m = agentId) roster)"

definition resolveCoordinatorContext :: "tool_env \<Rightarrow> member_db \<Rightarrow> json_object \<Rightarrow> refusal + string" where
  "resolveCoordinatorContext env d args =
     (case resolveProjectContext env d args of
        Inl e \<Rightarrow> Inl e
      | Inr folderId \<Rightarrow>
          (case ownSeat (callerId env args) (callerAlias env args) (projectMembers d folderId) of
             None \<Rightarrow> Inl NotAMember
           | Some m \<Rightarrow> if mb_isCoordinator m then Inr folderId else Inl NotCoordinator))"

section \<open>add_project_member\<close>

datatype add_note = AlreadyInConversation string | JoiningFailed

record add_reply =
  ap_partial :: bool
  ap_folderId :: string
  ap_alias :: string
  ap_agentId :: string
  ap_agentName :: string
  ap_isCoordinator :: bool
  ap_addedByAgentId :: string
  ap_conversationId :: "string option"
  ap_note :: "add_note option"

definition pickTemplate :: "member_db \<Rightarrow> string \<Rightarrow> string \<Rightarrow> refusal + agent" where
  "pickTemplate d suppliedAgentId suppliedAgentName =
     (if suppliedAgentId = [] \<and> suppliedAgentName = [] then Inl TemplateRequired
      else if suppliedAgentId \<noteq> [] \<and> suppliedAgentName \<noteq> [] then Inl TemplateAmbiguous
      else if suppliedAgentId \<noteq> [] then
        (case getAgent d suppliedAgentId of
           Some a \<Rightarrow> if agent_isValid a then Inr a else Inl (NoTemplateWithId suppliedAgentId)
         | None \<Rightarrow> Inl (NoTemplateWithId suppliedAgentId))
      else
        (case getAgentByName d suppliedAgentName of
           Some a \<Rightarrow> if agent_isValid a then Inr a else Inl (NoTemplateNamed suppliedAgentName)
         | None \<Rightarrow> Inl (NoTemplateNamed suppliedAgentName)))"

text \<open>The new member joins the caller's conversation when it is a group.\<close>

definition joinConversation ::
    "int \<Rightarrow> string \<Rightarrow> agent \<Rightarrow> string \<Rightarrow> bool \<Rightarrow> string \<Rightarrow> member_db \<Rightarrow> (string option \<times> add_note option) \<times> member_db" where
  "joinConversation now convId picked a coordinator by d =
     (if \<exists>m \<in> set (conversationMembers d convId). eqCI (mb_alias m) a
      then ((None, Some (AlreadyInConversation a)), d)
      else case addConversationMember now convId (ag_id picked) a coordinator ''agent'' (Some by) [] [] [] d of
        (True, d1) \<Rightarrow> ((Some convId, None), d1)
      | (False, d1) \<Rightarrow> ((None, Some JoiningFailed), d1))"

definition callerIsGroup :: "tool_env \<Rightarrow> member_db \<Rightarrow> json_object \<Rightarrow> bool" where
  "callerIsGroup env d args =
     (let convId = callerConversationId env args in
      convId \<noteq> [] \<and> (case getChat d convId of Some c \<Rightarrow> ch_isGroup c | None \<Rightarrow> False))"

definition invokeAdd :: "tool_env \<Rightarrow> int \<Rightarrow> json_object \<Rightarrow> member_db \<Rightarrow> (refusal + add_reply) \<times> member_db" where
  "invokeAdd env now args d =
     (case resolveCoordinatorContext env d args of
        Inl e \<Rightarrow> (Inl e, d)
      | Inr folderId \<Rightarrow>
          let newAlias = normalizedAlias (arg args ''alias'');
              wantsCoordinator = boolArg args ''is_coordinator''
          in if newAlias = [] then (Inl AliasRequired, d)
             else case pickTemplate d (trimmed (arg args ''agent_id'')) (trimmed (arg args ''agent_name'')) of
               Inl e \<Rightarrow> (Inl e, d)
             | Inr picked \<Rightarrow>
                 (case find (\<lambda>m. eqCI (mb_alias m) newAlias) (projectMembers d folderId) of
                    Some m \<Rightarrow> (Inl (AliasTaken newAlias (mb_agentName m)), d)
                  | None \<Rightarrow>
                      (case addProjectMember now folderId (ag_id picked) newAlias wantsCoordinator ''agent''
                              (Some (callerId env args)) [] [] [] d of
                         (False, d1) \<Rightarrow> (Inl WriteRejected, d1)
                       | (True, d1) \<Rightarrow>
                           let group = callerIsGroup env d1 args;
                               ((joined, note), d2) =
                                 (if group then joinConversation now (callerConversationId env args) picked newAlias
                                    wantsCoordinator (callerId env args) d1 else ((None, None), d1))
                           in (Inr \<lparr>ap_partial = (group \<and> joined = None), ap_folderId = folderId, ap_alias = newAlias,
                                    ap_agentId = ag_id picked, ap_agentName = ag_name picked,
                                    ap_isCoordinator = wantsCoordinator, ap_addedByAgentId = callerId env args,
                                    ap_conversationId = joined, ap_note = note\<rparr>, d2))))"

section \<open>remove_project_member\<close>

text \<open>The loop over the roster keeps the last member whose alias is the wanted one.\<close>

definition removalTarget :: "string \<Rightarrow> seat list \<Rightarrow> seat option" where
  "removalTarget a roster = find (\<lambda>m. eqCI (mb_alias m) a) (rev roster)"

definition coordinatorCount :: "seat list \<Rightarrow> nat" where
  "coordinatorCount roster = length (filter mb_isCoordinator roster)"

definition invokeRemove :: "tool_env \<Rightarrow> json_object \<Rightarrow> member_db \<Rightarrow> (refusal + string \<times> string) \<times> member_db" where
  "invokeRemove env args d =
     (case resolveCoordinatorContext env d args of
        Inl e \<Rightarrow> (Inl e, d)
      | Inr folderId \<Rightarrow>
          let targetAlias = trimmed (arg args ''alias'') in
          if targetAlias = [] then (Inl AliasRequired, d)
          else if eqCI targetAlias (callerAlias env args) then (Inl SelfRemoval, d)
          else
            let roster = projectMembers d folderId in
            (case removalTarget targetAlias roster of
               None \<Rightarrow> (Inl (NoSuchMember targetAlias), d)
             | Some target \<Rightarrow>
                 if mb_addedByKind target \<noteq> ''agent'' then (Inl (AddedByUser (mb_alias target)), d)
                 else if mb_isCoordinator target \<and> coordinatorCount roster \<le> 1 then (Inl LastCoordinator, d)
                 else (case removeProjectMember folderId (mb_alias target) d of
                         (False, d1) \<Rightarrow> (Inl WriteRejected, d1)
                       | (True, d1) \<Rightarrow> (Inr (folderId, mb_alias target), d1))))"

section \<open>list_project_members and list_agent_templates\<close>

definition memberToJson :: "seat \<Rightarrow> json_object" where
  "memberToJson m = [(''alias'', JStr (mb_alias m)), (''agent_id'', JStr (mb_agentId m)),
     (''agent_name'', JStr (mb_agentName m)), (''is_coordinator'', JBool (mb_isCoordinator m)),
     (''added_by_kind'', JStr (mb_addedByKind m)), (''added_by_agent_id'', JStr (orEmpty (mb_addedByAgentId m))),
     (''removable_by_agent'', JBool (mb_addedByKind m = ''agent''))]"

definition invokeList :: "tool_env \<Rightarrow> json_object \<Rightarrow> member_db \<Rightarrow> refusal + json_object" where
  "invokeList env args d =
     (case resolveProjectContext env d args of
        Inl e \<Rightarrow> Inl e
      | Inr folderId \<Rightarrow>
          let members = map (JObj \<circ> memberToJson) (projectMembers d folderId)
          in Inr [(''folder_id'', JStr folderId), (''members'', JArr members), (''count'', JNum (int (length members)))])"

definition templateToJson :: "agent \<Rightarrow> json_object" where
  "templateToJson a = [(''id'', JStr (ag_id a)), (''name'', JStr (ag_name a)), (''description'', JStr (ag_description a)),
     (''default_pattern'', JStr (ag_defaultPattern a)), (''is_coordinator'', JBool (ag_isCoordinator a))]"

definition containsText :: "string \<Rightarrow> string \<Rightarrow> bool" where
  "containsText s p \<longleftrightarrow> indexOfS s p 0 \<noteq> None"

definition pageOf :: "json_object \<Rightarrow> int" where
  "pageOf args = (let p = intArg args ''page'' 1 in if p < 1 then 1 else p)"

definition pageSizeOf :: "json_object \<Rightarrow> int" where
  "pageSizeOf args =
     (let n = intArg args ''page_size'' 20; n' = if n < 1 then 20 else n in if n' > 50 then 50 else n')"

text \<open>The products are ints: \<open>None\<close> when one of them leaves the range of int, which is undefined in C++.\<close>

definition pageSlice :: "int \<Rightarrow> int \<Rightarrow> 'a list \<Rightarrow> 'a list option" where
  "pageSlice page pageSize matches =
     (let begin = (page - 1) * pageSize in
      if begin \<ge> 2 ^ 31 then None
      else if begin < int (length matches) \<and> begin + pageSize \<ge> 2 ^ 31 then None
      else Some (take (nat pageSize) (drop (nat begin) matches)))"

text \<open>\<open>allAgents\<close> is the registry's list of its templates. The outer \<open>None\<close> is an undefined page.\<close>

definition invokeTemplates :: "tool_env \<Rightarrow> json_object \<Rightarrow> agent list \<Rightarrow> (refusal + json_object) option" where
  "invokeTemplates env args allAgents =
     (if \<not> tv_valid env then Some (Inl Unavailable)
      else
        let query = toLower (trimmed (arg args ''query''));
            matches = map (JObj \<circ> templateToJson) (filter (\<lambda>a. query = [] \<or> containsText (toLower (ag_name a)) query \<or>
                        containsText (toLower (ag_description a)) query) allAgents)
        in map_option (\<lambda>sl. Inr [(''templates'', JArr sl), (''page'', JNum (pageOf args)),
               (''page_size'', JNum (pageSizeOf args)), (''total'', JNum (int (length matches)))])
             (pageSlice (pageOf args) (pageSizeOf args) matches))"

end
