(* ===== verification/Membership_Laws.thy ===== *)
theory Membership_Laws
  imports Membership_Tools "HOL-Library.Multiset"
begin

text \<open>
  Laws of the membership service and of the membership tools: the invariant of the two tables, the
  effect of replacing a roster, what an alias finds, and what an agent may do to the team of its project.
\<close>

section \<open>Frames\<close>

lemma rows_withRows [simp]: "rows t (withRows t' rs d) = (if t = t' then rs else rows t d)"
  by (cases t; cases t') simp_all

lemma withRows_frame [simp]:
  shows "containers t (withRows t' rs d) = containers t d" and "md_agents (withRows t' rs d) = md_agents d"
    and "md_up (withRows t' rs d) = md_up d" and "md_visit (withRows t' rs d) = md_visit d"
    and "md_chats (withRows t' rs d) = md_chats d" and "md_folders (withRows t' rs d) = md_folders d"
    and "md_audited (withRows t' rs d) = md_audited d" and "md_out (withRows t' rs d) = md_out d"
  by (cases t; cases t'; simp)+

lemma withRows_same [simp]: "withRows t (rows t d) d = d"
  by (cases t) simp_all

lemma withRows_withRows [simp]: "withRows t rs (withRows t rs' d) = withRows t rs d"
  by (cases t) simp_all

lemma report_frame [simp]:
  shows "rows t (report es d) = rows t d" and "containers t (report es d) = containers t d"
    and "md_agents (report es d) = md_agents d" and "md_up (report es d) = md_up d"
    and "md_visit (report es d) = md_visit d" and "md_chats (report es d) = md_chats d"
    and "md_folders (report es d) = md_folders d"
  by (cases t; simp add: report_def)+

lemma md_out_report [simp]: "md_out (report es d) = md_out d @ es"
  by (simp add: report_def)

lemma audit_frame [simp]:
  shows "rows t (audit e d) = rows t d" and "containers t (audit e d) = containers t d"
    and "md_agents (audit e d) = md_agents d" and "md_up (audit e d) = md_up d"
    and "md_visit (audit e d) = md_visit d" and "md_chats (audit e d) = md_chats d"
    and "md_folders (audit e d) = md_folders d"
  by (simp_all add: audit_def)

lemma loadMembers_frame [simp]:
  shows "loadMembers t (report es d) c = loadMembers t d c" and "loadMembers t (audit e d) c = loadMembers t d c"
  by (simp_all add: loadMembers_def)

section \<open>Aliases\<close>

lemma trimmed_normalizedAlias [simp]: "trimmed (normalizedAlias a) = normalizedAlias a"
  by (simp add: normalizedAlias_def)

definition cleanAlias :: "string \<Rightarrow> bool" where
  "cleanAlias a \<longleftrightarrow> trimmed a = a \<and> (a = [] \<or> hd a \<noteq> CHR ''@'')"

lemma normalizedAlias_clean: "cleanAlias a \<Longrightarrow> normalizedAlias a = a"
  by (auto simp: cleanAlias_def normalizedAlias_def dropWhile_id)

section \<open>The invariant of the tables\<close>

definition row_ok :: "seat_row \<Rightarrow> bool" where
  "row_ok r \<longleftrightarrow> rw_alias r \<noteq> [] \<and> trimmed (rw_alias r) = rw_alias r \<and> rw_addedByKind r \<in> {''user'', ''agent''} \<and>
     (rw_addedByKind r = ''user'' \<longrightarrow> rw_addedByAgentId r = []) \<and>
     (\<exists>tools. rw_allowedTools r = memberToolsToJson tools)"

definition table_inv :: "roster \<Rightarrow> member_db \<Rightarrow> bool" where
  "table_inv t d \<longleftrightarrow> distinct (map key (rows t d)) \<and>
     (\<forall>r \<in> set (rows t d). row_ok r \<and> rw_container r \<in> containers t d \<and> rw_agentId r \<in> ag_id ` set (md_agents d))"

definition member_inv :: "member_db \<Rightarrow> bool" where
  "member_inv d \<longleftrightarrow> (\<forall>t. table_inv t d)"

lemma table_inv_frame [simp]:
  shows "table_inv t (report es d) = table_inv t d" and "table_inv t (audit e d) = table_inv t d"
  by (simp_all add: table_inv_def)

lemma member_inv_frame [simp]:
  shows "member_inv (report es d) = member_inv d" and "member_inv (audit e d) = member_inv d"
  by (simp_all add: member_inv_def)

lemma member_inv_withRows:
  assumes "member_inv d" and "distinct (map key rs)"
    and "\<And>r. r \<in> set rs \<Longrightarrow> row_ok r \<and> rw_container r \<in> containers t d \<and> rw_agentId r \<in> ag_id ` set (md_agents d)"
  shows "member_inv (withRows t rs d)"
  using assms by (auto simp: member_inv_def table_inv_def)

lemma member_invD:
  assumes "member_inv d"
  shows "distinct (map key (rows t d))"
    and "r \<in> set (rows t d) \<Longrightarrow> row_ok r \<and> rw_container r \<in> containers t d \<and> rw_agentId r \<in> ag_id ` set (md_agents d)"
  using assms by (auto simp: member_inv_def table_inv_def)

text \<open>What a successful insertion has added.\<close>

lemma rowFor_Some:
  assumes "rowFor m j a = Some r"
  shows "rw_container r = mb_containerId m" and "rw_agentId r = mb_agentId m" and "rw_alias r = a"
    and "rw_isCoordinator r = mb_isCoordinator m" and "rw_joinedAt r = j"
    and "rw_addedByKind r = (if mb_addedByKind m = ''agent'' then ''agent'' else ''user'')"
    and "mb_addedByKind m = ''agent'' \<Longrightarrow> mb_addedByAgentId m = Some (rw_addedByAgentId r)"
    and "mb_addedByKind m \<noteq> ''agent'' \<Longrightarrow> rw_addedByAgentId r = []"
    and "rw_modelProvider r = mb_modelProvider m" and "rw_modelName r = mb_modelName m"
    and "rw_allowedTools r = memberToolsToJson (mb_allowedTools m)"
  using assms by (auto simp: rowFor_def Let_def split: if_splits)

lemma insertMemberRow_Some:
  assumes "insertMemberRow t m j d = Some d1"
  obtains r where "rowFor m j (normalizedAlias (mb_alias m)) = Some r" and "d1 = withRows t (rows t d @ [r]) d"
    and "normalizedAlias (mb_alias m) \<noteq> []" and "md_up d" and "rw_container r \<in> containers t d"
    and "rw_agentId r \<in> ag_id ` set (md_agents d)" and "key r \<notin> key ` set (rows t d)"
  using assms by (auto simp: insertMemberRow_def Let_def split: if_splits option.splits)

lemma insertMemberRow_inv:
  assumes "insertMemberRow t m j d = Some d1" and "member_inv d"
  shows "member_inv d1"
proof -
  from assms(1) obtain r where r: "rowFor m j (normalizedAlias (mb_alias m)) = Some r"
    and d1: "d1 = withRows t (rows t d @ [r]) d" and ne: "normalizedAlias (mb_alias m) \<noteq> []"
    and ok: "rw_container r \<in> containers t d" "rw_agentId r \<in> ag_id ` set (md_agents d)" "key r \<notin> key ` set (rows t d)"
    by (rule insertMemberRow_Some)
  have "row_ok r" using rowFor_Some [OF r] ne by (auto simp: row_ok_def)
  with ok member_invD(1) [OF assms(2)] member_invD(2) [OF assms(2)] show ?thesis
    unfolding d1 by (intro member_inv_withRows [OF assms(2)]) auto
qed

lemma member_inv_filter: "member_inv d \<Longrightarrow> member_inv (withRows t (filter P (rows t d)) d)"
  by (auto intro!: member_inv_withRows distinct_map_filter dest: member_invD)

lemma member_inv_map:
  assumes "member_inv d" and "\<And>r. key (f r) = key r \<and> rw_agentId (f r) = rw_agentId r"
    and "\<And>r. row_ok r \<Longrightarrow> row_ok (f r)"
  shows "member_inv (withRows t (map f (rows t d)) d)"
proof (rule member_inv_withRows [OF assms(1)])
  have "map key (map f (rows t d)) = map key (rows t d)" using assms(2) by simp
  then show "distinct (map key (map f (rows t d)))" using member_invD(1) [OF assms(1)] by metis
  have "rw_container (f r) = rw_container r" for r using assms(2) [of r] by (simp add: key_def)
  then show "row_ok r \<and> rw_container r \<in> containers t d \<and> rw_agentId r \<in> ag_id ` set (md_agents d)"
    if "r \<in> set (map f (rows t d))" for r
    using that assms(2,3) member_invD(2) [OF assms(1)] by auto
qed

lemma addMember_inv: "member_inv d \<Longrightarrow> member_inv (snd (addMember t now m d))"
  by (auto simp: addMember_def intro: insertMemberRow_inv split: option.split)

lemma removeMember_inv: "member_inv d \<Longrightarrow> member_inv (snd (removeMember t c a d))"
  by (simp add: removeMember_def Let_def member_inv_filter)

lemma insertAll_inv: "insertAll t now c ms d = Some d1 \<Longrightarrow> member_inv d \<Longrightarrow> member_inv d1"
  by (induction ms arbitrary: d) (auto intro: insertMemberRow_inv split: option.splits)

lemma setMembers_inv: "member_inv d \<Longrightarrow> member_inv (snd (setMembers t now commits c ms d))"
  by (auto simp: setMembers_def deleteAllMembers_def intro: insertAll_inv member_inv_filter split: option.split)

lemma updateModelOverride_inv: "member_inv d \<Longrightarrow> member_inv (snd (updateModelOverride t c a p n ts d))"
  by (auto simp: updateModelOverride_def Let_def row_ok_def key_def intro!: member_inv_map)

lemma setConversationCoordinator_inv:
  assumes "member_inv d"
  shows "member_inv (snd (setConversationCoordinator commits c a d))"
proof -
  let ?f = "\<lambda>r. if rw_container r = c then r\<lparr>rw_isCoordinator := False\<rparr> else r"
  let ?g = "\<lambda>r. if rw_container r = c \<and> rw_alias r = normalizedAlias a then r\<lparr>rw_isCoordinator := True\<rparr> else r"
  have "member_inv (withRows ConversationMembers (map (\<lambda>r. ?g (?f r)) (rows ConversationMembers d)) d)"
    by (rule member_inv_map [OF assms]) (auto simp: key_def row_ok_def)
  then show ?thesis using assms by (simp add: setConversationCoordinator_def comp_def)
qed

lemma eqNocase_refl [simp]: "eqNocase a a"
  by (simp add: eqNocase_def)

lemma sweep_keeps:
  assumes "distinct (map key (done @ rs))" and "\<forall>r \<in> set (done @ rs). P r"
    and "\<And>r. P r \<Longrightarrow> normalizedAlias (rw_alias r) \<noteq> [] \<Longrightarrow> P (r\<lparr>rw_alias := normalizedAlias (rw_alias r)\<rparr>)"
  shows "distinct (map key (sweep done rs)) \<and> (\<forall>r \<in> set (sweep done rs). P r)"
  using assms(1,2)
proof (induction rs arbitrary: "done")
  case (Cons r rs)
  let ?a = "normalizedAlias (rw_alias r)"
  let ?clash = "\<exists>x \<in> set (done @ r # rs). rw_container x = rw_container r \<and> eqNocase (rw_alias x) ?a"
  let ?r = "if startsWith (rw_alias r) ''@'' \<and> ?a \<noteq> [] \<and> \<not> ?clash then r\<lparr>rw_alias := ?a\<rparr> else r"
  define r' where "r' = ?r"
  have "key r' = key r \<or> key r' \<notin> key ` set (done @ r # rs)"
    unfolding r'_def by (auto simp: key_def)
  then have k: "distinct (map key ((done @ [r']) @ rs))" using Cons.prems(1) by (auto simp: image_iff)
  have "P r'" using Cons.prems(2) assms(3) by (auto simp: r'_def)
  then have p: "\<forall>x \<in> set ((done @ [r']) @ rs). P x" using Cons.prems(2) by auto
  have "sweep done (r # rs) = sweep (done @ [r']) rs" by (simp add: r'_def Let_def)
  with Cons.IH [OF k p] show ?case by simp
qed simp

lemma row_ok_realias: "row_ok r \<Longrightarrow> a \<noteq> [] \<Longrightarrow> trimmed a = a \<Longrightarrow> row_ok (r\<lparr>rw_alias := a\<rparr>)"
  by (simp add: row_ok_def)

lemma normalizeLegacyAliases_inv:
  assumes "member_inv d"
  shows "member_inv (normalizeLegacyAliases d)"
proof -
  have s: "distinct (map key (sweep [] (rows t d))) \<and> (\<forall>r \<in> set (sweep [] (rows t d)). row_ok r \<and>
      rw_container r \<in> containers t d \<and> rw_agentId r \<in> ag_id ` set (md_agents d))" for t
  proof (rule sweep_keeps)
    show "distinct (map key ([] @ rows t d))" using member_invD(1) [OF assms] by simp
    show "\<forall>r \<in> set ([] @ rows t d). row_ok r \<and> rw_container r \<in> containers t d \<and> rw_agentId r \<in> ag_id ` set (md_agents d)"
      using member_invD(2) [OF assms, of _ t] by auto
  qed (simp add: row_ok_realias)
  show ?thesis
  proof (cases "md_up d")
    case True
    have "table_inv t (normalizeLegacyAliases d)" for t
      using s [of t] True by (cases t) (auto simp: table_inv_def normalizeLegacyAliases_def)
    then show ?thesis by (simp add: member_inv_def)
  qed (use assms in \<open>simp add: normalizeLegacyAliases_def\<close>)
qed

section \<open>The tools\<close>

text \<open>All that adding a member by tool does to the tables is a few insertions of members of kind agent.\<close>

inductive agent_adds :: "int \<Rightarrow> member_db \<Rightarrow> member_db \<Rightarrow> bool" for now where
  stay: "agent_adds now d d"
| add: "agent_adds now d d1 \<Longrightarrow> addMember t now m d1 = (b, d2) \<Longrightarrow> mb_addedByKind m = ''agent'' \<Longrightarrow> agent_adds now d d2"

lemma agent_newSeat [simp]: "mb_addedByKind (newSeat c g a co k by p n ts) = k"
  by (simp add: newSeat_def)

lemma agent_adds_join:
  "agent_adds now d d1 \<Longrightarrow> joinConversation now c p a co by d1 = (x, d2) \<Longrightarrow> agent_adds now d d2"
  by (auto simp: joinConversation_def addConversationMember_def split: if_splits prod.splits bool.splits
      elim: agent_adds.add)

lemma agent_adds_invoke: "agent_adds now d (snd (invokeAdd env now args d))"
  by (auto simp: invokeAdd_def addProjectMember_def Let_def split: sum.split option.split prod.split bool.split if_splits
      intro: agent_adds.stay agent_adds.add [OF agent_adds.stay] agent_adds_join [OF agent_adds.add [OF agent_adds.stay]])

lemma agent_adds_inv: "agent_adds now d d1 \<Longrightarrow> member_inv d \<Longrightarrow> member_inv d1"
  by (induction rule: agent_adds.induct) (metis addMember_inv snd_conv)+

lemma invokeRemove_cases:
  assumes "invokeRemove env args d = (x, d1)"
  obtains (same) "d1 = d"
  | (removed) c m where "resolveCoordinatorContext env d args = Inr c"
      "removalTarget (trimmed (arg args ''alias'')) (projectMembers d c) = Some m" "mb_addedByKind m = ''agent''"
      "\<not> (mb_isCoordinator m \<and> coordinatorCount (projectMembers d c) \<le> 1)"
      "removeMember ProjectMembers c (mb_alias m) d = (True, d1)" "x = Inr (c, mb_alias m)"
proof -
  have removeMember_False: "d2 = d0" if "removeMember t c a d0 = (False, d2)" for t c a d0 d2
    using that by (auto simp: removeMember_def Let_def split: if_splits)
  show ?thesis
    using assms that removeMember_False unfolding invokeRemove_def removeProjectMember_def
    by (auto simp: Let_def split: sum.splits option.splits prod.splits bool.splits if_splits)
qed

lemma invokeRemove_inv:
  assumes "member_inv d"
  shows "member_inv (snd (invokeRemove env args d))"
proof -
  obtain x d1 where e: "invokeRemove env args d = (x, d1)" by fastforce
  then have "member_inv d1"
    using removeMember_inv [OF assms] assms by (cases rule: invokeRemove_cases) (simp, metis snd_conv)
  with e show ?thesis by simp
qed

section \<open>Replacing a roster\<close>

text \<open>The row a member of the new list becomes.\<close>

definition seatRow :: "int \<Rightarrow> string \<Rightarrow> seat \<Rightarrow> seat_row option" where
  "seatRow now c m = rowFor (m\<lparr>mb_containerId := c\<rparr>) (case mb_joinedAt m of Some j \<Rightarrow> j | None \<Rightarrow> now)
     (normalizedAlias (mb_alias m))"

lemma seatRow_Some:
  assumes "seatRow now c m = Some r"
  shows "rw_container r = c" and "rw_agentId r = mb_agentId m" and "rw_alias r = normalizedAlias (mb_alias m)"
  using rowFor_Some [OF assms [unfolded seatRow_def]] by simp_all

lemma insertAll_Some:
  "insertAll t now c ms d = Some d1 \<Longrightarrow>
     \<exists>rs. list_all2 (\<lambda>m r. seatRow now c m = Some r) ms rs \<and> d1 = withRows t (rows t d @ rs) d"
proof (induction ms arbitrary: d)
  case (Cons m ms)
  then obtain d2 where i: "insertMemberRow t (m\<lparr>mb_containerId := c\<rparr>)
      (case mb_joinedAt m of Some j \<Rightarrow> j | None \<Rightarrow> now) d = Some d2" and a: "insertAll t now c ms d2 = Some d1"
    by (auto split: option.splits)
  from i obtain r where r: "seatRow now c m = Some r" and d2: "d2 = withRows t (rows t d @ [r]) d"
    by (rule insertMemberRow_Some) (auto simp: seatRow_def)
  from Cons.IH [OF a] obtain rs where "list_all2 (\<lambda>m r. seatRow now c m = Some r) ms rs"
    and "d1 = withRows t (rows t d2 @ rs) d2" by blast
  with r d2 have "list_all2 (\<lambda>m r. seatRow now c m = Some r) (m # ms) (r # rs)"
    and "d1 = withRows t (rows t d @ r # rs) d" by simp_all
  then show ?case by blast
qed simp

lemma insertAll_succeeds:
  assumes "md_up d" and "c \<in> containers t d" and "list_all2 (\<lambda>m r. seatRow now c m = Some r) ms rs"
    and "\<forall>m \<in> set ms. mb_agentId m \<in> ag_id ` set (md_agents d) \<and> normalizedAlias (mb_alias m) \<noteq> []"
    and "distinct (map key (rows t d @ rs))"
  shows "insertAll t now c ms d = Some (withRows t (rows t d @ rs) d)"
  using assms
proof (induction ms arbitrary: d rs)
  case (Cons m ms)
  then obtain r rs' where rs: "rs = r # rs'" and r: "seatRow now c m = Some r"
    and l: "list_all2 (\<lambda>m r. seatRow now c m = Some r) ms rs'" by (auto simp: list_all2_Cons1)
  let ?d = "withRows t (rows t d @ [r]) d"
  have "insertMemberRow t (m\<lparr>mb_containerId := c\<rparr>) (case mb_joinedAt m of Some j \<Rightarrow> j | None \<Rightarrow> now) d = Some ?d"
    using Cons.prems r rs seatRow_Some [OF r] by (simp add: insertMemberRow_def Let_def seatRow_def)
  moreover have "insertAll t now c ms ?d = Some (withRows t (rows t ?d @ rs') ?d)"
    using Cons.prems l rs by (intro Cons.IH) auto
  ultimately show ?case by (simp add: rs)
qed simp

lemma list_all2_seatRow_map: "list_all2 (\<lambda>m r. seatRow now c m = Some r) ms rs \<longleftrightarrow> map (seatRow now c) ms = map Some rs"
  by (auto simp: list_all2_conv_all_nth list_eq_iff_nth_eq)

lemma seatRow_containers: "list_all2 (\<lambda>m r. seatRow now c m = Some r) ms rs \<Longrightarrow> \<forall>r \<in> set rs. rw_container r = c"
  by (induction rule: list_all2_induct) (auto dest: seatRow_Some(1))

lemma seatRow_keys:
  "list_all2 (\<lambda>m r. seatRow now c m = Some r) ms rs \<Longrightarrow>
     map key rs = map (\<lambda>m. (c, normalizedAlias (mb_alias m))) ms"
  by (induction rule: list_all2_induct) (auto simp: key_def dest: seatRow_Some)

lemma filter_other [simp]:
  assumes "\<forall>r \<in> set rs. rw_container r = c"
  shows "filter (\<lambda>r. rw_container r = c) (filter (\<lambda>r. rw_container r \<noteq> c) xs @ rs) = rs"
    and "filter (\<lambda>r. rw_container r \<noteq> c) (filter (\<lambda>r. rw_container r \<noteq> c) xs @ rs) = filter (\<lambda>r. rw_container r \<noteq> c) xs"
  using assms by (auto simp: filter_id_conv)

lemma setMembers_True:
  assumes "setMembers t now commits c ms d = (True, d')"
  obtains rs where "list_all2 (\<lambda>m r. seatRow now c m = Some r) ms rs"
    and "d' = report [changed t c] (withRows t (filter (\<lambda>r. rw_container r \<noteq> c) (rows t d) @ rs) d)"
proof -
  from assms obtain d2 where "insertAll t now c ms (withRows t (filter (\<lambda>r. rw_container r \<noteq> c) (rows t d)) d) = Some d2"
    and d': "d' = report [changed t c] d2"
    by (auto simp: setMembers_def deleteAllMembers_def split: if_splits option.splits)
  from insertAll_Some [OF this(1)] d' that show ?thesis by auto
qed

lemma setMembers_succeeds:
  assumes "md_up d" and "commits" and "c \<noteq> []" and "ms \<noteq> [] \<Longrightarrow> c \<in> containers t d"
    and "list_all2 (\<lambda>m r. seatRow now c m = Some r) ms rs" and "distinct (map key (rows t d))"
    and "\<forall>m \<in> set ms. mb_agentId m \<in> ag_id ` set (md_agents d) \<and> normalizedAlias (mb_alias m) \<noteq> []"
    and "distinct (map (\<lambda>m. normalizedAlias (mb_alias m)) ms)"
  shows "setMembers t now commits c ms d =
    (True, report [changed t c] (withRows t (filter (\<lambda>r. rw_container r \<noteq> c) (rows t d) @ rs) d))"
proof -
  let ?d = "withRows t (filter (\<lambda>r. rw_container r \<noteq> c) (rows t d)) d"
  have rs: "\<forall>r \<in> set rs. rw_container r = c" using assms(5) by (rule seatRow_containers)
  have "distinct (map key rs)"
    unfolding seatRow_keys [OF assms(5)] using assms(8) by (simp add: distinct_map inj_on_def)
  moreover have "key ` {r \<in> set (rows t d). rw_container r \<noteq> c} \<inter> key ` set rs = {}"
    using rs by (auto simp: key_def)
  ultimately have "distinct (map key (rows t ?d @ rs))"
    using assms(6) by (simp add: distinct_map_filter)
  then have "insertAll t now c ms ?d = Some (withRows t (rows t ?d @ rs) ?d)"
    using assms insertAll_succeeds [of ?d c t now ms rs] by (cases "ms = []") simp_all
  then show ?thesis using assms(1-3) by (simp add: setMembers_def deleteAllMembers_def)
qed

section \<open>Reading a roster\<close>

text \<open>Rows with equal times come in some order.\<close>

definition visits :: "member_db \<Rightarrow> bool" where
  "visits d \<longleftrightarrow> (\<forall>rs. mset (md_visit d rs) = mset rs)"

lemma mset_loadMembers:
  assumes "visits d" and "md_up d" and "c \<noteq> []"
  shows "mset (loadMembers t d c) = mset (map (seatOf (md_agents d)) (filter (\<lambda>r. rw_container r = c) (rows t d)))"
  using assms by (simp add: loadMembers_def visits_def)

lemma set_loadMembers:
  assumes "visits d" and "md_up d" and "c \<noteq> []"
  shows "set (loadMembers t d c) = seatOf (md_agents d) ` {r \<in> set (rows t d). rw_container r = c}"
  using arg_cong [OF mset_loadMembers [OF assms, of t], of set_mset] by auto

lemma seatOf_fields [simp]:
  shows "mb_containerId (seatOf ags r) = rw_container r" and "mb_agentId (seatOf ags r) = rw_agentId r"
    and "mb_alias (seatOf ags r) = rw_alias r" and "mb_isCoordinator (seatOf ags r) = rw_isCoordinator r"
    and "mb_joinedAt (seatOf ags r) = Some (rw_joinedAt r)" and "mb_addedByAgentId (seatOf ags r) = Some (rw_addedByAgentId r)"
    and "mb_modelProvider (seatOf ags r) = rw_modelProvider r" and "mb_modelName (seatOf ags r) = rw_modelName r"
    and "mb_allowedTools (seatOf ags r) = memberToolsFromJson (rw_allowedTools r)"
  by (simp_all add: seatOf_def Let_def)

lemma seatOf_kind: "row_ok r \<Longrightarrow> mb_addedByKind (seatOf ags r) = rw_addedByKind r"
  by (auto simp: seatOf_def Let_def row_ok_def)

lemma tools_column [simp]: "memberToolsFromJson (memberToolsToJson ts) = ts"
  by (simp add: memberToolsFromJson_def memberToolsToJson_def comp_def)

lemma find_the_one:
  assumes "x \<in> set xs" and "P x" and "\<And>y. y \<in> set xs \<Longrightarrow> P y \<Longrightarrow> y = x"
  shows "find P xs = Some x"
proof (cases "find P xs")
  case None
  with assms(1,2) show ?thesis by (metis find_None_iff)
next
  case (Some y)
  then show ?thesis using assms(3) find_SomeD [OF Some] by auto
qed

section \<open>What the operations leave alone\<close>

definition keeps :: "member_db \<Rightarrow> member_db \<Rightarrow> bool" where
  "keeps d d' \<longleftrightarrow> md_visit d' = md_visit d \<and> md_up d' = md_up d \<and> md_agents d' = md_agents d \<and>
     md_folders d' = md_folders d \<and> md_chats d' = md_chats d"

lemma keeps_simps [simp]:
  shows "keeps d d" and "keeps d (report es d') = keeps d d'" and "keeps d (audit e d') = keeps d d'"
    and "keeps d (withRows t rs d') = keeps d d'"
  by (simp_all add: keeps_def)

lemma keeps_trans: "keeps d d1 \<Longrightarrow> keeps d1 d2 \<Longrightarrow> keeps d d2"
  by (simp add: keeps_def)

lemma keeps_insert: "insertMemberRow t m j d = Some d1 \<Longrightarrow> keeps d d1"
  by (erule insertMemberRow_Some) simp

lemma keeps_add: "keeps d (snd (addMember t now m d))"
  by (auto simp: addMember_def intro: keeps_insert split: option.split)

lemma keeps_remove: "keeps d (snd (removeMember t c a d))"
  by (simp add: removeMember_def Let_def)

lemma keeps_set: "keeps d (snd (setMembers t now commits c ms d))"
proof (cases "setMembers t now commits c ms d")
  case (Pair ok d')
  show ?thesis
  proof (cases ok)
    case True
    with Pair show ?thesis by (auto elim!: setMembers_True)
  next
    case False
    with Pair show ?thesis by (auto simp: setMembers_def split: if_splits option.splits)
  qed
qed

lemma keeps_invokeRemove: "keeps d (snd (invokeRemove env args d))"
proof -
  obtain x d1 where e: "invokeRemove env args d = (x, d1)" by fastforce
  then have "keeps d d1" using keeps_remove [of d] by (cases rule: invokeRemove_cases) (simp, metis snd_conv)
  with e show ?thesis by simp
qed

lemma keeps_others:
  shows "keeps d (snd (updateModelOverride t c a p n ts d))"
    and "keeps d (snd (setConversationCoordinator commits c a d))" and "keeps d (normalizeLegacyAliases d)"
  by (simp_all add: updateModelOverride_def setConversationCoordinator_def normalizeLegacyAliases_def Let_def report_def keeps_def)

lemmas keeps_operations = keeps_add keeps_remove keeps_set keeps_others keeps_invokeRemove

lemma keeps_agent_adds: "agent_adds now d d1 \<Longrightarrow> keeps d d1"
  by (induction rule: agent_adds.induct) (simp, metis keeps_add keeps_trans snd_conv)

end
