(* ===== verification/Membership_Outcomes.thy ===== *)
theory Membership_Outcomes
  imports Membership_Laws
begin

text \<open>
  What the membership service and its tools promise: the tables under any sequence of operations, the
  replacement of a roster, finding a new member, the coordinator of a conversation, the editor's round
  trip, and the limits on what agents may do to a team.
\<close>

section \<open>The service as a machine\<close>

datatype member_op =
    Adding roster int seat
  | Removing roster string string
  | Replacing roster int bool string "seat list"
  | Overriding roster string string string string "string list"
  | Coordinating bool string string
  | Repairing
  | AddTool tool_env int json_object
  | RemoveTool tool_env json_object

fun member_step :: "member_db \<Rightarrow> member_op \<Rightarrow> member_db" where
  "member_step d (Adding t now m) = snd (addMember t now m d)"
| "member_step d (Removing t c a) = snd (removeMember t c a d)"
| "member_step d (Replacing t now commits c ms) = snd (setMembers t now commits c ms d)"
| "member_step d (Overriding t c a p n ts) = snd (updateModelOverride t c a p n ts d)"
| "member_step d (Coordinating commits c a) = snd (setConversationCoordinator commits c a d)"
| "member_step d Repairing = normalizeLegacyAliases d"
| "member_step d (AddTool env now args) = snd (invokeAdd env now args d)"
| "member_step d (RemoveTool env args) = snd (invokeRemove env args d)"

definition no_members :: "member_db \<Rightarrow> bool" where
  "no_members d \<longleftrightarrow> md_project d = [] \<and> md_conversation d = []"

interpretation members: invariant_machine no_members "\<lambda>_ _. True" member_step member_inv
proof
  fix d :: member_db
  assume n: "no_members d"
  have "table_inv t d" for t using n by (cases t) (simp_all add: table_inv_def no_members_def)
  then show "member_inv d" by (simp add: member_inv_def)
next
  fix d e
  assume i: "member_inv d"
  then show "member_inv (member_step d e)"
    by (cases e) (simp_all add: addMember_inv removeMember_inv setMembers_inv updateModelOverride_inv
      setConversationCoordinator_inv normalizeLegacyAliases_inv agent_adds_inv [OF agent_adds_invoke] invokeRemove_inv)
qed

text \<open>What no operation changes.\<close>

lemma member_steps_keep:
  "md_visit (foldl member_step d ops) = md_visit d \<and> md_up (foldl member_step d ops) = md_up d \<and>
   md_agents (foldl member_step d ops) = md_agents d"
proof (induction ops arbitrary: d)
  case (Cons e ops)
  have "keeps d (member_step d e)"
    by (cases e) (simp_all add: keeps_operations keeps_agent_adds [OF agent_adds_invoke])
  with Cons [of "member_step d e"] show ?case by (simp add: keeps_def)
qed simp

section \<open>A small database\<close>

definition demo_members :: member_db where
  "demo_members = \<lparr>md_up = True,
     md_agents = [\<lparr>ag_id = ''a1'', ag_name = ''Writer'', ag_description = ''Writes'', ag_iconName = [],
                   ag_defaultPattern = ''direct'', ag_isCoordinator = False\<rparr>],
     md_folders = [\<lparr>fo_id = ''p1'', fo_name = ''Book'', fo_folderType = ''project''\<rparr>],
     md_chats = [\<lparr>ch_id = ''c1'', ch_folderId = ''p1'', ch_isGroup = True\<rparr>],
     md_project = [], md_conversation = [], md_visit = (\<lambda>rs. rs), md_audited = False, md_out = []\<rparr>"

definition demo_seat :: "string \<Rightarrow> bool \<Rightarrow> seat" where
  "demo_seat a co = newSeat ''p1'' ''a1'' a co ''user'' None [] [] []"

definition demo_team :: member_db where
  "demo_team = foldl member_step demo_members
     [Adding ProjectMembers 1 (demo_seat ''Boss'' True), Adding ProjectMembers 2 (demo_seat ''Amy'' False)]"

definition demo_boss :: tool_env where
  "demo_boss = \<lparr>tv_valid = True, tv_responderId = ''a1'', tv_responderAlias = ''Boss'', tv_activeConv = ''c1''\<rparr>"

lemma demo_team_inv: "member_inv demo_team"
  unfolding demo_team_def
  by (rule members.reachable_inv) (simp_all add: no_members_def demo_members_def)

lemma demo_team_visits: "visits demo_team"
  by (simp add: visits_def demo_team_def demo_members_def member_steps_keep del: foldl.simps)

text \<open>
  C39. The tables stay well formed.
\<close>

theorem roster_tables_well_formed:
  assumes "md_project d = []" and "md_conversation d = []"
  shows "distinct (map (\<lambda>r. (rw_container r, rw_alias r)) (rows t (foldl member_step d ops))) \<and>
    (\<forall>r \<in> set (rows t (foldl member_step d ops)).
      rw_alias r \<noteq> [] \<and> trimmed (rw_alias r) = rw_alias r \<and>
      (rw_addedByKind r = ''agent'' \<or> rw_addedByKind r = ''user'' \<and> rw_addedByAgentId r = []) \<and>
      rw_container r \<in> containers t (foldl member_step d ops) \<and>
      rw_agentId r \<in> ag_id ` set (md_agents (foldl member_step d ops)))"
proof
  have i: "member_inv (foldl member_step d ops)"
    using assms by (intro members.reachable_inv) (simp_all add: no_members_def)
  have "key = (\<lambda>r. (rw_container r, rw_alias r))" by (simp add: fun_eq_iff key_def)
  then show "distinct (map (\<lambda>r. (rw_container r, rw_alias r)) (rows t (foldl member_step d ops)))"
    using member_invD(1) [OF i] by metis
  show "\<forall>r \<in> set (rows t (foldl member_step d ops)).
      rw_alias r \<noteq> [] \<and> trimmed (rw_alias r) = rw_alias r \<and>
      (rw_addedByKind r = ''agent'' \<or> rw_addedByKind r = ''user'' \<and> rw_addedByAgentId r = []) \<and>
      rw_container r \<in> containers t (foldl member_step d ops) \<and>
      rw_agentId r \<in> ag_id ` set (md_agents (foldl member_step d ops))"
    using member_invD(2) [OF i] by (auto simp: row_ok_def)
qed

theorem roster_tables_well_formed_witness:
  "distinct (map (\<lambda>r. (rw_container r, rw_alias r)) (rows ProjectMembers (foldl member_step demo_members
     [Adding ProjectMembers 1 (demo_seat ''Boss'' True), Adding ProjectMembers 2 (demo_seat ''Amy'' False)])))"
  by (rule roster_tables_well_formed [THEN conjunct1]) (simp_all add: demo_members_def)

section \<open>Rosters\<close>

text \<open>
  Replacing a roster changes all of it or nothing.
\<close>

theorem set_roster_all_or_nothing:
  assumes "setMembers t now commits c ms d = (ok, d')"
  shows "if ok
    then map Some (filter (\<lambda>r. rw_container r = c) (rows t d')) =
           map (\<lambda>m. rowFor (m\<lparr>mb_containerId := c\<rparr>) (case mb_joinedAt m of Some j \<Rightarrow> j | None \<Rightarrow> now)
                  (normalizedAlias (mb_alias m))) ms \<and>
         filter (\<lambda>r. rw_container r \<noteq> c) (rows t d') = filter (\<lambda>r. rw_container r \<noteq> c) (rows t d) \<and>
         (\<forall>t'. t' \<noteq> t \<longrightarrow> rows t' d' = rows t' d) \<and> md_out d' = md_out d @ [changed t c]
    else d' = d"
proof (cases ok)
  case True
  then obtain rs where l: "list_all2 (\<lambda>m r. seatRow now c m = Some r) ms rs"
    and d': "d' = report [changed t c] (withRows t (filter (\<lambda>r. rw_container r \<noteq> c) (rows t d) @ rs) d)"
    using assms by (auto elim: setMembers_True)
  have "map Some rs = map (seatRow now c) ms" using l by (simp add: list_all2_seatRow_map)
  then show ?thesis
    using True seatRow_containers [OF l] by (simp add: d' seatRow_def [abs_def])
next
  case False
  then show ?thesis
    using assms by (auto simp: setMembers_def split: if_splits option.splits)
qed

theorem set_roster_all_or_nothing_witness:
  "setMembers ProjectMembers 5 True ''p1'' [demo_seat ''Zoe'' False, demo_seat ''@'' False] demo_team = (False, demo_team) \<and>
   map rw_alias (filter (\<lambda>r. rw_container r = ''p1'')
     (rows ProjectMembers (snd (setMembers ProjectMembers 5 True ''p1'' [demo_seat ''@Zoe'' False] demo_team)))) = [''Zoe'']"
proof -
  have a: "fst (setMembers ProjectMembers 5 True ''p1'' [demo_seat ''Zoe'' False, demo_seat ''@'' False] demo_team) = False"
    by code_simp
  have b: "fst (setMembers ProjectMembers 5 True ''p1'' [demo_seat ''@Zoe'' False] demo_team) = True" by code_simp
  have c: "map (\<lambda>m. rowFor (m\<lparr>mb_containerId := ''p1''\<rparr>) (case mb_joinedAt m of Some j \<Rightarrow> j | None \<Rightarrow> 5)
      (normalizedAlias (mb_alias m))) [demo_seat ''@Zoe'' False] = [Some \<lparr>rw_container = ''p1'', rw_agentId = ''a1'',
      rw_alias = ''Zoe'', rw_isCoordinator = False, rw_joinedAt = 5, rw_addedByKind = ''user'', rw_addedByAgentId = [],
      rw_modelProvider = [], rw_modelName = [], rw_allowedTools = None\<rparr>]" by code_simp
  from set_roster_all_or_nothing [OF surjective_pairing, of ProjectMembers 5 True "''p1''"
      "[demo_seat ''Zoe'' False, demo_seat ''@'' False]" demo_team] a
  have "setMembers ProjectMembers 5 True ''p1'' [demo_seat ''Zoe'' False, demo_seat ''@'' False] demo_team = (False, demo_team)"
    by (simp add: prod_eq_iff)
  moreover from set_roster_all_or_nothing [OF surjective_pairing, of ProjectMembers 5 True "''p1''"
      "[demo_seat ''@Zoe'' False]" demo_team] b c
  have "map Some (filter (\<lambda>r. rw_container r = ''p1'')
     (rows ProjectMembers (snd (setMembers ProjectMembers 5 True ''p1'' [demo_seat ''@Zoe'' False] demo_team)))) =
     [Some \<lparr>rw_container = ''p1'', rw_agentId = ''a1'',
      rw_alias = ''Zoe'', rw_isCoordinator = False, rw_joinedAt = 5, rw_addedByKind = ''user'', rw_addedByAgentId = [],
      rw_modelProvider = [], rw_modelName = [], rw_allowedTools = None\<rparr>]" by simp
  ultimately show ?thesis by (auto simp: map_eq_Cons_conv)
qed

text \<open>
  The editor's list written back keeps every member but the times of joining.
\<close>

theorem editor_keeps_roster:
  assumes "visits d" and "member_inv d" and "md_up d" and "c \<noteq> []" and "[] \<notin> ag_id ` set (md_agents d)"
    and "\<forall>r \<in> set (rows t d). rw_container r = c \<longrightarrow> cleanAlias (rw_alias r)"
  shows "fst (setMembersFromList t now True c (membersList t d c) d)"
    and "mset (filter (\<lambda>r. rw_container r = c) (rows t (snd (setMembersFromList t now True c (membersList t d c) d)))) =
      mset (map (\<lambda>r. r\<lparr>rw_joinedAt := now\<rparr>) (filter (\<lambda>r. rw_container r = c) (rows t d)))"
proof -
  define ls where "ls = sort_key rw_joinedAt (md_visit d (filter (\<lambda>r. rw_container r = c) (rows t d)))"
  let ?ag = "md_agents d"
  let ?m = "\<lambda>r. seatFromMap c (memberToMap (seatOf ?ag r))"
  let ?new = "\<lambda>r. r\<lparr>rw_joinedAt := now\<rparr>"
  have ms: "mset ls = mset (filter (\<lambda>r. rw_container r = c) (rows t d))"
    using assms(1) by (simp add: ls_def visits_def)
  then have sl: "set ls = {r \<in> set (rows t d). rw_container r = c}" by (metis mset_eq_setD set_filter)
  have ml: "membersList t d c = map (\<lambda>r. memberToMap (seatOf ?ag r)) ls"
    using assms(3,4) by (simp add: membersList_def loadMembers_def ls_def)
  have row: "row_ok r" "rw_agentId r \<in> ag_id ` set ?ag" "rw_container r = c" "c \<in> containers t d"
      "normalizedAlias (rw_alias r) = rw_alias r" if "r \<in> set ls" for r
    using that sl member_invD(2) [OF assms(2), of r t] assms(6) by (auto intro: normalizedAlias_clean)
  have new: "seatRow now c (?m r) = Some (?new r)" if "r \<in> set ls" for r
    using row [OF that] seatOf_kind [OF row(1) [OF that], of ?ag]
    by (cases r) (auto simp: seatRow_def seatFromMap_def memberToMap_def newSeat_def no_seat_def rowFor_def Let_def
      row_ok_def member.defs)
  have set: "setMembersFromList t now True c (membersList t d c) d = setMembers t now True c (map ?m ls) d"
  proof -
    have "rw_agentId r \<noteq> []" if "r \<in> set ls" for r using row(2) [OF that] assms(5) by metis
    then have "filter (\<lambda>m. mb_agentId m \<noteq> [] \<and> mb_alias m \<noteq> []) (map ?m ls) = map ?m ls"
      using row(1) by (auto simp: filter_id_conv seatFromMap_def memberToMap_def newSeat_def row_ok_def)
    then show ?thesis by (simp add: setMembersFromList_def ml comp_def)
  qed
  have "distinct (map key (filter (\<lambda>r. rw_container r = c) (rows t d)))"
    using member_invD(1) [OF assms(2)] by (rule distinct_map_filter)
  then have "distinct (map key ls)" by (metis ms mset_map mset_eq_imp_distinct_iff)
  then have dk: "distinct (map (\<lambda>m. normalizedAlias (mb_alias m)) (map ?m ls))"
    using row by (auto simp: distinct_map inj_on_def key_def seatFromMap_def memberToMap_def newSeat_def)
  have r: "setMembers t now True c (map ?m ls) d = (True, report [changed t c]
      (withRows t (filter (\<lambda>r. rw_container r \<noteq> c) (rows t d) @ map ?new ls) d))"
  proof (rule setMembers_succeeds [OF assms(3) TrueI assms(4)])
    show "c \<in> containers t d" if "map ?m ls \<noteq> []" using row(4) [of "hd ls"] that by simp
    show "list_all2 (\<lambda>m r. seatRow now c m = Some r) (map ?m ls) (map ?new ls)"
      using new by (simp add: list_all2_seatRow_map)
    show "distinct (map key (rows t d))" by (rule member_invD(1) [OF assms(2)])
    show "\<forall>m \<in> set (map ?m ls). mb_agentId m \<in> ag_id ` set ?ag \<and> normalizedAlias (mb_alias m) \<noteq> []"
      using row(1,2,5) by (auto simp: seatFromMap_def memberToMap_def newSeat_def row_ok_def)
  qed (rule dk)
  show "fst (setMembersFromList t now True c (membersList t d c) d)" by (simp add: set r)
  have "\<forall>r \<in> set (map ?new ls). rw_container r = c" using row by auto
  then show "mset (filter (\<lambda>r. rw_container r = c) (rows t (snd (setMembersFromList t now True c (membersList t d c) d)))) =
      mset (map ?new (filter (\<lambda>r. rw_container r = c) (rows t d)))"
    unfolding set r by (simp add: ms)
qed

theorem editor_keeps_roster_witness:
  "fst (setMembersFromList ProjectMembers 9 True ''p1'' (membersList ProjectMembers demo_team ''p1'') demo_team) \<and>
   map (\<lambda>r. (rw_alias r, rw_joinedAt r)) (rows ProjectMembers demo_team) = [(''Boss'', 1), (''Amy'', 2)]"
proof -
  have r: "md_project demo_team = [\<lparr>rw_container = ''p1'', rw_agentId = ''a1'', rw_alias = ''Boss'',
      rw_isCoordinator = True, rw_joinedAt = 1, rw_addedByKind = ''user'', rw_addedByAgentId = [], rw_modelProvider = [],
      rw_modelName = [], rw_allowedTools = None\<rparr>, \<lparr>rw_container = ''p1'', rw_agentId = ''a1'', rw_alias = ''Amy'',
      rw_isCoordinator = False, rw_joinedAt = 2, rw_addedByKind = ''user'', rw_addedByAgentId = [], rw_modelProvider = [],
      rw_modelName = [], rw_allowedTools = None\<rparr>]"
    and u: "md_up demo_team" and g: "map ag_id (md_agents demo_team) = [''a1'']"
    by code_simp+
  have "[] \<notin> set (map ag_id (md_agents demo_team))" unfolding g by simp
  moreover have "cleanAlias ''Boss'' \<and> cleanAlias ''Amy''" by code_simp
  moreover have "visits demo_team" by (rule demo_team_visits)
  ultimately show ?thesis
    using editor_keeps_roster(1) [of demo_team "''p1''" ProjectMembers 9] demo_team_inv u by (simp add: r)
qed

section \<open>Finding members\<close>

lemma seat_found_alias:
  "findByAlias d c w = Some m \<Longrightarrow> m \<in> set (conversationMembers d c) \<and>
     (eqCI (mb_alias m) (normalizedAlias w) \<or> eqCI (normalizeAlias (mb_alias m)) (normalizedAlias w))"
  by (auto simp: findByAlias_def Let_def dest: find_SomeD)

text \<open>
  A member that was added is found by its alias, in any case and with or without sigils.
\<close>

theorem added_member_found:
  assumes "addConversationMember now c g a co k by p n ts d = (True, d')" and "visits d"
    and "eqCI (normalizedAlias w) (normalizedAlias a)"
    and "\<forall>r \<in> set (md_conversation d). rw_container r = c \<longrightarrow> \<not> eqCI (rw_alias r) (normalizedAlias w) \<and>
       \<not> eqCI (normalizeAlias (rw_alias r)) (normalizedAlias w)"
  shows "\<exists>m. findByAlias d' c w = Some m \<and> mb_agentId m = g \<and> mb_alias m = normalizedAlias a \<and>
    mb_isCoordinator m = co \<and> mb_addedByKind m = (if k = ''agent'' then ''agent'' else ''user'') \<and>
    mb_modelProvider m = p \<and> mb_modelName m = n \<and> mb_allowedTools m = ts"
proof -
  let ?s = "newSeat c g a co k by p n ts"
  from assms(1) obtain d1 where c: "c \<noteq> []" and i: "insertMemberRow ConversationMembers ?s now d = Some d1"
    and d': "\<exists>es. d' = report es d1"
    by (auto simp: addConversationMember_def addMember_def newSeat_def audit_def report_def split: if_splits option.splits)
  from i obtain r where rf: "rowFor ?s now (normalizedAlias a) = Some r"
    and d1: "d1 = withRows ConversationMembers (rows ConversationMembers d @ [r]) d" and up: "md_up d"
    by (rule insertMemberRow_Some) (auto simp: newSeat_def)
  note r = rowFor_Some [OF rf, unfolded newSeat_def, simplified]
  let ?m = "seatOf (md_agents d) r"
  let ?P = "\<lambda>m. eqCI (mb_alias m) (normalizedAlias w) \<or> eqCI (normalizeAlias (mb_alias m)) (normalizedAlias w)"
  have "visits d1" and "md_up d1" using assms(2) up by (simp_all add: visits_def d1)
  then have set: "set (conversationMembers d' c) = seatOf (md_agents d) ` {x \<in> set (md_conversation d @ [r]). rw_container x = c}"
    using d' c by (auto simp: conversationMembers_def set_loadMembers d1)
  have "find ?P (conversationMembers d' c) = Some ?m"
  proof (rule find_the_one)
    show "?m \<in> set (conversationMembers d' c)" using r(1) by (simp add: set)
    show "?P ?m" using assms(3) r(3) by (simp add: eqCI_sym)
    show "y = ?m" if "y \<in> set (conversationMembers d' c)" "?P y" for y using that assms(4) by (auto simp: set)
  qed
  then have f: "findByAlias d' c w = Some ?m" by (simp add: findByAlias_def)
  have k: "mb_addedByKind ?m = (if k = ''agent'' then ''agent'' else ''user'')"
    using r(6) by (simp add: seatOf_def Let_def)
  show ?thesis using r k f by simp
qed

theorem added_member_found_witness:
  "\<exists>m. findByAlias (snd (addConversationMember 3 ''c1'' ''a1'' ''@Zoe'' True ''agent'' (Some ''a1'') [] [] [''read'']
     demo_members)) ''c1'' ''@zoe'' = Some m \<and> mb_allowedTools m = [''read'']"
proof -
  let ?r = "addConversationMember 3 ''c1'' ''a1'' ''@Zoe'' True ''agent'' (Some ''a1'') [] [] [''read''] demo_members"
  have "?r = (True, snd ?r)" by (rule prod_eqI) (simp_all, code_simp)
  moreover have "eqCI (normalizedAlias ''@zoe'') (normalizedAlias ''@Zoe'')" by code_simp
  moreover have "visits demo_members" by (simp add: visits_def demo_members_def)
  ultimately show ?thesis
    using added_member_found [of 3 "''c1''" "''a1''" "''@Zoe''" True "''agent''" "Some ''a1''" "[]" "[]" "[''read'']"
      demo_members "snd ?r" "''@zoe''"] by (auto simp: demo_members_def)
qed

section \<open>The coordinator of a conversation\<close>

lemma image_avoids: "x \<notin> f ` S \<Longrightarrow> f ` {r \<in> S. P r} \<inter> {x} = {}"
  by blast

text \<open>
  Setting the coordinator succeeds whatever the alias is: the members with that very alias
  coordinate afterwards, and nobody does when there is none.
\<close>

theorem coordinator_is_set_exactly:
  assumes "setConversationCoordinator commits c a d = (True, d')"
  shows "rw_alias ` {r \<in> set (md_conversation d'). rw_container r = c \<and> rw_isCoordinator r} =
      rw_alias ` {r \<in> set (md_conversation d). rw_container r = c} \<inter> {normalizedAlias a}"
    and "map (\<lambda>r. r\<lparr>rw_isCoordinator := False\<rparr>) (md_conversation d') = map (\<lambda>r. r\<lparr>rw_isCoordinator := False\<rparr>) (md_conversation d)"
    and "filter (\<lambda>r. rw_container r \<noteq> c) (md_conversation d') = filter (\<lambda>r. rw_container r \<noteq> c) (md_conversation d)"
proof -
  let ?g = "\<lambda>r. if rw_container r = c then r\<lparr>rw_isCoordinator := (rw_alias r = normalizedAlias a)\<rparr> else r"
  have d': "md_conversation d' = map ?g (md_conversation d)"
    using assms by (auto simp: setConversationCoordinator_def report_def split: if_splits)
  show "rw_alias ` {r \<in> set (md_conversation d'). rw_container r = c \<and> rw_isCoordinator r} =
      rw_alias ` {r \<in> set (md_conversation d). rw_container r = c} \<inter> {normalizedAlias a}"
  proof (intro equalityI subsetI)
    fix x
    assume "x \<in> rw_alias ` {r \<in> set (md_conversation d'). rw_container r = c \<and> rw_isCoordinator r}"
    then obtain r where r: "r \<in> set (md_conversation d')" "rw_container r = c" "rw_isCoordinator r" "x = rw_alias r" by blast
    from r(1) obtain q where "q \<in> set (md_conversation d)" and "r = ?g q" unfolding d' set_map by (rule imageE)
    with r(2-) show "x \<in> rw_alias ` {r \<in> set (md_conversation d). rw_container r = c} \<inter> {normalizedAlias a}"
      by (auto split: if_splits)
  next
    fix x
    assume "x \<in> rw_alias ` {r \<in> set (md_conversation d). rw_container r = c} \<inter> {normalizedAlias a}"
    then obtain r where r: "r \<in> set (md_conversation d)" "rw_container r = c" "rw_alias r = x" "x = normalizedAlias a" by auto
    have "?g r \<in> set (md_conversation d')" by (simp only: d' set_map) (rule imageI, rule r(1))
    with r have "?g r \<in> {r \<in> set (md_conversation d'). rw_container r = c \<and> rw_isCoordinator r}" by simp
    moreover have "x = rw_alias (?g r)" using r by simp
    ultimately show "x \<in> rw_alias ` {r \<in> set (md_conversation d'). rw_container r = c \<and> rw_isCoordinator r}" by blast
  qed
  show "map (\<lambda>r. r\<lparr>rw_isCoordinator := False\<rparr>) (md_conversation d') = map (\<lambda>r. r\<lparr>rw_isCoordinator := False\<rparr>) (md_conversation d)"
    by (simp add: d')
  show "filter (\<lambda>r. rw_container r \<noteq> c) (md_conversation d') = filter (\<lambda>r. rw_container r \<noteq> c) (md_conversation d)"
  proof -
    have "filter (\<lambda>r. rw_container r \<noteq> c) (map ?g xs) = filter (\<lambda>r. rw_container r \<noteq> c) xs" for xs by (induction xs) auto
    then show ?thesis by (simp only: d')
  qed
qed

text \<open>A small group of Boss, the coordinator, and Amy.\<close>

definition demo_group :: member_db where
  "demo_group = foldl member_step demo_members
     [Adding ConversationMembers 1 ((demo_seat ''Boss'' True)\<lparr>mb_containerId := ''c1''\<rparr>),
      Adding ConversationMembers 2 ((demo_seat ''Amy'' False)\<lparr>mb_containerId := ''c1''\<rparr>)]"

theorem coordinator_is_set_exactly_witness:
  "setConversationCoordinator True ''c1'' ''amy'' demo_group = (True, snd (setConversationCoordinator True ''c1'' ''amy'' demo_group)) \<and>
   rw_alias ` {r \<in> set (md_conversation (snd (setConversationCoordinator True ''c1'' ''amy'' demo_group))).
      rw_container r = ''c1'' \<and> rw_isCoordinator r} = {}"
proof -
  let ?r = "setConversationCoordinator True ''c1'' ''amy'' demo_group"
  have r: "?r = (True, snd ?r)" by (rule prod_eqI) (simp_all, code_simp)
  have "map rw_alias (md_conversation demo_group) = [''Boss'', ''Amy'']" and n: "normalizedAlias ''amy'' = ''amy''" by code_simp+
  then have "rw_alias ` set (md_conversation demo_group) = set [''Boss'', ''Amy'']" by (metis set_map)
  then have "''amy'' \<notin> rw_alias ` set (md_conversation demo_group)" by simp
  then have "rw_alias ` {r \<in> set (md_conversation demo_group). rw_container r = ''c1''} \<inter> {''amy''} = {}"
    by (rule image_avoids)
  with coordinator_is_set_exactly(1) [OF r, unfolded n]
  have "rw_alias ` {r \<in> set (md_conversation (snd ?r)). rw_container r = ''c1'' \<and> rw_isCoordinator r} = {}"
    by (rule trans)
  with r show ?thesis by (rule conjI)
qed

end
