(* ===== verification/Membership_Limits.thy ===== *)
theory Membership_Limits
  imports Membership_Outcomes
begin

text \<open>
  What agents can do to the team of a project with the membership tools: the members the user added and
  the last coordinator stay, as long as no stored alias begins with a sigil. The tools can themselves store
  such an alias, and then an agent can remove a member of the user's. The pages of the list of templates
  cut it without loss.
\<close>

section \<open>One call\<close>

lemma agent_adds_rows: "agent_adds now d d1 \<Longrightarrow> set (rows t d) \<subseteq> set (rows t d1)"
proof (induction rule: agent_adds.induct)
  case (add d d1 t' m b d2)
  have "set (rows t d1) \<subseteq> set (rows t d2)"
    using add(2) by (auto simp: addMember_def split: if_splits option.splits elim!: insertMemberRow_Some)
  with add.IH show ?case by blast
qed simp

lemma removalTarget_Some: "removalTarget a ms = Some m \<Longrightarrow> m \<in> set ms \<and> eqCI (mb_alias m) a"
  by (auto simp: removalTarget_def dest!: find_SomeD)

lemma projectMembers_row:
  assumes "visits d" and "m \<in> set (projectMembers d c)"
  obtains r where "r \<in> set (md_project d)" and "rw_container r = c" and "m = seatOf (md_agents d) r"
proof -
  have "md_up d" and "c \<noteq> []" using assms(2) by (auto simp: projectMembers_def loadMembers_def split: if_splits)
  with assms that show thesis by (auto simp: projectMembers_def set_loadMembers)
qed

lemma coordinatorCount_rows:
  assumes "visits d" and "md_up d" and "c \<noteq> []"
  shows "coordinatorCount (projectMembers d c) =
    length (filter rw_isCoordinator (filter (\<lambda>r. rw_container r = c) (md_project d)))"
proof -
  have "mset xs = mset ys \<Longrightarrow> length (filter P xs) = length (filter P ys)" for P :: "seat \<Rightarrow> bool" and xs ys
    by (metis mset_filter size_mset)
  from this [OF mset_loadMembers [OF assms]] show ?thesis
    by (simp add: coordinatorCount_def projectMembers_def filter_map comp_def)
qed

lemma two_members:
  assumes "distinct xs" and "length xs > 1" and "x \<in> set xs"
  obtains y where "y \<in> set xs" and "y \<noteq> x"
proof -
  have "\<not> set xs \<subseteq> {x}"
    using assms(1,2) card_mono [of "{x}" "set xs"] by (auto simp: distinct_card)
  with that show thesis by auto
qed

text \<open>A removal by tool takes away one row: one that an agent added, and not the last coordinator.\<close>

lemma invokeRemove_effect:
  assumes "invokeRemove env args d = (x, d1)" and "member_inv d" and "visits d"
    and "\<forall>r \<in> set (md_project d). cleanAlias (rw_alias r)"
  obtains (same) "d1 = d"
  | (removed) r where "r \<in> set (md_project d)" and "rw_addedByKind r = ''agent''"
      and "set (md_project d1) = set (md_project d) - {r}" and "md_conversation d1 = md_conversation d"
      and "rw_isCoordinator r \<Longrightarrow>
        \<exists>r' \<in> set (md_project d1). rw_container r' = rw_container r \<and> rw_isCoordinator r'"
  using assms(1)
proof (cases rule: invokeRemove_cases)
  case (removed c m)
  from removed(2) have m: "m \<in> set (projectMembers d c)" by (auto dest: removalTarget_Some)
  then have up: "md_up d" "c \<noteq> []" by (auto simp: projectMembers_def loadMembers_def split: if_splits)
  obtain r where r: "r \<in> set (md_project d)" "rw_container r = c" "m = seatOf (md_agents d) r"
    by (rule projectMembers_row [OF assms(3) m])
  have ok: "row_ok r" using member_invD(2) [OF assms(2), of r ProjectMembers] r(1) by simp
  have a: "normalizedAlias (mb_alias m) = rw_alias r" using r assms(4) by (simp add: normalizedAlias_clean)
  have dk: "distinct (map key (md_project d))" using member_invD(1) [OF assms(2), of ProjectMembers] by simp
  have d1: "md_project d1 = filter (\<lambda>q. \<not> (rw_container q = c \<and> rw_alias q = rw_alias r)) (md_project d)"
    and conv: "md_conversation d1 = md_conversation d"
    using removed(5) a by (auto simp: removeMember_def Let_def report_def audit_def split: if_splits)
  have one: "rw_container q = c \<and> rw_alias q = rw_alias r \<longleftrightarrow> q = r" if "q \<in> set (md_project d)" for q
    using inj_onD [of key "set (md_project d)" q r] dk that r(1,2) by (auto simp: distinct_map key_def)
  then have s: "set (md_project d1) = set (md_project d) - {r}" unfolding d1 by auto
  have k: "rw_addedByKind r = ''agent''" using removed(3) r(3) seatOf_kind [OF ok] by simp
  have "\<exists>r' \<in> set (md_project d1). rw_container r' = rw_container r \<and> rw_isCoordinator r'" if co: "rw_isCoordinator r"
  proof -
    let ?xs = "filter rw_isCoordinator (filter (\<lambda>r. rw_container r = c) (md_project d))"
    have "length ?xs > 1" using removed(4) co r(3) coordinatorCount_rows [OF assms(3) up] by simp
    moreover have "distinct ?xs" using dk by (simp add: distinct_map)
    ultimately obtain r' where "r' \<in> set ?xs" "r' \<noteq> r" using co r(1,2) by (auto elim: two_members)
    then show ?thesis using r(2) s by auto
  qed
  with that(2) [OF r(1) k s conv] show thesis by blast
qed (use that in blast)

section \<open>Any calls\<close>

fun is_tool :: "member_op \<Rightarrow> bool" where
  "is_tool (AddTool env now args) = True"
| "is_tool (RemoveTool env args) = True"
| "is_tool _ = False"

definition tool_call_ok :: "member_db \<Rightarrow> member_op \<Rightarrow> bool" where
  "tool_call_ok d op \<longleftrightarrow> is_tool op \<and> (\<forall>r \<in> set (md_project d). cleanAlias (rw_alias r))"

definition coordinated :: "string \<Rightarrow> member_db \<Rightarrow> bool" where
  "coordinated c d \<longleftrightarrow> (\<exists>r \<in> set (md_project d). rw_container r = c \<and> rw_isCoordinator r)"

definition team_kept :: "member_db \<Rightarrow> member_db \<Rightarrow> bool" where
  "team_kept d0 d \<longleftrightarrow> member_inv d \<and> visits d \<and>
     (\<forall>r \<in> set (md_project d0). rw_addedByKind r = ''user'' \<longrightarrow> r \<in> set (md_project d)) \<and>
     (\<forall>c. coordinated c d0 \<longrightarrow> coordinated c d) \<and> set (md_conversation d0) \<subseteq> set (md_conversation d)"

lemma team_kept_trans: "team_kept d0 d \<Longrightarrow> team_kept d d' \<Longrightarrow> team_kept d0 d'"
  by (auto simp: team_kept_def)

lemma tool_keeps_team:
  assumes "tool_call_ok d op" and "member_inv d" and "visits d"
  shows "team_kept d (member_step d op)"
proof -
  have v: "visits (member_step d op)" using assms(3) member_steps_keep [of d "[op]"] by (simp add: visits_def)
  have i: "member_inv (member_step d op)" by (rule members.step_inv [OF assms(2) TrueI])
  show ?thesis
  proof (cases op)
    case (AddTool env now args)
    have "agent_adds now d (member_step d op)" using AddTool by (simp add: agent_adds_invoke)
    from agent_adds_rows [OF this, of ProjectMembers] agent_adds_rows [OF this, of ConversationMembers] i v
    show ?thesis by (auto simp: team_kept_def coordinated_def)
  next
    case (RemoveTool env args)
    obtain x d1 where e: "invokeRemove env args d = (x, d1)" by fastforce
    have c: "\<forall>r \<in> set (md_project d). cleanAlias (rw_alias r)" using assms(1) by (simp add: tool_call_ok_def)
    have "team_kept d d1" if "member_inv d1" and "visits d1"
      using e assms(2,3) c
    proof (cases rule: invokeRemove_effect)
      case (removed r)
      have "coordinated k d1" if "coordinated k d" for k
        using that removed(3,5) by (cases "rw_isCoordinator r \<and> rw_container r = k") (auto simp: coordinated_def)
      with removed(2,3,4) that show ?thesis by (auto simp: team_kept_def)
    qed (use that in \<open>simp add: team_kept_def\<close>)
    with e i v RemoveTool show ?thesis by simp
  qed (use assms(1) in \<open>simp_all add: tool_call_ok_def\<close>)
qed

interpretation team: invariant_machine "\<lambda>d. d = d0 \<and> member_inv d0 \<and> visits d0" tool_call_ok member_step "team_kept d0"
  for d0
proof
  show "team_kept d0 d" if "d = d0 \<and> member_inv d0 \<and> visits d0" for d
    using that by (simp add: team_kept_def)
  show "team_kept d0 (member_step d op)" if "team_kept d0 d" and "tool_call_ok d op" for d op
  proof (rule team_kept_trans [OF that(1)])
    show "team_kept d (member_step d op)" using that by (intro tool_keeps_team) (simp_all add: team_kept_def)
  qed
qed

text \<open>
  C14. Agents can remove neither the members of the user nor the last coordinator.
\<close>

theorem tools_keep_users_team:
  assumes "member_inv d" and "visits d" and "admitted tool_call_ok member_step d ops"
  shows "(\<forall>r \<in> set (md_project d). rw_addedByKind r = ''user'' \<longrightarrow> r \<in> set (md_project (foldl member_step d ops))) \<and>
    (\<forall>c. (\<exists>r \<in> set (md_project d). rw_container r = c \<and> rw_isCoordinator r) \<longrightarrow>
      (\<exists>r \<in> set (md_project (foldl member_step d ops)). rw_container r = c \<and> rw_isCoordinator r)) \<and>
    set (md_conversation d) \<subseteq> set (md_conversation (foldl member_step d ops))"
  using team.reachable_inv [of d d ops] assms by (simp add: team_kept_def coordinated_def)

definition demo_calls :: "string \<Rightarrow> string \<Rightarrow> member_op list" where
  "demo_calls added removed =
     [AddTool demo_boss 3 [(''alias'', JStr added), (''agent_name'', JStr ''Writer'')],
      RemoveTool demo_boss [(''alias'', JStr removed)]]"

theorem tools_keep_users_team_witness:
  "map rw_alias (md_project (foldl member_step demo_team (demo_calls ''@Zoe'' ''zoe''))) = [''Boss'', ''Amy''] \<and>
   set (filter (\<lambda>r. rw_addedByKind r = ''user'') (md_project demo_team)) \<subseteq>
      set (md_project (foldl member_step demo_team (demo_calls ''@Zoe'' ''zoe'')))"
proof -
  have clean: "(\<forall>r \<in> set (md_project d). cleanAlias (rw_alias r)) \<longleftrightarrow> list_all cleanAlias (map rw_alias (md_project d))" for d
    by (simp add: list_all_iff)
  have "list_all cleanAlias (map rw_alias (md_project demo_team)) \<and>
      list_all cleanAlias (map rw_alias (md_project (member_step demo_team (hd (demo_calls ''@Zoe'' ''zoe'')))))" by code_simp
  then have "admitted tool_call_ok member_step demo_team (demo_calls ''@Zoe'' ''zoe'')"
    by (simp add: demo_calls_def tool_call_ok_def clean del: member_step.simps)
  moreover have "map rw_alias (md_project (foldl member_step demo_team (demo_calls ''@Zoe'' ''zoe''))) = [''Boss'', ''Amy'']"
    by code_simp
  ultimately show ?thesis
    using tools_keep_users_team [OF demo_team_inv demo_team_visits, of "demo_calls ''@Zoe'' ''zoe''"] by auto
qed

section \<open>Beyond the limits\<close>

text \<open>
  With an alias that keeps a sigil an agent removes a member the user added.
\<close>

theorem sigil_removes_users_member:
  "map (\<lambda>r. (rw_alias r, rw_addedByKind r)) (md_project demo_team) = [(''Boss'', ''user''), (''Amy'', ''user'')] \<and>
   map (\<lambda>r. (rw_alias r, rw_addedByKind r)) (md_project (foldl member_step demo_team (demo_calls ''@ @ @Amy'' ''@Amy''))) =
     [(''Boss'', ''user''), (''@Amy'', ''agent'')]"
  by code_simp

text \<open>
  A seat that is not on the roster acts as the coordinator when the coordinator has its template.
\<close>

theorem template_shares_coordination:
  "map rw_alias (filter rw_isCoordinator (md_project demo_team)) = [''Boss''] \<and>
   ''Eve'' \<notin> set (map rw_alias (md_project demo_team)) \<and>
   resolveCoordinatorContext (demo_boss\<lparr>tv_responderAlias := ''Eve''\<rparr>) demo_team [] = Inr ''p1'' \<and>
   resolveCoordinatorContext (demo_boss\<lparr>tv_responderAlias := ''Amy''\<rparr>) demo_team [] = Inl NotCoordinator"
  by code_simp

text \<open>
  The pages of the templates cut the list without loss, as far as the numbers stay in the range of int.
\<close>

theorem template_pages_cut_the_list:
  assumes "1 \<le> sz" and "int n * sz < 2 ^ 31"
  shows "(\<forall>p \<in> {1..n}. pageSlice (int p) sz xs \<noteq> None) \<and>
    concat (map (\<lambda>p. the (pageSlice (int p) sz xs)) [1..<Suc n]) = take (n * nat sz) xs"
  using assms(2)
proof (induction n)
  case (Suc n)
  have b: "int n * sz + sz < 2 ^ 31" using Suc.prems by (simp add: distrib_right)
  have n: "int n * sz < 2 ^ 31" using b assms(1) by linarith
  have s: "pageSlice (int (Suc n)) sz xs = Some (take (nat sz) (drop (n * nat sz) xs))"
    using b n assms(1) by (simp add: pageSlice_def Let_def nat_mult_distrib)
  have "take (Suc n * nat sz) xs = take (n * nat sz) xs @ take (nat sz) (drop (n * nat sz) xs)"
    by (metis add.commute mult_Suc take_add)
  moreover have "{1..Suc n} = insert (Suc n) {1..n}" by auto
  ultimately show ?case using Suc.IH [OF n] s by simp
qed simp

theorem template_pages_cut_the_list_witness:
  "concat (map (\<lambda>p. the (pageSlice (int p) 2 [''a'', ''b'', ''c''])) [1..<Suc 2]) = [''a'', ''b'', ''c''] \<and>
   pageSlice 60000000 50 [''a''] = None"
  using template_pages_cut_the_list [of 2 2 "[''a'', ''b'', ''c'']"] by (simp add: pageSlice_def)

end
