(* ===== verification/Poll_Service.thy ===== *)
theory Poll_Service
  imports Message_Service
begin

text \<open>
  Polls in a conversation (backend/models/poll.h, backend/services/poll-service.cpp) on the tables polls,
  poll_options and poll_votes (backend/models/db-manager.cpp), which live beside the tables of the message
  service: a poll references a conversation, and a new poll is shown by a message. A time is a number of
  milliseconds; its ISO text sorts and parses as the number. An operation reads the clock once. The source
  of fresh ids is an argument: \<open>uuid 0\<close>, \<open>uuid 1\<close> and so on are the ids in the order in which the code
  draws them. Signals and audit entries are appended to \<open>pv_out\<close>.
\<close>

section \<open>State\<close>

record poll =
  po_id :: string
  po_conversationId :: string
  po_creatorKind :: string
  po_creatorAlias :: string
  po_question :: string
  po_mode :: string
  po_status :: string
  po_createdAt :: int
  po_closesAt :: "int option"
  po_closedAt :: "int option"

definition isOpen :: "poll \<Rightarrow> bool" where
  "isOpen p \<longleftrightarrow> po_status p = ''open''"

record poll_option =
  pt_id :: string
  pt_pollId :: string
  pt_ordering :: nat
  pt_text :: string

record poll_vote =
  vt_id :: string
  vt_pollId :: string
  vt_voterKind :: string
  vt_voterAlias :: string
  vt_optionId :: string
  vt_castAt :: int

datatype poll_event =
    PollCreatedSignal string string
  | PollUpdated string string
  | PollClosed string string
  | VoteCast string string string string
  | AuditPollCreated string string string string string string
  | AuditPollVote string string string string string
  | AuditPollClosed string string

record poll_service =
  pv_messages :: msg_service
  pv_hasMessages :: bool
  pv_audited :: bool
  pv_polls :: "poll list"
  pv_options :: "poll_option list"
  pv_votes :: "poll_vote list"
  pv_out :: "poll_event list"

definition up :: "poll_service \<Rightarrow> bool" where
  "up s \<longleftrightarrow> st_up (ms_store (pv_messages s))"

definition announce :: "poll_event list \<Rightarrow> poll_service \<Rightarrow> poll_service" where
  "announce es s = s\<lparr>pv_out := pv_out s @ es\<rparr>"

definition auditPoll :: "poll_event \<Rightarrow> poll_service \<Rightarrow> poll_service" where
  "auditPoll e s = (if pv_audited s then announce [e] s else s)"

section \<open>Reading\<close>

definition pollById :: "poll_service \<Rightarrow> string \<Rightarrow> poll option" where
  "pollById s i = (if i = [] \<or> \<not> up s then None else find (\<lambda>p. po_id p = i) (pv_polls s))"

definition optionsForPoll :: "poll_service \<Rightarrow> string \<Rightarrow> poll_option list" where
  "optionsForPoll s i =
     (if i = [] \<or> \<not> up s then [] else sort_key pt_ordering (filter (\<lambda>q. pt_pollId q = i) (pv_options s)))"

definition votesForPoll :: "poll_service \<Rightarrow> string \<Rightarrow> poll_vote list" where
  "votesForPoll s i =
     (if i = [] \<or> \<not> up s then [] else sort_key vt_castAt (filter (\<lambda>v. vt_pollId v = i) (pv_votes s)))"

section \<open>Creating a poll\<close>

definition kMinOptions :: nat where "kMinOptions = 2"
definition kMaxOptions :: nat where "kMaxOptions = 10"

text \<open>The distinct options that are not blank, in their order.\<close>

fun cleanOptions :: "string list \<Rightarrow> string list \<Rightarrow> string list" where
  "cleanOptions lowerSeen [] = []"
| "cleanOptions lowerSeen (raw # rest) =
     (let t = trimmed raw in
      if t = [] then cleanOptions lowerSeen rest
      else if toLower t \<in> set lowerSeen then cleanOptions lowerSeen rest
      else t # cleanOptions (lowerSeen @ [toLower t]) rest)"

definition insertPollRow :: "poll \<Rightarrow> poll_service \<Rightarrow> poll_service option" where
  "insertPollRow p s =
     (if up s \<and> po_id p \<notin> po_id ` set (pv_polls s) \<and>
         po_conversationId p \<in> cv_id ` set (st_convs (ms_store (pv_messages s))) \<and>
         po_creatorKind p \<in> {''agent'', ''user''} \<and> po_mode p \<in> {''single'', ''multi'', ''ranked''}
      then Some (s\<lparr>pv_polls := pv_polls s @ [p]\<rparr>) else None)"

definition insertOption :: "poll_option \<Rightarrow> poll_service \<Rightarrow> poll_service option" where
  "insertOption q s =
     (if up s \<and> pt_id q \<notin> pt_id ` set (pv_options s) \<and> pt_pollId q \<in> po_id ` set (pv_polls s) \<and>
         \<not> (\<exists>r \<in> set (pv_options s). pt_pollId r = pt_pollId q \<and> pt_ordering r = pt_ordering q)
      then Some (s\<lparr>pv_options := pv_options s @ [q]\<rparr>) else None)"

fun insertOptions :: "(nat \<Rightarrow> string) \<Rightarrow> string \<Rightarrow> nat \<Rightarrow> string list \<Rightarrow> poll_service \<Rightarrow> poll_service option" where
  "insertOptions uuid pollId n [] s = Some s"
| "insertOptions uuid pollId n (opt # opts) s =
     (case insertOption \<lparr>pt_id = uuid (Suc n), pt_pollId = pollId, pt_ordering = n, pt_text = opt\<rparr> s of
        None \<Rightarrow> None
      | Some s1 \<Rightarrow> insertOptions uuid pollId (Suc n) opts s1)"

definition pollCard :: "string \<Rightarrow> string \<Rightarrow> string \<Rightarrow> string \<Rightarrow> json_object" where
  "pollCard pollId creatorKind creatorAlias question =
     [(''poll_id'', JStr pollId), (''produced_by'', JStr ''poll_service''), (''poll_creator_kind'', JStr creatorKind),
      (''poll_creator_alias'', JStr creatorAlias), (''poll_question'', JStr question)]"

definition autoPersistPollMessage ::
    "int \<Rightarrow> string \<Rightarrow> string \<Rightarrow> string \<Rightarrow> string \<Rightarrow> string \<Rightarrow> string \<Rightarrow> poll_service \<Rightarrow> poll_service" where
  "autoPersistPollMessage now msgUuid convId pollId creatorKind creatorAlias question s =
     (if \<not> pv_hasMessages s \<or> convId = [] \<or> pollId = [] then s
      else s\<lparr>pv_messages := snd (addInterveningSystemMessage now msgUuid convId (''Poll started: '' @ question)
             (pollCard pollId creatorKind creatorAlias question) (pv_messages s))\<rparr>)"

text \<open>What the code asks of its arguments before it starts the transaction.\<close>

definition resolvedMode :: "string \<Rightarrow> string" where
  "resolvedMode mode = (if mode = [] then ''single'' else toLower mode)"

definition validPoll :: "string \<Rightarrow> string \<Rightarrow> string \<Rightarrow> string \<Rightarrow> string list \<Rightarrow> string \<Rightarrow> bool" where
  "validPoll conversationId creatorAlias creatorKind question options mode \<longleftrightarrow>
     conversationId \<noteq> [] \<and> creatorAlias \<noteq> [] \<and> trimmed question \<noteq> [] \<and>
     creatorKind \<in> {''agent'', ''user''} \<and> kMinOptions \<le> length options \<and> length options \<le> kMaxOptions \<and>
     resolvedMode mode \<in> {''single'', ''multi''} \<and> kMinOptions \<le> length (cleanOptions [] options)"

definition newPoll :: "int \<Rightarrow> string \<Rightarrow> string \<Rightarrow> string \<Rightarrow> string \<Rightarrow> string \<Rightarrow> string \<Rightarrow> int \<Rightarrow> poll" where
  "newPoll now pollId conversationId creatorAlias creatorKind question mode closesInMinutes =
     \<lparr>po_id = pollId, po_conversationId = conversationId, po_creatorKind = creatorKind, po_creatorAlias = creatorAlias,
      po_question = trimmed question, po_mode = resolvedMode mode, po_status = ''open'', po_createdAt = now,
      po_closesAt = (if closesInMinutes > 0 then Some (now + closesInMinutes * 60 * 1000) else None), po_closedAt = None\<rparr>"

text \<open>\<open>commits\<close> says whether the COMMIT succeeds; the result is the id of the poll, or empty.\<close>

definition createPoll ::
    "int \<Rightarrow> (nat \<Rightarrow> string) \<Rightarrow> bool \<Rightarrow> string \<Rightarrow> string \<Rightarrow> string \<Rightarrow> string \<Rightarrow> string list \<Rightarrow> string \<Rightarrow> int \<Rightarrow>
      poll_service \<Rightarrow> string \<times> poll_service" where
  "createPoll now uuid commits conversationId creatorAlias creatorKind question options mode closesInMinutes s =
     (if \<not> validPoll conversationId creatorAlias creatorKind question options mode \<or> \<not> up s then ([], s)
      else case insertPollRow (newPoll now (uuid 0) conversationId creatorAlias creatorKind question mode closesInMinutes) s of
        None \<Rightarrow> ([], s)
      | Some s1 \<Rightarrow>
          (case insertOptions uuid (uuid 0) 0 (cleanOptions [] options) s1 of
             None \<Rightarrow> ([], s)
           | Some s2 \<Rightarrow>
               if \<not> commits then ([], s)
               else (uuid 0, auditPoll (AuditPollCreated conversationId (uuid 0) creatorKind creatorAlias (trimmed question)
                                  (resolvedMode mode))
                       (announce [PollCreatedSignal conversationId (uuid 0), PollUpdated conversationId (uuid 0)]
                          (autoPersistPollMessage now (uuid (Suc (length (cleanOptions [] options)))) conversationId (uuid 0)
                             creatorKind creatorAlias (trimmed question) s2)))))"

section \<open>Closing\<close>

definition closeRow :: "int \<Rightarrow> string \<Rightarrow> poll list \<Rightarrow> poll list" where
  "closeRow now i ps = map (\<lambda>p. if po_id p = i then p\<lparr>po_status := ''closed'', po_closedAt := Some now\<rparr> else p) ps"

text \<open>The conversation of the poll when this call has closed it.\<close>

definition maybeLazyAutoClose :: "int \<Rightarrow> string \<Rightarrow> poll_service \<Rightarrow> string option \<times> poll_service" where
  "maybeLazyAutoClose now i s =
     (case pollById s i of
        None \<Rightarrow> (None, s)
      | Some p \<Rightarrow>
          if \<not> isOpen p then (None, s)
          else (case po_closesAt p of
             None \<Rightarrow> (None, s)
           | Some closesAt \<Rightarrow>
               if now < closesAt then (None, s)
               else (Some (po_conversationId p), auditPoll (AuditPollClosed (po_conversationId p) i)
                      (s\<lparr>pv_polls := closeRow now i (pv_polls s)\<rparr>))))"

definition closeIfDue :: "int \<Rightarrow> string \<Rightarrow> poll_service \<Rightarrow> poll_service" where
  "closeIfDue now i s =
     (case maybeLazyAutoClose now i s of
        (None, s1) \<Rightarrow> s1
      | (Some c, s1) \<Rightarrow> announce [PollUpdated c i, PollClosed c i] s1)"

definition closePoll :: "int \<Rightarrow> string \<Rightarrow> poll_service \<Rightarrow> bool \<times> poll_service" where
  "closePoll now i s =
     (case pollById s i of
        None \<Rightarrow> (False, s)
      | Some p \<Rightarrow>
          if \<not> isOpen p then (True, s)
          else (True, auditPoll (AuditPollClosed (po_conversationId p) i)
                  (announce [PollUpdated (po_conversationId p) i, PollClosed (po_conversationId p) i]
                     (s\<lparr>pv_polls := closeRow now i (pv_polls s)\<rparr>))))"

section \<open>Voting\<close>

text \<open>The id of the chosen option: the given one when it is an option of the poll, or the first option
  with the text.\<close>

definition resolveOption :: "poll_service \<Rightarrow> string \<Rightarrow> string \<Rightarrow> string \<Rightarrow> string option" where
  "resolveOption s pollId optionId optionText =
     (if optionId = [] then map_option pt_id (find (\<lambda>q. eqCI (pt_text q) optionText) (optionsForPoll s pollId))
      else if \<exists>q \<in> set (pv_options s). pt_id q = optionId \<and> pt_pollId q = pollId then Some optionId else None)"

definition insertVoteOrIgnore :: "poll_vote \<Rightarrow> poll_vote list \<Rightarrow> poll_vote list" where
  "insertVoteOrIgnore v vs =
     (if vt_id v \<in> vt_id ` set vs \<or>
         (\<exists>w \<in> set vs. vt_pollId w = vt_pollId v \<and> vt_voterAlias w = vt_voterAlias v \<and> vt_optionId w = vt_optionId v)
      then vs else vs @ [v])"

definition castVote ::
    "int \<Rightarrow> (nat \<Rightarrow> string) \<Rightarrow> string \<Rightarrow> string \<Rightarrow> string \<Rightarrow> string \<Rightarrow> string \<Rightarrow> poll_service \<Rightarrow> bool \<times> poll_service" where
  "castVote now uuid pollId voterAlias voterKind optionId optionText s =
     (if pollId = [] \<or> voterAlias = [] then (False, s)
      else if voterKind \<noteq> ''agent'' \<and> voterKind \<noteq> ''user'' then (False, s)
      else if optionId = [] \<and> optionText = [] then (False, s)
      else
        let s1 = closeIfDue now pollId s in
        case pollById s1 pollId of
          None \<Rightarrow> (False, s1)
        | Some p \<Rightarrow>
            if \<not> isOpen p then (False, s1)
            else (case resolveOption s1 pollId optionId optionText of
               None \<Rightarrow> (False, s1)
             | Some opt \<Rightarrow>
                 let kept = (if po_mode p = ''single''
                             then filter (\<lambda>v. \<not> (vt_pollId v = pollId \<and> vt_voterAlias v = voterAlias)) (pv_votes s1)
                             else pv_votes s1);
                     v = \<lparr>vt_id = uuid 0, vt_pollId = pollId, vt_voterKind = voterKind, vt_voterAlias = voterAlias,
                          vt_optionId = opt, vt_castAt = now\<rparr>
                 in (True, auditPoll (AuditPollVote (po_conversationId p) pollId voterKind voterAlias optionText)
                      (announce [VoteCast (po_conversationId p) pollId voterAlias opt, PollUpdated (po_conversationId p) pollId]
                         (s1\<lparr>pv_votes := insertVoteOrIgnore v kept\<rparr>)))))"

section \<open>Results\<close>

record poll_view =
  vw_poll :: poll
  vw_options :: "(poll_option \<times> nat) list"
  vw_winners :: "string list"
  vw_total :: nat
  vw_voters :: nat

definition tally :: "poll_vote list \<Rightarrow> poll_option \<Rightarrow> nat" where
  "tally votes q = length (filter (\<lambda>v. vt_optionId v = pt_id q) votes)"

text \<open>The loop of the code starts the maximum at -1; there is a winner only when it ends above 0.\<close>

definition projectPoll :: "poll \<Rightarrow> poll_option list \<Rightarrow> poll_vote list \<Rightarrow> poll_view" where
  "projectPoll p opts votes =
     (let maxVotes = foldl (\<lambda>m q. if int (tally votes q) > m then int (tally votes q) else m) (-1) opts in
      \<lparr>vw_poll = p, vw_options = map (\<lambda>q. (q, tally votes q)) opts,
       vw_winners = (if maxVotes > 0 then map pt_id (filter (\<lambda>q. int (tally votes q) = maxVotes) opts) else []),
       vw_total = length votes, vw_voters = length (remdups (map vt_voterAlias votes))\<rparr>)"

definition viewOf :: "poll_service \<Rightarrow> string \<Rightarrow> poll_view option" where
  "viewOf s i = map_option (\<lambda>p. projectPoll p (optionsForPoll s i) (votesForPoll s i)) (pollById s i)"

definition pollResults :: "int \<Rightarrow> string \<Rightarrow> poll_service \<Rightarrow> poll_view option \<times> poll_service" where
  "pollResults now i s =
     (if i = [] then (None, s) else let s1 = closeIfDue now i s in (viewOf s1 i, s1))"

text \<open>Every poll is closed if it is due, and then the signals of those that were are emitted.\<close>

fun closeAllDue :: "int \<Rightarrow> string list \<Rightarrow> poll_service \<Rightarrow> string list \<times> poll_service" where
  "closeAllDue now [] s = ([], s)"
| "closeAllDue now (i # is) s =
     (let (c, s1) = maybeLazyAutoClose now i s; (flipped, s2) = closeAllDue now is s1
      in (if c = None then flipped else i # flipped, s2))"

definition pollsForConversation :: "int \<Rightarrow> string \<Rightarrow> bool \<Rightarrow> poll_service \<Rightarrow> poll_view list \<times> poll_service" where
  "pollsForConversation now c openOnly s =
     (if c = [] \<or> \<not> up s then ([], s)
      else
        let ids = map po_id (sort_key (\<lambda>p. - po_createdAt p)
              (filter (\<lambda>p. po_conversationId p = c \<and> (openOnly \<longrightarrow> isOpen p)) (pv_polls s)));
            (flipped, s1) = closeAllDue now ids s;
            s2 = announce (concat (map (\<lambda>i. [PollUpdated c i, PollClosed c i]) flipped)) s1;
            finalIds = (if openOnly then filter (\<lambda>i. case pollById s2 i of Some p \<Rightarrow> isOpen p | None \<Rightarrow> False) ids else ids)
        in (List.map_filter (viewOf s2) finalIds, s2))"

end
