(* ===== verification/Poll_Tools.thy ===== *)
theory Poll_Tools
  imports Poll_Service
begin

text \<open>
  The four tools by which agents use polls (backend/tools/polls/poll-tools.cpp). The caller is the alias
  that the arguments carry, else the responder of the current turn, else ''assistant''. A refusal is the
  error object the tool returns, without its wording.
\<close>

record poll_env =
  pe_valid :: bool
  pe_responderAlias :: string
  pe_activeConv :: string

datatype poll_refusal =
    NotConfigured | NeedsConversation | QuestionRequired | TooFewOptions | TooManyOptions | BadMode
  | DuplicateOf string string | NotCreated | PollIdRequired | OptionRequired | VoteRefused | UnknownPoll | NotClosed

definition textArg :: "json_object \<Rightarrow> string \<Rightarrow> string" where
  "textArg args k = toString (member_of args k)"

definition resolveCaller :: "poll_env \<Rightarrow> json_object \<Rightarrow> string" where
  "resolveCaller env args =
     (let injected = textArg args ''__caller_agent_alias'' in
      if injected \<noteq> [] then injected
      else if pe_responderAlias env \<noteq> [] then pe_responderAlias env else ''assistant'')"

definition resolveConvId :: "poll_env \<Rightarrow> json_object \<Rightarrow> string" where
  "resolveConvId env args =
     (let injected = textArg args ''__caller_conv_id'' in if injected \<noteq> [] then injected else pe_activeConv env)"

definition optionTexts :: "json_object \<Rightarrow> string list" where
  "optionTexts args = (case member_of args ''options'' of Some (JArr xs) \<Rightarrow> map (\<lambda>v. toString (Some v)) xs | _ \<Rightarrow> [])"

text \<open>A number outside the range of int counts as 0, as does a negative one.\<close>

definition minutesArg :: "json_object \<Rightarrow> int" where
  "minutesArg args =
     (case member_of args ''closes_in_minutes'' of Some (JNum n) \<Rightarrow> if 0 \<le> n \<and> n < 2 ^ 31 then n else 0 | _ \<Rightarrow> 0)"

text \<open>The poll without its conversation; \<open>None\<close> is the empty object.\<close>

definition startPoll ::
    "poll_env \<Rightarrow> int \<Rightarrow> (nat \<Rightarrow> string) \<Rightarrow> bool \<Rightarrow> json_object \<Rightarrow> poll_service \<Rightarrow> (poll_refusal + poll_view option) \<times> poll_service" where
  "startPoll env now uuid commits args s =
     (if \<not> pe_valid env then (Inl NotConfigured, s)
      else
        let convId = resolveConvId env args; question = trimmed (textArg args ''question''); opts = optionTexts args;
            m = toLower (textArg args ''mode''); mode = (if m = [] then ''single'' else m)
        in if convId = [] then (Inl NeedsConversation, s)
           else if question = [] then (Inl QuestionRequired, s)
           else if length opts < 2 then (Inl TooFewOptions, s)
           else if length opts > 10 then (Inl TooManyOptions, s)
           else if mode \<noteq> ''single'' \<and> mode \<noteq> ''multi'' then (Inl BadMode, s)
           else
             let needle = toLower (trimmed question); (existing, s1) = pollsForConversation now convId True s in
             (case find (\<lambda>v. toLower (trimmed (po_question (vw_poll v))) = needle) existing of
                Some v \<Rightarrow> (Inl (DuplicateOf (po_id (vw_poll v)) question), s1)
              | None \<Rightarrow>
                  (let (pollId, s2) = createPoll now uuid commits convId (resolveCaller env args) ''agent'' question opts mode
                                        (minutesArg args) s1
                   in if pollId = [] then (Inl NotCreated, s2)
                      else map_prod Inr id (pollResults now pollId s2))))"

definition castVoteTool ::
    "poll_env \<Rightarrow> int \<Rightarrow> (nat \<Rightarrow> string) \<Rightarrow> json_object \<Rightarrow> poll_service \<Rightarrow> (poll_refusal + poll_view option) \<times> poll_service" where
  "castVoteTool env now uuid args s =
     (if \<not> pe_valid env then (Inl NotConfigured, s)
      else
        let pollId = trimmed (textArg args ''poll_id''); optionId = trimmed (textArg args ''option_id'');
            optionText = trimmed (textArg args ''option_text'')
        in if pollId = [] then (Inl PollIdRequired, s)
           else if optionId = [] \<and> optionText = [] then (Inl OptionRequired, s)
           else case castVote now uuid pollId (resolveCaller env args) ''agent'' optionId optionText s of
             (False, s1) \<Rightarrow> (Inl VoteRefused, s1)
           | (True, s1) \<Rightarrow> map_prod Inr id (pollResults now pollId s1))"

text \<open>The state of one poll, or of every poll of the conversation.\<close>

definition getPollResults ::
    "poll_env \<Rightarrow> int \<Rightarrow> json_object \<Rightarrow> poll_service \<Rightarrow> (poll_refusal + poll_view list) \<times> poll_service" where
  "getPollResults env now args s =
     (if \<not> pe_valid env then (Inl NotConfigured, s)
      else
        let pollId = trimmed (textArg args ''poll_id'') in
        if pollId \<noteq> [] then
          (case pollResults now pollId s of
             (None, s1) \<Rightarrow> (Inl UnknownPoll, s1)
           | (Some v, s1) \<Rightarrow> (Inr [v], s1))
        else
          let convId = resolveConvId env args in
          if convId = [] then (Inl NeedsConversation, s)
          else map_prod Inr id (pollsForConversation now convId False s))"

definition closePollTool ::
    "poll_env \<Rightarrow> int \<Rightarrow> json_object \<Rightarrow> poll_service \<Rightarrow> (poll_refusal + poll_view option) \<times> poll_service" where
  "closePollTool env now args s =
     (if \<not> pe_valid env then (Inl NotConfigured, s)
      else
        let pollId = trimmed (textArg args ''poll_id'') in
        if pollId = [] then (Inl PollIdRequired, s)
        else case closePoll now pollId s of
          (False, s1) \<Rightarrow> (Inl NotClosed, s1)
        | (True, s1) \<Rightarrow> map_prod Inr id (pollResults now pollId s1))"

end
