(* ===== verification/Poll_Laws.thy ===== *)
theory Poll_Laws
  imports Poll_Tools
begin

text \<open>
  Every operation of the poll service and of the poll tools changes the tables by a few kinds of steps,
  the relation \<open>evolves\<close>. The invariant of the tables and the fate of closed polls follow by induction
  over it.
\<close>

section \<open>Steps\<close>

definition newVote :: "poll_vote \<Rightarrow> poll \<Rightarrow> poll_service \<Rightarrow> poll_vote list" where
  "newVote v p s = insertVoteOrIgnore v (if po_mode p = ''single''
     then filter (\<lambda>w. \<not> (vt_pollId w = vt_pollId v \<and> vt_voterAlias w = vt_voterAlias v)) (pv_votes s) else pv_votes s)"

inductive evolves :: "poll_service \<Rightarrow> poll_service \<Rightarrow> bool" where
  same: "evolves s s"
| said: "evolves s t \<Longrightarrow> evolves s (announce es t)"
| shut: "evolves s t \<Longrightarrow> p \<in> set (pv_polls t) \<Longrightarrow> isOpen p \<Longrightarrow>
    evolves s (t\<lparr>pv_polls := closeRow now (po_id p) (pv_polls t)\<rparr>)"
| voted: "evolves s t \<Longrightarrow> p \<in> set (pv_polls t) \<Longrightarrow> isOpen p \<Longrightarrow> vt_pollId v = po_id p \<Longrightarrow>
    (\<And>c. po_closesAt p = Some c \<Longrightarrow> vt_castAt v < c) \<Longrightarrow>
    q \<in> set (pv_options t) \<Longrightarrow> pt_id q = vt_optionId v \<Longrightarrow> pt_pollId q = po_id p \<Longrightarrow>
    evolves s (t\<lparr>pv_votes := newVote v p t\<rparr>)"
| made: "evolves s t \<Longrightarrow> insertPollRow p t = Some t1 \<Longrightarrow> insertOptions uuid (po_id p) 0 (cleanOptions [] opts) t1 = Some t2 \<Longrightarrow>
    2 \<le> length (cleanOptions [] opts) \<Longrightarrow> length opts \<le> 10 \<Longrightarrow> po_mode p \<in> {''single'', ''multi''} \<Longrightarrow>
    po_status p = ''open'' \<Longrightarrow> po_closedAt p = None \<Longrightarrow> po_id p \<noteq> [] \<Longrightarrow> trimmed (po_question p) = po_question p \<Longrightarrow>
    po_question p \<noteq> [] \<Longrightarrow> evolves s (t2\<lparr>pv_messages := ms\<rparr>)"

lemma evolves_audit: "evolves s t \<Longrightarrow> evolves s (auditPoll e t)"
  by (simp add: auditPoll_def evolves.said)

lemma evolves_trans: "evolves t u \<Longrightarrow> evolves s t \<Longrightarrow> evolves s u"
  by (induction rule: evolves.induct) (auto intro: evolves.intros)

lemma pollById_Some: "pollById s i = Some p \<Longrightarrow> p \<in> set (pv_polls s) \<and> po_id p = i \<and> i \<noteq> [] \<and> up s"
  by (auto simp: pollById_def split: if_splits dest: find_SomeD)

lemma evolves_lazy: "evolves s t \<Longrightarrow> evolves s (snd (maybeLazyAutoClose now i t))"
  by (auto simp: maybeLazyAutoClose_def split: option.split dest!: pollById_Some intro!: evolves_audit evolves.shut)

lemma evolves_closeIfDue: "evolves s t \<Longrightarrow> evolves s (closeIfDue now i t)"
  using evolves_lazy [of s t now i]
  by (auto simp: closeIfDue_def split: prod.split option.split intro: evolves.said)

lemma evolves_closePoll: "evolves s t \<Longrightarrow> evolves s (snd (closePoll now i t))"
  by (auto simp: closePoll_def split: option.split dest!: pollById_Some intro!: evolves_audit evolves.said evolves.shut)

lemma evolves_results: "evolves s t \<Longrightarrow> evolves s (snd (pollResults now i t))"
  by (simp add: pollResults_def Let_def evolves_closeIfDue)

lemma evolves_closeAllDue: "evolves s t \<Longrightarrow> evolves s (snd (closeAllDue now is t))"
proof (induction "is" arbitrary: t)
  case (Cons i "is")
  from Cons.IH [OF evolves_lazy [OF Cons.prems]] show ?case by (simp add: case_prod_beta Let_def)
qed simp

lemma evolves_list: "evolves s t \<Longrightarrow> evolves s (snd (pollsForConversation now c b t))"
  by (simp add: pollsForConversation_def Let_def case_prod_beta evolves.said evolves_closeAllDue)

text \<open>A poll that is still open after the check is not due.\<close>

lemma closeIfDue_cases:
  "closeIfDue now i s = s \<or> (\<exists>p es. pollById s i = Some p \<and> isOpen p \<and> (\<exists>c. po_closesAt p = Some c \<and> c \<le> now) \<and>
     closeIfDue now i s = announce es (s\<lparr>pv_polls := closeRow now i (pv_polls s)\<rparr>))"
  by (auto simp: closeIfDue_def maybeLazyAutoClose_def auditPoll_def announce_def split: option.split)

lemma pollById_closeRow:
  "pollById (announce es (s\<lparr>pv_polls := closeRow now i (pv_polls s)\<rparr>)) j =
     map_option (\<lambda>p. if po_id p = i then p\<lparr>po_status := ''closed'', po_closedAt := Some now\<rparr> else p) (pollById s j)"
proof -
  have "find (\<lambda>p. po_id p = j) (closeRow now i ps) =
      map_option (\<lambda>p. if po_id p = i then p\<lparr>po_status := ''closed'', po_closedAt := Some now\<rparr> else p) (find (\<lambda>p. po_id p = j) ps)" for ps
    unfolding closeRow_def by (induction ps) auto
  then show ?thesis by (simp add: pollById_def up_def announce_def)
qed

lemma open_not_due:
  assumes "pollById (closeIfDue now i s) i = Some p" and "isOpen p"
  shows "closeIfDue now i s = s" and "po_closesAt p = Some c \<Longrightarrow> now < c"
proof -
  have shut: "\<not> isOpen q" if "pollById (announce es (s\<lparr>pv_polls := closeRow now i (pv_polls s)\<rparr>)) i = Some q" for q es
    using that by (auto simp: pollById_closeRow isOpen_def dest: pollById_Some)
  with assms closeIfDue_cases [of now i s] show s: "closeIfDue now i s = s" by metis
  show "now < c" if "po_closesAt p = Some c"
  proof (rule ccontr)
    assume "\<not> now < c"
    with that assms s have "closeIfDue now i s = announce [PollUpdated (po_conversationId p) i, PollClosed (po_conversationId p) i]
        (auditPoll (AuditPollClosed (po_conversationId p) i) (s\<lparr>pv_polls := closeRow now i (pv_polls s)\<rparr>))"
      by (simp add: closeIfDue_def maybeLazyAutoClose_def)
    then have "\<exists>es. closeIfDue now i s = announce es (s\<lparr>pv_polls := closeRow now i (pv_polls s)\<rparr>)"
      by (auto simp: auditPoll_def announce_def)
    with shut assms show False by metis
  qed
qed

lemma resolveOption_Some:
  assumes "resolveOption s i oid txt = Some opt"
  obtains q where "q \<in> set (pv_options s)" and "pt_id q = opt" and "pt_pollId q = i"
proof (cases "oid = []")
  case True
  with assms obtain q where "find (\<lambda>q. eqCI (pt_text q) txt) (optionsForPoll s i) = Some q" "pt_id q = opt"
    by (auto simp: resolveOption_def)
  with that show thesis by (auto simp: optionsForPoll_def split: if_splits dest!: find_SomeD)
qed (use assms that in \<open>auto simp: resolveOption_def split: if_splits\<close>)

lemma evolves_castVote: "evolves s t \<Longrightarrow> evolves s (snd (castVote now uuid i a k oid txt t))"
proof -
  assume e: "evolves s t"
  show ?thesis
  proof (cases "\<exists>p opt. pollById (closeIfDue now i t) i = Some p \<and> isOpen p \<and> resolveOption (closeIfDue now i t) i oid txt = Some opt")
    case True
    then obtain p opt where p: "pollById (closeIfDue now i t) i = Some p" "isOpen p"
      and o: "resolveOption (closeIfDue now i t) i oid txt = Some opt" by blast
    have t: "closeIfDue now i t = t" using open_not_due(1) [OF p] .
    from o obtain q where q: "q \<in> set (pv_options t)" "pt_id q = opt" "pt_pollId q = i" unfolding t by (rule resolveOption_Some)
    let ?v = "\<lparr>vt_id = uuid 0, vt_pollId = i, vt_voterKind = k, vt_voterAlias = a, vt_optionId = opt, vt_castAt = now\<rparr>"
    have "evolves s (t\<lparr>pv_votes := newVote ?v p t\<rparr>)"
      using e p q pollById_Some [OF p(1)] open_not_due(2) [OF p] by (intro evolves.voted) (auto simp: t)
    then have "evolves s (auditPoll (AuditPollVote (po_conversationId p) i k a txt)
        (announce [VoteCast (po_conversationId p) i a opt, PollUpdated (po_conversationId p) i] (t\<lparr>pv_votes := newVote ?v p t\<rparr>)))"
      by (intro evolves_audit evolves.said)
    moreover have "snd (castVote now uuid i a k oid txt t) \<in> {t, auditPoll (AuditPollVote (po_conversationId p) i k a txt)
        (announce [VoteCast (po_conversationId p) i a opt, PollUpdated (po_conversationId p) i] (t\<lparr>pv_votes := newVote ?v p t\<rparr>))}"
      using p o by (simp add: castVote_def t newVote_def)
    ultimately show ?thesis using e by auto
  next
    case False
    with evolves_closeIfDue [OF e, of now i] e show ?thesis
      by (auto simp: castVote_def Let_def split: option.split)
  qed
qed

lemma evolves_createPoll:
  assumes "evolves s t" and "uuid 0 \<noteq> []"
  shows "evolves s (snd (createPoll now uuid commits c a k q opts m mins t))"
proof -
  let ?p = "newPoll now (uuid 0) c a k q m mins"
  have made: "evolves s (autoPersistPollMessage now u c (uuid 0) k a (trimmed q) t2)"
    if v: "validPoll c a k q opts m" and i: "insertPollRow ?p t = Some t1"
      and o: "insertOptions uuid (uuid 0) 0 (cleanOptions [] opts) t1 = Some t2" for t1 t2 u
  proof -
    have "evolves s (t2\<lparr>pv_messages := ms\<rparr>)" for ms
      using evolves.made [OF assms(1) i, of uuid opts t2 ms] o v assms(2)
      by (simp add: newPoll_def validPoll_def kMinOptions_def kMaxOptions_def)
    from this this [of "pv_messages t2"] show ?thesis by (simp add: autoPersistPollMessage_def)
  qed
  show ?thesis
    unfolding createPoll_def using assms(1)
    by (auto split: option.split intro!: evolves_audit evolves.said made)
qed

section \<open>The invariant\<close>

definition choices :: "poll_service \<Rightarrow> string \<Rightarrow> string list" where
  "choices s i = map pt_text (filter (\<lambda>q. pt_pollId q = i) (pv_options s))"

definition choices_ok :: "string list \<Rightarrow> bool" where
  "choices_ok ts \<longleftrightarrow> 2 \<le> length ts \<and> length ts \<le> 10 \<and> distinct (map toLower ts) \<and>
     list_all (\<lambda>t. trimmed t = t \<and> t \<noteq> []) ts"

definition ballots :: "poll_service \<Rightarrow> string \<Rightarrow> poll_vote list" where
  "ballots s i = filter (\<lambda>v. vt_pollId v = i) (pv_votes s)"

definition vote_ok :: "poll_service \<Rightarrow> poll_vote \<Rightarrow> bool" where
  "vote_ok s v \<longleftrightarrow>
     (\<exists>p \<in> set (pv_polls s). po_id p = vt_pollId v \<and> (\<forall>c. po_closesAt p = Some c \<longrightarrow> vt_castAt v < c)) \<and>
     (\<exists>q \<in> set (pv_options s). pt_id q = vt_optionId v \<and> pt_pollId q = vt_pollId v)"

text \<open>The votes of one poll: nobody votes twice for an option, and in a single vote nobody votes twice.\<close>

definition fair :: "poll \<Rightarrow> poll_vote list \<Rightarrow> bool" where
  "fair p vs \<longleftrightarrow> distinct (map (\<lambda>v. (vt_voterAlias v, vt_optionId v)) vs) \<and>
     (po_mode p = ''single'' \<longrightarrow> distinct (map vt_voterAlias vs))"

definition poll_ok :: "poll_service \<Rightarrow> poll \<Rightarrow> bool" where
  "poll_ok s p \<longleftrightarrow> po_id p \<noteq> [] \<and> po_mode p \<in> {''single'', ''multi''} \<and> (isOpen p \<longleftrightarrow> po_closedAt p = None) \<and>
     choices_ok (choices s (po_id p)) \<and> fair p (ballots s (po_id p))"

definition poll_inv :: "poll_service \<Rightarrow> bool" where
  "poll_inv s \<longleftrightarrow> distinct (map po_id (pv_polls s)) \<and> distinct (map pt_id (pv_options s)) \<and>
     (\<forall>p \<in> set (pv_polls s). poll_ok s p) \<and> (\<forall>q \<in> set (pv_options s). pt_pollId q \<in> po_id ` set (pv_polls s)) \<and>
     (\<forall>v \<in> set (pv_votes s). vote_ok s v)"

lemma announce_frame [simp]:
  shows "pv_polls (announce es s) = pv_polls s" and "pv_options (announce es s) = pv_options s"
    and "pv_votes (announce es s) = pv_votes s" and "pv_messages (announce es s) = pv_messages s"
    and "up (announce es s) = up s"
  by (simp_all add: announce_def up_def)

lemma poll_inv_tables:
  assumes "pv_polls t = pv_polls s" and "pv_options t = pv_options s" and "pv_votes t = pv_votes s"
  shows "poll_inv t = poll_inv s"
  using assms by (simp add: poll_inv_def poll_ok_def choices_def ballots_def vote_ok_def)

lemma poll_inv_announce [simp]: "poll_inv (announce es s) = poll_inv s"
  by (rule poll_inv_tables) simp_all

lemma poll_invD:
  assumes "poll_inv s"
  shows "p \<in> set (pv_polls s) \<Longrightarrow> poll_ok s p" and "v \<in> set (pv_votes s) \<Longrightarrow> vote_ok s v"
    and "p \<in> set (pv_polls s) \<Longrightarrow> p' \<in> set (pv_polls s) \<Longrightarrow> po_id p = po_id p' \<Longrightarrow> p = p'"
  using assms by (auto simp: poll_inv_def distinct_map dest: inj_onD)

lemma closeRow_ids: "map po_id (closeRow now i ps) = map po_id ps"
  by (simp add: closeRow_def comp_def)

lemma closeRow_set:
  "p \<in> set (closeRow now i ps) \<Longrightarrow> \<exists>p' \<in> set ps. p = (if po_id p' = i then p'\<lparr>po_status := ''closed'', po_closedAt := Some now\<rparr> else p')"
  by (auto simp: closeRow_def)

lemma shut_inv:
  assumes "poll_inv s"
  shows "poll_inv (s\<lparr>pv_polls := closeRow now i (pv_polls s)\<rparr>)"
proof -
  let ?t = "s\<lparr>pv_polls := closeRow now i (pv_polls s)\<rparr>"
  have ids: "map po_id (pv_polls ?t) = map po_id (pv_polls s)" by (simp add: closeRow_ids)
  have "poll_ok ?t p" if t: "p \<in> set (pv_polls ?t)" for p
  proof -
    from t obtain p' where p': "p' \<in> set (pv_polls s)"
      and p: "p = (if po_id p' = i then p'\<lparr>po_status := ''closed'', po_closedAt := Some now\<rparr> else p')"
      by (auto dest!: closeRow_set)
    from poll_invD(1) [OF assms p'] show ?thesis
      by (cases "po_id p' = i") (simp_all add: p poll_ok_def choices_def ballots_def fair_def isOpen_def)
  qed
  moreover have "vote_ok ?t v" if "v \<in> set (pv_votes s)" for v
  proof -
    from poll_invD(2) [OF assms that] obtain p where p: "p \<in> set (pv_polls s)" "po_id p = vt_pollId v"
      "\<forall>c. po_closesAt p = Some c \<longrightarrow> vt_castAt v < c" by (auto simp: vote_ok_def)
    let ?p = "if po_id p = i then p\<lparr>po_status := ''closed'', po_closedAt := Some now\<rparr> else p"
    have "?p \<in> set (pv_polls ?t)" using p(1) unfolding closeRow_def by simp
    moreover have "po_id ?p = vt_pollId v \<and> (\<forall>c. po_closesAt ?p = Some c \<longrightarrow> vt_castAt v < c)" using p by simp
    ultimately have "\<exists>p \<in> set (pv_polls ?t). po_id p = vt_pollId v \<and> (\<forall>c. po_closesAt p = Some c \<longrightarrow> vt_castAt v < c)"
      by blast
    with poll_invD(2) [OF assms that] show ?thesis by (simp add: vote_ok_def)
  qed
  moreover have "po_id ` set (pv_polls ?t) = po_id ` set (pv_polls s)" using ids by (metis set_map)
  moreover have "distinct (map po_id (pv_polls ?t))" unfolding ids using assms by (simp add: poll_inv_def)
  ultimately show ?thesis using assms by (simp add: poll_inv_def)
qed

section \<open>A vote\<close>

lemma newVote_set: "set (newVote v p s) \<subseteq> insert v (set (pv_votes s))"
  by (auto simp: newVote_def insertVoteOrIgnore_def split: if_splits)

lemma newVote_other:
  "vt_pollId v \<noteq> i \<Longrightarrow> filter (\<lambda>w. vt_pollId w = i) (newVote v p s) = filter (\<lambda>w. vt_pollId w = i) (pv_votes s)"
  by (auto simp: newVote_def insertVoteOrIgnore_def intro!: filter_cong)

lemma fair_filter: "fair p vs \<Longrightarrow> fair p (filter Q vs)"
  by (simp add: fair_def distinct_map_filter)

lemma fair_newVote:
  assumes "fair p (filter (\<lambda>w. vt_pollId w = vt_pollId v) (pv_votes s))"
  shows "fair p (filter (\<lambda>w. vt_pollId w = vt_pollId v) (newVote v p s))"
proof -
  let ?P = "\<lambda>w. vt_pollId w = vt_pollId v"
  define kept where "kept = (if po_mode p = ''single''
     then filter (\<lambda>w. \<not> (vt_pollId w = vt_pollId v \<and> vt_voterAlias w = vt_voterAlias v)) (pv_votes s) else pv_votes s)"
  have e: "filter ?P kept = filter (\<lambda>w. po_mode p = ''single'' \<longrightarrow> vt_voterAlias w \<noteq> vt_voterAlias v) (filter ?P (pv_votes s))"
    by (auto simp: kept_def intro!: filter_cong)
  have k: "fair p (filter ?P kept)" unfolding e using assms by (rule fair_filter)
  have alone: "vt_voterAlias v \<notin> vt_voterAlias ` set (filter ?P kept)" if "po_mode p = ''single''"
    using that by (auto simp: kept_def)
  have "newVote v p s = kept \<or> newVote v p s = kept @ [v] \<and>
      (\<forall>w \<in> set (filter ?P kept). \<not> (vt_voterAlias w = vt_voterAlias v \<and> vt_optionId w = vt_optionId v))"
    by (auto simp: newVote_def insertVoteOrIgnore_def kept_def [symmetric])
  then show ?thesis
  proof
    assume n: "newVote v p s = kept @ [v] \<and>
      (\<forall>w \<in> set (filter ?P kept). \<not> (vt_voterAlias w = vt_voterAlias v \<and> vt_optionId w = vt_optionId v))"
    then have "(vt_voterAlias v, vt_optionId v) \<notin> (\<lambda>w. (vt_voterAlias w, vt_optionId w)) ` set (filter ?P kept)" by auto
    with n k alone show ?thesis by (simp add: fair_def)
  qed (simp add: k)
qed

lemma voted_inv:
  assumes "poll_inv s" and "p \<in> set (pv_polls s)" and "vt_pollId v = po_id p"
    and "\<And>c. po_closesAt p = Some c \<Longrightarrow> vt_castAt v < c"
    and "q \<in> set (pv_options s)" and "pt_id q = vt_optionId v" and "pt_pollId q = po_id p"
  shows "poll_inv (s\<lparr>pv_votes := newVote v p s\<rparr>)"
proof -
  let ?t = "s\<lparr>pv_votes := newVote v p s\<rparr>"
  have "poll_ok ?t p'" if p': "p' \<in> set (pv_polls s)" for p'
  proof (cases "po_id p' = po_id p")
    case True
    then have "p' = p" using p' assms(1,2) by (blast dest: poll_invD(3))
    with poll_invD(1) [OF assms(1,2)] fair_newVote [of p v s] assms(3) show ?thesis
      by (simp add: poll_ok_def choices_def ballots_def)
  next
    case False
    with poll_invD(1) [OF assms(1) p'] newVote_other [of v "po_id p'" p s] assms(3) show ?thesis
      by (simp add: poll_ok_def choices_def ballots_def)
  qed
  moreover have "vote_ok ?t w" if "w \<in> set (newVote v p s)" for w
  proof (cases "w = v")
    case True
    with assms(2-) show ?thesis by (auto simp: vote_ok_def)
  next
    case False
    with that newVote_set [of v p s] have "w \<in> set (pv_votes s)" by auto
    from poll_invD(2) [OF assms(1) this] show ?thesis by (simp add: vote_ok_def)
  qed
  ultimately show ?thesis using assms(1) by (simp add: poll_inv_def)
qed

section \<open>A new poll\<close>

lemma cleanOptions_trimmed: "list_all (\<lambda>t. trimmed t = t \<and> t \<noteq> []) (cleanOptions seen opts)"
  by (induction seen opts rule: cleanOptions.induct) (simp_all add: Let_def)

lemma cleanOptions_facts:
  "distinct (map toLower (cleanOptions seen opts)) \<and> (\<forall>t \<in> set (cleanOptions seen opts). t \<noteq> [] \<and> toLower t \<notin> set seen) \<and>
   length (cleanOptions seen opts) \<le> length opts"
proof (induction seen opts rule: cleanOptions.induct)
  case (2 seen raw rest)
  let ?t = "trimmed raw"
  consider "?t = [] \<or> ?t \<noteq> [] \<and> toLower ?t \<in> set seen" | (new) "?t \<noteq> []" "toLower ?t \<notin> set seen" by blast
  then show ?case
  proof cases
    case 1
    with 2(1,2) show ?thesis by (auto simp: Let_def)
  next
    case new
    from 2(3) [OF refl new] have i: "distinct (map toLower (cleanOptions (seen @ [toLower ?t]) rest))"
      "\<forall>u \<in> set (cleanOptions (seen @ [toLower ?t]) rest). u \<noteq> [] \<and> toLower u \<notin> set (seen @ [toLower ?t])"
      "length (cleanOptions (seen @ [toLower ?t]) rest) \<le> length rest" by blast+
    then have "toLower ?t \<notin> toLower ` set (cleanOptions (seen @ [toLower ?t]) rest)" by (metis imageE in_set_conv_decomp)
    with i new show ?thesis by (simp add: Let_def)
  qed
qed simp

lemma insertOptions_Some:
  "insertOptions uuid i n opts s = Some s' \<Longrightarrow>
     \<exists>qs. s' = s\<lparr>pv_options := pv_options s @ qs\<rparr> \<and> map pt_text qs = opts \<and> (\<forall>q \<in> set qs. pt_pollId q = i) \<and>
       (distinct (map pt_id (pv_options s)) \<longrightarrow> distinct (map pt_id (pv_options s @ qs)))"
proof (induction uuid i n opts s rule: insertOptions.induct)
  case (2 uuid i n opt opts s)
  let ?q = "\<lparr>pt_id = uuid (Suc n), pt_pollId = i, pt_ordering = n, pt_text = opt\<rparr>"
  from 2(2) obtain s1 where s1: "insertOption ?q s = Some s1" and r: "insertOptions uuid i (Suc n) opts s1 = Some s'"
    by (auto split: option.splits)
  from s1 have e: "s1 = s\<lparr>pv_options := pv_options s @ [?q]\<rparr>" and f: "uuid (Suc n) \<notin> pt_id ` set (pv_options s)"
    by (auto simp: insertOption_def split: if_splits)
  from 2(1) [OF s1 r] obtain qs where "s' = s1\<lparr>pv_options := pv_options s1 @ qs\<rparr>" "map pt_text qs = opts"
    "\<forall>q \<in> set qs. pt_pollId q = i" "distinct (map pt_id (pv_options s1)) \<longrightarrow> distinct (map pt_id (pv_options s1 @ qs))" by blast
  moreover have "distinct (map pt_id (pv_options s1))" if "distinct (map pt_id (pv_options s))"
    using that f by (simp add: e)
  ultimately have "s' = s\<lparr>pv_options := pv_options s @ ?q # qs\<rparr> \<and> map pt_text (?q # qs) = opt # opts \<and>
      (\<forall>q \<in> set (?q # qs). pt_pollId q = i) \<and>
      (distinct (map pt_id (pv_options s)) \<longrightarrow> distinct (map pt_id (pv_options s @ ?q # qs)))"
    by (simp add: e)
  then show ?case by (rule exI)
qed simp

lemma made_inv:
  assumes "poll_inv s" and "insertPollRow p s = Some s1"
    and "insertOptions uuid (po_id p) 0 (cleanOptions [] opts) s1 = Some s2"
    and "2 \<le> length (cleanOptions [] opts)" and "length opts \<le> 10" and "po_mode p \<in> {''single'', ''multi''}"
    and "po_status p = ''open''" and "po_closedAt p = None" and "po_id p \<noteq> []"
  shows "poll_inv s2"
proof -
  from assms(2) have s1: "s1 = s\<lparr>pv_polls := pv_polls s @ [p]\<rparr>" and new: "po_id p \<notin> po_id ` set (pv_polls s)"
    by (auto simp: insertPollRow_def split: if_splits)
  from insertOptions_Some [OF assms(3)] obtain qs where s2: "s2 = s1\<lparr>pv_options := pv_options s1 @ qs\<rparr>"
    and qs: "map pt_text qs = cleanOptions [] opts" "\<forall>q \<in> set qs. pt_pollId q = po_id p"
      "distinct (map pt_id (pv_options s1)) \<longrightarrow> distinct (map pt_id (pv_options s1 @ qs))" by blast
  have old: "pt_pollId q \<noteq> po_id p" if "q \<in> set (pv_options s)" for q
    using assms(1) that new unfolding poll_inv_def by metis
  have none: "ballots s2 (po_id p) = []"
  proof -
    have "vt_pollId v \<noteq> po_id p" if "v \<in> set (pv_votes s)" for v
    proof -
      from poll_invD(2) [OF assms(1) that] obtain p' where "p' \<in> set (pv_polls s)" "po_id p' = vt_pollId v"
        by (auto simp: vote_ok_def)
      with new show ?thesis by (metis imageI)
    qed
    then show ?thesis by (simp add: ballots_def s2 s1 filter_empty_conv)
  qed
  have "filter (\<lambda>q. pt_pollId q = po_id p) (pv_options s) = []" using old by (simp add: filter_empty_conv)
  moreover have "filter (\<lambda>q. pt_pollId q = po_id p) qs = qs" using qs(2) by (simp add: filter_id_conv)
  ultimately have c: "choices s2 (po_id p) = cleanOptions [] opts" by (simp add: choices_def s2 s1 qs(1))
  have "length (cleanOptions [] opts) \<le> 10" "distinct (map toLower (cleanOptions [] opts))"
    using cleanOptions_facts [of "[]" opts] assms(5) by (blast intro: order_trans)+
  then have "choices_ok (cleanOptions [] opts)"
    unfolding choices_ok_def using cleanOptions_trimmed [of "[]" opts] assms(4) by (intro conjI)
  with c none assms(6-) have p: "poll_ok s2 p" by (simp add: poll_ok_def fair_def isOpen_def)
  have "poll_ok s2 p'" if "p' \<in> set (pv_polls s)" for p'
  proof -
    have "po_id p' \<noteq> po_id p" using that new by (metis imageI)
    then have "choices s2 (po_id p') = choices s (po_id p')" using qs(2)
      by (simp add: choices_def s2 s1 filter_empty_conv)
    with poll_invD(1) [OF assms(1) that] show ?thesis by (simp add: poll_ok_def ballots_def s2 s1)
  qed
  moreover have "vote_ok s2 v" if "v \<in> set (pv_votes s)" for v
    using poll_invD(2) [OF assms(1) that] by (auto simp: vote_ok_def s2 s1)
  ultimately show ?thesis
    using assms(1) p new qs(2,3) by (auto simp: poll_inv_def s2 s1)
qed

lemma evolves_inv: "evolves s t \<Longrightarrow> poll_inv s \<Longrightarrow> poll_inv t"
proof (induction rule: evolves.induct)
  case (made s t p t1 uuid opts t2 ms)
  have "poll_inv t2" using made by (intro made_inv [of t p t1 uuid opts t2]) auto
  then show ?case by (subst poll_inv_tables [of _ t2]) simp_all
qed (auto intro: shut_inv voted_inv)

end
