(* ===== verification/Poll_Outcomes.thy ===== *)
theory Poll_Outcomes
  imports Poll_Laws
begin

text \<open>
  What polls promise: well-formed tables whatever is called, closed polls that stay as they are, the effect
  of a vote, results that add up, and no second open poll with the same question from the tools.
\<close>

section \<open>The service and its tools as a machine\<close>

datatype poll_op =
    Create int "nat \<Rightarrow> string" bool string string string string "string list" string int
  | Vote int "nat \<Rightarrow> string" string string string string string
  | Close int string
  | Results int string
  | ListPolls int string bool
  | StartTool poll_env int "nat \<Rightarrow> string" bool json_object
  | VoteTool poll_env int "nat \<Rightarrow> string" json_object
  | ResultsTool poll_env int json_object
  | CloseTool poll_env int json_object

fun poll_step :: "poll_service \<Rightarrow> poll_op \<Rightarrow> poll_service" where
  "poll_step s (Create now uuid commits c a k q opts m mins) = snd (createPoll now uuid commits c a k q opts m mins s)"
| "poll_step s (Vote now uuid i a k oid txt) = snd (castVote now uuid i a k oid txt s)"
| "poll_step s (Close now i) = snd (closePoll now i s)"
| "poll_step s (Results now i) = snd (pollResults now i s)"
| "poll_step s (ListPolls now c b) = snd (pollsForConversation now c b s)"
| "poll_step s (StartTool env now uuid commits args) = snd (startPoll env now uuid commits args s)"
| "poll_step s (VoteTool env now uuid args) = snd (castVoteTool env now uuid args s)"
| "poll_step s (ResultsTool env now args) = snd (getPollResults env now args s)"
| "poll_step s (CloseTool env now args) = snd (closePollTool env now args s)"

text \<open>A fresh id is never empty.\<close>

fun ids_ok :: "poll_op \<Rightarrow> bool" where
  "ids_ok (Create now uuid commits c a k q opts m mins) = (uuid 0 \<noteq> [])"
| "ids_ok (StartTool env now uuid commits args) = (uuid 0 \<noteq> [])"
| "ids_ok _ = True"

definition no_polls :: "poll_service \<Rightarrow> bool" where
  "no_polls s \<longleftrightarrow> pv_polls s = [] \<and> pv_options s = [] \<and> pv_votes s = []"

lemma evolves_startPoll: "uuid 0 \<noteq> [] \<Longrightarrow> evolves s (snd (startPoll env now uuid commits args s))"
  using evolves_list [OF evolves.same, of s now "resolveConvId env args" True]
  by (auto simp: startPoll_def Let_def case_prod_beta intro!: evolves.same evolves_results evolves_createPoll split: option.split)

lemma evolves_castVoteTool: "evolves s (snd (castVoteTool env now uuid args s))"
  using evolves_castVote [OF evolves.same]
  by (auto simp: castVoteTool_def Let_def case_prod_beta intro!: evolves.same evolves_results split: prod.split bool.split)

lemma evolves_closePollTool: "evolves s (snd (closePollTool env now args s))"
  using evolves_closePoll [OF evolves.same]
  by (auto simp: closePollTool_def Let_def case_prod_beta intro!: evolves.same evolves_results split: prod.split bool.split)

lemma evolves_getPollResults: "evolves s (snd (getPollResults env now args s))"
  using evolves_results [OF evolves.same, of s now "trimmed (textArg args ''poll_id'')"]
  by (auto simp: getPollResults_def Let_def case_prod_beta intro!: evolves.same evolves_list split: prod.split option.split)

lemma step_evolves: "ids_ok op \<Longrightarrow> evolves s (poll_step s op)"
  by (cases op) (simp_all add: evolves_createPoll evolves_castVote evolves_closePoll evolves_results evolves_list
    evolves_startPoll evolves_castVoteTool evolves_closePollTool evolves_getPollResults evolves.same)

interpretation polls: invariant_machine no_polls "\<lambda>_. ids_ok" poll_step poll_inv
proof
  show "poll_inv s" if "no_polls s" for s using that by (simp add: no_polls_def poll_inv_def)
  show "poll_inv (poll_step s op)" if "poll_inv s" and "ids_ok op" for s op
    using step_evolves [OF that(2)] that(1) by (rule evolves_inv)
qed

lemma steps_evolve: "admitted (\<lambda>_. ids_ok) poll_step s ops \<Longrightarrow> evolves s (foldl poll_step s ops)"
proof (induction ops arbitrary: s)
  case (Cons op ops)
  then have "evolves (poll_step s op) (foldl poll_step (poll_step s op) ops)" and "evolves s (poll_step s op)"
    by (simp_all add: step_evolves)
  then show ?case by (auto intro: evolves_trans)
qed (simp add: evolves.same)

text \<open>
  C35. In every reachable state each poll has 2 to 10 options that differ even without regard to case,
  carry no blanks at their ends and are not blank, every vote is for
  an option of its poll and was cast before the deadline, nobody votes twice for an option, and in a poll of
  the single mode nobody has two votes.
\<close>

theorem poll_tables_well_formed:
  assumes "pv_polls s = []" and "pv_options s = []" and "pv_votes s = []"
    and "admitted (\<lambda>_. ids_ok) poll_step s ops" and "t = foldl poll_step s ops"
  shows "(\<forall>p \<in> set (pv_polls t).
      (let texts = map pt_text (filter (\<lambda>q. pt_pollId q = po_id p) (pv_options t));
           votes = filter (\<lambda>v. vt_pollId v = po_id p) (pv_votes t)
       in 2 \<le> length texts \<and> length texts \<le> 10 \<and> distinct (map toLower texts) \<and>
          list_all (\<lambda>t. trimmed t = t \<and> t \<noteq> []) texts \<and>
          distinct (map (\<lambda>v. (vt_voterAlias v, vt_optionId v)) votes) \<and>
          (po_mode p = ''single'' \<longrightarrow> distinct (map vt_voterAlias votes)))) \<and>
    (\<forall>v \<in> set (pv_votes t).
      (\<exists>p \<in> set (pv_polls t). po_id p = vt_pollId v \<and> (\<forall>c. po_closesAt p = Some c \<longrightarrow> vt_castAt v < c)) \<and>
      (\<exists>q \<in> set (pv_options t). pt_id q = vt_optionId v \<and> pt_pollId q = vt_pollId v))"
proof -
  have "poll_inv t" unfolding assms(5)
    by (rule polls.reachable_inv) (use assms in \<open>simp_all add: no_polls_def\<close>)
  then show ?thesis
    by (simp add: poll_inv_def poll_ok_def choices_ok_def choices_def ballots_def fair_def vote_ok_def Let_def)
qed

section \<open>A small group\<close>

definition demo_polls :: poll_service where
  "demo_polls = \<lparr>pv_messages = \<lparr>ms_store = \<lparr>st_up = True,
       st_convs = [\<lparr>cv_id = ''c1'', cv_token_total = 0, cv_updated_at = 0\<rparr>], st_agents = [], st_messages = [], st_calls = [],
       st_attachments = [], st_fts = []\<rparr>, ms_slots = [], ms_pending = [], ms_timer = False, ms_ephemeral = [], ms_out = []\<rparr>,
     pv_hasMessages = True, pv_audited = False, pv_polls = [], pv_options = [], pv_votes = [], pv_out = []\<rparr>"

text \<open>Distinct ids from a letter.\<close>

definition demo_ids :: "string \<Rightarrow> nat \<Rightarrow> string" where
  "demo_ids a n = a @ replicate n CHR ''x''"

definition demo_history :: "poll_op list" where
  "demo_history =
     [Create 5 (demo_ids ''p'') True ''c1'' ''Boss'' ''agent'' '' Ship it? '' [''Yes'', ''No'', '' yes ''] [] 1,
      Vote 6 (demo_ids ''v'') ''p'' ''Amy'' ''agent'' [] ''yes'', Vote 7 (demo_ids ''w'') ''p'' ''user'' ''user'' [] ''No'',
      Vote 8 (demo_ids ''u'') ''p'' ''Amy'' ''agent'' [] ''NO'']"

lemma demo_ids_nonempty [simp]: "demo_ids (x # xs) n \<noteq> []"
  by (simp add: demo_ids_def)

lemma demo_history_ok: "admitted (\<lambda>_. ids_ok) poll_step demo_polls demo_history"
  by (simp add: demo_history_def del: poll_step.simps)

lemma demo_polls_empty: "pv_polls demo_polls = [] \<and> pv_options demo_polls = [] \<and> pv_votes demo_polls = []"
  by (simp add: demo_polls_def)

theorem poll_tables_well_formed_witness:
  "length (pv_polls (foldl poll_step demo_polls demo_history)) = 1 \<and>
   list_all (\<lambda>p. po_mode p = ''single'' \<longrightarrow>
      distinct (map vt_voterAlias (filter (\<lambda>v. vt_pollId v = po_id p) (pv_votes (foldl poll_step demo_polls demo_history)))))
     (pv_polls (foldl poll_step demo_polls demo_history))"
proof -
  have "length (pv_polls (foldl poll_step demo_polls demo_history)) = 1" by code_simp
  then show ?thesis
    using poll_tables_well_formed [OF _ _ _ demo_history_ok refl] demo_polls_empty by (auto simp: Let_def list_all_iff)
qed

section \<open>Closed polls\<close>

lemma evolves_closed:
  assumes "evolves s t" and "poll_inv s" and "p \<in> set (pv_polls s)" and "\<not> isOpen p"
  shows "p \<in> set (pv_polls t) \<and> ballots t (po_id p) = ballots s (po_id p) \<and> choices t (po_id p) = choices s (po_id p)"
  using assms
proof (induction rule: evolves.induct)
  case (shut s t p' now)
  then have "po_id p \<noteq> po_id p'" using poll_invD(3) [OF evolves_inv [OF shut(1) shut.prems(1)]] by metis
  with shut show ?case by (force simp: closeRow_def ballots_def choices_def)
next
  case (voted s t p' v q)
  then have "po_id p \<noteq> po_id p'" using poll_invD(3) [OF evolves_inv [OF voted(1) voted.prems(1)]] by metis
  with voted newVote_other [of v "po_id p" p' t] show ?case by (simp add: ballots_def choices_def)
next
  case (made s t p' t1 uuid opts t2 ms)
  then have t1: "t1 = t\<lparr>pv_polls := pv_polls t @ [p']\<rparr>" and new: "po_id p' \<notin> po_id ` set (pv_polls t)"
    by (auto simp: insertPollRow_def split: if_splits)
  from made insertOptions_Some [OF made(3)] obtain qs where t2: "t2 = t1\<lparr>pv_options := pv_options t1 @ qs\<rparr>"
    and qs: "\<forall>q \<in> set qs. pt_pollId q = po_id p'" by blast
  have "po_id p' \<noteq> po_id p" using made new by (metis imageI)
  then have "filter (\<lambda>q. pt_pollId q = po_id p) qs = []" using qs by (simp add: filter_empty_conv)
  with made t1 t2 show ?case by (simp add: ballots_def choices_def)
qed (simp_all add: ballots_def choices_def)

text \<open>
  C36. A closed poll stays closed with all it has: whatever is called later, its row, its options and its votes
  are the same.
\<close>

theorem closed_poll_is_final:
  assumes "poll_inv s" and "p \<in> set (pv_polls s)" and "po_status p \<noteq> ''open''"
    and "admitted (\<lambda>_. ids_ok) poll_step s ops"
  shows "p \<in> set (pv_polls (foldl poll_step s ops)) \<and>
    filter (\<lambda>v. vt_pollId v = po_id p) (pv_votes (foldl poll_step s ops)) = filter (\<lambda>v. vt_pollId v = po_id p) (pv_votes s) \<and>
    map pt_text (filter (\<lambda>q. pt_pollId q = po_id p) (pv_options (foldl poll_step s ops))) =
      map pt_text (filter (\<lambda>q. pt_pollId q = po_id p) (pv_options s))"
  using evolves_closed [OF steps_evolve [OF assms(4)] assms(1,2)] assms(3)
  by (simp add: isOpen_def ballots_def choices_def)

definition demo_closed :: poll_service where
  "demo_closed = foldl poll_step demo_polls (demo_history @ [Close 9 ''p''])"

lemma demo_closed_inv: "poll_inv demo_closed"
  unfolding demo_closed_def using demo_polls_empty
  by (intro polls.reachable_inv) (simp_all add: no_polls_def demo_history_def del: poll_step.simps)

theorem closed_poll_is_final_witness:
  "set (pv_polls demo_closed) \<subseteq> set (pv_polls (poll_step demo_closed (Vote 9 (demo_ids ''z'') ''p'' ''Zoe'' ''agent'' [] ''Yes'')))"
proof
  fix p
  assume p: "p \<in> set (pv_polls demo_closed)"
  have "map po_status (pv_polls demo_closed) = [''closed'']" by code_simp
  then have "po_status p = ''closed''" using p by (cases "pv_polls demo_closed") auto
  then show "p \<in> set (pv_polls (poll_step demo_closed (Vote 9 (demo_ids ''z'') ''p'' ''Zoe'' ''agent'' [] ''Yes'')))"
    using closed_poll_is_final [OF demo_closed_inv p, of "[Vote 9 (demo_ids ''z'') ''p'' ''Zoe'' ''agent'' [] ''Yes'']"]
    by (simp del: poll_step.simps)
qed

section \<open>The effect of a vote\<close>

lemma castVote_True:
  assumes "castVote now uuid i a k oid txt s = (True, t)"
  obtains p opt where "pollById s i = Some p" and "isOpen p" and "\<And>c. po_closesAt p = Some c \<Longrightarrow> now < c"
    and "resolveOption s i oid txt = Some opt"
    and "pv_votes t = newVote \<lparr>vt_id = uuid 0, vt_pollId = i, vt_voterKind = k, vt_voterAlias = a, vt_optionId = opt, vt_castAt = now\<rparr> p s"
proof -
  let ?s = "closeIfDue now i s"
  from assms obtain p opt where p: "pollById ?s i = Some p" "isOpen p" and o: "resolveOption ?s i oid txt = Some opt"
    and t: "t = snd (castVote now uuid i a k oid txt s)"
    by (auto simp: castVote_def Let_def split: if_splits option.splits)
  have s: "?s = s" using open_not_due(1) [OF p] .
  have "pv_votes t = newVote \<lparr>vt_id = uuid 0, vt_pollId = i, vt_voterKind = k, vt_voterAlias = a, vt_optionId = opt, vt_castAt = now\<rparr> p s"
    using assms p o unfolding s by (auto simp: castVote_def s newVote_def auditPoll_def Let_def split: if_splits)
  with that p o open_not_due(2) [OF p] show thesis unfolding s by metis
qed

text \<open>
  C37. A vote that is accepted is cast in an open poll before its deadline for an option of the poll. In the
  single mode it is then the only vote of the voter there, whatever the voter had voted before; in the
  multi mode it joins the others. No other vote changes.
\<close>

theorem accepted_vote_counts:
  assumes "castVote now uuid i a k oid txt s = (True, t)" and "poll_inv s" and "uuid 0 \<notin> vt_id ` set (pv_votes s)"
  shows "(\<exists>p \<in> set (pv_polls s). \<exists>opt. po_id p = i \<and> po_status p = ''open'' \<and> (\<forall>c. po_closesAt p = Some c \<longrightarrow> now < c) \<and>
      resolveOption s i oid txt = Some opt \<and>
      (let mine = \<lambda>s. map vt_optionId (filter (\<lambda>v. vt_pollId v = i \<and> vt_voterAlias v = a) (pv_votes s)) in
       if po_mode p = ''single'' then mine t = [opt]
       else mine t = (if opt \<in> set (mine s) then mine s else mine s @ [opt]))) \<and>
    filter (\<lambda>v. \<not> (vt_pollId v = i \<and> vt_voterAlias v = a)) (pv_votes t) =
      filter (\<lambda>v. \<not> (vt_pollId v = i \<and> vt_voterAlias v = a)) (pv_votes s)"
proof -
  from assms(1) obtain p opt where p: "pollById s i = Some p" "isOpen p" and c: "\<And>c. po_closesAt p = Some c \<Longrightarrow> now < c"
    and o: "resolveOption s i oid txt = Some opt"
    and t: "pv_votes t = newVote \<lparr>vt_id = uuid 0, vt_pollId = i, vt_voterKind = k, vt_voterAlias = a, vt_optionId = opt, vt_castAt = now\<rparr> p s"
    by (rule castVote_True) blast
  let ?P = "\<lambda>v. vt_pollId v = i \<and> vt_voterAlias v = a"
  let ?mine = "\<lambda>s. map vt_optionId (filter ?P (pv_votes s))"
  have n: "vt_id w \<noteq> uuid 0" if "w \<in> set (pv_votes s)" for w using assms(3) that by (metis imageI)
  have old: "opt \<in> set (?mine s) \<longleftrightarrow> (\<exists>w \<in> set (pv_votes s). vt_pollId w = i \<and> vt_voterAlias w = a \<and> vt_optionId w = opt)" by auto
  have none: "filter ?P (filter (\<lambda>v. \<not> ?P v) vs) = []" for vs by (simp add: filter_empty_conv)
  have fresh: "uuid 0 \<notin> vt_id ` set (filter Q (pv_votes s))" for Q using assms(3) by auto
  have "if po_mode p = ''single'' then ?mine t = [opt]
      else ?mine t = (if opt \<in> set (?mine s) then ?mine s else ?mine s @ [opt])"
  proof (cases "po_mode p = ''single''")
    case True
    then show ?thesis using fresh none by (auto simp: t newVote_def insertVoteOrIgnore_def)
  next
    case False
    then show ?thesis unfolding old using assms(3) by (auto simp: t newVote_def insertVoteOrIgnore_def)
  qed
  with pollById_Some [OF p(1)] p(2) c o have "\<exists>p \<in> set (pv_polls s). \<exists>opt. po_id p = i \<and> po_status p = ''open'' \<and>
      (\<forall>c. po_closesAt p = Some c \<longrightarrow> now < c) \<and> resolveOption s i oid txt = Some opt \<and>
      (let mine = \<lambda>s. map vt_optionId (filter (\<lambda>v. vt_pollId v = i \<and> vt_voterAlias v = a) (pv_votes s)) in
       if po_mode p = ''single'' then mine t = [opt]
       else mine t = (if opt \<in> set (mine s) then mine s else mine s @ [opt]))"
    unfolding Let_def isOpen_def by (intro bexI [of _ p] exI [of _ opt]) simp_all
  moreover have "filter (\<lambda>v. \<not> ?P v) (pv_votes t) = filter (\<lambda>v. \<not> ?P v) (pv_votes s)"
    by (auto simp: t newVote_def insertVoteOrIgnore_def intro!: filter_cong)
  ultimately show ?thesis by blast
qed

definition demo_open :: poll_service where
  "demo_open = foldl poll_step demo_polls (take 3 demo_history)"

lemma demo_open_inv: "poll_inv demo_open"
  unfolding demo_open_def using demo_polls_empty
  by (intro polls.reachable_inv) (simp_all add: no_polls_def demo_history_def del: poll_step.simps)

theorem accepted_vote_counts_witness:
  "map (\<lambda>v. (vt_voterAlias v, vt_optionId v)) (pv_votes demo_open) = [(''Amy'', ''px''), (''user'', ''pxx'')] \<and>
   filter (\<lambda>v. \<not> (vt_pollId v = ''p'' \<and> vt_voterAlias v = ''Amy''))
       (pv_votes (snd (castVote 8 (demo_ids ''u'') ''p'' ''Amy'' ''agent'' [] ''NO'' demo_open))) =
     filter (\<lambda>v. \<not> (vt_pollId v = ''p'' \<and> vt_voterAlias v = ''Amy'')) (pv_votes demo_open)"
proof -
  let ?r = "castVote 8 (demo_ids ''u'') ''p'' ''Amy'' ''agent'' [] ''NO'' demo_open"
  have "?r = (True, snd ?r)" by (rule prod_eqI) (simp_all, code_simp)
  moreover have "map vt_id (pv_votes demo_open) = [''v'', ''w'']" by code_simp
  then have "demo_ids ''u'' 0 \<notin> vt_id ` set (pv_votes demo_open)" by (simp add: demo_ids_def flip: set_map)
  ultimately have "filter (\<lambda>v. \<not> (vt_pollId v = ''p'' \<and> vt_voterAlias v = ''Amy'')) (pv_votes (snd ?r)) =
     filter (\<lambda>v. \<not> (vt_pollId v = ''p'' \<and> vt_voterAlias v = ''Amy'')) (pv_votes demo_open)"
    by (intro accepted_vote_counts [OF _ demo_open_inv, THEN conjunct2])
  moreover have "map (\<lambda>v. (vt_voterAlias v, vt_optionId v)) (pv_votes demo_open) = [(''Amy'', ''px''), (''user'', ''pxx'')]" by code_simp
  ultimately show ?thesis by blast
qed

section \<open>Results\<close>

lemma count_once: "distinct xs \<Longrightarrow> sum_list (map (\<lambda>x. if x = y then 1 else 0) xs) = (if y \<in> set xs then 1 else (0::nat))"
  by (induction xs) auto

lemma sum_of_tallies:
  assumes "distinct xs" and "\<forall>v \<in> set vs. f v \<in> set xs"
  shows "sum_list (map (\<lambda>x. length (filter (\<lambda>v. f v = x) vs)) xs) = length vs"
  using assms(2)
proof (induction vs)
  case (Cons v vs)
  have "sum_list (map (\<lambda>x. length (filter (\<lambda>v. f v = x) (v # vs))) xs) =
      sum_list (map (\<lambda>x. (if x = f v then 1 else 0) + length (filter (\<lambda>v. f v = x) vs)) xs)"
    by (rule arg_cong [where f = sum_list]) (auto intro!: map_cong)
  also have "\<dots> = sum_list (map (\<lambda>x. if x = f v then 1 else 0) xs) + sum_list (map (\<lambda>x. length (filter (\<lambda>v. f v = x) vs)) xs)"
    by (rule sum_list_addf)
  also have "sum_list (map (\<lambda>x. if x = f v then 1 else 0) xs) = (1::nat)"
    using assms(1) Cons.prems by (simp add: count_once)
  finally show ?case using Cons by simp
qed simp

lemma running_max:
  fixes g :: "'a \<Rightarrow> int"
  shows "foldl (\<lambda>m q. if g q > m then g q else m) a qs \<ge> a \<and>
    (\<forall>q \<in> set qs. g q \<le> foldl (\<lambda>m q. if g q > m then g q else m) a qs) \<and>
    (foldl (\<lambda>m q. if g q > m then g q else m) a qs = a \<or> (\<exists>q \<in> set qs. g q = foldl (\<lambda>m q. if g q > m then g q else m) a qs))"
proof (induction qs arbitrary: a)
  case (Cons q qs)
  from Cons [of "if g q > a then g q else a"] show ?case by (auto split: if_splits)
qed simp

lemma winners_iff:
  "w \<in> set (vw_winners (projectPoll p opts votes)) \<longleftrightarrow>
     (\<exists>q \<in> set opts. pt_id q = w \<and> tally votes q > 0 \<and> (\<forall>q' \<in> set opts. tally votes q' \<le> tally votes q))"
  (is "?w \<longleftrightarrow> ?best")
proof -
  define m where "m = foldl (\<lambda>m q. if int (tally votes q) > m then int (tally votes q) else m) (-1) opts"
  have m: "\<forall>q \<in> set opts. int (tally votes q) \<le> m" "m = -1 \<or> (\<exists>q \<in> set opts. int (tally votes q) = m)"
    using running_max [where a = "-1" and qs = opts and g = "\<lambda>q. int (tally votes q)"] by (simp_all add: m_def)
  have "vw_winners (projectPoll p opts votes) = (if m > 0 then map pt_id (filter (\<lambda>q. int (tally votes q) = m) opts) else [])"
    by (simp add: projectPoll_def Let_def flip: m_def)
  then have w: "?w \<longleftrightarrow> m > 0 \<and> (\<exists>q \<in> set opts. pt_id q = w \<and> int (tally votes q) = m)" by auto
  have top: "int (tally votes q) = m" if "q \<in> set opts" "\<forall>q' \<in> set opts. tally votes q' \<le> tally votes q" for q
  proof -
    have "int (tally votes q) \<le> m" using m(1) that(1) by blast
    moreover from this m(2) obtain q' where "q' \<in> set opts" "int (tally votes q') = m" by auto
    moreover from this have "m \<le> int (tally votes q)" using that(2) by auto
    ultimately show ?thesis by simp
  qed
  show ?thesis
  proof
    assume ?w
    then obtain q where q: "m > 0" "q \<in> set opts" "pt_id q = w" "int (tally votes q) = m" unfolding w by blast
    have "\<forall>q' \<in> set opts. tally votes q' \<le> tally votes q" using m(1) q(4) by auto
    moreover have "tally votes q > 0" using q(1,4) by simp
    ultimately show ?best using q(2,3) by blast
  next
    assume ?best
    then obtain q where q: "q \<in> set opts" "pt_id q = w" "tally votes q > 0" "\<forall>q' \<in> set opts. tally votes q' \<le> tally votes q" by blast
    with top [OF q(1,4)] show ?w unfolding w by auto
  qed
qed

lemma viewOf_parts:
  assumes "viewOf s i = Some v"
  shows "\<exists>p. pollById s i = Some p \<and> v = projectPoll p (optionsForPoll s i) (votesForPoll s i)"
  using assms by (auto simp: viewOf_def)

text \<open>
  The results of a poll add up: every vote is counted for one option, in the single mode there are as many
  voters as votes, and the winners are the options with the most votes, all of them when several have
  as many, provided that there is a vote.
\<close>

theorem results_add_up:
  assumes "pollResults now i s = (Some v, t)" and "poll_inv s"
  shows "sum_list (map snd (vw_options v)) = vw_total v \<and>
    (if po_mode (vw_poll v) = ''single'' then vw_voters v = vw_total v else vw_voters v \<le> vw_total v) \<and>
    (\<forall>w. w \<in> set (vw_winners v) \<longleftrightarrow>
      (\<exists>(q, n) \<in> set (vw_options v). pt_id q = w \<and> n > 0 \<and> (\<forall>(q', n') \<in> set (vw_options v). n' \<le> n)))"
proof -
  from assms(1) have v: "viewOf t i = Some v" and t: "t = closeIfDue now i s"
    by (auto simp: pollResults_def Let_def split: if_splits)
  from viewOf_parts [OF v] obtain p where p: "pollById t i = Some p"
    and v: "v = projectPoll p (optionsForPoll t i) (votesForPoll t i)" by blast
  have inv: "poll_inv t" using evolves_inv [OF evolves_closeIfDue [OF evolves.same]] assms(2) t by metis
  note pi = pollById_Some [OF p]
  have opts: "set (optionsForPoll t i) = {q \<in> set (pv_options t). pt_pollId q = i}"
    and dq: "distinct (map pt_id (optionsForPoll t i))"
  proof -
    show "set (optionsForPoll t i) = {q \<in> set (pv_options t). pt_pollId q = i}" using pi by (simp add: optionsForPoll_def)
    have "distinct (map pt_id (filter (\<lambda>q. pt_pollId q = i) (pv_options t)))"
      using inv by (simp add: poll_inv_def distinct_map_filter)
    then show "distinct (map pt_id (optionsForPoll t i))" using pi by (simp add: optionsForPoll_def distinct_map)
  qed
  have votes: "set (votesForPoll t i) = {v \<in> set (pv_votes t). vt_pollId v = i}" using pi by (simp add: votesForPoll_def)
  have "vt_optionId x \<in> set (map pt_id (optionsForPoll t i))" if "x \<in> set (votesForPoll t i)" for x
  proof -
    from that poll_invD(2) [OF inv, of x] obtain q where "q \<in> set (pv_options t)" "pt_id q = vt_optionId x" "pt_pollId q = i"
      by (auto simp: votes vote_ok_def)
    then have "q \<in> set (optionsForPoll t i)" by (simp add: opts)
    with \<open>pt_id q = vt_optionId x\<close> show ?thesis by (metis imageI set_map)
  qed
  from sum_of_tallies [OF dq, of "votesForPoll t i" vt_optionId] this
  have total: "sum_list (map snd (vw_options v)) = vw_total v"
    by (simp add: v projectPoll_def Let_def comp_def tally_def)
  have "distinct (map vt_voterAlias (votesForPoll t i))" if "po_mode p = ''single''"
    using poll_invD(1) [OF inv, of p] pi that
    by (auto simp: poll_ok_def fair_def ballots_def votesForPoll_def distinct_map)
  then have voters: "if po_mode (vw_poll v) = ''single'' then vw_voters v = vw_total v else vw_voters v \<le> vw_total v"
    by (auto simp: v projectPoll_def Let_def distinct_remdups_id) (metis length_map length_remdups_leq)
  have "w \<in> set (vw_winners v) \<longleftrightarrow> (\<exists>(q, n) \<in> set (vw_options v). pt_id q = w \<and> n > 0 \<and> (\<forall>(q', n') \<in> set (vw_options v). n' \<le> n))" for w
    using winners_iff [of w p "optionsForPoll t i" "votesForPoll t i"] by (auto simp: v projectPoll_def Let_def)
  with total voters show ?thesis by blast
qed

theorem results_add_up_witness:
  "map_option vw_winners (fst (pollResults 8 ''p'' demo_open)) = Some [''px'', ''pxx''] \<and>
   sum_list (map snd (vw_options (the (fst (pollResults 8 ''p'' demo_open))))) = vw_total (the (fst (pollResults 8 ''p'' demo_open)))"
proof -
  have w: "map_option vw_winners (fst (pollResults 8 ''p'' demo_open)) = Some [''px'', ''pxx'']" by code_simp
  then obtain v where "fst (pollResults 8 ''p'' demo_open) = Some v" by auto
  then have "pollResults 8 ''p'' demo_open = (Some v, snd (pollResults 8 ''p'' demo_open))" by (simp add: prod_eq_iff)
  from results_add_up [OF this demo_open_inv] w \<open>fst (pollResults 8 ''p'' demo_open) = Some v\<close> show ?thesis by simp
qed

section \<open>The tools do not ask twice\<close>

definition asks :: "poll \<Rightarrow> string \<times> string" where
  "asks p = (po_conversationId p, toLower (trimmed (po_question p)))"

definition no_twins :: "poll_service \<Rightarrow> bool" where
  "no_twins s \<longleftrightarrow> (\<forall>p \<in> set (pv_polls s). \<forall>p' \<in> set (pv_polls s). isOpen p \<longrightarrow> isOpen p' \<longrightarrow> asks p = asks p' \<longrightarrow> p = p')"

text \<open>No operation but the creation of a poll brings an open poll into being.\<close>

definition opens_none :: "poll_service \<Rightarrow> poll_service \<Rightarrow> bool" where
  "opens_none s t \<longleftrightarrow> (\<forall>p \<in> set (pv_polls t). isOpen p \<longrightarrow> p \<in> set (pv_polls s))"

lemma opens_none_simps [simp]:
  shows "opens_none s s" and "opens_none s (announce es t) = opens_none s t"
  by (simp_all add: opens_none_def)

lemma opens_none_trans: "opens_none s t \<Longrightarrow> opens_none t u \<Longrightarrow> opens_none s u"
  by (auto simp: opens_none_def)

lemma opens_none_closeRow: "opens_none s (s\<lparr>pv_polls := closeRow now i (pv_polls s)\<rparr>)"
  by (auto simp: opens_none_def isOpen_def dest!: closeRow_set split: if_splits)

lemma opens_none_audit [simp]: "opens_none s (auditPoll e t) = opens_none s t"
  by (simp add: auditPoll_def)

lemma opens_none_lazy: "opens_none s (snd (maybeLazyAutoClose now i s))"
  by (simp add: maybeLazyAutoClose_def opens_none_closeRow split: option.split)

lemma opens_none_closeIfDue: "opens_none s (closeIfDue now i s)"
  using closeIfDue_cases [of now i s] opens_none_closeRow by fastforce

lemma opens_none_closePoll: "opens_none s (snd (closePoll now i s))"
  by (simp add: closePoll_def opens_none_closeRow split: option.split)

lemma opens_none_results: "opens_none s (snd (pollResults now i s))"
  by (simp add: pollResults_def Let_def opens_none_closeIfDue)

lemma opens_none_closeAllDue: "opens_none s (snd (closeAllDue now ids s))"
proof (induction ids arbitrary: s)
  case (Cons i ids)
  from opens_none_trans [OF opens_none_lazy Cons] show ?case by (simp add: case_prod_beta Let_def)
qed simp

lemma opens_none_list: "opens_none s (snd (pollsForConversation now c b s))"
  by (simp add: pollsForConversation_def Let_def case_prod_beta opens_none_closeAllDue)

lemma opens_none_castVote: "opens_none s (snd (castVote now uuid i a k oid txt s))"
proof -
  have "opens_none s (closeIfDue now i s\<lparr>pv_votes := vs\<rparr>)" for vs
    using opens_none_closeIfDue [of s now i] by (simp add: opens_none_def)
  then show ?thesis
    using opens_none_closeIfDue [of s now i] by (auto simp: castVote_def Let_def split: option.split)
qed

lemma opens_none_results_after: "opens_none s t \<Longrightarrow> opens_none s (snd (pollResults now i t))"
  by (rule opens_none_trans [OF _ opens_none_results])

lemma opens_none_tools:
  shows "opens_none s (snd (castVoteTool env now uuid args s))" and "opens_none s (snd (closePollTool env now args s))"
    and "opens_none s (snd (getPollResults env now args s))"
proof -
  have "opens_none s t" if "castVote now uuid i a k oid x s = (b, t)" for i a k oid x b t
    using opens_none_castVote [of s now uuid i a k oid x] that by simp
  then show "opens_none s (snd (castVoteTool env now uuid args s))"
    by (auto simp: castVoteTool_def Let_def split: prod.split bool.split intro: opens_none_results_after)
  have "opens_none s t" if "closePoll now i s = (b, t)" for i b t
    using opens_none_closePoll [of s now i] that by simp
  then show "opens_none s (snd (closePollTool env now args s))"
    by (auto simp: closePollTool_def Let_def split: prod.split bool.split intro: opens_none_results_after)
  show "opens_none s (snd (getPollResults env now args s))"
    using opens_none_results [of s now "trimmed (textArg args ''poll_id'')"] opens_none_list
    by (auto simp: getPollResults_def Let_def split: prod.split option.split)
qed

lemma no_twins_opens_none: "no_twins s \<Longrightarrow> opens_none s t \<Longrightarrow> no_twins t"
  unfolding no_twins_def opens_none_def by blast

text \<open>The list of the open polls is complete.\<close>

lemma open_polls_listed:
  assumes "pollsForConversation now c True s = (vs, t)" and "poll_inv s" and "up s" and "c \<noteq> []"
    and "p \<in> set (pv_polls t)" and "isOpen p" and "po_conversationId p = c"
  shows "\<exists>v \<in> set vs. vw_poll v = p"
proof -
  have "opens_none s t" using opens_none_list [of s now c True] assms(1) by simp
  then have ps: "p \<in> set (pv_polls s)" using assms(5,6) by (simp add: opens_none_def)
  have e: "evolves s t" using evolves_list [OF evolves.same, of s now c True] assms(1) by simp
  have inv: "poll_inv t" by (rule evolves_inv [OF e assms(2)])
  have up: "up t"
  proof -
    have "up (snd (maybeLazyAutoClose now i u)) = up u" for i u
      by (simp add: maybeLazyAutoClose_def auditPoll_def up_def announce_def split: option.split)
    then have "up (snd (closeAllDue now ids u)) = up u" for ids u
      by (induction ids arbitrary: u) (simp_all add: case_prod_beta Let_def)
    with assms(1,3,4) show ?thesis by (auto simp: pollsForConversation_def Let_def case_prod_beta)
  qed
  have ne: "po_id p \<noteq> []" using poll_invD(1) [OF inv assms(5)] by (simp add: poll_ok_def)
  have "find (\<lambda>q. po_id q = po_id p) (pv_polls t) = Some p"
  proof (cases "find (\<lambda>q. po_id q = po_id p) (pv_polls t)")
    case None
    with assms(5) show ?thesis by (auto simp: find_None_iff)
  next
    case (Some q)
    with find_SomeD [OF Some] poll_invD(3) [OF inv _ assms(5)] show ?thesis by blast
  qed
  then have f: "pollById t (po_id p) = Some p" using ne up by (simp add: pollById_def)
  let ?ids = "map po_id (sort_key (\<lambda>p. - po_createdAt p) (filter (\<lambda>p. po_conversationId p = c \<and> isOpen p) (pv_polls s)))"
  have "po_id p \<in> set ?ids" using ps assms(6,7) by simp
  then have "po_id p \<in> set (filter (\<lambda>i. case pollById t i of Some p \<Rightarrow> isOpen p | None \<Rightarrow> False) ?ids)"
    using f assms(6) by simp
  moreover have "vs = List.map_filter (viewOf t) (filter (\<lambda>i. case pollById t i of Some p \<Rightarrow> isOpen p | None \<Rightarrow> False) ?ids)"
    using assms(1,3,4) by (auto simp: pollsForConversation_def Let_def case_prod_beta)
  moreover obtain v where "viewOf t (po_id p) = Some v" and "vw_poll v = p"
    using f by (simp add: viewOf_def projectPoll_def Let_def)
  ultimately show ?thesis by (auto simp: List.map_filter_def intro!: bexI [of _ v] image_eqI [of _ _ "po_id p"])
qed

lemma asks_newPoll: "asks (newPoll now i c a k q m mins) = (c, toLower (trimmed q))"
  by (simp add: asks_def newPoll_def)

lemma createPoll_polls:
  "pv_polls (snd (createPoll now uuid commits c a k q opts m mins s)) = pv_polls s \<or>
   up s \<and> c \<noteq> [] \<and> pv_polls (snd (createPoll now uuid commits c a k q opts m mins s)) =
     pv_polls s @ [newPoll now (uuid 0) c a k q m mins]"
proof (cases "\<exists>s1 s2. insertPollRow (newPoll now (uuid 0) c a k q m mins) s = Some s1 \<and>
    insertOptions uuid (uuid 0) 0 (cleanOptions [] opts) s1 = Some s2")
  case True
  then obtain s1 s2 where i: "insertPollRow (newPoll now (uuid 0) c a k q m mins) s = Some s1"
    and o: "insertOptions uuid (uuid 0) 0 (cleanOptions [] opts) s1 = Some s2" by blast
  have "pv_polls s1 = pv_polls s @ [newPoll now (uuid 0) c a k q m mins]" using i by (auto simp: insertPollRow_def split: if_splits)
  moreover have "pv_polls s2 = pv_polls s1" using insertOptions_Some [OF o] by auto
  ultimately show ?thesis using i o
    by (simp add: createPoll_def auditPoll_def autoPersistPollMessage_def validPoll_def)
qed (auto simp: createPoll_def split: option.split)

lemma no_twins_startPoll:
  assumes "poll_inv s" and "no_twins s" and "uuid 0 \<noteq> []"
  shows "no_twins (snd (startPoll env now uuid commits args s))"
proof -
  define c where "c = resolveConvId env args"
  define q where "q = trimmed (textArg args ''question'')"
  obtain vs t where l: "pollsForConversation now c True s = (vs, t)" by fastforce
  have t: "opens_none s t" using opens_none_list [of s now c True] l by simp
  then have nt: "no_twins t" by (rule no_twins_opens_none [OF assms(2)])
  show ?thesis
  proof (cases "find (\<lambda>v. toLower (trimmed (po_question (vw_poll v))) = toLower (trimmed q)) vs = None")
    case False
    then show ?thesis using nt assms(2)
      by (auto simp: startPoll_def Let_def l [unfolded c_def] q_def [symmetric] split: option.splits)
  next
    case True
    define u where "u = snd (createPoll now uuid commits c (resolveCaller env args) ''agent'' q (optionTexts args)
      (if toLower (textArg args ''mode'') = [] then ''single'' else toLower (textArg args ''mode'')) (minutesArg args) t)"
    let ?p = "newPoll now (uuid 0) c (resolveCaller env args) ''agent'' q
      (if toLower (textArg args ''mode'') = [] then ''single'' else toLower (textArg args ''mode'')) (minutesArg args)"
    have "no_twins u"
    proof (cases "pv_polls u = pv_polls t")
      case True
      with nt show ?thesis by (simp add: no_twins_def)
    next
      case False
      with createPoll_polls [of now uuid commits c "resolveCaller env args" "''agent''" q "optionTexts args" _ _ t]
      have ut: "up t" and c: "c \<noteq> []" and u: "pv_polls u = pv_polls t @ [?p]" unfolding u_def by blast+
      have s: "up s"
        using l ut c by (cases "up s") (simp_all add: pollsForConversation_def)
      have "asks p \<noteq> asks ?p" if "p \<in> set (pv_polls t)" "isOpen p" for p
      proof
        assume a: "asks p = asks ?p"
        then have "po_conversationId p = c" and q: "toLower (trimmed (po_question p)) = toLower (trimmed q)"
          by (simp_all add: asks_newPoll) (simp_all add: asks_def)
        from open_polls_listed [OF l assms(1) s c that this(1)] obtain v where "v \<in> set vs" "vw_poll v = p" by blast
        with q True show False by (auto simp: find_None_iff)
      qed
      with nt show ?thesis unfolding no_twins_def u by (auto dest: sym)
    qed
    then have "no_twins (snd (pollResults now i u))" for i by (rule no_twins_opens_none [OF _ opens_none_results])
    with \<open>no_twins u\<close> show ?thesis using True assms(2)
      by (auto simp: startPoll_def Let_def l [unfolded c_def] c_def q_def u_def case_prod_beta)
  qed
qed

fun is_create :: "poll_op \<Rightarrow> bool" where
  "is_create (Create now uuid commits c a k q opts m mins) = True"
| "is_create _ = False"

lemma no_twins_step:
  assumes "poll_inv s" and "no_twins s" and "ids_ok op" and "\<not> is_create op"
  shows "no_twins (poll_step s op)"
proof (cases op)
  case (StartTool env now uuid commits args)
  then show ?thesis using assms by (simp add: no_twins_startPoll)
qed (use assms in \<open>simp_all add: no_twins_opens_none [OF _ opens_none_castVote] no_twins_opens_none [OF _ opens_none_closePoll]
  no_twins_opens_none [OF _ opens_none_results] no_twins_opens_none [OF _ opens_none_list] no_twins_opens_none [OF _ opens_none_tools(1)]
  no_twins_opens_none [OF _ opens_none_tools(2)] no_twins_opens_none [OF _ opens_none_tools(3)]\<close>)

interpretation asked: invariant_machine no_polls "\<lambda>_ op. ids_ok op \<and> \<not> is_create op" poll_step "\<lambda>s. poll_inv s \<and> no_twins s"
proof
  show "poll_inv s \<and> no_twins s" if "no_polls s" for s
    using that polls.init_inv [OF that] by (simp add: no_polls_def no_twins_def)
  show "poll_inv (poll_step s op) \<and> no_twins (poll_step s op)" if "poll_inv s \<and> no_twins s" and "ids_ok op \<and> \<not> is_create op" for s op
    using that polls.step_inv [of s op] no_twins_step by blast
qed

text \<open>
  C38. As long as polls are started by the tool, two open polls of one conversation never ask the same question,
  blanks around it and its case aside.
\<close>

theorem tools_ask_once:
  assumes "pv_polls s = []" and "pv_options s = []" and "pv_votes s = []"
    and "admitted (\<lambda>_ op. ids_ok op \<and> \<not> is_create op) poll_step s ops" and "t = foldl poll_step s ops"
    and "p \<in> set (pv_polls t)" and "p' \<in> set (pv_polls t)" and "po_status p = ''open''" and "po_status p' = ''open''"
    and "po_conversationId p = po_conversationId p'"
    and "toLower (trimmed (po_question p)) = toLower (trimmed (po_question p'))"
  shows "p = p'"
proof -
  have "no_twins t"
    using asked.reachable_inv [OF _ assms(4)] assms(1,2,3,5) by (simp add: no_polls_def)
  with assms show ?thesis by (simp add: no_twins_def isOpen_def asks_def)
qed

definition demo_questions :: "poll_op list" where
  "demo_questions =
     (let start = (\<lambda>n q. StartTool \<lparr>pe_valid = True, pe_responderAlias = ''Boss'', pe_activeConv = ''c1''\<rparr> 5 (demo_ids n) True
        [(''question'', JStr q), (''options'', JArr [JStr ''Yes'', JStr ''No''])])
      in [start ''p'' ''Ship it?'', start ''q'' ''ship IT? '', start ''r'' ''Wait?''])"

theorem tools_ask_once_witness:
  "map po_question (pv_polls (foldl poll_step demo_polls demo_questions)) = [''Ship it?'', ''Wait?''] \<and>
   list_all (\<lambda>p. list_all (\<lambda>p'.
      po_status p = ''open'' \<and> po_status p' = ''open'' \<and> po_conversationId p = po_conversationId p' \<and>
      toLower (trimmed (po_question p)) = toLower (trimmed (po_question p')) \<longrightarrow> p = p')
     (pv_polls (foldl poll_step demo_polls demo_questions))) (pv_polls (foldl poll_step demo_polls demo_questions))"
proof -
  have "admitted (\<lambda>_ op. ids_ok op \<and> \<not> is_create op) poll_step demo_polls demo_questions"
    by (simp add: demo_questions_def Let_def del: poll_step.simps)
  from tools_ask_once [OF _ _ _ this refl] demo_polls_empty
  have "\<forall>p \<in> set (pv_polls (foldl poll_step demo_polls demo_questions)). \<forall>p' \<in> set (pv_polls (foldl poll_step demo_polls demo_questions)).
      po_status p = ''open'' \<and> po_status p' = ''open'' \<and> po_conversationId p = po_conversationId p' \<and>
      toLower (trimmed (po_question p)) = toLower (trimmed (po_question p')) \<longrightarrow> p = p'" by blast
  moreover have "map po_question (pv_polls (foldl poll_step demo_polls demo_questions)) = [''Ship it?'', ''Wait?'']" by code_simp
  ultimately show ?thesis unfolding list_all_iff by blast
qed

end
