(* ===== verification/Heartbeat_Queue.thy ===== *)
theory Heartbeat_Queue
  imports Prelude "HOL-Library.Sublist"
begin

text \<open>
  The queue of heartbeat runs (backend/services/heartbeat-subagent-queue.cpp): one queue for all configs,
  at most one waiting run per config, and a soft cap on its length. The set of configs in flight is the list
  of its elements. The locale \<open>throttled_queue\<close> states what the service relies on.
\<close>

section \<open>The queue\<close>

record hb_entry =
  qe_configId :: string
  qe_runId :: string
  qe_scheduledAt :: int

record hb_queue =
  q_fifo :: "hb_entry list"
  q_inflight :: "string list"
  q_softCap :: int

definition new_queue :: hb_queue where
  "new_queue = \<lparr>q_fifo = [], q_inflight = [], q_softCap = 100\<rparr>"

datatype enqueue_result = Accepted | DroppedThrottled | DroppedOverflow

definition setSoftCap :: "int \<Rightarrow> hb_queue \<Rightarrow> hb_queue" where
  "setSoftCap cap q = q\<lparr>q_softCap := (if cap < 1 then 1 else cap)\<rparr>"

definition countQueuedForConfig :: "string \<Rightarrow> hb_queue \<Rightarrow> nat" where
  "countQueuedForConfig c q = length (filter (\<lambda>e. qe_configId e = c) (q_fifo q))"

definition isInflight :: "string \<Rightarrow> hb_queue \<Rightarrow> bool" where
  "isInflight c q \<longleftrightarrow> c \<in> set (q_inflight q)"

definition enqueue :: "hb_entry \<Rightarrow> hb_queue \<Rightarrow> enqueue_result \<times> hb_queue" where
  "enqueue e q =
     (if qe_configId e = [] \<or> qe_runId e = [] then (DroppedOverflow, q)
      else
        let inflight = isInflight (qe_configId e) q; queued = countQueuedForConfig (qe_configId e) q
        in if queued \<ge> 1 \<or> (inflight \<and> queued \<ge> 1) then (DroppedThrottled, q)
           else if int (length (q_fifo q)) \<ge> q_softCap q then (DroppedOverflow, q)
           else (Accepted, q\<lparr>q_fifo := q_fifo q @ [e]\<rparr>))"

definition markInflight :: "string \<Rightarrow> hb_queue \<Rightarrow> hb_queue" where
  "markInflight c q = (if c = [] then q else q\<lparr>q_inflight := List.insert c (q_inflight q)\<rparr>)"

definition markNotInflight :: "string \<Rightarrow> hb_queue \<Rightarrow> hb_queue" where
  "markNotInflight c q = (if c = [] then q else q\<lparr>q_inflight := removeAll c (q_inflight q)\<rparr>)"

definition popNext :: "hb_queue \<Rightarrow> hb_entry option \<times> hb_queue" where
  "popNext q = (case q_fifo q of [] \<Rightarrow> (None, q) | e # r \<Rightarrow> (Some e, q\<lparr>q_fifo := r\<rparr>))"

definition dropQueuedForConfig :: "string \<Rightarrow> hb_queue \<Rightarrow> nat \<times> hb_queue" where
  "dropQueuedForConfig c q =
     (if c = [] then (0, q)
      else (length (filter (\<lambda>e. qe_configId e = c) (q_fifo q)),
            q\<lparr>q_fifo := filter (\<lambda>e. qe_configId e \<noteq> c) (q_fifo q)\<rparr>))"

section \<open>What the service relies on\<close>

text \<open>
  A queue whose waiting entries are a list, which takes an entry at its end when the throttle and the cap
  admit it, refuses it without any other effect, and hands out its first entry. The client gets: entries
  that were taken out and are put back in order are all accepted, and the queue is as if they had stayed.
\<close>

locale throttled_queue =
  fixes waiting :: "'q \<Rightarrow> 'e list"
    and enq :: "'e \<Rightarrow> 'q \<Rightarrow> bool \<times> 'q"
    and pop :: "'q \<Rightarrow> 'e option \<times> 'q"
    and admits :: "'e list \<Rightarrow> 'e \<Rightarrow> 'q \<Rightarrow> bool"
  assumes enq_yes: "admits (waiting q) e q \<Longrightarrow> fst (enq e q) \<and> waiting (snd (enq e q)) = waiting q @ [e]"
    and enq_no: "\<not> admits (waiting q) e q \<Longrightarrow> enq e q = (False, q)"
    and enq_frame: "admits w e' (snd (enq e q)) = admits w e' q"
    and pop_some: "waiting q = e # r \<Longrightarrow> fst (pop q) = Some e \<and> waiting (snd (pop q)) = r"
    and pop_none: "waiting q = [] \<Longrightarrow> pop q = (None, q)"
begin

definition admissible :: "'e list \<Rightarrow> 'e list \<Rightarrow> 'q \<Rightarrow> bool" where
  "admissible w es q \<longleftrightarrow> (\<forall>i < length es. admits (w @ take i es) (es ! i) q)"

lemma put_back:
  assumes "admissible (waiting q) es q"
  shows "waiting (fold (\<lambda>e q. snd (enq e q)) es q) = waiting q @ es"
  using assms
proof (induction es arbitrary: q)
  case (Cons e es)
  have "admits (waiting q) e q" using Cons.prems by (auto simp: admissible_def dest: spec [of _ 0])
  then have w: "waiting (snd (enq e q)) = waiting q @ [e]" by (rule conjunct2 [OF enq_yes])
  have "admits ((waiting q @ [e]) @ take i es) (es ! i) (snd (enq e q))" if "i < length es" for i
    using Cons.prems [unfolded admissible_def, rule_format, of "Suc i"] that by (simp add: enq_frame)
  then have "admissible (waiting (snd (enq e q))) es (snd (enq e q))" by (simp add: admissible_def w)
  from Cons.IH [OF this] show ?case by (simp add: w)
qed simp

lemma enq_appends: "waiting (snd (enq e q)) = waiting q @ (if fst (enq e q) then [e] else [])"
  by (cases "admits (waiting q) e q") (use enq_yes [of q e] enq_no [of q e] in auto)

lemma pop_takes_first: "waiting q = (case fst (pop q) of None \<Rightarrow> [] | Some e \<Rightarrow> [e]) @ waiting (snd (pop q))"
  by (cases "waiting q") (use pop_some [of q] pop_none [of q] in auto)

end

definition accepts :: "hb_entry \<Rightarrow> hb_queue \<Rightarrow> bool \<times> hb_queue" where
  "accepts e q = (fst (enqueue e q) = Accepted, snd (enqueue e q))"

definition hb_admits :: "hb_entry list \<Rightarrow> hb_entry \<Rightarrow> hb_queue \<Rightarrow> bool" where
  "hb_admits w e q \<longleftrightarrow> qe_configId e \<noteq> [] \<and> qe_runId e \<noteq> [] \<and> qe_configId e \<notin> qe_configId ` set w \<and>
     int (length w) < q_softCap q"

lemma count_zero: "countQueuedForConfig c q = 0 \<longleftrightarrow> c \<notin> qe_configId ` set (q_fifo q)"
  by (auto simp: countQueuedForConfig_def filter_empty_conv)

lemma enqueue_cases:
  "enqueue e q =
     (if qe_configId e = [] \<or> qe_runId e = [] then (DroppedOverflow, q)
      else if qe_configId e \<in> qe_configId ` set (q_fifo q) then (DroppedThrottled, q)
      else if q_softCap q \<le> int (length (q_fifo q)) then (DroppedOverflow, q)
      else (Accepted, q\<lparr>q_fifo := q_fifo q @ [e]\<rparr>))"
  using count_zero [of "qe_configId e" q] by (auto simp: enqueue_def Let_def Suc_le_eq)

interpretation hbq: throttled_queue q_fifo accepts popNext hb_admits
  by unfold_locales
    (auto simp: accepts_def enqueue_cases hb_admits_def popNext_def split: if_splits list.splits)

section \<open>Its invariant\<close>

datatype queue_op =
    QEnqueue hb_entry | QPop | QMark string | QUnmark string | QDrop string | QSoftCap int

definition queue_step :: "hb_queue \<Rightarrow> queue_op \<Rightarrow> hb_queue" where
  "queue_step q a =
     (case a of
        QEnqueue e \<Rightarrow> snd (enqueue e q)
      | QPop \<Rightarrow> snd (popNext q)
      | QMark c \<Rightarrow> markInflight c q
      | QUnmark c \<Rightarrow> markNotInflight c q
      | QDrop c \<Rightarrow> snd (dropQueuedForConfig c q)
      | QSoftCap n \<Rightarrow> setSoftCap n q)"

definition queue_inv :: "hb_queue \<Rightarrow> bool" where
  "queue_inv q \<longleftrightarrow> distinct (map qe_configId (q_fifo q)) \<and> distinct (q_inflight q) \<and> 1 \<le> q_softCap q \<and>
     (\<forall>e \<in> set (q_fifo q). qe_configId e \<noteq> [] \<and> qe_runId e \<noteq> [])"

lemma queue_inv_new [simp, intro]: "queue_inv new_queue"
  by (simp add: queue_inv_def new_queue_def)

lemma queue_inv_ops [inv_intro]:
  assumes "queue_inv q"
  shows "queue_inv (snd (enqueue e q))" "queue_inv (snd (popNext q))" "queue_inv (markInflight c q)"
    "queue_inv (markNotInflight c q)" "queue_inv (snd (dropQueuedForConfig c q))" "queue_inv (setSoftCap n q)"
  using assms
  by (auto simp: queue_inv_def enqueue_cases popNext_def markInflight_def markNotInflight_def
      dropQueuedForConfig_def setSoftCap_def distinct_removeAll distinct_map_filter split: list.splits)

interpretation hb_queue: invariant_machine "\<lambda>q. q = new_queue" "\<lambda>_ _. True" queue_step queue_inv
  by unfold_locales (auto simp: queue_step_def intro: inv_intro split: queue_op.splits)

lemma queue_length:
  assumes "\<forall>a \<in> set as. \<forall>n. a \<noteq> QSoftCap n" and "int (length (q_fifo q)) \<le> q_softCap q"
  shows "int (length (q_fifo (foldl queue_step q as))) \<le> q_softCap q \<and>
    q_softCap (foldl queue_step q as) = q_softCap q"
  using assms
proof (induction as arbitrary: q)
  case (Cons a as)
  have "int (length (q_fifo (queue_step q a))) \<le> q_softCap q \<and> q_softCap (queue_step q a) = q_softCap q"
    using Cons.prems
    by (cases a) (auto simp: queue_step_def enqueue_cases popNext_def markInflight_def markNotInflight_def
        dropQueuedForConfig_def intro: order_trans [OF _ Cons.prems(2)] split: list.splits)
  then show ?case using Cons.IH [of "queue_step q a"] Cons.prems(1) by auto
qed simp

text \<open>
  From a new queue and with the default cap, no config ever has more than one waiting run and at most 100
  runs wait, whatever is enqueued, popped, dropped and marked.
\<close>

theorem queue_bounds:
  assumes "\<forall>a \<in> set as. \<forall>n. a \<noteq> QSoftCap n"
  defines "q \<equiv> foldl queue_step new_queue as"
  shows "countQueuedForConfig c q \<le> 1 \<and> length (q_fifo q) \<le> 100 \<and>
    (\<forall>e \<in> set (q_fifo q). qe_configId e \<noteq> [] \<and> qe_runId e \<noteq> [])"
proof -
  have i: "queue_inv q" unfolding q_def by (rule hb_queue.reachable_inv) simp_all
  have "length (q_fifo q) \<le> 100" using queue_length [OF assms(1), of new_queue] by (simp add: q_def new_queue_def)
  moreover have "countQueuedForConfig c q \<le> 1"
  proof -
    have "distinct (map qe_configId (filter (\<lambda>e. qe_configId e = c) (q_fifo q)))"
      using i by (simp add: queue_inv_def distinct_map_filter)
    moreover have "set (map qe_configId (filter (\<lambda>e. qe_configId e = c) (q_fifo q))) \<subseteq> {c}" by auto
    ultimately have "length (map qe_configId (filter (\<lambda>e. qe_configId e = c) (q_fifo q))) \<le> card {c}"
      by (metis card_mono distinct_card finite.emptyI finite.insertI)
    then show ?thesis by (simp add: countQueuedForConfig_def)
  qed
  ultimately show ?thesis using i by (simp add: queue_inv_def)
qed

theorem queue_bounds_witness:
  "countQueuedForConfig ''c'' (foldl queue_step new_queue [QEnqueue \<lparr>qe_configId = ''c'', qe_runId = ''1'', qe_scheduledAt = 0\<rparr>,
     QMark ''c'', QEnqueue \<lparr>qe_configId = ''c'', qe_runId = ''2'', qe_scheduledAt = 60000\<rparr>]) = 1"
proof -
  let ?as = "[QEnqueue \<lparr>qe_configId = ''c'', qe_runId = ''1'', qe_scheduledAt = 0\<rparr>, QMark ''c'',
    QEnqueue \<lparr>qe_configId = ''c'', qe_runId = ''2'', qe_scheduledAt = 60000\<rparr>]"
  have "countQueuedForConfig ''c'' (foldl queue_step new_queue ?as) \<le> 1" using queue_bounds [of ?as] by simp
  moreover have "countQueuedForConfig ''c'' (foldl queue_step new_queue ?as) \<noteq> 0" by code_simp
  ultimately show ?thesis by linarith
qed

section \<open>Its order\<close>

text \<open>The accepted entries and the popped ones, along a sequence of operations.\<close>

fun accepted :: "hb_queue \<Rightarrow> queue_op list \<Rightarrow> hb_entry list" where
  "accepted q [] = []"
| "accepted q (a # as) =
     (case a of QEnqueue e \<Rightarrow> if fst (enqueue e q) = Accepted then [e] else [] | _ \<Rightarrow> []) @ accepted (queue_step q a) as"

fun popped :: "hb_queue \<Rightarrow> queue_op list \<Rightarrow> hb_entry list" where
  "popped q [] = []"
| "popped q (a # as) =
     (case a of QPop \<Rightarrow> (case fst (popNext q) of Some e \<Rightarrow> [e] | None \<Rightarrow> []) | _ \<Rightarrow> []) @ popped (queue_step q a) as"

text \<open>
  The queue refines the list of what was accepted: popped and waiting entries are accepted ones in the
  order of acceptance, each once, and all of them when no entries are dropped.
\<close>

theorem queue_serves_in_order:
  shows "subseq (popped q as @ q_fifo (foldl queue_step q as)) (q_fifo q @ accepted q as) \<and>
    ((\<forall>a \<in> set as. \<forall>c. a \<noteq> QDrop c) \<longrightarrow>
       popped q as @ q_fifo (foldl queue_step q as) = q_fifo q @ accepted q as)"
proof (induction as arbitrary: q)
  case (Cons a as)
  let ?q = "queue_step q a"
  have step: "subseq ((case a of QPop \<Rightarrow> (case fst (popNext q) of Some e \<Rightarrow> [e] | None \<Rightarrow> []) | _ \<Rightarrow> []) @ q_fifo ?q)
      (q_fifo q @ (case a of QEnqueue e \<Rightarrow> if fst (enqueue e q) = Accepted then [e] else [] | _ \<Rightarrow> []))" (is "subseq (?p @ _) (_ @ ?a)")
    by (cases a) (auto simp: queue_step_def enqueue_cases popNext_def markInflight_def markNotInflight_def
        dropQueuedForConfig_def setSoftCap_def split: list.splits)
  have eq: "(\<forall>c. a \<noteq> QDrop c) \<Longrightarrow> ?p @ q_fifo ?q = q_fifo q @ ?a"
    by (cases a) (auto simp: queue_step_def enqueue_cases popNext_def markInflight_def markNotInflight_def
        setSoftCap_def split: list.splits)
  note IH = Cons.IH [of ?q]
  have "subseq (?p @ popped ?q as @ q_fifo (foldl queue_step ?q as)) (?p @ q_fifo ?q @ accepted ?q as)"
    using IH by (simp add: subseq_append')
  moreover have "subseq ((?p @ q_fifo ?q) @ accepted ?q as) ((q_fifo q @ ?a) @ accepted ?q as)"
    by (rule list_emb_append_mono [OF step subseq_order.order_refl])
  ultimately have "subseq (popped q (a # as) @ q_fifo (foldl queue_step q (a # as))) (q_fifo q @ accepted q (a # as))"
    using subseq_order.order_trans by (simp only: popped.simps accepted.simps foldl_Cons append_assoc)
  then show ?case using IH eq by auto
qed simp

theorem queue_serves_in_order_witness:
  "popped new_queue [QEnqueue \<lparr>qe_configId = ''a'', qe_runId = ''1'', qe_scheduledAt = 0\<rparr>, QPop] =
   [\<lparr>qe_configId = ''a'', qe_runId = ''1'', qe_scheduledAt = 0\<rparr>]"
proof -
  let ?as = "[QEnqueue \<lparr>qe_configId = ''a'', qe_runId = ''1'', qe_scheduledAt = 0\<rparr>, QPop]"
  have "q_fifo (foldl queue_step new_queue ?as) = [] \<and>
      q_fifo new_queue @ accepted new_queue ?as = [\<lparr>qe_configId = ''a'', qe_runId = ''1'', qe_scheduledAt = 0\<rparr>]" by code_simp
  then show ?thesis using queue_serves_in_order [of new_queue ?as] by simp
qed

end
