(* ===== verification/Heartbeat_Schedule.thy ===== *)
theory Heartbeat_Schedule
  imports Prelude
begin

text \<open>
  The schedules of heartbeats (backend/utils/heartbeat-schedule.cpp): parsing a schedule, the next time it
  fires, and how often it fires in a day. A \<open>QDateTime\<close> of the local clock is the number of
  milliseconds since the start of 1970 on that clock, in a place where the clock is never set forward or
  back; \<open>None\<close> is an invalid one.
\<close>

section \<open>Schedules\<close>

datatype hb_kind = KEmpty | KInterval | KHourly | KDaily | KWeekly

record hb_schedule =
  hs_kind :: hb_kind
  hs_valid :: bool
  hs_errorMessage :: string
  hs_intervalMinutes :: int
  hs_hour :: int
  hs_minute :: int
  hs_dayOfWeek :: int

definition new_schedule :: hb_schedule where
  "new_schedule = \<lparr>hs_kind = KEmpty, hs_valid = False, hs_errorMessage = [], hs_intervalMinutes = 0,
     hs_hour = 0, hs_minute = 0, hs_dayOfWeek = 1\<rparr>"

definition kHeartbeatMinIntervalMinutes :: int where
  "kHeartbeatMinIntervalMinutes = 5"

section \<open>The parser\<close>

definition digitOf :: "char \<Rightarrow> int" where
  "digitOf c = code c - 48"

fun digitsVal :: "int \<Rightarrow> string \<Rightarrow> int option" where
  "digitsVal acc [] = Some acc"
| "digitsVal acc (c # s) = (if isDigitC c then digitsVal (10 * acc + digitOf c) s else None)"

text \<open>\<open>QString::toInt\<close> of a text without spaces at its ends.\<close>

definition textToInt :: "string \<Rightarrow> int option" where
  "textToInt s =
     (let signed = s \<noteq> [] \<and> (hd s = CHR ''-'' \<or> hd s = CHR ''+''); ds = (if signed then tl s else s) in
      if ds = [] then None
      else case digitsVal 0 ds of
        None \<Rightarrow> None
      | Some n \<Rightarrow> (let v = (if signed \<and> hd s = CHR ''-'' then - n else n) in
          if - (2 ^ 31) \<le> v \<and> v < 2 ^ 31 then Some v else None))"

text \<open>\<open>^([0-2][0-9]):([0-5][0-9])$\<close>, and hours below 24.\<close>

definition parseHHMM :: "string \<Rightarrow> (int \<times> int) option" where
  "parseHHMM s =
     (if length s = 5 \<and> isDigitC (s ! 0) \<and> digitOf (s ! 0) \<le> 2 \<and> isDigitC (s ! 1) \<and> s ! 2 = CHR '':'' \<and>
         isDigitC (s ! 3) \<and> digitOf (s ! 3) \<le> 5 \<and> isDigitC (s ! 4)
      then (let h = 10 * digitOf (s ! 0) + digitOf (s ! 1); mi = 10 * digitOf (s ! 3) + digitOf (s ! 4)
            in if h \<ge> 24 then None else Some (h, mi))
      else None)"

definition dayNames :: "string list" where
  "dayNames = [''MON'', ''TUE'', ''WED'', ''THU'', ''FRI'', ''SAT'', ''SUN'']"

definition parseDayOfWeek :: "string \<Rightarrow> int" where
  "parseDayOfWeek raw =
     (let s = toUpper (trimmed raw) in
      if s = ''MON'' then 1 else if s = ''TUE'' then 2 else if s = ''WED'' then 3 else if s = ''THU'' then 4
      else if s = ''FRI'' then 5 else if s = ''SAT'' then 6 else if s = ''SUN'' then 7 else 0)"

text \<open>The pieces between runs of \<open>\s\<close>. A text without white space at its ends matches
  \<open>^a\s+b\s+(\S+)$\<close> exactly when its pieces are \<open>a\<close>, \<open>b\<close> and one more.\<close>

fun reWords_aux :: "string \<Rightarrow> string \<Rightarrow> string list" where
  "reWords_aux [] acc = (if acc = [] then [] else [rev acc])"
| "reWords_aux (x # xs) acc =
     (if isReSpaceC x then (if acc = [] then [] else [rev acc]) @ reWords_aux xs []
      else reWords_aux xs (x # acc))"

definition reWords :: "string \<Rightarrow> string list" where
  "reWords s = reWords_aux s []"

definition quoted :: "string \<Rightarrow> string" where
  "quoted s = CHR 0x27 # s @ [CHR 0x27]"

definition rejected :: "string \<Rightarrow> hb_schedule" where
  "rejected msg = new_schedule\<lparr>hs_errorMessage := msg\<rparr>"

definition badDay :: "string \<Rightarrow> hb_schedule" where
  "badDay d = rejected (''@weekly on DAY - '' @ quoted d @ '' is not a valid day (MON/TUE/WED/THU/FRI/SAT/SUN)'')"

definition parseInterval :: "string \<Rightarrow> hb_schedule" where
  "parseInterval s =
     (let t = trimmed (drop (length ''@interval'') s) in
      if t = [] then rejected ''@interval requires an integer minute count (e.g. \"@interval 15\")''
      else case textToInt t of
        None \<Rightarrow> rejected (''@interval expected an integer (got '' @ quoted t @ '')'')
      | Some n \<Rightarrow>
          if n < kHeartbeatMinIntervalMinutes
          then rejected (''interval must be at least '' @ decimal (nat kHeartbeatMinIntervalMinutes) @ '' minutes'')
          else new_schedule\<lparr>hs_kind := KInterval, hs_intervalMinutes := n, hs_valid := True\<rparr>)"

definition parseDaily :: "string \<Rightarrow> hb_schedule" where
  "parseDaily w =
     (case parseHHMM w of
        None \<Rightarrow> rejected (''@daily at HH:MM - could not parse '' @ quoted w @ '' as 24-hour HH:MM'')
      | Some (h, mi) \<Rightarrow> new_schedule\<lparr>hs_kind := KDaily, hs_hour := h, hs_minute := mi, hs_valid := True\<rparr>)"

definition weeklyAt :: "int \<Rightarrow> int \<Rightarrow> int \<Rightarrow> hb_schedule" where
  "weeklyAt dow h mi =
     new_schedule\<lparr>hs_kind := KWeekly, hs_dayOfWeek := dow, hs_hour := h, hs_minute := mi, hs_valid := True\<rparr>"

definition parseWeeklyFull :: "string \<Rightarrow> string \<Rightarrow> hb_schedule" where
  "parseWeeklyFull d w =
     (let dow = parseDayOfWeek d in
      if dow = 0 then badDay d
      else case parseHHMM w of
        None \<Rightarrow> rejected (''@weekly ... at HH:MM - could not parse '' @ quoted w @ '' as 24-hour HH:MM'')
      | Some (h, mi) \<Rightarrow> weeklyAt dow h mi)"

definition parseWeeklyDay :: "string \<Rightarrow> hb_schedule" where
  "parseWeeklyDay d = (let dow = parseDayOfWeek d in if dow = 0 then badDay d else weeklyAt dow 0 0)"

definition unrecognised :: "string \<Rightarrow> hb_schedule" where
  "unrecognised raw = rejected (''unrecognised schedule '' @ quoted raw @ '' - must be one of: @hourly | @daily at HH:MM | @weekly[ on DAY at HH:MM] | @interval N (N >= '' @
     decimal (nat kHeartbeatMinIntervalMinutes) @ '' minutes)'')"

definition parseHeartbeatSchedule :: "string \<Rightarrow> hb_schedule" where
  "parseHeartbeatSchedule raw =
     (let s = trimmed raw in
      if s = [] then new_schedule\<lparr>hs_kind := KEmpty, hs_valid := True\<rparr>
      else if startsWithCI s ''@interval'' then parseInterval s
      else if eqCI s ''@hourly'' then new_schedule\<lparr>hs_kind := KHourly, hs_valid := True\<rparr>
      else if eqCI s ''@weekly'' then weeklyAt 1 0 0
      else case reWords s of
        [a, b, w] \<Rightarrow>
          (if eqCI a ''@daily'' \<and> eqCI b ''at'' then parseDaily w
           else if eqCI a ''@weekly'' \<and> eqCI b ''on'' then parseWeeklyDay w
           else unrecognised raw)
      | [a, b, d, c, w] \<Rightarrow>
          (if eqCI a ''@weekly'' \<and> eqCI b ''on'' \<and> eqCI c ''at'' then parseWeeklyFull d w else unrecognised raw)
      | _ \<Rightarrow> unrecognised raw)"

section \<open>The local clock\<close>

definition kHour :: int where "kHour = 3600000"

definition kDay :: int where "kDay = 86400000"

definition setTime :: "int \<Rightarrow> int \<Rightarrow> int \<Rightarrow> int" where
  "setTime t h mi = (t div kDay) * kDay + h * kHour + mi * 60000"

definition hourOf :: "int \<Rightarrow> int" where
  "hourOf t = (t mod kDay) div kHour"

text \<open>1 is Monday; 1 January 1970 was a Thursday.\<close>

definition dayOfWeek :: "int \<Rightarrow> int" where
  "dayOfWeek t = (t div kDay + 3) mod 7 + 1"

definition addSecs :: "int \<Rightarrow> int \<Rightarrow> int" where
  "addSecs t n = t + n * 1000"

definition addDays :: "int \<Rightarrow> int \<Rightarrow> int" where
  "addDays t n = t + n * kDay"

section \<open>Firing\<close>

definition nextFireTime :: "hb_schedule \<Rightarrow> int option \<Rightarrow> int option \<Rightarrow> int option" where
  "nextFireTime sch now lastFireAt =
     (if \<not> hs_valid sch \<or> hs_kind sch = KEmpty then None
      else case now of None \<Rightarrow> None | Some n \<Rightarrow>
        (case hs_kind sch of
           KEmpty \<Rightarrow> None
         | KInterval \<Rightarrow>
             (case lastFireAt of
                Some l \<Rightarrow> (let t = addSecs l (hs_intervalMinutes sch * 60) in if t < n then Some n else Some t)
              | None \<Rightarrow> Some (addSecs n (hs_intervalMinutes sch * 60)))
         | KHourly \<Rightarrow> Some (addSecs (setTime n (hourOf n) 0) (60 * 60))
         | KDaily \<Rightarrow>
             (let today = setTime n (hs_hour sch) (hs_minute sch) in
              if today > n then Some today else Some (addDays today 1))
         | KWeekly \<Rightarrow>
             (let t = setTime n (hs_hour sch) (hs_minute sch);
                  delta0 = hs_dayOfWeek sch - dayOfWeek t;
                  delta1 = (if delta0 < 0 then delta0 + 7 else delta0);
                  delta = (if delta1 = 0 \<and> t \<le> n then 7 else delta1)
              in Some (addDays t delta))))"

definition firesIn24h :: "hb_schedule \<Rightarrow> int" where
  "firesIn24h sch =
     (if \<not> hs_valid sch then 0
      else case hs_kind sch of
        KEmpty \<Rightarrow> 0
      | KHourly \<Rightarrow> 24
      | KDaily \<Rightarrow> 1
      | KWeekly \<Rightarrow> 1
      | KInterval \<Rightarrow> if hs_intervalMinutes sch \<le> 0 then 0 else (24 * 60) div hs_intervalMinutes sch)"

section \<open>When a schedule fires\<close>

text \<open>The instants at which a schedule fires, without regard to how the code finds them; an interval
  counts from its anchor.\<close>

definition fires_at :: "hb_schedule \<Rightarrow> int \<Rightarrow> int \<Rightarrow> bool" where
  "fires_at sch anchor t =
     (case hs_kind sch of
        KEmpty \<Rightarrow> False
      | KInterval \<Rightarrow> anchor < t \<and> (t - anchor) mod (hs_intervalMinutes sch * 60000) = 0
      | KHourly \<Rightarrow> t mod kHour = 0
      | KDaily \<Rightarrow> t mod kDay = hs_hour sch * kHour + hs_minute sch * 60000
      | KWeekly \<Rightarrow> t mod kDay = hs_hour sch * kHour + hs_minute sch * 60000 \<and> dayOfWeek t = hs_dayOfWeek sch)"

definition aligned :: "hb_schedule \<Rightarrow> bool" where
  "aligned sch \<longleftrightarrow> hs_kind sch \<in> {KHourly, KDaily, KWeekly}"

definition schedule_ok :: "hb_schedule \<Rightarrow> bool" where
  "schedule_ok sch \<longleftrightarrow> hs_valid sch \<and>
     (hs_kind sch = KInterval \<longrightarrow> kHeartbeatMinIntervalMinutes \<le> hs_intervalMinutes sch \<and> hs_intervalMinutes sch < 2 ^ 31) \<and>
     (hs_kind sch \<in> {KDaily, KWeekly} \<longrightarrow>
        0 \<le> hs_hour sch \<and> hs_hour sch < 24 \<and> 0 \<le> hs_minute sch \<and> hs_minute sch < 60) \<and>
     (hs_kind sch = KWeekly \<longrightarrow> 1 \<le> hs_dayOfWeek sch \<and> hs_dayOfWeek sch \<le> 7)"

lemma parseHHMM_range: "parseHHMM s = Some (h, mi) \<Longrightarrow> 0 \<le> h \<and> h < 24 \<and> 0 \<le> mi \<and> mi < 60"
  by (auto simp: parseHHMM_def Let_def isDigitC_def digitOf_def split: if_splits)

lemma parseDayOfWeek_range: "0 \<le> parseDayOfWeek d \<and> parseDayOfWeek d \<le> 7"
  by (simp add: parseDayOfWeek_def Let_def)

lemma textToInt_range: "textToInt s = Some n \<Longrightarrow> - (2 ^ 31) \<le> n \<and> n < 2 ^ 31"
  by (auto simp: textToInt_def Let_def split: if_splits option.splits)

lemma rejected_not_valid [simp]: "\<not> hs_valid (rejected msg)" "\<not> hs_valid (badDay d)" "\<not> hs_valid (unrecognised r)"
  by (simp_all add: rejected_def badDay_def unrecognised_def new_schedule_def)

lemma schedule_ok_parts:
  "hs_valid (parseInterval s) \<Longrightarrow> schedule_ok (parseInterval s)"
  "hs_valid (parseDaily w) \<Longrightarrow> schedule_ok (parseDaily w)"
  "1 \<le> d \<Longrightarrow> d \<le> 7 \<Longrightarrow> 0 \<le> h \<and> h < 24 \<and> 0 \<le> mi \<and> mi < 60 \<Longrightarrow> schedule_ok (weeklyAt d h mi)"
  "schedule_ok (new_schedule\<lparr>hs_kind := KHourly, hs_valid := True\<rparr>)"
  "schedule_ok (new_schedule\<lparr>hs_kind := KEmpty, hs_valid := True\<rparr>)"
proof -
  show "schedule_ok (parseInterval s)" if v: "hs_valid (parseInterval s)"
  proof -
    let ?t = "trimmed (drop (length ''@interval'') s)"
    from v obtain n where n: "?t \<noteq> []" "textToInt ?t = Some n" "\<not> n < kHeartbeatMinIntervalMinutes"
      unfolding parseInterval_def Let_def by (auto split: if_splits option.splits)
    then have "parseInterval s = new_schedule\<lparr>hs_kind := KInterval, hs_intervalMinutes := n, hs_valid := True\<rparr>"
      by (simp add: parseInterval_def Let_def)
    then show ?thesis using n(3) textToInt_range [OF n(2)] by (simp add: schedule_ok_def)
  qed
  show "schedule_ok (parseDaily w)" if v: "hs_valid (parseDaily w)"
    using v parseHHMM_range [of w]
    by (cases "parseHHMM w") (auto simp: parseDaily_def schedule_ok_def new_schedule_def)
qed (simp_all add: weeklyAt_def schedule_ok_def new_schedule_def)

lemma schedule_ok_weekly:
  "hs_valid (parseWeeklyFull d w) \<Longrightarrow> schedule_ok (parseWeeklyFull d w)"
  "hs_valid (parseWeeklyDay d) \<Longrightarrow> schedule_ok (parseWeeklyDay d)"
  using parseDayOfWeek_range [of d]
  by (auto simp: parseWeeklyFull_def parseWeeklyDay_def Let_def intro!: schedule_ok_parts(3)
      dest: parseHHMM_range split: if_splits option.splits)

lemma parsed_schedule_ok:
  assumes "hs_valid (parseHeartbeatSchedule raw)"
  shows "schedule_ok (parseHeartbeatSchedule raw)"
proof -
  define ws where "ws = reWords (trimmed raw)"
  show ?thesis
    using assms schedule_ok_parts(3) [of 1 0 0]
    unfolding parseHeartbeatSchedule_def Let_def ws_def [symmetric]
    by (auto simp del: One_nat_def intro: schedule_ok_parts schedule_ok_weekly split: if_splits list.split_asm list.split)
qed

subsection \<open>The next time\<close>

lemma time_of_day: 
  assumes "0 \<le> h" "h < 24" "0 \<le> mi" "mi < 60"
  shows "0 \<le> h * kHour + mi * 60000 \<and> h * kHour + mi * 60000 < kDay"
  using assms by (simp add: kHour_def kDay_def)

lemma setTime_mod:
  assumes "0 \<le> h" "h < 24" "0 \<le> mi" "mi < 60"
  shows "setTime n h mi mod kDay = h * kHour + mi * 60000" and "setTime n h mi div kDay = n div kDay"
proof -
  have r: "0 \<le> h * kHour + mi * 60000" "h * kHour + mi * 60000 < kDay" using time_of_day [OF assms] by auto
  have s: "setTime n h mi = (h * kHour + mi * 60000) + n div kDay * kDay" by (simp add: setTime_def)
  show "setTime n h mi mod kDay = h * kHour + mi * 60000"
    unfolding s using r by (simp only: mod_mult_self1 mod_pos_pos_trivial)
  have "kDay \<noteq> 0" by (simp add: kDay_def)
  then have "(h * kHour + mi * 60000 + n div kDay * kDay) div kDay = n div kDay + (h * kHour + mi * 60000) div kDay"
    by (rule div_mult_self1)
  then show "setTime n h mi div kDay = n div kDay" unfolding s using r by (simp add: div_pos_pos_trivial)
qed

lemma hourly_setTime: "setTime n (hourOf n) 0 = n div kHour * kHour"
proof -
  have "n mod (kHour * 24) = kHour * (n div kHour mod 24) + n mod kHour"
    by (rule zmod_zmult2_eq) simp
  moreover have k: "kHour * 24 = kDay" "0 < kHour" by (simp_all add: kHour_def kDay_def)
  ultimately have "n mod kDay div kHour = n div kHour mod 24" by simp
  moreover have "n div kDay = n div kHour div 24"
    using zdiv_zmult2_eq [of 24 n kHour] k by simp
  ultimately have "setTime n (hourOf n) 0 = n div kHour div 24 * kDay + (n div kHour mod 24) * kHour"
    by (simp add: setTime_def hourOf_def)
  moreover have "n div kHour div 24 * kDay + (n div kHour mod 24) * kHour =
      (n div kHour div 24 * 24 + n div kHour mod 24) * kHour"
    unfolding k(1) [symmetric] distrib_right by (simp only: mult.assoc mult.commute [of 24])
  ultimately show ?thesis by (simp only: div_mult_mod_eq)
qed

lemma next_multiple:
  fixes n :: int
  assumes "0 < k"
  shows "n < (n div k + 1) * k" and "((n div k + 1) * k) mod k = 0"
    and "n < u \<Longrightarrow> u < (n div k + 1) * k \<Longrightarrow> u mod k \<noteq> 0"
proof -
  have n: "n = n div k * k + n mod k" "0 \<le> n mod k" "n mod k < k" using assms by simp_all
  then show "n < (n div k + 1) * k" unfolding distrib_right by linarith
  show "((n div k + 1) * k) mod k = 0" by simp
  assume u: "n < u" "u < (n div k + 1) * k"
  show "u mod k \<noteq> 0"
  proof
    assume "u mod k = 0"
    then have e: "u = u div k * k" using div_mult_mod_eq [of u k] by simp
    have "u div k < n div k + 1" using u(2) e assms by (metis mult_less_cancel_right_pos)
    moreover have "n div k * k \<le> n" using n by linarith
    ultimately have "u div k * k \<le> n" using assms by (smt (verit) mult_right_mono)
    with e u(1) show False by simp
  qed
qed

lemma same_residue:
  fixes t u :: int
  assumes "t mod k = u mod k" and "0 < k" and "t < u"
  shows "t + k \<le> u"
proof -
  have "t = t div k * k + u mod k" "u = u div k * k + u mod k" using assms(1) by (metis div_mult_mod_eq)+
  then have "t div k < u div k" using assms(2,3) by (smt (verit) mult_right_mono)
  then have "(t div k + 1) * k \<le> u div k * k" using assms(2) by (intro mult_right_mono) auto
  then have "t div k * k + k \<le> u div k * k" by (simp add: distrib_right)
  with \<open>t = _\<close> \<open>u = _\<close> show ?thesis by linarith
qed

lemma hourly_next:
  assumes "t = addSecs (setTime n (hourOf n) 0) (60 * 60)"
  shows "n < t \<and> t mod kHour = 0 \<and> (\<forall>u. n < u \<and> u < t \<longrightarrow> u mod kHour \<noteq> 0)"
proof -
  have t: "t = (n div kHour + 1) * kHour" unfolding assms hourly_setTime by (simp add: addSecs_def kHour_def)
  have "0 < kHour" by (simp add: kHour_def)
  from next_multiple [OF this, of n] show ?thesis unfolding t by (intro conjI allI impI) auto
qed

lemma daily_next:
  assumes hm: "0 \<le> h" "h < 24" "0 \<le> mi" "mi < 60"
    and t: "t = (let today = setTime n h mi in if today > n then today else addDays today 1)"
  shows "n < t \<and> t mod kDay = h * kHour + mi * 60000 \<and> t - kDay \<le> n"
proof -
  define t0 where "t0 = setTime n h mi"
  have k: "0 < kDay" by (simp add: kDay_def)
  have m: "t0 mod kDay = h * kHour + mi * 60000" using setTime_mod(1) [OF hm] by (simp add: t0_def)
  have "n = n div kDay * kDay + n mod kDay" "0 \<le> n mod kDay" "n mod kDay < kDay" using k by simp_all
  moreover have "t0 = n div kDay * kDay + (h * kHour + mi * 60000)" by (simp add: t0_def setTime_def)
  moreover note time_of_day [OF hm]
  ultimately have b: "t0 \<le> n \<Longrightarrow> n < t0 + kDay" "t0 - kDay \<le> n" by linarith+
  show ?thesis
  proof (cases "n < t0")
    case True
    then show ?thesis using t m b by (simp add: t0_def [symmetric])
  next
    case False
    then show ?thesis using t m b(1) by (simp add: t0_def [symmetric] addDays_def)
  qed
qed

lemma residue_shift:
  fixes u r k :: int
  assumes "0 \<le> r" "r < k"
  shows "u mod k = r \<longleftrightarrow> (u - r) mod k = 0"
  using assms by (metis mod_0_imp_dvd mod_eq_dvd_iff dvd_imp_mod_0 mod_pos_pos_trivial)

lemma week_shift: "(y - 7 * p) mod 7 = (y :: int) mod 7"
    using mod_mult_self2 [of y 7 "- p"] by (simp add: mult.commute)

lemma weekly_next:
  assumes hm: "0 \<le> h" "h < 24" "0 \<le> mi" "mi < 60" and dow: "1 \<le> dow" "dow \<le> 7"
    and t: "t = (let t = setTime n h mi; d0 = dow - dayOfWeek t; d1 = (if d0 < 0 then d0 + 7 else d0);
       d = (if d1 = 0 \<and> t \<le> n then 7 else d1) in addDays t d)"
    and P: "P = (\<lambda>u. u mod kDay = h * kHour + mi * 60000 \<and> dayOfWeek u = dow)"
  shows "n < t \<and> P t \<and> (\<forall>u. n < u \<and> u < t \<longrightarrow> \<not> P u)"
proof -
  define t0 where "t0 = setTime n h mi"
  define D where "D = n div kDay"
  define r where "r = h * kHour + mi * 60000"
  have k: "0 < kDay" by (simp add: kDay_def)
  have r: "0 \<le> r" "r < kDay" using time_of_day [OF hm] by (simp_all add: r_def)
  have t0: "t0 = D * kDay + r" by (simp add: t0_def D_def r_def setTime_def)
  have n: "n = D * kDay + n mod kDay" "0 \<le> n mod kDay" "n mod kDay < kDay" using k by (simp_all add: D_def)
  define w where "w = (D + 3) mod 7 + 1"
  have w0: "dayOfWeek t0 = w" using setTime_mod(2) [OF hm] by (simp add: dayOfWeek_def t0_def w_def D_def)
  define d1 where "d1 = (if dow - w < 0 then dow - w + 7 else dow - w)"
  define d where "d = (if d1 = 0 \<and> t0 \<le> n then 7 else d1)"
  have td: "t = t0 + d * kDay" using t w0 by (simp add: Let_def t0_def [symmetric] d1_def d_def addDays_def)
  have w: "1 \<le> w" "w \<le> 7" by (simp_all add: w_def)
  have d1: "0 \<le> d1" "d1 < 7" "w + d1 = dow \<or> w + d1 = dow + 7" using dow w by (auto simp: d1_def)
  have shift: "(x + 3) mod 7 + 1 = dow \<longleftrightarrow> (x - D - d1) mod 7 = 0" for x
  proof -
    define q where "q = (D + 3) div 7"
    have "D = w - 4 + 7 * q" using mult_div_mod_eq [of 7 "D + 3"] unfolding w_def q_def by linarith
    then have "x - D - d1 = x + 3 - (dow - 1) - 7 * q \<or> x - D - d1 = x + 3 - (dow - 1) - 7 * (q + 1)"
      using d1(3) by auto
    then have "(x - D - d1) mod 7 = (x + 3 - (dow - 1)) mod 7"
      by (elim disjE) (simp_all only: week_shift)
    moreover have "(x + 3) mod 7 + 1 = dow \<longleftrightarrow> (x + 3 - (dow - 1)) mod 7 = 0" 
      using residue_shift [of "dow - 1" 7 "x + 3"] dow by auto
    ultimately show ?thesis by simp
  qed
  have P': "P (x * kDay + r) \<longleftrightarrow> (x - D - d1) mod 7 = 0" for x
    using r k shift [of x] by (simp add: P dayOfWeek_def r_def [symmetric])
  have "t = (D + d) * kDay + r" by (simp add: td t0 distrib_right)
  moreover have "(D + d - D - d1) mod 7 = 0" by (simp add: d_def)
  ultimately have "P t" using P' [of "D + d"] by simp
  have later: "n < t"
  proof (cases "d = 0")
    case True
    then have "\<not> t0 \<le> n" by (simp add: d_def split: if_splits)
    with True show ?thesis by (simp add: td)
  next
    case False
    then have "1 * kDay \<le> d * kDay" using d1 k by (intro mult_right_mono) (auto simp: d_def split: if_splits)
    with n r show ?thesis unfolding td t0 by linarith
  qed
  have "\<not> P u" if u: "n < u" "u < t" for u
  proof
    assume "P u"
    define x where "x = u div kDay"
    have ux: "u = x * kDay + r" using \<open>P u\<close> div_mult_mod_eq [of u kDay] by (simp add: P x_def r_def)
    then have m: "(x - D - d1) mod 7 = 0" using \<open>P u\<close> P' by simp
    have "D \<le> x" unfolding D_def x_def using u(1) k by (intro zdiv_mono1) auto
    have "x < D + d"
    proof (rule ccontr)
      assume "\<not> x < D + d"
      then have "(D + d) * kDay \<le> x * kDay" using k by (intro mult_right_mono) auto
      then show False using u(2) ux td t0 by (simp add: distrib_right)
    qed
    then have "x - D < d" "0 \<le> x - D" using \<open>D \<le> x\<close> by auto
    show False
    proof (cases "d1 = 0 \<and> t0 \<le> n")
      case True
      then have "x - D = 0" using m \<open>x - D < d\<close> \<open>0 \<le> x - D\<close> unfolding d_def by presburger
      then have "u = t0" using ux t0 by simp
      then show False using True u(1) by simp
    next
      case False
      then have "x - D < d1" using \<open>x - D < d\<close> by (simp add: d_def split: if_splits)
      then show False using m d1(2) \<open>0 \<le> x - D\<close> by presburger
    qed
  qed
  with \<open>P t\<close> later show ?thesis by blast
qed

lemma next_fire_least:
  assumes "schedule_ok sch" and "aligned sch" and "nextFireTime sch (Some n) lastFireAt = Some t"
  shows "n < t \<and> fires_at sch a t \<and> (\<forall>u. n < u \<and> u < t \<longrightarrow> \<not> fires_at sch a u)"
proof (cases "hs_kind sch")
  case KHourly
  then have "t = addSecs (setTime n (hourOf n) 0) (60 * 60)"
    using assms by (simp add: nextFireTime_def schedule_ok_def)
  from hourly_next [OF this] KHourly show ?thesis by (simp add: fires_at_def)
next
  case KDaily
  then have hm: "0 \<le> hs_hour sch" "hs_hour sch < 24" "0 \<le> hs_minute sch" "hs_minute sch < 60"
    using assms(1) by (simp_all add: schedule_ok_def)
  have "t = (let today = setTime n (hs_hour sch) (hs_minute sch) in if today > n then today else addDays today 1)"
    using assms KDaily by (auto simp: nextFireTime_def schedule_ok_def Let_def split: if_splits)
  from daily_next [OF hm this]
  have t: "n < t" "t mod kDay = hs_hour sch * kHour + hs_minute sch * 60000" "t - kDay \<le> n" by auto
  have "u mod kDay \<noteq> t mod kDay" if "n < u" "u < t" for u
    using same_residue [of u kDay t] that t(3) by (auto simp: kDay_def)
  with t KDaily show ?thesis by (simp add: fires_at_def)
next
  case KWeekly
  then have hm: "0 \<le> hs_hour sch" "hs_hour sch < 24" "0 \<le> hs_minute sch" "hs_minute sch < 60"
    and dow: "1 \<le> hs_dayOfWeek sch" "hs_dayOfWeek sch \<le> 7"
    using assms(1) by (simp_all add: schedule_ok_def)
  have "t = (let t = setTime n (hs_hour sch) (hs_minute sch); d0 = hs_dayOfWeek sch - dayOfWeek t;
      d1 = (if d0 < 0 then d0 + 7 else d0); d = (if d1 = 0 \<and> t \<le> n then 7 else d1) in addDays t d)"
    using assms KWeekly by (simp add: nextFireTime_def schedule_ok_def Let_def)
  from weekly_next [OF hm dow this refl] KWeekly show ?thesis by (simp add: fires_at_def)
qed (use assms(2) in \<open>simp_all add: aligned_def\<close>)

text \<open>
  C30. An hourly, daily or weekly schedule fires next at the first instant after the present at which it can
  fire: what nextFireTime computes from the parts of the date is the least one of the specification.
\<close>

theorem next_fire_is_least:
  assumes "schedule_ok sch" and "aligned sch" and "nextFireTime sch (Some n) lastFireAt = Some t"
  shows "n < t \<and> fires_at sch a t \<and> (\<forall>u. n < u \<and> u < t \<longrightarrow> \<not> fires_at sch a u)"
  by (rule next_fire_least [OF assms])

lemmas next_fire_after = next_fire_least [THEN conjunct1]

theorem next_fire_is_least_witness:
  "nextFireTime (weeklyAt 2 9 30) (Some (4 * kDay + 12 * kHour)) None = Some (5 * kDay + 9 * kHour + 30 * 60000) \<and>
   4 * kDay + 12 * kHour < 5 * kDay + 9 * kHour + 30 * 60000"
proof -
  have e: "nextFireTime (weeklyAt 2 9 30) (Some (4 * kDay + 12 * kHour)) None = Some (5 * kDay + 9 * kHour + 30 * 60000)"
    by code_simp
  have "schedule_ok (weeklyAt 2 9 30)" by code_simp
  moreover have "aligned (weeklyAt 2 9 30)" by code_simp
  ultimately show ?thesis using e next_fire_is_least [OF _ _ e] by blast
qed

lemma count_multiples:
  fixes n k :: int
  assumes "0 < k"
  shows "{t. n < t \<and> t \<le> n + m * k \<and> t mod k = 0} = (\<lambda>j. (n div k + j) * k) ` {1..m}"
proof (intro set_eqI iffI)
  fix t assume "t \<in> {t. n < t \<and> t \<le> n + m * k \<and> t mod k = 0}"
  then have t: "n < t" "t \<le> n + m * k" "t = t div k * k" using div_mult_mod_eq [of t k] by simp_all
  have "n div k < t div k"
  proof (rule ccontr)
    assume "\<not> n div k < t div k"
    then have "t div k * k \<le> n div k * k" using assms by (intro mult_right_mono) auto
    then show False using t(1,3) assms div_mult_mod_eq [of n k] pos_mod_sign [of k n] by linarith
  qed
  moreover have "t div k \<le> (n + m * k) div k" using t(2) assms by (rule zdiv_mono1)
  ultimately have "t div k - n div k \<in> {1..m}" using assms by simp
  moreover have "t = (n div k + (t div k - n div k)) * k" using t(3) by simp
  ultimately show "t \<in> (\<lambda>j. (n div k + j) * k) ` {1..m}" by blast
next
  fix t assume "t \<in> (\<lambda>j. (n div k + j) * k) ` {1..m}"
  then obtain j where j: "1 \<le> j" "j \<le> m" "t = (n div k + j) * k" by auto
  have n: "n = n div k * k + n mod k" "0 \<le> n mod k" "n mod k < k" using assms by simp_all
  have "k \<le> j * k" "j * k \<le> m * k" using j assms by simp_all
  then show "t \<in> {t. n < t \<and> t \<le> n + m * k \<and> t mod k = 0}"
    unfolding mem_Collect_eq j(3) distrib_right using n by (intro conjI) (linarith, linarith, simp)
qed

lemma card_multiples:
  fixes n k :: int
  assumes "0 < k" and "0 \<le> m"
  shows "int (card {t. n < t \<and> t \<le> n + m * k \<and> t mod k = 0}) = m"
proof -
  have "inj_on (\<lambda>j. (n div k + j) * k) {1..m}" using assms(1) by (auto simp: inj_on_def)
  then show ?thesis unfolding count_multiples [OF assms(1)] using assms(2) by (simp add: card_image)
qed

lemma card_residues:
  fixes n k r :: int
  assumes "0 \<le> r" "r < k"
  shows "card {t. n < t \<and> t \<le> n + k \<and> t mod k = r} = 1"
proof -
  have "{t. n < t \<and> t \<le> n + k \<and> t mod k = r} = (\<lambda>t. t + r) ` {t. n - r < t \<and> t \<le> n - r + 1 * k \<and> t mod k = 0}"
  proof (intro set_eqI iffI)
    fix t assume "t \<in> {t. n < t \<and> t \<le> n + k \<and> t mod k = r}"
    then have "t - r \<in> {t. n - r < t \<and> t \<le> n - r + 1 * k \<and> t mod k = 0}" using residue_shift [OF assms, of t] by simp
    then show "t \<in> (\<lambda>t. t + r) ` {t. n - r < t \<and> t \<le> n - r + 1 * k \<and> t mod k = 0}" by (rule rev_image_eqI) simp
  next
    fix t assume "t \<in> (\<lambda>t. t + r) ` {t. n - r < t \<and> t \<le> n - r + 1 * k \<and> t mod k = 0}"
    then have "n - r < t - r \<and> t - r \<le> n - r + 1 * k \<and> (t - r) mod k = 0" by auto
    then show "t \<in> {t. n < t \<and> t \<le> n + k \<and> t mod k = r}" using residue_shift [OF assms, of t] by simp
  qed
  then have "card {t. n < t \<and> t \<le> n + k \<and> t mod k = r} = card {t. n - r < t \<and> t \<le> n - r + 1 * k \<and> t mod k = 0}"
    by (simp add: card_image inj_on_def)
  moreover have "0 < k" using assms by simp
  ultimately show ?thesis using card_multiples [of k 1 "n - r"] by simp
qed

lemma card_interval:
  fixes k a b :: int
  assumes k: "0 < k" and b: "0 \<le> b"
  shows "int (card {t. a < t \<and> t \<le> a + b \<and> (t - a) mod k = 0}) = b div k"
proof -
  have "{t. a < t \<and> t \<le> a + b \<and> (t - a) mod k = 0} = (\<lambda>t. t + a) ` {t. 0 < t \<and> t \<le> 0 + (b div k) * k \<and> t mod k = 0}"
  proof -
    have "u \<le> b \<longleftrightarrow> u \<le> b div k * k" if "u mod k = 0" for u
    proof
      assume "u \<le> b"
      then have "u div k * k \<le> b div k * k" using k by (simp add: zdiv_mono1)
      then show "u \<le> b div k * k" using that div_mult_mod_eq [of u k] by simp
    next
      assume "u \<le> b div k * k"
      also have "\<dots> \<le> b" using k div_mult_mod_eq [of b k] pos_mod_sign [OF k, of b] by linarith
      finally show "u \<le> b" .
    qed
    then have "(a < t \<and> t \<le> a + b \<and> (t - a) mod k = 0) = (0 < t - a \<and> t - a \<le> b div k * k \<and> (t - a) mod k = 0)" for t
      by (smt (verit))
    then show ?thesis
      by (intro set_eqI iffI) (rule rev_image_eqI [where x = "_ - a"], simp, simp, auto)
  qed
  then have "card {t. a < t \<and> t \<le> a + b \<and> (t - a) mod k = 0} =
      card {t. 0 < t \<and> t \<le> 0 + (b div k) * k \<and> t mod k = 0}"
    by (simp add: card_image inj_on_def)
  then show ?thesis using card_multiples [OF k, of "b div k" 0] k b by (simp add: pos_imp_zdiv_nonneg_iff)
qed

text \<open>
  The estimate of the fires per day is exact: in any 24 hours an hourly or daily schedule fires as often as
  firesIn24h says, as does an interval counted from the start of the window; a weekly one fires at most
  that often.
\<close>

theorem fires_in_day_exact:
  assumes "schedule_ok sch"
  shows "int (card {t. n < t \<and> t \<le> n + kDay \<and> fires_at sch n t}) \<le> firesIn24h sch \<and>
    (hs_kind sch \<noteq> KWeekly \<longrightarrow> int (card {t. n < t \<and> t \<le> n + kDay \<and> fires_at sch n t}) = firesIn24h sch)"
proof -
  define S where "S = {t. n < t \<and> t \<le> n + kDay \<and> fires_at sch n t}"
  have v: "hs_valid sch" using assms by (simp add: schedule_ok_def)
  have exact: "int (card S) = firesIn24h sch" if "hs_kind sch \<noteq> KWeekly"
  proof (cases "hs_kind sch")
    case KHourly
    have "int (card {t. n < t \<and> t \<le> n + 24 * kHour \<and> t mod kHour = 0}) = 24"
      by (rule card_multiples) (simp_all add: kHour_def)
    then show ?thesis using KHourly v by (simp add: S_def fires_at_def firesIn24h_def kDay_def kHour_def)
  next
    case KDaily
    then have "0 \<le> hs_hour sch \<and> hs_hour sch < 24 \<and> 0 \<le> hs_minute sch \<and> hs_minute sch < 60"
      using assms by (simp add: schedule_ok_def)
    then have "0 \<le> hs_hour sch * kHour + hs_minute sch * 60000" "hs_hour sch * kHour + hs_minute sch * 60000 < kDay"
      using time_of_day [of "hs_hour sch" "hs_minute sch"] by auto
    from card_residues [OF this, of n] show ?thesis using KDaily v by (simp add: S_def fires_at_def firesIn24h_def)
  next
    case KInterval
    then have p: "5 \<le> hs_intervalMinutes sch" using assms by (simp add: schedule_ok_def kHeartbeatMinIntervalMinutes_def)
    have s: "S = {t. n < t \<and> t \<le> n + kDay \<and> (t - n) mod (hs_intervalMinutes sch * 60000) = 0}"
      using KInterval by (auto simp: S_def fires_at_def)
    have "int (card S) = kDay div (hs_intervalMinutes sch * 60000)"
      unfolding s by (rule card_interval) (use p in \<open>simp_all add: kDay_def\<close>)
    also have "\<dots> = 1440 div hs_intervalMinutes sch"
      using div_mult_mult2 [of 60000 1440 "hs_intervalMinutes sch"] by (simp add: kDay_def)
    finally show ?thesis using KInterval v p by (simp add: firesIn24h_def)
  qed (use that v in \<open>simp_all add: S_def fires_at_def firesIn24h_def\<close>)
  moreover have "int (card S) \<le> firesIn24h sch"
  proof (cases "hs_kind sch = KWeekly")
    case True
    then have "0 \<le> hs_hour sch \<and> hs_hour sch < 24 \<and> 0 \<le> hs_minute sch \<and> hs_minute sch < 60"
      using assms by (simp add: schedule_ok_def)
    then have r: "0 \<le> hs_hour sch * kHour + hs_minute sch * 60000" "hs_hour sch * kHour + hs_minute sch * 60000 < kDay"
      using time_of_day [of "hs_hour sch" "hs_minute sch"] by auto
    have "card S \<le> card {t. n < t \<and> t \<le> n + kDay \<and> t mod kDay = hs_hour sch * kHour + hs_minute sch * 60000}"
      by (rule card_mono) (use True in \<open>auto simp: S_def fires_at_def intro: finite_subset [of _ "{n<..n + kDay}"]\<close>)
    then show ?thesis using card_residues [OF r, of n] True v by (simp add: S_def firesIn24h_def)
  qed (use exact in simp)
  ultimately show ?thesis by (simp add: S_def)
qed

theorem fires_in_day_exact_witness:
  "int (card {t. 1000 < t \<and> t \<le> 1000 + kDay \<and> fires_at (parseHeartbeatSchedule ''@interval 7'') 1000 t}) = 205"
proof -
  have "schedule_ok (parseHeartbeatSchedule ''@interval 7'') \<and> hs_kind (parseHeartbeatSchedule ''@interval 7'') \<noteq> KWeekly \<and>
      firesIn24h (parseHeartbeatSchedule ''@interval 7'') = 205" by code_simp
  then show ?thesis using fires_in_day_exact [of "parseHeartbeatSchedule ''@interval 7''" 1000] by simp
qed

section \<open>Texts of schedules\<close>

text \<open>The text of a schedule in the form that the documentation names.\<close>

definition twoDigits :: "int \<Rightarrow> string" where
  "twoDigits n = [char_of (48 + n div 10), char_of (48 + n mod 10)]"

definition hhmm :: "hb_schedule \<Rightarrow> string" where
  "hhmm sch = twoDigits (hs_hour sch) @ CHR '':'' # twoDigits (hs_minute sch)"

definition scheduleText :: "hb_schedule \<Rightarrow> string" where
  "scheduleText sch =
     (case hs_kind sch of
        KEmpty \<Rightarrow> []
      | KInterval \<Rightarrow> ''@interval '' @ decimal (nat (hs_intervalMinutes sch))
      | KHourly \<Rightarrow> ''@hourly''
      | KDaily \<Rightarrow> ''@daily at '' @ hhmm sch
      | KWeekly \<Rightarrow> ''@weekly on '' @ dayNames ! nat (hs_dayOfWeek sch - 1) @ '' at '' @ hhmm sch)"

definition canonical :: "hb_schedule \<Rightarrow> bool" where
  "canonical sch \<longleftrightarrow> schedule_ok sch \<and> hs_errorMessage sch = [] \<and>
     (hs_kind sch \<noteq> KInterval \<longrightarrow> hs_intervalMinutes sch = 0) \<and>
     (hs_kind sch \<notin> {KDaily, KWeekly} \<longrightarrow> hs_hour sch = 0 \<and> hs_minute sch = 0) \<and>
     (hs_kind sch \<noteq> KWeekly \<longrightarrow> hs_dayOfWeek sch = 1)"

lemma digit_char:
  assumes "0 \<le> d" "d < 10"
  shows "isDigitC (char_of (48 + d :: int))" "digitOf (char_of (48 + d)) = d" "\<not> isReSpaceC (char_of (48 + d))"
    "\<not> isSpaceC (char_of (48 + d))" "(char_of (48 + d) :: char) \<noteq> CHR ''-''" "(char_of (48 + d) :: char) \<noteq> CHR ''+''"
proof -
  have c: "code (char_of (48 + d)) = 48 + d" using assms by simp
  show "isDigitC (char_of (48 + d :: int))" "digitOf (char_of (48 + d)) = d" "\<not> isReSpaceC (char_of (48 + d))"
    "\<not> isSpaceC (char_of (48 + d))"
    unfolding isDigitC_def digitOf_def isReSpaceC_def isSpaceC_def Let_def c using assms by auto
  have "code CHR ''-'' = 45" "code CHR ''+'' = 43" by code_simp+
  then have "code (char_of (48 + d)) \<noteq> code CHR ''-''" "code (char_of (48 + d)) \<noteq> code CHR ''+''"
    unfolding c using assms by simp_all
  then show "(char_of (48 + d) :: char) \<noteq> CHR ''-''" "(char_of (48 + d) :: char) \<noteq> CHR ''+''"
    by (metis)+
qed

lemma char_of_nat_int: "(char_of (48 + n) :: char) = char_of (48 + int n)" if "n < 10"
proof -
  have "code (char_of (48 + n)) = int (48 + n)" using that by (simp add: code_nat)
  moreover have "code (char_of (48 + int n)) = 48 + int n" using that by simp
  ultimately show ?thesis by (metis code_inject of_nat_add of_nat_numeral)
qed

lemma parseHHMM_hhmm:
  assumes "0 \<le> h" "h < 24" "0 \<le> mi" "mi < 60"
  shows "parseHHMM (twoDigits h @ CHR '':'' # twoDigits mi) = Some (h, mi)"
proof -
  have "0 \<le> h div 10" "h div 10 \<le> 2" "0 \<le> mi div 10" "mi div 10 \<le> 5" using assms by auto
  then show ?thesis using assms by (simp add: parseHHMM_def twoDigits_def digit_char)
qed

lemma digitsVal_append: "\<forall>c \<in> set xs. isDigitC c \<Longrightarrow>
    digitsVal acc (xs @ ys) = digitsVal (the (digitsVal acc xs)) ys \<and> digitsVal acc xs \<noteq> None"
  by (induction xs arbitrary: acc) auto

lemma decimal_digits: "decimal n \<noteq> [] \<and> (\<forall>c \<in> set (decimal n). isDigitC c) \<and> digitsVal 0 (decimal n) = Some (int n)"
proof (induction n rule: decimal.induct)
  case (1 n)
  show ?case
  proof (cases "n < 10")
    case True
    then show ?thesis using char_of_nat_int digit_char [of "int n"] by (simp add: decimal.simps [of n])
  next
    case False
    have e: "(char_of (48 + n mod 10) :: char) = char_of (48 + int (n mod 10))"
      by (rule char_of_nat_int) simp
    have d: "isDigitC (char_of (48 + int (n mod 10)))" "digitOf (char_of (48 + int (n mod 10))) = int (n mod 10)"
      using digit_char(1,2) [of "int (n mod 10)"] by simp_all
    have "10 * int (n div 10) + int (n mod 10) = int n" by (metis mult_div_mod_eq of_nat_add of_nat_mult of_nat_numeral)
    then show ?thesis using False 1 d e digitsVal_append [of "decimal (n div 10)" 0 "[char_of (48 + n mod 10)]"]
      by (simp add: decimal.simps [of n])
  qed
qed

lemma reWords_aux_plain:
  "\<forall>c \<in> set xs. \<not> isReSpaceC c \<Longrightarrow> reWords_aux (xs @ CHR '' '' # ys) acc =
     (if acc = [] \<and> xs = [] then [] else [rev acc @ xs]) @ reWords_aux ys []"
  by (induction xs arbitrary: acc) (auto simp: isReSpaceC_def code_def)

lemma reWords_cons:
  assumes "w \<noteq> []" "\<forall>c \<in> set w. \<not> isReSpaceC c"
  shows "reWords (w @ CHR '' '' # ys) = w # reWords ys" and "reWords w = [w]"
proof -
  show "reWords (w @ CHR '' '' # ys) = w # reWords ys" using assms by (simp add: reWords_def reWords_aux_plain)
  have "reWords_aux xs acc = (if acc = [] \<and> xs = [] then [] else [rev acc @ xs])" if "\<forall>c \<in> set xs. \<not> isReSpaceC c" for xs acc
    using that by (induction xs arbitrary: acc) auto
  then show "reWords w = [w]" using assms by (simp add: reWords_def)
qed

lemma hhmm_text:
  assumes "0 \<le> h" "h < 24" "0 \<le> mi" "mi < 60"
  defines "w \<equiv> twoDigits h @ CHR '':'' # twoDigits mi"
  shows "w \<noteq> []" "\<forall>c \<in> set w. \<not> isReSpaceC c" "\<not> isSpaceC (last w)" "parseHHMM w = Some (h, mi)"
proof -
  have d: "0 \<le> h div 10" "h div 10 < 10" "0 \<le> mi div 10" "mi div 10 < 10" "0 \<le> h mod 10" "h mod 10 < 10"
    "0 \<le> mi mod 10" "mi mod 10 < 10" using assms by auto
  have "\<not> isReSpaceC CHR '':''" by code_simp
  then show "w \<noteq> []" "\<forall>c \<in> set w. \<not> isReSpaceC c" "\<not> isSpaceC (last w)"
    using d by (simp_all add: w_def twoDigits_def digit_char)
  show "parseHHMM w = Some (h, mi)" unfolding w_def by (rule parseHHMM_hhmm) (use assms in auto)
qed

lemma textToInt_decimal: "0 \<le> n \<Longrightarrow> n < 2 ^ 31 \<Longrightarrow> textToInt (decimal (nat n)) = Some n"
proof -
  assume n: "0 \<le> n" "n < 2 ^ 31"
  note d = decimal_digits [of "nat n"]
  then have "isDigitC (hd (decimal (nat n)))" by simp
  moreover have "\<not> isDigitC CHR ''-''" "\<not> isDigitC CHR ''+''" by code_simp+
  ultimately have "hd (decimal (nat n)) \<noteq> CHR ''-'' \<and> hd (decimal (nat n)) \<noteq> CHR ''+''" by metis
  then show ?thesis using d n by (simp add: textToInt_def Let_def)
qed

lemma day_text:
  assumes "1 \<le> d" "d \<le> 7"
  defines "w \<equiv> dayNames ! nat (d - 1)"
  shows "w \<noteq> []" "\<forall>c \<in> set w. \<not> isReSpaceC c" "parseDayOfWeek w = d"
proof -
  have "d = 1 \<or> d = 2 \<or> d = 3 \<or> d = 4 \<or> d = 5 \<or> d = 6 \<or> d = 7" using assms by auto
  moreover have "\<forall>i \<in> {1, 2, 3, 4, 5, 6, 7}. dayNames ! nat (i - 1) \<noteq> [] \<and>
      list_all (\<lambda>c. \<not> isReSpaceC c) (dayNames ! nat (i - 1)) \<and> parseDayOfWeek (dayNames ! nat (i - 1)) = i"
    by code_simp
  ultimately show "w \<noteq> []" "\<forall>c \<in> set w. \<not> isReSpaceC c" "parseDayOfWeek w = d"
    by (auto simp: w_def list_all_iff)
qed

lemma eqCI_prefix: "eqCI (a @ b) c \<Longrightarrow> eqCI a (take (length a) c)"
  by (simp add: eqCI_def toLower_def) (metis append_eq_conv_conj length_map take_map)

lemma startsWithCI_prefix: "length p \<le> length a \<Longrightarrow> startsWithCI (a @ b) p \<longleftrightarrow> startsWithCI a p"
  by (simp add: startsWithCI_def)

lemma parse_daily:
  assumes "w \<noteq> []" "\<forall>c \<in> set w. \<not> isReSpaceC c" "\<not> isSpaceC (last w)"
  shows "parseHeartbeatSchedule (''@daily at '' @ w) = parseDaily w"
proof -
  let ?s = "''@daily at '' @ w"
  have t: "trimmed ?s = ?s" using assms by (intro trimmed_id) (auto simp: isSpaceC_def code_def)
  have "\<not> startsWithCI ''@daily at '' ''@interval''" by code_simp
  then have 1: "\<not> startsWithCI ?s ''@interval''" by (subst startsWithCI_prefix) simp_all
  have "\<not> eqCI ''@daily '' ''@hourly''" by code_simp
  then have 2: "\<not> eqCI ?s ''@hourly''" using eqCI_prefix [of "''@daily ''" "''at '' @ w" "''@hourly''"] by auto
  have "\<not> eqCI ''@daily '' ''@weekly''" by code_simp
  then have 3: "\<not> eqCI ?s ''@weekly''" using eqCI_prefix [of "''@daily ''" "''at '' @ w" "''@weekly''"] by auto
  have "list_all (\<lambda>c. \<not> isReSpaceC c) ''@daily'' \<and> list_all (\<lambda>c. \<not> isReSpaceC c) ''at''" by code_simp
  then have "reWords (''@daily'' @ CHR '' '' # ''at'' @ CHR '' '' # w) = [''@daily'', ''at'', w]"
    using reWords_cons(1) [of "''@daily''"] reWords_cons(1) [of "''at''" w] reWords_cons(2) [OF assms(1,2)]
    by (auto simp: list_all_iff)
  then have "reWords ?s = [''@daily'', ''at'', w]" by simp
  then show ?thesis using 1 2 3 unfolding parseHeartbeatSchedule_def Let_def t by simp
qed

lemma parse_weekly:
  assumes "w \<noteq> []" "\<forall>c \<in> set w. \<not> isReSpaceC c" "\<not> isSpaceC (last w)" "d \<noteq> []" "\<forall>c \<in> set d. \<not> isReSpaceC c"
  shows "parseHeartbeatSchedule (''@weekly on '' @ d @ '' at '' @ w) = parseWeeklyFull d w"
proof -
  let ?s = "''@weekly on '' @ d @ '' at '' @ w"
  have t: "trimmed ?s = ?s" using assms by (intro trimmed_id) (auto simp: isSpaceC_def code_def)
  have "\<not> startsWithCI ''@weekly on '' ''@interval''" by code_simp
  then have 1: "\<not> startsWithCI ?s ''@interval''" by (subst startsWithCI_prefix) simp_all
  have "\<not> eqCI ''@weekly '' ''@hourly''" by code_simp
  then have 2: "\<not> eqCI ?s ''@hourly''" using eqCI_prefix [of "''@weekly ''" "''on '' @ d @ '' at '' @ w" "''@hourly''"] by auto
  have 3: "\<not> eqCI ?s ''@weekly''"
  proof
    assume "eqCI ?s ''@weekly''"
    then have "length (toLower ?s) = length (toLower ''@weekly'')" by (simp only: eqCI_def)
    then show False by (simp add: toLower_def)
  qed
  have "list_all (\<lambda>c. \<not> isReSpaceC c) ''@weekly'' \<and> list_all (\<lambda>c. \<not> isReSpaceC c) ''on'' \<and>
      list_all (\<lambda>c. \<not> isReSpaceC c) ''at''" by code_simp
  then have "reWords (''@weekly'' @ CHR '' '' # ''on'' @ CHR '' '' # d @ CHR '' '' # ''at'' @ CHR '' '' # w) =
      [''@weekly'', ''on'', d, ''at'', w]"
    using reWords_cons(1) [of "''@weekly''"] reWords_cons(1) [of "''on''"] reWords_cons(1) [OF assms(4,5)]
      reWords_cons(1) [of "''at''" w] reWords_cons(2) [OF assms(1,2)]
    by (auto simp: list_all_iff)
  then have "reWords ?s = [''@weekly'', ''on'', d, ''at'', w]" by simp
  then show ?thesis using 1 2 3 unfolding parseHeartbeatSchedule_def Let_def t by simp
qed

lemma digit_not_space: "isDigitC c \<Longrightarrow> \<not> isSpaceC c"
  by (auto simp: isDigitC_def isSpaceC_def Let_def)

lemma parse_interval:
  assumes "5 \<le> n" "n < 2 ^ 31"
  shows "parseHeartbeatSchedule (''@interval '' @ decimal (nat n)) =
    new_schedule\<lparr>hs_kind := KInterval, hs_intervalMinutes := n, hs_valid := True\<rparr>"
proof -
  let ?d = "decimal (nat n)"
  have d: "?d \<noteq> []" "\<forall>c \<in> set ?d. isDigitC c" using decimal_digits by auto
  then have e: "\<not> isSpaceC (hd ?d)" "\<not> isSpaceC (last ?d)" using digit_not_space by auto
  have t: "trimmed (''@interval '' @ ?d) = ''@interval '' @ ?d" using d e by (intro trimmed_id) (auto simp: isSpaceC_def code_def)
  have "startsWithCI ''@interval '' ''@interval''" by code_simp
  then have s: "startsWithCI (''@interval '' @ ?d) ''@interval''" by (subst startsWithCI_prefix) simp_all
  have "isSpaceC CHR '' ''" by code_simp
  then have "trimmed (CHR '' '' # ?d) = trimmed ?d" by (simp add: trimmed_def)
  also have "\<dots> = ?d" using e by (intro trimmed_id) blast
  finally have "trimmed (drop (length ''@interval'') (''@interval '' @ ?d)) = ?d" by simp
  then show ?thesis using assms d(1) s textToInt_decimal [of n] unfolding parseHeartbeatSchedule_def Let_def t
    by (simp add: parseInterval_def kHeartbeatMinIntervalMinutes_def)
qed

text \<open>
  Writing a schedule in the documented form and parsing the text gives the schedule back, for every
  schedule the parser can return.
\<close>

theorem schedule_text_roundtrip:
  assumes "canonical sch"
  shows "parseHeartbeatSchedule (scheduleText sch) = sch"
proof -
  note ok = assms [unfolded canonical_def schedule_ok_def]
  show ?thesis
  proof (cases "hs_kind sch")
    case KEmpty
    have "parseHeartbeatSchedule [] = new_schedule\<lparr>hs_kind := KEmpty, hs_valid := True\<rparr>" by code_simp
    then show ?thesis using KEmpty ok by (simp add: scheduleText_def new_schedule_def)
  next
    case KHourly
    have "parseHeartbeatSchedule ''@hourly'' = new_schedule\<lparr>hs_kind := KHourly, hs_valid := True\<rparr>" by code_simp
    then show ?thesis using KHourly ok by (simp add: scheduleText_def new_schedule_def)
  next
    case KInterval
    then have "parseHeartbeatSchedule (scheduleText sch) =
        new_schedule\<lparr>hs_kind := KInterval, hs_intervalMinutes := hs_intervalMinutes sch, hs_valid := True\<rparr>"
      using ok parse_interval by (simp add: scheduleText_def kHeartbeatMinIntervalMinutes_def)
    then show ?thesis using KInterval ok by (simp add: new_schedule_def)
  next
    case KDaily
    then have hm: "0 \<le> hs_hour sch" "hs_hour sch < 24" "0 \<le> hs_minute sch" "hs_minute sch < 60" using ok by auto
    from hhmm_text [OF hm] have "parseHeartbeatSchedule (scheduleText sch) = parseDaily (hhmm sch)"
      using parse_daily KDaily by (simp add: scheduleText_def hhmm_def)
    then show ?thesis using hhmm_text(4) [OF hm] KDaily ok by (simp add: parseDaily_def hhmm_def new_schedule_def)
  next
    case KWeekly
    then have hm: "0 \<le> hs_hour sch" "hs_hour sch < 24" "0 \<le> hs_minute sch" "hs_minute sch < 60"
      and dow: "1 \<le> hs_dayOfWeek sch" "hs_dayOfWeek sch \<le> 7" using ok by auto
    from hhmm_text [OF hm] day_text [OF dow]
    have "parseHeartbeatSchedule (scheduleText sch) = parseWeeklyFull (dayNames ! nat (hs_dayOfWeek sch - 1)) (hhmm sch)"
      using parse_weekly KWeekly by (simp add: scheduleText_def hhmm_def)
    also have "\<dots> = weeklyAt (hs_dayOfWeek sch) (hs_hour sch) (hs_minute sch)"
      using day_text(3) [OF dow] dow hhmm_text(4) [OF hm] by (simp add: parseWeeklyFull_def hhmm_def Let_def)
    finally show ?thesis using KWeekly ok by (simp add: weeklyAt_def new_schedule_def)
  qed
qed

theorem schedule_text_roundtrip_witness:
  "parseHeartbeatSchedule (scheduleText (weeklyAt 5 17 30)) = weeklyAt 5 17 30 \<and>
   scheduleText (weeklyAt 5 17 30) = ''@weekly on FRI at 17:30''"
proof -
  have "canonical (weeklyAt 5 17 30)" by code_simp
  moreover have "scheduleText (weeklyAt 5 17 30) = ''@weekly on FRI at 17:30''" by code_simp
  ultimately show ?thesis using schedule_text_roundtrip by blast
qed

text \<open>
  A text that is parsed gives a schedule in its ranges: an interval has at least five minutes, hours are
  below 24, minutes below 60, days between Monday and Sunday.
\<close>

theorem parsed_schedule_in_range:
  "hs_valid (parseHeartbeatSchedule raw) \<Longrightarrow> schedule_ok (parseHeartbeatSchedule raw)"
  by (rule parsed_schedule_ok)

theorem parsed_schedule_in_range_witness:
  "schedule_ok (parseHeartbeatSchedule ''@interval15'') \<and> \<not> hs_valid (parseHeartbeatSchedule ''@interval 4'')"
proof -
  have "hs_valid (parseHeartbeatSchedule ''@interval15'')" by code_simp
  moreover have "\<not> hs_valid (parseHeartbeatSchedule ''@interval 4'')" by code_simp
  ultimately show ?thesis using parsed_schedule_in_range by blast
qed

end
