(* ===== verification/Heartbeat_Config.thy ===== *)
theory Heartbeat_Config
  imports Heartbeat_Schedule "HOL-Library.List_Lexorder"
begin

text \<open>
  The configs of heartbeats and the reports of their runs (backend/models/heartbeat-config.cpp,
  models/heartbeat-report.h), the service of the configs (backend/services/heartbeat-config-service.cpp) on
  the three tables of the schema (models/db-manager.cpp, versions 10 and 11), and the parser of the text a
  run answers with (utils/heartbeat-report-parser.cpp). The last fire is kept as the time it denotes,
  \<open>None\<close> when the column is NULL; the order of its texts is the order of the times.
\<close>

section \<open>Records\<close>

datatype scope_type = Conversation1to1 | ConversationGroup | Folder

definition heartbeatScopeTypeToString :: "scope_type \<Rightarrow> string" where
  "heartbeatScopeTypeToString t =
     (case t of Conversation1to1 \<Rightarrow> ''conversation_1to1'' | ConversationGroup \<Rightarrow> ''conversation_group''
      | Folder \<Rightarrow> ''folder'')"

definition heartbeatScopeTypeFromString :: "string \<Rightarrow> scope_type" where
  "heartbeatScopeTypeFromString s =
     (if s = ''conversation_group'' then ConversationGroup else if s = ''folder'' then Folder else Conversation1to1)"

record hb_config =
  hc_id :: string
  hc_agentId :: string
  hc_scopeType :: scope_type
  hc_scopeId :: string
  hc_alias :: string
  hc_enabled :: bool
  hc_schedule :: string
  hc_goal :: string
  hc_surfaceCriteria :: string
  hc_maxRunsPerDay :: int
  hc_autoSurfaceTarget :: string
  hc_selfConfigAllowed :: bool
  hc_lastFireAt :: "int option"
  hc_lastFireOutcome :: string
  hc_createdAt :: "int option"
  hc_updatedAt :: "int option"

definition no_config :: hb_config where
  "no_config = \<lparr>hc_id = [], hc_agentId = [], hc_scopeType = Conversation1to1, hc_scopeId = [], hc_alias = [],
     hc_enabled = False, hc_schedule = [], hc_goal = [], hc_surfaceCriteria = [], hc_maxRunsPerDay = 24,
     hc_autoSurfaceTarget = [], hc_selfConfigAllowed = False, hc_lastFireAt = None, hc_lastFireOutcome = [],
     hc_createdAt = None, hc_updatedAt = None\<rparr>"

definition validConfig :: "hb_config \<Rightarrow> bool" where
  "validConfig c \<longleftrightarrow> hc_id c \<noteq> [] \<and> hc_agentId c \<noteq> [] \<and> hc_scopeId c \<noteq> []"

record hb_report =
  hr_id :: string
  hr_configId :: string
  hr_startedAt :: "int option"
  hr_completedAt :: "int option"
  hr_outcome :: string
  hr_title :: string
  hr_body :: string
  hr_summary :: string
  hr_parentReviewStatus :: string
  hr_surfaceStatus :: string
  hr_surfacedMessageId :: string
  hr_error :: string

definition no_report :: hb_report where
  "no_report = \<lparr>hr_id = [], hr_configId = [], hr_startedAt = None, hr_completedAt = None, hr_outcome = [],
     hr_title = [], hr_body = [], hr_summary = [], hr_parentReviewStatus = ''pending'',
     hr_surfaceStatus = ''pending'', hr_surfacedMessageId = [], hr_error = []\<rparr>"

text \<open>A row of \<open>heartbeat_config_changes\<close>.\<close>

record hb_change =
  hg_id :: string
  hg_configId :: string
  hg_changedAt :: int
  hg_field :: string
  hg_oldValue :: string
  hg_newValue :: string
  hg_source :: string

datatype config_event = ConfigChanged string | ConfigRemoved string

record hb_store =
  hd_up :: bool
  hd_agents :: "string list"
  hd_configs :: "hb_config list"
  hd_reports :: "hb_report list"
  hd_changes :: "hb_change list"
  hd_out :: "config_event list"

section \<open>The text of a report\<close>

record parsed_report =
  pr_title :: string
  pr_body :: string
  pr_summary :: string
  pr_valid :: bool

fun splitAt_aux :: "char \<Rightarrow> string \<Rightarrow> string \<Rightarrow> string list" where
  "splitAt_aux c [] acc = [rev acc]"
| "splitAt_aux c (x # xs) acc = (if x = c then rev acc # splitAt_aux c xs [] else splitAt_aux c xs (x # acc))"

text \<open>\<open>QString::split\<close> on one character, which keeps empty parts.\<close>

definition splitAt :: "char \<Rightarrow> string \<Rightarrow> string list" where
  "splitAt c s = splitAt_aux c s []"

definition chopCR :: "string \<Rightarrow> string" where
  "chopCR s = (if endsWithC s (CHR 0x0D) then butlast s else s)"

definition labelMatches :: "string \<Rightarrow> string \<Rightarrow> bool" where
  "labelMatches rest tag \<longleftrightarrow> length rest \<ge> length tag + 1 \<and> rest ! length tag = CHR '':'' \<and> eqCI (take (length tag) rest) tag"

definition labelOnLine :: "string \<Rightarrow> string" where
  "labelOnLine line =
     (let rest = dropWhile (\<lambda>c. c = CHR '' '' \<or> c = CHR 0x09) line in
      if labelMatches rest ''TITLE'' then ''TITLE''
      else if labelMatches rest ''RESULTS'' then ''RESULTS''
      else if labelMatches rest ''SUMMARY'' then ''SUMMARY'' else [])"

definition contentAfterLabel :: "string \<Rightarrow> string" where
  "contentAfterLabel line = (case indexOfC line (CHR '':'') 0 of None \<Rightarrow> [] | Some i \<Rightarrow> drop (Suc i) line)"

text \<open>The three accumulators and the current section.\<close>

record sections =
  se_current :: string
  se_title :: "string list"
  se_body :: "string list"
  se_summary :: "string list"

definition flush :: "string \<Rightarrow> string \<Rightarrow> sections \<Rightarrow> sections" where
  "flush section content a =
     (if section = ''TITLE'' then a\<lparr>se_title := se_title a @ [content]\<rparr>
      else if section = ''RESULTS'' then a\<lparr>se_body := se_body a @ [content]\<rparr>
      else if section = ''SUMMARY'' then a\<lparr>se_summary := se_summary a @ [content]\<rparr>
      else a)"

definition takeLine :: "string \<Rightarrow> sections \<Rightarrow> sections" where
  "takeLine line a =
     (let lab = labelOnLine line in
      if lab \<noteq> [] then
        (let sameLine = trimmed (contentAfterLabel line); b = a\<lparr>se_current := lab\<rparr>
         in if sameLine \<noteq> [] then flush lab sameLine b else b)
      else if se_current a \<noteq> [] then flush (se_current a) line a
      else a)"

definition sectionsOf :: "string \<Rightarrow> sections" where
  "sectionsOf raw =
     fold takeLine (map chopCR (splitAt (CHR 0x0A) raw)) \<lparr>se_current = [], se_title = [], se_body = [], se_summary = []\<rparr>"

definition parseHeartbeatReport :: "string \<Rightarrow> parsed_report" where
  "parseHeartbeatReport raw =
     (if raw = [] then \<lparr>pr_title = [], pr_body = [], pr_summary = [], pr_valid = False\<rparr>
      else
        let a = sectionsOf raw;
            title = trimmed (joinWith '' '' (se_title a));
            body = trimmed (joinWith [CHR 0x0A] (se_body a));
            summary = trimmed (joinWith [CHR 0x0A] (se_summary a));
            valid = body \<noteq> [] \<or> summary \<noteq> []
        in \<lparr>pr_title = (if length title > 100 then take 100 title else title),
            pr_body = (if valid then body else trimmed raw), pr_summary = summary, pr_valid = valid\<rparr>)"

text \<open>Whether the title, the body or the summary of a parsed answer is a null \<open>QString\<close>: the join of a section
  of which nothing was said is null, and so is what is trimmed from it. A null text is bound as NULL.\<close>

definition hasNullText :: "string \<Rightarrow> bool" where
  "hasNullText raw \<longleftrightarrow> raw = [] \<or>
     joinWith '' '' (se_title (sectionsOf raw)) = [] \<or> joinWith [CHR 0x0A] (se_summary (sectionsOf raw)) = [] \<or>
     (pr_valid (parseHeartbeatReport raw) \<and> joinWith [CHR 0x0A] (se_body (sectionsOf raw)) = [])"

section \<open>The service of the configs\<close>

definition config_out :: "config_event \<Rightarrow> hb_store \<Rightarrow> hb_store" where
  "config_out e d = d\<lparr>hd_out := hd_out d @ [e]\<rparr>"

definition sameKey :: "hb_config \<Rightarrow> hb_config \<Rightarrow> bool" where
  "sameKey a b \<longleftrightarrow> hc_agentId a = hc_agentId b \<and> hc_scopeType a = hc_scopeType b \<and>
     hc_scopeId a = hc_scopeId b \<and> hc_alias a = hc_alias b"

text \<open>The columns that a second upsert of an id writes.\<close>

definition overwrite :: "hb_config \<Rightarrow> hb_config \<Rightarrow> hb_config" where
  "overwrite new old = old\<lparr>hc_enabled := hc_enabled new, hc_schedule := hc_schedule new, hc_goal := hc_goal new,
     hc_surfaceCriteria := hc_surfaceCriteria new, hc_maxRunsPerDay := hc_maxRunsPerDay new,
     hc_autoSurfaceTarget := hc_autoSurfaceTarget new, hc_selfConfigAllowed := hc_selfConfigAllowed new,
     hc_updatedAt := hc_updatedAt new\<rparr>"

definition mapConfig :: "string \<Rightarrow> (hb_config \<Rightarrow> hb_config) \<Rightarrow> hb_store \<Rightarrow> hb_store" where
  "mapConfig i f d = d\<lparr>hd_configs := map (\<lambda>c. if hc_id c = i then f c else c) (hd_configs d)\<rparr>"

definition hasConfig :: "string \<Rightarrow> hb_store \<Rightarrow> bool" where
  "hasConfig i d \<longleftrightarrow> i \<in> hc_id ` set (hd_configs d)"

definition upsertConfig :: "int \<Rightarrow> hb_config \<Rightarrow> hb_store \<Rightarrow> string \<times> hb_store" where
  "upsertConfig nowUtc cfg d =
     (if hc_id cfg = [] \<or> hc_agentId cfg = [] \<or> hc_scopeId cfg = [] then ([], d)
      else
        let c = cfg\<lparr>hc_createdAt := Some (case hc_createdAt cfg of Some t \<Rightarrow> t | None \<Rightarrow> nowUtc), hc_updatedAt := Some nowUtc\<rparr>
        in if \<not> hd_up d then ([], d)
           else if hasConfig (hc_id c) d then (hc_id c, config_out (ConfigChanged (hc_id c)) (mapConfig (hc_id c) (overwrite c) d))
           else if hc_agentId c \<notin> set (hd_agents d) \<or> (\<exists>o' \<in> set (hd_configs d). sameKey o' c) then ([], d)
           else (hc_id c, config_out (ConfigChanged (hc_id c)) (d\<lparr>hd_configs := hd_configs d @ [c]\<rparr>)))"

definition configById :: "hb_store \<Rightarrow> string \<Rightarrow> hb_config" where
  "configById d i =
     (if i = [] \<or> \<not> hd_up d then no_config
      else case find (\<lambda>c. hc_id c = i) (hd_configs d) of Some c \<Rightarrow> c | None \<Rightarrow> no_config)"

definition configFor :: "hb_store \<Rightarrow> string \<Rightarrow> scope_type \<Rightarrow> string \<Rightarrow> string \<Rightarrow> hb_config" where
  "configFor d agentId scopeType scopeId alias' =
     (if agentId = [] \<or> scopeId = [] \<or> \<not> hd_up d then no_config
      else case find (\<lambda>c. hc_agentId c = agentId \<and> hc_scopeType c = scopeType \<and> hc_scopeId c = scopeId \<and>
          hc_alias c = alias') (hd_configs d) of Some c \<Rightarrow> c | None \<Rightarrow> no_config)"

definition updateConfig :: "int \<Rightarrow> hb_config \<Rightarrow> hb_store \<Rightarrow> bool \<times> hb_store" where
  "updateConfig nowUtc cfg d =
     (if \<not> validConfig cfg \<or> \<not> hd_up d \<or> \<not> hasConfig (hc_id cfg) d then (False, d)
      else (True, config_out (ConfigChanged (hc_id cfg))
             (mapConfig (hc_id cfg) (overwrite (cfg\<lparr>hc_updatedAt := Some nowUtc\<rparr>)) d)))"

text \<open>DELETE of configs: their reports and their audit rows go with them.\<close>

definition removeConfigs :: "(hb_config \<Rightarrow> bool) \<Rightarrow> hb_store \<Rightarrow> hb_store" where
  "removeConfigs P d =
     (let gone = hc_id ` set (filter P (hd_configs d)) in
      d\<lparr>hd_configs := filter (\<lambda>c. \<not> P c) (hd_configs d),
        hd_reports := filter (\<lambda>r. hr_configId r \<notin> gone) (hd_reports d),
        hd_changes := filter (\<lambda>g. hg_configId g \<notin> gone) (hd_changes d)\<rparr>)"

definition deleteConfig :: "string \<Rightarrow> hb_store \<Rightarrow> bool \<times> hb_store" where
  "deleteConfig i d =
     (if i = [] \<or> \<not> hd_up d \<or> \<not> hasConfig i d then (False, d)
      else (True, config_out (ConfigRemoved i) (removeConfigs (\<lambda>c. hc_id c = i) d)))"

text \<open>Never fired configs first, then the oldest fire; ids decide ties.\<close>

definition enabledConfigs :: "hb_store \<Rightarrow> hb_config list" where
  "enabledConfigs d =
     (if hd_up d then
        (let cs = sort_key hc_id (filter hc_enabled (hd_configs d))
         in filter (\<lambda>c. hc_lastFireAt c = None) cs @
            sort_key (\<lambda>c. the (hc_lastFireAt c)) (filter (\<lambda>c. hc_lastFireAt c \<noteq> None) cs))
      else [])"

definition configsInScope :: "hb_store \<Rightarrow> scope_type \<Rightarrow> string \<Rightarrow> hb_config list" where
  "configsInScope d t scopeId =
     (if scopeId = [] \<or> \<not> hd_up d then []
      else sort_key hc_alias (sort_key hc_id
        (filter (\<lambda>c. hc_scopeType c = t \<and> hc_scopeId c = scopeId) (hd_configs d))))"

definition updateLastFire :: "int \<Rightarrow> string \<Rightarrow> int \<Rightarrow> string \<Rightarrow> hb_store \<Rightarrow> bool \<times> hb_store" where
  "updateLastFire nowUtc i firedAt outcome d =
     (if i = [] \<or> \<not> hd_up d then (False, d)
      else (hasConfig i d, mapConfig i (\<lambda>c. c\<lparr>hc_lastFireAt := Some firedAt, hc_lastFireOutcome := outcome,
              hc_updatedAt := Some nowUtc\<rparr>) d))"

definition onConversationDeleted :: "string \<Rightarrow> hb_store \<Rightarrow> nat \<times> hb_store" where
  "onConversationDeleted convId d =
     (let P = (\<lambda>c. hc_scopeId c = convId \<and> hc_scopeType c \<in> {Conversation1to1, ConversationGroup}) in
      if convId = [] \<or> \<not> hd_up d then (0, d) else (length (filter P (hd_configs d)), removeConfigs P d))"

definition onFolderDeleted :: "string \<Rightarrow> hb_store \<Rightarrow> nat \<times> hb_store" where
  "onFolderDeleted folderId d =
     (let P = (\<lambda>c. hc_scopeId c = folderId \<and> hc_scopeType c = Folder) in
      if folderId = [] \<or> \<not> hd_up d then (0, d) else (length (filter P (hd_configs d)), removeConfigs P d))"

text \<open>What QML passes: the fields of the map, with their defaults. A config of QML has no last fire.\<close>

definition upsertConfigMap :: "int \<Rightarrow> string \<Rightarrow> hb_config \<Rightarrow> hb_store \<Rightarrow> string \<times> hb_store" where
  "upsertConfigMap nowUtc uuid f d =
     upsertConfig nowUtc (f\<lparr>hc_lastFireAt := None, hc_lastFireOutcome := [], hc_createdAt := None, hc_updatedAt := None,
       hc_id := (if hc_id f = [] then uuid else hc_id f)\<rparr>) d"

definition dailyFires :: "hb_config \<Rightarrow> int" where
  "dailyFires c =
     (let s = parseHeartbeatSchedule (hc_schedule c) in
      if hs_valid s then min (firesIn24h s) (hc_maxRunsPerDay c) else 0)"

definition capOf :: "int \<Rightarrow> int" where
  "capOf n = (if n \<le> 0 then 1 else if n > 24 then 24 else n)"

definition suggestedAutoSurfaceCap :: "hb_store \<Rightarrow> string \<Rightarrow> int" where
  "suggestedAutoSurfaceCap d convId =
     (if convId = [] then 1
      else capOf (sum_list (map dailyFires (filter hc_enabled
        (configsInScope d Conversation1to1 convId @ configsInScope d ConversationGroup convId @
         (if hd_up d then filter (\<lambda>c. hc_scopeType c = Folder \<and> hc_autoSurfaceTarget c = convId \<and> hc_enabled c) (hd_configs d)
          else []))))))"

definition suggestedAutoSurfaceCapForFolder :: "hb_store \<Rightarrow> string \<Rightarrow> string \<Rightarrow> int" where
  "suggestedAutoSurfaceCapForFolder d folderId target =
     (if folderId = [] \<or> target = [] then 1
      else capOf (sum_list (map dailyFires (filter (\<lambda>c. hc_enabled c \<and> hc_autoSurfaceTarget c = target)
        (configsInScope d Folder folderId)))))"

definition recordChange ::
    "int \<Rightarrow> string \<Rightarrow> string \<Rightarrow> string \<Rightarrow> string \<Rightarrow> string \<Rightarrow> string \<Rightarrow> hb_store \<Rightarrow> bool \<times> hb_store" where
  "recordChange nowUtc uuid configId field oldValue newValue source d =
     (if configId = [] \<or> field = [] then (False, d)
      else if source \<noteq> ''agent'' \<and> source \<noteq> ''user'' then (False, d)
      else if \<not> hd_up d \<or> \<not> hasConfig configId d \<or> uuid \<in> hg_id ` set (hd_changes d) then (False, d)
      else (True, d\<lparr>hd_changes := hd_changes d @ [\<lparr>hg_id = uuid, hg_configId = configId, hg_changedAt = nowUtc,
             hg_field = field, hg_oldValue = oldValue, hg_newValue = newValue, hg_source = source\<rparr>]\<rparr>))"

end
