(* ===== verification/Heartbeat_Service.thy ===== *)
theory Heartbeat_Service
  imports Heartbeat_Queue Heartbeat_Config Message_Service Cascade
begin

text \<open>
  The service that runs heartbeats (backend/services/heartbeat-subagent-service.cpp): the tick of the
  schedule, the queue, one run at a time on the background slot of the model router, the review of its
  report, and the post of a report into the chat, which waits while the chat streams. What the service
  reads of agents, conversations, skills, tools and the router is \<open>hb_env\<close>, as are the clock, which does not
  move during one operation, and fresh ids, which are numbered. \<open>he_send\<close> is the error the router reports
  while a request is handed to it, if it does; all other answers of the router arrive as operations of their
  own. \<open>he_streaming\<close> is whether a conversation has a stream in flight, given everything the service has
  done so far. The connections to the router's signals are made unique: connecting twice keeps the first
  connection and loses the handle that would remove it.
\<close>

section \<open>Environment and state\<close>

record hb_agent =
  ha_id :: string
  ha_name :: string
  ha_systemPrompt :: string
  ha_modelProvider :: string
  ha_modelName :: string

definition no_agent :: hb_agent where
  "no_agent = \<lparr>ha_id = [], ha_name = [], ha_systemPrompt = [], ha_modelProvider = [], ha_modelName = []\<rparr>"

definition validAgent :: "hb_agent \<Rightarrow> bool" where
  "validAgent a \<longleftrightarrow> ha_id a \<noteq> [] \<and> ha_name a \<noteq> []"

record hb_chat =
  hv_folderId :: string
  hv_isGroup :: bool
  hv_allowAutoSurface :: bool
  hv_autoSurfaceMaxPerDay :: int

record skill_info =
  sk_id :: string
  sk_description :: string
  sk_tags :: "string list"
  sk_declaredTools :: "string list"

record resolved_scope =
  rs_preferredSkillIds :: "string list"
  rs_exposeOnly :: bool

record llm_message =
  lm_role :: string
  lm_content :: string

record llm_request =
  rq_requestId :: int
  rq_conversationId :: string
  rq_systemPrompt :: string
  rq_messages :: "llm_message list"
  rq_providerId :: string
  rq_modelName :: string
  rq_maxTokens :: int
  rq_turnKind :: string
  rq_availableTools :: "string list"

datatype hb_event =
    Routed llm_request
  | BackgroundCancelled
  | RunStarted string string
  | RunCompleted string string
  | RunFailed string string
  | ScheduleChanged string
  | GloballyPausedChanged
  | LogLinesChanged
  | SurfaceDecision string string string
  | CascadeRoute string string inputs

record hb_env =
  he_now :: int
  he_utc :: int
  he_uuid :: "nat \<Rightarrow> string"
  he_agent :: "string \<Rightarrow> hb_agent"
  he_conversation :: "string \<Rightarrow> hb_chat option"
  he_listConversations :: "string \<Rightarrow> string list"
  he_skillsForFolder :: "string \<Rightarrow> resolved_scope"
  he_skillsForConversation :: "string \<Rightarrow> resolved_scope"
  he_skill :: "string \<Rightarrow> skill_info option"
  he_tools :: "string list"
  he_activeProvider :: string
  he_activeModel :: string
  he_bgProvider :: "string \<Rightarrow> bool"
  he_send :: "llm_request \<Rightarrow> string option"
  he_hasChat :: bool
  he_streaming :: "hb_event list \<Rightarrow> string \<Rightarrow> bool"
  he_hasCascade :: bool

datatype phase = NoPhase | Tier1 | Tier2

record pending_post =
  pp_reportId :: string
  pp_postBody :: string
  pp_mode :: string

record hb_service =
  hb_store :: hb_store
  hb_msgs :: msg_service
  hb_queue :: hb_queue
  hb_scheduleTimer :: bool
  hb_runTimer :: bool
  hb_paused :: bool
  hb_logRing :: "string list"
  hb_phase :: phase
  hb_runId :: string
  hb_configId :: string
  hb_requestId :: int
  hb_accumulator :: string
  hb_startedAt :: "int option"
  hb_connected :: bool
  hb_handles :: bool
  hb_reviewReportId :: string
  hb_reviewConvId :: string
  hb_reviewConfigId :: string
  hb_pendingPosts :: "(string \<times> pending_post list) list"
  hb_fresh :: nat
  hb_out :: "hb_event list"

definition hb_emit :: "hb_event \<Rightarrow> hb_service \<Rightarrow> hb_service" where
  "hb_emit e s = s\<lparr>hb_out := hb_out s @ [e]\<rparr>"

definition newUuidString :: "hb_env \<Rightarrow> hb_service \<Rightarrow> string \<times> hb_service" where
  "newUuidString env s = (he_uuid env (hb_fresh s), s\<lparr>hb_fresh := Suc (hb_fresh s)\<rparr>)"

section \<open>Log lines\<close>

definition kLogRingCap :: nat where
  "kLogRingCap = 200"

definition clockText :: "int \<Rightarrow> string" where
  "clockText t = twoDigits (hourOf t) @ '':'' @ twoDigits (t mod kHour div 60000) @ '':'' @ twoDigits (t mod 60000 div 1000)"

definition appendLogLine :: "hb_env \<Rightarrow> string \<Rightarrow> hb_service \<Rightarrow> hb_service" where
  "appendLogLine env line s =
     (if line = [] then s
      else
        let ring = hb_logRing s @ [''['' @ clockText (he_now env) @ ''] '' @ line]
        in hb_emit LogLinesChanged (s\<lparr>hb_logRing := drop (length ring - kLogRingCap) ring\<rparr>))"

section \<open>Rows of reports\<close>

definition mapReport :: "string \<Rightarrow> (hb_report \<Rightarrow> hb_report) \<Rightarrow> hb_service \<Rightarrow> hb_service" where
  "mapReport i f s =
     (if hd_up (hb_store s)
      then s\<lparr>hb_store := (hb_store s)\<lparr>hd_reports := map (\<lambda>r. if hr_id r = i then f r else r) (hd_reports (hb_store s))\<rparr>\<rparr>
      else s)"

text \<open>INSERT OR REPLACE; the config must exist.\<close>

definition persistReportRow :: "hb_report \<Rightarrow> hb_service \<Rightarrow> hb_service" where
  "persistReportRow r s =
     (let d = hb_store s;
          row = r\<lparr>hr_parentReviewStatus := (if hr_parentReviewStatus r = [] then ''pending'' else hr_parentReviewStatus r),
                  hr_surfaceStatus := (if hr_surfaceStatus r = [] then ''pending'' else hr_surfaceStatus r)\<rparr>
      in if hd_up d \<and> hasConfig (hr_configId r) d
         then s\<lparr>hb_store := d\<lparr>hd_reports := filter (\<lambda>x. hr_id x \<noteq> hr_id r) (hd_reports d) @ [row]\<rparr>\<rparr>
         else s)"

definition reportById :: "hb_store \<Rightarrow> string \<Rightarrow> hb_report option" where
  "reportById d i = (if hd_up d then find (\<lambda>r. hr_id r = i) (hd_reports d) else None)"

definition recordLastFire :: "hb_env \<Rightarrow> string \<Rightarrow> string \<Rightarrow> hb_service \<Rightarrow> hb_service" where
  "recordLastFire env c outcome s =
     s\<lparr>hb_store := snd (updateLastFire (he_utc env) c (he_now env) outcome (hb_store s))\<rparr>"

text \<open>A report that is complete when it is written.\<close>

definition endedReport :: "hb_env \<Rightarrow> hb_entry \<Rightarrow> string \<Rightarrow> string \<Rightarrow> hb_report" where
  "endedReport env e outcome err =
     no_report\<lparr>hr_id := qe_runId e, hr_configId := qe_configId e, hr_startedAt := Some (he_now env),
       hr_completedAt := Some (he_now env), hr_outcome := outcome, hr_error := err\<rparr>"

definition updateReportSurface :: "string \<Rightarrow> string \<Rightarrow> string \<Rightarrow> string \<Rightarrow> hb_service \<Rightarrow> hb_service" where
  "updateReportSurface i review surface msgId s =
     (if i = [] then s
      else mapReport i (\<lambda>r. r\<lparr>hr_parentReviewStatus := review, hr_surfaceStatus := surface,
             hr_surfacedMessageId := msgId\<rparr>) s)"

section \<open>Limits\<close>

definition runsInLast24h :: "hb_env \<Rightarrow> hb_store \<Rightarrow> string \<Rightarrow> int" where
  "runsInLast24h env d c =
     (if c = [] \<or> \<not> hd_up d then 0
      else int (length (filter (\<lambda>r. hr_configId r = c \<and>
        (case hr_startedAt r of Some t \<Rightarrow> addDays (he_now env) (- 1) < t | None \<Rightarrow> False) \<and>
        hr_outcome r \<in> {''success'', ''error'', ''timeout'', ''cancelled''}) (hd_reports d))))"

definition isRateLimited :: "hb_env \<Rightarrow> hb_store \<Rightarrow> hb_config \<Rightarrow> bool" where
  "isRateLimited env d cfg \<longleftrightarrow> 0 < hc_maxRunsPerDay cfg \<and> hc_maxRunsPerDay cfg \<le> runsInLast24h env d (hc_id cfg)"

definition autoPostsInLast24h :: "hb_env \<Rightarrow> hb_service \<Rightarrow> string \<Rightarrow> int" where
  "autoPostsInLast24h env s convId =
     int (length (filter (\<lambda>r. hr_surfaceStatus r = ''posted_auto'' \<and>
       (case hr_startedAt r of Some t \<Rightarrow> addDays (he_now env) (- 1) < t | None \<Rightarrow> False) \<and>
       (\<exists>m \<in> set (st_messages (ms_store (hb_msgs s))). msg_conversationId m = convId \<and> msg_id m = hr_surfacedMessageId r))
       (hd_reports (hb_store s))))"

definition isAutoSurfaceRateLimited :: "hb_env \<Rightarrow> hb_service \<Rightarrow> string \<Rightarrow> bool" where
  "isAutoSurfaceRateLimited env s convId =
     (if convId = [] then False
      else case he_conversation env convId of
        None \<Rightarrow> False
      | Some c \<Rightarrow>
          if hv_autoSurfaceMaxPerDay c \<le> 0 then True
          else if \<not> hd_up (hb_store s) then False
          else hv_autoSurfaceMaxPerDay c \<le> autoPostsInLast24h env s convId)"

section \<open>Requests\<close>

text \<open>The provider and the model for an agent.\<close>

definition resolveProviderModelForAgent :: "hb_env \<Rightarrow> hb_agent \<Rightarrow> string \<times> string" where
  "resolveProviderModelForAgent env a =
     (if ha_modelProvider a \<noteq> [] then
        (if he_bgProvider env (ha_modelProvider a)
         then (ha_modelProvider a, if ha_modelName a \<noteq> [] then ha_modelName a else he_activeModel env)
         else (he_activeProvider env, he_activeModel env))
      else (he_activeProvider env, if ha_modelName a \<noteq> [] then ha_modelName a else he_activeModel env))"

definition nl :: string where "nl = [CHR 0x0A]"

definition buildSubagentAddendum :: "hb_agent \<Rightarrow> hb_config \<Rightarrow> string" where
  "buildSubagentAddendum a cfg =
     (let who = (if hc_alias cfg = [] then ha_name a else hc_alias cfg) in
      nl @ nl @ ''[BACKGROUND ACTIVITY MODE]'' @ nl @
      ''You are running as '' @ who @ CHR 0x27 # ''s background activity routine. The kind of routine - research, monitoring, drafting, planning, checking, anything else - is fully defined by your standing instruction below. The goal IS the routine.'' @ nl @ nl @
      ''Your output will NOT be sent to the team directly. It is stored privately in the heartbeat overlay; '' @ who @ '' will read it on the surface-review step that follows this run and decide whether to share with the team.'' @ nl @ nl @
      ''Standing instruction: '' @ hc_goal cfg @ nl @ nl @
      ''Do the work. Output a single structured report in this exact format (the parser depends on these labels verbatim):'' @ nl @ nl @
      ''  TITLE: <one-line summary, max 100 chars>'' @ nl @ ''  RESULTS:'' @ nl @
      ''  <full result body - what you did, what you found / produced / observed / drafted / checked. Tool outputs, snippets, etc.>'' @ nl @
      ''  SUMMARY:'' @ nl @
      ''  <<= 3 sentences in your normal team voice. This is what the surface-review step will use as the basis for a chat post if it decides to post. If nothing meaningful happened, say so.>'' @ nl @ nl @
      ''Use tools as needed. The TITLE / RESULTS / SUMMARY labels are load-bearing.'' @ nl)"

definition resolveContextConvId :: "hb_config \<Rightarrow> string" where
  "resolveContextConvId cfg =
     (case hc_scopeType cfg of
        Folder \<Rightarrow> if hc_autoSurfaceTarget cfg = [] then hc_scopeId cfg else hc_autoSurfaceTarget cfg
      | _ \<Rightarrow> hc_scopeId cfg)"

text \<open>The bytes of a text in UTF-8.\<close>

definition utf8Size :: "string \<Rightarrow> nat" where
  "utf8Size s = sum_list (map (\<lambda>c. if code c < 128 then 1 else 2) s)"

definition estTokens :: "string \<Rightarrow> nat" where
  "estTokens s = utf8Size s div 4"

definition skillLine :: "skill_info \<Rightarrow> string" where
  "skillLine k =
     ''- '' @ sk_id k @ '': '' @ sk_description k @ nl @
     (if sk_tags k = [] then [] else ''  tags: '' @ joinWith '', '' (sk_tags k) @ nl) @
     (if sk_declaredTools k = [] then [] else ''  expected tools: '' @ joinWith '', '' (sk_declaredTools k) @ nl)"

definition skillHeader :: "bool \<Rightarrow> string" where
  "skillHeader exposeOnly =
     (if exposeOnly
      then nl @ nl @ ''=== AVAILABLE SKILLS ==='' @ nl @ ''These are the only skills available for this scope. Use one when it directly matches your goal.'' @ nl
      else nl @ nl @ ''=== AVAILABLE SKILLS ==='' @ nl @ ''Preferred skills for this scope. Use one when it matches your goal. Call discover_skills to find others.'' @ nl)"

text \<open>The lines of skills as long as they fit: the lines and the tokens spent.\<close>

fun skillLines :: "hb_env \<Rightarrow> nat \<Rightarrow> string list \<Rightarrow> nat \<Rightarrow> string list \<times> nat" where
  "skillLines env budget [] spent = ([], spent)"
| "skillLines env budget (i # is) spent =
     (case he_skill env i of
        None \<Rightarrow> skillLines env budget is spent
      | Some k \<Rightarrow>
          (let line = skillLine k; cost = estTokens line in
           if budget < spent + cost then skillLines env budget is spent
           else (let (ls, n) = skillLines env budget is (spent + cost) in (line # ls, n))))"

definition kContextWindow :: nat where "kContextWindow = 8192"

definition skillBlock :: "hb_env \<Rightarrow> hb_config \<Rightarrow> string" where
  "skillBlock env cfg =
     (let sc = (if hc_scopeType cfg = Folder then he_skillsForFolder env (hc_scopeId cfg)
                else he_skillsForConversation env (resolveContextConvId cfg)) in
      if rs_preferredSkillIds sc = [] then []
      else
        let budget = min 1500 (max 200 (kContextWindow div 32)); header = skillHeader (rs_exposeOnly sc);
            ls = fst (skillLines env budget (rs_preferredSkillIds sc) (estTokens header))
        in if ls = [] then [] else header @ concat ls)"

definition llmOf :: "message \<Rightarrow> llm_message" where
  "llmOf m = \<lparr>lm_role = msg_role m, lm_content = msg_content m\<rparr>"

definition keepLast :: "nat \<Rightarrow> 'a list \<Rightarrow> 'a list" where
  "keepLast n xs = drop (length xs - n) xs"

text \<open>The last messages of several conversations, oldest first.\<close>

definition pooled :: "store \<Rightarrow> string list \<Rightarrow> message list" where
  "pooled st cs = sort_key (\<lambda>m. toMSecs (msg_createdAt m)) (concat (map (\<lambda>c. getRecentMessages st c 5) cs))"

definition usable :: "message \<Rightarrow> bool" where
  "usable m \<longleftrightarrow> msg_role m \<noteq> ''tool'' \<and> trimmed (msg_content m) \<noteq> []"

definition contextMessages :: "hb_env \<Rightarrow> store \<Rightarrow> hb_config \<Rightarrow> llm_message list" where
  "contextMessages env st cfg =
     (if hc_scopeType cfg = Folder then
        map llmOf (keepLast 30 (pooled st (filter (\<lambda>c. c \<noteq> []) (he_listConversations env (hc_scopeId cfg)))))
      else
        let convId = resolveContextConvId cfg in
        if convId = [] then []
        else
          let siblings = (case he_conversation env convId of
                None \<Rightarrow> []
              | Some c \<Rightarrow> if hv_folderId c = [] then []
                  else keepLast 25 (pooled st (filter (\<lambda>i. i \<noteq> convId) (he_listConversations env (hv_folderId c)))))
          in map llmOf (filter usable (siblings @ getRecentMessages st convId 10)))"

definition buildSubagentRequest :: "hb_env \<Rightarrow> hb_service \<Rightarrow> hb_config \<Rightarrow> string + llm_request" where
  "buildSubagentRequest env s cfg =
     (let a = he_agent env (hc_agentId cfg); (provider, model) = resolveProviderModelForAgent env a in
      if \<not> validAgent a then Inl (''agent '' @ hc_agentId cfg @ '' not found'')
      else if provider = [] \<or> model = [] then Inl ''no active provider/model configured''
      else Inr \<lparr>rq_requestId = he_utc env, rq_conversationId = resolveContextConvId cfg,
        rq_systemPrompt = ha_systemPrompt a @ buildSubagentAddendum a cfg @ skillBlock env cfg,
        rq_messages = contextMessages env (ms_store (hb_msgs s)) cfg, rq_providerId = provider, rq_modelName = model,
        rq_maxTokens = 1024, rq_turnKind = ''heartbeat_subagent'', rq_availableTools = he_tools env\<rparr>)"

text \<open>\<open>Chat::buildSurfaceReviewRequest\<close>.\<close>

definition reviewPrompt :: "hb_config \<Rightarrow> hb_report \<Rightarrow> string" where
  "reviewPrompt cfg r =
     ''Your background activity routine just produced this report.'' @ nl @
     ''Decide whether to share it with the team RIGHT NOW.'' @ nl @ nl @
     ''Your goal: '' @ hc_goal cfg @ nl @
     ''Surface this report if: '' @ (if hc_surfaceCriteria cfg = [] then hc_goal cfg else hc_surfaceCriteria cfg) @ nl @
     ''(else: the user can still manually surface it from the overlay if they disagree.)'' @ nl @ nl @
     ''Background report:'' @ nl @ ''TITLE:    '' @ hr_title r @ nl @ ''RESULTS:  '' @ hr_body r @ nl @
     ''SUMMARY:  '' @ hr_summary r @ nl @ nl @
     ''If you should post: you can use the SUMMARY as a starting point and adjust to fit the conversation'' @ CHR 0x27 #
     ''s flow. 1-3 sentences in your normal voice. You may @-mention teammates to invite next steps. Do NOT include the words [SKIP] in the post itself.'' @ nl @
     ''If you should NOT post: return exactly [SKIP].'' @ nl"

definition buildSurfaceReviewRequest ::
    "hb_env \<Rightarrow> hb_agent \<Rightarrow> hb_config \<Rightarrow> hb_report \<Rightarrow> string \<Rightarrow> llm_message list \<Rightarrow> llm_request option" where
  "buildSurfaceReviewRequest env a cfg r convId recent =
     (let (provider, model) = resolveProviderModelForAgent env a in
      if ha_id a = [] \<or> provider = [] \<or> model = [] \<or> hr_id r = [] then None
      else Some \<lparr>rq_requestId = he_utc env, rq_conversationId = convId, rq_systemPrompt = ha_systemPrompt a,
        rq_messages = recent @ [\<lparr>lm_role = ''user'', lm_content = reviewPrompt cfg r\<rparr>],
        rq_providerId = provider, rq_modelName = model, rq_maxTokens = 512,
        rq_turnKind = ''heartbeat_surface_review'', rq_availableTools = []\<rparr>)"

section \<open>Connections and the end of a run\<close>

definition connectToRouter :: "hb_service \<Rightarrow> hb_service" where
  "connectToRouter s = s\<lparr>hb_connected := True, hb_handles := \<not> hb_connected s\<rparr>"

definition disconnectFromRouter :: "hb_service \<Rightarrow> hb_service" where
  "disconnectFromRouter s = s\<lparr>hb_connected := hb_connected s \<and> \<not> hb_handles s, hb_handles := False\<rparr>"

text \<open>\<open>finishCurrentRun\<close> up to its signals and its line in the log.\<close>

definition endRun :: "hb_env \<Rightarrow> string \<Rightarrow> hb_service \<Rightarrow> hb_service" where
  "endRun env outcome s =
     (let runId = hb_runId s; configId = hb_configId s;
          s1 = disconnectFromRouter (s\<lparr>hb_runTimer := False\<rparr>);
          s2 = recordLastFire env configId outcome (s1\<lparr>hb_queue := markNotInflight configId (hb_queue s1)\<rparr>);
          s3 = s2\<lparr>hb_phase := NoPhase, hb_runId := [], hb_configId := [], hb_requestId := 0, hb_accumulator := [],
                 hb_startedAt := None\<rparr>
      in if outcome = ''success''
         then appendLogLine env (''Run succeeded: runId='' @ runId) (hb_emit (RunCompleted runId outcome) s3)
         else appendLogLine env (''Run ended ('' @ outcome @ ''): runId='' @ runId)
           (hb_emit (if outcome = ''error'' \<or> outcome = ''timeout'' then RunFailed runId outcome else RunCompleted runId outcome) s3))"

section \<open>Draining the queue\<close>

definition pendingReport :: "hb_env \<Rightarrow> hb_entry \<Rightarrow> hb_report" where
  "pendingReport env e = no_report\<lparr>hr_id := qe_runId e, hr_configId := qe_configId e,
     hr_startedAt := Some (he_now env), hr_outcome := ''pending''\<rparr>"

text \<open>A run takes the background slot.\<close>

definition startRun :: "hb_env \<Rightarrow> hb_entry \<Rightarrow> hb_config \<Rightarrow> llm_request \<Rightarrow> hb_service \<Rightarrow> hb_service" where
  "startRun env e cfg req s =
     (let s1 = persistReportRow (pendingReport env e)
                 (s\<lparr>hb_phase := Tier1, hb_runId := qe_runId e, hb_configId := qe_configId e,
                    hb_requestId := rq_requestId req, hb_accumulator := [], hb_startedAt := Some (he_now env),
                    hb_queue := markInflight (qe_configId e) (hb_queue s)\<rparr>);
          s2 = (connectToRouter s1)\<lparr>hb_runTimer := True\<rparr>;
          s3 = appendLogLine env (''Run started: alias='' @ (if hc_alias cfg = [] then hc_agentId cfg else hc_alias cfg) @
                 '' schedule='' @ (if hc_schedule cfg = [] then ''manual'' else hc_schedule cfg)) s2
      in hb_emit (Routed req) (hb_emit (RunStarted (qe_runId e) (qe_configId e)) s3))"

text \<open>The error handler of a run in flight, up to the end of the run.\<close>

definition failRun :: "hb_env \<Rightarrow> string \<Rightarrow> hb_service \<Rightarrow> hb_service" where
  "failRun env err s =
     endRun env ''error'' (mapReport (hb_runId s)
       (\<lambda>r. r\<lparr>hr_outcome := ''error'', hr_completedAt := Some (he_now env), hr_error := err\<rparr>) s)"

text \<open>The flag says that the next entry is drained: the entry did not start, or its request failed while it
  was handed over.\<close>

definition dispatchEntry :: "hb_env \<Rightarrow> hb_entry \<Rightarrow> hb_service \<Rightarrow> bool \<times> hb_service" where
  "dispatchEntry env e s =
     (let cfg = configById (hb_store s) (qe_configId e) in
      if \<not> validConfig cfg then (True, persistReportRow (endedReport env e ''error'' ''config no longer exists'') s)
      else if isRateLimited env (hb_store s) cfg
      then (True, recordLastFire env (hc_id cfg) ''rate_limited'' (persistReportRow (endedReport env e ''rate_limited'' []) s))
      else case buildSubagentRequest env s cfg of
        Inl err \<Rightarrow> (True, recordLastFire env (hc_id cfg) ''error'' (persistReportRow (endedReport env e ''error'' err) s))
      | Inr req \<Rightarrow>
          (let s1 = startRun env e cfg req s in
           case he_send env req of None \<Rightarrow> (False, s1) | Some err \<Rightarrow> (True, failRun env err s1)))"

text \<open>Dispatching an entry leaves the queue's list alone, so the recursion of \<open>drainQueue\<close> goes down the
  entries that waited at the start.\<close>

primrec drainEntries :: "hb_env \<Rightarrow> hb_entry list \<Rightarrow> hb_service \<Rightarrow> hb_service" where
  "drainEntries env [] s = s"
| "drainEntries env (e # es) s =
     (if hb_paused s \<or> hb_runId s \<noteq> [] then s
      else
        let (again, s1) = dispatchEntry env e (s\<lparr>hb_queue := snd (popNext (hb_queue s))\<rparr>)
        in if again then drainEntries env es s1 else s1)"

definition drainQueue :: "hb_env \<Rightarrow> hb_service \<Rightarrow> hb_service" where
  "drainQueue env s = drainEntries env (q_fifo (hb_queue s)) s"

section \<open>Posts into the chat\<close>

definition surfaceMetadata :: "string \<Rightarrow> hb_config \<Rightarrow> string \<Rightarrow> json_object" where
  "surfaceMetadata mode cfg reportId =
     put ''alias'' (JStr (hc_alias cfg)) (put ''heartbeat_run_id'' (JStr reportId) (put ''heartbeat_config_id'' (JStr (hc_id cfg))
       (put ''produced_by'' (JStr (if mode = ''manual'' then ''heartbeat_surface_manual'' else ''heartbeat_surface_auto'')) [])))"

definition isStreaming :: "hb_env \<Rightarrow> hb_service \<Rightarrow> string \<Rightarrow> bool" where
  "isStreaming env s convId \<longleftrightarrow> he_hasChat env \<and> he_streaming env (hb_out s) convId"

definition deferPost :: "string \<Rightarrow> pending_post \<Rightarrow> hb_service \<Rightarrow> hb_service" where
  "deferPost convId p s = s\<lparr>hb_pendingPosts := AList.update convId (valueOr (hb_pendingPosts s) convId [] @ [p]) (hb_pendingPosts s)\<rparr>"

definition skipReport :: "string \<Rightarrow> hb_service \<Rightarrow> hb_service" where
  "skipReport i s = hb_emit (SurfaceDecision i ''skipped_by_agent'' []) (updateReportSurface i ''reviewed'' ''skipped_by_agent'' [] s)"

definition postMessage :: "hb_env \<Rightarrow> hb_config \<Rightarrow> string \<Rightarrow> string \<Rightarrow> string \<Rightarrow> string \<Rightarrow> string \<Rightarrow> message" where
  "postMessage env cfg uuid reportId body convId mode =
     new_message\<lparr>msg_id := uuid, msg_conversationId := convId, msg_role := ''assistant'', msg_content := body,
       msg_agentId := hc_agentId cfg, msg_memberAlias := hc_alias cfg, msg_createdAt := Some (he_utc env),
       msg_finishReason := ''stop'', msg_metadata := surfaceMetadata mode cfg reportId\<rparr>"

definition doInsertAndCascade :: "hb_env \<Rightarrow> string \<Rightarrow> string \<Rightarrow> string \<Rightarrow> string \<Rightarrow> hb_service \<Rightarrow> string \<times> hb_service" where
  "doInsertAndCascade env reportId body convId mode s =
     (if reportId = [] \<or> convId = [] \<or> body = [] then ([], s)
      else if isStreaming env s convId
      then ([], deferPost convId \<lparr>pp_reportId = reportId, pp_postBody = body, pp_mode = mode\<rparr> s)
      else case reportById (hb_store s) reportId of
        None \<Rightarrow> ([], s)
      | Some r \<Rightarrow>
          (let cfg = configById (hb_store s) (hr_configId r) in
           if \<not> validConfig cfg then ([], s)
           else
             let a = he_agent env (hc_agentId cfg); (uuid, s0) = newUuidString env s;
                 (posted, msgs) = addMessage (he_utc env) (postMessage env cfg uuid reportId body convId mode) (hb_msgs s0);
                 s1 = s0\<lparr>hb_msgs := msgs\<rparr>
             in if posted = [] then ([], skipReport reportId s1)
                else
                  let status = (if mode = ''manual'' then ''posted_manual'' else ''posted_auto'');
                      s2 = hb_emit (SurfaceDecision reportId status posted) (updateReportSurface reportId ''reviewed'' status posted s1)
                  in (posted, if he_hasCascade env
                       then hb_emit (CascadeRoute (if hc_alias cfg = [] then ha_name a else hc_alias cfg) (hc_agentId cfg)
                         (no_inputs\<lparr>ri_convId := convId, ri_content := body, ri_responderMsgId := posted,
                            ri_finishReason := ''stop''\<rparr>)) s2
                       else s2)))"

section \<open>The review of a report\<close>

definition surfaceTarget :: "hb_config \<Rightarrow> string" where
  "surfaceTarget cfg = (case hc_scopeType cfg of Folder \<Rightarrow> hc_autoSurfaceTarget cfg | _ \<Rightarrow> hc_scopeId cfg)"

definition gateReport :: "string \<Rightarrow> string \<Rightarrow> hb_service \<Rightarrow> hb_service" where
  "gateReport i status s = hb_emit (SurfaceDecision i status []) (updateReportSurface i ''not_reviewable_yet'' status [] s)"

text \<open>The review leaves the background slot.\<close>

definition endReview :: "hb_service \<Rightarrow> hb_service" where
  "endReview s = (disconnectFromRouter (s\<lparr>hb_runTimer := False\<rparr>))\<lparr>hb_phase := NoPhase, hb_requestId := 0,
     hb_accumulator := [], hb_reviewReportId := [], hb_reviewConvId := [], hb_reviewConfigId := []\<rparr>"

definition onReviewError :: "hb_env \<Rightarrow> int \<Rightarrow> hb_service \<Rightarrow> hb_service" where
  "onReviewError env requestId s =
     (if requestId \<noteq> hb_requestId s \<or> hb_phase s \<noteq> Tier2 then s
      else drainQueue env (skipReport (hb_reviewReportId s) (endReview s)))"

definition startReview :: "hb_env \<Rightarrow> hb_config \<Rightarrow> hb_agent \<Rightarrow> string \<Rightarrow> string \<Rightarrow> llm_request \<Rightarrow> hb_service \<Rightarrow> hb_service" where
  "startReview env cfg a reportId convId req s =
     (let s1 = (connectToRouter (s\<lparr>hb_phase := Tier2, hb_requestId := rq_requestId req, hb_accumulator := [],
                 hb_reviewReportId := reportId, hb_reviewConvId := convId, hb_reviewConfigId := hc_id cfg\<rparr>))\<lparr>hb_runTimer := True\<rparr>;
          s2 = appendLogLine env (''Report review started: alias='' @ (if hc_alias cfg = [] then ha_name a else hc_alias cfg) @
                 '' target='' @ convId) s1
      in hb_emit (Routed req) s2)"

definition reviewReport :: "hb_env \<Rightarrow> string \<Rightarrow> string \<Rightarrow> hb_service \<Rightarrow> hb_service" where
  "reviewReport env reportId configId s =
     (let cfg = configById (hb_store s) configId; convId = surfaceTarget cfg in
      if reportId = [] \<or> configId = [] \<or> hb_paused s \<or> \<not> validConfig cfg then s
      else if convId = [] then gateReport reportId ''skipped_by_gate'' s
      else if (case he_conversation env convId of None \<Rightarrow> True | Some c \<Rightarrow> \<not> hv_allowAutoSurface c)
      then gateReport reportId ''skipped_by_gate'' s
      else if isAutoSurfaceRateLimited env s convId then gateReport reportId ''skipped_by_rate_limit'' s
      else
        let a = he_agent env (hc_agentId cfg) in
        if \<not> validAgent a then skipReport reportId s
        else case reportById (hb_store s) reportId of
          None \<Rightarrow> s
        | Some r \<Rightarrow>
            (case buildSurfaceReviewRequest env a cfg r convId (map llmOf (getRecentMessages (ms_store (hb_msgs s)) convId 5)) of
               None \<Rightarrow> skipReport reportId s
             | Some req \<Rightarrow>
                 (let s1 = startReview env cfg a reportId convId req s in
                  case he_send env req of None \<Rightarrow> s1 | Some err \<Rightarrow> onReviewError env (rq_requestId req) s1)))"

definition finishCurrentRun :: "hb_env \<Rightarrow> string \<Rightarrow> hb_service \<Rightarrow> hb_service" where
  "finishCurrentRun env outcome s =
     (if hb_runId s = [] then s
      else
        let s1 = endRun env outcome s;
            s2 = (if outcome = ''success'' then reviewReport env (hb_runId s) (hb_configId s) s1 else s1)
        in if outcome = ''success'' \<and> hb_phase s2 = Tier2 then s2 else drainQueue env s2)"

text \<open>A text without any occurrence of a word, case aside, removed from the left.\<close>

function removeCI :: "string \<Rightarrow> string \<Rightarrow> string" where
  "removeCI w s =
     (if w \<noteq> [] \<and> length w \<le> length s \<and> eqCI (take (length w) s) w then removeCI w (drop (length w) s)
      else case s of [] \<Rightarrow> [] | c # r \<Rightarrow> c # removeCI w r)"
  by pat_completeness auto
termination
  by (relation "measure (\<lambda>(w, s). length s)") (auto intro!: diff_less dest: order.strict_trans2 [rotated])

declare removeCI.simps [simp del]

fun containsCI :: "string \<Rightarrow> string \<Rightarrow> bool" where
  "containsCI w [] = (w = [])"
| "containsCI w (c # s) = (startsWithCI (c # s) w \<or> containsCI w s)"

definition kSkip :: string where "kSkip = ''[SKIP]''"

definition onReviewFinished :: "hb_env \<Rightarrow> int \<Rightarrow> hb_service \<Rightarrow> hb_service" where
  "onReviewFinished env requestId s =
     (if requestId \<noteq> hb_requestId s \<or> hb_phase s \<noteq> Tier2 then s
      else
        let reportId = hb_reviewReportId s; convId = hb_reviewConvId s; body = hb_accumulator s; s1 = endReview s;
            postBody = trimmed (removeCI kSkip body)
        in if containsCI kSkip body \<or> postBody = [] then drainQueue env (skipReport reportId s1)
           else drainQueue env (snd (doInsertAndCascade env reportId postBody convId ''auto'' s1)))"

section \<open>Signals of the router and timers\<close>

definition onBgChunk :: "int \<Rightarrow> string \<Rightarrow> hb_service \<Rightarrow> hb_service" where
  "onBgChunk requestId delta s =
     (if requestId \<noteq> hb_requestId s \<or> hb_phase s = NoPhase then s
      else s\<lparr>hb_accumulator := hb_accumulator s @ delta\<rparr>)"

text \<open>The columns of the title, the body and the summary are NOT NULL, so that the UPDATE fails as a whole for an
  answer with a null text.\<close>

definition onBgFinished :: "hb_env \<Rightarrow> int \<Rightarrow> hb_service \<Rightarrow> hb_service" where
  "onBgFinished env requestId s =
     (if requestId \<noteq> hb_requestId s then s
      else if hb_phase s = Tier2 then onReviewFinished env requestId s
      else if hb_phase s \<noteq> Tier1 \<or> hb_runId s = [] then s
      else
        let p = parseHeartbeatReport (hb_accumulator s) in
        finishCurrentRun env ''success''
          (if hasNullText (hb_accumulator s) then s
           else mapReport (hb_runId s)
             (\<lambda>r. r\<lparr>hr_outcome := ''success'', hr_completedAt := Some (he_now env), hr_title := pr_title p,
                hr_body := pr_body p, hr_summary := pr_summary p\<rparr>) s))"

definition onBgError :: "hb_env \<Rightarrow> int \<Rightarrow> string \<Rightarrow> hb_service \<Rightarrow> hb_service" where
  "onBgError env requestId err s =
     (if requestId \<noteq> hb_requestId s then s
      else if hb_phase s = Tier2 then onReviewError env requestId s
      else if hb_phase s \<noteq> Tier1 \<or> hb_runId s = [] then s
      else finishCurrentRun env ''error'' (mapReport (hb_runId s)
        (\<lambda>r. r\<lparr>hr_outcome := ''error'', hr_completedAt := Some (he_now env), hr_error := err\<rparr>) s))"

definition onRunTimeout :: "hb_env \<Rightarrow> hb_service \<Rightarrow> hb_service" where
  "onRunTimeout env s =
     (if hb_runId s = [] then s
      else finishCurrentRun env ''timeout'' (mapReport (hb_runId s)
        (\<lambda>r. r\<lparr>hr_outcome := ''timeout'', hr_completedAt := Some (he_now env)\<rparr>) (hb_emit BackgroundCancelled s)))"

section \<open>The tick of the schedule\<close>

definition isDue :: "hb_env \<Rightarrow> hb_config \<Rightarrow> bool" where
  "isDue env cfg =
     (let sch = parseHeartbeatSchedule (hc_schedule cfg) in
      if \<not> hs_valid sch \<or> hs_kind sch = KEmpty then False
      else case nextFireTime sch (Some (he_now env)) (hc_lastFireAt cfg) of None \<Rightarrow> False | Some t \<Rightarrow> \<not> t > he_now env)"

definition fireConfig :: "hb_env \<Rightarrow> hb_config \<Rightarrow> hb_service \<Rightarrow> hb_service" where
  "fireConfig env cfg s =
     (if \<not> isDue env cfg then s
      else
        let (uuid, s0) = newUuidString env s;
            e = \<lparr>qe_configId = hc_id cfg, qe_runId = uuid, qe_scheduledAt = he_now env\<rparr>;
            (result, q) = enqueue e (hb_queue s0); s1 = s0\<lparr>hb_queue := q\<rparr>
        in if result = Accepted then s1
           else recordLastFire env (hc_id cfg) ''queue_overflow'' (persistReportRow (endedReport env e ''queue_overflow'' []) s1))"

definition onScheduleTick :: "hb_env \<Rightarrow> hb_service \<Rightarrow> hb_service" where
  "onScheduleTick env s =
     (if hb_paused s then s else drainQueue env (fold (fireConfig env) (enabledConfigs (hb_store s)) s))"

section \<open>What the user calls\<close>

definition runNow :: "hb_env \<Rightarrow> string \<Rightarrow> hb_service \<Rightarrow> string \<times> hb_service" where
  "runNow env configId s =
     (if hb_paused s then ([], s)
      else
        let cfg = configById (hb_store s) configId in
        if \<not> validConfig cfg then ([], s)
        else
          let (uuid, s0) = newUuidString env s;
              (result, q) = enqueue \<lparr>qe_configId = hc_id cfg, qe_runId = uuid, qe_scheduledAt = he_now env\<rparr> (hb_queue s0);
              s1 = s0\<lparr>hb_queue := q\<rparr>
          in if result = Accepted then (uuid, drainQueue env s1)
             else ([], recordLastFire env (hc_id cfg) ''queue_overflow'' s1))"

text \<open>Taking every entry out of the queue: the entries of a run are recorded as cancelled, the others kept.\<close>

primrec takeOut :: "hb_env \<Rightarrow> string \<Rightarrow> hb_entry list \<Rightarrow> hb_service \<Rightarrow> hb_entry list \<times> hb_service" where
  "takeOut env runId [] s = ([], s)"
| "takeOut env runId (e # es) s =
     (let s0 = s\<lparr>hb_queue := snd (popNext (hb_queue s))\<rparr> in
      if qe_runId e = runId
      then takeOut env runId es (recordLastFire env (qe_configId e) ''cancelled''
             (persistReportRow (endedReport env e ''cancelled'' []) s0))
      else (let (kept, s1) = takeOut env runId es s0 in (e # kept, s1)))"

definition cancelRun :: "hb_env \<Rightarrow> string \<Rightarrow> hb_service \<Rightarrow> hb_service" where
  "cancelRun env runId s =
     (if runId = [] then s
      else if hb_runId s = runId then finishCurrentRun env ''cancelled'' (hb_emit BackgroundCancelled s)
      else
        let (kept, s1) = takeOut env runId (q_fifo (hb_queue s)) s
        in s1\<lparr>hb_queue := fold (\<lambda>e q. snd (enqueue e q)) kept (hb_queue s1)\<rparr>)"

definition setGloballyPaused :: "hb_env \<Rightarrow> bool \<Rightarrow> hb_service \<Rightarrow> hb_service" where
  "setGloballyPaused env p s =
     (if hb_paused s = p then s
      else
        let s1 = hb_emit GloballyPausedChanged (s\<lparr>hb_paused := p\<rparr>)
        in if p \<and> hb_runId s1 \<noteq> [] then cancelRun env (hb_runId s1) s1 else s1)"

definition rebuildSchedule :: "string \<Rightarrow> hb_service \<Rightarrow> hb_service" where
  "rebuildSchedule configId s = hb_emit (ScheduleChanged configId) s"

definition initialize :: "hb_env \<Rightarrow> hb_service \<Rightarrow> hb_service" where
  "initialize env s =
     (if hb_scheduleTimer s then s
      else (appendLogLine env (''Service started. '' @ decimal (length (enabledConfigs (hb_store s))) @
        '' heartbeat(s) enabled. Schedules resume at the next due time. Runs missed while the app was offline are not replayed.'') s)
        \<lparr>hb_scheduleTimer := True\<rparr>)"

definition shutdown :: "hb_env \<Rightarrow> hb_service \<Rightarrow> hb_service" where
  "shutdown env s =
     (let s1 = s\<lparr>hb_scheduleTimer := False, hb_runTimer := False\<rparr>;
          s2 = (if hb_runId s1 \<noteq> [] then finishCurrentRun env ''cancelled'' (hb_emit BackgroundCancelled s1) else s1)
      in disconnectFromRouter s2)"

definition manualPost :: "hb_env \<Rightarrow> string \<Rightarrow> string \<Rightarrow> hb_service \<Rightarrow> bool \<times> hb_service" where
  "manualPost env reportId edited s =
     (if reportId = [] \<or> trimmed edited = [] then (False, s)
      else case reportById (hb_store s) reportId of
        None \<Rightarrow> (False, s)
      | Some r \<Rightarrow>
          if hr_surfaceStatus r = ''posted_auto'' \<or> hr_surfaceStatus r = ''posted_manual'' then (True, s)
          else
            let cfg = configById (hb_store s) (hr_configId r); convId = surfaceTarget cfg in
            if \<not> validConfig cfg \<or> convId = [] then (False, s)
            else
              let (posted, s1) = doInsertAndCascade env reportId (trimmed edited) convId ''manual'' s
              in (posted \<noteq> [] \<or> isStreaming env s1 convId, s1))"

definition manualDismiss :: "string \<Rightarrow> hb_service \<Rightarrow> bool \<times> hb_service" where
  "manualDismiss reportId s =
     (if reportId = [] then (False, s)
      else case reportById (hb_store s) reportId of
        None \<Rightarrow> (False, s)
      | Some r \<Rightarrow>
          if hr_surfaceStatus r = ''posted_auto'' \<or> hr_surfaceStatus r = ''posted_manual'' then (False, s)
          else if hr_surfaceStatus r = ''dismissed_by_user'' then (True, s)
          else (True, hb_emit (SurfaceDecision reportId ''dismissed_by_user'' [])
                 (updateReportSurface reportId ''reviewed'' ''dismissed_by_user'' [] s)))"

section \<open>Posts that waited for a stream\<close>

text \<open>The loop over the posts of a conversation: it may not end, since a post is put back while the
  conversation still streams.\<close>

partial_function (option) drainPosts :: "hb_env \<Rightarrow> string \<Rightarrow> hb_service \<Rightarrow> hb_service option" where
  "drainPosts env convId s =
     (case valueOr (hb_pendingPosts s) convId [] of
        [] \<Rightarrow> Some (s\<lparr>hb_pendingPosts := AList.delete convId (hb_pendingPosts s)\<rparr>)
      | p # ps \<Rightarrow> drainPosts env convId (snd (doInsertAndCascade env (pp_reportId p) (pp_postBody p) convId (pp_mode p)
          (s\<lparr>hb_pendingPosts := AList.update convId ps (hb_pendingPosts s)\<rparr>))))"

definition drainPendingPostsFor :: "hb_env \<Rightarrow> string \<Rightarrow> hb_service \<Rightarrow> hb_service option" where
  "drainPendingPostsFor env convId s =
     (if convId = [] \<or> map_of (hb_pendingPosts s) convId = None then Some s else drainPosts env convId s)"

primrec sweepPosts :: "hb_env \<Rightarrow> string list \<Rightarrow> hb_service \<Rightarrow> hb_service option" where
  "sweepPosts env [] s = Some s"
| "sweepPosts env (c # cs) s =
     (if isStreaming env s c then sweepPosts env cs s
      else case drainPendingPostsFor env c s of None \<Rightarrow> None | Some s1 \<Rightarrow> sweepPosts env cs s1)"

definition onStreamFinalized :: "hb_env \<Rightarrow> string \<Rightarrow> hb_service \<Rightarrow> hb_service option" where
  "onStreamFinalized env msgId s =
     (if msgId = [] then Some s
      else
        let m = getMessage (ms_store (hb_msgs s)) msgId in
        case (if msg_id m \<noteq> [] \<and> map_of (hb_pendingPosts s) (msg_conversationId m) \<noteq> None
              then drainPendingPostsFor env (msg_conversationId m) s else Some s) of
          None \<Rightarrow> None
        | Some s1 \<Rightarrow> if \<not> he_hasChat env then Some s1 else sweepPosts env (keys (hb_pendingPosts s1)) s1)"

end
