(* ===== verification/Heartbeat_Tools.thy ===== *)
theory Heartbeat_Tools
  imports Heartbeat_Service
begin

text \<open>
  The five tools by which an agent changes its own heartbeat
  (backend/tools/heartbeat/heartbeat-self-config-tools.cpp). A refusal is the error object the tool returns,
  without its wording; a reply is the fields of the object.
\<close>

record hb_tool_env =
  ht_valid :: bool
  ht_responderAgentId :: string
  ht_responderAlias :: string
  ht_activeConv :: string

datatype hb_refusal =
    Unavailable | NoResponder | NoActiveConversation | ConversationGone | NoConfig | GoalEmpty | ConfigDisappeared
  | NotPersisted | InvalidSchedule string | TooOften int int | SelfConfigNotAllowed

datatype hb_reply = Unchanged string | Changed string string | EnabledNow string bool | DisabledNow string

definition hbArg :: "json_object \<Rightarrow> string \<Rightarrow> string" where
  "hbArg args k = toString (member_of args k)"

definition resolveContext :: "hb_env \<Rightarrow> hb_tool_env \<Rightarrow> json_object \<Rightarrow> hb_service \<Rightarrow> hb_refusal + string" where
  "resolveContext env te args s =
     (if \<not> ht_valid te then Inl Unavailable
      else
        let agentId = (if hbArg args ''__caller_agent_id'' = [] then ht_responderAgentId te else hbArg args ''__caller_agent_id'');
            al = (if hbArg args ''__caller_agent_alias'' = [] then ht_responderAlias te else hbArg args ''__caller_agent_alias'');
            convId = (if hbArg args ''__caller_conv_id'' = [] then ht_activeConv te else hbArg args ''__caller_conv_id'')
        in if agentId = [] then Inl NoResponder
           else if convId = [] then Inl NoActiveConversation
           else case he_conversation env convId of
             None \<Rightarrow> Inl ConversationGone
           | Some c \<Rightarrow>
               (let cfg = configFor (hb_store s) agentId (if hv_isGroup c then ConversationGroup else Conversation1to1) convId
                      (if hv_isGroup c then al else [])
                in if hc_id cfg = [] then Inl NoConfig else Inr (hc_id cfg)))"

text \<open>The common end of the tools: the new row and its audit row.\<close>

definition writeChange ::
    "hb_env \<Rightarrow> hb_config \<Rightarrow> string \<Rightarrow> string \<Rightarrow> string \<Rightarrow> hb_service \<Rightarrow> bool \<times> hb_service" where
  "writeChange env cfg field oldVal newVal s =
     (let (i, d) = upsertConfig (he_utc env) cfg (hb_store s) in
      if i = [] then (False, s\<lparr>hb_store := d\<rparr>)
      else
        let (uuid, s1) = newUuidString env (s\<lparr>hb_store := d\<rparr>)
        in (True, s1\<lparr>hb_store := snd (recordChange (he_utc env) uuid (hc_id cfg) field oldVal newVal ''agent'' (hb_store s1))\<rparr>))"

definition setHeartbeatGoal ::
    "hb_env \<Rightarrow> hb_tool_env \<Rightarrow> json_object \<Rightarrow> hb_service \<Rightarrow> (hb_refusal + hb_reply) \<times> hb_service" where
  "setHeartbeatGoal env te args s =
     (case resolveContext env te args s of
        Inl e \<Rightarrow> (Inl e, s)
      | Inr i \<Rightarrow>
          (let newGoal = trimmed (hbArg args ''text''); cfg = configById (hb_store s) i in
           if newGoal = [] then (Inl GoalEmpty, s)
           else if \<not> validConfig cfg then (Inl ConfigDisappeared, s)
           else if hc_goal cfg = newGoal then (Inr (Unchanged i), s)
           else
             let (ok, s1) = writeChange env (cfg\<lparr>hc_goal := newGoal\<rparr>) ''goal'' (hc_goal cfg) newGoal s
             in if ok then (Inr (Changed i ''goal''), s1) else (Inl NotPersisted, s1)))"

definition setHeartbeatSchedule ::
    "hb_env \<Rightarrow> hb_tool_env \<Rightarrow> json_object \<Rightarrow> hb_service \<Rightarrow> (hb_refusal + hb_reply) \<times> hb_service" where
  "setHeartbeatSchedule env te args s =
     (case resolveContext env te args s of
        Inl e \<Rightarrow> (Inl e, s)
      | Inr i \<Rightarrow>
          (let newSched = trimmed (hbArg args ''schedule''); parsed = parseHeartbeatSchedule newSched;
               cfg = configById (hb_store s) i in
           if \<not> hs_valid parsed then (Inl (InvalidSchedule (hs_errorMessage parsed)), s)
           else if \<not> validConfig cfg then (Inl ConfigDisappeared, s)
           else if 0 < hc_maxRunsPerDay cfg \<and> hc_maxRunsPerDay cfg < firesIn24h parsed
           then (Inl (TooOften (firesIn24h parsed) (hc_maxRunsPerDay cfg)), s)
           else if hc_schedule cfg = newSched then (Inr (Unchanged i), s)
           else
             let (ok, s1) = writeChange env (cfg\<lparr>hc_schedule := newSched\<rparr>) ''schedule'' (hc_schedule cfg) newSched s
             in if ok then (Inr (Changed i ''schedule''), rebuildSchedule i s1) else (Inl NotPersisted, s1)))"

definition setHeartbeatSurfaceCriteria ::
    "hb_env \<Rightarrow> hb_tool_env \<Rightarrow> json_object \<Rightarrow> hb_service \<Rightarrow> (hb_refusal + hb_reply) \<times> hb_service" where
  "setHeartbeatSurfaceCriteria env te args s =
     (case resolveContext env te args s of
        Inl e \<Rightarrow> (Inl e, s)
      | Inr i \<Rightarrow>
          (let newCrit = hbArg args ''text''; cfg = configById (hb_store s) i in
           if \<not> validConfig cfg then (Inl ConfigDisappeared, s)
           else if hc_surfaceCriteria cfg = newCrit then (Inr (Unchanged i), s)
           else
             let (ok, s1) = writeChange env (cfg\<lparr>hc_surfaceCriteria := newCrit\<rparr>) ''surface_criteria''
                   (hc_surfaceCriteria cfg) newCrit s
             in if ok then (Inr (Changed i ''surface_criteria''), s1) else (Inl NotPersisted, s1)))"

definition enableHeartbeat ::
    "hb_env \<Rightarrow> hb_tool_env \<Rightarrow> json_object \<Rightarrow> hb_service \<Rightarrow> (hb_refusal + hb_reply) \<times> hb_service" where
  "enableHeartbeat env te args s =
     (case resolveContext env te args s of
        Inl e \<Rightarrow> (Inl e, s)
      | Inr i \<Rightarrow>
          (let cfg = configById (hb_store s) i in
           if \<not> validConfig cfg then (Inl ConfigDisappeared, s)
           else if \<not> hc_selfConfigAllowed cfg then (Inl SelfConfigNotAllowed, s)
           else if hc_enabled cfg then (Inr (Unchanged i), s)
           else
             let (ok, s1) = writeChange env (cfg\<lparr>hc_enabled := True\<rparr>) ''enabled'' ''0'' ''1'' s
             in if ok then (Inr (EnabledNow i (hb_paused s1)), s1) else (Inl NotPersisted, s1)))"

definition disableHeartbeat ::
    "hb_env \<Rightarrow> hb_tool_env \<Rightarrow> json_object \<Rightarrow> hb_service \<Rightarrow> (hb_refusal + hb_reply) \<times> hb_service" where
  "disableHeartbeat env te args s =
     (case resolveContext env te args s of
        Inl e \<Rightarrow> (Inl e, s)
      | Inr i \<Rightarrow>
          (let cfg = configById (hb_store s) i in
           if \<not> validConfig cfg then (Inl ConfigDisappeared, s)
           else if \<not> hc_enabled cfg then (Inr (Unchanged i), s)
           else
             let (ok, s1) = writeChange env (cfg\<lparr>hc_enabled := False\<rparr>) ''enabled'' ''1'' ''0'' s
             in if ok then (Inr (DisabledNow i), s1) else (Inl NotPersisted, s1)))"

datatype hb_tool = SetGoal | SetSchedule | SetCriteria | EnableTool | DisableTool

definition runTool :: "hb_tool \<Rightarrow> hb_env \<Rightarrow> hb_tool_env \<Rightarrow> json_object \<Rightarrow> hb_service \<Rightarrow> (hb_refusal + hb_reply) \<times> hb_service" where
  "runTool t = (case t of SetGoal \<Rightarrow> setHeartbeatGoal | SetSchedule \<Rightarrow> setHeartbeatSchedule
     | SetCriteria \<Rightarrow> setHeartbeatSurfaceCriteria | EnableTool \<Rightarrow> enableHeartbeat | DisableTool \<Rightarrow> disableHeartbeat)"

end
