(* ===== verification/Heartbeat_Laws.thy ===== *)
theory Heartbeat_Laws
  imports Heartbeat_Tools
begin

text \<open>
  What the operations of the heartbeat service leave alone, the invariant of the service, and the machine of
  all its entry points.
\<close>

section \<open>Frames\<close>

text \<open>The part of the state that says what runs.\<close>

definition core :: "hb_service \<Rightarrow> hb_queue \<times> phase \<times> string \<times> string \<times> int \<times> string \<times> string \<times> bool" where
  "core s = (hb_queue s, hb_phase s, hb_runId s, hb_configId s, hb_requestId s, hb_reviewReportId s, hb_reviewConvId s, hb_paused s)"

definition startedRuns :: "hb_event list \<Rightarrow> string list" where
  "startedRuns es = concat (map (\<lambda>e. case e of RunStarted r c \<Rightarrow> [r] | _ \<Rightarrow> []) es)"

definition endedRuns :: "hb_event list \<Rightarrow> string list" where
  "endedRuns es = concat (map (\<lambda>e. case e of RunCompleted r x \<Rightarrow> [r] | RunFailed r x \<Rightarrow> [r] | _ \<Rightarrow> []) es)"

lemma runs_append [simp]:
  "startedRuns [] = []" "endedRuns [] = []"
  "startedRuns (xs @ ys) = startedRuns xs @ startedRuns ys" "endedRuns (xs @ ys) = endedRuns xs @ endedRuns ys"
  "startedRuns (e # xs) = (case e of RunStarted r c \<Rightarrow> [r] | _ \<Rightarrow> []) @ startedRuns xs"
  "endedRuns (e # xs) = (case e of RunCompleted r x \<Rightarrow> [r] | RunFailed r x \<Rightarrow> [r] | _ \<Rightarrow> []) @ endedRuns xs"
  by (simp_all add: startedRuns_def endedRuns_def)

text \<open>Ids and agents of the configs, which only the config service changes.\<close>

definition configIds :: "hb_service \<Rightarrow> string list" where
  "configIds s = map hc_id (hd_configs (hb_store s))"

lemma emit_frame [frame_simp, simp]:
  "core (hb_emit e s) = core s" "hb_store (hb_emit e s) = hb_store s" "hb_logRing (hb_emit e s) = hb_logRing s"
  "hb_out (hb_emit e s) = hb_out s @ [e]" "hb_msgs (hb_emit e s) = hb_msgs s"
  "hb_pendingPosts (hb_emit e s) = hb_pendingPosts s" "hb_fresh (hb_emit e s) = hb_fresh s"
  "hb_queue (hb_emit e s) = hb_queue s" "hb_phase (hb_emit e s) = hb_phase s" "hb_runId (hb_emit e s) = hb_runId s"
  "hb_configId (hb_emit e s) = hb_configId s" "hb_paused (hb_emit e s) = hb_paused s"
  "hb_requestId (hb_emit e s) = hb_requestId s" "hb_reviewReportId (hb_emit e s) = hb_reviewReportId s"
  "hb_accumulator (hb_emit e s) = hb_accumulator s" "hb_reviewConvId (hb_emit e s) = hb_reviewConvId s"
  "hb_runTimer (hb_emit e s) = hb_runTimer s"
  by (simp_all add: hb_emit_def core_def)

lemma log_frame [frame_simp, simp]:
  "core (appendLogLine env l s) = core s" "hb_store (appendLogLine env l s) = hb_store s"
  "startedRuns (hb_out (appendLogLine env l s)) = startedRuns (hb_out s)"
  "endedRuns (hb_out (appendLogLine env l s)) = endedRuns (hb_out s)" "hb_msgs (appendLogLine env l s) = hb_msgs s"
  "hb_pendingPosts (appendLogLine env l s) = hb_pendingPosts s" "hb_fresh (appendLogLine env l s) = hb_fresh s"
  "hb_queue (appendLogLine env l s) = hb_queue s" "hb_phase (appendLogLine env l s) = hb_phase s"
  "hb_runId (appendLogLine env l s) = hb_runId s" "hb_configId (appendLogLine env l s) = hb_configId s"
  "hb_paused (appendLogLine env l s) = hb_paused s" "hb_requestId (appendLogLine env l s) = hb_requestId s"
  "hb_runTimer (appendLogLine env l s) = hb_runTimer s" "hb_reviewReportId (appendLogLine env l s) = hb_reviewReportId s"
  "hb_reviewConvId (appendLogLine env l s) = hb_reviewConvId s"
  by (simp_all add: appendLogLine_def Let_def core_def)

lemma log_bounded: "length (hb_logRing s) \<le> kLogRingCap \<Longrightarrow> length (hb_logRing (appendLogLine env l s)) \<le> kLogRingCap"
  by (simp add: appendLogLine_def Let_def kLogRingCap_def) linarith

lemma mapReport_frame [frame_simp, simp]:
  "core (mapReport i f s) = core s" "hb_logRing (mapReport i f s) = hb_logRing s" "hb_out (mapReport i f s) = hb_out s"
  "hd_configs (hb_store (mapReport i f s)) = hd_configs (hb_store s)" "hd_up (hb_store (mapReport i f s)) = hd_up (hb_store s)"
  "hd_changes (hb_store (mapReport i f s)) = hd_changes (hb_store s)" "hd_agents (hb_store (mapReport i f s)) = hd_agents (hb_store s)"
  "hb_msgs (mapReport i f s) = hb_msgs s" "hb_pendingPosts (mapReport i f s) = hb_pendingPosts s" "hb_fresh (mapReport i f s) = hb_fresh s"
  "hb_queue (mapReport i f s) = hb_queue s" "hb_phase (mapReport i f s) = hb_phase s" "hb_runId (mapReport i f s) = hb_runId s"
  "hb_configId (mapReport i f s) = hb_configId s" "hb_paused (mapReport i f s) = hb_paused s"
  "hb_requestId (mapReport i f s) = hb_requestId s" "hb_runTimer (mapReport i f s) = hb_runTimer s"
  by (simp_all add: mapReport_def core_def)

lemma persist_frame [frame_simp, simp]:
  "core (persistReportRow r s) = core s" "hb_logRing (persistReportRow r s) = hb_logRing s" "hb_out (persistReportRow r s) = hb_out s"
  "hd_configs (hb_store (persistReportRow r s)) = hd_configs (hb_store s)" "hd_up (hb_store (persistReportRow r s)) = hd_up (hb_store s)"
  "hd_changes (hb_store (persistReportRow r s)) = hd_changes (hb_store s)" "hd_agents (hb_store (persistReportRow r s)) = hd_agents (hb_store s)"
  "hb_msgs (persistReportRow r s) = hb_msgs s" "hb_pendingPosts (persistReportRow r s) = hb_pendingPosts s" "hb_fresh (persistReportRow r s) = hb_fresh s"
  "hb_queue (persistReportRow r s) = hb_queue s" "hb_phase (persistReportRow r s) = hb_phase s" "hb_runId (persistReportRow r s) = hb_runId s"
  "hb_configId (persistReportRow r s) = hb_configId s" "hb_paused (persistReportRow r s) = hb_paused s"
  "hb_requestId (persistReportRow r s) = hb_requestId s" "hb_runTimer (persistReportRow r s) = hb_runTimer s"
  by (simp_all add: persistReportRow_def Let_def core_def)

lemma lastFire_frame [frame_simp, simp]:
  "core (recordLastFire env c x s) = core s" "hb_logRing (recordLastFire env c x s) = hb_logRing s" "hb_out (recordLastFire env c x s) = hb_out s"
  "hd_reports (hb_store (recordLastFire env c x s)) = hd_reports (hb_store s)" "hd_up (hb_store (recordLastFire env c x s)) = hd_up (hb_store s)"
  "hd_changes (hb_store (recordLastFire env c x s)) = hd_changes (hb_store s)" "hd_agents (hb_store (recordLastFire env c x s)) = hd_agents (hb_store s)"
  "hb_msgs (recordLastFire env c x s) = hb_msgs s" "hb_pendingPosts (recordLastFire env c x s) = hb_pendingPosts s" "hb_fresh (recordLastFire env c x s) = hb_fresh s"
  "hb_queue (recordLastFire env c x s) = hb_queue s" "hb_phase (recordLastFire env c x s) = hb_phase s" "hb_runId (recordLastFire env c x s) = hb_runId s"
  "hb_configId (recordLastFire env c x s) = hb_configId s" "hb_paused (recordLastFire env c x s) = hb_paused s"
  "hb_requestId (recordLastFire env c x s) = hb_requestId s" "hb_runTimer (recordLastFire env c x s) = hb_runTimer s"
  by (simp_all add: recordLastFire_def updateLastFire_def mapConfig_def core_def)

lemma surface_frame [frame_simp, simp]:
  "core (updateReportSurface i a b c s) = core s" "hb_logRing (updateReportSurface i a b c s) = hb_logRing s"
  "hb_out (updateReportSurface i a b c s) = hb_out s" "hd_configs (hb_store (updateReportSurface i a b c s)) = hd_configs (hb_store s)"
  "hd_up (hb_store (updateReportSurface i a b c s)) = hd_up (hb_store s)" "hb_msgs (updateReportSurface i a b c s) = hb_msgs s"
  "hd_changes (hb_store (updateReportSurface i a b c s)) = hd_changes (hb_store s)" "hd_agents (hb_store (updateReportSurface i a b c s)) = hd_agents (hb_store s)"
  "hb_pendingPosts (updateReportSurface i a b c s) = hb_pendingPosts s" "hb_fresh (updateReportSurface i a b c s) = hb_fresh s"
  "hb_queue (updateReportSurface i a b c s) = hb_queue s" "hb_phase (updateReportSurface i a b c s) = hb_phase s"
  "hb_runId (updateReportSurface i a b c s) = hb_runId s" "hb_paused (updateReportSurface i a b c s) = hb_paused s"
  by (simp_all add: updateReportSurface_def)

lemma router_frame [frame_simp, simp]:
  "core (connectToRouter s) = core s" "core (disconnectFromRouter s) = core s"
  "hb_store (connectToRouter s) = hb_store s" "hb_store (disconnectFromRouter s) = hb_store s"
  "hb_logRing (connectToRouter s) = hb_logRing s" "hb_logRing (disconnectFromRouter s) = hb_logRing s"
  "hb_out (connectToRouter s) = hb_out s" "hb_out (disconnectFromRouter s) = hb_out s"
  "hb_msgs (connectToRouter s) = hb_msgs s" "hb_msgs (disconnectFromRouter s) = hb_msgs s"
  "hb_pendingPosts (connectToRouter s) = hb_pendingPosts s" "hb_pendingPosts (disconnectFromRouter s) = hb_pendingPosts s"
  "hb_queue (connectToRouter s) = hb_queue s" "hb_queue (disconnectFromRouter s) = hb_queue s"
  "hb_phase (connectToRouter s) = hb_phase s" "hb_phase (disconnectFromRouter s) = hb_phase s"
  "hb_runId (connectToRouter s) = hb_runId s" "hb_runId (disconnectFromRouter s) = hb_runId s"
  "hb_fresh (connectToRouter s) = hb_fresh s" "hb_fresh (disconnectFromRouter s) = hb_fresh s"
  "hb_runTimer (disconnectFromRouter s) = hb_runTimer s"
  by (simp_all add: connectToRouter_def disconnectFromRouter_def core_def)

lemma core_fields:
  "core s = (q, ph, r, c, i, rr, rc, p) \<longleftrightarrow> hb_queue s = q \<and> hb_phase s = ph \<and> hb_runId s = r \<and> hb_configId s = c \<and>
     hb_requestId s = i \<and> hb_reviewReportId s = rr \<and> hb_reviewConvId s = rc \<and> hb_paused s = p"
  by (auto simp: core_def)

lemma core_update [simp]:
  "core (s\<lparr>hb_store := d\<rparr>) = core s" "core (s\<lparr>hb_msgs := m\<rparr>) = core s" "core (s\<lparr>hb_fresh := n\<rparr>) = core s"
  "core (s\<lparr>hb_pendingPosts := ps\<rparr>) = core s" "core (s\<lparr>hb_runTimer := b\<rparr>) = core s" "core (s\<lparr>hb_scheduleTimer := b\<rparr>) = core s"
  "core (s\<lparr>hb_accumulator := a\<rparr>) = core s" "core (s\<lparr>hb_queue := q\<rparr>) = (q, snd (core s))"
  "core (s\<lparr>hb_reviewConfigId := a\<rparr>) = core s"
  by (simp_all add: core_def)

section \<open>The invariant\<close>

definition run_inv :: "hb_service \<Rightarrow> bool" where
  "run_inv s \<longleftrightarrow> queue_inv (hb_queue s) \<and>
     (hb_phase s = Tier1 \<longleftrightarrow> hb_runId s \<noteq> []) \<and>
     (hb_phase s = Tier1 \<longrightarrow> hb_configId s \<noteq> []) \<and>
     set (q_inflight (hb_queue s)) = (if hb_phase s = Tier1 then {hb_configId s} else {}) \<and>
     (hb_phase s = Tier2 \<longrightarrow> hb_reviewReportId s \<noteq> [] \<and> hb_reviewConvId s \<noteq> []) \<and>
     length (hb_logRing s) \<le> kLogRingCap \<and>
     startedRuns (hb_out s) = endedRuns (hb_out s) @ (if hb_phase s = Tier1 then [hb_runId s] else [])"

lemma run_inv_log: "run_inv s \<Longrightarrow> length (hb_logRing s) \<le> kLogRingCap"
  by (simp add: run_inv_def)

text \<open>Two states that the invariant does not tell apart.\<close>

lemma run_inv_cong:
  assumes "run_inv s" and "core t = core s" and "length (hb_logRing t) \<le> kLogRingCap"
    and "startedRuns (hb_out t) = startedRuns (hb_out s)" and "endedRuns (hb_out t) = endedRuns (hb_out s)"
  shows "run_inv t"
  using assms by (simp add: run_inv_def core_def)

lemma run_inv_keep [inv_intro]:
  assumes "run_inv s"
  shows "run_inv (mapReport i f s)" "run_inv (persistReportRow r s)" "run_inv (recordLastFire env c x s)"
    "run_inv (updateReportSurface i x1 x2 x3 s)" "run_inv (appendLogLine env l s)" "run_inv (connectToRouter s)"
    "run_inv (disconnectFromRouter s)" "run_inv (s\<lparr>hb_store := d\<rparr>)" "run_inv (s\<lparr>hb_msgs := ms\<rparr>)"
    "run_inv (s\<lparr>hb_fresh := n\<rparr>)" "run_inv (s\<lparr>hb_pendingPosts := ps\<rparr>)" "run_inv (s\<lparr>hb_runTimer := b\<rparr>)"
    "run_inv (s\<lparr>hb_scheduleTimer := b\<rparr>)" "run_inv (s\<lparr>hb_accumulator := acc\<rparr>)" "run_inv (snd (newUuidString env s))"
    "run_inv (deferPost conv p s)"
  by (rule run_inv_cong [OF assms]; use assms in \<open>simp add: log_bounded run_inv_def newUuidString_def deferPost_def\<close>)+

lemma run_inv_emit [inv_intro]:
  assumes "run_inv s" and "\<And>r c. e \<noteq> RunStarted r c" and "\<And>r x. e \<noteq> RunCompleted r x" and "\<And>r x. e \<noteq> RunFailed r x"
  shows "run_inv (hb_emit e s)"
proof (rule run_inv_cong [OF assms(1)])
  show "startedRuns (hb_out (hb_emit e s)) = startedRuns (hb_out s)" "endedRuns (hb_out (hb_emit e s)) = endedRuns (hb_out s)"
    using assms(2-4) by (cases e; simp)+
qed (use assms(1) in \<open>simp_all add: run_inv_def\<close>)

section \<open>Starting and ending runs\<close>

lemma endRun_fields [simp]:
  "hb_runId (endRun env x s) = []" "hb_phase (endRun env x s) = NoPhase" "hb_configId (endRun env x s) = []"
  "hb_requestId (endRun env x s) = 0" "hb_queue (endRun env x s) = markNotInflight (hb_configId s) (hb_queue s)"
  "hb_paused (endRun env x s) = hb_paused s" "hb_msgs (endRun env x s) = hb_msgs s"
  "hb_pendingPosts (endRun env x s) = hb_pendingPosts s" "hb_fresh (endRun env x s) = hb_fresh s"
  "hb_reviewReportId (endRun env x s) = hb_reviewReportId s" "hb_reviewConvId (endRun env x s) = hb_reviewConvId s"
  "hb_store (endRun env x s) = snd (updateLastFire (he_utc env) (hb_configId s) (he_now env) x (hb_store s))"
  by (simp_all add: endRun_def Let_def recordLastFire_def core_def disconnectFromRouter_def)

lemma fifo_marks [simp]:
  "q_fifo (markInflight c q) = q_fifo q" "q_fifo (markNotInflight c q) = q_fifo q"
  "q_softCap (markInflight c q) = q_softCap q" "q_softCap (markNotInflight c q) = q_softCap q"
  by (simp_all add: markInflight_def markNotInflight_def)

lemma endRun_inv [inv_intro]:
  assumes "run_inv s" and "hb_phase s = Tier1"
  shows "run_inv (endRun env x s)"
proof -
  have "length (hb_logRing (endRun env x s)) \<le> kLogRingCap"
    using run_inv_log [OF assms(1)] by (simp add: endRun_def Let_def log_bounded)
  moreover have "startedRuns (hb_out (endRun env x s)) = startedRuns (hb_out s)"
    "endedRuns (hb_out (endRun env x s)) = endedRuns (hb_out s) @ [hb_runId s]"
    by (simp_all add: endRun_def Let_def)
  moreover have "set (q_inflight (markNotInflight (hb_configId s) (hb_queue s))) = {}"
    using assms by (auto simp: run_inv_def markNotInflight_def)
  ultimately show ?thesis using assms by (simp add: run_inv_def queue_inv_ops)
qed

lemma startRun_fields [simp]:
  "hb_runId (startRun env e cfg req s) = qe_runId e" "hb_phase (startRun env e cfg req s) = Tier1"
  "hb_configId (startRun env e cfg req s) = qe_configId e" "hb_requestId (startRun env e cfg req s) = rq_requestId req"
  "hb_queue (startRun env e cfg req s) = markInflight (qe_configId e) (hb_queue s)"
  "hb_paused (startRun env e cfg req s) = hb_paused s" "hb_msgs (startRun env e cfg req s) = hb_msgs s"
  "hb_pendingPosts (startRun env e cfg req s) = hb_pendingPosts s" "hb_fresh (startRun env e cfg req s) = hb_fresh s"
  "hb_store (startRun env e cfg req s) = hb_store (persistReportRow (pendingReport env e) s)"
  "hb_reviewReportId (startRun env e cfg req s) = hb_reviewReportId s" "hb_reviewConvId (startRun env e cfg req s) = hb_reviewConvId s"
  by (simp_all add: startRun_def Let_def persistReportRow_def connectToRouter_def appendLogLine_def hb_emit_def)

lemma startRun_inv [inv_intro]:
  assumes "run_inv s" and "hb_runId s = []" and "qe_configId e \<noteq> []" and "qe_runId e \<noteq> []"
  shows "run_inv (startRun env e cfg req s)"
proof -
  have "length (hb_logRing (startRun env e cfg req s)) \<le> kLogRingCap"
    using run_inv_log [OF assms(1)] by (simp add: startRun_def Let_def log_bounded connectToRouter_def)
  moreover have "startedRuns (hb_out (startRun env e cfg req s)) = startedRuns (hb_out s) @ [qe_runId e]"
    "endedRuns (hb_out (startRun env e cfg req s)) = endedRuns (hb_out s)"
    by (simp_all add: startRun_def Let_def)
  moreover have "set (q_inflight (markInflight (qe_configId e) (hb_queue s))) = {qe_configId e}"
    using assms by (auto simp: run_inv_def markInflight_def)
  ultimately show ?thesis using assms by (simp add: run_inv_def queue_inv_ops)
qed

lemma failRun_inv [inv_intro]: "run_inv s \<Longrightarrow> hb_phase s = Tier1 \<Longrightarrow> run_inv (failRun env err s)"
  by (simp add: failRun_def inv_intro)

lemma failRun_fields [simp]:
  "hb_runId (failRun env err s) = []" "hb_phase (failRun env err s) = NoPhase" "hb_paused (failRun env err s) = hb_paused s"
  "q_fifo (hb_queue (failRun env err s)) = q_fifo (hb_queue s)" "q_softCap (hb_queue (failRun env err s)) = q_softCap (hb_queue s)"
  "hb_msgs (failRun env err s) = hb_msgs s" "hb_pendingPosts (failRun env err s) = hb_pendingPosts s"
  by (simp_all add: failRun_def)

text \<open>The three outcomes of an entry: it is recorded and the next one follows; it runs; it ran into an
  error of the router and the next one follows.\<close>

lemma dispatchEntry_cases:
  obtains (recorded) s1 where "dispatchEntry env e s = (True, s1)" "core s1 = core s" "hb_out s1 = hb_out s"
      "hb_logRing s1 = hb_logRing s" "hb_msgs s1 = hb_msgs s" "hb_pendingPosts s1 = hb_pendingPosts s"
  | (runs) cfg req where "dispatchEntry env e s = (False, startRun env e cfg req s)" "he_send env req = None"
      "cfg = configById (hb_store s) (qe_configId e)" "validConfig cfg" "\<not> isRateLimited env (hb_store s) cfg"
      "buildSubagentRequest env s cfg = Inr req"
  | (failed) cfg req err where "dispatchEntry env e s = (True, failRun env err (startRun env e cfg req s))"
      "he_send env req = Some err"
proof -
  let ?cfg = "configById (hb_store s) (qe_configId e)"
  show ?thesis
  proof (cases "\<not> validConfig ?cfg \<or> isRateLimited env (hb_store s) ?cfg")
    case True
    then show ?thesis by (intro recorded [of "snd (dispatchEntry env e s)"]) (auto simp: dispatchEntry_def Let_def)
  next
    case False
    then show ?thesis
    proof (cases "buildSubagentRequest env s ?cfg")
      case (Inl err)
      then show ?thesis using False by (intro recorded [of "snd (dispatchEntry env e s)"]) (auto simp: dispatchEntry_def Let_def)
    next
      case (Inr req)
      then show ?thesis using False runs [of ?cfg req] failed [of _ ?cfg req]
        by (cases "he_send env req") (auto simp: dispatchEntry_def Let_def)
    qed
  qed
qed

lemma pop_cons [simp]: "q_fifo q = e # es \<Longrightarrow> snd (popNext q) = q\<lparr>q_fifo := es\<rparr>"
  by (simp add: popNext_def)

lemma run_inv_pop:
  assumes "run_inv s" and "q_fifo (hb_queue s) = e # es"
  shows "run_inv (s\<lparr>hb_queue := (hb_queue s)\<lparr>q_fifo := es\<rparr>\<rparr>)" and "qe_configId e \<noteq> []" and "qe_runId e \<noteq> []"
  using assms by (auto simp: run_inv_def queue_inv_def)

lemma dispatchEntry_inv:
  assumes "run_inv s" and "hb_runId s = []" and "qe_configId e \<noteq> []" and "qe_runId e \<noteq> []"
  shows "run_inv (snd (dispatchEntry env e s)) \<and> q_fifo (hb_queue (snd (dispatchEntry env e s))) = q_fifo (hb_queue s) \<and>
    hb_paused (snd (dispatchEntry env e s)) = hb_paused s \<and> q_softCap (hb_queue (snd (dispatchEntry env e s))) = q_softCap (hb_queue s) \<and>
    (fst (dispatchEntry env e s) \<longrightarrow> hb_runId (snd (dispatchEntry env e s)) = []) \<and>
    (\<not> fst (dispatchEntry env e s) \<longrightarrow> hb_runId (snd (dispatchEntry env e s)) = qe_runId e)"
proof (cases rule: dispatchEntry_cases [of env e s])
  case (recorded s1)
  have "run_inv s1" by (rule run_inv_cong [OF assms(1)]) (use recorded assms(1) in \<open>simp_all add: run_inv_def\<close>)
  then show ?thesis using recorded assms(2) by (simp add: core_def)
next
  case (runs cfg req)
  then show ?thesis using startRun_inv [OF assms] by simp
next
  case (failed cfg req err)
  then show ?thesis using failRun_inv [OF startRun_inv [OF assms]] by simp
qed

lemma drainEntries_inv:
  assumes "run_inv s" and "q_fifo (hb_queue s) = es"
  shows "run_inv (drainEntries env es s) \<and> hb_paused (drainEntries env es s) = hb_paused s \<and>
    q_softCap (hb_queue (drainEntries env es s)) = q_softCap (hb_queue s) \<and>
    suffix (q_fifo (hb_queue (drainEntries env es s))) es \<and>
    (hb_paused s \<or> hb_runId (drainEntries env es s) \<noteq> [] \<or> q_fifo (hb_queue (drainEntries env es s)) = [])"
  using assms
proof (induction es arbitrary: s)
  case (Cons e es)
  show ?case
  proof (cases "hb_paused s \<or> hb_runId s \<noteq> []")
    case False
    define s0 where "s0 = s\<lparr>hb_queue := (hb_queue s)\<lparr>q_fifo := es\<rparr>\<rparr>"
    have p: "run_inv s0" "hb_runId s0 = []" "qe_configId e \<noteq> []" "qe_runId e \<noteq> []" "q_fifo (hb_queue s0) = es" "hb_paused s0 = hb_paused s"
      "q_softCap (hb_queue s0) = q_softCap (hb_queue s)"
      using run_inv_pop [OF Cons.prems] False by (simp_all add: s0_def)
    obtain again s1 where d: "dispatchEntry env e s0 = (again, s1)" by (cases "dispatchEntry env e s0")
    note i = dispatchEntry_inv [OF p(1-4), of env, unfolded d]
    have step: "drainEntries env (e # es) s = (if again then drainEntries env es s1 else s1)"
      using False d Cons.prems(2) by (simp add: s0_def)
    show ?thesis
    proof (cases again)
      case True
      then have "run_inv s1" "q_fifo (hb_queue s1) = es" "hb_paused s1 = hb_paused s" "q_softCap (hb_queue s1) = q_softCap (hb_queue s)"
        using i p by simp_all
      from Cons.IH [OF this(1,2)] this(3,4) show ?thesis unfolding step using True by (simp add: suffix_ConsI)
    next
      case False
      then show ?thesis unfolding step using i p by (simp add: suffix_ConsI)
    qed
  qed (use Cons.prems in auto)
qed simp

lemma drainQueue_inv [inv_intro]: "run_inv s \<Longrightarrow> run_inv (drainQueue env s)"
  using drainEntries_inv [of s] by (simp add: drainQueue_def)

lemma drainQueue_paused [simp]: "run_inv s \<Longrightarrow> hb_paused (drainQueue env s) = hb_paused s"
  using drainEntries_inv [of s] by (simp add: drainQueue_def)

lemma drainQueue_idle:
  "run_inv s \<Longrightarrow> hb_paused s \<or> hb_runId (drainQueue env s) \<noteq> [] \<or> q_fifo (hb_queue (drainQueue env s)) = []"
  using drainEntries_inv [of s] by (simp add: drainQueue_def)

lemma drainQueue_busy [simp]: "hb_paused s \<or> hb_runId s \<noteq> [] \<Longrightarrow> drainQueue env s = s"
  unfolding drainQueue_def by (cases "q_fifo (hb_queue s)") auto

lemma drainQueue_empty [simp]: "q_fifo (hb_queue s) = [] \<Longrightarrow> drainQueue env s = s"
  by (simp add: drainQueue_def)

section \<open>Reviews and posts\<close>

lemma skip_gate_core [simp]:
  "core (skipReport i s) = core s" "core (gateReport i x s) = core s" "hb_phase (skipReport i s) = hb_phase s"
  "hb_phase (gateReport i x s) = hb_phase s" "hb_runId (skipReport i s) = hb_runId s" "hb_queue (skipReport i s) = hb_queue s"
  "hb_runId (gateReport i x s) = hb_runId s" "hb_queue (gateReport i x s) = hb_queue s"
  "hb_pendingPosts (skipReport i s) = hb_pendingPosts s" "hb_paused (skipReport i s) = hb_paused s"
  by (simp_all add: skipReport_def gateReport_def)

lemma skipReport_inv [inv_intro]: "run_inv s \<Longrightarrow> run_inv (skipReport i s)"
  and gateReport_inv [inv_intro]: "run_inv s \<Longrightarrow> run_inv (gateReport i x s)"
  by (simp_all add: skipReport_def gateReport_def inv_intro)

lemma doInsert_keeps:
  "core (snd (doInsertAndCascade env r b c m s)) = core s \<and> hb_logRing (snd (doInsertAndCascade env r b c m s)) = hb_logRing s \<and>
   startedRuns (hb_out (snd (doInsertAndCascade env r b c m s))) = startedRuns (hb_out s) \<and>
   endedRuns (hb_out (snd (doInsertAndCascade env r b c m s))) = endedRuns (hb_out s) \<and>
   hd_configs (hb_store (snd (doInsertAndCascade env r b c m s))) = hd_configs (hb_store s)"
  by (simp add: doInsertAndCascade_def Let_def deferPost_def newUuidString_def skipReport_def
      split: option.split prod.split)

lemma doInsert_inv [inv_intro]:
  assumes "run_inv s" shows "run_inv (snd (doInsertAndCascade env r b c m s))"
  by (rule run_inv_cong [OF assms]) (use doInsert_keeps [of env r b c m s] assms in \<open>simp_all add: run_inv_def\<close>)

lemma endReview_fields [simp]:
  "hb_phase (endReview s) = NoPhase" "hb_queue (endReview s) = hb_queue s" "hb_runId (endReview s) = hb_runId s"
  "hb_store (endReview s) = hb_store s" "hb_msgs (endReview s) = hb_msgs s" "hb_out (endReview s) = hb_out s"
  "hb_paused (endReview s) = hb_paused s" "hb_pendingPosts (endReview s) = hb_pendingPosts s" "hb_requestId (endReview s) = 0"
  "hb_logRing (endReview s) = hb_logRing s" "hb_fresh (endReview s) = hb_fresh s"
  by (simp_all add: endReview_def disconnectFromRouter_def)

lemma endReview_inv [inv_intro]: "run_inv s \<Longrightarrow> hb_phase s = Tier2 \<Longrightarrow> run_inv (endReview s)"
  by (simp add: run_inv_def)

lemma onReviewError_inv [inv_intro]: "run_inv s \<Longrightarrow> run_inv (onReviewError env i s)"
  by (simp add: onReviewError_def inv_intro)

lemma startReview_fields [simp]:
  "hb_phase (startReview env cfg a r c req s) = Tier2" "hb_queue (startReview env cfg a r c req s) = hb_queue s"
  "hb_runId (startReview env cfg a r c req s) = hb_runId s" "hb_store (startReview env cfg a r c req s) = hb_store s"
  "hb_requestId (startReview env cfg a r c req s) = rq_requestId req" "hb_reviewReportId (startReview env cfg a r c req s) = r"
  "hb_reviewConvId (startReview env cfg a r c req s) = c" "hb_paused (startReview env cfg a r c req s) = hb_paused s"
  "hb_msgs (startReview env cfg a r c req s) = hb_msgs s" "hb_pendingPosts (startReview env cfg a r c req s) = hb_pendingPosts s"
  by (simp_all add: startReview_def Let_def connectToRouter_def appendLogLine_def hb_emit_def)

lemma startReview_inv [inv_intro]:
  assumes "run_inv s" and "hb_runId s = []" and "r \<noteq> []" and "c \<noteq> []"
  shows "run_inv (startReview env cfg a r c req s)"
proof -
  have "length (hb_logRing (startReview env cfg a r c req s)) \<le> kLogRingCap"
    using run_inv_log [OF assms(1)] by (simp add: startReview_def Let_def log_bounded connectToRouter_def)
  moreover have "startedRuns (hb_out (startReview env cfg a r c req s)) = startedRuns (hb_out s)"
    "endedRuns (hb_out (startReview env cfg a r c req s)) = endedRuns (hb_out s)"
    by (simp_all add: startReview_def Let_def)
  ultimately show ?thesis using assms by (simp add: run_inv_def)
qed

lemma reviewReport_inv [inv_intro]:
  assumes "run_inv s" and "hb_runId s = []"
  shows "run_inv (reviewReport env r c s)"
  using assms
  by (auto simp: reviewReport_def Let_def gateReport_inv skipReport_inv onReviewError_inv startReview_inv split: option.split)

lemma finishCurrentRun_inv [inv_intro]:
  assumes "run_inv s"
  shows "run_inv (finishCurrentRun env x s)"
proof (cases "hb_runId s = []")
  case False
  then have "run_inv (endRun env x s)" using assms by (intro endRun_inv) (auto simp: run_inv_def)
  then have "run_inv (endRun env x s)" "run_inv (reviewReport env (hb_runId s) (hb_configId s) (endRun env x s))"
    by (simp_all add: reviewReport_inv)
  then show ?thesis using False by (auto simp: finishCurrentRun_def Let_def drainQueue_inv)
qed (use assms in \<open>simp add: finishCurrentRun_def\<close>)

section \<open>All entry points as one machine\<close>

datatype hb_op =
    OpInitialize hb_env
  | OpShutdown hb_env
  | OpPause hb_env bool
  | OpRunNow hb_env string
  | OpCancel hb_env string
  | OpTick hb_env
  | OpChunk int string
  | OpFinished hb_env int
  | OpError hb_env int string
  | OpTimeout hb_env
  | OpManualPost hb_env string string
  | OpDismiss string
  | OpStreamFinalized hb_env string
  | OpRebuild string
  | OpTool hb_tool hb_env hb_tool_env json_object
  | OpUpsertConfig int string hb_config
  | OpUpdateConfig int hb_config
  | OpDeleteConfig string
  | OpConversationDeleted string
  | OpFolderDeleted string
  | OpRecordChange int string string string string string string
  | OpChat msg_service

text \<open>\<open>OpChat\<close> stands for what the rest of the program does to the chat meanwhile. A call that never returns
  leads nowhere: the machine stays.\<close>

definition hb_step :: "hb_service \<Rightarrow> hb_op \<Rightarrow> hb_service" where
  "hb_step s a =
     (case a of
        OpInitialize env \<Rightarrow> initialize env s
      | OpShutdown env \<Rightarrow> shutdown env s
      | OpPause env p \<Rightarrow> setGloballyPaused env p s
      | OpRunNow env c \<Rightarrow> snd (runNow env c s)
      | OpCancel env r \<Rightarrow> cancelRun env r s
      | OpTick env \<Rightarrow> onScheduleTick env s
      | OpChunk i d \<Rightarrow> onBgChunk i d s
      | OpFinished env i \<Rightarrow> onBgFinished env i s
      | OpError env i err \<Rightarrow> onBgError env i err s
      | OpTimeout env \<Rightarrow> onRunTimeout env s
      | OpManualPost env r t \<Rightarrow> snd (manualPost env r t s)
      | OpDismiss r \<Rightarrow> snd (manualDismiss r s)
      | OpStreamFinalized env m \<Rightarrow> (case onStreamFinalized env m s of None \<Rightarrow> s | Some s' \<Rightarrow> s')
      | OpRebuild c \<Rightarrow> rebuildSchedule c s
      | OpTool t env te args \<Rightarrow> snd (runTool t env te args s)
      | OpUpsertConfig now uuid f \<Rightarrow> s\<lparr>hb_store := snd (upsertConfigMap now uuid f (hb_store s))\<rparr>
      | OpUpdateConfig now cfg \<Rightarrow> s\<lparr>hb_store := snd (updateConfig now cfg (hb_store s))\<rparr>
      | OpDeleteConfig c \<Rightarrow> s\<lparr>hb_store := snd (deleteConfig c (hb_store s))\<rparr>
      | OpConversationDeleted c \<Rightarrow> s\<lparr>hb_store := snd (Heartbeat_Config.onConversationDeleted c (hb_store s))\<rparr>
      | OpFolderDeleted f \<Rightarrow> s\<lparr>hb_store := snd (onFolderDeleted f (hb_store s))\<rparr>
      | OpRecordChange now u c fd ov nv src \<Rightarrow> s\<lparr>hb_store := snd (recordChange now u c fd ov nv src (hb_store s))\<rparr>
      | OpChat ms \<Rightarrow> s\<lparr>hb_msgs := ms\<rparr>)"

definition new_service :: "hb_store \<Rightarrow> msg_service \<Rightarrow> hb_service" where
  "new_service d ms = \<lparr>hb_store = d, hb_msgs = ms, hb_queue = new_queue, hb_scheduleTimer = False, hb_runTimer = False,
     hb_paused = False, hb_logRing = [], hb_phase = NoPhase, hb_runId = [], hb_configId = [], hb_requestId = 0,
     hb_accumulator = [], hb_startedAt = None, hb_connected = False, hb_handles = False, hb_reviewReportId = [],
     hb_reviewConvId = [], hb_reviewConfigId = [], hb_pendingPosts = [], hb_fresh = 0, hb_out = []\<rparr>"

lemma run_inv_new [simp]: "run_inv (new_service d ms)"
  by (simp add: run_inv_def new_service_def queue_inv_def new_queue_def kLogRingCap_def)

lemma enqueue_frame [simp]: "q_inflight (snd (enqueue e q)) = q_inflight q" "q_softCap (snd (enqueue e q)) = q_softCap q"
  by (simp_all add: enqueue_cases)

lemma fireConfig_inv [inv_intro]: "run_inv s \<Longrightarrow> run_inv (fireConfig env cfg s)"
proof -
  assume i: "run_inv s"
  have "run_inv (s\<lparr>hb_fresh := n, hb_queue := snd (enqueue e (hb_queue s))\<rparr>)" for n e
    using i queue_inv_ops(1) [of "hb_queue s" e] by (simp add: run_inv_def)
  then show ?thesis using i
    by (simp add: fireConfig_def Let_def newUuidString_def split_beta run_inv_keep)
qed

lemma fold_fire_inv: "run_inv s \<Longrightarrow> run_inv (fold (fireConfig env) cs s)"
  by (induction cs arbitrary: s) (simp_all add: fireConfig_inv)

lemma runNow_inv [inv_intro]: "run_inv s \<Longrightarrow> run_inv (snd (runNow env c s))"
proof -
  assume i: "run_inv s"
  have "run_inv (s\<lparr>hb_fresh := n, hb_queue := snd (enqueue e (hb_queue s))\<rparr>)" for n e
    using i queue_inv_ops(1) [of "hb_queue s" e] by (simp add: run_inv_def)
  then show ?thesis using i
    by (simp add: runNow_def Let_def newUuidString_def split_beta run_inv_keep drainQueue_inv)
qed

text \<open>Taking all entries out and putting back those that are kept.\<close>

lemma takeOut_frame:
  "fst (takeOut env r es s) = filter (\<lambda>e. qe_runId e \<noteq> r) es \<and>
   hb_logRing (snd (takeOut env r es s)) = hb_logRing s \<and> hb_out (snd (takeOut env r es s)) = hb_out s \<and>
   snd (core (snd (takeOut env r es s))) = snd (core s) \<and> hb_pendingPosts (snd (takeOut env r es s)) = hb_pendingPosts s \<and>
   hb_msgs (snd (takeOut env r es s)) = hb_msgs s"
  by (induction es arbitrary: s) (simp_all add: Let_def split_beta)

lemma takeOut_queue:
  "q_fifo (hb_queue s) = es \<Longrightarrow> hb_queue (snd (takeOut env r es s)) = (hb_queue s)\<lparr>q_fifo := []\<rparr>"
  by (induction es arbitrary: s) (simp_all add: Let_def split_beta)

lemma accepts_snd: "snd (accepts e q) = snd (enqueue e q)"
  by (simp add: accepts_def)

lemma put_back_frame:
  "q_inflight (fold (\<lambda>e q. snd (enqueue e q)) es q) = q_inflight q \<and> q_softCap (fold (\<lambda>e q. snd (enqueue e q)) es q) = q_softCap q"
  by (induction es arbitrary: q) simp_all

lemma put_back_inv: "queue_inv q \<Longrightarrow> queue_inv (fold (\<lambda>e q. snd (enqueue e q)) es q)"
  by (induction es arbitrary: q) (simp_all add: queue_inv_ops)

lemma put_back_all:
  assumes "queue_inv q" and "int (length (q_fifo q)) \<le> q_softCap q"
  shows "fold (\<lambda>e q. snd (enqueue e q)) (filter P (q_fifo q)) (q\<lparr>q_fifo := []\<rparr>) = q\<lparr>q_fifo := filter P (q_fifo q)\<rparr>"
proof -
  let ?es = "filter P (q_fifo q)" and ?q = "q\<lparr>q_fifo := []\<rparr>"
  have d: "distinct (map qe_configId ?es)" using assms(1) by (simp add: queue_inv_def distinct_map_filter)
  have "hb_admits ([] @ take i ?es) (?es ! i) ?q" if i: "i < length ?es" for i
  proof -
    have e: "?es ! i \<in> set (q_fifo q)" using nth_mem [OF i] by auto
    have "qe_configId (?es ! i) \<notin> qe_configId ` set (take i ?es)"
    proof
      assume "qe_configId (?es ! i) \<in> qe_configId ` set (take i ?es)"
      then obtain j where "j < i" "qe_configId (?es ! j) = qe_configId (?es ! i)" by (auto simp: in_set_conv_nth)
      then show False using d i by (auto simp: distinct_conv_nth)
    qed
    moreover have "int i < q_softCap q" using i assms(2) length_filter_le [of P "q_fifo q"] by linarith
    ultimately show ?thesis using assms e i by (auto simp: hb_admits_def queue_inv_def min_def)
  qed
  then have "hbq.admissible (q_fifo ?q) ?es ?q" unfolding hbq.admissible_def by simp
  from hbq.put_back [OF this] have "q_fifo (fold (\<lambda>e q. snd (enqueue e q)) ?es ?q) = ?es"
    by (simp add: accepts_snd)
  then show ?thesis using put_back_frame [of ?es ?q] by simp
qed

lemma cancelRun_inv [inv_intro]:
  assumes "run_inv s"
  shows "run_inv (cancelRun env r s)"
proof (cases "r = [] \<or> hb_runId s = r")
  case True
  then show ?thesis using assms by (auto simp: cancelRun_def inv_intro)
next
  case False
  let ?t = "snd (takeOut env r (q_fifo (hb_queue s)) s)"
  let ?k = "fst (takeOut env r (q_fifo (hb_queue s)) s)"
  have q: "queue_inv ((hb_queue s)\<lparr>q_fifo := []\<rparr>)" using assms by (simp add: run_inv_def queue_inv_def)
  have f: "snd (core ?t) = snd (core s)" "hb_logRing ?t = hb_logRing s" "hb_out ?t = hb_out s" using takeOut_frame by blast+
  have "cancelRun env r s = ?t\<lparr>hb_queue := fold (\<lambda>e q. snd (enqueue e q)) ?k ((hb_queue s)\<lparr>q_fifo := []\<rparr>)\<rparr>"
    using False by (simp add: cancelRun_def split_beta takeOut_queue [OF refl])
  then show ?thesis using assms f put_back_inv [OF q, of ?k] put_back_frame [of ?k "(hb_queue s)\<lparr>q_fifo := []\<rparr>"]
    by (auto simp: run_inv_def core_def)
qed

text \<open>What every post keeps, the loop over the posts keeps.\<close>

lemma drainPosts_keeps:
  assumes "drainPosts env c s = Some t" and "P s"
    and upd: "\<And>s ps. P s \<Longrightarrow> P (s\<lparr>hb_pendingPosts := ps\<rparr>)"
    and ins: "\<And>env c s r b m. P s \<Longrightarrow> P (snd (doInsertAndCascade env r b c m s))"
  shows "P t"
proof -
  have "P s \<longrightarrow> P t"
  proof (rule drainPosts.raw_induct [of "\<lambda>_ _ s t. P s \<longrightarrow> P t" env c s t], goal_cases)
    case (1 f env c s t)
    show ?case
    proof (cases "valueOr (hb_pendingPosts s) c []")
      case Nil
      then show ?thesis using 1(2) upd by auto
    next
      case (Cons p ps)
      let ?u = "snd (doInsertAndCascade env (pp_reportId p) (pp_postBody p) c (pp_mode p)
          (s\<lparr>hb_pendingPosts := AList.update c ps (hb_pendingPosts s)\<rparr>))"
      have "f env c ?u = Some t" using 1(2) Cons by simp
      from 1(1) [OF this] show ?thesis by (simp add: upd ins)
    qed
  qed (rule assms)
  then show ?thesis using assms by simp
qed

lemma onStreamFinalized_keeps:
  assumes "onStreamFinalized env m s = Some t" and "P s"
    and upd: "\<And>s ps. P s \<Longrightarrow> P (s\<lparr>hb_pendingPosts := ps\<rparr>)"
    and ins: "\<And>env c s r b m. P s \<Longrightarrow> P (snd (doInsertAndCascade env r b c m s))"
  shows "P t"
proof -
  have d: "drainPendingPostsFor env c s = Some u \<Longrightarrow> P s \<Longrightarrow> P u" for c s u
    by (auto simp: drainPendingPostsFor_def split: if_splits intro: drainPosts_keeps [where P = P, OF _ _ upd ins])
  have w: "sweepPosts env cs s = Some u \<Longrightarrow> P s \<Longrightarrow> P u" for cs s u
    by (induction cs arbitrary: s) (auto split: if_splits option.splits intro: d)
  show ?thesis using assms(1,2)
    by (auto simp: onStreamFinalized_def Let_def split: if_splits option.splits intro: w d)
qed

lemma onStreamFinalized_inv: "onStreamFinalized env m s = Some t \<Longrightarrow> run_inv s \<Longrightarrow> run_inv t"
  by (rule onStreamFinalized_keeps [where P = run_inv]) (simp_all add: run_inv_keep doInsert_inv)

lemma store_update_inv [inv_intro]: "run_inv s \<Longrightarrow> run_inv (s\<lparr>hb_store := d\<rparr>)"
  by (simp add: run_inv_keep)

lemma setGloballyPaused_inv [inv_intro]:
  assumes "run_inv s"
  shows "run_inv (setGloballyPaused env p s)"
proof -
  have "run_inv (s\<lparr>hb_paused := p\<rparr>)" using assms by (simp add: run_inv_def)
  then show ?thesis using assms by (auto simp: setGloballyPaused_def Let_def intro!: cancelRun_inv run_inv_emit)
qed

lemma shutdown_inv [inv_intro]: "run_inv s \<Longrightarrow> run_inv (shutdown env s)"
  by (simp add: shutdown_def Let_def run_inv_keep run_inv_emit finishCurrentRun_inv)

lemma initialize_inv [inv_intro]: "run_inv s \<Longrightarrow> run_inv (initialize env s)"
  by (simp add: initialize_def run_inv_keep)

lemma onBg_inv [inv_intro]:
  assumes "run_inv s"
  shows "run_inv (onBgChunk i d s)" "run_inv (onBgFinished env i s)" "run_inv (onBgError env i err s)" "run_inv (onRunTimeout env s)"
  using assms
  by (simp_all add: onBgChunk_def onBgFinished_def onReviewFinished_def onBgError_def onRunTimeout_def Let_def run_inv_keep
      run_inv_emit finishCurrentRun_inv onReviewError_inv drainQueue_inv doInsert_inv skipReport_inv endReview_inv)

lemma manual_inv [inv_intro]:
  assumes "run_inv s"
  shows "run_inv (snd (manualPost env r x s))" "run_inv (snd (manualDismiss r s))"
  using assms
  by (simp_all add: manualPost_def manualDismiss_def Let_def split_beta run_inv_keep run_inv_emit doInsert_inv split: option.splits)

lemma onScheduleTick_inv [inv_intro]: "run_inv s \<Longrightarrow> run_inv (onScheduleTick env s)"
  by (simp add: onScheduleTick_def drainQueue_inv fold_fire_inv)

lemma writeChange_frame [frame_simp, simp]:
  "core (snd (writeChange env cfg f o1 n1 s)) = core s" "hb_logRing (snd (writeChange env cfg f o1 n1 s)) = hb_logRing s"
  "hb_out (snd (writeChange env cfg f o1 n1 s)) = hb_out s" "hb_msgs (snd (writeChange env cfg f o1 n1 s)) = hb_msgs s"
  "hb_pendingPosts (snd (writeChange env cfg f o1 n1 s)) = hb_pendingPosts s"
  by (simp_all add: writeChange_def newUuidString_def Let_def split_beta)

lemma runTool_frame:
  "core (snd (runTool t env te args s)) = core s \<and> hb_logRing (snd (runTool t env te args s)) = hb_logRing s \<and>
   startedRuns (hb_out (snd (runTool t env te args s))) = startedRuns (hb_out s) \<and>
   endedRuns (hb_out (snd (runTool t env te args s))) = endedRuns (hb_out s) \<and>
   hb_msgs (snd (runTool t env te args s)) = hb_msgs s \<and> hb_pendingPosts (snd (runTool t env te args s)) = hb_pendingPosts s"
  by (cases t; simp add: runTool_def setHeartbeatGoal_def setHeartbeatSchedule_def setHeartbeatSurfaceCriteria_def
      enableHeartbeat_def disableHeartbeat_def Let_def split_beta rebuildSchedule_def split: sum.splits)

lemma runTool_inv [inv_intro]: "run_inv s \<Longrightarrow> run_inv (snd (runTool t env te args s))"
  by (rule run_inv_cong) (simp_all add: runTool_frame run_inv_log)

lemma hb_step_inv: "run_inv s \<Longrightarrow> run_inv (hb_step s a)"
  by (cases a) (auto simp: hb_step_def rebuildSchedule_def split: option.splits
      intro: onStreamFinalized_inv intro!: inv_intro)

interpretation heartbeats: invariant_machine "\<lambda>s. \<exists>d ms. s = new_service d ms" "\<lambda>_ _. True" hb_step run_inv
  by unfold_locales (auto simp: hb_step_inv)

end
