(* ===== verification/Heartbeat_Outcomes.thy ===== *)
theory Heartbeat_Outcomes
  imports Heartbeat_Laws Store_Laws
begin

text \<open>
  What the heartbeat service guarantees, and where it does not do what its header says: what the tick of the
  schedule starts, one run at a time, cancelling, reviews, and posts that waited for a stream.
\<close>

section \<open>What the tick starts\<close>

lemma due_cases:
  "isDue env cfg \<longleftrightarrow>
     (let sch = parseHeartbeatSchedule (hc_schedule cfg) in
      hs_valid sch \<and> hs_kind sch = KInterval \<and>
      (\<exists>last. hc_lastFireAt cfg = Some last \<and> last + hs_intervalMinutes sch * 60000 \<le> he_now env))"
proof -
  let ?sch = "parseHeartbeatSchedule (hc_schedule cfg)"
  show ?thesis
  proof (cases "hs_valid ?sch")
    case True
    then have ok: "schedule_ok ?sch" by (rule parsed_schedule_ok)
    show ?thesis
    proof (cases "aligned ?sch")
      case al: True
      then show ?thesis
        using next_fire_after [OF ok al]
        by (cases "nextFireTime ?sch (Some (he_now env)) (hc_lastFireAt cfg)") (auto simp: isDue_def Let_def aligned_def)
    next
      case False
      then show ?thesis using True ok
        by (cases "hs_kind ?sch")
          (auto simp: isDue_def Let_def nextFireTime_def addSecs_def aligned_def schedule_ok_def
            kHeartbeatMinIntervalMinutes_def split: option.splits)
    qed
  qed (simp add: isDue_def Let_def)
qed

text \<open>
  C29. A config is due at a tick exactly when its schedule is an interval and a last fire is recorded at
  least that interval ago. A daily, hourly or weekly schedule is never due, since its next time is always
  after now, and neither is an interval that has not fired yet.
\<close>

theorem due_iff_interval_elapsed:
  "isDue env cfg \<longleftrightarrow>
     (let sch = parseHeartbeatSchedule (hc_schedule cfg) in
      hs_valid sch \<and> hs_kind sch = KInterval \<and>
      (\<exists>last. hc_lastFireAt cfg = Some last \<and> last + hs_intervalMinutes sch * 60000 \<le> he_now env))"
  by (rule due_cases)

text \<open>A service that has started nothing and whose configs never fired.\<close>

definition dormant :: "hb_service \<Rightarrow> bool" where
  "dormant s \<longleftrightarrow> hb_phase s = NoPhase \<and> hb_runId s = [] \<and> q_fifo (hb_queue s) = [] \<and> startedRuns (hb_out s) = [] \<and>
     (\<forall>c \<in> set (hd_configs (hb_store s)). hc_lastFireAt c = None)"

lemma never_due: "hc_lastFireAt cfg = None \<Longrightarrow> \<not> isDue env cfg"
  by (simp add: due_cases Let_def)

lemma dormant_cong:
  "dormant s \<Longrightarrow> core t = core s \<Longrightarrow> startedRuns (hb_out t) = startedRuns (hb_out s) \<Longrightarrow>
     set (hd_configs (hb_store t)) \<subseteq> set (hd_configs (hb_store s)) \<Longrightarrow> dormant t"
  by (auto simp: dormant_def core_def)

lemma tick_dormant: "dormant s \<Longrightarrow> onScheduleTick env s = s"
proof -
  assume d: "dormant s"
  have "fold (fireConfig env) cs s = s" if "\<forall>c \<in> set cs. hc_lastFireAt c = None" for cs
    using that by (induction cs) (simp_all add: fireConfig_def never_due)
  moreover have "set (enabledConfigs (hb_store s)) \<subseteq> set (hd_configs (hb_store s))"
    by (auto simp: enabledConfigs_def Let_def)
  ultimately have "fold (fireConfig env) (enabledConfigs (hb_store s)) s = s"
    using d by (auto simp: dormant_def)
  then show ?thesis using d by (simp add: onScheduleTick_def dormant_def)
qed

definition unfired :: "hb_store \<Rightarrow> bool" where
  "unfired d \<longleftrightarrow> (\<forall>c \<in> set (hd_configs d). hc_lastFireAt c = None)"

lemma unfired_ops:
  assumes "unfired d"
  shows "hc_lastFireAt cfg = None \<Longrightarrow> unfired (snd (upsertConfig now cfg d))" "unfired (snd (upsertConfigMap now u f d))"
    "unfired (snd (updateConfig now cfg d))" "unfired (snd (deleteConfig i d))" "unfired (snd (Heartbeat_Config.onConversationDeleted i d))"
    "unfired (snd (onFolderDeleted i d))" "unfired (snd (recordChange now u i fd ov nv src d))" "hc_lastFireAt (configById d i) = None"
  using assms
  by (auto simp: unfired_def upsertConfig_def upsertConfigMap_def updateConfig_def deleteConfig_def Heartbeat_Config.onConversationDeleted_def
      onFolderDeleted_def recordChange_def removeConfigs_def mapConfig_def overwrite_def config_out_def Let_def configById_def
      no_config_def find_Some_iff split: option.splits)

lemma writeChange_unfired:
  "unfired (hb_store s) \<Longrightarrow> hc_lastFireAt cfg = None \<Longrightarrow> unfired (hb_store (snd (writeChange env cfg f ov nv s)))"
  by (simp add: writeChange_def Let_def split_beta newUuidString_def unfired_ops)

lemma runTool_unfired: "unfired (hb_store s) \<Longrightarrow> unfired (hb_store (snd (runTool t env te args s)))"
  by (cases t; simp add: runTool_def setHeartbeatGoal_def setHeartbeatSchedule_def setHeartbeatSurfaceCriteria_def
      enableHeartbeat_def disableHeartbeat_def Let_def split_beta rebuildSchedule_def writeChange_unfired unfired_ops
      split: sum.splits)

lemma dormant_iff:
  "dormant s \<longleftrightarrow> hb_phase s = NoPhase \<and> hb_runId s = [] \<and> q_fifo (hb_queue s) = [] \<and> startedRuns (hb_out s) = [] \<and>
     unfired (hb_store s)"
  by (simp add: dormant_def unfired_def)

lemma dormant_store: "dormant s \<Longrightarrow> unfired d \<Longrightarrow> dormant (s\<lparr>hb_store := d\<rparr>)"
  by (simp add: dormant_iff)

lemma post_dormant: "dormant s \<Longrightarrow> dormant (snd (doInsertAndCascade env r b c m s))"
  by (rule dormant_cong) (use doInsert_keeps [of env r b c m s] in auto)

lemma dormant_step:
  assumes "dormant s" and "\<And>env c. a \<noteq> OpRunNow env c"
  shows "dormant (hb_step s a)"
proof (cases a)
  case (OpStreamFinalized env m)
  show ?thesis
  proof (cases "onStreamFinalized env m s")
    case (Some t)
    have "dormant (u\<lparr>hb_pendingPosts := ps\<rparr>)" if "dormant u" for u ps using that by (simp add: dormant_def)
    then have "dormant t"
      by (rule onStreamFinalized_keeps [where P = dormant, OF Some assms(1)]) (simp_all add: post_dormant)
    then show ?thesis using Some OpStreamFinalized by (simp add: hb_step_def)
  qed (use assms OpStreamFinalized in \<open>simp add: hb_step_def\<close>)
next
  case (OpTool t env te args)
  have "core (snd (runTool t env te args s)) = core s" "startedRuns (hb_out (snd (runTool t env te args s))) = startedRuns (hb_out s)"
    using runTool_frame by blast+
  then show ?thesis using assms(1) OpTool runTool_unfired [of s t env te args]
    by (simp add: hb_step_def dormant_iff core_def)
next
  case (OpManualPost env r t)
  then show ?thesis using assms(1)
    by (auto simp: hb_step_def manualPost_def Let_def split_beta post_dormant split: option.splits)
next
  case (OpDismiss r)
  then show ?thesis using assms(1) by (auto simp: hb_step_def manualDismiss_def dormant_def split: option.splits)
next
  case (OpUpsertConfig now u f)
  then show ?thesis using assms(1) by (simp add: hb_step_def dormant_store dormant_iff unfired_ops)
qed (use assms in \<open>auto simp: hb_step_def tick_dormant dormant_iff initialize_def shutdown_def setGloballyPaused_def Let_def
    cancelRun_def onBgChunk_def onBgFinished_def onBgError_def onRunTimeout_def rebuildSchedule_def unfired_ops
    core_def disconnectFromRouter_def\<close>)

text \<open>
  C31. Left to itself the service starts nothing: from configs that have not fired yet, no sequence of ticks
  and other operations starts a run as long as nobody asks for one by runNow, whatever the schedules are and
  however much time passes.
\<close>

theorem nothing_starts_by_itself:
  assumes "\<forall>c \<in> set (hd_configs d). hc_lastFireAt c = None" and "\<forall>a \<in> set ops. \<forall>env c. a \<noteq> OpRunNow env c"
  shows "startedRuns (hb_out (foldl hb_step (new_service d ms) ops)) = []"
proof -
  have "dormant (foldl hb_step s ops)" if "dormant s" for s
    using assms(2) that by (induction ops arbitrary: s) (simp_all add: dormant_step)
  moreover have "dormant (new_service d ms)"
    using assms(1) by (simp add: dormant_def new_service_def new_queue_def)
  ultimately show ?thesis by (simp add: dormant_def)
qed

section \<open>One run at a time\<close>

text \<open>
  C28. After any sequence of operations the runs that ended are the runs that started, in the same order, but
  for at most the last one, which is the one in flight; the queue holds its config as the only one in flight,
  and the log keeps at most 200 lines.
\<close>

theorem one_run_at_a_time:
  "let s = foldl hb_step (new_service d ms) ops in
     startedRuns (hb_out s) = endedRuns (hb_out s) @ (if hb_phase s = Tier1 then [hb_runId s] else []) \<and>
     set (q_inflight (hb_queue s)) = (if hb_phase s = Tier1 then {hb_configId s} else {}) \<and>
     length (hb_logRing s) \<le> kLogRingCap"
proof -
  have "run_inv (foldl hb_step (new_service d ms) ops)"
    by (rule heartbeats.reachable_inv) auto
  then show ?thesis by (simp add: run_inv_def Let_def)
qed

text \<open>
  A tick leaves no work behind: afterwards the service is paused, or a run is in flight, or the queue is
  empty. Entries that cannot run (config gone, limit reached, no request, an error of the router) are
  recorded and the next one is tried.
\<close>

theorem tick_leaves_no_work:
  assumes "run_inv s"
  shows "let t = onScheduleTick env s in hb_paused t \<or> hb_runId t \<noteq> [] \<or> q_fifo (hb_queue t) = []"
proof -
  let ?s = "fold (fireConfig env) (enabledConfigs (hb_store s)) s"
  have i: "run_inv ?s" by (rule fold_fire_inv [OF assms])
  show ?thesis using drainQueue_idle [OF i] drainQueue_paused [OF i]
    by (auto simp: onScheduleTick_def Let_def)
qed

section \<open>The kill switch\<close>

lemma endRun_started [simp]: "startedRuns (hb_out (endRun env x s)) = startedRuns (hb_out s)"
  by (simp add: endRun_def Let_def)

lemma paused_finish:
  "hb_paused s \<Longrightarrow> finishCurrentRun env x s = (if hb_runId s = [] then s else endRun env x s)"
  by (simp add: finishCurrentRun_def Let_def reviewReport_def)

definition halted :: "string list \<Rightarrow> hb_service \<Rightarrow> bool" where
  "halted rs s \<longleftrightarrow> hb_paused s \<and> startedRuns (hb_out s) = rs"

lemma halted_cong: "halted rs s \<Longrightarrow> core t = core s \<Longrightarrow> startedRuns (hb_out t) = startedRuns (hb_out s) \<Longrightarrow> halted rs t"
  by (simp add: halted_def core_def)

lemma halted_ops:
  assumes "halted rs s"
  shows "halted rs (snd (doInsertAndCascade env r b c m s))" "halted rs (skipReport i s)" "halted rs (hb_emit BackgroundCancelled s)"
    "halted rs (finishCurrentRun env x s)" "halted rs (endReview s)" "halted rs (disconnectFromRouter s)" "halted rs (mapReport i f s)"
    "halted rs (drainQueue env s)" "halted rs (updateReportSurface i x1 x2 x3 s)" "halted rs (snd (runTool t env te args s))"
    "halted rs (hb_emit (SurfaceDecision y1 y2 y3) s)" "halted rs (snd (takeOut env r es s))" "halted rs (hb_emit (ScheduleChanged i) s)"
proof -
  note keep = halted_cong [OF assms]
  show "halted rs (snd (doInsertAndCascade env r b c m s))" by (rule keep) (use doInsert_keeps [of env r b c m s] in auto)
  show "halted rs (skipReport i s)" by (rule keep) (simp_all add: skipReport_def)
  show "halted rs (snd (runTool t env te args s))" by (rule keep) (use runTool_frame in blast)+
  show "halted rs (snd (takeOut env r es s))"
    using assms takeOut_frame [of env r es s] by (auto simp: halted_def core_def)
qed (use assms in \<open>simp_all add: halted_def paused_finish core_def disconnectFromRouter_def\<close>)

lemma halted_step:
  assumes "halted rs s" and "\<And>env. a \<noteq> OpPause env False"
  shows "halted rs (hb_step s a)"
proof (cases a)
  case (OpStreamFinalized env m)
  show ?thesis
  proof (cases "onStreamFinalized env m s")
    case (Some t)
    have "halted rs (u\<lparr>hb_pendingPosts := ps\<rparr>)" if "halted rs u" for u ps using that by (simp add: halted_def)
    then have "halted rs t"
      by (rule onStreamFinalized_keeps [where P = "halted rs", OF Some assms(1)]) (simp_all add: halted_ops)
    then show ?thesis using Some OpStreamFinalized by (simp add: hb_step_def)
  qed (use assms OpStreamFinalized in \<open>simp add: hb_step_def\<close>)
next
  case (OpShutdown env)
  have "halted rs (s\<lparr>hb_scheduleTimer := False, hb_runTimer := False\<rparr>)" using assms by (simp add: halted_def)
  then show ?thesis using OpShutdown by (simp add: hb_step_def shutdown_def Let_def halted_ops)
next
  case (OpPause env p)
  then show ?thesis using assms by (cases p) (auto simp: hb_step_def setGloballyPaused_def halted_def)
next
  case (OpCancel env r)
  have "halted rs (t\<lparr>hb_queue := q\<rparr>)" if "halted rs t" for t q using that by (simp add: halted_def)
  then show ?thesis using assms OpCancel by (simp add: hb_step_def cancelRun_def split_beta halted_ops)
next
  case (OpFinished env i)
  then show ?thesis using assms
    by (auto simp: hb_step_def onBgFinished_def onReviewFinished_def Let_def halted_ops)
next
  case (OpError env i err)
  then show ?thesis using assms by (auto simp: hb_step_def onBgError_def onReviewError_def halted_ops)
next
  case (OpTimeout env)
  then show ?thesis using assms by (auto simp: hb_step_def onRunTimeout_def halted_ops)
next
  case (OpManualPost env r t)
  then show ?thesis using assms
    by (auto simp: hb_step_def manualPost_def Let_def split_beta halted_ops split: option.splits)
next
  case (OpDismiss r)
  then show ?thesis using assms by (auto simp: hb_step_def manualDismiss_def halted_ops split: option.splits)
next
  case (OpTool t env te args)
  then show ?thesis using assms by (simp add: hb_step_def halted_ops)
next
  case (OpRunNow env c)
  then show ?thesis using assms by (simp add: hb_step_def runNow_def halted_def)
next
  case (OpTick env)
  then show ?thesis using assms by (simp add: hb_step_def onScheduleTick_def halted_def)
qed (use assms in \<open>auto simp: hb_step_def halted_def initialize_def onBgChunk_def rebuildSchedule_def\<close>)

text \<open>
  While the service is paused no run starts, whatever is done but unpausing it.
\<close>

theorem no_run_while_paused:
  assumes "hb_paused s" and "\<forall>a \<in> set ops. \<forall>env. a \<noteq> OpPause env False"
  shows "hb_paused (foldl hb_step s ops) \<and> startedRuns (hb_out (foldl hb_step s ops)) = startedRuns (hb_out s)"
proof -
  have "halted rs (foldl hb_step s ops)" if "halted rs s" for rs s
    using assms(2) that by (induction ops arbitrary: s) (simp_all add: halted_step)
  from this [of "startedRuns (hb_out s)" s] show ?thesis using assms(1) by (simp add: halted_def)
qed

section \<open>Cancelling\<close>

text \<open>
  Cancelling a run that is still queued takes exactly its entries out of the queue and leaves the order of
  the others, the run in flight and the review as they were: taking every entry out and putting the others
  back one by one, each checked against the queue's limits, amounts to a filter.
\<close>

theorem cancel_queued_is_filter:
  assumes "run_inv s" and "int (length (q_fifo (hb_queue s))) \<le> q_softCap (hb_queue s)" and "r \<noteq> []" and "hb_runId s \<noteq> r"
  shows "hb_queue (cancelRun env r s) = (hb_queue s)\<lparr>q_fifo := filter (\<lambda>e. qe_runId e \<noteq> r) (q_fifo (hb_queue s))\<rparr> \<and>
    snd (core (cancelRun env r s)) = snd (core s) \<and> hb_out (cancelRun env r s) = hb_out s"
proof -
  have q: "queue_inv (hb_queue s)" using assms(1) by (simp add: run_inv_def)
  have f: "fst (takeOut env r (q_fifo (hb_queue s)) s) = filter (\<lambda>e. qe_runId e \<noteq> r) (q_fifo (hb_queue s))"
    "snd (core (snd (takeOut env r (q_fifo (hb_queue s)) s))) = snd (core s)"
    "hb_out (snd (takeOut env r (q_fifo (hb_queue s)) s)) = hb_out s"
    using takeOut_frame by blast+
  show ?thesis using assms(3,4) f put_back_all [OF q assms(2)]
    by (simp add: cancelRun_def split_beta takeOut_queue [OF refl] core_def)
qed

text \<open>
  Pausing the service ends the run in flight, keeps the queue for later, and leaves every row of a report
  as it is: the row of the run that was cut off stays pending, and does not count as a run of the day.
\<close>

theorem pause_ends_run_without_record:
  assumes "run_inv s" and "\<not> hb_paused s" and "hb_runId s \<noteq> []"
  shows "let t = setGloballyPaused env True s in
    hb_runId t = [] \<and> hb_phase t = NoPhase \<and> q_fifo (hb_queue t) = q_fifo (hb_queue s) \<and>
    hd_reports (hb_store t) = hd_reports (hb_store s) \<and>
    runsInLast24h env (hb_store t) c = runsInLast24h env (hb_store s) c"
proof -
  let ?s = "hb_emit GloballyPausedChanged (s\<lparr>hb_paused := True\<rparr>)"
  have "setGloballyPaused env True s = endRun env ''cancelled'' (hb_emit BackgroundCancelled ?s)"
    using assms by (simp add: setGloballyPaused_def Let_def cancelRun_def paused_finish)
  then show ?thesis by (simp add: Let_def updateLastFire_def mapConfig_def runsInLast24h_def)
qed

text \<open>
  Shutting down drains the queue like the end of any run: afterwards either a new run is in flight or
  nothing is left in the queue.
\<close>

theorem shutdown_drains:
  assumes "run_inv s" and "\<not> hb_paused s" and "hb_runId s \<noteq> []"
  shows "hb_runId (shutdown env s) \<noteq> [] \<or> q_fifo (hb_queue (shutdown env s)) = []"
proof -
  let ?t = "hb_emit BackgroundCancelled (s\<lparr>hb_scheduleTimer := False, hb_runTimer := False\<rparr>)"
  have i: "run_inv ?t" using assms(1) by (simp add: run_inv_emit run_inv_keep)
  have "hb_phase ?t = Tier1" using assms(1,3) by (simp add: run_inv_def)
  from drainQueue_idle [OF endRun_inv [OF i this]]
  show ?thesis using assms(2,3) by (simp add: shutdown_def finishCurrentRun_def Let_def)
qed

section \<open>Reviews\<close>

text \<open>
  A report goes to its review only for a config that exists, while the service is not paused, into a
  conversation that allows it, and below that conversation's limit of posts a day.
\<close>

theorem review_needs_leave:
  assumes "hb_phase s \<noteq> Tier2" and "hb_phase (reviewReport env r c s) = Tier2"
  shows "\<not> hb_paused s \<and> validConfig (configById (hb_store s) c) \<and>
    (\<exists>v. he_conversation env (surfaceTarget (configById (hb_store s) c)) = Some v \<and> hv_allowAutoSurface v \<and>
      0 < hv_autoSurfaceMaxPerDay v \<and>
      (hd_up (hb_store s) \<longrightarrow> autoPostsInLast24h env s (surfaceTarget (configById (hb_store s) c)) < hv_autoSurfaceMaxPerDay v))"
  using assms
  by (auto simp: reviewReport_def isAutoSurfaceRateLimited_def Let_def split: if_splits option.splits)

text \<open>
  The time limit of a run does not apply to a review: while a review is in flight the timer's shot
  changes nothing.
\<close>

theorem review_never_times_out:
  "run_inv s \<Longrightarrow> hb_phase s = Tier2 \<Longrightarrow> onRunTimeout env s = s"
  by (auto simp: onRunTimeout_def run_inv_def)

text \<open>
  A review in flight does not hold the background slot: a run asked for by the user takes it at once, and
  the reply to the review, when it comes, is ignored.
\<close>

theorem run_displaces_review:
  assumes "run_inv s" and "hb_phase s = Tier2" and "snd (runNow env c s) = t" and "hb_runId t \<noteq> []"
    and "hb_requestId t \<noteq> hb_requestId s"
  shows "hb_phase t = Tier1 \<and> onBgFinished env2 (hb_requestId s) t = t \<and> onBgChunk (hb_requestId s) d t = t"
proof -
  have "run_inv t" using runNow_inv [OF assms(1), of env c] assms(3) by simp
  then show ?thesis using assms(4,5) by (auto simp: run_inv_def onBgFinished_def onBgChunk_def)
qed

lemma find_map_id:
  "(\<And>x. hr_id (f x) = hr_id x) \<Longrightarrow> find (\<lambda>r. hr_id r = i) (map f rs) = map_option f (find (\<lambda>r. hr_id r = i) rs)"
  by (induction rs) auto

text \<open>
  The reply [SKIP] to a review sets the report aside as skipped by the agent, whatever became of it in
  the meantime: a report the user has posted by hand loses that state and the id of its message.
\<close>

theorem review_overrides_user:
  assumes "hb_phase s = Tier2" and "hb_reviewReportId s = r" and "r \<noteq> []" and "containsCI kSkip (hb_accumulator s)"
    and "q_fifo (hb_queue s) = []" and "reportById (hb_store s) r = Some rep"
  shows "reportById (hb_store (onBgFinished env (hb_requestId s) s)) r =
    Some (rep\<lparr>hr_parentReviewStatus := ''reviewed'', hr_surfaceStatus := ''skipped_by_agent'', hr_surfacedMessageId := []\<rparr>)"
proof -
  have up: "hd_up (hb_store s)" and f: "find (\<lambda>x. hr_id x = r) (hd_reports (hb_store s)) = Some rep"
    using assms(6) by (simp_all add: reportById_def split: if_splits)
  have i: "hr_id rep = r" using f by (auto simp: find_Some_iff)
  have "onBgFinished env (hb_requestId s) s = skipReport r (endReview s)"
    using assms by (simp add: onBgFinished_def onReviewFinished_def)
  then show ?thesis using assms(3) up f i
    by (simp add: skipReport_def updateReportSurface_def mapReport_def reportById_def find_map_id)
qed

section \<open>Posts that waited for a stream\<close>

lemma post_keeps_waiting:
  "\<not> isStreaming env s c \<Longrightarrow> hb_pendingPosts (snd (doInsertAndCascade env r b c m s)) = hb_pendingPosts s"
  by (simp add: doInsertAndCascade_def Let_def newUuidString_def split_beta split: option.split)

lemma posts_update: "valueOr (AList.update c ps m) c [] = ps"
  by (simp add: valueOr_def update_conv')

lemma deferred_again:
  assumes "isStreaming env s c" and "c \<noteq> []" and "pp_reportId p \<noteq> []" and "pp_postBody p \<noteq> []"
    and "valueOr (hb_pendingPosts s) c [] = p # ps"
  shows "snd (doInsertAndCascade env (pp_reportId p) (pp_postBody p) c (pp_mode p)
      (s\<lparr>hb_pendingPosts := AList.update c ps (hb_pendingPosts s)\<rparr>)) =
    s\<lparr>hb_pendingPosts := AList.update c (ps @ [p]) (hb_pendingPosts s)\<rparr>"
  using assms by (cases p) (simp add: doInsertAndCascade_def isStreaming_def deferPost_def posts_update)

text \<open>
  C32. The loop over the posts that waited for a conversation's stream never ends while that conversation
  still counts as streaming: each post is put back at the end of the very list the loop empties.
\<close>

theorem drain_spins_while_streaming:
  assumes "isStreaming env s c" and "c \<noteq> []" and "valueOr (hb_pendingPosts s) c [] \<noteq> []"
    and "\<forall>p \<in> set (valueOr (hb_pendingPosts s) c []). pp_reportId p \<noteq> [] \<and> pp_postBody p \<noteq> []"
  shows "drainPosts env c s = None"
proof (rule ccontr)
  define ready where "ready = (\<lambda>env c s. isStreaming env s c \<and> c \<noteq> [] \<and> valueOr (hb_pendingPosts s) c [] \<noteq> [] \<and>
    (\<forall>p \<in> set (valueOr (hb_pendingPosts s) c []). pp_reportId p \<noteq> [] \<and> pp_postBody p \<noteq> []))"
  assume "drainPosts env c s \<noteq> None"
  then obtain t where "drainPosts env c s = Some t" by blast
  then have "\<not> ready env c s"
  proof (rule drainPosts.raw_induct [of "\<lambda>env c s t. \<not> ready env c s" env c s t, rotated], goal_cases)
    case (1 f env c s t)
    show ?case
    proof
      assume r: "ready env c s"
      then obtain p ps where v: "valueOr (hb_pendingPosts s) c [] = p # ps" by (auto simp: ready_def neq_Nil_conv)
      let ?u = "s\<lparr>hb_pendingPosts := AList.update c (ps @ [p]) (hb_pendingPosts s)\<rparr>"
      have "f env c ?u = Some t" using 1(2) r v deferred_again [OF _ _ _ _ v, of env] by (simp add: ready_def)
      from 1(1) [OF this] show False using r v by (auto simp: ready_def isStreaming_def posts_update)
    qed
  qed
  then show False using assms by (simp add: ready_def)
qed

text \<open>
  When the conversation does not stream, the loop returns, and no post of the conversation waits any more.
\<close>

theorem drain_returns_when_idle:
  assumes "\<And>es. \<not> (he_hasChat env \<and> he_streaming env es c)"
  shows "\<exists>t. drainPosts env c s = Some t \<and> map_of (hb_pendingPosts t) c = None"
proof -
  have "\<exists>t. drainPosts env c s = Some t \<and> map_of (hb_pendingPosts t) c = None" if "valueOr (hb_pendingPosts s) c [] = ps" for ps
    using that
  proof (induction ps arbitrary: s)
    case Nil
    then show ?case by (subst drainPosts.simps) (simp add: delete_conv')
  next
    case (Cons p ps)
    let ?u = "snd (doInsertAndCascade env (pp_reportId p) (pp_postBody p) c (pp_mode p)
      (s\<lparr>hb_pendingPosts := AList.update c ps (hb_pendingPosts s)\<rparr>))"
    have "hb_pendingPosts ?u = AList.update c ps (hb_pendingPosts s)"
      using assms by (simp add: post_keeps_waiting isStreaming_def)
    then have "valueOr (hb_pendingPosts ?u) c [] = ps" by (simp add: posts_update)
    from Cons.IH [OF this] show ?case using Cons.prems by (subst drainPosts.simps) simp
  qed
  then show ?thesis by blast
qed

section \<open>The tools of an agent\<close>

lemma find_mapConfig:
  "(\<And>x. hc_id (f x) = hc_id x) \<Longrightarrow>
    find (\<lambda>c. hc_id c = i) (map (\<lambda>c. if hc_id c = i then f c else c) cs) = map_option f (find (\<lambda>c. hc_id c = i) cs)"
  by (induction cs) auto

lemma configById_valid:
  assumes "validConfig (configById d i)"
  shows "hd_up d" "i \<noteq> []" "find (\<lambda>c. hc_id c = i) (hd_configs d) = Some (configById d i)" "hc_id (configById d i) = i" "hasConfig i d"
proof -
  have v: "hd_up d" "i \<noteq> []" "find (\<lambda>c. hc_id c = i) (hd_configs d) = Some (configById d i)"
    using assms by (auto simp: configById_def validConfig_def no_config_def split: if_splits option.splits)
  then show "hd_up d" "i \<noteq> []" "find (\<lambda>c. hc_id c = i) (hd_configs d) = Some (configById d i)" by blast+
  show "hc_id (configById d i) = i" "hasConfig i d" using v(3) by (auto simp: find_Some_iff hasConfig_def)
qed

lemma recordChange_frame:
  "hd_configs (snd (recordChange now u i f ov nv src d)) = hd_configs d" "hd_up (snd (recordChange now u i f ov nv src d)) = hd_up d"
  by (simp_all add: recordChange_def)

text \<open>Writing a changed copy of a config that exists.\<close>

lemma writeChange_existing:
  assumes "validConfig (configById (hb_store s) i)" and "hc_id cfg = i" and "hc_agentId cfg \<noteq> []" and "hc_scopeId cfg \<noteq> []"
  shows "fst (writeChange env cfg f ov nv s)"
    and "configById (hb_store (snd (writeChange env cfg f ov nv s))) i =
      overwrite (cfg\<lparr>hc_updatedAt := Some (he_utc env)\<rparr>) (configById (hb_store s) i)"
    and "f \<noteq> [] \<Longrightarrow> he_uuid env (hb_fresh s) \<notin> hg_id ` set (hd_changes (hb_store s)) \<Longrightarrow>
      hd_changes (hb_store (snd (writeChange env cfg f ov nv s))) = hd_changes (hb_store s) @
        [\<lparr>hg_id = he_uuid env (hb_fresh s), hg_configId = i, hg_changedAt = he_utc env, hg_field = f,
          hg_oldValue = ov, hg_newValue = nv, hg_source = ''agent''\<rparr>]"
proof -
  note v = configById_valid [OF assms(1)]
  have i: "i \<noteq> []" by (rule v(2))
  let ?c = "cfg\<lparr>hc_createdAt := Some (case hc_createdAt cfg of Some t \<Rightarrow> t | None \<Rightarrow> he_utc env), hc_updatedAt := Some (he_utc env)\<rparr>"
  have u: "upsertConfig (he_utc env) cfg (hb_store s) =
    (i, config_out (ConfigChanged i) (mapConfig i (overwrite ?c) (hb_store s)))"
    using assms v by (simp add: upsertConfig_def Let_def)
  have h: "hasConfig i (mapConfig i g d) = hasConfig i d" if "\<And>x. hc_id (g x) = hc_id x" for g d
  proof -
    have "map hc_id (hd_configs (mapConfig i g d)) = map hc_id (hd_configs d)" using that by (simp add: mapConfig_def)
    then have "hc_id ` set (hd_configs (mapConfig i g d)) = hc_id ` set (hd_configs d)" by (metis list.set_map)
    then show ?thesis by (simp add: hasConfig_def)
  qed
  have o': "overwrite ?c = overwrite (cfg\<lparr>hc_updatedAt := Some (he_utc env)\<rparr>)" by (simp add: overwrite_def fun_eq_iff)
  show "fst (writeChange env cfg f ov nv s)" using u i by (simp add: writeChange_def Let_def split_beta)
  show "configById (hb_store (snd (writeChange env cfg f ov nv s))) i =
      overwrite (cfg\<lparr>hc_updatedAt := Some (he_utc env)\<rparr>) (configById (hb_store s) i)"
  proof -
    let ?o = "overwrite (cfg\<lparr>hc_updatedAt := Some (he_utc env)\<rparr>)" and ?d = "hb_store (snd (writeChange env cfg f ov nv s))"
    have d: "hd_up ?d" "hd_configs ?d = map (\<lambda>c. if hc_id c = i then ?o c else c) (hd_configs (hb_store s))"
      using u i v(1) unfolding o'
      by (simp_all add: writeChange_def Let_def split_beta newUuidString_def recordChange_frame config_out_def mapConfig_def)
    have "find (\<lambda>c. hc_id c = i) (hd_configs ?d) = Some (?o (configById (hb_store s) i))"
      unfolding d(2) by (subst find_mapConfig) (simp_all add: overwrite_def v(3))
    then show ?thesis using d(1) i by (simp add: configById_def [of ?d])
  qed
  show "hd_changes (hb_store (snd (writeChange env cfg f ov nv s))) = hd_changes (hb_store s) @
        [\<lparr>hg_id = he_uuid env (hb_fresh s), hg_configId = i, hg_changedAt = he_utc env, hg_field = f,
          hg_oldValue = ov, hg_newValue = nv, hg_source = ''agent''\<rparr>]"
    if "f \<noteq> []" "he_uuid env (hb_fresh s) \<notin> hg_id ` set (hd_changes (hb_store s))"
  proof -
    let ?d = "config_out (ConfigChanged i) (mapConfig i (overwrite ?c) (hb_store s))"
    have "hasConfig i ?d" "hd_up ?d" "hd_changes ?d = hd_changes (hb_store s)"
      using h [of "overwrite ?c" "hb_store s"] v(1,5) by (simp_all add: overwrite_def config_out_def hasConfig_def) (simp_all add: mapConfig_def)
    then show ?thesis using u i that assms(2)
      by (simp add: writeChange_def Let_def split_beta newUuidString_def recordChange_def)
  qed
qed

text \<open>
  The tool that sets the goal writes the goal and nothing else of the agent's own config, with an audit
  row of the old and the new text, whether or not the user has let the agent configure itself.
\<close>

theorem goal_tool_writes_goal:
  assumes "resolveContext env te args s = Inr i" and "validConfig (configById (hb_store s) i)"
    and "trimmed (hbArg args ''text'') \<noteq> []" and "hc_goal (configById (hb_store s) i) \<noteq> trimmed (hbArg args ''text'')"
    and "he_uuid env (hb_fresh s) \<notin> hg_id ` set (hd_changes (hb_store s))"
  shows "fst (setHeartbeatGoal env te args s) = Inr (Changed i ''goal'') \<and>
    configById (hb_store (snd (setHeartbeatGoal env te args s))) i =
      (configById (hb_store s) i)\<lparr>hc_goal := trimmed (hbArg args ''text''), hc_updatedAt := Some (he_utc env)\<rparr> \<and>
    hd_changes (hb_store (snd (setHeartbeatGoal env te args s))) = hd_changes (hb_store s) @
      [\<lparr>hg_id = he_uuid env (hb_fresh s), hg_configId = i, hg_changedAt = he_utc env, hg_field = ''goal'',
        hg_oldValue = hc_goal (configById (hb_store s) i), hg_newValue = trimmed (hbArg args ''text''), hg_source = ''agent''\<rparr>]"
proof -
  let ?cfg = "configById (hb_store s) i"
  let ?new = "?cfg\<lparr>hc_goal := trimmed (hbArg args ''text'')\<rparr>"
  have w: "hc_id ?new = i" "hc_agentId ?new \<noteq> []" "hc_scopeId ?new \<noteq> []"
    using configById_valid [OF assms(2)] assms(2) by (simp_all add: validConfig_def)
  note c = writeChange_existing [OF assms(2) w]
  have "setHeartbeatGoal env te args s = (Inr (Changed i ''goal''),
      snd (writeChange env ?new ''goal'' (hc_goal ?cfg) (trimmed (hbArg args ''text'')) s))"
    using assms c(1) by (simp add: setHeartbeatGoal_def Let_def split_beta)
  then show ?thesis using c(2) c(3) [OF _ assms(5)] by (simp add: overwrite_def)
qed

section \<open>The text of a report\<close>

lemma splitAt_aux_join:
  "c \<notin> set s \<Longrightarrow> splitAt_aux c (s @ t) acc = splitAt_aux c t (rev s @ acc)"
  by (induction s arbitrary: acc) auto

lemma splitAt_joinWith:
  "\<forall>l \<in> set ls. c \<notin> set l \<Longrightarrow> ls \<noteq> [] \<Longrightarrow> splitAt c (joinWith [c] ls) = ls"
proof (induction ls rule: induct_list012)
  case (2 x)
  then show ?case using splitAt_aux_join [of c x "[]" "[]"] by (simp add: splitAt_def)
next
  case (3 x y zs)
  then show ?case using splitAt_aux_join [of c x "c # joinWith [c] (y # zs)" "[]"] by (simp add: splitAt_def)
qed simp

text \<open>A line of a section: it has no label, no line break and no carriage return at its end.\<close>

definition plain_line :: "string \<Rightarrow> bool" where
  "plain_line l \<longleftrightarrow> labelOnLine l = [] \<and> CHR 0x0A \<notin> set l \<and> \<not> endsWithC l (CHR 0x0D)"

lemma take_plain:
  "\<forall>l \<in> set ls. plain_line l \<Longrightarrow> se_current a = ''RESULTS'' \<Longrightarrow> fold takeLine ls a = a\<lparr>se_body := se_body a @ ls\<rparr>"
  "\<forall>l \<in> set ls. plain_line l \<Longrightarrow> se_current a = ''SUMMARY'' \<Longrightarrow> fold takeLine ls a = a\<lparr>se_summary := se_summary a @ ls\<rparr>"
  by (induction ls arbitrary: a) (simp_all add: plain_line_def takeLine_def flush_def)

lemma take_title:
  assumes "trimmed t = t" and "t \<noteq> []"
  shows "takeLine (''TITLE: '' @ t) a = a\<lparr>se_current := ''TITLE'', se_title := se_title a @ [t]\<rparr>"
proof -
  have "labelOnLine (''TITLE: '' @ t) = ''TITLE''" by (simp add: labelOnLine_def labelMatches_def eqCI_def)
  moreover have "contentAfterLabel (''TITLE: '' @ t) = CHR '' '' # t"
    by (simp add: contentAfterLabel_def indexOfC_def)
  moreover have "trimmed (CHR '' '' # t) = t" using assms(1) by (simp add: trimmed_def isSpaceC_def code_def Let_def)
  ultimately show ?thesis using assms(2) by (simp add: takeLine_def flush_def Let_def)
qed

lemma take_labels:
  "takeLine ''RESULTS:'' a = a\<lparr>se_current := ''RESULTS''\<rparr>" "takeLine ''SUMMARY:'' a = a\<lparr>se_current := ''SUMMARY''\<rparr>"
proof -
  have "labelOnLine ''RESULTS:'' = ''RESULTS''" "labelOnLine ''SUMMARY:'' = ''SUMMARY''"
    "contentAfterLabel ''RESULTS:'' = []" "contentAfterLabel ''SUMMARY:'' = []" by code_simp+
  then show "takeLine ''RESULTS:'' a = a\<lparr>se_current := ''RESULTS''\<rparr>" "takeLine ''SUMMARY:'' a = a\<lparr>se_current := ''SUMMARY''\<rparr>"
    unfolding takeLine_def Let_def by (simp_all add: trimmed_def)
qed

definition reportText :: "string \<Rightarrow> string list \<Rightarrow> string list \<Rightarrow> string" where
  "reportText t bs ss = joinWith [CHR 0x0A] ([''TITLE: '' @ t, ''RESULTS:''] @ bs @ [''SUMMARY:''] @ ss)"

text \<open>
  C34. The parser reads back a report written in the format a run is asked for: the title, the lines of the
  results and the lines of the summary, blanks at the ends aside. A title over 100 characters is cut off.
\<close>

theorem report_reads_back:
  assumes "trimmed t = t" and "t \<noteq> []" and "CHR 0x0A \<notin> set t" and "\<not> endsWithC t (CHR 0x0D)"
    and "\<forall>l \<in> set bs \<union> set ss. plain_line l" and "trimmed (joinWith [CHR 0x0A] bs) \<noteq> [] \<or> trimmed (joinWith [CHR 0x0A] ss) \<noteq> []"
  shows "parseHeartbeatReport (reportText t bs ss) =
    \<lparr>pr_title = take 100 t, pr_body = trimmed (joinWith [CHR 0x0A] bs), pr_summary = trimmed (joinWith [CHR 0x0A] ss), pr_valid = True\<rparr>"
proof -
  let ?ls = "[''TITLE: '' @ t, ''RESULTS:''] @ bs @ [''SUMMARY:''] @ ss"
  let ?a0 = "\<lparr>se_current = [], se_title = [], se_body = [], se_summary = []\<rparr>"
  have "\<forall>l \<in> set ?ls. CHR 0x0A \<notin> set l" using assms(3,5) by (auto simp: plain_line_def)
  then have split: "splitAt (CHR 0x0A) (reportText t bs ss) = ?ls" unfolding reportText_def by (rule splitAt_joinWith) simp
  have "chopCR l = l" if "l \<in> set ?ls" for l
    using that assms(2,4,5) by (auto simp: chopCR_def plain_line_def endsWithC_def)
  then have chop: "map chopCR ?ls = ?ls" by (rule map_idI)
  have f: "fold takeLine ?ls ?a0 = \<lparr>se_current = ''SUMMARY'', se_title = [t], se_body = bs, se_summary = ss\<rparr>"
    using assms(5) by (simp add: take_title [OF assms(1,2), simplified] take_labels take_plain)
  have ne: "reportText t bs ss \<noteq> []" by (simp add: reportText_def)
  show ?thesis
    using assms(1,6) unfolding parseHeartbeatReport_def sectionsOf_def split chop f by (simp add: ne Let_def)
qed

text \<open>What a row says of the run itself.\<close>

definition ran :: "hb_report \<Rightarrow> string \<times> string \<times> string \<times> string \<times> string" where
  "ran r = (hr_id r, hr_outcome r, hr_title r, hr_body r, hr_summary r)"

lemma surface_keeps_ran [simp]:
  "map ran (hd_reports (hb_store (updateReportSurface i a b c s))) = map ran (hd_reports (hb_store s))"
  by (simp add: updateReportSurface_def mapReport_def ran_def)

lemma skip_gate_ran [simp]:
  "map ran (hd_reports (hb_store (skipReport i s))) = map ran (hd_reports (hb_store s))"
  "map ran (hd_reports (hb_store (gateReport i x s))) = map ran (hd_reports (hb_store s))"
  by (simp_all add: skipReport_def gateReport_def)

lemma review_keeps_ran:
  assumes "q_fifo (hb_queue s) = []"
  shows "map ran (hd_reports (hb_store (reviewReport env r c s))) = map ran (hd_reports (hb_store s)) \<and>
    q_fifo (hb_queue (reviewReport env r c s)) = []"
  using assms by (auto simp: reviewReport_def onReviewError_def Let_def split: option.split)

text \<open>
  C33. An answer of which the title, the results or the summary is missing is not recorded: when the run ends
  its row still has the outcome, the title, the body and the summary it had when the run started.
\<close>

theorem incomplete_answer_not_recorded:
  assumes "hb_phase s = Tier1" and "hb_runId s \<noteq> []" and "q_fifo (hb_queue s) = []" and "hasNullText (hb_accumulator s)"
  shows "map ran (hd_reports (hb_store (onBgFinished env (hb_requestId s) s))) = map ran (hd_reports (hb_store s))"
proof -
  have "hd_reports (hb_store (endRun env x s)) = hd_reports (hb_store s)" "q_fifo (hb_queue (endRun env x s)) = []" for x
    using assms(3) by (simp_all add: updateLastFire_def mapConfig_def)
  then show ?thesis using assms review_keeps_ran [of "endRun env ''success'' s" env "hb_runId s" "hb_configId s"]
    by (simp add: onBgFinished_def Let_def finishCurrentRun_def)
qed

section \<open>Inputs of the witnesses\<close>

definition demo_config :: hb_config where
  "demo_config = no_config\<lparr>hc_id := ''c1'', hc_agentId := ''ann'', hc_scopeType := ConversationGroup, hc_scopeId := ''v'', hc_alias := ''Ann'',
     hc_enabled := True, hc_schedule := ''@interval 15'', hc_goal := ''watch'', hc_lastFireAt := Some 0\<rparr>"

definition demo_hb_store :: hb_store where
  "demo_hb_store = \<lparr>hd_up = True, hd_agents = [''ann''], hd_configs = [demo_config, demo_config\<lparr>hc_id := ''c2'', hc_alias := ''Bob''\<rparr>],
     hd_reports = [], hd_changes = [], hd_out = []\<rparr>"

definition demo_hb_env :: hb_env where
  "demo_hb_env = \<lparr>he_now = 3600000, he_utc = 7, he_uuid = (\<lambda>n. CHR ''u'' # replicate n CHR ''i''),
     he_agent = (\<lambda>i. \<lparr>ha_id = i, ha_name = ''Ann'', ha_systemPrompt = ''Be kind.'', ha_modelProvider = [], ha_modelName = []\<rparr>),
     he_conversation = (\<lambda>c. if c = ''v'' then Some \<lparr>hv_folderId = [], hv_isGroup = True, hv_allowAutoSurface = True, hv_autoSurfaceMaxPerDay = 3\<rparr> else None),
     he_listConversations = (\<lambda>f. []), he_skillsForFolder = (\<lambda>f. \<lparr>rs_preferredSkillIds = [], rs_exposeOnly = False\<rparr>),
     he_skillsForConversation = (\<lambda>c. \<lparr>rs_preferredSkillIds = [], rs_exposeOnly = False\<rparr>), he_skill = (\<lambda>i. None), he_tools = [],
     he_activeProvider = ''p'', he_activeModel = ''m'', he_bgProvider = (\<lambda>p. True), he_send = (\<lambda>r. None), he_hasChat = True,
     he_streaming = (\<lambda>es c. c = ''busy''), he_hasCascade = True\<rparr>"

definition demo_idle :: hb_service where
  "demo_idle = new_service demo_hb_store demo_store"

text \<open>A run in flight and another one in the queue.\<close>

definition demo_running :: hb_service where
  "demo_running = snd (runNow demo_hb_env ''c2'' (snd (runNow demo_hb_env ''c1'' demo_idle)))"

lemma demo_running_inv: "run_inv demo_running"
  by (simp add: demo_running_def demo_idle_def runNow_inv)

lemma demo_running_facts: "hb_runId demo_running = ''u''" "hb_paused demo_running = False" 
   "map qe_runId (q_fifo (hb_queue demo_running)) = [''ui'']"
  by code_simp+

definition demo_reviewing :: hb_service where
  "demo_reviewing = onBgChunk 7 kSkip (onBgFinished demo_hb_env 7 (snd (runNow demo_hb_env ''c1'' demo_idle)))"

lemma demo_reviewing_inv: "run_inv demo_reviewing"
  by (simp add: demo_reviewing_def demo_idle_def runNow_inv onBg_inv)

lemma demo_reviewing_facts:
  "hb_phase demo_reviewing = Tier2" "hb_reviewReportId demo_reviewing = ''u''" "containsCI kSkip (hb_accumulator demo_reviewing)"
  "q_fifo (hb_queue demo_reviewing) = []" "reportById (hb_store demo_reviewing) ''u'' \<noteq> None" "hb_requestId demo_reviewing = 7"
  by code_simp+

definition demo_waiting :: hb_service where
  "demo_waiting = deferPost ''busy'' \<lparr>pp_reportId = ''u'', pp_postBody = ''Hello'', pp_mode = ''auto''\<rparr> demo_idle"

theorem nothing_starts_by_itself_witness:
  "startedRuns (hb_out (foldl hb_step (new_service (demo_hb_store\<lparr>hd_configs := [demo_config\<lparr>hc_lastFireAt := None\<rparr>]\<rparr>) demo_store)
     [OpInitialize demo_hb_env, OpTick demo_hb_env, OpTick demo_hb_env])) = []"
  by (rule nothing_starts_by_itself) simp_all

theorem tick_leaves_no_work_witness:
  "let t = onScheduleTick demo_hb_env demo_idle in hb_paused t \<or> hb_runId t \<noteq> [] \<or> q_fifo (hb_queue t) = []"
  by (rule tick_leaves_no_work) (simp add: demo_idle_def)

theorem no_run_while_paused_witness:
  "startedRuns (hb_out (foldl hb_step (setGloballyPaused demo_hb_env True demo_idle) [OpTick demo_hb_env, OpRunNow demo_hb_env ''c1''])) = []"
proof -
  have "hb_paused (setGloballyPaused demo_hb_env True demo_idle)"
    "startedRuns (hb_out (setGloballyPaused demo_hb_env True demo_idle)) = []" by code_simp+
  with no_run_while_paused [of "setGloballyPaused demo_hb_env True demo_idle" "[OpTick demo_hb_env, OpRunNow demo_hb_env ''c1'']"]
  show ?thesis by simp
qed

theorem cancel_queued_is_filter_witness:
  "q_fifo (hb_queue (cancelRun demo_hb_env ''ui'' demo_running)) = []"
proof -
  have a: "int (length (q_fifo (hb_queue demo_running))) \<le> q_softCap (hb_queue demo_running)" by code_simp
  have "\<not> (\<exists>e \<in> set (q_fifo (hb_queue demo_running)). qe_runId e \<noteq> ''ui'')" by code_simp
  then have b: "filter (\<lambda>e. qe_runId e \<noteq> ''ui'') (q_fifo (hb_queue demo_running)) = []" by (simp add: filter_empty_conv)
  have c: "''ui'' \<noteq> []" "hb_runId demo_running \<noteq> ''ui''" by (simp_all add: demo_running_facts)
  from cancel_queued_is_filter [OF demo_running_inv a c] b show ?thesis by simp
qed

theorem pause_ends_run_without_record_witness:
  "hb_runId (setGloballyPaused demo_hb_env True demo_running) = [] \<and>
   hd_reports (hb_store (setGloballyPaused demo_hb_env True demo_running)) = hd_reports (hb_store demo_running)"
proof -
  have "\<not> hb_paused demo_running" "hb_runId demo_running \<noteq> []" by (simp_all add: demo_running_facts)
  from pause_ends_run_without_record [OF demo_running_inv this] show ?thesis unfolding Let_def by blast
qed

theorem shutdown_drains_witness:
  "hb_runId (shutdown demo_hb_env demo_running) \<noteq> [] \<or> q_fifo (hb_queue (shutdown demo_hb_env demo_running)) = []"
  by (rule shutdown_drains [OF demo_running_inv]) (simp_all add: demo_running_facts)

theorem review_needs_leave_witness:
  "let s = endRun demo_hb_env ''success'' (snd (runNow demo_hb_env ''c1'' demo_idle)) in
   validConfig (configById (hb_store s) ''c1'')"
proof -
  have "hb_phase (endRun demo_hb_env ''success'' (snd (runNow demo_hb_env ''c1'' demo_idle))) \<noteq> Tier2"
    "hb_phase (reviewReport demo_hb_env ''u'' ''c1'' (endRun demo_hb_env ''success'' (snd (runNow demo_hb_env ''c1'' demo_idle)))) = Tier2"
    by code_simp+
  from review_needs_leave [OF this] show ?thesis unfolding Let_def by blast
qed

theorem review_never_times_out_witness:
  "onRunTimeout demo_hb_env demo_reviewing = demo_reviewing \<and> hb_phase demo_reviewing = Tier2"
  using review_never_times_out [OF demo_reviewing_inv demo_reviewing_facts(1)] demo_reviewing_facts(1) by simp

theorem run_displaces_review_witness:
  "let e = demo_hb_env\<lparr>he_utc := 8\<rparr>; t = snd (runNow e ''c2'' demo_reviewing) in
   hb_phase t = Tier1 \<and> onBgFinished e 7 t = t"
proof -
  have "hb_runId (snd (runNow (demo_hb_env\<lparr>he_utc := 8\<rparr>) ''c2'' demo_reviewing)) \<noteq> []"
    "hb_requestId (snd (runNow (demo_hb_env\<lparr>he_utc := 8\<rparr>) ''c2'' demo_reviewing)) \<noteq> hb_requestId demo_reviewing" by code_simp+
  from run_displaces_review [OF demo_reviewing_inv demo_reviewing_facts(1) refl this]
  show ?thesis unfolding Let_def demo_reviewing_facts(6) by blast
qed

theorem review_overrides_user_witness:
  "\<exists>rep. reportById (hb_store demo_reviewing) ''u'' = Some rep \<and>
     reportById (hb_store (onBgFinished demo_hb_env 7 demo_reviewing)) ''u'' =
       Some (rep\<lparr>hr_parentReviewStatus := ''reviewed'', hr_surfaceStatus := ''skipped_by_agent'', hr_surfacedMessageId := []\<rparr>)"
proof -
  obtain rep where r: "reportById (hb_store demo_reviewing) ''u'' = Some rep" using demo_reviewing_facts(5) by blast
  have "''u'' \<noteq> []" by simp
  from review_overrides_user [OF demo_reviewing_facts(1,2) this demo_reviewing_facts(3,4) r]
  show ?thesis using r unfolding demo_reviewing_facts(6) by blast
qed

theorem drain_spins_while_streaming_witness:
  "drainPosts demo_hb_env ''busy'' demo_waiting = None"
proof -
  have "isStreaming demo_hb_env demo_waiting ''busy''" "valueOr (hb_pendingPosts demo_waiting) ''busy'' [] \<noteq> []"
    "\<forall>p \<in> set (valueOr (hb_pendingPosts demo_waiting) ''busy'' []). pp_reportId p \<noteq> [] \<and> pp_postBody p \<noteq> []" by code_simp+
  then show ?thesis by (intro drain_spins_while_streaming) simp_all
qed

theorem drain_returns_when_idle_witness:
  "\<exists>t. drainPosts (demo_hb_env\<lparr>he_streaming := (\<lambda>es c. False)\<rparr>) ''busy'' demo_waiting = Some t \<and> map_of (hb_pendingPosts t) ''busy'' = None"
  by (rule drain_returns_when_idle) simp

definition demo_goal_args :: json_object where
  "demo_goal_args = put ''text'' (JStr '' rest '') []"

definition demo_goal_caller :: hb_tool_env where
  "demo_goal_caller = \<lparr>ht_valid = True, ht_responderAgentId = ''ann'', ht_responderAlias = ''Ann'', ht_activeConv = ''v''\<rparr>"

theorem goal_tool_writes_goal_witness:
  "fst (setHeartbeatGoal demo_hb_env demo_goal_caller demo_goal_args demo_idle) = Inr (Changed ''c1'' ''goal'')"
proof -
  have "resolveContext demo_hb_env demo_goal_caller demo_goal_args demo_idle = Inr ''c1''"
    "validConfig (configById (hb_store demo_idle) ''c1'')" "trimmed (hbArg demo_goal_args ''text'') \<noteq> []"
    "hc_goal (configById (hb_store demo_idle) ''c1'') \<noteq> trimmed (hbArg demo_goal_args ''text'')"
    "he_uuid demo_hb_env (hb_fresh demo_idle) \<notin> hg_id ` set (hd_changes (hb_store demo_idle))" by code_simp+
  from goal_tool_writes_goal [OF this] show ?thesis by blast
qed

theorem report_reads_back_witness:
  "parseHeartbeatReport (reportText ''News'' [''One'', ''Two''] [''Short'']) =
     \<lparr>pr_title = ''News'', pr_body = ''One'' @ [CHR 0x0A] @ ''Two'', pr_summary = ''Short'', pr_valid = True\<rparr>"
proof -
  have "trimmed ''News'' = ''News''" "''News'' \<noteq> []" "CHR 0x0A \<notin> set ''News''" "\<not> endsWithC ''News'' (CHR 0x0D)"
    "\<forall>l \<in> set [''One'', ''Two''] \<union> set [''Short'']. plain_line l"
    "trimmed (joinWith [CHR 0x0A] [''One'', ''Two'']) \<noteq> [] \<or> trimmed (joinWith [CHR 0x0A] [''Short'']) \<noteq> []" by code_simp+
  from report_reads_back [OF this] show ?thesis by code_simp
qed

definition demo_answered :: hb_service where
  "demo_answered = onBgChunk 7 ''I looked and found nothing.'' (snd (runNow demo_hb_env ''c1'' demo_idle))"

theorem incomplete_answer_not_recorded_witness:
  "map hr_outcome (hd_reports (hb_store (onBgFinished demo_hb_env 7 demo_answered))) = [''pending'']"
proof -
  have "hb_phase demo_answered = Tier1" "hb_runId demo_answered \<noteq> []" "q_fifo (hb_queue demo_answered) = []"
    "hasNullText (hb_accumulator demo_answered)" by code_simp+
  note same = incomplete_answer_not_recorded [OF this, of demo_hb_env]
  have "hb_requestId demo_answered = 7" "map (fst \<circ> snd) (map ran (hd_reports (hb_store demo_answered))) = [''pending'']"
    by code_simp+
  then have "map (fst \<circ> snd) (map ran (hd_reports (hb_store (onBgFinished demo_hb_env 7 demo_answered)))) = [''pending'']"
    using same by simp
  then show ?thesis by (simp add: ran_def comp_def)
qed

end
