(* ===== verification/Wire_Validator.thy ===== *)
theory Wire_Validator
  imports Prelude
begin

text \<open>
  The checks of wire-validator.h that the operations of the remote server apply to the strings a
  paired client sends, and the limits of wire-protocol.h and wire-session.h they are used with.
\<close>

definition kMaxStringLen :: nat where
  "kMaxStringLen = 4096"

definition kMaxContentBytes :: int where
  "kMaxContentBytes = 16 * 1024 * 1024"

definition kMaxStdinBytes :: int where
  "kMaxStdinBytes = 8 * 1024"

definition nonEmptyBounded :: "string \<Rightarrow> bool" where
  "nonEmptyBounded s \<longleftrightarrow> s \<noteq> [] \<and> length s \<le> kMaxStringLen"

definition optionalBounded :: "string \<Rightarrow> bool" where
  "optionalBounded s \<longleftrightarrow> length s \<le> kMaxStringLen"

definition isHexC :: "char \<Rightarrow> bool" where
  "isHexC c \<longleftrightarrow> (CHR ''0'' \<le> c \<and> c \<le> CHR ''9'') \<or> (CHR ''a'' \<le> c \<and> c \<le> CHR ''f'')
                 \<or> (CHR ''A'' \<le> c \<and> c \<le> CHR ''F'')"

definition isUuidShape :: "string \<Rightarrow> bool" where
  "isUuidShape s \<longleftrightarrow> s \<noteq> [] \<and> (length s = 32 \<or> length s = 36)
                     \<and> list_all (\<lambda>c. c = CHR ''-'' \<or> isHexC c) s"

definition isValidFolderType :: "string \<Rightarrow> bool" where
  "isValidFolderType t \<longleftrightarrow> t = ''regular'' \<or> t = ''project'' \<or> t = ''organization''"

definition isSafeFileName :: "string \<Rightarrow> bool" where
  "isSafeFileName name \<longleftrightarrow> name \<noteq> [] \<and> CHR ''/'' \<notin> set name \<and> CHR 0x5C \<notin> set name
                          \<and> indexOfS ''..'' name 0 = None \<and> \<not> startsWith name ''.''"

lemma uuid_facts:
  assumes "isUuidShape s"
  shows uuid_not_empty: "s \<noteq> []" and uuid_bounded: "nonEmptyBounded s"
  using assms by (auto simp: isUuidShape_def nonEmptyBounded_def kMaxStringLen_def)

text \<open>The shape is looser than a UUID: dashes may stand anywhere, and may be all there is.\<close>

lemma dashes_are_a_uuid: "isUuidShape (replicate 36 CHR ''-'')"
  by (simp add: isUuidShape_def list_all_iff)

end
