(* ===== verification/Wire_Auth.thy ===== *)
theory Wire_Auth
  imports Prelude
begin

text \<open>
  The store of paired clients of the remote server (remote/server/wire-auth.cpp): the table of pairing
  codes and the table of clients, with the statements the code runs on them. The hash of a token (SHA-256 in
  the code), the drawn codes, tokens and client ids are arguments. \<open>wa_up\<close> says whether the
  database executes statements.
\<close>

section \<open>The tables\<close>

record pairing_code =
  pc_code :: string
  pc_expiresAt :: int
  pc_createdAt :: int

record client_row =
  cr_id :: string
  cr_name :: string
  cr_tokenHash :: string
  cr_createdAt :: int
  cr_lastSeenAt :: "int option"
  cr_revokedAt :: "int option"

record paired_client =
  pd_id :: string
  pd_name :: string
  pd_createdAt :: int
  pd_lastSeenAt :: "int option"
  pd_revokedAt :: "int option"

record wire_auth =
  wa_up :: bool
  wa_codes :: "pairing_code list"
  wa_clients :: "client_row list"

definition new_auth :: wire_auth where
  "new_auth = \<lparr>wa_up = True, wa_codes = [], wa_clients = []\<rparr>"

definition kPairingCodeTtlSeconds :: int where
  "kPairingCodeTtlSeconds = 5 * 60"

definition isActive :: "paired_client \<Rightarrow> bool" where
  "isActive p \<longleftrightarrow> pd_revokedAt p = None"

section \<open>Pairing codes\<close>

definition purgeExpiredCodes :: "int \<Rightarrow> wire_auth \<Rightarrow> wire_auth" where
  "purgeExpiredCodes now a =
     (if wa_up a then a\<lparr>wa_codes := filter (\<lambda>p. \<not> pc_expiresAt p \<le> now) (wa_codes a)\<rparr> else a)"

fun rollCode :: "wire_auth \<Rightarrow> string \<Rightarrow> nat list \<Rightarrow> string" where
  "rollCode a c [] = c"
| "rollCode a c (raw # rest) =
     (let next = decimal (100000 + raw) in
      if wa_up a \<and> \<not> list_ex (\<lambda>p. pc_code p = next) (wa_codes a) then next else rollCode a next rest)"

text \<open>The draws are numbers below 900000; at most eight of them are used.\<close>

definition generatePairingCode :: "int \<Rightarrow> nat list \<Rightarrow> wire_auth \<Rightarrow> wire_auth \<times> string" where
  "generatePairingCode now draws a =
     (let a1 = purgeExpiredCodes now a;
          c = rollCode a1 [] (take 8 draws);
          row = \<lparr>pc_code = c, pc_expiresAt = now + kPairingCodeTtlSeconds * 1000, pc_createdAt = now\<rparr> in
      (if wa_up a1 then a1\<lparr>wa_codes := filter (\<lambda>p. pc_code p \<noteq> c) (wa_codes a1) @ [row]\<rparr> else a1, c))"

definition consumePairingCode :: "int \<Rightarrow> string \<Rightarrow> wire_auth \<Rightarrow> wire_auth \<times> bool" where
  "consumePairingCode now c a =
     (let a1 = purgeExpiredCodes now a in
      if \<not> wa_up a1 then (a1, False)
      else (a1\<lparr>wa_codes := filter (\<lambda>p. pc_code p \<noteq> c) (wa_codes a1)\<rparr>,
            list_ex (\<lambda>p. pc_code p = c) (wa_codes a1)))"

section \<open>Clients and tokens\<close>

text \<open>A second row of the same id or token hash breaks a constraint of the table, and the insertion fails.\<close>

definition issueToken ::
  "(string \<Rightarrow> string) \<Rightarrow> int \<Rightarrow> string \<Rightarrow> string \<Rightarrow> string \<Rightarrow> wire_auth \<Rightarrow> wire_auth \<times> (string \<times> string) option" where
  "issueToken hash now token clientId name a =
     (if \<not> wa_up a \<or> list_ex (\<lambda>r. cr_id r = clientId \<or> cr_tokenHash r = hash token) (wa_clients a) then (a, None)
      else (a\<lparr>wa_clients := wa_clients a @ [\<lparr>cr_id = clientId, cr_name = name, cr_tokenHash = hash token,
                                              cr_createdAt = now, cr_lastSeenAt = None, cr_revokedAt = None\<rparr>]\<rparr>,
            Some (token, clientId)))"

definition clientOf :: "client_row \<Rightarrow> paired_client" where
  "clientOf r = \<lparr>pd_id = cr_id r, pd_name = cr_name r, pd_createdAt = cr_createdAt r,
                 pd_lastSeenAt = cr_lastSeenAt r, pd_revokedAt = cr_revokedAt r\<rparr>"

definition verifyToken ::
  "(string \<Rightarrow> string) \<Rightarrow> int \<Rightarrow> string \<Rightarrow> wire_auth \<Rightarrow> wire_auth \<times> paired_client option" where
  "verifyToken hash now token a =
     (if \<not> wa_up a then (a, None)
      else case find (\<lambda>r. cr_tokenHash r = hash token) (wa_clients a) of
             None \<Rightarrow> (a, None)
           | Some r \<Rightarrow>
               (if \<not> isActive (clientOf r) then (a, None)
                else (a\<lparr>wa_clients := map (\<lambda>x. if cr_id x = cr_id r then x\<lparr>cr_lastSeenAt := Some now\<rparr> else x) (wa_clients a)\<rparr>,
                      Some ((clientOf r)\<lparr>pd_lastSeenAt := Some now\<rparr>))))"

definition listClients :: "bool \<Rightarrow> wire_auth \<Rightarrow> paired_client list" where
  "listClients includeRevoked a =
     (if wa_up a
      then map clientOf (sort_key (\<lambda>r. - cr_createdAt r)
             (filter (\<lambda>r. includeRevoked \<or> cr_revokedAt r = None) (wa_clients a)))
      else [])"

definition revokeClient :: "int \<Rightarrow> string \<Rightarrow> wire_auth \<Rightarrow> wire_auth \<times> bool" where
  "revokeClient now clientId a =
     (if \<not> wa_up a then (a, False)
      else (a\<lparr>wa_clients := map (\<lambda>r. if cr_id r = clientId \<and> cr_revokedAt r = None
                                     then r\<lparr>cr_revokedAt := Some now\<rparr> else r) (wa_clients a)\<rparr>,
            list_ex (\<lambda>r. cr_id r = clientId \<and> cr_revokedAt r = None) (wa_clients a)))"

section \<open>Histories of the store\<close>

text \<open>
  The callers use the store one operation after the other: the daemon's sessions pair, present tokens and
  revoke, its command line generates codes. A history is the list of these operations, and the answers are
  kept in their order, the time with the code.
\<close>

datatype auth_op =
    Generate int "nat list"
  | Consume int string
  | Issue int string string string
  | Verify int string
  | Revoke int string

datatype auth_answer =
    Generated int string
  | Consumed int string bool
  | Issued "(string \<times> string) option"
  | Verified "paired_client option"
  | Revoked string bool

fun auth_step :: "(string \<Rightarrow> string) \<Rightarrow> wire_auth \<Rightarrow> auth_op \<Rightarrow> wire_auth \<times> auth_answer" where
  "auth_step hash a (Generate now draws) = (let (a1, c) = generatePairingCode now draws a in (a1, Generated now c))"
| "auth_step hash a (Consume now c) = (let (a1, b) = consumePairingCode now c a in (a1, Consumed now c b))"
| "auth_step hash a (Issue now t c n) = (let (a1, r) = issueToken hash now t c n a in (a1, Issued r))"
| "auth_step hash a (Verify now t) = (let (a1, r) = verifyToken hash now t a in (a1, Verified r))"
| "auth_step hash a (Revoke now c) = (let (a1, b) = revokeClient now c a in (a1, Revoked c b))"

fun auth_run :: "(string \<Rightarrow> string) \<Rightarrow> wire_auth \<Rightarrow> auth_op list \<Rightarrow> wire_auth \<times> auth_answer list" where
  "auth_run hash a [] = (a, [])"
| "auth_run hash a (e # es) =
     (let (a1, x) = auth_step hash a e; (a2, xs) = auth_run hash a1 es in (a2, x # xs))"

definition auth_inv :: "wire_auth \<Rightarrow> bool" where
  "auth_inv a \<longleftrightarrow> distinct (map pc_code (wa_codes a))
                 \<and> (\<forall>p \<in> set (wa_codes a). pc_expiresAt p = pc_createdAt p + kPairingCodeTtlSeconds * 1000)
                 \<and> distinct (map cr_id (wa_clients a)) \<and> distinct (map cr_tokenHash (wa_clients a))"

end
