(* ===== verification/Wire_Session.thy ===== *)
theory Wire_Session
  imports Wire_Validator Wire_Auth Json Ragp_Cache
begin

text \<open>
  The session of one paired client (remote/server/wire-session.cpp): its state, the two sliding windows of its
  rate limits, the requests the host sends to the client through it, and the effects of its operations. An
  operation returns the list of what it does in order: replies and events written to the client's socket,
  calls of the host, the announcement of a new client id. A call of the host carries its callback as a value
  of \<open>wire_cont\<close>, one constructor for each lambda of the code.

  The sources pass the session a store of clients, a link to the host and a reader of the host's database
  that exist as long as the session, so the tests for null pointers are not modelled. The reader
  (wire-db-reader.cpp), the staging of uploads and the reading of media files are functions of the
  environment.
\<close>

section \<open>JSON, as far as it is new here\<close>

definition toStringOr :: "json option \<Rightarrow> string \<Rightarrow> string" where
  "toStringOr v d = (case v of Some (JStr s) \<Rightarrow> s | _ \<Rightarrow> d)"

definition toBoolOr :: "json option \<Rightarrow> bool \<Rightarrow> bool" where
  "toBoolOr v d = (case v of Some (JBool b) \<Rightarrow> b | _ \<Rightarrow> d)"

text \<open>A number outside the range of \<open>int\<close> is replaced by the default.\<close>

definition toIntOr :: "json option \<Rightarrow> int \<Rightarrow> int" where
  "toIntOr v d = (case v of Some (JNum n) \<Rightarrow> if - (2 ^ 31) \<le> n \<and> n < 2 ^ 31 then n else d | _ \<Rightarrow> d)"

definition toArray :: "json option \<Rightarrow> json list" where
  "toArray v = (case v of Some (JArr xs) \<Rightarrow> xs | _ \<Rightarrow> [])"

abbreviation strOf :: "json_object \<Rightarrow> string \<Rightarrow> string" where
  "strOf P k \<equiv> toString (member_of P k)"

abbreviation hasKey :: "json_object \<Rightarrow> string \<Rightarrow> bool" where
  "hasKey P k \<equiv> member_of P k \<noteq> None"

text \<open>Inserting the undefined value removes the key.\<close>

definition putValue :: "string \<Rightarrow> json option \<Rightarrow> json_object \<Rightarrow> json_object" where
  "putValue k v ob = (case v of Some j \<Rightarrow> put k j ob | None \<Rightarrow> AList.delete k ob)"

definition strings :: "json option \<Rightarrow> string list" where
  "strings v = map (\<lambda>x. toString (Some x)) (toArray v)"

definition putAll :: "json_object \<Rightarrow> json_object \<Rightarrow> json_object" where
  "putAll row ob = fold (\<lambda>(k, v). put k v) row ob"

definition qBound :: "int \<Rightarrow> int \<Rightarrow> int \<Rightarrow> int" where
  "qBound lo v hi = max lo (min hi v)"

text \<open>The blocks \<open>{type, value}\<close> in which an argument travels to the host.\<close>

definition argBlock :: "string \<Rightarrow> json \<Rightarrow> json" where
  "argBlock t v = JObj [(''type'', JStr t), (''value'', v)]"

definition argStr :: "string \<Rightarrow> json" where
  "argStr s = argBlock ''string'' (JStr s)"

definition argBool :: "bool \<Rightarrow> json" where
  "argBool b = argBlock ''bool'' (JBool b)"

definition argInt :: "int \<Rightarrow> json" where
  "argInt i = argBlock ''int'' (JNum i)"

definition argStringList :: "string list \<Rightarrow> json" where
  "argStringList sl = argBlock ''stringlist'' (JArr (map JStr sl))"

definition argMap :: "json_object \<Rightarrow> json" where
  "argMap ob = argBlock ''variantmap'' (JObj ob)"

definition argList :: "json list \<Rightarrow> json" where
  "argList xs = argBlock ''variantlist'' (JArr xs)"

definition parseCapabilities :: "json_object \<Rightarrow> string list" where
  "parseCapabilities P =
     remdups (filter (\<lambda>c. c \<noteq> []) (map (\<lambda>v. toString (Some v)) (toArray (member_of P ''capabilities''))))"

section \<open>What a session does\<close>

datatype wire_cont =
    NoCallback
  | Forward string
  | WrapId string string
  | WrapBool string string
  | WrapInt string string
  | NewFolder string
  | MediaFiles string
  | MediaFile string string
  | SettingsGate string string json_object
  | SettingsCap string json_object
  | GateAllow string string
  | GateMax string bool
  | ActiveProvider string
  | ActiveModel string json
  | CatProviders string
  | CatModels nat nat
  | CatProvider nat
  | CatModel nat

text \<open>A call names its target, the method or property, the arguments and the type of the result.\<close>

datatype host_call =
    Invoke string string "json list" string
  | PropertyGet string string
  | PropertySet string string string json

text \<open>The data of a reply; a missing value is \<open>None\<close>, which the frame to the host leaves out.\<close>

record client_rpc_reply =
  rp_ok :: bool
  rp_errorKind :: string
  rp_errorDetail :: string
  rp_data :: "json option"

datatype wire_effect =
    Reply string json
  | ReplyError string string string
  | Event string json_object
  | SendRequest string string json_object
  | Fire string string "json list"
  | Ask host_call int wire_cont
  | RpcDone string client_rpc_reply
  | Rebound string
  | CloseSocket

definition sendOk :: "string \<Rightarrow> json \<Rightarrow> wire_effect" where
  "sendOk rid data = Reply rid data"

definition sendErr :: "string \<Rightarrow> string \<Rightarrow> string \<Rightarrow> wire_effect" where
  "sendErr rid kind detail = ReplyError rid kind detail"

definition sendEvent :: "string \<Rightarrow> json_object \<Rightarrow> wire_effect" where
  "sendEvent name data = Event name data"

section \<open>The state of a session\<close>

text \<open>A request the host sent to the client: the callback answers the host's request \<open>pq_caller\<close>.\<close>

record pending_request =
  pq_id :: string
  pq_op :: string
  pq_expiresAtMs :: int
  pq_caller :: string

text \<open>The accumulator of one call of \<open>models.catalog\<close>.\<close>

record catalog =
  ct_rid :: string
  ct_providers :: "json_object list"
  ct_activeProvider :: string
  ct_activeModel :: string
  ct_pendingModelsCalls :: int
  ct_activeProviderRead :: bool
  ct_activeModelRead :: bool

record wire_session =
  ws_connected :: bool
  ws_clientId :: string
  ws_clientName :: string
  ws_capabilities :: "string list"
  ws_subscribedConvIds :: "string list"
  ws_recentOpsMs :: "int list"
  ws_recentOutboundOpsMs :: "int list"
  ws_pending :: "pending_request list"
  ws_catalogs :: "catalog list"

definition fresh_session :: wire_session where
  "fresh_session = \<lparr>ws_connected = True, ws_clientId = [], ws_clientName = [], ws_capabilities = [],
     ws_subscribedConvIds = [], ws_recentOpsMs = [], ws_recentOutboundOpsMs = [], ws_pending = [], ws_catalogs = []\<rparr>"

definition isAuthenticated :: "wire_session \<Rightarrow> bool" where
  "isAuthenticated s \<longleftrightarrow> ws_clientId s \<noteq> []"

definition hasCapability :: "wire_session \<Rightarrow> string \<Rightarrow> bool" where
  "hasCapability s c \<longleftrightarrow> c \<in> set (ws_capabilities s)"

definition kMaxSubscriptions :: nat where
  "kMaxSubscriptions = 256"

definition kMaxOpsPerSecond :: nat where
  "kMaxOpsPerSecond = 200"

definition kMaxPendingClientRequests :: nat where
  "kMaxPendingClientRequests = 256"

definition kMaxOutboundOpsPerSecond :: nat where
  "kMaxOutboundOpsPerSecond = 500"

text \<open>The reader of the host's database.\<close>

record wire_db =
  db_isOpen :: bool
  db_listConversations :: "json list"
  db_conversationById :: "string \<Rightarrow> json_object"
  db_messagesForConversation :: "string \<Rightarrow> json list"
  db_messageById :: "string \<Rightarrow> json_object"
  db_conversationSettings :: "string \<Rightarrow> json_object"
  db_listAllFolders :: "json list"
  db_plansForConversation :: "string \<Rightarrow> json list"
  db_planById :: "string \<Rightarrow> json_object"
  db_planIdForStep :: "string \<Rightarrow> string"
  db_toolCallsForConversation :: "string \<Rightarrow> json list"
  db_toolCallsForMessage :: "string \<Rightarrow> json list"
  db_toolCallsForTurn :: "string \<Rightarrow> string \<Rightarrow> json list"
  db_toolCallById :: "string \<Rightarrow> json_object"
  db_attachmentsForMessage :: "string \<Rightarrow> json list"
  db_attachmentBytes :: "string \<Rightarrow> json_object"
  db_artifactsForConversation :: "string \<Rightarrow> json list"
  db_artifactBytes :: "string \<Rightarrow> string \<Rightarrow> json_object"
  db_canvasArtifactById :: "string \<Rightarrow> json_object"
  db_heartbeatConfigById :: "string \<Rightarrow> json_object"

text \<open>
  What one step of the daemon reads: the clock, the state of the link to the host, the sequence of the UUIDs
  the process draws for its requests, a fresh token and client id, the hash, the database, the upload directory
  and the media files. \<open>en_erased\<close> is what Qt's hash table does when an entry is erased through an iterator: from
  the key the iterator was found for, the keys at that time and the keys now it gives the key of the entry that
  goes, or none. Qt promises the key the iterator was found for only while no insertion has made the table grow.
\<close>

record wire_env =
  en_now :: int
  en_hostUp :: bool
  en_uuid :: "nat \<Rightarrow> string"
  en_token :: string
  en_clientId :: string
  en_hash :: "string \<Rightarrow> string"
  en_db :: wire_db
  en_stage :: "string \<Rightarrow> string \<Rightarrow> string"
  en_fileExists :: "string \<Rightarrow> bool"
  en_fileSize :: "string \<Rightarrow> int"
  en_readMedia :: "string \<Rightarrow> json_object"
  en_erased :: "string \<Rightarrow> string list \<Rightarrow> string list \<Rightarrow> string option"

section \<open>Errors and calls of the host\<close>

definition quoted :: "string \<Rightarrow> string" where
  "quoted k = CHR 0x27 # k @ [CHR 0x27]"

definition kHostOffline :: string where
  "kHostOffline = ''Verzeta Studio is not connected to the remote server. Check that it is running on the host.''"

definition kDbClosed :: string where
  "kDbClosed = ''The remote server could not open the Verzeta Studio database on the host.''"

definition invalid :: "string \<Rightarrow> string \<Rightarrow> wire_effect list" where
  "invalid rid detail = [sendErr rid ''invalid_params'' detail]"

definition badUuid :: "string \<Rightarrow> string \<Rightarrow> wire_effect list" where
  "badUuid rid k = invalid rid (quoted k @ '' must be UUID'')"

definition required :: "string \<Rightarrow> string \<Rightarrow> wire_effect list" where
  "required rid k = invalid rid (quoted k @ '' required'')"

definition hostOffline :: "string \<Rightarrow> wire_effect list" where
  "hostOffline rid = [sendErr rid ''server_error'' kHostOffline]"

definition dbClosed :: "string \<Rightarrow> wire_effect list" where
  "dbClosed rid = [sendErr rid ''server_error'' kDbClosed]"

definition queued :: "string \<Rightarrow> wire_effect list" where
  "queued rid = [sendOk rid (JObj [(''queued'', JBool True)])]"

text \<open>The test that precedes every call whose answer is awaited, and the calls themselves.\<close>

definition callHost :: "wire_env \<Rightarrow> string \<Rightarrow> host_call \<Rightarrow> int \<Rightarrow> wire_cont \<Rightarrow> wire_effect list" where
  "callHost en rid call timeoutMs k = (if en_hostUp en then [Ask call timeoutMs k] else hostOffline rid)"

definition asyncInvoke ::
  "wire_env \<Rightarrow> string \<Rightarrow> string \<Rightarrow> string \<Rightarrow> json list \<Rightarrow> string \<Rightarrow> wire_effect list" where
  "asyncInvoke en rid target method args returnType =
     callHost en rid (Invoke target method args returnType) 15000 (Forward rid)"

definition asyncInvokeWrapId ::
  "wire_env \<Rightarrow> string \<Rightarrow> string \<Rightarrow> string \<Rightarrow> json list \<Rightarrow> string \<Rightarrow> wire_effect list" where
  "asyncInvokeWrapId en rid target method args idKey =
     callHost en rid (Invoke target method args ''QString'') 15000 (WrapId rid idKey)"

definition requireHostOnline :: "wire_env \<Rightarrow> string \<Rightarrow> wire_effect list \<Rightarrow> wire_effect list" where
  "requireHostOnline en rid es = (if en_hostUp en then es else hostOffline rid)"

definition withDb :: "wire_env \<Rightarrow> string \<Rightarrow> wire_effect list \<Rightarrow> wire_effect list" where
  "withDb en rid es = (if db_isOpen (en_db en) then es else dbClosed rid)"

section \<open>Rate limits\<close>

text \<open>The times of the operations of the last second, oldest first.\<close>

definition windowFrom :: "int \<Rightarrow> int list \<Rightarrow> int list" where
  "windowFrom now ts = dropWhile (\<lambda>t. t < now - 1000) ts"

definition checkRateLimit :: "int \<Rightarrow> wire_session \<Rightarrow> bool \<times> wire_session" where
  "checkRateLimit now s =
     (let ts = windowFrom now (ws_recentOpsMs s) in
      if kMaxOpsPerSecond \<le> length ts then (False, s\<lparr>ws_recentOpsMs := ts\<rparr>)
      else (True, s\<lparr>ws_recentOpsMs := ts @ [now]\<rparr>))"

definition checkOutboundRateLimit :: "int \<Rightarrow> wire_session \<Rightarrow> bool \<times> wire_session" where
  "checkOutboundRateLimit now s =
     (let ts = windowFrom now (ws_recentOutboundOpsMs s) in
      if kMaxOutboundOpsPerSecond \<le> length ts then (False, s\<lparr>ws_recentOutboundOpsMs := ts\<rparr>)
      else (True, s\<lparr>ws_recentOutboundOpsMs := ts @ [now]\<rparr>))"

section \<open>Requests from the host to the client\<close>

definition rpcError :: "string \<Rightarrow> string \<Rightarrow> client_rpc_reply" where
  "rpcError kind detail = \<lparr>rp_ok = False, rp_errorKind = kind, rp_errorDetail = detail, rp_data = Some JNull\<rparr>"

text \<open>Every refusal runs the callback; an accepted request keeps it until the answer, the deadline or the end.\<close>

definition sendClientRequest ::
  "wire_env \<Rightarrow> string \<Rightarrow> string \<Rightarrow> json_object \<Rightarrow> string \<Rightarrow> int \<Rightarrow> wire_session
     \<Rightarrow> wire_session \<times> wire_effect list" where
  "sendClientRequest en rid op args caller timeoutMs s =
     (if op = [] then (s, [RpcDone caller (rpcError ''invalid_argument'' ''op is empty'')])
      else if \<not> ws_connected s then (s, [RpcDone caller (rpcError ''session_closed'' ''WebSocket not connected'')])
      else if kMaxPendingClientRequests \<le> length (ws_pending s)
        then (s, [RpcDone caller (rpcError ''too_many_pending'' ''session pending-request map at capacity'')])
      else let (ok, s1) = checkOutboundRateLimit (en_now en) s in
        if \<not> ok then (s1, [RpcDone caller (rpcError ''rate_limited'' ''outbound request rate exceeded'')])
        else let row = \<lparr>pq_id = rid, pq_op = op, pq_expiresAtMs = en_now en + max 100 timeoutMs, pq_caller = caller\<rparr> in
          (s1\<lparr>ws_pending := filter (\<lambda>q. pq_id q \<noteq> rid) (ws_pending s1) @ [row]\<rparr>, [SendRequest rid op args]))"

definition onClientResponse :: "json_object \<Rightarrow> wire_session \<Rightarrow> wire_session \<times> wire_effect list" where
  "onClientResponse ob s =
     (let rid = strOf ob ''request_id'' in
      if rid = [] then (s, [])
      else case find (\<lambda>p. pq_id p = rid) (ws_pending s) of
          None \<Rightarrow> (s, [])
        | Some p \<Rightarrow>
            let err = toObject (member_of ob ''error'');
                reply = (if toBoolOr (member_of ob ''ok'') False
                         then \<lparr>rp_ok = True, rp_errorKind = [], rp_errorDetail = [],
                               rp_data = member_of ob ''data''\<rparr>
                         else rpcError (toStringOr (member_of err ''kind'') ''client_error'') (strOf err ''detail'')) in
            (s\<lparr>ws_pending := filter (\<lambda>q. pq_id q \<noteq> rid) (ws_pending s)\<rparr>, [RpcDone (pq_caller p) reply]))"

definition onClientRpcTimeoutSweep :: "int \<Rightarrow> wire_session \<Rightarrow> wire_session \<times> wire_effect list" where
  "onClientRpcTimeoutSweep now s =
     (s\<lparr>ws_pending := filter (\<lambda>p. \<not> pq_expiresAtMs p \<le> now) (ws_pending s)\<rparr>,
      map (\<lambda>p. RpcDone (pq_caller p) (rpcError ''timeout'' ''client_response not received within deadline''))
        (filter (\<lambda>p. pq_expiresAtMs p \<le> now) (ws_pending s)))"

definition drainPendingClientRequests ::
  "string \<Rightarrow> string \<Rightarrow> wire_session \<Rightarrow> wire_session \<times> wire_effect list" where
  "drainPendingClientRequests kind detail s =
     (s\<lparr>ws_pending := []\<rparr>, map (\<lambda>p. RpcDone (pq_caller p) (rpcError kind detail)) (ws_pending s))"

definition forceClose :: "string \<Rightarrow> wire_session \<Rightarrow> wire_session \<times> wire_effect list" where
  "forceClose kind s =
     (let (s1, es) = drainPendingClientRequests kind ''session superseded'' s in
      (s1\<lparr>ws_connected := False\<rparr>, es))"

definition sendHello :: "wire_env \<Rightarrow> wire_effect" where
  "sendHello en = sendEvent ''hello''
     [(''host_name'', JStr ''Verzeta Studio''), (''requires_auth'', JBool True),
      (''protocol'', JStr ''verzeta-ws-2''), (''host_alive'', JBool (en_hostUp en))]"

section \<open>Authentication\<close>

definition opPing :: "wire_env \<Rightarrow> string \<Rightarrow> wire_effect list" where
  "opPing en rid = [sendOk rid (JObj [(''time_ms'', JNum (en_now en)), (''host_alive'', JBool (en_hostUp en))])]"

definition opAuthPair ::
  "wire_env \<Rightarrow> string \<Rightarrow> json_object \<Rightarrow> wire_auth \<times> wire_session \<Rightarrow> (wire_auth \<times> wire_session) \<times> wire_effect list" where
  "opAuthPair en rid P = (\<lambda>(a, s).
     (let c = strOf P ''code''; name = strOf P ''client_name'' in
      if \<not> nonEmptyBounded c \<or> \<not> nonEmptyBounded name
      then ((a, s), invalid rid (quoted ''code'' @ '' and '' @ quoted ''client_name'' @ '' required''))
      else let (a1, ok) = consumePairingCode (en_now en) c a in
        if \<not> ok then ((a1, s), [sendErr rid ''auth_failed'' ''invalid or expired pairing code''])
        else let (a2, issued) = issueToken (en_hash en) (en_now en) (en_token en) (en_clientId en) name a1 in
          (case issued of
             None \<Rightarrow> ((a2, s), [sendErr rid ''server_error'' ''token issuance failed''])
           | Some (token, cid) \<Rightarrow>
               ((a2, s\<lparr>ws_clientId := cid, ws_clientName := name, ws_capabilities := parseCapabilities P\<rparr>),
                [Rebound cid,
                 sendOk rid (JObj [(''token'', JStr token), (''client_id'', JStr cid), (''name'', JStr name)])]))))"

definition timeOrNull :: "int option \<Rightarrow> json" where
  "timeOrNull t = (case t of Some ms \<Rightarrow> JNum ms | None \<Rightarrow> JNull)"

definition opAuthToken ::
  "wire_env \<Rightarrow> string \<Rightarrow> json_object \<Rightarrow> wire_auth \<times> wire_session \<Rightarrow> (wire_auth \<times> wire_session) \<times> wire_effect list" where
  "opAuthToken en rid P = (\<lambda>(a, s).
     (let token = strOf P ''token'' in
      if \<not> nonEmptyBounded token then ((a, s), required rid ''token'')
      else let (a1, rec) = verifyToken (en_hash en) (en_now en) token a in
        (case rec of
           None \<Rightarrow> ((a1, s), [sendErr rid ''auth_failed'' ''invalid or revoked token''])
         | Some p \<Rightarrow>
             ((a1, s\<lparr>ws_clientId := pd_id p, ws_clientName := pd_name p, ws_capabilities := parseCapabilities P\<rparr>),
              [Rebound (pd_id p),
               sendOk rid (JObj [(''client_id'', JStr (pd_id p)), (''name'', JStr (pd_name p)),
                                 (''last_seen_at'', timeOrNull (pd_lastSeenAt p))])]))))"

definition opAuthMe :: "string \<Rightarrow> wire_auth \<times> wire_session \<Rightarrow> wire_effect list" where
  "opAuthMe rid = (\<lambda>(a, s).
     [sendOk rid (JObj [(''client_id'', JStr (ws_clientId s)), (''name'', JStr (ws_clientName s)),
        (''last_seen_at'',
           (case find (\<lambda>r. pd_id r = ws_clientId s \<and> pd_lastSeenAt r \<noteq> None) (listClients True a) of
              Some r \<Rightarrow> timeOrNull (pd_lastSeenAt r) | None \<Rightarrow> JNull))])])"

definition opAuthRevokeSelf ::
  "wire_env \<Rightarrow> string \<Rightarrow> wire_auth \<times> wire_session \<Rightarrow> (wire_auth \<times> wire_session) \<times> wire_effect list" where
  "opAuthRevokeSelf en rid = (\<lambda>(a, s).
     ((fst (revokeClient (en_now en) (ws_clientId s) a), s), [sendOk rid JNull, CloseSocket]))"

definition opClientsList :: "string \<Rightarrow> wire_auth \<times> wire_session \<Rightarrow> wire_effect list" where
  "opClientsList rid = (\<lambda>(a, s).
     [sendOk rid (JArr (map (\<lambda>r. JObj
         [(''id'', JStr (pd_id r)), (''name'', JStr (pd_name r)), (''created_at'', JNum (pd_createdAt r)),
          (''last_seen_at'', timeOrNull (pd_lastSeenAt r)), (''revoked'', JBool (\<not> isActive r))])
       (filter (\<lambda>r. pd_id r \<noteq> ws_clientId s) (listClients True a))))])"

definition opClientsRevoke ::
  "wire_env \<Rightarrow> string \<Rightarrow> json_object \<Rightarrow> wire_auth \<times> wire_session \<Rightarrow> (wire_auth \<times> wire_session) \<times> wire_effect list" where
  "opClientsRevoke en rid P = (\<lambda>(a, s).
     (let c = strOf P ''client_id'' in
      if \<not> isUuidShape c then ((a, s), invalid rid (quoted ''client_id'' @ '' must be a valid UUID''))
      else if c = ws_clientId s then ((a, s), invalid rid ''use auth.revoke_self for the current client'')
      else let (a1, done) = revokeClient (en_now en) c a in
        ((a1, s), [sendOk rid (JObj [(''revoked'', JBool done)])])))"

section \<open>Subscriptions\<close>

definition opMsgSubscribe :: "string \<Rightarrow> json_object \<Rightarrow> wire_session \<Rightarrow> wire_session \<times> wire_effect list" where
  "opMsgSubscribe rid P s =
     (let c = strOf P ''conv_id'' in
      if \<not> isUuidShape c then (s, invalid rid (quoted ''conv_id'' @ '' must be a valid UUID''))
      else if c \<notin> set (ws_subscribedConvIds s) \<and> kMaxSubscriptions \<le> length (ws_subscribedConvIds s)
        then (s, [sendErr rid ''rate_limited'' (''subscription cap reached ('' @ decimal kMaxSubscriptions @ '')'')])
      else (s\<lparr>ws_subscribedConvIds := List.insert c (ws_subscribedConvIds s)\<rparr>, [sendOk rid JNull]))"

definition opMsgUnsubscribe :: "string \<Rightarrow> json_object \<Rightarrow> wire_session \<Rightarrow> wire_session \<times> wire_effect list" where
  "opMsgUnsubscribe rid P s =
     (let c = strOf P ''conv_id'' in
      if \<not> isUuidShape c then (s, invalid rid (quoted ''conv_id'' @ '' must be a valid UUID''))
      else (s\<lparr>ws_subscribedConvIds := removeAll c (ws_subscribedConvIds s)\<rparr>, [sendOk rid JNull]))"

end
