(* ===== verification/Wire_Ops.thy ===== *)
theory Wire_Ops
  imports Wire_Session
begin

text \<open>
  The operations of a client that read the database or pass a checked request on to the host
  (remote/server/wire-session.cpp): conversations, folders, members, models, documents and skills. Each one
  is a function of the environment, the session, the request id and the parameters; none of them changes
  the session.
\<close>

type_synonym wire_op = "wire_env \<Rightarrow> wire_session \<Rightarrow> string \<Rightarrow> json_object \<Rightarrow> wire_effect list"

section \<open>Conversations and messages\<close>

definition opConvList :: wire_op where
  "opConvList en s rid P =
     withDb en rid [sendOk rid (JArr (db_listConversations (en_db en)))]"

definition opConvGet :: wire_op where
  "opConvGet en s rid P =
     (let i = strOf P ''id'' in
      if \<not> isUuidShape i then invalid rid (quoted ''id'' @ '' must be a valid UUID'') else
      withDb en rid (let row = db_conversationById (en_db en) i in if row = [] then [sendErr rid ''not_found'' ''no such conversation''] else [sendOk rid (JObj row)]))"

definition opMsgList :: wire_op where
  "opMsgList en s rid P =
     (let c = strOf P ''conv_id'' in
      if \<not> isUuidShape c then invalid rid (quoted ''conv_id'' @ '' must be a valid UUID'') else
      withDb en rid [sendOk rid (JArr (db_messagesForConversation (en_db en) c))])"

definition opMsgSend :: wire_op where
  "opMsgSend en s rid P =
     (let c = strOf P ''conv_id'';
          t = strOf P ''text'' in
      if \<not> isUuidShape c then invalid rid (quoted ''conv_id'' @ '' must be a valid UUID'') else
      if \<not> nonEmptyBounded t then required rid ''text'' else
      requireHostOnline en rid
        [Fire ''ChatController'' ''switchConversation'' [argStr c],
         Fire ''ChatController'' ''sendMessage'' [argStr t, argList []],
         sendOk rid (JObj [(''status'', JStr ''queued''), (''conv_id'', JStr c)])])"

definition opMsgStop :: wire_op where
  "opMsgStop en s rid P =
     requireHostOnline en rid [Fire ''ChatController'' ''stopGeneration'' [], sendOk rid JNull]"

definition opConvCreate :: wire_op where
  "opConvCreate en s rid P =
     (let t = toStringOr (member_of P ''title'') ''New Chat'' in
      if \<not> optionalBounded t then invalid rid (quoted ''title'' @ '' too long'') else
      asyncInvokeWrapId en rid ''Conversations'' ''newConversation'' [argStr t] ''id'')"

definition opConvCreateWithAgent :: wire_op where
  "opConvCreateWithAgent en s rid P =
     (let a = strOf P ''agent_id'';
          t = strOf P ''title'' in
      if \<not> isUuidShape a then badUuid rid ''agent_id'' else
      if \<not> optionalBounded t then invalid rid (quoted ''title'' @ '' too long'') else
      asyncInvokeWrapId en rid ''Conversations'' ''newConversationWithAgent'' [argStr a, argStr t] ''id'')"

definition opConvRename :: wire_op where
  "opConvRename en s rid P =
     (let i = strOf P ''id'';
          t = strOf P ''title'' in
      if \<not> isUuidShape i then badUuid rid ''id'' else
      if \<not> nonEmptyBounded t then required rid ''title'' else
      asyncInvoke en rid ''Conversations'' ''renameConversation'' [argStr i, argStr t] ''bool'')"

definition opConvSetPinned :: wire_op where
  "opConvSetPinned en s rid P =
     (let i = strOf P ''id'';
          pinned = toBoolOr (member_of P ''pinned'') False in
      if \<not> isUuidShape i then badUuid rid ''id'' else
      asyncInvoke en rid ''ConversationService'' ''setConversationPinned'' [argStr i, argBool pinned] ''bool'')"

definition opConvDelete :: wire_op where
  "opConvDelete en s rid P =
     (let i = strOf P ''id'' in
      if \<not> isUuidShape i then badUuid rid ''id'' else
      requireHostOnline en rid (Fire ''Conversations'' ''deleteConversation'' [argStr i] # queued rid))"

definition opConvMoveToFolder :: wire_op where
  "opConvMoveToFolder en s rid P =
     (let c = strOf P ''conv_id'';
          f = strOf P ''folder_id'' in
      if \<not> isUuidShape c then badUuid rid ''conv_id'' else
      if f \<noteq> [] \<and> \<not> isUuidShape f then invalid rid (quoted ''folder_id'' @ '' must be UUID or empty'') else
      asyncInvoke en rid ''Conversations'' ''moveToFolder'' [argStr c, argStr f] ''bool'')"

definition opConvIsGroup :: wire_op where
  "opConvIsGroup en s rid P =
     (let i = strOf P ''id'' in
      if \<not> isUuidShape i then badUuid rid ''id'' else
      callHost en rid (Invoke ''Conversations'' ''isGroup'' [argStr i] ''bool'') 5000 (WrapBool rid ''is_group''))"

definition opConvGroupMembers :: wire_op where
  "opConvGroupMembers en s rid P =
     (let i = strOf P ''id'' in
      if \<not> isUuidShape i then badUuid rid ''id'' else
      asyncInvoke en rid ''Conversations'' ''groupMembers'' [argStr i] ''QVariantList'')"

definition opConvFolderId :: wire_op where
  "opConvFolderId en s rid P =
     (let i = strOf P ''id'' in
      if \<not> isUuidShape i then badUuid rid ''id'' else
      asyncInvokeWrapId en rid ''Conversations'' ''folderIdOf'' [argStr i] ''folder_id'')"

definition opConvOpen :: wire_op where
  "opConvOpen en s rid P =
     (let i = strOf P ''id'' in
      if \<not> isUuidShape i then badUuid rid ''id'' else
      Fire ''ChatController'' ''switchConversation'' [argStr i] #
      (if \<not> db_isOpen (en_db en) then queued rid
       else let settings = db_conversationSettings (en_db en) i in
         [sendOk rid (JObj (putValue ''model'' (member_of settings ''modelName'')
            (putValue ''provider'' (member_of settings ''providerId'') [(''conv_id'', JStr i)])))]))"

section \<open>Folders\<close>

definition opFolderListProjects :: wire_op where
  "opFolderListProjects en s rid P =
     asyncInvoke en rid ''Conversations'' ''listProjectFolders'' [] ''QVariantList''"

definition opFolderListAll :: wire_op where
  "opFolderListAll en s rid P =
     withDb en rid [sendOk rid (JArr (db_listAllFolders (en_db en)))]"

definition opFolderConversations :: wire_op where
  "opFolderConversations en s rid P =
     (let f = strOf P ''folder_id'' in
      if f \<noteq> [] \<and> \<not> isUuidShape f then invalid rid (quoted ''folder_id'' @ '' must be UUID or empty'') else
      asyncInvoke en rid ''Conversations'' ''conversationsInFolder'' [argStr f] ''QVariantList'')"

definition opFolderCreate :: wire_op where
  "opFolderCreate en s rid P =
     (let name = strOf P ''name'' in
      if \<not> nonEmptyBounded name then required rid ''name'' else
      callHost en rid (Invoke ''Conversations'' ''createFolder'' [argStr name] ''QString'') 5000 (NewFolder rid))"

definition opFolderRename :: wire_op where
  "opFolderRename en s rid P =
     (let i = strOf P ''id'';
          n = strOf P ''name'' in
      if \<not> isUuidShape i then badUuid rid ''id'' else
      if \<not> nonEmptyBounded n then required rid ''name'' else
      asyncInvoke en rid ''Conversations'' ''renameFolder'' [argStr i, argStr n] ''bool'')"

definition opFolderDelete :: wire_op where
  "opFolderDelete en s rid P =
     (let i = strOf P ''id'' in
      if \<not> isUuidShape i then badUuid rid ''id'' else
      asyncInvoke en rid ''Conversations'' ''deleteFolder'' [argStr i] ''bool'')"

definition opFolderInfo :: wire_op where
  "opFolderInfo en s rid P =
     (let i = strOf P ''id'' in
      if \<not> isUuidShape i then badUuid rid ''id'' else
      asyncInvoke en rid ''Conversations'' ''folderInfo'' [argStr i] ''QVariantMap'')"

definition opFolderUpdateMetadata :: wire_op where
  "opFolderUpdateMetadata en s rid P =
     (let i = strOf P ''id'';
          t = strOf P ''folder_type'';
          g = strOf P ''goal'';
          d = strOf P ''description'';
          aids = strings (member_of P ''agent_ids'') in
      if \<not> isUuidShape i then badUuid rid ''id'' else
      if \<not> isValidFolderType t then invalid rid (''bad '' @ quoted ''folder_type'') else
      if \<not> optionalBounded g \<or> \<not> optionalBounded d then invalid rid (quoted ''goal'' @ '' or '' @ quoted ''description'' @ '' too long'') else
      asyncInvoke en rid ''Conversations'' ''updateFolderMetadata'' [argStr i, argStr t, argStr g, argStr d, argStringList aids] ''bool'')"

section \<open>Members\<close>

text \<open>A member object of the client may use two spellings of a key. The optional fields are copied when they have
  the right type and size; the kind of who added the member must be one of the two the host itself writes.\<close>

definition eitherKey :: "json_object \<Rightarrow> string \<Rightarrow> string \<Rightarrow> json option" where
  "eitherKey m snake camel = (if hasKey m snake then member_of m snake else member_of m camel)"

definition kMaxMemberAllowedTools :: nat where
  "kMaxMemberAllowedTools = 512"

fun copyStrings :: "(string \<times> string) list \<Rightarrow> json_object \<Rightarrow> json_object \<Rightarrow> json_object option" where
  "copyStrings [] m ob = Some ob"
| "copyStrings ((snake, camel) # fs) m ob =
     (case eitherKey m snake camel of
        None \<Rightarrow> copyStrings fs m ob
      | Some JNull \<Rightarrow> copyStrings fs m ob
      | Some (JStr v) \<Rightarrow> if \<not> optionalBounded v then None else copyStrings fs m (put camel (JStr v) ob)
      | Some _ \<Rightarrow> None)"

definition toolName :: "json \<Rightarrow> bool" where
  "toolName t = (case t of JStr v \<Rightarrow> nonEmptyBounded v | _ \<Rightarrow> False)"

definition copyMemberOverrideFields :: "json_object \<Rightarrow> json_object \<Rightarrow> json_object option" where
  "copyMemberOverrideFields m ob =
     (case copyStrings [(''model_provider'', ''modelProvider''), (''model_name'', ''modelName''),
                        (''added_by_kind'', ''addedByKind''), (''added_by_agent_id'', ''addedByAgentId'')] m ob of
        None \<Rightarrow> None
      | Some ob1 \<Rightarrow>
          let kind = strOf ob1 ''addedByKind'' in
          if hasKey ob1 ''addedByKind'' \<and> kind \<noteq> ''user'' \<and> kind \<noteq> ''agent'' then None
          else case eitherKey m ''allowed_tools'' ''allowedTools'' of
              None \<Rightarrow> Some ob1
            | Some JNull \<Rightarrow> Some ob1
            | Some (JArr ts) \<Rightarrow>
                if kMaxMemberAllowedTools < length ts \<or> \<not> list_all toolName ts then None
                else Some (put ''allowedTools'' (JArr ts) ob1)
            | Some _ \<Rightarrow> None)"

definition memberAgent :: "json_object \<Rightarrow> string" where
  "memberAgent m = toString (eitherKey m ''agent_id'' ''agentId'')"

definition memberIsCoordinator :: "json_object \<Rightarrow> bool" where
  "memberIsCoordinator m = toBoolOr (eitherKey m ''is_coordinator'' ''isCoordinator'') False"

text \<open>The rows of a roster; the first bad member decides the error.\<close>

fun memberRows :: "bool \<Rightarrow> json list \<Rightarrow> string + json list" where
  "memberRows overrides [] = Inr []"
| "memberRows overrides (v # vs) =
     (let m = toObject (Some v);
          row = [(''agentId'', JStr (memberAgent m)), (''alias'', JStr (strOf m ''alias'')),
                 (''isCoordinator'', JBool (memberIsCoordinator m))] in
      if \<not> isUuidShape (memberAgent m) then Inl (''member '' @ quoted ''agent_id'' @ '' must be UUID'')
      else case (if overrides then copyMemberOverrideFields m row else Some row) of
          None \<Rightarrow> Inl ''member override fields are malformed''
        | Some r \<Rightarrow> (case memberRows overrides vs of Inl e \<Rightarrow> Inl e | Inr rs \<Rightarrow> Inr (JObj r # rs)))"

definition opGroupCreate :: wire_op where
  "opGroupCreate en s rid P =
     (let t = strOf P ''title'';
          f = strOf P ''folder_id'';
          ms = toArray (member_of P ''members'') in
      if \<not> nonEmptyBounded t then required rid ''title'' else
      if f \<noteq> [] \<and> \<not> isUuidShape f then invalid rid (quoted ''folder_id'' @ '' must be UUID or empty'') else
      if ms = [] then required rid ''members'' else
      (case memberRows False ms of
         Inl e \<Rightarrow> invalid rid e
       | Inr rows \<Rightarrow> asyncInvokeWrapId en rid ''Conversations'' ''newGroupConversation'' [argStr t, argList rows, argStr f] ''id''))"

definition opFolderMembers :: wire_op where
  "opFolderMembers en s rid P =
     (let f = strOf P ''folder_id'' in
      if \<not> isUuidShape f then badUuid rid ''folder_id'' else
      asyncInvoke en rid ''MembershipService'' ''projectMembersList'' [argStr f] ''QVariantList'')"

definition opFolderMembersSet :: wire_op where
  "opFolderMembersSet en s rid P =
     (let f = strOf P ''folder_id'';
          ms = toArray (member_of P ''members'') in
      if \<not> isUuidShape f then badUuid rid ''folder_id'' else
      (case memberRows True ms of
         Inl e \<Rightarrow> invalid rid e
       | Inr rows \<Rightarrow> asyncInvoke en rid ''MembershipService'' ''setProjectMembersFromList'' [argStr f, argList rows] ''bool''))"

definition opFolderMemberAdd :: wire_op where
  "opFolderMemberAdd en s rid P =
     (let c = strOf P ''folder_id'';
          al = strOf P ''alias'';
          a = memberAgent P;
          ic = memberIsCoordinator P in
      if \<not> isUuidShape c \<or> \<not> isUuidShape a \<or> \<not> nonEmptyBounded al then invalid rid ''bad params'' else
      asyncInvoke en rid ''MembershipService'' ''addProjectMemberMap''
        [argMap [(''folderId'', JStr c), (''agentId'', JStr a), (''alias'', JStr al), (''isCoordinator'', JBool ic)]] ''bool'')"

definition opFolderMemberOverrideSet :: wire_op where
  "opFolderMemberOverrideSet en s rid P =
     (let f = strOf P ''folder_id'';
          al = strOf P ''alias'' in
      if \<not> isUuidShape f \<or> \<not> nonEmptyBounded al then invalid rid (quoted ''folder_id'' @ '' must be UUID and '' @ quoted ''alias'' @ '' is required'') else
      (case copyMemberOverrideFields P [] of
         None \<Rightarrow> invalid rid ''member override fields are malformed''
       | Some ovr \<Rightarrow> asyncInvoke en rid ''MembershipService'' ''updateProjectMemberModelOverride''
           [argStr f, argStr al, argStr (strOf ovr ''modelProvider''), argStr (strOf ovr ''modelName''),
            argStringList (strings (member_of ovr ''allowedTools''))] ''bool''))"

definition opFolderMemberRemove :: wire_op where
  "opFolderMemberRemove en s rid P =
     (let f = strOf P ''folder_id'';
          al = strOf P ''alias'' in
      if \<not> isUuidShape f \<or> \<not> nonEmptyBounded al then invalid rid ''bad params'' else
      asyncInvoke en rid ''MembershipService'' ''removeProjectMemberAlias'' [argStr f, argStr al] ''bool'')"

definition opConvMembers :: wire_op where
  "opConvMembers en s rid P =
     (let c = strOf P ''conv_id'' in
      if \<not> isUuidShape c then badUuid rid ''conv_id'' else
      asyncInvoke en rid ''MembershipService'' ''conversationMembersList'' [argStr c] ''QVariantList'')"

definition opConvMembersSet :: wire_op where
  "opConvMembersSet en s rid P =
     (let c = strOf P ''conv_id'';
          ms = toArray (member_of P ''members'') in
      if \<not> isUuidShape c then badUuid rid ''conv_id'' else
      (case memberRows False ms of
         Inl e \<Rightarrow> invalid rid e
       | Inr rows \<Rightarrow> asyncInvoke en rid ''MembershipService'' ''setConversationMembersFromList'' [argStr c, argList rows] ''bool''))"

definition opConvMemberAdd :: wire_op where
  "opConvMemberAdd en s rid P =
     (let c = strOf P ''conv_id'';
          al = strOf P ''alias'';
          a = memberAgent P;
          ic = memberIsCoordinator P in
      if \<not> isUuidShape c \<or> \<not> isUuidShape a \<or> \<not> nonEmptyBounded al then invalid rid ''bad params'' else
      asyncInvoke en rid ''MembershipService'' ''addConversationMemberMap''
        [argMap [(''conversationId'', JStr c), (''agentId'', JStr a), (''alias'', JStr al), (''isCoordinator'', JBool ic)]] ''bool'')"

definition opConvMemberRemove :: wire_op where
  "opConvMemberRemove en s rid P =
     (let c = strOf P ''conv_id'';
          al = strOf P ''alias'' in
      if \<not> isUuidShape c \<or> \<not> nonEmptyBounded al then invalid rid ''bad params'' else
      asyncInvoke en rid ''MembershipService'' ''removeConversationMemberAlias'' [argStr c, argStr al] ''bool'')"

definition opConvCoordinatorSet :: wire_op where
  "opConvCoordinatorSet en s rid P =
     (let c = strOf P ''conv_id'';
          al = strOf P ''alias'' in
      if \<not> isUuidShape c then badUuid rid ''conv_id'' else
      asyncInvoke en rid ''MembershipService'' ''setConversationCoordinatorAlias'' [argStr c, argStr al] ''bool'')"

section \<open>Models, search and catalogs\<close>

text \<open>The list of models starts with the providers; the rest of the exchange is the business of the callbacks.\<close>

definition opModelsCatalog :: wire_op where
  "opModelsCatalog en s rid P =
     callHost en rid (PropertyGet ''AgentSettings'' ''availableProviders'') 5000 (CatProviders rid)"

definition opModelsActive :: wire_op where
  "opModelsActive en s rid P =
     callHost en rid (PropertyGet ''AgentSettings'' ''activeProvider'') 5000 (ActiveProvider rid)"

definition opModelsForProvider :: wire_op where
  "opModelsForProvider en s rid P =
     (let p = strOf P ''provider_id'' in
      if \<not> nonEmptyBounded p then required rid ''provider_id'' else
      asyncInvoke en rid ''AgentSettings'' ''modelsForProvider'' [argStr p] ''QStringList'')"

definition opModelsSetActive :: wire_op where
  "opModelsSetActive en s rid P =
     (let p = strOf P ''provider_id'';
          m = strOf P ''model_name'' in
      if \<not> nonEmptyBounded p \<or> \<not> nonEmptyBounded m then invalid rid (quoted ''provider_id'' @ '' and '' @ quoted ''model_name'' @ '' required'') else
      Fire ''AgentSettings'' ''setModel'' [argStr p, argStr m] # queued rid)"

definition opSearchProviders :: wire_op where
  "opSearchProviders en s rid P =
     asyncInvoke en rid ''WebSearchProviders'' ''providers'' [] ''QVariantList''"

definition opSearchActive :: wire_op where
  "opSearchActive en s rid P =
     asyncInvokeWrapId en rid ''WebSearchProviders'' ''activeProviderId'' [] ''provider''"

definition opSearchSetActive :: wire_op where
  "opSearchSetActive en s rid P =
     (let p = strOf P ''provider_id'' in
      if \<not> nonEmptyBounded p then required rid ''provider_id'' else
      Fire ''WebSearchProviders'' ''setActiveProvider'' [argStr p] # queued rid)"

definition opAgentList :: wire_op where
  "opAgentList en s rid P =
     asyncInvoke en rid ''AgentRegistry'' ''agentList'' [] ''QVariantList''"

definition opAgentGet :: wire_op where
  "opAgentGet en s rid P =
     (let i = strOf P ''id'' in
      if \<not> isUuidShape i then badUuid rid ''id'' else
      asyncInvoke en rid ''AgentRegistry'' ''agentInfo'' [argStr i] ''QVariantMap'')"

definition opToolList :: wire_op where
  "opToolList en s rid P =
     asyncInvoke en rid ''ToolService'' ''registeredToolsList'' [] ''QVariantList''"

definition opMcpList :: wire_op where
  "opMcpList en s rid P =
     asyncInvoke en rid ''McpService'' ''serverList'' [] ''QVariantList''"

definition opMcpServerTools :: wire_op where
  "opMcpServerTools en s rid P =
     (let n = strOf P ''server_name'' in
      if \<not> nonEmptyBounded n then required rid ''server_name'' else
      asyncInvoke en rid ''McpService'' ''serverTools'' [argStr n] ''QVariantList'')"

definition opSkillList :: wire_op where
  "opSkillList en s rid P =
     asyncInvoke en rid ''SkillService'' ''installedSkills'' [] ''QVariantList''"

definition opSkillGet :: wire_op where
  "opSkillGet en s rid P =
     (let i = strOf P ''id'' in
      if \<not> nonEmptyBounded i then required rid ''id'' else
      asyncInvoke en rid ''SkillService'' ''skillDetails'' [argStr i] ''QVariantMap'')"

section \<open>Project documents\<close>

definition opFolderDocuments :: wire_op where
  "opFolderDocuments en s rid P =
     (let f = strOf P ''folder_id'' in
      if \<not> isUuidShape f then badUuid rid ''folder_id'' else
      asyncInvoke en rid ''Conversations'' ''projectDocuments'' [argStr f] ''QVariantList'')"

definition opFolderDocumentUpload :: wire_op where
  "opFolderDocumentUpload en s rid P =
     (let f = strOf P ''folder_id'';
          n = strOf P ''file_name'';
          b = strOf P ''content_base64'' in
      if \<not> isUuidShape f then badUuid rid ''folder_id'' else
      if \<not> isSafeFileName n then invalid rid (''bad '' @ quoted ''file_name'') else
      if b = [] then required rid ''content_base64'' else
      (let staged = en_stage en n b in
       if staged = [] then invalid rid ''the file could not be saved (invalid data, too large, or a write error)''
       else asyncInvokeWrapId en rid ''Conversations'' ''addProjectDocument'' [argStr f, argStr staged] ''file_name''))"

definition opFolderDocumentRemove :: wire_op where
  "opFolderDocumentRemove en s rid P =
     (let f = strOf P ''folder_id'';
          n = strOf P ''file_name'' in
      if \<not> isUuidShape f \<or> \<not> nonEmptyBounded n then invalid rid ''bad params'' else
      asyncInvoke en rid ''Conversations'' ''removeProjectDocument'' [argStr f, argStr n] ''bool'')"

definition opFolderKickoffIndividual :: wire_op where
  "opFolderKickoffIndividual en s rid P =
     (let f = strOf P ''folder_id'' in
      if \<not> isUuidShape f then badUuid rid ''folder_id'' else
      callHost en rid (Invoke ''Conversations'' ''createIndividualChatsForProject'' [argStr f] ''int'') 15000 (WrapInt rid ''created_count''))"

definition opFolderKickoffGroup :: wire_op where
  "opFolderKickoffGroup en s rid P =
     (let f = strOf P ''folder_id'' in
      if \<not> isUuidShape f then badUuid rid ''folder_id'' else
      asyncInvokeWrapId en rid ''Conversations'' ''createGroupChatForProject'' [argStr f] ''id'')"

definition opFolderMemberChatOpen :: wire_op where
  "opFolderMemberChatOpen en s rid P =
     (let f = strOf P ''folder_id'';
          a = strOf P ''agent_id'';
          al = strOf P ''alias'' in
      if \<not> isUuidShape f \<or> \<not> isUuidShape a \<or> \<not> nonEmptyBounded al then invalid rid ''bad params'' else
      asyncInvokeWrapId en rid ''Conversations'' ''openDirectChatWithMember'' [argStr f, argStr a, argStr al] ''id'')"

section \<open>Preferred skills\<close>

definition opSkillPreferredList :: wire_op where
  "opSkillPreferredList en s rid P =
     (let t = strOf P ''scope_type'';
          i = strOf P ''scope_id'' in
      asyncInvoke en rid ''SkillService'' ''preferredSkillsFor'' [argStr t, argStr i] ''QStringList'')"

definition opSkillPreferredSet :: wire_op where
  "opSkillPreferredSet en s rid P =
     (let t = strOf P ''scope_type'';
          i = strOf P ''scope_id'';
          ids = strings (member_of P ''skill_ids'') in
      asyncInvoke en rid ''SkillService'' ''setPreferredSkills'' [argStr t, argStr i, argStringList ids] ''bool'')"

definition opSkillExposeOnly :: wire_op where
  "opSkillExposeOnly en s rid P =
     (let t = strOf P ''scope_type'';
          i = strOf P ''scope_id'' in
      callHost en rid (Invoke ''SkillService'' ''exposeOnlyPreferred'' [argStr t, argStr i] ''bool'') 5000 (WrapBool rid ''expose_only''))"

definition opSkillSetExposeOnly :: wire_op where
  "opSkillSetExposeOnly en s rid P =
     (let t = strOf P ''scope_type'';
          i = strOf P ''scope_id'';
          e = toBoolOr (member_of P ''expose_only'') False in
      asyncInvoke en rid ''SkillService'' ''setExposeOnlyPreferred'' [argStr t, argStr i, argBool e] ''bool'')"

definition opSkillOverrideParent :: wire_op where
  "opSkillOverrideParent en s rid P =
     (let c = strOf P ''conv_id'' in
      if \<not> isUuidShape c then badUuid rid ''conv_id'' else
      callHost en rid (Invoke ''SkillService'' ''overrideParentFolder'' [argStr c] ''bool'') 5000 (WrapBool rid ''override''))"

definition opSkillSetOverrideParent :: wire_op where
  "opSkillSetOverrideParent en s rid P =
     (let c = strOf P ''conv_id'';
          v = toBoolOr (member_of P ''override'') False in
      if \<not> isUuidShape c then badUuid rid ''conv_id'' else
      asyncInvoke en rid ''SkillService'' ''setOverrideParentFolder'' [argStr c, argBool v] ''bool'')"

end
