(* ===== verification/Wire_Ops_Work.thy ===== *)
theory Wire_Ops_Work
  imports Wire_Ops
begin

text \<open>
  The operations of a client on heartbeats, settings, plans, tool calls and files
  (remote/server/wire-session.cpp).
\<close>

section \<open>Heartbeats\<close>

definition opHbConfigsForFolder :: wire_op where
  "opHbConfigsForFolder en s rid P =
     (let f = strOf P ''folder_id'' in
      if \<not> isUuidShape f then badUuid rid ''folder_id'' else
      asyncInvoke en rid ''HeartbeatConfigService'' ''configsForFolder'' [argStr f] ''QVariantList'')"

definition opHbConfigsForConv :: wire_op where
  "opHbConfigsForConv en s rid P =
     (let c = strOf P ''conv_id'' in
      if \<not> isUuidShape c then badUuid rid ''conv_id'' else
      asyncInvoke en rid ''HeartbeatConfigService'' ''configsForConversation'' [argStr c] ''QVariantList'')"

definition opHbConfigById :: wire_op where
  "opHbConfigById en s rid P =
     (let i = strOf P ''id'' in
      if \<not> isUuidShape i then badUuid rid ''id'' else
      asyncInvoke en rid ''HeartbeatConfigService'' ''configByIdMap'' [argStr i] ''QVariantMap'')"

definition heartbeatFields :: "json_object \<Rightarrow> json_object" where
  "heartbeatFields P =
     fold (\<lambda>(k, v). putValue k v)
       [(''agentId'', eitherKey P ''agent_id'' ''agentId''), (''scopeType'', eitherKey P ''scope_type'' ''scopeType''),
        (''scopeId'', eitherKey P ''scope_id'' ''scopeId''), (''alias'', member_of P ''alias''),
        (''enabled'', Some (JBool (toBoolOr (member_of P ''enabled'') True))), (''schedule'', member_of P ''schedule''),
        (''goal'', member_of P ''goal''), (''surfaceCriteria'', eitherKey P ''surface_criteria'' ''surfaceCriteria''),
        (''maxRunsPerDay'', eitherKey P ''max_runs_per_day'' ''maxRunsPerDay''),
        (''autoSurfaceTargetConversationId'',
           eitherKey P ''auto_surface_target_conversation_id'' ''autoSurfaceTargetConversationId''),
        (''selfConfigAllowed'', eitherKey P ''self_config_allowed'' ''selfConfigAllowed'')]
       (if hasKey P ''id'' then putValue ''id'' (member_of P ''id'') [] else [])"

definition opHbUpsert :: wire_op where
  "opHbUpsert en s rid P =
     asyncInvoke en rid ''HeartbeatConfigService'' ''upsertConfigMap'' [argMap (heartbeatFields P)] ''QString''"

definition opHbRemove :: wire_op where
  "opHbRemove en s rid P =
     (let i = strOf P ''id'' in
      if \<not> isUuidShape i then badUuid rid ''id'' else
      asyncInvoke en rid ''HeartbeatConfigService'' ''removeConfig'' [argStr i] ''bool'')"

definition opHbRunNow :: wire_op where
  "opHbRunNow en s rid P =
     (let i = strOf P ''id'' in
      if \<not> isUuidShape i then badUuid rid ''id'' else
      asyncInvoke en rid ''HeartbeatSubagentService'' ''runNow'' [argStr i] ''QString'')"

definition opHbCancelRun :: wire_op where
  "opHbCancelRun en s rid P =
     (let r = strOf P ''run_id'' in
      if \<not> nonEmptyBounded r then required rid ''run_id'' else
      Fire ''HeartbeatSubagentService'' ''cancelRun'' [argStr r] # queued rid)"

definition opHbRecentRuns :: wire_op where
  "opHbRecentRuns en s rid P =
     (let n = toIntOr (member_of P ''limit'') 50 in
      asyncInvoke en rid ''HeartbeatSubagentService'' ''recentRunsList'' [argInt (qBound 1 n 500)] ''QVariantList'')"

definition opHbNextFires :: wire_op where
  "opHbNextFires en s rid P =
     (let n = toIntOr (member_of P ''limit'') 10 in
      asyncInvoke en rid ''HeartbeatSubagentService'' ''nextFiresPreview'' [argInt (qBound 1 n 100)] ''QVariantList'')"

definition opHbConfigChanges :: wire_op where
  "opHbConfigChanges en s rid P =
     (let n = toIntOr (member_of P ''limit'') 100 in
      asyncInvoke en rid ''HeartbeatConfigService'' ''recentConfigChanges'' [argInt (qBound 1 n 500)] ''QVariantList'')"

definition opHbConfigStatus :: wire_op where
  "opHbConfigStatus en s rid P =
     (let i = strOf P ''id'' in
      if \<not> isUuidShape i then badUuid rid ''id'' else
      asyncInvoke en rid ''HeartbeatSubagentService'' ''configStatus'' [argStr i] ''QVariantMap'')"

definition opHbManualPost :: wire_op where
  "opHbManualPost en s rid P =
     (let r = strOf P ''report_id'';
          c = strOf P ''target_conv_id'' in
      if \<not> nonEmptyBounded r \<or> \<not> isUuidShape c then invalid rid ''bad params'' else
      asyncInvoke en rid ''HeartbeatSubagentService'' ''manualPost'' [argStr r, argStr c] ''bool'')"

definition opHbManualDismiss :: wire_op where
  "opHbManualDismiss en s rid P =
     (let r = strOf P ''report_id'' in
      if \<not> nonEmptyBounded r then required rid ''report_id'' else
      asyncInvoke en rid ''HeartbeatSubagentService'' ''manualDismiss'' [argStr r] ''bool'')"

definition opHbCapForConv :: wire_op where
  "opHbCapForConv en s rid P =
     (let c = strOf P ''conv_id'' in
      if \<not> isUuidShape c then badUuid rid ''conv_id'' else
      callHost en rid (Invoke ''HeartbeatConfigService'' ''suggestedAutoSurfaceCap'' [argStr c] ''int'') 5000 (WrapInt rid ''cap''))"

definition opHbCapForFolder :: wire_op where
  "opHbCapForFolder en s rid P =
     (let f = strOf P ''folder_id'' in
      if \<not> isUuidShape f then badUuid rid ''folder_id'' else
      callHost en rid (Invoke ''HeartbeatConfigService'' ''suggestedAutoSurfaceCapForFolder'' [argStr f] ''int'') 5000 (WrapInt rid ''cap''))"

section \<open>Settings of a conversation\<close>

definition opConvSettingsGet :: wire_op where
  "opConvSettingsGet en s rid P =
     (let c = strOf P ''conv_id'' in
      if \<not> isUuidShape c then badUuid rid ''conv_id'' else
      withDb en rid
        (let base = db_conversationSettings (en_db en) c in
         if \<not> en_hostUp en then [sendOk rid (JObj base)]
         else [Ask (Invoke ''Conversations'' ''heartbeatAutoSurface'' [argStr c] ''bool'') 5000 (SettingsGate rid c base)]))"

definition settingsKeys :: "(string \<times> string) list" where
  "settingsKeys =
    [(''system_prompt'', ''systemPrompt''), (''temperature'', ''temperature''), (''max_tokens'', ''maxTokens''),
     (''context_window'', ''contextWindow''), (''streaming'', ''streaming''), (''thinking'', ''thinking''),
     (''top_k'', ''topK''), (''top_p'', ''topP''), (''repeat_penalty'', ''repeatPenalty''),
     (''presence_penalty'', ''presencePenalty''), (''frequency_penalty'', ''frequencyPenalty''), (''force_app_sampling'', ''forceAppSampling''),
     (''tools_in_system_prompt'', ''toolsInSystemPrompt''), (''dynamic_compact_enabled'', ''dynamicCompactEnabled''), (''implicit_task_completion'', ''implicitTaskCompletion''),
     (''compact_every_turns'', ''compactEveryTurns''), (''rag_enabled'', ''ragEnabled''), (''aim_enabled'', ''aimEnabled''),
     (''acn_enabled'', ''acnEnabled''), (''max_auto_rounds'', ''maxAutoRounds'')]"

definition conversationConfig :: "json_object \<Rightarrow> json_object" where
  "conversationConfig P =
     fold (\<lambda>(snake, camel) cfg. if hasKey P snake then putValue camel (member_of P snake) cfg else cfg) settingsKeys []"

definition opConvSettingsSave :: wire_op where
  "opConvSettingsSave en s rid P =
     (let c = strOf P ''conv_id'' in
      if \<not> isUuidShape c then badUuid rid ''conv_id'' else
      requireHostOnline en rid
        (Fire ''ChatController'' ''switchConversation'' [argStr c] #
         Fire ''AgentSettings'' ''saveConversationConfig'' [argMap (conversationConfig P)] # queued rid))"

definition opConvPrimaryAgent :: wire_op where
  "opConvPrimaryAgent en s rid P =
     (let c = strOf P ''conv_id'' in
      if \<not> isUuidShape c then badUuid rid ''conv_id'' else
      asyncInvokeWrapId en rid ''TaskController'' ''primaryAgentId'' [argStr c] ''agent_id'')"

definition opConvPrimaryAgentSet :: wire_op where
  "opConvPrimaryAgentSet en s rid P =
     (let c = strOf P ''conv_id'';
          a = strOf P ''agent_id'' in
      if \<not> isUuidShape c then badUuid rid ''conv_id'' else
      Fire ''TaskController'' ''setPrimaryAgent'' [argStr c, argStr a] # queued rid)"

definition opConvHbGate :: wire_op where
  "opConvHbGate en s rid P =
     (let c = strOf P ''conv_id'' in
      if \<not> isUuidShape c then badUuid rid ''conv_id'' else
      callHost en rid (Invoke ''Conversations'' ''heartbeatAutoSurface'' [argStr c] ''bool'') 5000 (GateAllow rid c))"

definition opConvHbGateSet :: wire_op where
  "opConvHbGateSet en s rid P =
     (let c = strOf P ''conv_id'';
          a = toBoolOr (member_of P ''allow'') False;
          n = toIntOr (member_of P ''max_per_day'') 1 in
      if \<not> isUuidShape c then badUuid rid ''conv_id'' else
      asyncInvoke en rid ''Conversations'' ''setHeartbeatAutoSurface'' [argStr c, argBool a, argInt (qBound 1 n 24)] ''bool'')"

definition opAgentPattern :: wire_op where
  "opAgentPattern en s rid P =
     (let c = strOf P ''conv_id'' in
      if \<not> isUuidShape c then badUuid rid ''conv_id'' else
      withDb en rid (let settings = db_conversationSettings (en_db en) c in let pattern = strOf settings ''agentPattern'' in
         [sendOk rid (JObj [(''pattern'', JStr (if pattern = [] then ''direct'' else pattern))])]))"

definition opAgentPatternSet :: wire_op where
  "opAgentPatternSet en s rid P =
     (let c = strOf P ''conv_id'';
          p = strOf P ''pattern'' in
      if \<not> isUuidShape c then badUuid rid ''conv_id'' else
      if \<not> nonEmptyBounded p then required rid ''pattern'' else
      Fire ''ChatController'' ''switchConversation'' [argStr c] #
      Fire ''AgentSettings'' ''setAgentPattern'' [argStr p] # queued rid)"

definition opAgentRequireConfirm :: wire_op where
  "opAgentRequireConfirm en s rid P =
     (let c = strOf P ''conv_id'' in
      if \<not> isUuidShape c then badUuid rid ''conv_id'' else
      withDb en rid (let settings = db_conversationSettings (en_db en) c in [sendOk rid (JObj [(''require'', JBool (toBoolOr (member_of settings ''requireConfirmation'') False))])]))"

definition opAgentRequireConfirmSet :: wire_op where
  "opAgentRequireConfirmSet en s rid P =
     (let c = strOf P ''conv_id'';
          r = toBoolOr (member_of P ''require'') False in
      if \<not> isUuidShape c then badUuid rid ''conv_id'' else
      Fire ''ChatController'' ''switchConversation'' [argStr c] #
      Fire ''AgentSettings'' ''setRequireConfirmation'' [argBool r] # queued rid)"

definition opToolsEnabled :: wire_op where
  "opToolsEnabled en s rid P =
     (let c = strOf P ''conv_id'' in
      if \<not> isUuidShape c then badUuid rid ''conv_id'' else
      withDb en rid (let settings = db_conversationSettings (en_db en) c in [sendOk rid (JObj [(''enabled'', JBool (toBoolOr (member_of settings ''toolsEnabled'') True))])]))"

definition opToolsEnabledSet :: wire_op where
  "opToolsEnabledSet en s rid P =
     (let c = strOf P ''conv_id'';
          e = toBoolOr (member_of P ''enabled'') False in
      if \<not> isUuidShape c then badUuid rid ''conv_id'' else
      Fire ''ChatController'' ''switchConversation'' [argStr c] #
      Ask (PropertySet ''AgentSettings'' ''toolsEnabled'' ''bool'' (JBool e)) 5000 NoCallback # queued rid)"

section \<open>Plans\<close>

definition opPlanListForConv :: wire_op where
  "opPlanListForConv en s rid P =
     (let c = strOf P ''conv_id'' in
      if \<not> isUuidShape c then badUuid rid ''conv_id'' else
      withDb en rid [sendOk rid (JArr (db_plansForConversation (en_db en) c))])"

definition opPlanGet :: wire_op where
  "opPlanGet en s rid P =
     (let i = strOf P ''id'' in
      if \<not> isUuidShape i then badUuid rid ''id'' else
      withDb en rid (let row = db_planById (en_db en) i in if row = [] then [sendErr rid ''not_found'' ''no such plan''] else [sendOk rid (JObj row)]))"

definition opTaskStart :: wire_op where
  "opTaskStart en s rid P =
     (let c = strOf P ''conv_id'';
          g = strOf P ''goal'' in
      if \<not> isUuidShape c then badUuid rid ''conv_id'' else
      if \<not> nonEmptyBounded g then required rid ''goal'' else
      Fire ''TaskController'' ''userInitiatedStartTask'' [argStr c, argStr g] # queued rid)"

definition opPlanStop :: wire_op where
  "opPlanStop en s rid P =
     (let p = strOf P ''plan_id'';
          r = toStringOr (member_of P ''reason'') ''Stopped by user'' in
      if \<not> isUuidShape p then badUuid rid ''plan_id'' else
      asyncInvoke en rid ''TaskController'' ''stopPlan'' [argStr p, argStr r] ''bool'')"

definition opPlanStopAllInConv :: wire_op where
  "opPlanStopAllInConv en s rid P =
     (let c = strOf P ''conv_id'' in
      if \<not> isUuidShape c then badUuid rid ''conv_id'' else
      callHost en rid (Invoke ''TaskController'' ''stopAllActivePlansInConversation'' [argStr c] ''int'') 5000 (WrapInt rid ''stopped_count''))"

definition opStepRetry :: wire_op where
  "opStepRetry en s rid P =
     (let i = strOf P ''step_id'';
          n = strOf P ''notes'' in
      if \<not> isUuidShape i then badUuid rid ''step_id'' else
      asyncInvoke en rid ''TaskController'' ''retryStep'' [argStr i, argStr n] ''bool'')"

definition opStepOverrideDone :: wire_op where
  "opStepOverrideDone en s rid P =
     (let i = strOf P ''step_id'' in
      if \<not> isUuidShape i then badUuid rid ''step_id'' else
      asyncInvoke en rid ''TaskController'' ''overrideStepAsDone'' [argStr i] ''bool'')"

definition opStepSkip :: wire_op where
  "opStepSkip en s rid P =
     (let i = strOf P ''step_id'';
          r = toStringOr (member_of P ''reason'') ''Skipped by user'' in
      if \<not> isUuidShape i then badUuid rid ''step_id'' else
      asyncInvoke en rid ''TaskController'' ''skipStep'' [argStr i, argStr r] ''bool'')"

section \<open>Tool calls\<close>

definition opToolCallListForConv :: wire_op where
  "opToolCallListForConv en s rid P =
     (let c = strOf P ''conv_id'' in
      if \<not> isUuidShape c then badUuid rid ''conv_id'' else
      withDb en rid [sendOk rid (JArr (db_toolCallsForConversation (en_db en) c))])"

definition opToolCallListForMessage :: wire_op where
  "opToolCallListForMessage en s rid P =
     (let m = strOf P ''message_id'' in
      if \<not> isUuidShape m then badUuid rid ''message_id'' else
      withDb en rid [sendOk rid (JArr (db_toolCallsForMessage (en_db en) m))])"

definition opToolCallGet :: wire_op where
  "opToolCallGet en s rid P =
     (let i = strOf P ''id'' in
      if \<not> isUuidShape i then badUuid rid ''id'' else
      withDb en rid (let row = db_toolCallById (en_db en) i in if row = [] then [sendErr rid ''not_found'' ''no such tool call''] else [sendOk rid (JObj row)]))"

definition opToolCallListForTurn :: wire_op where
  "opToolCallListForTurn en s rid P =
     (let t = strOf P ''message_id'';
          a = strOf P ''agent_id'' in
      if \<not> isUuidShape t then badUuid rid ''message_id'' else
      if a \<noteq> [] \<and> \<not> isUuidShape a then invalid rid (quoted ''agent_id'' @ '' must be UUID or empty'') else
      withDb en rid [sendOk rid (JArr (db_toolCallsForTurn (en_db en) t a))])"

definition opToolCallApprove :: wire_op where
  "opToolCallApprove en s rid P =
     (let c = strOf P ''call_id'' in
      if \<not> isUuidShape c then badUuid rid ''call_id'' else
      Fire ''AgentService'' ''approveToolCall'' [argStr c] # queued rid)"

definition opToolCallDeny :: wire_op where
  "opToolCallDeny en s rid P =
     (let c = strOf P ''call_id'' in
      if \<not> isUuidShape c then badUuid rid ''call_id'' else
      Fire ''AgentService'' ''denyToolCall'' [argStr c] # queued rid)"

section \<open>Attachments, artifacts, images and audio\<close>

definition opAttachmentListForMsg :: wire_op where
  "opAttachmentListForMsg en s rid P =
     (let m = strOf P ''message_id'' in
      if \<not> isUuidShape m then badUuid rid ''message_id'' else
      withDb en rid [sendOk rid (JArr (db_attachmentsForMessage (en_db en) m))])"

definition opAttachmentGet :: wire_op where
  "opAttachmentGet en s rid P =
     (let i = strOf P ''id'' in
      if \<not> isUuidShape i then badUuid rid ''id'' else
      withDb en rid (let row = db_attachmentBytes (en_db en) i in if row = [] then [sendErr rid ''not_found'' ''attachment missing or oversized''] else [sendOk rid (JObj row)]))"

definition opArtifactListForConv :: wire_op where
  "opArtifactListForConv en s rid P =
     (let c = strOf P ''conv_id'' in
      if \<not> isUuidShape c then badUuid rid ''conv_id'' else
      withDb en rid [sendOk rid (JArr (db_artifactsForConversation (en_db en) c))])"

definition opArtifactDownload :: wire_op where
  "opArtifactDownload en s rid P =
     (let c = strOf P ''conv_id'';
          n = strOf P ''file_name'' in
      if \<not> isUuidShape c \<or> \<not> isSafeFileName n then invalid rid ''bad params'' else
      withDb en rid (let row = db_artifactBytes (en_db en) c n in if row = [] then [sendErr rid ''not_found'' ''no such artifact''] else [sendOk rid (JObj row)]))"

definition opImageListForConv :: wire_op where
  "opImageListForConv en s rid P =
     (let c = strOf P ''conv_id'' in
      if \<not> isUuidShape c then badUuid rid ''conv_id'' else
      callHost en rid (Invoke ''ImageService'' ''conversationImages'' [argStr c] ''QStringList'') 5000 (MediaFiles rid))"

definition opAudioListForConv :: wire_op where
  "opAudioListForConv en s rid P =
     (let c = strOf P ''conv_id'' in
      if \<not> isUuidShape c then badUuid rid ''conv_id'' else
      callHost en rid (Invoke ''AudioService'' ''conversationAudio'' [argStr c] ''QStringList'') 5000 (MediaFiles rid))"

definition opImageDownload :: wire_op where
  "opImageDownload en s rid P =
     (let c = strOf P ''conv_id'';
          n = strOf P ''file_name'' in
      if \<not> isUuidShape c \<or> \<not> isSafeFileName n then invalid rid ''bad params'' else
      callHost en rid (Invoke ''ImageService'' ''conversationImages'' [argStr c] ''QStringList'') 5000 (MediaFile rid n))"

definition opAudioDownload :: wire_op where
  "opAudioDownload en s rid P =
     (let c = strOf P ''conv_id'';
          n = strOf P ''file_name'' in
      if \<not> isUuidShape c \<or> \<not> isSafeFileName n then invalid rid ''bad params'' else
      callHost en rid (Invoke ''AudioService'' ''conversationAudio'' [argStr c] ''QStringList'') 5000 (MediaFile rid n))"

text \<open>The attachments are staged one after the other; the first that cannot be saved ends the operation.\<close>

fun stageAll :: "wire_env \<Rightarrow> json list \<Rightarrow> string + string list" where
  "stageAll en [] = Inr []"
| "stageAll en (v # vs) =
     (let fn = strOf (toObject (Some v)) ''filename'';
          staged = en_stage en fn (strOf (toObject (Some v)) ''content_base64'') in
      if staged = [] then Inl fn
      else case stageAll en vs of Inl e \<Rightarrow> Inl e | Inr ps \<Rightarrow> Inr (staged # ps))"

definition opMsgSendWithAttachments :: wire_op where
  "opMsgSendWithAttachments en s rid P =
     (let c = strOf P ''conv_id'';
          t = strOf P ''text'';
          atts = toArray (member_of P ''attachments'') in
      if \<not> isUuidShape c then badUuid rid ''conv_id'' else
      if atts = [] then required rid ''attachments'' else
      (case stageAll en atts of
         Inl fn \<Rightarrow> invalid rid (''attachment '' @ quoted fn @
             '' could not be saved (invalid data, too large, or a write error)'')
       | Inr paths \<Rightarrow>
           Fire ''ChatController'' ''switchConversation'' [argStr c] #
           Fire ''ChatController'' ''sendMessageWithAttachments'' [argStr t, argStringList paths] # queued rid))"

end
