(* ===== verification/Wire_Ops_Canvas.thy ===== *)
theory Wire_Ops_Canvas
  imports Wire_Ops_Work
begin

text \<open>
  The operations of a client on the canvas, polls, activity, project templates and workspace mounts
  (remote/server/wire-session.cpp).
\<close>

section \<open>The canvas\<close>

definition opCanvasActiveForConv :: wire_op where
  "opCanvasActiveForConv en s rid P =
     (let c = strOf P ''conv_id'' in
      if \<not> isUuidShape c then badUuid rid ''conv_id'' else
      asyncInvoke en rid ''Canvas'' ''activeCanvasFor'' [argStr c] ''QVariantMap'')"

definition opCanvasHistoryForConv :: wire_op where
  "opCanvasHistoryForConv en s rid P =
     (let c = strOf P ''conv_id'' in
      if \<not> isUuidShape c then badUuid rid ''conv_id'' else
      asyncInvoke en rid ''Canvas'' ''historyForConversation'' [argStr c] ''QVariantList'')"

definition opCanvasDiskMirrorPath :: wire_op where
  "opCanvasDiskMirrorPath en s rid P =
     (let c = strOf P ''conv_id'' in
      if \<not> isUuidShape c then badUuid rid ''conv_id'' else
      asyncInvokeWrapId en rid ''Canvas'' ''diskMirrorPath'' [argStr c] ''path'')"

definition opCanvasSuggestedExportName :: wire_op where
  "opCanvasSuggestedExportName en s rid P =
     (let c = strOf P ''conv_id'' in
      if \<not> isUuidShape c then badUuid rid ''conv_id'' else
      asyncInvokeWrapId en rid ''Canvas'' ''suggestedExportName'' [argStr c] ''file_name'')"

definition opCanvasReadSlice :: wire_op where
  "opCanvasReadSlice en s rid P =
     (let c = strOf P ''conv_id'';
          from = toIntOr (member_of P ''start_line'') 1;
          upto = toIntOr (member_of P ''end_line'') (-1) in
      if \<not> isUuidShape c then badUuid rid ''conv_id'' else
      if from \<le> 0 then invalid rid (quoted ''start_line'' @ '' must be positive'') else
      asyncInvokeWrapId en rid ''Canvas'' ''readCanvasSlice'' [argStr c, argInt from, argInt upto] ''content'')"

definition opCanvasOpen :: wire_op where
  "opCanvasOpen en s rid P =
     (let c = strOf P ''conv_id'';
          f = strOf P ''filename'';
          lang = strOf P ''language'';
          content = strOf P ''content'';
          src = strOf P ''source_msg_id'' in
      if \<not> isUuidShape c then badUuid rid ''conv_id'' else
      if \<not> isSafeFileName f then invalid rid (quoted ''filename'' @ '' invalid'') else
      if kMaxContentBytes < int (length content) then [sendErr rid ''payload_too_large'' ''content exceeds size limit''] else
      asyncInvokeWrapId en rid ''Canvas'' ''openCanvas'' [argStr c, argStr f, argStr lang, argStr content, argStr src] ''canvas_id'')"

definition opCanvasEdit :: wire_op where
  "opCanvasEdit en s rid P =
     (let c = strOf P ''conv_id'';
          content = strOf P ''content'' in
      if \<not> isUuidShape c then badUuid rid ''conv_id'' else
      if kMaxContentBytes < int (length content) then [sendErr rid ''payload_too_large'' ''content exceeds size limit''] else
      asyncInvoke en rid ''Canvas'' ''editCanvas'' [argStr c, argStr content] ''bool'')"

definition opCanvasClose :: wire_op where
  "opCanvasClose en s rid P =
     (let c = strOf P ''conv_id'' in
      if \<not> isUuidShape c then badUuid rid ''conv_id'' else
      asyncInvoke en rid ''Canvas'' ''closeCanvas'' [argStr c] ''bool'')"

definition opCanvasSwitchTo :: wire_op where
  "opCanvasSwitchTo en s rid P =
     (let c = strOf P ''conv_id'';
          i = strOf P ''canvas_id'' in
      if \<not> isUuidShape c \<or> \<not> isUuidShape i then invalid rid ''bad params'' else
      asyncInvoke en rid ''Canvas'' ''switchToCanvas'' [argStr c, argStr i] ''bool'')"

definition opCanvasToolsList :: wire_op where
  "opCanvasToolsList en s rid P =
     (let lang = strOf P ''language'' in
      asyncInvoke en rid ''Canvas'' ''availableActionsForLanguage'' [argStr lang] ''QVariantList'')"

definition opCanvasToolsRun :: wire_op where
  "opCanvasToolsRun en s rid P =
     (let c = strOf P ''conv_id'';
          a = strOf P ''action_id'' in
      if \<not> isUuidShape c \<or> \<not> nonEmptyBounded a then invalid rid ''bad params'' else
      asyncInvoke en rid ''Canvas'' ''performAction'' [argStr c, argStr a] ''QVariantMap'')"

definition opCanvasAiActionsList :: wire_op where
  "opCanvasAiActionsList en s rid P =
     (let lang = strOf P ''language'' in
      asyncInvoke en rid ''CanvasAiActions'' ''availableForLanguage'' [argStr lang] ''QVariantList'')"

definition opCanvasAiActionsTrigger :: wire_op where
  "opCanvasAiActionsTrigger en s rid P =
     (let a = strOf P ''action_id'';
          m = strOf P ''submenu_choice'';
          c = strOf P ''conv_id'' in
      if \<not> nonEmptyBounded a then required rid ''action_id'' else
      if c \<noteq> [] \<and> \<not> isUuidShape c then badUuid rid ''conv_id'' else
      (if c \<noteq> [] then [Fire ''ChatController'' ''switchConversation'' [argStr c]] else []) @
      asyncInvoke en rid ''CanvasAiActions'' ''trigger'' [argStr a, argStr m] ''bool'')"

definition opCanvasRunStart :: wire_op where
  "opCanvasRunStart en s rid P =
     (let c = strOf P ''conv_id'' in
      if \<not> isUuidShape c then badUuid rid ''conv_id'' else
      asyncInvoke en rid ''CanvasRunner'' ''runActiveCanvas'' [argStr c] ''bool'')"

definition opCanvasRunCancel :: wire_op where
  "opCanvasRunCancel en s rid P =
     Fire ''CanvasRunner'' ''cancel'' [] # queued rid"

text \<open>The size of an input line is measured in the bytes of its UTF-8 form.\<close>

definition opCanvasRunSendInput :: wire_op where
  "opCanvasRunSendInput en s rid P =
     (case member_of P ''text'' of
        Some (JStr t) \<Rightarrow>
          if kMaxStdinBytes < int (length (utf8 t))
          then [sendErr rid ''payload_too_large'' ''stdin write exceeds size limit'']
          else requireHostOnline en rid (Fire ''CanvasRunner'' ''sendInput'' [argStr t] # queued rid)
      | _ \<Rightarrow> invalid rid (quoted ''text'' @ '' must be a string''))"

definition opCanvasRunEof :: wire_op where
  "opCanvasRunEof en s rid P =
     requireHostOnline en rid (Fire ''CanvasRunner'' ''sendEof'' [] # queued rid)"

definition opCanvasRunSendToIde :: wire_op where
  "opCanvasRunSendToIde en s rid P =
     (let c = strOf P ''conv_id'' in
      if \<not> isUuidShape c then badUuid rid ''conv_id'' else
      asyncInvoke en rid ''CanvasRunner'' ''sendToIde'' [argStr c] ''bool'')"

definition opCanvasRunIsRunning :: wire_op where
  "opCanvasRunIsRunning en s rid P =
     asyncInvoke en rid ''CanvasRunner'' ''isRunning'' [] ''bool''"

definition opCanvasRunSandboxState :: wire_op where
  "opCanvasRunSandboxState en s rid P =
     [sendOk rid (JObj [(''available'', JBool True), (''blocker_reason'', JStr [])])]"

definition opCanvasRunSupportedLangs :: wire_op where
  "opCanvasRunSupportedLangs en s rid P =
     asyncInvoke en rid ''CanvasRunner'' ''supportedRunLanguages'' [] ''QStringList''"

definition opCanvasRunSupportedIdeLangs :: wire_op where
  "opCanvasRunSupportedIdeLangs en s rid P =
     asyncInvoke en rid ''CanvasRunner'' ''supportedIdeLanguages'' [] ''QStringList''"

definition opCanvasConsoleClear :: wire_op where
  "opCanvasConsoleClear en s rid P =
     Fire ''CanvasConsoleModel'' ''clear'' [] # queued rid"

section \<open>Polls\<close>

text \<open>These operations check again that the session is authenticated.\<close>

definition requireAuth :: "wire_session \<Rightarrow> string \<Rightarrow> wire_effect list \<Rightarrow> wire_effect list" where
  "requireAuth s rid es =
     (if isAuthenticated s then es else [sendErr rid ''auth_required'' ''op requires authentication''])"

definition opPollList :: wire_op where
  "opPollList en s rid P =
     requireAuth s rid
     (let c = strOf P ''conv_id'';
          openOnly = toBoolOr (member_of P ''open_only'') True in
      if \<not> isUuidShape c then badUuid rid ''conv_id'' else
      asyncInvoke en rid ''PollService'' ''pollsForConversation'' [argStr c, argBool openOnly] ''QVariantList'')"

definition opPollResults :: wire_op where
  "opPollResults en s rid P =
     requireAuth s rid
     (let p = strOf P ''poll_id'' in
      if \<not> isUuidShape p then badUuid rid ''poll_id'' else
      asyncInvoke en rid ''PollService'' ''pollResults'' [argStr p] ''QVariantMap'')"

definition opPollStart :: wire_op where
  "opPollStart en s rid P =
     requireAuth s rid
     (let c = strOf P ''conv_id'';
          question = strOf P ''question'';
          opts = toArray (member_of P ''options'');
          mode = toStringOr (member_of P ''mode'') ''single'';
          n = toIntOr (member_of P ''closes_in_minutes'') 0 in
      if \<not> isUuidShape c then badUuid rid ''conv_id'' else
      if trimmed question = [] then invalid rid (quoted ''question'' @ '' must be non-empty'') else
      if length opts < 2 \<or> 10 < length opts then invalid rid (quoted ''options'' @ '' must be 2..10 strings'') else
      asyncInvokeWrapId en rid ''PollService'' ''createPoll''
        [argStr c, argStr ''user'', argStr ''user'', argStr question, argStringList (strings (Some (JArr opts))),
         argStr mode, argInt n] ''poll_id'')"

definition opPollVote :: wire_op where
  "opPollVote en s rid P =
     requireAuth s rid
     (let p = strOf P ''poll_id'';
          i = strOf P ''option_id'';
          t = strOf P ''option_text'' in
      if \<not> isUuidShape p then badUuid rid ''poll_id'' else
      if i = [] \<and> t = [] then invalid rid (''either '' @ quoted ''option_id'' @ '' or '' @ quoted ''option_text'' @ '' required'') else
      if i \<noteq> []
      then asyncInvoke en rid ''PollService'' ''castVoteByOptionId'' [argStr p, argStr ''user'', argStr ''user'', argStr i] ''bool''
      else asyncInvoke en rid ''PollService'' ''castVoteByOptionText'' [argStr p, argStr ''user'', argStr ''user'', argStr t] ''bool'')"

definition opPollClose :: wire_op where
  "opPollClose en s rid P =
     requireAuth s rid
     (let p = strOf P ''poll_id'' in
      if \<not> isUuidShape p then badUuid rid ''poll_id'' else
      asyncInvoke en rid ''PollService'' ''closePoll'' [argStr p] ''bool'')"

section \<open>Activity\<close>

definition opActivityForProject :: wire_op where
  "opActivityForProject en s rid P =
     requireAuth s rid
     (let f = strOf P ''folder_id'';
          n = toIntOr (member_of P ''limit'') 100 in
      if \<not> isUuidShape f then badUuid rid ''folder_id'' else
      asyncInvoke en rid ''AuditService'' ''recentActivityForProject'' [argStr f, argInt n] ''QVariantList'')"

definition opActivityForConversation :: wire_op where
  "opActivityForConversation en s rid P =
     requireAuth s rid
     (let c = strOf P ''conv_id'';
          n = toIntOr (member_of P ''limit'') 100 in
      if \<not> isUuidShape c then badUuid rid ''conv_id'' else
      asyncInvoke en rid ''AuditService'' ''recentActivityForConversation'' [argStr c, argInt n] ''QVariantList'')"

definition opActivityByTurn :: wire_op where
  "opActivityByTurn en s rid P =
     requireAuth s rid
     (let t = strOf P ''turn_id'' in
      if t = [] then invalid rid (quoted ''turn_id'' @ '' is required'') else
      asyncInvoke en rid ''AuditService'' ''recentActivityByTurn'' [argStr t] ''QVariantList'')"

section \<open>Project templates\<close>

definition opProjectTemplateList :: wire_op where
  "opProjectTemplateList en s rid P =
     requireAuth s rid
     (asyncInvoke en rid ''ProjectTemplateService'' ''templates'' [] ''QVariantList'')"

definition opProjectTemplateListLanding :: wire_op where
  "opProjectTemplateListLanding en s rid P =
     requireAuth s rid
     (asyncInvoke en rid ''ProjectTemplateService'' ''landingTemplates'' [] ''QVariantList'')"

definition opProjectTemplateGet :: wire_op where
  "opProjectTemplateGet en s rid P =
     requireAuth s rid
     (let i = strOf P ''id'' in
      if i = [] then invalid rid (quoted ''id'' @ '' is required'') else
      asyncInvoke en rid ''ProjectTemplateService'' ''templateById'' [argStr i] ''QVariantMap'')"

definition opProjectTemplateRoster :: wire_op where
  "opProjectTemplateRoster en s rid P =
     requireAuth s rid
     (let i = strOf P ''id'' in
      if i = [] then invalid rid (quoted ''id'' @ '' is required'') else
      asyncInvoke en rid ''ProjectTemplateService'' ''templateRoster'' [argStr i] ''QVariantList'')"

definition opProjectTemplateCreateProject :: wire_op where
  "opProjectTemplateCreateProject en s rid P =
     requireAuth s rid
     (let i = strOf P ''id'';
          ob = toObject (member_of P ''customisations'') in
      if i = [] then invalid rid (quoted ''id'' @ '' is required'') else
      asyncInvokeWrapId en rid ''ProjectTemplateService'' ''createProjectFromTemplate'' [argStr i, argMap ob] ''folder_id'')"

definition opProjectTemplatePinUser :: wire_op where
  "opProjectTemplatePinUser en s rid P =
     requireAuth s rid
     (let i = strOf P ''id'';
          pinned = toBoolOr (member_of P ''pinned'') True in
      if i = [] then invalid rid (quoted ''id'' @ '' is required'') else
      asyncInvoke en rid ''ProjectTemplateService'' ''setTemplatePinned'' [argStr i, argBool pinned] ''bool'')"

definition opProjectTemplateSaveAsNew :: wire_op where
  "opProjectTemplateSaveAsNew en s rid P =
     requireAuth s rid
     (let i = strOf P ''source_template_id'';
          ob = toObject (member_of P ''edits'') in
      asyncInvokeWrapId en rid ''ProjectTemplateService'' ''saveAsNewTemplate'' [argStr i, argMap ob] ''template_id'')"

definition opProjectTemplateDeleteUser :: wire_op where
  "opProjectTemplateDeleteUser en s rid P =
     requireAuth s rid
     (let i = strOf P ''id'' in
      if i = [] then invalid rid (quoted ''id'' @ '' is required'') else
      asyncInvoke en rid ''ProjectTemplateService'' ''deleteUserTemplate'' [argStr i] ''bool'')"

section \<open>Mounts of a workspace\<close>

text \<open>The owner of a mount is the client of the session; the client cannot name another.\<close>

definition opWorkspaceMountRegister :: wire_op where
  "opWorkspaceMountRegister en s rid P =
     requireAuth s rid
     (let f = strOf P ''folder_id'';
          m = strOf P ''mount_id'';
          label = strOf P ''owner_label'';
          tree = strOf P ''tree_json'';
          blocked = toStringOr (member_of P ''blocklist_json'') ''[]'';
          allowed = toStringOr (member_of P ''allowlist_json'') ''[]'';
          tier = toStringOr (member_of P ''permission_tier'') ''ask'';
          options = toStringOr (member_of P ''options_json'') ''{}'' in
      asyncInvoke en rid ''FolderMountRegistry'' ''registerMount''
        [argStr f, argStr m, argStr (ws_clientId s), argStr label, argStr tree, argStr blocked, argStr allowed,
         argStr tier, argStr options] ''QVariantMap'')"

definition opWorkspaceMountUnregister :: wire_op where
  "opWorkspaceMountUnregister en s rid P =
     requireAuth s rid
     (let f = strOf P ''folder_id'' in
      asyncInvoke en rid ''FolderMountRegistry'' ''unregisterMount'' [argStr f, argStr (ws_clientId s)] ''QVariantMap'')"

definition opWorkspaceMountUpdateTree :: wire_op where
  "opWorkspaceMountUpdateTree en s rid P =
     requireAuth s rid
     (let f = strOf P ''folder_id'';
          tree = strOf P ''tree_json'' in
      asyncInvoke en rid ''FolderMountRegistry'' ''updateTree'' [argStr f, argStr (ws_clientId s), argStr tree] ''QVariantMap'')"

definition opWorkspaceMountUpdateTier :: wire_op where
  "opWorkspaceMountUpdateTier en s rid P =
     requireAuth s rid
     (let f = strOf P ''folder_id'';
          tier = strOf P ''permission_tier'' in
      asyncInvoke en rid ''FolderMountRegistry'' ''updateTier'' [argStr f, argStr (ws_clientId s), argStr tier] ''QVariantMap'')"

definition opWorkspaceMountForFolder :: wire_op where
  "opWorkspaceMountForFolder en s rid P =
     requireAuth s rid
     (let f = strOf P ''folder_id'' in
      asyncInvoke en rid ''FolderMountRegistry'' ''mountFor'' [argStr f] ''QVariantMap'')"

end
