(* ===== verification/Wire_Events.thy ===== *)
theory Wire_Events
  imports Wire_Session
begin

text \<open>
  The events a session forwards to its client (WireSession::onHostSignal in remote/server/wire-session.cpp). The
  signals of wire-protocol.h fall into three groups: those passed on as they are, those passed on for a
  subscribed conversation, and those completed from the database first.
\<close>

definition withConvFilter :: "wire_session \<Rightarrow> string \<Rightarrow> json_object \<Rightarrow> wire_effect list" where
  "withConvFilter s evt args =
     (if strOf args ''conv_id'' \<notin> set (ws_subscribedConvIds s) then [] else [sendEvent evt args])"

definition enrich :: "wire_env \<Rightarrow> (wire_db \<Rightarrow> json_object) \<Rightarrow> json_object \<Rightarrow> json_object" where
  "enrich en row args = (if db_isOpen (en_db en) then putAll (row (en_db en)) args else args)"

text \<open>The first artifact of the conversation that the test accepts is announced as well.\<close>

definition artifactAdded :: "wire_env \<Rightarrow> string \<Rightarrow> (json_object \<Rightarrow> bool) \<Rightarrow> wire_effect list" where
  "artifactAdded en cid ok =
     (case find ok (map (\<lambda>v. toObject (Some v)) (db_artifactsForConversation (en_db en) cid)) of
        None \<Rightarrow> []
      | Some row \<Rightarrow> [sendEvent ''artifact.added'' (put ''conv_id'' (JStr cid) row)])"

definition withMessageEnrich :: "string \<Rightarrow> wire_env \<Rightarrow> wire_session \<Rightarrow> json_object \<Rightarrow> wire_effect list" where
  "withMessageEnrich evt en s args =
     (let cid = strOf args ''conv_id'';
          enriched = enrich en (\<lambda>db. db_messageById db (strOf args ''msg_id'')) args;
          role = strOf enriched ''role''; finish = strOf enriched ''finish_reason'' in
      if cid \<notin> set (ws_subscribedConvIds s) then []
      else sendEvent evt enriched #
        (if db_isOpen (en_db en) \<and> (role = ''tool'' \<or> (role = ''assistant'' \<and> finish = ''artifact''))
         then artifactAdded en cid (\<lambda>row. strOf row ''source_msg_id'' = strOf enriched ''msg_id'')
         else []))"

definition withToolCallEnrich :: "string \<Rightarrow> wire_env \<Rightarrow> wire_session \<Rightarrow> json_object \<Rightarrow> wire_effect list" where
  "withToolCallEnrich evt en s args =
     (if strOf args ''conv_id'' \<notin> set (ws_subscribedConvIds s) then []
      else [sendEvent evt (enrich en (\<lambda>db. db_toolCallById db (strOf args ''call_id'')) args)])"

definition enrichConvEvent :: "string \<Rightarrow> wire_env \<Rightarrow> wire_session \<Rightarrow> json_object \<Rightarrow> wire_effect list" where
  "enrichConvEvent evt en s args =
     (let cid = strOf args ''conv_id'' in
      [sendEvent evt (if cid \<noteq> [] then enrich en (\<lambda>db. db_conversationById db cid) args else args)])"

definition folderRow :: "wire_db \<Rightarrow> string \<Rightarrow> json_object" where
  "folderRow db fid =
     (case find (\<lambda>row. strOf row ''id'' = fid) (map (\<lambda>v. toObject (Some v)) (db_listAllFolders db)) of
        None \<Rightarrow> [] | Some row \<Rightarrow> row)"

definition enrichFolderEvent :: "string \<Rightarrow> wire_env \<Rightarrow> wire_session \<Rightarrow> json_object \<Rightarrow> wire_effect list" where
  "enrichFolderEvent evt en s args =
     (let fid = strOf args ''folder_id'' in
      [sendEvent evt (if fid \<noteq> [] then enrich en (\<lambda>db. folderRow db fid) args else args)])"

definition heartbeatChanged :: "wire_env \<Rightarrow> wire_session \<Rightarrow> json_object \<Rightarrow> wire_effect list" where
  "heartbeatChanged en s args =
     [sendEvent ''heartbeat.config.changed''
        (enrich en (\<lambda>db. db_heartbeatConfigById db (strOf args ''config_id'')) args)]"

definition withId :: "string \<Rightarrow> string \<Rightarrow> wire_env \<Rightarrow> wire_session \<Rightarrow> json_object \<Rightarrow> wire_effect list" where
  "withId evt key en s args = [sendEvent evt (putValue ''id'' (member_of args key) args)]"

definition planChanged :: "string \<Rightarrow> wire_env \<Rightarrow> wire_session \<Rightarrow> json_object \<Rightarrow> wire_effect list" where
  "planChanged evt en s args =
     [sendEvent evt (enrich en (\<lambda>db. db_planById db (strOf args ''plan_id'')) args)]"

definition stepChanged :: "wire_env \<Rightarrow> wire_session \<Rightarrow> json_object \<Rightarrow> wire_effect list" where
  "stepChanged en s args =
     (let pid = db_planIdForStep (en_db en) (strOf args ''step_id'') in
      [sendEvent ''step.updated''
         (if db_isOpen (en_db en) \<and> pid \<noteq> [] then put ''plan_id'' (JStr pid) args else args)])"

definition canvasChanged :: "bool \<Rightarrow> string \<Rightarrow> wire_env \<Rightarrow> wire_session \<Rightarrow> json_object \<Rightarrow> wire_effect list" where
  "canvasChanged opened evt en s args =
     (let cid = strOf args ''conv_id''; canvasId = strOf args ''canvas_id'' in
      if cid \<notin> set (ws_subscribedConvIds s) then []
      else sendEvent evt (enrich en (\<lambda>db. db_canvasArtifactById db canvasId) args) #
        (if opened \<and> db_isOpen (en_db en) then artifactAdded en cid (\<lambda>row. strOf row ''id'' = canvasId) else []))"

definition queuedForClient :: "wire_env \<Rightarrow> wire_session \<Rightarrow> json_object \<Rightarrow> wire_effect list" where
  "queuedForClient en s args =
     (if strOf args ''client_id'' = ws_clientId s
      then [sendEvent ''user.message.queued'' (putValue ''text'' (member_of args ''text'') [])] else [])"

definition completedSignals ::
  "(string \<times> (wire_env \<Rightarrow> wire_session \<Rightarrow> json_object \<Rightarrow> wire_effect list)) list" where
  "completedSignals =
    [(''MessageService.messageAdded'', withMessageEnrich ''message.added''),
     (''MessageService.messageUpdated'', withMessageEnrich ''message.updated''),
     (''MessageService.messageContentRewritten'', withMessageEnrich ''message.updated''),
     (''MessageService.toolCallAdded'', withToolCallEnrich ''tool_call.added''),
     (''MessageService.toolCallUpdated'', withToolCallEnrich ''tool_call.updated''),
     (''ConversationService.conversationCreated'', enrichConvEvent ''conv.added''),
     (''ConversationService.conversationUpdated'', enrichConvEvent ''conv.updated''),
     (''ConversationController.conversationRenamed'', enrichConvEvent ''conv.renamed''),
     (''ConversationService.folderCreated'', enrichFolderEvent ''folder.added''),
     (''ConversationService.folderUpdated'', enrichFolderEvent ''folder.updated''),
     (''HeartbeatConfigService.configChanged'', heartbeatChanged),
     (''HeartbeatConfigService.configRemoved'', withId ''heartbeat.config.removed'' ''config_id''),
     (''PlanService.planCreated'', planChanged ''plan.created''),
     (''PlanService.planUpdated'', planChanged ''plan.updated''),
     (''PlanService.planDeleted'', withId ''plan.deleted'' ''plan_id''),
     (''PlanService.stepUpdated'', stepChanged),
     (''CanvasService.canvasOpened'', canvasChanged True ''canvas.opened''),
     (''CanvasService.canvasUpdated'', canvasChanged False ''canvas.updated''),
     (''ChatController.userMessageQueued'', queuedForClient)]"

definition conversationSignals :: "(string \<times> string) list" where
  "conversationSignals =
    [(''MessageService.messageDeleted'', ''message.deleted''),
     (''MessageService.messageStreamingStarted'', ''message.streaming.started''),
     (''MessageService.messageContentStreamed'', ''message.streaming.delta''),
     (''MessageService.messageStreamingAborted'', ''message.streaming.aborted''),
     (''MessageService.contextFillMeasured'', ''chat.context_fill.changed''),
     (''ImageService.imageGenerated'', ''image.generated''),
     (''AudioService.audioGenerated'', ''audio.generated''),
     (''CanvasService.canvasClosed'', ''canvas.closed'')]"

definition plainSignals :: "(string \<times> string) list" where
  "plainSignals =
    [(''MessageService.userMentioned'', ''chat.user_mentioned''),
     (''ConversationService.conversationDeleted'', ''conv.deleted''),
     (''ConversationService.folderDeleted'', ''folder.deleted''),
     (''MembershipService.projectMembersChanged'', ''folder.members.changed''),
     (''MembershipService.conversationMembersChanged'', ''conv.members.changed''),
     (''AgentService.agentStepStarted'', ''agent.step.started''),
     (''AgentService.agentStepCompleted'', ''agent.step.completed''),
     (''AgentService.isRunningChanged'', ''agent.run.state''),
     (''AgentService.iterationChanged'', ''agent.run.state''),
     (''AgentService.toolCallRequested'', ''tool_call.requested''),
     (''AgentService.toolCallCompleted'', ''tool_call.completed''),
     (''CanvasService.errorOccurred'', ''canvas.error''),
     (''CanvasConsoleModel.lineAppended'', ''canvas.run.line''),
     (''CanvasRunner.runningChanged'', ''canvas.run.state''),
     (''AgentSettingsController.agentPatternChanged'', ''agent.pattern.changed''),
     (''AgentSettingsController.requireConfirmationChanged'', ''agent.require_confirmation.changed''),
     (''AgentSettingsController.toolsEnabledChanged'', ''tools.enabled.changed''),
     (''AgentSettingsController.activeProviderChanged'', ''models.active_changed''),
     (''AgentSettingsController.modelsRefreshed'', ''models.refreshed''),
     (''AgentSettingsController.activeConversationSettingsChanged'', ''conv.settings.changed''),
     (''PollService.pollCreated'', ''poll.created''),
     (''PollService.pollUpdated'', ''poll.updated''),
     (''PollService.pollClosed'', ''poll.closed''),
     (''PollService.voteCast'', ''poll.vote_cast''),
     (''ProjectTemplateService.projectCreatedFromTemplate'', ''project_template.project_created''),
     (''ProjectTemplateService.catalogChanged'', ''project_template.catalog_changed'')]"

definition onHostSignal :: "wire_env \<Rightarrow> string \<Rightarrow> json_object \<Rightarrow> wire_session \<Rightarrow> wire_effect list" where
  "onHostSignal en name args s =
     (if \<not> isAuthenticated s then []
      else case map_of completedSignals name of
          Some handler \<Rightarrow> handler en s args
        | None \<Rightarrow>
            (case map_of conversationSignals name of
               Some evt \<Rightarrow> withConvFilter s evt args
             | None \<Rightarrow>
                 (case map_of plainSignals name of
                    Some evt \<Rightarrow> [sendEvent evt args]
                  | None \<Rightarrow> [])))"

end
