(* ===== verification/Wire_Daemon.thy ===== *)
theory Wire_Daemon
  imports Wire_Ops_Canvas Wire_Events
begin

text \<open>
  The daemon verzeta-remote: the sessions of the server (remote/server/wire-server.cpp), the dispatch of a
  client's frame (remote/server/wire-session.cpp) and the link to the host (remote/server/wire-host-client.cpp)
  with the calls that await an answer. Frames are parsed by Qt; the model starts from the parsed value.
\<close>

section \<open>Dispatch of a request\<close>

definition opTable :: "(string \<times> wire_op) list" where
  "opTable =
    [
(''conv.list'', opConvList),
     (''conv.get'', opConvGet),
     (''msg.list'', opMsgList),
     (''msg.send'', opMsgSend),
     (''msg.stop'', opMsgStop),
     (''conv.create'', opConvCreate),
     (''conv.create_with_agent'', opConvCreateWithAgent),
     (''conv.rename'', opConvRename),
     (''conv.set_pinned'', opConvSetPinned),
     (''conv.delete'', opConvDelete),
     (''conv.move_to_folder'', opConvMoveToFolder),
     (''conv.is_group'', opConvIsGroup),
     (''conv.group_members'', opConvGroupMembers),
     (''conv.folder_id'', opConvFolderId),
     (''conv.open'', opConvOpen),
     (''folder.list_projects'', opFolderListProjects),
     (''folder.list_all'', opFolderListAll),
     (''folder.conversations'', opFolderConversations),
     (''folder.create'', opFolderCreate),
     (''folder.rename'', opFolderRename),
     (''folder.delete'', opFolderDelete),
     (''folder.info'', opFolderInfo),
     (''folder.update_metadata'', opFolderUpdateMetadata),
     (''group.create'', opGroupCreate),
     (''models.catalog'', opModelsCatalog),
     (''models.set_active'', opModelsSetActive),
     (''models.active'', opModelsActive),
     (''models.for_provider'', opModelsForProvider),
     (''search.providers'', opSearchProviders),
     (''search.active'', opSearchActive),
     (''search.set_active'', opSearchSetActive),
     (''agent.list'', opAgentList),
     (''agent.get'', opAgentGet),
     (''tool.list'', opToolList),
     (''mcp.list'', opMcpList),
     (''mcp.server_tools'', opMcpServerTools),
     (''skill.list'', opSkillList),
     (''skill.get'', opSkillGet),
     (''poll.list'', opPollList),
     (''poll.results'', opPollResults),
     (''poll.start'', opPollStart),
     (''poll.vote'', opPollVote),
     (''poll.close'', opPollClose),
     (''activity.for_project'', opActivityForProject),
     (''activity.for_conversation'', opActivityForConversation),
     (''activity.by_turn'', opActivityByTurn),
     (''project_template.list'', opProjectTemplateList),
     (''project_template.list_landing'', opProjectTemplateListLanding),
     (''project_template.get'', opProjectTemplateGet),
     (''project_template.roster'', opProjectTemplateRoster),
     (''project_template.create_project'', opProjectTemplateCreateProject),
     (''project_template.pin_user'', opProjectTemplatePinUser),
     (''project_template.save_as_new'', opProjectTemplateSaveAsNew),
     (''project_template.delete_user'', opProjectTemplateDeleteUser),
     (''workspace.mount.register'', opWorkspaceMountRegister),
     (''workspace.mount.unregister'', opWorkspaceMountUnregister),
     (''workspace.mount.update_tree'', opWorkspaceMountUpdateTree),
     (''workspace.mount.update_tier'', opWorkspaceMountUpdateTier),
     (''workspace.mount.for_folder'', opWorkspaceMountForFolder),
     (''folder.members'', opFolderMembers),
     (''folder.members.set'', opFolderMembersSet),
     (''folder.member.add'', opFolderMemberAdd),
     (''folder.member.override.set'', opFolderMemberOverrideSet),
     (''folder.member.remove'', opFolderMemberRemove),
     (''conv.members'', opConvMembers),
     (''conv.members.set'', opConvMembersSet),
     (''conv.member.add'', opConvMemberAdd),
     (''conv.member.remove'', opConvMemberRemove),
     (''conv.coordinator.set'', opConvCoordinatorSet),
     (''folder.documents'', opFolderDocuments),
     (''folder.documents.upload'', opFolderDocumentUpload),
     (''folder.documents.remove'', opFolderDocumentRemove),
     (''folder.kickoff.individual'', opFolderKickoffIndividual),
     (''folder.kickoff.group'', opFolderKickoffGroup),
     (''folder.member.chat.open'', opFolderMemberChatOpen),
     (''skill.preferred.list'', opSkillPreferredList),
     (''skill.preferred.set'', opSkillPreferredSet),
     (''skill.expose_only_preferred'', opSkillExposeOnly),
     (''skill.set_expose_only_preferred'', opSkillSetExposeOnly),
     (''skill.override_parent_folder'', opSkillOverrideParent),
     (''skill.set_override_parent_folder'', opSkillSetOverrideParent),
     (''heartbeat.configs_for_folder'', opHbConfigsForFolder),
     (''heartbeat.configs_for_conversation'', opHbConfigsForConv),
     (''heartbeat.config_by_id'', opHbConfigById),
     (''heartbeat.upsert'', opHbUpsert),
     (''heartbeat.remove'', opHbRemove),
     (''heartbeat.run_now'', opHbRunNow),
     (''heartbeat.cancel_run'', opHbCancelRun),
     (''heartbeat.recent_runs'', opHbRecentRuns),
     (''heartbeat.next_fires_preview'', opHbNextFires),
     (''heartbeat.recent_config_changes'', opHbConfigChanges),
     (''heartbeat.config_status'', opHbConfigStatus),
     (''heartbeat.manual_post'', opHbManualPost),
     (''heartbeat.manual_dismiss'', opHbManualDismiss),
     (''heartbeat.suggested_cap_for_conv'', opHbCapForConv),
     (''heartbeat.suggested_cap_for_folder'', opHbCapForFolder),
     (''conv.settings.get'', opConvSettingsGet),
     (''conv.settings.save'', opConvSettingsSave),
     (''conv.primary_agent'', opConvPrimaryAgent),
     (''conv.primary_agent.set'', opConvPrimaryAgentSet),
     (''conv.heartbeat.gate'', opConvHbGate),
     (''conv.heartbeat.gate.set'', opConvHbGateSet),
     (''agent.pattern'', opAgentPattern),
     (''agent.pattern.set'', opAgentPatternSet),
     (''agent.require_confirmation'', opAgentRequireConfirm),
     (''agent.require_confirmation.set'', opAgentRequireConfirmSet),
     (''tools.enabled'', opToolsEnabled),
     (''tools.enabled.set'', opToolsEnabledSet),
     (''plan.list_for_conv'', opPlanListForConv),
     (''plan.get'', opPlanGet),
     (''task.start'', opTaskStart),
     (''plan.stop'', opPlanStop),
     (''plan.stop_all_in_conv'', opPlanStopAllInConv),
     (''step.retry'', opStepRetry),
     (''step.override_done'', opStepOverrideDone),
     (''step.skip'', opStepSkip),
     (''tool_call.list_for_conv'', opToolCallListForConv),
     (''tool_call.list_for_message'', opToolCallListForMessage),
     (''tool_call.list_for_turn'', opToolCallListForTurn),
     (''tool_call.get'', opToolCallGet),
     (''tool_call.approve'', opToolCallApprove),
     (''tool_call.deny'', opToolCallDeny),
     (''attachment.list_for_message'', opAttachmentListForMsg),
     (''attachment.get'', opAttachmentGet),
     (''artifact.list_for_conv'', opArtifactListForConv),
     (''artifact.download'', opArtifactDownload),
     (''image.list_for_conv'', opImageListForConv),
     (''image.download'', opImageDownload),
     (''audio.list_for_conv'', opAudioListForConv),
     (''audio.download'', opAudioDownload),
     (''msg.send_with_attachments'', opMsgSendWithAttachments),
     (''canvas.active_for_conv'', opCanvasActiveForConv),
     (''canvas.history_for_conv'', opCanvasHistoryForConv),
     (''canvas.disk_mirror_path'', opCanvasDiskMirrorPath),
     (''canvas.suggested_export_name'', opCanvasSuggestedExportName),
     (''canvas.read_slice'', opCanvasReadSlice),
     (''canvas.open'', opCanvasOpen),
     (''canvas.edit'', opCanvasEdit),
     (''canvas.close'', opCanvasClose),
     (''canvas.switch_to'', opCanvasSwitchTo),
     (''canvas.tools.list'', opCanvasToolsList),
     (''canvas.tools.run'', opCanvasToolsRun),
     (''canvas.ai_actions.list'', opCanvasAiActionsList),
     (''canvas.ai_actions.trigger'', opCanvasAiActionsTrigger),
     (''canvas.run.start'', opCanvasRunStart),
     (''canvas.run.cancel'', opCanvasRunCancel),
     (''canvas.run.send_input'', opCanvasRunSendInput),
     (''canvas.run.eof'', opCanvasRunEof),
     (''canvas.run.send_to_ide'', opCanvasRunSendToIde),
     (''canvas.run.sandbox_state'', opCanvasRunSandboxState),
     (''canvas.run.is_running'', opCanvasRunIsRunning),
     (''canvas.run.supported_languages'', opCanvasRunSupportedLangs),
     (''canvas.run.supported_ide_languages'', opCanvasRunSupportedIdeLangs),
     (''canvas.console.clear'', opCanvasConsoleClear)]"

definition kMaxWireFrameBytes :: int where
  "kMaxWireFrameBytes = 24 * 1024 * 1024"

definition dispatchOp ::
  "wire_env \<Rightarrow> string \<Rightarrow> string \<Rightarrow> json_object \<Rightarrow> wire_auth \<times> wire_session
     \<Rightarrow> (wire_auth \<times> wire_session) \<times> wire_effect list" where
  "dispatchOp en op rid P st =
     (let s = snd st in
      if op = ''ping'' then (st, opPing en rid)
      else if op = ''auth.pair'' then opAuthPair en rid P st
      else if op = ''auth.token'' then opAuthToken en rid P st
      else if \<not> isAuthenticated s then (st, requireAuth s rid [])
      else if op = ''auth.me'' then (st, opAuthMe rid st)
      else if op = ''auth.revoke_self'' then opAuthRevokeSelf en rid st
      else if op = ''clients.list'' then (st, opClientsList rid st)
      else if op = ''clients.revoke'' then opClientsRevoke en rid P st
      else if op = ''msg.subscribe'' then (let (s1, es) = opMsgSubscribe rid P s in ((fst st, s1), es))
      else if op = ''msg.unsubscribe'' then (let (s1, es) = opMsgUnsubscribe rid P s in ((fst st, s1), es))
      else case map_of opTable op of
          Some h \<Rightarrow> (st, h en s rid P)
        | None \<Rightarrow> (st, [sendErr rid ''unknown_op'' (''unknown op: '' @ op)]))"

definition errorEvent :: "string \<Rightarrow> string \<Rightarrow> wire_effect" where
  "errorEvent kind detail = sendEvent ''error'' [(''kind'', JStr kind), (''detail'', JStr detail)]"

text \<open>A frame is its size and the value it parses to; the answer of a client is not billed as an operation.\<close>

definition onTextMessageReceived ::
  "wire_env \<Rightarrow> int \<Rightarrow> json option \<Rightarrow> wire_auth \<times> wire_session \<Rightarrow> (wire_auth \<times> wire_session) \<times> wire_effect list" where
  "onTextMessageReceived en bytes doc st =
     (if kMaxWireFrameBytes < bytes then (st, [errorEvent ''malformed_message'' ''frame exceeds size limit''])
      else case doc of
          Some (JObj ob) \<Rightarrow>
            if strOf ob ''type'' = ''client_response''
            then (let (s1, es) = onClientResponse ob (snd st) in ((fst st, s1), es))
            else let (ok, s1) = checkRateLimit (en_now en) (snd st); st1 = (fst st, s1);
                     op = strOf ob ''op''; rid = strOf ob ''request_id'' in
              if \<not> ok then (st1, [errorEvent ''rate_limited''
                   (''too many ops per second (max '' @ decimal kMaxOpsPerSecond @ '')'')])
              else if op = [] then (st1, [sendErr rid ''malformed_message'' (''missing '' @ quoted ''op'' @ '' field'')])
              else dispatchOp en op rid (toObject (member_of ob ''params'')) st1
        | _ \<Rightarrow> (st, [errorEvent ''malformed_message'' ''expected JSON object'']))"

section \<open>The callbacks of the host's answers\<close>

definition fileNameOf :: "string \<Rightarrow> string" where
  "fileNameOf p = rev (takeWhile (\<lambda>c. c \<noteq> CHR ''/'') (rev p))"

definition pathsToFiles :: "wire_env \<Rightarrow> string list \<Rightarrow> json" where
  "pathsToFiles en paths = JArr (map (\<lambda>p. JObj
     [(''file_name'', JStr (fileNameOf p)),
      (''total_bytes'', JNum (if en_fileExists en p then en_fileSize en p else -1)),
      (''exists'', JBool (en_fileExists en p))]) paths)"

definition mediaFile :: "wire_env \<Rightarrow> string \<Rightarrow> string \<Rightarrow> string list \<Rightarrow> wire_effect" where
  "mediaFile en rid wanted paths =
     (case find (\<lambda>p. fileNameOf p = wanted) paths of
        None \<Rightarrow> sendErr rid ''not_found'' ''no such file in conversation media''
      | Some p \<Rightarrow>
          let row = en_readMedia en p in
          if row = [] then sendErr rid ''not_found'' ''the file is missing, too large, or outside the app data folder''
          else sendOk rid (JObj (put ''truncated'' (JBool False) (put ''mime_type'' (JStr [])
                 (putValue ''total_bytes'' (member_of row ''size_bytes'') row)))))"

definition hasModels :: "json_object \<Rightarrow> bool" where
  "hasModels p \<longleftrightarrow> toArray (member_of p ''models'') \<noteq> []"

definition catalogReply :: "string \<Rightarrow> json_object list \<Rightarrow> string \<Rightarrow> string \<Rightarrow> wire_effect" where
  "catalogReply rid ps provider model = sendOk rid (JObj
     [(''providers'', JArr (map JObj ps)), (''active_provider'', JStr provider), (''active_model'', JStr model)])"

definition finished :: "catalog \<Rightarrow> bool" where
  "finished c \<longleftrightarrow> ct_pendingModelsCalls c = 0 \<and> ct_activeProviderRead c \<and> ct_activeModelRead c"

definition maybeFinish :: "nat \<Rightarrow> wire_session \<Rightarrow> wire_effect list" where
  "maybeFinish n s =
     (let c = ws_catalogs s ! n in
      if finished c
      then [catalogReply (ct_rid c) (filter hasModels (ct_providers c)) (ct_activeProvider c) (ct_activeModel c)]
      else [])"

definition updateCatalog :: "nat \<Rightarrow> (catalog \<Rightarrow> catalog) \<Rightarrow> wire_session \<Rightarrow> wire_session \<times> wire_effect list" where
  "updateCatalog n f s =
     (let s1 = s\<lparr>ws_catalogs := (ws_catalogs s)[n := f (ws_catalogs s ! n)]\<rparr> in (s1, maybeFinish n s1))"

definition providerEntry :: "json \<Rightarrow> json_object" where
  "providerEntry v =
     (let ob = toObject (Some v) in
      [(''provider_id'', JStr (strOf ob ''providerId'')), (''display_name'', JStr (strOf ob ''displayName'')),
       (''supports_streaming'', JBool (toBoolOr (member_of ob ''supportsStreaming'') False)),
       (''supports_tool_calling'', JBool (toBoolOr (member_of ob ''supportsToolCalling'') False)),
       (''supports_vision'', JBool (toBoolOr (member_of ob ''supportsVision'') False)), (''models'', JArr [])])"

definition startCatalog :: "string \<Rightarrow> json \<Rightarrow> wire_session \<Rightarrow> wire_session \<times> wire_effect list" where
  "startCatalog rid v s =
     (let ps = map providerEntry (toArray (Some v)); n = length (ws_catalogs s);
          c = \<lparr>ct_rid = rid, ct_providers = ps, ct_activeProvider = [], ct_activeModel = [],
               ct_pendingModelsCalls = int (length ps), ct_activeProviderRead = False, ct_activeModelRead = False\<rparr> in
      if ps = [] then (s, [catalogReply rid [] [] []])
      else (s\<lparr>ws_catalogs := ws_catalogs s @ [c]\<rparr>,
        map (\<lambda>i. Ask (Invoke ''AgentSettings'' ''modelsForProvider''
                       [argStr (strOf (ps ! i) ''provider_id'')] ''QStringList'') 5000 (CatModels n i)) [0..<length ps] @
        [Ask (PropertyGet ''AgentSettings'' ''activeProvider'') 5000 (CatProvider n),
         Ask (PropertyGet ''AgentSettings'' ''activeModel'') 5000 (CatModel n)]))"

definition modelsRead :: "nat \<Rightarrow> bool \<Rightarrow> json \<Rightarrow> catalog \<Rightarrow> catalog" where
  "modelsRead i ok v c =
     (let p = ct_providers c ! i;
          p1 = (case v of JArr xs \<Rightarrow> if ok then put ''models'' (JArr xs) p else p | _ \<Rightarrow> p) in
      c\<lparr>ct_providers := (ct_providers c)[i := p1], ct_pendingModelsCalls := ct_pendingModelsCalls c - 1\<rparr>)"

text \<open>
  What a callback does with the answer: a flag, the data (which the bridge sends with every success) and the
  error text.
\<close>

fun resume ::
  "wire_env \<Rightarrow> wire_cont \<Rightarrow> bool \<Rightarrow> json \<Rightarrow> string \<Rightarrow> wire_session \<Rightarrow> wire_session \<times> wire_effect list" where
  "resume en NoCallback ok v err s = (s, [])"
| "resume en (Forward rid) ok v err s = (s, [if ok then sendOk rid v else sendErr rid ''server_error'' err])"
| "resume en (WrapId rid key) ok v err s =
     (s, [if ok then sendOk rid (JObj [(key, JStr (toString (Some v)))]) else sendErr rid ''server_error'' err])"
| "resume en (WrapBool rid key) ok v err s =
     (s, [if ok then sendOk rid (JObj [(key, JBool (toBoolOr (Some v) False))]) else sendErr rid ''server_error'' err])"
| "resume en (WrapInt rid key) ok v err s =
     (s, [if ok then sendOk rid (JObj [(key, JNum (toIntOr (Some v) 0))]) else sendErr rid ''server_error'' err])"
| "resume en (NewFolder rid) ok v err s =
     (s, [if ok then sendOk rid (JObj [(''id'', JStr (toString (Some v))), (''type'', JStr ''regular'')])
          else sendErr rid ''server_error'' err])"
| "resume en (MediaFiles rid) ok v err s =
     (s, [if ok then sendOk rid (pathsToFiles en (strings (Some v))) else sendErr rid ''server_error'' err])"
| "resume en (MediaFile rid wanted) ok v err s =
     (s, [if ok then mediaFile en rid wanted (strings (Some v)) else sendErr rid ''server_error'' err])"
| "resume en (SettingsGate rid cid base) ok v err s =
     (s, [Ask (Invoke ''Conversations'' ''heartbeatAutoSurfaceMaxPerDay'' [argStr cid] ''int'') 5000
            (SettingsCap rid (put ''heartbeatAutoSurface'' (JBool (if ok then toBoolOr (Some v) False else False)) base))])"
| "resume en (SettingsCap rid base) ok v err s =
     (s, [sendOk rid (JObj (put ''autoSurfaceMaxPerDay'' (JNum (if ok then toIntOr (Some v) 0 else 1)) base))])"
| "resume en (GateAllow rid cid) ok v err s =
     (s, [if ok then Ask (Invoke ''Conversations'' ''heartbeatAutoSurfaceMaxPerDay'' [argStr cid] ''int'') 5000
                       (GateMax rid (toBoolOr (Some v) False))
          else sendErr rid ''server_error'' err])"
| "resume en (GateMax rid allow) ok v err s =
     (s, [if ok then sendOk rid (JObj [(''allow'', JBool allow), (''max_per_day'', JNum (toIntOr (Some v) 0))])
          else sendErr rid ''server_error'' err])"
| "resume en (ActiveProvider rid) ok v err s =
     (s, [if ok then Ask (PropertyGet ''AgentSettings'' ''activeModel'') 5000 (ActiveModel rid v)
          else sendErr rid ''server_error'' err])"
| "resume en (ActiveModel rid provider) ok v err s =
     (s, [if ok then sendOk rid (JObj [(''provider'', provider), (''model'', v)])
          else sendErr rid ''server_error'' err])"
| "resume en (CatProviders rid) ok v err s =
     (if ok then startCatalog rid v s else (s, [sendErr rid ''server_error'' err]))"
| "resume en (CatModels n i) ok v err s = updateCatalog n (modelsRead i ok v) s"
| "resume en (CatProvider n) ok v err s =
     updateCatalog n (\<lambda>c. c\<lparr>ct_activeProvider := (if ok then toString (Some v) else []), ct_activeProviderRead := True\<rparr>) s"
| "resume en (CatModel n) ok v err s =
     updateCatalog n (\<lambda>c. c\<lparr>ct_activeModel := (if ok then toString (Some v) else []), ct_activeModelRead := True\<rparr>) s"

section \<open>The daemon\<close>

record host_pending =
  hp_id :: string
  hp_expiresAtMs :: int
  hp_session :: nat
  hp_cont :: wire_cont

text \<open>
  The log: frames sent through a session's socket (with whether the socket was still open, so that the frame
  was written; a closing socket drops it), calls written to the host in the name of a client, and the
  runs of the callbacks of the host's own requests (with whether the answer could be written to the host).
\<close>

datatype daemon_out =
    Sent nat wire_effect bool
  | Called string host_call
  | Fired string string string "json list"
  | Answered string client_rpc_reply bool

record wire_daemon =
  dm_auth :: wire_auth
  dm_sessions :: "(nat \<times> wire_session) list"
  dm_next :: nat
  dm_hostUp :: bool
  dm_pending :: "host_pending list"
  dm_drawn :: nat
  dm_out :: "daemon_out list"

definition new_daemon :: "wire_auth \<Rightarrow> wire_daemon" where
  "new_daemon a = \<lparr>dm_auth = a, dm_sessions = [], dm_next = 0, dm_hostUp = False, dm_pending = [],
                  dm_drawn = 0, dm_out = []\<rparr>"

definition logged :: "daemon_out \<Rightarrow> wire_daemon \<Rightarrow> wire_daemon" where
  "logged x d = d\<lparr>dm_out := dm_out d @ [x]\<rparr>"

definition sessionAt :: "wire_daemon \<Rightarrow> nat \<Rightarrow> wire_session option" where
  "sessionAt d sid = map_of (dm_sessions d) sid"

definition setSession :: "nat \<Rightarrow> wire_session \<Rightarrow> wire_daemon \<Rightarrow> wire_daemon" where
  "setSession sid s d = d\<lparr>dm_sessions := AList.map_entry sid (\<lambda>_. s) (dm_sessions d)\<rparr>"

definition socketOpen :: "wire_daemon \<Rightarrow> nat \<Rightarrow> bool" where
  "socketOpen d sid = (case sessionAt d sid of Some s \<Rightarrow> ws_connected s | None \<Rightarrow> False)"

definition clientOfSession :: "wire_daemon \<Rightarrow> nat \<Rightarrow> string" where
  "clientOfSession d sid = (case sessionAt d sid of Some s \<Rightarrow> ws_clientId s | None \<Rightarrow> [])"

definition sessionForClientId :: "wire_daemon \<Rightarrow> string \<Rightarrow> (nat \<times> wire_session) option" where
  "sessionForClientId d c = (if c = [] then None else find (\<lambda>(i, s). ws_clientId s = c) (dm_sessions d))"

text \<open>A call that awaits its answer, and one that does not. A call in no client's name carries no client id.\<close>

definition awaitHost :: "wire_env \<Rightarrow> nat \<Rightarrow> host_call \<Rightarrow> int \<Rightarrow> wire_cont \<Rightarrow> wire_daemon \<Rightarrow> wire_daemon" where
  "awaitHost en sid call timeoutMs k d =
     (let rid = en_uuid en (dm_drawn d);
          row = \<lparr>hp_id = rid, hp_expiresAtMs = en_now en + max timeoutMs 100, hp_session = sid, hp_cont = k\<rparr> in
      logged (Called (clientOfSession d sid) call)
        (d\<lparr>dm_drawn := dm_drawn d + 1, dm_pending := filter (\<lambda>p. hp_id p \<noteq> rid) (dm_pending d) @ [row]\<rparr>))"

definition callbacksRun :: "bool \<Rightarrow> wire_effect list \<Rightarrow> daemon_out list" where
  "callbacksRun up es = concat (map (\<lambda>e. case e of RpcDone c r \<Rightarrow> [Answered c r up] | _ \<Rightarrow> []) es)"

definition closeOne :: "string \<Rightarrow> nat \<Rightarrow> wire_daemon \<Rightarrow> wire_daemon" where
  "closeOne kind sid d =
     (case sessionAt d sid of
        None \<Rightarrow> d
      | Some s \<Rightarrow>
          let (s1, es) = forceClose kind s in
          setSession sid s1 (d\<lparr>dm_out := dm_out d @ callbacksRun (dm_hostUp d) es\<rparr>))"

definition onClientIdRebound :: "string \<Rightarrow> nat \<Rightarrow> wire_daemon \<Rightarrow> wire_daemon" where
  "onClientIdRebound c self d =
     (if c = [] then d
      else fold (closeOne ''session_superseded'')
             (map fst (filter (\<lambda>(i, s). i \<noteq> self \<and> ws_clientId s = c) (dm_sessions d))) d)"

text \<open>
  The effects of an operation of the session \<open>sid\<close>, in order. A call while the host is away runs its
  callback at once with an error, and that callback's effects come first; it does nothing when its session is gone.
\<close>

fun weight :: "wire_effect \<Rightarrow> nat" where
  "weight (Ask _ _ (SettingsGate _ _ _)) = 4"
| "weight (Ask _ _ _) = 2"
| "weight _ = 1"

lemma offline_weight:
  "(\<Sum>e \<leftarrow> snd (resume en k False v err s). weight e) < weight (Ask call t k)"
  by (cases k) (auto simp: sendErr_def sendOk_def updateCatalog_def maybeFinish_def catalogReply_def Let_def)

lemma weight_pos: "0 < weight e"
  by (cases e rule: weight.cases) simp_all

function perform :: "wire_env \<Rightarrow> nat \<Rightarrow> wire_effect list \<Rightarrow> wire_daemon \<Rightarrow> wire_daemon" where
  "perform en sid [] d = d"
| "perform en sid (Ask call t k # es) d =
     (if dm_hostUp d then perform en sid es (awaitHost en sid call t k d)
      else case sessionAt d sid of
          None \<Rightarrow> perform en sid es d
        | Some s \<Rightarrow>
            perform en sid (snd (resume en k False JNull ''bridge offline'' s) @ es)
              (setSession sid (fst (resume en k False JNull ''bridge offline'' s)) d))"
| "perform en sid (Fire target meth args # es) d =
     perform en sid es (if dm_hostUp d then logged (Fired (clientOfSession d sid) target meth args) d else d)"
| "perform en sid (RpcDone caller reply # es) d = perform en sid es (logged (Answered caller reply (dm_hostUp d)) d)"
| "perform en sid (Rebound c # es) d = perform en sid es (onClientIdRebound c sid d)"
| "perform en sid (CloseSocket # es) d =
     perform en sid es (case sessionAt d sid of
        Some s \<Rightarrow> setSession sid (s\<lparr>ws_connected := False\<rparr>) d | None \<Rightarrow> d)"
| "perform en sid (Reply rid v # es) d = perform en sid es (logged (Sent sid (Reply rid v) (socketOpen d sid)) d)"
| "perform en sid (ReplyError rid k v # es) d = perform en sid es (logged (Sent sid (ReplyError rid k v) (socketOpen d sid)) d)"
| "perform en sid (Event n v # es) d = perform en sid es (logged (Sent sid (Event n v) (socketOpen d sid)) d)"
| "perform en sid (SendRequest rid n v # es) d = perform en sid es (logged (Sent sid (SendRequest rid n v) (socketOpen d sid)) d)"
  by pat_completeness auto

termination
proof (relation "measure (\<lambda>(en, sid, es, d). \<Sum>e \<leftarrow> es. weight e)")
  fix en :: wire_env and sid :: nat and call t k es and d :: wire_daemon and s
  show "((en, sid, snd (resume en k False JNull ''bridge offline'' s) @ es,
            setSession sid (fst (resume en k False JNull ''bridge offline'' s)) d), en, sid, Ask call t k # es, d)
         \<in> measure (\<lambda>(en, sid, es, d). \<Sum>e \<leftarrow> es. weight e)"
    using offline_weight [of en k JNull "''bridge offline''" s call t] by simp
next
  fix en :: wire_env and sid :: nat and call t k es and d :: wire_daemon
  show "((en, sid, es, d), en, sid, Ask call t k # es, d) \<in> measure (\<lambda>(en, sid, es, d). \<Sum>e \<leftarrow> es. weight e)"
    and "((en, sid, es, awaitHost en sid call t k d), en, sid, Ask call t k # es, d) \<in> measure (\<lambda>(en, sid, es, d). \<Sum>e \<leftarrow> es. weight e)"
    using weight_pos [of "Ask call t k"] by simp_all
qed auto

section \<open>The life of a session\<close>

definition here :: "wire_env \<Rightarrow> wire_daemon \<Rightarrow> wire_env" where
  "here en d = en\<lparr>en_hostUp := dm_hostUp d\<rparr>"

definition onNewConnection :: "wire_env \<Rightarrow> wire_daemon \<Rightarrow> wire_daemon" where
  "onNewConnection en d =
     perform en (dm_next d) [sendHello (here en d)]
       (d\<lparr>dm_sessions := dm_sessions d @ [(dm_next d, fresh_session)], dm_next := dm_next d + 1\<rparr>)"

definition onFrame :: "wire_env \<Rightarrow> nat \<Rightarrow> int \<Rightarrow> json option \<Rightarrow> wire_daemon \<Rightarrow> wire_daemon" where
  "onFrame en sid bytes doc d =
     (case sessionAt d sid of
        None \<Rightarrow> d
      | Some s \<Rightarrow>
          let (st, es) = onTextMessageReceived (here en d) bytes doc (dm_auth d, s) in
          perform en sid es (setSession sid (snd st) (d\<lparr>dm_auth := fst st\<rparr>)))"

definition onSocketDisconnected :: "nat \<Rightarrow> wire_daemon \<Rightarrow> wire_daemon" where
  "onSocketDisconnected sid d =
     (case sessionAt d sid of
        None \<Rightarrow> d
      | Some s \<Rightarrow>
          d\<lparr>dm_out := dm_out d @ callbacksRun (dm_hostUp d)
               (snd (drainPendingClientRequests ''session_closed'' ''WebSocket disconnected'' s)),
            dm_sessions := AList.delete sid (dm_sessions d)\<rparr>)"

definition onClientTick :: "int \<Rightarrow> nat \<Rightarrow> wire_daemon \<Rightarrow> wire_daemon" where
  "onClientTick now sid d =
     (case sessionAt d sid of
        None \<Rightarrow> d
      | Some s \<Rightarrow>
          let (s1, es) = onClientRpcTimeoutSweep now s in
          setSession sid s1 (d\<lparr>dm_out := dm_out d @ callbacksRun (dm_hostUp d) es\<rparr>))"

text \<open>Closing the server destroys its sessions, which run the callbacks they still hold.\<close>

definition closeServer :: "wire_daemon \<Rightarrow> wire_daemon" where
  "closeServer d =
     d\<lparr>dm_out := dm_out d @ concat (map (\<lambda>(i, s). callbacksRun (dm_hostUp d)
          (snd (drainPendingClientRequests ''session_destroyed'' ''session destroyed'' s))) (dm_sessions d)),
       dm_sessions := []\<rparr>"

section \<open>The link to the host\<close>

definition runCallback :: "wire_env \<Rightarrow> host_pending \<Rightarrow> bool \<Rightarrow> json \<Rightarrow> string \<Rightarrow> wire_daemon \<Rightarrow> wire_daemon" where
  "runCallback en p ok v err d =
     (case sessionAt d (hp_session p) of
        None \<Rightarrow> d
      | Some s \<Rightarrow>
          let (s1, es) = resume en (hp_cont p) ok v err s in
          perform en (hp_session p) es (setSession (hp_session p) s1 d))"

text \<open>
  The entry is found, its callback runs, and then the entry is erased through the iterator found before. The
  callback may have added entries, so what is erased is up to the hash table.
\<close>

definition eraseFound :: "wire_env \<Rightarrow> string \<Rightarrow> host_pending list \<Rightarrow> wire_daemon \<Rightarrow> wire_daemon" where
  "eraseFound en rid found d =
     (case en_erased en rid (map hp_id found) (map hp_id (dm_pending d)) of
        None \<Rightarrow> d
      | Some k \<Rightarrow> d\<lparr>dm_pending := filter (\<lambda>q. hp_id q \<noteq> k) (dm_pending d)\<rparr>)"

definition resolve_pending :: "wire_env \<Rightarrow> bool \<Rightarrow> json \<Rightarrow> string \<Rightarrow> string \<Rightarrow> wire_daemon \<Rightarrow> wire_daemon" where
  "resolve_pending en ok v err rid d =
     (case find (\<lambda>p. hp_id p = rid) (dm_pending d) of
        None \<Rightarrow> d
      | Some p \<Rightarrow> eraseFound en rid (dm_pending d) (runCallback en p ok v err d))"

definition onHostDisconnected :: "wire_env \<Rightarrow> wire_daemon \<Rightarrow> wire_daemon" where
  "onHostDisconnected en d =
     (fold (\<lambda>p. runCallback en p False JNull ''bridge disconnected'') (dm_pending d) (d\<lparr>dm_hostUp := False\<rparr>))
       \<lparr>dm_pending := []\<rparr>"

definition onTimeoutSweep :: "wire_env \<Rightarrow> wire_daemon \<Rightarrow> wire_daemon" where
  "onTimeoutSweep en d =
     fold (resolve_pending en False JNull ''timeout'')
       (map hp_id (filter (\<lambda>p. hp_expiresAtMs p \<le> en_now en) (dm_pending d))) d"

definition handleClientRpcDispatch :: "wire_env \<Rightarrow> json_object \<Rightarrow> wire_daemon \<Rightarrow> wire_daemon" where
  "handleClientRpcDispatch en ob d =
     (let caller = strOf ob ''request_id''; op = strOf ob ''op'';
          refuse = (\<lambda>kind detail. logged (Answered caller (rpcError kind detail) (dm_hostUp d)) d) in
      if caller = [] then d
      else if op = [] then refuse ''invalid_argument'' ''op is empty''
      else case sessionForClientId d (strOf ob ''client_id'') of
          None \<Rightarrow> refuse ''client_not_found'' ''no paired client matches client_id''
        | Some (sid, s) \<Rightarrow>
            if op = ''vfs.execute'' \<and> \<not> hasCapability s ''vfs.execute''
            then refuse ''exec_unsupported'' ''client did not advertise vfs.execute''
            else let (s1, es) = sendClientRequest en (en_uuid en (dm_drawn d)) op (toObject (member_of ob ''args''))
                       caller (toIntOr (member_of ob ''timeout_ms'') 15000) s in
              perform en sid es (setSession sid s1 (d\<lparr>dm_drawn := dm_drawn d + 1\<rparr>)))"

definition broadcast :: "wire_env \<Rightarrow> string \<Rightarrow> json_object \<Rightarrow> wire_daemon \<Rightarrow> wire_daemon" where
  "broadcast en name args d =
     fold (\<lambda>(sid, s). perform en sid (onHostSignal en name args s)) (dm_sessions d) d"

definition handleFrame :: "wire_env \<Rightarrow> json_object \<Rightarrow> wire_daemon \<Rightarrow> wire_daemon" where
  "handleFrame en ob d =
     (let type = strOf ob ''type'' in
      if type = ''hello'' then d
      else if type = ''signal'' then broadcast en (strOf ob ''name'') (toObject (member_of ob ''args'')) d
      else if type = ''invoke_response''
        then resolve_pending en (toBoolOr (member_of ob ''ok'') False)
               (case member_of ob ''data'' of Some v \<Rightarrow> v | None \<Rightarrow> JNull) (strOf ob ''error'')
               (strOf ob ''request_id'') d
      else if type = ''client_rpc_dispatch'' then handleClientRpcDispatch en ob d
      else d)"

section \<open>What happens to the daemon\<close>

datatype daemon_event =
    Connected wire_env
  | ClientFrame wire_env nat int "json option"
  | SocketClosed nat
  | ClientTick int nat
  | HostUp
  | HostDown wire_env
  | HostTick wire_env
  | FromHost wire_env json_object
  | ServerClosed

fun daemon_step :: "wire_daemon \<Rightarrow> daemon_event \<Rightarrow> wire_daemon" where
  "daemon_step d (Connected en) = onNewConnection en d"
| "daemon_step d (ClientFrame en sid bytes doc) = onFrame en sid bytes doc d"
| "daemon_step d (SocketClosed sid) = onSocketDisconnected sid d"
| "daemon_step d (ClientTick now sid) = onClientTick now sid d"
| "daemon_step d HostUp = d\<lparr>dm_hostUp := True\<rparr>"
| "daemon_step d (HostDown en) = onHostDisconnected en d"
| "daemon_step d (HostTick en) = onTimeoutSweep en d"
| "daemon_step d (FromHost en ob) = handleFrame en ob d"
| "daemon_step d ServerClosed = closeServer d"

end
