(* ===== verification/Wire_Laws.thy ===== *)
theory Wire_Laws
  imports Wire_Daemon
begin

text \<open>
  The discipline of the remote server: every operation of a client leads to one answer. An effect is worth one
  for a request when it answers the request or leaves a callback that will; the list of models counts as
  long as its accumulator is not complete.
\<close>

section \<open>What an effect is worth\<close>

fun cont_rid :: "wire_cont \<Rightarrow> string option" where
  "cont_rid (Forward rid) = Some rid"
| "cont_rid (WrapId rid _) = Some rid"
| "cont_rid (WrapBool rid _) = Some rid"
| "cont_rid (WrapInt rid _) = Some rid"
| "cont_rid (NewFolder rid) = Some rid"
| "cont_rid (MediaFiles rid) = Some rid"
| "cont_rid (MediaFile rid _) = Some rid"
| "cont_rid (SettingsGate rid _ _) = Some rid"
| "cont_rid (SettingsCap rid _) = Some rid"
| "cont_rid (GateAllow rid _) = Some rid"
| "cont_rid (GateMax rid _) = Some rid"
| "cont_rid (ActiveProvider rid) = Some rid"
| "cont_rid (ActiveModel rid _) = Some rid"
| "cont_rid (CatProviders rid) = Some rid"
| "cont_rid _ = None"

fun cont_catalog :: "wire_cont \<Rightarrow> nat option" where
  "cont_catalog (CatModels n _) = Some n"
| "cont_catalog (CatProvider n) = Some n"
| "cont_catalog (CatModel n) = Some n"
| "cont_catalog _ = None"

fun due :: "string \<Rightarrow> wire_effect \<Rightarrow> nat" where
  "due r (Reply rid _) = (if rid = r then 1 else 0)"
| "due r (ReplyError rid _ _) = (if rid = r then 1 else 0)"
| "due r (Ask _ _ k) = (if cont_rid k = Some r then 1 else 0)"
| "due r _ = 0"

definition dues :: "string \<Rightarrow> wire_effect list \<Rightarrow> nat" where
  "dues r es = (\<Sum>e \<leftarrow> es. due r e)"

fun done_of :: "string \<Rightarrow> wire_effect \<Rightarrow> nat" where
  "done_of c (RpcDone x _) = (if x = c then 1 else 0)"
| "done_of c _ = 0"

definition dones :: "string \<Rightarrow> wire_effect list \<Rightarrow> nat" where
  "dones c es = (\<Sum>e \<leftarrow> es. done_of c e)"

fun conts :: "wire_effect list \<Rightarrow> wire_cont list" where
  "conts [] = []"
| "conts (Ask _ _ k # es) = k # conts es"
| "conts (_ # es) = conts es"

lemma dues_simps [simp]:
  "dues r [] = 0" "dues r (e # es) = due r e + dues r es" "dues r (es @ fs) = dues r es + dues r fs"
  by (simp_all add: dues_def)

lemma dones_simps [simp]:
  "dones c [] = 0" "dones c (e # es) = done_of c e + dones c es" "dones c (es @ fs) = dones c es + dones c fs"
  by (simp_all add: dones_def)

lemma conts_append [simp]: "conts (es @ fs) = conts es @ conts fs"
  by (induction es rule: conts.induct) auto

lemma send_simps [simp]:
  "sendOk rid v = Reply rid v" "sendErr rid k e = ReplyError rid k e" "sendEvent n ob = Event n ob"
  by (simp_all add: sendOk_def sendErr_def sendEvent_def)

definition answers_once :: "string \<Rightarrow> wire_effect list \<Rightarrow> bool" where
  "answers_once rid es \<longleftrightarrow> (\<forall>r. dues r es = (if r = rid then 1 else 0)) \<and> (\<forall>c. dones c es = 0) \<and> (\<forall>k \<in> set (conts es). cont_catalog k = None)"

definition silent :: "wire_effect list \<Rightarrow> bool" where
  "silent es \<longleftrightarrow> (\<forall>r. dues r es = 0) \<and> conts es = []"

section \<open>Every operation answers its request once\<close>

named_theorems answering

lemma answers_once_reply [answering]: "answers_once rid [Reply rid v]" "answers_once rid [ReplyError rid k e]"
  by (auto simp: answers_once_def)

lemma answers_once_skip [answering]:
  "answers_once rid (Fire tgt m a # es) \<longleftrightarrow> answers_once rid es"
  "answers_once rid (Rebound c # es) \<longleftrightarrow> answers_once rid es"
  "answers_once rid (Ask call t NoCallback # es) \<longleftrightarrow> answers_once rid es"
  by (auto simp: answers_once_def)

lemma answers_once_ask [answering]:
  "cont_rid k = Some rid \<Longrightarrow> cont_catalog k = None \<Longrightarrow> answers_once rid [Ask call t k]"
  by (auto simp: answers_once_def)

lemma answers_once_if [answering]:
  "answers_once rid (if c then es else fs) \<longleftrightarrow> (if c then answers_once rid es else answers_once rid fs)"
  by simp

lemma answers_once_errors [answering]:
  "answers_once rid (invalid rid e)" "answers_once rid (badUuid rid k)" "answers_once rid (required rid k)"
  "answers_once rid (hostOffline rid)" "answers_once rid (dbClosed rid)" "answers_once rid (queued rid)"
  by (simp_all add: invalid_def badUuid_def required_def hostOffline_def dbClosed_def queued_def answering)

lemma answers_once_calls [answering]:
  "cont_rid k = Some rid \<Longrightarrow> cont_catalog k = None \<Longrightarrow> answers_once rid (callHost en rid call t k)"
  "answers_once rid (asyncInvoke en rid tgt m a ret)"
  "answers_once rid (asyncInvokeWrapId en rid tgt m a key)"
  by (simp_all add: callHost_def asyncInvoke_def asyncInvokeWrapId_def answering)

lemma answers_once_guards [answering]:
  "answers_once rid es \<Longrightarrow> answers_once rid (requireHostOnline en rid es)"
  "answers_once rid es \<Longrightarrow> answers_once rid (withDb en rid es)"
  "answers_once rid es \<Longrightarrow> answers_once rid (requireAuth s rid es)"
  by (simp_all add: requireHostOnline_def withDb_def requireAuth_def answering)

lemma answers_conversations_and_messages [answering]:
  "answers_once rid (opConvList en s rid P)"
  "answers_once rid (opConvGet en s rid P)"
  "answers_once rid (opMsgList en s rid P)"
  "answers_once rid (opMsgSend en s rid P)"
  "answers_once rid (opMsgStop en s rid P)"
  "answers_once rid (opConvCreate en s rid P)"
  "answers_once rid (opConvCreateWithAgent en s rid P)"
  "answers_once rid (opConvRename en s rid P)"
  "answers_once rid (opConvSetPinned en s rid P)"
  "answers_once rid (opConvDelete en s rid P)"
  "answers_once rid (opConvMoveToFolder en s rid P)"
  "answers_once rid (opConvIsGroup en s rid P)"
  "answers_once rid (opConvGroupMembers en s rid P)"
  "answers_once rid (opConvFolderId en s rid P)"
  "answers_once rid (opConvOpen en s rid P)"
  by (simp_all add: Let_def answering split: option.split sum.split json.split
      add:opConvList_def opConvGet_def opMsgList_def opMsgSend_def opMsgStop_def opConvCreate_def
      opConvCreateWithAgent_def opConvRename_def opConvSetPinned_def opConvDelete_def
      opConvMoveToFolder_def opConvIsGroup_def opConvGroupMembers_def opConvFolderId_def opConvOpen_def)

lemma answers_folders [answering]:
  "answers_once rid (opFolderListProjects en s rid P)"
  "answers_once rid (opFolderListAll en s rid P)"
  "answers_once rid (opFolderConversations en s rid P)"
  "answers_once rid (opFolderCreate en s rid P)"
  "answers_once rid (opFolderRename en s rid P)"
  "answers_once rid (opFolderDelete en s rid P)"
  "answers_once rid (opFolderInfo en s rid P)"
  "answers_once rid (opFolderUpdateMetadata en s rid P)"
  by (simp_all add: Let_def answering split: option.split sum.split json.split
      add:opFolderListProjects_def opFolderListAll_def opFolderConversations_def opFolderCreate_def
      opFolderRename_def opFolderDelete_def opFolderInfo_def opFolderUpdateMetadata_def)

lemma answers_members [answering]:
  "answers_once rid (opGroupCreate en s rid P)"
  "answers_once rid (opFolderMembers en s rid P)"
  "answers_once rid (opFolderMembersSet en s rid P)"
  "answers_once rid (opFolderMemberAdd en s rid P)"
  "answers_once rid (opFolderMemberOverrideSet en s rid P)"
  "answers_once rid (opFolderMemberRemove en s rid P)"
  "answers_once rid (opConvMembers en s rid P)"
  "answers_once rid (opConvMembersSet en s rid P)"
  "answers_once rid (opConvMemberAdd en s rid P)"
  "answers_once rid (opConvMemberRemove en s rid P)"
  "answers_once rid (opConvCoordinatorSet en s rid P)"
  by (simp_all add: Let_def answering split: option.split sum.split json.split
      add:opGroupCreate_def opFolderMembers_def opFolderMembersSet_def opFolderMemberAdd_def
      opFolderMemberOverrideSet_def opFolderMemberRemove_def opConvMembers_def opConvMembersSet_def
      opConvMemberAdd_def opConvMemberRemove_def opConvCoordinatorSet_def)

lemma answers_models_search_and_catalogs [answering]:
  "answers_once rid (opModelsCatalog en s rid P)"
  "answers_once rid (opModelsActive en s rid P)"
  "answers_once rid (opModelsForProvider en s rid P)"
  "answers_once rid (opModelsSetActive en s rid P)"
  "answers_once rid (opSearchProviders en s rid P)"
  "answers_once rid (opSearchActive en s rid P)"
  "answers_once rid (opSearchSetActive en s rid P)"
  "answers_once rid (opAgentList en s rid P)"
  "answers_once rid (opAgentGet en s rid P)"
  "answers_once rid (opToolList en s rid P)"
  "answers_once rid (opMcpList en s rid P)"
  "answers_once rid (opMcpServerTools en s rid P)"
  "answers_once rid (opSkillList en s rid P)"
  "answers_once rid (opSkillGet en s rid P)"
  by (simp_all add: Let_def answering split: option.split sum.split json.split
      add:opModelsCatalog_def opModelsActive_def opModelsForProvider_def opModelsSetActive_def
      opSearchProviders_def opSearchActive_def opSearchSetActive_def opAgentList_def opAgentGet_def
      opToolList_def opMcpList_def opMcpServerTools_def opSkillList_def opSkillGet_def)

lemma answers_project_documents [answering]:
  "answers_once rid (opFolderDocuments en s rid P)"
  "answers_once rid (opFolderDocumentUpload en s rid P)"
  "answers_once rid (opFolderDocumentRemove en s rid P)"
  "answers_once rid (opFolderKickoffIndividual en s rid P)"
  "answers_once rid (opFolderKickoffGroup en s rid P)"
  "answers_once rid (opFolderMemberChatOpen en s rid P)"
  by (simp_all add: Let_def answering split: option.split sum.split json.split
      add:opFolderDocuments_def opFolderDocumentUpload_def opFolderDocumentRemove_def
      opFolderKickoffIndividual_def opFolderKickoffGroup_def opFolderMemberChatOpen_def)

lemma answers_preferred_skills [answering]:
  "answers_once rid (opSkillPreferredList en s rid P)"
  "answers_once rid (opSkillPreferredSet en s rid P)"
  "answers_once rid (opSkillExposeOnly en s rid P)"
  "answers_once rid (opSkillSetExposeOnly en s rid P)"
  "answers_once rid (opSkillOverrideParent en s rid P)"
  "answers_once rid (opSkillSetOverrideParent en s rid P)"
  by (simp_all add: Let_def answering split: option.split sum.split json.split
      add:opSkillPreferredList_def opSkillPreferredSet_def opSkillExposeOnly_def opSkillSetExposeOnly_def
      opSkillOverrideParent_def opSkillSetOverrideParent_def)

lemma answers_heartbeats [answering]:
  "answers_once rid (opHbConfigsForFolder en s rid P)"
  "answers_once rid (opHbConfigsForConv en s rid P)"
  "answers_once rid (opHbConfigById en s rid P)"
  "answers_once rid (opHbUpsert en s rid P)"
  "answers_once rid (opHbRemove en s rid P)"
  "answers_once rid (opHbRunNow en s rid P)"
  "answers_once rid (opHbCancelRun en s rid P)"
  "answers_once rid (opHbRecentRuns en s rid P)"
  "answers_once rid (opHbNextFires en s rid P)"
  "answers_once rid (opHbConfigChanges en s rid P)"
  "answers_once rid (opHbConfigStatus en s rid P)"
  "answers_once rid (opHbManualPost en s rid P)"
  "answers_once rid (opHbManualDismiss en s rid P)"
  "answers_once rid (opHbCapForConv en s rid P)"
  "answers_once rid (opHbCapForFolder en s rid P)"
  by (simp_all add: Let_def answering split: option.split sum.split json.split
      add:opHbConfigsForFolder_def opHbConfigsForConv_def opHbConfigById_def opHbUpsert_def opHbRemove_def
      opHbRunNow_def opHbCancelRun_def opHbRecentRuns_def opHbNextFires_def opHbConfigChanges_def
      opHbConfigStatus_def opHbManualPost_def opHbManualDismiss_def opHbCapForConv_def
      opHbCapForFolder_def)

lemma answers_settings_of_a_conversation [answering]:
  "answers_once rid (opConvSettingsGet en s rid P)"
  "answers_once rid (opConvSettingsSave en s rid P)"
  "answers_once rid (opConvPrimaryAgent en s rid P)"
  "answers_once rid (opConvPrimaryAgentSet en s rid P)"
  "answers_once rid (opConvHbGate en s rid P)"
  "answers_once rid (opConvHbGateSet en s rid P)"
  "answers_once rid (opAgentPattern en s rid P)"
  "answers_once rid (opAgentPatternSet en s rid P)"
  "answers_once rid (opAgentRequireConfirm en s rid P)"
  "answers_once rid (opAgentRequireConfirmSet en s rid P)"
  "answers_once rid (opToolsEnabled en s rid P)"
  "answers_once rid (opToolsEnabledSet en s rid P)"
  by (simp_all add: Let_def answering split: option.split sum.split json.split
      add:opConvSettingsGet_def opConvSettingsSave_def opConvPrimaryAgent_def opConvPrimaryAgentSet_def
      opConvHbGate_def opConvHbGateSet_def opAgentPattern_def opAgentPatternSet_def
      opAgentRequireConfirm_def opAgentRequireConfirmSet_def opToolsEnabled_def opToolsEnabledSet_def)

lemma answers_plans [answering]:
  "answers_once rid (opPlanListForConv en s rid P)"
  "answers_once rid (opPlanGet en s rid P)"
  "answers_once rid (opTaskStart en s rid P)"
  "answers_once rid (opPlanStop en s rid P)"
  "answers_once rid (opPlanStopAllInConv en s rid P)"
  "answers_once rid (opStepRetry en s rid P)"
  "answers_once rid (opStepOverrideDone en s rid P)"
  "answers_once rid (opStepSkip en s rid P)"
  by (simp_all add: Let_def answering split: option.split sum.split json.split
      add:opPlanListForConv_def opPlanGet_def opTaskStart_def opPlanStop_def opPlanStopAllInConv_def
      opStepRetry_def opStepOverrideDone_def opStepSkip_def)

lemma answers_tool_calls [answering]:
  "answers_once rid (opToolCallListForConv en s rid P)"
  "answers_once rid (opToolCallListForMessage en s rid P)"
  "answers_once rid (opToolCallGet en s rid P)"
  "answers_once rid (opToolCallListForTurn en s rid P)"
  "answers_once rid (opToolCallApprove en s rid P)"
  "answers_once rid (opToolCallDeny en s rid P)"
  by (simp_all add: Let_def answering split: option.split sum.split json.split
      add:opToolCallListForConv_def opToolCallListForMessage_def opToolCallGet_def opToolCallListForTurn_def
      opToolCallApprove_def opToolCallDeny_def)

lemma answers_attachments_artifacts_images_and_audio [answering]:
  "answers_once rid (opAttachmentListForMsg en s rid P)"
  "answers_once rid (opAttachmentGet en s rid P)"
  "answers_once rid (opArtifactListForConv en s rid P)"
  "answers_once rid (opArtifactDownload en s rid P)"
  "answers_once rid (opImageListForConv en s rid P)"
  "answers_once rid (opAudioListForConv en s rid P)"
  "answers_once rid (opImageDownload en s rid P)"
  "answers_once rid (opAudioDownload en s rid P)"
  "answers_once rid (opMsgSendWithAttachments en s rid P)"
  by (simp_all add: Let_def answering split: option.split sum.split json.split
      add:opAttachmentListForMsg_def opAttachmentGet_def opArtifactListForConv_def opArtifactDownload_def
      opImageListForConv_def opAudioListForConv_def opImageDownload_def opAudioDownload_def
      opMsgSendWithAttachments_def)

lemma answers_the_canvas [answering]:
  "answers_once rid (opCanvasActiveForConv en s rid P)"
  "answers_once rid (opCanvasHistoryForConv en s rid P)"
  "answers_once rid (opCanvasDiskMirrorPath en s rid P)"
  "answers_once rid (opCanvasSuggestedExportName en s rid P)"
  "answers_once rid (opCanvasReadSlice en s rid P)"
  "answers_once rid (opCanvasOpen en s rid P)"
  "answers_once rid (opCanvasEdit en s rid P)"
  "answers_once rid (opCanvasClose en s rid P)"
  "answers_once rid (opCanvasSwitchTo en s rid P)"
  "answers_once rid (opCanvasToolsList en s rid P)"
  "answers_once rid (opCanvasToolsRun en s rid P)"
  "answers_once rid (opCanvasAiActionsList en s rid P)"
  "answers_once rid (opCanvasAiActionsTrigger en s rid P)"
  "answers_once rid (opCanvasRunStart en s rid P)"
  "answers_once rid (opCanvasRunCancel en s rid P)"
  "answers_once rid (opCanvasRunSendInput en s rid P)"
  "answers_once rid (opCanvasRunEof en s rid P)"
  "answers_once rid (opCanvasRunSendToIde en s rid P)"
  "answers_once rid (opCanvasRunIsRunning en s rid P)"
  "answers_once rid (opCanvasRunSandboxState en s rid P)"
  "answers_once rid (opCanvasRunSupportedLangs en s rid P)"
  "answers_once rid (opCanvasRunSupportedIdeLangs en s rid P)"
  "answers_once rid (opCanvasConsoleClear en s rid P)"
  by (simp_all add: Let_def answering split: option.split sum.split json.split
      add:opCanvasActiveForConv_def opCanvasHistoryForConv_def opCanvasDiskMirrorPath_def
      opCanvasSuggestedExportName_def opCanvasReadSlice_def opCanvasOpen_def opCanvasEdit_def
      opCanvasClose_def opCanvasSwitchTo_def opCanvasToolsList_def opCanvasToolsRun_def
      opCanvasAiActionsList_def opCanvasAiActionsTrigger_def opCanvasRunStart_def opCanvasRunCancel_def
      opCanvasRunSendInput_def opCanvasRunEof_def opCanvasRunSendToIde_def opCanvasRunIsRunning_def
      opCanvasRunSandboxState_def opCanvasRunSupportedLangs_def opCanvasRunSupportedIdeLangs_def
      opCanvasConsoleClear_def)

lemma answers_polls [answering]:
  "answers_once rid (opPollList en s rid P)"
  "answers_once rid (opPollResults en s rid P)"
  "answers_once rid (opPollStart en s rid P)"
  "answers_once rid (opPollVote en s rid P)"
  "answers_once rid (opPollClose en s rid P)"
  by (simp_all add: Let_def answering split: option.split sum.split json.split
      add:opPollList_def opPollResults_def opPollStart_def opPollVote_def opPollClose_def)

lemma answers_activity [answering]:
  "answers_once rid (opActivityForProject en s rid P)"
  "answers_once rid (opActivityForConversation en s rid P)"
  "answers_once rid (opActivityByTurn en s rid P)"
  by (simp_all add: Let_def answering split: option.split sum.split json.split
      add:opActivityForProject_def opActivityForConversation_def opActivityByTurn_def)

lemma answers_project_templates [answering]:
  "answers_once rid (opProjectTemplateList en s rid P)"
  "answers_once rid (opProjectTemplateListLanding en s rid P)"
  "answers_once rid (opProjectTemplateGet en s rid P)"
  "answers_once rid (opProjectTemplateRoster en s rid P)"
  "answers_once rid (opProjectTemplateCreateProject en s rid P)"
  "answers_once rid (opProjectTemplatePinUser en s rid P)"
  "answers_once rid (opProjectTemplateSaveAsNew en s rid P)"
  "answers_once rid (opProjectTemplateDeleteUser en s rid P)"
  by (simp_all add: Let_def answering split: option.split sum.split json.split
      add:opProjectTemplateList_def opProjectTemplateListLanding_def opProjectTemplateGet_def
      opProjectTemplateRoster_def opProjectTemplateCreateProject_def opProjectTemplatePinUser_def
      opProjectTemplateSaveAsNew_def opProjectTemplateDeleteUser_def)

lemma answers_mounts_of_a_workspace [answering]:
  "answers_once rid (opWorkspaceMountRegister en s rid P)"
  "answers_once rid (opWorkspaceMountUnregister en s rid P)"
  "answers_once rid (opWorkspaceMountUpdateTree en s rid P)"
  "answers_once rid (opWorkspaceMountUpdateTier en s rid P)"
  "answers_once rid (opWorkspaceMountForFolder en s rid P)"
  by (simp_all add: Let_def answering split: option.split sum.split json.split
      add:opWorkspaceMountRegister_def opWorkspaceMountUnregister_def opWorkspaceMountUpdateTree_def
      opWorkspaceMountUpdateTier_def opWorkspaceMountForFolder_def)

lemma table_answers_once:
  assumes "map_of opTable op = Some h"
  shows "answers_once rid (h en s rid P)"
proof -
  have "list_all (\<lambda>(n, h). answers_once rid (h en s rid P)) opTable"
    by (simp add: opTable_def answering)
  then show ?thesis using map_of_SomeD [OF assms] by (auto simp: list_all_iff)
qed

end
