(* ===== verification/Wire_Balance.thy ===== *)
theory Wire_Balance
  imports Wire_Laws
begin

text \<open>
  The balance of the daemon: for a living session, the answers written, the callbacks that wait and the
  unfinished lists of models make up the requests the session accepted, at every moment of every history.
\<close>

section \<open>The accumulators of the lists of models\<close>

definition forModels :: "nat \<Rightarrow> wire_cont \<Rightarrow> bool" where
  "forModels n k = (case k of CatModels m _ \<Rightarrow> m = n | _ \<Rightarrow> False)"

definition cm :: "nat \<Rightarrow> wire_cont list \<Rightarrow> int" where
  "cm n ks = int (length (filter (forModels n) ks))"

definition cp :: "nat \<Rightarrow> wire_cont list \<Rightarrow> nat" where
  "cp n ks = length (filter (\<lambda>k. k = CatProvider n) ks)"

definition cl :: "nat \<Rightarrow> wire_cont list \<Rightarrow> nat" where
  "cl n ks = length (filter (\<lambda>k. k = CatModel n) ks)"

lemma counts_simps [simp]:
  "cm n [] = 0" "cp n [] = 0" "cl n [] = 0"
  "cm n (k # ks) = (if forModels n k then 1 else 0) + cm n ks"
  "cp n (k # ks) = (if k = CatProvider n then 1 else 0) + cp n ks"
  "cl n (k # ks) = (if k = CatModel n then 1 else 0) + cl n ks"
  "cm n (ks @ ls) = cm n ks + cm n ls" "cp n (ks @ ls) = cp n ks + cp n ls" "cl n (ks @ ls) = cl n ks + cl n ls"
  by (simp_all add: cm_def cp_def cl_def)

lemma cm_nonneg [simp]: "0 \<le> cm n ks"
  by (simp add: cm_def)

text \<open>Each counter and flag of an accumulator says which of its callbacks are still waiting.\<close>

definition cat_ok :: "wire_session \<Rightarrow> wire_cont list \<Rightarrow> bool" where
  "cat_ok s ks \<longleftrightarrow>
     (\<forall>n < length (ws_catalogs s). let c = ws_catalogs s ! n in
        ct_pendingModelsCalls c = cm n ks \<and>
        cp n ks = (if ct_activeProviderRead c then 0 else 1) \<and> cl n ks = (if ct_activeModelRead c then 0 else 1)) \<and>
     (\<forall>k \<in> set ks. \<forall>n. cont_catalog k = Some n \<longrightarrow> n < length (ws_catalogs s))"

definition openCats :: "string \<Rightarrow> wire_session \<Rightarrow> nat" where
  "openCats r s = length (filter (\<lambda>c. ct_rid c = r \<and> \<not> finished c) (ws_catalogs s))"

definition worth :: "string \<Rightarrow> wire_cont \<Rightarrow> nat" where
  "worth r k = (if cont_rid k = Some r then 1 else 0)"

lemma plain_counts: "cont_catalog k = None \<Longrightarrow> \<not> forModels n k \<and> k \<noteq> CatProvider n \<and> k \<noteq> CatModel n"
  by (cases k) (auto simp: forModels_def)

lemma plain_counts_list: "\<forall>k \<in> set ks. cont_catalog k = None \<Longrightarrow> cm n ks = 0 \<and> cp n ks = 0 \<and> cl n ks = 0"
  by (induction ks) (auto dest: plain_counts)

lemma cat_ok_plain: "\<forall>k \<in> set ls. cont_catalog k = None \<Longrightarrow> cat_ok s (ks @ ls) = cat_ok s ks"
  by (auto simp: cat_ok_def Let_def plain_counts_list)

lemma cat_ok_mset: "cat_ok s ks \<Longrightarrow> mset ks = mset ls \<Longrightarrow> cat_ok s ls"
proof -
  assume m: "mset ks = mset ls"
  then have "length (filter P ks) = length (filter P ls)" for P by (metis mset_filter size_mset)
  moreover have "set ks = set ls" by (rule mset_eq_setD [OF m])
  moreover assume "cat_ok s ks"
  ultimately show "cat_ok s ls" by (simp add: cat_ok_def cm_def cp_def cl_def)
qed

lemma no_waiting_no_open: "cat_ok s [] \<Longrightarrow> openCats r s = 0"
  by (auto simp: cat_ok_def openCats_def finished_def Let_def in_set_conv_nth filter_empty_conv split: if_splits)

lemma filter_update:
  "n < length xs \<Longrightarrow> length (filter P (xs[n := x])) + (if P (xs ! n) then 1 else 0)
     = length (filter P xs) + (if P x then 1 else (0::nat))"
proof (induction xs arbitrary: n)
  case (Cons y ys)
  then show ?case by (cases n) auto
qed simp

lemma update_balance:
  assumes "n < length (ws_catalogs s)" "\<not> finished (ws_catalogs s ! n)"
    and "ct_rid (f (ws_catalogs s ! n)) = ct_rid (ws_catalogs s ! n)"
  shows "dues r (snd (updateCatalog n f s)) + openCats r (fst (updateCatalog n f s)) = openCats r s"
  using filter_update [OF assms(1), of "\<lambda>c. ct_rid c = r \<and> \<not> finished c" "f (ws_catalogs s ! n)"] assms
  by (auto simp: updateCatalog_def maybeFinish_def openCats_def catalogReply_def Let_def)

lemma updateCatalog_conts [simp]: "conts (snd (updateCatalog n f s)) = []"
  by (simp add: updateCatalog_def maybeFinish_def catalogReply_def Let_def)

lemma updateCatalog_ok:
  assumes "n < length (ws_catalogs s)" and "cat_ok s (k # ks)" and "cont_catalog k = Some n"
    and "let c = ws_catalogs s ! n; c1 = f c in
      ct_pendingModelsCalls c1 = ct_pendingModelsCalls c - (if forModels n k then 1 else 0) \<and>
      ct_activeProviderRead c1 = (ct_activeProviderRead c \<or> k = CatProvider n) \<and>
      ct_activeModelRead c1 = (ct_activeModelRead c \<or> k = CatModel n)"
  shows "cat_ok (fst (updateCatalog n f s)) ks"
proof -
  have other: "\<not> forModels m k \<and> k \<noteq> CatProvider m \<and> k \<noteq> CatModel m" if "m \<noteq> n" for m
    using assms(3) that by (cases k) (auto simp: forModels_def)
  show ?thesis
    using assms other
    by (auto simp: cat_ok_def updateCatalog_def Let_def nth_list_update split: if_splits)
qed

section \<open>A callback passes its worth on\<close>

lemma asks_conts: "conts (map (\<lambda>i. Ask (c i) t (k i)) xs) = map k xs"
  by (induction xs) auto

lemma asks_dues: "(\<And>i. cont_rid (k i) = None) \<Longrightarrow> dues r (map (\<lambda>i. Ask (c i) t (k i)) xs) = 0"
  by (induction xs) auto

lemma counts_models: "cm m (map (CatModels n) xs) = (if m = n then int (length xs) else 0)"
    "cp m (map (CatModels n) xs) = 0" "cl m (map (CatModels n) xs) = 0"
  by (induction xs) (auto simp: forModels_def)

lemma startCatalog_balance:
  assumes "cat_ok s ks"
  shows "dues r (snd (startCatalog rid v s)) + openCats r (fst (startCatalog rid v s)) = (if rid = r then 1 else 0) + openCats r s"
    and "cat_ok (fst (startCatalog rid v s)) (conts (snd (startCatalog rid v s)) @ ks)"
proof -
  have fresh: "cm n ks = 0 \<and> cp n ks = 0 \<and> cl n ks = 0" if "\<not> n < length (ws_catalogs s)" for n
  proof -
    have "\<forall>k \<in> set ks. \<not> forModels n k \<and> k \<noteq> CatProvider n \<and> k \<noteq> CatModel n"
    proof
      fix k assume "k \<in> set ks"
      with assms that have "cont_catalog k \<noteq> Some n" by (auto simp: cat_ok_def)
      then show "\<not> forModels n k \<and> k \<noteq> CatProvider n \<and> k \<noteq> CatModel n" by (cases k) (auto simp: forModels_def)
    qed
    then show ?thesis by (induction ks) auto
  qed
  show "dues r (snd (startCatalog rid v s)) + openCats r (fst (startCatalog rid v s)) = (if rid = r then 1 else 0) + openCats r s"
    by (auto simp: startCatalog_def openCats_def finished_def catalogReply_def Let_def asks_dues)
  show "cat_ok (fst (startCatalog rid v s)) (conts (snd (startCatalog rid v s)) @ ks)"
    using assms fresh
    by (auto simp: startCatalog_def cat_ok_def catalogReply_def Let_def asks_conts counts_models nth_append
        less_Suc_eq forModels_def)
qed

lemma resume_balance:
  assumes "cat_ok s (k # ks)"
  shows "dues r (snd (resume en k ok v err s)) + openCats r (fst (resume en k ok v err s)) = worth r k + openCats r s"
    and "cat_ok (fst (resume en k ok v err s)) (conts (snd (resume en k ok v err s)) @ ks)"
proof -
  have tail: "cat_ok s ks" if "cont_catalog k = None"
    using assms plain_counts [OF that] by (auto simp: cat_ok_def Let_def)
  have cat: "n < length (ws_catalogs s) \<and> \<not> finished (ws_catalogs s ! n)" if "cont_catalog k = Some n" for n
    using assms that cm_nonneg [of n ks]
    by (cases k) (auto simp: cat_ok_def finished_def Let_def forModels_def simp del: cm_nonneg split: if_splits)
  show "dues r (snd (resume en k ok v err s)) + openCats r (fst (resume en k ok v err s)) = worth r k + openCats r s"
  proof (cases k)
    case (CatProviders rid)
    then show ?thesis using startCatalog_balance(1) [OF tail, of r rid v] by (auto simp: worth_def)
  next
    case (CatModels n i)
    then show ?thesis using cat by (auto simp: worth_def update_balance modelsRead_def Let_def)
  next
    case (CatProvider n)
    then show ?thesis using cat by (auto simp: worth_def update_balance)
  next
    case (CatModel n)
    then show ?thesis using cat by (auto simp: worth_def update_balance)
  qed (auto simp: worth_def mediaFile_def Let_def split: option.split)
  show "cat_ok (fst (resume en k ok v err s)) (conts (snd (resume en k ok v err s)) @ ks)"
  proof (cases k)
    case (CatProviders rid)
    then show ?thesis using startCatalog_balance(2) [OF tail, of rid v] tail by auto
  next
    case (CatModels n i)
    then show ?thesis using cat assms by (auto intro!: updateCatalog_ok [OF _ assms] simp: modelsRead_def forModels_def Let_def)
  next
    case (CatProvider n)
    then show ?thesis using cat assms by (auto intro!: updateCatalog_ok [OF _ assms] simp: forModels_def Let_def)
  next
    case (CatModel n)
    then show ?thesis using cat assms by (auto intro!: updateCatalog_ok [OF _ assms] simp: forModels_def Let_def)
  qed (use tail in \<open>auto simp: mediaFile_def Let_def cat_ok_def forModels_def split: option.split\<close>)
qed


section \<open>The state of the daemon\<close>

definition awaited :: "wire_daemon \<Rightarrow> nat \<Rightarrow> wire_cont list" where
  "awaited d sid = map hp_cont (filter (\<lambda>p. hp_session p = sid) (dm_pending d))"

fun answer_of :: "nat \<Rightarrow> string \<Rightarrow> daemon_out \<Rightarrow> nat" where
  "answer_of sid r (Sent i e b) = (if i = sid then due r e else 0)"
| "answer_of sid r _ = 0"

definition answered :: "wire_daemon \<Rightarrow> nat \<Rightarrow> string \<Rightarrow> nat" where
  "answered d sid r = (\<Sum>x \<leftarrow> dm_out d. answer_of sid r x)"

definition owed :: "wire_daemon \<Rightarrow> nat \<Rightarrow> string \<Rightarrow> nat" where
  "owed d sid r = (\<Sum>k \<leftarrow> awaited d sid. worth r k) + (case sessionAt d sid of Some s \<Rightarrow> openCats r s | None \<Rightarrow> 0)"

definition balance :: "wire_daemon \<Rightarrow> nat \<Rightarrow> string \<Rightarrow> nat" where
  "balance d sid r = answered d sid r + owed d sid r"

definition alive :: "wire_daemon \<Rightarrow> nat \<Rightarrow> bool" where
  "alive d sid \<longleftrightarrow> sessionAt d sid \<noteq> None"

fun sent_below :: "nat \<Rightarrow> daemon_out \<Rightarrow> bool" where
  "sent_below n (Sent i _ _) = (i < n)"
| "sent_below n _ = True"

text \<open>The daemon while the effects \<open>es\<close> of the session \<open>sid\<close> are still to be carried out.\<close>

definition ready :: "(nat \<Rightarrow> string) \<Rightarrow> nat \<Rightarrow> wire_effect list \<Rightarrow> wire_daemon \<Rightarrow> bool" where
  "ready u sid es d \<longleftrightarrow>
     (\<forall>i s. sessionAt d i = Some s \<longrightarrow> i < dm_next d \<and> cat_ok s (awaited d i @ (if i = sid then conts es else []))) \<and>
     distinct (map hp_id (dm_pending d)) \<and>
     (\<forall>p \<in> set (dm_pending d). hp_session p < dm_next d \<and> hp_id p \<in> u ` {..<dm_drawn d}) \<and>
     list_all (sent_below (dm_next d)) (dm_out d) \<and> sid < dm_next d"

lemma ready_session:
  "ready u sid es d \<Longrightarrow> sessionAt d i = Some s \<Longrightarrow>
     i < dm_next d \<and> cat_ok s (awaited d i @ (if i = sid then conts es else []))"
  unfolding ready_def by blast

lemma ready_rest:
  "ready u sid es d \<Longrightarrow> distinct (map hp_id (dm_pending d)) \<and>
     (\<forall>p \<in> set (dm_pending d). hp_session p < dm_next d \<and> hp_id p \<in> u ` {..<dm_drawn d}) \<and>
     list_all (sent_below (dm_next d)) (dm_out d) \<and> sid < dm_next d"
  unfolding ready_def by blast

lemma readyI:
  "(\<And>i s. sessionAt d i = Some s \<Longrightarrow> i < dm_next d \<and> cat_ok s (awaited d i @ (if i = sid then conts es else []))) \<Longrightarrow>
   distinct (map hp_id (dm_pending d)) \<and>
     (\<forall>p \<in> set (dm_pending d). hp_session p < dm_next d \<and> hp_id p \<in> u ` {..<dm_drawn d}) \<and>
     list_all (sent_below (dm_next d)) (dm_out d) \<and> sid < dm_next d \<Longrightarrow> ready u sid es d"
  unfolding ready_def by blast

text \<open>What carrying out effects leaves alone.\<close>

definition same_ids :: "wire_daemon \<Rightarrow> wire_daemon \<Rightarrow> bool" where
  "same_ids d d' \<longleftrightarrow> dm_next d' = dm_next d \<and> dm_hostUp d' = dm_hostUp d \<and> alive d' = alive d
     \<and> map fst (dm_sessions d') = map fst (dm_sessions d)"

lemma same_ids_refl [simp]: "same_ids d d"
  by (simp add: same_ids_def)

lemma same_ids_trans: "same_ids d d' \<Longrightarrow> same_ids d' d'' \<Longrightarrow> same_ids d d''"
  by (simp add: same_ids_def)

lemma sessionAt_set [simp]:
  "sessionAt (setSession sid s d) i = (if i = sid \<and> alive d sid then Some s else sessionAt d i)"
  by (auto simp: sessionAt_def setSession_def alive_def AList.map_of_map_entry split: option.splits)

lemma setSession_frame [simp]:
  "dm_pending (setSession sid s d) = dm_pending d" "dm_out (setSession sid s d) = dm_out d"
  "dm_next (setSession sid s d) = dm_next d" "dm_drawn (setSession sid s d) = dm_drawn d"
  "dm_hostUp (setSession sid s d) = dm_hostUp d" "dm_auth (setSession sid s d) = dm_auth d"
  by (simp_all add: setSession_def)

lemma map_entry_keys [simp]: "map fst (AList.map_entry k f xs) = map fst xs"
  by (induction xs) auto

lemma setSession_same_ids [simp]: "same_ids d (setSession sid s d)"
  by (auto simp: same_ids_def alive_def fun_eq_iff) (simp add: setSession_def)

lemma awaited_frame [simp]: "awaited (setSession sid s d) i = awaited d i"
  by (simp add: awaited_def)

lemma socketOpen_pending [simp]: "socketOpen (d\<lparr>dm_pending := ps\<rparr>) = socketOpen d"
  by (simp add: socketOpen_def sessionAt_def fun_eq_iff)

lemma eraseFound_frame [simp]:
  "dm_sessions (eraseFound en k found d) = dm_sessions d" "sessionAt (eraseFound en k found d) = sessionAt d"
  "dm_out (eraseFound en k found d) = dm_out d" "dm_next (eraseFound en k found d) = dm_next d"
  "dm_drawn (eraseFound en k found d) = dm_drawn d" "dm_hostUp (eraseFound en k found d) = dm_hostUp d"
  "dm_auth (eraseFound en k found d) = dm_auth d"
  by (simp_all add: eraseFound_def sessionAt_def fun_eq_iff split: option.split)

lemma eraseFound_pending: "set (dm_pending (eraseFound en k found d)) \<subseteq> set (dm_pending d)"
  by (auto simp: eraseFound_def split: option.split)

lemma logged_frame [simp]:
  "sessionAt (logged x d) = sessionAt d" "dm_pending (logged x d) = dm_pending d" "dm_next (logged x d) = dm_next d"
  "dm_drawn (logged x d) = dm_drawn d" "dm_hostUp (logged x d) = dm_hostUp d" "dm_sessions (logged x d) = dm_sessions d"
  "dm_out (logged x d) = dm_out d @ [x]" "awaited (logged x d) = awaited d" "alive (logged x d) = alive d"
  by (auto simp: logged_def sessionAt_def awaited_def alive_def fun_eq_iff)

lemma logged_same_ids [simp]: "same_ids d (logged x d)"
  by (simp add: same_ids_def)

lemma balance_logged: "balance (logged x d) i r = balance d i r + answer_of i r x"
  by (simp add: balance_def answered_def owed_def)

lemma ready_logged: "ready u sid es (logged x d) \<longleftrightarrow> ready u sid es d \<and> sent_below (dm_next d) x"
  by (auto simp: ready_def)

lemma ready_skip: "conts [e] = [] \<Longrightarrow> ready u sid (e # es) d = ready u sid es d"
  using conts_append [of "[e]" es] by (simp add: ready_def del: conts_append)

text \<open>A call that is made waits for its answer.\<close>

lemma awaitHost_fields:
  assumes "inj u" "en_uuid en = u" "ready u sid es d"
  shows "dm_pending (awaitHost en sid call t k d) = dm_pending d @
           [\<lparr>hp_id = u (dm_drawn d), hp_expiresAtMs = en_now en + max t 100, hp_session = sid, hp_cont = k\<rparr>]"
    and "u (dm_drawn d) \<notin> hp_id ` set (dm_pending d)"
proof -
  show fresh: "u (dm_drawn d) \<notin> hp_id ` set (dm_pending d)"
  proof
    assume "u (dm_drawn d) \<in> hp_id ` set (dm_pending d)"
    then obtain j where "j < dm_drawn d" "u (dm_drawn d) = u j" using assms(3) by (fastforce simp: ready_def)
    with assms(1) show False by (auto dest: injD)
  qed
  then have "filter (\<lambda>p. hp_id p \<noteq> u (dm_drawn d)) (dm_pending d) = dm_pending d"
    by (intro filter_True) (metis imageI)
  then show "dm_pending (awaitHost en sid call t k d) = dm_pending d @
           [\<lparr>hp_id = u (dm_drawn d), hp_expiresAtMs = en_now en + max t 100, hp_session = sid, hp_cont = k\<rparr>]"
    by (simp add: awaitHost_def assms(2) Let_def)
qed

lemma awaitHost_frame [simp]:
  "sessionAt (awaitHost en sid call t k d) = sessionAt d" "dm_next (awaitHost en sid call t k d) = dm_next d"
  "dm_hostUp (awaitHost en sid call t k d) = dm_hostUp d" "dm_drawn (awaitHost en sid call t k d) = Suc (dm_drawn d)"
  "dm_out (awaitHost en sid call t k d) = dm_out d @ [Called (clientOfSession d sid) call]"
  "dm_sessions (awaitHost en sid call t k d) = dm_sessions d"
  by (simp_all add: awaitHost_def Let_def logged_def sessionAt_def clientOfSession_def fun_eq_iff)

lemma awaitHost_step:
  assumes "inj u" "en_uuid en = u" "ready u sid (Ask call t k # es) d"
  shows "ready u sid es (awaitHost en sid call t k d)"
    and "balance (awaitHost en sid call t k d) i r = balance d i r + (if i = sid then worth r k else 0)"
    and "same_ids d (awaitHost en sid call t k d)"
proof -
  note p = awaitHost_fields [OF assms]
  have a: "awaited (awaitHost en sid call t k d) i = awaited d i @ (if i = sid then [k] else [])" for i
    by (simp add: awaited_def p)
  show "balance (awaitHost en sid call t k d) i r = balance d i r + (if i = sid then worth r k else 0)"
    by (auto simp: balance_def answered_def owed_def a)
  show "same_ids d (awaitHost en sid call t k d)"
    by (auto simp: same_ids_def alive_def fun_eq_iff)
  show "ready u sid es (awaitHost en sid call t k d)"
    unfolding ready_def
  proof (intro conjI allI impI)
    fix i s assume s: "sessionAt (awaitHost en sid call t k d) i = Some s"
    then have "cat_ok s (awaited d i @ (if i = sid then conts (Ask call t k # es) else []))" "i < dm_next d"
      using ready_session [OF assms(3), of i s] by (simp_all del: conts.simps)
    then show "cat_ok s (awaited (awaitHost en sid call t k d) i @ (if i = sid then conts es else []))"
      and "i < dm_next (awaitHost en sid call t k d)"
      by (auto simp: a split: if_splits)
  next
    show "distinct (map hp_id (dm_pending (awaitHost en sid call t k d)))"
      using assms(3) p(2) by (auto simp: ready_def p(1))
    show "\<forall>q \<in> set (dm_pending (awaitHost en sid call t k d)). hp_session q < dm_next (awaitHost en sid call t k d)
        \<and> hp_id q \<in> u ` {..<dm_drawn (awaitHost en sid call t k d)}"
      using assms(3) by (fastforce simp: ready_def p(1))
    show "list_all (sent_below (dm_next (awaitHost en sid call t k d))) (dm_out (awaitHost en sid call t k d))"
      and "sid < dm_next (awaitHost en sid call t k d)"
      using assms(3) by (simp_all add: ready_def)
  qed
qed


text \<open>Closing other sessions touches neither their lists of models nor what awaits the host.\<close>

definition same_sessions :: "wire_daemon \<Rightarrow> wire_daemon \<Rightarrow> bool" where
  "same_sessions d d' \<longleftrightarrow> same_ids d d' \<and> dm_pending d' = dm_pending d \<and> dm_drawn d' = dm_drawn d \<and>
     (\<forall>i s'. sessionAt d' i = Some s' \<longrightarrow> (\<exists>s. sessionAt d i = Some s \<and> ws_catalogs s' = ws_catalogs s)) \<and>
     (\<exists>xs. dm_out d' = dm_out d @ xs \<and> (\<forall>x \<in> set xs. \<exists>c y up. x = Answered c y up))"

lemma same_sessions_refl [simp]: "same_sessions d d"
  by (auto simp: same_sessions_def)

lemma same_sessions_trans:
  assumes "same_sessions d d'" and "same_sessions d' d''"
  shows "same_sessions d d''"
proof -
  obtain xs ys where out: "dm_out d' = dm_out d @ xs" "dm_out d'' = dm_out d' @ ys"
    "\<forall>x \<in> set xs. \<exists>c y up. x = Answered c y up" "\<forall>x \<in> set ys. \<exists>c y up. x = Answered c y up"
    using assms unfolding same_sessions_def by blast
  have s: "\<exists>s. sessionAt d i = Some s \<and> ws_catalogs s'' = ws_catalogs s" if "sessionAt d'' i = Some s''" for i s''
  proof -
    obtain s' where "sessionAt d' i = Some s'" "ws_catalogs s'' = ws_catalogs s'"
      using assms(2) \<open>sessionAt d'' i = Some s''\<close> unfolding same_sessions_def by blast
    moreover then obtain s where "sessionAt d i = Some s" "ws_catalogs s' = ws_catalogs s"
      using assms(1) unfolding same_sessions_def by blast
    ultimately show ?thesis by simp
  qed
  have "dm_out d'' = dm_out d @ (xs @ ys)" "\<forall>x \<in> set (xs @ ys). \<exists>c y up. x = Answered c y up"
    using out by auto
  moreover have "same_ids d d''" "dm_pending d'' = dm_pending d" "dm_drawn d'' = dm_drawn d"
    using assms same_ids_trans unfolding same_sessions_def by auto
  ultimately show ?thesis unfolding same_sessions_def using s by blast
qed

lemma cat_ok_cong: "ws_catalogs s = ws_catalogs s' \<Longrightarrow> cat_ok s = cat_ok s'"
  by (simp add: cat_ok_def fun_eq_iff)

lemma openCats_cong: "ws_catalogs s = ws_catalogs s' \<Longrightarrow> openCats r s = openCats r s'"
  by (simp add: openCats_def)

lemma same_sessions_ready: "same_sessions d d' \<Longrightarrow> ready u sid es d \<Longrightarrow> ready u sid es d'"
proof -
  assume s: "same_sessions d d'" and r: "ready u sid es d"
  have a: "awaited d' = awaited d" using s by (simp add: same_sessions_def awaited_def fun_eq_iff)
  have nxt: "dm_next d' = dm_next d" "dm_pending d' = dm_pending d" "dm_drawn d' = dm_drawn d"
    using s by (simp_all add: same_sessions_def same_ids_def)
  obtain xs where xs: "dm_out d' = dm_out d @ xs" "\<forall>x \<in> set xs. \<exists>c y up. x = Answered c y up"
    using s unfolding same_sessions_def by blast
  then have "list_all (sent_below (dm_next d)) xs" by (fastforce simp: list_all_iff)
  then have out: "list_all (sent_below (dm_next d)) (dm_out d')" using ready_rest [OF r] xs(1) by simp
  show "ready u sid es d'"
  proof (rule readyI)
    fix i s' assume "sessionAt d' i = Some s'"
    then obtain s where "sessionAt d i = Some s" "ws_catalogs s' = ws_catalogs s"
      using s unfolding same_sessions_def by blast
    then show "i < dm_next d' \<and> cat_ok s' (awaited d' i @ (if i = sid then conts es else []))"
      using ready_session [OF r, of i s] cat_ok_cong [of s' s] by (simp add: nxt a)
  qed (use ready_rest [OF r] out in \<open>simp add: nxt\<close>)
qed

lemma answered_only: "\<forall>x \<in> set xs. \<exists>c y up. x = Answered c y up \<Longrightarrow> (\<Sum>x \<leftarrow> xs. answer_of i r x) = 0"
  by (induction xs) auto

lemma same_sessions_balance: "same_sessions d d' \<Longrightarrow> balance d' i r = balance d i r"
proof -
  assume s: "same_sessions d d'"
  have "alive d' i = alive d i" using s by (simp add: same_sessions_def same_ids_def)
  then have "(case sessionAt d' i of Some s \<Rightarrow> openCats r s | None \<Rightarrow> 0) = (case sessionAt d i of Some s \<Rightarrow> openCats r s | None \<Rightarrow> 0)"
  proof (cases "sessionAt d' i")
    case (Some s')
    then obtain s where "sessionAt d i = Some s" "ws_catalogs s' = ws_catalogs s"
      using s unfolding same_sessions_def by blast
    with Some openCats_cong [of s' s] show ?thesis by simp
  qed (auto simp: alive_def)
  moreover have "answered d' i r = answered d i r"
  proof -
    obtain xs where "dm_out d' = dm_out d @ xs" "\<forall>x \<in> set xs. \<exists>c y up. x = Answered c y up"
      using s unfolding same_sessions_def by blast
    then show ?thesis by (simp add: answered_def answered_only)
  qed
  moreover have "awaited d' i = awaited d i" using s by (simp add: same_sessions_def awaited_def)
  ultimately show ?thesis by (simp add: balance_def owed_def)
qed

lemma callbacksRun_answered: "x \<in> set (callbacksRun up es) \<Longrightarrow> \<exists>c y up. x = Answered c y up"
  by (auto simp: callbacksRun_def split: wire_effect.splits)

lemma same_sessions_set:
  assumes "sessionAt d sid = Some s" "ws_catalogs s' = ws_catalogs s"
  shows "same_sessions d (setSession sid s' (d\<lparr>dm_out := dm_out d @ callbacksRun up es\<rparr>))"
proof -
  have "sessionAt (setSession sid s' (d\<lparr>dm_out := dm_out d @ callbacksRun up es\<rparr>)) i =
      (if i = sid then Some s' else sessionAt d i)" for i
    using assms by (auto simp: sessionAt_def setSession_def AList.map_of_map_entry)
  then show ?thesis using assms callbacksRun_answered [of _ up es]
    by (auto simp: same_sessions_def same_ids_def alive_def fun_eq_iff) (simp add: setSession_def)
qed

lemma closeOne_same [simp]: "same_sessions d (closeOne kind sid d)"
  by (auto simp: closeOne_def forceClose_def drainPendingClientRequests_def split: option.split intro!: same_sessions_set)

lemma rebound_same [simp]: "same_sessions d (onClientIdRebound c self d)"
proof -
  have "same_sessions d (fold (closeOne kind) ids d)" for ids kind
    by (induction ids arbitrary: d) (auto intro: same_sessions_trans closeOne_same)
  then show ?thesis by (simp add: onClientIdRebound_def)
qed

section \<open>Carrying out effects\<close>

text \<open>Carrying out effects pays what they are worth, for their session and for no other.\<close>

definition pays :: "nat \<Rightarrow> wire_effect list \<Rightarrow> wire_daemon \<Rightarrow> wire_daemon \<Rightarrow> bool" where
  "pays sid es d d' \<longleftrightarrow> same_ids d d' \<and>
     (\<forall>i r. alive d i \<longrightarrow> balance d' i r = balance d i r + (if i = sid then dues r es else 0))"

lemma pays_next: "pays sid es d' d'' \<Longrightarrow> same_ids d d' \<Longrightarrow>
    (\<And>i r. alive d i \<Longrightarrow> balance d' i r = balance d i r + (if i = sid then n r else 0)) \<Longrightarrow>
    (\<And>r. dues r es' = n r + dues r es) \<Longrightarrow> pays sid es' d d''"
  by (auto simp: pays_def same_ids_def)

lemma resumed_step:
  assumes "ready u sid (Ask call t k # es) d" "sessionAt d sid = Some s"
    and d': "d' = setSession sid (fst (resume en k ok v err s)) d"
  shows "ready u sid (snd (resume en k ok v err s) @ es) d'"
    and "balance d' i r + (if i = sid then dues r (snd (resume en k ok v err s)) else 0) = balance d i r + (if i = sid then worth r k else 0)"
proof -
  have "cat_ok s (awaited d sid @ conts (Ask call t k # es))"
    using ready_session [OF assms(1,2)] by (simp del: conts.simps)
  then have "cat_ok s (k # (awaited d sid @ conts es))" by (rule cat_ok_mset) simp
  note b = resume_balance [OF this, where en = en and ok = ok and v = v and err = err]
  have "cat_ok (fst (resume en k ok v err s)) (awaited d sid @ conts (snd (resume en k ok v err s)) @ conts es)"
    by (rule cat_ok_mset [OF b(2)]) simp
  then have cats: "cat_ok (fst (resume en k ok v err s)) (awaited d sid @ conts (snd (resume en k ok v err s) @ es))" by simp
  show "ready u sid (snd (resume en k ok v err s) @ es) d'"
  proof (rule readyI)
    fix i s' assume "sessionAt d' i = Some s'"
    then show "i < dm_next d' \<and> cat_ok s' (awaited d' i @ (if i = sid then conts (snd (resume en k ok v err s) @ es) else []))"
      using cats ready_session [OF assms(1), of i] ready_session [OF assms(1,2)] unfolding d'
      by (cases "i = sid") (simp_all add: alive_def assms(2) del: conts.simps)
  qed (use ready_rest [OF assms(1)] in \<open>simp add: d'\<close>)
  show "balance d' i r + (if i = sid then dues r (snd (resume en k ok v err s)) else 0) = balance d i r + (if i = sid then worth r k else 0)"
    using b(1) [of r] assms(2) unfolding d' by (auto simp: balance_def answered_def owed_def alive_def)
qed

lemma sent_pays:
  assumes "ready u sid (e # es) d" "conts [e] = []"
  shows "ready u sid es (logged (Sent sid e b) d)"
    and "pays sid es (logged (Sent sid e b) d) d' \<Longrightarrow> pays sid (e # es) d d'"
proof -
  show "ready u sid es (logged (Sent sid e b) d)"
    using assms ready_rest [OF assms(1)] by (simp add: ready_logged ready_skip)
  assume p: "pays sid es (logged (Sent sid e b) d) d'"
  show "pays sid (e # es) d d'"
    by (rule pays_next [OF p logged_same_ids, of "\<lambda>r. due r e"]) (simp_all add: balance_logged)
qed

lemma perform_pays:
  assumes "inj u" "en_uuid en = u" "ready u sid es d"
  shows "ready u sid [] (perform en sid es d) \<and> pays sid es d (perform en sid es d)"
  using assms
proof (induction en sid es d rule: perform.induct)
  case (1 en sid d)
  then show ?case by (auto simp: pays_def)
next
  case (2 en sid call t k es d)
  show ?case
  proof (cases "dm_hostUp d")
    case True
    note step = awaitHost_step [OF 2(4,5,6)]
    from 2(1) [OF True 2(4,5) step(1)] True show ?thesis
      using pays_next [OF _ step(3,2)] by (auto simp: worth_def)
  next
    case off: False
    show ?thesis
    proof (cases "sessionAt d sid")
      case None
      have "ready u sid es d" using 2(6) None by (auto simp: ready_def split: if_splits)
      from 2(2) [OF off None 2(4,5) this] off None show ?thesis by (auto simp: pays_def alive_def)
    next
      case (Some s)
      note step = resumed_step [OF 2(6) Some refl, where en = en and ok = False and v = JNull and err = "''bridge offline''"]
      from 2(3) [OF off Some 2(4,5) step(1)] have IH:
        "ready u sid [] (perform en sid (Ask call t k # es) d)"
        "pays sid (snd (resume en k False JNull ''bridge offline'' s) @ es)
           (setSession sid (fst (resume en k False JNull ''bridge offline'' s)) d) (perform en sid (Ask call t k # es) d)"
        using off Some by simp_all
      have "pays sid (Ask call t k # es) d (perform en sid (Ask call t k # es) d)"
        unfolding pays_def
      proof (intro conjI allI impI)
        show "same_ids d (perform en sid (Ask call t k # es) d)"
          using IH(2) by (auto simp: pays_def intro: same_ids_trans [OF setSession_same_ids])
        fix i r assume "alive d i"
        then have "alive (setSession sid (fst (resume en k False JNull ''bridge offline'' s)) d) i"
          using setSession_same_ids [of d sid] by (simp add: same_ids_def)
        then show "balance (perform en sid (Ask call t k # es) d) i r = balance d i r + (if i = sid then dues r (Ask call t k # es) else 0)"
          using IH(2) step(2) [of i r] by (auto simp: pays_def worth_def split: if_splits)
      qed
      with IH(1) show ?thesis by blast
    qed
  qed
next
  case (5 en sid c es d)
  have "ready u sid es (onClientIdRebound c sid d)"
    using 5(4) by (intro same_sessions_ready [OF rebound_same]) (simp add: ready_skip)
  from 5(1) [OF 5(2,3) this] show ?case
    using pays_next [of sid es "onClientIdRebound c sid d" _ d "\<lambda>r. 0"] rebound_same [of d c sid]
    by (auto simp: same_sessions_def same_sessions_balance)
next
  case (6 en sid es d)
  let ?d = "case sessionAt d sid of Some s \<Rightarrow> setSession sid (s\<lparr>ws_connected := False\<rparr>) d | None \<Rightarrow> d"
  have s: "same_sessions d ?d"
    using same_sessions_set [of d sid _ _ True "[]"] by (auto simp: callbacksRun_def split: option.split)
  have "ready u sid es ?d" using 6(4) by (intro same_sessions_ready [OF s]) (simp add: ready_skip)
  from 6(1) [OF 6(2,3) this] show ?case
    using pays_next [of sid es ?d _ d "\<lambda>r. 0"] s by (auto simp: same_sessions_def same_sessions_balance [OF s])
next
  case (3 en sid target meth args es d)
  let ?d = "if dm_hostUp d then logged (Fired (clientOfSession d sid) target meth args) d else d"
  have "ready u sid es ?d" using 3(4) by (simp add: ready_logged ready_skip)
  from 3(1) [OF 3(2,3) this] show ?case
    using pays_next [of sid es ?d _ d "\<lambda>r. 0"] by (simp add: balance_logged)
next
  case (4 en sid caller reply es d)
  let ?d = "logged (Answered caller reply (dm_hostUp d)) d"
  have "ready u sid es ?d" using 4(4) by (simp add: ready_logged ready_skip)
  from 4(1) [OF 4(2,3) this] show ?case
    using pays_next [of sid es ?d _ d "\<lambda>r. 0"] by (simp add: balance_logged)
next
  case (7 en sid rid v es d)
  note sent = sent_pays [of u sid "Reply rid v" es d "socketOpen d sid"]
  show ?case using 7 sent by simp
next
  case (8 en sid rid k v es d)
  note sent = sent_pays [of u sid "ReplyError rid k v" es d "socketOpen d sid"]
  show ?case using 8 sent by simp
next
  case (9 en sid n v es d)
  note sent = sent_pays [of u sid "Event n v" es d "socketOpen d sid"]
  show ?case using 9 sent by simp
next
  case (10 en sid rid n v es d)
  note sent = sent_pays [of u sid "SendRequest rid n v" es d "socketOpen d sid"]
  show ?case using 10 sent by simp
qed

end
