(* ===== verification/Wire_Requests.thy ===== *)
theory Wire_Requests
  imports Wire_Balance
begin

text \<open>
  The balance over the daemon's whole history: each event keeps it, except the frame of a client that asks
  for something, which adds one. The entry of a call is erased after its callback has run; since the callback
  only adds entries of fresh ids, the order makes no difference.
\<close>

section \<open>The order of callback and erasure\<close>

lemma closeOne_pending: "closeOne kind sid (d\<lparr>dm_pending := ps\<rparr>) = (closeOne kind sid d)\<lparr>dm_pending := ps\<rparr>"
  by (simp add: closeOne_def sessionAt_def setSession_def split: option.split prod.split)

lemma rebound_pending: "onClientIdRebound c self (d\<lparr>dm_pending := ps\<rparr>) = (onClientIdRebound c self d)\<lparr>dm_pending := ps\<rparr>"
proof -
  have "fold (closeOne kind) ids (d\<lparr>dm_pending := ps\<rparr>) = (fold (closeOne kind) ids d)\<lparr>dm_pending := ps\<rparr>" for ids kind
    by (induction ids arbitrary: d) (simp_all add: closeOne_pending)
  then show ?thesis by (simp add: onClientIdRebound_def)
qed

lemma pending_simps [simp]:
  "sessionAt (d\<lparr>dm_pending := ps\<rparr>) = sessionAt d"
  "setSession sid s (d\<lparr>dm_pending := ps\<rparr>) = (setSession sid s d)\<lparr>dm_pending := ps\<rparr>"
  "logged x (d\<lparr>dm_pending := ps\<rparr>) = (logged x d)\<lparr>dm_pending := ps\<rparr>"
  "clientOfSession (d\<lparr>dm_pending := ps\<rparr>) = clientOfSession d"
  by (auto simp: sessionAt_def setSession_def logged_def clientOfSession_def fun_eq_iff)

lemma rebound_frame [simp]:
  "dm_pending (onClientIdRebound c self d) = dm_pending d" "dm_drawn (onClientIdRebound c self d) = dm_drawn d"
  "dm_hostUp (onClientIdRebound c self d) = dm_hostUp d" "dm_next (onClientIdRebound c self d) = dm_next d"
  using rebound_same [of d c self] by (auto simp: same_sessions_def same_ids_def simp del: rebound_same)

text \<open>Entries that the predicate rejects, and that are older than what the callback adds, can go first.\<close>

lemma perform_filter:
  assumes "\<And>p. dm_hostUp d \<Longrightarrow> hp_id p \<in> en_uuid en ` {dm_drawn d..} \<Longrightarrow> Q p"
  shows "perform en sid es (d\<lparr>dm_pending := filter Q (dm_pending d)\<rparr>) =
     (perform en sid es d)\<lparr>dm_pending := filter Q (dm_pending (perform en sid es d))\<rparr>"
  using assms
proof (induction en sid es d rule: perform.induct)
  case (2 en sid call t k es d)
  show ?case
  proof (cases "dm_hostUp d")
    case True
    have q: "Q p" if "hp_id p = en_uuid en (dm_drawn d)" for p using 2(4) [OF True] that by auto
    have swap: "filter (\<lambda>x. hp_id x \<noteq> j) (filter Q ps) = filter Q (filter (\<lambda>x. hp_id x \<noteq> j) ps)" for j ps
      by (simp add: conj_commute)
    have "awaitHost en sid call t k (d\<lparr>dm_pending := filter Q (dm_pending d)\<rparr>) =
        (awaitHost en sid call t k d)\<lparr>dm_pending := filter Q (dm_pending (awaitHost en sid call t k d))\<rparr>"
      by (simp add: awaitHost_def Let_def q swap logged_def clientOfSession_def sessionAt_def del: filter_filter)
    moreover have "perform en sid es ((awaitHost en sid call t k d)\<lparr>dm_pending := filter Q (dm_pending (awaitHost en sid call t k d))\<rparr>) =
        (perform en sid es (awaitHost en sid call t k d))\<lparr>dm_pending := filter Q (dm_pending (perform en sid es (awaitHost en sid call t k d)))\<rparr>"
      by (rule 2(1) [OF True]) (use 2(4) [OF True] in auto)
    ultimately show ?thesis using True by simp
  next
    case False
    then show ?thesis using 2(2,3) by (auto split: option.split)
  qed
next
  case (5 en sid c es d)
  then show ?case by (simp add: rebound_pending)
next
  case (6 en sid es d)
  then show ?case by (auto split: option.split)
qed auto

lemma perform_offline:
  "\<not> dm_hostUp d \<Longrightarrow> perform en sid es (d\<lparr>dm_pending := ps\<rparr>) = (perform en sid es d)\<lparr>dm_pending := ps\<rparr>"
proof (induction en sid es d rule: perform.induct)
  case (2 en sid call t k es d)
  then show ?case by (auto split: option.split)
next
  case (5 en sid c es d)
  then show ?case by (simp add: rebound_pending)
next
  case (6 en sid es d)
  then show ?case by (auto split: option.split)
qed auto

section \<open>The invariant of the daemon\<close>

definition daemon_inv :: "(nat \<Rightarrow> string) \<Rightarrow> wire_daemon \<Rightarrow> bool" where
  "daemon_inv u d \<longleftrightarrow>
     (\<forall>i s. sessionAt d i = Some s \<longrightarrow> i < dm_next d \<and> cat_ok s (awaited d i)) \<and>
     distinct (map hp_id (dm_pending d)) \<and>
     (\<forall>p \<in> set (dm_pending d). hp_session p < dm_next d \<and> hp_id p \<in> u ` {..<dm_drawn d}) \<and>
     list_all (sent_below (dm_next d)) (dm_out d)"

lemma ready_plain:
  "\<forall>k \<in> set (conts es). cont_catalog k = None \<Longrightarrow> ready u sid es d \<longleftrightarrow> daemon_inv u d \<and> sid < dm_next d"
  by (auto simp: ready_def daemon_inv_def cat_ok_plain)

lemma ready_Nil: "ready u sid [] d \<longleftrightarrow> daemon_inv u d \<and> sid < dm_next d"
  by (rule ready_plain) simp

lemma inv_session: "daemon_inv u d \<Longrightarrow> sessionAt d i = Some s \<Longrightarrow> i < dm_next d \<and> cat_ok s (awaited d i)"
  unfolding daemon_inv_def by blast

text \<open>What an event adds to the balance of the sessions it leaves alive.\<close>

definition adds :: "(nat \<Rightarrow> string) \<Rightarrow> (nat \<Rightarrow> string \<Rightarrow> nat) \<Rightarrow> wire_daemon \<Rightarrow> wire_daemon \<Rightarrow> bool" where
  "adds u n d d' \<longleftrightarrow> daemon_inv u d' \<and> dm_next d \<le> dm_next d' \<and>
     (\<forall>i r. alive d' i \<longrightarrow> (if alive d i then balance d' i r = balance d i r + n i r else balance d' i r = 0 \<and> dm_next d \<le> i))"

lemma adds_refl: "daemon_inv u d \<Longrightarrow> adds u (\<lambda>_ _. 0) d d"
  by (simp add: adds_def)

lemma pays_adds:
  assumes "ready u sid [] d'" and "pays sid es d d'"
  shows "adds u (\<lambda>i r. if i = sid then dues r es else 0) d d'"
  using assms by (auto simp: adds_def pays_def same_ids_def ready_Nil)

lemma adds_trans0:
  assumes "adds u n d d'" and "adds u (\<lambda>_ _. 0) d' d''" and "alive d'' = alive d'"
  shows "adds u n d d''"
  using assms by (auto simp: adds_def split: if_splits)

lemma zero_trans:
  assumes "adds u (\<lambda>_ _. 0) d d'" and "adds u (\<lambda>_ _. 0) d' d''" and "alive d' = alive d"
  shows "adds u (\<lambda>_ _. 0) d d''"
  using assms by (auto simp: adds_def split: if_splits)

lemma same_sessions_adds: "same_sessions d d' \<Longrightarrow> daemon_inv u d \<Longrightarrow> adds u (\<lambda>_ _. 0) d d'"
proof -
  assume s: "same_sessions d d'" and d: "daemon_inv u d"
  have n: "dm_next d' = dm_next d" "alive d' = alive d" "dm_pending d' = dm_pending d"
    using s by (simp_all add: same_sessions_def same_ids_def)
  have "daemon_inv u d'"
  proof (cases "dm_next d")
    case (Suc n)
    then have "ready u 0 [] d" using d by (simp add: ready_Nil)
    then have "ready u 0 [] d'" by (rule same_sessions_ready [OF s])
    then show ?thesis by (simp add: ready_Nil)
  next
    case 0
    then have none: "sessionAt d i = None" "dm_pending d = []" for i
      using d by (cases "sessionAt d i"; force simp: daemon_inv_def)+
    obtain xs where xs: "dm_out d' = dm_out d @ xs" "\<forall>x \<in> set xs. \<exists>c y up. x = Answered c y up"
      using s unfolding same_sessions_def by blast
    then have "list_all (sent_below m) xs" for m by (fastforce simp: list_all_iff)
    moreover have "sessionAt d' i = None" for i
      using fun_cong [OF n(2), of i] none(1) [of i] by (cases "sessionAt d' i") (simp_all add: alive_def)
    ultimately show ?thesis using d xs(1) n none(2) by (auto simp: daemon_inv_def)
  qed
  then show ?thesis using n same_sessions_balance [OF s] by (simp add: adds_def)
qed

section \<open>Running one callback\<close>

text \<open>The hash table still holds the found entry where the iterator points, after the callback has run.\<close>

definition keeps_iterators :: "wire_env \<Rightarrow> bool" where
  "keeps_iterators en \<longleftrightarrow> (\<forall>k found now. en_erased en k found now = Some k)"

lemma eraseFound_own:
  "keeps_iterators en \<Longrightarrow> eraseFound en rid found d = d\<lparr>dm_pending := filter (\<lambda>q. hp_id q \<noteq> rid) (dm_pending d)\<rparr>"
  by (simp add: eraseFound_def keeps_iterators_def)

definition erased :: "host_pending \<Rightarrow> wire_daemon \<Rightarrow> wire_daemon" where
  "erased p d = d\<lparr>dm_pending := filter (\<lambda>q. hp_id q \<noteq> hp_id p) (dm_pending d)\<rparr>"

lemma filter_one:
  "distinct (map k xs) \<Longrightarrow> p \<in> set xs \<Longrightarrow> mset xs = add_mset p (mset (filter (\<lambda>q. k q \<noteq> k p) xs))"
proof (induction xs)
  case (Cons x xs)
  show ?case
  proof (cases "x = p")
    case True
    then have "filter (\<lambda>q. k q \<noteq> k p) xs = xs" using Cons.prems by (intro filter_True) (auto simp: image_iff)
    with True show ?thesis by simp
  next
    case False
    then have "k x \<noteq> k p" "p \<in> set xs" using Cons.prems by (auto simp: image_iff)
    with Cons show ?thesis by simp
  qed
qed simp

lemma erased_awaited:
  assumes "daemon_inv u d" "p \<in> set (dm_pending d)"
  shows "mset (awaited d (hp_session p)) = add_mset (hp_cont p) (mset (awaited (erased p d) (hp_session p)))"
    and "i \<noteq> hp_session p \<Longrightarrow> mset (awaited d i) = mset (awaited (erased p d) i)"
proof -
  have m: "mset (dm_pending d) = add_mset p (mset (dm_pending (erased p d)))"
    using filter_one [of hp_id "dm_pending d" p] assms by (simp add: daemon_inv_def erased_def)
  then have "mset (awaited d i) = image_mset hp_cont (filter_mset (\<lambda>q. hp_session q = i) (add_mset p (mset (dm_pending (erased p d)))))" for i
    by (simp add: awaited_def flip: m)
  then show "mset (awaited d (hp_session p)) = add_mset (hp_cont p) (mset (awaited (erased p d) (hp_session p)))"
    and "i \<noteq> hp_session p \<Longrightarrow> mset (awaited d i) = mset (awaited (erased p d) i)"
    by (auto simp: awaited_def)
qed

lemma sum_worth_mset: "mset ks = mset ls \<Longrightarrow> (\<Sum>k \<leftarrow> ks. worth r k) = (\<Sum>k \<leftarrow> ls. worth r k)"
  by (metis mset_map sum_mset_sum_list)

text \<open>An entry that is taken out leaves its callback among the effects to be carried out.\<close>

lemma erased_ready:
  assumes "daemon_inv u d" "p \<in> set (dm_pending d)"
  shows "ready u (hp_session p) [Ask c t (hp_cont p)] (erased p d)"
    and "balance (erased p d) i r + (if i = hp_session p then worth r (hp_cont p) else 0) = balance d i r"
proof -
  note a = erased_awaited [OF assms]
  have one: "mset (awaited d (hp_session p)) = mset (hp_cont p # awaited (erased p d) (hp_session p))" using a(1) by simp
  show "ready u (hp_session p) [Ask c t (hp_cont p)] (erased p d)"
  proof (rule readyI)
    fix i s assume "sessionAt (erased p d) i = Some s"
    then have s: "i < dm_next d" "cat_ok s (awaited d i)" using inv_session [OF assms(1)] by (simp_all add: erased_def)
    have "cat_ok s (awaited (erased p d) i @ (if i = hp_session p then [hp_cont p] else []))"
    proof (cases "i = hp_session p")
      case True
      then show ?thesis using cat_ok_mset [OF s(2), of "awaited (erased p d) i @ [hp_cont p]"] a(1) by simp
    next
      case False
      then show ?thesis using cat_ok_mset [OF s(2) a(2)] by simp
    qed
    then show "i < dm_next (erased p d) \<and> cat_ok s (awaited (erased p d) i @ (if i = hp_session p then conts [Ask c t (hp_cont p)] else []))"
      using s(1) by (cases "i = hp_session p") (simp_all add: erased_def)
  next
    have "distinct (map hp_id (filter (\<lambda>q. hp_id q \<noteq> hp_id p) (dm_pending d)))"
      using assms(1) by (auto simp: daemon_inv_def intro: distinct_map_filter)
    then show "distinct (map hp_id (dm_pending (erased p d))) \<and>
      (\<forall>q \<in> set (dm_pending (erased p d)). hp_session q < dm_next (erased p d) \<and> hp_id q \<in> u ` {..<dm_drawn (erased p d)}) \<and>
      list_all (sent_below (dm_next (erased p d))) (dm_out (erased p d)) \<and> hp_session p < dm_next (erased p d)"
      using assms by (simp add: daemon_inv_def erased_def)
  qed
  have "(\<Sum>k \<leftarrow> awaited (erased p d) i. worth r k) + (if i = hp_session p then worth r (hp_cont p) else 0) = (\<Sum>k \<leftarrow> awaited d i. worth r k)"
    using sum_worth_mset [OF one, of r] sum_worth_mset [OF a(2), of i r] by (cases "i = hp_session p") auto
  then show "balance (erased p d) i r + (if i = hp_session p then worth r (hp_cont p) else 0) = balance d i r"
    by (simp add: balance_def owed_def answered_def erased_def split: option.split)
qed

lemma runCallback_adds:
  assumes "inj u" "en_uuid en = u" "daemon_inv u d" "p \<in> set (dm_pending d)"
  shows "adds u (\<lambda>_ _. 0) d (runCallback en p ok v err (erased p d)) \<and> alive (runCallback en p ok v err (erased p d)) = alive d
     \<and> dm_hostUp (runCallback en p ok v err (erased p d)) = dm_hostUp d"
proof (cases "sessionAt d (hp_session p)")
  case None
  have "ready u (hp_session p) [] (erased p d)"
  proof (rule readyI)
    fix i s assume s: "sessionAt (erased p d) i = Some s"
    with None have "i \<noteq> hp_session p" by (auto simp: erased_def)
    then show "i < dm_next (erased p d) \<and> cat_ok s (awaited (erased p d) i @ (if i = hp_session p then conts [] else []))"
      using ready_session [OF erased_ready(1) [OF assms(3,4)] s] by simp
  qed (use ready_rest [OF erased_ready(1) [OF assms(3,4)]] in blast)
  moreover have "balance (erased p d) i r = balance d i r" if "alive d i" for i r
    using erased_ready(2) [OF assms(3,4), of i r] that None by (auto simp: alive_def split: if_splits)
  ultimately show ?thesis using None
    by (auto simp: runCallback_def adds_def ready_Nil erased_def alive_def fun_eq_iff)
next
  case (Some s)
  let ?d = "erased p d" and ?i = "hp_session p"
  have s: "sessionAt ?d ?i = Some s" using Some by (simp add: erased_def)
  note step = resumed_step [OF erased_ready(1) [OF assms(3,4), of undefined 0] s refl, where en = en and ok = ok and v = v and err = err]
  let ?d1 = "setSession ?i (fst (resume en (hp_cont p) ok v err s)) ?d" and ?es = "snd (resume en (hp_cont p) ok v err s)"
  have r: "ready u ?i ?es ?d1" using step(1) by simp
  from perform_pays [OF assms(1,2) r]
  have p: "ready u ?i [] (perform en ?i ?es ?d1)" "pays ?i ?es ?d1 (perform en ?i ?es ?d1)" by auto
  have run: "runCallback en p ok v err ?d = perform en ?i ?es ?d1"
    using s by (simp add: runCallback_def Let_def split_beta)
  have al: "alive ?d1 = alive d" "dm_next ?d1 = dm_next d" "dm_hostUp ?d1 = dm_hostUp d"
    using setSession_same_ids [of ?d ?i] by (auto simp: same_ids_def erased_def alive_def fun_eq_iff)
  have "balance (perform en ?i ?es ?d1) i r = balance d i r" if "alive d i" for i r
    using p(2) that step(2) [of i r] erased_ready(2) [OF assms(3,4), of i r] al(1)
    by (auto simp: pays_def split: if_splits)
  then show ?thesis using p al by (auto simp: run adds_def ready_Nil pays_def same_ids_def)
qed

lemma resolve_erased:
  assumes "keeps_iterators en" "en_uuid en = u" "inj u" "daemon_inv u d" "p \<in> set (dm_pending d)" "hp_id p = rid"
  shows "resolve_pending en ok v err rid d = runCallback en p ok v err (erased p d)"
proof -
  have old: "hp_id p \<noteq> u j" if "dm_drawn d \<le> j" for j
    using assms(3,4,5) that by (fastforce simp: daemon_inv_def dest: injD)
  obtain q where q: "find (\<lambda>q. hp_id q = rid) (dm_pending d) = Some q"
    using assms(5,6) by (cases "find (\<lambda>q. hp_id q = rid) (dm_pending d)") (auto simp: find_None_iff)
  have "q = p" using find_SomeD [OF q] assms(4,5,6) by (auto simp: daemon_inv_def distinct_map dest: inj_onD)
  moreover have "(runCallback en p ok v err d)\<lparr>dm_pending := filter (\<lambda>q. hp_id q \<noteq> rid) (dm_pending (runCallback en p ok v err d))\<rparr>
      = runCallback en p ok v err (erased p d)"
  proof (cases "sessionAt d (hp_session p)")
    case (Some s)
    let ?d = "setSession (hp_session p) (fst (resume en (hp_cont p) ok v err s)) d"
    have "perform en (hp_session p) es (?d\<lparr>dm_pending := filter (\<lambda>q. hp_id q \<noteq> rid) (dm_pending ?d)\<rparr>) =
        (perform en (hp_session p) es ?d)\<lparr>dm_pending := filter (\<lambda>q. hp_id q \<noteq> rid) (dm_pending (perform en (hp_session p) es ?d))\<rparr>" for es
      using old assms(2,6) by (intro perform_filter) auto
    with Some assms(6) show ?thesis by (simp add: runCallback_def erased_def split_beta Let_def)
  qed (use assms(6) in \<open>simp add: runCallback_def erased_def\<close>)
  ultimately show ?thesis using q assms(1) by (simp add: resolve_pending_def eraseFound_own)
qed

lemma resolve_adds:
  assumes "keeps_iterators en" "inj u" "en_uuid en = u" "daemon_inv u d"
  shows "adds u (\<lambda>_ _. 0) d (resolve_pending en ok v err rid d) \<and> alive (resolve_pending en ok v err rid d) = alive d"
proof (cases "find (\<lambda>p. hp_id p = rid) (dm_pending d)")
  case None
  then show ?thesis using assms(4) by (simp add: resolve_pending_def adds_refl)
next
  case (Some p)
  then have p: "p \<in> set (dm_pending d)" "hp_id p = rid" by (auto dest: find_SomeD)
  show ?thesis unfolding resolve_erased [OF assms(1,3,2,4) p]
    using runCallback_adds [OF assms(2-) p(1)] by blast
qed

end
