(* ===== verification/Wire_History.thy ===== *)
theory Wire_History
  imports Wire_Requests
begin

text \<open>
  Every event of the daemon keeps its invariant and its balance; over a history, each accepted request of
  a living session has been answered once or is awaited once.
\<close>

section \<open>Events that ask for nothing\<close>

lemma adds_inv: "adds u n d d' \<Longrightarrow> daemon_inv u d'"
  by (simp add: adds_def)

lemma same_sessions_alive: "same_sessions d d' \<Longrightarrow> alive d' = alive d"
  by (simp add: same_sessions_def same_ids_def)

lemma silent_simps [simp]: "silent []" "silent (Event n v # es) = silent es" "silent (SendRequest r n v # es) = silent es"
    "silent (RpcDone c y # es) = silent es"
  by (auto simp: silent_def)

lemma silent_map: "silent (map (\<lambda>p. RpcDone (f p) (g p)) ps)"
  by (induction ps) auto

lemma silent_performed:
  assumes "inj u" "en_uuid en = u" "daemon_inv u d" "sid < dm_next d" "silent es"
  shows "adds u (\<lambda>_ _. 0) d (perform en sid es d) \<and> alive (perform en sid es d) = alive d \<and> dm_next (perform en sid es d) = dm_next d"
proof -
  have "ready u sid es d" using assms(3,4,5) by (simp add: ready_plain silent_def)
  from perform_pays [OF assms(1,2) this] show ?thesis
    using assms(5) by (auto simp: silent_def adds_def pays_def same_ids_def ready_Nil)
qed

definition events_only :: "wire_effect list \<Rightarrow> bool" where
  "events_only es \<longleftrightarrow> (\<forall>e \<in> set es. \<exists>n ob. e = Event n ob)"

lemma events_only_simps [simp]:
  "events_only []" "events_only (Event n v # es) = events_only es" "events_only (es @ fs) \<longleftrightarrow> events_only es \<and> events_only fs"
  by (auto simp: events_only_def)

lemma events_only_silent: "events_only es \<Longrightarrow> silent es \<and> dones c es = 0"
  by (induction es) (auto simp: events_only_def)

lemma artifact_events [simp]: "events_only (artifactAdded en cid ok)"
  by (simp add: artifactAdded_def split: option.split)

lemma handlers_events:
  "events_only (withMessageEnrich evt en s args)" "events_only (withToolCallEnrich evt en s args)"
  "events_only (enrichConvEvent evt en s args)" "events_only (enrichFolderEvent evt en s args)"
  "events_only (heartbeatChanged en s args)" "events_only (withId evt key en s args)" "events_only (planChanged evt en s args)"
  "events_only (stepChanged en s args)" "events_only (canvasChanged opened evt en s args)"
  "events_only (queuedForClient en s args)" "events_only (withConvFilter s evt args)"
  by (simp_all add: withMessageEnrich_def withToolCallEnrich_def enrichConvEvent_def enrichFolderEvent_def
      heartbeatChanged_def withId_def planChanged_def stepChanged_def canvasChanged_def queuedForClient_def
      withConvFilter_def Let_def)

lemma signal_events: "events_only (onHostSignal en name args s)"
proof -
  have "list_all (\<lambda>(n, h). events_only (h en s args)) completedSignals"
    by (simp add: completedSignals_def handlers_events)
  then have "events_only (h en s args)" if "map_of completedSignals name = Some h" for h
    using map_of_SomeD [OF that] by (auto simp: list_all_iff)
  then show ?thesis by (auto simp: onHostSignal_def handlers_events split: option.split)
qed

lemma signal_silent: "silent (onHostSignal en name args s)"
  using events_only_silent [OF signal_events] by blast

lemma session_below: "daemon_inv u d \<Longrightarrow> (i, s) \<in> set (dm_sessions d) \<Longrightarrow> i < dm_next d"
proof -
  assume d: "daemon_inv u d" and "(i, s) \<in> set (dm_sessions d)"
  then obtain s' where "sessionAt d i = Some s'" unfolding sessionAt_def using weak_map_of_SomeI by fast
  then show "i < dm_next d" using inv_session [OF d] by blast
qed

lemma broadcast_adds:
  assumes "inj u" "en_uuid en = u" "daemon_inv u d"
  shows "adds u (\<lambda>_ _. 0) d (broadcast en name args d)"
proof -
  have "adds u (\<lambda>_ _. 0) d (fold (\<lambda>(sid, s). perform en sid (onHostSignal en name args s)) ss d)"
    if "\<forall>(i, s) \<in> set ss. i < dm_next d" "daemon_inv u d" for ss d
    using that
  proof (induction ss arbitrary: d)
    case (Cons x ss)
    obtain i s where x: "x = (i, s)" by fastforce
    note p = silent_performed [OF assms(1,2) Cons.prems(2), of i "onHostSignal en name args s"]
    have one: "adds u (\<lambda>_ _. 0) d (perform en i (onHostSignal en name args s) d)"
        "alive (perform en i (onHostSignal en name args s) d) = alive d"
        "dm_next (perform en i (onHostSignal en name args s) d) = dm_next d"
      using p Cons.prems(1) signal_silent by (auto simp: x)
    have "adds u (\<lambda>_ _. 0) (perform en i (onHostSignal en name args s) d)
        (fold (\<lambda>(sid, s). perform en sid (onHostSignal en name args s)) ss (perform en i (onHostSignal en name args s) d))"
      using Cons.prems(1) one(3) adds_inv [OF one(1)] by (intro Cons.IH) auto
    from zero_trans [OF one(1) this one(2)] show ?case by (simp add: x)
  qed (simp add: adds_refl)
  then show ?thesis using assms(3) session_below [OF assms(3)] by (auto simp: broadcast_def)
qed

lemma sweep_adds:
  assumes "keeps_iterators en" "inj u" "en_uuid en = u" "daemon_inv u d"
  shows "adds u (\<lambda>_ _. 0) d (onTimeoutSweep en d)"
proof -
  have "adds u (\<lambda>_ _. 0) d (fold (resolve_pending en False JNull ''timeout'') ids d)" if "daemon_inv u d" for ids d
    using that
  proof (induction ids arbitrary: d)
    case (Cons i ids)
    note r = resolve_adds [OF assms(1-3) Cons.prems, of False JNull "''timeout''" i]
    then have "daemon_inv u (resolve_pending en False JNull ''timeout'' i d)" by (simp add: adds_def)
    from zero_trans [OF _ Cons.IH [OF this]] r show ?case by simp
  qed (simp add: adds_refl)
  then show ?thesis using assms(4) by (simp add: onTimeoutSweep_def)
qed

lemma runCallback_offline:
  assumes "\<not> dm_hostUp d"
  shows "runCallback en p ok v err (d\<lparr>dm_pending := ps\<rparr>) = (runCallback en p ok v err d)\<lparr>dm_pending := ps\<rparr>"
  using assms by (simp add: runCallback_def perform_offline split_beta Let_def split: option.split)

lemma host_down_adds:
  assumes "inj u" "en_uuid en = u"
  shows "\<not> dm_hostUp d \<Longrightarrow> daemon_inv u (d\<lparr>dm_pending := ps\<rparr>) \<Longrightarrow>
     adds u (\<lambda>_ _. 0) (d\<lparr>dm_pending := ps\<rparr>)
       ((fold (\<lambda>p. runCallback en p False JNull err) ps d)\<lparr>dm_pending := []\<rparr>)"
proof (induction ps arbitrary: d)
  case (Cons p ps)
  let ?d = "d\<lparr>dm_pending := p # ps\<rparr>" and ?e = "runCallback en p False JNull err d"
  have "filter (\<lambda>q. hp_id q \<noteq> hp_id p) ps = ps"
    using Cons.prems(2) by (intro filter_True) (auto simp: daemon_inv_def image_iff)
  then have er: "erased p ?d = d\<lparr>dm_pending := ps\<rparr>" by (simp add: erased_def)
  have run: "runCallback en p False JNull err (erased p ?d) = ?e\<lparr>dm_pending := ps\<rparr>"
    unfolding er by (rule runCallback_offline [OF Cons.prems(1)])
  have one: "adds u (\<lambda>_ _. 0) ?d (?e\<lparr>dm_pending := ps\<rparr>)" "alive (?e\<lparr>dm_pending := ps\<rparr>) = alive ?d"
      "dm_hostUp (?e\<lparr>dm_pending := ps\<rparr>) = dm_hostUp ?d"
    using runCallback_adds [OF assms Cons.prems(2), of p False JNull err] by (auto simp: run)
  then have "daemon_inv u (?e\<lparr>dm_pending := ps\<rparr>)" "\<not> dm_hostUp ?e" using Cons.prems(1) by (auto simp: adds_def)
  from zero_trans [OF one(1) Cons.IH [OF this(2,1)] one(2)] show ?case by simp
qed (simp add: adds_refl)

lemma none_sent: "list_all (sent_below n) xs \<Longrightarrow> (\<Sum>x \<leftarrow> xs. answer_of n r x) = 0"
proof (induction xs)
  case (Cons x xs)
  then show ?case by (cases x) auto
qed simp

lemma sent_below_Suc: "sent_below n x \<Longrightarrow> sent_below (Suc n) x"
  by (cases x) auto

lemma connected_adds:
  assumes "inj u" "en_uuid en = u" "daemon_inv u d"
  shows "adds u (\<lambda>_ _. 0) d (onNewConnection en d)"
proof -
  let ?n = "dm_next d"
  let ?d = "d\<lparr>dm_sessions := dm_sessions d @ [(?n, fresh_session)], dm_next := Suc ?n\<rparr>"
  have none: "sessionAt d ?n = None"
    using inv_session [OF assms(3), of ?n] by (cases "sessionAt d ?n") auto
  have at: "sessionAt ?d i = (if i = ?n then Some fresh_session else sessionAt d i)" for i
    using none by (auto simp: sessionAt_def map_add_def split: option.split)
  have fresh: "awaited d ?n = []"
    using assms(3) by (auto simp: daemon_inv_def awaited_def filter_empty_conv)
  have bal: "balance ?d ?n r = 0" for r
    using assms(3) at [of ?n] fresh none_sent [of ?n "dm_out d" r]
    by (simp add: balance_def owed_def answered_def daemon_inv_def openCats_def fresh_session_def awaited_def)
  have same: "balance ?d i r = balance d i r" if "i \<noteq> ?n" for i r
    using at [of i] that by (simp add: balance_def owed_def answered_def awaited_def)
  have weak: "list_all (sent_below m) xs \<Longrightarrow> list_all (sent_below (Suc m)) xs" for m xs
    by (erule list.pred_mono_strong) (rule sent_below_Suc)
  have inv: "daemon_inv u ?d"
    unfolding daemon_inv_def
  proof (intro conjI allI impI)
    fix i s assume "sessionAt ?d i = Some s"
    then have s: "if i = ?n then s = fresh_session else sessionAt d i = Some s" using at [of i] by (auto split: if_splits)
    have aw: "awaited ?d i = awaited d i" by (simp add: awaited_def)
    have "cat_ok fresh_session []" by (simp add: cat_ok_def fresh_session_def)
    then show "cat_ok s (awaited ?d i)" and "i < dm_next ?d"
      using s inv_session [OF assms(3), of i s] fresh by (auto simp: aw split: if_splits)
  qed (use assms(3) weak in \<open>auto simp: daemon_inv_def\<close>)
  note p = silent_performed [OF assms(1,2) inv, of ?n "[sendHello (here en d)]"]
  have al: "alive ?d i \<longleftrightarrow> i = ?n \<or> alive d i" for i using at [of i] by (simp add: alive_def)
  let ?e = "perform en ?n [sendHello (here en d)] ?d"
  have e: "adds u (\<lambda>_ _. 0) ?d ?e" "alive ?e = alive ?d" using p by (simp_all add: sendHello_def)
  have "adds u (\<lambda>_ _. 0) d ?e"
    unfolding adds_def
  proof (intro conjI allI impI)
    show "daemon_inv u ?e" by (rule adds_inv [OF e(1)])
    show "dm_next d \<le> dm_next ?e" using e(1) by (simp add: adds_def)
    fix i r assume "alive ?e i"
    then have i: "alive ?d i" "balance ?e i r = balance ?d i r" using e by (auto simp: adds_def)
    show "if alive d i then balance ?e i r = balance d i r + 0 else balance ?e i r = 0 \<and> dm_next d \<le> i"
    proof (cases "i = ?n")
      case True
      then show ?thesis using i(2) bal none by (simp add: alive_def)
    next
      case False
      then show ?thesis using i same al [of i] by simp
    qed
  qed
  then show ?thesis by (simp add: onNewConnection_def)
qed

lemma disconnected_adds:
  assumes "daemon_inv u d"
  shows "adds u (\<lambda>_ _. 0) d (onSocketDisconnected sid d)"
proof (cases "sessionAt d sid")
  case (Some s)
  let ?xs = "callbacksRun (dm_hostUp d) (snd (drainPendingClientRequests ''session_closed'' ''WebSocket disconnected'' s))"
  let ?d = "d\<lparr>dm_out := dm_out d @ ?xs, dm_sessions := AList.delete sid (dm_sessions d)\<rparr>"
  have at: "sessionAt ?d i = (if i = sid then None else sessionAt d i)" for i
    by (simp add: sessionAt_def AList.delete_conv')
  have xs: "\<forall>x \<in> set ?xs. \<exists>c y up. x = Answered c y up" using callbacksRun_answered by blast
  then have "list_all (sent_below m) ?xs" for m by (fastforce simp: list_all_iff)
  then have "daemon_inv u ?d"
    using assms at by (auto simp: daemon_inv_def awaited_def split: if_splits)
  moreover have "balance ?d i r = balance d i r" if "i \<noteq> sid" for i r
    using at [of i] that xs by (simp add: balance_def owed_def answered_def awaited_def answered_only)
  ultimately show ?thesis using Some at by (auto simp: onSocketDisconnected_def adds_def alive_def)
qed (use assms in \<open>simp add: onSocketDisconnected_def adds_refl\<close>)

lemma closed_adds:
  assumes "daemon_inv u d"
  shows "adds u (\<lambda>_ _. 0) d (closeServer d)"
proof -
  have "x \<in> set (concat (map (\<lambda>(i, s). callbacksRun (dm_hostUp d) (f s)) ss)) \<Longrightarrow> \<exists>c y up. x = Answered c y up" for x ss f
    using callbacksRun_answered by fastforce
  then have "list_all (sent_below m) (concat (map (\<lambda>(i, s). callbacksRun (dm_hostUp d) (f s)) ss))" for m ss f
    by (fastforce simp: list_all_iff)
  then show ?thesis using assms
    by (auto simp: closeServer_def adds_def daemon_inv_def alive_def sessionAt_def awaited_def)
qed

lemma tick_adds: "daemon_inv u d \<Longrightarrow> adds u (\<lambda>_ _. 0) d (onClientTick now sid d)"
  by (auto simp: onClientTick_def onClientRpcTimeoutSweep_def adds_refl split: option.split
      intro!: same_sessions_adds same_sessions_set)

section \<open>A request of the host\<close>

lemma sendClientRequest_facts:
  "ws_catalogs (fst (sendClientRequest en rid op args c t s)) = ws_catalogs s \<and> silent (snd (sendClientRequest en rid op args c t s))"
  by (simp add: sendClientRequest_def checkOutboundRateLimit_def Let_def)

lemma drawn_more: "daemon_inv u d \<Longrightarrow> adds u (\<lambda>_ _. 0) d (d\<lparr>dm_drawn := dm_drawn d + 1\<rparr>) \<and> alive (d\<lparr>dm_drawn := dm_drawn d + 1\<rparr>) = alive d"
  by (fastforce simp: adds_def daemon_inv_def balance_def answered_def owed_def awaited_def alive_def sessionAt_def fun_eq_iff)

lemma auth_changed: "daemon_inv u d \<Longrightarrow> adds u (\<lambda>_ _. 0) d (d\<lparr>dm_auth := a\<rparr>) \<and> alive (d\<lparr>dm_auth := a\<rparr>) = alive d"
  by (fastforce simp: adds_def daemon_inv_def balance_def answered_def owed_def awaited_def alive_def sessionAt_def fun_eq_iff)

lemma sessionForClientId_at:
  "distinct (map fst (dm_sessions d)) \<Longrightarrow> sessionForClientId d c = Some (i, s) \<Longrightarrow> sessionAt d i = Some s \<and> ws_clientId s = c"
  by (auto simp: sessionForClientId_def sessionAt_def split: if_splits dest!: find_SomeD)

lemma dispatch_adds:
  assumes "inj u" "en_uuid en = u" "daemon_inv u d" "distinct (map fst (dm_sessions d))"
  shows "adds u (\<lambda>_ _. 0) d (handleClientRpcDispatch en ob d)"
proof -
  have refuse: "adds u (\<lambda>_ _. 0) d (logged (Answered c y up) d)" for c y up
    using assms(3) by (simp add: adds_def daemon_inv_def balance_logged)
  show ?thesis
  proof (cases "sessionForClientId d (strOf ob ''client_id'')")
    case None
    then show ?thesis using assms(3) refuse by (simp add: handleClientRpcDispatch_def Let_def adds_refl)
  next
    case (Some x)
    obtain i s where x: "x = (i, s)" by fastforce
    let ?c = "strOf ob ''request_id''" and ?op = "strOf ob ''op''"
    let ?r = "sendClientRequest en (en_uuid en (dm_drawn d)) ?op (toObject (member_of ob ''args'')) ?c
                (toIntOr (member_of ob ''timeout_ms'') 15000) s"
    let ?d = "setSession i (fst ?r) (d\<lparr>dm_drawn := dm_drawn d + 1\<rparr>)"
    note more = drawn_more [OF assms(3)]
    have at: "sessionAt (d\<lparr>dm_drawn := dm_drawn d + 1\<rparr>) i = Some s"
      using sessionForClientId_at [OF assms(4)] Some x by (simp add: sessionAt_def)
    have same: "same_sessions (d\<lparr>dm_drawn := dm_drawn d + 1\<rparr>) ?d"
      using same_sessions_set [OF at, of "fst ?r" True "[]"] sendClientRequest_facts by (simp add: callbacksRun_def)
    have one: "adds u (\<lambda>_ _. 0) (d\<lparr>dm_drawn := dm_drawn d + 1\<rparr>) ?d" "alive ?d = alive (d\<lparr>dm_drawn := dm_drawn d + 1\<rparr>)"
      using same_sessions_adds [OF same adds_inv [OF conjunct1 [OF more]]] same_sessions_alive [OF same] by blast+
    have two: "adds u (\<lambda>_ _. 0) d ?d" "alive ?d = alive d"
      using zero_trans [OF _ one(1)] one(2) more by auto
    have "i < dm_next ?d" using inv_session [OF assms(3)] sessionForClientId_at [OF assms(4)] Some x by (simp add: same_ids_def)
    then have "adds u (\<lambda>_ _. 0) ?d (perform en i (snd ?r) ?d)"
      using silent_performed [OF assms(1,2), of ?d i "snd ?r"] two sendClientRequest_facts by (auto simp: adds_def)
    from zero_trans [OF two(1) this two(2)] show ?thesis
      using Some x assms(3) refuse by (simp add: handleClientRpcDispatch_def Let_def adds_refl split_beta)
  qed
qed

section \<open>A frame of a client\<close>

definition accepts :: "wire_env \<Rightarrow> int \<Rightarrow> json option \<Rightarrow> wire_session \<Rightarrow> string \<Rightarrow> bool" where
  "accepts en bytes doc s rid \<longleftrightarrow> bytes \<le> kMaxWireFrameBytes \<and>
     (case doc of Some (JObj ob) \<Rightarrow> strOf ob ''type'' \<noteq> ''client_response'' \<and> strOf ob ''request_id'' = rid \<and>
          fst (checkRateLimit (en_now en) s)
      | _ \<Rightarrow> False)"

lemma answers_once_auth [answering]:
  "answers_once rid (opPing en rid)" "answers_once rid (opAuthMe rid st)" "answers_once rid (opClientsList rid st)"
  "answers_once rid (snd (opMsgSubscribe rid P s))" "answers_once rid (snd (opMsgUnsubscribe rid P s))"
  "answers_once rid (snd (opAuthRevokeSelf en rid st))" "answers_once rid (snd (opClientsRevoke en rid P st))"
  by (auto simp: opPing_def opAuthMe_def opClientsList_def opMsgSubscribe_def opMsgUnsubscribe_def opAuthRevokeSelf_def
      opClientsRevoke_def Let_def answering split_beta) (auto simp: answers_once_def)

lemma answers_once_pair [answering]:
  "answers_once rid (snd (opAuthPair en rid P st))" "answers_once rid (snd (opAuthToken en rid P st))"
  by (auto simp: opAuthPair_def opAuthToken_def Let_def split_beta answering split: option.split)

lemma requireAuth_refuses: "\<not> isAuthenticated s \<Longrightarrow> answers_once rid (requireAuth s rid [])"
  by (simp add: requireAuth_def answering)

lemma dispatch_answers_once: "answers_once rid (snd (dispatchOp en op rid P st))"
  by (auto simp: dispatchOp_def Let_def split_beta answering requireAuth_refuses table_answers_once split: option.split)

lemma auth_ops_catalogs:
  "ws_catalogs (snd (fst (opAuthPair en rid P st))) = ws_catalogs (snd st)"
  "ws_catalogs (snd (fst (opAuthToken en rid P st))) = ws_catalogs (snd st)"
  "ws_catalogs (snd (fst (opAuthRevokeSelf en rid st))) = ws_catalogs (snd st)"
  "ws_catalogs (snd (fst (opClientsRevoke en rid P st))) = ws_catalogs (snd st)"
  "ws_catalogs (fst (opMsgSubscribe rid P s)) = ws_catalogs s" "ws_catalogs (fst (opMsgUnsubscribe rid P s)) = ws_catalogs s"
  by (auto simp: opAuthPair_def opAuthToken_def opAuthRevokeSelf_def opClientsRevoke_def opMsgSubscribe_def
      opMsgUnsubscribe_def Let_def split_beta split: option.split)

lemma dispatch_catalogs: "ws_catalogs (snd (fst (dispatchOp en op rid P st))) = ws_catalogs (snd st)"
  by (auto simp: dispatchOp_def Let_def split_beta auth_ops_catalogs split: option.split)

lemma response_facts: "ws_catalogs (fst (onClientResponse ob s)) = ws_catalogs s \<and> silent (snd (onClientResponse ob s))"
  by (simp add: onClientResponse_def Let_def split: option.split)

lemma rate_catalogs: "ws_catalogs (snd (checkRateLimit now s)) = ws_catalogs s"
  by (simp add: checkRateLimit_def Let_def)

lemma frame_facts:
  "ws_catalogs (snd (fst (onTextMessageReceived en bytes doc st))) = ws_catalogs (snd st) \<and>
   dues r (snd (onTextMessageReceived en bytes doc st)) = (if accepts en bytes doc (snd st) r then 1 else 0) \<and>
   (\<forall>k \<in> set (conts (snd (onTextMessageReceived en bytes doc st))). cont_catalog k = None)"
proof (cases "\<exists>ob. doc = Some (JObj ob) \<and> bytes \<le> kMaxWireFrameBytes")
  case False
  then show ?thesis
    by (auto simp: onTextMessageReceived_def accepts_def errorEvent_def split: option.split json.split)
next
  case True
  then obtain ob where ob: "doc = Some (JObj ob)" "bytes \<le> kMaxWireFrameBytes" by blast
  show ?thesis
  proof (cases "strOf ob ''type'' = ''client_response''")
    case True
    then show ?thesis using ob response_facts [of ob "snd st"]
      by (simp add: onTextMessageReceived_def accepts_def split_beta silent_def)
  next
    case False
    let ?d = "dispatchOp en (strOf ob ''op'') (strOf ob ''request_id'') (toObject (member_of ob ''params'')) (fst st, snd (checkRateLimit (en_now en) (snd st)))"
    have "(\<forall>r. dues r (snd ?d) = (if r = strOf ob ''request_id'' then 1 else 0)) \<and> (\<forall>k \<in> set (conts (snd ?d)). cont_catalog k = None)"
      using dispatch_answers_once [of "strOf ob ''request_id''"] by (simp add: answers_once_def)
    then show ?thesis using ob False
      by (auto simp: onTextMessageReceived_def accepts_def split_beta Let_def errorEvent_def dispatch_catalogs rate_catalogs)
  qed
qed

lemma accepts_here [simp]: "accepts (here en d) bytes doc s r = accepts en bytes doc s r"
  by (auto simp: accepts_def here_def split: option.split json.split)

lemma frame_adds:
  assumes "inj u" "en_uuid en = u" "daemon_inv u d"
  shows "adds u (\<lambda>i r. if i = sid \<and> (\<exists>s. sessionAt d sid = Some s \<and> accepts en bytes doc s r) then 1 else 0) d (onFrame en sid bytes doc d)"
proof (cases "sessionAt d sid")
  case None
  then show ?thesis using assms(3) by (simp add: onFrame_def adds_refl)
next
  case (Some s)
  let ?r = "onTextMessageReceived (here en d) bytes doc (dm_auth d, s)"
  let ?da = "d\<lparr>dm_auth := fst (fst ?r)\<rparr>"
  let ?d = "setSession sid (snd (fst ?r)) ?da"
  note f = frame_facts [of "here en d" bytes doc "(dm_auth d, s)"]
  have zero: "adds u (\<lambda>_ _. 0) d ?da" "alive ?da = alive d"
    using auth_changed [OF assms(3)] by blast+
  have at: "sessionAt ?da sid = Some s" using Some by (simp add: sessionAt_def)
  have same: "same_sessions ?da ?d"
    using same_sessions_set [OF at, of "snd (fst ?r)" True "[]"] f by (simp add: callbacksRun_def)
  have one: "adds u (\<lambda>_ _. 0) ?da ?d" "alive ?d = alive ?da"
    using same_sessions_adds [OF same adds_inv [OF zero(1)]] same_sessions_alive [OF same] by blast+
  have two: "adds u (\<lambda>_ _. 0) d ?d" "alive ?d = alive d"
    using zero_trans [OF zero(1) one(1)] one(2) zero(2) by auto
  have "ready u sid (snd ?r) ?d"
    using f two(1) inv_session [OF assms(3) Some] by (simp add: ready_plain adds_def)
  from perform_pays [OF assms(1,2) this]
  have "ready u sid [] (perform en sid (snd ?r) ?d)" "pays sid (snd ?r) ?d (perform en sid (snd ?r) ?d)" by auto
  moreover have "onFrame en sid bytes doc d = perform en sid (snd ?r) ?d" using Some by (simp add: onFrame_def split_beta)
  ultimately show ?thesis using two f Some
    by (auto simp: adds_def pays_def same_ids_def ready_Nil)
qed

end
