(* ===== verification/Wire_Rpc.thy ===== *)
theory Wire_Rpc
  imports Wire_History
begin

text \<open>
  The other direction: the requests of the host. Each one that the daemon receives runs its callback once, or
  waits in the table of exactly one session; a session that goes away answers what it still holds.
\<close>

section \<open>The sessions keep their places\<close>

lemma keys_set [simp]: "map fst (dm_sessions (setSession sid s d)) = map fst (dm_sessions d)"
  by (simp add: setSession_def)

lemma keys_closeOne [simp]: "map fst (dm_sessions (closeOne kind sid d)) = map fst (dm_sessions d)"
  by (simp add: closeOne_def setSession_def split: option.split prod.split)

lemma keys_rebound [simp]: "map fst (dm_sessions (onClientIdRebound c self d)) = map fst (dm_sessions d)"
proof -
  have "map fst (dm_sessions (fold (closeOne kind) ids d)) = map fst (dm_sessions d)" for ids kind
    by (induction ids arbitrary: d) auto
  then show ?thesis by (simp add: onClientIdRebound_def)
qed

lemma keys_perform [simp]: "map fst (dm_sessions (perform en sid es d)) = map fst (dm_sessions d)"
  by (induction en sid es d rule: perform.induct) (auto split: option.split)

lemma keys_runCallback [simp]: "map fst (dm_sessions (runCallback en p ok v err d)) = map fst (dm_sessions d)"
  by (simp add: runCallback_def split: option.split prod.split)

lemma keys_resolve [simp]: "map fst (dm_sessions (resolve_pending en ok v err rid d)) = map fst (dm_sessions d)"
  by (simp add: resolve_pending_def Let_def split: option.split)

lemma keys_fold:
  "(\<And>x d. map fst (dm_sessions (f x d)) = map fst (dm_sessions d)) \<Longrightarrow> map fst (dm_sessions (fold f xs d)) = map fst (dm_sessions d)"
  by (induction xs arbitrary: d) auto

lemma keys_handleFrame [simp]: "map fst (dm_sessions (handleFrame en ob d)) = map fst (dm_sessions d)"
proof -
  have "map fst (dm_sessions (broadcast en name args d)) = map fst (dm_sessions d)" for name args
    unfolding broadcast_def by (rule keys_fold) (simp add: split_beta)
  moreover have "map fst (dm_sessions (handleClientRpcDispatch en ob d)) = map fst (dm_sessions d)"
    by (simp add: handleClientRpcDispatch_def Let_def split_beta split: option.split)
  ultimately show ?thesis by (simp add: handleFrame_def Let_def)
qed

definition distinct_sessions :: "wire_daemon \<Rightarrow> bool" where
  "distinct_sessions d \<longleftrightarrow> distinct (map fst (dm_sessions d)) \<and> (\<forall>i \<in> set (map fst (dm_sessions d)). i < dm_next d)"

lemma perform_next [simp]: "dm_next (perform en sid es d) = dm_next d"
  by (induction en sid es d rule: perform.induct) (auto split: option.split)

lemma runCallback_next [simp]: "dm_next (runCallback en p ok v err d) = dm_next d"
  by (simp add: runCallback_def split: option.split prod.split)

lemma resolve_next [simp]: "dm_next (resolve_pending en ok v err rid d) = dm_next d"
  by (simp add: resolve_pending_def Let_def split: option.split)

lemma next_fold: "(\<And>x d. dm_next (f x d) = dm_next d) \<Longrightarrow> dm_next (fold f xs d) = dm_next d"
  by (induction xs arbitrary: d) auto

lemma handleFrame_next [simp]: "dm_next (handleFrame en ob d) = dm_next d"
proof -
  have "dm_next (broadcast en name args d) = dm_next d" for name args
    unfolding broadcast_def by (rule next_fold) (simp add: split_beta)
  moreover have "dm_next (handleClientRpcDispatch en ob d) = dm_next d"
    by (simp add: handleClientRpcDispatch_def Let_def split_beta split: option.split)
  ultimately show ?thesis by (simp add: handleFrame_def Let_def)
qed

lemma distinct_sessions_cong:
  "map fst (dm_sessions d') = map fst (dm_sessions d) \<Longrightarrow> dm_next d' = dm_next d \<Longrightarrow> distinct_sessions d' = distinct_sessions d"
  by (simp add: distinct_sessions_def)

lemma distinct_step: "distinct_sessions d \<Longrightarrow> distinct_sessions (daemon_step d e)"
proof (cases e)
  case (Connected en)
  assume d: "distinct_sessions d"
  let ?d = "d\<lparr>dm_sessions := dm_sessions d @ [(dm_next d, fresh_session)], dm_next := Suc (dm_next d)\<rparr>"
  have "distinct_sessions ?d" using d by (force simp: distinct_sessions_def)
  then show ?thesis using distinct_sessions_cong [of "perform en (dm_next d) [sendHello (here en d)] ?d" ?d]
    by (simp add: Connected onNewConnection_def)
next
  case (SocketClosed sid)
  assume "distinct_sessions d"
  then show ?thesis using SocketClosed
    by (auto simp: onSocketDisconnected_def distinct_sessions_def AList.delete_eq intro: distinct_map_filter split: option.split)
next
  case (HostDown en)
  assume "distinct_sessions d"
  then show ?thesis using HostDown
    by (simp add: onHostDisconnected_def distinct_sessions_def next_fold keys_fold)
next
  case (HostTick en)
  assume "distinct_sessions d"
  then show ?thesis using HostTick
    by (simp add: onTimeoutSweep_def distinct_sessions_def next_fold keys_fold)
next
  case (ClientFrame en sid bytes doc)
  assume "distinct_sessions d"
  then show ?thesis using ClientFrame distinct_sessions_cong [of "onFrame en sid bytes doc d" d]
    by (simp add: onFrame_def split_beta split: option.split)
next
  case (ClientTick now sid)
  assume "distinct_sessions d"
  then show ?thesis using ClientTick distinct_sessions_cong [of "onClientTick now sid d" d]
    by (simp add: onClientTick_def split_beta split: option.split)
next
  case (FromHost en ob)
  assume "distinct_sessions d"
  then show ?thesis using FromHost distinct_sessions_cong [of "handleFrame en ob d" d] by simp
qed (auto simp: closeServer_def distinct_sessions_def)

section \<open>What a request of the host is worth\<close>

fun ran_of :: "string \<Rightarrow> daemon_out \<Rightarrow> nat" where
  "ran_of c (Answered x _ _) = (if x = c then 1 else 0)"
| "ran_of c _ = 0"

definition held :: "string \<Rightarrow> wire_session \<Rightarrow> nat" where
  "held c s = (\<Sum>p \<leftarrow> ws_pending s. if pq_caller p = c then 1 else 0)"

definition completed :: "string \<Rightarrow> wire_daemon \<Rightarrow> nat" where
  "completed c d = (\<Sum>x \<leftarrow> dm_out d. ran_of c x)"

definition waiting :: "string \<Rightarrow> wire_daemon \<Rightarrow> nat" where
  "waiting c d = (\<Sum>x \<leftarrow> dm_sessions d. held c (snd x))"

definition rpc :: "string \<Rightarrow> wire_daemon \<Rightarrow> nat" where
  "rpc c d = completed c d + waiting c d"

lemma ran_logged [simp]: "rpc c (logged x d) = rpc c d + ran_of c x"
  by (simp add: rpc_def completed_def waiting_def)

lemma waiting_set:
  "distinct (map fst (dm_sessions d)) \<Longrightarrow> sessionAt d sid = Some s \<Longrightarrow>
     waiting c (setSession sid s' d) + held c s = waiting c d + held c s'"
proof -
  have "distinct (map fst xs) \<Longrightarrow> map_of xs sid = Some s \<Longrightarrow>
      (\<Sum>x \<leftarrow> AList.map_entry sid (\<lambda>_. s') xs. held c (snd x)) + held c s = (\<Sum>x \<leftarrow> xs. held c (snd x)) + held c s'" for xs
    by (induction xs) (auto split: if_splits)
  then show "distinct (map fst (dm_sessions d)) \<Longrightarrow> sessionAt d sid = Some s \<Longrightarrow>
     waiting c (setSession sid s' d) + held c s = waiting c d + held c s'"
    by (simp add: waiting_def setSession_def sessionAt_def)
qed

lemma waiting_same_pending:
  "distinct (map fst (dm_sessions d)) \<Longrightarrow> sessionAt d sid = Some s \<Longrightarrow> ws_pending s' = ws_pending s \<Longrightarrow>
     waiting c (setSession sid s' d) = waiting c d"
  using waiting_set [of d sid s c s'] by (simp add: held_def)

lemma ran_set [simp]: "completed c (setSession sid s d) = completed c d"
  by (simp add: completed_def)

lemma callbacks_ran: "(\<Sum>x \<leftarrow> callbacksRun up es. ran_of c x) = dones c es"
proof (induction es)
  case (Cons e es)
  then show ?case by (cases e) (auto simp: callbacksRun_def)
qed (simp add: callbacksRun_def)

lemma drained_held:
  "dones c (snd (drainPendingClientRequests kind detail s)) = held c s"
  by (simp add: drainPendingClientRequests_def held_def dones_def comp_def)

lemma rpc_closeOne: "distinct (map fst (dm_sessions d)) \<Longrightarrow> rpc c (closeOne kind sid d) = rpc c d"
proof (cases "sessionAt d sid")
  case (Some s)
  assume dist: "distinct (map fst (dm_sessions d))"
  let ?es = "snd (forceClose kind s)" and ?s = "fst (forceClose kind s)"
  let ?d = "d\<lparr>dm_out := dm_out d @ callbacksRun (dm_hostUp d) ?es\<rparr>"
  have at: "sessionAt ?d sid = Some s" and dist': "distinct (map fst (dm_sessions ?d))"
    using Some dist by (simp_all add: sessionAt_def)
  have "held c ?s = 0" "dones c ?es = held c s"
    using drained_held [of c kind "''session superseded''" s]
    by (simp_all add: forceClose_def held_def drainPendingClientRequests_def split_beta)
  then have "rpc c (setSession sid ?s ?d) = rpc c d"
    using waiting_set [OF dist' at, of c ?s] by (simp add: rpc_def completed_def callbacks_ran waiting_def)
  then show ?thesis using Some by (simp add: closeOne_def split_beta)
qed (simp add: closeOne_def)

lemma rpc_rebound: "distinct (map fst (dm_sessions d)) \<Longrightarrow> rpc c (onClientIdRebound x self d) = rpc c d"
proof -
  have "distinct (map fst (dm_sessions d)) \<Longrightarrow> rpc c (fold (closeOne kind) ids d) = rpc c d" for ids kind
    by (induction ids arbitrary: d) (auto simp: rpc_closeOne)
  then show "distinct (map fst (dm_sessions d)) \<Longrightarrow> rpc c (onClientIdRebound x self d) = rpc c d"
    by (simp add: onClientIdRebound_def)
qed

lemma resume_pending:
  "ws_pending (fst (resume en k ok v err s)) = ws_pending s \<and> dones c (snd (resume en k ok v err s)) = 0"
  by (cases k) (auto simp: updateCatalog_def maybeFinish_def startCatalog_def catalogReply_def mediaFile_def Let_def comp_def
      dones_def split: option.split)

lemma rpc_awaitHost [simp]:
  "completed c (awaitHost en sid call t k d) = completed c d" "waiting c (awaitHost en sid call t k d) = waiting c d"
  by (simp_all add: completed_def waiting_def)

lemma rpc_perform:
  "distinct (map fst (dm_sessions d)) \<Longrightarrow> rpc c (perform en sid es d) = rpc c d + dones c es"
proof (induction en sid es d rule: perform.induct)
  case (2 en sid call t k es d)
  then show ?case
    using resume_pending [of en k False JNull "''bridge offline''" _ c] waiting_same_pending [OF 2(4)]
    by (auto simp: rpc_def split: option.split)
next
  case (5 en sid x es d)
  then show ?case by (simp add: rpc_rebound)
next
  case (6 en sid es d)
  then show ?case using waiting_same_pending [OF 6(2)] by (auto simp: rpc_def split: option.split)
qed auto


section \<open>The table of a session\<close>

definition pend_ok :: "(nat \<Rightarrow> string) \<Rightarrow> nat \<Rightarrow> wire_session \<Rightarrow> bool" where
  "pend_ok u n s \<longleftrightarrow> distinct (map pq_id (ws_pending s)) \<and> pq_id ` set (ws_pending s) \<subseteq> u ` {..<n}"

definition rpc_inv :: "(nat \<Rightarrow> string) \<Rightarrow> wire_daemon \<Rightarrow> bool" where
  "rpc_inv u d \<longleftrightarrow> distinct_sessions d \<and> (\<forall>i s. sessionAt d i = Some s \<longrightarrow> pend_ok u (dm_drawn d) s)"

lemma pend_ok_more: "pend_ok u m s \<Longrightarrow> m \<le> n \<Longrightarrow> pend_ok u n s"
proof -
  assume "m \<le> n"
  then have "u ` {..<m} \<subseteq> u ` {..<n}" by (intro image_mono) simp
  then show "pend_ok u m s \<Longrightarrow> pend_ok u n s" unfolding pend_ok_def by (meson order_trans)
qed

lemma pend_ok_fewer: "pend_ok u n s \<Longrightarrow> ws_pending s' = filter P (ws_pending s) \<Longrightarrow> pend_ok u n s'"
  by (auto simp: pend_ok_def intro: distinct_map_filter)

lemma pend_ok_none [simp]: "ws_pending s = [] \<Longrightarrow> pend_ok u n s"
  by (simp add: pend_ok_def)

lemma pend_ok_same: "ws_pending s' = ws_pending s \<Longrightarrow> pend_ok u n s' = pend_ok u n s"
  by (simp add: pend_ok_def)

text \<open>Carrying out effects empties tables at most.\<close>

definition tables_shrink :: "wire_daemon \<Rightarrow> wire_daemon \<Rightarrow> bool" where
  "tables_shrink d d' \<longleftrightarrow> dm_drawn d \<le> dm_drawn d' \<and>
     (\<forall>i s'. sessionAt d' i = Some s' \<longrightarrow> (\<exists>s. sessionAt d i = Some s \<and> (ws_pending s' = ws_pending s \<or> ws_pending s' = [])))"

lemma tables_shrink_refl [simp]: "tables_shrink d d"
  by (auto simp: tables_shrink_def)

lemma tables_shrink_trans: "tables_shrink d d' \<Longrightarrow> tables_shrink d' d'' \<Longrightarrow> tables_shrink d d''"
  unfolding tables_shrink_def by (metis order_trans)

lemma tables_shrink_set:
  "sessionAt d sid = Some s \<Longrightarrow> ws_pending s' = ws_pending s \<or> ws_pending s' = [] \<Longrightarrow> tables_shrink d (setSession sid s' d)"
  by (auto simp: tables_shrink_def)

lemma tables_shrink_frame [simp]: "tables_shrink d (logged x d)" "tables_shrink d (awaitHost en sid call t k d)"
  by (auto simp: tables_shrink_def)

lemma tables_shrink_closeOne [simp]: "tables_shrink d (closeOne kind sid d)"
  by (auto simp: closeOne_def tables_shrink_def forceClose_def drainPendingClientRequests_def sessionAt_def setSession_def
      AList.map_of_map_entry split: option.splits if_splits)

lemma tables_shrink_rebound [simp]: "tables_shrink d (onClientIdRebound c self d)"
proof -
  have "tables_shrink d (fold (closeOne kind) ids d)" for ids kind
    by (induction ids arbitrary: d) (auto intro: tables_shrink_trans tables_shrink_closeOne)
  then show ?thesis by (simp add: onClientIdRebound_def)
qed

lemma tables_shrink_perform [simp]: "tables_shrink d (perform en sid es d)"
proof (induction en sid es d rule: perform.induct)
  case (2 en sid call t k es d)
  have "tables_shrink d (setSession sid (fst (resume en k False JNull ''bridge offline'' s)) d)" if "sessionAt d sid = Some s" for s
    using tables_shrink_set [OF that] resume_pending by blast
  with 2 show ?case
    by (auto split: option.split intro: tables_shrink_trans [OF tables_shrink_frame(2)] tables_shrink_trans)
next
  case (3 en sid target meth args es d)
  then show ?case by (auto intro: tables_shrink_trans [rotated])
next
  case (5 en sid c es d)
  then show ?case by (simp add: tables_shrink_trans [OF tables_shrink_rebound])
next
  case (6 en sid es d)
  have "tables_shrink d (setSession sid (s\<lparr>ws_connected := False\<rparr>) d)" if "sessionAt d sid = Some s" for s
    using tables_shrink_set [OF that] by simp
  with 6 show ?case by (auto split: option.split intro: tables_shrink_trans)
qed (auto intro: tables_shrink_trans [OF tables_shrink_frame(1)])

lemma shrink_inv:
  "tables_shrink d d' \<Longrightarrow> map fst (dm_sessions d') = map fst (dm_sessions d) \<Longrightarrow> dm_next d' = dm_next d \<Longrightarrow> rpc_inv u d \<Longrightarrow> rpc_inv u d'"
proof -
  assume s: "tables_shrink d d'" "map fst (dm_sessions d') = map fst (dm_sessions d)" "dm_next d' = dm_next d" and r: "rpc_inv u d"
  have "pend_ok u (dm_drawn d') s'" if s': "sessionAt d' i = Some s'" for i s'
  proof -
    obtain s where "sessionAt d i = Some s" "ws_pending s' = ws_pending s \<or> ws_pending s' = []"
      using s(1) s' unfolding tables_shrink_def by blast
    moreover then have "pend_ok u (dm_drawn d) s" using r unfolding rpc_inv_def by blast
    ultimately show ?thesis using s(1) pend_ok_same [of s' s] by (auto simp: tables_shrink_def intro: pend_ok_more)
  qed
  then show "rpc_inv u d'" using r distinct_sessions_cong [OF s(2,3)] by (simp add: rpc_inv_def)
qed

lemma perform_rpc:
  "rpc_inv u d \<Longrightarrow> rpc_inv u (perform en sid es d) \<and> rpc c (perform en sid es d) = rpc c d + dones c es"
  using shrink_inv [of d "perform en sid es d" u] rpc_perform [of d c en sid es]
  by (simp add: rpc_inv_def distinct_sessions_def)

lemma runCallback_rpc: "rpc_inv u d \<Longrightarrow> rpc_inv u (runCallback en p ok v err d) \<and> rpc c (runCallback en p ok v err d) = rpc c d"
proof (cases "sessionAt d (hp_session p)")
  case (Some s)
  assume r: "rpc_inv u d"
  let ?s = "fst (resume en (hp_cont p) ok v err s)"
  have "rpc_inv u (setSession (hp_session p) ?s d)"
    using shrink_inv [OF tables_shrink_set [OF Some, of ?s] _ _ r] resume_pending by simp
  moreover have "rpc c (setSession (hp_session p) ?s d) = rpc c d"
    using waiting_same_pending [OF _ Some, of ?s c] resume_pending r by (simp add: rpc_def rpc_inv_def distinct_sessions_def)
  ultimately show ?thesis using Some perform_rpc [of u "setSession (hp_session p) ?s d" en "hp_session p"] resume_pending
    by (simp add: runCallback_def split_beta)
qed (simp add: runCallback_def)

lemma rpc_pending [simp]: "rpc c (d\<lparr>dm_pending := ps\<rparr>) = rpc c d" "rpc_inv u (d\<lparr>dm_pending := ps\<rparr>) = rpc_inv u d"
  by (simp_all add: rpc_def completed_def waiting_def rpc_inv_def distinct_sessions_def)

lemma rpc_erase [simp]: "rpc c (eraseFound en k found d) = rpc c d" "rpc_inv u (eraseFound en k found d) = rpc_inv u d"
  by (simp_all add: eraseFound_def split: option.split)

lemma rpc_up [simp]: "rpc c (d\<lparr>dm_hostUp := b\<rparr>) = rpc c d" "rpc_inv u (d\<lparr>dm_hostUp := b\<rparr>) = rpc_inv u d"
  by (simp_all add: rpc_def completed_def waiting_def rpc_inv_def distinct_sessions_def sessionAt_def)

lemma resolve_rpc: "rpc_inv u d \<Longrightarrow> rpc_inv u (resolve_pending en ok v err rid d) \<and> rpc c (resolve_pending en ok v err rid d) = rpc c d"
  by (auto simp: resolve_pending_def Let_def runCallback_rpc split: option.split)

lemma fold_rpc:
  "(\<And>x d. rpc_inv u d \<Longrightarrow> rpc_inv u (f x d) \<and> rpc c (f x d) = rpc c d) \<Longrightarrow> rpc_inv u d \<Longrightarrow> rpc_inv u (fold f xs d) \<and> rpc c (fold f xs d) = rpc c d"
proof (induction xs arbitrary: d)
  case (Cons x xs)
  from Cons.IH [OF Cons.prems(1), of "f x d"] Cons.prems show ?case by simp
qed simp


section \<open>Events\<close>

lemma set_rpc:
  assumes "rpc_inv u d" "sessionAt d sid = Some s" "pend_ok u (dm_drawn d) s'"
  shows "rpc_inv u (setSession sid s' d)" and "rpc c (setSession sid s' d) + held c s = rpc c d + held c s'"
proof -
  show "rpc_inv u (setSession sid s' d)"
    using assms distinct_sessions_cong [of "setSession sid s' d" d] by (auto simp: rpc_inv_def)
  show "rpc c (setSession sid s' d) + held c s = rpc c d + held c s'"
    using waiting_set [OF _ assms(2), of c s'] assms(1) by (simp add: rpc_def rpc_inv_def distinct_sessions_def)
qed

lemma rpc_auth [simp]: "rpc c (d\<lparr>dm_auth := a\<rparr>) = rpc c d" "rpc_inv u (d\<lparr>dm_auth := a\<rparr>) = rpc_inv u d"
  by (simp_all add: rpc_def completed_def waiting_def rpc_inv_def distinct_sessions_def sessionAt_def)

lemma rpc_callbacks: "rpc c (d\<lparr>dm_out := dm_out d @ callbacksRun up es\<rparr>) = rpc c d + dones c es"
    "rpc_inv u (d\<lparr>dm_out := xs\<rparr>) = rpc_inv u d"
  by (simp_all add: rpc_def completed_def waiting_def rpc_inv_def distinct_sessions_def sessionAt_def callbacks_ran)

text \<open>Connecting, leaving, the sweep of a session and closing the server.\<close>

lemma connected_rpc:
  assumes "rpc_inv u d"
  shows "rpc_inv u (onNewConnection en d) \<and> rpc c (onNewConnection en d) = rpc c d"
proof -
  let ?d = "d\<lparr>dm_sessions := dm_sessions d @ [(dm_next d, fresh_session)], dm_next := Suc (dm_next d)\<rparr>"
  have "distinct_sessions ?d" using assms by (force simp: rpc_inv_def distinct_sessions_def)
  moreover have "sessionAt ?d i = Some s \<Longrightarrow> sessionAt d i = Some s \<or> s = fresh_session" for i s
    by (auto simp: sessionAt_def map_add_def split: option.splits if_splits)
  moreover have "ws_pending fresh_session = []" by (simp add: fresh_session_def)
  ultimately have "rpc_inv u ?d" using assms unfolding rpc_inv_def
    by (metis (no_types, lifting) pend_ok_none wire_daemon.select_convs(6) wire_daemon.surjective wire_daemon.update_convs(2,3))
  moreover have "rpc c ?d = rpc c d" by (simp add: rpc_def completed_def waiting_def held_def fresh_session_def)
  ultimately show ?thesis using perform_rpc [of u ?d en "dm_next d" "[sendHello (here en d)]" c]
    by (simp add: onNewConnection_def sendHello_def)
qed

lemma waiting_delete:
  "distinct (map fst xs) \<Longrightarrow> map_of xs sid = Some s \<Longrightarrow>
     (\<Sum>x \<leftarrow> AList.delete sid xs. held c (snd x)) + held c s = (\<Sum>x \<leftarrow> xs. held c (snd x))"
proof (induction xs)
  case (Cons x xs)
  have "sid \<notin> set (map fst xs) \<Longrightarrow> AList.delete sid xs = xs" by (rule AList.delete_id) simp
  with Cons show ?case by (cases x) (auto split: if_splits)
qed simp

lemma left_rpc:
  assumes "rpc_inv u d"
  shows "rpc_inv u (onSocketDisconnected sid d) \<and> rpc c (onSocketDisconnected sid d) = rpc c d"
proof (cases "sessionAt d sid")
  case (Some s)
  have "sessionAt (d\<lparr>dm_sessions := AList.delete sid (dm_sessions d)\<rparr>) i = (if i = sid then None else sessionAt d i)" for i
    by (simp add: sessionAt_def AList.delete_conv')
  then have "rpc_inv u (d\<lparr>dm_sessions := AList.delete sid (dm_sessions d)\<rparr>)"
    using assms unfolding rpc_inv_def distinct_sessions_def
    by (auto simp: AList.delete_eq intro: distinct_map_filter split: if_splits)
  then show ?thesis
    using Some assms waiting_delete [of "dm_sessions d" sid s c] drained_held [of c "''session_closed''" "''WebSocket disconnected''" s]
      rpc_callbacks(2) [where u = u and d = "d\<lparr>dm_sessions := AList.delete sid (dm_sessions d)\<rparr>"]
    by (simp add: onSocketDisconnected_def rpc_def completed_def waiting_def callbacks_ran rpc_inv_def distinct_sessions_def sessionAt_def)
qed (use assms in \<open>simp add: onSocketDisconnected_def\<close>)

lemma held_split: "held c ((s::wire_session)\<lparr>ws_pending := filter (\<lambda>p. \<not> P p) (ws_pending s)\<rparr>) + held c (s\<lparr>ws_pending := filter P (ws_pending s)\<rparr>) = held c s"
proof -
  have "(\<Sum>p \<leftarrow> filter (\<lambda>p. \<not> P p) ps. f p) + (\<Sum>p \<leftarrow> filter P ps. f p) = (\<Sum>p \<leftarrow> ps. f p)" for ps and f :: "_ \<Rightarrow> nat"
    by (induction ps) auto
  then show ?thesis by (simp add: held_def)
qed

lemma tick_rpc:
  assumes "rpc_inv u d"
  shows "rpc_inv u (onClientTick now sid d) \<and> rpc c (onClientTick now sid d) = rpc c d"
proof (cases "sessionAt d sid")
  case (Some s)
  let ?s = "fst (onClientRpcTimeoutSweep now s)" and ?es = "snd (onClientRpcTimeoutSweep now s)"
  let ?d = "d\<lparr>dm_out := dm_out d @ callbacksRun (dm_hostUp d) ?es\<rparr>"
  have at: "sessionAt ?d sid = Some s" using Some by (simp add: sessionAt_def)
  have "dones c ?es + held c ?s = held c s"
    using held_split [of c "\<lambda>p. pq_expiresAtMs p \<le> now" s]
    by (simp add: onClientRpcTimeoutSweep_def held_def dones_def comp_def)
  moreover have "pend_ok u (dm_drawn ?d) ?s"
    using assms Some pend_ok_fewer [of u "dm_drawn d" s ?s] by (simp add: rpc_inv_def onClientRpcTimeoutSweep_def)
  moreover have "rpc_inv u ?d" using assms by (simp add: rpc_callbacks)
  ultimately show ?thesis using set_rpc(1) [OF _ at, of u ?s] set_rpc(2) [OF _ at, of u ?s c] Some
    by (simp add: onClientTick_def split_beta rpc_callbacks)
qed (use assms in \<open>simp add: onClientTick_def\<close>)

lemma closed_rpc: "rpc_inv u (closeServer d) \<and> rpc c (closeServer d) = rpc c d"
proof -
  have "(\<Sum>x \<leftarrow> concat (map (\<lambda>(i, s). callbacksRun up (snd (drainPendingClientRequests k t s))) ss). ran_of c x)
      = (\<Sum>x \<leftarrow> ss. held c (snd x))" for up k t ss
    by (induction ss) (auto simp: callbacks_ran drained_held)
  then show ?thesis
    by (simp add: closeServer_def rpc_def completed_def waiting_def rpc_inv_def distinct_sessions_def sessionAt_def)
qed

end
