(* ===== verification/Wire_Exchange.thy ===== *)
theory Wire_Exchange
  imports Wire_Rpc
begin

text \<open>
  The events that carry a request of the host forward: its arrival, the client's answer, and the answers and
  losses of the host's own connection. Together with the other direction this is the invariant of the daemon.
\<close>

section \<open>The client's side\<close>

lemma auth_ops_pending:
  "ws_pending (snd (fst (opAuthPair en rid P st))) = ws_pending (snd st)"
  "ws_pending (snd (fst (opAuthToken en rid P st))) = ws_pending (snd st)"
  "ws_pending (snd (fst (opAuthRevokeSelf en rid st))) = ws_pending (snd st)"
  "ws_pending (snd (fst (opClientsRevoke en rid P st))) = ws_pending (snd st)"
  "ws_pending (fst (opMsgSubscribe rid P s)) = ws_pending s" "ws_pending (fst (opMsgUnsubscribe rid P s)) = ws_pending s"
  by (auto simp: opAuthPair_def opAuthToken_def opAuthRevokeSelf_def opClientsRevoke_def opMsgSubscribe_def
      opMsgUnsubscribe_def Let_def split_beta split: option.split)

lemma dispatch_pending: "ws_pending (snd (fst (dispatchOp en op rid P st))) = ws_pending (snd st)"
  by (auto simp: dispatchOp_def Let_def split_beta auth_ops_pending split: option.split)

lemma rate_pending: "ws_pending (snd (checkRateLimit now s)) = ws_pending s"
  by (simp add: checkRateLimit_def Let_def)

lemma sum_without:
  "distinct (map k xs) \<Longrightarrow> p \<in> set xs \<Longrightarrow> (\<Sum>q \<leftarrow> filter (\<lambda>q. k q \<noteq> k p) xs. f q) + f p = (\<Sum>q \<leftarrow> xs. f q :: nat)"
proof (induction xs)
  case (Cons x xs)
  show ?case
  proof (cases "x = p")
    case True
    then have "filter (\<lambda>q. k q \<noteq> k p) xs = xs" using Cons.prems by (intro filter_True) (auto simp: image_iff)
    with True show ?thesis by simp
  next
    case False
    then have "k x \<noteq> k p" "p \<in> set xs" using Cons.prems by (auto simp: image_iff)
    with Cons show ?thesis by simp
  qed
qed simp

lemma response_rpc:
  assumes "distinct (map pq_id (ws_pending s))"
  shows "held c (fst (onClientResponse ob s)) + dones c (snd (onClientResponse ob s)) = held c s"
    and "\<exists>P. ws_pending (fst (onClientResponse ob s)) = filter P (ws_pending s)"
proof -
  show "held c (fst (onClientResponse ob s)) + dones c (snd (onClientResponse ob s)) = held c s"
  proof (cases "find (\<lambda>p. pq_id p = strOf ob ''request_id'') (ws_pending s)")
    case (Some p)
    then have p: "p \<in> set (ws_pending s)" "pq_id p = strOf ob ''request_id''" by (auto dest: find_SomeD)
    from sum_without [OF assms p(1), of "\<lambda>q. if pq_caller q = c then 1 else 0"] Some p(2) show ?thesis
      by (auto simp: onClientResponse_def held_def Let_def)
  qed (simp add: onClientResponse_def Let_def)
  have "\<exists>P. ws_pending s = filter P (ws_pending s)" by (rule exI [of _ "\<lambda>_. True"]) simp
  then show "\<exists>P. ws_pending (fst (onClientResponse ob s)) = filter P (ws_pending s)"
    by (auto simp: onClientResponse_def Let_def split: option.split)
qed

lemma frame_rpc_facts:
  assumes "pend_ok u n (snd st)"
  shows "held c (snd (fst (onTextMessageReceived en bytes doc st))) + dones c (snd (onTextMessageReceived en bytes doc st)) = held c (snd st) \<and>
     pend_ok u n (snd (fst (onTextMessageReceived en bytes doc st)))"
proof (cases "\<exists>ob. doc = Some (JObj ob) \<and> bytes \<le> kMaxWireFrameBytes")
  case False
  then show ?thesis using assms
    by (auto simp: onTextMessageReceived_def errorEvent_def split: option.split json.split)
next
  case True
  then obtain ob where ob: "doc = Some (JObj ob)" "bytes \<le> kMaxWireFrameBytes" by blast
  show ?thesis
  proof (cases "strOf ob ''type'' = ''client_response''")
    case True
    have "distinct (map pq_id (ws_pending (snd st)))" using assms by (simp add: pend_ok_def)
    note r = response_rpc(1) [OF this, of c ob] response_rpc(2) [OF this, of ob]
    from r(2) assms have "pend_ok u n (fst (onClientResponse ob (snd st)))" using pend_ok_fewer by blast
    with r(1) show ?thesis using ob True by (simp add: onTextMessageReceived_def split_beta)
  next
    case False
    let ?s = "snd (checkRateLimit (en_now en) (snd st))"
    let ?d = "dispatchOp en (strOf ob ''op'') (strOf ob ''request_id'') (toObject (member_of ob ''params'')) (fst st, ?s)"
    have "dones c (snd ?d) = 0" using dispatch_answers_once [of "strOf ob ''request_id''"] by (simp add: answers_once_def)
    moreover have "ws_pending (snd (fst ?d)) = ws_pending (snd st)" "ws_pending ?s = ws_pending (snd st)"
      by (simp_all add: dispatch_pending rate_pending)
    then have "held c (snd (fst ?d)) = held c (snd st)" "pend_ok u n (snd (fst ?d))" "held c ?s = held c (snd st)" "pend_ok u n ?s"
      using assms by (simp_all add: held_def pend_ok_def)
    ultimately show ?thesis using ob False
      by (simp add: onTextMessageReceived_def split_beta Let_def errorEvent_def)
  qed
qed

lemma frame_rpc:
  assumes "rpc_inv u d"
  shows "rpc_inv u (onFrame en sid bytes doc d) \<and> rpc c (onFrame en sid bytes doc d) = rpc c d"
proof (cases "sessionAt d sid")
  case (Some s)
  let ?r = "onTextMessageReceived (here en d) bytes doc (dm_auth d, s)"
  let ?a = "d\<lparr>dm_auth := fst (fst ?r)\<rparr>"
  have at: "sessionAt ?a sid = Some s" and a: "rpc_inv u ?a" "dm_drawn ?a = dm_drawn d"
    using Some assms by (simp_all add: sessionAt_def)
  have "pend_ok u (dm_drawn d) s" using assms Some by (simp add: rpc_inv_def)
  then have f: "held c (snd (fst ?r)) + dones c (snd ?r) = held c s" "pend_ok u (dm_drawn d) (snd (fst ?r))"
    using frame_rpc_facts [of u "dm_drawn d" "(dm_auth d, s)" c "here en d" bytes doc] by simp_all
  have set: "rpc_inv u (setSession sid (snd (fst ?r)) ?a)"
      "rpc c (setSession sid (snd (fst ?r)) ?a) + held c s = rpc c d + held c (snd (fst ?r))"
    using set_rpc(1) [OF a(1) at, of "snd (fst ?r)"] set_rpc(2) [OF a(1) at, of "snd (fst ?r)" c] f(2) by simp_all
  from perform_rpc [OF set(1), of en sid "snd ?r" c] set(2) f(1) show ?thesis
    using Some by (simp add: onFrame_def split_beta)
qed (use assms in \<open>simp add: onFrame_def\<close>)

section \<open>The host's side\<close>

lemma broadcast_rpc: "rpc_inv u d \<Longrightarrow> rpc_inv u (broadcast en name args d) \<and> rpc c (broadcast en name args d) = rpc c d"
  unfolding broadcast_def
  by (rule fold_rpc) (use perform_rpc events_only_silent [OF signal_events] in \<open>simp_all add: split_beta\<close>)

lemma host_down_rpc: "rpc_inv u d \<Longrightarrow> rpc_inv u (onHostDisconnected en d) \<and> rpc c (onHostDisconnected en d) = rpc c d"
  using fold_rpc [where f = "\<lambda>p. runCallback en p False JNull ''bridge disconnected''" and d = "d\<lparr>dm_hostUp := False\<rparr>"
      and xs = "dm_pending d" and u = u and c = c]
  by (simp add: onHostDisconnected_def runCallback_rpc)

lemma sweep_rpc: "rpc_inv u d \<Longrightarrow> rpc_inv u (onTimeoutSweep en d) \<and> rpc c (onTimeoutSweep en d) = rpc c d"
  unfolding onTimeoutSweep_def by (rule fold_rpc) (use resolve_rpc in simp_all)

lemma send_rpc:
  assumes "pend_ok u n s" "inj u" "rid = u n"
  shows "held c (fst (sendClientRequest en rid op args caller t s)) + dones c (snd (sendClientRequest en rid op args caller t s))
      = held c s + (if caller = c then 1 else 0)"
    and "pend_ok u (Suc n) (fst (sendClientRequest en rid op args caller t s))"
proof -
  have new: "rid \<notin> pq_id ` set (ws_pending s)"
  proof
    assume "rid \<in> pq_id ` set (ws_pending s)"
    then obtain j where "j < n" "u n = u j" using assms(1,3) by (auto simp: pend_ok_def)
    with assms(2) show False by (auto dest: injD)
  qed
  then have f: "filter (\<lambda>q. pq_id q \<noteq> rid) (ws_pending s) = ws_pending s" by (intro filter_True) auto
  have p: "ws_pending (snd (checkOutboundRateLimit now s)) = ws_pending s" for now
    by (simp add: checkOutboundRateLimit_def Let_def)
  have more: "pend_ok u (Suc n) s" by (rule pend_ok_more [OF assms(1)]) simp
  have "pend_ok u (Suc n) s'" if "ws_pending s' = ws_pending s \<or> (\<exists>row. ws_pending s' = ws_pending s @ [row] \<and> pq_id row = rid)" for s'
    using that more new assms(3) unfolding pend_ok_def by (elim disjE exE conjE) (simp_all add: subset_iff)
  then show "pend_ok u (Suc n) (fst (sendClientRequest en rid op args caller t s))"
    by (simp add: sendClientRequest_def split_beta Let_def p f)
  show "held c (fst (sendClientRequest en rid op args caller t s)) + dones c (snd (sendClientRequest en rid op args caller t s))
      = held c s + (if caller = c then 1 else 0)"
    by (auto simp: sendClientRequest_def split_beta Let_def p f held_def)
qed

fun dispatched :: "string \<Rightarrow> daemon_event \<Rightarrow> nat" where
  "dispatched c (FromHost en ob) =
     (if strOf ob ''type'' = ''client_rpc_dispatch'' \<and> strOf ob ''request_id'' \<noteq> [] \<and> strOf ob ''request_id'' = c then 1 else 0)"
| "dispatched c _ = 0"

lemma dispatch_rpc:
  assumes "inj u" "en_uuid en = u" "rpc_inv u d"
  shows "rpc_inv u (handleClientRpcDispatch en ob d) \<and> rpc c (handleClientRpcDispatch en ob d)
     = rpc c d + (if strOf ob ''request_id'' \<noteq> [] \<and> strOf ob ''request_id'' = c then 1 else 0)"
proof -
  let ?c = "strOf ob ''request_id''" and ?op = "strOf ob ''op''"
  have refuse: "rpc_inv u (logged (Answered x y up) d)" for x y up using assms(3) by (simp add: logged_def rpc_callbacks)
  show ?thesis
  proof (cases "sessionForClientId d (strOf ob ''client_id'')")
    case None
    then show ?thesis using assms(3) refuse by (simp add: handleClientRpcDispatch_def Let_def)
  next
    case (Some x)
    obtain i s where x: "x = (i, s)" by fastforce
    let ?r = "sendClientRequest en (en_uuid en (dm_drawn d)) ?op (toObject (member_of ob ''args'')) ?c
                (toIntOr (member_of ob ''timeout_ms'') 15000) s"
    let ?d = "d\<lparr>dm_drawn := dm_drawn d + 1\<rparr>"
    have dist: "distinct (map fst (dm_sessions d))" using assms(3) by (simp add: rpc_inv_def distinct_sessions_def)
    have at: "sessionAt ?d i = Some s" "sessionAt d i = Some s"
      using sessionForClientId_at [OF dist] Some x by (simp_all add: sessionAt_def)
    have s: "pend_ok u (dm_drawn d) s" using assms(3) at by (simp add: rpc_inv_def)
    have d: "rpc_inv u ?d" "rpc c ?d = rpc c d"
      using assms(3) pend_ok_more [of u "dm_drawn d" _ "Suc (dm_drawn d)"] unfolding rpc_inv_def distinct_sessions_def
      by (auto simp: sessionAt_def rpc_def completed_def waiting_def)
    have "en_uuid en (dm_drawn d) = u (dm_drawn d)" using assms(2) by simp
    note send = send_rpc(1) [OF s assms(1) this] send_rpc(2) [OF s assms(1) this]
    have set: "rpc_inv u (setSession i (fst ?r) ?d)" "rpc c (setSession i (fst ?r) ?d) + held c s = rpc c d + held c (fst ?r)"
      using set_rpc(1) [OF d(1) at(1), of "fst ?r"] set_rpc(2) [OF d(1) at(1), of "fst ?r" c] send(2) d(2) by simp_all
    have "rpc c (perform en i (snd ?r) (setSession i (fst ?r) ?d)) = rpc c d + (if ?c = c then 1 else 0)"
      using perform_rpc [OF set(1), of en i "snd ?r" c] set(2)
        send(1) [of c en ?op "toObject (member_of ob ''args'')" ?c "toIntOr (member_of ob ''timeout_ms'') 15000"] by linarith
    moreover have "rpc_inv u (perform en i (snd ?r) (setSession i (fst ?r) ?d))"
      using perform_rpc [OF set(1), of en i "snd ?r" c] by blast
    ultimately show ?thesis
      using Some x assms(3) refuse by (simp add: handleClientRpcDispatch_def Let_def split_beta)
  qed
qed

lemma host_frame_rpc:
  assumes "inj u" "en_uuid en = u" "rpc_inv u d"
  shows "rpc_inv u (handleFrame en ob d) \<and> rpc c (handleFrame en ob d) = rpc c d + dispatched c (FromHost en ob)"
  using dispatch_rpc [OF assms, of ob c] broadcast_rpc [OF assms(3)] resolve_rpc [OF assms(3)] assms(3)
  by (simp add: handleFrame_def Let_def)

end
