(* ===== verification/Wire_Auth_Laws.thy ===== *)
theory Wire_Auth_Laws
  imports Wire_Auth
begin

text \<open>
  The store of paired clients over whole histories: a pairing code works once and only while it is fresh, a
  revoked client is never recognised again, and an issued token is recognised until then.
\<close>

section \<open>The tables stay well formed\<close>

lemma auth_inv_new: "auth_inv new_auth"
  by (simp add: auth_inv_def new_auth_def)

lemma purge_frame [simp]:
  "wa_up (purgeExpiredCodes now a) = wa_up a" "wa_clients (purgeExpiredCodes now a) = wa_clients a"
  by (simp_all add: purgeExpiredCodes_def)

lemma purge_inv: "auth_inv a \<Longrightarrow> auth_inv (purgeExpiredCodes now a)"
  by (auto simp: auth_inv_def purgeExpiredCodes_def intro: distinct_map_filter)

lemma map_keeps_key: "(\<And>x. k (f x) = k x) \<Longrightarrow> map k (map f xs) = map k xs"
  by (induction xs) auto

lemma auth_step_inv: "auth_inv a \<Longrightarrow> auth_inv (fst (auth_step hash a e))"
proof (cases e)
  case (Generate now draws)
  assume "auth_inv a"
  then have "auth_inv (purgeExpiredCodes now a)" by (rule purge_inv)
  with Generate show ?thesis
    by (auto simp: auth_inv_def generatePairingCode_def Let_def intro: distinct_map_filter)
next
  case (Consume now c)
  assume "auth_inv a"
  then have "auth_inv (purgeExpiredCodes now a)" by (rule purge_inv)
  with Consume show ?thesis
    by (auto simp: auth_inv_def consumePairingCode_def Let_def intro: distinct_map_filter)
next
  case (Issue now t c n)
  assume "auth_inv a"
  with Issue show ?thesis by (auto simp: auth_inv_def issueToken_def list_ex_iff)
next
  case (Verify now t)
  assume "auth_inv a"
  with Verify show ?thesis
    by (auto simp: auth_inv_def verifyToken_def split: option.splits simp del: map_map
        simp: map_keeps_key [of cr_id] map_keeps_key [of cr_tokenHash])
next
  case (Revoke now c)
  assume "auth_inv a"
  with Revoke show ?thesis
    by (auto simp: auth_inv_def revokeClient_def simp del: map_map
        simp: map_keeps_key [of cr_id] map_keeps_key [of cr_tokenHash])
qed

lemma auth_run_append:
  "auth_run hash a (xs @ ys) =
     (let (a1, us) = auth_run hash a xs; (a2, vs) = auth_run hash a1 ys in (a2, us @ vs))"
  by (induction xs arbitrary: a) (simp_all add: Let_def split_beta)

interpretation auth_store: invariant_machine
  "\<lambda>a. a = new_auth" "\<lambda>_ _. True" "\<lambda>a e. fst (auth_step hash a e)" auth_inv for hash
  by unfold_locales (auto simp: auth_inv_new auth_step_inv)

lemma auth_run_fst: "fst (auth_run hash a es) = foldl (\<lambda>a e. fst (auth_step hash a e)) a es"
  by (induction es arbitrary: a) (simp_all add: Let_def split_beta)

lemma auth_run_inv: "auth_inv a \<Longrightarrow> auth_inv (fst (auth_run hash a es))"
  unfolding auth_run_fst by (rule auth_store.run_inv) simp_all

section \<open>Pairing codes\<close>

definition codes_of :: "string \<Rightarrow> wire_auth \<Rightarrow> nat" where
  "codes_of c a = length (filter (\<lambda>p. pc_code p = c) (wa_codes a))"

definition made :: "string \<Rightarrow> auth_answer \<Rightarrow> bool" where
  "made c x = (case x of Generated _ d \<Rightarrow> d = c | _ \<Rightarrow> False)"

definition spent :: "string \<Rightarrow> auth_answer \<Rightarrow> bool" where
  "spent c x = (case x of Consumed _ d b \<Rightarrow> b \<and> d = c | _ \<Rightarrow> False)"

lemma filter_twice_le: "length (filter P (filter Q xs)) \<le> length (filter P xs)"
  by (induction xs) auto

lemma purge_codes_le: "codes_of c (purgeExpiredCodes now a) \<le> codes_of c a"
  by (simp add: codes_of_def purgeExpiredCodes_def filter_twice_le del: filter_filter)

lemma codes_other: "d \<noteq> c \<Longrightarrow> filter (\<lambda>p. pc_code p \<noteq> d \<and> pc_code p = c) ps = filter (\<lambda>p. pc_code p = c) ps"
  by (rule filter_cong) auto

lemma step_codes:
  "codes_of c (fst (auth_step hash a e)) + (if spent c (snd (auth_step hash a e)) then 1 else 0)
     \<le> codes_of c a + (if made c (snd (auth_step hash a e)) then 1 else 0)"
proof (cases e)
  case (Generate now draws)
  show ?thesis using purge_codes_le [of c now a] Generate
    by (auto simp: generatePairingCode_def Let_def made_def spent_def codes_of_def codes_other)
next
  case (Consume now d)
  let ?a = "purgeExpiredCodes now a"
  have "list_ex (\<lambda>p. pc_code p = c) (wa_codes ?a) \<Longrightarrow> 1 \<le> codes_of c ?a"
    by (auto simp: codes_of_def list_ex_iff Suc_le_eq filter_empty_conv)
  then show ?thesis using purge_codes_le [of c now a] Consume
    by (cases "c = d") (auto simp: consumePairingCode_def Let_def made_def spent_def codes_of_def codes_other)
qed (auto simp: made_def spent_def codes_of_def issueToken_def verifyToken_def revokeClient_def Let_def split: option.splits)

lemma run_codes:
  "codes_of c (fst (auth_run hash a es)) + length (filter (spent c) (snd (auth_run hash a es)))
     \<le> codes_of c a + length (filter (made c) (snd (auth_run hash a es)))"
proof (induction es arbitrary: a)
  case (Cons e es)
  show ?case using step_codes [of c hash a e] Cons.IH [of "fst (auth_step hash a e)"]
    by (simp add: Let_def split_beta split: if_splits)
qed simp

text \<open>
  C27. However the sessions and the command line use the store: a pairing code is accepted at most as often
  as it was handed out. A code that was consumed is gone, so it pairs one client.
\<close>

theorem pairing_code_pairs_once:
  "length (filter (spent c) (snd (auth_run hash new_auth es)))
     \<le> length (filter (made c) (snd (auth_run hash new_auth es)))"
  using run_codes [of c hash new_auth es] by (simp add: codes_of_def new_auth_def)

lemma purge_rows: "p \<in> set (wa_codes (purgeExpiredCodes now a)) \<Longrightarrow> p \<in> set (wa_codes a)"
  by (auto simp: purgeExpiredCodes_def split: if_splits)

lemma step_row_made:
  assumes "p \<in> set (wa_codes (fst (auth_step hash a e)))"
  shows "p \<in> set (wa_codes a)
       \<or> Generated (pc_createdAt p) (pc_code p) = snd (auth_step hash a e)
           \<and> pc_expiresAt p = pc_createdAt p + kPairingCodeTtlSeconds * 1000"
  using assms
  by (cases e) (auto simp: generatePairingCode_def consumePairingCode_def issueToken_def verifyToken_def revokeClient_def
      Let_def dest: purge_rows split: if_splits option.splits)

lemma run_row_made:
  "p \<in> set (wa_codes (fst (auth_run hash a es))) \<Longrightarrow> p \<notin> set (wa_codes a) \<Longrightarrow>
     Generated (pc_createdAt p) (pc_code p) \<in> set (snd (auth_run hash a es))
     \<and> pc_expiresAt p = pc_createdAt p + kPairingCodeTtlSeconds * 1000"
proof (induction es arbitrary: a)
  case (Cons e es)
  show ?case using Cons.prems Cons.IH [of "fst (auth_step hash a e)"] step_row_made [of p hash a e]
    by (auto simp: Let_def split_beta)
qed simp

lemma consumed_row:
  assumes "snd (consumePairingCode now c a)"
  shows "\<exists>p \<in> set (wa_codes a). pc_code p = c \<and> now < pc_expiresAt p"
  using assms by (auto simp: consumePairingCode_def purgeExpiredCodes_def Let_def list_ex_iff split: if_splits)

text \<open>
  C15. A code is accepted only within five minutes of being handed out: whatever happened to the store
  before, an accepted code was generated at a time less than 300 seconds before.
\<close>

theorem pairing_code_is_fresh:
  assumes "snd (consumePairingCode now c (fst (auth_run hash new_auth es)))"
  shows "\<exists>made. Generated made c \<in> set (snd (auth_run hash new_auth es)) \<and> now < made + 300 * 1000"
proof -
  obtain p where "p \<in> set (wa_codes (fst (auth_run hash new_auth es)))" "pc_code p = c" "now < pc_expiresAt p"
    using consumed_row [OF assms] by auto
  with run_row_made [of p hash new_auth es] show ?thesis
    by (auto simp: new_auth_def kPairingCodeTtlSeconds_def)
qed

section \<open>Tokens\<close>

definition revoked_in :: "wire_auth \<Rightarrow> string \<Rightarrow> bool" where
  "revoked_in a c \<longleftrightarrow> (\<exists>r \<in> set (wa_clients a). cr_id r = c \<and> cr_revokedAt r \<noteq> None)"

lemma one_row: "distinct (map k xs) \<Longrightarrow> x \<in> set xs \<Longrightarrow> y \<in> set xs \<Longrightarrow> k x = k y \<Longrightarrow> x = y"
  by (metis distinct_map inj_onD)

text \<open>An operation changes rows in place and appends rows; only a revocation of its client marks a row.\<close>

lemma step_clients:
  "\<exists>f rows. wa_clients (fst (auth_step hash a e)) = map f (wa_clients a) @ rows \<and>
     (\<forall>r. cr_id (f r) = cr_id r \<and> cr_tokenHash (f r) = cr_tokenHash r \<and>
          (cr_revokedAt r \<noteq> None \<longrightarrow> cr_revokedAt (f r) \<noteq> None) \<and>
          ((\<forall>now. e \<noteq> Revoke now (cr_id r)) \<longrightarrow> cr_revokedAt (f r) = cr_revokedAt r))"
proof (cases e)
  case (Verify now t)
  show ?thesis
  proof (cases "find (\<lambda>r. cr_tokenHash r = hash t) (wa_clients a)")
    case (Some q)
    show ?thesis using Verify Some
      by (auto simp: verifyToken_def intro: exI [of _ id]
          intro!: exI [of _ "if wa_up a \<and> isActive (clientOf q)
            then (\<lambda>x. if cr_id x = cr_id q then x\<lparr>cr_lastSeenAt := Some now\<rparr> else x) else id"])
  qed (use Verify in \<open>auto simp: verifyToken_def intro!: exI [of _ id]\<close>)
next
  case (Revoke now c)
  then show ?thesis
    by (auto simp: revokeClient_def intro!: exI [of _ "if wa_up a
          then (\<lambda>r. if cr_id r = c \<and> cr_revokedAt r = None then r\<lparr>cr_revokedAt := Some now\<rparr> else r) else id"])
qed (auto simp: generatePairingCode_def consumePairingCode_def issueToken_def Let_def intro!: exI [of _ id])

lemma step_revoked: "revoked_in a c \<Longrightarrow> revoked_in (fst (auth_step hash a e)) c"
proof -
  obtain f rows where f: "wa_clients (fst (auth_step hash a e)) = map f (wa_clients a) @ rows"
    "\<And>r. cr_id (f r) = cr_id r" "\<And>r. cr_revokedAt r \<noteq> None \<Longrightarrow> cr_revokedAt (f r) \<noteq> None"
    using step_clients [of hash a e] by metis
  assume "revoked_in a c"
  then obtain r where "r \<in> set (wa_clients a)" "cr_id r = c" "cr_revokedAt r \<noteq> None" by (auto simp: revoked_in_def)
  with f show ?thesis unfolding revoked_in_def by (intro bexI [of _ "f r"]) auto
qed

lemma verified_row:
  assumes "snd (verifyToken hash now t a) = Some p"
  shows "\<exists>r \<in> set (wa_clients a). cr_id r = pd_id p \<and> cr_tokenHash r = hash t \<and> cr_revokedAt r = None"
  using assms by (auto simp: verifyToken_def isActive_def clientOf_def split: if_splits option.splits dest!: find_SomeD)

lemma step_not_verified:
  assumes "auth_inv a" "revoked_in a c" "snd (auth_step hash a e) = Verified (Some p)"
  shows "pd_id p \<noteq> c"
proof
  assume c: "pd_id p = c"
  obtain now t where e: "e = Verify now t" "snd (verifyToken hash now t a) = Some p"
    using assms(3) by (cases e) (auto simp: Let_def split_beta)
  obtain r where r: "r \<in> set (wa_clients a)" "cr_id r = c" "cr_revokedAt r = None"
    using verified_row [OF e(2)] c by auto
  obtain q where q: "q \<in> set (wa_clients a)" "cr_id q = c" "cr_revokedAt q \<noteq> None"
    using assms(2) by (auto simp: revoked_in_def)
  have "r = q" using one_row [of cr_id "wa_clients a" r q] assms(1) r q by (simp add: auth_inv_def)
  with r q show False by simp
qed

lemma run_not_verified:
  "auth_inv a \<Longrightarrow> revoked_in a c \<Longrightarrow> Verified (Some p) \<in> set (snd (auth_run hash a es)) \<Longrightarrow> pd_id p \<noteq> c"
proof (induction es arbitrary: a)
  case (Cons e es)
  show ?case
    using Cons.prems(3) Cons.IH [OF auth_step_inv [OF Cons.prems(1), of hash e] step_revoked [OF Cons.prems(2), of hash e]]
      step_not_verified [OF Cons.prems(1,2), of hash e p]
    by (auto simp: Let_def split_beta)
qed simp

text \<open>
  C13. Revocation is final: once a client was revoked, no token is ever recognised as that client again,
  whatever else happens to the store (the client cannot be issued a new token under its id either).
\<close>

theorem revoked_client_never_returns:
  assumes "auth_inv a" "snd (revokeClient now c a)"
    "Verified (Some p) \<in> set (snd (auth_run hash (fst (revokeClient now c a)) es))"
  shows "pd_id p \<noteq> c"
proof (rule run_not_verified [OF _ _ assms(3)])
  show "auth_inv (fst (revokeClient now c a))"
    using auth_step_inv [OF assms(1), of hash "Revoke now c"] by (simp add: Let_def split_beta)
  show "revoked_in (fst (revokeClient now c a)) c"
  proof -
    obtain r where r: "r \<in> set (wa_clients a)" "cr_id r = c" "cr_revokedAt r = None" "wa_up a"
      using assms(2) by (auto simp: revokeClient_def list_ex_iff split: if_splits)
    let ?f = "\<lambda>x. if cr_id x = c \<and> cr_revokedAt x = None then x\<lparr>cr_revokedAt := Some now\<rparr> else x"
    have "?f r \<in> set (wa_clients (fst (revokeClient now c a)))" using r by (simp add: revokeClient_def)
    then show ?thesis unfolding revoked_in_def by (rule rev_bexI) (use r in simp)
  qed
qed

definition holds_token :: "(string \<Rightarrow> string) \<Rightarrow> wire_auth \<Rightarrow> string \<Rightarrow> string \<Rightarrow> bool" where
  "holds_token hash a t c \<longleftrightarrow>
     (\<exists>r \<in> set (wa_clients a). cr_id r = c \<and> cr_tokenHash r = hash t \<and> cr_revokedAt r = None)"

lemma step_up: "wa_up (fst (auth_step hash a e)) = wa_up a"
  by (cases e) (auto simp: generatePairingCode_def consumePairingCode_def issueToken_def verifyToken_def revokeClient_def
      Let_def split: option.splits)

lemma step_holds:
  assumes "holds_token hash a t c" "\<And>now. e \<noteq> Revoke now c"
  shows "holds_token hash (fst (auth_step hash a e)) t c"
proof -
  obtain f rows where f: "wa_clients (fst (auth_step hash a e)) = map f (wa_clients a) @ rows"
    "\<And>r. cr_id (f r) = cr_id r" "\<And>r. cr_tokenHash (f r) = cr_tokenHash r"
    "\<And>r. (\<forall>now. e \<noteq> Revoke now (cr_id r)) \<Longrightarrow> cr_revokedAt (f r) = cr_revokedAt r"
    using step_clients [of hash a e] by metis
  obtain r where "r \<in> set (wa_clients a)" "cr_id r = c" "cr_tokenHash r = hash t" "cr_revokedAt r = None"
    using assms(1) by (auto simp: holds_token_def)
  with f assms(2) show ?thesis unfolding holds_token_def by (intro bexI [of _ "f r"]) auto
qed

lemma run_holds:
  "holds_token hash a t c \<Longrightarrow> (\<And>now. Revoke now c \<notin> set es) \<Longrightarrow> holds_token hash (fst (auth_run hash a es)) t c"
proof (induction es arbitrary: a)
  case (Cons e es)
  show ?case
    using Cons.IH [OF step_holds [OF Cons.prems(1), of e]] Cons.prems(2) by (auto simp: Let_def split_beta)
qed simp

lemma run_up: "wa_up (fst (auth_run hash a es)) = wa_up a"
  by (induction es arbitrary: a) (simp_all add: Let_def split_beta step_up)

lemma holder_verified:
  assumes "auth_inv a" "wa_up a" "holds_token hash a t c"
  shows "\<exists>p. snd (verifyToken hash now t a) = Some p \<and> pd_id p = c"
proof -
  obtain r where r: "r \<in> set (wa_clients a)" "cr_id r = c" "cr_tokenHash r = hash t" "cr_revokedAt r = None"
    using assms(3) by (auto simp: holds_token_def)
  obtain q where q: "find (\<lambda>r. cr_tokenHash r = hash t) (wa_clients a) = Some q"
    using r by (cases "find (\<lambda>r. cr_tokenHash r = hash t) (wa_clients a)") (auto simp: find_None_iff)
  have "q = r" using find_SomeD [OF q] one_row [of cr_tokenHash "wa_clients a" q r] assms(1) r
    by (simp add: auth_inv_def)
  with q r assms(2) show ?thesis by (simp add: verifyToken_def isActive_def clientOf_def)
qed

text \<open>
  A token that was issued is recognised as its client after any history that does not revoke the
  client: other pairings, tokens and revocations do not disturb it, and it does not expire.
\<close>

theorem issued_token_recognised:
  assumes "auth_inv a" "snd (issueToken hash now t c name a) = Some (t, c)" "\<And>w. Revoke w c \<notin> set es"
  shows "\<exists>p. snd (verifyToken hash later t (fst (auth_run hash (fst (issueToken hash now t c name a)) es))) = Some p
             \<and> pd_id p = c"
proof (rule holder_verified)
  let ?a = "fst (issueToken hash now t c name a)"
  have inv: "auth_inv ?a"
    using auth_step_inv [OF assms(1), of hash "Issue now t c name"] by (simp add: Let_def split_beta)
  show "auth_inv (fst (auth_run hash ?a es))" by (rule auth_run_inv [OF inv])
  show "wa_up (fst (auth_run hash ?a es))"
    using assms(2) by (auto simp: run_up issueToken_def split: if_splits)
  show "holds_token hash (fst (auth_run hash ?a es)) t c"
    using assms(2,3) by (intro run_holds) (auto simp: holds_token_def issueToken_def split: if_splits)
qed

section \<open>A small store\<close>

definition demo_pairs :: "auth_op list" where
  "demo_pairs = [Issue 0 ''t1'' ''c1'' ''Ana'', Issue 0 ''t2'' ''c2'' ''Bo'']"

definition demo_bo :: paired_client where
  "demo_bo = \<lparr>pd_id = ''c2'', pd_name = ''Bo'', pd_createdAt = 0, pd_lastSeenAt = Some 6, pd_revokedAt = None\<rparr>"

lemma demo_pairs_inv: "auth_inv (fst (auth_run id new_auth demo_pairs))"
  by (rule auth_run_inv [OF auth_inv_new])

theorem pairing_code_is_fresh_witness:
  "\<exists>made. Generated made ''100008'' \<in> set (snd (auth_run id new_auth [Generate 0 [8]])) \<and> 1000 < made + 300 * 1000"
proof -
  have "decimal 100008 = ''100008''" by (simp add: decimal.simps char_of_def bit_0)
  then have "snd (consumePairingCode 1000 ''100008'' (fst (auth_run id new_auth [Generate 0 [8]])))"
    by (simp add: generatePairingCode_def consumePairingCode_def purgeExpiredCodes_def new_auth_def kPairingCodeTtlSeconds_def Let_def
        del: decimal.simps)
  then show ?thesis by (rule pairing_code_is_fresh)
qed

theorem revoked_client_never_returns_witness:
  "Verified (Some demo_bo) \<in> set (snd (auth_run id
      (fst (revokeClient 1 ''c1'' (fst (auth_run id new_auth demo_pairs)))) [Verify 5 ''t1'', Verify 6 ''t2''])) \<and> pd_id demo_bo \<noteq> ''c1''"
proof -
  have "snd (revokeClient 1 ''c1'' (fst (auth_run id new_auth demo_pairs)))"
    "Verified (Some demo_bo) \<in> set (snd (auth_run id
      (fst (revokeClient 1 ''c1'' (fst (auth_run id new_auth demo_pairs)))) [Verify 5 ''t1'', Verify 6 ''t2'']))"
    by code_simp+
  then show ?thesis using revoked_client_never_returns [OF demo_pairs_inv] by blast
qed

theorem issued_token_recognised_witness:
  "\<exists>p. snd (verifyToken id 9 ''t3'' (fst (auth_run id (fst (issueToken id 2 ''t3'' ''c3'' ''Cy''
      (fst (auth_run id new_auth demo_pairs)))) [Revoke 3 ''c1'']))) = Some p \<and> pd_id p = ''c3''"
proof -
  have "snd (issueToken id 2 ''t3'' ''c3'' ''Cy'' (fst (auth_run id new_auth demo_pairs))) = Some (''t3'', ''c3'')" by code_simp
  from issued_token_recognised [OF demo_pairs_inv this, of "[Revoke 3 ''c1'']" 9] show ?thesis by simp
qed

text \<open>The command prints a code that no client can use when the insertion fails.\<close>

lemma unstored_code_is_handed_out:
  "generatePairingCode 0 [8] (new_auth\<lparr>wa_up := False\<rparr>) =
     (new_auth\<lparr>wa_up := False\<rparr>, decimal (100000 + 8))"
  by (simp add: generatePairingCode_def purgeExpiredCodes_def new_auth_def Let_def del: decimal.simps)

end
