(* ===== verification/Wire_Machine.thy ===== *)
theory Wire_Machine
  imports Wire_Exchange Wire_Auth_Laws
begin

text \<open>
  The daemon as a machine: its events, the invariant of both directions, and what a history has asked for.
\<close>

section \<open>Histories\<close>

text \<open>
  The identifiers of requests are the sequence \<open>u\<close> of the UUIDs that the process draws; the ids of new
  clients are not empty.
\<close>

fun env_of :: "daemon_event \<Rightarrow> wire_env option" where
  "env_of (Connected en) = Some en"
| "env_of (ClientFrame en _ _ _) = Some en"
| "env_of (HostDown en) = Some en"
| "env_of (HostTick en) = Some en"
| "env_of (FromHost en _) = Some en"
| "env_of _ = None"

definition draws_from :: "(nat \<Rightarrow> string) \<Rightarrow> daemon_event \<Rightarrow> bool" where
  "draws_from u e \<longleftrightarrow> (case env_of e of Some en \<Rightarrow> en_uuid en = u \<and> en_clientId en \<noteq> [] | None \<Rightarrow> True)"

text \<open>
  Histories in which the hash table of the pending calls does not grow while a callback runs, so that the
  iterator found before still names the entry. A callback adds entries only when it asks the host again.
\<close>

definition steady :: "(nat \<Rightarrow> string) \<Rightarrow> daemon_event \<Rightarrow> bool" where
  "steady u e \<longleftrightarrow> draws_from u e \<and> (case env_of e of Some en \<Rightarrow> keeps_iterators en | None \<Rightarrow> True)"

lemma steady_draws: "list_all (steady u) es \<Longrightarrow> list_all (draws_from u) es"
  by (induction es) (simp_all add: steady_def)

definition remote_inv :: "(nat \<Rightarrow> string) \<Rightarrow> wire_daemon \<Rightarrow> bool" where
  "remote_inv u d \<longleftrightarrow> daemon_inv u d \<and> rpc_inv u d"

fun asked :: "nat \<Rightarrow> string \<Rightarrow> wire_daemon \<Rightarrow> daemon_event \<Rightarrow> nat" where
  "asked sid r d (ClientFrame en i bytes doc) =
     (if i = sid \<and> (case sessionAt d i of Some s \<Rightarrow> accepts en bytes doc s r | None \<Rightarrow> False) then 1 else 0)"
| "asked sid r d _ = 0"

fun requested :: "nat \<Rightarrow> string \<Rightarrow> wire_daemon \<Rightarrow> daemon_event list \<Rightarrow> nat" where
  "requested sid r d [] = 0"
| "requested sid r d (e # es) = asked sid r d e + requested sid r (daemon_step d e) es"

lemma requested_append: "requested sid r d (es @ fs) = requested sid r d es + requested sid r (foldl daemon_step d es) fs"
  by (induction es arbitrary: d) simp_all

section \<open>One step\<close>

lemma adds_weaken: "adds u (\<lambda>_ _. 0) d d' \<Longrightarrow> (\<And>i r. n i r = 0) \<Longrightarrow> adds u n d d'"
  by (simp add: adds_def)

lemma host_frame_adds:
  assumes "keeps_iterators en" "inj u" "en_uuid en = u" "daemon_inv u d" "distinct (map fst (dm_sessions d))"
  shows "adds u (\<lambda>_ _. 0) d (handleFrame en ob d)"
  using dispatch_adds [OF assms(2-)] broadcast_adds [OF assms(2-4)] conjunct1 [OF resolve_adds [OF assms(1-4)]] adds_refl [OF assms(4)]
  by (simp add: handleFrame_def Let_def)

lemma down_adds:
  assumes "inj u" "en_uuid en = u" "daemon_inv u d"
  shows "adds u (\<lambda>_ _. 0) d (onHostDisconnected en d)"
proof -
  let ?d = "d\<lparr>dm_hostUp := False\<rparr>"
  have "adds u (\<lambda>_ _. 0) d ?d" "alive ?d = alive d"
    using assms(3) by (auto simp: adds_def daemon_inv_def balance_def answered_def owed_def awaited_def alive_def sessionAt_def fun_eq_iff)
  moreover have "adds u (\<lambda>_ _. 0) ?d (onHostDisconnected en d)"
    using host_down_adds [OF assms(1,2), of ?d "dm_pending d" "''bridge disconnected''"] adds_inv [OF \<open>adds u (\<lambda>_ _. 0) d ?d\<close>]
    by (simp add: onHostDisconnected_def)
  ultimately show ?thesis using zero_trans by blast
qed

lemma up_adds: "daemon_inv u d \<Longrightarrow> adds u (\<lambda>_ _. 0) d (d\<lparr>dm_hostUp := True\<rparr>)"
  by (auto simp: adds_def daemon_inv_def balance_def answered_def owed_def awaited_def alive_def sessionAt_def)

lemma step_adds:
  assumes "inj u" "steady u e" "remote_inv u d"
  shows "adds u (\<lambda>i r. asked i r d e) d (daemon_step d e)"
proof -
  have d: "daemon_inv u d" "distinct (map fst (dm_sessions d))"
    using assms(3) by (simp_all add: remote_inv_def rpc_inv_def distinct_sessions_def)
  show ?thesis
  proof (cases e)
    case (ClientFrame en sid bytes doc)
    then have "en_uuid en = u" using assms(2) by (simp add: steady_def draws_from_def)
    from frame_adds [OF assms(1) this d(1), of sid bytes doc] show ?thesis
      unfolding ClientFrame adds_def by (auto split: option.splits)
  qed (use assms(1,2) d connected_adds disconnected_adds tick_adds up_adds down_adds sweep_adds host_frame_adds closed_adds
      in \<open>simp_all add: steady_def draws_from_def\<close>)
qed

lemma step_rpc:
  assumes "inj u" "draws_from u e" and d: "rpc_inv u d"
  shows "rpc_inv u (daemon_step d e) \<and> rpc c (daemon_step d e) = rpc c d + dispatched c e"
  by (cases e) (use assms(1,2) d connected_rpc frame_rpc left_rpc tick_rpc host_down_rpc sweep_rpc host_frame_rpc closed_rpc
      in \<open>simp_all add: draws_from_def del: dispatched.simps(1)\<close>)

lemma step_remote_inv: "inj u \<Longrightarrow> steady u e \<Longrightarrow> remote_inv u d \<Longrightarrow> remote_inv u (daemon_step d e)"
  using step_adds [of u e d] step_rpc [of u e d] adds_inv unfolding remote_inv_def steady_def by meson

lemma new_remote_inv: "remote_inv u (new_daemon a)"
  by (simp add: remote_inv_def daemon_inv_def rpc_inv_def distinct_sessions_def new_daemon_def sessionAt_def)

text \<open>Histories that draw from one sequence without repetition.\<close>

definition draws_fresh :: "(nat \<Rightarrow> string) \<Rightarrow> daemon_event \<Rightarrow> bool" where
  "draws_fresh u e \<longleftrightarrow> inj u \<and> draws_from u e"

interpretation exchange: invariant_machine
  "\<lambda>d. \<exists>a. d = new_daemon a" "\<lambda>_. draws_fresh u" daemon_step "rpc_inv u" for u
  using new_remote_inv by unfold_locales (auto simp: remote_inv_def draws_fresh_def step_rpc)

interpretation remote: invariant_machine
  "\<lambda>d. \<exists>a. d = new_daemon a" "\<lambda>_ e. inj u \<and> steady u e" daemon_step "remote_inv u" for u
  by unfold_locales (auto simp: new_remote_inv step_remote_inv)

lemma admitted_all: "admitted (\<lambda>_. P) step s es \<longleftrightarrow> list_all P es"
  by (induction es arbitrary: s) auto

lemma run_remote_inv: "inj u \<Longrightarrow> list_all (steady u) es \<Longrightarrow> remote_inv u d \<Longrightarrow> remote_inv u (foldl daemon_step d es)"
  by (rule remote.run_inv) (auto simp: admitted_all list_all_iff)

lemma run_rpc_inv: "inj u \<Longrightarrow> list_all (draws_from u) es \<Longrightarrow> rpc_inv u d \<Longrightarrow> rpc_inv u (foldl daemon_step d es)"
  by (rule exchange.run_inv) (auto simp: admitted_all draws_fresh_def list_all_iff)

section \<open>A whole history\<close>

lemma gone_for_good:
  assumes "inj u"
  shows "list_all (steady u) es \<Longrightarrow> remote_inv u d \<Longrightarrow> \<not> alive d i \<Longrightarrow> i < dm_next d \<Longrightarrow> \<not> alive (foldl daemon_step d es) i"
proof (induction es arbitrary: d)
  case (Cons e es)
  have a: "adds u (\<lambda>i r. asked i r d e) d (daemon_step d e)" using step_adds [OF assms] Cons.prems by simp
  have "\<not> alive (daemon_step d e) i" using a Cons.prems(3,4) unfolding adds_def by fastforce
  moreover have "i < dm_next (daemon_step d e)" using a Cons.prems(4) by (simp add: adds_def)
  ultimately show ?case using Cons.IH [of "daemon_step d e"] Cons.prems step_remote_inv [OF assms, of e d] by simp
qed simp

lemma history_balance:
  assumes "inj u"
  shows "list_all (steady u) es \<Longrightarrow> remote_inv u d \<Longrightarrow> alive (foldl daemon_step d es) i \<Longrightarrow>
     balance (foldl daemon_step d es) i r = (if alive d i then balance d i r else 0) + requested i r d es"
proof (induction es arbitrary: d)
  case (Cons e es)
  let ?d = "daemon_step d e"
  have a: "adds u (\<lambda>i r. asked i r d e) d ?d" using step_adds [OF assms] Cons.prems by simp
  have inv: "remote_inv u ?d" using step_remote_inv [OF assms, of e d] Cons.prems by simp
  have IH: "balance (foldl daemon_step ?d es) i r = (if alive ?d i then balance ?d i r else 0) + requested i r ?d es"
    using Cons.IH [OF _ inv] Cons.prems by simp
  have none: "asked i r d e = 0" if "\<not> alive d i"
    using that by (cases e) (auto simp: alive_def split: option.split)
  show ?case
  proof (cases "alive ?d i")
    case True
    then show ?thesis using IH a none unfolding adds_def by (auto split: if_splits)
  next
    case False
    then have "dm_next ?d \<le> i"
      using gone_for_good [OF assms _ inv False, of es] Cons.prems by (cases "dm_next ?d \<le> i") auto
    moreover have "i < dm_next d" if "alive d i"
      using inv_session that Cons.prems(2) by (fastforce simp: alive_def remote_inv_def)
    ultimately show ?thesis using IH False none a by (auto simp: adds_def)
  qed
qed simp

lemma history_rpc:
  assumes "inj u"
  shows "list_all (draws_from u) es \<Longrightarrow> rpc_inv u d \<Longrightarrow>
     rpc c (foldl daemon_step d es) = rpc c d + (\<Sum>e \<leftarrow> es. dispatched c e)"
proof (induction es arbitrary: d)
  case (Cons e es)
  then show ?case using Cons.IH [of "daemon_step d e"] step_rpc [OF assms, of e d c] by simp
qed simp

end
