(* ===== verification/Wire_Names.thy ===== *)
theory Wire_Names
  imports Wire_Machine
begin

text \<open>
  In whose name the daemon acts. A session that has presented no code and no token makes no call of the host,
  and the id it acts under is a row of the store of clients.
\<close>

section \<open>What an operation without a client may do\<close>

definition calls_nothing :: "wire_effect list \<Rightarrow> bool" where
  "calls_nothing es \<longleftrightarrow> list_all (\<lambda>e. case e of Ask _ _ _ \<Rightarrow> False | Fire _ _ _ \<Rightarrow> False | _ \<Rightarrow> True) es"

lemma calls_nothing_simps [simp]:
  "calls_nothing []" "calls_nothing (Reply r v # es) = calls_nothing es" "calls_nothing (ReplyError r c m # es) = calls_nothing es"
  "calls_nothing (Event n w # es) = calls_nothing es" "calls_nothing (RpcDone c y # es) = calls_nothing es"
  "calls_nothing (Rebound c # es) = calls_nothing es" "calls_nothing (CloseSocket # es) = calls_nothing es"
  "calls_nothing (SendRequest r n w # es) = calls_nothing es" "\<not> calls_nothing (Ask q i k # es)" "\<not> calls_nothing (Fire t n xs # es)"
  "calls_nothing (es @ fs) \<longleftrightarrow> calls_nothing es \<and> calls_nothing fs"
  by (simp_all add: calls_nothing_def)

lemma events_call_nothing: "events_only es \<Longrightarrow> calls_nothing es"
  by (auto simp: events_only_def calls_nothing_def list_all_iff)

lemma map_done_calls_nothing [simp]: "calls_nothing (map (\<lambda>p. RpcDone (f p) (g p)) ps)"
  by (induction ps) auto

definition paired :: "wire_auth \<Rightarrow> string set" where
  "paired a = cr_id ` set (wa_clients a)"

lemma marked_id [simp]:
  "cr_id (if P then r\<lparr>cr_revokedAt := v\<rparr> else r) = cr_id r" "cr_id (if P then r\<lparr>cr_lastSeenAt := v\<rparr> else r) = cr_id r"
  by simp_all

lemma store_keeps_ids:
  "map cr_id (wa_clients (fst (consumePairingCode now c a))) = map cr_id (wa_clients a)"
  "map cr_id (wa_clients (fst (verifyToken hash now t a))) = map cr_id (wa_clients a)"
  "map cr_id (wa_clients (fst (revokeClient now c a))) = map cr_id (wa_clients a)"
  by (auto simp: consumePairingCode_def purgeExpiredCodes_def verifyToken_def revokeClient_def Let_def comp_def split: option.split)

lemma store_keeps_clients [simp]:
  "paired (fst (consumePairingCode now c a)) = paired a" "paired (fst (verifyToken hash now t a)) = paired a"
  "paired (fst (revokeClient now c a)) = paired a"
  unfolding paired_def set_map [symmetric] store_keeps_ids by simp_all

lemma issue_paired:
  "paired (fst (issueToken hash now t c n a)) = paired a \<and> snd (issueToken hash now t c n a) = None \<or>
   paired (fst (issueToken hash now t c n a)) = insert c (paired a) \<and> snd (issueToken hash now t c n a) = Some (t, c)"
  by (simp add: issueToken_def paired_def)

lemma verified_paired: "snd (verifyToken hash now t a) = Some p \<Longrightarrow> pd_id p \<in> paired a"
  using verified_row [of hash now t a p] unfolding paired_def by (metis imageI)

text \<open>A session's client is nobody or a row of the store; it changes only to a row of the store.\<close>

definition clients_ok :: "wire_auth \<Rightarrow> bool" where
  "clients_ok a \<longleftrightarrow> [] \<notin> paired a"

definition name_step :: "wire_auth \<times> wire_session \<Rightarrow> wire_auth \<times> wire_session \<Rightarrow> bool" where
  "name_step st st' \<longleftrightarrow> paired (fst st) \<subseteq> paired (fst st') \<and> (clients_ok (fst st) \<longrightarrow> clients_ok (fst st')) \<and>
     (ws_clientId (snd st') = ws_clientId (snd st) \<or> ws_clientId (snd st') \<in> paired (fst st'))"

lemma name_step_refl [simp]: "name_step st st"
  by (simp add: name_step_def)

lemma name_step_store:
  "paired a' = paired (fst st) \<Longrightarrow> ws_clientId s' = ws_clientId (snd st) \<Longrightarrow> name_step st (a', s')"
  by (simp add: name_step_def clients_ok_def)

lemma auth_ops_names:
  assumes "en_clientId en \<noteq> []"
  shows "name_step st (fst (opAuthPair en rid P st)) \<and> calls_nothing (snd (opAuthPair en rid P st))"
    and "name_step st (fst (opAuthToken en rid P st)) \<and> calls_nothing (snd (opAuthToken en rid P st))"
proof -
  obtain a s where st: "st = (a, s)" by fastforce
  let ?c = "consumePairingCode (en_now en) (strOf P ''code'') a"
  let ?i = "issueToken (en_hash en) (en_now en) (en_token en) (en_clientId en) (strOf P ''client_name'') (fst ?c)"
  show "name_step st (fst (opAuthPair en rid P st)) \<and> calls_nothing (snd (opAuthPair en rid P st))"
    using issue_paired [of "en_hash en" "en_now en" "en_token en" "en_clientId en" "strOf P ''client_name''" "fst ?c"] assms
    by (elim disjE conjE) (auto simp: st opAuthPair_def Let_def split_beta name_step_def clients_ok_def invalid_def)
  have "ws_clientId (s\<lparr>ws_clientId := pd_id p, ws_clientName := n, ws_capabilities := w\<rparr>) = pd_id p" for p n w by simp
  show "name_step st (fst (opAuthToken en rid P st)) \<and> calls_nothing (snd (opAuthToken en rid P st))"
    using verified_paired [of "en_hash en" "en_now en" "strOf P ''token''" a]
    by (cases "snd (verifyToken (en_hash en) (en_now en) (strOf P ''token'') a)")
      (simp_all add: st opAuthToken_def Let_def split_beta name_step_def clients_ok_def required_def invalid_def)
qed

lemma dispatch_names:
  assumes "en_clientId en \<noteq> []"
  shows "name_step st (fst (dispatchOp en op rid P st))"
proof -
  obtain a s where st: "st = (a, s)" by fastforce
  have "name_step st (fst (opAuthRevokeSelf en rid st))" "name_step st (fst (opClientsRevoke en rid P st))"
    by (auto simp: st opAuthRevokeSelf_def opClientsRevoke_def Let_def split_beta intro: name_step_store)
  moreover have "name_step st (fst st, fst (opMsgSubscribe rid P (snd st)))" "name_step st (fst st, fst (opMsgUnsubscribe rid P (snd st)))"
    by (auto simp: opMsgSubscribe_def opMsgUnsubscribe_def Let_def intro!: name_step_store)
  ultimately show ?thesis using auth_ops_names [OF assms, of st rid P]
    by (auto simp: dispatchOp_def Let_def split_beta split: option.split)
qed

lemma stranger_calls_nothing:
  assumes "\<not> isAuthenticated (snd st)" "en_clientId en \<noteq> []"
  shows "calls_nothing (snd (dispatchOp en op rid P st))"
  using auth_ops_names [OF assms(2), of st rid P] assms(1)
  by (simp add: dispatchOp_def Let_def opPing_def requireAuth_def)

lemma rate_name [simp]: "ws_clientId (snd (checkRateLimit now s)) = ws_clientId s"
  by (simp add: checkRateLimit_def Let_def)

lemma response_name [simp]: "ws_clientId (fst (onClientResponse ob s)) = ws_clientId s"
  by (simp add: onClientResponse_def Let_def split: option.split)

lemma response_calls_nothing: "calls_nothing (snd (onClientResponse ob s))"
  by (simp add: onClientResponse_def Let_def split: option.split)

lemma frame_names:
  assumes "en_clientId en \<noteq> []"
  shows "name_step st (fst (onTextMessageReceived en bytes doc st)) \<and>
     (\<not> isAuthenticated (snd st) \<longrightarrow> calls_nothing (snd (onTextMessageReceived en bytes doc st)))"
proof (cases "\<exists>ob. doc = Some (JObj ob) \<and> bytes \<le> kMaxWireFrameBytes")
  case False
  then show ?thesis by (auto simp: onTextMessageReceived_def errorEvent_def split: option.split json.split)
next
  case True
  then obtain ob where ob: "doc = Some (JObj ob)" "bytes \<le> kMaxWireFrameBytes" by blast
  let ?s = "snd (checkRateLimit (en_now en) (snd st))"
  let ?d = "dispatchOp en (strOf ob ''op'') (strOf ob ''request_id'') (toObject (member_of ob ''params'')) (fst st, ?s)"
  have "name_step (fst st, ?s) (fst ?d)" by (rule dispatch_names [OF assms])
  then have "name_step st (fst ?d)" by (simp add: name_step_def)
  moreover have "calls_nothing (snd ?d)" if "\<not> isAuthenticated (snd st)"
    by (rule stranger_calls_nothing [OF _ assms]) (use that in \<open>simp add: isAuthenticated_def\<close>)
  moreover have "name_step st (fst st, ?s)" "name_step st (fst st, fst (onClientResponse ob (snd st)))"
    by (simp_all add: name_step_def)
  ultimately show ?thesis using ob response_calls_nothing [of ob "snd st"]
    by (simp add: onTextMessageReceived_def split_beta Let_def errorEvent_def)
qed

section \<open>The daemon\<close>

fun named_out :: "string set \<Rightarrow> daemon_out \<Rightarrow> bool" where
  "named_out cs (Called c _) = (c \<in> cs)"
| "named_out cs (Fired c _ _ _) = (c \<in> cs)"
| "named_out cs _ = True"

text \<open>The clients of the sessions, which carrying out effects does not change.\<close>

definition names :: "wire_daemon \<Rightarrow> (nat \<times> string) list" where
  "names d = map (\<lambda>(i, s). (i, ws_clientId s)) (dm_sessions d)"

lemma names_at: "map_of (names d) i = map_option ws_clientId (sessionAt d i)"
  unfolding names_def sessionAt_def by (induction "dm_sessions d" arbitrary: d) (auto simp: map_of_map)

lemma names_client: "clientOfSession d i = (case map_of (names d) i of Some c \<Rightarrow> c | None \<Rightarrow> [])"
  by (simp add: names_at clientOfSession_def split: option.split)

lemma names_set: "sessionAt d sid = Some s \<Longrightarrow> ws_clientId s' = ws_clientId s \<Longrightarrow> names (setSession sid s' d) = names d"
proof -
  have "map_of xs sid = Some s \<Longrightarrow> ws_clientId s' = ws_clientId s \<Longrightarrow>
     map (\<lambda>(i, s). (i, ws_clientId s)) (AList.map_entry sid (\<lambda>_. s') xs) = map (\<lambda>(i, s). (i, ws_clientId s)) xs" for xs
    by (induction xs) (auto split: if_splits)
  then show "sessionAt d sid = Some s \<Longrightarrow> ws_clientId s' = ws_clientId s \<Longrightarrow> names (setSession sid s' d) = names d"
    by (simp add: names_def setSession_def sessionAt_def)
qed

lemma names_frame [simp]:
  "names (logged x d) = names d" "names (awaitHost en sid call t k d) = names d" "names (d\<lparr>dm_out := xs\<rparr>) = names d"
  "names (d\<lparr>dm_pending := ps\<rparr>) = names d" "names (d\<lparr>dm_drawn := n\<rparr>) = names d" "names (d\<lparr>dm_hostUp := b\<rparr>) = names d"
  "names (d\<lparr>dm_auth := a\<rparr>) = names d"
  by (simp_all add: names_def)

lemma resume_name: "ws_clientId (fst (resume en k ok v err s)) = ws_clientId s"
  by (cases k) (auto simp: updateCatalog_def maybeFinish_def startCatalog_def catalogReply_def mediaFile_def Let_def split: option.split)

lemma closeOne_names [simp]: "names (closeOne kind sid d) = names d" "dm_auth (closeOne kind sid d) = dm_auth d"
proof -
  have at: "sessionAt (d\<lparr>dm_out := xs\<rparr>) i = sessionAt d i" for xs i by (simp add: sessionAt_def)
  show "names (closeOne kind sid d) = names d" "dm_auth (closeOne kind sid d) = dm_auth d"
    by (auto simp: closeOne_def forceClose_def drainPendingClientRequests_def at names_set split: option.split)
qed

lemma rebound_names [simp]: "names (onClientIdRebound c self d) = names d" "dm_auth (onClientIdRebound c self d) = dm_auth d"
proof -
  have "names (fold (closeOne kind) ids d) = names d \<and> dm_auth (fold (closeOne kind) ids d) = dm_auth d" for kind ids
    by (induction ids arbitrary: d) simp_all
  then show "names (onClientIdRebound c self d) = names d" "dm_auth (onClientIdRebound c self d) = dm_auth d"
    by (simp_all add: onClientIdRebound_def)
qed

lemma perform_names [simp]: "names (perform en sid es d) = names d" "dm_auth (perform en sid es d) = dm_auth d"
proof -
  have "names (perform en sid es d) = names d \<and> dm_auth (perform en sid es d) = dm_auth d"
  proof (induction en sid es d rule: perform.induct)
    case (2 en sid call t k es d)
    moreover have "dm_auth (awaitHost en sid call t k d) = dm_auth d" by (simp add: awaitHost_def Let_def logged_def)
    ultimately show ?case by (auto simp: names_set resume_name split: option.split)
  next
    case (6 en sid es d)
    then show ?case by (auto simp: names_set split: option.split)
  qed (simp_all add: logged_def)
  then show "names (perform en sid es d) = names d" "dm_auth (perform en sid es d) = dm_auth d" by auto
qed

definition named :: "wire_daemon \<Rightarrow> bool" where
  "named d \<longleftrightarrow> clients_ok (dm_auth d) \<and>
     (\<forall>i c. map_of (names d) i = Some c \<longrightarrow> c \<in> insert [] (paired (dm_auth d))) \<and>
     (\<forall>i c. map_of (names d) i = Some c \<longrightarrow> i < dm_next d) \<and>
     (\<forall>p \<in> set (dm_pending d). hp_session p < dm_next d \<and> map_of (names d) (hp_session p) \<noteq> Some []) \<and>
     list_all (named_out (paired (dm_auth d))) (dm_out d)"

definition entitled :: "nat \<Rightarrow> wire_effect list \<Rightarrow> wire_daemon \<Rightarrow> bool" where
  "entitled sid es d \<longleftrightarrow> calls_nothing es \<or> clientOfSession d sid \<noteq> []"

lemma entitled_tail: "entitled sid (e # es) d \<Longrightarrow> names d' = names d \<Longrightarrow> entitled sid es d'"
  by (auto simp: entitled_def calls_nothing_def names_client)

lemma entitled_client: "entitled sid (e # es) d \<Longrightarrow> \<not> calls_nothing [e] \<Longrightarrow> named d \<Longrightarrow>
    clientOfSession d sid \<in> paired (dm_auth d) \<and> clientOfSession d sid \<noteq> [] \<and> map_of (names d) sid \<noteq> Some [] \<and> sid < dm_next d"
  by (auto simp: entitled_def calls_nothing_def named_def names_client split: option.splits)

lemma named_callbacks: "list_all (named_out cs) (callbacksRun up es)"
  using callbacksRun_answered [of _ up es] by (fastforce simp: list_all_iff)

lemma named_set: "sessionAt d sid = Some s \<Longrightarrow> ws_clientId s' = ws_clientId s \<Longrightarrow> named (setSession sid s' d) = named d"
  by (simp add: named_def names_set)

lemma named_cong: "names d' = names d \<Longrightarrow> dm_next d' = dm_next d \<Longrightarrow> dm_auth d' = dm_auth d \<Longrightarrow> dm_pending d' = dm_pending d \<Longrightarrow>
    dm_out d' = dm_out d @ xs \<Longrightarrow> list_all (named_out (paired (dm_auth d))) xs \<Longrightarrow> named d \<Longrightarrow> named d'"
  by (simp add: named_def)

lemma named_rebound: "named d \<Longrightarrow> named (onClientIdRebound c self d)"
proof -
  assume d: "named d"
  obtain xs where xs: "dm_out (onClientIdRebound c self d) = dm_out d @ xs" "\<forall>x \<in> set xs. \<exists>c y up. x = Answered c y up"
    using rebound_same [of d c self] unfolding same_sessions_def by blast
  then have "list_all (named_out cs) xs" for cs by (fastforce simp: list_all_iff)
  moreover have "dm_next (onClientIdRebound c self d) = dm_next d" "dm_pending (onClientIdRebound c self d) = dm_pending d"
    using rebound_same [of d c self] by (simp_all add: same_sessions_def same_ids_def)
  ultimately show ?thesis using named_cong [OF _ _ _ _ xs(1) _ d] by simp
qed

lemma named_logged: "named d \<Longrightarrow> named_out (paired (dm_auth d)) x \<Longrightarrow> named (logged x d)"
  by (rule named_cong [of _ d "[x]"]) (simp_all, simp_all add: logged_def)

lemma perform_named: "named d \<Longrightarrow> entitled sid es d \<Longrightarrow> named (perform en sid es d)"
proof (induction en sid es d rule: perform.induct)
  case (2 en sid call t k es d)
  have c: "clientOfSession d sid \<in> paired (dm_auth d)" "sid < dm_next d \<and> map_of (names d) sid \<noteq> Some []" "clientOfSession d sid \<noteq> []"
    using entitled_client [OF 2(5) _ 2(4)] by simp_all
  show ?case
  proof (cases "dm_hostUp d")
    case True
    have a: "dm_auth (awaitHost en sid call t k d) = dm_auth d" by (simp add: awaitHost_def Let_def logged_def)
    have "set (dm_pending (awaitHost en sid call t k d)) \<subseteq>
        insert \<lparr>hp_id = en_uuid en (dm_drawn d), hp_expiresAtMs = en_now en + max t 100, hp_session = sid, hp_cont = k\<rparr> (set (dm_pending d))"
      by (auto simp: awaitHost_def Let_def)
    then have "\<forall>p \<in> set (dm_pending (awaitHost en sid call t k d)). hp_session p < dm_next d \<and> map_of (names d) (hp_session p) \<noteq> Some []"
      using c(2) 2(4) by (force simp: named_def)
    then have "named (awaitHost en sid call t k d)" using 2(4) c(1) by (simp add: named_def a)
    with 2(1) [OF True this entitled_tail [OF 2(5)]] True show ?thesis by simp
  next
    case off: False
    show ?thesis
    proof (cases "sessionAt d sid")
      case None
      from 2(2) [OF off None 2(4) entitled_tail [OF 2(5)]] off None show ?thesis by simp
    next
      case (Some s)
      let ?d = "setSession sid (fst (resume en k False JNull ''bridge offline'' s)) d"
      have n: "names ?d = names d" "named ?d" using Some resume_name 2(4) by (simp_all add: names_set named_set)
      have "entitled sid (snd (resume en k False JNull ''bridge offline'' s) @ es) ?d"
        using c(3) by (simp add: entitled_def names_client n)
      from 2(3) [OF off Some n(2) this] off Some show ?thesis by simp
    qed
  qed
next
  case (3 en sid target meth args es d)
  have "clientOfSession d sid \<in> paired (dm_auth d)" using entitled_client [OF 3(3) _ 3(2)] by simp
  then have "named (if dm_hostUp d then logged (Fired (clientOfSession d sid) target meth args) d else d)"
    using 3(2) by (simp add: named_logged)
  from 3(1) [OF this entitled_tail [OF 3(3)]] show ?case by simp
next
  case (5 en sid c es d)
  from 5(1) [OF named_rebound [OF 5(2)] entitled_tail [OF 5(3)]] show ?case by simp
next
  case (6 en sid es d)
  let ?d = "case sessionAt d sid of Some s \<Rightarrow> setSession sid (s\<lparr>ws_connected := False\<rparr>) d | None \<Rightarrow> d"
  have "names ?d = names d" "named ?d" using 6(2) by (auto simp: names_set named_set split: option.split)
  from 6(1) [OF this(2) entitled_tail [OF 6(3) this(1)]] show ?case by simp
next
  case (4 en sid caller reply es d)
  from 4(1) [OF named_logged [OF 4(2)] entitled_tail [OF 4(3)]] show ?case by simp
next
  case (7 en sid rid v es d)
  from 7(1) [OF named_logged [OF 7(2)] entitled_tail [OF 7(3)]] show ?case by simp
next
  case (8 en sid rid k v es d)
  from 8(1) [OF named_logged [OF 8(2)] entitled_tail [OF 8(3)]] show ?case by simp
next
  case (9 en sid n v es d)
  from 9(1) [OF named_logged [OF 9(2)] entitled_tail [OF 9(3)]] show ?case by simp
next
  case (10 en sid rid n v es d)
  from 10(1) [OF named_logged [OF 10(2)] entitled_tail [OF 10(3)]] show ?case by simp
qed simp

section \<open>Every event\<close>

lemma runCallback_named:
  assumes "named d" "map_of (names d) (hp_session p) \<noteq> Some []"
  shows "named (runCallback en p ok v err d)"
proof (cases "sessionAt d (hp_session p)")
  case (Some s)
  let ?d = "setSession (hp_session p) (fst (resume en (hp_cont p) ok v err s)) d"
  have n: "named ?d" "names ?d = names d" using Some resume_name assms(1) by (simp_all add: names_set named_set)
  have "clientOfSession ?d (hp_session p) \<noteq> []"
    using assms(2) Some by (simp add: names_client n(2)) (simp add: names_at)
  from perform_named [OF n(1), of "hp_session p" "snd (resume en (hp_cont p) ok v err s)" en] this Some show ?thesis
    by (simp add: runCallback_def split_beta entitled_def)
qed (use assms in \<open>simp add: runCallback_def\<close>)

lemma runCallback_names [simp]: "names (runCallback en p ok v err d) = names d"
  by (auto simp: runCallback_def split_beta names_set resume_name split: option.split)

lemma named_pending: "named d \<Longrightarrow> set ps \<subseteq> set (dm_pending d) \<Longrightarrow> named (d\<lparr>dm_pending := ps\<rparr>)"
  by (auto simp: named_def)

lemma resolve_named: "named d \<Longrightarrow> named (resolve_pending en ok v err rid d)"
proof (cases "find (\<lambda>p. hp_id p = rid) (dm_pending d)")
  case (Some p)
  assume d: "named d"
  then have "map_of (names d) (hp_session p) \<noteq> Some []" using find_SomeD [OF Some] by (auto simp: named_def)
  then have "named (runCallback en p ok v err d)" by (rule runCallback_named [OF d])
  then have "named (eraseFound en rid (dm_pending d) (runCallback en p ok v err d))"
    by (auto simp: eraseFound_def intro: named_pending split: option.split)
  then show ?thesis using Some by (simp add: resolve_pending_def)
qed (simp add: resolve_pending_def)

lemma fold_named: "(\<And>x d. named d \<Longrightarrow> named (f x d)) \<Longrightarrow> named d \<Longrightarrow> named (fold f xs d)"
  by (induction xs arbitrary: d) auto

lemma down_named: "named d \<Longrightarrow> named (onHostDisconnected en d)"
proof -
  assume d: "named d"
  have "named d' \<Longrightarrow> \<forall>p \<in> set ps. map_of (names d') (hp_session p) \<noteq> Some [] \<Longrightarrow>
      named (fold (\<lambda>p. runCallback en p False JNull err) ps d')" for err ps d'
    by (induction ps arbitrary: d') (simp_all add: runCallback_named)
  moreover have "named (d\<lparr>dm_hostUp := False\<rparr>)" "\<forall>p \<in> set (dm_pending d). map_of (names d) (hp_session p) \<noteq> Some []"
    using d by (simp_all add: named_def)
  ultimately show ?thesis unfolding onHostDisconnected_def by (intro named_pending) simp_all
qed

lemma quiet_named: "named d \<Longrightarrow> calls_nothing es \<Longrightarrow> named (perform en sid es d)"
  by (rule perform_named) (simp_all add: entitled_def)

lemma dispatch_named: "named d \<Longrightarrow> distinct (map fst (dm_sessions d)) \<Longrightarrow> named (handleClientRpcDispatch en ob d)"
proof -
  assume d: "named d" "distinct (map fst (dm_sessions d))"
  have refuse: "named (logged (Answered c y up) d)" for c y up using d(1) by (simp add: named_def) (simp add: logged_def)
  show ?thesis
  proof (cases "sessionForClientId d (strOf ob ''client_id'')")
    case None
    then show ?thesis using d(1) refuse by (simp add: handleClientRpcDispatch_def Let_def)
  next
    case (Some x)
    obtain i s where x: "x = (i, s)" by fastforce
    let ?d = "d\<lparr>dm_drawn := dm_drawn d + 1\<rparr>"
    have at: "sessionAt ?d i = Some s" using sessionForClientId_at [OF d(2)] Some x by (simp add: sessionAt_def)
    have "ws_clientId (fst (sendClientRequest en rid op args c t s)) = ws_clientId s" for rid op args c t
      by (simp add: sendClientRequest_def checkOutboundRateLimit_def Let_def)
    moreover have "named ?d" using d(1) by (simp add: named_def)
    ultimately have "named (setSession i (fst (sendClientRequest en rid op args c t s)) ?d)" for rid op args c t
      using named_set [OF at] by blast
    moreover have "calls_nothing (snd (sendClientRequest en rid op args c t s))" for rid op args c t
      by (simp add: sendClientRequest_def checkOutboundRateLimit_def Let_def)
    ultimately have "named (perform en i (snd (sendClientRequest en rid op args c t s))
        (setSession i (fst (sendClientRequest en rid op args c t s)) ?d))" for rid op args c t
      by (rule quiet_named)
    then show ?thesis using Some x d(1) refuse by (simp add: handleClientRpcDispatch_def Let_def split_beta)
  qed
qed

lemma frame_named:
  assumes "named d" "en_clientId en \<noteq> []"
  shows "named (onFrame en sid bytes doc d)"
proof (cases "sessionAt d sid")
  case (Some s)
  let ?r = "onTextMessageReceived (here en d) bytes doc (dm_auth d, s)"
  let ?d = "setSession sid (snd (fst ?r)) (d\<lparr>dm_auth := fst (fst ?r)\<rparr>)"
  have "name_step (dm_auth d, s) (fst ?r) \<and> (\<not> isAuthenticated s \<longrightarrow> calls_nothing (snd ?r))"
    using frame_names [of "here en d" "(dm_auth d, s)" bytes doc] assms(2) by (simp add: here_def)
  then have f: "paired (dm_auth d) \<subseteq> paired (fst (fst ?r))" "clients_ok (fst (fst ?r))"
      "ws_clientId (snd (fst ?r)) = ws_clientId s \<or> ws_clientId (snd (fst ?r)) \<in> paired (fst (fst ?r))"
      "ws_clientId s \<noteq> [] \<or> calls_nothing (snd ?r)"
    using assms(1) by (simp_all add: name_step_def isAuthenticated_def named_def)
  have id: "ws_clientId s = [] \<or> ws_clientId s \<in> paired (dm_auth d)"
    using assms(1) Some unfolding named_def by (simp add: names_at) blast
  then have keep: "ws_clientId s \<noteq> [] \<Longrightarrow> ws_clientId (snd (fst ?r)) \<noteq> []"
    using f(2,3) by (auto simp: clients_ok_def)
  have at: "sessionAt ?d i = (if i = sid then Some (snd (fst ?r)) else sessionAt d i)" for i
    using Some by (auto simp: alive_def) (simp_all add: sessionAt_def)
  then have n: "map_of (names ?d) i = (if i = sid then Some (ws_clientId (snd (fst ?r))) else map_of (names d) i)" for i
    by (simp add: names_at)
  have weaker: "named_out cs x \<Longrightarrow> cs \<subseteq> cs' \<Longrightarrow> named_out cs' x" for cs cs' x by (cases x) auto
  have "named ?d"
    unfolding named_def
  proof (intro conjI allI impI ballI)
    show "clients_ok (dm_auth ?d)" using f(2) by simp
    show "c \<in> insert [] (paired (dm_auth ?d))" if "map_of (names ?d) i = Some c" for i c
      using that assms(1) f(1,3) id by (auto simp: n named_def split: if_splits)
    show "i < dm_next ?d" if "map_of (names ?d) i = Some c" for i c
    proof -
      have "map_of (names d) sid = Some (ws_clientId s)" using Some by (simp add: names_at)
      then have "\<exists>c. map_of (names d) i = Some c" using that n [of i] by (auto split: if_splits)
      with assms(1) show ?thesis by (auto simp: named_def)
    qed
    show "hp_session p < dm_next ?d" if "p \<in> set (dm_pending ?d)" for p using that assms(1) by (simp add: named_def)
    show "map_of (names ?d) (hp_session p) \<noteq> Some []" if "p \<in> set (dm_pending ?d)" for p
      using that assms(1) keep Some unfolding n named_def by (auto simp: names_at split: if_splits)
    show "list_all (named_out (paired (dm_auth ?d))) (dm_out ?d)"
      using assms(1) f(1) weaker by (auto simp: named_def list_all_iff)
  qed
  moreover have "entitled sid (snd ?r) ?d"
    using f(4) keep at [of sid] by (auto simp: entitled_def clientOfSession_def)
  ultimately have "named (perform en sid (snd ?r) ?d)" by (rule perform_named)
  then show ?thesis using Some by (simp add: onFrame_def split_beta)
qed (use assms in \<open>simp add: onFrame_def\<close>)

lemma step_named:
  assumes "named d" "rpc_inv u d" "draws_from u e"
  shows "named (daemon_step d e)"
proof -
  have dist: "distinct (map fst (dm_sessions d))"
    and below: "\<forall>p \<in> set (dm_pending d). hp_session p < dm_next d"
    using assms(1,2) by (auto simp: rpc_inv_def distinct_sessions_def named_def)
  show ?thesis
  proof (cases e)
    case (Connected en)
    let ?d = "d\<lparr>dm_sessions := dm_sessions d @ [(dm_next d, fresh_session)], dm_next := Suc (dm_next d)\<rparr>"
    have "map_of (names ?d) i = (case map_of (names d) i of Some c \<Rightarrow> Some c | None \<Rightarrow> if i = dm_next d then Some [] else None)" for i
      by (simp add: names_def fresh_session_def map_add_def split: option.split)
    then have "named ?d" using assms(1) below unfolding named_def by (force split: option.splits if_splits)
    from quiet_named [OF this, of "[sendHello (here en d)]" en "dm_next d"] show ?thesis
      by (simp add: Connected onNewConnection_def sendHello_def)
  next
    case (ClientFrame en sid bytes doc)
    then show ?thesis using frame_named [OF assms(1)] assms(3) by (simp add: draws_from_def)
  next
    case (SocketClosed sid)
    have "map_of (names (d\<lparr>dm_sessions := AList.delete sid (dm_sessions d)\<rparr>)) i = (if i = sid then None else map_of (names d) i)" for i
      by (simp add: names_at sessionAt_def AList.delete_conv')
    then show ?thesis using SocketClosed assms(1) named_callbacks
      by (auto simp: onSocketDisconnected_def named_def names_def split: option.split)
  next
    case (ClientTick now sid)
    have "ws_clientId (fst (onClientRpcTimeoutSweep now s)) = ws_clientId s" for s by (simp add: onClientRpcTimeoutSweep_def)
    moreover have "sessionAt (d\<lparr>dm_out := xs\<rparr>) = sessionAt d" for xs by (simp add: sessionAt_def fun_eq_iff)
    moreover have "named (d\<lparr>dm_out := dm_out d @ callbacksRun up es\<rparr>)" for up es
      using assms(1) named_callbacks by (simp add: named_def)
    ultimately show ?thesis using ClientTick assms(1)
      by (auto simp: onClientTick_def split_beta named_set split: option.split)
  next
    case (FromHost en ob)
    have "named (broadcast en name args d)" for name args
      unfolding broadcast_def by (rule fold_named [OF _ assms(1)]) (auto intro: quiet_named events_call_nothing signal_events)
    then show ?thesis using FromHost dispatch_named [OF assms(1) dist] resolve_named [OF assms(1)] assms(1)
      by (simp add: handleFrame_def Let_def)
  next
    case (HostTick en)
    then show ?thesis using fold_named [OF resolve_named assms(1)] by (simp add: onTimeoutSweep_def)
  next
    case ServerClosed
    have "list_all (named_out cs) (concat (map (\<lambda>(i, s). callbacksRun up (f s)) ss))" for cs up f ss
      using named_callbacks by (induction ss) auto
    then show ?thesis using ServerClosed assms(1)
      by (simp add: closeServer_def named_def names_def)
  qed (use assms(1) down_named in \<open>simp_all add: named_def\<close>)
qed

lemma run_named:
  assumes "inj u"
  shows "list_all (draws_from u) es \<Longrightarrow> rpc_inv u d \<Longrightarrow> named d \<Longrightarrow> named (foldl daemon_step d es)"
proof (induction es arbitrary: d)
  case (Cons e es)
  then show ?case
    using Cons.IH [of "daemon_step d e"] step_named [of d u e] step_rpc [OF assms, of e d] by simp
qed simp

end
