(* ===== verification/Wire_Limits.thy ===== *)
theory Wire_Limits
  imports Wire_Names
begin

text \<open>
  The limits of a session: what an operation keeps of one session's state holds of every session of the daemon at
  all times, and the sliding window lets through as many operations in any second as the constant says.
\<close>

section \<open>Properties of a single session\<close>

locale session_property =
  fixes P :: "wire_session \<Rightarrow> bool"
  assumes fresh: "P fresh_session"
    and framed: "P s \<Longrightarrow> P (snd (fst (onTextMessageReceived en bytes doc (a, s))))"
    and resumed: "P s \<Longrightarrow> P (fst (resume en k ok v err s))"
    and sent: "P s \<Longrightarrow> P (fst (sendClientRequest en rid op args caller t s))"
    and swept: "P s \<Longrightarrow> P (fst (onClientRpcTimeoutSweep now s))"
    and closed: "P s \<Longrightarrow> P (fst (forceClose kind s))"
    and hung_up: "P s \<Longrightarrow> P (s\<lparr>ws_connected := False\<rparr>)"
begin

definition all_sessions :: "wire_daemon \<Rightarrow> bool" where
  "all_sessions d \<longleftrightarrow> list_all (\<lambda>x. P (snd x)) (dm_sessions d)"

lemma all_sessionsD: "all_sessions d \<Longrightarrow> sessionAt d i = Some s \<Longrightarrow> P s"
  unfolding all_sessions_def sessionAt_def list_all_iff by (force dest: map_of_SomeD)

lemma all_set: "all_sessions d \<Longrightarrow> P s \<Longrightarrow> all_sessions (setSession i s d)"
proof -
  have "list_all (\<lambda>x. P (snd x)) xs \<Longrightarrow> P s \<Longrightarrow> list_all (\<lambda>x. P (snd x)) (AList.map_entry i (\<lambda>_. s) xs)" for xs
    by (induction xs) auto
  then show "all_sessions d \<Longrightarrow> P s \<Longrightarrow> all_sessions (setSession i s d)" by (simp add: all_sessions_def setSession_def)
qed

lemma all_frame [simp]:
  "all_sessions (d\<lparr>dm_out := xs\<rparr>) = all_sessions d" "all_sessions (d\<lparr>dm_pending := ps\<rparr>) = all_sessions d"
  "all_sessions (d\<lparr>dm_drawn := n\<rparr>) = all_sessions d" "all_sessions (d\<lparr>dm_hostUp := b\<rparr>) = all_sessions d"
  "all_sessions (d\<lparr>dm_auth := a\<rparr>) = all_sessions d" "all_sessions (logged x d) = all_sessions d"
  "all_sessions (awaitHost en sid call t k d) = all_sessions d"
  by (simp_all add: all_sessions_def)

lemma all_fold: "(\<And>x d. all_sessions d \<Longrightarrow> all_sessions (f x d)) \<Longrightarrow> all_sessions d \<Longrightarrow> all_sessions (fold f xs d)"
  by (induction xs arbitrary: d) auto

lemma all_closeOne: "all_sessions d \<Longrightarrow> all_sessions (closeOne kind sid d)"
  using all_set all_sessionsD [THEN closed] by (simp add: closeOne_def split_beta split: option.split)

lemma all_perform: "all_sessions d \<Longrightarrow> all_sessions (perform en sid es d)"
proof (induction en sid es d rule: perform.induct)
  case (2 en sid call t k es d)
  then show ?case using all_set [OF 2(4) all_sessionsD [THEN resumed, OF 2(4)]] by (simp split: option.split)
next
  case (5 en sid c es d)
  then show ?case by (simp add: onClientIdRebound_def all_fold all_closeOne)
next
  case (6 en sid es d)
  then show ?case using all_set [OF 6(2) all_sessionsD [THEN hung_up, OF 6(2)]] by (simp split: option.split)
qed simp_all

lemma all_runCallback: "all_sessions d \<Longrightarrow> all_sessions (runCallback en p ok v err d)"
  using all_set all_sessionsD [THEN resumed] by (simp add: runCallback_def split_beta all_perform split: option.split)

lemma all_resolve: "all_sessions d \<Longrightarrow> all_sessions (resolve_pending en ok v err rid d)"
  by (simp add: resolve_pending_def eraseFound_def all_runCallback split: option.split)

lemma for_all: "all_sessions d \<Longrightarrow> (sid, s) \<in> set (dm_sessions d) \<Longrightarrow> P s"
  by (force simp: all_sessions_def list_all_iff)

lemma all_dispatch: "all_sessions d \<Longrightarrow> all_sessions (handleClientRpcDispatch en ob d)"
proof (cases "sessionForClientId d (strOf ob ''client_id'')")
  case (Some x)
  assume d: "all_sessions d"
  obtain i s where x: "x = (i, s)" by fastforce
  then have "(i, s) \<in> set (dm_sessions d)" using Some find_SomeD [of _ "dm_sessions d" x] by (auto simp: sessionForClientId_def split: if_splits)
  from sent [OF for_all [OF d this]] d Some x show ?thesis
    by (simp add: handleClientRpcDispatch_def Let_def split_beta all_perform all_set)
qed (simp add: handleClientRpcDispatch_def Let_def)

lemma all_step: "all_sessions d \<Longrightarrow> all_sessions (daemon_step d e)"
proof (cases e)
  case (Connected en)
  assume "all_sessions d"
  then show ?thesis using fresh
    by (simp add: Connected onNewConnection_def) (rule all_perform, simp add: all_sessions_def)
next
  case (ClientFrame en sid bytes doc)
  assume d: "all_sessions d"
  then show ?thesis using all_sessionsD [THEN framed, OF d]
    by (simp add: ClientFrame onFrame_def split_beta all_perform all_set split: option.split)
next
  case (SocketClosed sid)
  assume "all_sessions d"
  then show ?thesis by (auto simp: SocketClosed onSocketDisconnected_def all_sessions_def list_all_iff AList.delete_eq split: option.split)
next
  case (ClientTick now sid)
  assume d: "all_sessions d"
  then show ?thesis using all_sessionsD [THEN swept, OF d]
    by (simp add: ClientTick onClientTick_def split_beta all_set split: option.split)
next
  case (HostDown en)
  assume "all_sessions d"
  then show ?thesis by (simp add: HostDown onHostDisconnected_def all_fold all_runCallback)
next
  case (HostTick en)
  assume "all_sessions d"
  then show ?thesis by (simp add: HostTick onTimeoutSweep_def all_fold all_resolve)
next
  case (FromHost en ob)
  assume d: "all_sessions d"
  have "all_sessions (broadcast en name args d)" for name args
    unfolding broadcast_def by (rule all_fold [OF _ d]) (simp add: split_beta all_perform)
  then show ?thesis using d by (simp add: FromHost handleFrame_def Let_def all_resolve all_dispatch)
qed (simp_all add: closeServer_def all_sessions_def)

lemma all_run: "all_sessions (foldl daemon_step (new_daemon a) es)"
proof -
  have "all_sessions d \<Longrightarrow> all_sessions (foldl daemon_step d es)" for d
    by (induction es arbitrary: d) (simp_all add: all_step)
  then show ?thesis by (simp add: all_sessions_def new_daemon_def)
qed

lemma everywhere: "sessionAt (foldl daemon_step (new_daemon a) es) i = Some s \<Longrightarrow> P s"
  by (rule all_sessionsD [OF all_run])

end

section \<open>The tables of a session are bounded\<close>

definition within_limits :: "wire_session \<Rightarrow> bool" where
  "within_limits s \<longleftrightarrow> length (ws_recentOpsMs s) \<le> kMaxOpsPerSecond
     \<and> length (ws_recentOutboundOpsMs s) \<le> kMaxOutboundOpsPerSecond
     \<and> length (ws_pending s) \<le> kMaxPendingClientRequests
     \<and> distinct (ws_subscribedConvIds s) \<and> length (ws_subscribedConvIds s) \<le> kMaxSubscriptions"

definition same_tables :: "wire_session \<Rightarrow> wire_session \<Rightarrow> bool" where
  "same_tables s s' \<longleftrightarrow> ws_recentOpsMs s' = ws_recentOpsMs s \<and> ws_recentOutboundOpsMs s' = ws_recentOutboundOpsMs s
     \<and> ws_pending s' = ws_pending s \<and> ws_subscribedConvIds s' = ws_subscribedConvIds s"

lemma same_tables_limits: "same_tables s s' \<Longrightarrow> within_limits s' = within_limits s"
  by (simp add: same_tables_def within_limits_def)

lemma window_short: "length (windowFrom now ts) \<le> length ts"
  by (simp add: windowFrom_def length_dropWhile_le)

lemma rate_limits: "within_limits s \<Longrightarrow> within_limits (snd (checkRateLimit now s))"
  using window_short [of now "ws_recentOpsMs s"] by (auto simp: checkRateLimit_def within_limits_def Let_def)

lemma subscribe_limits: "within_limits s \<Longrightarrow> within_limits (fst (opMsgSubscribe rid Q s))"
  by (auto simp: opMsgSubscribe_def within_limits_def Let_def List.insert_def)

lemma unsubscribe_limits: "within_limits s \<Longrightarrow> within_limits (fst (opMsgUnsubscribe rid Q s))"
  by (auto simp: opMsgUnsubscribe_def within_limits_def Let_def distinct_removeAll intro: order_trans [OF length_removeAll_less_eq])

lemma auth_ops_tables:
  "same_tables (snd st) (snd (fst (opAuthPair en rid Q st)))" "same_tables (snd st) (snd (fst (opAuthToken en rid Q st)))"
  "same_tables (snd st) (snd (fst (opAuthRevokeSelf en rid st)))" "same_tables (snd st) (snd (fst (opClientsRevoke en rid Q st)))"
  by (auto simp: same_tables_def opAuthPair_def opAuthToken_def opAuthRevokeSelf_def opClientsRevoke_def Let_def split_beta
      split: option.split)

lemma dispatch_limits: "within_limits (snd st) \<Longrightarrow> within_limits (snd (fst (dispatchOp en op rid Q st)))"
  using auth_ops_tables [THEN same_tables_limits]
  by (auto simp: dispatchOp_def Let_def split_beta subscribe_limits unsubscribe_limits split: option.split)

lemma response_limits: "within_limits s \<Longrightarrow> within_limits (fst (onClientResponse ob s))"
  by (auto simp: onClientResponse_def within_limits_def Let_def intro: order_trans [OF length_filter_le] split: option.split)

lemma frame_limits: "within_limits s \<Longrightarrow> within_limits (snd (fst (onTextMessageReceived en bytes doc (a, s))))"
  by (simp add: onTextMessageReceived_def split_beta Let_def rate_limits response_limits dispatch_limits
      split: option.split json.split)

lemma resume_tables: "same_tables s (fst (resume en k ok v err s))"
  by (cases k) (auto simp: same_tables_def updateCatalog_def maybeFinish_def startCatalog_def catalogReply_def mediaFile_def Let_def
      split: option.split)

lemma send_limits: "within_limits s \<Longrightarrow> within_limits (fst (sendClientRequest en rid op args caller t s))"
proof -
  have "length (filter Q xs) \<le> length xs" for Q and xs :: "pending_request list" by simp
  then show "within_limits s \<Longrightarrow> within_limits (fst (sendClientRequest en rid op args caller t s))"
    using window_short [of "en_now en" "ws_recentOutboundOpsMs s"]
    by (auto simp: sendClientRequest_def checkOutboundRateLimit_def within_limits_def Let_def Suc_le_eq
        intro: le_less_trans [OF length_filter_le])
qed

interpretation small: session_property within_limits
proof unfold_locales
  show "within_limits fresh_session" by (simp add: within_limits_def fresh_session_def)
  show "within_limits s \<Longrightarrow> within_limits (fst (resume en k ok v err s))" for s en k ok v err
    using same_tables_limits [OF resume_tables] by blast
  show "within_limits s \<Longrightarrow> within_limits (snd (fst (onTextMessageReceived en bytes doc (a, s))))" for s en bytes doc a
    by (rule frame_limits)
  show "within_limits s \<Longrightarrow> within_limits (fst (sendClientRequest en rid op args caller t s))" for s en rid op args caller t
    by (rule send_limits)
qed (auto simp: onClientRpcTimeoutSweep_def forceClose_def drainPendingClientRequests_def within_limits_def
    intro: order_trans [OF length_filter_le])

section \<open>The sliding window\<close>

text \<open>The times, among those of the operations that arrive, of the operations let through.\<close>

fun let_through :: "int list \<Rightarrow> wire_session \<Rightarrow> int list" where
  "let_through [] s = []"
| "let_through (now # ts) s =
     (let (ok, s1) = checkRateLimit now s in (if ok then [now] else []) @ let_through ts s1)"

definition inSecond :: "int \<Rightarrow> int list \<Rightarrow> nat" where
  "inSecond t xs = length (filter (\<lambda>x. t - 1000 \<le> x \<and> x \<le> t) xs)"

definition recent_ok :: "int \<Rightarrow> int list \<Rightarrow> wire_session \<Rightarrow> bool" where
  "recent_ok m acc s \<longleftrightarrow> sorted (ws_recentOpsMs s) \<and> (\<forall>x \<in> set acc \<union> set (ws_recentOpsMs s). x \<le> m)
     \<and> (\<forall>n \<ge> m. filter (\<lambda>x. n - 1000 \<le> x) (ws_recentOpsMs s) = filter (\<lambda>x. n - 1000 \<le> x) acc)
     \<and> (\<forall>t. inSecond t acc \<le> kMaxOpsPerSecond)"

lemma window_filter: "sorted ts \<Longrightarrow> windowFrom now ts = filter (\<lambda>x. now - 1000 \<le> x) ts"
  unfolding windowFrom_def
proof (induction ts)
  case (Cons x ts)
  then show ?case by (cases "x < now - 1000") (auto simp: not_less intro!: filter_True [symmetric])
qed simp

lemma recent_step:
  assumes "recent_ok m acc s" "m \<le> now"
  shows "recent_ok now (acc @ (if fst (checkRateLimit now s) then [now] else [])) (snd (checkRateLimit now s))"
proof -
  let ?w = "filter (\<lambda>x. now - 1000 \<le> x) (ws_recentOpsMs s)"
  have w: "windowFrom now (ws_recentOpsMs s) = ?w" "?w = filter (\<lambda>x. now - 1000 \<le> x) acc"
    using assms by (simp_all add: recent_ok_def window_filter)
  have le: "x \<le> now" if "x \<in> set acc \<union> set (ws_recentOpsMs s)" for x using assms that unfolding recent_ok_def by (meson order_trans)
  have nest: "filter (\<lambda>x. n - 1000 \<le> x) ?w = filter (\<lambda>x. n - 1000 \<le> x) acc" if "now \<le> n" for n
    unfolding w(2) filter_filter using that by (intro filter_cong) auto
  have old: "inSecond t acc \<le> kMaxOpsPerSecond" for t using assms by (simp add: recent_ok_def)
  have new: "inSecond t (acc @ [now]) \<le> kMaxOpsPerSecond" if "length ?w < kMaxOpsPerSecond" for t
  proof (cases "t < now")
    case True
    then show ?thesis using old [of t] by (simp add: inSecond_def)
  next
    case False
    have "length (filter (\<lambda>x. t - 1000 \<le> x \<and> x \<le> t) acc) \<le> length ?w"
    proof -
      have "filter (\<lambda>x. t - 1000 \<le> x \<and> x \<le> t) acc = filter (\<lambda>x. t - 1000 \<le> x \<and> x \<le> t) (filter (\<lambda>x. now - 1000 \<le> x) acc)"
        unfolding filter_filter using False by (intro filter_cong) auto
      also have "length \<dots> \<le> length (filter (\<lambda>x. now - 1000 \<le> x) acc)" by (rule length_filter_le)
      finally show ?thesis unfolding w(2) .
    qed
    then show ?thesis using that by (simp add: inSecond_def)
  qed
  have "sorted ?w" by (rule sorted_wrt_filter) (use assms in \<open>simp add: recent_ok_def\<close>)
  then show ?thesis
    using w(1) le nest old new
    by (auto simp: recent_ok_def checkRateLimit_def Let_def sorted_append)
qed

lemma let_through_bounded:
  "recent_ok m acc s \<Longrightarrow> sorted ts \<Longrightarrow> \<forall>x \<in> set ts. m \<le> x \<Longrightarrow> inSecond t (acc @ let_through ts s) \<le> kMaxOpsPerSecond"
proof (induction ts arbitrary: m acc s)
  case (Cons now ts)
  let ?r = "checkRateLimit now s"
  have "recent_ok now (acc @ (if fst ?r then [now] else [])) (snd ?r)"
    using recent_step [OF Cons.prems(1)] Cons.prems(3) by simp
  from Cons.IH [OF this] Cons.prems(2) show ?case by (simp add: split_beta)
qed (simp add: recent_ok_def)

end
