(* ===== verification/Wire_Writing.thy ===== *)
theory Wire_Writing
  imports Wire_Limits
begin

text \<open>
  What of the log really left the process: a frame sent through an open socket, and an answer given while the
  host is connected. A session whose socket is closing never opens again.
\<close>

section \<open>The sockets of the sessions only close\<close>

lemma auth_ops_connected:
  "ws_connected (snd (fst (opAuthPair en rid P st))) = ws_connected (snd st)"
  "ws_connected (snd (fst (opAuthToken en rid P st))) = ws_connected (snd st)"
  "snd (fst (opAuthRevokeSelf en rid st)) = snd st" "snd (fst (opClientsRevoke en rid P st)) = snd st"
  "ws_connected (fst (opMsgSubscribe rid P s)) = ws_connected s" "ws_connected (fst (opMsgUnsubscribe rid P s)) = ws_connected s"
  by (simp_all add: opAuthPair_def opAuthToken_def opAuthRevokeSelf_def opClientsRevoke_def opMsgSubscribe_def
      opMsgUnsubscribe_def Let_def split_beta split: option.split)

lemma dispatch_connected: "ws_connected (snd (fst (dispatchOp en op rid P st))) = ws_connected (snd st)"
proof -
  have "snd (fst (case map_of opTable op of Some h \<Rightarrow> (st, h en (snd st) rid P) | None \<Rightarrow> (st, es))) = snd st" for es
    by (simp split: option.split)
  then show ?thesis by (simp add: dispatchOp_def Let_def split_beta auth_ops_connected)
qed

lemma frame_connected: "ws_connected (snd (fst (onTextMessageReceived en bytes doc st))) = ws_connected (snd st)"
  by (auto simp: onTextMessageReceived_def onClientResponse_def checkRateLimit_def dispatch_connected Let_def split_beta
      split: option.split json.split)

lemma resume_connected: "ws_connected (fst (resume en k ok v err s)) = ws_connected s"
  by (cases k) (auto simp: updateCatalog_def startCatalog_def Let_def split: option.split)

lemma send_connected: "ws_connected (fst (sendClientRequest en rid op args caller t s)) = ws_connected s"
  by (simp add: sendClientRequest_def checkOutboundRateLimit_def Let_def split_beta)

definition truly :: "wire_daemon \<Rightarrow> daemon_out \<Rightarrow> bool" where
  "truly d x \<longleftrightarrow> (case x of Answered _ _ up \<Rightarrow> up = dm_hostUp d | Sent i _ b \<Rightarrow> b \<or> \<not> socketOpen d i | _ \<Rightarrow> True)"

definition goes_on :: "wire_daemon \<Rightarrow> wire_daemon \<Rightarrow> bool" where
  "goes_on d d' \<longleftrightarrow> dm_hostUp d' = dm_hostUp d \<and> (\<forall>i. socketOpen d' i \<longrightarrow> socketOpen d i) \<and>
     (\<exists>xs. dm_out d' = dm_out d @ xs \<and> list_all (truly d') xs)"

lemma truly_later: "truly d x \<Longrightarrow> dm_hostUp d' = dm_hostUp d \<Longrightarrow> (\<And>i. socketOpen d' i \<Longrightarrow> socketOpen d i) \<Longrightarrow> truly d' x"
  by (auto simp: truly_def split: daemon_out.splits)

lemma goes_on_refl [simp]: "goes_on d d"
  by (simp add: goes_on_def)

lemma goes_on_trans [trans]: "goes_on d d' \<Longrightarrow> goes_on d' d'' \<Longrightarrow> goes_on d d''"
proof -
  assume a: "goes_on d d'" and b: "goes_on d' d''"
  then obtain xs ys where "dm_out d' = dm_out d @ xs" "list_all (truly d') xs" "dm_out d'' = dm_out d' @ ys" "list_all (truly d'') ys"
    unfolding goes_on_def by blast
  moreover from this(2) have "list_all (truly d'') xs"
    using b truly_later [of d' _ d''] unfolding goes_on_def list_all_iff by blast
  ultimately show ?thesis using a b unfolding goes_on_def by (metis append_assoc list_all_append)
qed

lemma goes_on_same:
  "socketOpen d' = socketOpen d \<Longrightarrow> dm_hostUp d' = dm_hostUp d \<Longrightarrow> dm_out d' = dm_out d @ xs \<Longrightarrow> list_all (truly d) xs \<Longrightarrow> goes_on d d'"
proof -
  assume a: "socketOpen d' = socketOpen d" "dm_hostUp d' = dm_hostUp d" "dm_out d' = dm_out d @ xs" "list_all (truly d) xs"
  from a(4) have "list_all (truly d') xs" using truly_later [of d _ d'] a(1,2) by (auto simp: list_all_iff)
  with a(1-3) show "goes_on d d'" by (auto simp: goes_on_def)
qed

lemma socketOpen_frame [simp]:
  "socketOpen (d\<lparr>dm_out := xs\<rparr>) = socketOpen d" "socketOpen (d\<lparr>dm_drawn := n\<rparr>) = socketOpen d"
  "socketOpen (d\<lparr>dm_hostUp := b\<rparr>) = socketOpen d" "socketOpen (d\<lparr>dm_auth := a\<rparr>) = socketOpen d"
  "socketOpen (logged x d) = socketOpen d" "socketOpen (awaitHost en sid call t k d) = socketOpen d"
  "socketOpen (eraseFound en rid found d) = socketOpen d"
  by (simp_all add: socketOpen_def sessionAt_def logged_def awaitHost_def fun_eq_iff Let_def)

lemma socketOpen_set:
  "sessionAt d sid = Some s \<Longrightarrow> socketOpen (setSession sid s' d) i = (if i = sid then ws_connected s' else socketOpen d i)"
  by (simp add: socketOpen_def alive_def)

lemma goes_on_logged: "truly d x \<Longrightarrow> goes_on d (logged x d)"
  by (rule goes_on_same [of _ _ "[x]"]) simp_all

lemma goes_on_frame [simp]:
  "goes_on d (awaitHost en sid call t k d)" "goes_on d (eraseFound en rid found d)" "goes_on d (d\<lparr>dm_drawn := n\<rparr>)"
  "goes_on d (d\<lparr>dm_auth := a\<rparr>)" "goes_on d (d\<lparr>dm_pending := ps\<rparr>)"
  by (rule goes_on_same [of _ _ "[Called (clientOfSession d sid) call]"] goes_on_same [of _ _ "[]"]; simp add: truly_def)+

lemma goes_on_set:
  "sessionAt d sid = Some s \<Longrightarrow> (ws_connected s' \<Longrightarrow> ws_connected s) \<Longrightarrow> goes_on d (setSession sid s' d)"
  by (auto simp: goes_on_def socketOpen_set) (simp add: socketOpen_def)

lemma callbacks_truly: "list_all (truly d) (callbacksRun (dm_hostUp d) es)"
proof (induction es)
  case (Cons e es)
  then show ?case by (cases e) (simp_all add: callbacksRun_def truly_def)
qed (simp add: callbacksRun_def)

lemma goes_on_callbacks: "goes_on d (d\<lparr>dm_out := dm_out d @ callbacksRun (dm_hostUp d) es\<rparr>)"
  by (rule goes_on_same [OF _ _ _ callbacks_truly]) simp_all

lemma goes_on_fold: "(\<And>x d. goes_on d (f x d)) \<Longrightarrow> goes_on d (fold f xs d)"
  by (induction xs arbitrary: d) (auto intro: goes_on_trans)

lemma goes_on_closeOne: "goes_on d (closeOne kind sid d)"
proof (cases "sessionAt d sid")
  case (Some s)
  let ?d = "d\<lparr>dm_out := dm_out d @ callbacksRun (dm_hostUp d) (snd (forceClose kind s))\<rparr>"
  have "sessionAt ?d sid = Some s" using Some by (simp add: sessionAt_def)
  then have "goes_on ?d (setSession sid (fst (forceClose kind s)) ?d)"
    by (rule goes_on_set) (simp add: forceClose_def split_beta)
  from goes_on_trans [OF goes_on_callbacks this] show ?thesis using Some by (simp add: closeOne_def split_beta)
qed (simp add: closeOne_def)

lemma goes_on_rebound: "goes_on d (onClientIdRebound c self d)"
  by (simp add: onClientIdRebound_def goes_on_fold goes_on_closeOne)

lemma goes_on_perform: "goes_on d (perform en sid es d)"
proof (induction en sid es d rule: perform.induct)
  case (2 en sid call t k es d)
  have s: "goes_on d (setSession sid (fst (resume en k False JNull ''bridge offline'' s)) d)" if "sessionAt d sid = Some s" for s
    by (rule goes_on_set [OF that]) (simp add: resume_connected)
  show ?case
  proof (cases "dm_hostUp d")
    case True
    from goes_on_trans [OF goes_on_frame(1) 2(1) [OF True]] True show ?thesis by simp
  next
    case False
    then show ?thesis using 2(2) [OF False] goes_on_trans [OF s 2(3) [OF False]] by (simp split: option.split)
  qed
next
  case (3 en sid target meth args es d)
  have "goes_on d (if dm_hostUp d then logged (Fired (clientOfSession d sid) target meth args) d else d)"
    by (simp add: goes_on_logged truly_def)
  from goes_on_trans [OF this 3] show ?case by simp
next
  case (4 en sid caller reply es d)
  have "goes_on d (logged (Answered caller reply (dm_hostUp d)) d)" by (rule goes_on_logged) (simp add: truly_def)
  from goes_on_trans [OF this 4] show ?case by simp
next
  case (5 en sid c es d)
  from goes_on_trans [OF goes_on_rebound 5] show ?case by simp
next
  case (6 en sid es d)
  have "goes_on d (case sessionAt d sid of Some s \<Rightarrow> setSession sid (s\<lparr>ws_connected := False\<rparr>) d | None \<Rightarrow> d)"
    by (auto split: option.split intro: goes_on_set)
  from goes_on_trans [OF this 6] show ?case by simp
next
  case (7 en sid rid v es d)
  have "goes_on d (logged (Sent sid (Reply rid v) (socketOpen d sid)) d)" by (rule goes_on_logged) (simp add: truly_def)
  from goes_on_trans [OF this 7] show ?case by simp
next
  case (8 en sid rid k v es d)
  have "goes_on d (logged (Sent sid (ReplyError rid k v) (socketOpen d sid)) d)" by (rule goes_on_logged) (simp add: truly_def)
  from goes_on_trans [OF this 8] show ?case by simp
next
  case (9 en sid n v es d)
  have "goes_on d (logged (Sent sid (Event n v) (socketOpen d sid)) d)" by (rule goes_on_logged) (simp add: truly_def)
  from goes_on_trans [OF this 9] show ?case by simp
next
  case (10 en sid rid n v es d)
  have "goes_on d (logged (Sent sid (SendRequest rid n v) (socketOpen d sid)) d)" by (rule goes_on_logged) (simp add: truly_def)
  from goes_on_trans [OF this 10] show ?case by simp
qed simp

section \<open>Every event\<close>

lemma goes_on_runCallback: "goes_on d (runCallback en p ok v err d)"
proof (cases "sessionAt d (hp_session p)")
  case (Some s)
  have "goes_on d (setSession (hp_session p) (fst (resume en (hp_cont p) ok v err s)) d)"
    by (rule goes_on_set [OF Some]) (simp add: resume_connected)
  from goes_on_trans [OF this goes_on_perform] Some show ?thesis by (simp add: runCallback_def split_beta)
qed (simp add: runCallback_def)

lemma goes_on_resolve: "goes_on d (resolve_pending en ok v err rid d)"
  using goes_on_trans [OF goes_on_runCallback goes_on_frame(2)] by (simp add: resolve_pending_def split: option.split)

lemma goes_on_dispatch:
  assumes "distinct (map fst (dm_sessions d))"
  shows "goes_on d (handleClientRpcDispatch en ob d)"
proof -
  have refuse: "goes_on d (logged (Answered c y (dm_hostUp d)) d)" for c y by (rule goes_on_logged) (simp add: truly_def)
  show ?thesis
  proof (cases "sessionForClientId d (strOf ob ''client_id'')")
    case None
    then show ?thesis using refuse by (simp add: handleClientRpcDispatch_def Let_def)
  next
    case (Some x)
    obtain i s where x: "x = (i, s)" by fastforce
    let ?d = "d\<lparr>dm_drawn := dm_drawn d + 1\<rparr>"
    have at: "sessionAt ?d i = Some s" using sessionForClientId_at [OF assms] Some x by (simp add: sessionAt_def)
    have "goes_on d (perform en i es (setSession i (fst (sendClientRequest en rid op args c t s)) ?d))" for es rid op args c t
      by (rule goes_on_trans [OF goes_on_frame(3) goes_on_trans [OF goes_on_set [OF at] goes_on_perform]]) (simp add: send_connected)
    then show ?thesis using Some x refuse by (simp add: handleClientRpcDispatch_def Let_def split_beta)
  qed
qed

lemma goes_on_hostFrame:
  assumes "distinct (map fst (dm_sessions d))"
  shows "goes_on d (handleFrame en ob d)"
proof -
  have "goes_on d (broadcast en name args d)" for name args
    unfolding broadcast_def by (rule goes_on_fold) (simp add: split_beta goes_on_perform)
  then show ?thesis using goes_on_dispatch [OF assms] goes_on_resolve by (simp add: handleFrame_def Let_def)
qed

lemma goes_on_frameOf: "goes_on d (onFrame en sid bytes doc d)"
proof (cases "sessionAt d sid")
  case (Some s)
  let ?r = "onTextMessageReceived (here en d) bytes doc (dm_auth d, s)"
  have at: "sessionAt (d\<lparr>dm_auth := fst (fst ?r)\<rparr>) sid = Some s" using Some by (simp add: sessionAt_def)
  have "goes_on (d\<lparr>dm_auth := fst (fst ?r)\<rparr>) (setSession sid (snd (fst ?r)) (d\<lparr>dm_auth := fst (fst ?r)\<rparr>))"
    by (rule goes_on_set [OF at]) (simp add: frame_connected)
  from goes_on_trans [OF goes_on_frame(4) goes_on_trans [OF this goes_on_perform]] Some show ?thesis
    by (simp add: onFrame_def split_beta)
qed (simp add: onFrame_def)

lemma goes_on_tick: "goes_on d (onClientTick now sid d)"
proof (cases "sessionAt d sid")
  case (Some s)
  let ?d = "d\<lparr>dm_out := dm_out d @ callbacksRun (dm_hostUp d) (snd (onClientRpcTimeoutSweep now s))\<rparr>"
  have "sessionAt ?d sid = Some s" using Some by (simp add: sessionAt_def)
  then have "goes_on ?d (setSession sid (fst (onClientRpcTimeoutSweep now s)) ?d)"
    by (rule goes_on_set) (simp add: onClientRpcTimeoutSweep_def)
  from goes_on_trans [OF goes_on_callbacks this] Some show ?thesis by (simp add: onClientTick_def split_beta)
qed (simp add: onClientTick_def)

lemma goes_on_left: "goes_on d (onSocketDisconnected sid d)"
proof (cases "sessionAt d sid")
  case (Some s)
  let ?xs = "callbacksRun (dm_hostUp d) (snd (drainPendingClientRequests ''session_closed'' ''WebSocket disconnected'' s))"
  have "list_all (truly (d\<lparr>dm_out := dm_out d @ ?xs, dm_sessions := AList.delete sid (dm_sessions d)\<rparr>)) ?xs"
    using callbacks_truly [of "d\<lparr>dm_out := dm_out d @ ?xs, dm_sessions := AList.delete sid (dm_sessions d)\<rparr>"] by simp
  then show ?thesis using Some
    by (auto simp: onSocketDisconnected_def goes_on_def socketOpen_def sessionAt_def AList.delete_conv' split: if_splits)
qed (simp add: onSocketDisconnected_def)

lemma goes_on_closed: "goes_on d (closeServer d)"
proof -
  have "list_all (truly d') (concat (map (\<lambda>(i, s). callbacksRun (dm_hostUp d') (f s)) ss))" for d' f ss
    using callbacks_truly by (induction ss) auto
  from this [of "closeServer d"] show ?thesis
    by (auto simp: closeServer_def goes_on_def socketOpen_def sessionAt_def)
qed

lemma goes_on_down: "goes_on (d\<lparr>dm_hostUp := False\<rparr>) (onHostDisconnected en d)"
  unfolding onHostDisconnected_def by (rule goes_on_trans [OF goes_on_fold [OF goes_on_runCallback] goes_on_frame(5)])

section \<open>Answers to the host while it is connected\<close>

fun is_loss :: "daemon_event \<Rightarrow> bool" where
  "is_loss (HostDown _) = True"
| "is_loss _ = False"

definition delivered :: "string \<Rightarrow> wire_daemon \<Rightarrow> nat" where
  "delivered c d = (\<Sum>x \<leftarrow> dm_out d. case x of Answered y _ True \<Rightarrow> if y = c then 1 else 0 | _ \<Rightarrow> 0)"

definition dropped :: "string \<Rightarrow> wire_daemon \<Rightarrow> nat" where
  "dropped c d = (\<Sum>x \<leftarrow> dm_out d. case x of Answered y _ False \<Rightarrow> if y = c then 1 else 0 | _ \<Rightarrow> 0)"

lemma completed_split: "completed c d = delivered c d + dropped c d"
proof -
  have "(\<Sum>x \<leftarrow> xs. ran_of c x) = (\<Sum>x \<leftarrow> xs. case x of Answered y _ True \<Rightarrow> if y = c then 1 else 0 | _ \<Rightarrow> 0) +
      (\<Sum>x \<leftarrow> xs. case x of Answered y _ False \<Rightarrow> if y = c then 1 else 0 | _ \<Rightarrow> 0)" for xs
    by (induction xs) (auto split: daemon_out.split bool.split)
  then show ?thesis by (simp add: completed_def delivered_def dropped_def)
qed

lemma goes_on_drops: "goes_on d d' \<Longrightarrow> dm_hostUp d \<Longrightarrow> dropped c d' = dropped c d"
proof -
  assume "goes_on d d'" "dm_hostUp d"
  then obtain xs where xs: "dm_out d' = dm_out d @ xs" "list_all (truly d') xs" "dm_hostUp d'" by (auto simp: goes_on_def)
  have "list_all (truly d') xs \<Longrightarrow> (\<Sum>x \<leftarrow> xs. case x of Answered y _ False \<Rightarrow> if y = c then 1 else 0 | _ \<Rightarrow> (0 :: nat)) = 0" for xs
    using xs(3) by (induction xs) (auto simp: truly_def split: daemon_out.splits bool.split)
  from this [OF xs(2)] show ?thesis using xs(1) by (simp add: dropped_def)
qed

lemma step_drops_nothing:
  assumes "rpc_inv u d" "dm_hostUp d" "\<not> is_loss e"
  shows "dropped c (daemon_step d e) = dropped c d \<and> dm_hostUp (daemon_step d e)"
proof -
  have dist: "distinct (map fst (dm_sessions d))" using assms(1) by (simp add: rpc_inv_def distinct_sessions_def)
  have on: "?thesis" if "goes_on d (daemon_step d e)"
    using goes_on_drops [OF that assms(2)] that assms(2) by (simp add: goes_on_def)
  show ?thesis
  proof (cases e)
    case (Connected en)
    let ?d = "d\<lparr>dm_sessions := dm_sessions d @ [(dm_next d, fresh_session)], dm_next := dm_next d + 1\<rparr>"
    have "goes_on ?d (daemon_step d e)" by (simp add: Connected onNewConnection_def goes_on_perform)
    from goes_on_drops [OF this, of c] this assms(2) show ?thesis by (simp add: goes_on_def dropped_def)
  next
    case HostUp
    then show ?thesis by (simp add: dropped_def)
  next
    case (ServerClosed)
    then show ?thesis using on by (simp add: goes_on_closed)
  next
    case (ClientFrame en sid bytes doc)
    then show ?thesis using on by (simp add: goes_on_frameOf)
  next
    case (SocketClosed sid)
    then show ?thesis using on by (simp add: goes_on_left)
  next
    case (ClientTick now sid)
    then show ?thesis using on by (simp add: goes_on_tick)
  next
    case (FromHost en ob)
    then show ?thesis using on by (simp add: goes_on_hostFrame [OF dist])
  next
    case (HostTick en)
    then show ?thesis using on by (simp add: onTimeoutSweep_def goes_on_fold goes_on_resolve)
  qed (use assms(3) in simp)
qed

lemma run_drops_nothing:
  assumes "inj u"
  shows "list_all (draws_from u) es \<Longrightarrow> rpc_inv u d \<Longrightarrow> dm_hostUp d \<Longrightarrow> list_all (\<lambda>e. \<not> is_loss e) es \<Longrightarrow>
     dropped c (foldl daemon_step d es) = dropped c d"
proof (induction es arbitrary: d)
  case (Cons e es)
  then show ?case
    using Cons.IH [of "daemon_step d e"] step_drops_nothing [of u d e c] step_rpc [OF assms, of e d] by simp
qed simp

section \<open>Frames to the clients\<close>

fun written_to :: "nat \<Rightarrow> string \<Rightarrow> daemon_out \<Rightarrow> nat" where
  "written_to sid r (Sent i e True) = (if i = sid then due r e else 0)"
| "written_to sid r _ = 0"

definition written :: "wire_daemon \<Rightarrow> nat \<Rightarrow> string \<Rightarrow> nat" where
  "written d sid r = (\<Sum>x \<leftarrow> dm_out d. written_to sid r x)"

fun while_open :: "wire_daemon \<Rightarrow> daemon_out \<Rightarrow> bool" where
  "while_open d (Sent i _ b) \<longleftrightarrow> b \<or> \<not> socketOpen d i"
| "while_open d _ \<longleftrightarrow> True"

lemma while_open_up [simp]: "while_open (d\<lparr>dm_hostUp := b\<rparr>) = while_open d"
proof
  show "while_open (d\<lparr>dm_hostUp := b\<rparr>) x = while_open d x" for x by (cases x) simp_all
qed

definition sockets_ok :: "wire_daemon \<Rightarrow> bool" where
  "sockets_ok d \<longleftrightarrow> list_all (while_open d) (dm_out d)"

lemma goes_on_sockets: "goes_on d d' \<Longrightarrow> sockets_ok d \<Longrightarrow> sockets_ok d'"
proof -
  assume a: "goes_on d d'" "sockets_ok d"
  then obtain xs where xs: "dm_out d' = dm_out d @ xs" "list_all (truly d') xs" "\<And>i. socketOpen d' i \<Longrightarrow> socketOpen d i"
    by (auto simp: goes_on_def)
  have "truly d' x \<Longrightarrow> while_open d' x" for x by (cases x) (simp_all add: truly_def)
  moreover have "while_open d x \<Longrightarrow> while_open d' x" for x using xs(3) by (cases x) auto
  ultimately show "sockets_ok d'" using a(2) xs(1,2) unfolding sockets_ok_def by (auto simp: list_all_iff)
qed

lemma step_sockets:
  assumes "remote_inv u d" "sockets_ok d"
  shows "sockets_ok (daemon_step d e)"
proof -
  have dist: "distinct (map fst (dm_sessions d))" and below: "list_all (sent_below (dm_next d)) (dm_out d)"
    using assms(1) by (simp_all add: remote_inv_def rpc_inv_def distinct_sessions_def daemon_inv_def)
  note on = goes_on_sockets [OF _ assms(2)]
  show ?thesis
  proof (cases e)
    case (Connected en)
    let ?d = "d\<lparr>dm_sessions := dm_sessions d @ [(dm_next d, fresh_session)], dm_next := dm_next d + 1\<rparr>"
    have old: "socketOpen ?d i \<Longrightarrow> i < dm_next d \<Longrightarrow> socketOpen d i" for i
      by (auto simp: socketOpen_def sessionAt_def map_add_def split: option.splits)
    have "while_open d x \<Longrightarrow> sent_below (dm_next d) x \<Longrightarrow> while_open ?d x" for x using old by (cases x) auto
    then have "sockets_ok ?d" using assms(2) below by (simp add: sockets_ok_def list_all_iff)
    from goes_on_sockets [OF goes_on_perform this] show ?thesis by (simp add: Connected onNewConnection_def)
  next
    case (HostDown en)
    have "sockets_ok (d\<lparr>dm_hostUp := False\<rparr>)" using assms(2) by (simp add: sockets_ok_def)
    from goes_on_sockets [OF goes_on_down this] show ?thesis by (simp add: HostDown)
  next
    case HostUp
    then show ?thesis using assms(2) by (simp add: sockets_ok_def)
  next
    case (HostTick en)
    then show ?thesis using on by (simp add: onTimeoutSweep_def goes_on_fold goes_on_resolve)
  qed (simp_all add: on goes_on_closed goes_on_frameOf goes_on_left goes_on_tick goes_on_hostFrame [OF dist])
qed

interpretation sockets: invariant_machine
  "\<lambda>d. \<exists>a. d = new_daemon a" "\<lambda>_ e. inj u \<and> steady u e" daemon_step "\<lambda>d. remote_inv u d \<and> sockets_ok d" for u
  using new_remote_inv step_remote_inv step_sockets
  by unfold_locales (auto simp: sockets_ok_def new_daemon_def)

text \<open>On a socket that is open, everything sent was written.\<close>

lemma open_written:
  assumes "inj u" "list_all (steady u) es" "socketOpen (foldl daemon_step (new_daemon a) es) sid"
  shows "written (foldl daemon_step (new_daemon a) es) sid r = answered (foldl daemon_step (new_daemon a) es) sid r"
proof -
  have "sockets_ok (foldl daemon_step (new_daemon a) es)"
    using sockets.reachable_inv [of "new_daemon a" u es] assms(1,2) by (auto simp: admitted_all list_all_iff)
  moreover have "list_all (while_open d) xs \<Longrightarrow> socketOpen d sid \<Longrightarrow>
      (\<Sum>x \<leftarrow> xs. written_to sid r x) = (\<Sum>x \<leftarrow> xs. answer_of sid r x)" for d xs
  proof (induction xs)
    case (Cons x xs)
    then show ?case by (cases "(sid, r, x)" rule: written_to.cases) auto
  qed simp
  ultimately show ?thesis using assms(3) by (simp add: written_def answered_def sockets_ok_def)
qed

end
