(* ===== verification/Wire_Demo.thy ===== *)
theory Wire_Demo
  imports Wire_Writing
begin

text \<open>A small history of the daemon, on which the theorems about it are exercised.\<close>

definition demo_u :: "nat \<Rightarrow> string" where
  "demo_u n = replicate n CHR ''u''"

lemma inj_demo_u: "inj demo_u"
  by (rule injI) (auto simp: demo_u_def dest: arg_cong [of _ _ length])

definition demo_wire_db :: wire_db where
  "demo_wire_db = \<lparr>db_isOpen = False, db_listConversations = [], db_conversationById = (\<lambda>_. []),
     db_messagesForConversation = (\<lambda>_. []), db_messageById = (\<lambda>_. []), db_conversationSettings = (\<lambda>_. []),
     db_listAllFolders = [], db_plansForConversation = (\<lambda>_. []), db_planById = (\<lambda>_. []), db_planIdForStep = (\<lambda>_. []),
     db_toolCallsForConversation = (\<lambda>_. []), db_toolCallsForMessage = (\<lambda>_. []), db_toolCallsForTurn = (\<lambda>_ _. []),
     db_toolCallById = (\<lambda>_. []), db_attachmentsForMessage = (\<lambda>_. []), db_attachmentBytes = (\<lambda>_. []),
     db_artifactsForConversation = (\<lambda>_. []), db_artifactBytes = (\<lambda>_ _. []), db_canvasArtifactById = (\<lambda>_. []),
     db_heartbeatConfigById = (\<lambda>_. [])\<rparr>"

definition demo_wire_env :: "int \<Rightarrow> wire_env" where
  "demo_wire_env now = \<lparr>en_now = now, en_hostUp = False, en_uuid = demo_u, en_token = ''token'', en_clientId = ''phone'',
     en_hash = (\<lambda>t. ''#'' @ t), en_db = demo_wire_db, en_stage = (\<lambda>name b. ''/stage/'' @ name), en_fileExists = (\<lambda>_. False),
     en_fileSize = (\<lambda>_. 0), en_readMedia = (\<lambda>_. []),
     en_erased = (\<lambda>k _ _. Some k)\<rparr>"

definition demo_store :: wire_auth where
  "demo_store = \<lparr>wa_up = True,
     wa_codes = [\<lparr>pc_code = ''100008'', pc_expiresAt = 300000, pc_createdAt = 0\<rparr>], wa_clients = []\<rparr>"

definition demo_ask :: "int \<Rightarrow> nat \<Rightarrow> string \<Rightarrow> string \<Rightarrow> json_object \<Rightarrow> daemon_event" where
  "demo_ask now sid rid op P = ClientFrame (demo_wire_env now) sid 100 (Some (JObj
     [(''op'', JStr op), (''request_id'', JStr rid), (''params'', JObj P)]))"

text \<open>A client pairs, stops the generation, and asks for the list of tools.\<close>

definition demo_requests :: "daemon_event list" where
  "demo_requests =
    [Connected (demo_wire_env 0), HostUp,
     demo_ask 10 0 ''r1'' ''auth.pair'' [(''code'', JStr ''100008''), (''client_name'', JStr ''Ana'')],
     demo_ask 20 0 ''r2'' ''msg.stop'' [],
     demo_ask 30 0 ''r3'' ''tool.list'' []]"

text \<open>Then the host asks the client for something, and the client answers.\<close>

definition demo_exchange :: "daemon_event list" where
  "demo_exchange = demo_requests @
    [FromHost (demo_wire_env 40) [(''type'', JStr ''client_rpc_dispatch''), (''request_id'', JStr ''h1''),
       (''client_id'', JStr ''phone''), (''op'', JStr ''vfs.read'')],
     FromHost (demo_wire_env 50) [(''type'', JStr ''client_rpc_dispatch''), (''request_id'', JStr ''h2''),
       (''client_id'', JStr ''phone''), (''op'', JStr ''vfs.read'')],
     ClientFrame (demo_wire_env 60) 0 100 (Some (JObj
       [(''type'', JStr ''client_response''), (''request_id'', JStr ''u''), (''ok'', JBool True)]))]"

lemma demo_steady: "list_all (steady demo_u) demo_requests" "list_all (steady demo_u) demo_exchange"
  by (simp_all add: demo_requests_def demo_exchange_def demo_ask_def steady_def draws_from_def keeps_iterators_def demo_wire_env_def)

lemmas demo_draws = demo_steady [THEN steady_draws]

definition demo_after :: wire_daemon where
  "demo_after = foldl daemon_step (new_daemon demo_store) demo_requests"

lemma demo_after_view:
  "map (\<lambda>r. answered demo_after 0 r) [''r1'', ''r2'', ''r3''] = [1, 1, 0]"
  "map (\<lambda>r. owed demo_after 0 r) [''r1'', ''r2'', ''r3''] = [0, 0, 1]"
  "socketOpen demo_after 0"
  by code_simp+

end
