(* ===== verification/Wire_Outcomes.thy ===== *)
theory Wire_Outcomes
  imports Wire_Demo
begin

text \<open>
  What the remote server promises: to its clients an answer for every request it accepts, to the host one
  answer for every request it passes on, calls only in the name of a paired client, bounded tables, and
  conversation events only to who follows the conversation. The last section shows where the code does less.
\<close>

section \<open>Requests of the clients\<close>

lemma new_balance:
  assumes "inj u" "list_all (steady u) es" "socketOpen (foldl daemon_step (new_daemon a) es) sid"
  shows "written (foldl daemon_step (new_daemon a) es) sid r + owed (foldl daemon_step (new_daemon a) es) sid r
           = requested sid r (new_daemon a) es"
proof -
  have "\<not> alive (new_daemon a) sid" by (simp add: alive_def sessionAt_def new_daemon_def)
  moreover have "alive (foldl daemon_step (new_daemon a) es) sid"
    using assms(3) by (simp add: alive_def socketOpen_def split: option.splits)
  ultimately show ?thesis using history_balance [OF assms(1,2) new_remote_inv, of a sid r] open_written [OF assms, of r]
    by (simp add: balance_def)
qed

text \<open>
  C2. Every request that a session of a client accepts is answered exactly once or still awaited exactly
  once. Over any history of connections, frames, answers and losses of the host, timeouts and hang-ups,
  the answers written to the socket of a session that is open and the answers still owed to it are, for each
  request id, as many as the requests accepted from it under that id, provided that the hash table of the
  pending calls is not reallocated while a callback that asks the host again runs; where it is, the code
  loses and repeats answers (lemma \<open>moved_table_loses_and_repeats\<close>).
\<close>

theorem requests_answered_once:
  assumes "inj u" "list_all (steady u) es" "socketOpen (foldl daemon_step (new_daemon a) es) sid"
  shows "written (foldl daemon_step (new_daemon a) es) sid r + owed (foldl daemon_step (new_daemon a) es) sid r
           = requested sid r (new_daemon a) es"
  using assms by (rule new_balance)

theorem requests_answered_once_witness:
  "written demo_after 0 ''r3'' + owed demo_after 0 ''r3'' = requested 0 ''r3'' (new_daemon demo_store) demo_requests \<and>
   answered demo_after 0 ''r2'' = 1 \<and> owed demo_after 0 ''r3'' = 1"
  using requests_answered_once [OF inj_demo_u demo_steady(1), of demo_store 0 "''r3''"] demo_after_view
  by (simp add: demo_after_def)

text \<open>
  C10. When the connection to the host is lost, nobody is left waiting: every request that a session with an
  open socket ever accepted has then been answered, each exactly once, under the same proviso: the hash table
  of the pending calls was not reallocated while a callback that asks the host again ran.
\<close>

theorem host_loss_answers_everyone:
  assumes "inj u" "list_all (steady u) (es @ [HostDown en])"
    and "socketOpen (foldl daemon_step (new_daemon a) (es @ [HostDown en])) sid"
  shows "written (foldl daemon_step (new_daemon a) (es @ [HostDown en])) sid r
           = requested sid r (new_daemon a) (es @ [HostDown en])"
proof -
  let ?d = "foldl daemon_step (new_daemon a) (es @ [HostDown en])"
  have "dm_pending ?d = []" by (simp add: onHostDisconnected_def)
  then have none: "awaited ?d sid = []" by (simp add: awaited_def)
  obtain s where s: "sessionAt ?d sid = Some s" using assms(3) by (auto simp: socketOpen_def split: option.splits)
  have "daemon_inv u ?d" using run_remote_inv [OF assms(1,2) new_remote_inv, of a] by (simp add: remote_inv_def)
  from inv_session [OF this s] none have "cat_ok s []" by simp
  then have "owed ?d sid r = 0" using s none no_waiting_no_open [of s r] unfolding owed_def by simp
  with new_balance [OF assms, of r] show ?thesis by linarith
qed

lemma demo_loss:
  "written (foldl daemon_step (new_daemon demo_store) (demo_requests @ [HostDown (demo_wire_env 40)])) 0 ''r3'' = 1"
  "socketOpen (foldl daemon_step (new_daemon demo_store) (demo_requests @ [HostDown (demo_wire_env 40)])) 0"
  by code_simp+

theorem host_loss_answers_everyone_witness:
  "requested 0 ''r3'' (new_daemon demo_store) (demo_requests @ [HostDown (demo_wire_env 40)]) = 1"
proof -
  have "list_all (steady demo_u) (demo_requests @ [HostDown (demo_wire_env 40)])"
    using demo_steady(1) by (simp add: steady_def draws_from_def keeps_iterators_def demo_wire_env_def)
  from host_loss_answers_everyone [OF inj_demo_u this demo_loss(2), of "''r3''"] demo_loss(1) show ?thesis by simp
qed

text \<open>
  Where the table is reallocated: a client asks for the active model, which takes two calls of the host, and
  for the tools. The answer to the first call makes its callback add the second call; the table moves, and the
  iterator found before erases the call for the tools. When the host is lost, the first request is answered
  twice and the second never.
\<close>

definition demo_moved :: "daemon_event list" where
  "demo_moved =
    [Connected (demo_wire_env 0), HostUp,
     demo_ask 10 0 ''r1'' ''auth.pair'' [(''code'', JStr ''100008''), (''client_name'', JStr ''Ana'')],
     demo_ask 20 0 ''r2'' ''models.active'' [], demo_ask 30 0 ''r3'' ''tool.list'' [],
     FromHost ((demo_wire_env 40)\<lparr>en_erased := (\<lambda>_ _ _. Some ''u'')\<rparr>)
       [(''type'', JStr ''invoke_response''), (''request_id'', JStr []), (''ok'', JBool True), (''data'', JStr ''p'')],
     HostDown (demo_wire_env 50)]"

lemma moved_table_loses_and_repeats:
  "map (\<lambda>r. written (foldl daemon_step (new_daemon demo_store) demo_moved) 0 r) [''r2'', ''r3''] = [2, 0]"
  "map (\<lambda>r. owed (foldl daemon_step (new_daemon demo_store) demo_moved) 0 r) [''r2'', ''r3''] = [0, 0]"
  "map (\<lambda>r. requested 0 r (new_daemon demo_store) demo_moved) [''r2'', ''r3''] = [1, 1]"
  by code_simp+

section \<open>Requests of the host\<close>

text \<open>From a moment at which the host is connected on, as long as it stays connected.\<close>

lemma linked_rpc:
  assumes "inj u" "list_all (draws_from u) es0" "list_all (draws_from u) es" "list_all (\<lambda>e. \<not> is_loss e) es"
    and d: "d = foldl daemon_step (new_daemon a) (es0 @ [HostUp])"
  shows "delivered c (foldl daemon_step d es) + waiting c (foldl daemon_step d es)
           = delivered c d + waiting c d + (\<Sum>e \<leftarrow> es. dispatched c e)"
proof -
  have "rpc_inv u (foldl daemon_step (new_daemon a) es0)"
    using run_rpc_inv [OF assms(1,2)] new_remote_inv by (simp add: remote_inv_def)
  then have "rpc_inv u d" "dm_hostUp d" by (simp_all add: d)
  from history_rpc [OF assms(1,3) this(1), of c] run_drops_nothing [OF assms(1,3) this assms(4), of c]
  show ?thesis by (simp add: rpc_def completed_split)
qed

text \<open>
  C7. Every request the host passes on for a client has its answer written to the host exactly once or is held
  by exactly one session: from any moment at which the host is connected, over any history in which the
  connection is not lost, for each request id, the answers written and the requests still held grow by as
  much as the requests that arrive under the id, whatever clients connect, answer, time out or leave. An
  answer that comes after the connection is lost is dropped.
\<close>

theorem host_requests_answered_once:
  assumes "inj u" "list_all (draws_from u) es0" "list_all (draws_from u) es" "list_all (\<lambda>e. \<not> is_loss e) es"
    and "d = foldl daemon_step (new_daemon a) (es0 @ [HostUp])"
  shows "delivered c (foldl daemon_step d es) + waiting c (foldl daemon_step d es)
           = delivered c d + waiting c d + (\<Sum>e \<leftarrow> es. dispatched c e)"
  using assms by (rule linked_rpc)

definition demo_linked :: wire_daemon where
  "demo_linked = foldl daemon_step (new_daemon demo_store) ([Connected (demo_wire_env 0)] @ [HostUp])"

lemma demo_exchange_view:
  "delivered ''h1'' (foldl daemon_step demo_linked (drop 2 demo_exchange)) = 1"
  "waiting ''h2'' (foldl daemon_step demo_linked (drop 2 demo_exchange)) = 1"
  "map (\<lambda>c. delivered c demo_linked + waiting c demo_linked) [''h1'', ''h2''] = [0, 0]"
  "list_all (\<lambda>e. \<not> is_loss e) (drop 2 demo_exchange)"
  by code_simp+

lemma demo_link_draws:
  "list_all (draws_from demo_u) [Connected (demo_wire_env 0)]" "list_all (draws_from demo_u) (drop 2 demo_exchange)"
  by (simp_all add: demo_exchange_def demo_requests_def demo_ask_def draws_from_def demo_wire_env_def)

theorem host_requests_answered_once_witness:
  "(\<Sum>e \<leftarrow> drop 2 demo_exchange. dispatched ''h1'' e) = 1 \<and>
   delivered ''h1'' (foldl daemon_step demo_linked (drop 2 demo_exchange)) = 1"
proof -
  have "(\<Sum>e \<leftarrow> drop 2 demo_exchange. dispatched ''h1'' e) = 1" by code_simp
  moreover have "waiting ''h1'' (foldl daemon_step demo_linked (drop 2 demo_exchange)) = 0" by code_simp
  ultimately show ?thesis
    using host_requests_answered_once [OF inj_demo_u demo_link_draws demo_exchange_view(4) demo_linked_def, of "''h1''"]
      demo_exchange_view(3) by simp
qed

text \<open>
  Once the server is closed while the host is connected, every request of the host has its answer written.
\<close>

theorem closing_answers_the_host:
  assumes "inj u" "list_all (draws_from u) es0" "list_all (draws_from u) es" "list_all (\<lambda>e. \<not> is_loss e) es"
    and "d = foldl daemon_step (new_daemon a) (es0 @ [HostUp])"
  shows "delivered c (foldl daemon_step d (es @ [ServerClosed])) = delivered c d + waiting c d + (\<Sum>e \<leftarrow> es. dispatched c e)"
proof -
  have "list_all (draws_from u) (es @ [ServerClosed])" "list_all (\<lambda>e. \<not> is_loss e) (es @ [ServerClosed])"
    using assms(3,4) by (simp_all add: draws_from_def)
  from linked_rpc [OF assms(1,2) this assms(5), of c] show ?thesis by (simp add: closeServer_def waiting_def)
qed

theorem closing_answers_the_host_witness:
  "delivered ''h2'' (foldl daemon_step demo_linked (drop 2 demo_exchange @ [ServerClosed])) = 1"
proof -
  have "(\<Sum>e \<leftarrow> drop 2 demo_exchange. dispatched ''h2'' e) = 1" by code_simp
  with closing_answers_the_host [OF inj_demo_u demo_link_draws demo_exchange_view(4) demo_linked_def, of "''h2''"]
    demo_exchange_view(3) show ?thesis by simp
qed

section \<open>In whose name\<close>

text \<open>
  C5. The host is never called in the name of someone who has not paired: over any history, every call
  the daemon writes to the host, awaited or not, carries the id of a client of the store, and none the
  empty id of a connection that presented neither a pairing code nor a token.
\<close>

theorem calls_only_for_paired_clients:
  assumes "inj u" "list_all (draws_from u) es" "[] \<notin> cr_id ` set (wa_clients a)"
  shows "list_all (named_out (cr_id ` set (wa_clients (dm_auth (foldl daemon_step (new_daemon a) es))) - {[]}))
           (dm_out (foldl daemon_step (new_daemon a) es))"
proof -
  have "named (new_daemon a)" using assms(3) by (simp add: named_def names_def new_daemon_def clients_ok_def paired_def)
  moreover have "rpc_inv u (new_daemon a)" using new_remote_inv by (simp add: remote_inv_def)
  ultimately have "named (foldl daemon_step (new_daemon a) es)" using run_named [OF assms(1,2)] by blast
  then show ?thesis
    by (simp add: named_def clients_ok_def paired_def)
qed

theorem calls_only_for_paired_clients_witness:
  "list_all (named_out (cr_id ` set (wa_clients (dm_auth demo_after)) - {[]})) (dm_out demo_after) \<and>
   list_ex (\<lambda>x. case x of Fired c _ _ _ \<Rightarrow> c = ''phone'' | _ \<Rightarrow> False) (dm_out demo_after)"
proof -
  have "list_ex (\<lambda>x. case x of Fired c _ _ _ \<Rightarrow> c = ''phone'' | _ \<Rightarrow> False) (dm_out demo_after)" by code_simp
  then show ?thesis
    using calls_only_for_paired_clients [OF inj_demo_u demo_draws(1), of demo_store]
    unfolding demo_after_def by (simp add: demo_store_def)
qed

section \<open>Limits\<close>

text \<open>
  C23. A client never makes more than 200 operations pass in any second: whatever the times at which its
  frames arrive, at most 200 of those let through lie in the second up to any moment.
\<close>

theorem ops_per_second_bounded:
  assumes "sorted ts"
  shows "length (filter (\<lambda>x. t - 1000 \<le> x \<and> x \<le> t) (let_through ts fresh_session)) \<le> 200"
proof (cases ts)
  case (Cons m rest)
  have "recent_ok m [] fresh_session" by (simp add: recent_ok_def fresh_session_def inSecond_def)
  from let_through_bounded [OF this assms, of t] Cons assms show ?thesis
    by (simp add: inSecond_def kMaxOpsPerSecond_def)
qed simp

theorem ops_per_second_bounded_witness:
  "length (filter (\<lambda>x. 0 \<le> x \<and> x \<le> 1000) (let_through (replicate 300 500 @ [1501]) fresh_session)) \<le> 200"
  using ops_per_second_bounded [of "replicate 300 500 @ [1501]" 1000] by (simp add: sorted_append)

text \<open>
  C25. No session outgrows its limits, in any history: at most 200 times of operations and 500 of requests
  remembered, 256 requests of the host waiting, and 256 different conversations followed.
\<close>

theorem sessions_stay_within_limits:
  assumes "sessionAt (foldl daemon_step (new_daemon a) es) sid = Some s"
  shows "within_limits s"
  using assms by (rule small.everywhere)

theorem sessions_stay_within_limits_witness:
  "case sessionAt demo_after 0 of Some s \<Rightarrow> within_limits s | None \<Rightarrow> False"
  using sessions_stay_within_limits [of demo_store demo_requests 0] demo_after_view(3)
  by (auto simp: demo_after_def socketOpen_def split: option.splits)

section \<open>Events\<close>

definition followedSignals :: "string list" where
  "followedSignals =
    [''MessageService.messageAdded'', ''MessageService.messageUpdated'', ''MessageService.messageContentRewritten'',
     ''MessageService.messageDeleted'', ''MessageService.messageStreamingStarted'', ''MessageService.messageContentStreamed'',
     ''MessageService.messageStreamingAborted'', ''MessageService.contextFillMeasured'',
     ''MessageService.toolCallAdded'', ''MessageService.toolCallUpdated'', ''ImageService.imageGenerated'',
     ''AudioService.audioGenerated'', ''CanvasService.canvasOpened'', ''CanvasService.canvasUpdated'',
     ''CanvasService.canvasClosed'']"

text \<open>
  C21. The stored messages of a conversation, their streams, tool calls, media and canvas reach exactly the
  sessions that follow it: each of the fifteen signals of the list is forwarded to an authenticated session
  that subscribed to the conversation, and to no other. Signals outside the list, such as mentions, polls
  and the requests of tool calls, go to every authenticated session.
\<close>

theorem conversation_events_need_subscription:
  assumes "name \<in> set followedSignals"
  shows "onHostSignal en name args s \<noteq> [] \<longleftrightarrow>
           isAuthenticated s \<and> strOf args ''conv_id'' \<in> set (ws_subscribedConvIds s)"
proof -
  have "list_all (\<lambda>n. case map_of completedSignals n of
         Some h \<Rightarrow> (h en s args \<noteq> []) = (strOf args ''conv_id'' \<in> set (ws_subscribedConvIds s))
       | None \<Rightarrow> map_of conversationSignals n \<noteq> None) followedSignals"
    by (simp add: followedSignals_def completedSignals_def conversationSignals_def withMessageEnrich_def
        withToolCallEnrich_def canvasChanged_def Let_def)
  with assms show ?thesis
    by (auto simp: list_all_iff onHostSignal_def withConvFilter_def split: option.splits)
qed

theorem conversation_events_need_subscription_witness:
  "onHostSignal (demo_wire_env 0) ''MessageService.messageDeleted'' [(''conv_id'', JStr ''k'')]
     (fresh_session\<lparr>ws_clientId := ''phone'', ws_subscribedConvIds := [''k'']\<rparr>) \<noteq> [] \<and>
   onHostSignal (demo_wire_env 0) ''MessageService.messageDeleted'' [(''conv_id'', JStr ''j'')]
     (fresh_session\<lparr>ws_clientId := ''phone'', ws_subscribedConvIds := [''k'']\<rparr>) = []"
proof -
  have m: "''MessageService.messageDeleted'' \<in> set followedSignals" by (simp add: followedSignals_def)
  let ?s = "fresh_session\<lparr>ws_clientId := ''phone'', ws_subscribedConvIds := [''k'']\<rparr>"
  show ?thesis
    using conversation_events_need_subscription [OF m, of "demo_wire_env 0" "[(''conv_id'', JStr ''k'')]" ?s]
      conversation_events_need_subscription [OF m, of "demo_wire_env 0" "[(''conv_id'', JStr ''j'')]" ?s]
    by (simp add: isAuthenticated_def member_of_def toString_def)
qed

text \<open>
  Of what happens in a conversation, mentions, polls and the requests of tool calls go to every session with a
  client, whether it follows the conversation or not; a mention carries its text.
\<close>

definition toldToEveryone :: "string list" where
  "toldToEveryone =
    [''MessageService.userMentioned'', ''PollService.pollCreated'', ''PollService.pollUpdated'', ''PollService.pollClosed'',
     ''PollService.voteCast'', ''AgentService.toolCallRequested'', ''AgentService.toolCallCompleted'']"

lemma broadcast_to_everyone:
  assumes "name \<in> set toldToEveryone"
  shows "\<exists>evt. onHostSignal en name args s = (if isAuthenticated s then [sendEvent evt args] else [])"
proof -
  have "list_all (\<lambda>n. map_of completedSignals n = None \<and> map_of conversationSignals n = None \<and> map_of plainSignals n \<noteq> None)
      toldToEveryone"
    by (simp add: toldToEveryone_def completedSignals_def conversationSignals_def plainSignals_def)
  with assms show ?thesis by (auto simp: list_all_iff onHostSignal_def)
qed

section \<open>Where the code does less\<close>

text \<open>
  Revoking a client leaves its open session alone: nothing is sent to it and no session changes, so it goes
  on acting on the host.
\<close>

lemma revoking_closes_no_session:
  "snd (fst (opClientsRevoke en rid P (a, s))) = s \<and> CloseSocket \<notin> set (snd (opClientsRevoke en rid P (a, s)))"
  by (simp add: opClientsRevoke_def Let_def split_beta invalid_def)

definition demo_phone :: string where
  "demo_phone = replicate 32 CHR ''a''"

definition demo_as :: "string \<Rightarrow> string \<Rightarrow> daemon_event \<Rightarrow> daemon_event" where
  "demo_as token c e = (case e of ClientFrame en sid n doc \<Rightarrow> ClientFrame (en\<lparr>en_clientId := c, en_token := token\<rparr>) sid n doc | _ \<Rightarrow> e)"

definition demo_two_codes :: wire_auth where
  "demo_two_codes = demo_store\<lparr>wa_codes := wa_codes demo_store @ [\<lparr>pc_code = ''100009'', pc_expiresAt = 300000, pc_createdAt = 0\<rparr>]\<rparr>"

definition demo_revocation :: "daemon_event list" where
  "demo_revocation =
    [Connected (demo_wire_env 0), Connected (demo_wire_env 0), HostUp,
     demo_as ''t1'' demo_phone (demo_ask 10 0 ''r1'' ''auth.pair'' [(''code'', JStr ''100008''), (''client_name'', JStr ''Phone'')]),
     demo_as ''t2'' ''laptop'' (demo_ask 20 1 ''r2'' ''auth.pair'' [(''code'', JStr ''100009''), (''client_name'', JStr ''Laptop'')]),
     demo_ask 30 1 ''r3'' ''clients.revoke'' [(''client_id'', JStr demo_phone)],
     demo_ask 40 0 ''r4'' ''msg.stop'' []]"

lemma revoked_client_still_acts:
  "revoked_in (dm_auth (foldl daemon_step (new_daemon demo_two_codes) demo_revocation)) demo_phone"
  "Fired demo_phone ''ChatController'' ''stopGeneration'' [] \<in> set (dm_out (foldl daemon_step (new_daemon demo_two_codes) demo_revocation))"
  by code_simp+

text \<open>
  A client that reconnects while its old socket is still closing: the host's requests go to the old session,
  which refuses them, although the new one is connected.
\<close>

definition demo_reconnect :: "daemon_event list" where
  "demo_reconnect =
    [Connected (demo_wire_env 0), HostUp,
     demo_ask 10 0 ''r1'' ''auth.pair'' [(''code'', JStr ''100008''), (''client_name'', JStr ''Ana'')],
     Connected (demo_wire_env 20),
     demo_ask 30 1 ''r2'' ''auth.token'' [(''token'', JStr ''token'')],
     FromHost (demo_wire_env 40) [(''type'', JStr ''client_rpc_dispatch''), (''request_id'', JStr ''h1''),
       (''client_id'', JStr ''phone''), (''op'', JStr ''vfs.read'')]]"

lemma closing_session_shadows_new_one:
  "Answered ''h1'' (rpcError ''session_closed'' ''WebSocket not connected'') True
     \<in> set (dm_out (foldl daemon_step (new_daemon demo_store) demo_reconnect))"
  "(case sessionAt (foldl daemon_step (new_daemon demo_store) demo_reconnect) 1 of
      Some s \<Rightarrow> ws_connected s \<and> ws_clientId s = ''phone'' | None \<Rightarrow> False)"
  by code_simp+

text \<open>
  Some operations test for the object of the connection, not for the connection: with the host away they
  acknowledge what they then drop, a message with attachments and an approval among them.
\<close>

lemma message_acknowledged_and_dropped:
  assumes "isUuidShape (strOf P ''conv_id'')" "toArray (member_of P ''attachments'') \<noteq> []"
    "stageAll en (toArray (member_of P ''attachments'')) = Inr paths" "\<not> dm_hostUp d"
  shows "perform en sid (opMsgSendWithAttachments en s rid P) d
           = logged (Sent sid (Reply rid (JObj [(''queued'', JBool True)])) (socketOpen d sid)) d"
  using assms by (simp add: opMsgSendWithAttachments_def queued_def Let_def)

lemma approval_acknowledged_and_dropped:
  assumes "isUuidShape (strOf P ''call_id'')" "\<not> dm_hostUp d"
  shows "perform en sid (opToolCallApprove en s rid P) d = logged (Sent sid (Reply rid (JObj [(''queued'', JBool True)])) (socketOpen d sid)) d"
  using assms by (simp add: opToolCallApprove_def queued_def Let_def)

text \<open>The signal of the activity log is announced in wire-protocol.h and forwarded to nobody.\<close>

lemma activity_not_forwarded: "onHostSignal en ''AuditService.activityLogged'' args s = []"
  by (simp add: onHostSignal_def completedSignals_def conversationSignals_def plainSignals_def)

text \<open>An operation over the limit is refused without its request id, so its sender cannot match the refusal.\<close>

lemma limited_request_unanswered:
  assumes "\<not> fst (checkRateLimit (en_now en) (snd st))" "strOf ob ''type'' \<noteq> ''client_response''" "bytes \<le> kMaxWireFrameBytes"
  shows "dues r (snd (onTextMessageReceived en bytes (Some (JObj ob)) st)) = 0"
  using assms by (simp add: onTextMessageReceived_def split_beta Let_def errorEvent_def)

text \<open>Presenting another client's token on the same socket keeps the conversations followed before.\<close>

lemma new_identity_keeps_subscriptions:
  "ws_subscribedConvIds (snd (fst (opAuthToken en rid P st))) = ws_subscribedConvIds (snd st)"
  using auth_ops_tables(2) [of st en rid P] by (simp add: same_tables_def)

end
