(* ===== verification/History_Budget.thy ===== *)
theory History_Budget
  imports Chat_Records "HOL-Library.Sublist"
begin

text \<open>
  The part of a conversation that goes into a request (services/history-budgeter.cpp): the newest messages
  whose estimated tokens fit a budget. A call of tools and the results after it form one group. The text of
  a message's metadata in compact JSON is a function of the environment.
\<close>

section \<open>Estimates\<close>

datatype content_class = Prose | CodeOrJson

text \<open>The quotients by 3.0 and 2.5, rounded up.\<close>

definition estimateTokens :: "string \<Rightarrow> int" where
  "estimateTokens s = (if s = [] then 0 else (int (length s) + 2) div 3)"

definition estimateTokensOf :: "string \<Rightarrow> content_class \<Rightarrow> int" where
  "estimateTokensOf s cls =
     (if s = [] then 0 else case cls of CodeOrJson \<Rightarrow> (2 * int (length s) + 4) div 5 | Prose \<Rightarrow> (int (length s) + 2) div 3)"

definition estimateMessageTokens :: "(json_object \<Rightarrow> string) \<Rightarrow> message \<Rightarrow> int" where
  "estimateMessageTokens printJ m =
     4 + estimateTokens (msg_content m)
       + (if msg_metadata m = [] then 0 else estimateTokens (printJ (msg_metadata m)))"

section \<open>Groups\<close>

record history_group =
  hg_start :: nat
  hg_end :: nat
  hg_tokens :: int
  hg_hasUser :: bool

definition excluded :: "string \<Rightarrow> message \<Rightarrow> bool" where
  "excluded ex m \<longleftrightarrow> ex \<noteq> [] \<and> msg_id m = ex"

definition isToolRow :: "message \<Rightarrow> bool" where
  "isToolRow m \<longleftrightarrow> msg_role m = ''tool''"

definition callsTools :: "message \<Rightarrow> bool" where
  "callsTools m \<longleftrightarrow> msg_role m = ''assistant'' \<and> msg_finishReason m = ''tool_calls''"

definition tokensOf :: "(json_object \<Rightarrow> string) \<Rightarrow> string \<Rightarrow> message list \<Rightarrow> int" where
  "tokensOf printJ ex ms = (\<Sum>m \<leftarrow> filter (\<lambda>m. \<not> excluded ex m) ms. estimateMessageTokens printJ m)"

function groupsFrom :: "(json_object \<Rightarrow> string) \<Rightarrow> string \<Rightarrow> nat \<Rightarrow> message list \<Rightarrow> history_group list" where
  "groupsFrom printJ ex i [] = []"
| "groupsFrom printJ ex i (m # ms) =
     (if excluded ex m then groupsFrom printJ ex (Suc i) ms
      else if callsTools m
      then let tools = takeWhile isToolRow ms; j = Suc (i + length tools) in
        \<lparr>hg_start = i, hg_end = j, hg_tokens = estimateMessageTokens printJ m + tokensOf printJ ex tools, hg_hasUser = False\<rparr>
          # groupsFrom printJ ex j (dropWhile isToolRow ms)
      else \<lparr>hg_start = i, hg_end = Suc i, hg_tokens = estimateMessageTokens printJ m, hg_hasUser = (msg_role m = ''user'')\<rparr>
          # groupsFrom printJ ex (Suc i) ms)"
  by pat_completeness auto

termination
  by (relation "measure (\<lambda>(c, ex, i, ms). length ms)") (auto simp: less_Suc_eq_le length_dropWhile_le)

section \<open>Selection\<close>

record history_result =
  hr_messages :: "message list"
  hr_estimatedTokens :: int
  hr_totalDbRows :: nat
  hr_includedRows :: nat
  hr_droppedRows :: int
  hr_ok :: bool

definition newestUser :: "history_group list \<Rightarrow> nat option" where
  "newestUser gs = find (\<lambda>g. hg_hasUser (gs ! g)) (rev [0..<length gs])"

text \<open>From the newest group back, each one that still fits, until one does not.\<close>

fun walkBack :: "history_group list \<Rightarrow> nat \<Rightarrow> int \<Rightarrow> bool list \<Rightarrow> bool list" where
  "walkBack gs 0 remaining inc = inc"
| "walkBack gs (Suc g) remaining inc =
     (if inc ! g then walkBack gs g remaining inc
      else if hg_tokens (gs ! g) \<le> remaining then walkBack gs g (remaining - hg_tokens (gs ! g)) (inc[g := True])
      else inc)"

definition rowsOf :: "message list \<Rightarrow> string \<Rightarrow> history_group \<Rightarrow> message list" where
  "rowsOf ms ex g = filter (\<lambda>m. \<not> excluded ex m) (take (hg_end g - hg_start g) (drop (hg_start g) ms))"

definition collect :: "message list \<Rightarrow> string \<Rightarrow> history_group list \<Rightarrow> history_result" where
  "collect ms ex gs =
     (let n = sum_list (map (\<lambda>g. hg_end g - hg_start g) gs) in
      \<lparr>hr_messages = concat (map (rowsOf ms ex) gs), hr_estimatedTokens = sum_list (map hg_tokens gs),
       hr_totalDbRows = length ms, hr_includedRows = n, hr_droppedRows = int (length ms) - int n, hr_ok = True\<rparr>)"

definition nothingSelected :: "message list \<Rightarrow> bool \<Rightarrow> int \<Rightarrow> history_result" where
  "nothingSelected ms ok dropped =
     \<lparr>hr_messages = [], hr_estimatedTokens = 0, hr_totalDbRows = length ms, hr_includedRows = 0,
      hr_droppedRows = dropped, hr_ok = ok\<rparr>"

definition selectForBudget :: "(json_object \<Rightarrow> string) \<Rightarrow> message list \<Rightarrow> int \<Rightarrow> string \<Rightarrow> history_result" where
  "selectForBudget printJ ms budget ex =
     (if ms = [] \<or> budget \<le> 0 then nothingSelected ms (budget > 0 \<or> ms = []) 0
      else let gs = groupsFrom printJ ex 0 ms in
        (case newestUser gs of
           Some u \<Rightarrow>
             if budget < hg_tokens (gs ! u) then nothingSelected ms False (int (length ms))
             else let inc = walkBack gs (length gs) (budget - hg_tokens (gs ! u)) ((replicate (length gs) False)[u := True])
               in collect ms ex (map fst (filter snd (zip gs inc)))
         | None \<Rightarrow>
             let inc = walkBack gs (length gs) budget (replicate (length gs) False)
             in collect ms ex (map fst (filter snd (zip gs inc)))))"

definition kMinHistoryBudget :: int where
  "kMinHistoryBudget = 1536"

definition kMinOutputReservation :: int where
  "kMinOutputReservation = 2048"

definition applyMinimumHistoryFloor :: "int \<Rightarrow> int \<Rightarrow> int" where
  "applyMinimumHistoryFloor historyBudget outputReservation =
     (if kMinHistoryBudget \<le> historyBudget then historyBudget
      else historyBudget + min (kMinHistoryBudget - historyBudget) (max 0 (outputReservation - kMinOutputReservation)))"

section \<open>Estimates are never negative\<close>

lemma estimate_nonneg: "0 \<le> estimateTokens s"
  by (simp add: estimateTokens_def pos_imp_zdiv_nonneg_iff)

lemma message_positive: "0 < estimateMessageTokens printJ m"
  using estimate_nonneg [of "msg_content m"] estimate_nonneg [of "printJ (msg_metadata m)"]
  by (simp add: estimateMessageTokens_def)

lemma tokens_nonneg: "0 \<le> tokensOf printJ ex ms"
  unfolding tokensOf_def by (intro sum_list_nonneg) (auto intro: less_imp_le message_positive)

lemma tokens_append: "tokensOf printJ ex (ms @ ns) = tokensOf printJ ex ms + tokensOf printJ ex ns"
  by (simp add: tokensOf_def)

text \<open>The groups cover the messages in order, up to the excluded one; a group costs what its rows cost.\<close>

lemma rows_shift: "hg_start g = length xs + a \<Longrightarrow> hg_end g = length xs + b \<Longrightarrow>
    rowsOf (xs @ ms) ex g = filter (\<lambda>m. \<not> excluded ex m) (take (b - a) (drop a ms))"
  by (simp add: rowsOf_def)

lemma groups_rows:
  "i = length xs \<Longrightarrow> list_all (\<lambda>g. hg_tokens g = tokensOf printJ ex (rowsOf (xs @ ms) ex g) \<and> 0 < hg_tokens g)
     (groupsFrom printJ ex i ms) \<and>
   concat (map (rowsOf (xs @ ms) ex) (groupsFrom printJ ex i ms)) = filter (\<lambda>m. \<not> excluded ex m) ms"
proof (induction printJ ex i ms arbitrary: xs rule: groupsFrom.induct)
  case (2 printJ ex i m ms)
  show ?case
  proof (cases "excluded ex m")
    case True
    with 2(1) [OF True, of "xs @ [m]"] 2(4) show ?thesis by simp
  next
    case no: False
    show ?thesis
    proof (cases "callsTools m")
      case True
      let ?t = "takeWhile isToolRow ms"
      let ?g = "\<lparr>hg_start = i, hg_end = Suc (i + length ?t), hg_tokens = estimateMessageTokens printJ m + tokensOf printJ ex ?t, hg_hasUser = False\<rparr>"
      have split: "xs @ m # ms = (xs @ m # ?t) @ dropWhile isToolRow ms" by simp
      have r: "rowsOf (xs @ m # ms) ex ?g = m # filter (\<lambda>m. \<not> excluded ex m) ?t"
        using no 2(4) takeWhile_eq_take [of isToolRow ms] by (simp add: rowsOf_def)
      have t: "tokensOf printJ ex (m # filter (\<lambda>m. \<not> excluded ex m) ?t) = estimateMessageTokens printJ m + tokensOf printJ ex ?t"
        using no by (simp add: tokensOf_def)
      have f: "filter (\<lambda>m. \<not> excluded ex m) ?t @ filter (\<lambda>m. \<not> excluded ex m) (dropWhile isToolRow ms) = filter (\<lambda>m. \<not> excluded ex m) ms"
        by (metis filter_append takeWhile_dropWhile_id)
      have p: "0 < hg_tokens ?g" using message_positive [of printJ m] tokens_nonneg [of printJ ex ?t] by simp
      from 2(2) [OF no True refl refl, of "xs @ m # ?t"] 2(4) show ?thesis
        using no True r t f p unfolding split [symmetric] by (simp add: Let_def)
    next
      case False
      have r: "rowsOf (xs @ m # ms) ex \<lparr>hg_start = i, hg_end = Suc i, hg_tokens = n, hg_hasUser = b\<rparr> = [m]" for n b
        using no 2(4) by (simp add: rowsOf_def)
      have t: "tokensOf printJ ex [m] = estimateMessageTokens printJ m" using no by (simp add: tokensOf_def)
      from 2(3) [OF no False, of "xs @ [m]"] 2(4) message_positive [of printJ m] show ?thesis
        using no False r t by simp
    qed
  qed
qed simp

section \<open>The walk and its reference\<close>

text \<open>The reference: the group of the newest user message, and every group from which on all the others fit together.\<close>

definition costFrom :: "history_group list \<Rightarrow> bool list \<Rightarrow> nat \<Rightarrow> nat \<Rightarrow> int" where
  "costFrom gs inc g n = (\<Sum>j \<leftarrow> filter (\<lambda>j. \<not> inc ! j) [g..<n]. hg_tokens (gs ! j))"

lemma cost_Suc: "g \<le> n \<Longrightarrow> costFrom gs inc g (Suc n) = costFrom gs inc g n + (if inc ! n then 0 else hg_tokens (gs ! n))"
  by (simp add: costFrom_def)

lemma cost_cong: "(\<And>j. j < n \<Longrightarrow> inc ! j = inc' ! j) \<Longrightarrow> costFrom gs inc g n = costFrom gs inc' g n"
proof -
  assume "\<And>j. j < n \<Longrightarrow> inc ! j = inc' ! j"
  then have "filter (\<lambda>j. \<not> inc ! j) [g..<n] = filter (\<lambda>j. \<not> inc' ! j) [g..<n]" by (intro filter_cong) auto
  then show ?thesis by (simp add: costFrom_def)
qed

lemma cost_nonneg: "list_all (\<lambda>g. 0 < hg_tokens g) gs \<Longrightarrow> n \<le> length gs \<Longrightarrow> 0 \<le> costFrom gs inc g n"
  unfolding costFrom_def by (intro sum_list_nonneg) (auto simp: list_all_length intro!: less_imp_le)

lemma walk_length [simp]: "length (walkBack gs n r inc) = length inc"
  by (induction gs n r inc rule: walkBack.induct) auto

lemma walk_spec:
  "list_all (\<lambda>g. 0 < hg_tokens g) gs \<Longrightarrow> n \<le> length gs \<Longrightarrow> length inc = length gs \<Longrightarrow> g < length gs \<Longrightarrow>
     walkBack gs n r inc ! g \<longleftrightarrow> inc ! g \<or> (g < n \<and> costFrom gs inc g n \<le> r)"
proof (induction gs n r inc rule: walkBack.induct)
  case (2 gs n r inc)
  show ?case
  proof (cases "inc ! n")
    case True
    then show ?thesis using 2(1) [OF True] 2(3-) by (cases "g < n") (auto simp: cost_Suc less_Suc_eq)
  next
    case no: False
    show ?thesis
    proof (cases "hg_tokens (gs ! n) \<le> r")
      case True
      have c: "costFrom gs (inc[n := True]) g n = costFrom gs inc g n" by (rule cost_cong) auto
      have self: "costFrom gs inc n (Suc n) = hg_tokens (gs ! n)" using no by (simp add: costFrom_def)
      show ?thesis
        using 2(2) [OF no True] 2(3-) no True c self by (cases "g < n"; cases "g = n") (auto simp: cost_Suc)
    next
      case False
      have "\<not> costFrom gs inc g (Suc n) \<le> r" if "g < Suc n"
        using that False no cost_nonneg [OF 2(3), of n inc g] 2(4) by (simp add: cost_Suc)
      then show ?thesis using no False by auto
    qed
  qed
qed simp

definition alone :: "nat option \<Rightarrow> nat \<Rightarrow> bool list" where
  "alone u n = map (\<lambda>g. Some g = u) [0..<n]"

definition chosenBy :: "history_group list \<Rightarrow> nat option \<Rightarrow> int \<Rightarrow> nat \<Rightarrow> bool" where
  "chosenBy gs u remaining g \<longleftrightarrow> Some g = u \<or> costFrom gs (alone u (length gs)) g (length gs) \<le> remaining"

definition reserved :: "history_group list \<Rightarrow> nat option \<Rightarrow> int" where
  "reserved gs u = (case u of Some g \<Rightarrow> hg_tokens (gs ! g) | None \<Rightarrow> 0)"

definition selectByRule :: "(json_object \<Rightarrow> string) \<Rightarrow> message list \<Rightarrow> int \<Rightarrow> string \<Rightarrow> message list" where
  "selectByRule printJ ms budget ex =
     (let gs = groupsFrom printJ ex 0 ms; u = newestUser gs; rest = budget - reserved gs u in
      if budget \<le> 0 \<or> rest < 0 then []
      else concat (map (\<lambda>g. rowsOf ms ex (gs ! g)) (filter (chosenBy gs u rest) [0..<length gs])))"

lemma newest_below: "newestUser gs = Some u \<Longrightarrow> u < length gs \<and> hg_hasUser (gs ! u)"
  unfolding newestUser_def by (auto dest: find_SomeD)

lemma walk_chosen:
  assumes "list_all (\<lambda>g. 0 < hg_tokens g) gs" "g < length gs"
  shows "walkBack gs (length gs) r (alone u (length gs)) ! g \<longleftrightarrow> chosenBy gs u r g"
  using walk_spec [OF assms(1) order_refl _ assms(2), of "alone u (length gs)" r] assms(2)
  by (auto simp: chosenBy_def alone_def)

lemma picked: "map fst (filter snd (zip gs inc)) = map (\<lambda>g. gs ! g) (filter (\<lambda>g. inc ! g) [0..<length gs])" if "length inc = length gs"
  using that
proof (induction gs arbitrary: inc)
  case (Cons x gs)
  then obtain b bs where inc: "inc = b # bs" "length bs = length gs" by (cases inc) auto
  have "[0..<length (x # gs)] = 0 # map Suc [0..<length gs]" by (simp add: upt_conv_Cons map_Suc_upt del: upt_Suc)
  then show ?case using Cons.IH [OF inc(2)] by (simp add: inc(1) filter_map comp_def del: upt_Suc)
qed simp

lemma groups_positive: "list_all (\<lambda>g. 0 < hg_tokens g) (groupsFrom printJ ex 0 ms)"
  using groups_rows [of 0 "[]" printJ ex ms] by (auto simp: list_all_iff)

lemma alone_None: "alone None n = replicate n False"
  by (intro nth_equalityI) (auto simp: alone_def)

lemma alone_Some: "u < n \<Longrightarrow> alone (Some u) n = (replicate n False)[u := True]"
  by (intro nth_equalityI) (auto simp: alone_def nth_list_update)

definition selectedGroups :: "(json_object \<Rightarrow> string) \<Rightarrow> message list \<Rightarrow> int \<Rightarrow> string \<Rightarrow> history_group list" where
  "selectedGroups printJ ms budget ex =
     (let gs = groupsFrom printJ ex 0 ms; u = newestUser gs; rest = budget - reserved gs u in
      map (\<lambda>g. gs ! g) (filter (chosenBy gs u rest) [0..<length gs]))"

lemma select_cases:
  "selectForBudget printJ ms budget ex =
     (if ms = [] \<or> budget \<le> 0 then nothingSelected ms (budget > 0 \<or> ms = []) 0
      else if budget < reserved (groupsFrom printJ ex 0 ms) (newestUser (groupsFrom printJ ex 0 ms))
      then nothingSelected ms False (int (length ms))
      else collect ms ex (selectedGroups printJ ms budget ex))"
proof -
  let ?gs = "groupsFrom printJ ex 0 ms"
  let ?inc = "\<lambda>u. walkBack ?gs (length ?gs) (budget - reserved ?gs u) (alone u (length ?gs))"
  have "filter (\<lambda>g. ?inc u ! g) [0..<length ?gs] = filter (chosenBy ?gs u (budget - reserved ?gs u)) [0..<length ?gs]" for u
    by (rule filter_cong) (use walk_chosen [OF groups_positive] in auto)
  then have "map fst (filter snd (zip ?gs (?inc u))) = map (\<lambda>g. ?gs ! g) (filter (chosenBy ?gs u (budget - reserved ?gs u)) [0..<length ?gs])" for u
    using picked [of "?inc u" ?gs] by (simp add: alone_def)
  note p = this
  show ?thesis
  proof (cases "newestUser ?gs")
    case None
    then show ?thesis using p [of None] by (simp add: selectForBudget_def selectedGroups_def reserved_def alone_None Let_def)
  next
    case (Some u)
    then show ?thesis using p [of "Some u"] newest_below [OF Some]
      by (simp add: selectForBudget_def selectedGroups_def reserved_def alone_Some Let_def)
  qed
qed

section \<open>What the selection guarantees\<close>

text \<open>
  The selection is the group of the newest user message together with the newest groups that fit
  beside it: a group is in exactly when it is that of the newest user message, or when it and every group
  after it, that one apart, fit what the budget leaves. The walk of the code agrees with this rule for all
  messages, budgets and placeholders.
\<close>

theorem selection_follows_rule:
  "hr_messages (selectForBudget printJ ms budget ex) = selectByRule printJ ms budget ex"
proof -
  have "chosenBy [] None r = (\<lambda>g. costFrom [] [] g 0 \<le> r)" for r by (simp add: chosenBy_def alone_def fun_eq_iff)
  then show ?thesis
    by (auto simp: select_cases selectByRule_def nothingSelected_def collect_def selectedGroups_def comp_def Let_def)
qed

lemma sum_chosen:
  assumes "\<And>g. g < n \<Longrightarrow> 0 < hg_tokens (gs ! g)" "n = length gs"
  shows "0 \<le> r \<Longrightarrow> (\<Sum>g \<leftarrow> filter (\<lambda>g. \<not> inc ! g \<and> costFrom gs inc g n \<le> r) [0..<n]. hg_tokens (gs ! g)) \<le> r"
proof -
  assume r: "0 \<le> r"
  show ?thesis
  proof (cases "\<exists>g < n. costFrom gs inc g n \<le> r")
    case True
    define k where "k = (LEAST g. g < n \<and> costFrom gs inc g n \<le> r)"
    have k: "k < n \<and> costFrom gs inc k n \<le> r" unfolding k_def by (rule LeastI_ex [OF True])
    have below: "\<not> (g < n \<and> costFrom gs inc g n \<le> r)" if "g < k" for g using not_less_Least that unfolding k_def by blast
    have split: "[0..<n] = [0..<k] @ [k..<n]" using k upt_add_eq_append [of 0 k "n - k"] by simp
    have none: "filter (\<lambda>g. \<not> inc ! g \<and> costFrom gs inc g n \<le> r) [0..<k] = []"
      using below k by (auto simp: filter_empty_conv)
    have "sum_list (map f (filter (\<lambda>g. P g \<and> Q g) xs)) \<le> sum_list (map f (filter P xs))"
      if "\<forall>x \<in> set xs. 0 \<le> f x" for f :: "nat \<Rightarrow> int" and P Q xs
      using that by (induction xs) auto
    then have "(\<Sum>g \<leftarrow> filter (\<lambda>g. \<not> inc ! g \<and> costFrom gs inc g n \<le> r) [k..<n]. hg_tokens (gs ! g)) \<le> costFrom gs inc k n"
      unfolding costFrom_def using assms(1) by (simp add: less_imp_le)
    then show ?thesis unfolding split using none k by simp
  next
    case False
    then have "filter (\<lambda>g. \<not> inc ! g \<and> costFrom gs inc g n \<le> r) [0..<n] = []" by (auto simp: filter_empty_conv)
    then show ?thesis using r by simp
  qed
qed

lemma selected_cost:
  assumes "reserved (groupsFrom printJ ex 0 ms) (newestUser (groupsFrom printJ ex 0 ms)) \<le> budget"
  shows "sum_list (map hg_tokens (selectedGroups printJ ms budget ex)) \<le> budget"
proof -
  let ?gs = "groupsFrom printJ ex 0 ms" and ?n = "length (groupsFrom printJ ex 0 ms)"
  let ?u = "newestUser ?gs" and ?inc = "alone (newestUser ?gs) (length ?gs)" and ?r = "budget - reserved ?gs (newestUser ?gs)"
  let ?t = "\<lambda>g. hg_tokens (?gs ! g)"
  have pos: "0 < ?t g" if "g < ?n" for g using groups_positive [of printJ ex ms] that by (simp add: list_all_length)
  have two: "sum_list (map ?t (filter (\<lambda>g. Some g = ?u \<or> P g) xs)) = sum_list (map ?t (filter (\<lambda>g. Some g = ?u) xs)) +
      sum_list (map ?t (filter (\<lambda>g. Some g \<noteq> ?u \<and> P g) xs))" for P xs
    by (induction xs) auto
  have user: "sum_list (map ?t (filter (\<lambda>g. Some g = ?u) [0..<?n])) = reserved ?gs ?u"
  proof (cases ?u)
    case (Some u)
    have "filter (\<lambda>g. g = u) [0..<k] = (if u < k then [u] else [])" for k by (induction k) auto
    then show ?thesis using newest_below [OF Some] Some by (simp add: reserved_def)
  qed (simp add: reserved_def)
  have "filter (\<lambda>g. Some g \<noteq> ?u \<and> costFrom ?gs ?inc g ?n \<le> ?r) [0..<?n] = filter (\<lambda>g. \<not> ?inc ! g \<and> costFrom ?gs ?inc g ?n \<le> ?r) [0..<?n]"
    by (rule filter_cong) (auto simp: alone_def)
  then have "sum_list (map ?t (filter (\<lambda>g. Some g \<noteq> ?u \<and> costFrom ?gs ?inc g ?n \<le> ?r) [0..<?n])) \<le> ?r"
    using sum_chosen [OF pos refl, of ?r ?inc] assms by simp
  then have "sum_list (map ?t (filter (chosenBy ?gs ?u ?r) [0..<?n])) \<le> budget"
    unfolding chosenBy_def [abs_def] two user by linarith
  then show ?thesis by (simp add: selectedGroups_def Let_def comp_def)
qed

lemma selected_rows: "set (selectedGroups printJ ms budget ex) \<subseteq> set (groupsFrom printJ ex 0 ms)"
  by (auto simp: selectedGroups_def Let_def)

lemma rows_cost:
  "set gs \<subseteq> set (groupsFrom printJ ex 0 ms) \<Longrightarrow>
     (\<Sum>m \<leftarrow> concat (map (rowsOf ms ex) gs). estimateMessageTokens printJ m) = sum_list (map hg_tokens gs)"
proof (induction gs)
  case (Cons g gs)
  have "hg_tokens g = tokensOf printJ ex (rowsOf ms ex g)"
    using groups_rows [of 0 "[]" printJ ex ms] Cons.prems by (auto simp: list_all_iff)
  moreover have "filter (\<lambda>m. \<not> excluded ex m) (rowsOf ms ex g) = rowsOf ms ex g" by (simp add: rowsOf_def)
  ultimately have "hg_tokens g = (\<Sum>m \<leftarrow> rowsOf ms ex g. estimateMessageTokens printJ m)" by (simp add: tokensOf_def)
  with Cons show ?case by simp
qed simp

text \<open>
  What is selected never costs more than the budget: the estimates of the selected messages add up to
  at most the budget, and to nothing when there is none.
\<close>

theorem selection_within_budget:
  "(\<Sum>m \<leftarrow> hr_messages (selectForBudget printJ ms budget ex). estimateMessageTokens printJ m) \<le> max 0 budget"
  using selected_cost [of printJ ex ms budget] rows_cost [OF selected_rows [of printJ ms budget ex]]
  by (auto simp: select_cases nothingSelected_def collect_def Let_def)

text \<open>
  The selection keeps the order of the conversation and invents nothing: it is a subsequence of the
  messages, without the placeholder of the running stream.
\<close>

theorem selection_keeps_order:
  "subseq (hr_messages (selectForBudget printJ ms budget ex)) (filter (\<lambda>m. \<not> excluded ex m) ms)"
proof -
  let ?gs = "groupsFrom printJ ex 0 ms"
  have "subseq (map (\<lambda>g. ?gs ! g) (filter P [0..<length ?gs])) (map (\<lambda>g. ?gs ! g) [0..<length ?gs])" for P
    by (intro subseq_map subseq_filter_left)
  then have "subseq (selectedGroups printJ ms budget ex) ?gs" by (simp add: selectedGroups_def Let_def map_nth)
  moreover have "subseq (concat (map f xs)) (concat (map f ys))" if "subseq xs ys" for f :: "history_group \<Rightarrow> message list" and xs ys
    using that by (induction rule: list_emb.induct) (auto simp: subseq_append')
  ultimately have "subseq (concat (map (rowsOf ms ex) (selectedGroups printJ ms budget ex))) (concat (map (rowsOf ms ex) ?gs))" by blast
  then show ?thesis using groups_rows [of 0 "[]" printJ ex ms]
    by (auto simp: select_cases nothingSelected_def collect_def Let_def)
qed

text \<open>A message that is no result of a tool starts a group.\<close>

lemma groups_append:
  "\<not> isToolRow m \<Longrightarrow> groupsFrom printJ ex i (xs @ m # ys) = groupsFrom printJ ex i xs @ groupsFrom printJ ex (i + length xs) (m # ys)"
proof (induction printJ ex i xs rule: groupsFrom.induct)
  case (2 printJ ex i x xs)
  have parts: "takeWhile isToolRow (xs @ m # ys) = takeWhile isToolRow xs" "dropWhile isToolRow (xs @ m # ys) = dropWhile isToolRow xs @ m # ys"
    using 2(4) by (induction xs) auto
  have len: "Suc (i + length (takeWhile isToolRow xs)) + length (dropWhile isToolRow xs) = i + length (x # xs)"
    by (metis add_Suc add_Suc_right group_cancel.add1 length_Cons length_append takeWhile_dropWhile_id)
  show ?case
  proof (cases "excluded ex x")
    case True
    then show ?thesis using 2(1) [OF True 2(4)] by (simp del: groupsFrom.simps(2)) (simp add: groupsFrom.simps(2) [of _ _ _ x])
  next
    case no: False
    show ?thesis
    proof (cases "callsTools x")
      case True
      have e: "Suc (i + length (takeWhile isToolRow xs)) + length (dropWhile isToolRow xs) = Suc (i + length xs)" using len by simp
      show ?thesis using 2(2) [OF no True refl refl 2(4), unfolded e] no True parts
        by (simp add: groupsFrom.simps(2) [of _ _ _ x] Let_def del: groupsFrom.simps(2))
    next
      case False
      then show ?thesis using 2(3) [OF no False 2(4)] no by (simp add: groupsFrom.simps(2) [of _ _ _ x] del: groupsFrom.simps(2))
    qed
  qed
qed simp

lemma no_user_groups:
  "\<forall>m \<in> set ms. \<not> excluded ex m \<longrightarrow> msg_role m \<noteq> ''user'' \<Longrightarrow> \<forall>g \<in> set (groupsFrom printJ ex i ms). \<not> hg_hasUser g"
proof (induction printJ ex i ms rule: groupsFrom.induct)
  case (2 printJ ex i m ms)
  have "set (dropWhile isToolRow ms) \<subseteq> set ms" by (auto dest: set_dropWhileD)
  then have "\<forall>m \<in> set (dropWhile isToolRow ms). \<not> excluded ex m \<longrightarrow> msg_role m \<noteq> ''user''" using 2(4) by auto
  then show ?case using 2 by (auto simp: Let_def)
qed simp

lemma newest_last: "\<forall>g \<in> set hs. \<not> hg_hasUser g \<Longrightarrow> hg_hasUser g \<Longrightarrow> newestUser (gs @ g # hs) = Some (length gs)"
proof -
  assume none: "\<forall>g \<in> set hs. \<not> hg_hasUser g" and "hg_hasUser g"
  let ?l = "gs @ g # hs"
  have "rev [0..<length ?l] = rev [Suc (length gs)..<length ?l] @ length gs # rev [0..<length gs]"
  proof -
    have "[0..<length ?l] = [0..<length gs] @ length gs # [Suc (length gs)..<length ?l]"
      using upt_add_eq_append [of 0 "length gs" "Suc (length hs)"] upt_conv_Cons [of "length gs" "length ?l"] by simp
    then show ?thesis by simp
  qed
  moreover have "\<not> hg_hasUser (?l ! j)" if "j \<in> set [Suc (length gs)..<length ?l]" for j
    using that none by (auto simp: nth_append nth_Cons' )
  then have "find (\<lambda>j. hg_hasUser (?l ! j)) (rev [Suc (length gs)..<length ?l] @ ks) = find (\<lambda>j. hg_hasUser (?l ! j)) ks" for ks
  proof -
    have "(\<forall>x \<in> set as. \<not> P x) \<Longrightarrow> find P (as @ ks) = find P ks" for P and as :: "nat list" by (induction as) auto
    with \<open>\<And>j. j \<in> set [Suc (length gs)..<length ?l] \<Longrightarrow> \<not> hg_hasUser (?l ! j)\<close> show ?thesis by auto
  qed
  ultimately show ?thesis using \<open>hg_hasUser g\<close> by (simp add: newestUser_def)
qed

text \<open>
  The newest message of the user is never dropped: whenever the selection succeeds it contains it,
  however small the budget and however much was said since.
\<close>

theorem newest_user_message_kept:
  assumes "ms = xs @ m # ys" "msg_role m = ''user''" "\<not> excluded ex m"
    and "\<forall>y \<in> set ys. \<not> excluded ex y \<longrightarrow> msg_role y \<noteq> ''user''" "hr_ok (selectForBudget printJ ms budget ex)"
  shows "m \<in> set (hr_messages (selectForBudget printJ ms budget ex))"
proof -
  let ?g = "\<lparr>hg_start = length xs, hg_end = Suc (length xs), hg_tokens = estimateMessageTokens printJ m, hg_hasUser = True\<rparr>"
  let ?gs = "groupsFrom printJ ex 0 ms" and ?G = "groupsFrom printJ ex 0 xs"
  have "\<not> isToolRow m" "\<not> callsTools m" using assms(2) by (simp_all add: isToolRow_def callsTools_def)
  then have gs: "?gs = ?G @ ?g # groupsFrom printJ ex (Suc (length xs)) ys"
    using groups_append [of m printJ ex 0 xs ys] assms(1,2,3) by simp
  have "newestUser ?gs = Some (length ?G)" unfolding gs by (rule newest_last [OF no_user_groups [OF assms(4)]]) simp
  then have "?g \<in> set (selectedGroups printJ ms budget ex)"
    unfolding selectedGroups_def chosenBy_def Let_def set_map set_filter
    by (intro image_eqI [of _ _ "length ?G"]) (simp_all add: gs)
  moreover have "m \<in> set (rowsOf ms ex ?g)" using assms(1,3) by (simp add: rowsOf_def)
  ultimately have "m \<in> set (hr_messages (collect ms ex (selectedGroups printJ ms budget ex)))"
    by (auto simp: collect_def Let_def)
  then show ?thesis using assms(1,5) by (auto simp: select_cases nothingSelected_def split: if_splits)
qed

text \<open>
  A call of tools and its results travel together: if the selection contains the call or one of the
  results that follow it, it contains them all.
\<close>

theorem tool_calls_kept_whole:
  assumes "ms = xs @ m # ts @ ys" "callsTools m" "\<not> excluded ex m" "list_all isToolRow ts" "ys = [] \<or> \<not> isToolRow (hd ys)"
    and "distinct ms" "x \<in> set (m # ts)" "x \<in> set (hr_messages (selectForBudget printJ ms budget ex))"
  shows "set (filter (\<lambda>m. \<not> excluded ex m) (m # ts)) \<subseteq> set (hr_messages (selectForBudget printJ ms budget ex))"
proof -
  let ?g = "\<lparr>hg_start = length xs, hg_end = Suc (length xs + length ts),
     hg_tokens = estimateMessageTokens printJ m + tokensOf printJ ex ts, hg_hasUser = False\<rparr>"
  let ?gs = "groupsFrom printJ ex 0 ms" and ?S = "selectedGroups printJ ms budget ex"
  have tw: "takeWhile isToolRow (ts @ ys) = ts" "dropWhile isToolRow (ts @ ys) = ys"
    using assms(4,5) by (induction ts) (auto simp: takeWhile_eq_Nil_iff dropWhile_eq_self_iff)
  have "\<not> isToolRow m" using assms(2) by (simp add: isToolRow_def callsTools_def)
  then have gs: "?gs = groupsFrom printJ ex 0 xs @ ?g # groupsFrom printJ ex (Suc (length xs + length ts)) ys"
    using groups_append [of m printJ ex 0 xs "ts @ ys"] assms(1,2,3) by (simp add: tw Let_def)
  have rows: "rowsOf ms ex ?g = filter (\<lambda>m. \<not> excluded ex m) (m # ts)" using assms(1) by (simp add: rowsOf_def)
  have res: "hr_messages (selectForBudget printJ ms budget ex) = concat (map (rowsOf ms ex) ?S)"
    using assms(8) by (auto simp: select_cases nothingSelected_def collect_def Let_def split: if_splits)
  then obtain h where h: "h \<in> set ?S" "x \<in> set (rowsOf ms ex h)" using assms(8) by auto
  have "distinct (concat (map (rowsOf ms ex) ?gs))" using groups_rows [of 0 "[]" printJ ex ms] assms(6) by simp
  moreover have "x \<in> set (rowsOf ms ex ?g)" using h(2) assms(7) unfolding rows by (auto simp: rowsOf_def)
  moreover have "h \<in> set ?gs" using h(1) selected_rows by blast
  ultimately have "h = ?g" using h(2) unfolding gs by auto
  then have "set (rowsOf ms ex ?g) \<subseteq> set (concat (map (rowsOf ms ex) ?S))" using h(1) by auto
  then show ?thesis unfolding res rows .
qed

text \<open>
  The floor takes from the reservation for the answer no more than it needs and no more than there is
  above 2048 tokens: the adjusted budget is the given one, or the least of the floor and what can be reclaimed.
\<close>

theorem floor_takes_what_it_may:
  "applyMinimumHistoryFloor hb out = max hb (min 1536 (hb + max 0 (out - 2048)))"
  by (simp add: applyMinimumHistoryFloor_def kMinHistoryBudget_def kMinOutputReservation_def min_def max_def)

section \<open>A small conversation\<close>

definition demo_row :: "string \<Rightarrow> string \<Rightarrow> string \<Rightarrow> nat \<Rightarrow> message" where
  "demo_row i r f n = new_message\<lparr>msg_id := i, msg_role := r, msg_finishReason := f, msg_content := replicate n CHR ''x''\<rparr>"

definition demo_history :: "message list" where
  "demo_history =
    [demo_row ''m1'' ''user'' [] 9, demo_row ''m2'' ''assistant'' ''stop'' 9, demo_row ''m3'' ''user'' [] 9,
     demo_row ''m4'' ''assistant'' ''tool_calls'' 9, demo_row ''m5'' ''tool'' [] 30, demo_row ''m6'' ''assistant'' ''stop'' 9]"

lemma demo_selection:
  "map msg_id (hr_messages (selectForBudget (\<lambda>_. []) demo_history 40 [])) = [''m3'', ''m4'', ''m5'', ''m6'']"
  "hr_ok (selectForBudget (\<lambda>_. []) demo_history 40 [])"
  by code_simp+

theorem newest_user_message_kept_witness:
  "demo_row ''m3'' ''user'' [] 9 \<in> set (hr_messages (selectForBudget (\<lambda>_. []) demo_history 40 []))"
  by (rule newest_user_message_kept [where xs = "take 2 demo_history" and ys = "drop 3 demo_history"])
    (use demo_selection(2) in \<open>simp_all add: demo_history_def demo_row_def excluded_def\<close>)

theorem tool_calls_kept_whole_witness:
  "demo_row ''m5'' ''tool'' [] 30 \<in> set (hr_messages (selectForBudget (\<lambda>_. []) demo_history 40 []))"
proof -
  have "demo_row ''m4'' ''assistant'' ''tool_calls'' 9 \<in> set (hr_messages (selectForBudget (\<lambda>_. []) demo_history 40 []))"
    by code_simp
  then have "set (filter (\<lambda>m. \<not> excluded [] m) [demo_row ''m4'' ''assistant'' ''tool_calls'' 9, demo_row ''m5'' ''tool'' [] 30])
      \<subseteq> set (hr_messages (selectForBudget (\<lambda>_. []) demo_history 40 []))"
    by (intro tool_calls_kept_whole [where xs = "take 3 demo_history" and ys = "drop 5 demo_history"
          and x = "demo_row ''m4'' ''assistant'' ''tool_calls'' 9"])
      (simp_all add: demo_history_def demo_row_def callsTools_def isToolRow_def excluded_def new_message_def)
  then show ?thesis by (simp add: excluded_def)
qed

section \<open>Where the comments promise more\<close>

text \<open>
  The older message of the user is kept while the newer answer is left out, against the comment in the walk;
  a placeholder among the results of tools counts as an included row; with no budget no row counts as dropped.
\<close>

lemma older_kept_newer_skipped:
  "map msg_id (hr_messages (selectForBudget (\<lambda>_. []) demo_history 14 [])) = [''m3'', ''m6'']"
  by code_simp

lemma placeholder_counted:
  "(let r = selectForBudget (\<lambda>_. []) demo_history 40 ''m5'' in
      hr_includedRows r = 6 \<and> length (hr_messages r) = 5)"
  by code_simp

lemma nothing_dropped_without_budget:
  "(let r = selectForBudget (\<lambda>_. []) demo_history 0 [] in hr_messages r = [] \<and> hr_droppedRows r = 0 \<and> \<not> hr_ok r)"
  by code_simp

end
