(* ===== verification/Spec2Isabelle.thy ===== *)
theory Spec2Isabelle
  imports Provider_Scheduler Ragp_Service Cascade_Replies Shell_Nesting Chat_Laws Streaming_Manager Store_Laws
    Task_Outcomes Membership_Limits Poll_Outcomes Heartbeat_Outcomes Wire_Outcomes History_Budget
begin

text \<open>
  A verification development for the backend of Verzeta Studio (src/backend), a desktop program in which
  several agents talk with the user, and with one another, in one chat. All paths below are under
  src/backend.

  THE PARTS AND HOW THEY INTERACT. A turn of an agent asks for a slot of its model provider (the provider
  scheduler), streams its reply into the message service through the streaming manager, which the chat view
  follows by signals, and ends in the cascade controller. The cascade decides whether the reply is retried,
  held for the voice gate, given to the reply classifier (RAGP) or passed on, and which member speaks next.
  The messages that go into a request to the model are chosen by the history budget.
  The classifier names targets by rules, by a model or from its cache. Who is a member is the roster of the
  membership service, which the user edits as a whole and agents edit by tools. Beside the conversation runs
  a tracked task: a plan of steps, driven by the task runner, anchored to the chat by the task gate, changed
  by the task tools and watched by the observer. Agents also start polls and vote, and agents that are given
  a heartbeat run in the background on a schedule and post their reports into a chat. A shell command of an
  agent is inspected before it runs. Paired devices reach all of this from outside: the daemon verzeta-remote
  authenticates them, turns their operations into calls of the program, sends them its events, and passes
  requests of the program on to them.

  THE THEORIES.
    Prelude: text as Qt has it, hash maps as association lists, the locale invariant_machine.
    Provider_Scheduler: services/chat/provider-scheduler.cpp, the slots per provider. Waiters are granted
      in order, an invariant ties counts, queues and peaks together.
    Ragp_Types, Ragp_Rules, Ragp_Cache, Ragp_Service: services/ragp, the classification of a reply, its
      rules, its cache and the pipeline. Targets come from the roster, rules are sound and complete, the
      cache keeps its bounds, the failure policy is spelt out.
    Membership: models/member.h and the lookups by alias, with the locale member_directory.
      Membership_Service: services/membership-service.cpp, the tables of project and conversation members.
      Membership_Tools: tools/membership. Membership_Laws, Membership_Outcomes: the tables stay well formed,
      setting a roster is all or nothing, an added member is found. Membership_Limits: what tools may do to
      a team the user made.
    Poll_Service, Poll_Tools: services/poll-service.cpp and tools/polls. Poll_Laws, Poll_Outcomes: the
      tables stay well formed, a closed poll is final, an accepted vote counts, tools ask a question once.
    Heartbeat_Schedule: utils/heartbeat-schedule.cpp, the text of a schedule and its next fire time.
      Heartbeat_Queue: the throttled queue of due runs, with the locale throttled_queue.
      Heartbeat_Config: the stored configurations and reports, utils/heartbeat-report-parser.cpp.
      Heartbeat_Service: services/heartbeat-subagent-service.cpp, runs, reviews, posts and their timers.
      Heartbeat_Tools: tools/heartbeat. Heartbeat_Laws: the invariant of the service. Heartbeat_Outcomes:
      which schedules ever fire, one run at a time, what a pause and a reviewing agent do, what is recorded.
    Cascade, Cascade_Props, Cascade_Laws, Cascade_Replies: services/chat/cascade-controller.cpp, the queues
      of a round, the limits, the retries, voice holds, classification and the end of an exchange. Cascade
      holds the model, Cascade_Props the invariant and the measure of used turns per operation,
      Cascade_Laws the properties of runs, Cascade_Replies what each kind of reply does.
    Shell_Inspector, Shell_Laws, Shell_Nesting: utils/shell-command-inspector.cpp, lexer and parser of the
      inspection. Shell_Laws computes what plain words, quotes and variables lex to and shows what is
      refused; Shell_Nesting relates a substitution to its text.
    Json, Chat_Records: models/message.cpp, tool-call.cpp, attachment.cpp and their JSON form.
    Message_Service: services/message-service.cpp over its tables, with streams, the delta timer, messages
      that are only shown, attachments and tool calls. Store_Laws: its tables stay well formed.
    Message_List, Chat_View, Chat_Laws: models/message-list-model.cpp as the listener of the service; the
      view shows the text of every stream up to the deltas that wait.
    Streaming_Manager: services/chat/streaming-manager.cpp, the stream of one turn; a turn is stored as its
      edits leave it. Its locale stream_sink states what it needs of the service.
    History_Budget: services/history-budgeter.cpp, which messages go into a request. The selection is equal to
      a reference rule, within the budget and in order; tool calls and results travel together.
    Plan_Records, Plan_Service, Plan_Laws: models/agent-plan.cpp and services/plan-service.cpp, the tables of
      plans, steps and artifacts; creating a plan is all or nothing.
    Task_Runner: services/task-runner.cpp and task-gate-service.cpp. Task_Tools:
      services/task-controller.cpp. Task_Observer: services/task-observer.cpp and the run's queue of task
      dispatches. Task_Laws: what advancing a plan decides and which operations keep the invariant.
      Task_Machine: every entry point as an operation of one machine. Task_Outcomes: skipping, completing,
      stopping, starting, and where code and documentation differ.
    Wire_Validator, Wire_Auth: remote/server/wire-validator.h and wire-auth.cpp, pairing codes and clients.
      Wire_Auth_Laws: a code pairs once and within five minutes, revocation is final.
      Wire_Session: the state of a session of remote/server/wire-session.cpp, what an operation can do
      (wire_effect), rate limits, authentication. Wire_Ops, Wire_Ops_Work, Wire_Ops_Canvas: one definition
      for each operation, opX for WireSession::opX. Wire_Events: the events of onHostSignal. Wire_Daemon: the
      dispatch of a frame (opTable), the callbacks (resume), the sessions of wire-server.cpp, the awaited
      calls of wire-host-client.cpp, and the events of the daemon (daemon_step).
      Wire_Laws: every operation answers its request once. Wire_Balance, Wire_Requests, Wire_History: the
      balance of answers and debts, per effect, per callback, per event. Wire_Rpc, Wire_Exchange: the same
      for the requests of the host. Wire_Machine: histories and the invariant. Wire_Names: in whose name the
      daemon calls. Wire_Limits: bounds of a session. Wire_Writing: which of the frames and answers that were
      sent were also written, to an open socket and to a connected host. Wire_Demo, Wire_Outcomes: the
      properties, and where the code does less.

  INTERFACES. Each stateful part interprets invariant_machine (initial states, admitted operations, an
  invariant) on its own step function: the scheduler, the cache, the classifier service, the cascade, the
  chat, the tasks, the rosters (twice: members, team), the polls (twice: polls, asked), the heartbeat queue
  and service, the store of paired clients and the daemon (three times: exchange, remote, sockets). result_cache states what the classifier
  pipeline needs of its cache and is interpreted by that cache, member_directory by the two lookups of
  members, stream_sink by the message service, throttled_queue by the queue of heartbeats. session_property
  lifts what every operation keeps of one session to all sessions of the daemon, and is interpreted by the
  limits of a session.

  CONVENTIONS. A QString is a list of characters of the Latin-1 range, an empty one also stands for the null
  string, except where a null column matters (hasNullText, and the agent that added a member); the em dash
  and the sign for less-or-equal of a text are written as a hyphen and <=, and pictographs are left out. The
  %1 of a pattern is replaced as QString::arg does for the arguments at hand. A hash map is an association
  list, a table the list of its rows in order of insertion, and equal sort keys keep that order. Every SQL
  statement fails when the database is down or a constraint of the schema is violated; services that share
  the file have a flag each, and they are the same database. The clock, fresh ids, whether a transaction
  commits, the answers of language models, and readers and printers of JSON text are arguments of the
  definitions. The local clock of schedules has no shifts. A signal is an entry in the log of its sender;
  where a listener acts on it during the call, the model applies the listener at that point. Posted
  callbacks are a queue that the event loop runs. In the remote server the store, the link and the reader
  exist as long as a session, numbers in JSON are integers, a frame is its size and its parsed value, the
  log marks a frame sent to a closing socket as not written, and the ids of requests are a sequence drawn
  without repetition, which the properties take as a hypothesis. wire-host-client.cpp erases a pending call
  through an iterator it took before the callback ran, and the callback may add calls; which entry goes is
  the argument en_erased (Qt's hash table). steady says that the iterator still names its entry; the
  properties that count answers to clients need it, and moved_table_loses_and_repeats shows why.

  BOUNDS. Recursion is structural or has a measure. The inspector's nesting counter stops at kMaxDepth (16):
  the model passes the remaining levels down as a natural number, so it needs no further fuel. A cascade
  starts at most 500 turns between two completions or resets, whatever the replies are. The loop over deferred posts
  of a heartbeat is a partial function, and Heartbeat_Outcomes shows when it returns and when it does not.
  Carrying out the effects of an operation (perform) ends because each callback has less weight than its
  call (offline_weight).

  NOT MODELLED, with the reasons in PROJECT.json. The turn engine (conversation-run.cpp), the tool dispatcher
  and the request builder compose prompts and third-party calls around the modelled parts. The services of
  settings, agents, folders, skills, canvas and audio are storage and forwarding, or work on files, processes
  and the network; model providers, native inference, vector search and the user interface are calls of
  libraries that are not in the repository. Of the remote server, the reader of the database and the bridge
  on the side of the program are left out: the first turns rows of SQL into JSON, the second reflects calls
  onto Qt objects. Of the modelled parts, trace output, the formatting of rows for QML, the installation of
  a classifier backend, and the listening, TLS, framing and reconnection of the remote server are left out.
\<close>

end
